(* ===== verification/Prelude.thy ===== *)
theory Prelude
  imports Main "HOL-Library.Char_ord" "HOL-Library.List_Lexorder" "HOL-Library.Sublist"
    "HOL-Library.Signed_Division"
begin

text \<open>
  What every component shares: the part of Go's \<open>strings\<close> package the daemon uses, with
  strings as lists of bytes; the two lemma collections the proofs draw on; and generic facts on
  association-style updates of lists.

  A Go string is a byte sequence, so it is a \<^typ>\<open>char list\<close> here.  Operations that Go
  defines on Unicode code points (\<open>ToLower\<close>, \<open>EqualFold\<close>, \<open>TrimSpace\<close>,
  \<open>Fields\<close>) are modelled on the ASCII range, where code point and byte agree.
\<close>

named_theorems go_strings "unfolding rules for the string operations of the Go standard library"
named_theorems sql_simps "evaluation rules for the SQL statements"
named_theorems integrity "preservation of the database integrity constraints"

type_synonym bytes = "char list"

subsection \<open>Results\<close>

abbreviation is_ok :: "'e + 'a \<Rightarrow> bool" where
  "is_ok r \<equiv> \<not> isl r"

text \<open>Sequencing of fallible computations that thread a state: \<open>if err != nil { return err }\<close>.\<close>

definition go_bind ::
  "('s \<Rightarrow> ('e + 'a) \<times> 's) \<Rightarrow> ('a \<Rightarrow> 's \<Rightarrow> ('e + 'b) \<times> 's) \<Rightarrow> 's \<Rightarrow> ('e + 'b) \<times> 's" where
  "go_bind m f s = (case m s of (Inl e, s') \<Rightarrow> (Inl e, s') | (Inr a, s') \<Rightarrow> f a s')"

definition go_return :: "'a \<Rightarrow> 's \<Rightarrow> ('e + 'a) \<times> 's" where
  "go_return a s = (Inr a, s)"

definition go_fail :: "'e \<Rightarrow> 's \<Rightarrow> ('e + 'a) \<times> 's" where
  "go_fail e s = (Inl e, s)"

lemma go_bind_Inl [simp]: "m s = (Inl e, s') \<Longrightarrow> go_bind m f s = (Inl e, s')"
  by (simp add: go_bind_def)

lemma go_bind_Inr [simp]: "m s = (Inr a, s') \<Longrightarrow> go_bind m f s = f a s'"
  by (simp add: go_bind_def)

text \<open>An invariant passes through a sequence if both halves keep it.\<close>

lemma go_bind_inv:
  assumes "P (snd (m s))" and "\<And>a s'. m s = (Inr a, s') \<Longrightarrow> P s' \<Longrightarrow> P (snd (f a s'))"
  shows "P (snd (go_bind m f s))"
  using assms by (auto simp: go_bind_def split: prod.splits sum.splits)

lemma go_bind_ok:
  "go_bind m f s = (Inr b, t) \<longleftrightarrow> (\<exists>a s'. m s = (Inr a, s') \<and> f a s' = (Inr b, t))"
  by (auto simp: go_bind_def split: prod.splits sum.splits)

lemma snd_go_return [simp]: "snd (go_return a s) = s"
  by (simp add: go_return_def)

lemma snd_go_fail [simp]: "snd (go_fail e s) = s"
  by (simp add: go_fail_def)

subsection \<open>Machine integers and durations\<close>

text \<open>
  Go's \<open>int\<close> and \<open>time.Duration\<close> are 64-bit on every platform the daemon builds
  for; they are \<^typ>\<open>int\<close> here, and \<open>wrap64\<close> is applied where an operation
  can leave the range.  Durations and instants count nanoseconds.
\<close>

definition wrap64 :: "int \<Rightarrow> int" where
  "wrap64 x = (x + 2 ^ 63) mod 2 ^ 64 - 2 ^ 63"

definition in_range64 :: "int \<Rightarrow> bool" where
  "in_range64 x = (- (2 ^ 63) \<le> x \<and> x < 2 ^ 63)"

definition second :: int where
  "second = 1000000000"

lemma wrap64_id: "in_range64 x \<Longrightarrow> wrap64 x = x"
  by (simp add: wrap64_def in_range64_def)

subsection \<open>Go's \<open>strings\<close> package\<close>

definition has_prefix :: "string \<Rightarrow> string \<Rightarrow> bool" where
  "has_prefix s p = (take (length p) s = p)"

definition has_suffix :: "string \<Rightarrow> string \<Rightarrow> bool" where
  "has_suffix s p = has_prefix (rev s) (rev p)"

definition trim_prefix :: "string \<Rightarrow> string \<Rightarrow> string" where
  "trim_prefix s p = (if has_prefix s p then drop (length p) s else s)"

definition trim_suffix :: "string \<Rightarrow> string \<Rightarrow> string" where
  "trim_suffix s p = (if has_suffix s p then take (length s - length p) s else s)"

fun index_byte :: "char \<Rightarrow> string \<Rightarrow> nat option" where
  "index_byte c [] = None"
| "index_byte c (x # xs) = (if x = c then Some 0 else map_option Suc (index_byte c xs))"

fun index_str :: "string \<Rightarrow> string \<Rightarrow> nat option" where
  "index_str p [] = (if p = [] then Some 0 else None)"
| "index_str p (x # xs) = (if has_prefix (x # xs) p then Some 0 else map_option Suc (index_str p xs))"

definition contains :: "string \<Rightarrow> string \<Rightarrow> bool" where
  "contains s p = (index_str p s \<noteq> None)"

definition contains_any :: "string \<Rightarrow> string \<Rightarrow> bool" where
  "contains_any s cs = (\<exists>c \<in> set s. c \<in> set cs)"

text \<open>\<open>strings.Split\<close> on a one-byte separator: always at least one piece.\<close>

fun split_on :: "char \<Rightarrow> string \<Rightarrow> string list" where
  "split_on c [] = [[]]"
| "split_on c (x # xs) =
     (if x = c then [] # split_on c xs
      else (case split_on c xs of [] \<Rightarrow> [[x]] | p # ps \<Rightarrow> (x # p) # ps))"

lemma in_split_on: "p \<in> set (split_on c s) \<Longrightarrow> c \<notin> set p"
  by (induction s arbitrary: p) (auto split: if_splits list.splits)

lemma split_on_ne [simp]: "split_on c s \<noteq> []"
  by (induction s) (auto split: list.splits)

lemma split_on_append: "split_on c (s @ c # t) = split_on c s @ split_on c t"
proof (induction s)
  case (Cons a s)
  then show ?case by (cases "split_on c s") simp_all
qed simp

lemma split_on_plain: "c \<notin> set s \<Longrightarrow> split_on c s = [s]"
  by (induction s) auto

fun join_with :: "string \<Rightarrow> string list \<Rightarrow> string" where
  "join_with sep [] = []"
| "join_with sep [p] = p"
| "join_with sep (p # q # ps) = p @ sep @ join_with sep (q # ps)"

text \<open>\<open>strings.ReplaceAll\<close> with a non-empty pattern: leftmost, non-overlapping.\<close>

function replace_all :: "string \<Rightarrow> string \<Rightarrow> string \<Rightarrow> string" where
  "replace_all old new s =
     (if old = [] \<or> s = [] then s
      else if has_prefix s old then new @ replace_all old new (drop (length old) s)
      else hd s # replace_all old new (tl s))"
  by pat_completeness auto
termination
  by (relation "measure (\<lambda>(old, new, s). length s)") auto

declare replace_all.simps [simp del]

text \<open>ASCII white space: the bytes \<open>unicode.IsSpace\<close> accepts below 128.\<close>

definition is_space :: "char \<Rightarrow> bool" where
  "is_space c = (c \<in> {CHR '' '', CHR 0x09, CHR 0x0A, CHR 0x0B, CHR 0x0C, CHR 0x0D})"

definition trim_left :: "string \<Rightarrow> string" where
  "trim_left s = dropWhile is_space s"

definition trim_right :: "string \<Rightarrow> string" where
  "trim_right s = rev (dropWhile is_space (rev s))"

definition trim_space :: "string \<Rightarrow> string" where
  "trim_space s = trim_right (trim_left s)"

text \<open>\<open>strings.Fields\<close>: the maximal runs of non-space bytes.\<close>

function str_fields :: "string \<Rightarrow> string list" where
  "str_fields s =
     (let t = dropWhile is_space s in
      if t = [] then [] else takeWhile (\<lambda>c. \<not> is_space c) t # str_fields (dropWhile (\<lambda>c. \<not> is_space c) t))"
  by pat_completeness auto

lemma length_dropWhile_less:
  assumes "t = dropWhile P s" "t \<noteq> []"
  shows "length (dropWhile (\<lambda>c. \<not> P c) t) < length s"
proof -
  from assms have "\<not> P (hd t)" by (metis hd_dropWhile)
  with assms(2) have "length (dropWhile (\<lambda>c. \<not> P c) t) < length t"
    by (cases t) (auto simp: le_imp_less_Suc length_dropWhile_le)
  also have "length t \<le> length s" using assms(1) by (simp add: length_dropWhile_le)
  finally show ?thesis .
qed

termination str_fields
  by (relation "measure length") (auto intro: length_dropWhile_less)

declare str_fields.simps [simp del]

definition to_lower_char :: "char \<Rightarrow> char" where
  "to_lower_char c =
     (if 65 \<le> (of_char c :: nat) \<and> (of_char c :: nat) \<le> 90 then char_of ((of_char c :: nat) + 32) else c)"

definition to_lower :: "string \<Rightarrow> string" where
  "to_lower s = map to_lower_char s"

definition to_upper_char :: "char \<Rightarrow> char" where
  "to_upper_char c =
     (if 97 \<le> (of_char c :: nat) \<and> (of_char c :: nat) \<le> 122 then char_of ((of_char c :: nat) - 32) else c)"

definition to_upper :: "string \<Rightarrow> string" where
  "to_upper s = map to_upper_char s"

definition equal_fold :: "string \<Rightarrow> string \<Rightarrow> bool" where
  "equal_fold a b = (to_lower a = to_lower b)"

definition default_string :: "string \<Rightarrow> string \<Rightarrow> string" where
  "default_string v fallback = (if v = [] then fallback else v)"

end
