(* ===== verification/Service.thy ===== *)
theory Service
  imports Prelude
begin

text \<open>
  The service entity of \<open>internal/domain/service/service.go\<close>: the live value
  \<open>Service\<close>, the request that creates it, and the persisted \<open>ServiceRecord\<close> of
  \<open>internal/storage\<close> with the two conversions between them.  A Go map from string to string is
  a list of pairs, an absent \<open>*time.Time\<close> or \<open>*int\<close> is \<^const>\<open>None\<close>.
\<close>

type_synonym env = "(string \<times> string) list"

definition StatusStopped :: string where "StatusStopped = ''stopped''"
definition StatusRunning :: string where "StatusRunning = ''running''"
definition StatusFailed :: string where "StatusFailed = ''failed''"

definition RestartAlways :: string where "RestartAlways = ''always''"
definition RestartOnFailure :: string where "RestartOnFailure = ''on-failure''"
definition RestartNever :: string where "RestartNever = ''no''"

definition defaultGracefulTimeout :: int where "defaultGracefulTimeout = 5 * second"
definition defaultMaxRestarts :: int where "defaultMaxRestarts = 5"
definition defaultRestartWindow :: int where "defaultRestartWindow = 60 * second"

record service =
  svc_ID :: string
  svc_ProjectID :: string
  svc_Kind :: string
  svc_Name :: string
  svc_Command :: string
  svc_Args :: "string list"
  svc_Cwd :: string
  svc_Env :: env
  svc_Autostart :: bool
  svc_DependsOn :: "string list"
  svc_RestartPolicy :: string
  svc_GracefulTimeout :: int
  svc_MaxRestarts :: int
  svc_RestartWindow :: int
  svc_PID :: int
  svc_Status :: string
  svc_StartedAt :: "int option"
  svc_ExitedAt :: "int option"
  svc_ExitCode :: "int option"
  svc_LogFile :: string

record start_request =
  req_ID :: string
  req_Name :: string
  req_Command :: string
  req_Args :: "string list"
  req_Cwd :: string
  req_Env :: env
  req_ProjectID :: string
  req_Kind :: string
  req_Autostart :: bool
  req_DependsOn :: "string list"
  req_RestartPolicy :: string
  req_GracefulTimeout :: int
  req_MaxRestarts :: int
  req_RestartWindow :: int

text \<open>\<open>storage.ServiceRecord\<close>: the shape of the services table.\<close>

record service_record =
  rec_ID :: string
  rec_ProjectID :: string
  rec_Kind :: string
  rec_Name :: string
  rec_Command :: string
  rec_Args :: "string list"
  rec_Cwd :: string
  rec_Env :: env
  rec_Autostart :: bool
  rec_DependsOn :: "string list"
  rec_RestartPolicy :: string
  rec_GracefulTimeoutSeconds :: int
  rec_MaxRestarts :: int
  rec_RestartWindowSeconds :: int
  rec_Status :: string
  rec_PID :: int
  rec_LogFile :: string
  rec_StartedAt :: "int option"
  rec_ExitedAt :: "int option"
  rec_ExitCode :: "int option"

definition defaultPolicy :: "string \<Rightarrow> string" where
  "defaultPolicy v = (if v = [] then RestartNever else v)"

definition defaultDuration :: "int \<Rightarrow> int \<Rightarrow> int" where
  "defaultDuration v fallback = (if v \<le> 0 then fallback else v)"

definition defaultInt :: "int \<Rightarrow> int \<Rightarrow> int" where
  "defaultInt v fallback = (if v \<le> 0 then fallback else v)"

definition toService :: "start_request \<Rightarrow> service" where
  "toService r =
     \<lparr> svc_ID = req_ID r, svc_ProjectID = req_ProjectID r,
       svc_Kind = default_string (req_Kind r) ''native'',
       svc_Name = req_Name r, svc_Command = req_Command r, svc_Args = req_Args r,
       svc_Cwd = req_Cwd r, svc_Env = req_Env r,
       svc_Autostart = req_Autostart r, svc_DependsOn = req_DependsOn r,
       svc_RestartPolicy = defaultPolicy (req_RestartPolicy r),
       svc_GracefulTimeout = defaultDuration (req_GracefulTimeout r) defaultGracefulTimeout,
       svc_MaxRestarts = defaultInt (req_MaxRestarts r) defaultMaxRestarts,
       svc_RestartWindow = defaultDuration (req_RestartWindow r) defaultRestartWindow,
       svc_PID = 0, svc_Status = StatusStopped,
       svc_StartedAt = None, svc_ExitedAt = None, svc_ExitCode = None, svc_LogFile = [] \<rparr>"

text \<open>\<open>int(d / time.Second)\<close> is Go's division, which truncates towards zero.\<close>

definition toRecord :: "service \<Rightarrow> service_record" where
  "toRecord s =
     \<lparr> rec_ID = svc_ID s, rec_ProjectID = svc_ProjectID s, rec_Kind = svc_Kind s,
       rec_Name = svc_Name s, rec_Command = svc_Command s, rec_Args = svc_Args s,
       rec_Cwd = svc_Cwd s, rec_Env = svc_Env s,
       rec_Autostart = svc_Autostart s, rec_DependsOn = svc_DependsOn s,
       rec_RestartPolicy = svc_RestartPolicy s,
       rec_GracefulTimeoutSeconds = svc_GracefulTimeout s sdiv second,
       rec_MaxRestarts = svc_MaxRestarts s,
       rec_RestartWindowSeconds = svc_RestartWindow s sdiv second,
       rec_Status = svc_Status s, rec_PID = svc_PID s, rec_LogFile = svc_LogFile s,
       rec_StartedAt = svc_StartedAt s, rec_ExitedAt = svc_ExitedAt s,
       rec_ExitCode = svc_ExitCode s \<rparr>"

text \<open>\<open>time.Duration(n) * time.Second\<close> wraps at 64 bits.\<close>

definition fromRecord :: "service_record \<Rightarrow> service" where
  "fromRecord r =
     \<lparr> svc_ID = rec_ID r, svc_ProjectID = rec_ProjectID r, svc_Kind = rec_Kind r,
       svc_Name = rec_Name r, svc_Command = rec_Command r, svc_Args = rec_Args r,
       svc_Cwd = rec_Cwd r, svc_Env = rec_Env r,
       svc_Autostart = rec_Autostart r, svc_DependsOn = rec_DependsOn r,
       svc_RestartPolicy = defaultPolicy (rec_RestartPolicy r),
       svc_GracefulTimeout =
         defaultDuration (wrap64 (rec_GracefulTimeoutSeconds r * second)) defaultGracefulTimeout,
       svc_MaxRestarts = defaultInt (rec_MaxRestarts r) defaultMaxRestarts,
       svc_RestartWindow =
         defaultDuration (wrap64 (rec_RestartWindowSeconds r * second)) defaultRestartWindow,
       svc_PID = rec_PID r,
       svc_Status = default_string (rec_Status r) StatusStopped,
       svc_StartedAt = rec_StartedAt r, svc_ExitedAt = rec_ExitedAt r,
       svc_ExitCode = rec_ExitCode r, svc_LogFile = rec_LogFile r \<rparr>"

lemmas service_defaults =
  defaultPolicy_def defaultDuration_def defaultInt_def default_string_def
  defaultGracefulTimeout_def defaultMaxRestarts_def defaultRestartWindow_def

lemmas status_names = StatusStopped_def StatusRunning_def StatusFailed_def
lemmas policy_names = RestartAlways_def RestartOnFailure_def RestartNever_def

section \<open>What survives a restart of the daemon\<close>

text \<open>The fields every live service has set: what \<open>toService\<close> and \<open>fromRecord\<close> guarantee.\<close>

definition complete_service :: "service \<Rightarrow> bool" where
  "complete_service s \<longleftrightarrow>
     svc_RestartPolicy s \<noteq> [] \<and> svc_Status s \<noteq> [] \<and> 0 < svc_GracefulTimeout s \<and>
     0 < svc_MaxRestarts s \<and> 0 < svc_RestartWindow s"

lemma toService_complete: "complete_service (toService r)"
  by (simp add: complete_service_def toService_def service_defaults policy_names status_names
      second_def)

lemma fromRecord_complete: "complete_service (fromRecord r)"
  by (simp add: complete_service_def fromRecord_def service_defaults policy_names status_names
      second_def)

text \<open>A duration as it comes back from its column of whole seconds.\<close>

definition reload_duration :: "int \<Rightarrow> int \<Rightarrow> int" where
  "reload_duration d fallback = (if d < second then fallback else d - d mod second)"

lemma reload_duration_eq:
  assumes "0 < d" "in_range64 d"
  shows "defaultDuration (wrap64 (d sdiv second * second)) fallback = reload_duration d fallback"
proof -
  have pos: "0 < second" by (simp add: second_def)
  have sdiv: "d sdiv second = d div second"
    using assms(1) pos by (simp add: signed_divide_int_def)
  have eq: "d div second * second = d - d mod second"
    by (simp add: minus_mod_eq_div_mult)
  have "0 \<le> d mod second" "d mod second < second" "d mod second \<le> d"
    using pos assms(1) by (auto intro: zmod_le_nonneg_dividend)
  with assms have "in_range64 (d - d mod second)" by (simp add: in_range64_def)
  then have w: "wrap64 (d sdiv second * second) = d - d mod second"
    by (simp add: sdiv eq wrap64_id)
  have "d < second \<Longrightarrow> d - d mod second = 0" using assms(1) by simp
  moreover have "\<not> d < second \<Longrightarrow> 0 < d - d mod second"
    using \<open>d mod second < second\<close> by simp
  ultimately show ?thesis by (auto simp: w defaultDuration_def reload_duration_def)
qed

end
