(* ===== verification/Topo.thy ===== *)
theory Topo
  imports Service "HOL-Library.Multiset" "HOL-Library.Monad_Syntax"
begin

text \<open>
  The dependency order of \<open>internal/domain/service/topo.go\<close> (Kahn's algorithm).  The Go maps
  \<open>present\<close>, \<open>inDegree\<close> and \<open>dependents\<close> are total functions, since reading a missing
  key of a Go map gives the zero value.  The worklist loop is a partial function, and that it
  returns on every input is a theorem.
\<close>

record dependency_node =
  node_ID :: string
  node_DependsOn :: "string list"

datatype topo_error = DependencyCycle "string list"

definition present_ids :: "dependency_node list \<Rightarrow> string \<Rightarrow> bool" where
  "present_ids nodes d \<longleftrightarrow> d \<in> set (map node_ID nodes)"

fun add_edges :: "(string \<Rightarrow> bool) \<Rightarrow> string \<Rightarrow> string list \<Rightarrow>
    (string \<Rightarrow> int) \<times> (string \<Rightarrow> string list) \<Rightarrow> (string \<Rightarrow> int) \<times> (string \<Rightarrow> string list)" where
  "add_edges present n [] g = g"
| "add_edges present n (dep # deps) (inDegree, dependents) =
     (if \<not> present dep then add_edges present n deps (inDegree, dependents)
      else add_edges present n deps
             (inDegree(n := inDegree n + 1), dependents(dep := dependents dep @ [n])))"

fun build_edges :: "(string \<Rightarrow> bool) \<Rightarrow> dependency_node list \<Rightarrow>
    (string \<Rightarrow> int) \<times> (string \<Rightarrow> string list) \<Rightarrow> (string \<Rightarrow> int) \<times> (string \<Rightarrow> string list)" where
  "build_edges present [] g = g"
| "build_edges present (n # ns) g =
     build_edges present ns (add_edges present (node_ID n) (node_DependsOn n) g)"

text \<open>The inner loop over the dependents of the service just ordered.\<close>

fun release_dependents :: "string list \<Rightarrow> (string \<Rightarrow> int) \<Rightarrow> string list \<Rightarrow>
    (string \<Rightarrow> int) \<times> string list" where
  "release_dependents [] inDegree queue = (inDegree, queue)"
| "release_dependents (dep # deps) inDegree queue =
     (let inDegree' = inDegree(dep := inDegree dep - 1) in
      if inDegree' dep = 0 then release_dependents deps inDegree' (queue @ [dep])
      else release_dependents deps inDegree' queue)"

partial_function (option) kahn_loop :: "(string \<Rightarrow> string list) \<Rightarrow> string list \<Rightarrow>
    (string \<Rightarrow> int) \<Rightarrow> string list \<Rightarrow> ((string \<Rightarrow> int) \<times> string list) option" where
  "kahn_loop dependents queue inDegree order =
     (case queue of
        [] \<Rightarrow> Some (inDegree, order)
      | i # rest \<Rightarrow>
          kahn_loop dependents (snd (release_dependents (dependents i) inDegree rest))
            (fst (release_dependents (dependents i) inDegree rest)) (order @ [i]))"

definition topo_sort_nodes :: "dependency_node list \<Rightarrow> (topo_error + string list) option" where
  "topo_sort_nodes nodes =
     (let (inDegree, dependents) =
            build_edges (present_ids nodes) nodes (\<lambda>_. 0, \<lambda>_. []);
          ids = map node_ID nodes
      in map_option
           (\<lambda>(inDegree', order).
              if length order \<noteq> length nodes
              then Inl (DependencyCycle (filter (\<lambda>i. 0 < inDegree' i) ids))
              else Inr order)
           (kahn_loop dependents (filter (\<lambda>i. inDegree i = 0) ids) inDegree []))"

definition TopoSort :: "service list \<Rightarrow> (topo_error + string list) option" where
  "TopoSort services =
     topo_sort_nodes (map (\<lambda>s. \<lparr> node_ID = svc_ID s, node_DependsOn = svc_DependsOn s \<rparr>) services)"

section \<open>The loop returns\<close>

text \<open>The ids that still wait for a dependency.\<close>

definition waiting :: "(string \<Rightarrow> int) \<Rightarrow> string set" where
  "waiting g = {x. 0 < g x}"

lemma waiting_dec: "waiting (g(d := g d - 1)) = (if g d = 1 then waiting g - {d} else waiting g)"
  by (auto simp: waiting_def)

lemma waiting_inc: "finite (waiting g) \<Longrightarrow> finite (waiting (g(d := g d + 1)))"
  by (rule finite_subset [of _ "insert d (waiting g)"]) (auto simp: waiting_def)

lemma release_Cons:
  "release_dependents (d # ds) g q =
     release_dependents ds (g(d := g d - 1)) (if g d = 1 then q @ [d] else q)"
  by (simp add: Let_def)

declare release_dependents.simps(2) [simp del]

lemma release_measure:
  assumes "finite (waiting g)"
  shows "finite (waiting (fst (release_dependents ds g q))) \<and>
    length (snd (release_dependents ds g q)) + card (waiting (fst (release_dependents ds g q))) =
    length q + card (waiting g)"
  using assms
proof (induction ds arbitrary: g q)
  case (Cons d ds)
  let ?g = "g(d := g d - 1)"
  have fin: "finite (waiting ?g)" using Cons.prems by (simp add: waiting_dec del: fun_upd_apply)
  show ?case
  proof (cases "g d = 1")
    case True
    then have d: "d \<in> waiting g" by (simp add: waiting_def)
    from Cons.IH [OF fin, of "q @ [d]"] True card_Suc_Diff1 [OF Cons.prems d] waiting_dec [of g d]
    show ?thesis by (simp add: release_Cons del: fun_upd_apply)
  next
    case False
    with Cons.IH [OF fin, of q] waiting_dec [of g d] show ?thesis
      by (simp add: release_Cons del: fun_upd_apply)
  qed
qed simp

lemma kahn_loop_returns:
  assumes "finite (waiting g)"
  shows "\<exists>r. kahn_loop dep q g ord = Some r"
  using assms
proof (induction "length q + card (waiting g)" arbitrary: q g ord rule: less_induct)
  case less
  show ?case
  proof (cases q)
    case Nil
    then show ?thesis by (simp add: kahn_loop.simps)
  next
    case (Cons i rest)
    let ?r = "release_dependents (dep i) g rest"
    from release_measure [OF less(2), of "dep i" rest] Cons
    have "finite (waiting (fst ?r))" "length (snd ?r) + card (waiting (fst ?r)) < length q + card (waiting g)"
      by auto
    with less(1) have "\<exists>t. kahn_loop dep (snd ?r) (fst ?r) (ord @ [i]) = Some t" by blast
    then show ?thesis by (subst kahn_loop.simps) (simp add: Cons)
  qed
qed

lemma add_edges_finite:
  "finite (waiting (fst g)) \<Longrightarrow> finite (waiting (fst (add_edges pr n ds g)))"
  by (induction pr n ds g rule: add_edges.induct) (simp_all add: waiting_inc)

lemma build_edges_finite:
  "finite (waiting (fst g)) \<Longrightarrow> finite (waiting (fst (build_edges pr ns g)))"
  by (induction pr ns g rule: build_edges.induct) (simp_all add: add_edges_finite)

lemma topo_sort_nodes_returns: "\<exists>r. topo_sort_nodes nodes = Some r"
proof -
  obtain g h where b: "build_edges (present_ids nodes) nodes (\<lambda>_. 0, \<lambda>_. []) = (g, h)" by force
  have "finite (waiting g)"
    using build_edges_finite [of "(\<lambda>_. 0, \<lambda>_. [])" "present_ids nodes" nodes]
    by (simp add: b waiting_def)
  from kahn_loop_returns [OF this] obtain r
    where "kahn_loop h (filter (\<lambda>i. g i = 0) (map node_ID nodes)) g [] = Some r" by blast
  then show ?thesis by (simp add: topo_sort_nodes_def b Let_def)
qed

section \<open>The order respects the dependencies\<close>

text \<open>The effect of \<open>release_dependents\<close> in one step, when every counter covers its decrements.\<close>

lemma release_fst: "fst (release_dependents ds g q) x = g x - int (count_list ds x)"
  by (induction ds arbitrary: g q) (simp_all add: release_Cons)

lemma release_snd:
  assumes "\<And>x. int (count_list ds x) \<le> g x"
  shows "\<exists>new. snd (release_dependents ds g q) = q @ new \<and> distinct new \<and>
    set new = {x \<in> set ds. g x = int (count_list ds x)}"
  using assms
proof (induction ds arbitrary: g q)
  case (Cons d ds)
  let ?g = "g(d := g d - 1)"
  let ?q = "if g d = 1 then q @ [d] else q"
  have "int (count_list ds x) \<le> ?g x" for x using Cons.prems [of x] by (auto split: if_splits)
  from Cons.IH [OF this, of ?q] obtain new
    where new: "snd (release_dependents ds ?g ?q) = ?q @ new" "distinct new"
      "set new = {x \<in> set ds. ?g x = int (count_list ds x)}" by blast
  show ?case
  proof (cases "g d = 1")
    case True
    then have "count_list ds d = 0" using Cons.prems [of d] by simp
    then have "d \<notin> set ds" by (simp add: count_list_0_iff)
    then have "set new = {x \<in> set ds. g x = int (count_list ds x)}" using new(3) by auto
    then have "set (d # new) = {x \<in> set (d # ds). g x = int (count_list (d # ds) x)}"
      using \<open>d \<notin> set ds\<close> \<open>count_list ds d = 0\<close> True by auto
    moreover have "distinct (d # new)" using new \<open>d \<notin> set ds\<close> by simp
    moreover have "snd (release_dependents (d # ds) g q) = q @ d # new"
      using new(1) True by (simp add: release_Cons del: fun_upd_apply)
    ultimately show ?thesis by blast
  next
    case False
    have d: "d \<in> set new \<longleftrightarrow> g d = int (count_list (d # ds) d)"
      using new(3) False by (cases "d \<in> set ds") (auto simp: count_list_0_iff)
    have "x \<in> set new \<longleftrightarrow> x \<in> set (d # ds) \<and> g x = int (count_list (d # ds) x)" for x
      using new(3) d by (cases "x = d") simp_all
    then have "set new = {x \<in> set (d # ds). g x = int (count_list (d # ds) x)}" by blast
    moreover have "snd (release_dependents (d # ds) g q) = q @ new"
      using new(1) False by (simp add: release_Cons del: fun_upd_apply)
    ultimately show ?thesis using new(2) by blast
  qed
qed simp

text \<open>What an id waits for: the dependencies of every node that carries it.\<close>

definition deps_of :: "dependency_node list \<Rightarrow> string \<Rightarrow> string list" where
  "deps_of nodes x = concat (map node_DependsOn (filter (\<lambda>n. node_ID n = x) nodes))"

lemma add_edges_fst:
  "fst (add_edges pr n ds g) x = fst g x + (if x = n then int (length (filter pr ds)) else 0)"
  by (induction pr n ds g rule: add_edges.induct) auto

lemma add_edges_snd:
  "count_list (snd (add_edges pr n ds g) d) x =
     count_list (snd g d) x + (if x = n \<and> pr d then count_list ds d else 0)"
  by (induction pr n ds g rule: add_edges.induct) auto

lemma build_edges_fst:
  "fst (build_edges pr ns g) x = fst g x + int (length (filter pr (deps_of ns x)))"
  by (induction pr ns g rule: build_edges.induct) (auto simp: add_edges_fst deps_of_def)

lemma build_edges_snd:
  "count_list (snd (build_edges pr ns g) d) x =
     count_list (snd g d) x + (if pr d then count_list (deps_of ns x) d else 0)"
  by (induction pr ns g rule: build_edges.induct) (auto simp: add_edges_snd deps_of_def)

definition respects_deps :: "dependency_node list \<Rightarrow> string list \<Rightarrow> bool" where
  "respects_deps nodes ord \<longleftrightarrow>
     (\<forall>xs y zs. ord = xs @ y # zs \<longrightarrow>
        (\<forall>d \<in> set (deps_of nodes y). present_ids nodes d \<longrightarrow> d \<in> set xs))"

definition missing :: "dependency_node list \<Rightarrow> string list \<Rightarrow> string \<Rightarrow> nat" where
  "missing nodes ord x = length (filter (\<lambda>d. present_ids nodes d \<and> d \<notin> set ord) (deps_of nodes x))"

definition kahn_inv ::
  "dependency_node list \<Rightarrow> string list \<Rightarrow> (string \<Rightarrow> int) \<Rightarrow> string list \<Rightarrow> bool" where
  "kahn_inv nodes q g ord \<longleftrightarrow>
     distinct (ord @ q) \<and> set (ord @ q) = {x \<in> node_ID ` set nodes. g x = 0} \<and>
     (\<forall>x. g x = int (missing nodes ord x)) \<and> respects_deps nodes ord"

lemma missing_snoc:
  assumes "i \<notin> set ord" "present_ids nodes i"
  shows "missing nodes ord x = missing nodes (ord @ [i]) x + count_list (deps_of nodes x) i"
proof -
  have "length (filter (\<lambda>d. present_ids nodes d \<and> d \<notin> set ord) ds) =
    length (filter (\<lambda>d. present_ids nodes d \<and> d \<notin> set (ord @ [i])) ds) + count_list ds i" for ds
    using assms by (induction ds) auto
  then show ?thesis by (simp add: missing_def)
qed

lemma deps_of_absent: "x \<notin> node_ID ` set nodes \<Longrightarrow> deps_of nodes x = []"
  by (force simp: deps_of_def filter_empty_conv)

lemma count_deps_present: "0 < count_list (deps_of nodes x) i \<Longrightarrow> x \<in> node_ID ` set nodes"
  by (rule ccontr) (simp add: deps_of_absent)

lemma respects_deps_snoc:
  assumes "respects_deps nodes ord" "missing nodes ord i = 0"
  shows "respects_deps nodes (ord @ [i])"
  unfolding respects_deps_def
proof (intro allI impI ballI)
  fix xs y zs d
  assume eq: "ord @ [i] = xs @ y # zs" and d: "d \<in> set (deps_of nodes y)" "present_ids nodes d"
  show "d \<in> set xs"
  proof (cases zs rule: rev_cases)
    case Nil
    with eq d assms(2) show ?thesis by (auto simp: missing_def filter_empty_conv)
  next
    case (snoc zs' z)
    with eq have "ord = xs @ y # zs'" by simp
    with d assms(1) show ?thesis by (auto simp: respects_deps_def)
  qed
qed

lemma kahn_step:
  assumes inv: "kahn_inv nodes (i # rest) g ord"
    and h: "\<And>d x. count_list (h d) x = (if present_ids nodes d then count_list (deps_of nodes x) d else 0)"
  shows "kahn_inv nodes (snd (release_dependents (h i) g rest))
    (fst (release_dependents (h i) g rest)) (ord @ [i])"
proof -
  have g: "g x = int (missing nodes ord x)" for x using inv by (simp add: kahn_inv_def)
  have i: "i \<notin> set ord" "i \<in> node_ID ` set nodes" "g i = 0"
    using inv by (auto simp: kahn_inv_def)
  then have pi: "present_ids nodes i" by (simp add: present_ids_def)
  have m: "missing nodes ord x = missing nodes (ord @ [i]) x + count_list (h i) x" for x
    using missing_snoc [OF i(1) pi] h pi by simp
  have "int (count_list (h i) x) \<le> g x" for x by (simp add: g m)
  from release_snd [OF this, of rest] obtain new
    where new: "snd (release_dependents (h i) g rest) = rest @ new" "distinct new"
      "set new = {x \<in> set (h i). g x = int (count_list (h i) x)}" by blast
  have fst: "fst (release_dependents (h i) g rest) x = int (missing nodes (ord @ [i]) x)" for x
    by (simp add: release_fst g m)
  have in_h: "x \<in> set (h i) \<longleftrightarrow> 0 < count_list (h i) x" for x
    by (metis bot_nat_0.not_eq_extremum count_list_0_iff)
  have ids: "x \<in> set (h i) \<Longrightarrow> x \<in> node_ID ` set nodes" for x
    using count_deps_present [of nodes x i] h pi in_h by auto
  have new': "x \<in> set new \<longleftrightarrow> x \<in> node_ID ` set nodes \<and> 0 < g x \<and> missing nodes (ord @ [i]) x = 0" for x
    using ids [of x] in_h [of x] by (auto simp: new(3) g m)
  have old: "x \<in> set (ord @ i # rest) \<longleftrightarrow> x \<in> node_ID ` set nodes \<and> g x = 0" for x
    using inv by (simp add: kahn_inv_def)
  have zero: "g x = 0 \<Longrightarrow> missing nodes (ord @ [i]) x = 0" for x by (simp add: g m)
  have "distinct ((ord @ [i]) @ rest @ new)"
  proof -
    have "distinct (ord @ i # rest)" using inv by (simp add: kahn_inv_def)
    moreover have "x \<in> set new \<Longrightarrow> x \<notin> set (ord @ i # rest)" for x unfolding old new' by simp
    ultimately show ?thesis using new(2) by auto
  qed
  moreover have "set ((ord @ [i]) @ rest @ new) = {x \<in> node_ID ` set nodes. int (missing nodes (ord @ [i]) x) = 0}"
  proof (rule set_eqI)
    fix x
    have "x \<in> set ((ord @ [i]) @ rest @ new) \<longleftrightarrow> x \<in> set (ord @ i # rest) \<or> x \<in> set new" by auto
    also have "\<dots> \<longleftrightarrow> x \<in> {x \<in> node_ID ` set nodes. int (missing nodes (ord @ [i]) x) = 0}"
      unfolding old new' using zero [of x] g [of x] by auto
    finally show "x \<in> set ((ord @ [i]) @ rest @ new) \<longleftrightarrow>
      x \<in> {x \<in> node_ID ` set nodes. int (missing nodes (ord @ [i]) x) = 0}" .
  qed
  moreover have "respects_deps nodes (ord @ [i])"
    using inv i(3) g by (intro respects_deps_snoc) (auto simp: kahn_inv_def)
  ultimately show ?thesis
    unfolding kahn_inv_def new(1) by (simp add: fst)
qed

definition lists_dependents :: "dependency_node list \<Rightarrow> (string \<Rightarrow> string list) \<Rightarrow> bool" where
  "lists_dependents nodes h \<longleftrightarrow>
     (\<forall>d x. count_list (h d) x = (if present_ids nodes d then count_list (deps_of nodes x) d else 0))"

lemma kahn_loop_inv:
  assumes ret: "kahn_loop h q g ord = Some r" and h: "lists_dependents nodes h"
    and inv: "kahn_inv nodes q g ord"
  shows "kahn_inv nodes [] (fst r) (snd r)"
proof -
  have "lists_dependents nodes h \<longrightarrow> kahn_inv nodes q g ord \<longrightarrow> kahn_inv nodes [] (fst r) (snd r)"
  proof (rule kahn_loop.raw_induct [where P = "\<lambda>h q g ord r. lists_dependents nodes h \<longrightarrow>
        kahn_inv nodes q g ord \<longrightarrow> kahn_inv nodes [] (fst r) (snd r)", OF _ ret], intro impI)
    fix f h q g ord r
    assume IH: "\<And>h q g ord r. f h q g ord = Some r \<Longrightarrow> lists_dependents nodes h \<longrightarrow>
        kahn_inv nodes q g ord \<longrightarrow> kahn_inv nodes [] (fst r) (snd r)"
      and step: "(case q of [] \<Rightarrow> Some (g, ord) | i # rest \<Rightarrow>
          f h (snd (release_dependents (h i) g rest)) (fst (release_dependents (h i) g rest))
            (ord @ [i])) = Some r"
      and h: "lists_dependents nodes h" and inv: "kahn_inv nodes q g ord"
    show "kahn_inv nodes [] (fst r) (snd r)"
    proof (cases q)
      case Nil
      with step inv show ?thesis by auto
    next
      case (Cons i rest)
      from kahn_step [OF inv [unfolded Cons]] h
      have "kahn_inv nodes (snd (release_dependents (h i) g rest))
        (fst (release_dependents (h i) g rest)) (ord @ [i])"
        by (simp add: lists_dependents_def)
      with IH h step Cons show ?thesis by auto
    qed
  qed
  with h inv show ?thesis by blast
qed

text \<open>The result of the whole sort, as a final state of the loop.\<close>

lemma topo_sort_nodes_final:
  assumes "distinct (map node_ID nodes)"
  obtains g ord where "kahn_inv nodes [] g ord"
    "topo_sort_nodes nodes =
      Some (if length ord \<noteq> length nodes
            then Inl (DependencyCycle (filter (\<lambda>i. 0 < g i) (map node_ID nodes))) else Inr ord)"
proof -
  obtain g h where b: "build_edges (present_ids nodes) nodes (\<lambda>_. 0, \<lambda>_. []) = (g, h)" by force
  have g: "g x = int (missing nodes [] x)" for x
    using build_edges_fst [of "present_ids nodes" nodes "(\<lambda>_. 0, \<lambda>_. [])" x]
    by (simp add: b missing_def)
  have h: "lists_dependents nodes h"
    using build_edges_snd [of "present_ids nodes" nodes "(\<lambda>_. 0, \<lambda>_. [])"]
    by (simp add: b lists_dependents_def)
  let ?q = "filter (\<lambda>i. g i = 0) (map node_ID nodes)"
  have inv: "kahn_inv nodes ?q g []"
    using assms by (auto simp: kahn_inv_def g respects_deps_def)
  have "finite (waiting g)"
    using build_edges_finite [of "(\<lambda>_. 0, \<lambda>_. [])" "present_ids nodes" nodes]
    by (simp add: b waiting_def)
  from kahn_loop_returns [OF this] obtain g' ord
    where ret: "kahn_loop h ?q g [] = Some (g', ord)" by fastforce
  from kahn_loop_inv [OF ret h inv] that [of g' ord] ret show thesis
    by (simp add: topo_sort_nodes_def b Let_def)
qed

section \<open>Cycles\<close>

definition dep_edges :: "dependency_node list \<Rightarrow> (string \<times> string) set" where
  "dep_edges nodes = {(d, x). d \<in> set (deps_of nodes x) \<and> present_ids nodes d}"

lemma dep_edges_ids:
  assumes "(d, x) \<in> dep_edges nodes"
  shows "d \<in> node_ID ` set nodes" "x \<in> node_ID ` set nodes"
proof -
  from assms have "present_ids nodes d" "deps_of nodes x \<noteq> []" by (auto simp: dep_edges_def)
  then show "d \<in> node_ID ` set nodes" "x \<in> node_ID ` set nodes"
    using deps_of_absent [of x nodes] by (auto simp: present_ids_def)
qed

lemma respects_deps_position:
  assumes "respects_deps nodes ord" "distinct ord" "(d, x) \<in> dep_edges nodes" "x \<in> set ord"
  shows "\<exists>xs ys. ord = xs @ x # ys \<and> d \<in> set xs"
proof -
  from split_list [OF assms(4)] obtain xs ys where ord: "ord = xs @ x # ys" by blast
  from assms(3) have d: "d \<in> set (deps_of nodes x)" "present_ids nodes d" by (simp_all add: dep_edges_def)
  from assms(1) [unfolded respects_deps_def, rule_format, OF ord d] ord
  show ?thesis by (intro exI conjI)
qed

lemma ordered_closed:
  assumes "kahn_inv nodes [] g ord" "(d, x) \<in> (dep_edges nodes)\<^sup>*" "x \<in> set ord"
  shows "d \<in> set ord"
  using assms(2,3)
proof (induction rule: converse_rtrancl_induct)
  case (step d y)
  then have "y \<in> set ord" by simp
  moreover have "respects_deps nodes ord" "distinct ord" using assms(1) by (simp_all add: kahn_inv_def)
  ultimately obtain xs ys where "ord = xs @ y # ys" "d \<in> set xs"
    using respects_deps_position step(1) by blast
  then show ?case by simp
qed simp

lemma ordered_before:
  assumes "respects_deps nodes ord" "distinct ord" "(d, x) \<in> (dep_edges nodes)\<^sup>+" "x \<in> set ord"
  shows "\<exists>xs ys. ord = xs @ x # ys \<and> d \<in> set xs"
  using assms(3)
proof (induction rule: converse_trancl_induct)
  case (base d)
  with respects_deps_position assms show ?case by blast
next
  case (step d y)
  then obtain xs ys where o: "ord = xs @ x # ys" "y \<in> set xs" by blast
  with respects_deps_position [OF assms(1,2) step(1)] obtain us vs
    where u: "ord = us @ y # vs" "d \<in> set us" by auto
  from o(2) obtain as bs where "xs = as @ y # bs" by (meson split_list)
  with o u assms(2) have "us = as" by (metis append.assoc append_Cons append_eq_Cons_conv
        distinct_append not_distinct_conv_prefix append_Cons_eq_iff distinct.simps(2) disjoint_iff
        list.set_intros(1) Un_iff set_append)
  with u(2) \<open>xs = as @ y # bs\<close> have "d \<in> set xs" by simp
  with o(1) show ?case by blast
qed

lemma acyclic_ordered:
  assumes "kahn_inv nodes [] g ord" "(c, c) \<in> (dep_edges nodes)\<^sup>+"
  shows "c \<notin> set ord"
  using ordered_before [of nodes ord c c] assms by (fastforce simp: kahn_inv_def)

lemma stuck_pred:
  assumes "kahn_inv nodes [] g ord" "x \<in> node_ID ` set nodes" "x \<notin> set ord"
  shows "\<exists>d. (d, x) \<in> dep_edges nodes \<and> d \<in> node_ID ` set nodes - set ord"
proof -
  from assms have "missing nodes ord x \<noteq> 0" by (auto simp: kahn_inv_def)
  then obtain d where "d \<in> set (deps_of nodes x)" "present_ids nodes d" "d \<notin> set ord"
    by (auto simp: missing_def filter_empty_conv)
  then show ?thesis by (auto simp: dep_edges_def present_ids_def)
qed

lemma closed_set_has_cycle:
  assumes "finite S" "\<And>x. x \<in> S \<Longrightarrow> \<exists>d \<in> S. (d, x) \<in> E" "x \<in> S"
  shows "\<exists>c. (c, c) \<in> E\<^sup>+ \<and> (c, x) \<in> E\<^sup>*"
proof (rule ccontr)
  assume no: "\<not> ?thesis"
  define R where "R = {y \<in> S. (y, x) \<in> E\<^sup>*}"
  let ?E = "E \<inter> R \<times> R"
  have "acyclic ?E"
  proof (rule acyclicI, rule allI, rule notI)
    fix c assume c: "(c, c) \<in> ?E\<^sup>+"
    then have "(c, c) \<in> E\<^sup>+" by (rule trancl_mono) blast
    moreover from c have "c \<in> R" by (induction rule: converse_trancl_induct) auto
    ultimately show False using no by (auto simp: R_def)
  qed
  moreover have "finite ?E" using assms(1) by (auto simp: R_def)
  ultimately have "wf ?E" by (rule finite_acyclic_wf [rotated])
  moreover have "x \<in> R" using assms(3) by (simp add: R_def)
  ultimately obtain m where m: "m \<in> R" "\<And>d. (d, m) \<in> ?E \<Longrightarrow> d \<notin> R" by (metis wfE_min)
  then obtain d where "d \<in> S" "(d, m) \<in> E" using assms(2) [of m] by (auto simp: R_def)
  with m(1) have "d \<in> R" by (auto simp: R_def intro: converse_rtrancl_into_rtrancl)
  with m \<open>(d, m) \<in> E\<close> show False by blast
qed

lemma stuck_iff_cycle:
  assumes "kahn_inv nodes [] g ord" "x \<in> node_ID ` set nodes"
  shows "x \<notin> set ord \<longleftrightarrow> (\<exists>c. (c, c) \<in> (dep_edges nodes)\<^sup>+ \<and> (c, x) \<in> (dep_edges nodes)\<^sup>*)"
proof
  assume "x \<notin> set ord"
  with closed_set_has_cycle [of "node_ID ` set nodes - set ord" "dep_edges nodes" x]
    stuck_pred [OF assms(1)] assms(2)
  show "\<exists>c. (c, c) \<in> (dep_edges nodes)\<^sup>+ \<and> (c, x) \<in> (dep_edges nodes)\<^sup>*" by blast
next
  assume "\<exists>c. (c, c) \<in> (dep_edges nodes)\<^sup>+ \<and> (c, x) \<in> (dep_edges nodes)\<^sup>*"
  with ordered_closed [OF assms(1)] acyclic_ordered [OF assms(1)] show "x \<notin> set ord" by blast
qed

section \<open>The properties of the sort\<close>

definition service_nodes :: "service list \<Rightarrow> dependency_node list" where
  "service_nodes services =
     map (\<lambda>s. \<lparr> node_ID = svc_ID s, node_DependsOn = svc_DependsOn s \<rparr>) services"

lemma TopoSort_nodes: "TopoSort services = topo_sort_nodes (service_nodes services)"
  by (simp add: TopoSort_def service_nodes_def)

lemma service_node_ids [simp]: "map node_ID (service_nodes ss) = map svc_ID ss"
  by (simp add: service_nodes_def comp_def)

lemma service_node_ids_image [simp]: "node_ID ` set (service_nodes ss) = svc_ID ` set ss"
  by (metis list.set_map service_node_ids)

lemma length_service_nodes [simp]: "length (service_nodes ss) = length ss"
  by (simp add: service_nodes_def)

lemma service_edges:
  "(d, x) \<in> dep_edges (service_nodes ss) \<longleftrightarrow>
     d \<in> svc_ID ` set ss \<and> (\<exists>s \<in> set ss. svc_ID s = x \<and> d \<in> set (svc_DependsOn s))"
proof -
  have "d \<in> set (deps_of (service_nodes ss) x) \<longleftrightarrow> (\<exists>s \<in> set ss. svc_ID s = x \<and> d \<in> set (svc_DependsOn s))"
    by (auto simp: deps_of_def service_nodes_def)
  then show ?thesis by (auto simp: dep_edges_def present_ids_def simp del: set_map) (auto)
qed

lemma TopoSort_final:
  assumes "distinct (map svc_ID services)"
  obtains g ord where "kahn_inv (service_nodes services) [] g ord"
    "TopoSort services =
      Some (if length ord \<noteq> length services
            then Inl (DependencyCycle (filter (\<lambda>i. 0 < g i) (map svc_ID services))) else Inr ord)"
  by (rule topo_sort_nodes_final [of "service_nodes services"])
    (simp_all only: assms TopoSort_nodes service_node_ids length_service_nodes)

text \<open>\<open>d\<close> is started before \<open>x\<close>.\<close>

definition precedes :: "string list \<Rightarrow> string \<Rightarrow> string \<Rightarrow> bool" where
  "precedes ord d x \<longleftrightarrow> (\<exists>xs ys zs. ord = xs @ d # ys @ x # zs)"

lemma TopoSort_returns: "\<exists>r. TopoSort services = Some r"
  by (simp add: TopoSort_nodes topo_sort_nodes_returns)

lemma topo_sort_sound:
  assumes "distinct (map svc_ID services)" and "TopoSort services = Some (Inr order)"
  shows "mset order = mset (map svc_ID services) \<and>
    (\<forall>s \<in> set services. \<forall>d \<in> set (svc_DependsOn s).
       d \<in> svc_ID ` set services \<longrightarrow> precedes order d (svc_ID s))"
proof -
  obtain g ord where inv: "kahn_inv (service_nodes services) [] g ord"
    and "TopoSort services =
      Some (if length ord \<noteq> length services
            then Inl (DependencyCycle (filter (\<lambda>i. 0 < g i) (map svc_ID services))) else Inr ord)"
    by (rule TopoSort_final [OF assms(1)])
  with assms(2) have ord: "ord = order" "length order = length services"
    by (auto split: if_splits)
  have sub: "distinct order" "set order \<subseteq> set (map svc_ID services)"
    using inv ord(1) by (auto simp: kahn_inv_def)
  have "card (set order) = card (set (map svc_ID services))"
    using sub(1) assms(1) ord(2) by (metis distinct_card length_map)
  with sub(2) have set: "set order = set (map svc_ID services)"
    by (intro card_subset_eq) simp_all
  have "mset order = mset (map svc_ID services)"
    using set sub(1) assms(1) set_eq_iff_mset_eq_distinct by blast
  moreover have "precedes order d (svc_ID s)"
    if "s \<in> set services" "d \<in> set (svc_DependsOn s)" "d \<in> svc_ID ` set services" for s d
  proof -
    have "(d, svc_ID s) \<in> dep_edges (service_nodes services)" using that by (auto simp: service_edges)
    moreover have "svc_ID s \<in> set order" using that set by simp
    ultimately obtain xs ys where "order = xs @ svc_ID s # ys" "d \<in> set xs"
      using respects_deps_position [of "service_nodes services" order d "svc_ID s"] inv ord(1)
      by (auto simp: kahn_inv_def)
    then show ?thesis using split_list [of d xs] by (fastforce simp: precedes_def)
  qed
  ultimately show ?thesis by blast
qed

lemma topo_sort_verdict:
  assumes "distinct (map svc_ID services)"
  shows "\<exists>r. TopoSort services = Some r \<and>
    (if acyclic (dep_edges (service_nodes services)) then \<exists>order. r = Inr order
     else \<exists>stuck. r = Inl (DependencyCycle stuck) \<and> stuck \<noteq> [] \<and> subseq stuck (map svc_ID services) \<and>
       set stuck = {x. \<exists>c. (c, c) \<in> (dep_edges (service_nodes services))\<^sup>+ \<and>
                          (c, x) \<in> (dep_edges (service_nodes services))\<^sup>*})"
proof -
  let ?n = "service_nodes services" let ?E = "dep_edges ?n"
  obtain g ord where inv: "kahn_inv ?n [] g ord"
    and res: "TopoSort services =
      Some (if length ord \<noteq> length services
            then Inl (DependencyCycle (filter (\<lambda>i. 0 < g i) (map svc_ID services))) else Inr ord)"
    by (rule TopoSort_final [OF assms])
  have sub: "distinct ord" "set ord \<subseteq> set (map svc_ID services)"
    using inv by (auto simp: kahn_inv_def)
  have full: "length ord = length services \<longleftrightarrow> set ord = set (map svc_ID services)"
    using sub assms by (metis card_subset_eq distinct_card length_map List.finite_set)
  have all: "c \<in> set (map svc_ID services)" if "(c, c) \<in> ?E\<^sup>+" for c
    using that by (induction rule: converse_trancl_induct) (auto simp: service_edges)
  have reach: "x \<in> set (map svc_ID services)" if "(c, c) \<in> ?E\<^sup>+" "(c, x) \<in> ?E\<^sup>*" for c x
    using that(2,1) all by (induction rule: rtrancl_induct) (auto simp: service_edges)
  have stuck: "set (filter (\<lambda>i. 0 < g i) (map svc_ID services)) =
    {x. \<exists>c. (c, c) \<in> ?E\<^sup>+ \<and> (c, x) \<in> ?E\<^sup>*}" (is "?S = ?C")
  proof -
    have "?S = set (map svc_ID services) - set ord"
      using inv by (auto simp: kahn_inv_def)
    moreover have "x \<in> set (map svc_ID services) - set ord \<longleftrightarrow> x \<in> ?C" for x
      using stuck_iff_cycle [OF inv, of x] reach [of _ x] by (simp only: service_node_ids_image set_map) blast
    ultimately show ?thesis by blast
  qed
  have "acyclic ?E \<longleftrightarrow> ?C = {}" by (auto simp: acyclic_def)
  also have "\<dots> \<longleftrightarrow> length ord = length services"
    unfolding full stuck [symmetric] using inv by (auto simp: kahn_inv_def)
  finally have iff: "acyclic ?E \<longleftrightarrow> length ord = length services" .
  show ?thesis
  proof (cases "acyclic ?E")
    case True
    with res iff show ?thesis by simp
  next
    case False
    have "set (filter (\<lambda>i. 0 < g i) (map svc_ID services)) \<noteq> {}"
      unfolding stuck using False by (auto simp: acyclic_def)
    then have "filter (\<lambda>i. 0 < g i) (map svc_ID services) \<noteq> []" by (metis set_empty)
    with False res iff stuck show ?thesis by simp
  qed
qed

lemma precedes_subseq:
  assumes "subseq log ord" "precedes ord d x" "distinct ord" "d \<in> set log" "x \<in> set log"
  shows "precedes log d x"
proof -
  from assms(2) obtain xs ys zs where o: "ord = (xs @ d # ys) @ x # zs" by (auto simp: precedes_def)
  from assms(1) obtain l1 l2 where l: "log = l1 @ l2" "subseq l1 (xs @ d # ys)" "subseq l2 (x # zs)"
    unfolding o by (rule subseq_appendE)
  have sub: "subseq a b \<Longrightarrow> set a \<subseteq> set b" for a b :: "string list"
    by (auto simp: subseq_conv_nths dest: in_set_nthsD)
  have "d \<notin> set l2" "x \<notin> set l1" using assms(3) sub [OF l(2)] sub [OF l(3)] unfolding o by auto
  with assms(4,5) l(1) have "d \<in> set l1" "x \<in> set l2" by auto
  then obtain a b c e where "l1 = a @ d # b" "l2 = c @ x # e" by (meson split_list)
  with l(1) have "log = a @ d # (b @ c) @ x # e" by simp
  then show ?thesis unfolding precedes_def by blast
qed

lemma topo_sort_cases:
  assumes "distinct (map svc_ID services)"
  shows "(\<exists>stuck. TopoSort services = Some (Inl (DependencyCycle stuck)) \<and> \<not> acyclic (dep_edges (service_nodes services))) \<or>
    (\<exists>order. TopoSort services = Some (Inr order) \<and> acyclic (dep_edges (service_nodes services)))"
  using topo_sort_verdict [OF assms] by (metis (no_types, lifting))

text \<open>C1: every run of the dependency sort over services with distinct ids returns, and when it
  returns an order, the order lists each service exactly once and puts every service after all
  of its dependencies that are among the services sorted.\<close>

theorem topo_sort_orders_dependencies:
  assumes "distinct (map svc_ID services)" and "TopoSort services = Some (Inr order)"
  shows "mset order = mset (map svc_ID services) \<and>
    (\<forall>s \<in> set services. \<forall>d \<in> set (svc_DependsOn s).
       d \<in> svc_ID ` set services \<longrightarrow> precedes order d (svc_ID s))"
  using assms by (rule topo_sort_sound)

text \<open>C2: The sort returns on every input.  Where no id occurs twice (it is the key of the table the services are
  read from) it fails exactly when the dependency graph has a cycle; the error then names, in input order,
  exactly the services that are on a cycle or depend, directly or not, on one.\<close>

theorem topo_sort_fails_iff_cycle:
  shows "\<exists>r. TopoSort services = Some r \<and> (distinct (map svc_ID services) \<longrightarrow>
    (if acyclic (dep_edges (service_nodes services)) then \<exists>order. r = Inr order
     else \<exists>stuck. r = Inl (DependencyCycle stuck) \<and> stuck \<noteq> [] \<and> subseq stuck (map svc_ID services) \<and>
       set stuck = {x. \<exists>c. (c, c) \<in> (dep_edges (service_nodes services))\<^sup>+ \<and>
                          (c, x) \<in> (dep_edges (service_nodes services))\<^sup>*}))"
  using TopoSort_returns [of services] topo_sort_verdict [of services] by blast

text \<open>With an id that occurs twice the sort still returns, but may report a cycle where there is none, and no name.\<close>

lemma duplicate_ids_look_like_a_cycle:
  assumes "svc_ID a = ''a''" "svc_DependsOn a = [''b'']" "svc_ID b = ''b''" "svc_DependsOn b = []"
  shows "TopoSort [a, a, b] = Some (Inl (DependencyCycle []))"
  using assms by (simp add: TopoSort_def topo_sort_nodes_def present_ids_def kahn_loop.simps release_Cons Let_def)

definition demo_service :: "string \<Rightarrow> string list \<Rightarrow> service" where
  "demo_service i deps = (toService
     \<lparr> req_ID = i, req_Name = i, req_Command = ''run'', req_Args = [], req_Cwd = [], req_Env = [],
       req_ProjectID = [], req_Kind = [], req_Autostart = True, req_DependsOn = deps,
       req_RestartPolicy = [], req_GracefulTimeout = 0, req_MaxRestarts = 0, req_RestartWindow = 0 \<rparr>)"

lemma demo_service_simps [simp]:
  "svc_ID (demo_service i deps) = i" "svc_DependsOn (demo_service i deps) = deps"
  by (simp_all add: demo_service_def toService_def)

lemma topo_sort_orders_dependencies_witness:
  "mset [''db'', ''api'', ''web''] = mset (map svc_ID
     [demo_service ''web'' [''api'', ''db''], demo_service ''db'' [''gone''], demo_service ''api'' [''db'']]) \<and>
   precedes [''db'', ''api'', ''web''] ''api'' ''web''"
proof -
  have "TopoSort [demo_service ''web'' [''api'', ''db''], demo_service ''db'' [''gone''],
      demo_service ''api'' [''db'']] = Some (Inr [''db'', ''api'', ''web''])"
    by (simp add: TopoSort_def topo_sort_nodes_def present_ids_def kahn_loop.simps release_Cons Let_def)
  from topo_sort_orders_dependencies [OF _ this] show ?thesis by simp
qed

lemma topo_sort_fails_iff_cycle_witness:
  "\<exists>r. TopoSort [demo_service ''a'' [''b''], demo_service ''b'' [''a'']] = Some r \<and> isl r"
proof -
  let ?ss = "[demo_service ''a'' [''b''], demo_service ''b'' [''a'']]"
  have "distinct (map svc_ID ?ss)" by simp
  with topo_sort_fails_iff_cycle [of ?ss]
  have r: "\<exists>r. TopoSort ?ss = Some r \<and> (if acyclic (dep_edges (service_nodes ?ss)) then \<exists>order. r = Inr order
     else \<exists>stuck. r = Inl (DependencyCycle stuck))" by (auto split: if_splits)
  have "(''a'', ''b'') \<in> dep_edges (service_nodes ?ss)" "(''b'', ''a'') \<in> dep_edges (service_nodes ?ss)"
    by (simp_all add: service_edges)
  then have "\<not> acyclic (dep_edges (service_nodes ?ss))"
    by (meson acyclic_def r_into_trancl trancl_trans)
  with r show ?thesis by auto
qed

end
