(* ===== verification/Database.thy ===== *)
theory Database
  imports Prelude
begin

text \<open>
  The SQLite database the repositories under \<open>internal/domain\<close> and \<open>internal/storage\<close>
  share: the schema of \<open>internal/storage/migrations\<close> and the statements the code issues.

  A row is a function from column names to values and a table a list of rows in rowid order.  Text
  columns that hold RFC 3339 times are \<open>Stamp\<close>s (seconds, the resolution the code formats
  with) and text columns that hold JSON are \<open>Json\<close> values.  Each statement first consumes one
  entry of \<open>faults\<close>: \<open>Some m\<close> makes the driver fail with message \<open>m\<close>, \<open>None\<close> (or an
  exhausted list) lets the statement run.  So every \<open>if err != nil\<close> of the code is a branch
  of the model.  Connections are opened with \<open>foreign_keys(1)\<close> and one connection at most, so
  statements do not overlap.
\<close>

datatype json =
    JNull
  | JBool bool
  | JNum int
  | JStr string
  | JArr "json list"
  | JObj "(string \<times> json) list"

datatype sqlval =
    Null
  | Num int
  | Text string
  | Blob bytes
  | Stamp int
  | Json json

type_synonym row = "string \<Rightarrow> sqlval"

record db =
  tables :: "string \<Rightarrow> row list"
  faults :: "string option list"

datatype sql_error =
    DriverErr string
  | NotNullErr string string
  | UniqueErr string string
  | ForeignKeyErr
  | NoRows

type_synonym 'a sql = "db \<Rightarrow> (sql_error + 'a) \<times> db"

section \<open>Schema\<close>

definition schema_tables :: "string list" where
  "schema_tables =
     [''projects'', ''runtimes'', ''runtime_versions'', ''services'', ''domains'',
      ''certificates'', ''servers'', ''deployments'', ''pipelines'', ''pipeline_runs'',
      ''integrations'', ''extensions'', ''secrets'', ''audit_events'', ''deployment_targets'',
      ''jobs'', ''db_connections'']"

definition foreign_keys :: "string \<Rightarrow> (string \<times> string) list" where
  "foreign_keys t =
     (if t = ''runtime_versions'' then [(''runtime_id'', ''runtimes'')]
      else if t = ''services'' then [(''project_id'', ''projects'')]
      else if t = ''domains'' then [(''project_id'', ''projects'')]
      else if t = ''certificates'' then [(''domain_id'', ''domains'')]
      else if t = ''deployments'' then [(''project_id'', ''projects''), (''server_id'', ''servers'')]
      else if t = ''pipelines'' then [(''project_id'', ''projects'')]
      else if t = ''pipeline_runs'' then [(''pipeline_id'', ''pipelines'')]
      else if t = ''deployment_targets'' then
        [(''project_id'', ''projects''), (''server_id'', ''servers''),
         (''integration_id'', ''integrations'')]
      else [])"

definition unique_cols :: "string \<Rightarrow> string list" where
  "unique_cols t = (if t = ''domains'' then [''id'', ''hostname''] else [''id''])"

text \<open>\<open>DEFAULT\<close> clauses, for the columns an \<open>INSERT\<close> leaves out.\<close>

definition column_defaults :: "string \<Rightarrow> (string \<times> sqlval) list" where
  "column_defaults t =
     (if t = ''projects'' then
        [(''redis_enabled'', Num 0), (''detected_kind'', Text ''unknown''), (''run_command'', Text [])]
      else if t = ''runtime_versions'' then [(''is_default'', Num 0), (''status'', Text ''missing'')]
      else if t = ''services'' then
        [(''kind'', Text ''native''), (''args'', Json (JArr [])), (''env'', Json (JObj [])),
         (''autostart'', Num 0), (''depends_on'', Json (JArr [])), (''status'', Text ''stopped''),
         (''restart_policy'', Text ''on-failure''), (''graceful_timeout_seconds'', Num 5),
         (''max_restarts'', Num 5), (''restart_window_seconds'', Num 60)]
      else if t = ''domains'' then
        [(''provider'', Text ''hosts''), (''ssl_enabled'', Num 0), (''enabled'', Num 1)]
      else if t = ''certificates'' then [(''status'', Text ''valid'')]
      else if t = ''servers'' then [(''port'', Num 22), (''auth_method'', Text ''key'')]
      else if t = ''deployments'' then
        [(''status'', Text ''pending''), (''migration_rollback_supported'', Num 0)]
      else if t = ''pipeline_runs'' then
        [(''trigger_kind'', Text ''manual''), (''status'', Text ''pending''), (''steps'', Json (JArr []))]
      else if t = ''integrations'' then [(''scopes'', Json (JArr []))]
      else if t = ''extensions'' then [(''enabled'', Num 1), (''permissions'', Json (JArr []))]
      else if t = ''audit_events'' then [(''metadata_json'', Json (JObj []))]
      else if t = ''deployment_targets'' then [(''branch'', Text ''main'')]
      else [])"

text \<open>The \<open>NOT NULL\<close> columns that carry no default.\<close>

definition required_cols :: "string \<Rightarrow> string list" where
  "required_cols t =
     (if t = ''projects'' then [''name'', ''path'', ''created_at'', ''updated_at'']
      else if t = ''runtimes'' then [''kind'', ''name'']
      else if t = ''runtime_versions'' then [''runtime_id'', ''version'']
      else if t = ''services'' then [''name'', ''command'', ''created_at'', ''updated_at'']
      else if t = ''domains'' then [''hostname'', ''created_at'']
      else if t = ''certificates'' then [''domain_id'']
      else if t = ''servers'' then [''name'', ''hostname'', ''username'', ''created_at'']
      else if t = ''deployments'' then [''project_id'', ''server_id'']
      else if t = ''pipelines'' then
        [''project_id'', ''name'', ''definition_yaml'', ''created_at'', ''updated_at'']
      else if t = ''pipeline_runs'' then [''pipeline_id'']
      else if t = ''integrations'' then [''kind'', ''created_at'']
      else if t = ''extensions'' then [''name'', ''version'', ''kind'', ''source'']
      else if t = ''secrets'' then [''owner_type'', ''owner_id'', ''kind'', ''storage_backend'', ''created_at'']
      else if t = ''audit_events'' then
        [''actor'', ''action'', ''target_type'', ''target_id'', ''result'', ''created_at'']
      else if t = ''deployment_targets'' then
        [''project_id'', ''server_id'', ''repo_url'', ''deploy_path'', ''created_at'', ''updated_at'']
      else if t = ''jobs'' then [''kind'', ''target'', ''status'', ''log_file'', ''started_at'']
      else if t = ''db_connections'' then
        [''name'', ''kind'', ''host'', ''port'', ''username'', ''created_at'']
      else [])"

definition not_null_cols :: "string \<Rightarrow> string list" where
  "not_null_cols t = required_cols t @ map fst (column_defaults t)"

section \<open>Statements\<close>

definition make_row :: "string \<Rightarrow> (string \<times> sqlval) list \<Rightarrow> row" where
  "make_row t cols c =
     (case map_of cols c of Some v \<Rightarrow> v
      | None \<Rightarrow> (case map_of (column_defaults t) c of Some v \<Rightarrow> v | None \<Rightarrow> Null))"

definition set_cols :: "(string \<times> sqlval) list \<Rightarrow> row \<Rightarrow> row" where
  "set_cols assigns r c = (case map_of assigns c of Some v \<Rightarrow> v | None \<Rightarrow> r c)"

text \<open>The constraints a single row of table \<open>t\<close> has to meet.\<close>

definition row_not_null :: "string \<Rightarrow> row \<Rightarrow> bool" where
  "row_not_null t r \<longleftrightarrow> (\<forall>c \<in> set (not_null_cols t). r c \<noteq> Null)"

definition row_references :: "db \<Rightarrow> string \<Rightarrow> row \<Rightarrow> bool" where
  "row_references d t r \<longleftrightarrow>
     (\<forall>(c, t') \<in> set (foreign_keys t). r c = Null \<or> (\<exists>p \<in> set (tables d t'). p ''id'' = r c))"

definition rows_conflict :: "string \<Rightarrow> row \<Rightarrow> row \<Rightarrow> bool" where
  "rows_conflict t r r' \<longleftrightarrow> (\<exists>c \<in> set (unique_cols t). r c \<noteq> Null \<and> r c = r' c)"

fun no_conflicts :: "string \<Rightarrow> row list \<Rightarrow> bool" where
  "no_conflicts t [] = True"
| "no_conflicts t (r # rs) = ((\<forall>r' \<in> set rs. \<not> rows_conflict t r r') \<and> no_conflicts t rs)"

definition with_table :: "string \<Rightarrow> row list \<Rightarrow> db \<Rightarrow> db" where
  "with_table t rs d = d\<lparr> tables := (tables d)(t := rs) \<rparr>"

definition tick :: "unit sql" where
  "tick d =
     (case faults d of
        [] \<Rightarrow> (Inr (), d)
      | None # fs \<Rightarrow> (Inr (), d\<lparr> faults := fs \<rparr>)
      | Some msg # fs \<Rightarrow> (Inl (DriverErr msg), d\<lparr> faults := fs \<rparr>))"

definition raw_insert :: "string \<Rightarrow> row \<Rightarrow> unit sql" where
  "raw_insert t r d =
     (if \<not> row_not_null t r then (Inl (NotNullErr t []), d)
      else if \<exists>r' \<in> set (tables d t). rows_conflict t r r' then (Inl (UniqueErr t []), d)
      else if \<not> row_references d t r then (Inl ForeignKeyErr, d)
      else (Inr (), with_table t (tables d t @ [r]) d))"

definition sql_insert :: "string \<Rightarrow> (string \<times> sqlval) list \<Rightarrow> unit sql" where
  "sql_insert t cols = go_bind tick (\<lambda>_. raw_insert t (make_row t cols))"

text \<open>\<open>UPDATE t SET assigns WHERE P\<close>; the result is \<open>RowsAffected\<close>.\<close>

definition raw_update :: "string \<Rightarrow> (row \<Rightarrow> bool) \<Rightarrow> (string \<times> sqlval) list \<Rightarrow> nat sql" where
  "raw_update t P assigns d =
     (let rows = map (\<lambda>r. if P r then set_cols assigns r else r) (tables d t);
          changed = map (set_cols assigns) (filter P (tables d t))
      in if \<exists>r \<in> set changed. \<not> row_not_null t r then (Inl (NotNullErr t []), d)
         else if \<not> no_conflicts t rows then (Inl (UniqueErr t []), d)
         else if \<exists>r \<in> set changed. \<not> row_references d t r then (Inl ForeignKeyErr, d)
         else (Inr (length changed), with_table t rows d))"

definition sql_update :: "string \<Rightarrow> (row \<Rightarrow> bool) \<Rightarrow> (string \<times> sqlval) list \<Rightarrow> nat sql" where
  "sql_update t P assigns = go_bind tick (\<lambda>_. raw_update t P assigns)"

definition referenced_by :: "db \<Rightarrow> string \<Rightarrow> sqlval \<Rightarrow> bool" where
  "referenced_by d t v \<longleftrightarrow>
     (\<exists>t' \<in> set schema_tables. \<exists>(c, p) \<in> set (foreign_keys t').
        p = t \<and> (\<exists>r \<in> set (tables d t'). r c = v \<and> v \<noteq> Null))"

definition raw_delete :: "string \<Rightarrow> (row \<Rightarrow> bool) \<Rightarrow> nat sql" where
  "raw_delete t P d =
     (let gone = filter P (tables d t) in
      if \<exists>r \<in> set gone. referenced_by d t (r ''id'') then (Inl ForeignKeyErr, d)
      else (Inr (length gone), with_table t (filter (\<lambda>r. \<not> P r) (tables d t)) d))"

definition sql_delete :: "string \<Rightarrow> (row \<Rightarrow> bool) \<Rightarrow> nat sql" where
  "sql_delete t P = go_bind tick (\<lambda>_. raw_delete t P)"

definition sql_query :: "string \<Rightarrow> (row \<Rightarrow> bool) \<Rightarrow> row list sql" where
  "sql_query t P = go_bind tick (\<lambda>_ d. (Inr (filter P (tables d t)), d))"

text \<open>\<open>QueryRow(...).Scan\<close>: the first row, or \<open>sql.ErrNoRows\<close>.\<close>

definition sql_query_row :: "string \<Rightarrow> (row \<Rightarrow> bool) \<Rightarrow> row sql" where
  "sql_query_row t P = go_bind (sql_query t P)
     (\<lambda>rs d. case rs of [] \<Rightarrow> (Inl NoRows, d) | r # _ \<Rightarrow> (Inr r, d))"

text \<open>\<open>ORDER BY key\<close>: SQLite's sorter is stable, ties stay in rowid order.\<close>

definition order_by :: "(row \<Rightarrow> int) \<Rightarrow> row list \<Rightarrow> row list" where
  "order_by key rs = sort_key key rs"

definition order_by_desc :: "(row \<Rightarrow> int) \<Rightarrow> row list \<Rightarrow> row list" where
  "order_by_desc key rs = sort_key (\<lambda>r. - key r) rs"

definition by_id :: "string \<Rightarrow> row \<Rightarrow> bool" where
  "by_id i r = (r ''id'' = Text i)"

text \<open>
  \<open>INSERT ... ON CONFLICT(id) DO UPDATE SET c = excluded.c\<close> for the columns \<open>upd\<close>.
\<close>

definition sql_upsert :: "string \<Rightarrow> (string \<times> sqlval) list \<Rightarrow> string list \<Rightarrow> unit sql" where
  "sql_upsert t cols upd = go_bind tick (\<lambda>_ d.
     let r = make_row t cols in
     if \<not> row_not_null t r then (Inl (NotNullErr t []), d)
     else if \<exists>r' \<in> set (tables d t). r' ''id'' = r ''id'' \<and> r ''id'' \<noteq> Null then
       (case raw_update t (\<lambda>r'. r' ''id'' = r ''id'') (map (\<lambda>c. (c, r c)) upd) d of
          (Inl e, d') \<Rightarrow> (Inl e, d') | (Inr _, d') \<Rightarrow> (Inr (), d'))
     else raw_insert t r d)"

text \<open>A transaction: \<open>BeginTx\<close>, the body, \<open>Commit\<close>, with the deferred \<open>Rollback\<close>.\<close>

definition transaction :: "(sql_error \<Rightarrow> 'e) \<Rightarrow> (db \<Rightarrow> ('e + 'a) \<times> db) \<Rightarrow> db \<Rightarrow> ('e + 'a) \<times> db" where
  "transaction wrap body d0 =
     (case tick d0 of
        (Inl e, d) \<Rightarrow> (Inl (wrap e), d)
      | (Inr _, d) \<Rightarrow>
         (case body d of
            (Inl e, d') \<Rightarrow> (Inl e, d'\<lparr> tables := tables d \<rparr>)
          | (Inr a, d') \<Rightarrow>
             (case tick d' of
                (Inl e, d'') \<Rightarrow> (Inl (wrap e), d''\<lparr> tables := tables d \<rparr>)
              | (Inr _, d'') \<Rightarrow> (Inr a, d''))))"

text \<open>\<open>fmt.Errorf("...: %w", err)\<close> and the like: rename the error of a statement.\<close>

definition map_err :: "('e \<Rightarrow> 'f) \<Rightarrow> ('s \<Rightarrow> ('e + 'a) \<times> 's) \<Rightarrow> 's \<Rightarrow> ('f + 'a) \<times> 's" where
  "map_err f m s = (case m s of (Inl e, s') \<Rightarrow> (Inl (f e), s') | (Inr a, s') \<Rightarrow> (Inr a, s'))"

section \<open>The shape the repositories share\<close>

text \<open>
  \<open>Get\<close>, \<open>List\<close> and \<open>Delete\<close> of every repository have one shape: a row scan that maps
  \<open>sql.ErrNoRows\<close> to \<open>ErrNotFound\<close>, a scan over all rows in some order, and a
  \<open>DELETE\<close> by id that reports \<open>ErrNotFound\<close> when no row was affected.
\<close>

definition repo_get ::
  "string \<Rightarrow> (row \<Rightarrow> 'a) \<Rightarrow> 'e \<Rightarrow> (sql_error \<Rightarrow> 'e) \<Rightarrow> string \<Rightarrow> db \<Rightarrow> ('e + 'a) \<times> db" where
  "repo_get t scan absent wrap i d =
     (case sql_query_row t (by_id i) d of
        (Inl NoRows, d') \<Rightarrow> (Inl absent, d')
      | (Inl e, d') \<Rightarrow> (Inl (wrap e), d')
      | (Inr r, d') \<Rightarrow> (Inr (scan r), d'))"

definition repo_list ::
  "string \<Rightarrow> (row \<Rightarrow> bool) \<Rightarrow> (row list \<Rightarrow> row list) \<Rightarrow> (row \<Rightarrow> 'a) \<Rightarrow> (sql_error \<Rightarrow> 'e) \<Rightarrow> db \<Rightarrow> ('e + 'a list) \<times> db" where
  "repo_list t P order scan wrap d =
     (case sql_query t P d of
        (Inl e, d') \<Rightarrow> (Inl (wrap e), d')
      | (Inr rs, d') \<Rightarrow> (Inr (map scan (order rs)), d'))"

definition repo_delete ::
  "string \<Rightarrow> 'e \<Rightarrow> (sql_error \<Rightarrow> 'e) \<Rightarrow> string \<Rightarrow> db \<Rightarrow> ('e + unit) \<times> db" where
  "repo_delete t absent wrap i d =
     (case sql_delete t (by_id i) d of
        (Inl e, d') \<Rightarrow> (Inl (wrap e), d')
      | (Inr n, d') \<Rightarrow> if n = 0 then (Inl absent, d') else (Inr (), d'))"

text \<open>Column readers: \<open>COALESCE(c, '')\<close> / \<open>sql.NullString\<close>, integers, booleans, instants.\<close>

definition text_col :: "string \<Rightarrow> row \<Rightarrow> string" where
  "text_col c r = (case r c of Text s \<Rightarrow> s | _ \<Rightarrow> [])"

definition num_col :: "string \<Rightarrow> row \<Rightarrow> int" where
  "num_col c r = (case r c of Num n \<Rightarrow> n | _ \<Rightarrow> 0)"

definition num_opt_col :: "string \<Rightarrow> row \<Rightarrow> int option" where
  "num_opt_col c r = (case r c of Num n \<Rightarrow> Some n | _ \<Rightarrow> None)"

definition bool_col :: "string \<Rightarrow> row \<Rightarrow> bool" where
  "bool_col c r = (num_col c r \<noteq> 0)"

definition stamp_col :: "string \<Rightarrow> row \<Rightarrow> int" where
  "stamp_col c r = (case r c of Stamp n \<Rightarrow> n | _ \<Rightarrow> 0)"

definition stamp_opt_col :: "string \<Rightarrow> row \<Rightarrow> int option" where
  "stamp_opt_col c r = (case r c of Stamp n \<Rightarrow> Some n | _ \<Rightarrow> None)"

text \<open>\<open>t.Format(time.RFC3339)\<close> and the matching \<open>time.Parse\<close>: whole seconds survive.\<close>

definition rfc3339 :: "int \<Rightarrow> sqlval" where
  "rfc3339 t = Stamp (t div second)"

definition time_col :: "string \<Rightarrow> row \<Rightarrow> int" where
  "time_col c r = stamp_col c r * second"

definition time_opt_col :: "string \<Rightarrow> row \<Rightarrow> int option" where
  "time_opt_col c r = map_option (\<lambda>t. t * second) (stamp_opt_col c r)"

definition json_col :: "string \<Rightarrow> row \<Rightarrow> json" where
  "json_col c r = (case r c of Json j \<Rightarrow> j | _ \<Rightarrow> JNull)"

definition blob_col :: "string \<Rightarrow> row \<Rightarrow> bytes" where
  "blob_col c r = (case r c of Blob b \<Rightarrow> b | _ \<Rightarrow> [])"

text \<open>\<open>nullable\<close>: the empty string is stored as \<open>NULL\<close>.\<close>

definition nullable :: "string \<Rightarrow> sqlval" where
  "nullable s = (if s = [] then Null else Text s)"

definition boolToInt :: "bool \<Rightarrow> sqlval" where
  "boolToInt b = (if b then Num 1 else Num 0)"

definition json_strings :: "string list \<Rightarrow> json" where
  "json_strings xs = JArr (map JStr xs)"

definition json_env :: "(string \<times> string) list \<Rightarrow> json" where
  "json_env kvs = JObj (map (\<lambda>(k, v). (k, JStr v)) kvs)"

fun json_as_string :: "json \<Rightarrow> string" where
  "json_as_string (JStr s) = s"
| "json_as_string _ = []"

fun json_as_strings :: "json \<Rightarrow> string list" where
  "json_as_strings (JArr js) = map json_as_string js"
| "json_as_strings _ = []"

fun json_as_env :: "json \<Rightarrow> (string \<times> string) list" where
  "json_as_env (JObj kvs) = map (\<lambda>(k, v). (k, json_as_string v)) kvs"
| "json_as_env _ = []"

lemma json_strings_inverse [simp]: "json_as_strings (json_strings xs) = xs"
  by (simp add: json_strings_def comp_def)

lemma json_env_inverse [simp]: "json_as_env (json_env kvs) = kvs"
  by (induction kvs) (auto simp: json_env_def)

lemmas column_readers [sql_simps] =
  text_col_def num_col_def num_opt_col_def bool_col_def stamp_col_def stamp_opt_col_def
  time_col_def time_opt_col_def rfc3339_def
  json_col_def blob_col_def

lemma text_col_nullable [simp]: "r c = nullable s \<Longrightarrow> text_col c r = s"
  by (auto simp: text_col_def nullable_def)

section \<open>Evaluation and integrity\<close>

lemma tick_nofault [simp]: "faults d = [] \<Longrightarrow> tick d = (Inr (), d)"
  by (simp add: tick_def)

lemma tick_tables [simp]: "tables (snd (tick d)) = tables d"
  by (simp add: tick_def split: list.splits option.splits)

lemma with_table_simps [simp]:
  "tables (with_table t rs d) = (tables d)(t := rs)" "faults (with_table t rs d) = faults d"
  by (simp_all add: with_table_def)

lemma sql_insert_nofault: "faults d = [] \<Longrightarrow> sql_insert t cols d = raw_insert t (make_row t cols) d"
  by (simp add: sql_insert_def go_bind_def)

lemma sql_update_nofault: "faults d = [] \<Longrightarrow> sql_update t P assigns d = raw_update t P assigns d"
  by (simp add: sql_update_def go_bind_def)

lemma sql_delete_nofault: "faults d = [] \<Longrightarrow> sql_delete t P d = raw_delete t P d"
  by (simp add: sql_delete_def go_bind_def)

lemma sql_query_nofault: "faults d = [] \<Longrightarrow> sql_query t P d = (Inr (filter P (tables d t)), d)"
  by (simp add: sql_query_def go_bind_def)

lemma sql_query_row_nofault:
  "faults d = [] \<Longrightarrow> sql_query_row t P d =
     (case filter P (tables d t) of [] \<Rightarrow> (Inl NoRows, d) | r # _ \<Rightarrow> (Inr r, d))"
  by (simp add: sql_query_row_def go_bind_def sql_query_nofault split: list.splits)

lemmas nofault [sql_simps] =
  sql_insert_nofault sql_update_nofault sql_delete_nofault sql_query_nofault sql_query_row_nofault

definition db_ok :: "db \<Rightarrow> bool" where
  "db_ok d \<longleftrightarrow>
     (\<forall>t \<in> set schema_tables.
        (\<forall>r \<in> set (tables d t). row_not_null t r \<and> row_references d t r) \<and>
        no_conflicts t (tables d t))"

lemma no_conflicts_append:
  "no_conflicts t (rs @ rs') \<longleftrightarrow> no_conflicts t rs \<and> no_conflicts t rs' \<and>
     (\<forall>r \<in> set rs. \<forall>r' \<in> set rs'. \<not> rows_conflict t r r')"
  by (induction rs) auto

lemma no_conflicts_filter: "no_conflicts t rs \<Longrightarrow> no_conflicts t (filter P rs)"
  by (induction rs) auto

lemma rows_conflict_sym: "rows_conflict t r r' \<longleftrightarrow> rows_conflict t r' r"
  by (auto simp: rows_conflict_def)

definition ids :: "db \<Rightarrow> string \<Rightarrow> sqlval set" where
  "ids d t = (\<lambda>p. p ''id'') ` set (tables d t)"

lemma ids_iff: "v \<in> ids d t \<longleftrightarrow> (\<exists>p \<in> set (tables d t). p ''id'' = v)"
  by (auto simp: ids_def)

lemma row_references_ids:
  "row_references d t r \<longleftrightarrow> (\<forall>(c, t') \<in> set (foreign_keys t). r c = Null \<or> r c \<in> ids d t')"
  by (simp add: row_references_def ids_iff)

lemma row_references_mono:
  assumes "row_references d t r" "\<And>t'. ids d t' \<subseteq> ids d' t'"
  shows "row_references d' t r"
  using assms unfolding row_references_ids by blast

lemma raw_insert_db_ok [integrity]:
  assumes "db_ok d"
  shows "db_ok (snd (raw_insert t r d))"
proof (cases "row_not_null t r \<and> (\<forall>r' \<in> set (tables d t). \<not> rows_conflict t r r') \<and> row_references d t r")
  case True
  then have eq: "snd (raw_insert t r d) = with_table t (tables d t @ [r]) d" by (auto simp: raw_insert_def)
  have mono: "row_references d t' r' \<Longrightarrow> row_references (with_table t (tables d t @ [r]) d) t' r'" for t' r'
    by (erule row_references_mono) (auto simp: ids_def)
  show ?thesis unfolding eq db_ok_def
    using assms True mono by (auto simp: db_ok_def no_conflicts_append rows_conflict_sym)
qed (use assms in \<open>auto simp: raw_insert_def\<close>)

lemma set_cols_id: "''id'' \<notin> fst ` set assigns \<Longrightarrow> set_cols assigns r ''id'' = r ''id''"
  by (auto simp: set_cols_def map_of_eq_None_iff split: option.splits)
    (metis map_of_eq_None_iff option.distinct(1))

lemma raw_update_db_ok [integrity]:
  assumes "db_ok d" "''id'' \<notin> fst ` set assigns"
  shows "db_ok (snd (raw_update t P assigns d))"
proof -
  let ?f = "\<lambda>r. if P r then set_cols assigns r else r"
  let ?rows = "map ?f (tables d t)" let ?d = "with_table t ?rows d"
  have "?f r ''id'' = r ''id''" for r using set_cols_id [OF assms(2)] by simp
  then have "(\<lambda>p. p ''id'') ` set ?rows = (\<lambda>p. p ''id'') ` set (tables d t)"
    unfolding set_map image_image by (rule image_cong [OF refl])
  then have "ids ?d u = ids d u" for u by (simp add: ids_def)
  then have mono: "row_references ?d t' r' \<longleftrightarrow> row_references d t' r'" for t' r'
    by (simp add: row_references_ids)
  have "db_ok ?d" if "\<forall>r \<in> set (map (set_cols assigns) (filter P (tables d t))). row_not_null t r \<and> row_references d t r"
    "no_conflicts t ?rows"
    unfolding db_ok_def
  proof (intro ballI conjI)
    fix u r assume u: "u \<in> set schema_tables" "r \<in> set (tables ?d u)"
    have "row_not_null u r \<and> row_references d u r"
    proof (cases "u = t")
      case True
      with u(2) obtain r' where "r' \<in> set (tables d t)" "r = ?f r'" by auto
      with that(1) assms(1) u True show ?thesis by (cases "P r'") (auto simp: db_ok_def)
    next
      case False
      with u assms(1) show ?thesis by (simp add: db_ok_def)
    qed
    with mono show "row_not_null u r" "row_references ?d u r" by auto
  next
    fix u assume "u \<in> set schema_tables"
    then show "no_conflicts u (tables ?d u)" using that(2) assms(1) by (simp add: db_ok_def)
  qed
  then show ?thesis using assms(1) unfolding raw_update_def Let_def by auto
qed

lemma raw_delete_db_ok [integrity]:
  assumes "db_ok d"
  shows "db_ok (snd (raw_delete t P d))"
proof (cases "\<exists>r \<in> set (filter P (tables d t)). referenced_by d t (r ''id'')")
  case False
  let ?d = "with_table t (filter (\<lambda>r. \<not> P r) (tables d t)) d"
  have "db_ok ?d" unfolding db_ok_def
  proof (intro ballI conjI)
    fix u r assume u: "u \<in> set schema_tables" "r \<in> set (tables ?d u)"
    then have r: "r \<in> set (tables d u)" by (auto split: if_splits)
    with u assms show "row_not_null u r" by (simp add: db_ok_def)
    show "row_references ?d u r" unfolding row_references_ids
    proof (clarify)
      fix c t' assume fk: "(c, t') \<in> set (foreign_keys u)" "r c \<notin> ids ?d t'"
      show "r c = Null"
      proof (rule ccontr)
        assume "r c \<noteq> Null"
        moreover from assms u(1) r have "row_references d u r" by (simp add: db_ok_def)
        ultimately obtain p where p: "p \<in> set (tables d t')" "p ''id'' = r c"
          using fk(1) by (auto simp: row_references_ids ids_iff)
        have "t' = t" using fk(2) p by (rule_tac ccontr) (auto simp: ids_iff)
        moreover have "P p" using fk(2) p \<open>t' = t\<close> by (rule_tac ccontr) (auto simp: ids_iff)
        moreover have "referenced_by d t (p ''id'')"
          unfolding referenced_by_def using u(1) fk(1) r p(2) \<open>r c \<noteq> Null\<close> \<open>t' = t\<close>
          by (intro bexI [of _ u] bexI [of _ "(c, t')"]) auto
        ultimately show False using False p(1) by auto
      qed
    qed
  next
    fix u assume "u \<in> set schema_tables"
    then show "no_conflicts u (tables ?d u)" using assms
      by (auto simp: db_ok_def intro: no_conflicts_filter)
  qed
  with False show ?thesis by (simp add: raw_delete_def Let_def)
qed (use assms in \<open>auto simp: raw_delete_def\<close>)

lemma db_ok_tables: "tables d = tables d' \<Longrightarrow> db_ok d \<longleftrightarrow> db_ok d'"
  by (simp add: db_ok_def row_references_def)

lemma tick_db_ok [integrity]: "db_ok d \<Longrightarrow> db_ok (snd (tick d))"
  using db_ok_tables [of "snd (tick d)" d] by simp

lemma sql_insert_db_ok [integrity]: "db_ok d \<Longrightarrow> db_ok (snd (sql_insert t cols d))"
  unfolding sql_insert_def by (rule go_bind_inv [where P = db_ok]) (simp_all add: tick_db_ok raw_insert_db_ok)

lemma sql_update_db_ok [integrity]:
  "db_ok d \<Longrightarrow> ''id'' \<notin> fst ` set assigns \<Longrightarrow> db_ok (snd (sql_update t P assigns d))"
  unfolding sql_update_def by (rule go_bind_inv [where P = db_ok]) (simp_all add: tick_db_ok raw_update_db_ok)

lemma sql_delete_db_ok [integrity]: "db_ok d \<Longrightarrow> db_ok (snd (sql_delete t P d))"
  unfolding sql_delete_def by (rule go_bind_inv [where P = db_ok]) (simp_all add: tick_db_ok raw_delete_db_ok)

lemma no_conflicts_same_ids:
  assumes "\<And>r. f r ''id'' = r ''id''" "unique_cols t = [''id'']"
  shows "no_conflicts t (map f rs) \<longleftrightarrow> no_conflicts t rs"
  using assms by (induction rs) (auto simp: rows_conflict_def)

section \<open>The contract of a repository\<close>

text \<open>What the handlers rely on when they call \<open>Get\<close>, \<open>List\<close> and \<open>Delete\<close>.\<close>

locale id_store =
  fixes get :: "string \<Rightarrow> db \<Rightarrow> ('e + 'a) \<times> db"
    and listing :: "db \<Rightarrow> ('e + 'a list) \<times> db"
    and del :: "string \<Rightarrow> db \<Rightarrow> ('e + unit) \<times> db"
    and ident :: "'a \<Rightarrow> string"
    and absent :: 'e
    and wf :: "db \<Rightarrow> bool"
  assumes get_pure: "tables (snd (get i d)) = tables d"
    and listing_pure: "tables (snd (listing d)) = tables d"
    and del_gone: "del i d = (Inr (), d') \<Longrightarrow> faults d' = [] \<Longrightarrow> get i d' = (Inl absent, d')"
    and del_absent: "faults d = [] \<Longrightarrow> fst (get i d) = Inl absent \<Longrightarrow> del i d = (Inl absent, d)"
    and del_wf: "wf d \<Longrightarrow> wf (snd (del i d))"
    and listed_get: "wf d \<Longrightarrow> faults d = [] \<Longrightarrow> fst (listing d) = Inr xs \<Longrightarrow> x \<in> set xs \<Longrightarrow>
      \<exists>y. fst (get (ident x) d) = Inr y \<and> ident y = ident x"
begin

lemma delete_is_final:
  assumes "del i d = (Inr (), d')" "faults d' = []"
  shows "get i d' = (Inl absent, d') \<and> del i d' = (Inl absent, d')"
proof -
  from del_gone [OF assms] have "get i d' = (Inl absent, d')" .
  moreover from this have "del i d' = (Inl absent, d')" using assms(2) by (intro del_absent) simp_all
  ultimately show ?thesis ..
qed

lemma deleted_not_listed:
  assumes "wf d" "del i d = (Inr (), d')" "faults d' = []" "fst (listing d') = Inr xs"
  shows "i \<notin> ident ` set xs"
proof
  assume "i \<in> ident ` set xs"
  then obtain x where x: "x \<in> set xs" "ident x = i" by blast
  have "wf d'" using del_wf [OF assms(1), of i] assms(2) by simp
  from listed_get [OF this assms(3,4) x(1)] x(2) delete_is_final [OF assms(2,3)]
  show False by auto
qed

end

definition text_ids :: "string \<Rightarrow> db \<Rightarrow> bool" where
  "text_ids t d \<longleftrightarrow> (\<forall>r \<in> set (tables d t). \<exists>i. r ''id'' = Text i)"

lemma tick_cases:
  obtains d' where "tick d = (Inr (), d')" "tables d' = tables d"
  | m d' where "tick d = (Inl (DriverErr m), d')" "tables d' = tables d"
  by (cases "faults d"; cases "hd (faults d)") (auto simp: tick_def)

lemma sql_query_tables [simp]: "tables (snd (sql_query t P d)) = tables d"
  by (cases d rule: tick_cases) (simp_all add: sql_query_def go_bind_def)

lemma sql_query_row_tables [simp]: "tables (snd (sql_query_row t P d)) = tables d"
  using sql_query_tables [of t P d] unfolding sql_query_row_def go_bind_def
  by (auto split: prod.splits sum.splits list.splits simp del: sql_query_tables)

lemma repo_get_tables [simp]: "tables (snd (repo_get t scan ab wrap i d)) = tables d"
  using sql_query_row_tables [of t "by_id i" d] unfolding repo_get_def
  by (auto split: prod.splits sum.splits sql_error.splits simp del: sql_query_row_tables)

lemma repo_list_tables [simp]: "tables (snd (repo_list t P ord scan wrap d)) = tables d"
  using sql_query_tables [of t P d] unfolding repo_list_def
  by (auto split: prod.splits sum.splits simp del: sql_query_tables)

lemma repo_get_nofault:
  "faults d = [] \<Longrightarrow> repo_get t scan ab wrap i d =
     (case filter (by_id i) (tables d t) of [] \<Rightarrow> (Inl ab, d) | r # _ \<Rightarrow> (Inr (scan r), d))"
  by (simp add: repo_get_def sql_query_row_nofault split: list.splits)

lemma repo_list_nofault:
  "faults d = [] \<Longrightarrow> repo_list t P ord scan wrap d = (Inr (map scan (ord (filter P (tables d t)))), d)"
  by (simp add: repo_list_def sql_query_nofault)

lemma repo_delete_ok:
  assumes "repo_delete t ab wrap i d = (Inr (), d')"
  shows "tables d' = (tables d)(t := filter (\<lambda>r. \<not> by_id i r) (tables d t))"
  using assms
  by (cases d rule: tick_cases)
    (auto simp: repo_delete_def sql_delete_def go_bind_def raw_delete_def Let_def split: if_splits)

lemma repo_delete_nofault:
  "faults d = [] \<Longrightarrow> repo_delete t ab wrap i d =
     (if \<exists>r \<in> set (tables d t). by_id i r then
        (if referenced_by d t (Text i) then (Inl (wrap ForeignKeyErr), d)
         else (Inr (), with_table t (filter (\<lambda>r. \<not> by_id i r) (tables d t)) d))
      else (Inl ab, d))"
  by (auto simp: repo_delete_def sql_delete_nofault raw_delete_def Let_def by_id_def
      with_table_def filter_empty_conv split: if_splits)

lemma repo_id_store:
  assumes "\<And>r. ident (scan r) = text_col ''id'' r" "\<And>rs. set (ord rs) = set rs"
  shows "id_store (repo_get t scan ab wrap) (repo_list t (\<lambda>_. True) ord scan wrap)
    (repo_delete t ab wrap) ident ab (text_ids t)"
proof
  fix i d d' assume del: "repo_delete t ab wrap i d = (Inr (), d')" "faults d' = []"
  then show "repo_get t scan ab wrap i d' = (Inl ab, d')"
    by (simp add: repo_get_nofault repo_delete_ok split: list.splits)
next
  fix d i assume "faults d = []" "fst (repo_get t scan ab wrap i d) = Inl ab"
  then show "repo_delete t ab wrap i d = (Inl ab, d)"
    by (auto simp: repo_get_nofault repo_delete_nofault filter_empty_conv split: list.splits)
next
  fix d i assume wf: "text_ids t d"
  show "text_ids t (snd (repo_delete t ab wrap i d))"
    using wf
    by (cases d rule: tick_cases)
      (auto simp: repo_delete_def sql_delete_def go_bind_def raw_delete_def Let_def text_ids_def)
next
  fix d xs x
  assume d: "text_ids t d" "faults d = []" "fst (repo_list t (\<lambda>_. True) ord scan wrap d) = Inr xs" "x \<in> set xs"
  then obtain r where r: "r \<in> set (tables d t)" "x = scan r"
    using assms(2) by (auto simp: repo_list_nofault)
  with d(1) obtain i where i: "r ''id'' = Text i" by (auto simp: text_ids_def)
  then have "ident x = i" using assms(1) r(2) by (simp add: text_col_def)
  have "filter (by_id i) (tables d t) \<noteq> []" using r(1) i by (auto simp: filter_empty_conv by_id_def)
  then obtain p ps where p: "filter (by_id i) (tables d t) = p # ps" by (cases "filter (by_id i) (tables d t)") auto
  then have "by_id i p" by (metis filter_eq_ConsD)
  then have "ident (scan p) = i" using assms(1) by (simp add: by_id_def text_col_def)
  with p d(2) \<open>ident x = i\<close>
  show "\<exists>y. fst (repo_get t scan ab wrap (ident x) d) = Inr y \<and> ident y = ident x"
    by (simp add: repo_get_nofault)
qed simp_all

end
