(* ===== verification/Servers.thy ===== *)
theory Servers
  imports Database
begin

text \<open>
  \<open>internal/domain/server/server.go\<close>: the servers a user can deploy to.  The remote session a
  provider hands out is third-party code (an SSH client); it is the argument \<open>connect\<close>, a
  function from the server to either an error or a session, which maps a command to its standard
  output and error or to an error with the standard error.
\<close>

record server =
  srv_ID :: string
  srv_Name :: string
  srv_Hostname :: string
  srv_Port :: int
  srv_Username :: string
  srv_AuthMethod :: string
  srv_SecretRef :: string
  srv_LastConnectedAt :: "int option"
  srv_OSInfo :: string
  srv_CreatedAt :: int

record server_request =
  sreq_ID :: string
  sreq_Name :: string
  sreq_Hostname :: string
  sreq_Port :: int
  sreq_Username :: string
  sreq_AuthMethod :: string
  sreq_SecretRef :: string

datatype server_error =
    ServerNotFound
  | ServerNameRequired
  | ServerHostnameRequired
  | ServerUsernameRequired
  | UnsupportedAuthMethod string
  | SecretRefRequired
  | ServerSql sql_error
  | ConnectFailed string
  | TestCommandFailed string string
  | RecordResultFailed sql_error

definition scanServer :: "row \<Rightarrow> server" where
  "scanServer r =
     \<lparr> srv_ID = text_col ''id'' r, srv_Name = text_col ''name'' r,
       srv_Hostname = text_col ''hostname'' r, srv_Port = num_col ''port'' r,
       srv_Username = text_col ''username'' r, srv_AuthMethod = text_col ''auth_method'' r,
       srv_SecretRef = text_col ''secret_ref'' r,
       srv_LastConnectedAt = time_opt_col ''last_connected_at'' r,
       srv_OSInfo = text_col ''os_info'' r, srv_CreatedAt = time_col ''created_at'' r \<rparr>"

text \<open>\<open>Create\<close>, with the time read from the clock and the id \<open>uuid.NewString\<close> would give.\<close>

definition server_validate :: "server_request \<Rightarrow> server_error option" where
  "server_validate req =
     (let authMethod = (if sreq_AuthMethod req = [] then ''agent'' else sreq_AuthMethod req) in
      if sreq_Name req = [] then Some ServerNameRequired
      else if sreq_Hostname req = [] then Some ServerHostnameRequired
      else if sreq_Username req = [] then Some ServerUsernameRequired
      else if authMethod \<noteq> ''agent'' \<and> authMethod \<noteq> ''key'' then Some (UnsupportedAuthMethod authMethod)
      else if authMethod = ''key'' \<and> sreq_SecretRef req = [] then Some SecretRefRequired
      else None)"

definition server_of_request :: "string \<Rightarrow> int \<Rightarrow> server_request \<Rightarrow> server" where
  "server_of_request uuid now req =
     \<lparr> srv_ID = (if sreq_ID req = [] then uuid else sreq_ID req),
       srv_Name = sreq_Name req, srv_Hostname = sreq_Hostname req,
       srv_Port = (if sreq_Port req \<le> 0 then 22 else sreq_Port req),
       srv_Username = sreq_Username req,
       srv_AuthMethod = (if sreq_AuthMethod req = [] then ''agent'' else sreq_AuthMethod req),
       srv_SecretRef = sreq_SecretRef req, srv_LastConnectedAt = None, srv_OSInfo = [],
       srv_CreatedAt = now \<rparr>"

definition server_cols :: "server \<Rightarrow> (string \<times> sqlval) list" where
  "server_cols s =
     [(''id'', Text (srv_ID s)), (''name'', Text (srv_Name s)), (''hostname'', Text (srv_Hostname s)),
      (''port'', Num (srv_Port s)), (''username'', Text (srv_Username s)),
      (''auth_method'', Text (srv_AuthMethod s)), (''secret_ref'', nullable (srv_SecretRef s)),
      (''created_at'', rfc3339 (srv_CreatedAt s))]"

definition server_Create ::
  "string \<Rightarrow> int \<Rightarrow> server_request \<Rightarrow> db \<Rightarrow> (server_error + server) \<times> db" where
  "server_Create uuid now req d =
     (case server_validate req of
        Some e \<Rightarrow> (Inl e, d)
      | None \<Rightarrow>
         (let s = server_of_request uuid now req in
          case sql_insert ''servers'' (server_cols s) d of
            (Inl e, d') \<Rightarrow> (Inl (ServerSql e), d')
          | (Inr _, d') \<Rightarrow> (Inr s, d')))"

definition server_Get :: "string \<Rightarrow> db \<Rightarrow> (server_error + server) \<times> db" where
  "server_Get = repo_get ''servers'' scanServer ServerNotFound ServerSql"

definition server_List :: "db \<Rightarrow> (server_error + server list) \<times> db" where
  "server_List = repo_list ''servers'' (\<lambda>_. True) (order_by (stamp_col ''created_at'')) scanServer ServerSql"

definition server_Delete :: "string \<Rightarrow> db \<Rightarrow> (server_error + unit) \<times> db" where
  "server_Delete = repo_delete ''servers'' ServerNotFound ServerSql"

type_synonym session = "string \<Rightarrow> (string \<times> string) + (string \<times> string)"

definition trimTrailingNewline :: "string \<Rightarrow> string" where
  "trimTrailingNewline s = rev (dropWhile (\<lambda>c. c = CHR 0x0A \<or> c = CHR 0x0D) (rev s))"

definition TestConnection ::
  "int \<Rightarrow> (server \<Rightarrow> string + session) \<Rightarrow> string \<Rightarrow> db \<Rightarrow> (server_error + unit) \<times> db" where
  "TestConnection now connect i d =
     (case server_Get i d of
        (Inl e, d') \<Rightarrow> (Inl e, d')
      | (Inr s, d') \<Rightarrow>
         (case connect s of
            Inl msg \<Rightarrow> (Inl (ConnectFailed msg), d')
          | Inr sess \<Rightarrow>
             (case sess ''true'' of
                Inl (msg, stderr) \<Rightarrow> (Inl (TestCommandFailed msg stderr), d')
              | Inr _ \<Rightarrow>
                 (let osInfo = (case sess ''uname -a'' of
                        Inr (out, _) \<Rightarrow> trimTrailingNewline out | Inl _ \<Rightarrow> [])
                  in case sql_update ''servers'' (by_id i)
                            [(''last_connected_at'', rfc3339 now), (''os_info'', nullable osInfo)] d' of
                       (Inl e, d'') \<Rightarrow> (Inl (RecordResultFailed e), d'')
                     | (Inr _, d'') \<Rightarrow> (Inr (), d'')))))"

interpretation servers: id_store server_Get server_List server_Delete srv_ID ServerNotFound "text_ids ''servers''"
  unfolding server_Get_def server_List_def server_Delete_def
  by (rule repo_id_store) (simp_all add: scanServer_def order_by_def)

section \<open>What a created server looks like when it is read back\<close>

lemma make_row_server [simp]:
  "make_row ''servers'' (server_cols s) ''id'' = Text (srv_ID s)"
  by (simp add: make_row_def server_cols_def)

lemma scan_server_cols:
  "scanServer (make_row ''servers'' (server_cols s)) =
     s\<lparr> srv_LastConnectedAt := None, srv_OSInfo := [],
        srv_CreatedAt := srv_CreatedAt s div second * second \<rparr>"
  by (simp add: scanServer_def make_row_def server_cols_def sql_simps column_defaults_def nullable_def)

lemma server_row_ok:
  "row_not_null ''servers'' (make_row ''servers'' (server_cols s))"
  "row_references d ''servers'' r"
  "rows_conflict ''servers'' r r' \<longleftrightarrow> r ''id'' \<noteq> Null \<and> r ''id'' = r' ''id''"
  by (simp_all add: row_not_null_def not_null_cols_def required_cols_def column_defaults_def
      make_row_def server_cols_def rfc3339_def row_references_def foreign_keys_def
      rows_conflict_def unique_cols_def)

text \<open>Creating a server fails exactly for an invalid request or an id already in use (the driver
  permitting), and changes nothing then; otherwise exactly one row is added, the port and the
  authentication method are filled in, and reading the id back gives the server that
  \<open>Create\<close> returned, its creation time cut to whole seconds.\<close>

theorem server_create_then_get:
  assumes "faults d = []"
  shows "let s = server_of_request uuid now req; (r, d') = server_Create uuid now req d in
     if server_validate req \<noteq> None then r = Inl (the (server_validate req)) \<and> d' = d
     else if \<exists>row \<in> set (tables d ''servers''). by_id (srv_ID s) row
       then r = Inl (ServerSql (UniqueErr ''servers'' [])) \<and> d' = d
     else r = Inr s \<and> srv_AuthMethod s \<in> {''agent'', ''key''} \<and> 0 < srv_Port s \<and>
       server_Get (srv_ID s) d' = (Inr (s\<lparr> srv_CreatedAt := now div second * second \<rparr>), d') \<and>
       (\<forall>i. i \<noteq> srv_ID s \<longrightarrow> fst (server_Get i d') = fst (server_Get i d)) \<and>
       (\<forall>t. t \<noteq> ''servers'' \<longrightarrow> tables d' t = tables d t)"
proof -
  define s where "s = server_of_request uuid now req"
  have conflict: "(\<exists>r' \<in> set (tables d ''servers''). rows_conflict ''servers'' (make_row ''servers'' (server_cols s)) r')
      \<longleftrightarrow> (\<exists>row \<in> set (tables d ''servers''). by_id (srv_ID s) row)"
    by (simp add: server_row_ok by_id_def) (metis (no_types))
  show ?thesis
  proof (cases "server_validate req")
    case (Some e)
    then show ?thesis by (simp add: server_Create_def Let_def)
  next
    case None
    then have auth: "srv_AuthMethod s \<in> {''agent'', ''key''}"
      by (auto simp: server_validate_def s_def server_of_request_def Let_def split: if_splits)
    have "0 < srv_Port s" by (simp add: s_def server_of_request_def)
    moreover have "srv_LastConnectedAt s = None" "srv_OSInfo s = []" "srv_CreatedAt s = now"
      by (simp_all add: s_def server_of_request_def)
    moreover note auth
    ultimately show ?thesis
      using assms None
      unfolding s_def [symmetric] Let_def server_Create_def sql_insert_nofault [OF assms] raw_insert_def
        conflict
      by (auto simp: server_row_ok server_Get_def repo_get_nofault by_id_def scan_server_cols
          filter_empty_conv split: list.splits)
  qed
qed

text \<open>A server can be deleted exactly when no deployment and no deployment target refers to it; a
  refused delete leaves the database as it was, a successful one is final: the server is no longer
  found, listed or deletable again.\<close>

theorem server_delete_iff_unreferenced:
  assumes "faults d = []" "text_ids ''servers'' d" "fst (server_Get i d) = Inr s"
  shows "if referenced_by d ''servers'' (Text i)
     then server_Delete i d = (Inl (ServerSql ForeignKeyErr), d)
     else \<exists>d'. server_Delete i d = (Inr (), d') \<and> server_Get i d' = (Inl ServerNotFound, d') \<and>
       server_Delete i d' = (Inl ServerNotFound, d') \<and>
       (\<exists>xs. server_List d' = (Inr xs, d') \<and> i \<notin> srv_ID ` set xs)"
proof -
  have "\<exists>r \<in> set (tables d ''servers''). by_id i r"
    using assms(1,3) by (auto simp: server_Get_def repo_get_nofault filter_eq_Cons_iff split: list.splits)
  note del = repo_delete_nofault [OF assms(1), of "''servers''" ServerNotFound ServerSql i,
    folded server_Delete_def, simplified this if_True]
  show ?thesis
  proof (cases "referenced_by d ''servers'' (Text i)")
    case True
    with del show ?thesis by simp
  next
    case False
    define d' where "d' = with_table ''servers'' (filter (\<lambda>r. \<not> by_id i r) (tables d ''servers'')) d"
    have ok: "server_Delete i d = (Inr (), d')" and f: "faults d' = []"
      using False del assms(1) by (simp_all add: d'_def)
    obtain xs where xs: "server_List d' = (Inr xs, d')"
      using f by (simp add: server_List_def repo_list_nofault)
    with servers.delete_is_final [OF ok f] servers.deleted_not_listed [OF assms(2) ok f, of xs] False ok
    show ?thesis by auto
  qed
qed

definition demo_db :: db where
  "demo_db = \<lparr> tables = (\<lambda>_. [])(''servers'' :=
     [make_row ''servers'' [(''id'', Text ''s1''), (''name'', Text ''box''), (''hostname'', Text ''h''),
        (''username'', Text ''root''), (''created_at'', Stamp 0)]]), faults = [] \<rparr>"

lemma server_create_then_get_witness:
  "fst (server_Create ''u'' 1500000000
     \<lparr> sreq_ID = ''s1'', sreq_Name = ''n'', sreq_Hostname = ''h'', sreq_Port = 0,
       sreq_Username = ''root'', sreq_AuthMethod = [], sreq_SecretRef = [] \<rparr> demo_db) =
   Inl (ServerSql (UniqueErr ''servers'' []))"
proof -
  have "faults demo_db = []" by (simp add: demo_db_def)
  from server_create_then_get [OF this, of "''u''" 1500000000 "\<lparr> sreq_ID = ''s1'', sreq_Name = ''n'',
     sreq_Hostname = ''h'', sreq_Port = 0, sreq_Username = ''root'', sreq_AuthMethod = [], sreq_SecretRef = [] \<rparr>"]
  show ?thesis
    by (simp add: Let_def server_validate_def server_of_request_def demo_db_def by_id_def make_row_def
        split: prod.splits)
qed

lemma server_delete_iff_unreferenced_witness:
  "\<exists>d'. server_Delete ''s1'' demo_db = (Inr (), d') \<and> server_Get ''s1'' d' = (Inl ServerNotFound, d')"
proof -
  have "faults demo_db = []" "text_ids ''servers'' demo_db"
    by (simp_all add: demo_db_def text_ids_def make_row_def)
  moreover have "fst (server_Get ''s1'' demo_db) = Inr (scanServer (hd (tables demo_db ''servers'')))"
    by (simp add: server_Get_def repo_get_nofault demo_db_def by_id_def make_row_def)
  moreover have "\<not> referenced_by demo_db ''servers'' (Text ''s1'')"
    by (simp add: referenced_by_def schema_tables_def demo_db_def foreign_keys_def)
  ultimately show ?thesis using server_delete_iff_unreferenced [of demo_db "''s1''"] by auto
qed

end
