(* ===== verification/Filesystem.thy ===== *)
theory Filesystem
  imports Prelude
begin

text \<open>
  Unix paths and files, as far as the daemon uses them: \<open>path/filepath\<close> on cleaned absolute
  paths, which are lists of components (\<open>/\<close> is the empty list), a file tree with symbolic
  links, \<open>filepath.EvalSymlinks\<close> with its bound of 255 links, and the calls of package
  \<open>os\<close>, which resolve links the way the kernel does (40 links).
\<close>

type_synonym path = "string list"

datatype inode = Dir | File nat bytes | Link string

type_synonym fs = "path \<Rightarrow> inode option"

datatype os_error = ENOENT | ENOTDIR | ELOOP | EISDIR | EEXIST | EINVAL

section \<open>Paths\<close>

definition is_abs :: "string \<Rightarrow> bool" where
  "is_abs p = has_prefix p ''/''"

text \<open>\<open>filepath.Clean\<close> on the components of a rooted path.\<close>

fun clean_comps :: "path \<Rightarrow> string list \<Rightarrow> path" where
  "clean_comps acc [] = acc"
| "clean_comps acc (c # cs) =
     (if c = [] \<or> c = ''.'' then clean_comps acc cs
      else if c = ''..'' then clean_comps (butlast acc) cs
      else clean_comps (acc @ [c]) cs)"

definition clean_abs :: "string \<Rightarrow> path" where
  "clean_abs p = clean_comps [] (split_on CHR ''/'' p)"

text \<open>\<open>filepath.Join(root, p)\<close> for a rooted \<open>root\<close>.\<close>

definition join_path :: "path \<Rightarrow> string \<Rightarrow> path" where
  "join_path root p = clean_comps root (split_on CHR ''/'' p)"

definition plain_comp :: "string \<Rightarrow> bool" where
  "plain_comp c \<longleftrightarrow> c \<noteq> [] \<and> c \<noteq> ''.'' \<and> c \<noteq> ''..''"

definition clean_path :: "path \<Rightarrow> bool" where
  "clean_path p \<longleftrightarrow> (\<forall>c \<in> set p. plain_comp c)"

lemma clean_comps_clean: "clean_path acc \<Longrightarrow> clean_path (clean_comps acc cs)"
proof (induction acc cs rule: clean_comps.induct)
  case (2 acc c cs)
  have "clean_path (butlast acc)" using 2(4) by (simp add: clean_path_def in_set_butlastD)
  moreover have "c \<noteq> [] \<Longrightarrow> c \<noteq> ''.'' \<Longrightarrow> c \<noteq> ''..'' \<Longrightarrow> clean_path (acc @ [c])"
    using 2(4) by (simp add: clean_path_def plain_comp_def ball_Un)
  ultimately show ?case using 2 by simp
qed simp

lemma clean_comps_plain: "clean_path cs \<Longrightarrow> clean_comps acc cs = acc @ cs"
  by (induction cs arbitrary: acc) (auto simp: clean_path_def plain_comp_def)

lemma clean_abs_clean: "clean_path (clean_abs p)"
  unfolding clean_abs_def by (rule clean_comps_clean) (simp add: clean_path_def)

lemma join_path_clean: "clean_path root \<Longrightarrow> clean_path (join_path root p)"
  unfolding join_path_def by (rule clean_comps_clean)

text \<open>\<open>filepath.Rel\<close>: one \<open>..\<close> for each component of the base after the common prefix.\<close>

fun rel_path :: "path \<Rightarrow> path \<Rightarrow> string list" where
  "rel_path [] targ = targ"
| "rel_path (b # base) [] = replicate (length (b # base)) ''..''"
| "rel_path (b # base) (t # targ) =
     (if b = t then rel_path base targ else replicate (length (b # base)) ''..'' @ t # targ)"

section \<open>Resolving symbolic links\<close>

text \<open>
  \<open>walk\<close> is \<open>filepath.walkSymlinks\<close>: \<open>dest\<close> is the real path so far, \<open>n\<close> the number of
  links it may still follow.  A link's target is spliced in front of the rest of the path.
\<close>

function walk :: "fs \<Rightarrow> nat \<Rightarrow> path \<Rightarrow> string list \<Rightarrow> os_error + path" where
  "walk fs n dest [] = Inr dest"
| "walk fs n dest (c # cs) =
     (if c = [] \<or> c = ''.'' then walk fs n dest cs
      else if c = ''..'' then walk fs n (butlast dest) cs
      else (case fs (dest @ [c]) of
              None \<Rightarrow> Inl ENOENT
            | Some Dir \<Rightarrow> walk fs n (dest @ [c]) cs
            | Some (File _ _) \<Rightarrow> if cs \<noteq> [] then Inl ENOTDIR else walk fs n (dest @ [c]) cs
            | Some (Link l) \<Rightarrow>
                (case n of 0 \<Rightarrow> Inl ELOOP
                 | Suc m \<Rightarrow> walk fs m (if is_abs l then [] else dest) (split_on CHR ''/'' l @ cs))))"
  by pat_completeness auto
termination by (relation "measures [\<lambda>(fs, n, dest, cs). n, \<lambda>(fs, n, dest, cs). length cs]") auto

definition eval_symlinks :: "fs \<Rightarrow> path \<Rightarrow> os_error + path" where
  "eval_symlinks fs p = walk fs 255 [] p"

text \<open>
  \<open>locate\<close> is the kernel's resolution for an open that may create its last component: where
  the file is, or where it will be.
\<close>

function locate :: "fs \<Rightarrow> nat \<Rightarrow> path \<Rightarrow> string list \<Rightarrow> os_error + path" where
  "locate fs n dest [] = Inr dest"
| "locate fs n dest (c # cs) =
     (if c = [] \<or> c = ''.'' then locate fs n dest cs
      else if c = ''..'' then locate fs n (butlast dest) cs
      else (case fs (dest @ [c]) of
              None \<Rightarrow> if cs = [] then Inr (dest @ [c]) else Inl ENOENT
            | Some Dir \<Rightarrow> locate fs n (dest @ [c]) cs
            | Some (File _ _) \<Rightarrow> if cs \<noteq> [] then Inl ENOTDIR else locate fs n (dest @ [c]) cs
            | Some (Link l) \<Rightarrow>
                (case n of 0 \<Rightarrow> Inl ELOOP
                 | Suc m \<Rightarrow> locate fs m (if is_abs l then [] else dest) (split_on CHR ''/'' l @ cs))))"
  by pat_completeness auto
termination by (relation "measures [\<lambda>(fs, n, dest, cs). n, \<lambda>(fs, n, dest, cs). length cs]") auto

definition kernel_links :: nat where "kernel_links = 40"

declare walk.simps(2) [simp del] locate.simps(2) [simp del]

text \<open>What already exists is found where \<open>EvalSymlinks\<close> finds it.\<close>

lemma locate_existing:
  assumes "locate fs n dest cs = Inr r" "fs r \<noteq> None" "n \<le> m"
  shows "walk fs m dest cs = Inr r"
  using assms
proof (induction fs n dest cs arbitrary: m rule: locate.induct)
  case (2 fs n dest c cs)
  show ?case
  proof (cases "c = [] \<or> c = ''.'' \<or> c = ''..''")
    case True
    with 2 show ?thesis by (auto simp: walk.simps(2) locate.simps(2) split: if_splits)
  next
    case plain: False
    show ?thesis
    proof (cases "fs (dest @ [c])")
      case None
      with plain 2 show ?thesis by (auto simp: locate.simps(2) split: if_splits)
    next
      case (Some i)
      show ?thesis
      proof (cases i)
        case Dir
        with plain 2 Some show ?thesis by (simp add: walk.simps(2) locate.simps(2))
      next
        case (File x b)
        with plain 2 Some show ?thesis
          by (auto simp: walk.simps(2) locate.simps(2) split: if_splits)
      next
        case (Link l)
        with plain 2 Some obtain k where "n = Suc k" by (auto simp: locate.simps(2) split: nat.splits)
        moreover from this 2(8) obtain j where "m = Suc j" "k \<le> j" by (cases m) auto
        ultimately show ?thesis using plain 2 Some Link by (auto simp: walk.simps(2) locate.simps(2))
      qed
    qed
  qed
qed simp

lemma locate_walk_agree:
  assumes "walk fs m dest cs = Inr p" "locate fs n dest cs = Inr r" "n \<le> m"
  shows "r = p"
  using assms
proof (induction fs m dest cs arbitrary: n rule: walk.induct)
  case (2 fs m dest d ds)
  show ?case
  proof (cases "d = [] \<or> d = ''.'' \<or> d = ''..''")
    case True
    with 2 show ?thesis by (auto simp: walk.simps(2) locate.simps(2) split: if_splits)
  next
    case plain: False
    with 2 obtain i where i: "fs (dest @ [d]) = Some i"
      by (auto simp: walk.simps(2) split: option.splits)
    show ?thesis
    proof (cases i)
      case (Link l)
      with plain 2(7) i obtain k where "n = Suc k" by (auto simp: locate.simps(2) split: nat.splits)
      moreover from this 2(8) obtain j where "m = Suc j" "k \<le> j" by (cases m) auto
      ultimately show ?thesis using plain 2 i Link by (auto simp: walk.simps(2) locate.simps(2))
    qed (use plain 2 i in \<open>auto simp: walk.simps(2) locate.simps(2) split: if_splits\<close>)
  qed
qed simp

text \<open>In a tree, what is there lies in directories.  Where the kernel would make a new file, \<open>EvalSymlinks\<close> finds nothing.\<close>

definition rooted_tree :: "fs \<Rightarrow> bool" where
  "rooted_tree fs \<longleftrightarrow> fs [] = Some Dir \<and> (\<forall>p. fs p \<noteq> None \<longrightarrow> fs (butlast p) = Some Dir)"

lemma locate_missing:
  assumes "locate fs n dest cs = Inr r" "fs r = None" "n \<le> m" "rooted_tree fs" "fs dest \<noteq> None"
  shows "walk fs m dest cs = Inl ENOENT"
  using assms
proof (induction fs n dest cs arbitrary: m rule: locate.induct)
  case (2 fs n dest c cs)
  have t: "fs [] = Some Dir \<and> (\<forall>p. fs p \<noteq> None \<longrightarrow> fs (butlast p) = Some Dir)" using "2.prems"(4) unfolding rooted_tree_def .
  have up: "fs (butlast dest) \<noteq> None" "fs [] \<noteq> None"
    using conjunct2 [OF t, THEN spec, THEN mp, OF "2.prems"(5)] conjunct1 [OF t] by simp_all
  show ?case
  proof (cases "c = [] \<or> c = ''.'' \<or> c = ''..''")
    case True
    with 2 up show ?thesis by (auto simp: walk.simps(2) locate.simps(2) split: if_splits)
  next
    case plain: False
    show ?thesis
    proof (cases "fs (dest @ [c])")
      case None
      with plain show ?thesis by (simp add: walk.simps(2))
    next
      case (Some i)
      show ?thesis
      proof (cases i)
        case (Link l)
        with plain "2.prems"(1) Some obtain k where k: "n = Suc k" by (auto simp: locate.simps(2) split: nat.splits)
        moreover from this "2.prems"(3) obtain j where "m = Suc j" "k \<le> j" by (cases m) auto
        ultimately show ?thesis using plain 2 Some Link up by (auto simp: walk.simps(2) locate.simps(2))
      qed (use plain 2 Some in \<open>auto simp: walk.simps(2) locate.simps(2) split: if_splits\<close>)
    qed
  qed
qed simp

text \<open>A file that does not exist yet is created in the directory its parent resolves to.\<close>

lemma locate_new:
  assumes "walk fs m dest cs = Inr p" "locate fs n dest (cs @ [c]) = Inr r"
    and "n \<le> m" "plain_comp c" "\<And>l. fs (p @ [c]) \<noteq> Some (Link l)"
  shows "r = p @ [c]"
  using assms(1-3,5)
proof (induction fs m dest cs arbitrary: n rule: walk.induct)
  case (1 fs m dest)
  with assms(4) show ?case
    by (auto simp: locate.simps(2) plain_comp_def split: option.splits inode.splits)
next
  case (2 fs m dest d ds)
  show ?case
  proof (cases "d = [] \<or> d = ''.'' \<or> d = ''..''")
    case True
    with 2 show ?thesis by (auto simp: walk.simps(2) locate.simps(2) split: if_splits)
  next
    case plain: False
    with 2 obtain i where i: "fs (dest @ [d]) = Some i"
      by (auto simp: walk.simps(2) split: option.splits)
    show ?thesis
    proof (cases i)
      case Dir
      with plain 2 i show ?thesis by (simp add: walk.simps(2) locate.simps(2))
    next
      case (File x b)
      with plain 2 i show ?thesis by (simp add: locate.simps(2))
    next
      case (Link l)
      with plain 2(7) i obtain k where "n = Suc k" by (auto simp: locate.simps(2) split: nat.splits)
      moreover from this 2(8) obtain j where "m = Suc j" "k \<le> j" by (cases m) auto
      ultimately show ?thesis using plain 2 i Link by (auto simp: walk.simps(2) locate.simps(2))
    qed
  qed
qed

text \<open>An entry of a directory is found where its directory is.\<close>

lemma walk_snoc:
  assumes "walk fs n dest cs = Inr p" "plain_comp c" "fs (p @ [c]) = Some i" "\<forall>l. i \<noteq> Link l" "fs p = Some Dir"
  shows "walk fs n dest (cs @ [c]) = Inr (p @ [c])"
  using assms(1,3,5)
proof (induction fs n dest cs rule: walk.induct)
  case (1 fs n dest)
  then show ?case using assms(2,4) by (cases i) (auto simp: walk.simps(2) plain_comp_def)
next
  case (2 fs n dest d ds)
  show ?case
  proof (cases "d = [] \<or> d = ''.'' \<or> d = ''..''")
    case True
    with 2 show ?thesis by (auto simp: walk.simps(2) split: if_splits)
  next
    case plain: False
    with 2 obtain j where j: "fs (dest @ [d]) = Some j"
      by (auto simp: walk.simps(2) split: option.splits)
    show ?thesis
    proof (cases j)
      case (File x b)
      with plain 2 j show ?thesis by (auto simp: walk.simps(2) split: if_splits)
    next
      case (Link l)
      with plain 2 j obtain m where m: "n = Suc m" by (auto simp: walk.simps(2) split: nat.splits)
      with plain 2 j Link show ?thesis by (simp add: walk.simps(2))
    next
      case Dir
      with plain 2 j show ?thesis by (simp add: walk.simps(2))
    qed
  qed
qed

lemma locate_snoc:
  assumes "locate fs n dest cs = Inr p" "plain_comp c" "fs (p @ [c]) = Some i" "\<forall>l. i \<noteq> Link l" "fs p = Some Dir"
  shows "locate fs n dest (cs @ [c]) = Inr (p @ [c])"
  using assms(1,3,5)
proof (induction fs n dest cs rule: locate.induct)
  case (1 fs n dest)
  then show ?case using assms(2,4) by (cases i) (auto simp: locate.simps(2) plain_comp_def)
next
  case (2 fs n dest d ds)
  show ?case
  proof (cases "d = [] \<or> d = ''.'' \<or> d = ''..''")
    case True
    with 2 show ?thesis by (auto simp: locate.simps(2) split: if_splits)
  next
    case plain: False
    show ?thesis
    proof (cases "fs (dest @ [d])")
      case None
      with plain 2 show ?thesis by (auto simp: locate.simps(2) split: if_splits)
    next
      case j: (Some j)
      show ?thesis
      proof (cases j)
        case (File x b)
        with plain 2 j show ?thesis by (auto simp: locate.simps(2) split: if_splits)
      next
        case (Link l)
        with plain 2 j obtain m where m: "n = Suc m" by (auto simp: locate.simps(2) split: nat.splits)
        with plain 2 j Link show ?thesis by (simp add: locate.simps(2))
      next
        case Dir
        with plain 2 j show ?thesis by (simp add: locate.simps(2))
      qed
    qed
  qed
qed

section \<open>The calls of package \<open>os\<close>\<close>

definition os_stat :: "fs \<Rightarrow> path \<Rightarrow> os_error + inode" where
  "os_stat fs p = (case locate fs kernel_links [] p of
     Inl e \<Rightarrow> Inl e | Inr r \<Rightarrow> (case fs r of None \<Rightarrow> Inl ENOENT | Some i \<Rightarrow> Inr i))"

text \<open>The entry itself: its directory is resolved, its last component is not followed.\<close>

definition entry_path :: "fs \<Rightarrow> path \<Rightarrow> os_error + path" where
  "entry_path fs p =
     (if p = [] then Inr []
      else (case locate fs kernel_links [] (butlast p) of
              Inl e \<Rightarrow> Inl e
            | Inr r \<Rightarrow> (case fs r of Some Dir \<Rightarrow> Inr (r @ [last p]) | None \<Rightarrow> Inl ENOENT | _ \<Rightarrow> Inl ENOTDIR)))"

definition os_lstat :: "fs \<Rightarrow> path \<Rightarrow> os_error + inode" where
  "os_lstat fs p = (case entry_path fs p of
     Inl e \<Rightarrow> Inl e | Inr r \<Rightarrow> (case fs r of None \<Rightarrow> Inl ENOENT | Some i \<Rightarrow> Inr i))"

definition os_read_file :: "fs \<Rightarrow> path \<Rightarrow> os_error + bytes" where
  "os_read_file fs p = (case os_stat fs p of
     Inl e \<Rightarrow> Inl e | Inr (File _ b) \<Rightarrow> Inr b | Inr _ \<Rightarrow> Inl EISDIR)"

text \<open>\<open>O_CREATE|O_TRUNC\<close>: an existing file keeps its mode.\<close>

definition os_write_file :: "path \<Rightarrow> bytes \<Rightarrow> nat \<Rightarrow> fs \<Rightarrow> (os_error + unit) \<times> fs" where
  "os_write_file p b mode fs =
     (case locate fs kernel_links [] p of
        Inl e \<Rightarrow> (Inl e, fs)
      | Inr r \<Rightarrow>
         (case fs r of
            None \<Rightarrow> (Inr (), fs(r \<mapsto> File mode b))
          | Some (File old _) \<Rightarrow> (Inr (), fs(r \<mapsto> File old b))
          | Some _ \<Rightarrow> (Inl EISDIR, fs)))"

definition subtree :: "path \<Rightarrow> fs \<Rightarrow> fs" where
  "subtree p fs q = (if prefix p q then fs q else None)"

text \<open>\<open>os.RemoveAll\<close>: removes the entry and what is below it; a missing path is no error.\<close>

definition os_remove_all :: "path \<Rightarrow> fs \<Rightarrow> (os_error + unit) \<times> fs" where
  "os_remove_all p fs =
     (case entry_path fs p of
        Inl ENOENT \<Rightarrow> (Inr (), fs)
      | Inl e \<Rightarrow> (Inl e, fs)
      | Inr r \<Rightarrow> if r = [] then (Inl EINVAL, fs)
                 else (Inr (), \<lambda>q. if prefix r q then None else fs q))"

text \<open>\<open>os.Remove\<close>: one entry, and a directory only when it is empty.\<close>

definition os_remove :: "path \<Rightarrow> fs \<Rightarrow> (os_error + unit) \<times> fs" where
  "os_remove p fs =
     (case entry_path fs p of
        Inl e \<Rightarrow> (Inl e, fs)
      | Inr r \<Rightarrow>
         (case fs r of
            None \<Rightarrow> (Inl ENOENT, fs)
          | Some i \<Rightarrow> if i = Dir \<and> (\<exists>c. fs (r @ [c]) \<noteq> None) then (Inl EEXIST, fs) else (Inr (), fs(r := None))))"

text \<open>\<open>os.MkdirAll\<close>: makes the missing directories from the top down.\<close>

fun mkdir_all_from :: "path \<Rightarrow> string list \<Rightarrow> fs \<Rightarrow> (os_error + unit) \<times> fs" where
  "mkdir_all_from p [] fs = (Inr (), fs)"
| "mkdir_all_from p (c # cs) fs =
     (case os_stat fs (p @ [c]) of
        Inr Dir \<Rightarrow> mkdir_all_from (p @ [c]) cs fs
      | Inr _ \<Rightarrow> (Inl ENOTDIR, fs)
      | Inl ENOENT \<Rightarrow>
          (case entry_path fs (p @ [c]) of
             Inl e \<Rightarrow> (Inl e, fs)
           | Inr r \<Rightarrow> (case fs r of
                         None \<Rightarrow> mkdir_all_from (p @ [c]) cs (fs(r \<mapsto> Dir))
                       | Some _ \<Rightarrow> (Inl EEXIST, fs)))
      | Inl e \<Rightarrow> (Inl e, fs))"

definition os_mkdir_all :: "path \<Rightarrow> fs \<Rightarrow> (os_error + unit) \<times> fs" where
  "os_mkdir_all p fs = mkdir_all_from [] p fs"

text \<open>
  \<open>os.Rename\<close>: moves the entry and what is below it over the destination.  Go looks first: a destination that is
  a directory, even an empty one, is an error.
\<close>

definition os_rename :: "path \<Rightarrow> path \<Rightarrow> fs \<Rightarrow> (os_error + unit) \<times> fs" where
  "os_rename src dst fs =
     (case (entry_path fs src, entry_path fs dst) of
        (Inl e, _) \<Rightarrow> (Inl e, fs)
      | (Inr s, Inl e) \<Rightarrow> (Inl e, fs)
      | (Inr s, Inr t) \<Rightarrow>
         (case fs s of
            None \<Rightarrow> (Inl ENOENT, fs)
          | Some i \<Rightarrow>
             if fs t = Some Dir then (Inl EEXIST, fs)
             else if s = t then (Inr (), fs)
             else if prefix s t then (Inl EINVAL, fs)
             else if i = Dir \<and> fs t \<noteq> None then (Inl ENOTDIR, fs)
             else (Inr (), \<lambda>q. if prefix t q then fs (s @ drop (length t) q)
                               else if prefix s q then None else fs q)))"

text \<open>A path as a text.\<close>

definition show_path :: "path \<Rightarrow> string" where
  "show_path p = (if p = [] then ''/'' else concat (map (\<lambda>c. CHR ''/'' # c) p))"

text \<open>A file that is written is found where it was found, or where it was to be.\<close>

lemma locate_written:
  assumes "locate fs n dest cs = Inr r" "fs r = None \<or> (\<exists>x y. fs r = Some (File x y))"
  shows "locate (fs(r \<mapsto> File m b)) n dest cs = Inr r"
  using assms
proof (induction fs n dest cs rule: locate.induct)
  case (2 fs n dest c cs)
  show ?case
  proof (cases "c = [] \<or> c = ''.'' \<or> c = ''..''")
    case True
    with 2 show ?thesis by (auto simp: locate.simps(2) split: if_splits)
  next
    case plain: False
    show ?thesis
    proof (cases "dest @ [c] = r")
      case True
      with 2 plain show ?thesis by (auto simp: locate.simps(2) split: if_splits)
    next
      case ne: False
      show ?thesis
      proof (cases "fs (dest @ [c])")
        case None
        with plain 2 ne show ?thesis by (auto simp: locate.simps(2) split: if_splits)
      next
        case j: (Some j)
        show ?thesis
        proof (cases j)
          case (File x y)
          with plain 2 j ne show ?thesis by (auto simp: locate.simps(2) split: if_splits)
        next
          case (Link l)
          with plain 2 j obtain m where m: "n = Suc m" by (auto simp: locate.simps(2) split: nat.splits)
          with plain 2 j Link ne show ?thesis by (simp add: locate.simps(2))
        next
          case Dir
          with plain 2 j ne show ?thesis by (simp add: locate.simps(2))
        qed
      qed
    qed
  qed
qed simp

text \<open>No component has a slash in it.\<close>

definition slash_free :: "path \<Rightarrow> bool" where
  "slash_free p \<longleftrightarrow> (\<forall>c \<in> set p. CHR ''/'' \<notin> set c)"

lemma clean_comps_slash_free: "slash_free acc \<Longrightarrow> slash_free cs \<Longrightarrow> slash_free (clean_comps acc cs)"
proof (induction acc cs rule: clean_comps.induct)
  case (2 acc c cs)
  have "slash_free cs" "CHR ''/'' \<notin> set c" using "2.prems"(2) by (simp_all add: slash_free_def)
  moreover have "slash_free (butlast acc)" using "2.prems"(1) by (auto simp: slash_free_def dest: in_set_butlastD)
  moreover have "slash_free (acc @ [c])" using "2.prems"(1) \<open>CHR ''/'' \<notin> set c\<close> by (auto simp: slash_free_def)
  ultimately show ?case using 2 by simp
qed simp

lemma join_path_slash_free: "slash_free p \<Longrightarrow> slash_free (join_path p s)"
  unfolding join_path_def by (intro clean_comps_slash_free) (auto simp: slash_free_def dest: in_split_on)

lemma split_show_path: "slash_free p \<Longrightarrow> p \<noteq> [] \<Longrightarrow> split_on CHR ''/'' (show_path p) = [] # p"
proof (induction p)
  case (Cons c p)
  then have c: "CHR ''/'' \<notin> set c" "slash_free p" by (simp_all add: slash_free_def)
  show ?case
  proof (cases "p = []")
    case True
    then show ?thesis using c by (simp add: show_path_def split_on_plain)
  next
    case False
    then have "show_path (c # p) = CHR ''/'' # c @ CHR ''/'' # tl (show_path p)" by (cases p) (simp_all add: show_path_def)
    moreover have "split_on CHR ''/'' (tl (show_path p)) = p"
      using Cons.IH [OF c(2) False] False by (cases p) (auto simp: show_path_def)
    ultimately show ?thesis using c by (simp add: split_on_append split_on_plain)
  qed
qed simp

text \<open>The text of a clean path reads back as that path.\<close>

lemma clean_abs_show_path: "slash_free p \<Longrightarrow> clean_path p \<Longrightarrow> clean_abs (show_path p) = p"
  by (cases "p = []") (simp_all add: clean_abs_def split_show_path clean_comps_plain, simp add: show_path_def)

lemma is_abs_show_path [simp]: "is_abs (show_path p)"
  by (cases p) (simp_all add: is_abs_def has_prefix_def show_path_def)

end
