(* ===== verification/Sandbox.thy ===== *)
theory Sandbox
  imports Filesystem
begin

text \<open>
  The file manager: the sandbox of \<open>internal/security/sandbox.go\<close> and the operations of
  \<open>Store\<close> in \<open>internal/storage/store.go\<close> that go through it.  The state is the file tree;
  the sandbox root is a resolved, cleaned absolute path.
\<close>

record sandbox = sb_root :: path

datatype sandbox_error =
    ResolveFailed os_error
  | EscapesRoot string
  | RefusingRoot
  | CopyDirectory
  | OsFailed os_error

definition NewSandbox :: "fs \<Rightarrow> path \<Rightarrow> os_error + sandbox" where
  "NewSandbox fs root =
     (case eval_symlinks fs root of
        Inr resolved \<Rightarrow> Inr \<lparr> sb_root = resolved \<rparr>
      | Inl e \<Rightarrow> if e \<noteq> ENOENT then Inl e else Inr \<lparr> sb_root = root \<rparr>)"

definition isWithin :: "path \<Rightarrow> path \<Rightarrow> bool" where
  "isWithin root target =
     (let rel = rel_path root target in
      rel = [] \<or> hd rel \<noteq> ''..'')"

function resolveExistingAncestor :: "fs \<Rightarrow> path \<Rightarrow> path \<Rightarrow> string list \<Rightarrow> os_error + path" where
  "resolveExistingAncestor fs path cur rest =
     (case eval_symlinks fs cur of
        Inr resolved \<Rightarrow> Inr (clean_comps resolved rest)
      | Inl e \<Rightarrow>
          if e \<noteq> ENOENT then Inl e
          else if cur = [] then Inr path
          else resolveExistingAncestor fs path (butlast cur) (last cur # rest))"
  by pat_completeness auto
termination by (relation "measure (\<lambda>(fs, path, cur, rest). length cur)") auto

declare resolveExistingAncestor.simps [simp del]

definition Resolve :: "fs \<Rightarrow> sandbox \<Rightarrow> string \<Rightarrow> sandbox_error + path" where
  "Resolve fs s userPath0 =
     (let userPath = (if userPath0 = [] then ''.'' else userPath0);
          joined = (if is_abs userPath then clean_abs userPath else join_path (sb_root s) userPath)
      in case resolveExistingAncestor fs joined joined [] of
           Inl e \<Rightarrow> Inl (ResolveFailed e)
         | Inr real \<Rightarrow> if \<not> isWithin (sb_root s) real then Inl (EscapesRoot userPath) else Inr joined)"

section \<open>The file-manager operations of the store\<close>

definition store_WriteFile :: "sandbox \<Rightarrow> string \<Rightarrow> bytes \<Rightarrow> fs \<Rightarrow> (sandbox_error + unit) \<times> fs" where
  "store_WriteFile s p b fs =
     (case Resolve fs s p of
        Inl e \<Rightarrow> (Inl e, fs)
      | Inr real \<Rightarrow> (case os_write_file real b 420 fs of
                       (Inl e, fs') \<Rightarrow> (Inl (OsFailed e), fs') | (Inr _, fs') \<Rightarrow> (Inr (), fs')))"

definition store_ReadFile :: "sandbox \<Rightarrow> string \<Rightarrow> fs \<Rightarrow> sandbox_error + bytes" where
  "store_ReadFile s p fs =
     (case Resolve fs s p of
        Inl e \<Rightarrow> Inl e
      | Inr real \<Rightarrow> (case os_read_file fs real of Inl e \<Rightarrow> Inl (OsFailed e) | Inr b \<Rightarrow> Inr b))"

definition store_DeletePath :: "sandbox \<Rightarrow> string \<Rightarrow> fs \<Rightarrow> (sandbox_error + unit) \<times> fs" where
  "store_DeletePath s p fs =
     (case Resolve fs s p of
        Inl e \<Rightarrow> (Inl e, fs)
      | Inr real \<Rightarrow>
          if real = sb_root s then (Inl RefusingRoot, fs)
          else (case os_remove_all real fs of
                  (Inl e, fs') \<Rightarrow> (Inl (OsFailed e), fs') | (Inr _, fs') \<Rightarrow> (Inr (), fs')))"

definition store_Mkdir :: "sandbox \<Rightarrow> string \<Rightarrow> fs \<Rightarrow> (sandbox_error + unit) \<times> fs" where
  "store_Mkdir s p fs =
     (case Resolve fs s p of
        Inl e \<Rightarrow> (Inl e, fs)
      | Inr real \<Rightarrow> (case os_mkdir_all real fs of
                       (Inl e, fs') \<Rightarrow> (Inl (OsFailed e), fs') | (Inr _, fs') \<Rightarrow> (Inr (), fs')))"

definition store_Move :: "sandbox \<Rightarrow> string \<Rightarrow> string \<Rightarrow> fs \<Rightarrow> (sandbox_error + unit) \<times> fs" where
  "store_Move s src dst fs =
     (case Resolve fs s src of
        Inl e \<Rightarrow> (Inl e, fs)
      | Inr realSrc \<Rightarrow>
         (case Resolve fs s dst of
            Inl e \<Rightarrow> (Inl e, fs)
          | Inr realDst \<Rightarrow> (case os_rename realSrc realDst fs of
                              (Inl e, fs') \<Rightarrow> (Inl (OsFailed e), fs') | (Inr _, fs') \<Rightarrow> (Inr (), fs'))))"

definition store_Copy :: "sandbox \<Rightarrow> string \<Rightarrow> string \<Rightarrow> fs \<Rightarrow> (sandbox_error + unit) \<times> fs" where
  "store_Copy s src dst fs =
     (case Resolve fs s src of
        Inl e \<Rightarrow> (Inl e, fs)
      | Inr realSrc \<Rightarrow>
         (case Resolve fs s dst of
            Inl e \<Rightarrow> (Inl e, fs)
          | Inr realDst \<Rightarrow>
             (case os_stat fs realSrc of
                Inl e \<Rightarrow> (Inl (OsFailed e), fs)
              | Inr Dir \<Rightarrow> (Inl CopyDirectory, fs)
              | Inr (Link _) \<Rightarrow> (Inl (OsFailed ELOOP), fs)
              | Inr (File mode _) \<Rightarrow>
                 (case os_read_file fs realSrc of
                    Inl e \<Rightarrow> (Inl (OsFailed e), fs)
                  | Inr b \<Rightarrow> (case os_write_file realDst b mode fs of
                       (Inl e, fs') \<Rightarrow> (Inl (OsFailed e), fs') | (Inr _, fs') \<Rightarrow> (Inr (), fs'))))))"

section \<open>Containment\<close>

lemma isWithin_prefix:
  assumes "clean_path target"
  shows "isWithin root target \<longleftrightarrow> prefix root target"
  using assms
proof (induction root target rule: rel_path.induct)
  case (1 targ)
  then show ?case by (cases targ) (auto simp: isWithin_def clean_path_def plain_comp_def)
next
  case (3 b base t targ)
  then have "clean_path targ" by (simp add: clean_path_def)
  with 3 show ?case by (auto simp: isWithin_def)
qed (simp add: isWithin_def)

text \<open>A file tree: real paths are clean, and the entries of a path lie in directories.\<close>

definition fs_ok :: "fs \<Rightarrow> bool" where
  "fs_ok fs \<longleftrightarrow> fs [] = Some Dir \<and> (\<forall>p. fs p \<noteq> None \<longrightarrow> clean_path p)"

lemma walk_clean:
  assumes "walk fs n dest cs = Inr r" "clean_path dest" "fs_ok fs"
  shows "clean_path r"
  using assms
proof (induction fs n dest cs rule: walk.induct)
  case (2 fs n dest c cs)
  have "clean_path (butlast dest)" using 2 by (simp add: clean_path_def in_set_butlastD)
  moreover have "fs (dest @ [c]) \<noteq> None \<Longrightarrow> clean_path (dest @ [c])" using 2 by (simp add: fs_ok_def)
  moreover have "clean_path []" by (simp add: clean_path_def)
  ultimately show ?case using 2
    by (auto simp: walk.simps(2) split: if_splits option.splits inode.splits nat.splits)
qed simp

lemma eval_symlinks_clean: "eval_symlinks fs p = Inr r \<Longrightarrow> fs_ok fs \<Longrightarrow> clean_path r"
  using walk_clean [of fs 255 "[]" p r] by (simp add: eval_symlinks_def clean_path_def)

lemma Resolve_clean:
  "Resolve fs s p = Inr q \<Longrightarrow> clean_path (sb_root s) \<Longrightarrow> clean_path q"
  by (auto simp: Resolve_def Let_def clean_abs_clean join_path_clean split: if_splits sum.splits)

lemma Resolve_ancestor:
  assumes "Resolve fs s p = Inr q"
  obtains real where "resolveExistingAncestor fs q q [] = Inr real" "isWithin (sb_root s) real"
  using assms by (auto simp: Resolve_def Let_def split: if_splits sum.splits)

text \<open>An existing path that resolves does so inside the root.\<close>

lemma Resolve_existing_within:
  assumes "Resolve fs s p = Inr q" "eval_symlinks fs q = Inr r" "fs_ok fs"
  shows "prefix (sb_root s) r"
proof -
  from assms(2,3) have r: "clean_path r" by (rule eval_symlinks_clean)
  from Resolve_ancestor [OF assms(1)] obtain real
    where "resolveExistingAncestor fs q q [] = Inr real" "isWithin (sb_root s) real" by blast
  with assms(2) r show ?thesis
    by (simp add: resolveExistingAncestor.simps [of fs q q] isWithin_prefix)
qed

text \<open>What the kernel finds at a resolved path.\<close>

lemma Resolve_target_within:
  assumes "fs_ok fs" "clean_path (sb_root s)" "Resolve fs s p = Inr q"
    and "locate fs kernel_links [] q = Inr r"
  shows "(fs r \<noteq> None \<longrightarrow> prefix (sb_root s) r) \<and>
    (fs r = None \<longrightarrow> (\<forall>parent. eval_symlinks fs (butlast q) = Inr parent \<longrightarrow>
       (\<forall>l. fs (parent @ [last q]) \<noteq> Some (Link l)) \<longrightarrow> prefix (sb_root s) r))"
proof (intro conjI impI allI)
  assume "fs r \<noteq> None"
  then have "eval_symlinks fs q = Inr r"
    using locate_existing [OF assms(4), of 255] by (simp add: eval_symlinks_def kernel_links_def)
  then show "prefix (sb_root s) r" using Resolve_existing_within assms by blast
next
  fix parent
  assume new: "fs r = None" and par: "eval_symlinks fs (butlast q) = Inr parent"
    and nolink: "\<forall>l. fs (parent @ [last q]) \<noteq> Some (Link l)"
  have "q \<noteq> []" using assms(1,4) new by (auto simp: fs_ok_def)
  then have q: "butlast q @ [last q] = q" by simp
  have "clean_path q" using Resolve_clean assms(2,3) by blast
  then have last: "plain_comp (last q)" using \<open>q \<noteq> []\<close> by (simp add: clean_path_def)
  have r: "r = parent @ [last q]"
    using par nolink last assms(4) q
    by (intro locate_new [of fs 255 "[]" "butlast q" parent kernel_links])
      (simp_all add: eval_symlinks_def kernel_links_def)
  have "clean_path parent" using par assms(1) by (rule eval_symlinks_clean)
  with last have "clean_path r" by (simp add: r clean_path_def)
  from Resolve_ancestor [OF assms(3)] obtain real
    where real: "resolveExistingAncestor fs q q [] = Inr real" "isWithin (sb_root s) real" by blast
  have "real = r"
  proof (cases "eval_symlinks fs q")
    case (Inr r')
    with real(1) have "real = r'" by (simp add: resolveExistingAncestor.simps [of fs q q])
    moreover have "r = r'"
      using locate_walk_agree [of fs 255 "[]" q r' kernel_links r] Inr assms(4)
      by (simp add: eval_symlinks_def kernel_links_def)
    ultimately show ?thesis by simp
  next
    case (Inl e)
    with real(1) \<open>q \<noteq> []\<close> have "resolveExistingAncestor fs q (butlast q) [last q] = Inr real"
      by (simp add: resolveExistingAncestor.simps [of fs q q] split: if_splits)
    with par last r show ?thesis
      by (simp add: resolveExistingAncestor.simps [of fs q "butlast q"] plain_comp_def)
  qed
  with real(2) \<open>clean_path r\<close> show "prefix (sb_root s) r" by (simp add: isWithin_prefix)
qed

text \<open>C8: Whatever the kernel finds at a path the sandbox has resolved lies under the sandbox root,
  no matter which symbolic links the path goes through; and a file that does not exist yet is
  created under the root, unless the last component is itself a symbolic link.\<close>

theorem sandbox_contains_resolved_paths:
  assumes "fs_ok fs" "clean_path (sb_root s)" "Resolve fs s p = Inr q"
    and "locate fs kernel_links [] q = Inr r"
  shows "(fs r \<noteq> None \<longrightarrow> prefix (sb_root s) r) \<and>
    (fs r = None \<longrightarrow> (\<forall>parent. eval_symlinks fs (butlast q) = Inr parent \<longrightarrow>
       (\<forall>l. fs (parent @ [last q]) \<noteq> Some (Link l)) \<longrightarrow> prefix (sb_root s) r))"
  by (rule Resolve_target_within [OF assms])

text \<open>A read through the sandbox only ever returns the content of a file that lies under the
  sandbox root.\<close>

theorem sandbox_read_inside:
  assumes "fs_ok fs" "clean_path (sb_root s)" "store_ReadFile s p fs = Inr b"
  shows "\<exists>r mode. prefix (sb_root s) r \<and> fs r = Some (File mode b)"
proof -
  from assms(3) obtain q where q: "Resolve fs s p = Inr q" "os_read_file fs q = Inr b"
    by (auto simp: store_ReadFile_def split: sum.splits)
  then obtain mode where "os_stat fs q = Inr (File mode b)"
    by (auto simp: os_read_file_def split: sum.splits inode.splits)
  then obtain r where r: "locate fs kernel_links [] q = Inr r" "fs r = Some (File mode b)"
    by (auto simp: os_stat_def split: sum.splits option.splits)
  then have "eval_symlinks fs q = Inr r"
    using locate_existing [OF r(1), of 255] by (simp add: eval_symlinks_def kernel_links_def)
  from Resolve_existing_within [OF q(1) this assms(1)] r(2) show ?thesis by blast
qed

section \<open>Where the guards do not hold\<close>

text \<open>C14: The guard of \<open>Resolve\<close> does not cover symbolic links whose target does not exist.  Let a path be given whose
  directory lies in the sandbox, and let the kernel look for it outside the sandbox, at a place where nothing is yet:
  then its last component is such a link, the path is accepted all the same, and writing to it creates the file
  outside the sandbox, whatever the tree, the root and the content.\<close>

theorem sandbox_write_through_dangling_link_escapes:
  assumes "fs_ok fs" "rooted_tree fs" "clean_path (sb_root s)"
    and "p \<noteq> []" "q = (if is_abs p then clean_abs p else join_path (sb_root s) p)"
    and "eval_symlinks fs (butlast q) = Inr parent" "prefix (sb_root s) parent"
    and "locate fs kernel_links [] q = Inr r" "fs r = None" "\<not> prefix (sb_root s) r"
  shows "(\<exists>l. fs (parent @ [last q]) = Some (Link l)) \<and> Resolve fs s p = Inr q \<and>
    store_WriteFile s p b fs = (Inr (), fs(r \<mapsto> File 420 b))"
proof -
  have q: "clean_path q" using assms(3,5) by (simp add: clean_abs_clean join_path_clean)
  have "q \<noteq> []" using assms(1,8,9) by (auto simp: fs_ok_def)
  then have last: "plain_comp (last q)" using q by (simp add: clean_path_def)
  have "clean_path (parent @ [last q])" using eval_symlinks_clean [OF assms(6,1)] last by (simp add: clean_path_def)
  then have within: "isWithin (sb_root s) (parent @ [last q])" using assms(7) by (simp add: isWithin_prefix)
  have "eval_symlinks fs q = Inl ENOENT"
    using locate_missing [OF assms(8,9), of 255] assms(2) by (simp add: eval_symlinks_def kernel_links_def rooted_tree_def)
  then have "resolveExistingAncestor fs q q [] = Inr (parent @ [last q])"
    using \<open>q \<noteq> []\<close> assms(6) last
    by (simp add: resolveExistingAncestor.simps [of fs q q] resolveExistingAncestor.simps [of fs q "butlast q"] plain_comp_def)
  then have "Resolve fs s p = Inr q" using within assms(4,5) by (simp add: Resolve_def Let_def)
  moreover from this have "\<exists>l. fs (parent @ [last q]) = Some (Link l)"
    using Resolve_target_within [OF assms(1,3) _ assms(8)] assms(6,9,10) by blast
  ultimately show ?thesis using assms(8,9) by (simp add: store_WriteFile_def os_write_file_def)
qed

text \<open>A home directory with one symbolic link whose target does not exist.\<close>

definition dangling_fs :: fs where
  "dangling_fs p =
     (if p = [] \<or> p = [''home''] \<or> p = [''etc''] then Some Dir
      else if p = [''home'', ''link''] then Some (Link ''/etc/job'') else None)"

lemma sandbox_write_through_dangling_link_escapes_witness:
  "store_WriteFile \<lparr> sb_root = [''home''] \<rparr> ''link'' ''x'' dangling_fs = (Inr (), dangling_fs([''etc'', ''job''] \<mapsto> File 420 ''x''))"
proof -
  let ?s = "\<lparr> sb_root = [''home''] \<rparr>"
  have "fs_ok dangling_fs" by (auto simp: fs_ok_def dangling_fs_def clean_path_def plain_comp_def)
  moreover have "rooted_tree dangling_fs" by (auto simp: rooted_tree_def dangling_fs_def)
  moreover have j: "is_abs ''link'' = False" "join_path [''home''] ''link'' = [''home'', ''link'']"
    by (simp_all add: is_abs_def has_prefix_def join_path_def)
  moreover have "eval_symlinks dangling_fs (butlast [''home'', ''link'']) = Inr [''home'']"
    "locate dangling_fs kernel_links [] [''home'', ''link''] = Inr [''etc'', ''job'']"
    by (simp_all add: eval_symlinks_def kernel_links_def walk.simps(2) locate.simps(2) dangling_fs_def
        is_abs_def has_prefix_def eval_nat_numeral)
  ultimately show ?thesis
    using sandbox_write_through_dangling_link_escapes [of dangling_fs ?s "''link''" "[''home'', ''link'']" "[''home'']" "[''etc'', ''job'']" "''x''"]
    by (simp add: j clean_path_def plain_comp_def dangling_fs_def del: fun_upd_apply)
qed

text \<open>A home directory that is reached through a symbolic link as well.\<close>

definition aliased_fs :: fs where
  "aliased_fs p =
     (if p = [] \<or> p = [''private''] \<or> p = [''private'', ''home''] then Some Dir
      else if p = [''var''] then Some (Link ''private'')
      else if p = [''private'', ''home'', ''notes''] then Some (File 420 ''n'') else None)"

text \<open>The refusal to delete the file-manager root compares the path as typed with the resolved
  root, so the root is deleted, with everything below it, when it is named through a symbolic
  link above it.\<close>

theorem delete_guard_misses_aliased_root:
  "let s = \<lparr> sb_root = [''private'', ''home''] \<rparr>;
       (r, fs') = store_DeletePath s ''/var/home'' aliased_fs in
     NewSandbox aliased_fs [''var'', ''home''] = Inr s \<and>
     fst (store_DeletePath s ''/private/home'' aliased_fs) = Inl RefusingRoot \<and>
     r = Inr () \<and> fs' [''private'', ''home''] = None \<and> fs' [''private'', ''home'', ''notes''] = None"
proof -
  let ?s = "\<lparr> sb_root = [''private'', ''home''] \<rparr>"
  note eval = eval_symlinks_def kernel_links_def walk.simps(2) locate.simps(2) aliased_fs_def
    is_abs_def has_prefix_def eval_nat_numeral
  have e: "eval_symlinks aliased_fs [''var'', ''home''] = Inr [''private'', ''home'']"
    "eval_symlinks aliased_fs [''private'', ''home''] = Inr [''private'', ''home'']"
    "locate aliased_fs kernel_links [] [''var''] = Inr [''private'']"
    by (simp_all add: eval)
  have "Resolve aliased_fs ?s ''/var/home'' = Inr [''var'', ''home'']"
    "Resolve aliased_fs ?s ''/private/home'' = Inr [''private'', ''home'']"
    using e by (simp_all add: Resolve_def Let_def is_abs_def has_prefix_def clean_abs_def
        resolveExistingAncestor.simps isWithin_def)
  moreover have "entry_path aliased_fs [''var'', ''home''] = Inr [''private'', ''home'']"
    using e(3) by (simp add: entry_path_def aliased_fs_def)
  ultimately show ?thesis using e
    by (simp add: Let_def store_DeletePath_def os_remove_all_def NewSandbox_def)
qed

section \<open>Witnesses\<close>

lemma demo_fs_ok: "fs_ok aliased_fs"
  by (auto simp: fs_ok_def aliased_fs_def clean_path_def plain_comp_def)

lemma demo_resolve:
  "Resolve aliased_fs \<lparr> sb_root = [''private'', ''home''] \<rparr> ''notes'' = Inr [''private'', ''home'', ''notes'']"
  by (simp add: Resolve_def Let_def is_abs_def has_prefix_def join_path_def resolveExistingAncestor.simps
      isWithin_def eval_symlinks_def walk.simps(2) aliased_fs_def)

lemma demo_locate:
  "locate aliased_fs kernel_links [] [''private'', ''home'', ''notes''] = Inr [''private'', ''home'', ''notes'']"
  by (simp add: locate.simps(2) aliased_fs_def)

lemma demo_root_clean: "clean_path (sb_root \<lparr> sb_root = [''private'', ''home''] \<rparr>)"
  by (simp add: clean_path_def plain_comp_def)

lemma sandbox_contains_resolved_paths_witness:
  "prefix [''private'', ''home''] [''private'', ''home'', ''notes'']"
  using sandbox_contains_resolved_paths [OF demo_fs_ok demo_root_clean demo_resolve demo_locate]
  by (simp add: aliased_fs_def)

lemma sandbox_read_inside_witness:
  "\<exists>r mode. prefix [''private'', ''home''] r \<and> aliased_fs r = Some (File mode ''n'')"
proof -
  have "store_ReadFile \<lparr> sb_root = [''private'', ''home''] \<rparr> ''notes'' aliased_fs = Inr ''n''"
    using demo_resolve demo_locate
    by (simp add: store_ReadFile_def os_read_file_def os_stat_def aliased_fs_def)
  from sandbox_read_inside [OF demo_fs_ok demo_root_clean this] show ?thesis by simp
qed

end
