(* ===== verification/Projects.thy ===== *)
theory Projects
  imports Database Filesystem
begin

text \<open>
  \<open>internal/domain/project\<close>: the framework detectors of its \<open>detect\<close> subpackage and the
  project repository.  What the file tree holds at a path is read through \<open>Filesystem\<close>; the
  JSON text of \<open>composer.json\<close> and \<open>package.json\<close> is parsed by \<open>encoding/json\<close>, which
  is the argument \<open>parse\<close> (\<^const>\<open>None\<close> for malformed text).
\<close>

record detect_result =
  res_Kind :: string
  res_RunCommand :: string
  res_Detail :: string

definition KindLaravel :: string where "KindLaravel = ''laravel''"
definition KindNextJS :: string where "KindNextJS = ''nextjs''"
definition KindNode :: string where "KindNode = ''node''"
definition KindPHP :: string where "KindPHP = ''php''"
definition KindUnknown :: string where "KindUnknown = ''unknown''"

lemmas kinds = KindLaravel_def KindNextJS_def KindNode_def KindPHP_def KindUnknown_def

datatype detect_error = ReadMarker os_error | BadMarkerJson

type_synonym parser = "bytes \<Rightarrow> json option"
type_synonym detector = "fs \<Rightarrow> path \<Rightarrow> detect_error + detect_result option"

definition fileExists :: "fs \<Rightarrow> path \<Rightarrow> string \<Rightarrow> bool" where
  "fileExists fs dir name =
     (case os_stat fs (join_path dir name) of Inl _ \<Rightarrow> False | Inr i \<Rightarrow> i \<noteq> Dir)"

text \<open>
  Decoding a JSON value into a \<open>map[string]string\<close> field: \<open>null\<close> leaves it unset, a value of
  another type is an error.  Field names match without regard to case.
\<close>

fun string_pairs :: "(string \<times> json) list \<Rightarrow> (string \<times> string) list option" where
  "string_pairs [] = Some []"
| "string_pairs ((k, v) # kvs) =
     (case (v, string_pairs kvs) of
        (JStr s, Some r) \<Rightarrow> Some ((k, s) # r)
      | (JNull, Some r) \<Rightarrow> Some ((k, []) # r)
      | _ \<Rightarrow> None)"

fun string_map_field :: "string \<Rightarrow> (string \<times> json) list \<Rightarrow> (string \<times> string) list option" where
  "string_map_field f [] = Some []"
| "string_map_field f ((k, v) # kvs) =
     (if equal_fold k f then
        (case (v, string_map_field f kvs) of
           (JNull, r) \<Rightarrow> r
         | (JObj o1, Some r) \<Rightarrow> map_option (\<lambda>p. p @ r) (string_pairs o1)
         | _ \<Rightarrow> None)
      else string_map_field f kvs)"

definition decode_fields :: "string list \<Rightarrow> json \<Rightarrow> (string \<times> string) list list option" where
  "decode_fields fnames j =
     (case j of
        JObj kvs \<Rightarrow>
          (if list_all (\<lambda>f. string_map_field f kvs \<noteq> None) fnames
           then Some (map (\<lambda>f. the (string_map_field f kvs)) fnames) else None)
      | JNull \<Rightarrow> Some (map (\<lambda>_. []) fnames)
      | _ \<Rightarrow> None)"

definition read_json_file ::
  "parser \<Rightarrow> string list \<Rightarrow> string \<Rightarrow> fs \<Rightarrow> path \<Rightarrow> detect_error + (string \<times> string) list list option" where
  "read_json_file parse fnames name fs dir =
     (case os_read_file fs (join_path dir name) of
        Inl e \<Rightarrow> if e = ENOENT then Inr None else Inl (ReadMarker e)
      | Inr b \<Rightarrow>
         (case parse b of
            None \<Rightarrow> Inl BadMarkerJson
          | Some j \<Rightarrow> (case decode_fields fnames j of
                         None \<Rightarrow> Inl BadMarkerJson | Some m \<Rightarrow> Inr (Some m))))"

definition readComposerJSON :: "parser \<Rightarrow> fs \<Rightarrow> path \<Rightarrow> detect_error + (string \<times> string) list list option" where
  "readComposerJSON parse = read_json_file parse [''require''] ''composer.json''"

definition readPackageJSON :: "parser \<Rightarrow> fs \<Rightarrow> path \<Rightarrow> detect_error + (string \<times> string) list list option" where
  "readPackageJSON parse =
     read_json_file parse [''dependencies'', ''devDependencies'', ''scripts''] ''package.json''"

definition has_key :: "string \<Rightarrow> (string \<times> string) list \<Rightarrow> bool" where
  "has_key k kvs \<longleftrightarrow> k \<in> set (map fst kvs)"

definition laravelDetect :: "parser \<Rightarrow> detector" where
  "laravelDetect parse fs dir =
     (case readComposerJSON parse fs dir of
        Inl e \<Rightarrow> Inl e
      | Inr composer \<Rightarrow>
         (let isLaravel = fileExists fs dir ''artisan'' \<or>
                (case composer of Some [require] \<Rightarrow> has_key ''laravel/framework'' require | _ \<Rightarrow> False)
          in if \<not> isLaravel then Inr None
             else Inr (Some \<lparr> res_Kind = KindLaravel, res_RunCommand = ''php artisan serve'', res_Detail = [] \<rparr>)))"

definition nextjsDetect :: "parser \<Rightarrow> detector" where
  "nextjsDetect parse fs dir =
     (case readPackageJSON parse fs dir of
        Inl e \<Rightarrow> Inl e
      | Inr (Some [deps, devDeps, scripts]) \<Rightarrow>
          if \<not> has_key ''next'' deps \<and> \<not> has_key ''next'' devDeps then Inr None
          else Inr (Some \<lparr> res_Kind = KindNextJS,
                 res_RunCommand = (if has_key ''dev'' scripts then ''npm run dev'' else ''next dev''),
                 res_Detail = [] \<rparr>)
      | Inr _ \<Rightarrow> Inr None)"

definition nodeDetect :: "parser \<Rightarrow> detector" where
  "nodeDetect parse fs dir =
     (case readPackageJSON parse fs dir of
        Inl e \<Rightarrow> Inl e
      | Inr (Some [deps, devDeps, scripts]) \<Rightarrow>
          if has_key ''start'' scripts
          then Inr (Some \<lparr> res_Kind = KindNode, res_RunCommand = ''npm start'', res_Detail = [] \<rparr>)
          else Inr (Some \<lparr> res_Kind = KindNode, res_RunCommand = [],
                           res_Detail = ''no start script found in package.json'' \<rparr>)
      | Inr _ \<Rightarrow> Inr None)"

definition phpDetect :: "parser \<Rightarrow> detector" where
  "phpDetect parse fs dir =
     (case readComposerJSON parse fs dir of
        Inl e \<Rightarrow> Inl e
      | Inr None \<Rightarrow> Inr None
      | Inr (Some _) \<Rightarrow>
          Inr (Some \<lparr> res_Kind = KindPHP, res_RunCommand = [], res_Detail = ''unknown/generic php'' \<rparr>))"

definition defaultDetectors :: "parser \<Rightarrow> detector list" where
  "defaultDetectors parse = [laravelDetect parse, nextjsDetect parse, nodeDetect parse, phpDetect parse]"

fun DetectWith :: "detector list \<Rightarrow> fs \<Rightarrow> path \<Rightarrow> detect_error + detect_result" where
  "DetectWith [] fs dir =
     Inr \<lparr> res_Kind = KindUnknown, res_RunCommand = [], res_Detail = ''no known framework markers found'' \<rparr>"
| "DetectWith (d # ds) fs dir =
     (case d fs dir of
        Inl e \<Rightarrow> Inl e
      | Inr (Some res) \<Rightarrow> Inr res
      | Inr None \<Rightarrow> DetectWith ds fs dir)"

definition Detect :: "parser \<Rightarrow> fs \<Rightarrow> path \<Rightarrow> detect_error + detect_result" where
  "Detect parse = DetectWith (defaultDetectors parse)"

section \<open>The repository\<close>

record project =
  prj_ID :: string
  prj_Name :: string
  prj_Path :: string
  prj_RuntimeID :: string
  prj_RuntimeVersion :: string
  prj_DetectedKind :: string
  prj_RunCommand :: string
  prj_CreatedAt :: int
  prj_UpdatedAt :: int

datatype project_error =
    ProjectNotFound
  | PathEmpty
  | PathNotAbsolute string
  | PathMissing os_error
  | PathNotDirectory string
  | DetectFailed detect_error
  | ProjectSql sql_error

definition ValidatePath :: "fs \<Rightarrow> string \<Rightarrow> project_error option" where
  "ValidatePath fs p =
     (if p = [] then Some PathEmpty
      else if \<not> is_abs p then Some (PathNotAbsolute p)
      else (case os_stat fs (split_on CHR ''/'' p) of
              Inl e \<Rightarrow> Some (PathMissing e)
            | Inr i \<Rightarrow> if i \<noteq> Dir then Some (PathNotDirectory p) else None))"

definition scanProject :: "row \<Rightarrow> project" where
  "scanProject r =
     \<lparr> prj_ID = text_col ''id'' r, prj_Name = text_col ''name'' r, prj_Path = text_col ''path'' r,
       prj_RuntimeID = text_col ''runtime_id'' r, prj_RuntimeVersion = text_col ''runtime_version'' r,
       prj_DetectedKind = text_col ''detected_kind'' r, prj_RunCommand = text_col ''run_command'' r,
       prj_CreatedAt = time_col ''created_at'' r, prj_UpdatedAt = time_col ''updated_at'' r \<rparr>"

definition project_Create ::
  "parser \<Rightarrow> fs \<Rightarrow> string \<Rightarrow> int \<Rightarrow> string \<Rightarrow> string \<Rightarrow> db \<Rightarrow> (project_error + project) \<times> db" where
  "project_Create parse fs uuid now name path d =
     (case ValidatePath fs path of
        Some e \<Rightarrow> (Inl e, d)
      | None \<Rightarrow>
         (case Detect parse fs (clean_abs path) of
            Inl e \<Rightarrow> (Inl (DetectFailed e), d)
          | Inr result \<Rightarrow>
             (let p = \<lparr> prj_ID = uuid, prj_Name = name, prj_Path = path, prj_RuntimeID = [],
                        prj_RuntimeVersion = [], prj_DetectedKind = res_Kind result,
                        prj_RunCommand = res_RunCommand result, prj_CreatedAt = now, prj_UpdatedAt = now \<rparr>
              in case sql_insert ''projects''
                   [(''id'', Text uuid), (''name'', Text name), (''path'', Text path),
                    (''detected_kind'', Text (res_Kind result)),
                    (''run_command'', Text (res_RunCommand result)), (''redis_enabled'', Num 0),
                    (''created_at'', rfc3339 now), (''updated_at'', rfc3339 now)] d of
                   (Inl e, d') \<Rightarrow> (Inl (ProjectSql e), d')
                 | (Inr _, d') \<Rightarrow> (Inr p, d'))))"

definition project_Get :: "string \<Rightarrow> db \<Rightarrow> (project_error + project) \<times> db" where
  "project_Get = repo_get ''projects'' scanProject ProjectNotFound ProjectSql"

definition project_List :: "db \<Rightarrow> (project_error + project list) \<times> db" where
  "project_List = repo_list ''projects'' (\<lambda>_. True) (order_by (stamp_col ''created_at'')) scanProject ProjectSql"

definition project_Delete :: "string \<Rightarrow> db \<Rightarrow> (project_error + unit) \<times> db" where
  "project_Delete = repo_delete ''projects'' ProjectNotFound ProjectSql"

definition project_Redetect ::
  "parser \<Rightarrow> fs \<Rightarrow> int \<Rightarrow> string \<Rightarrow> db \<Rightarrow> (project_error + project) \<times> db" where
  "project_Redetect parse fs now i d =
     (case project_Get i d of
        (Inl e, d') \<Rightarrow> (Inl e, d')
      | (Inr p, d') \<Rightarrow>
         (case Detect parse fs (clean_abs (prj_Path p)) of
            Inl e \<Rightarrow> (Inl (DetectFailed e), d')
          | Inr result \<Rightarrow>
             (case sql_update ''projects'' (by_id i)
                     [(''detected_kind'', Text (res_Kind result)),
                      (''run_command'', Text (res_RunCommand result)), (''updated_at'', rfc3339 now)] d' of
                (Inl e, d'') \<Rightarrow> (Inl (ProjectSql e), d'')
              | (Inr _, d'') \<Rightarrow>
                  (Inr (p\<lparr> prj_DetectedKind := res_Kind result, prj_RunCommand := res_RunCommand result,
                           prj_UpdatedAt := now \<rparr>), d''))))"

interpretation projects: id_store project_Get project_List project_Delete prj_ID ProjectNotFound "text_ids ''projects''"
  unfolding project_Get_def project_List_def project_Delete_def
  by (rule repo_id_store) (simp_all add: scanProject_def order_by_def)

section \<open>What detection depends on\<close>

text \<open>The Laravel condition and the two markers, as the documentation states them.\<close>

definition requires_laravel :: "(string \<times> string) list list option \<Rightarrow> bool" where
  "requires_laravel c \<longleftrightarrow> (\<exists>require. c = Some [require] \<and> has_key ''laravel/framework'' require)"

lemma read_json_shape:
  "read_json_file parse fnames name fs dir = Inr (Some m) \<Longrightarrow> length m = length fnames"
  by (auto simp: read_json_file_def decode_fields_def split: sum.splits if_splits option.splits json.splits)

lemma composer_shape: "readComposerJSON parse fs dir = Inr (Some m) \<Longrightarrow> \<exists>require. m = [require]"
  using read_json_shape [of parse "[''require'']"] by (fastforce simp: readComposerJSON_def length_Suc_conv)

lemma package_shape: "readPackageJSON parse fs dir = Inr (Some m) \<Longrightarrow> \<exists>a b c. m = [a, b, c]"
  using read_json_shape [of parse "[''dependencies'', ''devDependencies'', ''scripts'']"]
  by (fastforce simp: readPackageJSON_def length_Suc_conv)

lemma laravelDetect_eq:
  assumes "readComposerJSON parse fs dir = Inr c"
  shows "laravelDetect parse fs dir =
    (if fileExists fs dir ''artisan'' \<or> requires_laravel c
     then Inr (Some \<lparr> res_Kind = KindLaravel, res_RunCommand = ''php artisan serve'', res_Detail = [] \<rparr>)
     else Inr None)"
proof (cases c)
  case (Some m)
  with composer_shape [of parse fs dir m] assms show ?thesis
    by (auto simp: laravelDetect_def requires_laravel_def)
qed (use assms in \<open>auto simp: laravelDetect_def requires_laravel_def\<close>)

text \<open>With readable, well-formed marker files detection always gives a result, and its kind is
  the first that applies of: Laravel (an \<open>artisan\<close> file, or a required \<open>laravel/framework\<close>),
  Next.js (\<open>next\<close> among the dependencies), Node (a \<open>package.json\<close>), PHP (a
  \<open>composer.json\<close>), unknown; only a known framework or a \<open>start\<close> script gives a command.\<close>

theorem detect_first_applicable_kind:
  assumes "readComposerJSON parse fs dir = Inr composer" "readPackageJSON parse fs dir = Inr package"
  shows "\<exists>res. Detect parse fs dir = Inr res \<and>
    res_Kind res =
      (if fileExists fs dir ''artisan'' \<or> requires_laravel composer then KindLaravel
       else (case package of
         Some [deps, devDeps, scripts] \<Rightarrow>
           (if has_key ''next'' deps \<or> has_key ''next'' devDeps then KindNextJS else KindNode)
       | _ \<Rightarrow> if composer \<noteq> None then KindPHP else KindUnknown)) \<and>
    (res_RunCommand res = [] \<longleftrightarrow> res_Kind res \<in> {KindPHP, KindUnknown} \<or>
       res_Kind res = KindNode \<and> (\<forall>deps devDeps scripts. package = Some [deps, devDeps, scripts] \<longrightarrow> \<not> has_key ''start'' scripts))"
proof (cases "fileExists fs dir ''artisan'' \<or> requires_laravel composer")
  case True
  then show ?thesis
    by (auto simp: Detect_def defaultDetectors_def laravelDetect_eq [OF assms(1)] kinds)
next
  case no_laravel: False
  show ?thesis
  proof (cases package)
    case None
    with no_laravel assms show ?thesis
      by (cases composer)
        (auto simp: Detect_def defaultDetectors_def laravelDetect_eq [OF assms(1)] nextjsDetect_def
          nodeDetect_def phpDetect_def kinds)
  next
    case (Some m)
    with package_shape assms(2) obtain a b c where m: "m = [a, b, c]" by blast
    with no_laravel assms Some show ?thesis
      by (auto simp: Detect_def defaultDetectors_def laravelDetect_eq [OF assms(1)] nextjsDetect_def
          nodeDetect_def kinds)
  qed
qed

text \<open>A malformed \<open>composer.json\<close> makes detection fail even where an \<open>artisan\<close> file alone
  identifies a Laravel application, so such a project cannot be created.\<close>

theorem malformed_composer_hides_artisan:
  assumes "fileExists fs dir ''artisan''" "readComposerJSON parse fs dir = Inl e"
    and "ValidatePath fs p = None" "clean_abs p = dir"
  shows "Detect parse fs dir = Inl e \<and>
    project_Create parse fs uuid now name p d = (Inl (DetectFailed e), d)"
  using assms(2-4) by (simp add: Detect_def defaultDetectors_def laravelDetect_def project_Create_def)

definition demo_tree :: fs where
  "demo_tree p =
     (if p = [] \<or> p = [''app''] then Some Dir
      else if p = [''app'', ''artisan''] then Some (File 420 [])
      else if p = [''app'', ''composer.json''] then Some (File 420 ''{'') else None)"

definition demo_parse :: parser where
  "demo_parse b = (if b = ''{'' then None else Some (JObj []))"

lemma demo_composer: "readComposerJSON demo_parse demo_tree [''app''] = Inl BadMarkerJson"
  by (simp add: readComposerJSON_def read_json_file_def os_read_file_def os_stat_def join_path_def
      locate.simps(2) demo_tree_def demo_parse_def)

lemma malformed_composer_hides_artisan_witness:
  "Detect demo_parse demo_tree [''app''] = Inl BadMarkerJson"
proof -
  have "fileExists demo_tree [''app''] ''artisan''"
    by (simp add: fileExists_def os_stat_def join_path_def locate.simps(2) demo_tree_def)
  moreover have "ValidatePath demo_tree ''/app'' = None"
    by (simp add: ValidatePath_def is_abs_def has_prefix_def os_stat_def locate.simps(2) demo_tree_def)
  moreover have "clean_abs ''/app'' = [''app'']" by (simp add: clean_abs_def)
  ultimately show ?thesis using malformed_composer_hides_artisan [OF _ demo_composer] by blast
qed

lemma detect_first_applicable_kind_witness:
  "\<exists>res. Detect demo_parse demo_tree [] = Inr res \<and> res_Kind res = KindUnknown"
proof -
  have r: "readComposerJSON demo_parse demo_tree [] = Inr None" "readPackageJSON demo_parse demo_tree [] = Inr None"
    by (simp_all add: readComposerJSON_def readPackageJSON_def read_json_file_def os_read_file_def os_stat_def
        join_path_def locate.simps(2) demo_tree_def)
  have "\<not> fileExists demo_tree [] ''artisan''"
    by (simp add: fileExists_def os_stat_def join_path_def locate.simps(2) demo_tree_def)
  with detect_first_applicable_kind [OF r] show ?thesis by (auto simp: requires_laravel_def)
qed

end
