(* ===== verification/Jobs.thy ===== *)
theory Jobs
  imports Database
begin

text \<open>
  \<open>internal/domain/job/job.go\<close>: the record of a background package operation.  A job is created
  running; the only transitions are \<open>Finish\<close>, and \<open>ReconcileStale\<close> when the daemon starts.
\<close>

definition JobRunning :: string where "JobRunning = ''running''"
definition JobSuccess :: string where "JobSuccess = ''success''"
definition JobFailed :: string where "JobFailed = ''failed''"
definition JobCanceled :: string where "JobCanceled = ''canceled''"

lemmas job_statuses = JobRunning_def JobSuccess_def JobFailed_def JobCanceled_def

record job =
  job_ID :: string
  job_Kind :: string
  job_Target :: string
  job_Status :: string
  job_LogFile :: string
  job_Error :: string
  job_ExitCode :: "int option"
  job_StartedAt :: int
  job_FinishedAt :: "int option"

datatype job_error = JobNotFound | JobSql sql_error

definition job_Create ::
  "string \<Rightarrow> int \<Rightarrow> string \<Rightarrow> string \<Rightarrow> string \<Rightarrow> db \<Rightarrow> (job_error + job) \<times> db" where
  "job_Create uuid now kind target logFile d =
     (case sql_insert ''jobs''
             [(''id'', Text uuid), (''kind'', Text kind), (''target'', Text target),
              (''status'', Text JobRunning), (''log_file'', Text logFile),
              (''started_at'', rfc3339 now)] d of
        (Inl e, d') \<Rightarrow> (Inl (JobSql e), d')
      | (Inr _, d') \<Rightarrow>
          (Inr \<lparr> job_ID = uuid, job_Kind = kind, job_Target = target, job_Status = JobRunning,
                 job_LogFile = logFile, job_Error = [], job_ExitCode = None, job_StartedAt = now,
                 job_FinishedAt = None \<rparr>, d'))"

definition job_SetLogFile :: "string \<Rightarrow> string \<Rightarrow> db \<Rightarrow> (job_error + unit) \<times> db" where
  "job_SetLogFile i logFile d =
     (case sql_update ''jobs'' (by_id i) [(''log_file'', Text logFile)] d of
        (Inl e, d') \<Rightarrow> (Inl (JobSql e), d') | (Inr _, d') \<Rightarrow> (Inr (), d'))"

definition job_Finish ::
  "int \<Rightarrow> string \<Rightarrow> string \<Rightarrow> int \<Rightarrow> string \<Rightarrow> db \<Rightarrow> (job_error + unit) \<times> db" where
  "job_Finish now i status exitCode errMsg d =
     (case sql_update ''jobs'' (by_id i)
             [(''status'', Text status), (''exit_code'', Num exitCode), (''error'', nullable errMsg),
              (''finished_at'', rfc3339 now)] d of
        (Inl e, d') \<Rightarrow> (Inl (JobSql e), d') | (Inr _, d') \<Rightarrow> (Inr (), d'))"

definition interrupted_message :: string where
  "interrupted_message = ''interrupted: daemon restarted while this job was still running''"

definition job_ReconcileStale :: "int \<Rightarrow> db \<Rightarrow> (job_error + nat) \<times> db" where
  "job_ReconcileStale now d =
     (case sql_update ''jobs'' (\<lambda>r. r ''status'' = Text JobRunning)
             [(''status'', Text JobFailed), (''error'', Text interrupted_message),
              (''finished_at'', rfc3339 now)] d of
        (Inl e, d') \<Rightarrow> (Inl (JobSql e), d') | (Inr n, d') \<Rightarrow> (Inr n, d'))"

definition scanJob :: "row \<Rightarrow> job" where
  "scanJob r =
     \<lparr> job_ID = text_col ''id'' r, job_Kind = text_col ''kind'' r, job_Target = text_col ''target'' r,
       job_Status = text_col ''status'' r, job_LogFile = text_col ''log_file'' r,
       job_Error = text_col ''error'' r, job_ExitCode = num_opt_col ''exit_code'' r,
       job_StartedAt = time_col ''started_at'' r, job_FinishedAt = time_opt_col ''finished_at'' r \<rparr>"

definition job_Get :: "string \<Rightarrow> db \<Rightarrow> (job_error + job) \<times> db" where
  "job_Get = repo_get ''jobs'' scanJob JobNotFound JobSql"

text \<open>\<open>ORDER BY started_at DESC, rowid DESC\<close>.\<close>

definition newest_first :: "row list \<Rightarrow> row list" where
  "newest_first rs = order_by_desc (stamp_col ''started_at'') (rev rs)"

definition job_List :: "db \<Rightarrow> (job_error + job list) \<times> db" where
  "job_List = repo_list ''jobs'' (\<lambda>_. True) newest_first scanJob JobSql"

section \<open>Reconciling after a restart\<close>

definition jobs_of :: "db \<Rightarrow> job list" where
  "jobs_of d = map scanJob (tables d ''jobs'')"

lemma job_update_nofault:
  assumes "faults d = []" "db_ok d" "''id'' \<notin> fst ` set assigns"
    "\<And>r. row_not_null ''jobs'' r \<Longrightarrow> row_not_null ''jobs'' (set_cols assigns r)"
  shows "sql_update ''jobs'' P assigns d =
    (Inr (length (filter P (tables d ''jobs''))),
     with_table ''jobs'' (map (\<lambda>r. if P r then set_cols assigns r else r) (tables d ''jobs'')) d)"
proof -
  have ok: "r \<in> set (tables d ''jobs'') \<Longrightarrow> row_not_null ''jobs'' r" for r
    using assms(2) by (auto simp: db_ok_def schema_tables_def)
  have "no_conflicts ''jobs'' (tables d ''jobs'')" using assms(2) by (auto simp: db_ok_def schema_tables_def)
  then have "no_conflicts ''jobs'' (map (\<lambda>r. if P r then set_cols assigns r else r) (tables d ''jobs''))"
    by (subst no_conflicts_same_ids) (auto simp: set_cols_id [OF assms(3)] unique_cols_def)
  then show ?thesis
    using assms(1,4) ok
    by (auto simp: sql_update_nofault raw_update_def Let_def row_references_def foreign_keys_def)
qed

lemma job_stale_cols:
  "row_not_null ''jobs'' r \<Longrightarrow> row_not_null ''jobs'' (set_cols [(''status'', Text JobFailed),
     (''error'', Text interrupted_message), (''finished_at'', rfc3339 now)] r)"
  by (simp add: row_not_null_def not_null_cols_def required_cols_def column_defaults_def set_cols_def)

text \<open>After the reconciliation at startup no job is left running: every job that was running is
  failed with the interruption message and a finish time, every other job is as it was, no job
  appears or disappears, and the number returned is the number of jobs that were running.\<close>

theorem reconcile_leaves_no_running_job:
  assumes "faults d = []" "db_ok d"
  shows "\<exists>d'. job_ReconcileStale now d = (Inr (length (filter (\<lambda>j. job_Status j = JobRunning) (jobs_of d))), d') \<and>
    jobs_of d' = map (\<lambda>j. if job_Status j = JobRunning
      then j\<lparr> job_Status := JobFailed, job_Error := interrupted_message,
              job_FinishedAt := Some (now div second * second) \<rparr> else j) (jobs_of d) \<and>
    (\<forall>j \<in> set (jobs_of d'). job_Status j \<noteq> JobRunning) \<and>
    (\<forall>t. t \<noteq> ''jobs'' \<longrightarrow> tables d' t = tables d t)"
proof -
  let ?a = "[(''status'', Text JobFailed), (''error'', Text interrupted_message), (''finished_at'', rfc3339 now)]"
  let ?P = "\<lambda>r::row. r ''status'' = Text JobRunning"
  have upd: "sql_update ''jobs'' ?P ?a d =
    (Inr (length (filter ?P (tables d ''jobs''))),
     with_table ''jobs'' (map (\<lambda>r. if ?P r then set_cols ?a r else r) (tables d ''jobs'')) d)"
    using assms job_stale_cols by (intro job_update_nofault) auto
  have P: "job_Status (scanJob r) = JobRunning \<longleftrightarrow> ?P r" for r
    by (auto simp: scanJob_def text_col_def JobRunning_def split: sqlval.splits)
  have S: "scanJob (set_cols ?a r) = (scanJob r)\<lparr> job_Status := JobFailed, job_Error := interrupted_message,
      job_FinishedAt := Some (now div second * second) \<rparr>" for r
    by (simp add: scanJob_def sql_simps set_cols_def)
  have "set_cols ?a r ''status'' = Text JobFailed" for r by (simp add: set_cols_def)
  moreover have "JobFailed \<noteq> JobRunning" by (simp add: job_statuses)
  ultimately show ?thesis
    by (intro exI conjI) (auto simp: job_ReconcileStale_def upd jobs_of_def P S comp_def filter_map)
qed

definition demo_job_db :: db where
  "demo_job_db = \<lparr> tables = (\<lambda>_. [])(''jobs'' :=
     [make_row ''jobs'' [(''id'', Text ''j1''), (''kind'', Text ''install''), (''target'', Text ''php''),
        (''status'', Text JobRunning), (''log_file'', Text []), (''started_at'', Stamp 7)]]), faults = [] \<rparr>"

lemma reconcile_leaves_no_running_job_witness:
  "\<exists>d'. job_ReconcileStale 0 demo_job_db = (Inr 1, d')"
proof -
  have "db_ok demo_job_db"
    by (simp add: db_ok_def demo_job_db_def schema_tables_def row_not_null_def not_null_cols_def
        required_cols_def column_defaults_def make_row_def row_references_def foreign_keys_def)
  moreover have "faults demo_job_db = []" by (simp add: demo_job_db_def)
  moreover have "length (filter (\<lambda>j. job_Status j = JobRunning) (jobs_of demo_job_db)) = 1"
    by (simp add: jobs_of_def demo_job_db_def scanJob_def text_col_def make_row_def)
  ultimately show ?thesis using reconcile_leaves_no_running_job [of demo_job_db 0] by auto
qed

end
