(* ===== verification/Runtimes.thy ===== *)
theory Runtimes
  imports Database
begin

text \<open>
  \<open>internal/domain/runtime/runtime.go\<close>: the runtimes and their known versions, the result of a
  detection run, and the choice of the default version.  A cancelled context shows as a driver
  error of the statement it interrupts.
\<close>

record runtime =
  rt_ID :: string
  rt_Kind :: string
  rt_Name :: string

record runtime_version =
  rv_ID :: string
  rv_RuntimeID :: string
  rv_Version :: string
  rv_InstallPath :: string
  rv_IsDefault :: bool
  rv_Status :: string

record detected_version =
  dv_Version :: string
  dv_InstallPath :: string
  dv_IsDefault :: bool

datatype runtime_error =
    VersionNotFound
  | InsertRuntime sql_error
  | MarkMissing sql_error
  | InsertVersion sql_error
  | LookupVersion sql_error
  | UpdateVersion sql_error
  | ClearDefault sql_error
  | SetDefault sql_error
  | RuntimeSql sql_error

definition scanRuntime :: "row \<Rightarrow> runtime" where
  "scanRuntime r = \<lparr> rt_ID = text_col ''id'' r, rt_Kind = text_col ''kind'' r, rt_Name = text_col ''name'' r \<rparr>"

definition scanVersion :: "row \<Rightarrow> runtime_version" where
  "scanVersion r =
     \<lparr> rv_ID = text_col ''id'' r, rv_RuntimeID = text_col ''runtime_id'' r,
       rv_Version = text_col ''version'' r, rv_InstallPath = text_col ''install_path'' r,
       rv_IsDefault = bool_col ''is_default'' r, rv_Status = text_col ''status'' r \<rparr>"

definition getRuntimeByKind :: "string \<Rightarrow> db \<Rightarrow> (runtime_error + runtime option) \<times> db" where
  "getRuntimeByKind kind d =
     (case sql_query_row ''runtimes'' (\<lambda>r. r ''kind'' = Text kind) d of
        (Inl NoRows, d') \<Rightarrow> (Inr None, d')
      | (Inl e, d') \<Rightarrow> (Inl (RuntimeSql e), d')
      | (Inr r, d') \<Rightarrow> (Inr (Some (scanRuntime r)), d'))"

definition EnsureRuntime :: "string \<Rightarrow> string \<Rightarrow> string \<Rightarrow> db \<Rightarrow> (runtime_error + runtime) \<times> db" where
  "EnsureRuntime uuid kind name = go_bind (getRuntimeByKind kind) (\<lambda>found d.
     case found of
       Some existing \<Rightarrow> (Inr existing, d)
     | None \<Rightarrow>
        (case sql_insert ''runtimes'' [(''id'', Text uuid), (''kind'', Text kind), (''name'', Text name)] d of
           (Inl e, d') \<Rightarrow> (Inl (InsertRuntime e), d')
         | (Inr _, d') \<Rightarrow> (Inr \<lparr> rt_ID = uuid, rt_Kind = kind, rt_Name = name \<rparr>, d')))"

definition is_version :: "string \<Rightarrow> string \<Rightarrow> row \<Rightarrow> bool" where
  "is_version rtid v r \<longleftrightarrow> r ''runtime_id'' = Text rtid \<and> r ''version'' = Text v"

definition of_runtime :: "string \<Rightarrow> row \<Rightarrow> bool" where
  "of_runtime rtid r \<longleftrightarrow> r ''runtime_id'' = Text rtid"

text \<open>One turn of the loop over the detected versions; \<open>uuid\<close> is the id a new row would get.\<close>

definition record_detected :: "string \<Rightarrow> string \<Rightarrow> detected_version \<Rightarrow> db \<Rightarrow> (runtime_error + unit) \<times> db" where
  "record_detected rtid uuid v d =
     (case sql_query_row ''runtime_versions'' (is_version rtid (dv_Version v)) d of
        (Inl NoRows, d') \<Rightarrow>
          map_err InsertVersion (sql_insert ''runtime_versions''
            [(''id'', Text uuid), (''runtime_id'', Text rtid), (''version'', Text (dv_Version v)),
             (''install_path'', Text (dv_InstallPath v)), (''is_default'', boolToInt (dv_IsDefault v)),
             (''status'', Text ''installed'')]) d'
      | (Inl e, d') \<Rightarrow> (Inl (LookupVersion e), d')
      | (Inr existing, d') \<Rightarrow>
          go_bind (map_err UpdateVersion (sql_update ''runtime_versions''
            (\<lambda>r. r ''id'' = existing ''id'')
            [(''install_path'', Text (dv_InstallPath v)), (''is_default'', boolToInt (dv_IsDefault v)),
             (''status'', Text ''installed'')])) (\<lambda>_. go_return ()) d')"

fun record_all :: "string \<Rightarrow> (string \<times> detected_version) list \<Rightarrow> db \<Rightarrow> (runtime_error + unit) \<times> db" where
  "record_all rtid [] = go_return ()"
| "record_all rtid ((uuid, v) # vs) = go_bind (record_detected rtid uuid v) (\<lambda>_. record_all rtid vs)"

text \<open>\<open>ReplaceDetected\<close>, with one fresh id per detected version.\<close>

definition ReplaceDetected ::
  "string \<Rightarrow> string \<Rightarrow> string \<Rightarrow> (string \<times> detected_version) list \<Rightarrow> db \<Rightarrow> (runtime_error + runtime) \<times> db" where
  "ReplaceDetected uuid kind name detected = go_bind (EnsureRuntime uuid kind name) (\<lambda>rt.
     go_bind (transaction RuntimeSql
       (go_bind (map_err MarkMissing
           (sql_update ''runtime_versions'' (of_runtime (rt_ID rt)) [(''status'', Text ''missing'')]))
         (\<lambda>_. record_all (rt_ID rt) detected)))
       (\<lambda>_. go_return rt))"

text \<open>What \<open>SetDefaultVersion\<close> does inside its transaction.\<close>

definition set_default_body :: "string \<Rightarrow> string \<Rightarrow> db \<Rightarrow> (runtime_error + unit) \<times> db" where
  "set_default_body rtid version =
     go_bind (map_err RuntimeSql (sql_query ''runtime_versions'' (is_version rtid version))) (\<lambda>rows.
     if rows = [] then go_fail VersionNotFound
     else go_bind (map_err ClearDefault
            (sql_update ''runtime_versions'' (of_runtime rtid) [(''is_default'', Num 0)])) (\<lambda>_.
          go_bind (map_err SetDefault
            (sql_update ''runtime_versions'' (is_version rtid version) [(''is_default'', Num 1)]))
            (\<lambda>_. go_return ())))"

definition SetDefaultVersion :: "string \<Rightarrow> string \<Rightarrow> db \<Rightarrow> (runtime_error + unit) \<times> db" where
  "SetDefaultVersion kind version = go_bind (getRuntimeByKind kind) (\<lambda>found.
     case found of
       None \<Rightarrow> go_fail VersionNotFound
     | Some rt \<Rightarrow> transaction RuntimeSql
         (set_default_body (rt_ID rt) version))"

text \<open>\<open>ORDER BY version\<close> and \<open>ORDER BY kind\<close> compare the text bytewise.\<close>

definition listVersions :: "string \<Rightarrow> db \<Rightarrow> (runtime_error + runtime_version list) \<times> db" where
  "listVersions rtid = repo_list ''runtime_versions'' (of_runtime rtid) (sort_key (text_col ''version''))
     scanVersion RuntimeSql"

fun list_versions_of :: "runtime list \<Rightarrow> db \<Rightarrow> (runtime_error + (runtime \<times> runtime_version list) list) \<times> db" where
  "list_versions_of [] = go_return []"
| "list_versions_of (rt # rts) = go_bind (listVersions (rt_ID rt)) (\<lambda>vs.
     go_bind (list_versions_of rts) (\<lambda>rest. go_return ((rt, vs) # rest)))"

definition ListRuntimes :: "db \<Rightarrow> (runtime_error + (runtime \<times> runtime_version list) list) \<times> db" where
  "ListRuntimes = go_bind
     (repo_list ''runtimes'' (\<lambda>_. True) (sort_key (text_col ''kind'')) scanRuntime RuntimeSql)
     list_versions_of"

section \<open>Transactions\<close>

lemma transaction_rollback:
  assumes "transaction wrap body d = (Inl e, d')"
  shows "tables d' = tables d"
  using assms
  by (cases d rule: tick_cases) (auto simp: transaction_def split: prod.splits sum.splits)

lemma transaction_ok:
  assumes "transaction wrap body d = (Inr a, d')"
  obtains d1 d2 where "tick d = (Inr (), d1)" "body d1 = (Inr a, d2)" "tick d2 = (Inr (), d')"
  using assms by (auto simp: transaction_def split: prod.splits sum.splits)

lemma map_err_ok: "map_err f m d = (Inr a, d') \<longleftrightarrow> m d = (Inr a, d')"
  by (auto simp: map_err_def split: prod.splits sum.splits)

lemma tick_ok_tables: "tick d = (r, d') \<Longrightarrow> tables d' = tables d"
  using tick_tables [of d] by (simp del: tick_tables)

lemma sql_update_ok:
  assumes "sql_update t P assigns d = (Inr n, d')"
  shows "tables d' = (tables d)(t := map (\<lambda>r. if P r then set_cols assigns r else r) (tables d t))"
proof -
  from assms obtain d1 where "tick d = (Inr (), d1)" "raw_update t P assigns d1 = (Inr n, d')"
    by (auto simp: sql_update_def go_bind_ok)
  with tick_ok_tables [OF this(1)] show ?thesis
    by (auto simp: raw_update_def Let_def split: if_splits)
qed

lemma sql_query_ok: "sql_query t P d = (Inr rows, d') \<Longrightarrow> rows = filter P (tables d t) \<and> tables d' = tables d"
  by (cases d rule: tick_cases) (auto simp: sql_query_def go_bind_def)

lemma getRuntimeByKind_ok:
  assumes "getRuntimeByKind kind d = (Inr found, d')"
  shows "tables d' = tables d \<and> found = map_option scanRuntime (List.find (\<lambda>r. r ''kind'' = Text kind) (tables d ''runtimes''))"
proof -
  have f: "List.find P xs = (case filter P xs of [] \<Rightarrow> None | x # _ \<Rightarrow> Some x)" for P and xs :: "row list"
    by (induction xs) auto
  from assms show ?thesis unfolding f
    by (cases d rule: tick_cases)
      (auto simp: getRuntimeByKind_def sql_query_row_def sql_query_def go_bind_def split: list.splits)
qed

section \<open>The default version\<close>

definition versions_of :: "string \<Rightarrow> db \<Rightarrow> runtime_version list" where
  "versions_of rtid d = map scanVersion (filter (of_runtime rtid) (tables d ''runtime_versions''))"

text \<open>The two updates of \<open>SetDefaultVersion\<close>, on one row.\<close>

definition redefault :: "string \<Rightarrow> string \<Rightarrow> row \<Rightarrow> row" where
  "redefault i version r =
     (let r1 = (if of_runtime i r then set_cols [(''is_default'', Num 0)] r else r)
      in if is_version i version r1 then set_cols [(''is_default'', Num 1)] r1 else r1)"

lemma redefault_simps [simp]:
  "redefault i version r ''runtime_id'' = r ''runtime_id''" "redefault i version r ''version'' = r ''version''"
  "of_runtime j (redefault i version r) = of_runtime j r"
  by (simp_all add: redefault_def Let_def set_cols_def of_runtime_def)

lemma scan_redefault:
  assumes "\<exists>v. r ''version'' = Text v"
  shows "scanVersion (redefault i version r) =
    (if of_runtime i r then (scanVersion r)\<lparr> rv_IsDefault := (rv_Version (scanVersion r) = version) \<rparr>
     else scanVersion r)"
  using assms
  by (auto simp: redefault_def Let_def is_version_def of_runtime_def scanVersion_def set_cols_def sql_simps)

lemma SetDefaultVersion_ok:
  assumes "SetDefaultVersion kind version d = (Inr (), d')"
  obtains rt where "List.find (\<lambda>r. r ''kind'' = Text kind) (tables d ''runtimes'') = Some rt"
    "filter (is_version (text_col ''id'' rt) version) (tables d ''runtime_versions'') \<noteq> []"
    "tables d' ''runtime_versions'' =
      map (redefault (text_col ''id'' rt) version) (tables d ''runtime_versions'')"
proof -
  from assms obtain found d1 where f: "getRuntimeByKind kind d = (Inr found, d1)"
    by (auto simp: SetDefaultVersion_def go_bind_ok)
  with assms obtain rt0 where "found = Some rt0"
    by (cases found) (auto simp: SetDefaultVersion_def go_bind_ok go_fail_def)
  with getRuntimeByKind_ok [OF f] obtain rt
    where rt: "List.find (\<lambda>r. r ''kind'' = Text kind) (tables d ''runtimes'') = Some rt"
      "rt_ID rt0 = text_col ''id'' rt" "tables d1 = tables d"
    by (cases "List.find (\<lambda>r. r ''kind'' = Text kind) (tables d ''runtimes'')") (auto simp: scanRuntime_def)
  let ?i = "text_col ''id'' rt"
  from assms f \<open>found = Some rt0\<close> have "transaction RuntimeSql (set_default_body ?i version) d1 = (Inr (), d')"
    by (simp add: SetDefaultVersion_def rt(2))
  then obtain d2 d3 where t1: "tick d1 = (Inr (), d2)"
    and body: "set_default_body ?i version d2 = (Inr (), d3)" and t2: "tick d3 = (Inr (), d')"
    by (rule transaction_ok)
  from body obtain rows d4 where q: "sql_query ''runtime_versions'' (is_version ?i version) d2 = (Inr rows, d4)"
    and rest: "(if rows = [] then go_fail VersionNotFound
     else go_bind (map_err ClearDefault
            (sql_update ''runtime_versions'' (of_runtime ?i) [(''is_default'', Num 0)])) (\<lambda>_.
          go_bind (map_err SetDefault
            (sql_update ''runtime_versions'' (is_version ?i version) [(''is_default'', Num 1)]))
            (\<lambda>_. go_return ()))) d4 = (Inr (), d3)"
    unfolding set_default_body_def go_bind_ok map_err_ok by blast
  have ne: "rows \<noteq> []" using rest by (auto simp: go_fail_def)
  with rest obtain n m d5 where
    u: "sql_update ''runtime_versions'' (of_runtime ?i) [(''is_default'', Num 0)] d4 = (Inr n, d5)"
      "sql_update ''runtime_versions'' (is_version ?i version) [(''is_default'', Num 1)] d5 = (Inr m, d3)"
    by (auto simp: go_bind_ok map_err_ok go_return_def)
  have T: "tables d2 = tables d" "tables d4 = tables d" "tables d' = tables d3"
    using tick_ok_tables [OF t1] tick_ok_tables [OF t2] rt(3) sql_query_ok [OF q] by auto
  have "tables d' ''runtime_versions'' = map (redefault ?i version) (tables d ''runtime_versions'')"
    unfolding T(3) sql_update_ok [OF u(2)] sql_update_ok [OF u(1)] T(2)
    by (simp add: redefault_def Let_def comp_def)
  with rt ne sql_query_ok [OF q] T show thesis by (intro that) auto
qed

text \<open>When \<open>SetDefaultVersion\<close> succeeds, the versions of that runtime that are the default are
  exactly the ones with the version asked for, there is at least one, nothing else about any
  version changed, and the versions of other runtimes are untouched; when it fails, for whatever
  reason and at whatever statement, the tables are as before.\<close>

theorem set_default_version_exact:
  assumes "\<forall>r \<in> set (tables d ''runtime_versions''). \<exists>v. r ''version'' = Text v"
  shows "case SetDefaultVersion kind version d of
      (Inl _, d') \<Rightarrow> tables d' = tables d
    | (Inr _, d') \<Rightarrow> \<exists>rt. List.find (\<lambda>r. r ''kind'' = Text kind) (tables d ''runtimes'') = Some rt \<and>
        (let i = text_col ''id'' rt in
           versions_of i d' = map (\<lambda>v. v\<lparr> rv_IsDefault := (rv_Version v = version) \<rparr>) (versions_of i d) \<and>
           (\<exists>v \<in> set (versions_of i d'). rv_IsDefault v) \<and>
           (\<forall>j. j \<noteq> i \<longrightarrow> versions_of j d' = versions_of j d))"
proof (cases "SetDefaultVersion kind version d")
  case (Pair r d')
  show ?thesis
  proof (cases r)
    case (Inl e)
    have "tables d' = tables d"
    proof (cases "getRuntimeByKind kind d")
      case (Pair found d1)
      then have "tables d1 = tables d" if "found = Inr x" for x using getRuntimeByKind_ok that by blast
      moreover have "tables d1 = tables d" if "found = Inl x" for x
        using Pair that sql_query_row_tables [of "''runtimes''" "\<lambda>r. r ''kind'' = Text kind" d]
        by (auto simp: getRuntimeByKind_def split: prod.splits sum.splits sql_error.splits
            simp del: sql_query_row_tables)
      ultimately show ?thesis using Pair \<open>SetDefaultVersion kind version d = (r, d')\<close> Inl
        by (cases found)
          (auto simp: SetDefaultVersion_def go_bind_def go_fail_def transaction_rollback
            split: option.splits simp del: go_bind_Inl go_bind_Inr dest!: transaction_rollback)
    qed
    with Pair Inl show ?thesis by simp
  next
    case (Inr u)
    with Pair have "SetDefaultVersion kind version d = (Inr (), d')" by simp
    then obtain rt where rt: "List.find (\<lambda>r. r ''kind'' = Text kind) (tables d ''runtimes'') = Some rt"
      "filter (is_version (text_col ''id'' rt) version) (tables d ''runtime_versions'') \<noteq> []"
      "tables d' ''runtime_versions'' =
        map (redefault (text_col ''id'' rt) version) (tables d ''runtime_versions'')"
      by (rule SetDefaultVersion_ok)
    let ?i = "text_col ''id'' rt"
    have V: "versions_of j d' = map (\<lambda>r. scanVersion (redefault ?i version r))
        (filter (of_runtime j) (tables d ''runtime_versions''))" for j
      by (simp add: versions_of_def rt(3) filter_map comp_def)
    have "versions_of ?i d' = map (\<lambda>v. v\<lparr> rv_IsDefault := (rv_Version v = version) \<rparr>) (versions_of ?i d)"
      unfolding V using assms by (auto simp: versions_of_def scan_redefault)
    moreover have "versions_of j d' = versions_of j d" if "j \<noteq> ?i" for j
      unfolding V using assms that by (auto simp: versions_of_def scan_redefault of_runtime_def)
    moreover from rt(2) obtain r where "r \<in> set (tables d ''runtime_versions'')" "is_version ?i version r"
      by (auto simp: filter_empty_conv)
    then have "\<exists>v \<in> set (versions_of ?i d). rv_Version v = version"
      by (intro bexI [of _ "scanVersion r"])
        (auto simp: versions_of_def is_version_def of_runtime_def scanVersion_def text_col_def)
    ultimately show ?thesis using Pair Inr rt(1) by (auto simp: Let_def)
  qed
qed

text \<open>A runtime with two versions, the older one the default.\<close>

definition demo_runtime_db :: db where
  "demo_runtime_db = \<lparr> tables = (\<lambda>_. [])(
     ''runtimes'' := [make_row ''runtimes'' [(''id'', Text ''r''), (''kind'', Text ''node''), (''name'', Text ''N'')]],
     ''runtime_versions'' :=
       [make_row ''runtime_versions'' [(''id'', Text ''a''), (''runtime_id'', Text ''r''), (''version'', Text ''v18''),
          (''is_default'', Num 1)],
        make_row ''runtime_versions'' [(''id'', Text ''b''), (''runtime_id'', Text ''r''), (''version'', Text ''v20'')]]),
     faults = [] \<rparr>"

lemma set_default_version_exact_witness:
  "tables (snd (SetDefaultVersion ''ruby'' ''v20'' demo_runtime_db)) = tables demo_runtime_db"
proof -
  have "\<forall>r \<in> set (tables demo_runtime_db ''runtime_versions''). \<exists>v. r ''version'' = Text v"
    by (simp add: demo_runtime_db_def make_row_def)
  from set_default_version_exact [OF this, of "''ruby''" "''v20''"] show ?thesis
    by (auto simp: demo_runtime_db_def make_row_def split: prod.splits sum.splits)
qed

text \<open>Detection does not keep the default unique: after a run that finds only a new version and
  reports it as the default, the version that is gone is still marked the default as well.\<close>

theorem replace_detected_keeps_stale_default:
  "let detected = [(''c'', \<lparr> dv_Version = ''v22'', dv_InstallPath = ''/n'', dv_IsDefault = True \<rparr>)];
       d' = snd (ReplaceDetected ''u'' ''node'' ''N'' detected demo_runtime_db) in
     map (\<lambda>v. (rv_Version v, rv_IsDefault v, rv_Status v)) (versions_of ''r'' d') =
       [(''v18'', True, ''missing''), (''v20'', False, ''missing''), (''v22'', True, ''installed'')]"
  by (simp add: Let_def ReplaceDetected_def go_bind_def EnsureRuntime_def getRuntimeByKind_def sql_simps
      demo_runtime_db_def make_row_def scanRuntime_def transaction_def map_err_def raw_update_def
      record_detected_def is_version_def of_runtime_def set_cols_def raw_insert_def boolToInt_def
      row_not_null_def not_null_cols_def required_cols_def column_defaults_def row_references_def
      foreign_keys_def rows_conflict_def unique_cols_def versions_of_def scanVersion_def go_return_def)

end
