(* ===== verification/DomainNames.thy ===== *)
theory DomainNames
  imports Database
begin

text \<open>
  \<open>internal/domain/domainname/domainname.go\<close>: the registered hostnames and the certificates
  issued for them.  Certificates refer to their domain by a foreign key, and hostnames are unique.
\<close>

record domain =
  dom_ID :: string
  dom_Hostname :: string
  dom_ProjectID :: string
  dom_Port :: int
  dom_Provider :: string
  dom_SSLEnabled :: bool
  dom_Enabled :: bool
  dom_CreatedAt :: int

record certificate =
  cert_ID :: string
  cert_DomainID :: string
  cert_CAID :: string
  cert_NotBefore :: int
  cert_NotAfter :: int
  cert_Status :: string

datatype domain_error =
    DomainNotFound
  | HostnameTaken
  | HostnameEmpty
  | CertificateIdsRequired
  | DomainSql sql_error

definition nullablePort :: "int \<Rightarrow> sqlval" where
  "nullablePort p = (if p = 0 then Null else Num p)"

definition scanDomain :: "row \<Rightarrow> domain" where
  "scanDomain r =
     \<lparr> dom_ID = text_col ''id'' r, dom_Hostname = text_col ''hostname'' r,
       dom_ProjectID = text_col ''project_id'' r, dom_Port = num_col ''port'' r,
       dom_Provider = text_col ''provider'' r, dom_SSLEnabled = bool_col ''ssl_enabled'' r,
       dom_Enabled = bool_col ''enabled'' r, dom_CreatedAt = time_col ''created_at'' r \<rparr>"

definition scanCertificate :: "row \<Rightarrow> certificate" where
  "scanCertificate r =
     \<lparr> cert_ID = text_col ''id'' r, cert_DomainID = text_col ''domain_id'' r,
       cert_CAID = text_col ''ca_id'' r, cert_NotBefore = time_col ''not_before'' r,
       cert_NotAfter = time_col ''not_after'' r, cert_Status = text_col ''status'' r \<rparr>"

text \<open>The driver's message contains \<open>UNIQUE constraint failed\<close> for the primary key as well.\<close>

definition isUniqueConstraintErr :: "sql_error \<Rightarrow> bool" where
  "isUniqueConstraintErr e \<longleftrightarrow>
     (case e of UniqueErr _ _ \<Rightarrow> True
      | DriverErr m \<Rightarrow> contains m ''UNIQUE constraint failed'' \<or> contains m ''constraint failed: UNIQUE''
      | _ \<Rightarrow> False)"

definition domain_cols :: "string \<Rightarrow> int \<Rightarrow> string \<Rightarrow> string \<Rightarrow> int \<Rightarrow> (string \<times> sqlval) list" where
  "domain_cols uuid now hostname projectID port =
     [(''id'', Text uuid), (''hostname'', Text hostname), (''project_id'', nullable projectID),
      (''port'', nullablePort port), (''provider'', Text ''hosts''), (''ssl_enabled'', Num 0),
      (''enabled'', Num 1), (''created_at'', rfc3339 now)]"

definition CreateDomain ::
  "string \<Rightarrow> int \<Rightarrow> string \<Rightarrow> string \<Rightarrow> int \<Rightarrow> db \<Rightarrow> (domain_error + domain) \<times> db" where
  "CreateDomain uuid now hostname projectID port d =
     (if hostname = [] then (Inl HostnameEmpty, d)
      else (case sql_insert ''domains'' (domain_cols uuid now hostname projectID port) d of
              (Inl e, d') \<Rightarrow> (Inl (if isUniqueConstraintErr e then HostnameTaken else DomainSql e), d')
            | (Inr _, d') \<Rightarrow>
                (Inr \<lparr> dom_ID = uuid, dom_Hostname = hostname, dom_ProjectID = projectID, dom_Port = port,
                       dom_Provider = ''hosts'', dom_SSLEnabled = False, dom_Enabled = True,
                       dom_CreatedAt = now \<rparr>, d')))"

definition GetDomain :: "string \<Rightarrow> db \<Rightarrow> (domain_error + domain) \<times> db" where
  "GetDomain = repo_get ''domains'' scanDomain DomainNotFound DomainSql"

definition ListDomains :: "db \<Rightarrow> (domain_error + domain list) \<times> db" where
  "ListDomains = repo_list ''domains'' (\<lambda>_. True) (order_by (stamp_col ''created_at'')) scanDomain DomainSql"

definition DeleteDomain :: "string \<Rightarrow> db \<Rightarrow> (domain_error + unit) \<times> db" where
  "DeleteDomain = repo_delete ''domains'' DomainNotFound DomainSql"

text \<open>\<open>UPDATE ... WHERE id = ?\<close> with \<open>ErrNotFound\<close> when no row was affected.\<close>

definition update_by_id :: "string \<Rightarrow> string \<Rightarrow> (string \<times> sqlval) list \<Rightarrow> db \<Rightarrow> (domain_error + unit) \<times> db" where
  "update_by_id t i assigns d =
     (case sql_update t (by_id i) assigns d of
        (Inl e, d') \<Rightarrow> (Inl (DomainSql e), d')
      | (Inr n, d') \<Rightarrow> if n = 0 then (Inl DomainNotFound, d') else (Inr (), d'))"

definition SetSSLEnabled :: "string \<Rightarrow> bool \<Rightarrow> db \<Rightarrow> (domain_error + unit) \<times> db" where
  "SetSSLEnabled i enabled = update_by_id ''domains'' i [(''ssl_enabled'', boolToInt enabled)]"

definition SetPort :: "string \<Rightarrow> int \<Rightarrow> db \<Rightarrow> (domain_error + unit) \<times> db" where
  "SetPort i port = update_by_id ''domains'' i [(''port'', nullablePort port)]"

definition ClearProject :: "string \<Rightarrow> db \<Rightarrow> (domain_error + unit) \<times> db" where
  "ClearProject i d =
     (case sql_update ''domains'' (by_id i) [(''project_id'', Null), (''port'', Null)] d of
        (Inl e, d') \<Rightarrow> (Inl (DomainSql e), d') | (Inr _, d') \<Rightarrow> (Inr (), d'))"

definition ListDomainsForProject :: "string \<Rightarrow> db \<Rightarrow> (domain_error + domain list) \<times> db" where
  "ListDomainsForProject projectID =
     repo_list ''domains'' (\<lambda>r. r ''project_id'' = Text projectID) (order_by (stamp_col ''created_at''))
       scanDomain DomainSql"

definition CreateCertificate ::
  "string \<Rightarrow> string \<Rightarrow> string \<Rightarrow> int \<Rightarrow> int \<Rightarrow> string \<Rightarrow> db \<Rightarrow> (domain_error + certificate) \<times> db" where
  "CreateCertificate i domainID caID notBefore notAfter status d =
     (if i = [] \<or> domainID = [] then (Inl CertificateIdsRequired, d)
      else (case sql_insert ''certificates''
                   [(''id'', Text i), (''domain_id'', Text domainID), (''ca_id'', nullable caID),
                    (''not_before'', rfc3339 notBefore), (''not_after'', rfc3339 notAfter),
                    (''status'', Text status)] d of
              (Inl e, d') \<Rightarrow> (Inl (DomainSql e), d')
            | (Inr _, d') \<Rightarrow>
                (Inr \<lparr> cert_ID = i, cert_DomainID = domainID, cert_CAID = caID, cert_NotBefore = notBefore,
                       cert_NotAfter = notAfter, cert_Status = status \<rparr>, d')))"

definition GetCertificate :: "string \<Rightarrow> db \<Rightarrow> (domain_error + certificate) \<times> db" where
  "GetCertificate = repo_get ''certificates'' scanCertificate DomainNotFound DomainSql"

definition ListCertificatesForDomain :: "string \<Rightarrow> db \<Rightarrow> (domain_error + certificate list) \<times> db" where
  "ListCertificatesForDomain domainID =
     repo_list ''certificates'' (\<lambda>r. r ''domain_id'' = Text domainID) (order_by (stamp_col ''not_before''))
       scanCertificate DomainSql"

definition UpdateCertificateStatus ::
  "string \<Rightarrow> string \<Rightarrow> int \<Rightarrow> int \<Rightarrow> db \<Rightarrow> (domain_error + unit) \<times> db" where
  "UpdateCertificateStatus i status notBefore notAfter =
     update_by_id ''certificates'' i
       [(''status'', Text status), (''not_before'', rfc3339 notBefore), (''not_after'', rfc3339 notAfter)]"

interpretation domains: id_store GetDomain ListDomains DeleteDomain dom_ID DomainNotFound "text_ids ''domains''"
  unfolding GetDomain_def ListDomains_def DeleteDomain_def
  by (rule repo_id_store) (simp_all add: scanDomain_def order_by_def)

section \<open>Creating a domain\<close>

lemma domain_row_ok:
  "row_not_null ''domains'' (make_row ''domains'' (domain_cols u now h p port))"
  "make_row ''domains'' (domain_cols u now h p port) ''id'' = Text u"
  "make_row ''domains'' (domain_cols u now h p port) ''hostname'' = Text h"
  "rows_conflict ''domains'' (make_row ''domains'' (domain_cols u now h p port)) r \<longleftrightarrow>
     r ''id'' = Text u \<or> r ''hostname'' = Text h"
  "row_references d ''domains'' (make_row ''domains'' (domain_cols u now h p port)) \<longleftrightarrow>
     p = [] \<or> (\<exists>r \<in> set (tables d ''projects''). by_id p r)"
  by (auto simp: row_not_null_def not_null_cols_def required_cols_def column_defaults_def make_row_def
      domain_cols_def rfc3339_def row_references_def foreign_keys_def rows_conflict_def unique_cols_def
      nullable_def by_id_def)

lemma scan_domain_cols:
  "scanDomain (make_row ''domains'' (domain_cols u now h p port)) =
     \<lparr> dom_ID = u, dom_Hostname = h, dom_ProjectID = p, dom_Port = port, dom_Provider = ''hosts'',
       dom_SSLEnabled = False, dom_Enabled = True, dom_CreatedAt = now div second * second \<rparr>"
  by (simp add: scanDomain_def make_row_def domain_cols_def sql_simps nullable_def nullablePort_def)

text \<open>Without driver faults \<open>CreateDomain\<close> has exactly these outcomes.\<close>

lemma CreateDomain_nofault:
  assumes "faults d = []"
  shows "CreateDomain u now h p port d =
    (if h = [] then (Inl HostnameEmpty, d)
     else if \<exists>r \<in> set (tables d ''domains''). r ''id'' = Text u \<or> r ''hostname'' = Text h then (Inl HostnameTaken, d)
     else if p \<noteq> [] \<and> \<not> (\<exists>r \<in> set (tables d ''projects''). by_id p r) then (Inl (DomainSql ForeignKeyErr), d)
     else (Inr \<lparr> dom_ID = u, dom_Hostname = h, dom_ProjectID = p, dom_Port = port, dom_Provider = ''hosts'',
                 dom_SSLEnabled = False, dom_Enabled = True, dom_CreatedAt = now \<rparr>,
           with_table ''domains'' (tables d ''domains'' @ [make_row ''domains'' (domain_cols u now h p port)]) d))"
  by (auto simp: CreateDomain_def sql_insert_nofault [OF assms] raw_insert_def domain_row_ok isUniqueConstraintErr_def)

text \<open>A hostname is registered at most once.  Creating a domain for a hostname that is taken gives
  \<open>ErrHostnameTaken\<close> and changes nothing; for a free one it succeeds when the project named, if
  any, exists, and then \<open>GetDomain\<close> gives back what was created.\<close>

theorem create_domain_unique_hostname:
  assumes "faults d = []" "hostname \<noteq> []" "\<not> (\<exists>r \<in> set (tables d ''domains''). by_id uuid r)"
  shows "let (r, d') = CreateDomain uuid now hostname projectID port d in
    if \<exists>r \<in> set (tables d ''domains''). r ''hostname'' = Text hostname then r = Inl HostnameTaken \<and> d' = d
    else if projectID = [] \<or> (\<exists>r \<in> set (tables d ''projects''). by_id projectID r)
      then \<exists>dom. r = Inr dom \<and> GetDomain uuid d' = (Inr (dom\<lparr> dom_CreatedAt := now div second * second \<rparr>), d') \<and>
        dom_Hostname dom = hostname \<and> (db_ok d \<longrightarrow> db_ok d')
    else r = Inl (DomainSql ForeignKeyErr) \<and> d' = d"
proof -
  have id: "\<not> (\<exists>r \<in> set (tables d ''domains''). r ''id'' = Text uuid)"
    using assms(3) by (simp add: by_id_def)
  then have f: "filter (by_id uuid) (tables d ''domains'') = []"
    by (auto simp: filter_empty_conv by_id_def)
  have ok: "db_ok d \<Longrightarrow> db_ok (snd (CreateDomain uuid now hostname projectID port d))"
    using sql_insert_db_ok [of d "''domains''" "domain_cols uuid now hostname projectID port"] assms(2)
    by (auto simp: CreateDomain_def split: prod.splits sum.splits)
  note run = CreateDomain_nofault [OF assms(1), of uuid now hostname projectID port]
  show ?thesis
  proof (cases "\<exists>r \<in> set (tables d ''domains''). r ''hostname'' = Text hostname")
    case True
    then show ?thesis using id assms(2) by (auto simp: run Let_def)
  next
    case free: False
    show ?thesis
    proof (cases "projectID = [] \<or> (\<exists>r \<in> set (tables d ''projects''). by_id projectID r)")
      case False
      then show ?thesis using id assms(2) free by (auto simp: run Let_def)
    next
      case True
      define dom where "dom = \<lparr> dom_ID = uuid, dom_Hostname = hostname, dom_ProjectID = projectID,
        dom_Port = port, dom_Provider = ''hosts'', dom_SSLEnabled = False, dom_Enabled = True, dom_CreatedAt = now \<rparr>"
      define d' where "d' = with_table ''domains''
        (tables d ''domains'' @ [make_row ''domains'' (domain_cols uuid now hostname projectID port)]) d"
      have eq: "CreateDomain uuid now hostname projectID port d = (Inr dom, d')"
        using True id assms(2) free by (auto simp: run dom_def d'_def)
      have "GetDomain uuid d' = (Inr (dom\<lparr> dom_CreatedAt := now div second * second \<rparr>), d')"
        using f assms(1) by (simp add: GetDomain_def repo_get_nofault d'_def domain_row_ok by_id_def
            scan_domain_cols dom_def)
      with ok True free show ?thesis unfolding eq by (simp add: Let_def dom_def)
    qed
  qed
qed

lemma create_domain_unique_hostname_witness:
  "fst (CreateDomain ''d2'' 0 ''app.test'' [] 0
     \<lparr> tables = (\<lambda>_. [])(''domains'' := [make_row ''domains'' (domain_cols ''d1'' 0 ''app.test'' [] 0)]), faults = [] \<rparr>)
   = Inl HostnameTaken"
proof -
  let ?d = "\<lparr> tables = (\<lambda>_. [])(''domains'' := [make_row ''domains'' (domain_cols ''d1'' 0 ''app.test'' [] 0)]), faults = [] \<rparr>"
  have "faults ?d = []" "''app.test'' \<noteq> []" "\<not> (\<exists>r \<in> set (tables ?d ''domains''). by_id ''d2'' r)"
    by (simp_all add: by_id_def domain_row_ok)
  from create_domain_unique_hostname [OF this, of 0 "[]" 0] show ?thesis
    by (simp add: Let_def domain_row_ok split: prod.splits)
qed

end
