(* ===== verification/Connections.thy ===== *)
theory Connections
  imports Database
begin

text \<open>
  Two repositories that hold a reference to a secret, never the secret: the source-hosting
  integrations of \<open>internal/domain/integration/integration.go\<close> and the saved database
  connections of \<open>internal/domain/dbconn/dbconn.go\<close>.
\<close>

record integration =
  itg_ID :: string
  itg_Kind :: string
  itg_AccountRef :: string
  itg_SecretRef :: string
  itg_Scopes :: "string list"
  itg_CreatedAt :: int

datatype integration_error = IntegrationNotFound | IntegrationSql sql_error

definition scanIntegration :: "row \<Rightarrow> integration" where
  "scanIntegration r =
     \<lparr> itg_ID = text_col ''id'' r, itg_Kind = text_col ''kind'' r, itg_AccountRef = text_col ''account_ref'' r,
       itg_SecretRef = text_col ''secret_ref'' r, itg_Scopes = json_as_strings (json_col ''scopes'' r),
       itg_CreatedAt = time_col ''created_at'' r \<rparr>"

definition integration_cols :: "integration \<Rightarrow> (string \<times> sqlval) list" where
  "integration_cols i =
     [(''id'', Text (itg_ID i)), (''kind'', Text (itg_Kind i)), (''account_ref'', Text (itg_AccountRef i)),
      (''secret_ref'', Text (itg_SecretRef i)), (''scopes'', Json (json_strings (itg_Scopes i))),
      (''created_at'', rfc3339 (itg_CreatedAt i))]"

definition integration_Create ::
  "string \<Rightarrow> int \<Rightarrow> string \<Rightarrow> string \<Rightarrow> string \<Rightarrow> string list \<Rightarrow> db \<Rightarrow> (integration_error + integration) \<times> db" where
  "integration_Create uuid now kind accountRef secretRef scopes d =
     (let i = \<lparr> itg_ID = uuid, itg_Kind = kind, itg_AccountRef = accountRef, itg_SecretRef = secretRef,
                itg_Scopes = scopes, itg_CreatedAt = now \<rparr>
      in case sql_insert ''integrations'' (integration_cols i) d of
           (Inl e, d') \<Rightarrow> (Inl (IntegrationSql e), d')
         | (Inr _, d') \<Rightarrow> (Inr i, d'))"

definition integration_Get :: "string \<Rightarrow> db \<Rightarrow> (integration_error + integration) \<times> db" where
  "integration_Get = repo_get ''integrations'' scanIntegration IntegrationNotFound IntegrationSql"

definition integration_List :: "db \<Rightarrow> (integration_error + integration list) \<times> db" where
  "integration_List = repo_list ''integrations'' (\<lambda>_. True) (order_by (stamp_col ''created_at''))
     scanIntegration IntegrationSql"

definition integration_Delete :: "string \<Rightarrow> db \<Rightarrow> (integration_error + unit) \<times> db" where
  "integration_Delete = repo_delete ''integrations'' IntegrationNotFound IntegrationSql"

interpretation integrations: id_store integration_Get integration_List integration_Delete itg_ID
    IntegrationNotFound "text_ids ''integrations''"
  unfolding integration_Get_def integration_List_def integration_Delete_def
  by (rule repo_id_store) (simp_all add: scanIntegration_def order_by_def)

section \<open>Database connections\<close>

definition KindMySQL :: string where "KindMySQL = ''mysql''"
definition KindPostgres :: string where "KindPostgres = ''postgres''"

record db_connection =
  dbc_ID :: string
  dbc_Name :: string
  dbc_Kind :: string
  dbc_Host :: string
  dbc_Port :: int
  dbc_Username :: string
  dbc_DatabaseName :: string
  dbc_SecretRef :: string
  dbc_CreatedAt :: int

datatype dbconn_error = ConnNotFound | ConnFieldsRequired | ConnUnknownKind string | ConnSql sql_error

definition scanConn :: "row \<Rightarrow> db_connection" where
  "scanConn r =
     \<lparr> dbc_ID = text_col ''id'' r, dbc_Name = text_col ''name'' r, dbc_Kind = text_col ''kind'' r,
       dbc_Host = text_col ''host'' r, dbc_Port = num_col ''port'' r, dbc_Username = text_col ''username'' r,
       dbc_DatabaseName = text_col ''database_name'' r, dbc_SecretRef = text_col ''secret_ref'' r,
       dbc_CreatedAt = time_col ''created_at'' r \<rparr>"

definition conn_cols :: "db_connection \<Rightarrow> (string \<times> sqlval) list" where
  "conn_cols c =
     [(''id'', Text (dbc_ID c)), (''name'', Text (dbc_Name c)), (''kind'', Text (dbc_Kind c)),
      (''host'', Text (dbc_Host c)), (''port'', Num (dbc_Port c)), (''username'', Text (dbc_Username c)),
      (''database_name'', nullable (dbc_DatabaseName c)), (''secret_ref'', nullable (dbc_SecretRef c)),
      (''created_at'', rfc3339 (dbc_CreatedAt c))]"

text \<open>\<open>Create\<close>; the request is given as the connection it describes, with an empty id for none.\<close>

definition conn_Create ::
  "string \<Rightarrow> int \<Rightarrow> db_connection \<Rightarrow> db \<Rightarrow> (dbconn_error + db_connection) \<times> db" where
  "conn_Create uuid now req d =
     (if dbc_Name req = [] \<or> dbc_Host req = [] \<or> dbc_Username req = [] then (Inl ConnFieldsRequired, d)
      else if dbc_Kind req \<noteq> KindMySQL \<and> dbc_Kind req \<noteq> KindPostgres then (Inl (ConnUnknownKind (dbc_Kind req)), d)
      else (let c = req\<lparr> dbc_ID := (if dbc_ID req = [] then uuid else dbc_ID req), dbc_CreatedAt := now \<rparr>
            in case sql_insert ''db_connections'' (conn_cols c) d of
                 (Inl e, d') \<Rightarrow> (Inl (ConnSql e), d')
               | (Inr _, d') \<Rightarrow> (Inr c, d')))"

definition conn_Get :: "string \<Rightarrow> db \<Rightarrow> (dbconn_error + db_connection) \<times> db" where
  "conn_Get = repo_get ''db_connections'' scanConn ConnNotFound ConnSql"

definition conn_List :: "db \<Rightarrow> (dbconn_error + db_connection list) \<times> db" where
  "conn_List = repo_list ''db_connections'' (\<lambda>_. True) (order_by (stamp_col ''created_at'')) scanConn ConnSql"

definition conn_Delete :: "string \<Rightarrow> db \<Rightarrow> (dbconn_error + unit) \<times> db" where
  "conn_Delete = repo_delete ''db_connections'' ConnNotFound ConnSql"

interpretation connections: id_store conn_Get conn_List conn_Delete dbc_ID ConnNotFound "text_ids ''db_connections''"
  unfolding conn_Get_def conn_List_def conn_Delete_def
  by (rule repo_id_store) (simp_all add: scanConn_def order_by_def)

end
