(* ===== verification/Proxy.thy ===== *)
theory Proxy
  imports Prelude
begin

text \<open>
  The reverse proxy's routing table, \<open>internal/proxy/router.go\<close>: the Go map \<open>targets\<close> from
  lower-cased hostnames to addresses, guarded by a lock that every operation holds throughout.
\<close>

record router =
  targets :: "string \<Rightarrow> string option"
  proxy_port :: int

definition NewRouter :: router where
  "NewRouter = \<lparr> targets = (\<lambda>_. None), proxy_port = 0 \<rparr>"

definition route_Set :: "string \<Rightarrow> string \<Rightarrow> router \<Rightarrow> router" where
  "route_Set hostname addr r =
     (if hostname = [] \<or> addr = [] then r
      else r\<lparr> targets := (targets r)(to_lower hostname \<mapsto> addr) \<rparr>)"

definition route_Remove :: "string \<Rightarrow> router \<Rightarrow> router" where
  "route_Remove hostname r = r\<lparr> targets := (targets r)(to_lower hostname := None) \<rparr>"

definition route_Lookup :: "string \<Rightarrow> router \<Rightarrow> string option" where
  "route_Lookup hostname r = targets r (to_lower hostname)"

definition route_SetPort :: "int \<Rightarrow> router \<Rightarrow> router" where
  "route_SetPort p r = r\<lparr> proxy_port := p \<rparr>"

definition route_Port :: "router \<Rightarrow> int" where
  "route_Port r = proxy_port r"

text \<open>\<open>Routes\<close> copies the map, so later changes to the router do not show in the snapshot.\<close>

definition route_Routes :: "router \<Rightarrow> (string \<Rightarrow> string option)" where
  "route_Routes r = targets r"

definition hostOnly :: "string \<Rightarrow> string" where
  "hostOnly h = (case index_byte CHR '':'' h of Some i \<Rightarrow> take i h | None \<Rightarrow> h)"

datatype proxy_response = ProxyNotFound string | ForwardTo string

definition proxy_Handler :: "router \<Rightarrow> string \<Rightarrow> proxy_response" where
  "proxy_Handler r host_header =
     (let host = hostOnly host_header in
      case route_Lookup host r of
        None \<Rightarrow> ProxyNotFound (''volt proxy: no running project is bound to '' @ host)
      | Some addr \<Rightarrow> ForwardTo addr)"

section \<open>The contract of a routing table\<close>

text \<open>What the handlers rely on when they bind and release the hostnames of a project.\<close>

locale route_table =
  fixes put :: "string \<Rightarrow> string \<Rightarrow> 't \<Rightarrow> 't"
    and drop_route :: "string \<Rightarrow> 't \<Rightarrow> 't"
    and find :: "string \<Rightarrow> 't \<Rightarrow> string option"
  assumes find_put: "h \<noteq> [] \<Longrightarrow> a \<noteq> [] \<Longrightarrow> find k (put h a t) = (if equal_fold k h then Some a else find k t)"
    and put_nothing: "h = [] \<or> a = [] \<Longrightarrow> put h a t = t"
    and find_drop: "find k (drop_route h t) = (if equal_fold k h then None else find k t)"
begin

lemma find_put_all:
  assumes "a \<noteq> []"
  shows "find k (foldl (\<lambda>t h. put h a t) t hs) =
    (if \<exists>h \<in> set hs. h \<noteq> [] \<and> equal_fold k h then Some a else find k t)"
proof (induction hs arbitrary: t)
  case (Cons h hs)
  have "find k (put h a t) = (if h \<noteq> [] \<and> equal_fold k h then Some a else find k t)"
    using find_put [of h a k t] put_nothing [of h a t] assms by (cases "h = []") auto
  with Cons show ?case by auto
qed simp

lemma find_drop_all:
  "find k (foldl (\<lambda>t h. drop_route h t) t hs) = (if \<exists>h \<in> set hs. equal_fold k h then None else find k t)"
  by (induction hs arbitrary: t) (auto simp: find_drop)

text \<open>Binding and then releasing the same names leaves only routes that were there for other names.\<close>

lemma put_drop_all:
  assumes "a \<noteq> []"
  shows "find k (foldl (\<lambda>t h. drop_route h t) (foldl (\<lambda>t h. put h a t) t hs) hs) =
    (if \<exists>h \<in> set hs. equal_fold k h then None else find k t)"
  by (simp add: find_drop_all find_put_all [OF assms])

end

interpretation router: route_table route_Set route_Remove route_Lookup
  by unfold_locales
    (simp_all add: route_Set_def route_Remove_def route_Lookup_def equal_fold_def)

section \<open>Requests\<close>

lemma hostOnly_port:
  assumes "CHR '':'' \<notin> set h"
  shows "hostOnly (h @ CHR '':'' # p) = h" "hostOnly h = h"
proof -
  have "index_byte CHR '':'' (h @ CHR '':'' # p) = Some (length h)" "index_byte CHR '':'' h = None"
    using assms by (induction h) auto
  then show "hostOnly (h @ CHR '':'' # p) = h" "hostOnly h = h" by (simp_all add: hostOnly_def)
qed

text \<open>After binding the hostnames of a project to an address, a request is forwarded there exactly
  when its Host header names one of them, in any case and with or without a port; every other
  request is answered as before.  After releasing them again none of them is forwarded.\<close>

theorem proxy_forwards_bound_hosts:
  assumes "addr \<noteq> []" "CHR '':'' \<notin> set host"
  shows "let bound = foldl (\<lambda>t h. route_Set h addr t) r hosts;
             released = foldl (\<lambda>t h. route_Remove h t) bound hosts;
             mine = (\<exists>h \<in> set hosts. h \<noteq> [] \<and> equal_fold host h) in
    proxy_Handler bound (host @ CHR '':'' # port) = proxy_Handler bound host \<and>
    proxy_Handler bound host = (if mine then ForwardTo addr else proxy_Handler r host) \<and>
    (mine \<longrightarrow> proxy_Handler released host = ProxyNotFound (''volt proxy: no running project is bound to '' @ host))"
  using assms
  by (auto simp: Let_def proxy_Handler_def hostOnly_port router.find_put_all router.put_drop_all)

lemma proxy_forwards_bound_hosts_witness:
  "proxy_Handler (route_Set ''App.test'' ''127.0.0.1:5000'' NewRouter) ''app.TEST'' = ForwardTo ''127.0.0.1:5000''"
proof -
  have "equal_fold ''app.TEST'' ''App.test''"
    by code_simp
  then show ?thesis
    using proxy_forwards_bound_hosts [where addr = "''127.0.0.1:5000''"
        and host = "''app.TEST''" and hosts = "[''App.test'']" and r = NewRouter and port = "[]"]
    by (simp add: Let_def)
qed

end
