(* ===== verification/HostsFile.thy ===== *)
theory HostsFile
  imports Prelude
begin

text \<open>
  The domain provider of \<open>internal/providers/domainprovider/hosts/hosts.go\<close>: it keeps one
  loopback entry per managed hostname in a file with the syntax of \<open>/etc/hosts\<close>.  The state is
  the file: its content (\<^const>\<open>None\<close> when it does not exist) and whether reading and writing it
  fail.  All four operations hold the provider's lock from the read to the write.
\<close>

record hosts_file =
  hf_content :: "string option"
  hf_read_error :: bool
  hf_write_error :: bool

datatype hosts_error =
    HostsNotFound
  | HostnameIsEmpty
  | HostnameInvalid string
  | HostsReadFailed
  | HostsWriteFailed
  | NotManaged string

definition managedIP :: string where "managedIP = ''127.0.0.1''"
definition managedMarker :: string where "managedMarker = ''volt-managed''"

record data_line =
  dl_ip :: string
  dl_hosts :: "string list"
  dl_comment :: string
  dl_managed :: bool

record hosts_line =
  hl_raw :: string
  hl_data :: "data_line option"

abbreviation newline :: string where "newline \<equiv> [CHR 0x0A]"
abbreviation tab :: string where "tab \<equiv> [CHR 0x09]"

definition hasHost :: "data_line \<Rightarrow> string \<Rightarrow> bool" where
  "hasHost d hostname \<longleftrightarrow> (\<exists>h \<in> set (dl_hosts d). equal_fold h hostname)"

definition render_data :: "data_line \<Rightarrow> string" where
  "render_data d =
     (let s = dl_ip d @ tab @ join_with '' '' (dl_hosts d) in
      if dl_comment d \<noteq> [] then s @ tab @ ''# '' @ dl_comment d else s)"

definition parseDataLine :: "string \<Rightarrow> data_line option" where
  "parseDataLine raw =
     (let trimmed = trim_space raw in
      if trimmed = [] \<or> has_prefix trimmed ''#'' then None
      else (let (body, comment) =
              (case index_byte CHR ''#'' trimmed of
                 Some i \<Rightarrow> (trim_space (take i trimmed), trim_space (drop (Suc i) trimmed))
               | None \<Rightarrow> (trimmed, []))
            in case str_fields body of
                 ip # h # hs \<Rightarrow>
                   Some \<lparr> dl_ip = ip, dl_hosts = h # hs, dl_comment = comment,
                          dl_managed = (comment = managedMarker) \<rparr>
               | _ \<Rightarrow> None))"

definition parseAll :: "string \<Rightarrow> hosts_line list" where
  "parseAll content =
     (if content = [] then []
      else map (\<lambda>raw. \<lparr> hl_raw = raw, hl_data = parseDataLine raw \<rparr>) (split_on CHR 0x0A content))"

definition render_line :: "hosts_line \<Rightarrow> string" where
  "render_line l = (case hl_data l of Some d \<Rightarrow> render_data d | None \<Rightarrow> hl_raw l)"

definition render_lines :: "hosts_line list \<Rightarrow> string" where
  "render_lines ls =
     (let s = join_with newline (map render_line ls) in
      if s \<noteq> [] \<and> \<not> has_suffix s newline then s @ newline else s)"

definition newManagedLine :: "string \<Rightarrow> hosts_line" where
  "newManagedLine hostname =
     \<lparr> hl_raw = [],
       hl_data = Some \<lparr> dl_ip = managedIP, dl_hosts = [hostname], dl_comment = managedMarker,
                        dl_managed = True \<rparr> \<rparr>"

definition hosts_read :: "hosts_file \<Rightarrow> hosts_error + hosts_line list" where
  "hosts_read f =
     (if hf_read_error f then Inl HostsReadFailed
      else case hf_content f of None \<Rightarrow> Inr [] | Some b \<Rightarrow> Inr (parseAll b))"

definition hosts_write :: "hosts_line list \<Rightarrow> hosts_file \<Rightarrow> (hosts_error + unit) \<times> hosts_file" where
  "hosts_write ls f =
     (if hf_write_error f then (Inl HostsWriteFailed, f)
      else (Inr (), f\<lparr> hf_content := Some (render_lines ls) \<rparr>))"

definition normalizeHostname :: "string \<Rightarrow> hosts_error + string" where
  "normalizeHostname hostname =
     (let h = trim_space hostname in
      if h = [] then Inl HostnameIsEmpty
      else if contains_any h [CHR '' '', CHR 0x09, CHR ''#''] then Inl (HostnameInvalid hostname)
      else Inr h)"

text \<open>The loop of \<open>Add\<close>: the first line that has the host decides.\<close>

datatype add_step = Refuse | AlreadyThere | Rewritten "hosts_line list" | Absent

fun add_scan :: "string \<Rightarrow> hosts_line list \<Rightarrow> add_step" where
  "add_scan host [] = Absent"
| "add_scan host (l # ls) =
     (case hl_data l of
        Some d \<Rightarrow>
          if hasHost d host then
            (if \<not> dl_managed d then Refuse
             else if dl_ip d = managedIP then AlreadyThere
             else Rewritten (l\<lparr> hl_data := Some (d\<lparr> dl_ip := managedIP \<rparr>) \<rparr> # ls))
          else (case add_scan host ls of Rewritten ls' \<Rightarrow> Rewritten (l # ls') | r \<Rightarrow> r)
      | None \<Rightarrow> (case add_scan host ls of Rewritten ls' \<Rightarrow> Rewritten (l # ls') | r \<Rightarrow> r))"

definition hosts_Add :: "string \<Rightarrow> hosts_file \<Rightarrow> (hosts_error + unit) \<times> hosts_file" where
  "hosts_Add hostname f =
     (case normalizeHostname hostname of
        Inl e \<Rightarrow> (Inl e, f)
      | Inr host \<Rightarrow>
         (case hosts_read f of
            Inl e \<Rightarrow> (Inl e, f)
          | Inr ls \<Rightarrow>
             (case add_scan host ls of
                Refuse \<Rightarrow> (Inl (NotManaged host), f)
              | AlreadyThere \<Rightarrow> (Inr (), f)
              | Rewritten ls' \<Rightarrow> hosts_write ls' f
              | Absent \<Rightarrow> hosts_write (ls @ [newManagedLine host]) f)))"

definition removable :: "string \<Rightarrow> hosts_line \<Rightarrow> bool" where
  "removable host l =
     (case hl_data l of
        Some d \<Rightarrow> dl_managed d \<and> length (dl_hosts d) = 1 \<and> equal_fold (hd (dl_hosts d)) host
      | None \<Rightarrow> False)"

definition hosts_Remove :: "string \<Rightarrow> hosts_file \<Rightarrow> (hosts_error + unit) \<times> hosts_file" where
  "hosts_Remove hostname f =
     (case normalizeHostname hostname of
        Inl e \<Rightarrow> (Inl e, f)
      | Inr host \<Rightarrow>
         (case hosts_read f of
            Inl e \<Rightarrow> (Inl e, f)
          | Inr ls \<Rightarrow>
             if \<not> list_ex (removable host) ls then (Inl HostsNotFound, f)
             else hosts_write (filter (\<lambda>l. \<not> removable host l) ls) f))"

definition managed_hosts :: "hosts_line list \<Rightarrow> string list" where
  "managed_hosts ls = concat (map (\<lambda>l. case hl_data l of
     Some d \<Rightarrow> if dl_managed d then dl_hosts d else [] | None \<Rightarrow> []) ls)"

definition hosts_List :: "hosts_file \<Rightarrow> hosts_error + string list" where
  "hosts_List f =
     (case hosts_read f of Inl e \<Rightarrow> Inl e | Inr ls \<Rightarrow> Inr (sort (managed_hosts ls)))"

datatype conflict = MappedElsewhere string string | ManagedElsewhere string string

definition line_conflicts :: "string \<Rightarrow> hosts_line \<Rightarrow> conflict list" where
  "line_conflicts host l =
     (case hl_data l of
        None \<Rightarrow> []
      | Some d \<Rightarrow>
          if \<not> hasHost d host then []
          else if \<not> dl_managed d then [MappedElsewhere host (dl_ip d)]
          else if dl_ip d \<noteq> managedIP then [ManagedElsewhere host (dl_ip d)] else [])"

definition hosts_Conflicts :: "string \<Rightarrow> hosts_file \<Rightarrow> hosts_error + conflict list" where
  "hosts_Conflicts hostname f =
     (case normalizeHostname hostname of
        Inl e \<Rightarrow> Inl e
      | Inr host \<Rightarrow>
         (case hosts_read f of
            Inl e \<Rightarrow> Inl e
          | Inr ls \<Rightarrow> Inr (concat (map (line_conflicts host) ls))))"

section \<open>Strings\<close>

definition no_space :: "string \<Rightarrow> bool" where
  "no_space s \<longleftrightarrow> (\<forall>c \<in> set s. \<not> is_space c)"

lemma trim_space_id:
  assumes "s \<noteq> []" "\<not> is_space (hd s)" "\<not> is_space (last s)"
  shows "trim_space s = s"
proof -
  have "dropWhile is_space s = s" using assms(1,2) by (cases s) auto
  moreover have "dropWhile is_space (rev s) = rev s"
    using assms(1,3) by (cases "rev s") (auto simp: hd_rev [symmetric])
  ultimately show ?thesis by (simp add: trim_space_def trim_left_def trim_right_def)
qed

lemma trim_space_ends:
  assumes "trim_space s \<noteq> []"
  shows "\<not> is_space (hd (trim_space s))" "\<not> is_space (last (trim_space s))"
proof -
  let ?l = "dropWhile is_space s" let ?r = "dropWhile is_space (rev ?l)"
  have t: "trim_space s = rev ?r" by (simp add: trim_space_def trim_left_def trim_right_def)
  with assms have ne: "?r \<noteq> []" by simp
  then show "\<not> is_space (last (trim_space s))" unfolding t last_rev by (rule hd_dropWhile)
  have "?l \<noteq> []" using ne by (metis dropWhile.simps(1) rev.simps(1))
  then have hd: "\<not> is_space (hd ?l)" by (rule hd_dropWhile)
  have "rev ?l = takeWhile is_space (rev ?l) @ ?r" by simp
  then have "?l = rev ?r @ rev (takeWhile is_space (rev ?l))" by (metis rev_append rev_rev_ident)
  then have "hd ?l = hd (rev ?r)" using ne by (metis hd_append2 rev_is_Nil_conv)
  with hd show "\<not> is_space (hd (trim_space s))" by (simp add: t)
qed

lemma trim_space_set: "set (trim_space s) \<subseteq> set s"
proof -
  have "set (dropWhile is_space xs) \<subseteq> set xs" for xs by (meson set_dropWhileD subsetI)
  then show ?thesis unfolding trim_space_def trim_left_def trim_right_def
    by (metis dual_order.trans set_rev)
qed

lemma trim_space_Nil: "trim_space [] = []"
  by (simp add: trim_space_def trim_left_def trim_right_def)

lemma trim_space_idem [simp]: "trim_space (trim_space s) = trim_space s"
proof (cases "trim_space s = []")
  case False
  then show ?thesis using trim_space_ends [OF False] by (intro trim_space_id)
next
  case True
  show ?thesis unfolding True by (simp add: trim_space_def trim_left_def trim_right_def)
qed

lemma fields_token:
  assumes "w \<noteq> []" "no_space w"
  shows "str_fields w = [w]"
    and "is_space c \<Longrightarrow> str_fields (w @ c # s) = w # str_fields s"
proof -
  have d: "dropWhile is_space w = w" "\<And>s. dropWhile is_space (w @ s) = w @ s"
    using assms by (cases w; auto simp: no_space_def)+
  have w: "takeWhile (\<lambda>c. \<not> is_space c) w = w" "dropWhile (\<lambda>c. \<not> is_space c) w = []"
    using assms(2) unfolding no_space_def by (induction w) auto
  show "str_fields w = [w]" by (subst str_fields.simps) (simp add: Let_def d w assms(1) str_fields.simps)
  assume c: "is_space c"
  have "takeWhile (\<lambda>c. \<not> is_space c) (w @ c # s) = w" "dropWhile (\<lambda>c. \<not> is_space c) (w @ c # s) = c # s"
    using assms c by (auto simp: no_space_def takeWhile_append dropWhile_append)
  moreover have "str_fields (c # s) = str_fields s"
    using c by (subst (1 2) str_fields.simps) simp
  ultimately show "str_fields (w @ c # s) = w # str_fields s"
    using assms d(2) [of "c # s"] by (subst str_fields.simps) (simp add: Let_def)
qed

lemma fields_join:
  assumes "\<forall>w \<in> set ws. w \<noteq> [] \<and> no_space w"
  shows "str_fields (join_with '' '' ws) = ws"
  using assms
proof (induction "'' ''" ws rule: join_with.induct)
  case 1
  then show ?case by (simp add: str_fields.simps)
next
  case (2 p)
  then show ?case by (simp add: fields_token)
next
  case (3 p q ps)
  then show ?case using fields_token(2) [of p "CHR '' ''" "join_with '' '' (q # ps)"]
    by (simp add: is_space_def)
qed

lemma fields_tokens: "w \<in> set (str_fields s) \<Longrightarrow> w \<noteq> [] \<and> no_space w \<and> set w \<subseteq> set s"
proof (induction s rule: str_fields.induct)
  case (1 s)
  let ?t = "dropWhile is_space s"
  show ?case
  proof (cases "?t = []")
    case True
    with 1(2) show ?thesis by (simp add: str_fields.simps)
  next
    case False
    have sub: "set ?t \<subseteq> set s" by (meson set_dropWhileD subsetI)
    have "str_fields s = takeWhile (\<lambda>c. \<not> is_space c) ?t # str_fields (dropWhile (\<lambda>c. \<not> is_space c) ?t)"
      using False by (subst str_fields.simps) (simp add: Let_def)
    with 1(2) consider "w = takeWhile (\<lambda>c. \<not> is_space c) ?t" | "w \<in> set (str_fields (dropWhile (\<lambda>c. \<not> is_space c) ?t))"
      by auto
    then show ?thesis
    proof cases
      case 1
      have "\<not> is_space (hd ?t)" using False by (rule hd_dropWhile)
      with False have "w \<noteq> []" unfolding 1 by (cases ?t) auto
      moreover have "no_space w" unfolding 1 no_space_def by (metis set_takeWhileD)
      moreover have "set w \<subseteq> set ?t" unfolding 1 by (auto dest: set_takeWhileD)
      then have "set w \<subseteq> set s" using sub by (rule subset_trans)
      ultimately show ?thesis by simp
    next
      case 2
      from 1(1) [OF refl False 2] have "w \<noteq> [] \<and> no_space w \<and> set w \<subseteq> set (dropWhile (\<lambda>c. \<not> is_space c) ?t)" .
      moreover have "set (dropWhile (\<lambda>c. \<not> is_space c) ?t) \<subseteq> set ?t" by (auto dest: set_dropWhileD)
      ultimately show ?thesis using sub by blast
    qed
  qed
qed

section \<open>Parsing what was rendered\<close>

text \<open>The entries the parser produces, and that \<open>Add\<close> may add.\<close>

definition token :: "string \<Rightarrow> bool" where
  "token w \<longleftrightarrow> w \<noteq> [] \<and> no_space w \<and> CHR ''#'' \<notin> set w"

definition data_ok :: "data_line \<Rightarrow> bool" where
  "data_ok d \<longleftrightarrow>
     token (dl_ip d) \<and> dl_hosts d \<noteq> [] \<and> (\<forall>h \<in> set (dl_hosts d). token h) \<and>
     trim_space (dl_comment d) = dl_comment d \<and> CHR 0x0A \<notin> set (dl_comment d) \<and>
     dl_managed d = (dl_comment d = managedMarker)"

definition line_ok :: "hosts_line \<Rightarrow> bool" where
  "line_ok l \<longleftrightarrow>
     (case hl_data l of Some d \<Rightarrow> data_ok d
      | None \<Rightarrow> parseDataLine (hl_raw l) = None \<and> CHR 0x0A \<notin> set (hl_raw l))"

lemma index_byte_append: "c \<notin> set xs \<Longrightarrow> index_byte c (xs @ c # ys) = Some (length xs)"
  by (induction xs) auto

lemma index_byte_None: "index_byte c xs = None \<longleftrightarrow> c \<notin> set xs"
  by (induction xs) auto

lemma index_byte_Some: "index_byte c xs = Some i \<Longrightarrow> c \<notin> set (take i xs) \<and> i < length xs"
proof (induction xs arbitrary: i)
  case (Cons x xs)
  then show ?case by (cases "x = c") auto
qed simp

lemma join_with_Cons: "ws \<noteq> [] \<Longrightarrow> join_with sep (w # ws) = w @ sep @ join_with sep ws"
  by (cases ws) auto

lemma set_join_with: "set (join_with sep ws) \<subseteq> (\<Union>w \<in> set ws. set w) \<union> set sep"
  by (induction sep ws rule: join_with.induct) auto

lemma last_join_with:
  assumes "ws \<noteq> []" "\<forall>w \<in> set ws. w \<noteq> []"
  shows "join_with sep ws \<noteq> [] \<and> last (join_with sep ws) = last (last ws)"
  using assms by (induction sep ws rule: join_with.induct) auto

lemma token_ends: "token w \<Longrightarrow> w \<noteq> [] \<and> \<not> is_space (hd w) \<and> \<not> is_space (last w)"
  by (auto simp: token_def no_space_def)

text \<open>The part of an entry before the comment.\<close>

lemma render_body:
  assumes "data_ok d"
  defines "b \<equiv> dl_ip d @ tab @ join_with '' '' (dl_hosts d)"
  shows "b \<noteq> []" "trim_space b = b" "\<not> is_space (hd b)" "CHR ''#'' \<notin> set b" "CHR 0x0A \<notin> set b"
    "str_fields b = dl_ip d # dl_hosts d"
proof -
  have ip: "token (dl_ip d)" and hs: "dl_hosts d \<noteq> []" "\<forall>h \<in> set (dl_hosts d). token h"
    using assms(1) by (simp_all add: data_ok_def)
  have ne: "\<forall>h \<in> set (dl_hosts d). h \<noteq> []" using hs(2) by (simp add: token_def)
  have last: "last b = last (last (dl_hosts d))"
    using last_join_with [OF hs(1) ne, of "'' ''"] by (simp add: b_def)
  have "\<not> is_space (last b)" unfolding last using hs token_ends by simp
  moreover show b: "b \<noteq> []" "\<not> is_space (hd b)" using token_ends [OF ip] by (simp_all add: b_def)
  ultimately show "trim_space b = b" by (intro trim_space_id)
  have space: "is_space CHR 0x0A" by (simp add: is_space_def)
  show "CHR ''#'' \<notin> set b" "CHR 0x0A \<notin> set b"
    using ip hs(2) set_join_with [of "'' ''" "dl_hosts d"] space
    by (auto simp: b_def token_def no_space_def)
  have "str_fields (dl_ip d @ CHR 0x09 # join_with '' '' (dl_hosts d)) =
    dl_ip d # str_fields (join_with '' '' (dl_hosts d))"
    using ip by (intro fields_token(2)) (auto simp: token_def is_space_def)
  also have "str_fields (join_with '' '' (dl_hosts d)) = dl_hosts d"
    using hs(2) by (intro fields_join) (simp add: token_def)
  finally show "str_fields b = dl_ip d # dl_hosts d" by (simp add: b_def)
qed

lemma parse_render_data:
  assumes "data_ok d"
  shows "parseDataLine (render_data d) = Some d" "CHR 0x0A \<notin> set (render_data d)"
proof -
  define B where "B = dl_ip d @ tab @ join_with '' '' (dl_hosts d)"
  note b = render_body [OF assms, folded B_def]
  obtain h hs where hosts: "dl_hosts d = h # hs" using assms by (cases "dl_hosts d") (auto simp: data_ok_def)
  have nohash: "\<not> has_prefix (B @ s) ''#''" for s
  proof -
    obtain x xs where x: "B = x # xs" using b(1) by (meson neq_Nil_conv)
    with b(4) have "x \<noteq> CHR ''#''" by (metis list.set_intros(1))
    then show ?thesis unfolding x by (simp add: has_prefix_def)
  qed
  have managed: "dl_managed d = (dl_comment d = managedMarker)" using assms by (simp add: data_ok_def)
  show "parseDataLine (render_data d) = Some d"
  proof (cases "dl_comment d = []")
    case True
    then have r: "render_data d = B" by (simp add: render_data_def B_def)
    have "index_byte CHR ''#'' B = None" using b(4) by (simp add: index_byte_None)
    with b hosts nohash [of "[]"] True managed show ?thesis
      unfolding r parseDataLine_def by (simp add: Let_def)
  next
    case False
    let ?c = "dl_comment d"
    have c: "trim_space ?c = ?c" using assms by (simp add: data_ok_def)
    have r: "render_data d = B @ tab @ ''# '' @ ?c" using False by (simp add: render_data_def B_def)
    have lc: "\<not> is_space (last ?c)" using trim_space_ends(2) [of ?c] False c by simp
    have t: "trim_space (render_data d) = render_data d"
      unfolding r using b(1,3) False lc by (intro trim_space_id) auto
    have i: "index_byte CHR ''#'' (render_data d) = Some (length (B @ tab))"
      using index_byte_append [of "CHR ''#''" "B @ tab" "'' '' @ ?c"] b(4) by (simp add: r)
    have "trim_space (B @ tab) = B"
    proof -
      have "dropWhile is_space (B @ tab) = B @ tab" using b(1,3) by (cases B) auto
      moreover have "dropWhile is_space (rev (B @ tab)) = dropWhile is_space (rev B)" by (simp add: is_space_def)
      moreover have "dropWhile is_space B = B" using b(1,3) by (cases B) auto
      ultimately show ?thesis using b(2) by (simp add: trim_space_def trim_left_def trim_right_def)
    qed
    moreover have "take (length (B @ tab)) (render_data d) = B @ tab"
      "drop (Suc (length (B @ tab))) (render_data d) = '' '' @ ?c"
    proof -
      have "take (length X) (X @ c # Y) = X" "drop (Suc (length X)) (X @ c # Y) = Y" for X Y :: string and c
        by simp_all
      moreover have "render_data d = (B @ tab) @ CHR ''#'' # '' '' @ ?c" by (simp add: r)
      ultimately show "take (length (B @ tab)) (render_data d) = B @ tab"
        "drop (Suc (length (B @ tab))) (render_data d) = '' '' @ ?c" by metis+
    qed
    moreover have "index_byte CHR ''#'' (B @ CHR 0x09 # CHR ''#'' # CHR '' '' # ?c) = Some (Suc (length B))"
      using i by (simp add: r)
    moreover have "trim_space ('' '' @ ?c) = ?c"
      using c by (simp add: trim_space_def trim_left_def is_space_def)
    ultimately show ?thesis
      using b hosts nohash managed unfolding parseDataLine_def t
      by (simp add: Let_def r)
  qed
  show "CHR 0x0A \<notin> set (render_data d)"
    using b(5) assms by (auto simp: render_data_def data_ok_def B_def Let_def split: if_splits)
qed

text \<open>Every line the parser produces is well formed.\<close>

lemma parseDataLine_ok:
  assumes "parseDataLine raw = Some d" "CHR 0x0A \<notin> set raw"
  shows "data_ok d"
proof -
  let ?t = "trim_space raw"
  have nl: "CHR 0x0A \<notin> set ?t" using trim_space_set [of raw] assms(2) by auto
  obtain body comment where split: "(body, comment) = (case index_byte CHR ''#'' ?t of
      Some i \<Rightarrow> (trim_space (take i ?t), trim_space (drop (Suc i) ?t)) | None \<Rightarrow> (?t, []))"
    by (cases "index_byte CHR ''#'' ?t") auto
  with assms(1) obtain ip h hs where f: "str_fields body = ip # h # hs"
    and d: "d = \<lparr> dl_ip = ip, dl_hosts = h # hs, dl_comment = comment, dl_managed = (comment = managedMarker) \<rparr>"
    by (auto simp: parseDataLine_def Let_def split: if_splits list.splits option.splits prod.splits)
  have body: "CHR ''#'' \<notin> set body"
  proof (cases "index_byte CHR ''#'' ?t")
    case None
    with split show ?thesis by (simp add: index_byte_None)
  next
    case (Some i)
    with split show ?thesis using index_byte_Some [OF Some] trim_space_set [of "take i ?t"] by auto
  qed
  have comment: "trim_space comment = comment" "CHR 0x0A \<notin> set comment"
  proof -
    have c: "comment = [] \<or> (\<exists>i. comment = trim_space (drop i ?t))"
      using split by (auto split: option.splits)
    then show "trim_space comment = comment" by (auto simp: trim_space_Nil)
    from c have "set comment \<subseteq> set ?t"
      using trim_space_set set_drop_subset by (metis empty_iff empty_set subset_iff)
    with nl show "CHR 0x0A \<notin> set comment" by auto
  qed
  have "token w" if "w \<in> set (ip # h # hs)" for w
    using fields_tokens [of w body] that f body by (auto simp: token_def)
  with comment show ?thesis by (simp add: data_ok_def d)
qed

lemma parseAll_ok: "l \<in> set (parseAll s) \<Longrightarrow> line_ok l"
  using in_split_on parseDataLine_ok
  by (fastforce simp: parseAll_def line_ok_def split: if_splits option.splits)

lemma render_line_ok:
  assumes "line_ok l"
  shows "parseDataLine (render_line l) = hl_data l" "CHR 0x0A \<notin> set (render_line l)"
  using assms parse_render_data by (auto simp: line_ok_def render_line_def split: option.splits)

lemma split_join:
  assumes "ps \<noteq> []" "\<forall>p \<in> set ps. CHR 0x0A \<notin> set p"
  shows "split_on CHR 0x0A (join_with newline ps) = ps"
proof -
  have one: "split_on CHR 0x0A p = [p]" if "CHR 0x0A \<notin> set p" for p
    using that by (induction p) auto
  have more: "split_on CHR 0x0A (p @ CHR 0x0A # s) = p # split_on CHR 0x0A s" if "CHR 0x0A \<notin> set p" for p s
    using that by (induction p) auto
  show ?thesis using assms
    by (induction "newline" ps rule: join_with.induct) (simp_all add: one more)
qed

text \<open>The entries of a file, in order: what reading it back gives.\<close>

definition entries :: "hosts_line list \<Rightarrow> data_line list" where
  "entries ls = List.map_filter hl_data ls"

lemma entries_simps [simp]:
  "entries [] = []" "entries (l # ls) = (case hl_data l of Some d \<Rightarrow> d # entries ls | None \<Rightarrow> entries ls)"
  "entries (ls @ ls') = entries ls @ entries ls'"
  by (auto simp: entries_def List.map_filter_def split: option.splits)

lemma entries_parse_pieces:
  "entries (map (\<lambda>raw. \<lparr> hl_raw = raw, hl_data = parseDataLine raw \<rparr>) ps) = List.map_filter parseDataLine ps"
  by (simp add: entries_def List.map_filter_def comp_def filter_map)

lemma parse_render_lines:
  assumes "\<forall>l \<in> set ls. line_ok l"
  shows "entries (parseAll (render_lines ls)) = entries ls"
proof (cases "ls = []")
  case True
  then show ?thesis by (simp add: render_lines_def parseAll_def)
next
  case False
  let ?ps = "map render_line ls" let ?s = "join_with newline ?ps"
  have nl: "\<forall>p \<in> set ?ps. CHR 0x0A \<notin> set p" using assms render_line_ok(2) by auto
  have data: "List.map_filter parseDataLine ?ps = entries ls"
    using assms by (induction ls) (auto simp: map_filter_simps render_line_ok split: option.splits)
  have blank: "parseDataLine [] = None" by (simp add: parseDataLine_def trim_space_def trim_left_def trim_right_def)
  show ?thesis
  proof (cases "?s = []")
    case True
    then have "?ps = [[]]" using False by (cases ls; cases "tl ls") auto
    with data blank have "entries ls = []" by (simp add: map_filter_simps)
    with True show ?thesis by (simp add: render_lines_def parseAll_def)
  next
    case s: False
    have sp: "split_on CHR 0x0A ?s = ?ps" using False nl by (intro split_join) auto
    show ?thesis
    proof (cases "has_suffix ?s newline")
      case True
      with s have "parseAll (render_lines ls) = map (\<lambda>raw. \<lparr> hl_raw = raw, hl_data = parseDataLine raw \<rparr>) ?ps"
        by (simp add: render_lines_def parseAll_def sp del: map_map)
      then show ?thesis by (simp only: entries_parse_pieces data)
    next
      case no: False
      have "?s @ newline = join_with newline (?ps @ [[]])"
        using False by (induction ls rule: induct_list012) auto
      then have "split_on CHR 0x0A (?s @ newline) = ?ps @ [[]]"
        using nl split_join [of "?ps @ [[]]"] by simp
      moreover have "List.map_filter parseDataLine (?ps @ [[]]) = entries ls"
        using data blank by (simp add: List.map_filter_def)
      moreover have "parseAll (render_lines ls) =
        map (\<lambda>raw. \<lparr> hl_raw = raw, hl_data = parseDataLine raw \<rparr>) (split_on CHR 0x0A (?s @ newline))"
        using s no by (simp add: render_lines_def parseAll_def)
      ultimately show ?thesis by (simp only: entries_parse_pieces)
    qed
  qed
qed

section \<open>Adding and removing\<close>

text \<open>The managed entry for a host, and what the provider sees in the file.\<close>

definition file_entries :: "hosts_file \<Rightarrow> data_line list" where
  "file_entries f = (case hf_content f of None \<Rightarrow> [] | Some b \<Rightarrow> entries (parseAll b))"

definition managed_entry :: "string \<Rightarrow> data_line" where
  "managed_entry h = \<lparr> dl_ip = managedIP, dl_hosts = [h], dl_comment = managedMarker, dl_managed = True \<rparr>"

lemma hosts_read_ok:
  assumes "hosts_read f = Inr ls"
  shows "\<forall>l \<in> set ls. line_ok l" "file_entries f = entries ls"
  using assms parseAll_ok by (auto simp: hosts_read_def file_entries_def split: if_splits option.splits)

lemma hosts_write_ok:
  assumes "hosts_write ls f = (Inr u, f')" "\<forall>l \<in> set ls. line_ok l"
  shows "file_entries f' = entries ls"
  using assms parse_render_lines by (auto simp: hosts_write_def file_entries_def split: if_splits)

lemma managedIP_token: "token managedIP"
  by (simp add: token_def managedIP_def no_space_def is_space_def)

lemma newManagedLine_ok:
  assumes "token h" shows "line_ok (newManagedLine h)"
proof -
  have "trim_space managedMarker = managedMarker"
    by (rule trim_space_id) (simp_all add: managedMarker_def is_space_def)
  moreover have "CHR 0x0A \<notin> set managedMarker" by (simp add: managedMarker_def)
  ultimately show ?thesis
    using assms managedIP_token by (simp add: line_ok_def newManagedLine_def data_ok_def)
qed

text \<open>What the scan of \<open>Add\<close> finds, in terms of the entries.\<close>

fun first_with_host :: "string \<Rightarrow> data_line list \<Rightarrow> data_line option" where
  "first_with_host h [] = None"
| "first_with_host h (d # ds) = (if hasHost d h then Some d else first_with_host h ds)"

fun repoint_first :: "string \<Rightarrow> data_line list \<Rightarrow> data_line list" where
  "repoint_first h [] = []"
| "repoint_first h (d # ds) = (if hasHost d h then d\<lparr> dl_ip := managedIP \<rparr> # ds else d # repoint_first h ds)"

lemma add_scan_entries:
  "case add_scan h ls of
     Refuse \<Rightarrow> \<exists>d. first_with_host h (entries ls) = Some d \<and> \<not> dl_managed d
   | AlreadyThere \<Rightarrow> \<exists>d. first_with_host h (entries ls) = Some d \<and> dl_managed d \<and> dl_ip d = managedIP
   | Absent \<Rightarrow> first_with_host h (entries ls) = None
   | Rewritten ls' \<Rightarrow> (\<exists>d. first_with_host h (entries ls) = Some d \<and> dl_managed d \<and> dl_ip d \<noteq> managedIP) \<and>
       entries ls' = repoint_first h (entries ls)"
  by (induction h ls rule: add_scan.induct) (auto split: option.splits add_step.splits)

lemma add_scan_ok:
  assumes "add_scan h ls = Rewritten ls'" "\<forall>l \<in> set ls. line_ok l"
  shows "\<forall>l \<in> set ls'. line_ok l"
  using assms
proof (induction h ls arbitrary: ls' rule: add_scan.induct)
  case (2 h l ls)
  have "line_ok (l\<lparr> hl_data := Some (d\<lparr> dl_ip := managedIP \<rparr>) \<rparr>)" if "hl_data l = Some d" for d
    using 2(4) that managedIP_token by (auto simp: line_ok_def data_ok_def)
  with 2 show ?case by (auto split: option.splits add_step.splits if_splits)
qed simp

lemma normalize_token:
  assumes "normalizeHostname x = Inr h" "no_space x"
  shows "token h" "h = x"
proof -
  from assms(1) have h: "h = trim_space x" "h \<noteq> []" "CHR ''#'' \<notin> set h"
    by (auto simp: normalizeHostname_def Let_def contains_any_def split: if_splits)
  have "x \<noteq> []" using h by (auto simp: trim_space_Nil)
  then have "trim_space x = x" using assms(2) by (intro trim_space_id) (auto simp: no_space_def)
  with h assms(2) show "token h" "h = x" by (simp_all add: token_def)
qed

text \<open>Adding a hostname without white space: a foreign entry for it refuses the addition; an
  existing managed one makes it a no-op or is pointed at the loopback address; otherwise exactly
  one managed entry is appended.  No other entry changes its address, hosts or comment, and the
  host is managed and mapped to 127.0.0.1 afterwards.\<close>

theorem hosts_add_touches_only_its_entry:
  assumes "no_space host" "hosts_Add host f = (r, f')"
  shows "case r of
      Inl e \<Rightarrow> f' = f \<and> (\<forall>h. e = NotManaged h \<longrightarrow> (\<exists>d. first_with_host host (file_entries f) = Some d \<and> \<not> dl_managed d))
    | Inr _ \<Rightarrow>
        (case first_with_host host (file_entries f) of
           None \<Rightarrow> file_entries f' = file_entries f @ [managed_entry host]
         | Some d \<Rightarrow> dl_managed d \<and> file_entries f' =
             (if dl_ip d = managedIP then file_entries f else repoint_first host (file_entries f)))"
proof (cases "normalizeHostname host")
  case (Inl e)
  then have "(r, f') = (Inl e, f)" using assms(2) by (simp add: hosts_Add_def)
  moreover have "e \<noteq> NotManaged h" for h
    using Inl by (auto simp: normalizeHostname_def Let_def split: if_splits)
  ultimately show ?thesis by simp
next
  case (Inr h)
  then have h: "token host" "h = host" using normalize_token [OF Inr assms(1)] by simp_all
  show ?thesis
  proof (cases "hosts_read f")
    case (Inl e)
    moreover from this have "e = HostsReadFailed" by (auto simp: hosts_read_def split: if_splits option.splits)
    ultimately show ?thesis using assms(2) Inr by (auto simp: hosts_Add_def)
  next
    case ls: (Inr ls)
    note ok = hosts_read_ok [OF ls] and scan = add_scan_entries [of host ls]
    have wf: "e = HostsWriteFailed \<and> g' = g" if "hosts_write x g = (Inl e, g')" for x g e g'
      using that by (auto simp: hosts_write_def split: if_splits)
    have me: "entries (ls @ [newManagedLine host]) = entries ls @ [managed_entry host]"
      by (simp add: newManagedLine_def managed_entry_def)
    show ?thesis
    proof (cases "add_scan host ls")
      case (Rewritten ls')
      then have "hosts_write ls' f = (r, f')" using assms(2) Inr ls h by (simp add: hosts_Add_def)
      moreover from this have "r = Inl e \<Longrightarrow> e = HostsWriteFailed \<and> f' = f" for e using wf by blast
      ultimately show ?thesis
        using hosts_write_ok [of ls' f _ f'] add_scan_ok [OF Rewritten ok(1)] scan Rewritten ok(2)
        by (cases r) auto
    next
      case Absent
      then have w: "hosts_write (ls @ [newManagedLine host]) f = (r, f')"
        using assms(2) Inr ls h by (simp add: hosts_Add_def)
      have "\<forall>l \<in> set (ls @ [newManagedLine host]). line_ok l" using ok(1) newManagedLine_ok h by simp
      moreover have "r = Inl e \<Longrightarrow> e = HostsWriteFailed \<and> f' = f" for e using wf w by blast
      ultimately show ?thesis
        using w hosts_write_ok [of "ls @ [newManagedLine host]" f _ f'] scan Absent ok(2) me
        by (cases r) auto
    qed (use assms(2) Inr ls h scan ok(2) in \<open>auto simp: hosts_Add_def\<close>)
  qed
qed

text \<open>Removing a hostname deletes exactly the managed entries that map just that name (in any
  case), and leaves every other entry, every foreign one among them, as it was; when there is
  none the file stays untouched and the answer is \<open>ErrNotFound\<close>.\<close>

theorem hosts_remove_deletes_only_its_entry:
  assumes "normalizeHostname host = Inr h" "hosts_Remove host f = (r, f')" "\<not> hf_read_error f"
  defines "mine \<equiv> \<lambda>d. dl_managed d \<and> length (dl_hosts d) = 1 \<and> equal_fold (hd (dl_hosts d)) h"
  shows "(r = Inl HostsNotFound \<longleftrightarrow> \<not> list_ex mine (file_entries f)) \<and>
    (is_ok r \<longrightarrow> file_entries f' = filter (\<lambda>d. \<not> mine d) (file_entries f)) \<and>
    (\<not> is_ok r \<longrightarrow> f' = f)"
proof -
  from assms(3) obtain ls where ls: "hosts_read f = Inr ls"
    by (cases "hf_content f") (simp_all add: hosts_read_def)
  note ok = hosts_read_ok [OF ls]
  have ex: "list_ex (removable h) ls \<longleftrightarrow> list_ex mine (entries ls)"
    by (induction ls) (auto simp: removable_def mine_def split: option.splits)
  have fl: "entries (filter (\<lambda>l. \<not> removable h l) ls) = filter (\<lambda>d. \<not> mine d) (entries ls)"
    by (induction ls) (auto simp: removable_def mine_def split: option.splits)
  show ?thesis
  proof (cases "list_ex (removable h) ls")
    case False
    with assms(1,2) ls ex ok(2) show ?thesis by (auto simp: hosts_Remove_def)
  next
    case True
    then have w: "hosts_write (filter (\<lambda>l. \<not> removable h l) ls) f = (r, f')"
      using assms(1,2) ls by (simp add: hosts_Remove_def)
    have "\<forall>l \<in> set (filter (\<lambda>l. \<not> removable h l) ls). line_ok l" using ok(1) by simp
    with w hosts_write_ok [of _ f _ f'] have "is_ok r \<Longrightarrow> file_entries f' = filter (\<lambda>d. \<not> mine d) (entries ls)"
      unfolding fl [symmetric] by (cases r) auto
    moreover have "\<not> is_ok r \<Longrightarrow> f' = f \<and> r = Inl HostsWriteFailed"
      using w by (auto simp: hosts_write_def split: if_splits)
    ultimately show ?thesis using True ex ok(2) by (cases r) auto
  qed
qed

text \<open>A failed call leaves the file alone, and a removal is final.\<close>

lemma hosts_failed:
  "hosts_Add h f = (Inl e, f') \<Longrightarrow> f' = f" "hosts_Remove h f = (Inl e, f') \<Longrightarrow> f' = f"
  by (auto simp: hosts_Add_def hosts_Remove_def hosts_write_def split: sum.splits add_step.splits if_splits)

lemma hosts_Remove_twice:
  assumes "hosts_Remove host f = (Inr u, f')"
  shows "hosts_Remove host f' = (Inl HostsNotFound, f')"
proof -
  from assms obtain h ls where h: "normalizeHostname host = Inr h" and ls: "hosts_read f = Inr ls"
    and w: "hosts_write (filter (\<lambda>l. \<not> removable h l) ls) f = (Inr u, f')"
    by (auto simp: hosts_Remove_def split: sum.splits if_splits)
  let ?mine = "\<lambda>d. dl_managed d \<and> length (dl_hosts d) = 1 \<and> equal_fold (hd (dl_hosts d)) h"
  have ex: "list_ex (removable h) ks \<longleftrightarrow> list_ex ?mine (entries ks)" for ks
    by (induction ks) (auto simp: removable_def split: option.splits)
  have fe: "file_entries f' = entries (filter (\<lambda>l. \<not> removable h l) ls)"
    using hosts_write_ok [OF w] hosts_read_ok(1) [OF ls] by simp
  obtain ks where ks: "hosts_read f' = Inr ks"
    using w ls by (auto simp: hosts_write_def hosts_read_def split: if_splits)
  have "list_ex (removable h) ks \<longleftrightarrow> list_ex (removable h) (filter (\<lambda>l. \<not> removable h l) ls)"
    unfolding ex fe [symmetric] hosts_read_ok(2) [OF ks] ..
  then have "\<not> list_ex (removable h) ks" by (auto simp: list_ex_iff)
  with h ks show ?thesis by (simp add: hosts_Remove_def)
qed

section \<open>Where the documentation promises more\<close>

definition demo_hosts :: "string \<Rightarrow> hosts_file" where
  "demo_hosts s = \<lparr> hf_content = Some s, hf_read_error = False, hf_write_error = False \<rparr>"

text \<open>A line written by hand, with two spaces: \<open>10.0.0.5  db\<close>.\<close>

definition foreign_text :: string where
  "foreign_text = ''10.0.0.5  db'' @ newline"

text \<open>Adding a hostname rewrites the text of foreign lines: a hand-written line with two spaces
  between its fields comes back with a tab, and an empty line appears before the new entry.\<close>

theorem add_rewrites_foreign_text:
  "hf_content (snd (hosts_Add ''web'' (demo_hosts foreign_text))) =
     Some (''10.0.0.5'' @ tab @ ''db'' @ newline @ newline @ ''127.0.0.1'' @ tab @ ''web'' @ tab @
           ''# volt-managed'' @ newline)"
  unfolding demo_hosts_def foreign_text_def by code_simp

text \<open>A hostname with a line feed and a vertical tab in it.\<close>

definition smuggled_name :: string where
  "smuggled_name = ''x'' @ newline @ ''6.6.6.6'' @ [CHR 0x0B] @ ''bank.com''"

text \<open>The check of a hostname rejects blanks, tabs and \<open>#\<close> but not line feeds or vertical tabs,
  so a name can carry a second line: adding it maps a hostname of the caller's choice to an
  address of the caller's choice.\<close>

theorem add_accepts_a_second_line:
  "normalizeHostname smuggled_name = Inr smuggled_name \<and>
   fst (hosts_Add smuggled_name (demo_hosts [])) = Inr () \<and>
   map (\<lambda>d. (dl_ip d, dl_hosts d)) (file_entries (snd (hosts_Add smuggled_name (demo_hosts [])))) =
     [(''127.0.0.1'', [''x'']), (''6.6.6.6'', [''bank.com''])]"
  unfolding demo_hosts_def smuggled_name_def by code_simp

section \<open>Witnesses\<close>

lemma hosts_add_touches_only_its_entry_witness:
  "file_entries (snd (hosts_Add ''web'' (demo_hosts []))) = [managed_entry ''web'']"
proof -
  have n: "no_space ''web''" by (simp add: no_space_def is_space_def)
  have a: "hosts_Add ''web'' (demo_hosts []) = (Inr (), snd (hosts_Add ''web'' (demo_hosts [])))"
    unfolding demo_hosts_def by code_simp
  have "file_entries (demo_hosts []) = []" by (simp add: file_entries_def demo_hosts_def parseAll_def)
  with hosts_add_touches_only_its_entry [OF n a] show ?thesis by simp
qed

lemma hosts_remove_deletes_only_its_entry_witness:
  "fst (hosts_Remove ''web'' (demo_hosts [])) = Inl HostsNotFound"
proof -
  have n: "normalizeHostname ''web'' = Inr ''web''" by code_simp
  have e: "file_entries (demo_hosts []) = []" by (simp add: file_entries_def demo_hosts_def parseAll_def)
  obtain r f' where r: "hosts_Remove ''web'' (demo_hosts []) = (r, f')" by force
  have "\<not> hf_read_error (demo_hosts [])" by (simp add: demo_hosts_def)
  from hosts_remove_deletes_only_its_entry [OF n r this] e show ?thesis by (simp add: r)
qed

end
