(* ===== verification/ServiceStore.thy ===== *)
theory ServiceStore
  imports Database Service
begin

text \<open>
  The services table as \<open>internal/storage\<close> reads and writes it: the full record of
  \<open>service_lifecycle_repo.go\<close>, which the service manager uses, and the older application shape
  of \<open>services_repo.go\<close>, which only the import of a legacy \<open>apps.json\<close> still writes.
\<close>

definition nullableInt :: "int \<Rightarrow> sqlval" where
  "nullableInt v = (if v = 0 then Null else Num v)"

definition optional_time :: "int option \<Rightarrow> sqlval" where
  "optional_time t = (case t of None \<Rightarrow> Null | Some x \<Rightarrow> rfc3339 x)"

definition optional_int :: "int option \<Rightarrow> sqlval" where
  "optional_int t = (case t of None \<Rightarrow> Null | Some x \<Rightarrow> Num x)"

definition record_cols :: "int \<Rightarrow> service_record \<Rightarrow> (string \<times> sqlval) list" where
  "record_cols now r =
     [(''id'', Text (rec_ID r)), (''project_id'', nullable (rec_ProjectID r)),
      (''kind'', Text (default_string (rec_Kind r) ''native'')), (''name'', Text (rec_Name r)),
      (''command'', Text (rec_Command r)), (''args'', Json (json_strings (rec_Args r))),
      (''cwd'', Text (rec_Cwd r)), (''env'', Json (json_env (rec_Env r))),
      (''autostart'', boolToInt (rec_Autostart r)),
      (''depends_on'', Json (json_strings (rec_DependsOn r))),
      (''restart_policy'', Text (default_string (rec_RestartPolicy r) ''on-failure'')),
      (''graceful_timeout_seconds'', Num (rec_GracefulTimeoutSeconds r)),
      (''max_restarts'', Num (rec_MaxRestarts r)),
      (''restart_window_seconds'', Num (rec_RestartWindowSeconds r)),
      (''status'', Text (rec_Status r)), (''pid'', nullableInt (rec_PID r)),
      (''log_path'', Text (rec_LogFile r)), (''started_at'', optional_time (rec_StartedAt r)),
      (''exited_at'', optional_time (rec_ExitedAt r)), (''exit_code'', optional_int (rec_ExitCode r)),
      (''created_at'', rfc3339 now), (''updated_at'', rfc3339 now)]"

definition upserted_cols :: "string list" where
  "upserted_cols =
     [''project_id'', ''kind'', ''name'', ''command'', ''args'', ''cwd'', ''env'', ''autostart'',
      ''depends_on'', ''restart_policy'', ''graceful_timeout_seconds'', ''max_restarts'',
      ''restart_window_seconds'', ''status'', ''pid'', ''log_path'', ''started_at'', ''exited_at'',
      ''exit_code'', ''updated_at'']"

definition upsertServiceRecord :: "int \<Rightarrow> service_record \<Rightarrow> unit sql" where
  "upsertServiceRecord now r = sql_upsert ''services'' (record_cols now r) upserted_cols"

definition scanServiceRecord :: "row \<Rightarrow> service_record" where
  "scanServiceRecord r =
     \<lparr> rec_ID = text_col ''id'' r, rec_ProjectID = text_col ''project_id'' r,
       rec_Kind = text_col ''kind'' r, rec_Name = text_col ''name'' r,
       rec_Command = text_col ''command'' r, rec_Args = json_as_strings (json_col ''args'' r),
       rec_Cwd = text_col ''cwd'' r, rec_Env = json_as_env (json_col ''env'' r),
       rec_Autostart = bool_col ''autostart'' r,
       rec_DependsOn = json_as_strings (json_col ''depends_on'' r),
       rec_RestartPolicy = text_col ''restart_policy'' r,
       rec_GracefulTimeoutSeconds = num_col ''graceful_timeout_seconds'' r,
       rec_MaxRestarts = num_col ''max_restarts'' r,
       rec_RestartWindowSeconds = num_col ''restart_window_seconds'' r,
       rec_Status = text_col ''status'' r, rec_PID = num_col ''pid'' r,
       rec_LogFile = text_col ''log_path'' r, rec_StartedAt = time_opt_col ''started_at'' r,
       rec_ExitedAt = time_opt_col ''exited_at'' r, rec_ExitCode = num_opt_col ''exit_code'' r \<rparr>"

definition getServiceRecord :: "string \<Rightarrow> service_record option sql" where
  "getServiceRecord i d =
     (case sql_query_row ''services'' (by_id i) d of
        (Inl NoRows, d') \<Rightarrow> (Inr None, d')
      | (Inl e, d') \<Rightarrow> (Inl e, d')
      | (Inr r, d') \<Rightarrow> (Inr (Some (scanServiceRecord r)), d'))"

text \<open>\<open>Store.GetServiceRecord\<close>: an error reads as absent.\<close>

definition GetServiceRecord :: "string \<Rightarrow> db \<Rightarrow> service_record option \<times> db" where
  "GetServiceRecord i d =
     (case getServiceRecord i d of (Inl _, d') \<Rightarrow> (None, d') | (Inr r, d') \<Rightarrow> (r, d'))"

definition listServiceRecords :: "service_record list sql" where
  "listServiceRecords = repo_list ''services'' (\<lambda>_. True) (order_by (stamp_col ''created_at''))
     scanServiceRecord (\<lambda>e. e)"

definition DeleteServiceRecordsForProject :: "string \<Rightarrow> unit sql" where
  "DeleteServiceRecordsForProject projectID =
     go_bind (sql_delete ''services'' (\<lambda>r. r ''project_id'' = Text projectID)) (\<lambda>_. go_return ())"

section \<open>The legacy application shape\<close>

record app =
  app_ID :: string
  app_Name :: string
  app_Command :: string
  app_Args :: "string list"
  app_Cwd :: string
  app_Env :: env
  app_PID :: int
  app_Status :: string
  app_StartedAt :: "int option"
  app_ExitedAt :: "int option"
  app_Code :: "int option"
  app_LogFile :: string

definition app_cols :: "int \<Rightarrow> app \<Rightarrow> (string \<times> sqlval) list" where
  "app_cols now a =
     [(''id'', Text (app_ID a)), (''kind'', Text ''native''), (''name'', Text (app_Name a)),
      (''command'', Text (app_Command a)), (''args'', Json (json_strings (app_Args a))),
      (''cwd'', Text (app_Cwd a)), (''env'', Json (json_env (app_Env a))),
      (''status'', Text (app_Status a)), (''pid'', Num (app_PID a)), (''log_path'', Text (app_LogFile a)),
      (''started_at'', optional_time (app_StartedAt a)), (''exited_at'', optional_time (app_ExitedAt a)),
      (''exit_code'', optional_int (app_Code a)), (''created_at'', rfc3339 now), (''updated_at'', rfc3339 now)]"

definition upsertService :: "int \<Rightarrow> app \<Rightarrow> unit sql" where
  "upsertService now a = sql_upsert ''services'' (app_cols now a)
     [''name'', ''command'', ''args'', ''cwd'', ''env'', ''status'', ''pid'', ''log_path'',
      ''started_at'', ''exited_at'', ''exit_code'', ''updated_at'']"

definition scanService :: "row \<Rightarrow> app" where
  "scanService r =
     \<lparr> app_ID = text_col ''id'' r, app_Name = text_col ''name'' r, app_Command = text_col ''command'' r,
       app_Args = json_as_strings (json_col ''args'' r), app_Cwd = text_col ''cwd'' r,
       app_Env = json_as_env (json_col ''env'' r), app_PID = num_col ''pid'' r,
       app_Status = text_col ''status'' r, app_StartedAt = time_opt_col ''started_at'' r,
       app_ExitedAt = time_opt_col ''exited_at'' r, app_Code = num_opt_col ''exit_code'' r,
       app_LogFile = text_col ''log_path'' r \<rparr>"

definition getService :: "string \<Rightarrow> app option sql" where
  "getService i d =
     (case sql_query_row ''services'' (by_id i) d of
        (Inl NoRows, d') \<Rightarrow> (Inr None, d')
      | (Inl e, d') \<Rightarrow> (Inl e, d')
      | (Inr r, d') \<Rightarrow> (Inr (Some (scanService r)), d'))"

definition listServices :: "app list sql" where
  "listServices = repo_list ''services'' (\<lambda>_. True) (order_by (stamp_col ''created_at'')) scanService (\<lambda>e. e)"

text \<open>
  \<open>importLegacyApps\<close>: the loop over the applications read from \<open>apps.json\<close>; a service already
  in the table is never overwritten.
\<close>

fun importLegacyApps :: "int \<Rightarrow> app list \<Rightarrow> unit sql" where
  "importLegacyApps now [] = go_return ()"
| "importLegacyApps now (a # apps) = go_bind (sql_query ''services'' (by_id (app_ID a))) (\<lambda>rows.
     if rows \<noteq> [] then importLegacyApps now apps
     else go_bind (upsertService now a) (\<lambda>_. importLegacyApps now apps))"

section \<open>What a stored service reads back as\<close>

lemma record_row_ok:
  "make_row ''services'' (record_cols now r) ''id'' = Text (rec_ID r)"
  "row_not_null ''services'' (make_row ''services'' (record_cols now r))"
  "rows_conflict ''services'' x y \<longleftrightarrow> x ''id'' \<noteq> Null \<and> x ''id'' = y ''id''"
  "row_references d ''services'' x \<longleftrightarrow> x ''project_id'' = Null \<or> (\<exists>p \<in> set (tables d ''projects''). p ''id'' = x ''project_id'')"
  by (simp_all add: make_row_def record_cols_def row_not_null_def not_null_cols_def required_cols_def
      column_defaults_def rfc3339_def boolToInt_def rows_conflict_def unique_cols_def row_references_def
      foreign_keys_def)

text \<open>The record as it comes back: instants cut to seconds, an empty kind or policy filled in.\<close>

definition stored_record :: "service_record \<Rightarrow> service_record" where
  "stored_record r = r\<lparr>
     rec_Kind := default_string (rec_Kind r) ''native'',
     rec_RestartPolicy := default_string (rec_RestartPolicy r) ''on-failure'',
     rec_StartedAt := map_option (\<lambda>t. t div second * second) (rec_StartedAt r),
     rec_ExitedAt := map_option (\<lambda>t. t div second * second) (rec_ExitedAt r) \<rparr>"

lemma scan_record_cols:
  assumes "\<And>c. c \<in> set (''id'' # upserted_cols) \<Longrightarrow> x c = make_row ''services'' (record_cols now r) c"
  shows "scanServiceRecord x = stored_record r"
  using assms
  by (auto simp: scanServiceRecord_def stored_record_def upserted_cols_def make_row_def record_cols_def
      sql_simps boolToInt_def nullableInt_def optional_time_def optional_int_def nullable_def
      split: option.splits)

lemma upsert_assigns:
  "set_cols (map (\<lambda>c. (c, r c)) cs) x c = (if c \<in> set cs then r c else x c)"
  by (induction cs) (auto simp: set_cols_def)

lemma upsert_keeps_id: "''id'' \<notin> set upserted_cols"
  by (simp add: upserted_cols_def)

text \<open>Without driver faults the upsert replaces the row with that id, or appends one.\<close>

lemma upsertServiceRecord_ok:
  fixes now :: int and r :: service_record and d :: db
  assumes "faults d = []" "db_ok d"
    and "rec_ProjectID r = [] \<or> (\<exists>p \<in> set (tables d ''projects''). by_id (rec_ProjectID r) p)"
  defines "new \<equiv> make_row ''services'' (record_cols now r)"
  defines "upd \<equiv> set_cols (map (\<lambda>c. (c, new c)) upserted_cols)"
  shows "upsertServiceRecord now r d = (Inr (),
    with_table ''services''
      (if \<exists>x \<in> set (tables d ''services''). by_id (rec_ID r) x
       then map (\<lambda>x. if by_id (rec_ID r) x then upd x else x) (tables d ''services'')
       else tables d ''services'' @ [new]) d)"
proof -
  have id: "new ''id'' = Text (rec_ID r)" and nn: "row_not_null ''services'' new"
    unfolding new_def by (rule record_row_ok)+
  have proj: "new ''project_id'' = nullable (rec_ProjectID r)"
    by (simp add: new_def make_row_def record_cols_def)
  have ref: "row_references d ''services'' x" if "x ''project_id'' = nullable (rec_ProjectID r)" for x
    using assms(3) that by (auto simp: record_row_ok by_id_def nullable_def)
  have P: "(\<lambda>x. x ''id'' = new ''id'') = by_id (rec_ID r)" by (rule ext) (simp add: by_id_def id)
  have upd: "upd x ''project_id'' = nullable (rec_ProjectID r)" "upd x ''id'' = x ''id''" for x
    by (simp_all add: upd_def upsert_assigns proj) (simp_all add: upserted_cols_def)
  have upd_nn: "row_not_null ''services'' x \<Longrightarrow> row_not_null ''services'' (upd x)" for x
    using nn by (auto simp: row_not_null_def upd_def upsert_assigns)
  have old: "x \<in> set (tables d ''services'') \<Longrightarrow> row_not_null ''services'' x"
    and nc: "no_conflicts ''services'' (tables d ''services'')" for x
    using assms(2) by (auto simp: db_ok_def schema_tables_def)
  have nc': "no_conflicts ''services'' (map (\<lambda>x. if by_id (rec_ID r) x then upd x else x) (tables d ''services''))"
    using nc upd by (subst no_conflicts_same_ids) (auto simp: unique_cols_def)
  show ?thesis
  proof (cases "\<exists>x \<in> set (tables d ''services''). by_id (rec_ID r) x")
    case True
    then have ex: "\<exists>x \<in> set (tables d ''services''). x ''id'' = new ''id'' \<and> new ''id'' \<noteq> Null"
      by (auto simp: by_id_def id)
    have "raw_update ''services'' (by_id (rec_ID r)) (map (\<lambda>c. (c, new c)) upserted_cols) d =
      (Inr (length (filter (by_id (rec_ID r)) (tables d ''services''))),
       with_table ''services'' (map (\<lambda>x. if by_id (rec_ID r) x then upd x else x) (tables d ''services'')) d)"
    proof -
      have "\<not> (\<exists>x \<in> set (map upd (filter (by_id (rec_ID r)) (tables d ''services''))). \<not> row_not_null ''services'' x)"
        using upd_nn old by auto
      moreover have "\<not> (\<exists>x \<in> set (map upd (filter (by_id (rec_ID r)) (tables d ''services''))). \<not> row_references d ''services'' x)"
        using ref upd(1) by auto
      ultimately show ?thesis
        unfolding raw_update_def Let_def upd_def [symmetric] using nc' by (simp only: length_map) simp
    qed
    then show ?thesis
      using True ex nn assms(1)
      by (simp add: upsertServiceRecord_def sql_upsert_def go_bind_def Let_def new_def [symmetric] P)
  next
    case False
    then have no: "\<not> (\<exists>x \<in> set (tables d ''services''). x ''id'' = new ''id'' \<and> new ''id'' \<noteq> Null)"
      by (auto simp: by_id_def id)
    moreover have "raw_insert ''services'' new d = (Inr (), with_table ''services'' (tables d ''services'' @ [new]) d)"
      using False nn ref [of new] proj by (auto simp: raw_insert_def record_row_ok(3) id by_id_def)
    ultimately show ?thesis
      using False nn assms(1) unfolding upsertServiceRecord_def sql_upsert_def go_bind_def Let_def new_def [symmetric]
      by (simp only: tick_nofault prod.case sum.case if_False simp_thms)
  qed
qed

text \<open>A live service as the next daemon sees it.\<close>

definition reloaded :: "service \<Rightarrow> service" where
  "reloaded s = s\<lparr>
     svc_Kind := default_string (svc_Kind s) ''native'',
     svc_GracefulTimeout := reload_duration (svc_GracefulTimeout s) defaultGracefulTimeout,
     svc_RestartWindow := reload_duration (svc_RestartWindow s) defaultRestartWindow,
     svc_StartedAt := map_option (\<lambda>t. t div second * second) (svc_StartedAt s),
     svc_ExitedAt := map_option (\<lambda>t. t div second * second) (svc_ExitedAt s) \<rparr>"

lemma fromRecord_stored:
  assumes "complete_service s" "in_range64 (svc_GracefulTimeout s)" "in_range64 (svc_RestartWindow s)"
  shows "fromRecord (stored_record (toRecord s)) = reloaded s"
proof -
  have g: "defaultDuration (wrap64 (svc_GracefulTimeout s sdiv second * second)) f = reload_duration (svc_GracefulTimeout s) f"
    "defaultDuration (wrap64 (svc_RestartWindow s sdiv second * second)) f = reload_duration (svc_RestartWindow s) f" for f
    using assms by (simp_all add: reload_duration_eq complete_service_def)
  show ?thesis
    using assms(1)
    by (simp add: fromRecord_def stored_record_def toRecord_def reloaded_def g complete_service_def
        defaultPolicy_def default_string_def defaultInt_def)
qed

text \<open>A service the manager persists comes back after a restart of the daemon as it was, except that
  instants and durations are cut to whole seconds, a duration below one second becomes the
  default, and an empty kind becomes \<open>native\<close>.  The write succeeds whenever the project exists and
  leaves all other services alone.\<close>

theorem persisted_service_reloads:
  assumes "faults d = []" "db_ok d" "complete_service s"
    and "in_range64 (svc_GracefulTimeout s)" "in_range64 (svc_RestartWindow s)"
    and "svc_ProjectID s = [] \<or> (\<exists>p \<in> set (tables d ''projects''). by_id (svc_ProjectID s) p)"
  shows "\<exists>d' rec. upsertServiceRecord now (toRecord s) d = (Inr (), d') \<and>
    GetServiceRecord (svc_ID s) d' = (Some rec, d') \<and> fromRecord rec = reloaded s \<and>
    (\<forall>i. i \<noteq> svc_ID s \<longrightarrow> fst (GetServiceRecord i d') = fst (GetServiceRecord i d))"
proof -
  let ?r = "toRecord s" let ?i = "svc_ID s"
  define new where "new = make_row ''services'' (record_cols now ?r)"
  define upd where "upd = set_cols (map (\<lambda>c. (c, new c)) upserted_cols)"
  have rid: "rec_ID ?r = ?i" "rec_ProjectID ?r = svc_ProjectID s" by (simp_all add: toRecord_def)
  define rows where "rows = (if \<exists>x \<in> set (tables d ''services''). by_id ?i x
       then map (\<lambda>x. if by_id ?i x then upd x else x) (tables d ''services'')
       else tables d ''services'' @ [new])"
  let ?d = "with_table ''services'' rows d"
  have up: "upsertServiceRecord now ?r d = (Inr (), ?d)"
    using upsertServiceRecord_ok [OF assms(1,2), of ?r now, unfolded rid, OF assms(6)]
    unfolding rows_def upd_def new_def .
  have id: "new ''id'' = Text ?i" by (simp add: new_def record_row_ok rid)
  have uid: "upd x ''id'' = x ''id''" for x using upsert_keeps_id by (simp add: upd_def upsert_assigns)
  have scan: "scanServiceRecord (upd x) = stored_record ?r" if "by_id ?i x" for x
  proof (rule scan_record_cols [where now = now], unfold new_def [symmetric])
    fix c assume "c \<in> set (''id'' # upserted_cols)"
    then show "upd x c = new c"
      using that id uid [of x] by (cases "c = ''id''") (auto simp: upd_def upsert_assigns by_id_def)
  qed
  have scan_new: "scanServiceRecord new = stored_record ?r"
    by (rule scan_record_cols) (simp add: new_def)
  have mine: "filter (by_id ?i) rows = (if \<exists>x \<in> set (tables d ''services''). by_id ?i x
      then map upd (filter (by_id ?i) (tables d ''services'')) else [new])"
  proof -
    have "filter (by_id ?i) (map (\<lambda>x. if by_id ?i x then upd x else x) xs) = map upd (filter (by_id ?i) xs)" for xs
      using uid by (induction xs) (auto simp: by_id_def)
    moreover have "\<not> (\<exists>x \<in> set xs. by_id ?i x) \<Longrightarrow> filter (by_id ?i) xs = []" for xs by simp
    ultimately show ?thesis using id by (auto simp: rows_def by_id_def)
  qed
  have others: "filter (by_id i) rows = filter (by_id i) (tables d ''services'')" if "i \<noteq> ?i" for i
  proof -
    have "filter (by_id i) (map (\<lambda>x. if by_id ?i x then upd x else x) xs) = filter (by_id i) xs" for xs
      using uid that by (induction xs) (auto simp: by_id_def)
    then show ?thesis using id that by (simp add: rows_def by_id_def)
  qed
  have get: "GetServiceRecord i e = (map_option scanServiceRecord
      (case filter (by_id i) (tables e ''services'') of [] \<Rightarrow> None | x # _ \<Rightarrow> Some x), e)" if "faults e = []" for i e
    using that by (simp add: GetServiceRecord_def getServiceRecord_def sql_query_row_nofault split: list.splits)
  have "GetServiceRecord ?i ?d = (Some (stored_record ?r), ?d)"
  proof (cases "\<exists>x \<in> set (tables d ''services''). by_id ?i x")
    case True
    then obtain x xs where x: "filter (by_id ?i) (tables d ''services'') = x # xs"
      by (metis filter_empty_conv neq_Nil_conv)
    then have "by_id ?i x" by (metis filter_eq_ConsD)
    with x True show ?thesis using mine scan assms(1) by (simp add: get)
  next
    case False
    then show ?thesis using mine scan_new assms(1) by (simp add: get)
  qed
  with up fromRecord_stored [OF assms(3-5)] others assms(1) show ?thesis by (auto simp: get)
qed

definition demo_request :: start_request where
  "demo_request =
     \<lparr> req_ID = ''a'', req_Name = ''a'', req_Command = ''run'', req_Args = [], req_Cwd = [], req_Env = [],
       req_ProjectID = [], req_Kind = [], req_Autostart = False, req_DependsOn = [], req_RestartPolicy = [],
       req_GracefulTimeout = 500000000, req_MaxRestarts = 0, req_RestartWindow = 0 \<rparr>"

lemma persisted_service_reloads_witness:
  "\<exists>d' rec. upsertServiceRecord 0 (toRecord (toService demo_request)) \<lparr> tables = (\<lambda>_. []), faults = [] \<rparr> = (Inr (), d') \<and>
     svc_GracefulTimeout (fromRecord rec) = defaultGracefulTimeout"
proof -
  let ?d = "\<lparr> tables = (\<lambda>_. []), faults = [] \<rparr> :: db" let ?s = "toService demo_request"
  have "faults ?d = []" "db_ok ?d" by (simp_all add: db_ok_def)
  moreover have "in_range64 (svc_GracefulTimeout ?s)" "in_range64 (svc_RestartWindow ?s)" "svc_ProjectID ?s = []"
    by (simp_all add: toService_def demo_request_def in_range64_def service_defaults second_def)
  ultimately obtain d' rec where "upsertServiceRecord 0 (toRecord ?s) ?d = (Inr (), d')" "fromRecord rec = reloaded ?s"
    using persisted_service_reloads [OF _ _ toService_complete, of ?d demo_request 0] by blast
  moreover have "svc_GracefulTimeout (reloaded ?s) = defaultGracefulTimeout"
    by (simp add: reloaded_def reload_duration_def toService_def demo_request_def service_defaults second_def)
  ultimately show ?thesis by metis
qed

end
