(* ===== verification/ServiceManager.thy ===== *)
theory ServiceManager
  imports ServiceStore Topo
begin

text \<open>
  The service manager of \<open>internal/domain/service/manager.go\<close>.  Its state is the map \<open>procs\<close> of
  running processes, the service records in the database, and, for what the map alone does not
  show, the operating-system processes the manager has started that are still alive.

  The manager's lock only covers short sections; what happens between two sections of one
  goroutine can interleave with the sections of others.  The operations are therefore first given
  section by section, and then composed: sequentially, as functions, for one caller at a time, and
  as an inductive step relation for every interleaving.
\<close>

text \<open>A process is named by its pid; the log file it writes to plays no role in the decisions.\<close>

record running_proc =
  rp_svc :: service
  rp_pid :: int
  rp_stopRequested :: bool
  rp_restartTimes :: "int list"

record manager =
  procs :: "string \<Rightarrow> running_proc option"
  alive :: "running_proc list"
  store :: db

datatype manager_error =
    AlreadyRunning string
  | CommandRequired
  | SpawnFailed string
  | NotRunning string
  | KillFailed string
  | UnknownService string
  | ListFailed sql_error
  | CyclicDependencies topo_error
  | ContextDone
  | ReadLogFailed string

text \<open>What \<open>os.MkdirAll\<close>, \<open>os.OpenFile\<close> and \<open>cmd.Start\<close> come to: a message, or a pid.\<close>

type_synonym spawn = "string + int"

section \<open>The sections\<close>

definition persist :: "int \<Rightarrow> service \<Rightarrow> manager \<Rightarrow> manager" where
  "persist now svc m = m\<lparr> store := snd (upsertServiceRecord now (toRecord svc) (store m)) \<rparr>"

definition mgr_Get :: "string \<Rightarrow> manager \<Rightarrow> service option" where
  "mgr_Get i m = map_option rp_svc (procs m i)"

text \<open>The check at the start of \<open>Start\<close>.\<close>

definition start_check :: "start_request \<Rightarrow> manager \<Rightarrow> manager_error option" where
  "start_check req m =
     (if procs m (req_ID req) \<noteq> None then Some (AlreadyRunning (req_ID req))
      else if req_Command req = [] then Some CommandRequired else None)"

definition log_path :: "string \<Rightarrow> service \<Rightarrow> string" where
  "log_path logDir svc =
     (if svc_LogFile svc = [] then logDir @ ''/'' @ svc_ID svc @ ''.log'' else svc_LogFile svc)"

definition started_service :: "string \<Rightarrow> int \<Rightarrow> int \<Rightarrow> service \<Rightarrow> service" where
  "started_service logDir now pid svc =
     svc\<lparr> svc_PID := pid, svc_Status := StatusRunning, svc_StartedAt := Some now, svc_ExitedAt := None,
          svc_ExitCode := None, svc_LogFile := log_path logDir svc \<rparr>"

text \<open>\<open>startProcess\<close>: spawn, install into the map (replacing whatever is there), persist.\<close>

definition startProcess ::
  "string \<Rightarrow> spawn \<Rightarrow> int \<Rightarrow> service \<Rightarrow> int list \<Rightarrow> manager \<Rightarrow> (manager_error + service) \<times> manager" where
  "startProcess logDir spawned now svc restartTimes m =
     (case spawned of
        Inl msg \<Rightarrow> (Inl (SpawnFailed msg), m)
      | Inr pid \<Rightarrow>
         (let svc' = started_service logDir now pid svc;
              rp = \<lparr> rp_svc = svc', rp_pid = pid, rp_stopRequested = False, rp_restartTimes = restartTimes \<rparr>
          in (Inr svc', persist now svc'
                (m\<lparr> procs := (procs m)(svc_ID svc := Some rp), alive := alive m @ [rp] \<rparr>))))"

definition mgr_Start ::
  "string \<Rightarrow> spawn \<Rightarrow> int \<Rightarrow> start_request \<Rightarrow> manager \<Rightarrow> (manager_error + service) \<times> manager" where
  "mgr_Start logDir spawned now req m =
     (case start_check req m of
        Some e \<Rightarrow> (Inl e, m)
      | None \<Rightarrow> startProcess logDir spawned now (toService req) [] m)"

text \<open>\<open>pruneRestartWindow\<close> reads the clock again; \<open>now\<close> is that second reading.\<close>

definition pruneRestartWindow :: "int \<Rightarrow> int list \<Rightarrow> int \<Rightarrow> int list" where
  "pruneRestartWindow now ts window =
     (let w = (if window \<le> 0 then defaultRestartWindow else window);
          cutoff = now - w
      in filter (\<lambda>t. cutoff < t) ts)"

text \<open>What \<open>awaitExit\<close> decides once the process has exited with a code (-1 when unknown).\<close>

datatype exit_decision =
    Settle service
  | Relaunch service "int list"

definition exited_service :: "int \<Rightarrow> int \<Rightarrow> service \<Rightarrow> service" where
  "exited_service now exitCode svc =
     svc\<lparr> svc_ExitedAt := Some now, svc_ExitCode := Some exitCode, svc_PID := 0 \<rparr>"

definition exit_decision :: "int \<Rightarrow> int \<Rightarrow> int \<Rightarrow> running_proc \<Rightarrow> exit_decision" where
  "exit_decision now now' exitCode rp =
     (let svc = exited_service now exitCode (rp_svc rp);
          crashed = (exitCode \<noteq> 0);
          shouldRestart = (svc_RestartPolicy svc = RestartAlways \<or>
                           (svc_RestartPolicy svc = RestartOnFailure \<and> crashed))
      in if rp_stopRequested rp then Settle (svc\<lparr> svc_Status := StatusStopped \<rparr>)
         else if \<not> shouldRestart then
           Settle (svc\<lparr> svc_Status := (if crashed then StatusFailed else StatusStopped) \<rparr>)
         else (let restartTimes = pruneRestartWindow now' (rp_restartTimes rp @ [now]) (svc_RestartWindow svc)
               in if svc_MaxRestarts svc < int (length restartTimes)
                  then Settle (svc\<lparr> svc_Status := StatusFailed \<rparr>)
                  else Relaunch svc restartTimes))"

text \<open>
  The section of \<open>awaitExit\<close> under the lock: the flag and the service are read, and the entry
  under the service's id is deleted, whichever process it is for.
\<close>

definition collect_exit :: "running_proc \<Rightarrow> manager \<Rightarrow> manager" where
  "collect_exit rp m =
     m\<lparr> procs := (procs m)(svc_ID (rp_svc rp) := None), alive := filter (\<lambda>p. rp_pid p \<noteq> rp_pid rp) (alive m) \<rparr>"

definition awaitExit ::
  "string \<Rightarrow> spawn \<Rightarrow> int \<Rightarrow> int \<Rightarrow> int \<Rightarrow> running_proc \<Rightarrow> manager \<Rightarrow> manager" where
  "awaitExit logDir spawned now now' exitCode rp m =
     (let m1 = collect_exit rp m in
      case exit_decision now now' exitCode rp of
        Settle svc \<Rightarrow> persist now' svc m1
      | Relaunch svc restartTimes \<Rightarrow>
         (case startProcess logDir spawned now' svc restartTimes m1 of
            (Inl _, m2) \<Rightarrow> persist now' (svc\<lparr> svc_Status := StatusFailed \<rparr>) m2
          | (Inr _, m2) \<Rightarrow> m2))"

text \<open>The section of \<open>Stop\<close> under the lock: it marks the exit as asked for.\<close>

definition stop_request :: "string \<Rightarrow> manager \<Rightarrow> (manager_error + running_proc) \<times> manager" where
  "stop_request i m =
     (case procs m i of
        None \<Rightarrow> (Inl (NotRunning i), m)
      | Some rp \<Rightarrow>
         (let rp' = rp\<lparr> rp_stopRequested := True \<rparr>
          in (Inr rp', m\<lparr> procs := (procs m)(i := Some rp'),
                         alive := map (\<lambda>p. if rp_pid p = rp_pid rp then rp' else p) (alive m) \<rparr>)))"

definition stop_timeout :: "int \<Rightarrow> running_proc \<Rightarrow> int" where
  "stop_timeout timeout rp =
     (let t = (if timeout \<le> 0 then svc_GracefulTimeout (rp_svc rp) else timeout)
      in if t \<le> 0 then defaultGracefulTimeout else t)"

text \<open>
  How a process reacts to SIGTERM: the signal cannot be delivered, or the process exits some time
  after it, or never.  The kill that follows, or that a stop without grace starts with, may report
  an error; either way \<open>Stop\<close> waits for the exit.
\<close>

datatype term_reaction = TermUndelivered | ExitsAfter int int | IgnoresTerm

record signals =
  on_term :: term_reaction
  kill_error :: "string option"
  kill_code :: int
  respawn :: spawn

definition stop_exit :: "bool \<Rightarrow> int \<Rightarrow> signals \<Rightarrow> string option \<times> int" where
  "stop_exit graceful timeout sg =
     (case (if graceful then on_term sg else TermUndelivered) of
        TermUndelivered \<Rightarrow> (kill_error sg, kill_code sg)
      | ExitsAfter d code \<Rightarrow> if d < timeout then (None, code) else (kill_error sg, kill_code sg)
      | IgnoresTerm \<Rightarrow> (kill_error sg, kill_code sg))"

text \<open>
  \<open>Stop\<close> as a whole, for one caller: it blocks until \<open>awaitExit\<close> of that process is done, so the
  exit is collected with the flag set.
\<close>

definition mgr_Stop ::
  "string \<Rightarrow> int \<Rightarrow> bool \<Rightarrow> int \<Rightarrow> signals \<Rightarrow> string \<Rightarrow> manager \<Rightarrow> (manager_error + unit) \<times> manager" where
  "mgr_Stop logDir now graceful timeout sg i m =
     (case stop_request i m of
        (Inl e, m1) \<Rightarrow> (Inl e, m1)
      | (Inr rp, m1) \<Rightarrow>
         (case stop_exit graceful (stop_timeout timeout rp) sg of
            (killErr, code) \<Rightarrow>
              (case killErr of Some msg \<Rightarrow> Inl (KillFailed msg) | None \<Rightarrow> Inr (),
               awaitExit logDir (respawn sg) now now code rp m1)))"

definition mgr_Restart ::
  "string \<Rightarrow> spawn \<Rightarrow> int \<Rightarrow> signals \<Rightarrow> string \<Rightarrow> manager \<Rightarrow> (manager_error + service) \<times> manager" where
  "mgr_Restart logDir spawned now sg i m =
     (case procs m i of
        Some rp \<Rightarrow>
          (case mgr_Stop logDir now True 0 sg i m of
             (Inl e, m1) \<Rightarrow> (Inl e, m1)
           | (Inr _, m1) \<Rightarrow> startProcess logDir spawned now (rp_svc rp) [] m1)
      | None \<Rightarrow>
          (case GetServiceRecord i (store m) of
             (None, d) \<Rightarrow> (Inl (UnknownService i), m\<lparr> store := d \<rparr>)
           | (Some rec, d) \<Rightarrow> startProcess logDir spawned now (fromRecord rec) [] (m\<lparr> store := d \<rparr>)))"

definition mgr_ReadLog ::
  "(string \<Rightarrow> string + bytes) \<Rightarrow> string \<Rightarrow> bool \<Rightarrow> manager \<Rightarrow> manager_error + bytes" where
  "mgr_ReadLog read i tail m =
     (case GetServiceRecord i (store m) of
        (None, _) \<Rightarrow> Inl (UnknownService i)
      | (Some rec, _) \<Rightarrow>
         (case read (rec_LogFile rec) of
            Inl msg \<Rightarrow> Inl (ReadLogFailed msg)
          | Inr b \<Rightarrow> if \<not> tail then Inr b
                     else if 65536 < length b then Inr (drop (length b - 65536) b) else Inr b))"

section \<open>Autostart\<close>

text \<open>
  The loop of \<open>StartAutostart\<close>.  For each id the environment gives whether the context is done,
  what spawning comes to, and what the rest of the daemon does during the health-check delay; the
  second result lists the ids for which a process was to be started, in order.
\<close>

record turn =
  ctx_done :: bool
  turn_spawn :: spawn
  turn_now :: int
  meanwhile :: "manager \<Rightarrow> manager"

fun start_in_order ::
  "string \<Rightarrow> (string \<Rightarrow> service option) \<Rightarrow> (string \<Rightarrow> turn) \<Rightarrow> string list \<Rightarrow> manager \<Rightarrow>
   (manager_error + unit) \<times> string list \<times> manager" where
  "start_in_order logDir byID env [] m = (Inr (), [], m)"
| "start_in_order logDir byID env (i # is) m =
     (if ctx_done (env i) then (Inl ContextDone, [], m)
      else if mgr_Get i m \<noteq> None then start_in_order logDir byID env is m
      else case byID i of
             None \<Rightarrow> start_in_order logDir byID env is m
           | Some svc \<Rightarrow>
              (case startProcess logDir (turn_spawn (env i)) (turn_now (env i)) svc [] m of
                 (Inl _, m1) \<Rightarrow>
                   (case start_in_order logDir byID env is m1 of (r, log, m2) \<Rightarrow> (r, i # log, m2))
               | (Inr _, m1) \<Rightarrow>
                   (case start_in_order logDir byID env is (meanwhile (env i) m1) of
                      (r, log, m2) \<Rightarrow> (r, i # log, m2))))"

definition StartAutostart ::
  "string \<Rightarrow> (string \<Rightarrow> turn) \<Rightarrow> manager \<Rightarrow> (manager_error + unit) \<times> string list \<times> manager" where
  "StartAutostart logDir env m =
     (case listServiceRecords (store m) of
        (Inl e, d) \<Rightarrow> (Inl (ListFailed e), [], m\<lparr> store := d \<rparr>)
      | (Inr records, d) \<Rightarrow>
         (let autostart = map fromRecord (filter rec_Autostart records); m1 = m\<lparr> store := d \<rparr> in
          if autostart = [] then (Inr (), [], m1)
          else (case TopoSort autostart of
                  None \<Rightarrow> (Inr (), [], m1)
                | Some (Inl e) \<Rightarrow> (Inl (CyclicDependencies e), [], m1)
                | Some (Inr order) \<Rightarrow>
                    start_in_order logDir (map_of (rev (map (\<lambda>s. (svc_ID s, s)) autostart))) env order m1)))"

section \<open>The restart budget\<close>

text \<open>
  A service whose process keeps exiting.  Each time \<open>awaitExit\<close> runs for the process that the manager then has
  for the service; \<open>cr_then\<close> is what the rest of the daemon does until the next exit.  The result lists
  the two clock readings of the exits after which the manager has a process of the service again; it ends at
  the first exit after which it has none.
\<close>

record crash =
  cr_spawn :: spawn
  cr_now :: int
  cr_now' :: int
  cr_code :: int
  cr_then :: "manager \<Rightarrow> manager"

fun crash_run :: "string \<Rightarrow> string \<Rightarrow> crash list \<Rightarrow> manager \<Rightarrow> (int \<times> int) list" where
  "crash_run logDir i [] m = []"
| "crash_run logDir i (e # es) m =
     (case procs m i of
        None \<Rightarrow> []
      | Some rp \<Rightarrow>
         (let m1 = awaitExit logDir (cr_spawn e) (cr_now e) (cr_now' e) (cr_code e) rp m
          in if procs m1 i = None then []
             else (cr_now e, cr_now' e) # crash_run logDir i es (cr_then e m1)))"

fun clock_ok :: "int \<Rightarrow> crash list \<Rightarrow> bool" where
  "clock_ok c [] = True"
| "clock_ok c (e # es) = (c \<le> cr_now' e \<and> clock_ok (cr_now' e) es)"

text \<open>What the rest of the daemon does is no call for this service.\<close>

definition undisturbed :: "string \<Rightarrow> crash list \<Rightarrow> bool" where
  "undisturbed i es \<longleftrightarrow> (\<forall>e \<in> set es. \<forall>m. procs (cr_then e m) i = procs m i)"

definition window_of :: "service \<Rightarrow> int" where
  "window_of s = (if svc_RestartWindow s \<le> 0 then defaultRestartWindow else svc_RestartWindow s)"

lemma prune_eq: "pruneRestartWindow now ts (svc_RestartWindow s) = filter (\<lambda>t. now - window_of s < t) ts"
  by (simp add: pruneRestartWindow_def window_of_def Let_def)

lemma exit_decision_Relaunch:
  assumes "exit_decision now now' code rp = Relaunch svc ts"
  shows "svc = exited_service now code (rp_svc rp)"
    "ts = filter (\<lambda>t. now' - window_of (rp_svc rp) < t) (rp_restartTimes rp @ [now])"
    "int (length ts) \<le> svc_MaxRestarts (rp_svc rp)"
  using assms by (auto simp: exit_decision_def Let_def exited_service_def prune_eq split: if_splits)

text \<open>The process that is there after an exit is a new one of the same service, with the restart times that were decided on.\<close>

lemma awaitExit_relaunch:
  assumes "svc_ID (rp_svc rp) = i" "procs (awaitExit logDir sp now now' code rp m) i = Some rp'"
  obtains svc ts where "exit_decision now now' code rp = Relaunch svc ts" "rp_restartTimes rp' = ts" "svc_ID (rp_svc rp') = i"
    "window_of (rp_svc rp') = window_of (rp_svc rp)" "svc_MaxRestarts (rp_svc rp') = svc_MaxRestarts (rp_svc rp)"
proof (cases "exit_decision now now' code rp")
  case (Settle s)
  then show ?thesis using assms by (simp add: awaitExit_def Let_def persist_def collect_exit_def)
next
  case (Relaunch svc ts)
  note d = exit_decision_Relaunch(1) [OF this]
  show ?thesis
  proof (rule that [OF Relaunch])
    show "rp_restartTimes rp' = ts" "svc_ID (rp_svc rp') = i" "window_of (rp_svc rp') = window_of (rp_svc rp)"
      "svc_MaxRestarts (rp_svc rp') = svc_MaxRestarts (rp_svc rp)"
      using assms Relaunch by (cases sp; auto simp: awaitExit_def Let_def persist_def collect_exit_def startProcess_def d
          exited_service_def started_service_def window_of_def)+
  qed
qed

lemma crash_run_budget:
  assumes "procs m i = Some rp" "svc_ID (rp_svc rp) = i" "undisturbed i es"
    and "rp_restartTimes rp = filter (\<lambda>t. c - window_of (rp_svc rp) < t) hist" "clock_ok c es"
    and "n < length (crash_run logDir i es m)"
  shows "int (length (filter (\<lambda>t. snd (crash_run logDir i es m ! n) - window_of (rp_svc rp) < t)
      (hist @ map fst (take (Suc n) (crash_run logDir i es m))))) \<le> svc_MaxRestarts (rp_svc rp)"
  using assms
proof (induction es arbitrary: m rp c hist n)
  case (Cons e es)
  let ?now = "cr_now e" and ?now' = "cr_now' e" and ?w = "window_of (rp_svc rp)"
  let ?m1 = "awaitExit logDir (cr_spawn e) ?now ?now' (cr_code e) rp m"
  let ?R = "crash_run logDir i es (cr_then e ?m1)"
  from Cons.prems(1,6) have "procs ?m1 i \<noteq> None" by (auto simp: Let_def split: if_splits)
  then obtain rp' where rp': "procs ?m1 i = Some rp'" by blast
  then have R: "crash_run logDir i (e # es) m = (?now, ?now') # ?R" using Cons.prems(1) by simp
  obtain svc ts where d: "exit_decision ?now ?now' (cr_code e) rp = Relaunch svc ts" "rp_restartTimes rp' = ts"
    and same: "svc_ID (rp_svc rp') = i" "window_of (rp_svc rp') = ?w" "svc_MaxRestarts (rp_svc rp') = svc_MaxRestarts (rp_svc rp)"
    by (rule awaitExit_relaunch [OF Cons.prems(2) rp'])
  have le: "c \<le> ?now'" "clock_ok ?now' es" using Cons.prems(5) by simp_all
  have ts: "ts = filter (\<lambda>t. ?now' - ?w < t) (hist @ [?now])"
    using exit_decision_Relaunch(2) [OF d(1)] Cons.prems(4) le(1) by (auto intro: filter_cong)
  show ?case
  proof (cases n)
    case 0
    then show ?thesis using exit_decision_Relaunch(3) [OF d(1)] ts by (simp add: R del: crash_run.simps)
  next
    case (Suc k)
    then have k: "k < length ?R" using Cons.prems(6) by (simp add: R del: crash_run.simps)
    have p: "procs (cr_then e ?m1) i = Some rp'" "undisturbed i es" using Cons.prems(3) rp' by (simp_all add: undisturbed_def)
    from Cons.IH [OF p(1) same(1) p(2) _ le(2) k, of "hist @ [?now]"] d(2) ts same
    have "int (length (filter (\<lambda>t. snd (?R ! k) - ?w < t)
      ((hist @ [?now]) @ map fst (take (Suc k) ?R)))) \<le> svc_MaxRestarts (rp_svc rp)" by simp
    then show ?thesis using Suc by (simp add: R del: crash_run.simps)
  qed
qed simp

text \<open>C9: However a service crashes, the manager starts it again on its own at most \<open>MaxRestarts\<close> times within
  any of its restart windows: at each automatic restart, the restarts since the service was started whose exit
  lies in the window that ends then, this one included, do not exceed the budget (clock readings not going
  backwards, and nobody else stopping or starting the service in between).\<close>

theorem restart_budget_respected:
  assumes "procs m i = Some rp" "svc_ID (rp_svc rp) = i" "rp_restartTimes rp = []" "undisturbed i es" "clock_ok c es"
    and "n < length (crash_run logDir i es m)"
  shows "let R = crash_run logDir i es m in
    int (length (filter (\<lambda>(now, _). snd (R ! n) - window_of (rp_svc rp) < now) (take (Suc n) R)))
      \<le> svc_MaxRestarts (rp_svc rp)"
proof -
  from crash_run_budget [of m i rp es c "[]" n logDir] assms show ?thesis
    by (simp add: filter_map comp_def case_prod_unfold Let_def del: take_Suc)
qed

section \<open>One caller at a time\<close>

text \<open>The map and the live processes agree: one process per service id, and it is the one in the map.\<close>

definition tracked :: "manager \<Rightarrow> bool" where
  "tracked m \<longleftrightarrow>
     distinct (map rp_pid (alive m)) \<and>
     (\<forall>i rp. procs m i = Some rp \<longleftrightarrow> rp \<in> set (alive m) \<and> svc_ID (rp_svc rp) = i)"

definition fresh_spawn :: "spawn \<Rightarrow> manager \<Rightarrow> bool" where
  "fresh_spawn sp m \<longleftrightarrow> (\<forall>pid. sp = Inr pid \<longrightarrow> pid \<notin> rp_pid ` set (alive m))"

lemma persist_simps [simp]: "procs (persist now s m) = procs m" "alive (persist now s m) = alive m"
  by (simp_all add: persist_def)

lemma tracked_cong: "procs m = procs m' \<Longrightarrow> alive m = alive m' \<Longrightarrow> tracked m \<longleftrightarrow> tracked m'"
  by (simp add: tracked_def)

lemma startProcess_tracked:
  assumes "tracked m" "procs m (svc_ID svc) = None" "fresh_spawn sp m"
  shows "tracked (snd (startProcess logDir sp now svc ts m))"
proof (cases sp)
  case (Inr pid)
  define rp where "rp = \<lparr> rp_svc = started_service logDir now pid svc, rp_pid = pid,
    rp_stopRequested = False, rp_restartTimes = ts \<rparr>"
  have id: "svc_ID (rp_svc rp) = svc_ID svc" by (simp add: rp_def started_service_def)
  have none: "\<forall>p \<in> set (alive m). svc_ID (rp_svc p) \<noteq> svc_ID svc"
    using assms(1,2) by (metis option.distinct(1) tracked_def)
  have "pid \<notin> rp_pid ` set (alive m)" using assms(3) Inr by (simp add: fresh_spawn_def)
  then have "tracked (m\<lparr> procs := (procs m)(svc_ID svc := Some rp), alive := alive m @ [rp] \<rparr>)"
    using assms(1) none id by (auto simp: tracked_def rp_def)
  then show ?thesis
    using tracked_cong [OF persist_simps] by (simp add: startProcess_def Inr Let_def rp_def)
qed (simp add: startProcess_def assms(1))

lemma tracked_unique:
  "tracked m \<Longrightarrow> p \<in> set (alive m) \<Longrightarrow> q \<in> set (alive m) \<Longrightarrow> svc_ID (rp_svc p) = svc_ID (rp_svc q) \<Longrightarrow> p = q"
  by (metis option.inject tracked_def)

lemma pid_unique:
  "tracked m \<Longrightarrow> p \<in> set (alive m) \<Longrightarrow> q \<in> set (alive m) \<Longrightarrow> rp_pid p = rp_pid q \<Longrightarrow> p = q"
  by (auto simp: tracked_def distinct_map inj_on_def)

lemma collect_exit_tracked:
  assumes "tracked m" "rp \<in> set (alive m)"
  shows "tracked (collect_exit rp m)" "procs (collect_exit rp m) (svc_ID (rp_svc rp)) = None"
proof -
  have "procs (collect_exit rp m) i = Some p \<longleftrightarrow> p \<in> set (alive (collect_exit rp m)) \<and> svc_ID (rp_svc p) = i" for i p
  proof -
    have "p \<in> set (alive m) \<Longrightarrow> rp_pid p \<noteq> rp_pid rp \<longleftrightarrow> svc_ID (rp_svc p) \<noteq> svc_ID (rp_svc rp)"
      using tracked_unique [OF assms(1) _ assms(2)] pid_unique [OF assms(1) _ assms(2)] by metis
    with assms(1) show ?thesis by (auto simp: collect_exit_def tracked_def)
  qed
  with assms(1) show "tracked (collect_exit rp m)"
    by (auto simp: tracked_def collect_exit_def distinct_map_filter)
qed (simp add: collect_exit_def)

lemma awaitExit_tracked:
  assumes "tracked m" "rp \<in> set (alive m)" "fresh_spawn sp m"
  shows "tracked (awaitExit logDir sp now now' code rp m)"
proof (cases "exit_decision now now' code rp")
  case (Settle s)
  with collect_exit_tracked [OF assms(1,2)] show ?thesis
    by (simp add: awaitExit_def Let_def tracked_cong [of "persist now' s (collect_exit rp m)" "collect_exit rp m"])
next
  case (Relaunch svc ts)
  have "svc_ID svc = svc_ID (rp_svc rp)"
    using exit_decision_Relaunch(1) [OF Relaunch] by (simp add: exited_service_def)
  moreover have "fresh_spawn sp (collect_exit rp m)" using assms(3) by (auto simp: fresh_spawn_def collect_exit_def)
  ultimately have t: "tracked (snd (startProcess logDir sp now' svc ts (collect_exit rp m)))"
    using collect_exit_tracked [OF assms(1,2)] by (intro startProcess_tracked) simp_all
  then show ?thesis
    using tracked_cong [OF persist_simps]
    by (auto simp: awaitExit_def Let_def Relaunch split: prod.splits sum.splits)
qed

lemma stop_request_tracked:
  assumes "tracked m" "stop_request i m = (Inr rp, m')"
  shows "tracked m'" "rp \<in> set (alive m')" "rp_stopRequested rp" "svc_ID (rp_svc rp) = i"
proof -
  from assms(2) obtain q where q: "procs m i = Some q" and rp: "rp = q\<lparr> rp_stopRequested := True \<rparr>"
    and m': "m' = m\<lparr> procs := (procs m)(i := Some rp), alive := map (\<lambda>p. if rp_pid p = rp_pid q then rp else p) (alive m) \<rparr>"
    by (auto simp: stop_request_def Let_def split: option.splits)
  from assms(1) q have qa: "q \<in> set (alive m)" "svc_ID (rp_svc q) = i" by (auto simp: tracked_def)
  show "rp_stopRequested rp" "svc_ID (rp_svc rp) = i" by (simp_all add: rp qa)
  show "rp \<in> set (alive m')" using qa by (auto simp: m' intro: image_eqI [of _ _ q])
  have pids: "map rp_pid (alive m') = map rp_pid (alive m)" by (simp add: m' rp)
  have "procs m' j = Some p \<longleftrightarrow> p \<in> set (alive m') \<and> svc_ID (rp_svc p) = j" for j p
  proof -
    have "p \<in> set (alive m') \<longleftrightarrow> p = rp \<or> p \<in> set (alive m) \<and> rp_pid p \<noteq> rp_pid q"
      using qa(1) by (auto simp: m')
    moreover have "p \<in> set (alive m) \<Longrightarrow> rp_pid p \<noteq> rp_pid q \<longleftrightarrow> svc_ID (rp_svc p) \<noteq> i"
      using tracked_unique [OF assms(1) _ qa(1)] pid_unique [OF assms(1) _ qa(1)] qa(2) by metis
    ultimately show ?thesis using assms(1) qa by (auto simp: m' rp tracked_def)
  qed
  with assms(1) pids show "tracked m'" by (simp add: tracked_def)
qed

lemma stopped_settles:
  assumes "rp_stopRequested rp"
  shows "awaitExit logDir sp now now' code rp m =
    persist now' ((exited_service now code (rp_svc rp))\<lparr> svc_Status := StatusStopped \<rparr>) (collect_exit rp m)"
  using assms by (simp add: awaitExit_def exit_decision_def Let_def)

lemma stop_request_pids:
  "stop_request i m = (r, m') \<Longrightarrow> rp_pid ` set (alive m') = rp_pid ` set (alive m)"
proof -
  assume "stop_request i m = (r, m')"
  then have "map rp_pid (alive m') = map rp_pid (alive m)"
    by (auto simp: stop_request_def Let_def split: option.splits)
  then show ?thesis by (metis set_map)
qed

text \<open>What \<open>Stop\<close> leaves, whether or not the kill reported an error.\<close>

lemma mgr_Stop_cases:
  assumes "mgr_Stop logDir now graceful timeout sg i m = (r, m')"
  shows "procs m i = None \<and> r = Inl (NotRunning i) \<and> m' = m \<or>
    (\<exists>rp m1 code. stop_request i m = (Inr rp, m1) \<and> m' = awaitExit logDir (respawn sg) now now code rp m1 \<and>
       (r = Inr () \<or> (\<exists>msg. r = Inl (KillFailed msg))))"
  using assms
  by (auto simp: mgr_Stop_def Let_def stop_request_def split: option.splits prod.splits)

lemma mgr_Stop_tracked:
  assumes "tracked m" "mgr_Stop logDir now graceful timeout sg i m = (r, m')" "r \<noteq> Inl (NotRunning i)"
  shows "tracked m'" "procs m' i = None" "rp_pid ` set (alive m') \<subseteq> rp_pid ` set (alive m)"
    "\<forall>p \<in> set (alive m). svc_ID (rp_svc p) \<noteq> i \<longrightarrow> p \<in> set (alive m')"
proof -
  from mgr_Stop_cases [OF assms(2)] assms(3) obtain rp m1 code
    where s: "stop_request i m = (Inr rp, m1)" and m': "m' = awaitExit logDir (respawn sg) now now code rp m1"
    by blast
  note t = stop_request_tracked [OF assms(1) s]
  have eq: "procs m' = procs (collect_exit rp m1)" "alive m' = alive (collect_exit rp m1)"
    by (simp_all add: m' stopped_settles [OF t(3)])
  show "tracked m'" "procs m' i = None"
    using collect_exit_tracked [OF t(1,2)] t(4) tracked_cong [OF eq] eq(1) by simp_all
  show "rp_pid ` set (alive m') \<subseteq> rp_pid ` set (alive m)"
    using stop_request_pids [OF s] by (auto simp: eq collect_exit_def)
  from s obtain q where q: "procs m i = Some q" "rp = q\<lparr> rp_stopRequested := True \<rparr>"
    "alive m1 = map (\<lambda>p. if rp_pid p = rp_pid q then rp else p) (alive m)"
    by (auto simp: stop_request_def Let_def split: option.splits)
  have "q \<in> set (alive m)" "svc_ID (rp_svc q) = i" using q(1) assms(1) by (auto simp: tracked_def)
  then show "\<forall>p \<in> set (alive m). svc_ID (rp_svc p) \<noteq> i \<longrightarrow> p \<in> set (alive m')"
    using pid_unique [OF assms(1)] by (fastforce simp: eq collect_exit_def q(2,3))
qed

lemma GetServiceRecord_id: "fst (GetServiceRecord i d) = Some rec \<Longrightarrow> rec_ID rec = i"
  by (cases d rule: tick_cases)
    (auto simp: GetServiceRecord_def getServiceRecord_def sql_query_row_def sql_query_def go_bind_def
      scanServiceRecord_def text_col_def by_id_def split: list.splits if_splits dest!: filter_eq_ConsD)

lemma mgr_Restart_tracked:
  assumes "tracked m" "fresh_spawn sp m"
  shows "tracked (snd (mgr_Restart logDir sp now sg i m))"
proof (cases "procs m i")
  case None
  obtain rec d where g: "GetServiceRecord i (store m) = (rec, d)" by force
  have t: "tracked (m\<lparr> store := d \<rparr>)" using assms(1) by (simp add: tracked_def)
  show ?thesis
  proof (cases rec)
    case None
    with \<open>procs m i = None\<close> g t show ?thesis by (simp add: mgr_Restart_def)
  next
    case (Some r)
    have "svc_ID (fromRecord r) = i"
      using GetServiceRecord_id [of i "store m" r] g Some by (simp add: fromRecord_def)
    with \<open>procs m i = None\<close> t assms(2) have "tracked (snd (startProcess logDir sp now (fromRecord r) [] (m\<lparr> store := d \<rparr>)))"
      by (intro startProcess_tracked) (simp_all add: fresh_spawn_def)
    with \<open>procs m i = None\<close> g Some show ?thesis by (simp add: mgr_Restart_def)
  qed
next
  case (Some rp)
  obtain r m1 where s: "mgr_Stop logDir now True 0 sg i m = (r, m1)" by force
  have "r \<noteq> Inl (NotRunning i)" using mgr_Stop_cases [OF s] Some by auto
  note st = mgr_Stop_tracked [OF assms(1) s this]
  have "svc_ID (rp_svc rp) = i" using assms(1) Some by (auto simp: tracked_def)
  moreover have "fresh_spawn sp m1" using st(3) assms(2) by (auto simp: fresh_spawn_def)
  ultimately have "tracked (snd (startProcess logDir sp now (rp_svc rp) [] m1))"
    using st(1,2) by (intro startProcess_tracked) simp_all
  with st(1) show ?thesis by (cases r) (simp_all add: mgr_Restart_def Some s)
qed

text \<open>The states reached by calls that do not overlap, and by processes that exit on their own.\<close>

inductive seq_reach :: "string \<Rightarrow> manager \<Rightarrow> manager \<Rightarrow> bool" for logDir :: string and m0 :: manager where
  seq_init: "seq_reach logDir m0 m0"
| seq_start: "seq_reach logDir m0 m \<Longrightarrow> fresh_spawn sp m \<Longrightarrow> seq_reach logDir m0 (snd (mgr_Start logDir sp now req m))"
| seq_exit: "seq_reach logDir m0 m \<Longrightarrow> rp \<in> set (alive m) \<Longrightarrow> fresh_spawn sp m \<Longrightarrow>
    seq_reach logDir m0 (awaitExit logDir sp now now' code rp m)"
| seq_stop: "seq_reach logDir m0 m \<Longrightarrow> seq_reach logDir m0 (snd (mgr_Stop logDir now graceful timeout sg i m))"
| seq_restart: "seq_reach logDir m0 m \<Longrightarrow> fresh_spawn sp m \<Longrightarrow>
    seq_reach logDir m0 (snd (mgr_Restart logDir sp now sg i m))"

lemma mgr_Start_tracked:
  assumes "tracked m" "fresh_spawn sp m"
  shows "tracked (snd (mgr_Start logDir sp now req m))"
proof (cases "start_check req m")
  case None
  then have "procs m (svc_ID (toService req)) = None"
    by (auto simp: start_check_def toService_def split: if_splits)
  with startProcess_tracked [OF assms(1) this assms(2)] None show ?thesis by (simp add: mgr_Start_def)
qed (simp add: mgr_Start_def assms(1))

lemma seq_reach_tracked: "seq_reach logDir m0 m \<Longrightarrow> tracked m0 \<Longrightarrow> tracked m"
proof (induction rule: seq_reach.induct)
  case (seq_stop m now graceful timeout sg i)
  obtain r m' where s: "mgr_Stop logDir now graceful timeout sg i m = (r, m')" by force
  show ?case
  proof (cases "r = Inl (NotRunning i)")
    case True
    with mgr_Stop_cases [OF s] seq_stop s show ?thesis by auto
  next
    case False
    with mgr_Stop_tracked(1) [OF _ s False] seq_stop s show ?thesis by simp
  qed
qed (simp_all add: mgr_Start_tracked awaitExit_tracked mgr_Restart_tracked)

text \<open>C15: As long as calls do not overlap, every live process the manager has started is the one its map
  holds for that service, and no service ever has two live processes, through any sequence of
  starts, restarts, stops, crashes and automatic restarts.\<close>

theorem one_live_process_per_service:
  assumes "seq_reach logDir m0 m" "tracked m0"
  shows "(\<forall>p \<in> set (alive m). procs m (svc_ID (rp_svc p)) = Some p) \<and>
    (\<forall>p \<in> set (alive m). \<forall>q \<in> set (alive m). svc_ID (rp_svc p) = svc_ID (rp_svc q) \<longrightarrow> p = q) \<and>
    (\<forall>i svc. mgr_Get i m = Some svc \<longrightarrow> (\<exists>p \<in> set (alive m). rp_svc p = svc \<and> svc_ID svc = i))"
proof -
  have t: "tracked m" using seq_reach_tracked assms by blast
  then show ?thesis using tracked_unique [OF t] by (auto simp: tracked_def mgr_Get_def)
qed

text \<open>The timeout a caller who gives none waits: the service's own, or five seconds.\<close>

definition default_stop_timeout :: "string \<Rightarrow> manager \<Rightarrow> int" where
  "default_stop_timeout i m =
     (case mgr_Get i m of
        None \<Rightarrow> defaultGracefulTimeout
      | Some svc \<Rightarrow> if svc_GracefulTimeout svc \<le> 0 then defaultGracefulTimeout else svc_GracefulTimeout svc)"

text \<open>C31: A stop, graceful or not, that finds the service running leaves no live process of it and no
  entry for it, whatever its restart policy, starts no process, and touches no other service; it
  never restarts what it was asked to stop.  It fails exactly when it has to kill, at once or because
  the process outlived its timeout, and the kill reports an error.\<close>

theorem stop_leaves_no_process:
  assumes "tracked m" "mgr_Get i m \<noteq> None"
  shows "let (r, m') = mgr_Stop logDir now graceful timeout sg i m in
    mgr_Get i m' = None \<and> (\<forall>p \<in> set (alive m'). svc_ID (rp_svc p) \<noteq> i) \<and>
    rp_pid ` set (alive m') \<subseteq> rp_pid ` set (alive m) \<and>
    (\<forall>p \<in> set (alive m). svc_ID (rp_svc p) \<noteq> i \<longrightarrow> p \<in> set (alive m')) \<and>
    (is_ok r \<longleftrightarrow> fst (stop_exit graceful (if 0 < timeout then timeout else default_stop_timeout i m) sg) = None)"
proof -
  obtain r m' where s: "mgr_Stop logDir now graceful timeout sg i m = (r, m')" by force
  have "procs m i \<noteq> None" using assms(2) by (simp add: mgr_Get_def)
  then have "r \<noteq> Inl (NotRunning i)" using mgr_Stop_cases [OF s] by auto
  note st = mgr_Stop_tracked [OF assms(1) s this]
  have "\<forall>p \<in> set (alive m'). svc_ID (rp_svc p) \<noteq> i" using st(1,2) by (metis option.distinct(1) tracked_def)
  moreover have "is_ok r \<longleftrightarrow> fst (stop_exit graceful (if 0 < timeout then timeout else default_stop_timeout i m) sg) = None"
    using s \<open>procs m i \<noteq> None\<close>
    by (auto simp: mgr_Stop_def stop_request_def stop_timeout_def default_stop_timeout_def Let_def mgr_Get_def
        split: option.splits prod.splits)
  ultimately show ?thesis using st s by (simp add: mgr_Get_def)
qed

section \<open>The order of an autostart\<close>

text \<open>What the loop starts is what it was given, less the ids it skipped.\<close>

lemma start_in_order_subseq: "start_in_order logDir byID env is m = (r, log, m') \<Longrightarrow> subseq log is"
proof (induction "is" arbitrary: m r log m')
  case (Cons i "is")
  then show ?case
    by (auto split: if_splits option.splits prod.splits sum.splits intro: Cons.IH list_emb_Cons)
qed simp

definition leaves_alone :: "(string \<Rightarrow> turn) \<Rightarrow> bool" where
  "leaves_alone env \<longleftrightarrow> (\<forall>i m j. procs (meanwhile (env i) m) j \<noteq> None \<longrightarrow> procs m j \<noteq> None)"

lemma start_in_order_all:
  assumes "\<forall>i \<in> set is. \<not> ctx_done (env i) \<and> (\<exists>svc. byID i = Some svc \<and> svc_ID svc = i)" "distinct is" "leaves_alone env"
    and "start_in_order logDir byID env is m = (r, log, m')"
  shows "r = Inr () \<and> (\<forall>i \<in> set is. procs m i = None \<longrightarrow> i \<in> set log)"
  using assms
proof (induction "is" arbitrary: m r log m')
  case (Cons i "is")
  from Cons.prems(1) obtain svc where i: "\<not> ctx_done (env i)" "byID i = Some svc" "svc_ID svc = i" by auto
  have rest: "\<forall>i \<in> set is. \<not> ctx_done (env i) \<and> (\<exists>svc. byID i = Some svc \<and> svc_ID svc = i)" "distinct is" "i \<notin> set is"
    using Cons.prems by simp_all
  note IH = Cons.IH [OF rest(1,2) Cons.prems(3)]
  show ?case
  proof (cases "mgr_Get i m = None")
    case False
    with Cons.prems(4) i IH [of m r log m'] show ?thesis by (auto simp: mgr_Get_def)
  next
    case True
    obtain res m1 where sp: "startProcess logDir (turn_spawn (env i)) (turn_now (env i)) svc [] m = (res, m1)" by force
    have m1: "procs m j = None \<Longrightarrow> j \<noteq> i \<Longrightarrow> procs m1 j = None" for j
      using sp i(3) by (cases "turn_spawn (env i)") (auto simp: startProcess_def Let_def)
    define m2 where "m2 = (if isl res then m1 else meanwhile (env i) m1)"
    have m2: "procs m j = None \<Longrightarrow> j \<noteq> i \<Longrightarrow> procs m2 j = None" for j
      using m1 [of j] Cons.prems(3) unfolding m2_def leaves_alone_def by metis
    obtain r' log' m'' where l: "start_in_order logDir byID env is m2 = (r', log', m'')" by (metis prod_cases3)
    have "r = r' \<and> log = i # log'"
      using Cons.prems(4) i True sp l by (cases res) (simp_all add: m2_def)
    with IH [OF l] m2 rest(3) show ?thesis by auto
  qed
qed simp

definition autostart_services :: "manager \<Rightarrow> service list" where
  "autostart_services m =
     (case fst (listServiceRecords (store m)) of Inl _ \<Rightarrow> [] | Inr rs \<Rightarrow> map fromRecord (filter rec_Autostart rs))"

lemma StartAutostart_eq:
  assumes "fst (listServiceRecords (store m)) = Inr rs"
  shows "\<exists>d. StartAutostart logDir env m =
    (let A = autostart_services m; m1 = m\<lparr> store := d \<rparr> in
       if A = [] then (Inr (), [], m1)
       else (case TopoSort A of None \<Rightarrow> (Inr (), [], m1)
             | Some (Inl e) \<Rightarrow> (Inl (CyclicDependencies e), [], m1)
             | Some (Inr order) \<Rightarrow> start_in_order logDir (map_of (rev (map (\<lambda>s. (svc_ID s, s)) A))) env order m1))"
proof -
  obtain d where "listServiceRecords (store m) = (Inr rs, d)" using assms by (metis prod.collapse)
  then show ?thesis by (auto simp: StartAutostart_def autostart_services_def Let_def)
qed

lemma map_of_by_id:
  assumes "distinct (map svc_ID A)" "s \<in> set A"
  shows "map_of (rev (map (\<lambda>s. (svc_ID s, s)) A)) (svc_ID s) = Some s"
proof -
  have "map fst (rev (map (\<lambda>s. (svc_ID s, s)) A)) = rev (map svc_ID A)" by (simp add: rev_map comp_def)
  then have "distinct (map fst (rev (map (\<lambda>s. (svc_ID s, s)) A)))" using assms(1) by (metis distinct_rev)
  then show ?thesis using assms(2) by (simp add: map_of_eq_Some_iff)
qed

text \<open>C37: An autostart begins its services in dependency order: a service is started before one of its
  dependencies only if that dependency is not started at all; a cyclic dependency starts nothing and
  is reported; and if the context is not cancelled and nothing else starts services meanwhile,
  every autostart service that was not running is started, whichever of the others fail.\<close>

theorem autostart_follows_dependencies:
  assumes "fst (listServiceRecords (store m)) = Inr rs" "distinct (map rec_ID rs)"
    and "StartAutostart logDir env m = (r, log, m')"
  shows "(\<forall>s \<in> set (autostart_services m). \<forall>d \<in> set (svc_DependsOn s).
       svc_ID s \<in> set log \<longrightarrow> d \<in> set log \<longrightarrow> precedes log d (svc_ID s)) \<and>
     distinct log \<and> set log \<subseteq> svc_ID ` set (autostart_services m) \<and>
     (\<not> acyclic (dep_edges (service_nodes (autostart_services m))) \<longrightarrow>
        log = [] \<and> alive m' = alive m \<and> (\<exists>stuck. r = Inl (CyclicDependencies (DependencyCycle stuck)))) \<and>
     (acyclic (dep_edges (service_nodes (autostart_services m))) \<longrightarrow>
        (\<forall>i. \<not> ctx_done (env i)) \<longrightarrow> leaves_alone env \<longrightarrow>
        r = Inr () \<and> (\<forall>s \<in> set (autostart_services m). mgr_Get (svc_ID s) m = None \<longrightarrow> svc_ID s \<in> set log))"
proof -
  define A where "A = autostart_services m"
  let ?E = "dep_edges (service_nodes A)"
  have "map svc_ID A = map rec_ID (filter rec_Autostart rs)"
    using assms(1) by (simp add: A_def autostart_services_def fromRecord_def)
  then have dist: "distinct (map svc_ID A)" using assms(2) by (simp add: distinct_map_filter)
  let ?by = "map_of (rev (map (\<lambda>s. (svc_ID s, s)) A))"
  obtain d where
    eq: "(r, log, m') = (let m1 = m\<lparr> store := d \<rparr> in
       if A = [] then (Inr (), [], m1)
       else (case TopoSort A of None \<Rightarrow> (Inr (), [], m1)
             | Some (Inl e) \<Rightarrow> (Inl (CyclicDependencies e), [], m1)
             | Some (Inr order) \<Rightarrow> start_in_order logDir ?by env order m1))"
    using StartAutostart_eq [OF assms(1), of logDir env] unfolding assms(3) Let_def A_def [symmetric] by blast
  from topo_sort_cases [OF dist] show ?thesis
  proof
    assume "\<exists>stuck. TopoSort A = Some (Inl (DependencyCycle stuck)) \<and> \<not> acyclic ?E"
    moreover from this have "A \<noteq> []" by (auto simp: service_nodes_def dep_edges_def present_ids_def acyclic_def)
    ultimately show ?thesis using eq by (auto simp: A_def [symmetric])
  next
    assume "\<exists>order. TopoSort A = Some (Inr order) \<and> acyclic ?E"
    then obtain order where o: "TopoSort A = Some (Inr order)" and ac: "acyclic ?E" by blast
    have sound: "mset order = mset (map svc_ID A)"
      "\<And>s d. s \<in> set A \<Longrightarrow> d \<in> set (svc_DependsOn s) \<Longrightarrow> d \<in> svc_ID ` set A \<Longrightarrow> precedes order d (svc_ID s)"
      using topo_sort_sound [OF dist o] by blast+
    have ord: "distinct order" "set order = svc_ID ` set A"
      using sound(1) dist by (metis mset_eq_imp_distinct_iff, metis mset_eq_setD set_map)
    have run: "start_in_order logDir ?by env order (m\<lparr> store := d \<rparr>) = (r, log, m')"
    proof (cases "A = []")
      case True
      with ord eq show ?thesis by simp
    qed (use eq o in simp)
    note sub = start_in_order_subseq [OF run]
    have "distinct log" "set log \<subseteq> svc_ID ` set A"
      using sub ord by (auto simp: subseq_conv_nths distinct_nthsI dest: in_set_nthsD)
    moreover have "precedes log d (svc_ID s)"
      if "s \<in> set A" "d \<in> set (svc_DependsOn s)" "svc_ID s \<in> set log" "d \<in> set log" for s d
      using precedes_subseq [OF sub _ ord(1)] sound(2) [OF that(1,2)] that(3,4) \<open>set log \<subseteq> _\<close> by blast
    moreover have "r = Inr () \<and> (\<forall>i \<in> set order. procs (m\<lparr> store := d \<rparr>) i = None \<longrightarrow> i \<in> set log)"
      if "\<forall>i. \<not> ctx_done (env i)" "leaves_alone env"
    proof (rule start_in_order_all [OF _ ord(1) that(2) run])
      show "\<forall>i \<in> set order. \<not> ctx_done (env i) \<and> (\<exists>svc. ?by i = Some svc \<and> svc_ID svc = i)"
        using that(1) ord(2) map_of_by_id [OF dist] by auto
    qed
    ultimately show ?thesis using ac ord(2) by (auto simp: A_def [symmetric] mgr_Get_def)
  qed
qed

section \<open>Every interleaving\<close>

text \<open>
  Starts that have passed the check of \<open>Start\<close>, or were decided by \<open>awaitExit\<close>, and have not
  installed their process yet are pending; every section of every goroutine is a step of its own.
\<close>

type_synonym pending = "(service \<times> int list) list"

inductive mgr_step :: "string \<Rightarrow> manager \<times> pending \<Rightarrow> manager \<times> pending \<Rightarrow> bool" for logDir :: string where
  step_check: "start_check req m = None \<Longrightarrow> mgr_step logDir (m, ps) (m, ps @ [(toService req, [])])"
| step_install: "(svc, ts) \<in> set ps \<Longrightarrow> fresh_spawn sp m \<Longrightarrow>
    mgr_step logDir (m, ps) (snd (startProcess logDir sp now svc ts m), remove1 (svc, ts) ps)"
| step_settle: "rp \<in> set (alive m) \<Longrightarrow> exit_decision now now' code rp = Settle svc \<Longrightarrow>
    mgr_step logDir (m, ps) (persist now' svc (collect_exit rp m), ps)"
| step_relaunch: "rp \<in> set (alive m) \<Longrightarrow> exit_decision now now' code rp = Relaunch svc ts \<Longrightarrow>
    mgr_step logDir (m, ps) (collect_exit rp m, ps @ [(svc, ts)])"
| step_stop: "mgr_step logDir (m, ps) (snd (stop_request i m), ps)"

text \<open>Under every interleaving the map only holds live processes, under the id of their service.\<close>

definition map_live :: "manager \<Rightarrow> bool" where
  "map_live m \<longleftrightarrow> distinct (map rp_pid (alive m)) \<and>
     (\<forall>i rp. procs m i = Some rp \<longrightarrow> rp \<in> set (alive m) \<and> svc_ID (rp_svc rp) = i)"

lemma collect_exit_map_live:
  assumes "map_live m" "rp \<in> set (alive m)"
  shows "map_live (collect_exit rp m)"
proof -
  have "rp_pid p \<noteq> rp_pid rp" if "procs m i = Some p" "i \<noteq> svc_ID (rp_svc rp)" for i p
  proof
    assume "rp_pid p = rp_pid rp"
    moreover have "p \<in> set (alive m)" "svc_ID (rp_svc p) = i" using assms(1) that(1) by (auto simp: map_live_def)
    ultimately have "p = rp" using assms by (auto simp: map_live_def distinct_map inj_on_def)
    with that(2) \<open>svc_ID (rp_svc p) = i\<close> show False by simp
  qed
  with assms(1) show ?thesis by (auto simp: map_live_def collect_exit_def distinct_map_filter)
qed

lemma startProcess_map_live:
  assumes "map_live m" "fresh_spawn sp m"
  shows "map_live (snd (startProcess logDir sp now svc ts m))"
  using assms
  by (cases sp) (auto simp: startProcess_def Let_def map_live_def fresh_spawn_def started_service_def)

lemma stop_request_map_live:
  assumes "map_live m"
  shows "map_live (snd (stop_request i m))"
proof (cases "procs m i")
  case (Some q)
  define rp where "rp = q\<lparr> rp_stopRequested := True \<rparr>"
  define al where "al = map (\<lambda>p. if rp_pid p = rp_pid q then rp else p) (alive m)"
  have q: "q \<in> set (alive m)" "svc_ID (rp_svc q) = i" using assms Some by (auto simp: map_live_def)
  have "map rp_pid al = map rp_pid (alive m)" by (simp add: al_def rp_def)
  then have "distinct (map rp_pid al)" using assms by (simp add: map_live_def)
  moreover have "rp \<in> set al" using q(1) by (auto simp: al_def intro: image_eqI [of _ _ q])
  moreover have "p \<in> set al \<and> svc_ID (rp_svc p) = j" if "procs m j = Some p" "j \<noteq> i" for j p
  proof -
    have p: "p \<in> set (alive m)" "svc_ID (rp_svc p) = j" using assms that(1) by (auto simp: map_live_def)
    with q that(2) have "rp_pid p \<noteq> rp_pid q" using assms by (auto simp: map_live_def distinct_map inj_on_def)
    with p show ?thesis by (auto simp: al_def intro: image_eqI [of _ _ p])
  qed
  moreover have "svc_ID (rp_svc rp) = i" using q by (simp add: rp_def)
  moreover have "snd (stop_request i m) = m\<lparr> procs := (procs m)(i := Some rp), alive := al \<rparr>"
    by (simp add: stop_request_def Some Let_def rp_def al_def)
  ultimately show ?thesis by (simp add: map_live_def)
qed (simp add: stop_request_def assms)

lemma mgr_step_map_live: "mgr_step logDir x y \<Longrightarrow> map_live (fst x) \<Longrightarrow> map_live (fst y)"
proof (induction rule: mgr_step.induct)
  case (step_settle rp m now now' code svc ps)
  then show ?case using collect_exit_map_live [of m rp] by (simp add: map_live_def)
qed (simp_all add: startProcess_map_live stop_request_map_live collect_exit_map_live)

text \<open>Under every interleaving of starts, exits, restarts and stops, what \<open>Get\<close> reports for a
  service is a process that is alive and was started for that service.\<close>

theorem get_reports_live_process:
  assumes "(mgr_step logDir)\<^sup>*\<^sup>* (m0, ps0) (m, ps)" "map_live m0" "mgr_Get i m = Some svc"
  shows "\<exists>p \<in> set (alive m). rp_svc p = svc \<and> svc_ID svc = i"
proof -
  have "map_live (fst (m, ps))"
    using assms(1,2) by (induction rule: rtranclp_induct) (auto dest: mgr_step_map_live)
  with assms(3) show ?thesis by (auto simp: mgr_Get_def map_live_def)
qed

definition idle_manager :: manager where
  "idle_manager = \<lparr> procs = (\<lambda>_. None), alive = [], store = \<lparr> tables = (\<lambda>_. []), faults = [] \<rparr> \<rparr>"

text \<open>Two overlapping \<open>Start\<close> calls for one service both pass the check, and both processes run: the
  map holds the second one only, and after that is stopped the manager reports the service as not
  running, and refuses to stop it, while the first process is still alive.\<close>

theorem overlapping_starts_orphan_a_process:
  "\<exists>m n. (mgr_step ''/logs'')\<^sup>*\<^sup>* (idle_manager, []) (m, []) \<and>
     length (filter (\<lambda>p. svc_ID (rp_svc p) = ''a'') (alive m)) = 2 \<and>
     (mgr_step ''/logs'')\<^sup>*\<^sup>* (m, []) (n, []) \<and>
     mgr_Get ''a'' n = None \<and> fst (stop_request ''a'' n) = Inl (NotRunning ''a'') \<and>
     length (filter (\<lambda>p. svc_ID (rp_svc p) = ''a'') (alive n)) = 1"
proof -
  let ?s = "mgr_step ''/logs''" let ?svc = "toService demo_request"
  define m1 where "m1 = snd (startProcess ''/logs'' (Inr 10) 0 ?svc [] idle_manager)"
  define m where "m = snd (startProcess ''/logs'' (Inr 11) 0 ?svc [] m1)"
  define rp where "rp = \<lparr> rp_svc = started_service ''/logs'' 0 11 ?svc, rp_pid = 11, rp_stopRequested = False, rp_restartTimes = [] \<rparr>"
  define rp' where "rp' = rp\<lparr> rp_stopRequested := True \<rparr>"
  define m2 where "m2 = snd (stop_request ''a'' m)"
  define svc' where "svc' = (exited_service 1 0 (rp_svc rp))\<lparr> svc_Status := StatusStopped \<rparr>"
  define n where "n = persist 1 svc' (collect_exit rp' m2)"
  have id: "svc_ID ?svc = ''a''" by (simp add: toService_def demo_request_def)
  have chk: "start_check demo_request idle_manager = None"
    by (simp add: start_check_def idle_manager_def demo_request_def)
  have a1: "alive m1 = [\<lparr> rp_svc = started_service ''/logs'' 0 10 ?svc, rp_pid = 10, rp_stopRequested = False, rp_restartTimes = [] \<rparr>]"
    by (simp add: m1_def startProcess_def Let_def idle_manager_def)
  have am: "alive m = alive m1 @ [rp]" "procs m ''a'' = Some rp"
    by (simp_all add: m_def startProcess_def Let_def rp_def id)
  have a2: "alive m2 = alive m1 @ [rp']" "rp' \<in> set (alive m2)"
    by (simp_all add: m2_def stop_request_def Let_def am rp'_def) (simp_all add: a1 rp_def)
  have dec: "exit_decision 1 1 0 rp' = Settle svc'"
    by (simp add: exit_decision_def Let_def rp'_def svc'_def)
  have "?s (idle_manager, []) (idle_manager, [(?svc, [])])"
    using step_check [OF chk, of "''/logs''" "[]"] by simp
  moreover have "?s (idle_manager, [(?svc, [])]) (idle_manager, [(?svc, []), (?svc, [])])"
    using step_check [OF chk, of "''/logs''" "[(?svc, [])]"] by simp
  moreover have "?s (idle_manager, [(?svc, []), (?svc, [])]) (m1, [(?svc, [])])"
    using step_install [of ?svc "[]" "[(?svc, []), (?svc, [])]" "Inr 10" idle_manager "''/logs''" 0]
    by (simp add: m1_def fresh_spawn_def idle_manager_def)
  moreover have "?s (m1, [(?svc, [])]) (m, [])"
    using step_install [of ?svc "[]" "[(?svc, [])]" "Inr 11" m1 "''/logs''" 0]
    by (simp add: m_def fresh_spawn_def a1)
  ultimately have "?s\<^sup>*\<^sup>* (idle_manager, []) (m, [])" by (meson converse_rtranclp_into_rtranclp rtranclp.rtrancl_refl)
  moreover have "?s (m, []) (m2, [])" using step_stop [of "''/logs''" m "[]" "''a''"] by (simp add: m2_def)
  then have "?s\<^sup>*\<^sup>* (m, []) (n, [])"
    using step_settle [OF a2(2) dec, of "''/logs''" "[]"] unfolding n_def
    by (meson converse_rtranclp_into_rtranclp rtranclp.rtrancl_refl)
  moreover have "length (filter (\<lambda>p. svc_ID (rp_svc p) = ''a'') (alive m)) = 2"
    by (simp add: am a1 rp_def started_service_def id)
  moreover have "mgr_Get ''a'' n = None" "fst (stop_request ''a'' n) = Inl (NotRunning ''a'')"
    by (simp_all add: n_def mgr_Get_def stop_request_def collect_exit_def rp'_def rp_def started_service_def id)
  moreover have "length (filter (\<lambda>p. svc_ID (rp_svc p) = ''a'') (alive n)) = 1"
    by (simp add: n_def collect_exit_def a2 a1 rp'_def rp_def started_service_def id)
  ultimately show ?thesis by blast
qed

section \<open>The properties at concrete inputs\<close>

definition demo_proc :: running_proc where
  "demo_proc = \<lparr> rp_svc = (toService demo_request)\<lparr> svc_RestartPolicy := RestartAlways, svc_MaxRestarts := 2 \<rparr>,
     rp_pid = 7, rp_stopRequested = False, rp_restartTimes = [] \<rparr>"

definition demo_crash :: "int \<Rightarrow> int \<Rightarrow> crash" where
  "demo_crash t code = \<lparr> cr_spawn = Inr (7 + t), cr_now = t, cr_now' = t, cr_code = code, cr_then = (\<lambda>m. m) \<rparr>"

lemma restart_budget_respected_witness:
  "length (crash_run ''/logs'' ''a'' (map (demo_crash 1) [0, 1, 1, 1]) (idle_manager\<lparr> procs := [''a'' \<mapsto> demo_proc] \<rparr>)) = 2 \<and>
   length (filter (\<lambda>(now, _). 1 - window_of (rp_svc demo_proc) < now)
     (take 2 (crash_run ''/logs'' ''a'' (map (demo_crash 1) [0, 1, 1, 1]) (idle_manager\<lparr> procs := [''a'' \<mapsto> demo_proc] \<rparr>)))) \<le> 2"
proof -
  let ?m = "idle_manager\<lparr> procs := [''a'' \<mapsto> demo_proc] \<rparr>" and ?es = "map (demo_crash 1) [0, 1, 1, 1]"
  have r: "crash_run ''/logs'' ''a'' ?es ?m = [(1, 1), (1, 1)]" by code_simp
  have "procs ?m ''a'' = Some demo_proc" "svc_ID (rp_svc demo_proc) = ''a''" "rp_restartTimes demo_proc = []"
    "undisturbed ''a'' ?es" "clock_ok 0 ?es" "svc_MaxRestarts (rp_svc demo_proc) = 2"
    by (simp_all add: demo_proc_def demo_request_def toService_def undisturbed_def demo_crash_def)
  moreover have "1 < length (crash_run ''/logs'' ''a'' ?es ?m)" unfolding r by simp
  ultimately show ?thesis using restart_budget_respected [of ?m "''a''" demo_proc ?es 0 1 "''/logs''"] unfolding Let_def r by simp
qed

lemma started_demo:
  assumes "start_check demo_request m = None"
  shows "\<exists>svc. mgr_Get ''a'' (snd (mgr_Start l (Inr p) now demo_request m)) = Some svc"
  using assms by (simp add: mgr_Get_def mgr_Start_def startProcess_def Let_def toService_def demo_request_def)

lemma idle_tracked: "tracked idle_manager" "fresh_spawn sp idle_manager" "start_check demo_request idle_manager = None"
  by (simp_all add: tracked_def idle_manager_def fresh_spawn_def start_check_def demo_request_def)

lemma one_live_process_per_service_witness:
  "\<exists>m p. seq_reach ''/logs'' idle_manager m \<and> p \<in> set (alive m) \<and> svc_ID (rp_svc p) = ''a''"
proof -
  define m where "m = snd (mgr_Start ''/logs'' (Inr 7) 0 demo_request idle_manager)"
  have r: "seq_reach ''/logs'' idle_manager m" unfolding m_def by (intro seq_init seq_start idle_tracked)
  obtain svc where g: "mgr_Get ''a'' m = Some svc" unfolding m_def using started_demo [OF idle_tracked(3)] by blast
  note one_live_process_per_service [OF r idle_tracked(1)]
  then have "\<forall>i svc. mgr_Get i m = Some svc \<longrightarrow> (\<exists>p \<in> set (alive m). rp_svc p = svc \<and> svc_ID svc = i)"
    by (elim conjE)
  with g obtain p where "p \<in> set (alive m)" "rp_svc p = svc" "svc_ID svc = ''a''" by metis
  then have "p \<in> set (alive m)" "svc_ID (rp_svc p) = ''a''" by simp_all
  with r show ?thesis by metis
qed

lemma stop_leaves_no_process_witness:
  "\<exists>m r m'. mgr_Get ''a'' m \<noteq> None \<and>
     mgr_Stop ''/logs'' 5 True 1 \<lparr> on_term = IgnoresTerm, kill_error = None, kill_code = -1, respawn = Inr 8 \<rparr> ''a'' m = (r, m') \<and>
     mgr_Get ''a'' m' = None \<and> is_ok r"
proof -
  let ?m = "snd (mgr_Start ''/logs'' (Inr 7) 0 demo_request idle_manager)"
  let ?sg = "\<lparr> on_term = IgnoresTerm, kill_error = None, kill_code = -1, respawn = Inr 8 \<rparr>"
  have t: "tracked ?m" by (intro mgr_Start_tracked idle_tracked)
  have g: "mgr_Get ''a'' ?m \<noteq> None" using started_demo [OF idle_tracked(3)] by auto
  obtain r m' where "mgr_Stop ''/logs'' 5 True 1 ?sg ''a'' ?m = (r, m')" by force
  with stop_leaves_no_process [OF t g, of "''/logs''" 5 True 1 ?sg] g show ?thesis
    by (auto simp: stop_exit_def)
qed

lemma get_reports_live_process_witness:
  "\<exists>m svc. mgr_Get ''a'' m = Some svc \<and> (\<exists>p \<in> set (alive m). rp_svc p = svc)"
proof -
  let ?s = "mgr_step ''/logs''" let ?svc = "toService demo_request"
  let ?m = "snd (startProcess ''/logs'' (Inr 7) 0 ?svc [] idle_manager)"
  have "?s (idle_manager, []) (idle_manager, [(?svc, [])])"
    using step_check [OF idle_tracked(3), of "''/logs''" "[]"] by simp
  moreover have "?s (idle_manager, [(?svc, [])]) (?m, [])"
    using step_install [of ?svc "[]" "[(?svc, [])]" "Inr 7" idle_manager "''/logs''" 0] idle_tracked(2) by simp
  ultimately have r: "?s\<^sup>*\<^sup>* (idle_manager, []) (?m, [])"
    by (meson converse_rtranclp_into_rtranclp rtranclp.rtrancl_refl)
  have l: "map_live idle_manager" by (simp add: map_live_def idle_manager_def)
  obtain svc where g: "mgr_Get ''a'' ?m = Some svc"
    using started_demo [OF idle_tracked(3), of "''/logs''" 7 0] idle_tracked(3) by (auto simp: mgr_Start_def)
  from get_reports_live_process [OF r l g] g show ?thesis by blast
qed

definition demo_store :: db where
  "demo_store =
     snd (upsertServiceRecord 0 (toRecord (demo_service ''db'' []))
       (snd (upsertServiceRecord 0 (toRecord (demo_service ''web'' [''db''])) \<lparr> tables = (\<lambda>_. []), faults = [] \<rparr>)))"

definition demo_turn :: turn where
  "demo_turn = \<lparr> ctx_done = False, turn_spawn = Inl ''no such file'', turn_now = 0, meanwhile = (\<lambda>m. m) \<rparr>"

lemma autostart_follows_dependencies_witness:
  "\<exists>log. fst (snd (StartAutostart ''/logs'' (\<lambda>_. demo_turn) (idle_manager\<lparr> store := demo_store \<rparr>))) = log \<and>
     ''web'' \<in> set log \<and> precedes log ''db'' ''web''"
proof -
  define m where "m = idle_manager\<lparr> store := demo_store \<rparr>"
  let ?web = "toRecord (demo_service ''web'' [''db''])" let ?db = "toRecord (demo_service ''db'' [])"
  have l: "fst (listServiceRecords (store m)) = Inr [?web, ?db]"
    unfolding m_def by code_simp
  have d: "distinct (map rec_ID [?web, ?db])" by (simp add: toRecord_def)
  obtain r log m' where s: "StartAutostart ''/logs'' (\<lambda>_. demo_turn) m = (r, log, m')" by (metis prod_cases3)
  have A: "autostart_services m = [fromRecord ?web, fromRecord ?db]"
    by (simp add: autostart_services_def l toRecord_def demo_service_def toService_def)
  have top: "TopoSort [fromRecord ?web, fromRecord ?db] = Some (Inr [''db'', ''web''])"
    by (simp add: TopoSort_def fromRecord_def toRecord_def topo_sort_nodes_def present_ids_def kahn_loop.simps
        release_Cons Let_def)
  have ids: "svc_ID (fromRecord ?web) = ''web''" "svc_ID (fromRecord ?db) = ''db''"
    by (simp_all add: fromRecord_def toRecord_def)
  have none: "procs (m\<lparr> store := e \<rparr>) = (\<lambda>_. None)" for e by (simp add: m_def idle_manager_def)
  have turn: "\<not> ctx_done demo_turn" "turn_spawn demo_turn = Inl ''no such file''" by (simp_all add: demo_turn_def)
  obtain e where eq: "StartAutostart ''/logs'' (\<lambda>_. demo_turn) m = (let A = autostart_services m; m1 = m\<lparr> store := e \<rparr> in
       if A = [] then (Inr (), [], m1)
       else (case TopoSort A of None \<Rightarrow> (Inr (), [], m1)
             | Some (Inl e) \<Rightarrow> (Inl (CyclicDependencies e), [], m1)
             | Some (Inr order) \<Rightarrow>
                 start_in_order ''/logs'' (map_of (rev (map (\<lambda>s. (svc_ID s, s)) A))) (\<lambda>_. demo_turn) order m1))"
    using StartAutostart_eq [OF l, of "''/logs''" "\<lambda>_. demo_turn"] by blast
  have "fst (snd (StartAutostart ''/logs'' (\<lambda>_. demo_turn) m)) = [''db'', ''web'']"
    unfolding eq by (simp add: top A ids none turn Let_def mgr_Get_def startProcess_def)
  then have log: "log = [''db'', ''web'']" by (simp add: s)
  have "fromRecord ?web \<in> set (autostart_services m)"
    by (simp add: autostart_services_def l toRecord_def demo_service_def toService_def)
  moreover have "svc_ID (fromRecord ?web) = ''web''" "''db'' \<in> set (svc_DependsOn (fromRecord ?web))"
    by (simp_all add: fromRecord_def toRecord_def)
  ultimately have "precedes log ''db'' ''web''"
    using autostart_follows_dependencies [OF l d s] log by fastforce
  then show ?thesis using s log by (simp add: m_def)
qed

end
