(* ===== verification/Shell.thy ===== *)
theory Shell
  imports Prelude
begin

text \<open>
  The quoting of \<open>shQuote\<close> in \<open>internal/domain/deployment/engine.go\<close>, and the part of a POSIX shell's
  tokenizer it has to withstand: blanks, operators, backslashes and single quotes.  Every character
  of a word is marked as quoted or not, since only unquoted ones are subject to expansions.
\<close>

definition shQuote :: "string \<Rightarrow> string" where
  "shQuote s = CHR 0x27 # replace_all [CHR 0x27] [CHR 0x27, CHR 0x5C, CHR 0x27, CHR 0x27] s @ [CHR 0x27]"

section \<open>Tokens\<close>

datatype sh_token = Word "(bool \<times> char) list" | Op char

definition sh_operator :: "char \<Rightarrow> bool" where
  "sh_operator c \<longleftrightarrow> c \<in> {CHR '';'', CHR ''&'', CHR ''|'', CHR ''<'', CHR ''>'', CHR ''('', CHR '')'', CHR 0x0A}"

definition sh_blank :: "char \<Rightarrow> bool" where
  "sh_blank c \<longleftrightarrow> c = CHR '' '' \<or> c = CHR 0x09"

fun flush_word :: "(bool \<times> char) list option \<Rightarrow> sh_token list" where
  "flush_word None = []"
| "flush_word (Some w) = [Word w]"

fun word_chars :: "(bool \<times> char) list option \<Rightarrow> (bool \<times> char) list" where
  "word_chars None = []"
| "word_chars (Some w) = w"

text \<open>
  The flag tells whether the position is inside single quotes; an unterminated quote, a double quote
  or a comment is outside the fragment.
\<close>

fun sh_lex :: "bool \<Rightarrow> (bool \<times> char) list option \<Rightarrow> string \<Rightarrow> sh_token list option" where
  "sh_lex True w [] = None"
| "sh_lex True w (c # cs) =
     (if c = CHR 0x27 then sh_lex False w cs else sh_lex True (Some (word_chars w @ [(True, c)])) cs)"
| "sh_lex False w [] = Some (flush_word w)"
| "sh_lex False w (c # cs) =
     (if c = CHR 0x27 then sh_lex True (Some (word_chars w)) cs
      else if c = CHR 0x5C then
        (case cs of [] \<Rightarrow> None | d # ds \<Rightarrow> sh_lex False (Some (word_chars w @ [(True, d)])) ds)
      else if c = CHR 0x22 \<or> c = CHR ''#'' then None
      else if sh_blank c then map_option (\<lambda>ts. flush_word w @ ts) (sh_lex False None cs)
      else if sh_operator c then map_option (\<lambda>ts. flush_word w @ Op c # ts) (sh_lex False None cs)
      else sh_lex False (Some (word_chars w @ [(False, c)])) cs)"

definition sh_tokens :: "string \<Rightarrow> sh_token list option" where
  "sh_tokens s = sh_lex False None s"

definition plain :: "string \<Rightarrow> (bool \<times> char) list" where
  "plain s = map (\<lambda>c. (False, c)) s"

definition quoted :: "string \<Rightarrow> (bool \<times> char) list" where
  "quoted s = map (\<lambda>c. (True, c)) s"

section \<open>A quoted value is one word\<close>

lemma replace_all_quote:
  "replace_all [CHR 0x27] r s = concat (map (\<lambda>c. if c = CHR 0x27 then r else [c]) s)"
  by (induction s) (simp_all add: replace_all.simps [of "[CHR 0x27]" r "_ # _"] replace_all.simps [of _ _ "[]"] has_prefix_def)

lemma shQuote_Nil: "shQuote [] = [CHR 0x27, CHR 0x27]"
  by (simp add: shQuote_def replace_all_quote)

lemma sh_lex_inside:
  "sh_lex True (Some w) (concat (map (\<lambda>c. if c = CHR 0x27 then [CHR 0x27, CHR 0x5C, CHR 0x27, CHR 0x27] else [c]) s) @ CHR 0x27 # rest) =
   sh_lex False (Some (w @ quoted s)) rest"
  by (induction s arbitrary: w) (simp_all add: quoted_def)

text \<open>Whatever is quoted is appended to the current word, each character of it quoted, and nothing else happens.\<close>

lemma sh_lex_shQuote [simp]: "sh_lex False w (shQuote s @ rest) = sh_lex False (Some (word_chars w @ quoted s)) rest"
  by (simp add: shQuote_def replace_all_quote sh_lex_inside)

lemma sh_lex_shQuote_last [simp]: "sh_lex False w (shQuote s) = Some [Word (word_chars w @ quoted s)]"
  using sh_lex_shQuote [of w s "[]"] by simp

definition sh_plain_char :: "char \<Rightarrow> bool" where
  "sh_plain_char c \<longleftrightarrow> c \<noteq> CHR 0x27 \<and> c \<noteq> CHR 0x5C \<and> c \<noteq> CHR 0x22 \<and> c \<noteq> CHR ''#'' \<and> \<not> sh_blank c \<and> \<not> sh_operator c"

lemma sh_lex_plain_char [simp]:
  "sh_plain_char c \<Longrightarrow> sh_lex False w (c # cs) = sh_lex False (Some (word_chars w @ [(False, c)])) cs"
  by (simp add: sh_plain_char_def)

lemma sh_lex_space: "sh_lex False w (CHR '' '' # cs) = map_option (\<lambda>ts. flush_word w @ ts) (sh_lex False None cs)"
  by (simp add: sh_blank_def)

end
