(* ===== verification/Deployments.thy ===== *)
theory Deployments
  imports Servers Connections Shell
begin

text \<open>
  \<open>internal/domain/deployment\<close>: the deployment targets of a project, the recorded deployments, and the
  engine that deploys over a remote session and rolls back.

  The remote side is third-party code.  A session answers each command, given the commands it has
  run before, with standard output, standard error and possibly an error; the HTTP client answers a
  URL with a status code or an error, if the URL can be parsed; the secret store answers a reference.  What the driver's
  errors say is the argument \<open>drv\<close>.
\<close>

record target =
  tgt_ID :: string
  tgt_ProjectID :: string
  tgt_ServerID :: string
  tgt_RepoURL :: string
  tgt_IntegrationID :: string
  tgt_Branch :: string
  tgt_DeployPath :: string
  tgt_InstallCommand :: string
  tgt_RestartCommand :: string
  tgt_HealthCheckURL :: string
  tgt_CreatedAt :: int
  tgt_UpdatedAt :: int

record deployment =
  dep_ID :: string
  dep_ProjectID :: string
  dep_ServerID :: string
  dep_CommitSHA :: string
  dep_Branch :: string
  dep_Status :: string
  dep_StartedAt :: "int option"
  dep_FinishedAt :: "int option"
  dep_DurationMS :: int
  dep_LogRef :: string
  dep_CodeRollbackRef :: string
  dep_ArtifactRollbackRef :: string
  dep_MigrationRollbackSupported :: bool

text \<open>
  What becomes of a GET of a URL: \<open>NewRequestWithContext\<close> cannot parse the URL and gives no request, the client
  fails, or it delivers a status code.
\<close>

datatype http_answer = MalformedURL | NoAnswer string | Answered int

text \<open>\<open>NilRequest\<close> is no error of the code: it stands for the panic of handing the client a nil request.\<close>

datatype credential_error = NoIntegration integration_error | NoSecret string

datatype deploy_error =
    DeploymentNotFound
  | DeploymentSql sql_error
  | TargetLookup deploy_error
  | ServerLookup server_error
  | ConnectStep string
  | CredentialStep credential_error
  | CheckoutStep string
  | InstallStep string
  | RestartStep string
  | HealthStep string
  | HealthStatus int
  | NilRequest
  | NoRollbackRef string
  | NoTargetFor string
  | RollbackCheckoutStep string
  | LogUnreadable string

section \<open>Targets\<close>

definition scanTarget :: "row \<Rightarrow> target" where
  "scanTarget r =
     \<lparr> tgt_ID = text_col ''id'' r, tgt_ProjectID = text_col ''project_id'' r, tgt_ServerID = text_col ''server_id'' r,
       tgt_RepoURL = text_col ''repo_url'' r, tgt_IntegrationID = text_col ''integration_id'' r,
       tgt_Branch = text_col ''branch'' r, tgt_DeployPath = text_col ''deploy_path'' r,
       tgt_InstallCommand = text_col ''install_command'' r, tgt_RestartCommand = text_col ''restart_command'' r,
       tgt_HealthCheckURL = text_col ''health_check_url'' r,
       tgt_CreatedAt = time_col ''created_at'' r, tgt_UpdatedAt = time_col ''updated_at'' r \<rparr>"

definition target_cols :: "target \<Rightarrow> (string \<times> sqlval) list" where
  "target_cols t =
     [(''id'', Text (tgt_ID t)), (''project_id'', Text (tgt_ProjectID t)), (''server_id'', Text (tgt_ServerID t)),
      (''repo_url'', Text (tgt_RepoURL t)), (''integration_id'', nullable (tgt_IntegrationID t)),
      (''branch'', Text (tgt_Branch t)), (''deploy_path'', Text (tgt_DeployPath t)),
      (''install_command'', nullable (tgt_InstallCommand t)), (''restart_command'', nullable (tgt_RestartCommand t)),
      (''health_check_url'', nullable (tgt_HealthCheckURL t)),
      (''created_at'', rfc3339 (tgt_CreatedAt t)), (''updated_at'', rfc3339 (tgt_UpdatedAt t))]"

text \<open>\<open>Create\<close>; the request is the target it describes, whose id and times are filled in.\<close>

definition target_Create :: "string \<Rightarrow> int \<Rightarrow> target \<Rightarrow> db \<Rightarrow> (deploy_error + target) \<times> db" where
  "target_Create uuid now req d =
     (let t = req\<lparr> tgt_ID := uuid, tgt_Branch := (if tgt_Branch req = [] then ''main'' else tgt_Branch req),
                   tgt_CreatedAt := now, tgt_UpdatedAt := now \<rparr>
      in case sql_insert ''deployment_targets'' (target_cols t) d of
           (Inl e, d') \<Rightarrow> (Inl (DeploymentSql e), d')
         | (Inr _, d') \<Rightarrow> (Inr t, d'))"

definition target_Get :: "string \<Rightarrow> db \<Rightarrow> (deploy_error + target) \<times> db" where
  "target_Get = repo_get ''deployment_targets'' scanTarget DeploymentNotFound DeploymentSql"

definition target_ListByProject :: "string \<Rightarrow> db \<Rightarrow> (deploy_error + target list) \<times> db" where
  "target_ListByProject projectID =
     repo_list ''deployment_targets'' (\<lambda>r. r ''project_id'' = Text projectID) (order_by (stamp_col ''created_at''))
       scanTarget DeploymentSql"

definition target_Delete :: "string \<Rightarrow> db \<Rightarrow> (deploy_error + unit) \<times> db" where
  "target_Delete = repo_delete ''deployment_targets'' DeploymentNotFound DeploymentSql"

section \<open>The record of a deployment\<close>

definition deployment_cols :: "deployment \<Rightarrow> (string \<times> sqlval) list" where
  "deployment_cols d =
     [(''id'', Text (dep_ID d)), (''project_id'', Text (dep_ProjectID d)), (''server_id'', Text (dep_ServerID d)),
      (''commit_sha'', nullable (dep_CommitSHA d)), (''branch'', nullable (dep_Branch d)),
      (''status'', Text (dep_Status d)),
      (''started_at'', case dep_StartedAt d of None \<Rightarrow> Null | Some t \<Rightarrow> rfc3339 t),
      (''migration_rollback_supported'', Num 0)]"

definition deployment_create :: "deployment \<Rightarrow> db \<Rightarrow> (deploy_error + unit) \<times> db" where
  "deployment_create dep = map_err DeploymentSql (sql_insert ''deployments'' (deployment_cols dep))"

definition finish_cols :: "int \<Rightarrow> string \<Rightarrow> string \<Rightarrow> string \<Rightarrow> string \<Rightarrow> int \<Rightarrow> (string \<times> sqlval) list" where
  "finish_cols now status commitSHA codeRollbackRef logRef durationMS =
     [(''status'', Text status), (''finished_at'', rfc3339 now), (''duration_ms'', Num durationMS),
      (''commit_sha'', nullable commitSHA), (''code_rollback_ref'', nullable codeRollbackRef),
      (''log_ref'', nullable logRef)]"

definition deployment_finish ::
  "int \<Rightarrow> string \<Rightarrow> string \<Rightarrow> string \<Rightarrow> string \<Rightarrow> string \<Rightarrow> int \<Rightarrow> db \<Rightarrow> (deploy_error + unit) \<times> db" where
  "deployment_finish now i status commitSHA codeRollbackRef logRef durationMS d =
     (case sql_update ''deployments'' (by_id i) (finish_cols now status commitSHA codeRollbackRef logRef durationMS) d of
        (Inl e, d') \<Rightarrow> (Inl (DeploymentSql e), d') | (Inr _, d') \<Rightarrow> (Inr (), d'))"

definition scanDeployment :: "row \<Rightarrow> deployment" where
  "scanDeployment r =
     \<lparr> dep_ID = text_col ''id'' r, dep_ProjectID = text_col ''project_id'' r, dep_ServerID = text_col ''server_id'' r,
       dep_CommitSHA = text_col ''commit_sha'' r, dep_Branch = text_col ''branch'' r, dep_Status = text_col ''status'' r,
       dep_StartedAt = time_opt_col ''started_at'' r, dep_FinishedAt = time_opt_col ''finished_at'' r,
       dep_DurationMS = num_col ''duration_ms'' r, dep_LogRef = text_col ''log_ref'' r,
       dep_CodeRollbackRef = text_col ''code_rollback_ref'' r,
       dep_ArtifactRollbackRef = text_col ''artifact_rollback_ref'' r,
       dep_MigrationRollbackSupported = bool_col ''migration_rollback_supported'' r \<rparr>"

definition deployment_Get :: "string \<Rightarrow> db \<Rightarrow> (deploy_error + deployment) \<times> db" where
  "deployment_Get = repo_get ''deployments'' scanDeployment DeploymentNotFound DeploymentSql"

definition deployment_ListByProject :: "string \<Rightarrow> db \<Rightarrow> (deploy_error + deployment list) \<times> db" where
  "deployment_ListByProject projectID =
     repo_list ''deployments'' (\<lambda>r. r ''project_id'' = Text projectID) (order_by_desc (stamp_col ''started_at''))
       scanDeployment DeploymentSql"

text \<open>The log files, by path.\<close>

type_synonym log_files = "string \<Rightarrow> string option"

definition deployment_Log :: "string \<Rightarrow> db \<times> log_files \<Rightarrow> (deploy_error + string) \<times> db" where
  "deployment_Log i = (\<lambda>(d, fs).
     case deployment_Get i d of
       (Inl e, d') \<Rightarrow> (Inl e, d')
     | (Inr dep, d') \<Rightarrow>
        (if dep_LogRef dep = [] then (Inr [], d')
         else case fs (dep_LogRef dep) of
                None \<Rightarrow> (Inl (LogUnreadable (dep_LogRef dep)), d')
              | Some content \<Rightarrow> (Inr content, d')))"

section \<open>The engine\<close>

record exec_result =
  ex_out :: string
  ex_err :: string
  ex_failed :: "string option"

type_synonym remote_session = "string list \<Rightarrow> string \<Rightarrow> exec_result"

record deploy_env =
  env_uuid :: string
  env_started :: int
  env_finished :: int
  env_duration :: int
  env_connect :: "server \<Rightarrow> string + remote_session"
  env_http :: "string \<Rightarrow> http_answer"
  env_secret :: "string \<Rightarrow> string + bytes"
  env_logdir :: string
  env_log_writable :: bool

text \<open>What a run of the steps has produced so far; the log is the text written to the builder.\<close>

record run =
  run_log :: string
  run_commit :: string
  run_rollback :: string
  run_cmds :: "string list"

definition newline :: string where "newline = [CHR 0x0A]"

definition log_text :: "string \<Rightarrow> run \<Rightarrow> run" where
  "log_text s st = st\<lparr> run_log := run_log st @ s \<rparr>"

definition remote_exec :: "remote_session \<Rightarrow> string \<Rightarrow> run \<Rightarrow> exec_result \<times> run" where
  "remote_exec sess cmd st = (sess (run_cmds st) cmd, st\<lparr> run_cmds := run_cmds st @ [cmd] \<rparr>)"

text \<open>Announce a command in the log, run it, log both outputs, and wrap its error.\<close>

definition logged_step ::
  "remote_session \<Rightarrow> string \<Rightarrow> string \<Rightarrow> (string \<Rightarrow> deploy_error) \<Rightarrow> run \<Rightarrow> (deploy_error + unit) \<times> run" where
  "logged_step sess shown cmd wrap st =
     (case remote_exec sess cmd (log_text (''$ '' @ shown @ newline) st) of
        (r, st1) \<Rightarrow>
          (let st2 = log_text (ex_out r @ ex_err r) st1 in
           case ex_failed r of None \<Rightarrow> (Inr (), st2) | Some msg \<Rightarrow> (Inl (wrap msg), st2)))"

definition rev_parse_previous :: "string \<Rightarrow> string" where
  "rev_parse_previous path = ''git -C '' @ shQuote path @ '' rev-parse HEAD 2>/dev/null || true''"

definition rev_parse_head :: "string \<Rightarrow> string" where
  "rev_parse_head path = ''git -C '' @ shQuote path @ '' rev-parse HEAD''"

definition checkoutCmd :: "string \<Rightarrow> string \<Rightarrow> string \<Rightarrow> string" where
  "checkoutCmd path branch url =
     ''set -e; mkdir -p '' @ shQuote path @ ''; if [ -d '' @ shQuote path @ ''/.git ]; then cd '' @ shQuote path @
     '' && git fetch origin '' @ shQuote branch @ '' && git checkout '' @ shQuote branch @
     '' && git reset --hard origin/'' @ shQuote branch @ ''; else git clone --branch '' @ shQuote branch @ '' '' @
     shQuote url @ '' '' @ shQuote path @ ''; fi''"

definition find_previous :: "remote_session \<Rightarrow> string \<Rightarrow> run \<Rightarrow> (deploy_error + unit) \<times> run" where
  "find_previous sess path st =
     (case remote_exec sess (rev_parse_previous path) st of
        (r, st1) \<Rightarrow> (Inr (), if ex_failed r = None then st1\<lparr> run_rollback := trim_space (ex_out r) \<rparr> else st1))"

definition read_head :: "remote_session \<Rightarrow> string \<Rightarrow> run \<Rightarrow> (deploy_error + unit) \<times> run" where
  "read_head sess path st =
     (case remote_exec sess (rev_parse_head path) st of
        (r, st1) \<Rightarrow> (Inr (), if ex_failed r = None then st1\<lparr> run_commit := trim_space (ex_out r) \<rparr> else st1))"

definition install_step :: "remote_session \<Rightarrow> target \<Rightarrow> run \<Rightarrow> (deploy_error + unit) \<times> run" where
  "install_step sess t =
     (if tgt_InstallCommand t = [] then go_return ()
      else (let cmd = ''cd '' @ shQuote (tgt_DeployPath t) @ '' && '' @ tgt_InstallCommand t
            in logged_step sess cmd cmd InstallStep))"

definition restart_step :: "remote_session \<Rightarrow> target \<Rightarrow> run \<Rightarrow> (deploy_error + unit) \<times> run" where
  "restart_step sess t =
     (if tgt_RestartCommand t = [] then go_return ()
      else logged_step sess (tgt_RestartCommand t) (tgt_RestartCommand t) RestartStep)"

text \<open>\<open>%d\<close>; a status code has three digits, so the general rendering is by digits.\<close>

fun nat_digits :: "nat \<Rightarrow> string" where
  "nat_digits n = (if n < 10 then [char_of (48 + n)] else nat_digits (n div 10) @ [char_of (48 + n mod 10)])"

definition int_text :: "int \<Rightarrow> string" where
  "int_text i = (if i < 0 then CHR ''-'' # nat_digits (nat (- i)) else nat_digits (nat i))"

text \<open>
  The health check drops the error of building the request and passes the client whatever it got: with a
  URL that cannot be parsed that is a nil request, which the client dereferences.
\<close>

definition health_step :: "(string \<Rightarrow> http_answer) \<Rightarrow> target \<Rightarrow> run \<Rightarrow> (deploy_error + unit) \<times> run" where
  "health_step http t st =
     (if tgt_HealthCheckURL t = [] then (Inr (), st)
      else (let st1 = log_text (''health check: GET '' @ tgt_HealthCheckURL t @ newline) st in
            case http (tgt_HealthCheckURL t) of
              MalformedURL \<Rightarrow> (Inl NilRequest, st1)
            | NoAnswer msg \<Rightarrow> (Inl (HealthStep msg), st1)
            | Answered code \<Rightarrow>
               (let st2 = log_text (''health check: HTTP '' @ int_text code @ newline) st1 in
                if code < 200 \<or> 300 \<le> code then (Inl (HealthStatus code), st2) else (Inr (), st2))))"

definition https_prefix :: string where "https_prefix = ''https://''"

definition resolveCloneURL ::
  "(string \<Rightarrow> string + bytes) \<Rightarrow> target \<Rightarrow> db \<Rightarrow> (credential_error + string \<times> string) \<times> db" where
  "resolveCloneURL secret t d =
     (if tgt_IntegrationID t = [] \<or> \<not> has_prefix (tgt_RepoURL t) https_prefix
      then (Inr (tgt_RepoURL t, tgt_RepoURL t), d)
      else (case integration_Get (tgt_IntegrationID t) d of
              (Inl e, d') \<Rightarrow> (Inl (NoIntegration e), d')
            | (Inr i, d') \<Rightarrow>
               (case secret (itg_SecretRef i) of
                  Inl msg \<Rightarrow> (Inl (NoSecret msg), d')
                | Inr token \<Rightarrow>
                   (let rest = trim_prefix (tgt_RepoURL t) https_prefix in
                    (Inr (https_prefix @ token @ ''@'' @ rest, https_prefix @ ''***@'' @ rest), d')))))"

text \<open>The steps after the clone URL is known.\<close>

definition deploy_steps ::
  "remote_session \<Rightarrow> (string \<Rightarrow> http_answer) \<Rightarrow> target \<Rightarrow> string \<Rightarrow> string \<Rightarrow> run \<Rightarrow> (deploy_error + unit) \<times> run" where
  "deploy_steps sess http t cloneURL redactedURL =
     (let cmd = checkoutCmd (tgt_DeployPath t) (tgt_Branch t) cloneURL in
      go_bind (find_previous sess (tgt_DeployPath t)) (\<lambda>_.
      go_bind (logged_step sess (replace_all cloneURL redactedURL cmd) cmd CheckoutStep) (\<lambda>_.
      go_bind (read_head sess (tgt_DeployPath t)) (\<lambda>_.
      go_bind (install_step sess t) (\<lambda>_.
      go_bind (restart_step sess t) (\<lambda>_.
        health_step http t))))))"

definition empty_run :: run where
  "empty_run = \<lparr> run_log = [], run_commit = [], run_rollback = [], run_cmds = [] \<rparr>"

definition deploy_run :: "deploy_env \<Rightarrow> server \<Rightarrow> target \<Rightarrow> db \<Rightarrow> (deploy_error option \<times> run) \<times> db" where
  "deploy_run env srv t d =
     (case env_connect env srv of
        Inl msg \<Rightarrow> ((Some (ConnectStep msg), empty_run), d)
      | Inr sess \<Rightarrow>
         (case resolveCloneURL (env_secret env) t d of
            (Inl e, d') \<Rightarrow> ((Some (CredentialStep e), empty_run), d')
          | (Inr (cloneURL, redactedURL), d') \<Rightarrow>
             (case deploy_steps sess (env_http env) t cloneURL redactedURL empty_run of
                (Inl e, st) \<Rightarrow> ((Some e, st), d')
              | (Inr _, st) \<Rightarrow> ((None, st), d'))))"

text \<open>The messages of the errors a run ends with.\<close>

fun credential_text :: "(sql_error \<Rightarrow> string) \<Rightarrow> credential_error \<Rightarrow> string" where
  "credential_text drv (NoIntegration IntegrationNotFound) = ''integration not found''"
| "credential_text drv (NoIntegration (IntegrationSql e)) = drv e"
| "credential_text drv (NoSecret msg) = msg"

fun step_text :: "(sql_error \<Rightarrow> string) \<Rightarrow> deploy_error \<Rightarrow> string" where
  "step_text drv (ConnectStep msg) = ''connect: '' @ msg"
| "step_text drv (CredentialStep e) = ''resolve repo credentials: '' @ credential_text drv e"
| "step_text drv (CheckoutStep msg) = ''checkout: '' @ msg"
| "step_text drv (InstallStep msg) = ''install: '' @ msg"
| "step_text drv (RestartStep msg) = ''restart: '' @ msg"
| "step_text drv (HealthStep msg) = ''health check: '' @ msg"
| "step_text drv (HealthStatus code) = ''health check: unexpected HTTP '' @ int_text code"
| "step_text drv (RollbackCheckoutStep msg) = ''checkout rollback ref: '' @ msg"
| "step_text drv _ = []"

definition run_status :: "deploy_error option \<Rightarrow> string" where
  "run_status err = (case err of None \<Rightarrow> ''success'' | Some _ \<Rightarrow> ''failed'')"

definition final_log :: "(sql_error \<Rightarrow> string) \<Rightarrow> deploy_error option \<Rightarrow> run \<Rightarrow> string" where
  "final_log drv err st =
     (case err of None \<Rightarrow> run_log st | Some e \<Rightarrow> run_log st @ newline @ ''ERROR: '' @ step_text drv e @ newline)"

text \<open>\<open>writeLog\<close>: an unset directory writes nothing, and a failed write leaves no reference.\<close>

definition writeLog :: "deploy_env \<Rightarrow> string \<Rightarrow> string \<Rightarrow> log_files \<Rightarrow> (string + string) \<times> log_files" where
  "writeLog env i content fs =
     (if env_logdir env = [] then (Inr [], fs)
      else if \<not> env_log_writable env then (Inl ''write log'', fs)
      else (let p = env_logdir env @ ''/'' @ i @ ''.log'' in (Inr p, fs(p := Some content))))"

definition log_ref :: "string + string \<Rightarrow> string" where
  "log_ref r = (case r of Inl _ \<Rightarrow> [] | Inr p \<Rightarrow> p)"

text \<open>
  The end \<open>Deploy\<close> and \<open>Rollback\<close> share: write the log, finish the record, and read it back.  The
  result is an error with no deployment, or a deployment with the error of the run, if any.
\<close>

definition finish_run ::
  "(sql_error \<Rightarrow> string) \<Rightarrow> deploy_env \<Rightarrow> string \<Rightarrow> string \<Rightarrow> string \<Rightarrow> deploy_error option \<Rightarrow> run \<Rightarrow> db \<times> log_files \<Rightarrow>
   (deploy_error + deployment \<times> deploy_error option) \<times> db \<times> log_files" where
  "finish_run drv env i commitSHA rollbackRef err st = (\<lambda>(d, fs).
     case writeLog env i (final_log drv err st) fs of
       (ref, fs') \<Rightarrow>
         (case deployment_finish (env_finished env) i (run_status err) commitSHA rollbackRef (log_ref ref) (env_duration env) d of
            (Inl e, d') \<Rightarrow> (Inl e, (d', fs'))
          | (Inr _, d') \<Rightarrow>
             (case deployment_Get i d' of
                (Inl e, d'') \<Rightarrow> (Inl e, (d'', fs'))
              | (Inr dep, d'') \<Rightarrow> (Inr (dep, err), (d'', fs')))))"

definition new_deployment :: "deploy_env \<Rightarrow> string \<Rightarrow> target \<Rightarrow> deployment" where
  "new_deployment env projectID t =
     \<lparr> dep_ID = env_uuid env, dep_ProjectID = projectID, dep_ServerID = tgt_ServerID t, dep_CommitSHA = [],
       dep_Branch = tgt_Branch t, dep_Status = ''running'', dep_StartedAt = Some (env_started env),
       dep_FinishedAt = None, dep_DurationMS = 0, dep_LogRef = [], dep_CodeRollbackRef = [],
       dep_ArtifactRollbackRef = [], dep_MigrationRollbackSupported = False \<rparr>"

text \<open>A panic unwinds \<open>Deploy\<close>: neither the log nor the record is written.\<close>

definition Deploy ::
  "(sql_error \<Rightarrow> string) \<Rightarrow> deploy_env \<Rightarrow> string \<Rightarrow> db \<times> log_files \<Rightarrow>
   (deploy_error + deployment \<times> deploy_error option) \<times> db \<times> log_files" where
  "Deploy drv env targetID = (\<lambda>(d, fs).
     case target_Get targetID d of
       (Inl e, d1) \<Rightarrow> (Inl (TargetLookup e), (d1, fs))
     | (Inr t, d1) \<Rightarrow>
        (case server_Get (tgt_ServerID t) d1 of
           (Inl e, d2) \<Rightarrow> (Inl (ServerLookup e), (d2, fs))
         | (Inr srv, d2) \<Rightarrow>
            (let dep = new_deployment env (tgt_ProjectID t) t in
             case deployment_create dep d2 of
               (Inl e, d3) \<Rightarrow> (Inl e, (d3, fs))
             | (Inr _, d3) \<Rightarrow>
                (case deploy_run env srv t d3 of
                   ((err, st), d4) \<Rightarrow>
                     (if err = Some NilRequest then (Inl NilRequest, (d4, fs))
                      else finish_run drv env (dep_ID dep) (run_commit st) (run_rollback st) err st (d4, fs))))))"

definition rollback_run :: "deploy_env \<Rightarrow> server \<Rightarrow> target \<Rightarrow> string \<Rightarrow> deploy_error option \<times> run" where
  "rollback_run env srv t ref =
     (case env_connect env srv of
        Inl msg \<Rightarrow> (Some (ConnectStep msg), empty_run)
      | Inr sess \<Rightarrow>
         (let cmd = ''cd '' @ shQuote (tgt_DeployPath t) @ '' && git checkout '' @ shQuote ref in
          case go_bind (logged_step sess cmd cmd RollbackCheckoutStep) (\<lambda>_. restart_step sess t) empty_run of
            (Inl e, st) \<Rightarrow> (Some e, st)
          | (Inr _, st) \<Rightarrow> (None, st)))"

definition Rollback ::
  "(sql_error \<Rightarrow> string) \<Rightarrow> deploy_env \<Rightarrow> string \<Rightarrow> db \<times> log_files \<Rightarrow>
   (deploy_error + deployment \<times> deploy_error option) \<times> db \<times> log_files" where
  "Rollback drv env deploymentID = (\<lambda>(d, fs).
     case deployment_Get deploymentID d of
       (Inl e, d1) \<Rightarrow> (Inl e, (d1, fs))
     | (Inr prev, d1) \<Rightarrow>
        (if dep_CodeRollbackRef prev = [] then (Inl (NoRollbackRef deploymentID), (d1, fs))
         else
           (case target_ListByProject (dep_ProjectID prev) d1 of
              (Inl _, d2) \<Rightarrow> (Inl (NoTargetFor (dep_ProjectID prev)), (d2, fs))
            | (Inr [], d2) \<Rightarrow> (Inl (NoTargetFor (dep_ProjectID prev)), (d2, fs))
            | (Inr (t # _), d2) \<Rightarrow>
               (case server_Get (tgt_ServerID t) d2 of
                  (Inl e, d3) \<Rightarrow> (Inl (ServerLookup e), (d3, fs))
                | (Inr srv, d3) \<Rightarrow>
                   (let dep = new_deployment env (dep_ProjectID prev) t in
                    case deployment_create dep d3 of
                      (Inl e, d4) \<Rightarrow> (Inl e, (d4, fs))
                    | (Inr _, d4) \<Rightarrow>
                       (case rollback_run env srv t (dep_CodeRollbackRef prev) of
                          (err, st) \<Rightarrow>
                            finish_run drv env (dep_ID dep) (dep_CodeRollbackRef prev) [] err st (d4, fs)))))))"

section \<open>The commands reach the shell as they are meant\<close>

definition word :: "string \<Rightarrow> sh_token" where
  "word s = Word (plain s)"

definition and_then :: "sh_token list" where
  "and_then = [Op CHR ''&'', Op CHR ''&'']"

definition path_words :: "string \<Rightarrow> string \<Rightarrow> sh_token list" where
  "path_words pre s = [Word (plain pre @ quoted s)]"

text \<open>C28: Whatever the deploy path, branch and repository URL contain, the shell reads the checkout
  command as the commands the engine means: each of these values is part of exactly one word, every
  character of it quoted, so it can neither end a command, start another nor be expanded.\<close>

theorem checkout_command_is_not_injectable:
  "sh_tokens (checkoutCmd path branch url) = Some
     ([word ''set'', word ''-e'', Op CHR '';'', word ''mkdir'', word ''-p'', Word (quoted path), Op CHR '';'',
       word ''if'', word ''['', word ''-d'', Word (quoted path @ plain ''/.git''), word '']'', Op CHR '';'',
       word ''then'', word ''cd'', Word (quoted path)] @ and_then @
      [word ''git'', word ''fetch'', word ''origin'', Word (quoted branch)] @ and_then @
      [word ''git'', word ''checkout'', Word (quoted branch)] @ and_then @
      [word ''git'', word ''reset'', word ''--hard'', Word (plain ''origin/'' @ quoted branch), Op CHR '';'',
       word ''else'', word ''git'', word ''clone'', word ''--branch'', Word (quoted branch), Word (quoted url),
       Word (quoted path), Op CHR '';'', word ''fi''])"
  by (simp add: sh_tokens_def checkoutCmd_def sh_blank_def sh_operator_def word_def plain_def and_then_def)

section \<open>A deployment is recorded as it went\<close>

lemma finish_row:
  "scanDeployment (set_cols (finish_cols now status sha ref logRef ms) r) =
     (scanDeployment r)\<lparr> dep_Status := status, dep_FinishedAt := Some (now div second * second), dep_DurationMS := ms,
       dep_CommitSHA := sha, dep_CodeRollbackRef := ref, dep_LogRef := logRef \<rparr>"
  by (simp add: scanDeployment_def set_cols_def finish_cols_def sql_simps nullable_def)

lemma deployment_row:
  "make_row ''deployments'' (deployment_cols dep) ''id'' = Text (dep_ID dep)"
  "row_not_null ''deployments'' (make_row ''deployments'' (deployment_cols dep))"
  "row_references d ''deployments'' (make_row ''deployments'' (deployment_cols dep)) \<longleftrightarrow>
     (\<exists>p \<in> set (tables d ''projects''). by_id (dep_ProjectID dep) p) \<and>
     (\<exists>p \<in> set (tables d ''servers''). by_id (dep_ServerID dep) p)"
  "scanDeployment (make_row ''deployments'' (deployment_cols dep)) =
     dep\<lparr> dep_StartedAt := map_option (\<lambda>t. t div second * second) (dep_StartedAt dep), dep_FinishedAt := None,
          dep_DurationMS := 0, dep_LogRef := [], dep_CodeRollbackRef := [], dep_ArtifactRollbackRef := [],
          dep_MigrationRollbackSupported := False \<rparr>"
  by (simp_all add: make_row_def deployment_cols_def row_not_null_def not_null_cols_def required_cols_def
      column_defaults_def row_references_def foreign_keys_def by_id_def scanDeployment_def sql_simps nullable_def
      split: option.splits)

lemma deployment_create_nofault:
  assumes "faults d = []" "\<not> (\<exists>r \<in> set (tables d ''deployments''). by_id (dep_ID dep) r)"
    "\<exists>p \<in> set (tables d ''projects''). by_id (dep_ProjectID dep) p" "\<exists>p \<in> set (tables d ''servers''). by_id (dep_ServerID dep) p"
  shows "deployment_create dep d =
    (Inr (), with_table ''deployments'' (tables d ''deployments'' @ [make_row ''deployments'' (deployment_cols dep)]) d)"
proof -
  have "\<not> (\<exists>r' \<in> set (tables d ''deployments''). rows_conflict ''deployments'' (make_row ''deployments'' (deployment_cols dep)) r')"
    using assms(2) by (auto simp: rows_conflict_def unique_cols_def deployment_row(1) by_id_def)
  then show ?thesis
    using assms(3,4) by (simp add: deployment_create_def map_err_def sql_insert_nofault [OF assms(1)] raw_insert_def
        deployment_row(2,3))
qed

text \<open>Finishing the one row with the id, and reading it back.\<close>

lemma deployment_finish_last:
  assumes "faults d = []" "tables d ''deployments'' = rs @ [r]" "r ''id'' = Text i" "\<not> (\<exists>r \<in> set rs. by_id i r)"
    "row_not_null ''deployments'' r" "row_references d ''deployments'' r" "no_conflicts ''deployments'' rs"
  shows "deployment_finish now i status sha ref logRef ms d =
    (Inr (), with_table ''deployments'' (rs @ [set_cols (finish_cols now status sha ref logRef ms) r]) d)"
proof -
  let ?a = "finish_cols now status sha ref logRef ms"
  have a: "set_cols ?a r ''id'' = Text i" by (simp add: set_cols_id finish_cols_def assms(3))
  have none: "map (\<lambda>r. if by_id i r then set_cols ?a r else r) rs = rs" "filter (by_id i) rs = []"
    using assms(4) by (auto intro: map_idI)
  have "row_not_null ''deployments'' (set_cols ?a r)"
    using assms(5) by (simp add: row_not_null_def not_null_cols_def required_cols_def column_defaults_def set_cols_def
        finish_cols_def)
  moreover have "row_references d ''deployments'' (set_cols ?a r)"
    using assms(6) by (simp add: row_references_def foreign_keys_def set_cols_def finish_cols_def)
  moreover have "no_conflicts ''deployments'' (rs @ [set_cols ?a r])"
    using assms(4,7) a by (auto simp: no_conflicts_append rows_conflict_def unique_cols_def by_id_def)
  moreover have "by_id i r" using assms(3) by (simp add: by_id_def)
  ultimately show ?thesis
    by (simp add: deployment_finish_def sql_update_nofault [OF assms(1)] raw_update_def Let_def assms(2) none)
qed

lemma integration_Get_pure: "faults d = [] \<Longrightarrow> integration_Get i d = (fst (integration_Get i d), d)"
  by (simp add: integration_Get_def repo_get_nofault split: list.splits)

lemma deploy_run_db:
  assumes "faults d = []" "faults d' = []" "tables d' ''integrations'' = tables d ''integrations''"
  shows "deploy_run env srv t d' = (fst (deploy_run env srv t d), d')"
proof -
  have "fst (integration_Get (tgt_IntegrationID t) d') = fst (integration_Get (tgt_IntegrationID t) d)"
    using assms by (simp add: integration_Get_def repo_get_nofault split: list.splits)
  then obtain x where "integration_Get (tgt_IntegrationID t) d = (x, d)" "integration_Get (tgt_IntegrationID t) d' = (x, d')"
    using integration_Get_pure assms(1,2) by metis
  then have "resolveCloneURL (env_secret env) t d' = (fst (resolveCloneURL (env_secret env) t d), d')"
    by (simp add: resolveCloneURL_def Let_def split: sum.splits)
  then show ?thesis by (simp add: deploy_run_def split: sum.splits prod.splits)
qed

lemma server_Get_found:
  assumes "faults d = []" "fst (server_Get i d) = Inr s"
  shows "server_Get i d = (Inr s, d)" "\<exists>r \<in> set (tables d ''servers''). by_id i r"
proof -
  from assms obtain r rs where r: "filter (by_id i) (tables d ''servers'') = r # rs"
    by (auto simp: server_Get_def repo_get_nofault split: list.splits)
  with assms show "server_Get i d = (Inr s, d)" by (simp add: server_Get_def repo_get_nofault)
  from r have "r \<in> set (filter (by_id i) (tables d ''servers''))" by simp
  then show "\<exists>r \<in> set (tables d ''servers''). by_id i r" by auto
qed

text \<open>The end of a run whose record is the last row.\<close>

lemma finish_run_last:
  assumes "faults d = []" "tables d ''deployments'' = rs @ [r]" "r ''id'' = Text i" "\<not> (\<exists>r \<in> set rs. by_id i r)"
    "row_not_null ''deployments'' r" "row_references d ''deployments'' r" "no_conflicts ''deployments'' rs"
    and w: "writeLog env i (final_log drv err st) fs = (ref, fs')"
  shows "let dep = scanDeployment (set_cols (finish_cols (env_finished env) (run_status err) sha rb (log_ref ref) (env_duration env)) r);
      d' = with_table ''deployments'' (rs @ [set_cols (finish_cols (env_finished env) (run_status err) sha rb (log_ref ref) (env_duration env)) r]) d
    in finish_run drv env i sha rb err st (d, fs) = (Inr (dep, err), (d', fs')) \<and> deployment_Get i d' = (Inr dep, d')"
proof -
  let ?a = "finish_cols (env_finished env) (run_status err) sha rb (log_ref ref) (env_duration env)"
  define d' where "d' = with_table ''deployments'' (rs @ [set_cols ?a r]) d"
  have "filter (by_id i) rs = []" using assms(4) by (simp add: filter_empty_conv)
  moreover have "by_id i (set_cols ?a r)" using assms(3) by (simp add: by_id_def set_cols_id finish_cols_def)
  ultimately have get: "deployment_Get i d' = (Inr (scanDeployment (set_cols ?a r)), d')"
    using assms(1) by (simp add: deployment_Get_def repo_get_nofault d'_def)
  then show ?thesis
    using deployment_finish_last [OF assms(1-7), of "env_finished env" "run_status err" sha rb "log_ref ref" "env_duration env"]
    by (simp add: finish_run_def w d'_def [symmetric] Let_def)
qed

lemma log_is_readable:
  assumes "writeLog env i content fs = (ref, fs')" "env_logdir env \<noteq> []" "env_log_writable env"
    "deployment_Get i d = (Inr dep, d)" "dep_LogRef dep = log_ref ref"
  shows "fst (deployment_Log i (d, fs')) = Inr content"
  using assms by (auto simp: writeLog_def Let_def deployment_Log_def log_ref_def)

text \<open>Record a deployment, and finish it with what a run came to.\<close>

lemma record_and_finish:
  assumes "faults d = []" "db_ok d" "\<exists>p \<in> set (tables d ''projects''). by_id pid p"
    and "\<exists>p \<in> set (tables d ''servers''). by_id (tgt_ServerID t) p"
    and "\<not> (\<exists>r \<in> set (tables d ''deployments''). by_id (env_uuid env) r)"
  obtains d3 dep d' fs' row where
    "deployment_create (new_deployment env pid t) d = (Inr (), d3)" "faults d3 = []"
    "tables d3 ''integrations'' = tables d ''integrations''"
    "finish_run drv env (env_uuid env) sha rb err st (d3, fs) = (Inr (dep, err), (d', fs'))"
    "tables d' = (tables d)(''deployments'' := tables d ''deployments'' @ [row])"
    "deployment_Get (env_uuid env) d' = (Inr dep, d')"
    "dep_Status dep = (if err = None then ''success'' else ''failed'')" "dep_ProjectID dep = pid"
    "dep_ServerID dep = tgt_ServerID t" "dep_CommitSHA dep = sha" "dep_CodeRollbackRef dep = rb"
    "\<not> dep_MigrationRollbackSupported dep"
    "env_logdir env \<noteq> [] \<longrightarrow> env_log_writable env \<longrightarrow>
       fst (deployment_Log (env_uuid env) (d', fs')) = Inr (final_log drv err st)"
proof -
  define new where "new = new_deployment env pid t"
  define r where "r = make_row ''deployments'' (deployment_cols new)"
  define d3 where "d3 = with_table ''deployments'' (tables d ''deployments'' @ [r]) d"
  have new: "dep_ID new = env_uuid env" "dep_ProjectID new = pid" "dep_ServerID new = tgt_ServerID t"
    by (simp_all add: new_def new_deployment_def)
  have create: "deployment_create new d = (Inr (), d3)"
    unfolding d3_def r_def using assms by (intro deployment_create_nofault) (simp_all add: new)
  obtain ref fs' where w: "writeLog env (env_uuid env) (final_log drv err st) fs = (ref, fs')" by force
  let ?a = "finish_cols (env_finished env) (run_status err) sha rb (log_ref ref) (env_duration env)"
  define dep where "dep = scanDeployment (set_cols ?a r)"
  define d' where "d' = with_table ''deployments'' (tables d ''deployments'' @ [set_cols ?a r]) d3"
  have "faults d3 = []" "tables d3 ''deployments'' = tables d ''deployments'' @ [r]" "r ''id'' = Text (env_uuid env)"
    "row_not_null ''deployments'' r" "row_references d3 ''deployments'' r"
    using assms(1,3,4) by (simp_all add: d3_def r_def deployment_row new)
  moreover have "no_conflicts ''deployments'' (tables d ''deployments'')"
    using assms(2) by (simp add: db_ok_def schema_tables_def)
  ultimately have fin: "finish_run drv env (env_uuid env) sha rb err st (d3, fs) = (Inr (dep, err), (d', fs'))"
    and get: "deployment_Get (env_uuid env) d' = (Inr dep, d')"
    using finish_run_last [OF _ _ _ assms(5) _ _ _ w, where d = d3 and r = r and sha = sha and rb = rb]
    by (simp_all add: dep_def d'_def Let_def)
  have dep: "dep_Status dep = (if err = None then ''success'' else ''failed'')" "dep_ProjectID dep = pid"
    "dep_ServerID dep = tgt_ServerID t" "dep_CommitSHA dep = sha" "dep_CodeRollbackRef dep = rb"
    "\<not> dep_MigrationRollbackSupported dep" "dep_LogRef dep = log_ref ref"
    by (simp_all add: dep_def r_def finish_row deployment_row new run_status_def split: option.splits)
  have tabs: "tables d' = (tables d)(''deployments'' := tables d ''deployments'' @ [set_cols ?a r])"
    by (simp add: d'_def d3_def)
  have log: "env_logdir env \<noteq> [] \<longrightarrow> env_log_writable env \<longrightarrow>
    fst (deployment_Log (env_uuid env) (d', fs')) = Inr (final_log drv err st)"
    using log_is_readable [OF w _ _ get dep(7)] by blast
  have "faults d3 = []" "tables d3 ''integrations'' = tables d ''integrations''" using assms(1) by (simp_all add: d3_def)
  from that [OF create [unfolded new_def] this fin tabs get dep(1-6) log] show thesis .
qed

text \<open>A run panics only over a health check URL that cannot be parsed.\<close>

lemma logged_step_no_panic: "fst (logged_step sess shown cmd wrap st) = Inl e \<Longrightarrow> \<exists>msg. e = wrap msg"
  by (auto simp: logged_step_def remote_exec_def log_text_def Let_def split: option.splits)

lemma steps_no_panic:
  "fst (find_previous sess p st) \<noteq> Inl NilRequest" "fst (read_head sess p st) \<noteq> Inl NilRequest"
  "fst (logged_step sess shown cmd CheckoutStep st) \<noteq> Inl NilRequest"
  "fst (install_step sess t st) \<noteq> Inl NilRequest" "fst (restart_step sess t st) \<noteq> Inl NilRequest"
  by (auto simp: find_previous_def read_head_def install_step_def restart_step_def go_return_def Let_def
      split: prod.splits dest!: logged_step_no_panic)

lemma go_bind_error:
  assumes "fst (go_bind m f st) = Inl e"
  shows "fst (m st) = Inl e \<or> (\<exists>a st'. fst (f a st') = Inl e)"
  using assms by (auto simp: go_bind_def split: sum.splits prod.splits)

lemma deploy_run_panics:
  assumes "fst (fst (deploy_run env srv t d)) = Some NilRequest"
  shows "env_http env (tgt_HealthCheckURL t) = MalformedURL"
proof -
  from assms obtain sess url redacted st' where "deploy_steps sess (env_http env) t url redacted empty_run = (Inl NilRequest, st')"
    by (auto simp: deploy_run_def split: sum.splits prod.splits)
  then have "fst (deploy_steps sess (env_http env) t url redacted empty_run) = Inl NilRequest" by simp
  then obtain st where "fst (health_step (env_http env) t st) = Inl NilRequest"
    by (auto simp: deploy_steps_def Let_def steps_no_panic dest!: go_bind_error)
  then show ?thesis by (auto simp: health_step_def Let_def split: if_splits http_answer.splits)
qed

text \<open>A deployment that panics stays as it was created.\<close>

lemma record_and_panic:
  assumes "faults d = []" "\<exists>p \<in> set (tables d ''projects''). by_id pid p"
    and "\<exists>p \<in> set (tables d ''servers''). by_id (tgt_ServerID t) p"
    and "\<not> (\<exists>r \<in> set (tables d ''deployments''). by_id (env_uuid env) r)"
  obtains d3 dep row where
    "deployment_create (new_deployment env pid t) d = (Inr (), d3)"
    "tables d3 = (tables d)(''deployments'' := tables d ''deployments'' @ [row])" "faults d3 = []"
    "deployment_Get (env_uuid env) d3 = (Inr dep, d3)" "dep_Status dep = ''running''" "dep_ProjectID dep = pid"
    "dep_ServerID dep = tgt_ServerID t" "dep_FinishedAt dep = None" "dep_LogRef dep = []" "\<not> dep_MigrationRollbackSupported dep"
proof -
  define new where "new = new_deployment env pid t"
  define row where "row = make_row ''deployments'' (deployment_cols new)"
  define d3 where "d3 = with_table ''deployments'' (tables d ''deployments'' @ [row]) d"
  have new: "dep_ID new = env_uuid env" "dep_ProjectID new = pid" "dep_ServerID new = tgt_ServerID t" "dep_Status new = ''running''"
    by (simp_all add: new_def new_deployment_def)
  have create: "deployment_create new d = (Inr (), d3)"
    unfolding d3_def row_def using assms by (intro deployment_create_nofault) (simp_all add: new)
  have "filter (by_id (env_uuid env)) (tables d ''deployments'') = []" using assms(4) by (simp add: filter_empty_conv)
  moreover have "by_id (env_uuid env) row" by (simp add: by_id_def row_def deployment_row new)
  ultimately have get: "deployment_Get (env_uuid env) d3 = (Inr (scanDeployment row), d3)"
    using assms(1) by (simp add: deployment_Get_def repo_get_nofault d3_def)
  show thesis
    by (rule that [OF create [unfolded new_def] _ _ get]) (simp_all add: d3_def assms(1) row_def deployment_row new)
qed

text \<open>C27: A deployment is recorded whether it succeeds or fails: exactly one row is added, it says
  \<open>success\<close> just when every step succeeded, it carries the commit and the rollback reference the
  run found, the deployment returned is the one that is read back, its log is the log of the run, and
  it never claims that migrations can be rolled back.  The one exception is a health check URL that cannot
  be parsed: if the run gets to it, the engine panics, and the row stays \<open>running\<close>, unfinished and
  without a log.\<close>

theorem deployment_is_recorded:
  assumes "faults d = []" "db_ok d" "target_Get tid d = (Inr t, d)" "fst (server_Get (tgt_ServerID t) d) = Inr srv"
    and "\<exists>p \<in> set (tables d ''projects''). by_id (tgt_ProjectID t) p"
    and "\<not> (\<exists>r \<in> set (tables d ''deployments''). by_id (env_uuid env) r)"
  shows "\<exists>dep d' fs' row err st. fst (deploy_run env srv t d) = (err, st) \<and>
    tables d' = (tables d)(''deployments'' := tables d ''deployments'' @ [row]) \<and>
    deployment_Get (env_uuid env) d' = (Inr dep, d') \<and>
    dep_ProjectID dep = tgt_ProjectID t \<and> dep_ServerID dep = tgt_ServerID t \<and>
    \<not> dep_MigrationRollbackSupported dep \<and>
    (if err = Some NilRequest
     then env_http env (tgt_HealthCheckURL t) = MalformedURL \<and>
       Deploy drv env tid (d, fs) = (Inl NilRequest, (d', fs)) \<and>
       dep_Status dep = ''running'' \<and> dep_FinishedAt dep = None \<and> dep_LogRef dep = []
     else Deploy drv env tid (d, fs) = (Inr (dep, err), (d', fs')) \<and>
       dep_Status dep = (if err = None then ''success'' else ''failed'') \<and>
       dep_CommitSHA dep = run_commit st \<and> dep_CodeRollbackRef dep = run_rollback st \<and>
       (env_logdir env \<noteq> [] \<longrightarrow> env_log_writable env \<longrightarrow>
          fst (deployment_Log (env_uuid env) (d', fs')) = Inr (final_log drv err st)))"
proof -
  note srv = server_Get_found [OF assms(1,4)]
  obtain err st where run: "fst (deploy_run env srv t d) = (err, st)" by force
  show ?thesis
  proof (cases "err = Some NilRequest")
    case True
    obtain d3 dep row where rf:
      "deployment_create (new_deployment env (tgt_ProjectID t) t) d = (Inr (), d3)"
      "tables d3 = (tables d)(''deployments'' := tables d ''deployments'' @ [row])" "faults d3 = []"
      and rest: "deployment_Get (env_uuid env) d3 = (Inr dep, d3)" "dep_Status dep = ''running''" "dep_ProjectID dep = tgt_ProjectID t"
      "dep_ServerID dep = tgt_ServerID t" "dep_FinishedAt dep = None" "dep_LogRef dep = []" "\<not> dep_MigrationRollbackSupported dep"
      by (rule record_and_panic [OF assms(1,5) srv(2) assms(6)])
    have "tables d3 ''integrations'' = tables d ''integrations''" by (simp add: rf(2))
    then have "deploy_run env srv t d3 = ((err, st), d3)" using deploy_run_db [OF assms(1) rf(3)] run by simp
    then have "Deploy drv env tid (d, fs) = (Inl NilRequest, (d3, fs))"
      using rf(1) True by (simp add: Deploy_def assms(3) srv(1))
    moreover have "env_http env (tgt_HealthCheckURL t) = MalformedURL"
      by (rule deploy_run_panics [where srv = srv and d = d]) (simp add: run True)
    ultimately show ?thesis
      using run rf(2) rest True by (intro exI [of _ dep] exI [of _ d3] exI [of _ fs] exI [of _ row] exI [of _ err] exI [of _ st]) simp
  next
    case False
    obtain d3 dep d' fs' row where rf:
      "deployment_create (new_deployment env (tgt_ProjectID t) t) d = (Inr (), d3)" "faults d3 = []"
      "tables d3 ''integrations'' = tables d ''integrations''"
      "finish_run drv env (env_uuid env) (run_commit st) (run_rollback st) err st (d3, fs) = (Inr (dep, err), (d', fs'))"
      and rest: "tables d' = (tables d)(''deployments'' := tables d ''deployments'' @ [row])"
      "deployment_Get (env_uuid env) d' = (Inr dep, d')"
      "dep_Status dep = (if err = None then ''success'' else ''failed'')" "dep_ProjectID dep = tgt_ProjectID t"
      "dep_ServerID dep = tgt_ServerID t" "dep_CommitSHA dep = run_commit st" "dep_CodeRollbackRef dep = run_rollback st"
      "\<not> dep_MigrationRollbackSupported dep"
      "env_logdir env \<noteq> [] \<longrightarrow> env_log_writable env \<longrightarrow>
         fst (deployment_Log (env_uuid env) (d', fs')) = Inr (final_log drv err st)"
      by (rule record_and_finish [OF assms(1,2,5) srv(2) assms(6), where sha = "run_commit st" and rb = "run_rollback st"
            and err = err and st = st and fs = fs and drv = drv])
    have "deploy_run env srv t d3 = ((err, st), d3)" using deploy_run_db [OF assms(1) rf(2,3)] run by simp
    then have "Deploy drv env tid (d, fs) = (Inr (dep, err), (d', fs'))"
      using rf(1,4) False by (simp add: Deploy_def assms(3) srv(1) new_deployment_def)
    with run rest False show ?thesis
      by (intro exI [of _ dep] exI [of _ d'] exI [of _ fs'] exI [of _ row] exI [of _ err] exI [of _ st]) simp
  qed
qed

text \<open>A rollback checks out the recorded reference and restarts, on the server of the project's first
  target, and is recorded as a deployment of its own, with that reference as its commit and none to
  roll back to: it cannot itself be rolled back.\<close>

theorem rollback_is_recorded_and_final:
  assumes "faults d = []" "db_ok d" "deployment_Get i d = (Inr prev, d)" "dep_CodeRollbackRef prev \<noteq> []"
    and "target_ListByProject (dep_ProjectID prev) d = (Inr (t # ts), d)" "fst (server_Get (tgt_ServerID t) d) = Inr srv"
    and "\<exists>p \<in> set (tables d ''projects''). by_id (dep_ProjectID prev) p"
    and "\<not> (\<exists>r \<in> set (tables d ''deployments''). by_id (env_uuid env) r)"
  shows "\<exists>dep d' fs' err st. rollback_run env srv t (dep_CodeRollbackRef prev) = (err, st) \<and>
    Rollback drv env i (d, fs) = (Inr (dep, err), (d', fs')) \<and> deployment_Get (env_uuid env) d' = (Inr dep, d') \<and>
    dep_Status dep = (if err = None then ''success'' else ''failed'') \<and>
    dep_ServerID dep = tgt_ServerID t \<and> dep_CommitSHA dep = dep_CodeRollbackRef prev \<and>
    \<not> dep_MigrationRollbackSupported dep \<and>
    Rollback drv env' (env_uuid env) (d', fs') = (Inl (NoRollbackRef (env_uuid env)), (d', fs'))"
proof -
  note srv = server_Get_found [OF assms(1,6)]
  obtain err st where run: "rollback_run env srv t (dep_CodeRollbackRef prev) = (err, st)" by force
  obtain d3 dep d' fs' row where rf:
    "deployment_create (new_deployment env (dep_ProjectID prev) t) d = (Inr (), d3)"
    "finish_run drv env (env_uuid env) (dep_CodeRollbackRef prev) [] err st (d3, fs) = (Inr (dep, err), (d', fs'))"
    "deployment_Get (env_uuid env) d' = (Inr dep, d')"
    "dep_Status dep = (if err = None then ''success'' else ''failed'')"
    "dep_ServerID dep = tgt_ServerID t" "dep_CommitSHA dep = dep_CodeRollbackRef prev" "dep_CodeRollbackRef dep = []"
    "\<not> dep_MigrationRollbackSupported dep"
    by (rule record_and_finish [OF assms(1,2,7) srv(2) assms(8), where sha = "dep_CodeRollbackRef prev" and rb = "[]"
          and err = err and st = st and fs = fs and drv = drv])
  have "Rollback drv env i (d, fs) = (Inr (dep, err), (d', fs'))"
    using rf(1,2) by (simp add: Rollback_def assms(3-5) srv(1) run new_deployment_def)
  moreover have "Rollback drv env' (env_uuid env) (d', fs') = (Inl (NoRollbackRef (env_uuid env)), (d', fs'))"
    using rf(3,7) by (simp add: Rollback_def)
  ultimately show ?thesis using run rf by blast
qed

text \<open>A rollback runs no health check: its outcome does not depend on what the health check URL answers.\<close>

theorem rollback_skips_health_check:
  "Rollback drv (env\<lparr> env_http := http \<rparr>) i s = Rollback drv env i s"
proof -
  have "writeLog (env\<lparr> env_http := http \<rparr>) j c fs = writeLog env j c fs" for j c fs
    by (auto simp: writeLog_def Let_def)
  then have "finish_run drv (env\<lparr> env_http := http \<rparr>) = finish_run drv env"
    by (simp add: finish_run_def fun_eq_iff)
  moreover have "rollback_run (env\<lparr> env_http := http \<rparr>) = rollback_run env" by (simp add: rollback_run_def fun_eq_iff)
  moreover have "new_deployment (env\<lparr> env_http := http \<rparr>) = new_deployment env"
    by (simp add: new_deployment_def fun_eq_iff)
  ultimately show ?thesis by (simp only: Rollback_def)
qed

section \<open>Credentials and the log\<close>

lemma logged_step_keeps_log:
  assumes "logged_step sess shown cmd wrap st = (r, st')"
  shows "\<exists>xs. run_log st' = run_log st @ xs"
  using assms by (auto simp: logged_step_def remote_exec_def log_text_def Let_def split: option.splits)

definition grows :: "(run \<Rightarrow> (deploy_error + unit) \<times> run) \<Rightarrow> bool" where
  "grows m \<longleftrightarrow> (\<forall>st. \<exists>xs. run_log (snd (m st)) = run_log st @ xs)"

lemma grows_bind: "grows m \<Longrightarrow> (\<And>a. grows (f a)) \<Longrightarrow> grows (go_bind m f)"
  unfolding grows_def
proof
  fix st
  assume m: "\<forall>st. \<exists>xs. run_log (snd (m st)) = run_log st @ xs"
    and f: "\<And>a. \<forall>st. \<exists>xs. run_log (snd (f a st)) = run_log st @ xs"
  obtain r st' where r: "m st = (r, st')" by force
  with m obtain xs where xs: "run_log st' = run_log st @ xs" by (metis snd_conv)
  show "\<exists>xs. run_log (snd (go_bind m f st)) = run_log st @ xs"
  proof (cases r)
    case (Inr a)
    from f obtain ys where "run_log (snd (f a st')) = run_log st' @ ys" by blast
    with r xs Inr show ?thesis by simp
  qed (use r xs in simp)
qed

lemma grows_steps:
  "grows (find_previous sess p)" "grows (logged_step sess shown cmd wrap)" "grows (read_head sess p)"
  "grows (install_step sess t)" "grows (restart_step sess t)" "grows (health_step http t)"
  by (auto simp: grows_def find_previous_def logged_step_def read_head_def install_step_def restart_step_def
      health_step_def remote_exec_def log_text_def go_return_def Let_def split: sum.splits option.splits http_answer.splits)

text \<open>Only the announced command is redacted: whatever the remote side prints on the checkout, a
  credential included, is in the log of the deployment as it was printed.\<close>

theorem remote_output_is_logged_as_printed:
  assumes "env_connect env srv = Inr sess" "fst (resolveCloneURL (env_secret env) t d) = Inr (url, redacted)"
  shows "\<exists>xs ys. run_log (snd (fst (deploy_run env srv t d))) =
    xs @ ex_err (sess [rev_parse_previous (tgt_DeployPath t)] (checkoutCmd (tgt_DeployPath t) (tgt_Branch t) url)) @ ys"
proof -
  let ?cmd = "checkoutCmd (tgt_DeployPath t) (tgt_Branch t) url"
  let ?shown = "replace_all url redacted ?cmd"
  let ?out = "sess [rev_parse_previous (tgt_DeployPath t)] ?cmd"
  let ?rest = "go_bind (read_head sess (tgt_DeployPath t)) (\<lambda>_. go_bind (install_step sess t) (\<lambda>_.
      go_bind (restart_step sess t) (\<lambda>_. health_step (env_http env) t)))"
  obtain st1 where p: "find_previous sess (tgt_DeployPath t) empty_run = (Inr (), st1)"
    "run_cmds st1 = [rev_parse_previous (tgt_DeployPath t)]"
    by (auto simp: find_previous_def remote_exec_def empty_run_def)
  obtain r st2 where c: "logged_step sess ?shown ?cmd CheckoutStep st1 = (r, st2)" by force
  with p(2) obtain xs where xs: "run_log st2 = xs @ ex_err ?out"
    by (auto simp: logged_step_def remote_exec_def log_text_def Let_def split: option.splits)
  have g: "grows ?rest" by (intro grows_bind grows_steps)
  obtain r' st' where s: "deploy_steps sess (env_http env) t url redacted empty_run = (r', st')" by force
  have "\<exists>ys. run_log st' = run_log st2 @ ys"
  proof (cases r)
    case (Inr a)
    then have "(r', st') = ?rest st2" using s p(1) c by (simp add: deploy_steps_def Let_def)
    with g show ?thesis unfolding grows_def by (metis snd_conv)
  qed (use s p(1) c in \<open>simp add: deploy_steps_def Let_def\<close>)
  moreover have "snd (fst (deploy_run env srv t d)) = st'"
    using assms s by (auto simp: deploy_run_def split: prod.splits sum.splits)
  ultimately show ?thesis using xs by auto
qed

section \<open>The properties at concrete inputs\<close>

definition demo_session :: remote_session where
  "demo_session past cmd =
     (if has_prefix cmd ''set -e'' then \<lparr> ex_out = [], ex_err = ''fatal: https://tok@h/r'', ex_failed = Some ''exit 128'' \<rparr>
      else \<lparr> ex_out = ''abc'', ex_err = [], ex_failed = None \<rparr>)"

definition demo_deploy_env :: deploy_env where
  "demo_deploy_env =
     \<lparr> env_uuid = ''d1'', env_started = 0, env_finished = 0, env_duration = 5, env_connect = (\<lambda>_. Inr demo_session),
       env_http = (\<lambda>_. Answered 200), env_secret = (\<lambda>_. Inr ''tok''), env_logdir = ''/logs'', env_log_writable = True \<rparr>"

definition demo_target_row :: row where
  "demo_target_row = make_row ''deployment_targets''
     [(''id'', Text ''t1''), (''project_id'', Text ''p1''), (''server_id'', Text ''s1''), (''repo_url'', Text ''https://h/r''),
      (''integration_id'', Text ''i1''), (''deploy_path'', Text ''/srv''), (''created_at'', Stamp 0), (''updated_at'', Stamp 0)]"

definition demo_deploy_db :: db where
  "demo_deploy_db = \<lparr> tables = (\<lambda>_. [])
     (''projects'' := [make_row ''projects'' [(''id'', Text ''p1''), (''name'', Text ''p''), (''path'', Text ''/p''),
        (''created_at'', Stamp 0), (''updated_at'', Stamp 0)]],
      ''servers'' := [make_row ''servers'' [(''id'', Text ''s1''), (''name'', Text ''box''), (''hostname'', Text ''h''),
        (''username'', Text ''root''), (''created_at'', Stamp 0)]],
      ''integrations'' := [make_row ''integrations'' [(''id'', Text ''i1''), (''kind'', Text ''github''), (''created_at'', Stamp 0)]],
      ''deployment_targets'' := [demo_target_row],
      ''deployments'' := [make_row ''deployments'' [(''id'', Text ''d0''), (''project_id'', Text ''p1''), (''server_id'', Text ''s1''),
        (''code_rollback_ref'', Text ''abc'')]]), faults = [] \<rparr>"

lemma demo_deploy_db_ok: "db_ok demo_deploy_db" "faults demo_deploy_db = []"
  by (simp_all add: db_ok_def demo_deploy_db_def demo_target_row_def schema_tables_def row_not_null_def not_null_cols_def
      required_cols_def column_defaults_def make_row_def row_references_def foreign_keys_def)

lemma demo_rows:
  "target_Get ''t1'' demo_deploy_db = (Inr (scanTarget demo_target_row), demo_deploy_db)"
  "tgt_ServerID (scanTarget demo_target_row) = ''s1''" "tgt_ProjectID (scanTarget demo_target_row) = ''p1''"
  "fst (server_Get ''s1'' demo_deploy_db) = Inr (scanServer (hd (tables demo_deploy_db ''servers'')))"
  "\<exists>p \<in> set (tables demo_deploy_db ''projects''). by_id ''p1'' p"
  "\<not> (\<exists>r \<in> set (tables demo_deploy_db ''deployments''). by_id (env_uuid demo_deploy_env) r)"
  by (simp_all add: target_Get_def server_Get_def repo_get_nofault demo_deploy_db_def by_id_def make_row_def demo_target_row_def
      scanTarget_def text_col_def demo_deploy_env_def)

lemma demo_credentials:
  "fst (resolveCloneURL (env_secret demo_deploy_env) (scanTarget demo_target_row) demo_deploy_db) =
     Inr (''https://tok@h/r'', ''https://***@h/r'')"
  by (simp add: resolveCloneURL_def integration_Get_def repo_get_nofault demo_deploy_db_ok(2))
    (simp add: demo_deploy_db_def by_id_def make_row_def demo_target_row_def scanTarget_def text_col_def
      demo_deploy_env_def https_prefix_def has_prefix_def trim_prefix_def Let_def)

lemma deployment_is_recorded_witness:
  "\<exists>dep d' fs' err. Deploy (\<lambda>_. []) demo_deploy_env ''t1'' (demo_deploy_db, \<lambda>_. None) = (Inr (dep, err), (d', fs')) \<and>
     deployment_Get ''d1'' d' = (Inr dep, d')"
proof -
  have "fst (server_Get (tgt_ServerID (scanTarget demo_target_row)) demo_deploy_db) = Inr (scanServer (hd (tables demo_deploy_db ''servers'')))"
    "\<exists>p \<in> set (tables demo_deploy_db ''projects''). by_id (tgt_ProjectID (scanTarget demo_target_row)) p"
    using demo_rows by simp_all
  from deployment_is_recorded [OF demo_deploy_db_ok(2,1) demo_rows(1) this demo_rows(6), of "\<lambda>_. []" "\<lambda>_. None"]
  show ?thesis by (auto simp: demo_deploy_env_def split: if_splits)
qed

lemma rollback_is_recorded_and_final_witness:
  "\<exists>dep d' fs' err. Rollback (\<lambda>_. []) demo_deploy_env ''d0'' (demo_deploy_db, \<lambda>_. None) = (Inr (dep, err), (d', fs')) \<and>
     dep_CommitSHA dep = ''abc''"
proof -
  define prev where "prev = scanDeployment (hd (tables demo_deploy_db ''deployments''))"
  have prev: "deployment_Get ''d0'' demo_deploy_db = (Inr prev, demo_deploy_db)" "dep_CodeRollbackRef prev = ''abc''"
    "dep_ProjectID prev = ''p1''"
    by (simp_all add: deployment_Get_def repo_get_nofault prev_def demo_deploy_db_def by_id_def make_row_def
        scanDeployment_def text_col_def)
  have l: "target_ListByProject (dep_ProjectID prev) demo_deploy_db = (Inr [scanTarget demo_target_row], demo_deploy_db)"
    unfolding prev(3)
    by (simp add: target_ListByProject_def repo_list_nofault demo_deploy_db_ok(2) order_by_def)
      (simp add: demo_deploy_db_def demo_target_row_def make_row_def)
  have s: "fst (server_Get (tgt_ServerID (scanTarget demo_target_row)) demo_deploy_db) = Inr (scanServer (hd (tables demo_deploy_db ''servers'')))"
    and p: "\<exists>p \<in> set (tables demo_deploy_db ''projects''). by_id (dep_ProjectID prev) p"
    using demo_rows by (simp_all add: prev(3))
  have "dep_CodeRollbackRef prev \<noteq> []" by (simp add: prev(2))
  from rollback_is_recorded_and_final [OF demo_deploy_db_ok(2,1) prev(1) this l s p demo_rows(6), of "\<lambda>_. []" "\<lambda>_. None"]
  show ?thesis unfolding prev(2) by blast
qed

lemma remote_output_is_logged_as_printed_witness:
  "\<exists>xs ys srv. run_log (snd (fst (deploy_run demo_deploy_env srv (scanTarget demo_target_row) demo_deploy_db))) =
     xs @ ''fatal: https://tok@h/r'' @ ys"
proof -
  have "env_connect demo_deploy_env srv = Inr demo_session" for srv by (simp add: demo_deploy_env_def)
  from remote_output_is_logged_as_printed [OF this demo_credentials] show ?thesis
    by (simp add: demo_session_def checkoutCmd_def has_prefix_def) blast
qed

end
