(* ===== verification/Decimal.thy ===== *)
theory Decimal
  imports Prelude
begin

text \<open>Decimal numerals: \<open>strconv.Atoi\<close>, which is \<open>ParseInt\<close> to base 10 and 64 bits, and \<open>strconv.Itoa\<close>.\<close>

text \<open>An optional sign and at least one digit; a value out of range is an error.\<close>

definition is_digit :: "char \<Rightarrow> bool" where
  "is_digit c \<longleftrightarrow> 48 \<le> (of_char c :: nat) \<and> (of_char c :: nat) \<le> 57"

fun digits_value :: "int \<Rightarrow> string \<Rightarrow> int option" where
  "digits_value acc [] = Some acc"
| "digits_value acc (c # cs) = (if is_digit c then digits_value (acc * 10 + (of_char c - 48)) cs else None)"

definition atoi :: "string \<Rightarrow> int option" where
  "atoi s =
     (let (neg, ds) = (case s of c # cs \<Rightarrow> if c = CHR ''-'' then (True, cs) else if c = CHR ''+'' then (False, cs) else (False, s)
                       | [] \<Rightarrow> (False, []))
      in if ds = [] then None
         else (case digits_value 0 ds of
                 None \<Rightarrow> None
               | Some n \<Rightarrow> (let v = (if neg then - n else n) in if in_range64 v then Some v else None)))"

fun digits_of :: "nat \<Rightarrow> string" where
  "digits_of n = (if n < 10 then [char_of (48 + n)] else digits_of (n div 10) @ [char_of (48 + n mod 10)])"

definition itoa :: "int \<Rightarrow> string" where
  "itoa i = (if i < 0 then CHR ''-'' # digits_of (nat (- i)) else digits_of (nat i))"

section \<open>Reading back what was printed\<close>

declare digits_of.simps [simp del]

lemma digit_char [simp]:
  assumes "k < 10"
  shows "of_char (char_of (48 + k :: nat) :: char) = (48 + k :: nat)" "is_digit (char_of (48 + k :: nat))"
  using assms by (simp_all add: is_digit_def)

lemma digit_int: "k < 10 \<Longrightarrow> (of_char (char_of (48 + k :: nat) :: char) :: int) = 48 + int k"
  by (metis digit_char(1) of_char_of of_nat_add of_nat_numeral of_nat_of_char)

lemma digits_value_append:
  "digits_value acc (xs @ ys) = (case digits_value acc xs of None \<Rightarrow> None | Some v \<Rightarrow> digits_value v ys)"
  by (induction xs arbitrary: acc) simp_all

lemma digits_of_ne [simp]: "digits_of n \<noteq> []"
  by (subst digits_of.simps) simp

lemma digits_value_digits_of: "digits_value 0 (digits_of n) = Some (int n)"
proof (induction n rule: digits_of.induct)
  case (1 n)
  show ?case
  proof (cases "n < 10")
    case True
    then show ?thesis by (subst digits_of.simps) (simp add: digit_int)
  next
    case False
    have "n mod 10 < 10" by simp
    moreover have "int (n div 10) * 10 + int (n mod 10) = int n"
      using arg_cong [OF div_mult_mod_eq [of n 10], of int] by (simp only: of_nat_add of_nat_mult of_nat_numeral)
    ultimately show ?thesis
      using 1 [OF False] False by (subst digits_of.simps) (simp add: digits_value_append digit_int)
  qed
qed

lemma digits_of_digit: "c \<in> set (digits_of n) \<Longrightarrow> is_digit c"
proof (induction n rule: digits_of.induct)
  case (1 n)
  then show ?case by (subst (asm) (2) digits_of.simps) (auto split: if_splits)
qed

lemma atoi_itoa:
  assumes "in_range64 i"
  shows "atoi (itoa i) = Some i"
proof (cases "i < 0")
  case True
  then show ?thesis using assms by (simp add: atoi_def itoa_def digits_value_digits_of)
next
  case False
  obtain c cs where c: "digits_of (nat i) = c # cs" by (metis digits_of_ne neq_Nil_conv)
  then have "is_digit c" using digits_of_digit by (metis list.set_intros(1))
  then have "c \<noteq> CHR ''-''" "c \<noteq> CHR ''+''" by (auto simp: is_digit_def)
  moreover have "digits_value 0 (c # cs) = Some i" using digits_value_digits_of [of "nat i"] c False by simp
  ultimately show ?thesis using assms False c by (simp add: atoi_def itoa_def)
qed

lemma atoi_in_range: "atoi s = Some i \<Longrightarrow> in_range64 i"
  by (auto simp: atoi_def Let_def split: prod.splits if_splits option.splits list.splits)

end
