(* ===== verification/Handlers.thy ===== *)
theory Handlers
  imports ServiceManager Projects DomainNames Proxy HostsFile Decimal
begin

text \<open>
  The handlers of \<open>internal/api/v1\<close> in which the components meet: services (\<open>services.go\<close>), projects
  (\<open>projects.go\<close>), domains (\<open>domains.go\<close>) and the audit log (\<open>audit.go\<close>).

  The state of the daemon is the service manager with its store, the hosts-file provider and the
  proxy's routing table; both of the latter may be absent (\<open>nil\<close> in \<open>Deps\<close>).  A handler takes the
  decoded request and returns a response with the new state.  A request body that does not decode is
  \<open>Inl\<close> with the decoder's message.  Requests are taken one at a time.
\<close>

record panel =
  p_mgr :: manager
  p_hosts :: "hosts_file option"
  p_proxy :: "router option"

text \<open>What one request draws from its environment: ids, the clock, ports, and the fate of processes.\<close>

record call =
  cl_uuid :: string
  cl_audit :: string
  cl_now :: int
  cl_logdir :: string
  cl_spawn :: spawn
  cl_signals :: signals
  cl_port :: "string + int"
  cl_parse :: parser
  cl_fs :: fs

datatype api_error =
    Message string
  | HostsRefused hosts_error
  | HostsConflict "conflict list"
  | DomainRefused domain_error
  | ProjectRefused project_error
  | ServiceRefused manager_error
  | StoreRefused sql_error

text \<open>A response is the HTTP status with either an error or the payload.\<close>

type_synonym 'a response = "nat \<times> (api_error + 'a)"

type_synonym 'a handler = "panel \<Rightarrow> 'a response \<times> panel"

abbreviation refuse :: "nat \<Rightarrow> api_error \<Rightarrow> 'a response" where
  "refuse code e \<equiv> (code, Inl e)"

abbreviation answer :: "nat \<Rightarrow> 'a \<Rightarrow> 'a response" where
  "answer code a \<equiv> (code, Inr a)"

definition panel_db :: "panel \<Rightarrow> db" where
  "panel_db p = store (p_mgr p)"

definition set_db :: "db \<Rightarrow> panel \<Rightarrow> panel" where
  "set_db d p = p\<lparr> p_mgr := (p_mgr p)\<lparr> store := d \<rparr> \<rparr>"

text \<open>Run a database operation, or one of the manager, on the daemon.\<close>

definition on_db :: "(db \<Rightarrow> 'a \<times> db) \<Rightarrow> panel \<Rightarrow> 'a \<times> panel" where
  "on_db f p = (case f (panel_db p) of (a, d) \<Rightarrow> (a, set_db d p))"

definition on_mgr :: "(manager \<Rightarrow> 'a \<times> manager) \<Rightarrow> panel \<Rightarrow> 'a \<times> panel" where
  "on_mgr f p = (case f (p_mgr p) of (a, m) \<Rightarrow> (a, p\<lparr> p_mgr := m \<rparr>))"

definition on_proxy :: "(router \<Rightarrow> router) \<Rightarrow> panel \<Rightarrow> panel" where
  "on_proxy f p = p\<lparr> p_proxy := map_option f (p_proxy p) \<rparr>"

section \<open>The audit log\<close>

definition resultOf :: "'e + 'a \<Rightarrow> string" where
  "resultOf r = (if isl r then ''error'' else ''ok'')"

definition audit_cols :: "string \<Rightarrow> int \<Rightarrow> string \<Rightarrow> string \<Rightarrow> string \<Rightarrow> string \<Rightarrow> string option \<Rightarrow> (string \<times> sqlval) list" where
  "audit_cols uuid now action targetType targetID result command =
     [(''id'', Text uuid), (''actor'', Text ''local''), (''action'', Text action), (''target_type'', Text targetType),
      (''target_id'', Text targetID), (''result'', Text result), (''created_at'', rfc3339 now),
      (''metadata_json'', Json (JObj (case command of None \<Rightarrow> [] | Some cmd \<Rightarrow> [(''command'', JStr cmd)])))]"

text \<open>A failed write of the audit log is only logged.\<close>

definition audit :: "call \<Rightarrow> string \<Rightarrow> string \<Rightarrow> string \<Rightarrow> string \<Rightarrow> panel \<Rightarrow> panel" where
  "audit cl action targetType targetID result p =
     snd (on_db (sql_insert ''audit_events''
       (audit_cols (cl_audit cl) (cl_now cl) action targetType targetID result None)) p)"

section \<open>Services\<close>

record service_view =
  sv_ID :: string
  sv_Name :: string
  sv_Command :: string
  sv_Args :: "string list"
  sv_Cwd :: string
  sv_Env :: env
  sv_PID :: int
  sv_Status :: string
  sv_LogFile :: string

definition service_view_of :: "manager \<Rightarrow> service_record \<Rightarrow> service_view" where
  "service_view_of m r =
     (let v = \<lparr> sv_ID = rec_ID r, sv_Name = rec_Name r, sv_Command = rec_Command r, sv_Args = rec_Args r,
                sv_Cwd = rec_Cwd r, sv_Env = rec_Env r, sv_PID = rec_PID r, sv_Status = rec_Status r,
                sv_LogFile = rec_LogFile r \<rparr>
      in case mgr_Get (rec_ID r) m of
           None \<Rightarrow> v
         | Some live \<Rightarrow> v\<lparr> sv_PID := svc_PID live, sv_Status := svc_Status live \<rparr>)"

definition listServiceViews :: "service_view list handler" where
  "listServiceViews p =
     (case on_db listServiceRecords p of
        (Inl e, p') \<Rightarrow> (refuse 500 (StoreRefused e), p')
      | (Inr records, p') \<Rightarrow> (answer 200 (map (service_view_of (p_mgr p)) records), p'))"

text \<open>The body of a start request is the request it describes; the other fields are unset.\<close>

definition startService :: "call \<Rightarrow> string \<Rightarrow> string + start_request \<Rightarrow> service handler" where
  "startService cl i body p =
     (case body of
        Inl msg \<Rightarrow> (refuse 400 (Message msg), p)
      | Inr b \<Rightarrow>
         (let req = b\<lparr> req_ID := i, req_ProjectID := [], req_Kind := [], req_Autostart := False, req_DependsOn := [],
                       req_RestartPolicy := [], req_GracefulTimeout := 0, req_MaxRestarts := 0, req_RestartWindow := 0 \<rparr>
          in case on_mgr (mgr_Start (cl_logdir cl) (cl_spawn cl) (cl_now cl) req) p of
               (r, p1) \<Rightarrow>
                 (let p2 = audit cl ''service.start'' ''service'' i (resultOf r) p1 in
                  case r of Inl e \<Rightarrow> (refuse 400 (ServiceRefused e), p2) | Inr proc \<Rightarrow> (answer 200 proc, p2))))"

definition stopService :: "call \<Rightarrow> string \<Rightarrow> string \<Rightarrow> string \<Rightarrow> unit handler" where
  "stopService cl i confirm graceful p =
     (if confirm \<noteq> ''true'' then (refuse 400 (Message ''stop requires confirm=true''), p)
      else (case on_mgr (mgr_Stop (cl_logdir cl) (cl_now cl) (graceful \<noteq> ''false'') 0 (cl_signals cl) i) p of
              (r, p1) \<Rightarrow>
                (let p2 = audit cl ''service.stop'' ''service'' i (resultOf r) p1 in
                 case r of Inl e \<Rightarrow> (refuse 400 (ServiceRefused e), p2) | Inr _ \<Rightarrow> (answer 200 (), p2))))"

definition restartService :: "call \<Rightarrow> string \<Rightarrow> unit handler" where
  "restartService cl i p =
     (case on_mgr (mgr_Restart (cl_logdir cl) (cl_spawn cl) (cl_now cl) (cl_signals cl) i) p of
        (r, p1) \<Rightarrow>
          (let p2 = audit cl ''service.restart'' ''service'' i (resultOf r) p1 in
           case r of Inl e \<Rightarrow> (refuse 400 (ServiceRefused e), p2) | Inr _ \<Rightarrow> (answer 200 (), p2)))"

section \<open>Domains\<close>

record domain_body =
  db_Hostname :: string
  db_ProjectID :: string
  db_Port :: int

definition projectServiceID :: "string \<Rightarrow> string" where
  "projectServiceID projectID = ''project:'' @ projectID"

definition loopback :: "string \<Rightarrow> string" where
  "loopback port = ''127.0.0.1:'' @ port"

definition env_value :: "string \<Rightarrow> env \<Rightarrow> string" where
  "env_value k e = (case map_of e k of None \<Rightarrow> [] | Some v \<Rightarrow> v)"

definition listDomains :: "domain list handler" where
  "listDomains p =
     (case on_db ListDomains p of
        (Inl e, p') \<Rightarrow> (refuse 500 (DomainRefused e), p')
      | (Inr ds, p') \<Rightarrow> (answer 200 ds, p'))"

text \<open>A domain of a project that is running is routed at once.\<close>

definition route_new_domain :: "domain_body \<Rightarrow> domain \<Rightarrow> panel \<Rightarrow> domain \<times> panel" where
  "route_new_domain b dn p =
     (if db_ProjectID b = [] \<or> p_proxy p = None then (dn, p)
      else (case mgr_Get (projectServiceID (db_ProjectID b)) (p_mgr p) of
              None \<Rightarrow> (dn, p)
            | Some live \<Rightarrow>
               (let portStr = env_value ''PORT'' (svc_Env live) in
                if portStr = [] then (dn, p)
                else (let p1 = on_proxy (route_Set (dom_Hostname dn) (loopback portStr)) p in
                      case atoi portStr of
                        None \<Rightarrow> (dn, p1)
                      | Some port \<Rightarrow> (dn\<lparr> dom_Port := port \<rparr>, snd (on_db (SetPort (dom_ID dn) port) p1))))))"

text \<open>The hosts-file provider's operations, when there is one.\<close>

definition hosts_conflicts_of :: "string \<Rightarrow> panel \<Rightarrow> hosts_error + conflict list" where
  "hosts_conflicts_of h p = (case p_hosts p of None \<Rightarrow> Inr [] | Some f \<Rightarrow> hosts_Conflicts h f)"

definition on_hosts :: "(hosts_file \<Rightarrow> (hosts_error + unit) \<times> hosts_file) \<Rightarrow> panel \<Rightarrow> (hosts_error + unit) \<times> panel" where
  "on_hosts f p =
     (case p_hosts p of
        None \<Rightarrow> (Inr (), p)
      | Some h \<Rightarrow> (case f h of (r, h') \<Rightarrow> (r, p\<lparr> p_hosts := Some h' \<rparr>)))"

definition createDomain :: "call \<Rightarrow> string + domain_body \<Rightarrow> domain handler" where
  "createDomain cl body p =
     (case body of
        Inl msg \<Rightarrow> (refuse 400 (Message msg), p)
      | Inr b \<Rightarrow>
         (if db_Hostname b = [] then (refuse 400 (Message ''hostname must not be empty''), p)
          else
           (case hosts_conflicts_of (db_Hostname b) p of
              Inl e \<Rightarrow> (refuse 400 (HostsRefused e), p)
            | Inr (c # cs) \<Rightarrow> (refuse 409 (HostsConflict (c # cs)), p)
            | Inr [] \<Rightarrow>
               (case on_db (CreateDomain (cl_uuid cl) (cl_now cl) (db_Hostname b) (db_ProjectID b) (db_Port b)) p of
                  (Inl e, p1) \<Rightarrow>
                    (refuse (if e = HostnameTaken then 409 else 400) (DomainRefused e),
                     audit cl ''domain.create'' ''domain'' (db_Hostname b) ''error'' p1)
                | (Inr dn, p1) \<Rightarrow>
                    (case on_hosts (hosts_Add (db_Hostname b)) p1 of
                       (Inl e, p2) \<Rightarrow>
                         (refuse 400 (HostsRefused e),
                          audit cl ''domain.create'' ''domain'' (db_Hostname b) ''error''
                            (snd (on_db (DeleteDomain (dom_ID dn)) p2)))
                     | (Inr _, p2) \<Rightarrow>
                         (case route_new_domain b dn (audit cl ''domain.create'' ''domain'' (dom_ID dn) ''ok'' p2) of
                            (dn', p3) \<Rightarrow> (answer 201 dn', p3)))))))"

definition writeDomainError :: "domain_error \<Rightarrow> 'a response" where
  "writeDomainError e = (if e = DomainNotFound then refuse 404 (Message ''domain not found'') else refuse 400 (DomainRefused e))"

definition deleteDomain :: "call \<Rightarrow> string \<Rightarrow> string \<Rightarrow> unit handler" where
  "deleteDomain cl i confirm p =
     (if confirm \<noteq> ''true'' then (refuse 400 (Message ''delete requires confirm=true''), p)
      else
       (case on_db (GetDomain i) p of
          (Inl e, p1) \<Rightarrow> (writeDomainError e, p1)
        | (Inr dn, p1) \<Rightarrow>
           (case on_hosts (hosts_Remove (dom_Hostname dn)) p1 of
              (Inl e, p2) \<Rightarrow> (refuse 400 (HostsRefused e), audit cl ''domain.delete'' ''domain'' i ''error'' p2)
            | (Inr _, p2) \<Rightarrow>
               (let p3 = on_proxy (route_Remove (dom_Hostname dn)) p2 in
                case on_db (DeleteDomain i) p3 of
                  (r, p4) \<Rightarrow>
                    (let p5 = audit cl ''domain.delete'' ''domain'' i (resultOf r) p4 in
                     case r of Inl e \<Rightarrow> (writeDomainError e, p5) | Inr _ \<Rightarrow> (answer 200 (), p5))))))"

definition domainConflicts :: "string \<Rightarrow> conflict list handler" where
  "domainConflicts i p =
     (case on_db (GetDomain i) p of
        (Inl e, p1) \<Rightarrow> (writeDomainError e, p1)
      | (Inr dn, p1) \<Rightarrow>
         (case hosts_conflicts_of (dom_Hostname dn) p1 of
            Inl e \<Rightarrow> (refuse 400 (HostsRefused e), p1)
          | Inr cs \<Rightarrow> (answer 200 cs, p1)))"

section \<open>Projects\<close>

definition writeProjectError :: "project_error \<Rightarrow> 'a response" where
  "writeProjectError e =
     (if e = ProjectNotFound then refuse 404 (Message ''project not found'') else refuse 400 (ProjectRefused e))"

definition listProjects :: "project list handler" where
  "listProjects p =
     (case on_db project_List p of
        (Inl e, p') \<Rightarrow> (refuse 500 (ProjectRefused e), p')
      | (Inr ps, p') \<Rightarrow> (answer 200 ps, p'))"

text \<open>The body gives the name and the path.\<close>

definition createProject :: "call \<Rightarrow> string + string \<times> string \<Rightarrow> project handler" where
  "createProject cl body p =
     (case body of
        Inl msg \<Rightarrow> (refuse 400 (Message msg), p)
      | Inr (name, path) \<Rightarrow>
         (case on_db (project_Create (cl_parse cl) (cl_fs cl) (cl_uuid cl) (cl_now cl) name path) p of
            (r, p1) \<Rightarrow>
              (let p2 = audit cl ''project.create'' ''project'' path (resultOf r) p1 in
               case r of Inl e \<Rightarrow> (refuse 400 (ProjectRefused e), p2) | Inr q \<Rightarrow> (answer 201 q, p2))))"

definition getProject :: "string \<Rightarrow> project handler" where
  "getProject i p =
     (case on_db (project_Get i) p of (Inl e, p1) \<Rightarrow> (writeProjectError e, p1) | (Inr q, p1) \<Rightarrow> (answer 200 q, p1))"

definition redetectProject :: "call \<Rightarrow> string \<Rightarrow> project handler" where
  "redetectProject cl i p =
     (case on_db (project_Redetect (cl_parse cl) (cl_fs cl) (cl_now cl) i) p of
        (r, p1) \<Rightarrow>
          (let p2 = audit cl ''project.detect'' ''project'' i (resultOf r) p1 in
           case r of Inl e \<Rightarrow> (writeProjectError e, p2) | Inr q \<Rightarrow> (answer 200 q, p2)))"

definition isForeignKeyErr :: "project_error \<Rightarrow> bool" where
  "isForeignKeyErr e \<longleftrightarrow>
     (case e of ProjectSql ForeignKeyErr \<Rightarrow> True
      | ProjectSql (DriverErr m) \<Rightarrow> contains m ''FOREIGN KEY constraint failed''
      | _ \<Rightarrow> False)"

text \<open>The loop that unbinds the domains of a project.\<close>

fun unbind_domains :: "domain list \<Rightarrow> panel \<Rightarrow> panel" where
  "unbind_domains [] p = p"
| "unbind_domains (dn # dns) p =
     unbind_domains dns (snd (on_db (ClearProject (dom_ID dn)) (on_proxy (route_Remove (dom_Hostname dn)) p)))"

definition deleteProject :: "call \<Rightarrow> string \<Rightarrow> string \<Rightarrow> unit handler" where
  "deleteProject cl i confirm p =
     (if confirm \<noteq> ''true'' then (refuse 400 (Message ''delete requires confirm=true''), p)
      else
       (let svcID = projectServiceID i;
            p1 = (if mgr_Get svcID (p_mgr p) = None then p
                  else snd (on_mgr (mgr_Stop (cl_logdir cl) (cl_now cl) True 0 (cl_signals cl) svcID) p));
            p2 = snd (on_db (DeleteServiceRecordsForProject i) p1);
            p3 = (case on_db (ListDomainsForProject i) p2 of
                    (Inl _, p') \<Rightarrow> p' | (Inr bound, p') \<Rightarrow> unbind_domains bound p')
        in case on_db (project_Delete i) p3 of
             (r, p4) \<Rightarrow>
               (let p5 = audit cl ''project.delete'' ''project'' i (resultOf r) p4 in
                case r of
                  Inl e \<Rightarrow>
                    (if isForeignKeyErr e
                     then refuse 409 (Message (''can't delete: this project still has deployment targets or '' @
                            ''deployment history attached -- remove those first''))
                     else writeProjectError e, p5)
                | Inr _ \<Rightarrow> (answer 200 (), p5))))"

text \<open>The port that \<open>syncProjectProxyRoutes\<close> reads off the address: what follows the last colon.\<close>

definition port_of_addr :: "string \<Rightarrow> int" where
  "port_of_addr addr =
     (if CHR '':'' \<in> set addr
      then (case atoi (rev (takeWhile (\<lambda>c. c \<noteq> CHR '':'') (rev addr))) of None \<Rightarrow> 0 | Some n \<Rightarrow> n) else 0)"

fun sync_routes :: "string \<Rightarrow> domain list \<Rightarrow> panel \<Rightarrow> string list \<times> panel" where
  "sync_routes addr [] p = ([], p)"
| "sync_routes addr (dn # dns) p =
     (if \<not> dom_Enabled dn then sync_routes addr dns p
      else (let p1 = (if addr = [] then on_proxy (route_Remove (dom_Hostname dn)) p
                      else snd (on_db (SetPort (dom_ID dn) (port_of_addr addr))
                             (on_proxy (route_Set (dom_Hostname dn) addr) p)))
            in case sync_routes addr dns p1 of (touched, p2) \<Rightarrow> (dom_Hostname dn # touched, p2)))"

definition syncProjectProxyRoutes :: "string \<Rightarrow> string \<Rightarrow> panel \<Rightarrow> string list \<times> panel" where
  "syncProjectProxyRoutes projectID addr p =
     (if p_proxy p = None then ([], p)
      else (case on_db (ListDomainsForProject projectID) p of
              (Inl _, p1) \<Rightarrow> ([], p1)
            | (Inr dns, p1) \<Rightarrow> sync_routes addr dns p1))"

text \<open>The start request for a project on a port.\<close>

definition project_request :: "project \<Rightarrow> int \<Rightarrow> start_request" where
  "project_request q port =
     (let words = str_fields (prj_RunCommand q);
          args = (if prj_DetectedKind q = ''laravel'' then tl words @ [''--host=127.0.0.1'', ''--port='' @ itoa port] else tl words)
      in \<lparr> req_ID = projectServiceID (prj_ID q), req_Name = prj_Name q, req_Command = hd words, req_Args = args,
           req_Cwd = prj_Path q, req_Env = [(''PORT'', itoa port), (''HOST'', ''127.0.0.1'')],
           req_ProjectID = prj_ID q, req_Kind = ''project'', req_Autostart = False, req_DependsOn = [],
           req_RestartPolicy = RestartOnFailure, req_GracefulTimeout = 0, req_MaxRestarts = 0, req_RestartWindow = 0 \<rparr>)"

definition startProject :: "call \<Rightarrow> string \<Rightarrow> (service \<times> int \<times> string list) handler" where
  "startProject cl i p =
     (case on_db (project_Get i) p of
        (Inl e, p1) \<Rightarrow> (writeProjectError e, p1)
      | (Inr q, p1) \<Rightarrow>
         (if trim_space (prj_RunCommand q) = [] then
            (refuse 400 (Message (''project has no run command detected -- set one by re-detecting or starting it '' @
               ''as a plain process from Processes'')), p1)
          else if mgr_Get (projectServiceID (prj_ID q)) (p_mgr p1) \<noteq> None then
            (refuse 409 (Message ''project is already running''), p1)
          else
           (case cl_port cl of
              Inl msg \<Rightarrow> (refuse 500 (Message (''failed to allocate a local port: '' @ msg)), p1)
            | Inr port \<Rightarrow>
               (case on_mgr (mgr_Start (cl_logdir cl) (cl_spawn cl) (cl_now cl) (project_request q port)) p1 of
                  (r, p2) \<Rightarrow>
                    (let p3 = audit cl ''project.start'' ''project'' i (resultOf r) p2 in
                     case r of
                       Inl e \<Rightarrow> (refuse 400 (ServiceRefused e), p3)
                     | Inr proc \<Rightarrow>
                         (case syncProjectProxyRoutes (prj_ID q) (loopback (itoa port)) p3 of
                            (bound, p4) \<Rightarrow> (answer 200 (proc, port, bound), p4)))))))"

definition stopProject :: "call \<Rightarrow> string \<Rightarrow> string \<Rightarrow> string list handler" where
  "stopProject cl i confirm p =
     (if confirm \<noteq> ''true'' then (refuse 400 (Message ''stop requires confirm=true''), p)
      else (case on_mgr (mgr_Stop (cl_logdir cl) (cl_now cl) True 0 (cl_signals cl) (projectServiceID i)) p of
              (r, p1) \<Rightarrow>
                (let p2 = audit cl ''project.stop'' ''project'' i (resultOf r) p1 in
                 case r of
                   Inl e \<Rightarrow> (refuse 400 (ServiceRefused e), p2)
                 | Inr _ \<Rightarrow>
                     (case syncProjectProxyRoutes i [] p2 of (unbound, p3) \<Rightarrow> (answer 200 unbound, p3)))))"

section \<open>What the pieces of a handler leave alone\<close>

lemma panel_simps [simp]:
  "panel_db (set_db d p) = d" "set_db d (set_db e p) = set_db d p" "set_db (panel_db p) p = p"
  "p_hosts (set_db d p) = p_hosts p" "p_proxy (set_db d p) = p_proxy p"
  "procs (p_mgr (set_db d p)) = procs (p_mgr p)" "alive (p_mgr (set_db d p)) = alive (p_mgr p)"
  "panel_db (on_proxy f p) = panel_db p" "p_hosts (on_proxy f p) = p_hosts p"
  "p_proxy (on_proxy f p) = map_option f (p_proxy p)" "p_mgr (on_proxy f p) = p_mgr p"
  "panel_db (p\<lparr> p_hosts := hf \<rparr>) = panel_db p"
  by (simp_all add: panel_db_def set_db_def on_proxy_def)

lemma on_db_eq: "on_db f p = (fst (f (panel_db p)), set_db (snd (f (panel_db p))) p)"
  by (simp add: on_db_def case_prod_unfold)

text \<open>Without driver faults a statement on one table leaves the others alone and meets no fault.\<close>

lemma sql_nofault_frame:
  assumes "faults d = []"
  shows "faults (snd (sql_insert t cols d)) = []" "t' \<noteq> t \<Longrightarrow> tables (snd (sql_insert t cols d)) t' = tables d t'"
    "faults (snd (sql_update t P assigns d)) = []" "t' \<noteq> t \<Longrightarrow> tables (snd (sql_update t P assigns d)) t' = tables d t'"
    "faults (snd (sql_delete t P d)) = []" "t' \<noteq> t \<Longrightarrow> tables (snd (sql_delete t P d)) t' = tables d t'"
  using assms
  by (simp_all add: sql_insert_nofault sql_update_nofault sql_delete_nofault raw_insert_def raw_update_def raw_delete_def Let_def)

lemma audit_frame:
  assumes "faults (panel_db p) = []"
  shows "faults (panel_db (audit cl a tt ti r p)) = []"
    "t \<noteq> ''audit_events'' \<Longrightarrow> tables (panel_db (audit cl a tt ti r p)) t = tables (panel_db p) t"
    "p_hosts (audit cl a tt ti r p) = p_hosts p" "p_proxy (audit cl a tt ti r p) = p_proxy p"
    "procs (p_mgr (audit cl a tt ti r p)) = procs (p_mgr p)" "alive (p_mgr (audit cl a tt ti r p)) = alive (p_mgr p)"
  using sql_nofault_frame(1,2) [OF assms] by (simp_all add: audit_def on_db_eq)

lemma audit_rest:
  "p_hosts (audit cl a tt ti r p) = p_hosts p" "p_proxy (audit cl a tt ti r p) = p_proxy p"
  "procs (p_mgr (audit cl a tt ti r p)) = procs (p_mgr p)" "alive (p_mgr (audit cl a tt ti r p)) = alive (p_mgr p)"
  by (simp_all add: audit_def on_db_eq)

section \<open>Creating a domain\<close>

text \<open>A domain that has just been created can be deleted again, which restores the table.\<close>

lemma delete_new_domain:
  fixes now port :: int and h pid :: string
  assumes "faults d = []" "db_ok d" "\<not> (\<exists>r \<in> set (tables d ''domains''). by_id u r)"
  defines "d1 \<equiv> with_table ''domains'' (tables d ''domains'' @ [make_row ''domains'' (domain_cols u now h pid port)]) d"
  shows "DeleteDomain u d1 = (Inr (), d)"
proof -
  have "\<not> referenced_by d1 ''domains'' (Text u)"
  proof
    assume "referenced_by d1 ''domains'' (Text u)"
    then obtain r where r: "r \<in> set (tables d1 ''certificates'')" "r ''domain_id'' = Text u"
      by (auto simp: referenced_by_def schema_tables_def foreign_keys_def split: if_splits)
    then have "r \<in> set (tables d ''certificates'')" by (simp add: d1_def)
    then have "row_references d ''certificates'' r" using assms(2) by (auto simp: db_ok_def schema_tables_def)
    with r(2) assms(3) show False by (auto simp: row_references_def foreign_keys_def by_id_def)
  qed
  moreover have "filter (\<lambda>r. \<not> by_id u r) (tables d ''domains'') = tables d ''domains''"
    using assms(3) by (auto intro: filter_True)
  ultimately show ?thesis
    using assms(1) by (simp add: DeleteDomain_def repo_delete_nofault d1_def domain_row_ok by_id_def with_table_def)
qed

text \<open>Routing a new domain may set the port of its row, and nothing else in the tables.\<close>

lemma SetPort_frame:
  assumes "faults d = []"
  shows "faults (snd (SetPort i port d)) = []" "t \<noteq> ''domains'' \<Longrightarrow> tables (snd (SetPort i port d)) t = tables d t"
    "\<exists>f. tables (snd (SetPort i port d)) ''domains'' = map (\<lambda>r. if by_id i r then f r else r) (tables d ''domains'') \<and>
       (\<forall>r c. c \<noteq> ''port'' \<longrightarrow> f r c = r c)"
proof -
  let ?u = "sql_update ''domains'' (by_id i) [(''port'', nullablePort port)] d"
  have eq: "snd (SetPort i port d) = snd ?u"
    by (simp add: SetPort_def update_by_id_def split: prod.splits sum.splits)
  show "faults (snd (SetPort i port d)) = []" "t \<noteq> ''domains'' \<Longrightarrow> tables (snd (SetPort i port d)) t = tables d t"
    using sql_nofault_frame(3,4) [OF assms] by (simp_all add: eq)
  have "tables (snd ?u) ''domains'' = map (\<lambda>r. if by_id i r then set_cols [(''port'', nullablePort port)] r else r) (tables d ''domains'') \<or>
    tables (snd ?u) ''domains'' = map (\<lambda>r. if by_id i r then r else r) (tables d ''domains'')"
    using assms by (simp add: sql_update_nofault raw_update_def Let_def)
  moreover have "\<forall>r c. c \<noteq> ''port'' \<longrightarrow> set_cols [(''port'', nullablePort port)] r c = r c" by (simp add: set_cols_def)
  ultimately show "\<exists>f. tables (snd (SetPort i port d)) ''domains'' = map (\<lambda>r. if by_id i r then f r else r) (tables d ''domains'') \<and>
       (\<forall>r c. c \<noteq> ''port'' \<longrightarrow> f r c = r c)"
    unfolding eq by (elim disjE) (blast, rule exI [of _ "\<lambda>r. r"], simp)
qed

lemma route_new_domain_frame:
  assumes "faults (panel_db p) = []" "route_new_domain b dn p = (dn', p')"
  shows "p_hosts p' = p_hosts p" "dom_Hostname dn' = dom_Hostname dn" "dom_ID dn' = dom_ID dn"
    "t \<noteq> ''domains'' \<Longrightarrow> tables (panel_db p') t = tables (panel_db p) t"
    "\<exists>f. tables (panel_db p') ''domains'' = map (\<lambda>r. if by_id (dom_ID dn) r then f r else r) (tables (panel_db p) ''domains'') \<and>
       (\<forall>r c. c \<noteq> ''port'' \<longrightarrow> f r c = r c)"
proof -
  have "(p' = p \<or> (\<exists>f. p' = on_proxy f p) \<or> (\<exists>f port. p' = snd (on_db (SetPort (dom_ID dn) port) (on_proxy f p)))) \<and>
    dom_Hostname dn' = dom_Hostname dn \<and> dom_ID dn' = dom_ID dn"
    using assms(2) by (auto simp: route_new_domain_def Let_def split: if_splits option.splits)
  moreover have idf: "\<exists>f. tables (panel_db p) ''domains'' = map (\<lambda>r. if by_id (dom_ID dn) r then f r else r) (tables (panel_db p) ''domains'') \<and>
       (\<forall>r c. c \<noteq> ''port'' \<longrightarrow> f r c = r c)" by (rule exI [of _ "\<lambda>r. r"]) simp
  ultimately show "p_hosts p' = p_hosts p" "dom_Hostname dn' = dom_Hostname dn" "dom_ID dn' = dom_ID dn"
    "t \<noteq> ''domains'' \<Longrightarrow> tables (panel_db p') t = tables (panel_db p) t"
    "\<exists>f. tables (panel_db p') ''domains'' = map (\<lambda>r. if by_id (dom_ID dn) r then f r else r) (tables (panel_db p) ''domains'') \<and>
       (\<forall>r c. c \<noteq> ''port'' \<longrightarrow> f r c = r c)"
    using SetPort_frame [OF assms(1)] by (auto simp: on_db_eq)
qed

text \<open>Creating a domain keeps the database and the hosts file in step: when it succeeds the hostname
  is registered and the hosts file is what \<open>Add\<close> makes of it; when it is refused, for whatever reason,
  the hosts file, the routes and every table but the audit log are as before.\<close>

theorem create_domain_keeps_hosts_in_step:
  assumes "faults (panel_db p) = []" "db_ok (panel_db p)"
    and "\<not> (\<exists>r \<in> set (tables (panel_db p) ''domains''). by_id (cl_uuid cl) r)"
    and "createDomain cl (Inr b) p = (resp, p')"
  shows "case snd resp of
      Inl e \<Rightarrow> p_hosts p' = p_hosts p \<and> p_proxy p' = p_proxy p \<and>
        (\<forall>t. t \<noteq> ''audit_events'' \<longrightarrow> tables (panel_db p') t = tables (panel_db p) t)
    | Inr dn \<Rightarrow> dom_Hostname dn = db_Hostname b \<and> dom_ID dn = cl_uuid cl \<and>
        (\<exists>row. tables (panel_db p') ''domains'' = tables (panel_db p) ''domains'' @ [row] \<and>
           row ''id'' = Text (cl_uuid cl) \<and> row ''hostname'' = Text (db_Hostname b)) \<and>
        (\<forall>f. p_hosts p = Some f \<longrightarrow> (\<exists>f'. hosts_Add (db_Hostname b) f = (Inr (), f') \<and> p_hosts p' = Some f'))"
proof -
  let ?d = "panel_db p" let ?h = "db_Hostname b" let ?u = "cl_uuid cl"
  let ?create = "CreateDomain ?u (cl_now cl) ?h (db_ProjectID b) (db_Port b) ?d"
  let ?row = "make_row ''domains'' (domain_cols ?u (cl_now cl) ?h (db_ProjectID b) (db_Port b))"
  define d1 where "d1 = with_table ''domains'' (tables ?d ''domains'' @ [?row]) ?d"
  have f1: "faults d1 = []" using assms(1) by (simp add: d1_def)
  show ?thesis
  proof (cases "?h = [] \<or> hosts_conflicts_of ?h p \<noteq> Inr []")
    case True
    then have "p' = p \<and> isl (snd resp)"
      using assms(4) by (auto simp: createDomain_def split: sum.splits list.splits if_splits)
    then show ?thesis by (auto split: sum.splits)
  next
    case go: False
    show ?thesis
    proof (cases "fst ?create")
      case (Inl e)
      have "?create = (Inl e, ?d)"
        using Inl unfolding CreateDomain_nofault [OF assms(1)] by (auto split: if_splits)
      then have "p' = audit cl ''domain.create'' ''domain'' ?h ''error'' p \<and> isl (snd resp)"
        using assms(4) go by (auto simp: createDomain_def on_db_eq)
      then show ?thesis using audit_frame [OF assms(1)] by (auto split: sum.splits)
    next
      case (Inr dn)
      then have create: "?create = (Inr dn, d1)" and dn: "dom_ID dn = ?u" "dom_Hostname dn = ?h"
        unfolding CreateDomain_nofault [OF assms(1)] d1_def by (auto split: if_splits)
      obtain r p2 where hosts: "on_hosts (hosts_Add ?h) (set_db d1 p) = (r, p2)" by force
      then have p2: "panel_db p2 = d1" "p_proxy p2 = p_proxy p" "r = Inr () \<Longrightarrow> \<forall>f. p_hosts p = Some f \<longrightarrow>
          (\<exists>f'. hosts_Add ?h f = (Inr (), f') \<and> p_hosts p2 = Some f')" "isl r \<Longrightarrow> p_hosts p2 = p_hosts p"
        using hosts_failed(1) by (auto simp: isl_def on_hosts_def panel_db_def set_db_def split: option.splits prod.splits)
      show ?thesis
      proof (cases r)
        case (Inl e)
        have del: "DeleteDomain ?u d1 = (Inr (), ?d)"
          unfolding d1_def by (rule delete_new_domain [OF assms(1-3)])
        then have "p' = audit cl ''domain.create'' ''domain'' ?h ''error'' (set_db ?d p2) \<and> isl (snd resp)"
          using assms(4) go create hosts Inl p2(1) by (auto simp: createDomain_def on_db_eq dn)
        then show ?thesis
          using audit_frame [of "set_db ?d p2"] assms(1) p2 Inl by (auto split: sum.splits)
      next
        case (Inr v)
        define p3 where "p3 = audit cl ''domain.create'' ''domain'' (dom_ID dn) ''ok'' p2"
        have f2: "faults (panel_db p2) = []" using p2(1) f1 by simp
        then have p3: "faults (panel_db p3) = []" "tables (panel_db p3) ''domains'' = tables ?d ''domains'' @ [?row]" "p_hosts p3 = p_hosts p2"
          using audit_frame [OF f2] p2(1) by (simp_all add: p3_def d1_def)
        obtain dn' where r: "route_new_domain b dn p3 = (dn', p')" "snd resp = Inr dn'"
          using assms(4) go create hosts Inr by (auto simp: createDomain_def on_db_eq p3_def split: prod.splits)
        note fr = route_new_domain_frame [OF p3(1) r(1)]
        obtain f where f: "tables (panel_db p') ''domains'' = map (\<lambda>r. if by_id ?u r then f r else r) (tables ?d ''domains'' @ [?row])"
          "\<forall>r c. c \<noteq> ''port'' \<longrightarrow> f r c = r c"
          using fr(5) p3(2) dn(1) by auto
        have "map (\<lambda>r. if by_id ?u r then f r else r) (tables ?d ''domains'') = tables ?d ''domains''"
          using assms(3) by (auto intro: map_idI)
        with f have "tables (panel_db p') ''domains'' = tables ?d ''domains'' @ [f ?row]"
          "f ?row ''id'' = Text ?u" "f ?row ''hostname'' = Text ?h" by (simp_all add: by_id_def domain_row_ok)
        then show ?thesis using r(2) fr(1-3) dn p2(3) p3(3) Inr by simp
      qed
    qed
  qed
qed

section \<open>Deleting a domain\<close>

lemma GetDomain_found:
  assumes "faults d = []" "fst (GetDomain i d) = Inr dn"
  shows "GetDomain i d = (Inr dn, d)" "\<exists>r \<in> set (tables d ''domains''). by_id i r"
proof -
  from assms obtain r rs where r: "filter (by_id i) (tables d ''domains'') = r # rs"
    by (auto simp: GetDomain_def repo_get_nofault split: list.splits)
  with assms show "GetDomain i d = (Inr dn, d)" by (simp add: GetDomain_def repo_get_nofault)
  from r have "r \<in> set (filter (by_id i) (tables d ''domains''))" by simp
  then show "\<exists>r \<in> set (tables d ''domains''). by_id i r" by auto
qed

lemma GetDomain_cong:
  assumes "faults d = []" "faults d' = []" "tables d' ''domains'' = tables d ''domains''"
  shows "fst (GetDomain i d') = fst (GetDomain i d)"
  using assms by (simp add: GetDomain_def repo_get_nofault split: list.splits)

lemma route_removed: "route_Lookup h (route_Remove h r) = None"
  by (simp add: router.find_drop equal_fold_def)

text \<open>Deleting a domain that has no certificate removes it, its hosts entry and its route.  With a
  certificate the deletion stops half way: the hosts entry and the route are gone, the domain is
  still registered, and trying again only reports that there is no hosts entry.\<close>

theorem certificate_stops_domain_deletion_half_way:
  assumes "faults (panel_db p) = []" "fst (GetDomain i (panel_db p)) = Inr dn"
    and "p_hosts p = Some f" "hosts_Remove (dom_Hostname dn) f = (Inr (), f')"
    and "deleteDomain cl i ''true'' p = (resp, p')"
  shows "p_hosts p' = Some f' \<and> (\<forall>rt. p_proxy p' = Some rt \<longrightarrow> route_Lookup (dom_Hostname dn) rt = None) \<and>
    (if referenced_by (panel_db p) ''domains'' (Text i)
     then resp = refuse 400 (DomainRefused (DomainSql ForeignKeyErr)) \<and> fst (GetDomain i (panel_db p')) = Inr dn \<and>
       fst (deleteDomain cl' i ''true'' p') = refuse 400 (HostsRefused HostsNotFound)
     else resp = answer 200 () \<and> fst (GetDomain i (panel_db p')) = Inl DomainNotFound)"
proof -
  let ?d = "panel_db p" let ?h = "dom_Hostname dn"
  note get = GetDomain_found [OF assms(1,2)]
  define p3 where "p3 = on_proxy (route_Remove ?h) (p\<lparr> p_hosts := Some f' \<rparr>)"
  have p3: "panel_db p3 = ?d" "p_hosts p3 = Some f'" "p_proxy p3 = map_option (route_Remove ?h) (p_proxy p)"
    by (simp_all add: p3_def on_proxy_def panel_db_def)
  define r where "r = fst (DeleteDomain i ?d)"
  define p4 where "p4 = set_db (snd (DeleteDomain i ?d)) p3"
  define p5 where "p5 = audit cl ''domain.delete'' ''domain'' i (resultOf r) p4"
  have run: "deleteDomain cl i ''true'' p = ((case r of Inl e \<Rightarrow> writeDomainError e | Inr _ \<Rightarrow> answer 200 ()), p5)"
    by (simp add: deleteDomain_def on_db_eq get(1) on_hosts_def assms(3,4) Let_def p3_def r_def p4_def p5_def
        split: sum.splits)
  with assms(5) have p': "p' = p5" and resp: "resp = (case r of Inl e \<Rightarrow> writeDomainError e | Inr _ \<Rightarrow> answer 200 ())"
    by simp_all
  have f4: "faults (panel_db p4) = []"
    using assms(1) by (simp add: p4_def DeleteDomain_def repo_delete_nofault)
  note au = audit_frame [OF f4, where cl = cl and a = "''domain.delete''" and tt = "''domain''" and ti = i and r = "resultOf r", folded p5_def]
  have keep: "p_hosts p' = Some f'" "p_proxy p' = map_option (route_Remove ?h) (p_proxy p)"
    using au p3 by (simp_all add: p' p4_def)
  have gd: "fst (GetDomain i (panel_db p')) = fst (GetDomain i (snd (DeleteDomain i ?d)))"
    using au(1,2) f4 by (intro GetDomain_cong) (simp_all add: p' p4_def)
  have route: "\<forall>rt. p_proxy p' = Some rt \<longrightarrow> route_Lookup ?h rt = None" using keep(2) route_removed by auto
  note del = repo_delete_nofault [OF assms(1), of "''domains''" DomainNotFound DomainSql i, folded DeleteDomain_def]
  show ?thesis
  proof (cases "referenced_by ?d ''domains'' (Text i)")
    case True
    then have D: "DeleteDomain i ?d = (Inl (DomainSql ForeignKeyErr), ?d)" using del get(2) by simp
    then have g': "fst (GetDomain i (panel_db p')) = Inr dn" using gd assms(2) by simp
    have "faults (panel_db p') = []" using au(1) by (simp add: p')
    from GetDomain_found(1) [OF this g'] have "fst (deleteDomain cl' i ''true'' p') = refuse 400 (HostsRefused HostsNotFound)"
      using keep(1) hosts_Remove_twice [OF assms(4)]
      by (simp add: deleteDomain_def on_db_eq on_hosts_def)
    then show ?thesis using True D g' keep(1) route by (simp add: resp r_def writeDomainError_def)
  next
    case False
    then have D: "fst (DeleteDomain i ?d) = Inr ()" using del get(2) by simp
    then have "DeleteDomain i ?d = (Inr (), snd (DeleteDomain i ?d))" by (metis prod.collapse)
    moreover have "faults (snd (DeleteDomain i ?d)) = []" using f4 by (simp add: p4_def)
    ultimately have "GetDomain i (snd (DeleteDomain i ?d)) = (Inl DomainNotFound, snd (DeleteDomain i ?d))"
      using domains.del_gone by blast
    then show ?thesis using False D gd keep(1) route by (simp add: resp r_def)
  qed
qed

section \<open>Projects, their processes and their domains\<close>

lemma upsert_frame:
  assumes "faults d = []"
  shows "faults (snd (sql_upsert t cols upd d)) = []" "t' \<noteq> t \<Longrightarrow> tables (snd (sql_upsert t cols upd d)) t' = tables d t'"
proof -
  have u: "faults (snd (raw_update t P a d)) = []" "t' \<noteq> t \<Longrightarrow> tables (snd (raw_update t P a d)) t' = tables d t'" for P a t'
    using assms by (simp_all add: raw_update_def Let_def)
  have i: "faults (snd (raw_insert t r d)) = []" "t' \<noteq> t \<Longrightarrow> tables (snd (raw_insert t r d)) t' = tables d t'" for r t'
    using assms by (simp_all add: raw_insert_def)
  show "faults (snd (sql_upsert t cols upd d)) = []" "t' \<noteq> t \<Longrightarrow> tables (snd (sql_upsert t cols upd d)) t' = tables d t'"
    using u i assms by (auto simp: sql_upsert_def go_bind_def Let_def case_prod_unfold split: sum.splits)
qed

lemma persist_frame:
  assumes "faults (store m) = []"
  shows "faults (store (persist now s m)) = []" "t \<noteq> ''services'' \<Longrightarrow> tables (store (persist now s m)) t = tables (store m) t"
  using upsert_frame [OF assms] by (simp_all add: persist_def upsertServiceRecord_def)

lemma startProcess_frame:
  assumes "faults (store m) = []"
  shows "faults (store (snd (startProcess l sp now s ts m))) = []"
    "t \<noteq> ''services'' \<Longrightarrow> tables (store (snd (startProcess l sp now s ts m))) t = tables (store m) t"
  using persist_frame [of "m\<lparr> procs := _, alive := _ \<rparr>"] assms
  by (cases sp; simp add: startProcess_def Let_def)+

lemma mgr_Start_frame:
  assumes "faults (store m) = []"
  shows "faults (store (snd (mgr_Start l sp now req m))) = []"
    "t \<noteq> ''services'' \<Longrightarrow> tables (store (snd (mgr_Start l sp now req m))) t = tables (store m) t"
  using startProcess_frame [OF assms] assms by (simp_all add: mgr_Start_def split: option.splits)

lemma mgr_Stop_frame:
  assumes "faults (store m) = []" "tracked m" "mgr_Stop l now graceful timeout sg i m = (r, m')"
  shows "faults (store m') = []" "t \<noteq> ''services'' \<Longrightarrow> tables (store m') t = tables (store m) t"
proof -
  from mgr_Stop_cases [OF assms(3)]
  have "m' = m \<or> (\<exists>s rp m1. stop_request i m = (Inr rp, m1) \<and> m' = persist now s (collect_exit rp m1))"
    using stopped_settles stop_request_tracked(3) [OF assms(2)] by metis
  moreover have "store (collect_exit rp m1) = store m" if "stop_request i m = (Inr rp, m1)" for rp m1
    using that by (auto simp: collect_exit_def stop_request_def Let_def split: option.splits)
  ultimately show "faults (store m') = []" "t \<noteq> ''services'' \<Longrightarrow> tables (store m') t = tables (store m) t"
    using assms(1) persist_frame [of "collect_exit _ _"] by auto
qed

lemma project_Get_found:
  assumes "faults d = []" "fst (project_Get i d) = Inr q"
  shows "project_Get i d = (Inr q, d)" "prj_ID q = i" "\<exists>r \<in> set (tables d ''projects''). by_id i r"
proof -
  from assms obtain r rs where r: "filter (by_id i) (tables d ''projects'') = r # rs"
    by (auto simp: project_Get_def repo_get_nofault split: list.splits)
  with assms show "project_Get i d = (Inr q, d)" by (simp add: project_Get_def repo_get_nofault)
  from r have "r \<in> set (filter (by_id i) (tables d ''projects''))" by simp
  then have m: "r \<in> set (tables d ''projects'')" "by_id i r" by simp_all
  then show "\<exists>r \<in> set (tables d ''projects''). by_id i r" by auto
  from r assms m(2) show "prj_ID q = i" by (auto simp: project_Get_def repo_get_nofault scanProject_def text_col_def by_id_def)
qed

text \<open>The enabled domains bound to a project, in the order the handlers visit them.\<close>

definition bound_domains :: "string \<Rightarrow> db \<Rightarrow> domain list" where
  "bound_domains i d =
     map scanDomain (order_by (stamp_col ''created_at'') (filter (\<lambda>r. r ''project_id'' = Text i) (tables d ''domains'')))"

definition bound_hosts :: "string \<Rightarrow> db \<Rightarrow> string list" where
  "bound_hosts i d = map dom_Hostname (filter dom_Enabled (bound_domains i d))"

lemma ListDomainsForProject_nofault: "faults d = [] \<Longrightarrow> ListDomainsForProject i d = (Inr (bound_domains i d), d)"
  by (simp add: ListDomainsForProject_def repo_list_nofault bound_domains_def)

lemma sync_routes_eq:
  assumes "sync_routes addr dns p = (touched, p')"
  shows "touched = map dom_Hostname (filter dom_Enabled dns)" "p_hosts p' = p_hosts p"
    "procs (p_mgr p') = procs (p_mgr p)" "alive (p_mgr p') = alive (p_mgr p)"
    "p_proxy p' = map_option (\<lambda>rt. foldl (\<lambda>t h. if addr = [] then route_Remove h t else route_Set h addr t) rt
       (map dom_Hostname (filter dom_Enabled dns))) (p_proxy p)"
  using assms
proof (induction dns arbitrary: p touched p')
  case (Cons dn dns)
  { case 1 with Cons show ?case by (auto simp: Let_def split: if_splits prod.splits) }
  { case 2 with Cons show ?case by (auto simp: Let_def on_db_eq split: if_splits prod.splits) }
  { case 3 with Cons show ?case by (auto simp: Let_def on_db_eq split: if_splits prod.splits) }
  { case 4 with Cons show ?case by (auto simp: Let_def on_db_eq split: if_splits prod.splits) }
  { case 5 with Cons show ?case
      by (auto simp: Let_def on_db_eq option.map_comp comp_def split: if_splits prod.splits) }
qed (simp_all add: option.map_ident)

section \<open>Hostnames that differ in case, and the properties at concrete inputs\<close>

definition demo_call :: "string \<Rightarrow> call" where
  "demo_call uuid =
     \<lparr> cl_uuid = uuid, cl_audit = ''e'' @ uuid, cl_now = 0, cl_logdir = ''/logs'', cl_spawn = Inr 7,
       cl_signals = \<lparr> on_term = IgnoresTerm, kill_error = None, kill_code = -1, respawn = Inr 8 \<rparr>, cl_port = Inr 80,
       cl_parse = (\<lambda>_. None), cl_fs = (\<lambda>_. None) \<rparr>"

definition demo_body :: "string \<Rightarrow> string \<Rightarrow> domain_body" where
  "demo_body h pid = \<lparr> db_Hostname = h, db_ProjectID = pid, db_Port = 0 \<rparr>"

definition demo_panel :: "(string \<times> row list) list \<Rightarrow> string \<Rightarrow> panel" where
  "demo_panel tabs hosts =
     \<lparr> p_mgr = idle_manager\<lparr> store := \<lparr> tables = (\<lambda>t. case map_of tabs t of None \<Rightarrow> [] | Some rs \<Rightarrow> rs), faults = [] \<rparr> \<rparr>,
       p_hosts = Some (demo_hosts hosts), p_proxy = Some NewRouter \<rparr>"

text \<open>The hosts a file maps to the local address on behalf of the daemon.\<close>

definition managed_names :: "panel \<Rightarrow> string list" where
  "managed_names p =
     (case p_hosts p of None \<Rightarrow> [] | Some f \<Rightarrow> (case hosts_List f of Inl _ \<Rightarrow> [] | Inr hs \<Rightarrow> hs))"

definition registered_names :: "panel \<Rightarrow> string list" where
  "registered_names p = (case fst (ListDomains (panel_db p)) of Inl _ \<Rightarrow> [] | Inr ds \<Rightarrow> map dom_Hostname ds)"

text \<open>Two hostnames that differ in case only are registered as two domains but share one hosts entry:
  deleting one of them takes the entry of the other, which stays registered without one.\<close>

theorem case_variants_share_a_hosts_entry:
  "let p1 = snd (createDomain (demo_call ''d1'') (Inr (demo_body ''app.test'' [])) (demo_panel [] []));
       p2 = snd (createDomain (demo_call ''d2'') (Inr (demo_body ''App.test'' [])) p1);
       p3 = snd (deleteDomain (demo_call ''x'') ''d1'' ''true'' p2)
   in registered_names p2 = [''app.test'', ''App.test''] \<and> managed_names p2 = [''app.test''] \<and>
      registered_names p3 = [''App.test''] \<and> managed_names p3 = []"
  by code_simp

lemma create_domain_keeps_hosts_in_step_witness:
  "\<exists>dn p'. createDomain (demo_call ''d1'') (Inr (demo_body ''app.test'' [])) (demo_panel [] []) = ((201, Inr dn), p') \<and>
     dom_Hostname dn = ''app.test''"
proof -
  let ?p = "demo_panel [] []"
  obtain resp p' where r: "createDomain (demo_call ''d1'') (Inr (demo_body ''app.test'' [])) ?p = (resp, p')" by (metis surj_pair)
  have "faults (panel_db ?p) = []" "db_ok (panel_db ?p)" "\<not> (\<exists>r \<in> set (tables (panel_db ?p) ''domains''). by_id (cl_uuid (demo_call ''d1'')) r)"
    by (simp_all add: panel_db_def demo_panel_def db_ok_def)
  note c = create_domain_keeps_hosts_in_step [OF this r]
  have "case fst (createDomain (demo_call ''d1'') (Inr (demo_body ''app.test'' [])) ?p) of (code, r) \<Rightarrow> code = 201 \<and> \<not> isl r"
    by code_simp
  with r obtain dn where "resp = (201, Inr dn)" by (cases "snd resp") (auto split: prod.splits)
  with c r show ?thesis by (auto simp: demo_body_def)
qed

definition demo_certified :: panel where
  "demo_certified = demo_panel
     [(''domains'', [make_row ''domains'' (domain_cols ''d1'' 0 ''app.test'' [] 0)]),
      (''certificates'', [make_row ''certificates'' [(''id'', Text ''c1''), (''domain_id'', Text ''d1'')]])]
     (''127.0.0.1 app.test # volt-managed'')"

lemma certificate_stops_domain_deletion_half_way_witness:
  "fst (deleteDomain (demo_call ''x'') ''d1'' ''true'' demo_certified) = refuse 400 (DomainRefused (DomainSql ForeignKeyErr)) \<and>
   managed_names (snd (deleteDomain (demo_call ''x'') ''d1'' ''true'' demo_certified)) = []"
proof -
  let ?dn = "scanDomain (make_row ''domains'' (domain_cols ''d1'' 0 ''app.test'' [] 0))"
  define f where "f = demo_hosts ''127.0.0.1 app.test # volt-managed''"
  have p: "faults (panel_db demo_certified) = []" "p_hosts demo_certified = Some f"
    by (simp_all add: panel_db_def demo_certified_def demo_panel_def f_def)
  have g: "fst (GetDomain ''d1'' (panel_db demo_certified)) = Inr ?dn"
    by (simp add: GetDomain_def repo_get_nofault p(1)) (simp add: panel_db_def demo_certified_def demo_panel_def by_id_def domain_row_ok)
  have ref: "referenced_by (panel_db demo_certified) ''domains'' (Text ''d1'')"
    by (simp add: referenced_by_def schema_tables_def foreign_keys_def panel_db_def demo_certified_def demo_panel_def make_row_def)
  have hn: "dom_Hostname ?dn = ''app.test''" by (simp add: scan_domain_cols)
  have "\<not> isl (fst (hosts_Remove ''app.test'' f))" unfolding f_def by code_simp
  then have h: "hosts_Remove (dom_Hostname ?dn) f = (Inr (), snd (hosts_Remove ''app.test'' f))"
    unfolding hn by (cases "hosts_Remove ''app.test'' f"; cases "fst (hosts_Remove ''app.test'' f)") auto
  obtain resp p' where r: "deleteDomain (demo_call ''x'') ''d1'' ''true'' demo_certified = (resp, p')" by (metis surj_pair)
  have "hosts_List (snd (hosts_Remove ''app.test'' f)) = Inr []" unfolding f_def by code_simp
  then show ?thesis using certificate_stops_domain_deletion_half_way [OF p(1) g p(2) h r] ref r
    by (simp add: managed_names_def)
qed

end
