(* ===== verification/Frames.thy ===== *)
theory Frames
  imports Database
begin

text \<open>
  Frames: which tables an operation can change when no statement meets a driver fault, and rows that are
  added and then updated.  The handlers of \<open>internal/api/v1\<close> compose operations of several
  repositories; what one of them leaves alone is all the others need to know of it.
\<close>

named_theorems frame "operations that touch only some tables"

definition only_touches :: "string set \<Rightarrow> db \<Rightarrow> db \<Rightarrow> bool" where
  "only_touches T d d' \<longleftrightarrow> (faults d = [] \<longrightarrow> faults d' = [] \<and> (\<forall>t. t \<notin> T \<longrightarrow> tables d' t = tables d t))"

lemma only_touchesD:
  assumes "only_touches T d d'" "faults d = []"
  shows "faults d' = []" "t \<notin> T \<Longrightarrow> tables d' t = tables d t"
  using assms by (auto simp: only_touches_def)

lemma only_touches_refl [simp]: "only_touches T d d"
  by (simp add: only_touches_def)

lemma only_touches_trans: "only_touches T d e \<Longrightarrow> only_touches U e f \<Longrightarrow> only_touches (T \<union> U) d f"
  by (simp add: only_touches_def)

lemma only_touches_mono: "only_touches T d e \<Longrightarrow> T \<subseteq> U \<Longrightarrow> only_touches U d e"
  by (auto simp: only_touches_def)

lemma only_touches_trans_same: "only_touches T d e \<Longrightarrow> only_touches T e f \<Longrightarrow> only_touches T d f"
  by (auto simp: only_touches_def)

lemma sql_frame [frame]:
  "only_touches {t} d (snd (sql_insert t cols d))" "only_touches {t} d (snd (sql_update t P assigns d))"
  "only_touches {t} d (snd (sql_delete t P d))" "only_touches {} d (snd (sql_query t P d))"
  by (simp_all add: only_touches_def sql_insert_nofault sql_update_nofault sql_delete_nofault sql_query_nofault
      raw_insert_def raw_update_def raw_delete_def Let_def)

lemma repo_frame [frame]:
  "only_touches {} d (snd (repo_get t scan absent wrap i d))" "only_touches {} d (snd (repo_list t P ord scan wrap d))"
  "only_touches {t} d (snd (repo_delete t absent wrap i d))"
  by (simp_all add: only_touches_def repo_get_nofault repo_list_nofault repo_delete_nofault split: list.splits)

lemma sql_upsert_frame [frame]: "only_touches {t} d (snd (sql_upsert t cols upd d))"
  by (auto simp: only_touches_def sql_upsert_def go_bind_def raw_update_def raw_insert_def Let_def
      split: sum.splits prod.splits)

lemma map_err_frame: "snd (map_err f m d) = snd (m d)"
  by (simp add: map_err_def split: sum.splits prod.splits)

text \<open>The same as destruction rules, for the case analyses of composed operations.\<close>

lemma frame_dest:
  "sql_insert t cols d = (r1, d') \<Longrightarrow> only_touches {t} d d'" "sql_update t P assigns d = (r2, d') \<Longrightarrow> only_touches {t} d d'"
  "sql_delete t P d = (r2, d') \<Longrightarrow> only_touches {t} d d'" "sql_query t P d = (r3, d') \<Longrightarrow> only_touches {} d d'"
  "sql_upsert t cols upd d = (r1, d') \<Longrightarrow> only_touches {t} d d'"
  "repo_get t scan absent wrap i d = (r4, d') \<Longrightarrow> only_touches {} d d'"
  "repo_list t P ord scan' wrap d = (r5, d') \<Longrightarrow> only_touches {} d d'"
  "repo_delete t absent wrap i d = (r6, d') \<Longrightarrow> only_touches {t} d d'"
  by (metis snd_conv sql_frame sql_upsert_frame repo_frame)+

text \<open>An insert of a row under a new id.\<close>

lemma insert_fresh:
  assumes "faults d = []" "unique_cols t = [''id'']" "r = make_row t cols" "r ''id'' = Text i"
    and "\<not> (\<exists>x \<in> set (tables d t). by_id i x)" "row_not_null t r" "row_references d t r"
  shows "sql_insert t cols d = (Inr (), with_table t (tables d t @ [r]) d)"
  using assms by (auto simp: sql_insert_nofault raw_insert_def rows_conflict_def by_id_def)

text \<open>An update by id of the row that was inserted last.\<close>

lemma update_last:
  assumes "faults d = []" "tables d t = rs @ [r]" "unique_cols t = [''id'']" "r ''id'' = Text i"
    and "\<not> (\<exists>x \<in> set rs. by_id i x)" "''id'' \<notin> fst ` set assigns" "no_conflicts t rs"
    and "row_not_null t (set_cols assigns r)" "row_references d t (set_cols assigns r)"
  shows "sql_update t (by_id i) assigns d = (Inr 1, with_table t (rs @ [set_cols assigns r]) d)"
proof -
  have [simp]: "filter (by_id i) rs = []" using assms(5) by (simp add: filter_empty_conv)
  have [simp]: "map (\<lambda>x. if by_id i x then set_cols assigns x else x) rs = rs"
    using assms(5) by (induction rs) auto
  have "set_cols assigns r ''id'' = Text i" using assms(4,6) by (simp add: set_cols_id)
  then have "no_conflicts t (rs @ [set_cols assigns r])"
    using assms(3,5,7) by (auto simp: no_conflicts_append rows_conflict_def by_id_def)
  moreover have "by_id i r" using assms(4) by (simp add: by_id_def)
  ultimately show ?thesis using assms(1,2,8,9) by (simp add: sql_update_nofault raw_update_def Let_def)
qed

lemma no_conflicts_same_unique:
  "(\<And>r c. c \<in> set (unique_cols t) \<Longrightarrow> f r c = r c) \<Longrightarrow> no_conflicts t (map f rs) \<longleftrightarrow> no_conflicts t rs"
  by (induction rs) (auto simp: rows_conflict_def)

text \<open>A row that is there can be read.\<close>

lemma repo_get_frame:
  assumes "faults d = []" "faults d' = []" "tables d' t = tables d t"
  shows "repo_get t scan absent wrap i d' = (fst (repo_get t scan absent wrap i d), d')"
  using assms by (simp add: repo_get_nofault split: list.splits)

lemma repo_get_pure:
  assumes "faults d = []"
  shows "repo_get t scan absent wrap i d = (fst (repo_get t scan absent wrap i d), d)"
  using assms by (simp add: repo_get_nofault split: list.splits)

lemma repo_get_found:
  assumes "faults d = []" "fst (repo_get t scan absent wrap i d) = Inr a"
  shows "\<exists>r \<in> set (tables d t). by_id i r \<and> a = scan r"
proof -
  from assms obtain r rs where r: "filter (by_id i) (tables d t) = r # rs" and a: "a = scan r"
    by (auto simp: repo_get_nofault split: list.splits)
  from r have "r \<in> set (filter (by_id i) (tables d t))" by simp
  with a show ?thesis by auto
qed

lemma repo_get_last:
  assumes "faults d = []" "tables d t = rs @ [r]" "r ''id'' = Text i" "\<not> (\<exists>x \<in> set rs. by_id i x)"
  shows "repo_get t scan absent wrap i d = (Inr (scan r), d)"
proof -
  have "filter (by_id i) rs = []" using assms(4) by (simp add: filter_empty_conv)
  then show ?thesis using assms(1-3) by (simp add: repo_get_nofault by_id_def)
qed

lemma row_references_cong:
  "(\<And>c t'. (c, t') \<in> set (foreign_keys t) \<Longrightarrow> tables d' t' = tables d t') \<Longrightarrow> row_references d' t r = row_references d t r"
  by (fastforce simp: row_references_def)

end
