(* ===== verification/ProjectHandlers.thy ===== *)
theory ProjectHandlers
  imports Handlers Frames
begin

text \<open>
  The properties of the project handlers of \<open>internal/api/v1/projects.go\<close>, which span the service
  manager, the database and the proxy's routing table: starting and stopping a project with the
  domains bound to it, and deleting one.
\<close>

section \<open>Starting and stopping\<close>

lemma syncProjectProxyRoutes_eq:
  assumes "faults (panel_db p) = []" "p_proxy p = Some rt" "syncProjectProxyRoutes i addr p = (touched, p')"
  shows "touched = bound_hosts i (panel_db p)"
    "procs (p_mgr p') = procs (p_mgr p)" "alive (p_mgr p') = alive (p_mgr p)"
    "p_proxy p' = Some (foldl (\<lambda>t h. if addr = [] then route_Remove h t else route_Set h addr t) rt (bound_hosts i (panel_db p)))"
proof -
  have "sync_routes addr (bound_domains i (panel_db p)) p = (touched, p')"
    using assms by (simp add: syncProjectProxyRoutes_def on_db_eq ListDomainsForProject_nofault)
  from sync_routes_eq [OF this] assms(2)
  show "touched = bound_hosts i (panel_db p)"
    "procs (p_mgr p') = procs (p_mgr p)" "alive (p_mgr p') = alive (p_mgr p)"
    "p_proxy p' = Some (foldl (\<lambda>t h. if addr = [] then route_Remove h t else route_Set h addr t) rt (bound_hosts i (panel_db p)))"
    by (simp_all add: bound_hosts_def)
qed

lemma bound_hosts_cong: "tables d' ''domains'' = tables d ''domains'' \<Longrightarrow> bound_hosts i d' = bound_hosts i d"
  by (simp add: bound_hosts_def bound_domains_def)

lemma mgr_Start_ok:
  assumes "fst (mgr_Start l sp now req m) = Inr s"
  shows "mgr_Get (req_ID req) (snd (mgr_Start l sp now req m)) = Some s" "svc_Env s = req_Env req"
proof -
  from assms obtain pid where "start_check req m = None" "sp = Inr pid"
    by (cases sp) (auto simp: mgr_Start_def startProcess_def split: option.splits)
  with assms show "mgr_Get (req_ID req) (snd (mgr_Start l sp now req m)) = Some s" "svc_Env s = req_Env req"
    by (auto simp: mgr_Start_def startProcess_def Let_def mgr_Get_def started_service_def toService_def)
qed

text \<open>C3: When a project has been started, the manager runs its service with the allocated port in its
  environment, and the proxy sends exactly the enabled hostnames bound to the project, in any case, to
  that port; all other hostnames are routed as before.\<close>

theorem started_project_is_routed:
  assumes "faults (panel_db p) = []" "p_proxy p = Some rt"
    and "startProject cl i p = ((200, Inr (proc, port, hosts)), p')"
  shows "\<exists>rt'. p_proxy p' = Some rt' \<and> hosts = bound_hosts i (panel_db p) \<and>
    (\<forall>k. route_Lookup k rt' =
       (if \<exists>h \<in> set hosts. h \<noteq> [] \<and> equal_fold k h then Some (loopback (itoa port)) else route_Lookup k rt)) \<and>
    mgr_Get (projectServiceID i) (p_mgr p') = Some proc \<and> env_value ''PORT'' (svc_Env proc) = itoa port"
proof -
  obtain r d where r: "project_Get i (panel_db p) = (r, d)" by force
  with assms(3) have "isl r \<Longrightarrow> False"
    by (auto simp: isl_def startProject_def on_db_eq writeProjectError_def split: if_splits)
  then obtain q where g: "fst (project_Get i (panel_db p)) = Inr q" using r by (cases r) auto
  note pg = project_Get_found [OF assms(1) g]
  let ?req = "project_request q port"
  let ?start = "mgr_Start (cl_logdir cl) (cl_spawn cl) (cl_now cl) ?req (p_mgr p)"
  define p3 where "p3 = audit cl ''project.start'' ''project'' i (resultOf (fst ?start)) (p\<lparr> p_mgr := snd ?start \<rparr>)"
  from assms(3) have ok: "fst ?start = Inr proc" and s: "syncProjectProxyRoutes i (loopback (itoa port)) p3 = (hosts, p')"
    by (auto simp: startProject_def on_db_eq on_mgr_def pg p3_def Let_def case_prod_unfold writeProjectError_def
        split: if_splits sum.splits)
  have "faults (store (p_mgr p)) = []" using assms(1) by (simp add: panel_db_def)
  note fr = mgr_Start_frame [OF this, where l = "cl_logdir cl" and sp = "cl_spawn cl" and now = "cl_now cl" and req = ?req]
  have f: "faults (panel_db (p\<lparr> p_mgr := snd ?start \<rparr>)) = []" using fr(1) by (simp add: panel_db_def)
  have p3: "faults (panel_db p3) = []" "p_proxy p3 = Some rt" "procs (p_mgr p3) = procs (snd ?start)"
    "tables (panel_db p3) ''domains'' = tables (panel_db p) ''domains''"
    using audit_frame [OF f] fr(2) assms(2) by (simp_all add: p3_def panel_db_def)
  note sy = syncProjectProxyRoutes_eq [OF p3(1,2) s]
  have addr: "loopback (itoa port) \<noteq> []" by (simp add: loopback_def)
  have "req_ID ?req = projectServiceID i" "env_value ''PORT'' (req_Env ?req) = itoa port"
    by (simp_all add: project_request_def Let_def pg(2) env_value_def)
  with mgr_Start_ok [OF ok] sy(2) p3(3)
  have "mgr_Get (projectServiceID i) (p_mgr p') = Some proc" "env_value ''PORT'' (svc_Env proc) = itoa port"
    by (simp_all add: mgr_Get_def)
  moreover have "hosts = bound_hosts i (panel_db p)" using sy(1) bound_hosts_cong [OF p3(4)] by simp
  ultimately show ?thesis
    using sy(1,4) addr by (simp add: router.find_put_all [OF addr])
qed

text \<open>C4: When a project has been stopped no process of its service is live, the manager does not list it,
  and none of the enabled hostnames bound to it is routed; other hostnames are routed as before.\<close>

theorem stopped_project_is_unrouted:
  assumes "faults (panel_db p) = []" "p_proxy p = Some rt" "tracked (p_mgr p)"
    and "stopProject cl i ''true'' p = ((200, Inr hosts), p')"
  shows "\<exists>rt'. p_proxy p' = Some rt' \<and> hosts = bound_hosts i (panel_db p) \<and>
    (\<forall>k. route_Lookup k rt' = (if \<exists>h \<in> set hosts. equal_fold k h then None else route_Lookup k rt)) \<and>
    mgr_Get (projectServiceID i) (p_mgr p') = None \<and>
    (\<forall>r \<in> set (alive (p_mgr p')). svc_ID (rp_svc r) \<noteq> projectServiceID i)"
proof -
  obtain r m where stop: "mgr_Stop (cl_logdir cl) (cl_now cl) True 0 (cl_signals cl) (projectServiceID i) (p_mgr p) = (r, m)"
    by force
  define p2 where "p2 = audit cl ''project.stop'' ''project'' i (resultOf r) (p\<lparr> p_mgr := m \<rparr>)"
  from assms(4) have ok: "r = Inr ()" and s: "syncProjectProxyRoutes i [] p2 = (hosts, p')"
    by (auto simp: stopProject_def on_mgr_def stop p2_def Let_def split: sum.splits prod.splits)
  have "faults (store (p_mgr p)) = []" using assms(1) by (simp add: panel_db_def)
  note fr = mgr_Stop_frame [OF this assms(3) stop]
  have f: "faults (panel_db (p\<lparr> p_mgr := m \<rparr>)) = []" using fr(1) by (simp add: panel_db_def)
  have p2: "faults (panel_db p2) = []" "p_proxy p2 = Some rt" "procs (p_mgr p2) = procs m" "alive (p_mgr p2) = alive m"
    "tables (panel_db p2) ''domains'' = tables (panel_db p) ''domains''"
    using audit_frame [OF f] fr(2) assms(2) by (simp_all add: p2_def panel_db_def)
  note sy = syncProjectProxyRoutes_eq [OF p2(1,2) s]
  have "r \<noteq> Inl (NotRunning (projectServiceID i))" using ok by simp
  note st = mgr_Stop_tracked [OF assms(3) stop this]
  have "\<forall>q \<in> set (alive m). svc_ID (rp_svc q) \<noteq> projectServiceID i" using st(1,2) by (metis option.distinct(1) tracked_def)
  then have "mgr_Get (projectServiceID i) (p_mgr p') = None \<and> (\<forall>r \<in> set (alive (p_mgr p')). svc_ID (rp_svc r) \<noteq> projectServiceID i)"
    using st(2) sy(2,3) p2(3,4) by (simp add: mgr_Get_def)
  moreover have "hosts = bound_hosts i (panel_db p)" using sy(1) bound_hosts_cong [OF p2(5)] by simp
  ultimately show ?thesis using sy(1,4) by (simp add: router.find_drop_all)
qed

section \<open>Deleting a project\<close>

definition unbound_row :: "row \<Rightarrow> row" where
  "unbound_row = set_cols [(''project_id'', Null), (''port'', Null)]"

text \<open>What holds of the domains table while its rows are unbound one by one.\<close>

definition domains_wf :: "db \<Rightarrow> bool" where
  "domains_wf d \<longleftrightarrow> faults d = [] \<and> no_conflicts ''domains'' (tables d ''domains'') \<and>
     (\<forall>r \<in> set (tables d ''domains''). row_not_null ''domains'' r)"

lemma unbound_row_simps [simp]:
  "unbound_row r ''project_id'' = Null" "unbound_row r ''id'' = r ''id''"
  by (simp_all add: unbound_row_def set_cols_def)

lemma ClearProject_wf:
  fixes i :: string and d :: db
  assumes "domains_wf d"
  defines "d' \<equiv> snd (ClearProject i d)"
  shows "d' = with_table ''domains'' (map (\<lambda>r. if by_id i r then unbound_row r else r) (tables d ''domains'')) d" "domains_wf d'"
proof -
  let ?a = "[(''project_id'', Null), (''port'', Null)]"
  let ?f = "\<lambda>r. if by_id i r then unbound_row r else r"
  have nn: "row_not_null ''domains'' (unbound_row r)" if "row_not_null ''domains'' r" for r
    using that by (simp add: row_not_null_def not_null_cols_def required_cols_def column_defaults_def unbound_row_def set_cols_def)
  have nc: "no_conflicts ''domains'' (map ?f (tables d ''domains''))"
    using assms(1) by (subst no_conflicts_same_unique) (auto simp: domains_wf_def unique_cols_def unbound_row_def set_cols_def)
  have "row_references d ''domains'' (unbound_row r)" for r by (simp add: row_references_def foreign_keys_def)
  moreover have a: "set_cols ?a = unbound_row" by (simp add: unbound_row_def)
  ultimately have "raw_update ''domains'' (by_id i) ?a d =
      (Inr (length (map (set_cols ?a) (filter (by_id i) (tables d ''domains'')))), with_table ''domains'' (map ?f (tables d ''domains'')) d)"
    using nn nc assms(1) unfolding raw_update_def Let_def a by (auto simp: domains_wf_def)
  then show eq: "d' = with_table ''domains'' (map ?f (tables d ''domains'')) d"
    using assms(1) by (simp add: d'_def ClearProject_def sql_update_nofault domains_wf_def)
  show "domains_wf d'" using nn nc assms(1) by (auto simp: eq domains_wf_def)
qed

lemma unbind_domains_eq:
  assumes "domains_wf (panel_db p)"
  shows "panel_db (unbind_domains dns p) = with_table ''domains''
      (map (\<lambda>r. if \<exists>dn \<in> set dns. by_id (dom_ID dn) r then unbound_row r else r) (tables (panel_db p) ''domains'')) (panel_db p) \<and>
    procs (p_mgr (unbind_domains dns p)) = procs (p_mgr p) \<and> alive (p_mgr (unbind_domains dns p)) = alive (p_mgr p) \<and>
    p_proxy (unbind_domains dns p) =
      map_option (\<lambda>rt. foldl (\<lambda>t h. route_Remove h t) rt (map dom_Hostname dns)) (p_proxy p)"
  using assms
proof (induction dns arbitrary: p)
  case Nil
  show ?case by (simp add: with_table_def option.map_ident)
next
  case (Cons dn dns)
  let ?p = "snd (on_db (ClearProject (dom_ID dn)) (on_proxy (route_Remove (dom_Hostname dn)) p))"
  note c = ClearProject_wf [OF Cons.prems, of "dom_ID dn"]
  have p: "panel_db ?p = snd (ClearProject (dom_ID dn) (panel_db p))" by (simp add: on_db_eq)
  have twice: "unbound_row (unbound_row r) = unbound_row r" for r
    by (simp add: unbound_row_def set_cols_def fun_eq_iff)
  have "by_id j (unbound_row r) \<longleftrightarrow> by_id j r" for j r by (simp add: by_id_def)
  then have m: "map (\<lambda>r. if \<exists>dn \<in> set dns. by_id (dom_ID dn) r then unbound_row r else r)
      (map (\<lambda>r. if by_id (dom_ID dn) r then unbound_row r else r) rs) =
    map (\<lambda>r. if \<exists>dn' \<in> set (dn # dns). by_id (dom_ID dn') r then unbound_row r else r) rs" for rs
    by (auto simp: twice)
  have w: "with_table t a (with_table t b d) = with_table t a d" for t a b d by (simp add: with_table_def)
  have t: "tables (with_table t rs d) t = rs" for t rs d by simp
  have wf: "domains_wf (panel_db ?p)" using c(2) unfolding p .
  have "panel_db (unbind_domains (dn # dns) p) = with_table ''domains''
      (map (\<lambda>r. if \<exists>dn' \<in> set (dn # dns). by_id (dom_ID dn') r then unbound_row r else r) (tables (panel_db p) ''domains'')) (panel_db p)"
    unfolding unbind_domains.simps conjunct1 [OF Cons.IH [OF wf]] p c(1) t w m ..
  moreover have "p_proxy ?p = map_option (route_Remove (dom_Hostname dn)) (p_proxy p)"
    "procs (p_mgr ?p) = procs (p_mgr p)" "alive (p_mgr ?p) = alive (p_mgr p)" by (simp_all add: on_db_eq)
  ultimately show ?case
    using Cons.IH [OF wf] unfolding unbind_domains.simps by (simp add: option.map_comp comp_def)
qed

text \<open>The rows that keep a project: the handler clears services and domains only.\<close>

definition keeps_project :: "string \<Rightarrow> db \<Rightarrow> bool" where
  "keeps_project i d \<longleftrightarrow>
     (\<exists>t \<in> {''deployments'', ''pipelines'', ''deployment_targets''}. \<exists>r \<in> set (tables d t). r ''project_id'' = Text i)"

lemma referenced_project:
  assumes "\<not> (\<exists>r \<in> set (tables d ''services''). r ''project_id'' = Text i)"
    "\<not> (\<exists>r \<in> set (tables d ''domains''). r ''project_id'' = Text i)"
  shows "referenced_by d ''projects'' (Text i) \<longleftrightarrow> keeps_project i d"
  using assms by (auto simp: referenced_by_def schema_tables_def foreign_keys_def keeps_project_def)

lemma DeleteServiceRecordsForProject_nofault:
  assumes "faults d = []"
  shows "snd (DeleteServiceRecordsForProject i d) =
    with_table ''services'' (filter (\<lambda>r. r ''project_id'' \<noteq> Text i) (tables d ''services'')) d"
proof -
  have "\<not> referenced_by d ''services'' v" for v
    by (simp add: referenced_by_def schema_tables_def foreign_keys_def)
  then show ?thesis
    by (simp add: DeleteServiceRecordsForProject_def go_bind_def sql_delete_nofault [OF assms] raw_delete_def Let_def go_return_def)
qed

text \<open>The process of the project, if any, is stopped.\<close>

definition halt_project :: "call \<Rightarrow> string \<Rightarrow> panel \<Rightarrow> panel" where
  "halt_project cl i p =
     (if mgr_Get (projectServiceID i) (p_mgr p) = None then p
      else snd (on_mgr (mgr_Stop (cl_logdir cl) (cl_now cl) True 0 (cl_signals cl) (projectServiceID i)) p))"

lemma halt_project_frame:
  fixes cl :: call and i :: string and p :: panel
  assumes "faults (panel_db p) = []" "tracked (p_mgr p)"
  defines "p' \<equiv> halt_project cl i p"
  shows "faults (panel_db p') = []" "t \<noteq> ''services'' \<Longrightarrow> tables (panel_db p') t = tables (panel_db p) t"
    "p_proxy p' = p_proxy p" "procs (p_mgr p') (projectServiceID i) = None"
    "\<forall>q \<in> set (alive (p_mgr p')). svc_ID (rp_svc q) \<noteq> projectServiceID i"
proof -
  obtain r m where stop: "mgr_Stop (cl_logdir cl) (cl_now cl) True 0 (cl_signals cl) (projectServiceID i) (p_mgr p) = (r, m)"
    by force
  have f: "faults (store (p_mgr p)) = []" using assms(1) by (simp add: panel_db_def)
  have "faults (panel_db p') = [] \<and> (t \<noteq> ''services'' \<longrightarrow> tables (panel_db p') t = tables (panel_db p) t) \<and>
    p_proxy p' = p_proxy p \<and> tracked (p_mgr p') \<and> procs (p_mgr p') (projectServiceID i) = None" for t
  proof (cases "procs (p_mgr p) (projectServiceID i)")
    case None
    then show ?thesis using assms(1,2) by (simp add: p'_def halt_project_def mgr_Get_def)
  next
    case (Some rp)
    then have "r \<noteq> Inl (NotRunning (projectServiceID i))" using mgr_Stop_cases [OF stop] by auto
    with Some show ?thesis
      using mgr_Stop_tracked(1,2) [OF assms(2) stop] mgr_Stop_frame [OF f assms(2) stop]
      by (simp add: p'_def halt_project_def mgr_Get_def on_mgr_def stop panel_db_def)
  qed
  then show "faults (panel_db p') = []" "t \<noteq> ''services'' \<Longrightarrow> tables (panel_db p') t = tables (panel_db p) t"
    "p_proxy p' = p_proxy p" "procs (p_mgr p') (projectServiceID i) = None"
    "\<forall>q \<in> set (alive (p_mgr p')). svc_ID (rp_svc q) \<noteq> projectServiceID i"
    by (simp_all, metis option.distinct(1) tracked_def)
qed

text \<open>Everything \<open>deleteProject\<close> does before it deletes the row.\<close>

definition clear_project :: "call \<Rightarrow> string \<Rightarrow> panel \<Rightarrow> panel" where
  "clear_project cl i p =
     (let p2 = snd (on_db (DeleteServiceRecordsForProject i) (halt_project cl i p)) in
      case on_db (ListDomainsForProject i) p2 of (Inl _, p') \<Rightarrow> p' | (Inr bound, p') \<Rightarrow> unbind_domains bound p')"

lemma deleteProject_eq:
  "deleteProject cl i ''true'' p =
     (case on_db (project_Delete i) (clear_project cl i p) of
        (r, p4) \<Rightarrow>
          (let p5 = audit cl ''project.delete'' ''project'' i (resultOf r) p4 in
           case r of
             Inl e \<Rightarrow>
               (if isForeignKeyErr e
                then refuse 409 (Message (''can't delete: this project still has deployment targets or '' @
                       ''deployment history attached -- remove those first''))
                else writeProjectError e, p5)
           | Inr _ \<Rightarrow> (answer 200 (), p5)))"
  unfolding deleteProject_def clear_project_def halt_project_def Let_def by simp

lemma clear_project_frame:
  fixes cl :: call and i :: string and p :: panel
  assumes "faults (panel_db p) = []" "db_ok (panel_db p)" "text_ids ''domains'' (panel_db p)" "tracked (p_mgr p)"
  defines "p' \<equiv> clear_project cl i p"
  shows "faults (panel_db p') = []"
    "t \<notin> {''services'', ''domains''} \<Longrightarrow> tables (panel_db p') t = tables (panel_db p) t"
    "\<not> (\<exists>r \<in> set (tables (panel_db p') ''services''). r ''project_id'' = Text i)"
    "\<not> (\<exists>r \<in> set (tables (panel_db p') ''domains''). r ''project_id'' = Text i)"
    "p_proxy p' = map_option (\<lambda>rt. foldl (\<lambda>t h. route_Remove h t) rt (map dom_Hostname (bound_domains i (panel_db p)))) (p_proxy p)"
    "procs (p_mgr p') (projectServiceID i) = None"
    "\<forall>q \<in> set (alive (p_mgr p')). svc_ID (rp_svc q) \<noteq> projectServiceID i"
proof -
  note h = halt_project_frame [OF assms(1,4), where cl = cl and i = i]
  define p2 where "p2 = snd (on_db (DeleteServiceRecordsForProject i) (halt_project cl i p))"
  have d2: "panel_db p2 = with_table ''services'' (filter (\<lambda>r. r ''project_id'' \<noteq> Text i) (tables (panel_db (halt_project cl i p)) ''services''))
      (panel_db (halt_project cl i p))"
    by (simp add: p2_def on_db_eq DeleteServiceRecordsForProject_nofault [OF h(1)])
  have dom2: "tables (panel_db p2) ''domains'' = tables (panel_db p) ''domains''" by (simp add: d2 h(2))
  have wf: "domains_wf (panel_db p2)"
    using assms(2) h(1) dom2 by (auto simp: domains_wf_def d2 db_ok_def schema_tables_def)
  let ?dns = "bound_domains i (panel_db p)"
  have "bound_domains i (panel_db p2) = ?dns" using dom2 by (simp add: bound_domains_def)
  then have p': "p' = unbind_domains ?dns p2"
    using wf unfolding p'_def clear_project_def Let_def p2_def [symmetric]
    by (simp add: on_db_eq ListDomainsForProject_nofault domains_wf_def)
  note u = unbind_domains_eq [OF wf, of ?dns, folded p']
  show "faults (panel_db p') = []" "p_proxy p' = map_option (\<lambda>rt. foldl (\<lambda>t h. route_Remove h t) rt (map dom_Hostname ?dns)) (p_proxy p)"
    "procs (p_mgr p') (projectServiceID i) = None" "\<forall>q \<in> set (alive (p_mgr p')). svc_ID (rp_svc q) \<noteq> projectServiceID i"
    using u wf h(3-5) by (simp_all add: domains_wf_def p2_def on_db_eq)
  show "t \<notin> {''services'', ''domains''} \<Longrightarrow> tables (panel_db p') t = tables (panel_db p) t"
    using u h(2) by (simp add: d2)
  show "\<not> (\<exists>r \<in> set (tables (panel_db p') ''services''). r ''project_id'' = Text i)"
    using u by (simp add: d2)
  show "\<not> (\<exists>r \<in> set (tables (panel_db p') ''domains''). r ''project_id'' = Text i)"
  proof
    assume "\<exists>r \<in> set (tables (panel_db p') ''domains''). r ''project_id'' = Text i"
    then obtain r where r: "r \<in> set (tables (panel_db p) ''domains'')"
      "(if \<exists>dn \<in> set ?dns. by_id (dom_ID dn) r then unbound_row r else r) ''project_id'' = Text i"
      using u dom2 by auto
    then have n: "\<not> (\<exists>dn \<in> set ?dns. by_id (dom_ID dn) r)" "r ''project_id'' = Text i" by (auto split: if_splits)
    from r(1) assms(3) obtain j where "r ''id'' = Text j" by (auto simp: text_ids_def)
    then have "by_id (dom_ID (scanDomain r)) r" by (simp add: by_id_def scanDomain_def text_col_def)
    moreover have "scanDomain r \<in> set ?dns" using r(1) n(2) by (simp add: bound_domains_def order_by_def)
    ultimately show False using n(1) by blast
  qed
qed

text \<open>Deleting a project stops its process, drops its service records, unbinds its domains and removes
  their routes, whether or not the project then can be deleted; it can exactly when no deployment, no
  deployment target and no pipeline belongs to it, and the answer otherwise names the first two only.\<close>

theorem project_deletion_clears_before_it_fails:
  assumes "faults (panel_db p) = []" "db_ok (panel_db p)" "text_ids ''domains'' (panel_db p)" "tracked (p_mgr p)"
    and "fst (project_Get i (panel_db p)) = Inr q" "deleteProject cl i ''true'' p = (resp, p')"
  shows "mgr_Get (projectServiceID i) (p_mgr p') = None \<and>
    (\<forall>r \<in> set (alive (p_mgr p')). svc_ID (rp_svc r) \<noteq> projectServiceID i) \<and>
    (\<forall>t \<in> {''services'', ''domains''}. \<forall>r \<in> set (tables (panel_db p') t). r ''project_id'' \<noteq> Text i) \<and>
    (\<forall>rt. p_proxy p' = Some rt \<longrightarrow> (\<forall>dn \<in> set (bound_domains i (panel_db p)). route_Lookup (dom_Hostname dn) rt = None)) \<and>
    (if keeps_project i (panel_db p)
     then resp = refuse 409 (Message (''can't delete: this project still has deployment targets or '' @
            ''deployment history attached -- remove those first'')) \<and> fst (project_Get i (panel_db p')) = Inr q
     else resp = answer 200 () \<and> fst (project_Get i (panel_db p')) = Inl ProjectNotFound)"
proof -
  define p3 where "p3 = clear_project cl i p"
  note c = clear_project_frame [OF assms(1-4), where cl = cl and i = i, folded p3_def]
  let ?d = "panel_db p3"
  define r where "r = fst (project_Delete i ?d)"
  define p4 where "p4 = set_db (snd (project_Delete i ?d)) p3"
  have same: "tables ?d ''projects'' = tables (panel_db p) ''projects''" by (simp add: c(2))
  have ref: "referenced_by ?d ''projects'' (Text i) \<longleftrightarrow> keeps_project i (panel_db p)"
    unfolding referenced_project [OF c(3,4)] by (simp add: keeps_project_def c(2))
  have ex: "\<exists>r \<in> set (tables ?d ''projects''). by_id i r" using project_Get_found(3) [OF assms(1,5)] same by simp
  note del = repo_delete_nofault [OF c(1), of "''projects''" ProjectNotFound ProjectSql i, folded project_Delete_def, simplified ex if_True ref]
  have f4: "faults (panel_db p4) = []" using del c(1) by (simp add: p4_def)
  define p5 where "p5 = audit cl ''project.delete'' ''project'' i (resultOf r) p4"
  note au = audit_frame [OF f4, where cl = cl and a = "''project.delete''" and tt = "''project''" and ti = i and r = "resultOf r", folded p5_def]
  have run: "p' = p5" "resp = (case r of Inl e \<Rightarrow> (if isForeignKeyErr e
      then refuse 409 (Message (''can't delete: this project still has deployment targets or '' @ ''deployment history attached -- remove those first''))
      else writeProjectError e) | Inr _ \<Rightarrow> answer 200 ())"
    using assms(6) unfolding deleteProject_eq p3_def [symmetric] on_db_eq
    by (auto simp: r_def p4_def p5_def Let_def split: sum.splits)
  have tabs: "t \<in> {''services'', ''domains''} \<Longrightarrow> tables (panel_db p') t = tables ?d t" for t
    using au(2) del by (auto simp: run(1) p4_def)
  have live: "mgr_Get (projectServiceID i) (p_mgr p') = None" "\<forall>r \<in> set (alive (p_mgr p')). svc_ID (rp_svc r) \<noteq> projectServiceID i"
    using au(5,6) c(6,7) by (simp_all add: run(1) p4_def mgr_Get_def)
  have routes: "\<forall>rt. p_proxy p' = Some rt \<longrightarrow> (\<forall>dn \<in> set (bound_domains i (panel_db p)). route_Lookup (dom_Hostname dn) rt = None)"
    using au(4) c(5) by (auto simp: run(1) p4_def router.find_drop_all equal_fold_def)
  have "tables (panel_db p5) ''projects'' = tables (panel_db p4) ''projects''" by (simp add: au(2))
  then have get: "fst (project_Get i (panel_db p')) =
      (case filter (by_id i) (tables (panel_db p4) ''projects'') of [] \<Rightarrow> Inl ProjectNotFound | x # _ \<Rightarrow> Inr (scanProject x))"
    using au(1) by (simp add: run(1) project_Get_def repo_get_nofault split: list.splits)
  have get0: "fst (project_Get i (panel_db p)) =
      (case filter (by_id i) (tables (panel_db p) ''projects'') of [] \<Rightarrow> Inl ProjectNotFound | x # _ \<Rightarrow> Inr (scanProject x))"
    using assms(1) by (simp add: project_Get_def repo_get_nofault split: list.splits)
  have rest: "if keeps_project i (panel_db p)
     then resp = refuse 409 (Message (''can't delete: this project still has deployment targets or '' @
            ''deployment history attached -- remove those first'')) \<and> fst (project_Get i (panel_db p')) = Inr q
     else resp = answer 200 () \<and> fst (project_Get i (panel_db p')) = Inl ProjectNotFound"
  proof (cases "keeps_project i (panel_db p)")
    case True
    then have "r = Inl (ProjectSql ForeignKeyErr)" "panel_db p4 = ?d" using del by (simp_all add: r_def p4_def)
    then show ?thesis using True get get0 same assms(5) by (simp add: run(2) isForeignKeyErr_def)
  next
    case False
    then have "r = Inr ()" "panel_db p4 = with_table ''projects'' (filter (\<lambda>r. \<not> by_id i r) (tables ?d ''projects'')) ?d"
      using del by (simp_all add: r_def p4_def)
    then show ?thesis using False get by (simp add: run(2))
  qed
  have "\<forall>t \<in> {''services'', ''domains''}. \<forall>r \<in> set (tables (panel_db p') t). r ''project_id'' \<noteq> Text i"
    using tabs c(3,4) by auto
  with live routes rest show ?thesis by blast
qed

section \<open>The properties at concrete inputs\<close>

definition demo_project_rows :: "(string \<times> row list) list" where
  "demo_project_rows =
     [(''projects'', [make_row ''projects'' [(''id'', Text ''p1''), (''name'', Text ''web''), (''path'', Text ''/srv/web''),
         (''run_command'', Text ''npm start''), (''created_at'', Stamp 0), (''updated_at'', Stamp 0)]]),
      (''domains'', [make_row ''domains'' (domain_cols ''d1'' 0 ''app.test'' ''p1'' 0)]),
      (''pipelines'', [make_row ''pipelines'' [(''id'', Text ''l1''), (''project_id'', Text ''p1''), (''name'', Text ''ci''),
         (''definition_yaml'', Text ''-''), (''created_at'', Stamp 0), (''updated_at'', Stamp 0)]])]"

definition demo_project_panel :: panel where
  "demo_project_panel = demo_panel demo_project_rows []"

lemma demo_project_panel_ok:
  "faults (panel_db demo_project_panel) = []" "p_proxy demo_project_panel = Some NewRouter"
  "tracked (p_mgr demo_project_panel)" "text_ids ''domains'' (panel_db demo_project_panel)"
  by (simp_all add: demo_project_panel_def demo_panel_def panel_db_def tracked_def idle_manager_def text_ids_def
      demo_project_rows_def domain_row_ok)

lemma demo_project_panel_db: "db_ok (panel_db demo_project_panel)"
  by (simp add: db_ok_def demo_project_panel_def demo_panel_def panel_db_def demo_project_rows_def schema_tables_def
      row_not_null_def not_null_cols_def required_cols_def column_defaults_def make_row_def row_references_def
      foreign_keys_def domain_cols_def nullable_def nullablePort_def rfc3339_def)

lemma started_project_is_routed_witness:
  "\<exists>proc p' rt'. startProject (demo_call ''u'') ''p1'' demo_project_panel = ((200, Inr (proc, 80, [''app.test''])), p') \<and>
     p_proxy p' = Some rt' \<and> route_Lookup ''APP.test'' rt' = Some (loopback (itoa 80))"
proof -
  let ?run = "startProject (demo_call ''u'') ''p1'' demo_project_panel"
  have "case fst ?run of (code, r) \<Rightarrow> code = 200 \<and> (case r of Inl _ \<Rightarrow> False | Inr (_, port, hosts) \<Rightarrow> port = 80 \<and> hosts = [''app.test''])"
    by code_simp
  then obtain proc p' where r: "?run = ((200, Inr (proc, 80, [''app.test''])), p')"
    by (cases ?run) (auto split: prod.splits sum.splits)
  have "equal_fold ''APP.test'' ''app.test''" by code_simp
  with started_project_is_routed [OF demo_project_panel_ok(1,2) r] r show ?thesis by auto
qed

lemma stopped_project_is_unrouted_witness:
  "\<exists>p p' rt'. stopProject (demo_call ''v'') ''p1'' ''true'' p = ((200, Inr [''app.test'']), p') \<and>
     p_proxy p' = Some rt' \<and> route_Lookup ''app.test'' rt' = None"
proof -
  let ?m = "snd (mgr_Start ''/logs'' (Inr 7) 0 (project_request (scanProject (hd (snd (hd demo_project_rows)))) 80) (p_mgr demo_project_panel))"
  define p where "p = demo_project_panel\<lparr> p_mgr := ?m \<rparr>"
  have fr: "fresh_spawn (Inr 7) (p_mgr demo_project_panel)"
    by (simp add: fresh_spawn_def demo_project_panel_def demo_panel_def idle_manager_def)
  have t: "tracked (p_mgr p)" unfolding p_def by (simp add: mgr_Start_tracked [OF demo_project_panel_ok(3) fr])
  have "faults (store (p_mgr demo_project_panel)) = []" using demo_project_panel_ok(1) by (simp add: panel_db_def)
  then have f: "faults (panel_db p) = []" by (simp add: p_def panel_db_def mgr_Start_frame(1))
  have x: "p_proxy p = Some NewRouter" by (simp add: p_def demo_project_panel_ok)
  have "case fst (stopProject (demo_call ''v'') ''p1'' ''true'' p) of (code, r) \<Rightarrow> code = 200 \<and> (case r of Inl _ \<Rightarrow> False | Inr hs \<Rightarrow> hs = [''app.test''])"
    unfolding p_def by code_simp
  then obtain p' where r: "stopProject (demo_call ''v'') ''p1'' ''true'' p = ((200, Inr [''app.test'']), p')"
    by (cases "stopProject (demo_call ''v'') ''p1'' ''true'' p") (auto split: prod.splits sum.splits)
  from stopped_project_is_unrouted [OF f x t r] obtain rt' where rt: "p_proxy p' = Some rt'"
    and k: "\<forall>k. route_Lookup k rt' = (if \<exists>h \<in> set [''app.test'']. equal_fold k h then None else route_Lookup k NewRouter)"
    by blast
  have "route_Lookup ''app.test'' rt' = None" using k by (simp add: equal_fold_def)
  with r rt show ?thesis by blast
qed

lemma project_deletion_clears_before_it_fails_witness:
  "\<exists>p'. deleteProject (demo_call ''w'') ''p1'' ''true'' demo_project_panel = (refuse 409 (Message (''can't delete: this project still has deployment targets or '' @
            ''deployment history attached -- remove those first'')), p') \<and>
     (\<forall>r \<in> set (tables (panel_db p') ''domains''). r ''project_id'' \<noteq> Text ''p1'')"
proof -
  obtain q where g: "fst (project_Get ''p1'' (panel_db demo_project_panel)) = Inr q"
    by (simp add: project_Get_def repo_get_nofault demo_project_panel_ok(1))
      (simp add: demo_project_panel_def demo_panel_def panel_db_def demo_project_rows_def by_id_def make_row_def)
  obtain resp p' where r: "deleteProject (demo_call ''w'') ''p1'' ''true'' demo_project_panel = (resp, p')" by (metis surj_pair)
  have "keeps_project ''p1'' (panel_db demo_project_panel)"
    by (simp add: keeps_project_def demo_project_panel_def demo_panel_def panel_db_def demo_project_rows_def make_row_def)
  with project_deletion_clears_before_it_fails [OF demo_project_panel_ok(1) demo_project_panel_db demo_project_panel_ok(4,3) g r] r
  show ?thesis by simp
qed

end
