(* ===== verification/Pipelines.thy ===== *)
theory Pipelines
  imports Deployments Frames
begin

text \<open>
  Pipelines: the definition of \<open>internal/pipeline/definition.go\<close>, the step runner of
  \<open>internal/pipeline/engine.go\<close>, and the repository of \<open>internal/domain/pipeline/pipeline.go\<close>.

  The YAML decoder is third-party code: a function from the text to an error or the steps.  A local
  command, the remote session and the HTTP client answer with output and possibly an error; what
  they answer may differ from step to step, so the runner takes one environment per step.
\<close>

section \<open>Definitions\<close>

record ssh_step =
  ssh_ServerID :: string
  ssh_Command :: string

record health_check =
  hc_URL :: string
  hc_ExpectedStatus :: int

record step =
  stp_Name :: string
  stp_Run :: string
  stp_SSH :: "ssh_step option"
  stp_Deploy :: string
  stp_HealthCheck :: "health_check option"

definition Kind :: "step \<Rightarrow> string" where
  "Kind s =
     (if stp_Run s \<noteq> [] then ''run''
      else if stp_SSH s \<noteq> None then ''ssh''
      else if stp_Deploy s \<noteq> [] then ''deploy''
      else if stp_HealthCheck s \<noteq> None then ''healthcheck''
      else [])"

datatype definition_error = BadYaml string | NoSteps | StepNameMissing nat | StepKindMissing string

fun check_steps :: "nat \<Rightarrow> step list \<Rightarrow> definition_error option" where
  "check_steps i [] = None"
| "check_steps i (s # ss) =
     (if stp_Name s = [] then Some (StepNameMissing i)
      else if Kind s = [] then Some (StepKindMissing (stp_Name s))
      else check_steps (Suc i) ss)"

type_synonym yaml_decoder = "string \<Rightarrow> string + step list"

definition Parse :: "yaml_decoder \<Rightarrow> string \<Rightarrow> definition_error + step list" where
  "Parse yaml text =
     (case yaml text of
        Inl msg \<Rightarrow> Inl (BadYaml msg)
      | Inr steps \<Rightarrow>
         (if steps = [] then Inl NoSteps
          else (case check_steps 0 steps of Some e \<Rightarrow> Inl e | None \<Rightarrow> Inr steps)))"

section \<open>The step runner\<close>

text \<open>The state a run works on: the database and the log files.\<close>

type_synonym site = "db \<times> log_files"

record step_env =
  se_local :: "string \<Rightarrow> string \<times> string option"
  se_connect :: "server \<Rightarrow> string + remote_session"
  se_deploy :: "deploy_env option"
  se_http :: "string \<Rightarrow> string + int"
  se_duration :: int

datatype step_error =
    LocalFailed string
  | SshIncomplete
  | SshServer server_error
  | SshConnect string
  | SshFailed string
  | NoDeployEngine
  | DeployFailed deploy_error
  | HealthIncomplete
  | HealthFailed string
  | HealthUnexpected int int
  | UnknownKind

type_synonym outcome = "string \<times> step_error option"

definition runLocal :: "step_env \<Rightarrow> string \<Rightarrow> site \<Rightarrow> outcome \<times> site" where
  "runLocal env cmd st = (case se_local env cmd of (out, err) \<Rightarrow> ((out, map_option LocalFailed err), st))"

definition runSSH :: "step_env \<Rightarrow> ssh_step option \<Rightarrow> site \<Rightarrow> outcome \<times> site" where
  "runSSH env ssh = (\<lambda>(d, fs).
     case ssh of
       None \<Rightarrow> (([], Some SshIncomplete), (d, fs))
     | Some s \<Rightarrow>
        (if ssh_ServerID s = [] \<or> ssh_Command s = [] then (([], Some SshIncomplete), (d, fs))
         else (case server_Get (ssh_ServerID s) d of
                 (Inl e, d') \<Rightarrow> (([], Some (SshServer e)), (d', fs))
               | (Inr srv, d') \<Rightarrow>
                  (case se_connect env srv of
                     Inl msg \<Rightarrow> (([], Some (SshConnect msg)), (d', fs))
                   | Inr sess \<Rightarrow>
                      (let r = sess [] (ssh_Command s)
                       in ((ex_out r @ ex_err r, map_option SshFailed (ex_failed r)), (d', fs)))))))"

text \<open>
  The log of a deployment that could not be recorded is looked up under the empty id.  A deployment that
  panics unwinds the step too, before the look-up; the outcome carries the panic to the end of the run.
\<close>

definition runDeploy :: "(sql_error \<Rightarrow> string) \<Rightarrow> step_env \<Rightarrow> string \<Rightarrow> site \<Rightarrow> outcome \<times> site" where
  "runDeploy drv env targetID st =
     (case se_deploy env of
        None \<Rightarrow> (([], Some NoDeployEngine), st)
      | Some de \<Rightarrow>
         (case Deploy drv de targetID st of
            (r, (d, fs)) \<Rightarrow>
              (if r = Inl NilRequest then (([], Some (DeployFailed NilRequest)), (d, fs))
               else (let (i, err) = (case r of Inl e \<Rightarrow> ([], Some e) | Inr (dep, err) \<Rightarrow> (dep_ID dep, err))
                     in case deployment_Log i (d, fs) of
                          (l, d') \<Rightarrow>
                            (((case l of Inl _ \<Rightarrow> [] | Inr content \<Rightarrow> content), map_option DeployFailed err), (d', fs))))))"

definition runHealthCheck :: "step_env \<Rightarrow> health_check option \<Rightarrow> site \<Rightarrow> outcome \<times> site" where
  "runHealthCheck env check st =
     (case check of
        None \<Rightarrow> (([], Some HealthIncomplete), st)
      | Some h \<Rightarrow>
         (if hc_URL h = [] then (([], Some HealthIncomplete), st)
          else
           (let expected = (if hc_ExpectedStatus h = 0 then 200 else hc_ExpectedStatus h)
            in case se_http env (hc_URL h) of
                 Inl msg \<Rightarrow> (([], Some (HealthFailed msg)), st)
               | Inr code \<Rightarrow>
                  (let out = ''GET '' @ hc_URL h @ '' -> HTTP '' @ int_text code @ '' (expected '' @ int_text expected @ '')''
                   in ((out, if code \<noteq> expected then Some (HealthUnexpected code expected) else None), st)))))"

definition runStep :: "(sql_error \<Rightarrow> string) \<Rightarrow> step_env \<Rightarrow> step \<Rightarrow> site \<Rightarrow> outcome \<times> site" where
  "runStep drv env s st =
     (let k = Kind s in
      if k = ''run'' then runLocal env (stp_Run s) st
      else if k = ''ssh'' then runSSH env (stp_SSH s) st
      else if k = ''deploy'' then runDeploy drv env (stp_Deploy s) st
      else if k = ''healthcheck'' then runHealthCheck env (stp_HealthCheck s) st
      else (([], Some UnknownKind), st))"

text \<open>The messages of the errors a step ends with.\<close>

fun server_error_text :: "(sql_error \<Rightarrow> string) \<Rightarrow> server_error \<Rightarrow> string" where
  "server_error_text drv ServerNotFound = ''server not found''"
| "server_error_text drv (ServerSql e) = drv e"
| "server_error_text drv _ = []"

fun deploy_error_text :: "(sql_error \<Rightarrow> string) \<Rightarrow> deploy_error \<Rightarrow> string" where
  "deploy_error_text drv DeploymentNotFound = ''deployment: not found''"
| "deploy_error_text drv (DeploymentSql e) = drv e"
| "deploy_error_text drv (TargetLookup e) = ''deployment target: '' @ deploy_error_text drv e"
| "deploy_error_text drv (ServerLookup e) = ''server: '' @ server_error_text drv e"
| "deploy_error_text drv e = step_text drv e"

fun step_error_text :: "(sql_error \<Rightarrow> string) \<Rightarrow> step_error \<Rightarrow> string" where
  "step_error_text drv (LocalFailed msg) = msg"
| "step_error_text drv SshIncomplete = ''ssh step requires serverId and command''"
| "step_error_text drv (SshServer e) = server_error_text drv e"
| "step_error_text drv (SshConnect msg) = ''connect: '' @ msg"
| "step_error_text drv (SshFailed msg) = msg"
| "step_error_text drv NoDeployEngine = ''deploy step requires a configured DeployEngine''"
| "step_error_text drv (DeployFailed e) = deploy_error_text drv e"
| "step_error_text drv HealthIncomplete = ''healthcheck step requires a url''"
| "step_error_text drv (HealthFailed msg) = msg"
| "step_error_text drv (HealthUnexpected code want) =
     ''unexpected status '' @ int_text code @ '', want '' @ int_text want"
| "step_error_text drv UnknownKind = ''unknown step kind''"

record step_result =
  res_Name :: string
  res_Kind :: string
  res_Status :: string
  res_Output :: string
  res_DurationMs :: int

definition step_result_of :: "(sql_error \<Rightarrow> string) \<Rightarrow> step_env \<Rightarrow> step \<Rightarrow> outcome \<Rightarrow> step_result" where
  "step_result_of drv env s oc =
     (let res = \<lparr> res_Name = stp_Name s, res_Kind = Kind s, res_Status = ''success'', res_Output = fst oc,
                  res_DurationMs = se_duration env \<rparr>
      in case snd oc of
           None \<Rightarrow> res
         | Some e \<Rightarrow> res\<lparr> res_Status := ''failed'',
                          res_Output := fst oc @ newline @ ''ERROR: '' @ step_error_text drv e \<rparr>)"

text \<open>The steps in order; step \<open>n\<close> of the definition meets the environment \<open>env n\<close>.\<close>

fun run_from ::
  "(sql_error \<Rightarrow> string) \<Rightarrow> (nat \<Rightarrow> step_env) \<Rightarrow> nat \<Rightarrow> step list \<Rightarrow> site \<Rightarrow>
   (step_result list \<times> (string \<times> step_error) option) \<times> site" where
  "run_from drv env n [] st = (([], None), st)"
| "run_from drv env n (s # ss) st =
     (case runStep drv (env n) s st of
        ((out, Some e), st') \<Rightarrow> (([step_result_of drv (env n) s (out, Some e)], Some (stp_Name s, e)), st')
      | ((out, None), st') \<Rightarrow>
         (case run_from drv env (Suc n) ss st' of
            ((results, err), st'') \<Rightarrow> ((step_result_of drv (env n) s (out, None) # results, err), st'')))"

text \<open>\<open>Run\<close>; a panic in a step unwinds it, so that no result is delivered.\<close>

definition panics :: "(string \<times> step_error) option \<Rightarrow> bool" where
  "panics err = (map_option snd err = Some (DeployFailed NilRequest))"

definition Run ::
  "(sql_error \<Rightarrow> string) \<Rightarrow> (nat \<Rightarrow> step_env) \<Rightarrow> step list \<Rightarrow> site \<Rightarrow>
   (step_result list \<times> (string \<times> step_error) option) option \<times> site" where
  "Run drv env steps st =
     (case run_from drv env 0 steps st of
        ((results, err), st') \<Rightarrow> ((if panics err then None else Some (results, err)), st'))"

section \<open>The repository\<close>

record pipeline =
  pl_ID :: string
  pl_ProjectID :: string
  pl_Name :: string
  pl_DefinitionYAML :: string
  pl_WebhookSecret :: string
  pl_CreatedAt :: int
  pl_UpdatedAt :: int

record pipeline_run =
  pr_ID :: string
  pr_PipelineID :: string
  pr_TriggerKind :: string
  pr_Status :: string
  pr_Steps :: "json list"
  pr_StartedAt :: "int option"
  pr_FinishedAt :: "int option"

datatype pipeline_error = PipelineNotFound | PipelineSql sql_error | NoRandomness string | BadDefinition definition_error
  | RunFailed string step_error | RunPanicked

definition pipeline_cols :: "pipeline \<Rightarrow> (string \<times> sqlval) list" where
  "pipeline_cols p =
     [(''id'', Text (pl_ID p)), (''project_id'', Text (pl_ProjectID p)), (''name'', Text (pl_Name p)),
      (''definition_yaml'', Text (pl_DefinitionYAML p)), (''webhook_secret'', Text (pl_WebhookSecret p)),
      (''created_at'', rfc3339 (pl_CreatedAt p)), (''updated_at'', rfc3339 (pl_UpdatedAt p))]"

text \<open>\<open>hex.EncodeToString\<close>.\<close>

definition hex_digit :: "nat \<Rightarrow> char" where
  "hex_digit n = (if n < 10 then char_of (48 + n) else char_of (87 + n))"

definition hex_byte :: "char \<Rightarrow> string" where
  "hex_byte c = [hex_digit (of_char c div 16), hex_digit (of_char c mod 16)]"

definition hex_encode :: "bytes \<Rightarrow> string" where
  "hex_encode bs = concat (map hex_byte bs)"

text \<open>The argument is what \<open>rand.Read\<close> delivers: 32 bytes, or an error.\<close>

definition newWebhookSecret :: "string + bytes \<Rightarrow> string + string" where
  "newWebhookSecret rnd = (case rnd of Inl msg \<Rightarrow> Inl msg | Inr bs \<Rightarrow> Inr (hex_encode bs))"

definition pipeline_Create ::
  "string + bytes \<Rightarrow> string \<Rightarrow> int \<Rightarrow> string \<Rightarrow> string \<Rightarrow> string \<Rightarrow> db \<Rightarrow> (pipeline_error + pipeline) \<times> db" where
  "pipeline_Create rnd uuid now projectID name yaml d =
     (case newWebhookSecret rnd of
        Inl msg \<Rightarrow> (Inl (NoRandomness msg), d)
      | Inr secret \<Rightarrow>
         (let p = \<lparr> pl_ID = uuid, pl_ProjectID = projectID, pl_Name = name, pl_DefinitionYAML = yaml,
                    pl_WebhookSecret = secret, pl_CreatedAt = now, pl_UpdatedAt = now \<rparr>
          in case sql_insert ''pipelines'' (pipeline_cols p) d of
               (Inl e, d') \<Rightarrow> (Inl (PipelineSql e), d')
             | (Inr _, d') \<Rightarrow> (Inr p, d')))"

definition scanPipeline :: "row \<Rightarrow> pipeline" where
  "scanPipeline r =
     \<lparr> pl_ID = text_col ''id'' r, pl_ProjectID = text_col ''project_id'' r, pl_Name = text_col ''name'' r,
       pl_DefinitionYAML = text_col ''definition_yaml'' r, pl_WebhookSecret = text_col ''webhook_secret'' r,
       pl_CreatedAt = time_col ''created_at'' r, pl_UpdatedAt = time_col ''updated_at'' r \<rparr>"

definition pipeline_Get :: "string \<Rightarrow> db \<Rightarrow> (pipeline_error + pipeline) \<times> db" where
  "pipeline_Get = repo_get ''pipelines'' scanPipeline PipelineNotFound PipelineSql"

definition pipeline_ListByProject :: "string \<Rightarrow> db \<Rightarrow> (pipeline_error + pipeline list) \<times> db" where
  "pipeline_ListByProject projectID =
     repo_list ''pipelines'' (\<lambda>r. r ''project_id'' = Text projectID) (order_by (stamp_col ''created_at'')) scanPipeline PipelineSql"

definition pipeline_Delete :: "string \<Rightarrow> db \<Rightarrow> (pipeline_error + unit) \<times> db" where
  "pipeline_Delete = repo_delete ''pipelines'' PipelineNotFound PipelineSql"

definition new_run :: "string \<Rightarrow> int \<Rightarrow> string \<Rightarrow> string \<Rightarrow> pipeline_run" where
  "new_run uuid now pipelineID triggerKind =
     \<lparr> pr_ID = uuid, pr_PipelineID = pipelineID, pr_TriggerKind = triggerKind, pr_Status = ''running'', pr_Steps = [],
       pr_StartedAt = Some (now div second * second), pr_FinishedAt = None \<rparr>"

definition new_run_cols :: "string \<Rightarrow> int \<Rightarrow> string \<Rightarrow> string \<Rightarrow> (string \<times> sqlval) list" where
  "new_run_cols uuid now pipelineID triggerKind =
     [(''id'', Text uuid), (''pipeline_id'', Text pipelineID), (''trigger_kind'', Text triggerKind),
      (''status'', Text ''running''), (''started_at'', rfc3339 now)]"

definition CreateRun :: "string \<Rightarrow> int \<Rightarrow> string \<Rightarrow> string \<Rightarrow> db \<Rightarrow> (pipeline_error + pipeline_run) \<times> db" where
  "CreateRun uuid now pipelineID triggerKind d =
     (case sql_insert ''pipeline_runs'' (new_run_cols uuid now pipelineID triggerKind) d of
        (Inl e, d') \<Rightarrow> (Inl (PipelineSql e), d')
      | (Inr _, d') \<Rightarrow> (Inr (new_run uuid now pipelineID triggerKind), d'))"

definition finish_run_cols :: "int \<Rightarrow> string \<Rightarrow> json list \<Rightarrow> (string \<times> sqlval) list" where
  "finish_run_cols now status steps =
     [(''status'', Text status), (''steps'', Json (JArr steps)), (''finished_at'', rfc3339 now)]"

definition FinishRun :: "int \<Rightarrow> string \<Rightarrow> string \<Rightarrow> json list \<Rightarrow> db \<Rightarrow> (pipeline_error + unit) \<times> db" where
  "FinishRun now i status steps d =
     (case sql_update ''pipeline_runs'' (by_id i) (finish_run_cols now status steps) d of
        (Inl e, d') \<Rightarrow> (Inl (PipelineSql e), d') | (Inr _, d') \<Rightarrow> (Inr (), d'))"

definition scanRun :: "row \<Rightarrow> pipeline_run" where
  "scanRun r =
     \<lparr> pr_ID = text_col ''id'' r, pr_PipelineID = text_col ''pipeline_id'' r, pr_TriggerKind = text_col ''trigger_kind'' r,
       pr_Status = text_col ''status'' r, pr_Steps = (case json_col ''steps'' r of JArr js \<Rightarrow> js | _ \<Rightarrow> []),
       pr_StartedAt = time_opt_col ''started_at'' r, pr_FinishedAt = time_opt_col ''finished_at'' r \<rparr>"

definition ListRuns :: "string \<Rightarrow> db \<Rightarrow> (pipeline_error + pipeline_run list) \<times> db" where
  "ListRuns pipelineID =
     repo_list ''pipeline_runs'' (\<lambda>r. r ''pipeline_id'' = Text pipelineID) (order_by_desc (stamp_col ''started_at'')) scanRun PipelineSql"

section \<open>What a run leaves alone\<close>

lemma finish_run_frame:
  assumes "finish_run drv env i sha rb err run (d, fs) = (r, (d', fs'))"
  shows "only_touches {''deployments''} d d'"
  using assms
  by (auto simp: finish_run_def deployment_finish_def deployment_Get_def only_touches_def
      split: sum.splits prod.splits dest!: frame_dest)

lemma deploy_run_frame:
  assumes "deploy_run env srv t d = (r, d')"
  shows "only_touches {} d d'"
  using assms
  by (auto simp: deploy_run_def resolveCloneURL_def integration_Get_def only_touches_def Let_def
      split: sum.splits prod.splits if_splits dest!: frame_dest)

lemma Deploy_frame:
  assumes "Deploy drv env tid (d, fs) = (r, (d', fs'))"
  shows "only_touches {''deployments''} d d'"
  using assms
  by (auto simp: Deploy_def target_Get_def server_Get_def deployment_create_def map_err_def only_touches_def Let_def
      split: sum.splits prod.splits if_splits dest!: frame_dest finish_run_frame deploy_run_frame)

lemma runStep_frame:
  assumes "runStep drv env s (d, fs) = (oc, (d', fs'))"
  shows "only_touches {''deployments''} d d'"
  using assms
  by (auto simp: runStep_def runLocal_def runSSH_def runDeploy_def runHealthCheck_def server_Get_def deployment_Log_def
      deployment_Get_def only_touches_def Let_def
      split: if_splits option.splits sum.splits prod.splits dest!: frame_dest Deploy_frame)

lemma run_from_frame:
  "run_from drv env n steps (d, fs) = (oc, (d', fs')) \<Longrightarrow> only_touches {''deployments''} d d'"
proof (induction steps arbitrary: n d fs oc)
  case (Cons s steps)
  obtain oc1 d1 fs1 where s: "runStep drv (env n) s (d, fs) = (oc1, (d1, fs1))" by (metis surj_pair)
  show ?case
  proof (cases "snd oc1")
    case None
    then obtain oc2 where "run_from drv env (Suc n) steps (d1, fs1) = (oc2, (d', fs'))"
      using s Cons.prems by (cases oc1) (auto split: prod.splits)
    from only_touches_trans_same [OF runStep_frame [OF s] Cons.IH [OF this]] show ?thesis .
  next
    case (Some e)
    then show ?thesis using s Cons.prems runStep_frame [OF s] by (cases oc1) auto
  qed
qed simp

section \<open>A run against all steps\<close>

text \<open>
  The reference: run every step whatever the ones before it did, and note for each its result, its
  error and the state after it.  A run of the engine is this trace cut off after the first failure.
\<close>

type_synonym trace = "(step_result \<times> (string \<times> step_error) option \<times> site) list"

fun run_all :: "(sql_error \<Rightarrow> string) \<Rightarrow> (nat \<Rightarrow> step_env) \<Rightarrow> nat \<Rightarrow> step list \<Rightarrow> site \<Rightarrow> trace" where
  "run_all drv env n [] st = []"
| "run_all drv env n (s # ss) st =
     (case runStep drv (env n) s st of
        (oc, st') \<Rightarrow> (step_result_of drv (env n) s oc, map_option (Pair (stp_Name s)) (snd oc), st') # run_all drv env (Suc n) ss st')"

definition succeeded :: "step_result \<times> (string \<times> step_error) option \<times> site \<Rightarrow> bool" where
  "succeeded = (\<lambda>(r, e, st). e = None)"

definition upto_failure :: "trace \<Rightarrow> trace" where
  "upto_failure tr = takeWhile succeeded tr @ take 1 (dropWhile succeeded tr)"

lemma upto_failure_Cons:
  "upto_failure [] = []" "upto_failure (x # xs) = (if succeeded x then x # upto_failure xs else [x])"
  by (simp_all add: upto_failure_def)

lemma run_from_trace:
  "run_from drv env n steps st =
     (let tr = upto_failure (run_all drv env n steps st)
      in ((map fst tr, if tr = [] then None else fst (snd (last tr))), if tr = [] then st else snd (snd (last tr))))"
proof (induction steps arbitrary: n st)
  case (Cons s ss)
  obtain out err st' where s: "runStep drv (env n) s st = ((out, err), st')" by (metis surj_pair)
  show ?case
    by (cases err) (simp_all add: s Cons.IH upto_failure_Cons succeeded_def Let_def)
qed (simp add: upto_failure_Cons)

lemma upto_failure_shape:
  fixes tr :: trace
  defines "kept \<equiv> upto_failure tr"
  shows "\<forall>x \<in> set (butlast kept). succeeded x" "(\<forall>x \<in> set kept. succeeded x) \<longrightarrow> kept = tr" "kept = [] \<longleftrightarrow> tr = []"
    "\<exists>rest. tr = kept @ rest"
  unfolding kept_def by (induction tr) (auto simp: upto_failure_Cons)

lemma run_all_results:
  "(r, e, st') \<in> set (run_all drv env n steps st) \<Longrightarrow> res_Status r = (if e = None then ''success'' else ''failed'')"
  by (induction steps arbitrary: n st) (auto simp: step_result_of_def Let_def split: prod.splits option.splits)

lemma run_all_length [simp]: "length (run_all drv env n steps st) = length steps"
  by (induction steps arbitrary: n st) (simp_all split: prod.splits)

text \<open>C5: The engine runs the steps in order up to the first failure: a run is the trace of all steps cut
  off there, each step meeting the state the one before it left.  Every step before the last one that
  ran succeeded, a run without error ran every step, and a run with an error ends in its failed step.
  It delivers no results just if the step it ends in panicked.\<close>

theorem pipeline_runs_until_first_failure:
  "let tr = upto_failure (run_all drv env 0 steps st);
       (r, st') = Run drv env steps st
   in st' = (if tr = [] then st else snd (snd (last tr))) \<and>
      (r = None \<longleftrightarrow> tr \<noteq> [] \<and> panics (fst (snd (last tr)))) \<and>
      (case r of
         None \<Rightarrow> list_all (\<lambda>x. res_Status (fst x) = ''success'') (butlast tr)
       | Some (results, err) \<Rightarrow>
           results = map fst tr \<and>
           list_all (\<lambda>r. res_Status r = ''success'') (butlast results) \<and>
           (if err = None then length results = length steps \<and> list_all (\<lambda>r. res_Status r = ''success'') results
            else results \<noteq> [] \<and> res_Status (last results) = ''failed''))"
proof -
  define tr where "tr = upto_failure (run_all drv env 0 steps st)"
  define err where "err = (if tr = [] then None else fst (snd (last tr)))"
  have run: "Run drv env steps st = ((if panics err then None else Some (map fst tr, err)), if tr = [] then st else snd (snd (last tr)))"
    by (simp add: Run_def run_from_trace tr_def err_def Let_def)
  note shape = upto_failure_shape [of "run_all drv env 0 steps st", folded tr_def]
  obtain rest where rest: "run_all drv env 0 steps st = tr @ rest" using shape(4) by blast
  have status: "res_Status (fst x) = (if succeeded x then ''success'' else ''failed'')" if "x \<in> set tr" for x
  proof -
    obtain r e st1 where x: "x = (r, e, st1)" by (metis surj_pair)
    have "(r, e, st1) \<in> set (run_all drv env 0 steps st)" using that unfolding x rest by simp
    from run_all_results [OF this] show ?thesis by (simp add: x succeeded_def)
  qed
  have b: "\<forall>r \<in> set (butlast (map fst tr)). res_Status r = ''success''"
    unfolding map_butlast [symmetric] set_map using shape(1) status in_set_butlastD by fastforce
  have e: "if err = None
    then length (map fst tr) = length steps \<and> (\<forall>r \<in> set (map fst tr). res_Status r = ''success'')
    else map fst tr \<noteq> [] \<and> res_Status (last (map fst tr)) = ''failed''"
  proof (cases "tr = [] \<or> succeeded (last tr)")
    case True
    then have "\<forall>x \<in> set tr. succeeded x" using shape(1) by (cases tr rule: rev_cases) auto
    moreover from this have "tr = run_all drv env 0 steps st" using shape(2) by blast
    ultimately show ?thesis using True status by (auto simp: err_def succeeded_def split: prod.splits)
  next
    case False
    then show ?thesis using status [of "last tr"] by (auto simp: err_def succeeded_def last_map split: prod.splits)
  qed
  have p: "panics err \<longleftrightarrow> tr \<noteq> [] \<and> panics (fst (snd (last tr)))" by (simp add: err_def panics_def)
  have "\<forall>x \<in> set (butlast tr). res_Status (fst x) = ''success''"
    using shape(1) status in_set_butlastD by fastforce
  with b e p show ?thesis unfolding run list_all_iff by (cases "panics err") (simp_all add: tr_def [symmetric] Let_def)
qed

end
