(* ===== verification/PipelineHandlers.thy ===== *)
theory PipelineHandlers
  imports Handlers Pipelines
begin

text \<open>
  The handlers for deployments (\<open>internal/api/v1/deployments.go\<close>) and pipelines
  (\<open>internal/api/v1/pipelines.go\<close>), among them the webhook that starts a pipeline from outside.
  They work on the daemon and the log files of its deployments.
\<close>

type_synonym 'e refusal = "nat \<times> 'e"

type_synonym ('e, 'a) reply = "nat \<times> ('e + 'a)"

type_synonym 'a deploy_handler = "panel \<times> log_files \<Rightarrow> (string + deploy_error, 'a) reply \<times> panel \<times> log_files"

text \<open>Run an operation on database and log files on the daemon.\<close>

definition on_site :: "(site \<Rightarrow> 'a \<times> site) \<Rightarrow> panel \<times> log_files \<Rightarrow> 'a \<times> panel \<times> log_files" where
  "on_site f = (\<lambda>(p, fs). case f (panel_db p, fs) of (a, (d, fs')) \<Rightarrow> (a, (set_db d p, fs')))"

section \<open>Deployments\<close>

definition createDeploymentTarget :: "call \<Rightarrow> string + target \<Rightarrow> target deploy_handler" where
  "createDeploymentTarget cl body = (\<lambda>(p, fs).
     case body of
       Inl msg \<Rightarrow> ((400, Inl (Inl msg)), (p, fs))
     | Inr b \<Rightarrow>
        (if tgt_ProjectID b = [] \<or> tgt_ServerID b = [] \<or> tgt_RepoURL b = [] \<or> tgt_DeployPath b = []
         then ((400, Inl (Inl ''projectId, serverId, repoUrl and deployPath are required'')), (p, fs))
         else (case on_db (target_Create (cl_uuid cl) (cl_now cl) b) p of
                 (Inl e, p1) \<Rightarrow>
                   ((400, Inl (Inr e)), (audit cl ''deployment_target.create'' ''deployment_target'' [] ''error'' p1, fs))
               | (Inr t, p1) \<Rightarrow>
                   ((201, Inr t), (audit cl ''deployment_target.create'' ''deployment_target'' (tgt_ID t) ''ok'' p1, fs)))))"

definition listDeploymentTargets :: "string \<Rightarrow> target list deploy_handler" where
  "listDeploymentTargets projectID = (\<lambda>(p, fs).
     if projectID = [] then ((400, Inl (Inl ''projectId is required'')), (p, fs))
     else (case on_db (target_ListByProject projectID) p of
             (Inl e, p1) \<Rightarrow> ((500, Inl (Inr e)), (p1, fs))
           | (Inr ts, p1) \<Rightarrow> ((200, Inr ts), (p1, fs))))"

definition deleteDeploymentTarget :: "call \<Rightarrow> string \<Rightarrow> string \<Rightarrow> unit deploy_handler" where
  "deleteDeploymentTarget cl i confirm = (\<lambda>(p, fs).
     if confirm \<noteq> ''true'' then ((400, Inl (Inl ''delete requires confirm=true'')), (p, fs))
     else (case on_db (target_Delete i) p of
             (r, p1) \<Rightarrow>
               (let p2 = audit cl ''deployment_target.delete'' ''deployment_target'' i (resultOf r) p1 in
                case r of Inl e \<Rightarrow> ((400, Inl (Inr e)), (p2, fs)) | Inr _ \<Rightarrow> ((200, Inr ()), (p2, fs)))))"

text \<open>
  A deployment that ran and failed is answered with both the deployment and its error.  One that panicked is
  answered 500 by the recovery middleware, and not audited.
\<close>

definition deploy ::
  "(sql_error \<Rightarrow> string) \<Rightarrow> call \<Rightarrow> deploy_env \<Rightarrow> string + string \<Rightarrow> panel \<times> log_files \<Rightarrow>
   (string + deploy_error \<times> deployment option, deployment) reply \<times> panel \<times> log_files" where
  "deploy drv cl env body = (\<lambda>(p, fs).
     case body of
       Inl msg \<Rightarrow> ((400, Inl (Inl msg)), (p, fs))
     | Inr targetID \<Rightarrow>
        (if targetID = [] then ((400, Inl (Inl ''targetId is required'')), (p, fs))
         else (case on_site (Deploy drv env targetID) (p, fs) of
                 (r, (p1, fs1)) \<Rightarrow>
                   (case r of
                      Inl e \<Rightarrow>
                        (if e = NilRequest then ((500, Inl (Inr (e, None))), (p1, fs1))
                         else ((502, Inl (Inr (e, None))), (audit cl ''deployment.deploy'' ''deployment'' [] ''error'' p1, fs1)))
                    | Inr (dep, Some e) \<Rightarrow>
                        ((502, Inl (Inr (e, Some dep))), (audit cl ''deployment.deploy'' ''deployment'' (dep_ID dep) ''error'' p1, fs1))
                    | Inr (dep, None) \<Rightarrow>
                        ((200, Inr dep), (audit cl ''deployment.deploy'' ''deployment'' (dep_ID dep) ''ok'' p1, fs1))))))"

definition listDeployments :: "string \<Rightarrow> deployment list deploy_handler" where
  "listDeployments projectID = (\<lambda>(p, fs).
     if projectID = [] then ((400, Inl (Inl ''projectId is required'')), (p, fs))
     else (case on_db (deployment_ListByProject projectID) p of
             (Inl e, p1) \<Rightarrow> ((500, Inl (Inr e)), (p1, fs))
           | (Inr ds, p1) \<Rightarrow> ((200, Inr ds), (p1, fs))))"

definition deploymentLog :: "string \<Rightarrow> string deploy_handler" where
  "deploymentLog i = (\<lambda>(p, fs).
     case on_db (\<lambda>d. deployment_Log i (d, fs)) p of
       (Inl e, p1) \<Rightarrow> ((400, Inl (Inr e)), (p1, fs))
     | (Inr l, p1) \<Rightarrow> ((200, Inr l), (p1, fs)))"

definition rollbackDeployment ::
  "(sql_error \<Rightarrow> string) \<Rightarrow> call \<Rightarrow> deploy_env \<Rightarrow> string \<Rightarrow> string \<Rightarrow> deployment deploy_handler" where
  "rollbackDeployment drv cl env i confirm = (\<lambda>(p, fs).
     if confirm \<noteq> ''true'' then ((400, Inl (Inl ''rollback requires confirm=true'')), (p, fs))
     else (case on_site (Rollback drv env i) (p, fs) of
             (r, (p1, fs1)) \<Rightarrow>
               (case r of
                  Inl e \<Rightarrow> ((400, Inl (Inr e)), (audit cl ''deployment.rollback'' ''deployment'' i ''error'' p1, fs1))
                | Inr (dep, Some e) \<Rightarrow>
                    ((400, Inl (Inr e)), (audit cl ''deployment.rollback'' ''deployment'' i ''error'' p1, fs1))
                | Inr (dep, None) \<Rightarrow>
                    ((200, Inr dep), (audit cl ''deployment.rollback'' ''deployment'' i ''ok'' p1, fs1)))))"

section \<open>Pipelines\<close>

text \<open>
  What a pipeline request draws from its environment besides a \<^typ>\<open>call\<close>: the YAML decoder, the
  driver's messages, the environment of each step, the keyed hash, random bytes, and the instant the run ends.
\<close>

record pipeline_call =
  pc_yaml :: yaml_decoder
  pc_drv :: "sql_error \<Rightarrow> string"
  pc_env :: "nat \<Rightarrow> step_env"
  pc_hmac :: "bytes \<Rightarrow> bytes \<Rightarrow> bytes"
  pc_random :: "string + bytes"
  pc_finished :: int

type_synonym 'a pipeline_handler =
  "panel \<times> log_files \<Rightarrow> (string + pipeline_error \<times> pipeline_run option, 'a) reply \<times> panel \<times> log_files"

definition createPipeline :: "call \<Rightarrow> pipeline_call \<Rightarrow> string + string \<times> string \<times> string \<Rightarrow> pipeline pipeline_handler" where
  "createPipeline cl pc body = (\<lambda>(p, fs).
     case body of
       Inl msg \<Rightarrow> ((400, Inl (Inl msg)), (p, fs))
     | Inr (projectID, name, yaml) \<Rightarrow>
        (if projectID = [] \<or> name = [] \<or> yaml = []
         then ((400, Inl (Inl ''projectId, name and definitionYaml are required'')), (p, fs))
         else (case Parse (pc_yaml pc) yaml of
                 Inl e \<Rightarrow> ((400, Inl (Inr (BadDefinition e, None))), (p, fs))
               | Inr _ \<Rightarrow>
                   (case on_db (pipeline_Create (pc_random pc) (cl_uuid cl) (cl_now cl) projectID name yaml) p of
                      (Inl e, p1) \<Rightarrow> ((400, Inl (Inr (e, None))), (audit cl ''pipeline.create'' ''pipeline'' [] ''error'' p1, fs))
                    | (Inr pl, p1) \<Rightarrow> ((201, Inr pl), (audit cl ''pipeline.create'' ''pipeline'' (pl_ID pl) ''ok'' p1, fs))))))"

definition listPipelines :: "string \<Rightarrow> pipeline list pipeline_handler" where
  "listPipelines projectID = (\<lambda>(p, fs).
     if projectID = [] then ((400, Inl (Inl ''projectId is required'')), (p, fs))
     else (case on_db (pipeline_ListByProject projectID) p of
             (Inl e, p1) \<Rightarrow> ((500, Inl (Inr (e, None))), (p1, fs))
           | (Inr ps, p1) \<Rightarrow> ((200, Inr ps), (p1, fs))))"

definition deletePipeline :: "call \<Rightarrow> string \<Rightarrow> string \<Rightarrow> unit pipeline_handler" where
  "deletePipeline cl i confirm = (\<lambda>(p, fs).
     if confirm \<noteq> ''true'' then ((400, Inl (Inl ''delete requires confirm=true'')), (p, fs))
     else (case on_db (pipeline_Delete i) p of
             (r, p1) \<Rightarrow>
               (let p2 = audit cl ''pipeline.delete'' ''pipeline'' i (resultOf r) p1 in
                case r of Inl e \<Rightarrow> ((400, Inl (Inr (e, None))), (p2, fs)) | Inr _ \<Rightarrow> ((200, Inr ()), (p2, fs)))))"

definition listPipelineRuns :: "string \<Rightarrow> pipeline_run list pipeline_handler" where
  "listPipelineRuns i = (\<lambda>(p, fs).
     case on_db (ListRuns i) p of
       (Inl e, p1) \<Rightarrow> ((500, Inl (Inr (e, None))), (p1, fs))
     | (Inr rs, p1) \<Rightarrow> ((200, Inr rs), (p1, fs)))"

definition step_json :: "step_result \<Rightarrow> json" where
  "step_json r =
     JObj [(''name'', JStr (res_Name r)), (''kind'', JStr (res_Kind r)), (''status'', JStr (res_Status r)),
           (''output'', JStr (res_Output r)), (''durationMs'', JNum (res_DurationMs r))]"

text \<open>
  The error of the run itself comes with the run; any other error comes without one.  A run that panics
  ends the request there, with its record as it was created.
\<close>

definition runPipeline ::
  "call \<Rightarrow> pipeline_call \<Rightarrow> string \<Rightarrow> string \<Rightarrow> panel \<times> log_files \<Rightarrow>
   (pipeline_error + pipeline_run \<times> pipeline_error option) \<times> panel \<times> log_files" where
  "runPipeline cl pc i triggerKind = (\<lambda>(p, fs).
     case on_db (pipeline_Get i) p of
       (Inl e, p1) \<Rightarrow> (Inl e, (p1, fs))
     | (Inr pl, p1) \<Rightarrow>
        (case Parse (pc_yaml pc) (pl_DefinitionYAML pl) of
           Inl e \<Rightarrow> (Inl (BadDefinition e), (p1, fs))
         | Inr steps \<Rightarrow>
            (case on_db (CreateRun (cl_uuid cl) (cl_now cl) i triggerKind) p1 of
               (Inl e, p2) \<Rightarrow> (Inl e, (p2, fs))
             | (Inr run, p2) \<Rightarrow>
                (case on_site (Run (pc_drv pc) (pc_env pc) steps) (p2, fs) of
                   (None, st3) \<Rightarrow> (Inl RunPanicked, st3)
                 | (Some (results, runErr), (p3, fs3)) \<Rightarrow>
                     (let done = map step_json results;
                          status = (if runErr \<noteq> None then ''failed'' else ''success'')
                      in case on_db (FinishRun (pc_finished pc) (pr_ID run) status done) p3 of
                           (Inl e, p4) \<Rightarrow> (Inl e, (p4, fs3))
                         | (Inr _, p4) \<Rightarrow>
                             (Inr (run\<lparr> pr_Status := status, pr_Steps := done \<rparr>, map_option (\<lambda>(n, e). RunFailed n e) runErr), (p4, fs3)))))))"

text \<open>The answer to a trigger, and its audit; a panic is answered by the recovery middleware and leaves no event.\<close>

definition run_reply ::
  "pipeline_error + pipeline_run \<times> pipeline_error option \<Rightarrow> (string + pipeline_error \<times> pipeline_run option, pipeline_run) reply" where
  "run_reply r =
     (case r of
        Inl e \<Rightarrow> (if e = RunPanicked then 500 else 502, Inl (Inr (e, None)))
      | Inr (run, Some e) \<Rightarrow> (502, Inl (Inr (e, Some run)))
      | Inr (run, None) \<Rightarrow> (200, Inr run))"

definition run_result :: "pipeline_error + pipeline_run \<times> pipeline_error option \<Rightarrow> string" where
  "run_result r = (case r of Inr (run, None) \<Rightarrow> ''ok'' | _ \<Rightarrow> ''error'')"

definition run_audit ::
  "call \<Rightarrow> string \<Rightarrow> string \<Rightarrow> pipeline_error + pipeline_run \<times> pipeline_error option \<Rightarrow> panel \<Rightarrow> panel" where
  "run_audit cl action i r p = (if r = Inl RunPanicked then p else audit cl action ''pipeline'' i (run_result r) p)"

definition runPipelineManual :: "call \<Rightarrow> pipeline_call \<Rightarrow> string \<Rightarrow> pipeline_run pipeline_handler" where
  "runPipelineManual cl pc i st =
     (case runPipeline cl pc i ''manual'' st of
        (r, (p1, fs1)) \<Rightarrow> (run_reply r, (run_audit cl ''pipeline.run'' i r p1, fs1)))"

definition verifyWebhookSignature :: "(bytes \<Rightarrow> bytes \<Rightarrow> bytes) \<Rightarrow> string \<Rightarrow> bytes \<Rightarrow> string \<Rightarrow> bool" where
  "verifyWebhookSignature hmac secret body header =
     (if secret = [] \<or> \<not> has_prefix header ''sha256='' then False
      else hex_encode (hmac secret body) = trim_prefix header ''sha256='')"

text \<open>The second argument is the body as read, or the error of reading it.\<close>

definition pipelineWebhook ::
  "call \<Rightarrow> pipeline_call \<Rightarrow> string \<Rightarrow> string + bytes \<Rightarrow> string \<Rightarrow> pipeline_run pipeline_handler" where
  "pipelineWebhook cl pc i body sig = (\<lambda>(p, fs).
     case on_db (pipeline_Get i) p of
       (Inl _, p1) \<Rightarrow> ((404, Inl (Inl ''pipeline not found'')), (p1, fs))
     | (Inr pl, p1) \<Rightarrow>
        (case body of
           Inl msg \<Rightarrow> ((400, Inl (Inl msg)), (p1, fs))
         | Inr b \<Rightarrow>
            (if \<not> verifyWebhookSignature (pc_hmac pc) (pl_WebhookSecret pl) b sig
             then ((401, Inl (Inl ''invalid webhook signature'')), (audit cl ''pipeline.webhook'' ''pipeline'' i ''error'' p1, fs))
             else (case runPipeline cl pc i ''webhook'' (p1, fs) of
                     (r, (p2, fs2)) \<Rightarrow>
                       (run_reply r, (run_audit cl ''pipeline.webhook'' i r p2, fs2))))))"

section \<open>The webhook\<close>

lemma verifyWebhookSignature_iff:
  "verifyWebhookSignature hmac secret body header \<longleftrightarrow> secret \<noteq> [] \<and> header = ''sha256='' @ hex_encode (hmac secret body)"
proof (cases "has_prefix header ''sha256=''")
  case True
  then obtain rest where "header = ''sha256='' @ rest" unfolding has_prefix_def by (metis append_take_drop_id)
  then show ?thesis by (auto simp: verifyWebhookSignature_def trim_prefix_def has_prefix_def)
next
  case False
  then have "header \<noteq> ''sha256='' @ rest" for rest by (auto simp: has_prefix_def)
  then show ?thesis using False by (simp add: verifyWebhookSignature_def)
qed

lemma pipeline_Get_pure: "faults d = [] \<Longrightarrow> pipeline_Get i d = (fst (pipeline_Get i d), d)"
  by (simp add: pipeline_Get_def repo_get_nofault split: list.splits)

text \<open>C23: A webhook runs the pipeline only with the signature of its body under the pipeline's own secret:
  with it the request does what running the pipeline does and is audited as it went, unless a step panics; with any other
  header, or a pipeline without a secret, it is answered 401, no step runs, and nothing but the
  audit log changes.\<close>

theorem webhook_runs_only_signed_requests:
  assumes "faults (panel_db p) = []" "fst (pipeline_Get i (panel_db p)) = Inr pl"
  shows "pipelineWebhook cl pc i (Inr body) sig (p, fs) =
      (if pl_WebhookSecret pl \<noteq> [] \<and> sig = ''sha256='' @ hex_encode (pc_hmac pc (pl_WebhookSecret pl) body)
       then (case runPipeline cl pc i ''webhook'' (p, fs) of
               (r, (p', fs')) \<Rightarrow> (run_reply r, (run_audit cl ''pipeline.webhook'' i r p', fs')))
       else ((401, Inl (Inl ''invalid webhook signature'')), (audit cl ''pipeline.webhook'' ''pipeline'' i ''error'' p, fs))) \<and>
    (\<forall>t. t \<noteq> ''audit_events'' \<longrightarrow>
       tables (panel_db (audit cl ''pipeline.webhook'' ''pipeline'' i ''error'' p)) t = tables (panel_db p) t) \<and>
    procs (p_mgr (audit cl ''pipeline.webhook'' ''pipeline'' i ''error'' p)) = procs (p_mgr p) \<and>
    p_proxy (audit cl ''pipeline.webhook'' ''pipeline'' i ''error'' p) = p_proxy p"
proof -
  have "on_db (pipeline_Get i) p = (Inr pl, p)"
    using pipeline_Get_pure [OF assms(1), of i] assms(2) by (simp add: on_db_eq)
  then have "pipelineWebhook cl pc i (Inr body) sig (p, fs) =
      (if pl_WebhookSecret pl \<noteq> [] \<and> sig = ''sha256='' @ hex_encode (pc_hmac pc (pl_WebhookSecret pl) body)
       then (case runPipeline cl pc i ''webhook'' (p, fs) of
               (r, (p', fs')) \<Rightarrow> (run_reply r, (run_audit cl ''pipeline.webhook'' i r p', fs')))
       else ((401, Inl (Inl ''invalid webhook signature'')), (audit cl ''pipeline.webhook'' ''pipeline'' i ''error'' p, fs)))"
    unfolding pipelineWebhook_def verifyWebhookSignature_iff by simp
  then show ?thesis by (intro conjI) (assumption, simp_all add: audit_frame(2) [OF assms(1)] audit_rest)
qed

section \<open>Every run that starts is finished\<close>

lemma run_row:
  fixes uuid i kind :: string and now fin :: int
  defines "r \<equiv> make_row ''pipeline_runs'' (new_run_cols uuid now i kind)"
  shows "r ''id'' = Text uuid" "row_not_null ''pipeline_runs'' r"
    "row_references d ''pipeline_runs'' r \<longleftrightarrow> (\<exists>x \<in> set (tables d ''pipelines''). by_id i x)"
    "scanRun r = new_run uuid now i kind"
    "row_not_null ''pipeline_runs'' (set_cols (finish_run_cols fin status steps) r)"
    "row_references d ''pipeline_runs'' (set_cols (finish_run_cols fin status steps) r) \<longleftrightarrow> (\<exists>x \<in> set (tables d ''pipelines''). by_id i x)"
    "scanRun (set_cols (finish_run_cols fin status steps) r) =
       (new_run uuid now i kind)\<lparr> pr_Status := status, pr_Steps := steps, pr_FinishedAt := Some (fin div second * second) \<rparr>"
proof -
  note cols = r_def new_run_cols_def finish_run_cols_def make_row_def set_cols_def column_defaults_def rfc3339_def
  show "r ''id'' = Text uuid" by (simp add: cols)
  show "row_not_null ''pipeline_runs'' r" "row_not_null ''pipeline_runs'' (set_cols (finish_run_cols fin status steps) r)"
    by (simp_all add: row_not_null_def not_null_cols_def required_cols_def cols)
  show "scanRun r = new_run uuid now i kind" unfolding scanRun_def new_run_def column_readers cols by simp
  have "r ''pipeline_id'' = Text i" "set_cols (finish_run_cols fin status steps) r ''pipeline_id'' = Text i"
    by (simp_all add: cols)
  then show "row_references d ''pipeline_runs'' r \<longleftrightarrow> (\<exists>x \<in> set (tables d ''pipelines''). by_id i x)"
    "row_references d ''pipeline_runs'' (set_cols (finish_run_cols fin status steps) r) \<longleftrightarrow> (\<exists>x \<in> set (tables d ''pipelines''). by_id i x)"
    by (simp_all add: row_references_def foreign_keys_def by_id_def)
  show "scanRun (set_cols (finish_run_cols fin status steps) r) =
       (new_run uuid now i kind)\<lparr> pr_Status := status, pr_Steps := steps, pr_FinishedAt := Some (fin div second * second) \<rparr>"
    unfolding scanRun_def new_run_def column_readers cols by simp
qed

text \<open>Every run that starts is finished, unless a step panics: without driver faults exactly one row is
  added, it ends as \<open>success\<close> just when the engine met no error and as \<open>failed\<close> otherwise, never as
  \<open>running\<close>, and it holds the results of the steps that ran.  If a step panics the row stays
  \<open>running\<close>, without results.\<close>

theorem pipeline_run_is_finished:
  assumes "faults (panel_db p) = []" "db_ok (panel_db p)" "fst (pipeline_Get i (panel_db p)) = Inr pl"
    and "Parse (pc_yaml pc) (pl_DefinitionYAML pl) = Inr steps"
    and "\<not> (\<exists>r \<in> set (tables (panel_db p) ''pipeline_runs''). by_id (cl_uuid cl) r)"
  shows "\<exists>res row p' fs' st0. runPipeline cl pc i kind (p, fs) = (res, (p', fs')) \<and>
    tables (panel_db p') ''pipeline_runs'' = tables (panel_db p) ''pipeline_runs'' @ [row] \<and>
    (case fst (Run (pc_drv pc) (pc_env pc) steps st0) of
       None \<Rightarrow> res = Inl RunPanicked \<and> scanRun row = new_run (cl_uuid cl) (cl_now cl) i kind
     | Some (results, e) \<Rightarrow>
        (\<exists>run. res = Inr (run, map_option (\<lambda>(n, x). RunFailed n x) e) \<and>
           scanRun row = run\<lparr> pr_FinishedAt := Some (pc_finished pc div second * second) \<rparr> \<and>
           pr_ID run = cl_uuid cl \<and> pr_PipelineID run = i \<and> pr_TriggerKind run = kind \<and>
           pr_Status run = (if e = None then ''success'' else ''failed'') \<and> pr_Steps run = map step_json results))"
proof -
  define d where "d = panel_db p"
  define r where "r = make_row ''pipeline_runs'' (new_run_cols (cl_uuid cl) (cl_now cl) i kind)"
  define run0 where "run0 = new_run (cl_uuid cl) (cl_now cl) i kind"
  define d1 where "d1 = with_table ''pipeline_runs'' (tables d ''pipeline_runs'' @ [r]) d"
  have d: "faults d = []" "db_ok d" "pipeline_Get i d = (Inr pl, d)"
    using assms(1-3) pipeline_Get_pure [of d i] by (simp_all add: d_def)
  have owner: "\<exists>x \<in> set (tables d ''pipelines''). by_id i x"
    using repo_get_found [OF d(1)] assms(3) by (fastforce simp: d_def pipeline_Get_def)
  have u: "unique_cols ''pipeline_runs'' = [''id'']" by (simp add: unique_cols_def)
  have "sql_insert ''pipeline_runs'' (new_run_cols (cl_uuid cl) (cl_now cl) i kind) d = (Inr (), d1)"
    unfolding d1_def using assms(5) owner
    by (intro insert_fresh [OF d(1) u r_def]) (simp_all add: r_def run_row d_def)
  then have create: "CreateRun (cl_uuid cl) (cl_now cl) i kind d = (Inr run0, d1)" by (simp add: CreateRun_def run0_def)
  obtain out d2 fs2 where go: "Run (pc_drv pc) (pc_env pc) steps (d1, fs) = (out, (d2, fs2))"
    by (metis surj_pair)
  have d1: "faults d1 = []" "tables d1 ''pipeline_runs'' = tables d ''pipeline_runs'' @ [r]" "tables d1 ''pipelines'' = tables d ''pipelines''"
    using d(1) by (simp_all add: d1_def)
  obtain o1 where "run_from (pc_drv pc) (pc_env pc) 0 steps (d1, fs) = (o1, (d2, fs2))"
    using go by (auto simp: Run_def split: prod.splits)
  then have fr: "only_touches {''deployments''} d1 d2" by (rule run_from_frame)
  note d2 = only_touchesD [OF fr d1(1)]
  have t2: "tables d2 ''pipeline_runs'' = tables d ''pipeline_runs'' @ [r]" "tables d2 ''pipelines'' = tables d ''pipelines''"
    using d2(2) [of "''pipeline_runs''"] d2(2) [of "''pipelines''"] d1 by simp_all
  show ?thesis
  proof (cases out)
    case None
    define p' where "p' = set_db d2 p"
    have "runPipeline cl pc i kind (p, fs) = (Inl RunPanicked, (p', fs2))"
      using d(3) create go assms(4) by (simp add: runPipeline_def on_db_eq on_site_def p'_def None d_def)
    moreover have "tables (panel_db p') ''pipeline_runs'' = tables (panel_db p) ''pipeline_runs'' @ [r]"
      by (simp add: p'_def t2(1) d_def)
    moreover have "scanRun r = run0" unfolding r_def run0_def by (rule run_row(4))
    ultimately show ?thesis
      using go None unfolding run0_def by (intro exI [of _ "Inl RunPanicked"] exI [of _ r] exI [of _ p'] exI [of _ fs2] exI [of _ "(d1, fs)"]) simp
  next
    case (Some re)
    then obtain results e where out: "out = Some (results, e)" by (cases re) simp
    define status where "status = (if e \<noteq> None then ''failed'' else ''success'')"
    define a where "a = finish_run_cols (pc_finished pc) status (map step_json results)"
    have "sql_update ''pipeline_runs'' (by_id (cl_uuid cl)) a d2 =
      (Inr 1, with_table ''pipeline_runs'' (tables d ''pipeline_runs'' @ [set_cols a r]) d2)"
      using assms(5) d(2) owner t2
      by (intro update_last [OF d2(1) t2(1) u])
        (simp_all add: r_def a_def run_row d_def db_ok_def schema_tables_def, simp add: finish_run_cols_def)
    then have fin: "FinishRun (pc_finished pc) (cl_uuid cl) status (map step_json results) d2 =
      (Inr (), with_table ''pipeline_runs'' (tables d ''pipeline_runs'' @ [set_cols a r]) d2)"
      by (simp add: FinishRun_def a_def)
    define run where "run = run0\<lparr> pr_Status := status, pr_Steps := map step_json results \<rparr>"
    define p' where "p' = set_db (with_table ''pipeline_runs'' (tables d ''pipeline_runs'' @ [set_cols a r]) d2) p"
    define res where "res = (Inr (run, map_option (\<lambda>(n, e). RunFailed n e) e) :: pipeline_error + pipeline_run \<times> pipeline_error option)"
    have "pr_ID run0 = cl_uuid cl" by (simp add: run0_def new_run_def)
    then have "runPipeline cl pc i kind (p, fs) = (res, (p', fs2))"
      using d(3) create go fin assms(4)
      by (simp add: runPipeline_def on_db_eq on_site_def Let_def run_def p'_def status_def d_def out res_def)
    moreover have "scanRun (set_cols a r) = run\<lparr> pr_FinishedAt := Some (pc_finished pc div second * second) \<rparr>"
      unfolding a_def r_def run_row run_def run0_def by simp
    moreover have "tables (panel_db p') ''pipeline_runs'' = tables (panel_db p) ''pipeline_runs'' @ [set_cols a r]"
      by (simp add: p'_def d_def)
    moreover have "pr_ID run = cl_uuid cl" "pr_PipelineID run = i" "pr_TriggerKind run = kind"
      "pr_Status run = (if e = None then ''success'' else ''failed'')" "pr_Steps run = map step_json results"
      by (simp_all add: run_def run0_def new_run_def status_def)
    ultimately show ?thesis
      using go by (intro exI [of _ res] exI [of _ "set_cols a r"] exI [of _ p'] exI [of _ fs2] exI [of _ "(d1, fs)"])
        (simp add: out res_def)
  qed
qed

section \<open>The properties at concrete inputs\<close>

definition demo_pipeline :: pipeline where
  "demo_pipeline = \<lparr> pl_ID = ''l1'', pl_ProjectID = ''p1'', pl_Name = ''ci'', pl_DefinitionYAML = ''-'', pl_WebhookSecret = ''k'',
     pl_CreatedAt = 0, pl_UpdatedAt = 0 \<rparr>"

definition demo_pipeline_panel :: panel where
  "demo_pipeline_panel = demo_panel
     [(''projects'', [make_row ''projects'' [(''id'', Text ''p1''), (''name'', Text ''web''), (''path'', Text ''/srv/web''),
         (''created_at'', Stamp 0), (''updated_at'', Stamp 0)]]),
      (''pipelines'', [make_row ''pipelines'' (pipeline_cols demo_pipeline)])] []"

text \<open>A pipeline of two steps, the first of which fails; the hash is a stand-in.\<close>

definition demo_pipeline_call :: pipeline_call where
  "demo_pipeline_call =
     (let s = \<lparr> stp_Name = ''test'', stp_Run = ''make'', stp_SSH = None, stp_Deploy = [], stp_HealthCheck = None \<rparr>
      in \<lparr> pc_yaml = (\<lambda>_. Inr [s, s]), pc_drv = (\<lambda>_. []),
           pc_env = (\<lambda>n. \<lparr> se_local = (\<lambda>c. (c, Some ''exit status 2'')), se_connect = (\<lambda>_. Inl []), se_deploy = None,
                          se_http = (\<lambda>_. Inl []), se_duration = 3 \<rparr>),
           pc_hmac = (\<lambda>k b. k @ b), pc_random = Inr [], pc_finished = 0 \<rparr>)"

lemma demo_pipeline_panel_ok:
  "faults (panel_db demo_pipeline_panel) = []" "db_ok (panel_db demo_pipeline_panel)"
  "fst (pipeline_Get ''l1'' (panel_db demo_pipeline_panel)) = Inr demo_pipeline"
proof -
  show f: "faults (panel_db demo_pipeline_panel) = []"
    by (simp add: demo_pipeline_panel_def demo_panel_def panel_db_def)
  show "db_ok (panel_db demo_pipeline_panel)"
    by (simp add: db_ok_def demo_pipeline_panel_def demo_panel_def panel_db_def pipeline_cols_def demo_pipeline_def
        schema_tables_def row_not_null_def not_null_cols_def required_cols_def column_defaults_def make_row_def
        row_references_def foreign_keys_def rfc3339_def)
  have "tables (panel_db demo_pipeline_panel) ''pipelines'' = [make_row ''pipelines'' (pipeline_cols demo_pipeline)]"
    by (simp add: demo_pipeline_panel_def demo_panel_def panel_db_def)
  then show "fst (pipeline_Get ''l1'' (panel_db demo_pipeline_panel)) = Inr demo_pipeline"
    by (simp add: pipeline_Get_def repo_get_nofault f by_id_def scanPipeline_def make_row_def pipeline_cols_def
        column_readers demo_pipeline_def)
qed

lemma webhook_runs_only_signed_requests_witness:
  "fst (pipelineWebhook (demo_call ''u'') demo_pipeline_call ''l1'' (Inr ''A'') ''sha256=6b40'' (demo_pipeline_panel, Map.empty)) =
     (401, Inl (Inl ''invalid webhook signature'')) \<and>
   fst (fst (pipelineWebhook (demo_call ''u'') demo_pipeline_call ''l1'' (Inr ''A'') ''sha256=6b41'' (demo_pipeline_panel, Map.empty))) = 502"
proof -
  have k: "pl_WebhookSecret demo_pipeline = ''k''" "pc_hmac demo_pipeline_call = (\<lambda>k b. k @ b)"
    by (simp_all add: demo_pipeline_def demo_pipeline_call_def Let_def)
  have h: "hex_encode ''kA'' = ''6b41''" by code_simp
  note w = webhook_runs_only_signed_requests [OF demo_pipeline_panel_ok(1,3), unfolded k]
  have "fst (run_reply (fst (runPipeline (demo_call ''u'') demo_pipeline_call ''l1'' ''webhook'' (demo_pipeline_panel, Map.empty)))) = 502"
    by code_simp
  then show ?thesis
    using w [where cl = "demo_call ''u''" and pc = demo_pipeline_call and body = "''A''" and sig = "''sha256=6b40''" and fs = Map.empty, unfolded k]
      w [where cl = "demo_call ''u''" and pc = demo_pipeline_call and body = "''A''" and sig = "''sha256=6b41''" and fs = Map.empty, unfolded k]
    by (simp add: h k case_prod_unfold)
qed

lemma pipeline_run_is_finished_witness:
  "\<exists>res row p' fs'. runPipeline (demo_call ''u'') demo_pipeline_call ''l1'' ''manual'' (demo_pipeline_panel, Map.empty) = (res, (p', fs')) \<and>
     tables (panel_db p') ''pipeline_runs'' = [row]"
proof -
  obtain steps where p: "Parse (pc_yaml demo_pipeline_call) (pl_DefinitionYAML demo_pipeline) = Inr steps"
    by (simp add: Parse_def demo_pipeline_call_def demo_pipeline_def Kind_def Let_def)
  have "\<not> (\<exists>r \<in> set (tables (panel_db demo_pipeline_panel) ''pipeline_runs''). by_id (cl_uuid (demo_call ''u'')) r)"
    by (simp add: demo_pipeline_panel_def demo_panel_def panel_db_def)
  from pipeline_run_is_finished [OF demo_pipeline_panel_ok p this, where kind = "''manual''" and fs = Map.empty]
  show ?thesis by (auto simp: demo_pipeline_panel_def demo_panel_def panel_db_def)
qed

end
