(* ===== verification/GoPath.thy ===== *)
theory GoPath
  imports Prelude
begin

text \<open>
  \<open>path/filepath\<close> on Unix path strings, absolute or relative: \<open>Clean\<close>, \<open>Join\<close>, \<open>Dir\<close> and \<open>Base\<close>.
  The theory \<open>Filesystem\<close> has the same operations on cleaned absolute paths as lists of components.
\<close>

definition rooted :: "string \<Rightarrow> bool" where
  "rooted p = has_prefix p ''/''"

text \<open>Components with \<open>.\<close> and empty ones dropped and \<open>..\<close> resolved as far as possible.\<close>

fun clean_parts :: "bool \<Rightarrow> string list \<Rightarrow> string list \<Rightarrow> string list" where
  "clean_parts r acc [] = rev acc"
| "clean_parts r acc (c # cs) =
     (if c = [] \<or> c = ''.'' then clean_parts r acc cs
      else if c = ''..'' then
        (case acc of
           [] \<Rightarrow> if r then clean_parts r [] cs else clean_parts r [''..''] cs
         | a # as \<Rightarrow> if a = ''..'' then clean_parts r (''..'' # a # as) cs else clean_parts r as cs)
      else clean_parts r (c # acc) cs)"

definition path_string :: "bool \<Rightarrow> string list \<Rightarrow> string" where
  "path_string r cs = (if r then CHR ''/'' # join_with ''/'' cs else if cs = [] then ''.'' else join_with ''/'' cs)"

definition filepath_Clean :: "string \<Rightarrow> string" where
  "filepath_Clean p = path_string (rooted p) (clean_parts (rooted p) [] (split_on CHR ''/'' p))"

text \<open>\<open>Join\<close> of two elements: empty ones are ignored, and nothing is \<open>""\<close>.\<close>

definition filepath_Join :: "string \<Rightarrow> string \<Rightarrow> string" where
  "filepath_Join a b =
     (if a = [] \<and> b = [] then [] else if a = [] then filepath_Clean b else if b = [] then filepath_Clean a
      else filepath_Clean (a @ ''/'' @ b))"

definition filepath_Dir :: "string \<Rightarrow> string" where
  "filepath_Dir p = filepath_Clean (rev (dropWhile (\<lambda>c. c \<noteq> CHR ''/'') (rev p)))"

definition filepath_Base :: "string \<Rightarrow> string" where
  "filepath_Base p =
     (if p = [] then ''.''
      else (let q = rev (dropWhile (\<lambda>c. c = CHR ''/'') (rev p))
            in if q = [] then ''/'' else rev (takeWhile (\<lambda>c. c \<noteq> CHR ''/'') (rev q))))"

section \<open>Components\<close>

definition normal_part :: "string \<Rightarrow> bool" where
  "normal_part c \<longleftrightarrow> c \<noteq> [] \<and> c \<noteq> ''.'' \<and> c \<noteq> ''..'' \<and> CHR ''/'' \<notin> set c"

lemma clean_parts_append: "clean_parts r acc (cs @ ds) = clean_parts r (rev (clean_parts r acc cs)) ds"
proof (induction r acc cs rule: clean_parts.induct)
  case (2 r acc c cs)
  then show ?case by (cases acc) auto
qed simp

lemma clean_parts_normal: "normal_part c \<Longrightarrow> clean_parts r acc (cs @ [c]) = clean_parts r acc cs @ [c]"
  by (simp add: clean_parts_append normal_part_def)

text \<open>A name appended to a directory is found below the cleaned directory, and its \<open>Dir\<close> is that directory.\<close>

lemma Join_name:
  assumes "normal_part name" "d \<noteq> []"
  shows "filepath_Join d name = path_string (rooted d) (clean_parts (rooted d) [] (split_on CHR ''/'' d) @ [name])"
proof -
  have "name \<noteq> []" "CHR ''/'' \<notin> set name" using assms(1) by (auto simp: normal_part_def)
  moreover have "rooted (d @ ''/'' @ name) = rooted d" using assms(2) by (cases d) (auto simp: rooted_def has_prefix_def)
  moreover have "split_on CHR ''/'' (d @ ''/'' @ name) = split_on CHR ''/'' d @ [name]"
    using split_on_append [of "CHR ''/''" d name] \<open>CHR ''/'' \<notin> set name\<close> by (simp add: split_on_plain)
  ultimately show ?thesis
    using assms by (simp add: filepath_Join_def filepath_Clean_def clean_parts_normal)
qed

end
