(* ===== verification/JsonDecode.thy ===== *)
theory JsonDecode
  imports Database
begin

text \<open>
  Decoding a JSON document, given as a value of type \<^typ>\<open>json\<close>, the way \<open>json.Unmarshal\<close> decodes into a struct: keys match without regard to case, the last of several
  wins, \<open>null\<close> leaves a field as it is, and a value of the wrong type is an error.
\<close>

definition unmarshal_object :: "json \<Rightarrow> (string \<times> json) list option" where
  "unmarshal_object j = (case j of JObj kvs \<Rightarrow> Some kvs | JNull \<Rightarrow> Some [] | _ \<Rightarrow> None)"

fun json_field :: "('a \<Rightarrow> json \<Rightarrow> 'a option) \<Rightarrow> string \<Rightarrow> 'a \<Rightarrow> (string \<times> json) list \<Rightarrow> 'a option" where
  "json_field dec f cur [] = Some cur"
| "json_field dec f cur ((k, v) # kvs) =
     (if equal_fold k f
      then (case dec cur v of None \<Rightarrow> None | Some x \<Rightarrow> json_field dec f x kvs)
      else json_field dec f cur kvs)"

definition dec_string :: "string \<Rightarrow> json \<Rightarrow> string option" where
  "dec_string cur j = (case j of JStr s \<Rightarrow> Some s | JNull \<Rightarrow> Some cur | _ \<Rightarrow> None)"

definition dec_int :: "int \<Rightarrow> json \<Rightarrow> int option" where
  "dec_int cur j = (case j of JNum n \<Rightarrow> if in_range64 n then Some n else None | JNull \<Rightarrow> Some cur | _ \<Rightarrow> None)"

definition dec_bool :: "bool \<Rightarrow> json \<Rightarrow> bool option" where
  "dec_bool cur j = (case j of JBool b \<Rightarrow> Some b | JNull \<Rightarrow> Some cur | _ \<Rightarrow> None)"

text \<open>A slice: \<open>null\<close> makes it \<open>nil\<close>, and an element starts from the zero value.\<close>

fun dec_elems :: "('a \<Rightarrow> json \<Rightarrow> 'a option) \<Rightarrow> 'a \<Rightarrow> json list \<Rightarrow> 'a list option" where
  "dec_elems dec z [] = Some []"
| "dec_elems dec z (j # js) =
     (case (dec z j, dec_elems dec z js) of (Some x, Some xs) \<Rightarrow> Some (x # xs) | _ \<Rightarrow> None)"

definition dec_slice :: "('a \<Rightarrow> json \<Rightarrow> 'a option) \<Rightarrow> 'a \<Rightarrow> 'a list \<Rightarrow> json \<Rightarrow> 'a list option" where
  "dec_slice dec z cur j = (case j of JArr js \<Rightarrow> dec_elems dec z js | JNull \<Rightarrow> Some [] | _ \<Rightarrow> None)"

abbreviation str_field :: "string \<Rightarrow> (string \<times> json) list \<Rightarrow> string option" where
  "str_field f \<equiv> json_field dec_string f []"

abbreviation strs_field :: "string \<Rightarrow> (string \<times> json) list \<Rightarrow> string list option" where
  "strs_field f \<equiv> json_field (dec_slice dec_string []) f []"

text \<open>A raw field keeps the last value, \<open>null\<close> included.\<close>

fun raw_field :: "string \<Rightarrow> json option \<Rightarrow> (string \<times> json) list \<Rightarrow> json option" where
  "raw_field f cur [] = cur"
| "raw_field f cur ((k, v) # kvs) = raw_field f (if equal_fold k f then Some v else cur) kvs"

end
