(* ===== verification/PluginHost.thy ===== *)
theory PluginHost
  imports GoPath Projects Runtimes JsonDecode
begin

text \<open>
  \<open>internal/pluginhost\<close>: the manifest of an extension and the newline-delimited JSON protocol the daemon
  speaks with its subprocess (\<open>protocol.go\<close>, \<open>host.go\<close>).

  The subprocess is foreign code: it decides, from the requests it has been sent, whether the next
  one can be written and what comes back on its output.  The file system, the JSON parser and the
  launching of a process are arguments.  A provider is a pointer shared by the registry and the
  repository, so providers live in a store and are named by their address.
\<close>

section \<open>The manifest\<close>

record manifest =
  mf_Name :: string
  mf_Version :: string
  mf_Kind :: string
  mf_Executable :: string
  mf_Args :: "string list"
  mf_Permissions :: "string list"

datatype call_error =
    ProviderClosed
  | WriteFailed string
  | ReadBroken string
  | OutputClosed
  | CallTimedOut
  | CallCancelled string
  | MalformedResponse
  | IdMismatch string string
  | MethodFailed string
  | MalformedResult

datatype load_error =
    StatFailed string
  | ReadFailed string
  | BadManifestJson
  | MissingFields "string list"
  | SpawnFailed string
  | HandshakeFailed call_error
  | BadHandshake
  | UnsupportedVersion int

definition decode_manifest :: "json \<Rightarrow> manifest option" where
  "decode_manifest j =
     (case unmarshal_object j of
        None \<Rightarrow> None
      | Some kvs \<Rightarrow>
         (case (str_field ''name'' kvs, str_field ''version'' kvs, str_field ''kind'' kvs, str_field ''executable'' kvs,
                strs_field ''args'' kvs, strs_field ''permissions'' kvs) of
            (Some n, Some v, Some k, Some x, Some a, Some p) \<Rightarrow>
              Some \<lparr> mf_Name = n, mf_Version = v, mf_Kind = k, mf_Executable = x, mf_Args = a, mf_Permissions = p \<rparr>
          | _ \<Rightarrow> None))"

definition Validate :: "manifest \<Rightarrow> load_error option" where
  "Validate m =
     (let missing = (if mf_Name m = [] then [''name''] else []) @ (if mf_Version m = [] then [''version''] else []) @
                    (if mf_Kind m = [] then [''kind''] else []) @ (if mf_Executable m = [] then [''executable''] else [])
      in if missing \<noteq> [] then Some (MissingFields missing) else None)"

datatype read_result = Line bytes | Broken string | Eof | TimedOut | Cancelled string

record request =
  rq_ID :: string
  rq_Method :: string
  rq_Params :: "json option"

text \<open>What the subprocess does, given the requests written to it so far.\<close>

record subprocess =
  sp_hello :: read_result
  sp_write :: "request list \<Rightarrow> string option"
  sp_read :: "request list \<Rightarrow> read_result"

record world =
  w_stat :: "string \<Rightarrow> string + bool"
  w_read :: "string \<Rightarrow> string + bytes"
  w_parse :: parser
  w_spawn :: "manifest \<Rightarrow> string \<Rightarrow> string + subprocess"

definition ManifestFileName :: string where "ManifestFileName = ''volt-extension.json''"

definition ReadManifest :: "world \<Rightarrow> string \<Rightarrow> load_error + manifest \<times> string" where
  "ReadManifest w p =
     (case w_stat w p of
        Inl msg \<Rightarrow> Inl (StatFailed msg)
      | Inr isDir \<Rightarrow>
         (let manifestPath = (if isDir then filepath_Join p ManifestFileName else p)
          in case w_read w manifestPath of
               Inl msg \<Rightarrow> Inl (ReadFailed msg)
             | Inr b \<Rightarrow>
                (case Option.bind (w_parse w b) decode_manifest of
                   None \<Rightarrow> Inl BadManifestJson
                 | Some m \<Rightarrow>
                    (case Validate m of
                       Some e \<Rightarrow> Inl e
                     | None \<Rightarrow> Inr (m, filepath_Dir manifestPath)))))"

section \<open>The protocol\<close>

definition SupportedVersions :: "int list" where "SupportedVersions = [1]"

definition IsSupportedVersion :: "int \<Rightarrow> bool" where
  "IsSupportedVersion v = list_ex (\<lambda>sv. sv = v) SupportedVersions"

record handshake =
  hs_ProtocolVersion :: int
  hs_Kind :: string
  hs_Name :: string
  hs_Methods :: "string list"

record response =
  rsp_ID :: string
  rsp_Result :: "json option"
  rsp_Error :: string

definition DecodeHandshake :: "parser \<Rightarrow> bytes \<Rightarrow> handshake option" where
  "DecodeHandshake parse line =
     (case Option.bind (parse line) unmarshal_object of
        None \<Rightarrow> None
      | Some kvs \<Rightarrow>
         (case (json_field dec_int ''protocolVersion'' 0 kvs, str_field ''kind'' kvs, str_field ''name'' kvs,
                strs_field ''methods'' kvs) of
            (Some v, Some k, Some n, Some ms) \<Rightarrow>
              Some \<lparr> hs_ProtocolVersion = v, hs_Kind = k, hs_Name = n, hs_Methods = ms \<rparr>
          | _ \<Rightarrow> None))"

definition DecodeResponse :: "parser \<Rightarrow> bytes \<Rightarrow> response option" where
  "DecodeResponse parse line =
     (case Option.bind (parse line) unmarshal_object of
        None \<Rightarrow> None
      | Some kvs \<Rightarrow>
         (case (str_field ''id'' kvs, str_field ''error'' kvs) of
            (Some i, Some e) \<Rightarrow> Some \<lparr> rsp_ID = i, rsp_Result = raw_field ''result'' None kvs, rsp_Error = e \<rparr>
          | _ \<Rightarrow> None))"

definition DecodeRequest :: "parser \<Rightarrow> bytes \<Rightarrow> request option" where
  "DecodeRequest parse line =
     (case Option.bind (parse line) unmarshal_object of
        None \<Rightarrow> None
      | Some kvs \<Rightarrow>
         (case (str_field ''id'' kvs, str_field ''method'' kvs) of
            (Some i, Some m) \<Rightarrow> Some \<lparr> rq_ID = i, rq_Method = m, rq_Params = raw_field ''params'' None kvs \<rparr>
          | _ \<Rightarrow> None))"

section \<open>A running extension\<close>

record provider =
  ep_manifest :: manifest
  ep_handshake :: handshake
  ep_dir :: string
  ep_sub :: subprocess
  ep_sent :: "request list"
  ep_closed :: bool

definition no_handshake :: handshake where
  "no_handshake = \<lparr> hs_ProtocolVersion = 0, hs_Kind = [], hs_Name = [], hs_Methods = [] \<rparr>"

definition readLineLocked :: "read_result \<Rightarrow> call_error + bytes" where
  "readLineLocked r =
     (case r of
        Line b \<Rightarrow> Inr b
      | Broken msg \<Rightarrow> Inl (ReadBroken msg)
      | Eof \<Rightarrow> Inl OutputClosed
      | TimedOut \<Rightarrow> Inl CallTimedOut
      | Cancelled msg \<Rightarrow> Inl (CallCancelled msg))"

definition closeLocked :: "provider \<Rightarrow> provider" where
  "closeLocked p = (if ep_closed p then p else p\<lparr> ep_closed := True \<rparr>)"

definition ep_Kind :: "provider \<Rightarrow> string" where
  "ep_Kind p = hs_Name (ep_handshake p)"

text \<open>One request and its response, with the fresh id \<open>uuid\<close>.\<close>

definition ep_call :: "parser \<Rightarrow> string \<Rightarrow> string \<Rightarrow> json option \<Rightarrow> provider \<Rightarrow> (call_error + json option) \<times> provider" where
  "ep_call parse uuid method params p =
     (if ep_closed p then (Inl ProviderClosed, p)
      else
       (let req = \<lparr> rq_ID = uuid, rq_Method = method, rq_Params = params \<rparr>;
            history = ep_sent p @ [req]
        in case sp_write (ep_sub p) history of
             Some msg \<Rightarrow> (Inl (WriteFailed msg), closeLocked p)
           | None \<Rightarrow>
              (let p1 = p\<lparr> ep_sent := history \<rparr> in
               case readLineLocked (sp_read (ep_sub p) history) of
                 Inl e \<Rightarrow> (Inl e, closeLocked p1)
               | Inr line \<Rightarrow>
                  (case DecodeResponse parse line of
                     None \<Rightarrow> (Inl MalformedResponse, closeLocked p1)
                   | Some resp \<Rightarrow>
                      (if rsp_ID resp \<noteq> uuid then (Inl (IdMismatch (rsp_ID resp) uuid), closeLocked p1)
                       else if rsp_Error resp \<noteq> [] then (Inl (MethodFailed (rsp_Error resp)), p1)
                       else (Inr (rsp_Result resp), p1))))))"

definition dec_wire :: "detected_version \<Rightarrow> json \<Rightarrow> detected_version option" where
  "dec_wire cur j =
     (case unmarshal_object j of
        None \<Rightarrow> None
      | Some kvs \<Rightarrow>
         (case (str_field ''version'' kvs, str_field ''installPath'' kvs, json_field dec_bool ''isDefault'' False kvs) of
            (Some v, Some p, Some b) \<Rightarrow> Some \<lparr> dv_Version = v, dv_InstallPath = p, dv_IsDefault = b \<rparr>
          | _ \<Rightarrow> None))"

definition no_version :: detected_version where
  "no_version = \<lparr> dv_Version = [], dv_InstallPath = [], dv_IsDefault = False \<rparr>"

definition ep_DetectInstalled :: "parser \<Rightarrow> string \<Rightarrow> provider \<Rightarrow> (call_error + detected_version list) \<times> provider" where
  "ep_DetectInstalled parse uuid p =
     (case ep_call parse uuid ''DetectInstalled'' None p of
        (Inl e, p') \<Rightarrow> (Inl e, p')
      | (Inr None, p') \<Rightarrow> (Inr [], p')
      | (Inr (Some j), p') \<Rightarrow>
         (case dec_slice dec_wire no_version [] j of
            None \<Rightarrow> (Inl MalformedResult, p') | Some vs \<Rightarrow> (Inr vs, p')))"

text \<open>\<open>Install\<close>, \<open>Remove\<close> and \<open>SetDefault\<close> send the version and drop the result.\<close>

definition ep_version_call :: "string \<Rightarrow> parser \<Rightarrow> string \<Rightarrow> string \<Rightarrow> provider \<Rightarrow> (call_error + unit) \<times> provider" where
  "ep_version_call method parse uuid version p =
     (case ep_call parse uuid method (Some (JObj [(''version'', JStr version)])) p of
        (Inl e, p') \<Rightarrow> (Inl e, p') | (Inr _, p') \<Rightarrow> (Inr (), p'))"

definition ep_Install :: "parser \<Rightarrow> string \<Rightarrow> string \<Rightarrow> provider \<Rightarrow> (call_error + unit) \<times> provider" where
  "ep_Install = ep_version_call ''Install''"

definition ep_Remove :: "parser \<Rightarrow> string \<Rightarrow> string \<Rightarrow> provider \<Rightarrow> (call_error + unit) \<times> provider" where
  "ep_Remove = ep_version_call ''Remove''"

definition ep_SetDefault :: "parser \<Rightarrow> string \<Rightarrow> string \<Rightarrow> provider \<Rightarrow> (call_error + unit) \<times> provider" where
  "ep_SetDefault = ep_version_call ''SetDefault''"

section \<open>Launching one\<close>

text \<open>The providers created so far, by address; an address is used once.\<close>

record heap =
  hp_procs :: "nat \<Rightarrow> provider option"
  hp_next :: nat

definition empty_heap :: heap where
  "empty_heap = \<lparr> hp_procs = (\<lambda>_. None), hp_next = 0 \<rparr>"

definition alloc :: "provider \<Rightarrow> heap \<Rightarrow> heap" where
  "alloc p h = h\<lparr> hp_procs := (hp_procs h)(hp_next h \<mapsto> p), hp_next := Suc (hp_next h) \<rparr>"

definition update_at :: "nat \<Rightarrow> (provider \<Rightarrow> provider) \<Rightarrow> heap \<Rightarrow> heap" where
  "update_at a f h =
     h\<lparr> hp_procs := (case hp_procs h a of None \<Rightarrow> hp_procs h | Some p \<Rightarrow> (hp_procs h)(a \<mapsto> f p)) \<rparr>"

text \<open>Once the process has started, every failure closes it again.\<close>

definition LoadExtension :: "world \<Rightarrow> string \<Rightarrow> heap \<Rightarrow> (load_error + nat) \<times> heap" where
  "LoadExtension w p h =
     (case ReadManifest w p of
        Inl e \<Rightarrow> (Inl e, h)
      | Inr (m, dir) \<Rightarrow>
         (case w_spawn w m dir of
            Inl msg \<Rightarrow> (Inl (SpawnFailed msg), h)
          | Inr sub \<Rightarrow>
             (let ep = \<lparr> ep_manifest = m, ep_handshake = no_handshake, ep_dir = dir, ep_sub = sub, ep_sent = [],
                        ep_closed = False \<rparr>
              in case readLineLocked (sp_hello sub) of
                   Inl e \<Rightarrow> (Inl (HandshakeFailed e), alloc (closeLocked ep) h)
                 | Inr line \<Rightarrow>
                    (case DecodeHandshake (w_parse w) line of
                       None \<Rightarrow> (Inl BadHandshake, alloc (closeLocked ep) h)
                     | Some hs \<Rightarrow>
                        (if \<not> IsSupportedVersion (hs_ProtocolVersion hs)
                         then (Inl (UnsupportedVersion (hs_ProtocolVersion hs)), alloc (closeLocked ep) h)
                         else (Inr (hp_next h), alloc (ep\<lparr> ep_handshake := hs \<rparr>) h))))))"

section \<open>What a manifest that is accepted holds\<close>

lemma Validate_iff:
  "Validate m = None \<longleftrightarrow> mf_Name m \<noteq> [] \<and> mf_Version m \<noteq> [] \<and> mf_Kind m \<noteq> [] \<and> mf_Executable m \<noteq> []"
  by (simp add: Validate_def Let_def)

lemma ReadManifest_validated:
  "ReadManifest w p = Inr (m, dir) \<Longrightarrow> Validate m = None"
  by (auto simp: ReadManifest_def Let_def split: sum.splits option.splits)

section \<open>The protocol\<close>

lemma closeLocked_simps [simp]:
  "ep_closed (closeLocked p)" "ep_sub (closeLocked p) = ep_sub p" "ep_sent (closeLocked p) = ep_sent p"
  "ep_Kind (closeLocked p) = ep_Kind p" "closeLocked (closeLocked p) = closeLocked p"
  by (simp_all add: closeLocked_def ep_Kind_def)

text \<open>C25: An extension that breaks the protocol is never spoken to again.  After a call the subprocess is open exactly
  when the request could be written and the line read right after it decodes to a response that carries the
  request's id, whatever else the response says; then the answer of the call is the error the response reports, if
  any, and else its result.  In all other cases (the request cannot be written, the output ends, breaks or stays
  silent, the line does not decode, the id differs) the call fails, not with an error of the method, the
  subprocess is closed, and every later call fails at once and writes nothing.\<close>

theorem protocol_violation_closes_extension:
  assumes "ep_call parse uuid method params p = (r, p')" "\<not> ep_closed p"
  defines "history \<equiv> ep_sent p @ [\<lparr> rq_ID = uuid, rq_Method = method, rq_Params = params \<rparr>]"
  shows "(\<not> ep_closed p' \<longleftrightarrow>
      sp_write (ep_sub p) history = None \<and>
      (\<exists>line resp. sp_read (ep_sub p) history = Line line \<and> DecodeResponse parse line = Some resp \<and> rsp_ID resp = uuid)) \<and>
    (\<forall>line resp. \<not> ep_closed p' \<and> sp_read (ep_sub p) history = Line line \<and> DecodeResponse parse line = Some resp \<longrightarrow>
      p' = p\<lparr> ep_sent := history \<rparr> \<and>
      r = (if rsp_Error resp = [] then Inr (rsp_Result resp) else Inl (MethodFailed (rsp_Error resp)))) \<and>
    (ep_closed p' \<longrightarrow> (\<exists>e. r = Inl e \<and> (\<forall>msg. e \<noteq> MethodFailed msg)) \<and>
      (\<forall>parse' uuid' method' params'. ep_call parse' uuid' method' params' p' = (Inl ProviderClosed, p')))"
proof -
  have later: "ep_closed p' \<longrightarrow> (\<forall>parse' uuid' method' params'. ep_call parse' uuid' method' params' p' = (Inl ProviderClosed, p'))"
    by (simp add: ep_call_def)
  show ?thesis
  proof (cases "sp_write (ep_sub p) history")
    case (Some msg)
    then have "r = Inl (WriteFailed msg) \<and> ep_closed p'"
      using assms(1,2) by (auto simp: ep_call_def Let_def history_def closeLocked_def)
    with Some later show ?thesis by simp
  next
    case None
    show ?thesis
    proof (cases "\<exists>line resp. sp_read (ep_sub p) history = Line line \<and> DecodeResponse parse line = Some resp")
      case True
      then obtain line resp where l: "sp_read (ep_sub p) history = Line line" "DecodeResponse parse line = Some resp" by blast
      show ?thesis
      proof (cases "rsp_ID resp = uuid")
        case True
        then have "p' = p\<lparr> ep_sent := history \<rparr> \<and>
            r = (if rsp_Error resp = [] then Inr (rsp_Result resp) else Inl (MethodFailed (rsp_Error resp)))"
          using assms(1,2) None l by (auto simp: ep_call_def Let_def history_def readLineLocked_def split: if_splits)
        with assms(2) None l True show ?thesis by simp
      next
        case False
        then have "r = Inl (IdMismatch (rsp_ID resp) uuid) \<and> ep_closed p'"
          using assms(1,2) None l by (auto simp: ep_call_def Let_def history_def readLineLocked_def closeLocked_def)
        with None l False later show ?thesis by simp
      qed
    next
      case False
      then have "(\<exists>e. r = Inl e \<and> (\<forall>msg. e \<noteq> MethodFailed msg)) \<and> ep_closed p'"
        using assms(1,2) None
        by (auto simp: ep_call_def Let_def history_def readLineLocked_def closeLocked_def split: read_result.splits option.splits)
      with False later show ?thesis by blast
    qed
  qed
qed

definition demo_sub :: subprocess where
  "demo_sub = \<lparr> sp_hello = Line ''h'', sp_write = (\<lambda>_. None), sp_read = (\<lambda>rs. if length rs = 1 then Line ''ok'' else Line ''bad'') \<rparr>"

definition demo_parse :: parser where
  "demo_parse b =
     (if b = ''h'' then Some (JObj [(''protocolVersion'', JNum 1), (''kind'', JStr ''runtime''), (''name'', JStr ''node'')])
      else if b = ''m'' then Some (JObj [(''name'', JStr ''x''), (''version'', JStr ''1''), (''kind'', JStr ''runtime''), (''executable'', JStr ''x'')])
      else if b = ''ok'' then Some (JObj [(''id'', JStr ''1''), (''result'', JArr [])])
      else if b = ''bad'' then Some (JObj [(''id'', JStr ''other'')])
      else None)"

definition demo_provider :: provider where
  "demo_provider = \<lparr> ep_manifest = \<lparr> mf_Name = ''x'', mf_Version = ''1'', mf_Kind = ''runtime'', mf_Executable = ''x'', mf_Args = [], mf_Permissions = [] \<rparr>,
     ep_handshake = no_handshake, ep_dir = ''/x'', ep_sub = demo_sub, ep_sent = [], ep_closed = False \<rparr>"

lemma protocol_violation_closes_extension_witness:
  "fst (ep_DetectInstalled demo_parse ''1'' demo_provider) = Inr [] \<and>
   (let p1 = snd (ep_call demo_parse ''1'' ''DetectInstalled'' None demo_provider);
        p2 = snd (ep_call demo_parse ''2'' ''Install'' None p1)
    in ep_call demo_parse ''3'' ''Install'' None p2 = (Inl ProviderClosed, p2))"
proof -
  define p1 where "p1 = snd (ep_call demo_parse ''1'' ''DetectInstalled'' None demo_provider)"
  obtain r p2 where c: "ep_call demo_parse ''2'' ''Install'' None p1 = (r, p2)" by (metis surj_pair)
  have "\<not> ep_closed p1" unfolding p1_def by code_simp
  note t = protocol_violation_closes_extension [OF c this]
  have "ep_closed (snd (ep_call demo_parse ''2'' ''Install'' None p1))" unfolding p1_def by code_simp
  with t [THEN conjunct2, THEN conjunct2] c have "ep_call demo_parse ''3'' ''Install'' None p2 = (Inl ProviderClosed, p2)" by simp
  moreover have "fst (ep_DetectInstalled demo_parse ''1'' demo_provider) = Inr []" by code_simp
  ultimately show ?thesis using c by (simp add: p1_def Let_def)
qed

end
