(* ===== verification/Extensions.thy ===== *)
theory Extensions
  imports PluginHost Frames
begin

text \<open>
  The provider registry (\<open>internal/providers/registry.go\<close>) and the repository of extensions
  (\<open>internal/domain/extension/extension.go\<close>), which turns a row into a live provider.

  The state beside the database is the registry, the map of loaded extensions and the store of the
  providers both point into.  The mutex of the repository guards single accesses to the map only, so
  loading is two steps with the launch of the subprocess between them.
\<close>

section \<open>The registry\<close>

text \<open>A registered provider is a built-in one or a running extension.\<close>

datatype registered = Builtin string | External nat

record registry =
  runtimes :: "string \<Rightarrow> registered option"

definition NewRegistry :: registry where
  "NewRegistry = \<lparr> runtimes = (\<lambda>_. None) \<rparr>"

text \<open>\<open>Kind()\<close> of a provider, whose value may live in the store.\<close>

definition provider_kind :: "heap \<Rightarrow> registered \<Rightarrow> string" where
  "provider_kind h p = (case p of Builtin k \<Rightarrow> k | External a \<Rightarrow> (case hp_procs h a of None \<Rightarrow> [] | Some ep \<Rightarrow> ep_Kind ep))"

definition RegisterRuntime :: "string \<Rightarrow> registered \<Rightarrow> registry \<Rightarrow> registry" where
  "RegisterRuntime kind p r = r\<lparr> runtimes := (runtimes r)(kind \<mapsto> p) \<rparr>"

definition UnregisterRuntime :: "string \<Rightarrow> registry \<Rightarrow> registry" where
  "UnregisterRuntime kind r = r\<lparr> runtimes := (runtimes r)(kind := None) \<rparr>"

definition Runtime :: "string \<Rightarrow> registry \<Rightarrow> registered option" where
  "Runtime kind r = runtimes r kind"

text \<open>What the repository and the runtime handlers rely on.\<close>

locale kind_registry =
  fixes register :: "string \<Rightarrow> 'p \<Rightarrow> 'r \<Rightarrow> 'r"
    and unregister :: "string \<Rightarrow> 'r \<Rightarrow> 'r"
    and lookup :: "string \<Rightarrow> 'r \<Rightarrow> 'p option"
  assumes lookup_register: "lookup k (register j p r) = (if k = j then Some p else lookup k r)"
    and lookup_unregister: "lookup k (unregister j r) = (if k = j then None else lookup k r)"
begin

lemma register_unregister: "lookup k (unregister j (register j p r)) = (if k = j then None else lookup k r)"
  by (simp add: lookup_register lookup_unregister)

lemma lookup_unregister_all:
  "lookup k (foldl (\<lambda>r j. unregister j r) r js) = (if k \<in> set js then None else lookup k r)"
  by (induction js arbitrary: r) (auto simp: lookup_unregister)

end

interpretation registry: kind_registry RegisterRuntime UnregisterRuntime Runtime
  by unfold_locales (simp_all add: RegisterRuntime_def UnregisterRuntime_def Runtime_def)

section \<open>The rows\<close>

record extension =
  ext_ID :: string
  ext_Name :: string
  ext_Version :: string
  ext_Kind :: string
  ext_Source :: string
  ext_Enabled :: bool
  ext_Permissions :: "string list"

datatype extension_error =
    ExtensionNotFound
  | ExtensionSql sql_error
  | BadPermissions string
  | UnsupportedKind string
  | LoadFailed load_error
  | InsertExtension sql_error
  | DisableBeforeRemove extension_error

definition scanExtension :: "row \<Rightarrow> extension_error + extension" where
  "scanExtension r =
     (case dec_slice dec_string [] [] (json_col ''permissions'' r) of
        None \<Rightarrow> Inl (BadPermissions (text_col ''id'' r))
      | Some ps \<Rightarrow>
         Inr \<lparr> ext_ID = text_col ''id'' r, ext_Name = text_col ''name'' r, ext_Version = text_col ''version'' r,
               ext_Kind = text_col ''kind'' r, ext_Source = text_col ''source'' r, ext_Enabled = bool_col ''enabled'' r,
               ext_Permissions = ps \<rparr>)"

fun all_ok :: "('e + 'a) list \<Rightarrow> 'e + 'a list" where
  "all_ok [] = Inr []"
| "all_ok (x # xs) = (case x of Inl e \<Rightarrow> Inl e | Inr a \<Rightarrow> (case all_ok xs of Inl e \<Rightarrow> Inl e | Inr as \<Rightarrow> Inr (a # as)))"

definition extension_List :: "db \<Rightarrow> (extension_error + extension list) \<times> db" where
  "extension_List d =
     (case sql_query ''extensions'' (\<lambda>_. True) d of
        (Inl e, d') \<Rightarrow> (Inl (ExtensionSql e), d')
      | (Inr rows, d') \<Rightarrow> (all_ok (map scanExtension (sort_key (text_col ''name'') rows)), d'))"

definition extension_Get :: "string \<Rightarrow> db \<Rightarrow> (extension_error + extension option) \<times> db" where
  "extension_Get i d =
     (case sql_query_row ''extensions'' (by_id i) d of
        (Inl NoRows, d') \<Rightarrow> (Inr None, d')
      | (Inl e, d') \<Rightarrow> (Inl (ExtensionSql e), d')
      | (Inr r, d') \<Rightarrow> (case scanExtension r of Inl e \<Rightarrow> (Inl e, d') | Inr x \<Rightarrow> (Inr (Some x), d')))"

definition extension_cols :: "extension \<Rightarrow> (string \<times> sqlval) list" where
  "extension_cols x =
     [(''id'', Text (ext_ID x)), (''name'', Text (ext_Name x)), (''version'', Text (ext_Version x)), (''kind'', Text (ext_Kind x)),
      (''source'', Text (ext_Source x)), (''enabled'', Num 0), (''permissions'', Json (json_strings (ext_Permissions x)))]"

definition extension_Install :: "world \<Rightarrow> string \<Rightarrow> string \<Rightarrow> db \<Rightarrow> (extension_error + extension) \<times> db" where
  "extension_Install w uuid sourcePath d =
     (case ReadManifest w sourcePath of
        Inl e \<Rightarrow> (Inl (LoadFailed e), d)
      | Inr (m, dir) \<Rightarrow>
         (let x = \<lparr> ext_ID = uuid, ext_Name = mf_Name m, ext_Version = mf_Version m, ext_Kind = mf_Kind m, ext_Source = dir,
                    ext_Enabled = False, ext_Permissions = mf_Permissions m \<rparr>
          in case sql_insert ''extensions'' (extension_cols x) d of
               (Inl e, d') \<Rightarrow> (Inl (InsertExtension e), d')
             | (Inr _, d') \<Rightarrow> (Inr x, d')))"

section \<open>Loading and unloading\<close>

record plugins =
  pg_registry :: registry
  pg_loaded :: "string \<Rightarrow> nat option"
  pg_heap :: heap

definition ep_Close :: "nat \<Rightarrow> plugins \<Rightarrow> plugins" where
  "ep_Close a g = g\<lparr> pg_heap := update_at a closeLocked (pg_heap g) \<rparr>"

text \<open>The two critical sections of \<open>loadAndRegister\<close>, and what runs between and around them.\<close>

definition drop_loaded :: "string \<Rightarrow> plugins \<Rightarrow> plugins" where
  "drop_loaded i g =
     (case pg_loaded g i of
        None \<Rightarrow> g
      | Some a \<Rightarrow> (ep_Close a g)\<lparr> pg_loaded := (pg_loaded g)(i := None) \<rparr>)"

definition launch :: "world \<Rightarrow> extension \<Rightarrow> plugins \<Rightarrow> (load_error + nat) \<times> plugins" where
  "launch w x g = (case LoadExtension w (ext_Source x) (pg_heap g) of (r, h) \<Rightarrow> (r, g\<lparr> pg_heap := h \<rparr>))"

definition enter_loaded :: "string \<Rightarrow> nat \<Rightarrow> plugins \<Rightarrow> plugins" where
  "enter_loaded i a g =
     g\<lparr> pg_loaded := (pg_loaded g)(i \<mapsto> a),
        pg_registry := RegisterRuntime (provider_kind (pg_heap g) (External a)) (External a) (pg_registry g) \<rparr>"

definition loadAndRegister :: "world \<Rightarrow> extension \<Rightarrow> plugins \<Rightarrow> (extension_error + nat) \<times> plugins" where
  "loadAndRegister w x g =
     (if ext_Kind x \<noteq> ''runtime'' then (Inl (UnsupportedKind (ext_Kind x)), g)
      else (case launch w x (drop_loaded (ext_ID x) g) of
              (Inl e, g') \<Rightarrow> (Inl (LoadFailed e), g')
            | (Inr a, g') \<Rightarrow> (Inr a, enter_loaded (ext_ID x) a g')))"

definition set_enabled :: "bool \<Rightarrow> string \<Rightarrow> db \<Rightarrow> (sql_error + nat) \<times> db" where
  "set_enabled b i = sql_update ''extensions'' (by_id i) [(''enabled'', boolToInt b)]"

definition extension_Enable :: "world \<Rightarrow> string \<Rightarrow> db \<times> plugins \<Rightarrow> (extension_error + extension) \<times> db \<times> plugins" where
  "extension_Enable w i = (\<lambda>(d, g).
     case extension_Get i d of
       (Inl e, d1) \<Rightarrow> (Inl e, (d1, g))
     | (Inr None, d1) \<Rightarrow> (Inl ExtensionNotFound, (d1, g))
     | (Inr (Some x), d1) \<Rightarrow>
        (case loadAndRegister w x g of
           (Inl e, g1) \<Rightarrow> (Inl e, (d1, g1))
         | (Inr _, g1) \<Rightarrow>
            (case set_enabled True i d1 of
               (Inl e, d2) \<Rightarrow> (Inl (ExtensionSql e), (d2, g1))
             | (Inr _, d2) \<Rightarrow> (Inr (x\<lparr> ext_Enabled := True \<rparr>), (d2, g1)))))"

text \<open>Take the extension out of the map; if it was there, unregister and close it.\<close>

definition unload :: "string \<Rightarrow> plugins \<Rightarrow> plugins" where
  "unload i g =
     (let g1 = g\<lparr> pg_loaded := (pg_loaded g)(i := None) \<rparr> in
      case pg_loaded g i of
        None \<Rightarrow> g1
      | Some a \<Rightarrow>
         ep_Close a (g1\<lparr> pg_registry := UnregisterRuntime (provider_kind (pg_heap g) (External a)) (pg_registry g) \<rparr>))"

definition extension_Disable :: "string \<Rightarrow> db \<times> plugins \<Rightarrow> (extension_error + extension) \<times> db \<times> plugins" where
  "extension_Disable i = (\<lambda>(d, g).
     case extension_Get i d of
       (Inl e, d1) \<Rightarrow> (Inl e, (d1, g))
     | (Inr None, d1) \<Rightarrow> (Inl ExtensionNotFound, (d1, g))
     | (Inr (Some x), d1) \<Rightarrow>
        (case set_enabled False i d1 of
           (Inl e, d2) \<Rightarrow> (Inl (ExtensionSql e), (d2, unload i g))
         | (Inr _, d2) \<Rightarrow> (Inr (x\<lparr> ext_Enabled := False \<rparr>), (d2, unload i g))))"

definition extension_Remove :: "string \<Rightarrow> db \<times> plugins \<Rightarrow> (extension_error + unit) \<times> db \<times> plugins" where
  "extension_Remove i = (\<lambda>(d, g).
     case extension_Get i d of
       (Inl e, d1) \<Rightarrow> (Inl e, (d1, g))
     | (Inr None, d1) \<Rightarrow> (Inl ExtensionNotFound, (d1, g))
     | (Inr (Some x), d1) \<Rightarrow>
        (case (if ext_Enabled x then extension_Disable i (d1, g) else (Inr x, (d1, g))) of
           (Inl e, s) \<Rightarrow> (Inl (DisableBeforeRemove e), s)
         | (Inr _, (d2, g2)) \<Rightarrow>
            (case sql_delete ''extensions'' (by_id i) d2 of
               (Inl e, d3) \<Rightarrow> (Inl (ExtensionSql e), (d3, g2))
             | (Inr _, d3) \<Rightarrow> (Inr (), (d3, g2)))))"

fun load_all :: "world \<Rightarrow> extension list \<Rightarrow> plugins \<Rightarrow> plugins" where
  "load_all w [] g = g"
| "load_all w (x # xs) g = load_all w xs (if ext_Enabled x then snd (loadAndRegister w x g) else g)"

definition LoadEnabled :: "world \<Rightarrow> db \<times> plugins \<Rightarrow> db \<times> plugins" where
  "LoadEnabled w = (\<lambda>(d, g).
     case extension_List d of (Inl _, d1) \<Rightarrow> (d1, g) | (Inr xs, d1) \<Rightarrow> (d1, load_all w xs g))"

text \<open>
  \<open>CloseAll\<close> takes the whole map out first and visits it in no particular order; the order is the
  argument \<open>order\<close>, which holds the loaded ids.
\<close>

fun close_each :: "nat list \<Rightarrow> plugins \<Rightarrow> plugins" where
  "close_each [] g = g"
| "close_each (a # as) g =
     close_each as
       (ep_Close a (g\<lparr> pg_registry := UnregisterRuntime (provider_kind (pg_heap g) (External a)) (pg_registry g) \<rparr>))"

definition CloseAll :: "string list \<Rightarrow> plugins \<Rightarrow> plugins" where
  "CloseAll order g = close_each (map (\<lambda>i. the (pg_loaded g i)) order) (g\<lparr> pg_loaded := (\<lambda>_. None) \<rparr>)"

text \<open>A call to a provider through the registry changes that provider only.\<close>

definition provider_call :: "nat \<Rightarrow> (provider \<Rightarrow> 'a \<times> provider) \<Rightarrow> plugins \<Rightarrow> 'a option \<times> plugins" where
  "provider_call a f g =
     (case hp_procs (pg_heap g) a of
        None \<Rightarrow> (None, g)
      | Some p \<Rightarrow> (Some (fst (f p)), g\<lparr> pg_heap := update_at a (\<lambda>p. snd (f p)) (pg_heap g) \<rparr>))"

section \<open>No subprocess is left behind\<close>

definition live :: "plugins \<Rightarrow> nat \<Rightarrow> bool" where
  "live g a \<longleftrightarrow> (\<exists>p. hp_procs (pg_heap g) a = Some p \<and> \<not> ep_closed p)"

text \<open>
  The invariant, where \<open>A\<close> holds the processes that have been launched but not entered in the map yet:
  apart from those every live process belongs to exactly one loaded extension.
\<close>

definition plugins_inv :: "nat set \<Rightarrow> plugins \<Rightarrow> bool" where
  "plugins_inv A g \<longleftrightarrow>
     (\<forall>i a. pg_loaded g i = Some a \<longrightarrow> hp_procs (pg_heap g) a \<noteq> None \<and> a \<notin> A) \<and>
     (\<forall>i j a. pg_loaded g i = Some a \<longrightarrow> pg_loaded g j = Some a \<longrightarrow> i = j) \<and>
     (\<forall>a. live g a \<longrightarrow> a \<in> A \<or> (\<exists>i. pg_loaded g i = Some a)) \<and>
     (\<forall>k a. Runtime k (pg_registry g) = Some (External a) \<longrightarrow> (\<exists>p. hp_procs (pg_heap g) a = Some p \<and> ep_Kind p = k)) \<and>
     (\<forall>a. hp_next (pg_heap g) \<le> a \<longrightarrow> hp_procs (pg_heap g) a = None) \<and>
     (\<forall>a \<in> A. hp_procs (pg_heap g) a \<noteq> None)"

definition idle_plugins :: "registry \<Rightarrow> plugins" where
  "idle_plugins r = \<lparr> pg_registry = r, pg_loaded = (\<lambda>_. None), pg_heap = empty_heap \<rparr>"

lemma plugins_invD:
  assumes "plugins_inv A g"
  shows "pg_loaded g i = Some a \<Longrightarrow> hp_procs (pg_heap g) a \<noteq> None" "pg_loaded g i = Some a \<Longrightarrow> a \<notin> A"
    "pg_loaded g i = Some a \<Longrightarrow> pg_loaded g j = Some a \<Longrightarrow> i = j"
    "live g a \<Longrightarrow> a \<in> A \<or> (\<exists>i. pg_loaded g i = Some a)"
    "Runtime k (pg_registry g) = Some (External a) \<Longrightarrow> \<exists>p. hp_procs (pg_heap g) a = Some p \<and> ep_Kind p = k"
    "hp_next (pg_heap g) \<le> a \<Longrightarrow> hp_procs (pg_heap g) a = None" "a \<in> A \<Longrightarrow> hp_procs (pg_heap g) a \<noteq> None"
  using assms unfolding plugins_inv_def by blast+

lemma plugins_invI:
  assumes "\<And>i a. pg_loaded g i = Some a \<Longrightarrow> hp_procs (pg_heap g) a \<noteq> None \<and> a \<notin> A"
    and "\<And>i j a. pg_loaded g i = Some a \<Longrightarrow> pg_loaded g j = Some a \<Longrightarrow> i = j"
    and "\<And>a. live g a \<Longrightarrow> a \<in> A \<or> (\<exists>i. pg_loaded g i = Some a)"
    and "\<And>k a. Runtime k (pg_registry g) = Some (External a) \<Longrightarrow> \<exists>p. hp_procs (pg_heap g) a = Some p \<and> ep_Kind p = k"
    and "\<And>a. hp_next (pg_heap g) \<le> a \<Longrightarrow> hp_procs (pg_heap g) a = None"
    and "\<And>a. a \<in> A \<Longrightarrow> hp_procs (pg_heap g) a \<noteq> None"
  shows "plugins_inv A g"
  using assms unfolding plugins_inv_def by blast

lemma update_at_simps [simp]:
  "hp_next (update_at a f h) = hp_next h" "hp_procs (update_at a f h) b = (if a = b then map_option f (hp_procs h b) else hp_procs h b)"
  by (auto simp: update_at_def split: option.splits)

lemma ep_Close_simps [simp]:
  "pg_loaded (ep_Close a g) = pg_loaded g" "pg_registry (ep_Close a g) = pg_registry g"
  "hp_next (pg_heap (ep_Close a g)) = hp_next (pg_heap g)"
  "hp_procs (pg_heap (ep_Close a g)) b = (if a = b then map_option closeLocked (hp_procs (pg_heap g) b) else hp_procs (pg_heap g) b)"
  by (simp_all add: ep_Close_def)

lemma live_ep_Close [simp]: "live (ep_Close a g) b \<longleftrightarrow> a \<noteq> b \<and> live g b"
  by (auto simp: live_def)

text \<open>Forget an entry of the map: its process is one that is in no map.\<close>

lemma inv_forget:
  assumes "plugins_inv A g" "pg_loaded g i = Some a"
  shows "plugins_inv (insert a A) (g\<lparr> pg_loaded := (pg_loaded g)(i := None) \<rparr>)"
proof -
  note d = plugins_invD [OF assms(1)]
  define g' where "g' = g\<lparr> pg_loaded := (pg_loaded g)(i := None) \<rparr>"
  have l: "pg_loaded g' j = Some b \<longleftrightarrow> j \<noteq> i \<and> pg_loaded g j = Some b" "pg_heap g' = pg_heap g" "pg_registry g' = pg_registry g" for j b
    by (simp_all add: g'_def)
  have lv: "live g' b \<longleftrightarrow> live g b" for b by (simp add: live_def l)
  show ?thesis unfolding g'_def [symmetric]
  proof (rule plugins_invI)
    fix j b assume "pg_loaded g' j = Some b"
    then show "hp_procs (pg_heap g') b \<noteq> None \<and> b \<notin> insert a A" using d(1,2) d(3) [of j b i] assms(2) by (auto simp: l)
  next
    fix b assume "live g' b"
    then show "b \<in> insert a A \<or> (\<exists>j. pg_loaded g' j = Some b)" using d(4) [of b] assms(2) unfolding lv l by (metis insert_iff option.inject)
  next
    fix b assume "b \<in> insert a A"
    then show "hp_procs (pg_heap g') b \<noteq> None" using d(1,7) assms(2) by (auto simp: l)
  qed (use d in \<open>auto simp: l\<close>)
qed

lemma inv_close:
  assumes "plugins_inv (insert a A) g"
  shows "plugins_inv A (ep_Close a g)"
proof -
  note d = plugins_invD [OF assms]
  show ?thesis
  proof (rule plugins_invI)
    fix k b assume "Runtime k (pg_registry (ep_Close a g)) = Some (External b)"
    then show "\<exists>p. hp_procs (pg_heap (ep_Close a g)) b = Some p \<and> ep_Kind p = k" using d(5) [of k b] by auto
  next
    fix b assume "b \<in> A"
    then show "hp_procs (pg_heap (ep_Close a g)) b \<noteq> None" using d(7) [of b] by simp
  next
    fix b assume "live (ep_Close a g) b"
    then show "b \<in> A \<or> (\<exists>i. pg_loaded (ep_Close a g) i = Some b)" using d(4) [of b] by auto
  next
    fix i b assume "pg_loaded (ep_Close a g) i = Some b"
    then show "hp_procs (pg_heap (ep_Close a g)) b \<noteq> None \<and> b \<notin> A" using d(1,2) [of i b] by simp
  qed (use d(3,6) in auto)
qed

lemma inv_unregister: "plugins_inv A g \<Longrightarrow> plugins_inv A (g\<lparr> pg_registry := UnregisterRuntime k (pg_registry g) \<rparr>)"
  unfolding plugins_inv_def live_def by (auto simp: registry.lookup_unregister split: if_splits)

lemma inv_none: "pg_loaded g i = None \<Longrightarrow> g\<lparr> pg_loaded := (pg_loaded g)(i := None) \<rparr> = g"
  by (cases g) (auto simp: fun_upd_idem)

lemma inv_drop_loaded:
  assumes "plugins_inv A g"
  shows "plugins_inv A (drop_loaded i g)" "pg_loaded (drop_loaded i g) = (pg_loaded g)(i := None)"
proof -
  have comm: "(ep_Close a g)\<lparr> pg_loaded := l \<rparr> = ep_Close a (g\<lparr> pg_loaded := l \<rparr>)" for a l
    by (simp add: ep_Close_def)
  show "plugins_inv A (drop_loaded i g)"
    using assms inv_close [OF inv_forget [OF assms]] by (auto simp: drop_loaded_def comm split: option.splits)
  show "pg_loaded (drop_loaded i g) = (pg_loaded g)(i := None)"
    by (auto simp: drop_loaded_def fun_eq_iff split: option.splits)
qed

lemma inv_unload:
  assumes "plugins_inv A g"
  shows "plugins_inv A (unload i g)" "pg_loaded (unload i g) = (pg_loaded g)(i := None)"
proof -
  show "plugins_inv A (unload i g)"
  proof (cases "pg_loaded g i")
    case None
    then show ?thesis using assms by (simp add: unload_def None inv_none [OF None])
  next
    case (Some a)
    show ?thesis
      using inv_close [OF inv_unregister [OF inv_forget [OF assms Some]]] by (simp add: unload_def Some Let_def)
  qed
  show "pg_loaded (unload i g) = (pg_loaded g)(i := None)" by (simp add: unload_def Let_def split: option.splits)
qed

lemma LoadExtension_cases:
  assumes "LoadExtension w p h = (r, h')"
  shows "(isl r \<and> h' = h) \<or> (\<exists>ep. h' = alloc ep h \<and> (case r of Inl _ \<Rightarrow> ep_closed ep | Inr a \<Rightarrow> a = hp_next h \<and> \<not> ep_closed ep))"
  using assms by (auto simp: LoadExtension_def Let_def split: sum.splits prod.splits option.splits if_splits)

lemma inv_alloc:
  assumes "plugins_inv A g"
  shows "plugins_inv (if ep_closed ep then A else insert (hp_next (pg_heap g)) A) (g\<lparr> pg_heap := alloc ep (pg_heap g) \<rparr>)"
proof -
  let ?n = "hp_next (pg_heap g)"
  note d = plugins_invD [OF assms]
  have n: "hp_procs (pg_heap g) ?n = None" using d(6) by simp
  have l: "live (g\<lparr> pg_heap := alloc ep (pg_heap g) \<rparr>) a \<longleftrightarrow> (if a = ?n then \<not> ep_closed ep else live g a)" for a
    by (simp add: live_def alloc_def)
  have "pg_loaded g i \<noteq> Some ?n" for i using d(1) n by blast
  moreover have "?n \<notin> A" using d(7) n by blast
  moreover have "Runtime k (pg_registry g) \<noteq> Some (External ?n)" for k using d(5) n by fastforce
  ultimately show ?thesis
    using d unfolding plugins_inv_def l by (auto simp: alloc_def)
qed

lemma inv_launch:
  assumes "plugins_inv A g" "launch w x g = (r, g')"
  shows "plugins_inv (case r of Inl _ \<Rightarrow> A | Inr a \<Rightarrow> insert a A) g'" "pg_loaded g' = pg_loaded g" "pg_registry g' = pg_registry g"
    "r = Inr a \<Longrightarrow> live g' a \<and> a \<notin> A \<and> (\<forall>i. pg_loaded g i \<noteq> Some a)"
proof -
  obtain h where h: "LoadExtension w (ext_Source x) (pg_heap g) = (r, h)" and g': "g' = g\<lparr> pg_heap := h \<rparr>"
    using assms(2) by (auto simp: launch_def split: prod.splits)
  show "pg_loaded g' = pg_loaded g" "pg_registry g' = pg_registry g" by (simp_all add: g')
  from LoadExtension_cases [OF h] show "plugins_inv (case r of Inl _ \<Rightarrow> A | Inr a \<Rightarrow> insert a A) g'"
    using inv_alloc [OF assms(1)] assms(1) by (auto simp: g' split: sum.splits if_splits) (metis (full_types))+
  assume r: "r = Inr a"
  have "hp_procs (pg_heap g) (hp_next (pg_heap g)) = None" using plugins_invD(6) [OF assms(1)] by simp
  then have n: "hp_next (pg_heap g) \<notin> A" "\<forall>i. pg_loaded g i \<noteq> Some (hp_next (pg_heap g))"
    using plugins_invD(1,7) [OF assms(1)] by blast+
  have "a = hp_next (pg_heap g)" "live g' a"
    using LoadExtension_cases [OF h] r by (auto simp: g' live_def alloc_def)
  with n show "live g' a \<and> a \<notin> A \<and> (\<forall>i. pg_loaded g i \<noteq> Some a)" by simp
qed

lemma inv_enter:
  assumes "plugins_inv (insert a A) g" "a \<notin> A" "pg_loaded g i = None"
  shows "plugins_inv A (enter_loaded i a g)"
proof -
  note d = plugins_invD [OF assms(1)]
  obtain p where p: "hp_procs (pg_heap g) a = Some p" using d(7) [of a] by auto
  define g' where "g' = enter_loaded i a g"
  have l: "pg_loaded g' = (pg_loaded g)(i \<mapsto> a)" "pg_heap g' = pg_heap g"
    "Runtime k (pg_registry g') = (if k = ep_Kind p then Some (External a) else Runtime k (pg_registry g))" for k
    by (simp_all add: g'_def enter_loaded_def registry.lookup_register provider_kind_def p)
  have lv: "live g' b \<longleftrightarrow> live g b" for b by (simp add: live_def l)
  have a: "pg_loaded g j \<noteq> Some a" for j using d(2) [of j a] by blast
  have "pg_loaded g' j = Some b \<Longrightarrow> hp_procs (pg_heap g') b \<noteq> None \<and> b \<notin> A" for j b
    using d(1,2) assms(2) p by (auto simp: l split: if_splits)
  moreover have "pg_loaded g' j = Some b \<Longrightarrow> pg_loaded g' k = Some b \<Longrightarrow> j = k" for j k b
    using d(3) a by (auto simp: l split: if_splits)
  moreover have "live g' b \<Longrightarrow> b \<in> A \<or> (\<exists>j. pg_loaded g' j = Some b)" for b
    using d(4) [of b] assms(3) unfolding lv l by (metis fun_upd_apply insert_iff option.distinct(1))
  moreover have "Runtime k (pg_registry g') = Some (External b) \<Longrightarrow> \<exists>p. hp_procs (pg_heap g') b = Some p \<and> ep_Kind p = k" for k b
    using d(5) p by (auto simp: l split: if_splits)
  moreover have "hp_next (pg_heap g') \<le> b \<Longrightarrow> hp_procs (pg_heap g') b = None" for b
    using d(6) by (simp add: l)
  moreover have "b \<in> A \<Longrightarrow> hp_procs (pg_heap g') b \<noteq> None" for b
    using d(7) by (simp add: l)
  ultimately show ?thesis unfolding plugins_inv_def g'_def by blast
qed

lemma inv_loadAndRegister:
  assumes "plugins_inv A g"
  shows "plugins_inv A (snd (loadAndRegister w x g))"
proof -
  obtain r g1 where l: "launch w x (drop_loaded (ext_ID x) g) = (r, g1)" by (metis surj_pair)
  note drop = inv_drop_loaded [OF assms, of "ext_ID x"]
  note la = inv_launch [OF drop(1) l]
  show ?thesis
  proof (cases r)
    case (Inl e)
    then show ?thesis using la(1) assms by (simp add: loadAndRegister_def l)
  next
    case (Inr a)
    then have "plugins_inv (insert a A) g1" "a \<notin> A" "pg_loaded g1 (ext_ID x) = None" using la drop(2) by auto
    then show ?thesis using Inr assms inv_enter by (simp add: loadAndRegister_def l)
  qed
qed

lemma inv_load_all: "plugins_inv A g \<Longrightarrow> plugins_inv A (load_all w xs g)"
  by (induction xs arbitrary: g) (auto intro: inv_loadAndRegister)

lemma inv_close_each:
  "plugins_inv (set as \<union> A) g \<Longrightarrow> plugins_inv A (close_each as g)"
proof (induction as arbitrary: g)
  case (Cons a as)
  have "plugins_inv (insert a (set as \<union> A)) g" using Cons.prems by simp
  then show ?case unfolding close_each.simps by (intro Cons.IH inv_close inv_unregister)
qed simp

lemma close_each_loaded [simp]: "pg_loaded (close_each as g) = pg_loaded g"
  by (induction as arbitrary: g) simp_all

lemma inv_CloseAll:
  assumes "plugins_inv A g" "set order = {i. pg_loaded g i \<noteq> None}"
  shows "plugins_inv A (CloseAll order g)" "pg_loaded (CloseAll order g) = (\<lambda>_. None)"
proof -
  note d = plugins_invD [OF assms(1)]
  define as where "as = map (\<lambda>i. the (pg_loaded g i)) order"
  have as: "a \<in> set as \<longleftrightarrow> (\<exists>i. pg_loaded g i = Some a)" for a using assms(2) by (force simp: as_def)
  have "plugins_inv (set as \<union> A) (g\<lparr> pg_loaded := (\<lambda>_. None) \<rparr>)"
  proof (rule plugins_invI)
    fix b assume "live (g\<lparr> pg_loaded := (\<lambda>_. None) \<rparr>) b"
    then have "live g b" by (simp add: live_def)
    with d(4) as show "b \<in> set as \<union> A \<or> (\<exists>i. pg_loaded (g\<lparr> pg_loaded := (\<lambda>_. None) \<rparr>) i = Some b)" by blast
  next
    fix b assume "b \<in> set as \<union> A"
    with d(1,7) as show "hp_procs (pg_heap (g\<lparr> pg_loaded := (\<lambda>_. None) \<rparr>)) b \<noteq> None" by auto
  qed (use d(5,6) in auto)
  then show "plugins_inv A (CloseAll order g)" unfolding CloseAll_def as_def [symmetric] by (rule inv_close_each)
  show "pg_loaded (CloseAll order g) = (\<lambda>_. None)" by (simp add: CloseAll_def)
qed

text \<open>What a call may do to a provider: it keeps its name and does not reopen it.\<close>

definition keeps_closed :: "(provider \<Rightarrow> 'a \<times> provider) \<Rightarrow> bool" where
  "keeps_closed f \<longleftrightarrow> (\<forall>p. ep_Kind (snd (f p)) = ep_Kind p \<and> (ep_closed p \<longrightarrow> ep_closed (snd (f p))))"

lemma inv_call:
  assumes "plugins_inv A g" "keeps_closed f"
  shows "plugins_inv A (snd (provider_call a f g))"
proof -
  note d = plugins_invD [OF assms(1)]
  define g' where "g' = snd (provider_call a f g)"
  have l: "pg_loaded g' = pg_loaded g" "pg_registry g' = pg_registry g" "hp_next (pg_heap g') = hp_next (pg_heap g)"
    "hp_procs (pg_heap g') b = (if a = b then map_option (\<lambda>p. snd (f p)) (hp_procs (pg_heap g) b) else hp_procs (pg_heap g) b)" for b
    by (auto simp: g'_def provider_call_def split: option.splits)
  have lv: "live g' b \<Longrightarrow> live g b" for b using assms(2) by (auto simp: live_def l keeps_closed_def split: if_splits)
  show ?thesis unfolding g'_def [symmetric]
  proof (rule plugins_invI)
    fix k b assume "Runtime k (pg_registry g') = Some (External b)"
    with d(5) [of k b] assms(2) show "\<exists>p. hp_procs (pg_heap g') b = Some p \<and> ep_Kind p = k" by (auto simp: l keeps_closed_def)
  qed (use d lv in \<open>auto simp: l\<close>)
qed

lemma keeps_closed_call: "keeps_closed (ep_call parse uuid method params)"
proof -
  have "ep_Kind (snd (ep_call parse uuid method params p)) = ep_Kind p \<and>
      (ep_closed p \<longrightarrow> ep_closed (snd (ep_call parse uuid method params p)))" for p
    by (auto simp: ep_call_def ep_Kind_def closeLocked_def Let_def split: option.splits sum.splits)
  then show ?thesis by (simp add: keeps_closed_def)
qed

section \<open>The states the daemon can reach\<close>

text \<open>
  The daemon starts with some built-in providers registered.  Each step is one whole operation of the
  repository, or a call through the registry.
\<close>

inductive plugin_step :: "db \<times> plugins \<Rightarrow> db \<times> plugins \<Rightarrow> bool" where
  install: "plugin_step (d, g) (snd (extension_Install w uuid src d), g)"
| enable: "plugin_step s (snd (extension_Enable w i s))"
| disable: "plugin_step s (snd (extension_Disable i s))"
| remove: "plugin_step s (snd (extension_Remove i s))"
| load: "plugin_step s (LoadEnabled w s)"
| close_all: "set order = {i. pg_loaded g i \<noteq> None} \<Longrightarrow> plugin_step (d, g) (d, CloseAll order g)"
| call: "plugin_step (d, g) (d, snd (provider_call a (ep_call parse uuid method params) g))"

inductive plugin_reach :: "db \<times> plugins \<Rightarrow> bool" where
  start: "(\<And>k a. Runtime k r \<noteq> Some (External a)) \<Longrightarrow> plugin_reach (d, idle_plugins r)"
| step: "plugin_reach s \<Longrightarrow> plugin_step s s' \<Longrightarrow> plugin_reach s'"

lemma inv_start: "(\<And>k a. Runtime k r \<noteq> Some (External a)) \<Longrightarrow> plugins_inv {} (idle_plugins r)"
  by (intro plugins_invI) (auto simp: idle_plugins_def empty_heap_def live_def)

lemma inv_Enable: "plugins_inv A (snd s) \<Longrightarrow> plugins_inv A (snd (snd (extension_Enable w i s)))"
proof -
  assume a: "plugins_inv A (snd s)"
  have "snd (snd (extension_Enable w i s)) = snd s \<or> (\<exists>x. snd (snd (extension_Enable w i s)) = snd (loadAndRegister w x (snd s)))"
    by (auto simp: extension_Enable_def case_prod_unfold split: sum.splits option.splits)
  with a inv_loadAndRegister [OF a] show ?thesis by metis
qed

lemma Disable_plugins:
  "snd (snd (extension_Disable i s)) = snd s \<or> snd (snd (extension_Disable i s)) = unload i (snd s)"
  by (auto simp: extension_Disable_def case_prod_unfold split: sum.splits option.splits)

lemma inv_Disable: "plugins_inv A (snd s) \<Longrightarrow> plugins_inv A (snd (snd (extension_Disable i s)))"
  using Disable_plugins inv_unload(1) by metis

lemma inv_Remove: "plugins_inv A (snd s) \<Longrightarrow> plugins_inv A (snd (snd (extension_Remove i s)))"
proof -
  assume a: "plugins_inv A (snd s)"
  have "snd (snd (extension_Remove i s)) = snd s \<or> (\<exists>d. snd (snd (extension_Remove i s)) = snd (snd (extension_Disable i (d, snd s))))"
    by (auto simp: extension_Remove_def case_prod_unfold split: sum.splits option.splits if_splits)
  with a inv_Disable [of A "(_, snd s)"] show ?thesis by (metis snd_conv)
qed

lemma plugin_step_inv: "plugin_step s s' \<Longrightarrow> plugins_inv {} (snd s) \<Longrightarrow> plugins_inv {} (snd s')"
proof (induction rule: plugin_step.induct)
  case (load s w)
  have "snd (LoadEnabled w s) = snd s \<or> (\<exists>xs. snd (LoadEnabled w s) = load_all w xs (snd s))"
    by (auto simp: LoadEnabled_def case_prod_unfold split: sum.splits)
  with load inv_load_all show ?case by metis
qed (auto intro: inv_Enable inv_Disable inv_Remove inv_CloseAll inv_call keeps_closed_call)

lemma plugin_reach_inv: "plugin_reach s \<Longrightarrow> plugins_inv {} (snd s)"
  by (induction rule: plugin_reach.induct) (auto intro: inv_start plugin_step_inv)

text \<open>C24: No subprocess is left behind.  In every state the daemon reaches by whole operations, whichever of
  them fail, each running extension process belongs to exactly one extension the repository has
  loaded, a registered extension is registered under the name of its handshake, and shutting down
  leaves no extension process running.\<close>

theorem extension_processes_are_tracked:
  assumes "plugin_reach (d, g)" "set order = {i. pg_loaded g i \<noteq> None}"
  shows "(\<forall>a. live g a \<longrightarrow> (\<exists>!i. pg_loaded g i = Some a)) \<and>
    (\<forall>k a. Runtime k (pg_registry g) = Some (External a) \<longrightarrow> provider_kind (pg_heap g) (External a) = k) \<and>
    (\<forall>a. \<not> live (CloseAll order g) a)"
proof -
  have inv: "plugins_inv {} g" using plugin_reach_inv [OF assms(1)] by simp
  note d = plugins_invD [OF inv]
  have "\<exists>!i. pg_loaded g i = Some a" if "live g a" for a using d(3,4) that by blast
  moreover have "provider_kind (pg_heap g) (External a) = k" if "Runtime k (pg_registry g) = Some (External a)" for k a
    using d(5) [OF that] by (auto simp: provider_kind_def)
  moreover have "\<not> live (CloseAll order g) a" for a
    using plugins_invD(4) [OF inv_CloseAll(1) [OF inv assms(2)], of a] inv_CloseAll(2) [OF inv assms(2)] by auto
  ultimately show ?thesis by blast
qed

section \<open>The rows implement a catalogue\<close>

text \<open>
  The contract of the repository: a map from ids to extensions that installing extends, enabling and
  disabling mark, and removing shrinks, whatever happens to the subprocesses.
\<close>

type_synonym catalogue = "string \<Rightarrow> extension option"

definition spec_install :: "extension \<Rightarrow> catalogue \<Rightarrow> catalogue" where
  "spec_install x c = c(ext_ID x \<mapsto> x)"

definition spec_mark :: "bool \<Rightarrow> string \<Rightarrow> catalogue \<Rightarrow> catalogue" where
  "spec_mark b i c = c(i := map_option (\<lambda>x. x\<lparr> ext_Enabled := b \<rparr>) (c i))"

definition spec_remove :: "string \<Rightarrow> catalogue \<Rightarrow> catalogue" where
  "spec_remove i c = c(i := None)"

definition catalogue_of :: "db \<Rightarrow> catalogue" where
  "catalogue_of d i = (case fst (extension_Get i d) of Inr x \<Rightarrow> x | Inl _ \<Rightarrow> None)"

text \<open>Every row of the table is one the repository wrote, and ids are unique.\<close>

definition extension_row :: "row \<Rightarrow> bool" where
  "extension_row r \<longleftrightarrow> row_not_null ''extensions'' r \<and> (\<exists>i. r ''id'' = Text i) \<and> (\<exists>x. scanExtension r = Inr x)"

definition extension_rows :: "db \<Rightarrow> bool" where
  "extension_rows d \<longleftrightarrow> faults d = [] \<and> no_conflicts ''extensions'' (tables d ''extensions'') \<and>
     (\<forall>r \<in> set (tables d ''extensions''). extension_row r)"

definition scanned :: "row \<Rightarrow> extension" where
  "scanned r = projr (scanExtension r)"

lemma scanned: "extension_row r \<Longrightarrow> scanExtension r = Inr (scanned r)"
  by (auto simp: extension_row_def scanned_def)

lemma scanned_id: "extension_row r \<Longrightarrow> by_id i r \<longleftrightarrow> ext_ID (scanned r) = i"
  by (auto simp: extension_row_def scanned_def scanExtension_def by_id_def text_col_def split: option.splits)

lemma extension_Get_eq:
  assumes "extension_rows d"
  shows "extension_Get i d = (Inr (map_option scanned (find (by_id i) (tables d ''extensions''))), d)"
proof -
  have f: "faults d = []" "\<forall>r \<in> set (tables d ''extensions''). extension_row r" using assms by (auto simp: extension_rows_def)
  show ?thesis
  proof (cases "find (by_id i) (tables d ''extensions'')")
    case None
    then have "filter (by_id i) (tables d ''extensions'') = []" by (simp add: find_None_iff filter_empty_conv)
    then show ?thesis using None f by (simp add: extension_Get_def sql_query_row_nofault)
  next
    case (Some r)
    have "\<exists>rs. filter (by_id i) xs = r # rs" if "find (by_id i) xs = Some r" for xs
      using that by (induction xs) (auto split: if_splits)
    then obtain rs where rs: "filter (by_id i) (tables d ''extensions'') = r # rs" using Some by blast
    have "r \<in> set (tables d ''extensions'')" using Some by (auto simp: find_Some_iff)
    then show ?thesis using Some rs f scanned by (simp add: extension_Get_def sql_query_row_nofault)
  qed
qed

lemma catalogue_eq: "extension_rows d \<Longrightarrow> catalogue_of d i = map_option scanned (find (by_id i) (tables d ''extensions''))"
  by (simp add: catalogue_of_def extension_Get_eq)

definition marked :: "bool \<Rightarrow> row \<Rightarrow> row" where
  "marked b = set_cols [(''enabled'', boolToInt b)]"

lemma marked_row:
  assumes "extension_row r"
  shows "extension_row (marked b r)" "scanned (marked b r) = (scanned r)\<lparr> ext_Enabled := b \<rparr>" "marked b r ''id'' = r ''id''"
proof -
  have c: "marked b r c = (if c = ''enabled'' then boolToInt b else r c)" for c
    by (simp add: marked_def set_cols_def)
  show "marked b r ''id'' = r ''id''" by (simp add: c)
  have sc: "scanExtension (marked b r) = Inr ((scanned r)\<lparr> ext_Enabled := b \<rparr>)"
  proof -
    obtain ps where ps: "dec_slice dec_string [] [] (json_col ''permissions'' r) = Some ps"
      using scanned [OF assms] by (auto simp: scanExtension_def split: option.splits)
    have "json_col ''permissions'' (marked b r) = json_col ''permissions'' r" by (simp add: json_col_def c)
    then show ?thesis using ps by (simp add: scanExtension_def scanned_def text_col_def bool_col_def num_col_def c boolToInt_def)
  qed
  then show "scanned (marked b r) = (scanned r)\<lparr> ext_Enabled := b \<rparr>" by (simp add: scanned_def)
  show "extension_row (marked b r)"
    using assms sc by (auto simp: extension_row_def row_not_null_def c boolToInt_def)
qed

lemma set_enabled_eq:
  fixes i :: string and b :: bool and d :: db
  assumes "extension_rows d"
  defines "d' \<equiv> with_table ''extensions'' (map (\<lambda>r. if by_id i r then marked b r else r) (tables d ''extensions'')) d"
  shows "\<exists>n. set_enabled b i d = (Inr n, d')" "extension_rows d'" "catalogue_of d' = spec_mark b i (catalogue_of d)"
proof -
  let ?rs = "tables d ''extensions''"
  let ?f = "\<lambda>r. if by_id i r then marked b r else r"
  have f: "faults d = []" and rows: "\<And>r. r \<in> set ?rs \<Longrightarrow> extension_row r" using assms(1) by (auto simp: extension_rows_def)
  have nc: "no_conflicts ''extensions'' (map ?f ?rs)"
    using assms(1) by (subst no_conflicts_same_unique) (auto simp: extension_rows_def unique_cols_def marked_def set_cols_def)
  have "row_references d ''extensions'' r" for r by (simp add: row_references_def foreign_keys_def)
  moreover have "row_not_null ''extensions'' (marked b r)" if "r \<in> set ?rs" for r
    using marked_row(1) [OF rows [OF that]] by (simp add: extension_row_def)
  ultimately show "\<exists>n. set_enabled b i d = (Inr n, d')"
    unfolding set_enabled_def sql_update_nofault [OF f] raw_update_def Let_def marked_def [symmetric] d'_def
    using nc by auto
  show rows': "extension_rows d'"
    using nc f rows marked_row(1) by (auto simp: extension_rows_def d'_def)
  have "find (by_id j) (map ?f rs) = map_option ?f (find (by_id j) rs)" if "\<And>r. r \<in> set rs \<Longrightarrow> extension_row r" for j rs
    using that
  proof (induction rs)
    case (Cons r rs)
    have "by_id j (marked b r) \<longleftrightarrow> by_id j r" using marked_row(3) Cons.prems by (simp add: by_id_def)
    with Cons show ?case by simp
  qed simp
  then have "catalogue_of d' j = map_option scanned (map_option ?f (find (by_id j) ?rs))" for j
    using catalogue_eq [OF rows'] rows by (simp add: d'_def)
  moreover have "map_option scanned (map_option ?f (find (by_id j) ?rs)) = spec_mark b i (catalogue_of d) j" for j
  proof (cases "find (by_id j) ?rs")
    case (Some r)
    then have "r \<in> set ?rs" "by_id j r" by (auto simp: find_Some_iff)
    with rows have "extension_row r" "by_id i r \<longleftrightarrow> i = j" by (auto simp: by_id_def)
    then show ?thesis using Some marked_row(2) by (auto simp: spec_mark_def catalogue_eq [OF assms(1)])
  qed (auto simp: spec_mark_def catalogue_eq [OF assms(1)])
  ultimately show "catalogue_of d' = spec_mark b i (catalogue_of d)" by (simp add: fun_eq_iff)
qed

lemma remove_row_eq:
  fixes i :: string and d :: db
  assumes "extension_rows d"
  defines "d' \<equiv> with_table ''extensions'' (filter (\<lambda>r. \<not> by_id i r) (tables d ''extensions'')) d"
  shows "\<exists>n. sql_delete ''extensions'' (by_id i) d = (Inr n, d')" "extension_rows d'" "catalogue_of d' = spec_remove i (catalogue_of d)"
proof -
  have "\<not> referenced_by d ''extensions'' v" for v by (simp add: referenced_by_def schema_tables_def foreign_keys_def)
  then show "\<exists>n. sql_delete ''extensions'' (by_id i) d = (Inr n, d')"
    using assms(1) by (simp add: sql_delete_nofault raw_delete_def Let_def d'_def extension_rows_def)
  show rows': "extension_rows d'"
    using assms(1) by (auto simp: extension_rows_def d'_def intro: no_conflicts_filter)
  have one: "by_id i r \<Longrightarrow> by_id j r \<Longrightarrow> j = i" for j r by (simp add: by_id_def)
  have "find (by_id j) (filter (\<lambda>r. \<not> by_id i r) rs) = (if j = i then None else find (by_id j) rs)" for j rs
    by (induction rs) (auto dest: one)
  then show "catalogue_of d' = spec_remove i (catalogue_of d)"
    by (auto simp: fun_eq_iff catalogue_eq [OF rows'] spec_remove_def catalogue_eq [OF assms(1)]) (simp_all add: d'_def)
qed

lemma dec_strings_inverse: "dec_slice dec_string [] cur (json_strings ps) = Some ps"
proof -
  have "dec_elems dec_string [] (map JStr ps) = Some ps" by (induction ps) (simp_all add: dec_string_def)
  then show ?thesis by (simp add: dec_slice_def json_strings_def)
qed

lemma install_row_eq:
  fixes x :: extension and d :: db
  assumes "extension_rows d" "catalogue_of d (ext_ID x) = None" "\<not> ext_Enabled x"
  defines "d' \<equiv> with_table ''extensions'' (tables d ''extensions'' @ [make_row ''extensions'' (extension_cols x)]) d"
  shows "sql_insert ''extensions'' (extension_cols x) d = (Inr (), d')" "extension_rows d'"
    "catalogue_of d' = spec_install x (catalogue_of d)"
proof -
  let ?r = "make_row ''extensions'' (extension_cols x)"
  have f: "faults d = []" using assms(1) by (simp add: extension_rows_def)
  have fresh: "\<not> (\<exists>r \<in> set (tables d ''extensions''). by_id (ext_ID x) r)"
    using assms(2) by (simp add: catalogue_eq [OF assms(1)] find_None_iff)
  have id: "?r ''id'' = Text (ext_ID x)" by (simp add: make_row_def extension_cols_def)
  have nn: "row_not_null ''extensions'' ?r"
    by (simp add: row_not_null_def not_null_cols_def required_cols_def column_defaults_def make_row_def extension_cols_def)
  have sc: "scanExtension ?r = Inr x"
    using assms(3) by (simp add: scanExtension_def column_readers make_row_def extension_cols_def dec_strings_inverse)
  have u: "unique_cols ''extensions'' = [''id'']" by (simp add: unique_cols_def)
  show "sql_insert ''extensions'' (extension_cols x) d = (Inr (), d')"
    unfolding d'_def by (rule insert_fresh [OF f u refl id fresh nn]) (simp add: row_references_def foreign_keys_def)
  have row: "extension_row ?r" using nn id sc by (simp add: extension_row_def)
  then show rows': "extension_rows d'"
    using assms(1) fresh id by (auto simp: extension_rows_def d'_def no_conflicts_append rows_conflict_def u by_id_def)
  have "find P (rs @ [r]) = (case find P rs of None \<Rightarrow> if P r then Some r else None | Some y \<Rightarrow> Some y)" for P :: "row \<Rightarrow> bool" and rs r
    by (induction rs) auto
  moreover have "scanned ?r = x" using sc by (simp add: scanned_def)
  moreover have "by_id j ?r \<longleftrightarrow> j = ext_ID x" for j using id by (auto simp: by_id_def)
  moreover have "find (by_id (ext_ID x)) (tables d ''extensions'') = None" using fresh by (simp add: find_None_iff)
  ultimately show "catalogue_of d' = spec_install x (catalogue_of d)"
    by (auto simp: fun_eq_iff catalogue_eq [OF rows'] spec_install_def catalogue_eq [OF assms(1)] split: option.splits)
      (auto simp: d'_def split: option.splits)
qed

lemma get_eq: "extension_rows d \<Longrightarrow> extension_Get i d = (Inr (catalogue_of d i), d)"
  by (simp add: extension_Get_eq catalogue_eq)

lemma catalogue_unknown:
  "c i = None \<Longrightarrow> spec_mark b i c = c" "c i = None \<Longrightarrow> spec_remove i c = c"
  by (auto simp: spec_mark_def spec_remove_def)

lemma Install_refines:
  assumes "extension_rows d" "catalogue_of d uuid = None" "extension_Install w uuid src d = (r, d')"
  shows "extension_rows d' \<and> catalogue_of d' = (case r of Inl _ \<Rightarrow> catalogue_of d | Inr x \<Rightarrow> spec_install x (catalogue_of d))"
  using install_row_eq [OF assms(1)] assms by (auto simp: extension_Install_def Let_def split: sum.splits prod.splits)

lemma Enable_refines:
  assumes "extension_rows d" "extension_Enable w i (d, g) = (r, (d', g'))"
  shows "extension_rows d' \<and> catalogue_of d' = (if isl r then catalogue_of d else spec_mark True i (catalogue_of d)) \<and>
    (catalogue_of d i = None \<longrightarrow> r = Inl ExtensionNotFound \<and> g' = g)"
  using set_enabled_eq [OF assms(1), where b = True and i = i] assms
  by (auto simp: extension_Enable_def get_eq [OF assms(1)] split: option.splits sum.splits prod.splits)

lemma Disable_refines:
  assumes "extension_rows d" "extension_Disable i (d, g) = (r, (d', g'))"
  shows "extension_rows d' \<and> catalogue_of d' = spec_mark False i (catalogue_of d) \<and>
    (if catalogue_of d i = None then r = Inl ExtensionNotFound else \<not> isl r \<and> pg_loaded g' i = None)"
proof (cases "catalogue_of d i")
  case None
  then show ?thesis using assms catalogue_unknown(1) by (auto simp: extension_Disable_def get_eq [OF assms(1)])
next
  case (Some x)
  have "pg_loaded (unload i g) i = None" by (simp add: unload_def Let_def split: option.splits)
  then show ?thesis
    using set_enabled_eq [OF assms(1), where b = False and i = i] assms(2) Some
    by (auto simp: extension_Disable_def get_eq [OF assms(1)])
qed

lemma Remove_refines:
  assumes "extension_rows d" "extension_Remove i (d, g) = (r, (d', g'))"
  shows "extension_rows d' \<and> catalogue_of d' = spec_remove i (catalogue_of d) \<and>
    r = (if catalogue_of d i = None then Inl ExtensionNotFound else Inr ())"
proof (cases "catalogue_of d i")
  case None
  then show ?thesis using assms catalogue_unknown(2) by (auto simp: extension_Remove_def get_eq [OF assms(1)])
next
  case (Some x)
  obtain r1 d1 g1 where dis: "(if ext_Enabled x then extension_Disable i (d, g) else (Inr x, (d, g))) = (r1, (d1, g1))"
    by (metis surj_pair)
  have "extension_rows d1 \<and> spec_remove i (catalogue_of d1) = spec_remove i (catalogue_of d) \<and> \<not> isl r1"
  proof (cases "ext_Enabled x")
    case True
    then have "extension_Disable i (d, g) = (r1, (d1, g1))" using dis by simp
    from Disable_refines [OF assms(1) this] Some show ?thesis by (auto simp: spec_mark_def spec_remove_def)
  qed (use dis assms(1) in auto)
  then obtain y where d1: "extension_rows d1" "spec_remove i (catalogue_of d1) = spec_remove i (catalogue_of d)" "r1 = Inr y"
    by (auto simp: isl_def) (metis sum.exhaust)
  then show ?thesis
    using remove_row_eq [OF d1(1), where i = i] assms(2) Some dis by (auto simp: extension_Remove_def get_eq [OF assms(1)])
qed

text \<open>What the operations answer, and what they make of the loaded extensions.\<close>

definition extension_of :: "string \<Rightarrow> manifest \<times> string \<Rightarrow> extension" where
  "extension_of uuid md = \<lparr> ext_ID = uuid, ext_Name = mf_Name (fst md), ext_Version = mf_Version (fst md), ext_Kind = mf_Kind (fst md),
     ext_Source = snd md, ext_Enabled = False, ext_Permissions = mf_Permissions (fst md) \<rparr>"

lemma Install_answers:
  assumes "extension_rows d" "catalogue_of d uuid = None" "extension_Install w uuid src d = (r, d')"
  shows "r = (case ReadManifest w src of Inl e \<Rightarrow> Inl (LoadFailed e) | Inr md \<Rightarrow> Inr (extension_of uuid md))"
  using install_row_eq(1) [OF assms(1), of "extension_of uuid _"] assms
  by (auto simp: extension_Install_def Let_def extension_of_def split: sum.splits prod.splits)

lemma catalogue_id: "extension_rows d \<Longrightarrow> catalogue_of d i = Some x \<Longrightarrow> ext_ID x = i"
  using scanned_id by (auto simp: catalogue_eq extension_rows_def find_Some_iff)

lemma Enable_answers:
  assumes "extension_rows d" "catalogue_of d i = Some x" "extension_Enable w i (d, g) = (r, (d', g'))"
  shows "(r, g') = (case loadAndRegister w x g of (Inl e, g1) \<Rightarrow> (Inl e, g1) | (Inr a, g1) \<Rightarrow> (Inr (x\<lparr> ext_Enabled := True \<rparr>), g1))"
  using set_enabled_eq(1) [OF assms(1), where b = True and i = i] assms
  by (auto simp: extension_Enable_def get_eq [OF assms(1)] split: sum.splits prod.splits)

lemma loaded_when_enabled:
  "loadAndRegister w x g = (Inr a, g1) \<Longrightarrow> pg_loaded g1 (ext_ID x) = Some a"
  by (auto simp: loadAndRegister_def enter_loaded_def split: if_splits sum.splits prod.splits)

text \<open>C26: Whatever happens to the subprocesses, the repository implements its catalogue, in which each id has an
  extension that is enabled or not.  Installing fails exactly when the manifest cannot be read, and adds the extension
  the manifest describes, not enabled.  Enabling a known extension that loads marks it, and it is the loaded one; when
  it does not load, enabling fails with the same error and leaves the catalogue alone.  Disabling marks it and unloads
  it; removing deletes it; and each of the last three fails for an unknown id and changes nothing.\<close>

theorem extensions_implement_catalogue:
  assumes "extension_rows d"
  shows "(catalogue_of d uuid = None \<longrightarrow> (case extension_Install w uuid src d of (r, d') \<Rightarrow> extension_rows d' \<and>
      (case ReadManifest w src of
         Inl e \<Rightarrow> r = Inl (LoadFailed e) \<and> catalogue_of d' = catalogue_of d
       | Inr md \<Rightarrow> r = Inr (extension_of uuid md) \<and> catalogue_of d' = spec_install (extension_of uuid md) (catalogue_of d)))) \<and>
    (case extension_Enable w i (d, g) of (r, (d', g')) \<Rightarrow> extension_rows d' \<and>
      (case catalogue_of d i of
         None \<Rightarrow> r = Inl ExtensionNotFound \<and> catalogue_of d' = catalogue_of d \<and> g' = g
       | Some x \<Rightarrow>
          (case loadAndRegister w x g of
             (Inl e, g1) \<Rightarrow> r = Inl e \<and> catalogue_of d' = catalogue_of d \<and> g' = g1
           | (Inr a, g1) \<Rightarrow> r = Inr (x\<lparr> ext_Enabled := True \<rparr>) \<and> catalogue_of d' = spec_mark True i (catalogue_of d) \<and> g' = g1 \<and>
               pg_loaded g' i = Some a))) \<and>
    (case extension_Disable i (d, g) of (r, (d', g')) \<Rightarrow> extension_rows d' \<and>
      catalogue_of d' = spec_mark False i (catalogue_of d) \<and>
      (if catalogue_of d i = None then r = Inl ExtensionNotFound else \<not> isl r \<and> pg_loaded g' i = None)) \<and>
    (case extension_Remove i (d, g) of (r, (d', g')) \<Rightarrow> extension_rows d' \<and>
      catalogue_of d' = spec_remove i (catalogue_of d) \<and>
      r = (if catalogue_of d i = None then Inl ExtensionNotFound else Inr ()))"
proof -
  obtain r1 d1 where i: "extension_Install w uuid src d = (r1, d1)" by (metis surj_pair)
  obtain r2 d2 g2 where e: "extension_Enable w i (d, g) = (r2, (d2, g2))" by (metis surj_pair)
  obtain r3 d3 g3 where u: "extension_Disable i (d, g) = (r3, (d3, g3))" by (metis surj_pair)
  obtain r4 d4 g4 where m: "extension_Remove i (d, g) = (r4, (d4, g4))" by (metis surj_pair)
  have I: "extension_rows d1 \<and> (case ReadManifest w src of
         Inl e \<Rightarrow> r1 = Inl (LoadFailed e) \<and> catalogue_of d1 = catalogue_of d
       | Inr md \<Rightarrow> r1 = Inr (extension_of uuid md) \<and> catalogue_of d1 = spec_install (extension_of uuid md) (catalogue_of d))"
    if "catalogue_of d uuid = None"
    using Install_refines [OF assms that i] Install_answers [OF assms that i] by (simp split: sum.splits)
  have E: "extension_rows d2 \<and> (case catalogue_of d i of
         None \<Rightarrow> r2 = Inl ExtensionNotFound \<and> catalogue_of d2 = catalogue_of d \<and> g2 = g
       | Some x \<Rightarrow>
          (case loadAndRegister w x g of
             (Inl e, g1) \<Rightarrow> r2 = Inl e \<and> catalogue_of d2 = catalogue_of d \<and> g2 = g1
           | (Inr a, g1) \<Rightarrow> r2 = Inr (x\<lparr> ext_Enabled := True \<rparr>) \<and> catalogue_of d2 = spec_mark True i (catalogue_of d) \<and> g2 = g1 \<and>
               pg_loaded g2 i = Some a))"
  proof (cases "catalogue_of d i")
    case None
    then show ?thesis using Enable_refines [OF assms e] by simp
  next
    case (Some x)
    note a = Enable_answers [OF assms Some e] and l = loaded_when_enabled [of w x g, unfolded catalogue_id [OF assms Some]]
    show ?thesis using Some a l Enable_refines [OF assms e]
      by (cases "loadAndRegister w x g"; cases "fst (loadAndRegister w x g)") auto
  qed
  show ?thesis unfolding i e u m prod.case using I E Disable_refines [OF assms u] Remove_refines [OF assms m] by blast
qed

section \<open>Names that collide, and loads that fail\<close>

text \<open>Enabling an extension takes over the name its handshake gives, from whichever provider has it, and
  disabling it again leaves that name without a provider: an extension that calls itself \<open>node\<close>
  takes the built-in provider out of the registry until the daemon is restarted.\<close>

theorem disabling_drops_the_displaced_provider:
  assumes "loadAndRegister w x g = (Inr a, g1)" "pg_heap g1 = pg_heap g2" "pg_loaded g2 (ext_ID x) = Some a"
  defines "k \<equiv> provider_kind (pg_heap g1) (External a)"
  shows "Runtime k (pg_registry g1) = Some (External a) \<and> Runtime k (pg_registry (unload (ext_ID x) g2)) = None \<and>
    (\<forall>j. j \<noteq> k \<longrightarrow> Runtime j (pg_registry g1) = Runtime j (pg_registry g) \<and>
       Runtime j (pg_registry (unload (ext_ID x) g2)) = Runtime j (pg_registry g2))"
proof -
  from assms(1) obtain g0 where l: "launch w x (drop_loaded (ext_ID x) g) = (Inr a, g0)" and g1: "g1 = enter_loaded (ext_ID x) a g0"
    by (auto simp: loadAndRegister_def split: if_splits sum.splits prod.splits)
  have "pg_registry g0 = pg_registry g"
    using l by (auto simp: launch_def drop_loaded_def split: prod.splits option.splits)
  moreover have "k = provider_kind (pg_heap g0) (External a)" by (simp add: k_def g1 enter_loaded_def)
  ultimately have "Runtime j (pg_registry g1) = (if j = k then Some (External a) else Runtime j (pg_registry g))" for j
    by (simp add: g1 enter_loaded_def registry.lookup_register)
  moreover have "Runtime j (pg_registry (unload (ext_ID x) g2)) = (if j = k then None else Runtime j (pg_registry g2))" for j
    using assms(2,3) by (simp add: unload_def Let_def registry.lookup_unregister k_def)
  ultimately show ?thesis by simp
qed

text \<open>Enabling an extension that is loaded already and now fails to load leaves it worse off: the call
  fails and the row still says enabled, but its process has been closed and the closed provider is
  still the registered one, so every use of it fails.\<close>

theorem failed_reenable_leaves_a_closed_provider:
  assumes "plugins_inv {} g" "extension_Get (ext_ID x) d = (Inr (Some x), d)" "ext_Kind x = ''runtime''"
    and "pg_loaded g (ext_ID x) = Some a" "Runtime k (pg_registry g) = Some (External a)"
    and "launch w x (drop_loaded (ext_ID x) g) = (Inl e, g1)"
  shows "extension_Enable w (ext_ID x) (d, g) = (Inl (LoadFailed e), (d, g1)) \<and> pg_loaded g1 (ext_ID x) = None \<and>
    Runtime k (pg_registry g1) = Some (External a) \<and> \<not> live g1 a"
proof -
  note drop = inv_drop_loaded [OF assms(1), of "ext_ID x"]
  note l = inv_launch [OF drop(1) assms(6)]
  have "pg_registry (drop_loaded (ext_ID x) g) = pg_registry g" by (simp add: drop_loaded_def assms(4))
  then have reg: "Runtime k (pg_registry g1) = Some (External a)" using l(3) assms(5) by simp
  have un: "pg_loaded g1 = (pg_loaded g)(ext_ID x := None)" using l(2) drop(2) by simp
  have "\<not> live g1 a"
  proof
    assume "live g1 a"
    with plugins_invD(4) [of "{}" g1 a] l(1) obtain j where "pg_loaded g1 j = Some a" by auto
    then have "j \<noteq> ext_ID x" "pg_loaded g j = Some a" by (simp_all add: un split: if_splits)
    with plugins_invD(3) [OF assms(1), of j a "ext_ID x"] assms(4) show False by simp
  qed
  with reg un assms(2,3,6) show ?thesis by (simp add: extension_Enable_def loadAndRegister_def)
qed

text \<open>Two overlapping calls that enable the same extension launch it twice, and the process launched
  first is lost: it runs on, no map holds it, and neither disabling the extension nor shutting the
  daemon down closes it.\<close>

theorem overlapping_enables_lose_a_process:
  assumes "plugins_inv {} g" "launch w x (drop_loaded (ext_ID x) (drop_loaded (ext_ID x) g)) = (Inr a, g1)"
    and "launch w' x g1 = (Inr b, g2)"
  defines "g3 \<equiv> enter_loaded (ext_ID x) b (enter_loaded (ext_ID x) a g2)"
  shows "live g3 a \<and> (\<forall>i. pg_loaded g3 i \<noteq> Some a) \<and> live (unload (ext_ID x) g3) a \<and>
    (\<forall>order. set order = {i. pg_loaded g3 i \<noteq> None} \<longrightarrow> live (CloseAll order g3) a)"
proof -
  let ?g0 = "drop_loaded (ext_ID x) (drop_loaded (ext_ID x) g)"
  have i0: "plugins_inv {} ?g0" using inv_drop_loaded(1) assms(1) by blast
  note l1 = inv_launch [OF i0 assms(2)]
  have i1: "plugins_inv {a} g1" using l1(1) by simp
  note l2 = inv_launch [OF i1 assms(3)]
  have a1: "live g1 a" "\<forall>i. pg_loaded g1 i \<noteq> Some a" using l1(4) l1(2) by auto
  obtain h where h: "LoadExtension w' (ext_Source x) (pg_heap g1) = (Inr b, h)" "g2 = g1\<lparr> pg_heap := h \<rparr>"
    using assms(3) by (auto simp: launch_def split: prod.splits)
  have ab: "a \<noteq> b" "b \<noteq> a" using l2(4) by auto
  have "live g2 a"
    using a1(1) LoadExtension_cases [OF h(1)] ab by (auto simp: live_def h(2) alloc_def)
  moreover have "live g3 = live g2" by (simp add: g3_def enter_loaded_def live_def fun_eq_iff)
  ultimately have live: "live g3 a" by simp
  have no: "\<forall>i. pg_loaded g3 i \<noteq> Some a" using a1(2) l2(2) ab by (simp add: g3_def enter_loaded_def)
  have keep: "live g' a \<Longrightarrow> a \<notin> set as \<Longrightarrow> live (close_each as g') a" for as g'
    by (induction as arbitrary: g') (auto simp: live_def)
  have "live (unload (ext_ID x) g3) a"
    using live no by (auto simp: unload_def Let_def live_def split: option.splits)
  moreover have "live (CloseAll order g3) a" if "set order = {i. pg_loaded g3 i \<noteq> None}" for order
  proof -
    have "a \<notin> set (map (\<lambda>i. the (pg_loaded g3 i)) order)" using no that by auto
    moreover have "live (g3\<lparr> pg_loaded := (\<lambda>_. None) \<rparr>) a" using live by (simp add: live_def)
    ultimately show ?thesis unfolding CloseAll_def using keep by blast
  qed
  ultimately show ?thesis using live no by blast
qed

section \<open>The properties at concrete inputs\<close>

text \<open>An extension that calls itself \<open>node\<close>, and a daemon whose built-in provider has that name.\<close>

definition demo_world :: world where
  "demo_world = \<lparr> w_stat = (\<lambda>_. Inr True), w_read = (\<lambda>_. Inr ''m''), w_parse = demo_parse, w_spawn = (\<lambda>_ _. Inr demo_sub) \<rparr>"

definition demo_extension :: extension where
  "demo_extension = \<lparr> ext_ID = ''x1'', ext_Name = ''x'', ext_Version = ''1'', ext_Kind = ''runtime'', ext_Source = ''/x'',
     ext_Enabled = False, ext_Permissions = [] \<rparr>"

definition demo_plugins :: plugins where
  "demo_plugins = idle_plugins (RegisterRuntime ''node'' (Builtin ''node'') NewRegistry)"

definition demo_rows :: db where
  "demo_rows = \<lparr> tables = (\<lambda>_. [])(''extensions'' := [make_row ''extensions'' (extension_cols demo_extension)]), faults = [] \<rparr>"

lemma demo_no_external: "Runtime k (RegisterRuntime ''node'' (Builtin ''node'') NewRegistry) \<noteq> Some (External a)"
proof -
  have "Runtime k NewRegistry = None" by (simp add: Runtime_def NewRegistry_def)
  then show ?thesis by (simp add: registry.lookup_register)
qed

lemma demo_plugins_ok: "plugins_inv {} demo_plugins" "pg_loaded demo_plugins = (\<lambda>_. None)"
  unfolding demo_plugins_def using inv_start demo_no_external by (simp_all add: idle_plugins_def)

lemma demo_loads:
  "LoadExtension demo_world ''/x'' h =
     (Inr (hp_next h), alloc (demo_provider\<lparr> ep_handshake := \<lparr> hs_ProtocolVersion = 1, hs_Kind = ''runtime'', hs_Name = ''node'', hs_Methods = [] \<rparr> \<rparr>) h)"
proof -
  have "ReadManifest demo_world ''/x'' = Inr (ep_manifest demo_provider, ''/x'')" by code_simp
  moreover have "DecodeHandshake demo_parse ''h'' = Some \<lparr> hs_ProtocolVersion = 1, hs_Kind = ''runtime'', hs_Name = ''node'', hs_Methods = [] \<rparr>"
    by code_simp
  ultimately show ?thesis
    by (simp add: LoadExtension_def demo_world_def demo_sub_def demo_provider_def readLineLocked_def Let_def
        IsSupportedVersion_def SupportedVersions_def)
qed

lemma demo_launch: "launch demo_world demo_extension g =
    (Inr (hp_next (pg_heap g)), g\<lparr> pg_heap := snd (LoadExtension demo_world ''/x'' (pg_heap g)) \<rparr>)"
  by (simp add: launch_def demo_extension_def demo_loads)

lemma demo_drop: "drop_loaded ''x1'' demo_plugins = demo_plugins"
  by (simp add: drop_loaded_def demo_plugins_ok)

lemma demo_next: "hp_next (pg_heap demo_plugins) = 0"
  by (simp add: demo_plugins_def idle_plugins_def empty_heap_def)

definition demo_loaded :: plugins where
  "demo_loaded = enter_loaded ''x1'' 0 (snd (launch demo_world demo_extension demo_plugins))"

lemma demo_loadAndRegister: "loadAndRegister demo_world demo_extension demo_plugins = (Inr 0, demo_loaded)"
proof -
  have "ext_ID demo_extension = ''x1''" "ext_Kind demo_extension = ''runtime''" by (simp_all add: demo_extension_def)
  then show ?thesis by (simp add: loadAndRegister_def demo_drop demo_launch demo_next demo_loaded_def)
qed

lemma demo_loaded_simps:
  "pg_loaded demo_loaded = [''x1'' \<mapsto> 0]" "plugins_inv {} demo_loaded"
  "provider_kind (pg_heap demo_loaded) (External 0) = ''node''" "Runtime ''node'' (pg_registry demo_loaded) = Some (External 0)"
proof -
  show "plugins_inv {} demo_loaded"
    using inv_loadAndRegister [OF demo_plugins_ok(1), of demo_world demo_extension] by (simp add: demo_loadAndRegister)
  show "pg_loaded demo_loaded = [''x1'' \<mapsto> 0]" by (simp add: demo_loaded_def enter_loaded_def demo_launch demo_plugins_ok)
  show k: "provider_kind (pg_heap demo_loaded) (External 0) = ''node''"
    by (simp add: demo_loaded_def enter_loaded_def demo_launch demo_loads provider_kind_def alloc_def demo_next ep_Kind_def)
  then show "Runtime ''node'' (pg_registry demo_loaded) = Some (External 0)"
    by (simp add: demo_loaded_def enter_loaded_def registry.lookup_register)
qed

lemma demo_rows_ok: "extension_rows demo_rows" "catalogue_of demo_rows ''x1'' = Some demo_extension"
proof -
  let ?r = "make_row ''extensions'' (extension_cols demo_extension)"
  have "row_not_null ''extensions'' ?r"
    by (simp add: row_not_null_def not_null_cols_def required_cols_def column_defaults_def make_row_def extension_cols_def)
  moreover have i: "?r ''id'' = Text ''x1''" by (simp add: make_row_def extension_cols_def demo_extension_def)
  moreover have s: "scanExtension ?r = Inr demo_extension"
    by (simp add: scanExtension_def column_readers make_row_def extension_cols_def dec_strings_inverse) (simp add: demo_extension_def)
  ultimately have "extension_row ?r" by (simp add: extension_row_def)
  then show "extension_rows demo_rows" by (simp add: extension_rows_def demo_rows_def)
  from catalogue_eq [OF this] show "catalogue_of demo_rows ''x1'' = Some demo_extension"
    using i s by (simp add: demo_rows_def by_id_def scanned_def)
qed

lemma demo_Enable: "\<exists>d. extension_Enable demo_world ''x1'' (demo_rows, demo_plugins) = (Inr (demo_extension\<lparr> ext_Enabled := True \<rparr>), (d, demo_loaded))"
  using set_enabled_eq(1) [OF demo_rows_ok(1), where i = "''x1''" and b = True]
  by (auto simp: extension_Enable_def get_eq [OF demo_rows_ok(1)] demo_rows_ok(2) demo_loadAndRegister)

lemma extension_processes_are_tracked_witness:
  "\<exists>d. plugin_reach (d, demo_loaded) \<and> live demo_loaded 0 \<and> \<not> live (CloseAll [''x1''] demo_loaded) 0"
proof -
  obtain d where d: "extension_Enable demo_world ''x1'' (demo_rows, demo_plugins) = (Inr (demo_extension\<lparr> ext_Enabled := True \<rparr>), (d, demo_loaded))"
    using demo_Enable by blast
  have "plugin_reach (demo_rows, demo_plugins)" unfolding demo_plugins_def by (rule plugin_reach.start) (rule demo_no_external)
  from plugin_reach.step [OF this plugin_step.enable [of _ demo_world "''x1''"]] d have r: "plugin_reach (d, demo_loaded)" by simp
  have "set [''x1''] = {i. pg_loaded demo_loaded i \<noteq> None}" by (auto simp: demo_loaded_simps split: if_splits)
  note t = extension_processes_are_tracked [OF r this]
  have "live demo_loaded 0"
    by (simp add: demo_loaded_def enter_loaded_def demo_launch demo_loads live_def alloc_def demo_next demo_provider_def)
  with r t show ?thesis by blast
qed

lemma extensions_implement_catalogue_witness:
  "\<exists>d' g'. extension_Remove ''x1'' (demo_rows, demo_plugins) = (Inr (), (d', g')) \<and> catalogue_of d' ''x1'' = None"
proof -
  obtain r d' g' where m: "extension_Remove ''x1'' (demo_rows, demo_plugins) = (r, (d', g'))" by (metis surj_pair)
  with extensions_implement_catalogue [OF demo_rows_ok(1), where i = "''x1''" and g = demo_plugins] demo_rows_ok(2)
  have "r = Inr ()" "catalogue_of d' = spec_remove ''x1'' (catalogue_of demo_rows)" by simp_all
  with m show ?thesis by (simp add: spec_remove_def)
qed

lemma disabling_drops_the_displaced_provider_witness:
  "Runtime ''node'' (pg_registry demo_plugins) = Some (Builtin ''node'') \<and>
   Runtime ''node'' (pg_registry demo_loaded) = Some (External 0) \<and>
   Runtime ''node'' (pg_registry (unload ''x1'' demo_loaded)) = None"
proof -
  have i: "ext_ID demo_extension = ''x1''" by (simp add: demo_extension_def)
  have "pg_loaded demo_loaded (ext_ID demo_extension) = Some 0" by (simp add: i demo_loaded_simps)
  from disabling_drops_the_displaced_provider [OF demo_loadAndRegister refl this, unfolded demo_loaded_simps i]
  show ?thesis by (simp add: demo_loaded_simps demo_plugins_def idle_plugins_def registry.lookup_register)
qed

lemma failed_reenable_leaves_a_closed_provider_witness:
  "\<exists>g1. extension_Enable (demo_world\<lparr> w_stat := (\<lambda>_. Inl ''gone'') \<rparr>) ''x1'' (demo_rows, demo_loaded) = (Inl (LoadFailed (StatFailed ''gone'')), (demo_rows, g1)) \<and>
     Runtime ''node'' (pg_registry g1) = Some (External 0) \<and> \<not> live g1 0"
proof -
  let ?w = "demo_world\<lparr> w_stat := (\<lambda>_. Inl ''gone'') \<rparr>"
  have i: "ext_ID demo_extension = ''x1''" "ext_Kind demo_extension = ''runtime''" by (simp_all add: demo_extension_def)
  have g: "extension_Get (ext_ID demo_extension) demo_rows = (Inr (Some demo_extension), demo_rows)"
    by (simp add: get_eq [OF demo_rows_ok(1)] i demo_rows_ok(2))
  have a: "pg_loaded demo_loaded (ext_ID demo_extension) = Some 0" by (simp add: i demo_loaded_simps)
  have "launch ?w demo_extension (drop_loaded (ext_ID demo_extension) demo_loaded) =
      (Inl (StatFailed ''gone''), drop_loaded (ext_ID demo_extension) demo_loaded)"
    by (simp add: launch_def LoadExtension_def ReadManifest_def)
  from failed_reenable_leaves_a_closed_provider [OF demo_loaded_simps(2) g i(2) a demo_loaded_simps(4) this]
  show ?thesis by (auto simp: i)
qed

lemma overlapping_enables_lose_a_process_witness:
  "\<exists>g2. live (unload ''x1'' (enter_loaded ''x1'' 1 (enter_loaded ''x1'' 0 g2))) 0"
proof -
  have i: "ext_ID demo_extension = ''x1''" by (simp add: demo_extension_def)
  obtain g1 where 1: "launch demo_world demo_extension (drop_loaded (ext_ID demo_extension) (drop_loaded (ext_ID demo_extension) demo_plugins)) = (Inr 0, g1)"
    and n: "hp_next (pg_heap g1) = 1"
    by (simp add: i demo_drop demo_launch demo_next demo_loads alloc_def)
  obtain g2 where 2: "launch demo_world demo_extension g1 = (Inr 1, g2)" by (simp add: demo_launch n)
  from overlapping_enables_lose_a_process [OF demo_plugins_ok(1) 1 2] show ?thesis by (auto simp: i)
qed

end
