(* ===== verification/Encoding.thy ===== *)
theory Encoding
  imports Prelude
begin

text \<open>
  The byte encodings of the Go standard library the daemon uses: \<open>encoding/base64\<close> with the standard
  and the URL alphabet, big-endian integers of \<open>encoding/binary\<close>, and the escaping of \<open>net/url\<close>.
\<close>

section \<open>Base64\<close>

definition std_alphabet :: string where
  "std_alphabet = ''ABCDEFGHIJKLMNOPQRSTUVWXYZabcdefghijklmnopqrstuvwxyz0123456789+/''"

definition url_alphabet :: string where
  "url_alphabet = ''ABCDEFGHIJKLMNOPQRSTUVWXYZabcdefghijklmnopqrstuvwxyz0123456789-_''"

text \<open>Sextets of a byte string, the last ones padded with zero bits.\<close>

fun sextets :: "nat list \<Rightarrow> nat list" where
  "sextets [] = []"
| "sextets [a] = [a div 4, a mod 4 * 16]"
| "sextets [a, b] = [a div 4, a mod 4 * 16 + b div 16, b mod 16 * 4]"
| "sextets (a # b # c # r) = a div 4 # (a mod 4 * 16 + b div 16) # (b mod 16 * 4 + c div 64) # c mod 64 # sextets r"

text \<open>Bytes of a list of sextets; the spare bits of an incomplete group are ignored, a lone sextet is an error.\<close>

fun octets :: "nat list \<Rightarrow> nat list option" where
  "octets [] = Some []"
| "octets [w] = None"
| "octets [w, x] = Some [w * 4 + x div 16]"
| "octets [w, x, y] = Some [w * 4 + x div 16, x mod 16 * 16 + y div 4]"
| "octets (w # x # y # z # r) =
     map_option (\<lambda>bs. (w * 4 + x div 16) # (x mod 16 * 16 + y div 4) # (y mod 4 * 64 + z) # bs) (octets r)"

fun lookup_all :: "string \<Rightarrow> string \<Rightarrow> nat list option" where
  "lookup_all alphabet [] = Some []"
| "lookup_all alphabet (c # cs) =
     (case (index_byte c alphabet, lookup_all alphabet cs) of (Some v, Some vs) \<Rightarrow> Some (v # vs) | _ \<Rightarrow> None)"

definition raw_encode :: "string \<Rightarrow> bytes \<Rightarrow> string" where
  "raw_encode alphabet bs = map (\<lambda>v. alphabet ! v) (sextets (map of_char bs))"

text \<open>The decoder skips carriage returns and line feeds.\<close>

definition raw_decode :: "string \<Rightarrow> string \<Rightarrow> bytes option" where
  "raw_decode alphabet s =
     map_option (map char_of)
       (Option.bind (lookup_all alphabet (filter (\<lambda>c. c \<noteq> CHR 0x0A \<and> c \<noteq> CHR 0x0D) s)) octets)"

definition RawURL_Encode :: "bytes \<Rightarrow> string" where
  "RawURL_Encode = raw_encode url_alphabet"

definition RawURL_Decode :: "string \<Rightarrow> bytes option" where
  "RawURL_Decode = raw_decode url_alphabet"

definition Std_Encode :: "bytes \<Rightarrow> string" where
  "Std_Encode bs =
     raw_encode std_alphabet bs @ (if length bs mod 3 = 1 then ''=='' else if length bs mod 3 = 2 then ''='' else [])"

definition Std_Decode :: "string \<Rightarrow> bytes option" where
  "Std_Decode s =
     (let t = filter (\<lambda>c. c \<noteq> CHR 0x0A \<and> c \<noteq> CHR 0x0D) s in
      if length t mod 4 \<noteq> 0 then None
      else raw_decode std_alphabet
             (if has_suffix t ''=='' then take (length t - 2) t else if has_suffix t ''='' then take (length t - 1) t else t))"

text \<open>Decoding inverts encoding.\<close>

lemma byte_div: "(b :: nat) < 256 \<Longrightarrow> b div 4 < 64" "(b :: nat) < 256 \<Longrightarrow> b div 16 < 16" "(b :: nat) < 256 \<Longrightarrow> b div 64 < 4"
  by (simp_all add: less_mult_imp_div_less)

lemma octets_sextets: "(\<forall>b \<in> set bs. b < 256) \<Longrightarrow> octets (sextets bs) = Some bs"
proof (induction bs rule: sextets.induct)
  case (2 a)
  then show ?case by simp
next
  case (3 a b)
  have "b div 16 < 16" using 3 by (simp add: byte_div)
  then have "(a mod 4 * 16 + b div 16) div 16 = a mod 4" "(a mod 4 * 16 + b div 16) mod 16 = b div 16" by simp_all
  then show ?case by simp
next
  case (4 a b c r)
  have "b div 16 < 16" "c div 64 < 4" using 4 by (simp_all add: byte_div)
  then have "(a mod 4 * 16 + b div 16) div 16 = a mod 4" "(a mod 4 * 16 + b div 16) mod 16 = b div 16"
    "(b mod 16 * 4 + c div 64) div 4 = b mod 16" "(b mod 16 * 4 + c div 64) mod 4 = c div 64"
    by (simp_all add: mod_simps)
  then show ?case using 4 by simp
qed simp

lemma sextets_bound: "(\<forall>b \<in> set bs. b < 256) \<Longrightarrow> v \<in> set (sextets bs) \<Longrightarrow> v < 64"
proof (induction bs rule: sextets.induct)
  case (4 a b c r)
  then have "a < 256" "b < 256" "c < 256" by simp_all
  then have "a div 4 < 64" "b div 16 < 16" "c div 64 < 4" "c mod 64 < 64" by (simp_all add: byte_div)
  moreover have "a mod 4 < 4" "b mod 16 < 16" by simp_all
  ultimately show ?case using 4 by auto
next
  case (2 a)
  then have "a < 256" by simp
  then have "a div 4 < 64" "a mod 4 < 4" by (simp_all add: byte_div)
  then show ?case using 2 by auto
next
  case (3 a b)
  then have "a < 256" "b < 256" by simp_all
  then have "a div 4 < 64" "b div 16 < 16" "a mod 4 < 4" "b mod 16 < 16" by (simp_all add: byte_div)
  then show ?case using 3 by auto
qed simp

definition alphabet_ok :: "string \<Rightarrow> bool" where
  "alphabet_ok al \<longleftrightarrow> length al = 64 \<and> distinct al \<and> CHR 0x0A \<notin> set al \<and> CHR 0x0D \<notin> set al"

lemma alphabets_ok: "alphabet_ok std_alphabet" "alphabet_ok url_alphabet"
  by (simp_all add: alphabet_ok_def std_alphabet_def url_alphabet_def)

lemma index_byte_nth: "distinct al \<Longrightarrow> v < length al \<Longrightarrow> index_byte (al ! v) al = Some v"
proof (induction al arbitrary: v)
  case (Cons a al)
  then show ?case by (cases v) auto
qed simp

lemma lookup_all_map:
  "alphabet_ok al \<Longrightarrow> (\<forall>v \<in> set vs. v < 64) \<Longrightarrow> lookup_all al (map (\<lambda>v. al ! v) vs) = Some vs"
  by (induction vs) (simp_all add: alphabet_ok_def index_byte_nth)

lemma bytes_bound: "\<forall>b \<in> set (map of_char bs). b < (256 :: nat)"
proof -
  have "(of_char c :: nat) < 256" for c by (metis of_char_mod_256 mod_less_divisor zero_less_numeral)
  then show ?thesis by simp
qed

lemma char_of_of_char_list [simp]: "map char_of (map (of_char :: char \<Rightarrow> nat) bs) = bs"
  by (simp add: comp_def)

lemma raw_roundtrip:
  assumes "alphabet_ok al"
  shows "raw_decode al (raw_encode al bs) = Some bs"
proof -
  let ?vs = "sextets (map (of_char :: char \<Rightarrow> nat) bs)"
  have b: "\<forall>v \<in> set ?vs. v < 64" using sextets_bound bytes_bound by blast
  have "al ! v \<noteq> CHR 0x0A \<and> al ! v \<noteq> CHR 0x0D" if "v < 64" for v
    using that assms nth_mem [of v al] unfolding alphabet_ok_def by metis
  then have "filter (\<lambda>c. c \<noteq> CHR 0x0A \<and> c \<noteq> CHR 0x0D) (map (\<lambda>v. al ! v) ?vs) = map (\<lambda>v. al ! v) ?vs"
    using b by (intro filter_True) auto
  then show ?thesis
    using lookup_all_map [OF assms b] octets_sextets [OF bytes_bound, of bs]
    by (simp add: raw_decode_def raw_encode_def comp_def)
qed

lemma RawURL_roundtrip: "RawURL_Decode (RawURL_Encode bs) = Some bs"
  by (simp add: RawURL_Decode_def RawURL_Encode_def raw_roundtrip alphabets_ok)

text \<open>With padding.\<close>

lemma length_sextets:
  "length (sextets bs) mod 4 = (if length bs mod 3 = 0 then 0 else length bs mod 3 + 1)"
proof (induction bs rule: sextets.induct)
  case (4 a b c r)
  have "Suc (Suc (Suc n)) mod 3 = n mod 3" "Suc (Suc (Suc (Suc n))) mod 4 = n mod 4" for n :: nat by presburger+
  with 4 show ?case by simp
qed simp_all

lemma raw_encode_chars: "c \<in> set (raw_encode al bs) \<Longrightarrow> alphabet_ok al \<Longrightarrow> c \<in> set al"
  using sextets_bound [OF bytes_bound] by (auto simp: raw_encode_def alphabet_ok_def comp_def)

lemma has_suffix_append [simp]: "has_suffix (s @ p) p"
  by (simp add: has_suffix_def has_prefix_def)

lemma no_pad: "CHR ''='' \<notin> set s \<Longrightarrow> \<not> has_suffix s ''='' \<and> \<not> has_suffix s ''=='' \<and> \<not> has_suffix (s @ ''='') ''==''"
  by (cases s rule: rev_cases) (auto simp: has_suffix_def has_prefix_def)

lemma Std_roundtrip: "Std_Decode (Std_Encode bs) = Some bs"
proof -
  let ?r = "raw_encode std_alphabet bs"
  have "CHR ''='' \<notin> set std_alphabet" "CHR 0x0A \<notin> set std_alphabet" "CHR 0x0D \<notin> set std_alphabet"
    by (simp_all add: std_alphabet_def)
  then have c: "CHR ''='' \<notin> set ?r" "\<forall>c \<in> set ?r. c \<noteq> CHR 0x0A \<and> c \<noteq> CHR 0x0D"
    using raw_encode_chars [OF _ alphabets_ok(1), where bs = bs] by blast+
  have l: "length ?r mod 4 = (if length bs mod 3 = 0 then 0 else length bs mod 3 + 1)"
    using length_sextets [of "map of_char bs"] by (simp add: raw_encode_def)
  have dec: "raw_decode std_alphabet ?r = Some bs" by (rule raw_roundtrip) (rule alphabets_ok)
  have f: "filter (\<lambda>c. c \<noteq> CHR 0x0A \<and> c \<noteq> CHR 0x0D) ?r = ?r" using c(2) by (intro filter_True)
  have "length bs mod 3 < 3" by simp
  then consider "length bs mod 3 = 0" | "length bs mod 3 = 1" | "length bs mod 3 = 2" by linarith
  then show ?thesis
  proof cases
    case 1
    then show ?thesis using no_pad [OF c(1)] l f dec by (simp add: Std_Decode_def Std_Encode_def)
  next
    case 2
    then have "length ?r mod 4 = 2" using l by simp
    then have "(length ?r + 2) mod 4 = 0" by presburger
    moreover have "has_suffix (?r @ ''=='') ''==''" by simp
    ultimately show ?thesis using 2 f dec by (simp add: Std_Decode_def Std_Encode_def)
  next
    case 3
    then have "length ?r mod 4 = 3" using l by simp
    then have "Suc (length ?r) mod 4 = 0" by presburger
    moreover have "has_suffix (?r @ ''='') ''=''" by simp
    ultimately show ?thesis using 3 no_pad [OF c(1)] f dec by (simp add: Std_Decode_def Std_Encode_def)
  qed
qed

section \<open>Big-endian integers\<close>

fun be_bytes :: "nat \<Rightarrow> nat \<Rightarrow> bytes" where
  "be_bytes 0 n = []"
| "be_bytes (Suc k) n = be_bytes k (n div 256) @ [char_of (n mod 256)]"

definition be_value :: "bytes \<Rightarrow> nat" where
  "be_value bs = foldl (\<lambda>acc c. acc * 256 + of_char c) 0 bs"

lemma length_be_bytes [simp]: "length (be_bytes k n) = k"
  by (induction k arbitrary: n) simp_all

lemma be_value_bytes: "be_value (be_bytes k n) = n mod 256 ^ k"
proof (induction k arbitrary: n)
  case (Suc k)
  have "(n div 256 mod 256 ^ k) * 256 + n mod 256 = n mod (256 * 256 ^ k)"
    by (metis add.commute mod_mult2_eq mult.commute)
  then show ?case using Suc by (simp add: be_value_def)
qed (simp add: be_value_def)

section \<open>Escaping for URLs\<close>

definition unreserved :: "char \<Rightarrow> bool" where
  "unreserved c \<longleftrightarrow>
     (let n = of_char c :: nat in
      (97 \<le> n \<and> n \<le> 122) \<or> (65 \<le> n \<and> n \<le> 90) \<or> (48 \<le> n \<and> n \<le> 57) \<or> c \<in> set ''-_.~'')"

definition hex_digit :: "nat \<Rightarrow> char" where
  "hex_digit n = ''0123456789ABCDEF'' ! n"

definition percent :: "char \<Rightarrow> string" where
  "percent c = [CHR ''%'', hex_digit ((of_char c :: nat) div 16), hex_digit ((of_char c :: nat) mod 16)]"

definition PathEscape :: "string \<Rightarrow> string" where
  "PathEscape s = concat (map (\<lambda>c. if unreserved c \<or> c \<in> set ''$&+=:@'' then [c] else percent c) s)"

definition QueryEscape :: "string \<Rightarrow> string" where
  "QueryEscape s = concat (map (\<lambda>c. if unreserved c then [c] else if c = CHR '' '' then ''+'' else percent c) s)"

section \<open>UTF-8\<close>

text \<open>Which byte strings are UTF-8, by the rules of package \<open>unicode/utf8\<close>: the shortest form, and no surrogates.\<close>

definition tail_byte :: "char \<Rightarrow> bool" where
  "tail_byte c \<longleftrightarrow> 128 \<le> (of_char c :: nat) \<and> (of_char c :: nat) < 192"

fun utf8_valid :: "string \<Rightarrow> bool" where
  "utf8_valid [] = True"
| "utf8_valid (a # s) =
     (let n = of_char a :: nat in
      if n < 128 then utf8_valid s
      else if 194 \<le> n \<and> n < 224 then (case s of b # s1 \<Rightarrow> tail_byte b \<and> utf8_valid s1 | _ \<Rightarrow> False)
      else if 224 \<le> n \<and> n < 240 then
        (case s of
           b # c # s1 \<Rightarrow> tail_byte b \<and> tail_byte c \<and> (n = 224 \<longrightarrow> 160 \<le> (of_char b :: nat)) \<and> (n = 237 \<longrightarrow> (of_char b :: nat) < 160) \<and>
             utf8_valid s1
         | _ \<Rightarrow> False)
      else if 240 \<le> n \<and> n < 245 then
        (case s of
           b # c # d # s1 \<Rightarrow> tail_byte b \<and> tail_byte c \<and> tail_byte d \<and> (n = 240 \<longrightarrow> 144 \<le> (of_char b :: nat)) \<and>
             (n = 244 \<longrightarrow> (of_char b :: nat) < 144) \<and> utf8_valid s1
         | _ \<Rightarrow> False)
      else False)"

definition ascii :: "string \<Rightarrow> bool" where
  "ascii s \<longleftrightarrow> list_all (\<lambda>c. (of_char c :: nat) < 128) s"

lemma ascii_utf8: "ascii s \<Longrightarrow> utf8_valid s"
  by (induction s) (simp_all add: ascii_def)

lemma Std_Encode_ascii: "ascii (Std_Encode b)"
proof -
  have a: "\<forall>c \<in> set std_alphabet. (of_char c :: nat) < 128" "length std_alphabet = 64" by (simp_all add: std_alphabet_def)
  have "v < 64" if "v \<in> set (sextets (map of_char b))" for v using sextets_bound [OF _ that] by simp
  then have "(of_char (std_alphabet ! v) :: nat) < 128" if "v \<in> set (sextets (map of_char b))" for v
    using that a by simp
  then show ?thesis by (auto simp: ascii_def Std_Encode_def raw_encode_def list_all_iff)
qed

end
