(* ===== verification/SessionAuth.thy ===== *)
theory SessionAuth
  imports Encoding
begin

text \<open>
  Sessions and access: \<open>internal/security/auth.go\<close> and the middleware and token handler of
  \<open>internal/api/v1\<close> (\<open>middleware.go\<close>, \<open>auth.go\<close>).

  The keyed hash HMAC-SHA256 is the argument \<open>hmac\<close>, of which only its length is used.  What
  \<open>net/url\<close> takes as the host name of an origin is an argument too.  Instants and durations are in
  nanoseconds; the clock is read twice, when a session is issued and when it is verified.
\<close>

definition sessionNonceLen :: nat where "sessionNonceLen = 16"
definition sessionMACLen :: nat where "sessionMACLen = 32"

type_synonym keyed_hash = "bytes \<Rightarrow> bytes \<Rightarrow> bytes"

datatype session_error = BadSecretEncoding | SecretTooShort

definition NewSessionAuth :: "string \<Rightarrow> session_error + bytes" where
  "NewSessionAuth secretB64 =
     (case Std_Decode secretB64 of
        None \<Rightarrow> Inl BadSecretEncoding
      | Some b \<Rightarrow> if length b < 32 then Inl SecretTooShort else Inr b)"

definition NewSessionSecret :: "string + bytes \<Rightarrow> string + string" where
  "NewSessionSecret rnd = (case rnd of Inl msg \<Rightarrow> Inl msg | Inr b \<Rightarrow> Inr (Std_Encode b))"

definition unix :: "int \<Rightarrow> int" where
  "unix t = t div second"

text \<open>\<open>uint64\<close> of a signed count of seconds, and back.\<close>

definition session_payload :: "int \<Rightarrow> bytes \<Rightarrow> bytes" where
  "session_payload expiry nonce = be_bytes 8 (nat (expiry mod 2 ^ 64)) @ nonce"

definition session_expiry :: "bytes \<Rightarrow> int" where
  "session_expiry payload = wrap64 (int (be_value (take 8 payload)))"

text \<open>The nonce is what \<open>rand.Read\<close> fills the payload with.\<close>

definition Issue :: "keyed_hash \<Rightarrow> bytes \<Rightarrow> bytes \<Rightarrow> int \<Rightarrow> int \<Rightarrow> string" where
  "Issue hmac secret nonce now ttl =
     (let payload = session_payload (unix (now + ttl)) nonce
      in RawURL_Encode (payload @ hmac secret payload))"

definition Verify :: "keyed_hash \<Rightarrow> bytes \<Rightarrow> int \<Rightarrow> string \<Rightarrow> bool" where
  "Verify hmac secret now token =
     (if token = [] then False
      else (case RawURL_Decode token of
              None \<Rightarrow> False
            | Some raw \<Rightarrow>
               (if length raw \<noteq> 8 + sessionNonceLen + sessionMACLen then False
                else (let payload = take (8 + sessionNonceLen) raw; sig = drop (8 + sessionNonceLen) raw
                      in if sig \<noteq> hmac secret payload then False
                         else unix now < session_expiry payload))))"

section \<open>The middleware\<close>

record auth_config =
  ac_dev :: bool
  ac_token :: string
  ac_secret :: bytes

text \<open>A request passes (\<^const>\<open>True\<close>) or is answered 401.  The cookie and the token header may be absent.\<close>

definition authMiddleware :: "keyed_hash \<Rightarrow> auth_config \<Rightarrow> int \<Rightarrow> string option \<Rightarrow> string \<Rightarrow> bool" where
  "authMiddleware hmac cfg now cookie header =
     (if ac_dev cfg then True
      else if (case cookie of None \<Rightarrow> False | Some c \<Rightarrow> Verify hmac (ac_secret cfg) now c) then True
      else header \<noteq> [] \<and> header = ac_token cfg)"

text \<open>\<open>host_of\<close> is \<open>url.Parse\<close> followed by \<open>Hostname\<close>, \<^const>\<open>None\<close> where parsing fails.\<close>

definition isLocalOrigin :: "(string \<Rightarrow> string option) \<Rightarrow> string \<Rightarrow> bool" where
  "isLocalOrigin host_of origin =
     (case host_of origin of
        None \<Rightarrow> False
      | Some host \<Rightarrow> host = ''127.0.0.1'' \<or> host = ''localhost'' \<or> host = ''::1'' \<or> has_suffix host ''.localhost'')"

definition csrfMiddleware :: "(string \<Rightarrow> string option) \<Rightarrow> string \<Rightarrow> string \<Rightarrow> bool" where
  "csrfMiddleware host_of http_method origin =
     (if http_method \<in> {''POST'', ''PUT'', ''DELETE'', ''PATCH''}
      then \<not> (origin \<noteq> [] \<and> \<not> isLocalOrigin host_of origin) else True)"

definition sessionTTL :: int where
  "sessionTTL = 24 * 60 * 60 * second"

datatype token_response = BadTokenRequest string | InvalidToken | SessionCookie string

definition verifyToken :: "keyed_hash \<Rightarrow> auth_config \<Rightarrow> bytes \<Rightarrow> int \<Rightarrow> string + string \<Rightarrow> token_response" where
  "verifyToken hmac cfg nonce now body =
     (case body of
        Inl msg \<Rightarrow> BadTokenRequest msg
      | Inr token \<Rightarrow>
         (if \<not> ac_dev cfg \<and> token \<noteq> ac_token cfg then InvalidToken
          else SessionCookie (Issue hmac (ac_secret cfg) nonce now sessionTTL)))"

section \<open>What a session proves\<close>

lemma session_expiry_payload:
  assumes "in_range64 e"
  shows "session_expiry (session_payload e nonce) = e"
proof -
  have "e mod 2 ^ 64 \<ge> 0" "e mod 2 ^ 64 < 2 ^ 64" by simp_all
  then have "int (be_value (be_bytes 8 (nat (e mod 2 ^ 64)))) = e mod 2 ^ 64" by (simp add: be_value_bytes)
  moreover have "wrap64 (e mod 2 ^ 64) = wrap64 e" by (simp add: wrap64_def mod_simps)
  ultimately show ?thesis
    using assms by (simp add: session_expiry_def session_payload_def wrap64_id)
qed

lemma raw_decode_Nil: "raw_decode al [] = Some []"
  by (simp add: raw_decode_def)

lemma Verify_iff:
  "Verify hmac secret now token \<longleftrightarrow>
     (\<exists>payload. RawURL_Decode token = Some (payload @ hmac secret payload) \<and> length payload = 24 \<and>
        length (hmac secret payload) = 32 \<and> unix now < session_expiry payload)"
proof
  assume "Verify hmac secret now token"
  then obtain raw where raw: "RawURL_Decode token = Some raw" "length raw = 56"
    "drop 24 raw = hmac secret (take 24 raw)" "unix now < session_expiry (take 24 raw)"
    by (auto simp: Verify_def sessionNonceLen_def sessionMACLen_def Let_def split: if_splits option.splits)
  then have "raw = take 24 raw @ hmac secret (take 24 raw)" by (metis append_take_drop_id)
  moreover have "length (hmac secret (take 24 raw)) = 32" using raw(2) raw(3) [symmetric] by simp
  ultimately show "\<exists>payload. RawURL_Decode token = Some (payload @ hmac secret payload) \<and> length payload = 24 \<and>
        length (hmac secret payload) = 32 \<and> unix now < session_expiry payload"
    using raw by (intro exI [of _ "take 24 raw"]) simp
next
  assume "\<exists>payload. RawURL_Decode token = Some (payload @ hmac secret payload) \<and> length payload = 24 \<and>
        length (hmac secret payload) = 32 \<and> unix now < session_expiry payload"
  then obtain payload where p: "RawURL_Decode token = Some (payload @ hmac secret payload)" "length payload = 24"
    "length (hmac secret payload) = 32" "unix now < session_expiry payload" by blast
  have "token \<noteq> []" using p(1,2) by (auto simp: RawURL_Decode_def raw_decode_Nil)
  with p show "Verify hmac secret now token"
    by (simp add: Verify_def sessionNonceLen_def sessionMACLen_def Let_def)
qed

lemma issued_verifies:
  assumes "length nonce = sessionNonceLen" "\<forall>k m. length (hmac k m) = sessionMACLen" "in_range64 (unix (now + ttl))"
  shows "Verify hmac secret now' (Issue hmac secret nonce now ttl) \<longleftrightarrow> unix now' < unix (now + ttl)"
proof -
  let ?p = "session_payload (unix (now + ttl)) nonce"
  have l: "length ?p = 24" using assms(1) by (simp add: session_payload_def sessionNonceLen_def)
  have d: "RawURL_Decode (Issue hmac secret nonce now ttl) = Some (?p @ hmac secret ?p)"
    by (simp add: Issue_def Let_def RawURL_roundtrip)
  have "payload = ?p" if "?p @ hmac secret ?p = payload @ hmac secret payload" "length payload = 24" for payload
    using that l by (metis append_eq_append_conv)
  then show ?thesis
    unfolding Verify_iff d using l assms(2) session_expiry_payload [OF assms(3)]
    by (auto simp: sessionMACLen_def)
qed

text \<open>A session that is issued verifies under its secret until its life time ends and never after, through
  the base64 encoding of the cookie and the 64-bit encoding of the expiry.  Whatever else verifies
  decodes to 24 bytes followed by their keyed hash under the secret, so it was signed with it.\<close>

theorem session_verifies_until_expiry:
  assumes "length nonce = sessionNonceLen" "\<forall>k m. length (hmac k m) = sessionMACLen" "in_range64 (unix (now + ttl))"
  shows "(Verify hmac secret now' (Issue hmac secret nonce now ttl) \<longleftrightarrow> unix now' < unix (now + ttl)) \<and>
    (Verify hmac secret now' token \<longrightarrow>
       (\<exists>payload. length payload = 24 \<and> RawURL_Decode token = Some (payload @ hmac secret payload) \<and>
          unix now' < session_expiry payload))"
  using issued_verifies [OF assms] unfolding Verify_iff by blast

definition demo_hmac :: keyed_hash where
  "demo_hmac k m = take 32 (k @ m @ replicate 32 CHR 0x00)"

lemma demo_hmac_length: "\<forall>k m. length (demo_hmac k m) = sessionMACLen"
  by (auto simp: demo_hmac_def sessionMACLen_def)

lemma session_verifies_until_expiry_witness:
  "Verify demo_hmac ''k'' 0 (Issue demo_hmac ''k'' (replicate 16 CHR ''n'') 0 sessionTTL) \<and>
   \<not> Verify demo_hmac ''k'' sessionTTL (Issue demo_hmac ''k'' (replicate 16 CHR ''n'') 0 sessionTTL)"
proof -
  have "length (replicate 16 CHR ''n'') = sessionNonceLen" by (simp add: sessionNonceLen_def)
  moreover note demo_hmac_length
  moreover have "in_range64 (unix (0 + sessionTTL))" by (simp add: in_range64_def unix_def sessionTTL_def second_def)
  ultimately show ?thesis
    using session_verifies_until_expiry [of "replicate 16 CHR ''n''" demo_hmac 0 sessionTTL "''k''"]
    by (simp add: unix_def sessionTTL_def second_def)
qed

text \<open>C22: Outside of development mode a request passes just when its cookie is a session that was signed with
  the secret and has not expired, or it shows the daemon's token, which must not be empty; and the
  cookie the token handler answers with lets requests pass for a day.\<close>

theorem access_needs_token_or_session:
  assumes "\<not> ac_dev cfg" "length nonce = sessionNonceLen" "\<forall>k m. length (hmac k m) = sessionMACLen"
    and "in_range64 (unix now + 86400)"
  shows "(authMiddleware hmac cfg now' cookie header \<longleftrightarrow>
      (\<exists>c payload. cookie = Some c \<and> RawURL_Decode c = Some (payload @ hmac (ac_secret cfg) payload) \<and> length payload = 24 \<and>
         unix now' < session_expiry payload) \<or>
      (header = ac_token cfg \<and> ac_token cfg \<noteq> [])) \<and>
    (case verifyToken hmac cfg nonce now (Inr token) of
       SessionCookie c \<Rightarrow> token = ac_token cfg \<and> (authMiddleware hmac cfg now' (Some c) [] \<longleftrightarrow> unix now' < unix now + 86400)
     | r \<Rightarrow> r = InvalidToken \<and> token \<noteq> ac_token cfg)"
proof
  have len: "length (hmac k m) = 32" for k m using assms(3) by (simp add: sessionMACLen_def)
  show "authMiddleware hmac cfg now' cookie header \<longleftrightarrow>
      (\<exists>c payload. cookie = Some c \<and> RawURL_Decode c = Some (payload @ hmac (ac_secret cfg) payload) \<and> length payload = 24 \<and>
         unix now' < session_expiry payload) \<or>
      (header = ac_token cfg \<and> ac_token cfg \<noteq> [])"
    using assms(1) len by (auto simp: authMiddleware_def Verify_iff split: option.splits)
  have ttl: "unix (now + sessionTTL) = unix now + 86400" by (simp add: unix_def sessionTTL_def second_def)
  have "Verify hmac (ac_secret cfg) now' (Issue hmac (ac_secret cfg) nonce now sessionTTL) \<longleftrightarrow> unix now' < unix now + 86400"
    using issued_verifies [OF assms(2,3), of now sessionTTL] assms(4) by (simp add: ttl)
  then show "case verifyToken hmac cfg nonce now (Inr token) of
       SessionCookie c \<Rightarrow> token = ac_token cfg \<and> (authMiddleware hmac cfg now' (Some c) [] \<longleftrightarrow> unix now' < unix now + 86400)
     | r \<Rightarrow> r = InvalidToken \<and> token \<noteq> ac_token cfg"
    using assms(1) by (simp add: verifyToken_def authMiddleware_def)
qed

lemma access_needs_token_or_session_witness:
  "\<exists>c. verifyToken demo_hmac \<lparr> ac_dev = False, ac_token = ''t'', ac_secret = ''k'' \<rparr> (replicate 16 CHR ''n'') 0 (Inr ''t'') = SessionCookie c \<and>
     authMiddleware demo_hmac \<lparr> ac_dev = False, ac_token = ''t'', ac_secret = ''k'' \<rparr> second (Some c) [] \<and>
     \<not> authMiddleware demo_hmac \<lparr> ac_dev = False, ac_token = ''t'', ac_secret = ''k'' \<rparr> 0 None []"
proof -
  let ?cfg = "\<lparr> ac_dev = False, ac_token = ''t'', ac_secret = ''k'' \<rparr>"
  have "\<not> ac_dev ?cfg" "length (replicate 16 CHR ''n'') = sessionNonceLen" "in_range64 (unix 0 + 86400)"
    by (simp_all add: sessionNonceLen_def in_range64_def unix_def)
  note t = access_needs_token_or_session [OF this(1,2) demo_hmac_length this(3)]
  obtain c where c: "verifyToken demo_hmac ?cfg (replicate 16 CHR ''n'') 0 (Inr ''t'') = SessionCookie c"
    by (simp add: verifyToken_def)
  have "unix second < unix 0 + 86400" by (simp add: unix_def second_def)
  then have "authMiddleware demo_hmac ?cfg second (Some c) []"
    using t [where token = "''t''" and now' = second, THEN conjunct2] unfolding c by simp
  moreover have "\<not> authMiddleware demo_hmac ?cfg 0 None []"
    using t [where cookie = None and header = "[]" and now' = 0, THEN conjunct1] by simp
  ultimately show ?thesis using c by blast
qed

end
