(* ===== verification/Secrets.thy ===== *)
theory Secrets
  imports Encoding Frames
begin

text \<open>
  The secret store of \<open>internal/security/secrets.go\<close> over the macOS keychain of
  \<open>keychain_darwin.go\<close>, with the fall-back to an encrypted column of the \<open>secrets\<close> table.

  AES-GCM is the argument \<open>aead\<close>: sealing and opening under a key and a nonce.  The keychain is a map
  from accounts to values behind a command-line tool that may refuse, and what it prints of a value is an
  argument too: the tool shows a text of printable characters as it is, and other values in a form of its
  own, in hexadecimal digits.  The key file is a text that may be missing or unreadable; random bytes, ids and
  the clock come with each call.
\<close>

record aead =
  gcm_seal :: "bytes \<Rightarrow> bytes \<Rightarrow> bytes \<Rightarrow> bytes"
  gcm_open :: "bytes \<Rightarrow> bytes \<Rightarrow> bytes \<Rightarrow> bytes option"

record vault =
  vt_db :: db
  vt_keychain :: "string \<Rightarrow> bytes option"
  vt_keyfile :: "string option"

record secret_env =
  sn_aead :: aead
  sn_uuid :: string
  sn_now :: int
  sn_key :: "string + bytes"
  sn_nonce :: "string + bytes"
  sn_add :: "string option"
  sn_find :: "string option"
  sn_prints :: "bytes \<Rightarrow> bytes"
  sn_del :: bool
  sn_readable :: bool
  sn_mkdir :: "string option"
  sn_write :: "string option"

datatype secret_error =
    SecretNotFound
  | SecretSql sql_error
  | NoFallback string secret_error
  | UnknownBackend string
  | KeychainRefused string
  | CorruptBlob
  | OpenFailed
  | NoRandom string
  | KeyFileFailed string

definition backendOSKeychain :: string where "backendOSKeychain = ''os_keychain''"
definition backendEncryptedBlob :: string where "backendEncryptedBlob = ''encrypted_sqlite_blob''"

definition keychainAccount :: "string \<Rightarrow> string \<Rightarrow> string \<Rightarrow> string \<Rightarrow> string" where
  "keychainAccount ownerType ownerID kind i = ''volt:'' @ ownerType @ '':'' @ ownerID @ '':'' @ kind @ '':'' @ i"

section \<open>The keychain\<close>

text \<open>Replacing an item deletes it first; reading one drops the line feeds at the end of what the tool prints.\<close>

definition osKeychainDelete :: "secret_env \<Rightarrow> string \<Rightarrow> vault \<Rightarrow> vault" where
  "osKeychainDelete env account v = (if sn_del env then v\<lparr> vt_keychain := (vt_keychain v)(account := None) \<rparr> else v)"

definition osKeychainSet :: "secret_env \<Rightarrow> string \<Rightarrow> bytes \<Rightarrow> vault \<Rightarrow> string option \<times> vault" where
  "osKeychainSet env account val v =
     (let v1 = osKeychainDelete env account v in
      case sn_add env of
        Some msg \<Rightarrow> (Some msg, v1)
      | None \<Rightarrow> (None, v1\<lparr> vt_keychain := (vt_keychain v1)(account \<mapsto> val) \<rparr>))"

definition trim_newlines :: "bytes \<Rightarrow> bytes" where
  "trim_newlines b = rev (dropWhile (\<lambda>c. c = CHR 0x0A) (rev b))"

definition osKeychainGet :: "secret_env \<Rightarrow> string \<Rightarrow> vault \<Rightarrow> secret_error + bytes" where
  "osKeychainGet env account v =
     (case sn_find env of
        Some msg \<Rightarrow> Inl (KeychainRefused msg)
      | None \<Rightarrow> (case vt_keychain v account of
                   None \<Rightarrow> Inl (KeychainRefused ''item not found'') | Some b \<Rightarrow> Inr (trim_newlines (sn_prints env b))))"

text \<open>
  Where there is no keychain (\<open>keychain_other.go\<close>), the three operations have constant answers: they are those
  above with a tool that refuses everything, so what is shown of the store holds there too.
\<close>

definition keychain_unavailable :: string where
  "keychain_unavailable = ''os keychain unavailable on this platform''"

definition other_osKeychainSet :: "string \<Rightarrow> bytes \<Rightarrow> vault \<Rightarrow> string option \<times> vault" where
  "other_osKeychainSet account val v = (Some keychain_unavailable, v)"

definition other_osKeychainGet :: "string \<Rightarrow> vault \<Rightarrow> secret_error + bytes" where
  "other_osKeychainGet account v = Inl (KeychainRefused keychain_unavailable)"

definition other_osKeychainDelete :: "string \<Rightarrow> vault \<Rightarrow> vault" where
  "other_osKeychainDelete account v = v"

lemma other_keychain:
  assumes "sn_add env = Some keychain_unavailable" "sn_find env = Some keychain_unavailable" "\<not> sn_del env"
  shows "osKeychainSet env a b v = other_osKeychainSet a b v" "osKeychainGet env a v = other_osKeychainGet a v"
    "osKeychainDelete env a v = other_osKeychainDelete a v"
  using assms by (simp_all add: osKeychainSet_def osKeychainGet_def osKeychainDelete_def
      other_osKeychainSet_def other_osKeychainGet_def other_osKeychainDelete_def)

section \<open>The encrypted fall-back\<close>

definition stored_key :: "string option \<Rightarrow> bytes option" where
  "stored_key file =
     (case Option.bind file Std_Decode of Some k \<Rightarrow> if length k = 32 then Some k else None | None \<Rightarrow> None)"

definition loadOrCreateKey :: "secret_env \<Rightarrow> vault \<Rightarrow> (secret_error + bytes) \<times> vault" where
  "loadOrCreateKey env v =
     (case (if sn_readable env then stored_key (vt_keyfile v) else None) of
        Some k \<Rightarrow> (Inr k, v)
      | None \<Rightarrow>
         (case sn_key env of
            Inl msg \<Rightarrow> (Inl (NoRandom msg), v)
          | Inr k \<Rightarrow>
             (case sn_mkdir env of
                Some msg \<Rightarrow> (Inl (KeyFileFailed msg), v)
              | None \<Rightarrow>
                 (case sn_write env of
                    Some msg \<Rightarrow> (Inl (KeyFileFailed msg), v)
                  | None \<Rightarrow> (Inr k, v\<lparr> vt_keyfile := Some (Std_Encode k) \<rparr>)))))"

definition nonceSize :: nat where "nonceSize = 12"

definition secret_encrypt :: "secret_env \<Rightarrow> bytes \<Rightarrow> vault \<Rightarrow> (secret_error + bytes) \<times> vault" where
  "secret_encrypt env plaintext v =
     (case loadOrCreateKey env v of
        (Inl e, v') \<Rightarrow> (Inl e, v')
      | (Inr k, v') \<Rightarrow>
         (case sn_nonce env of
            Inl msg \<Rightarrow> (Inl (NoRandom msg), v')
          | Inr nonce \<Rightarrow> (Inr (nonce @ gcm_seal (sn_aead env) k nonce plaintext), v')))"

definition secret_decrypt :: "secret_env \<Rightarrow> bytes \<Rightarrow> vault \<Rightarrow> (secret_error + bytes) \<times> vault" where
  "secret_decrypt env ciphertext v =
     (case loadOrCreateKey env v of
        (Inl e, v') \<Rightarrow> (Inl e, v')
      | (Inr k, v') \<Rightarrow>
         (if length ciphertext < nonceSize then (Inl CorruptBlob, v')
          else (case gcm_open (sn_aead env) k (take nonceSize ciphertext) (drop nonceSize ciphertext) of
                  None \<Rightarrow> (Inl OpenFailed, v') | Some p \<Rightarrow> (Inr p, v'))))"

section \<open>The store\<close>

definition on_vault_db :: "(db \<Rightarrow> 'a \<times> db) \<Rightarrow> vault \<Rightarrow> 'a \<times> vault" where
  "on_vault_db f v = (case f (vt_db v) of (a, d) \<Rightarrow> (a, v\<lparr> vt_db := d \<rparr>))"

definition secret_cols :: "secret_env \<Rightarrow> string \<Rightarrow> string \<Rightarrow> string \<Rightarrow> string \<Rightarrow> sqlval \<Rightarrow> (string \<times> sqlval) list" where
  "secret_cols env ownerType ownerID kind backend blob =
     [(''id'', Text (sn_uuid env)), (''owner_type'', Text ownerType), (''owner_id'', Text ownerID), (''kind'', Text kind),
      (''storage_backend'', Text backend), (''encrypted_blob'', blob), (''created_at'', rfc3339 (sn_now env))]"

text \<open>Where the value goes: the keychain, or else the encrypted column.\<close>

definition choose_backend ::
  "secret_env \<Rightarrow> string \<Rightarrow> bytes \<Rightarrow> vault \<Rightarrow> (secret_error + string \<times> sqlval) \<times> vault" where
  "choose_backend env account val v =
     (case osKeychainSet env account val v of
        (None, v1) \<Rightarrow> (Inr (backendOSKeychain, Null), v1)
      | (Some msg, v1) \<Rightarrow>
         (case secret_encrypt env val v1 of
            (Inl e, v2) \<Rightarrow> (Inl (NoFallback msg e), v2)
          | (Inr enc, v2) \<Rightarrow> (Inr (backendEncryptedBlob, Blob enc), v2)))"

definition secret_Put :: "secret_env \<Rightarrow> string \<Rightarrow> string \<Rightarrow> string \<Rightarrow> bytes \<Rightarrow> vault \<Rightarrow> (secret_error + string) \<times> vault" where
  "secret_Put env ownerType ownerID kind val v =
     (let account = keychainAccount ownerType ownerID kind (sn_uuid env) in
      case choose_backend env account val v of
        (Inl e, v1) \<Rightarrow> (Inl e, v1)
      | (Inr (backend, blob), v1) \<Rightarrow>
         (case on_vault_db (sql_insert ''secrets'' (secret_cols env ownerType ownerID kind backend blob)) v1 of
            (Inl e, v2) \<Rightarrow> (Inl (SecretSql e), if backend = backendOSKeychain then osKeychainDelete env account v2 else v2)
          | (Inr _, v2) \<Rightarrow> (Inr (sn_uuid env), v2)))"

definition secret_lookup :: "string \<Rightarrow> vault \<Rightarrow> (secret_error + row) \<times> vault" where
  "secret_lookup ref v =
     (case on_vault_db (sql_query_row ''secrets'' (by_id ref)) v of
        (Inl NoRows, v') \<Rightarrow> (Inl SecretNotFound, v')
      | (Inl e, v') \<Rightarrow> (Inl (SecretSql e), v')
      | (Inr r, v') \<Rightarrow> (Inr r, v'))"

definition row_account :: "row \<Rightarrow> string \<Rightarrow> string" where
  "row_account r ref = keychainAccount (text_col ''owner_type'' r) (text_col ''owner_id'' r) (text_col ''kind'' r) ref"

definition secret_Get :: "secret_env \<Rightarrow> string \<Rightarrow> vault \<Rightarrow> (secret_error + bytes) \<times> vault" where
  "secret_Get env ref v =
     (case secret_lookup ref v of
        (Inl e, v1) \<Rightarrow> (Inl e, v1)
      | (Inr r, v1) \<Rightarrow>
         (let backend = text_col ''storage_backend'' r in
          if backend = backendOSKeychain then (osKeychainGet env (row_account r ref) v1, v1)
          else if backend = backendEncryptedBlob then secret_decrypt env (blob_col ''encrypted_blob'' r) v1
          else (Inl (UnknownBackend backend), v1)))"

definition secret_Delete :: "secret_env \<Rightarrow> string \<Rightarrow> vault \<Rightarrow> (secret_error + unit) \<times> vault" where
  "secret_Delete env ref v =
     (case secret_lookup ref v of
        (Inl SecretNotFound, v1) \<Rightarrow> (Inr (), v1)
      | (Inl e, v1) \<Rightarrow> (Inl e, v1)
      | (Inr r, v1) \<Rightarrow>
         (let v2 = (if text_col ''storage_backend'' r = backendOSKeychain then osKeychainDelete env (row_account r ref) v1 else v1) in
          case on_vault_db (sql_delete ''secrets'' (by_id ref)) v2 of
            (Inl e, v3) \<Rightarrow> (Inl (SecretSql e), v3)
          | (Inr _, v3) \<Rightarrow> (Inr (), v3)))"

section \<open>A secret comes back\<close>

text \<open>What is used of AES-GCM.\<close>

definition opens_what_it_sealed :: "aead \<Rightarrow> bool" where
  "opens_what_it_sealed a \<longleftrightarrow> (\<forall>k n m. length k = 32 \<longrightarrow> length n = nonceSize \<longrightarrow> gcm_open a k n (gcm_seal a k n m) = Some m)"

definition rejects_other_keys :: "aead \<Rightarrow> bool" where
  "rejects_other_keys a \<longleftrightarrow> (\<forall>k k' n m. length k = 32 \<longrightarrow> length k' = 32 \<longrightarrow> k \<noteq> k' \<longrightarrow> gcm_open a k' n (gcm_seal a k n m) = None)"

text \<open>What is used of the keychain tool: a value of printable characters is printed as it is, on a line.\<close>

definition printable :: "bytes \<Rightarrow> bool" where
  "printable b \<longleftrightarrow> list_all (\<lambda>c. 32 \<le> (of_char c :: nat) \<and> (of_char c :: nat) < 127) b"

definition prints_text :: "(bytes \<Rightarrow> bytes) \<Rightarrow> bool" where
  "prints_text prints \<longleftrightarrow> (\<forall>b. printable b \<longrightarrow> prints b = b @ [CHR 0x0A])"

lemma printable_line:
  assumes "printable b"
  shows "trim_newlines (b @ [CHR 0x0A]) = b"
proof -
  have "c \<noteq> CHR 0x0A" if "c \<in> set b" for c
    using assms that by (auto simp: printable_def list_all_iff)
  then have "dropWhile (\<lambda>c. c = CHR 0x0A) (rev b) = rev b"
    by (cases b rule: rev_cases) (simp_all add: dropWhile_eq_Cons_conv)
  then show ?thesis by (simp add: trim_newlines_def)
qed

text \<open>
  What comes back of a value that \<open>env\<close> stored and \<open>env'\<close> reads: the value, unless the keychain took it and it
  is more than a line of printable characters; then what the tool prints of it.
\<close>

definition given_back :: "secret_env \<Rightarrow> secret_env \<Rightarrow> bytes \<Rightarrow> bytes" where
  "given_back env env' val =
     (if sn_add env = None \<and> \<not> printable val then trim_newlines (sn_prints env' val) else val)"

lemma given_back_simps:
  "sn_add env \<noteq> None \<Longrightarrow> given_back env env' val = val" "printable val \<Longrightarrow> given_back env env' val = val"
  by (auto simp: given_back_def)

lemma given_back_keychain:
  "sn_add env = None \<Longrightarrow> prints_text (sn_prints env') \<Longrightarrow> trim_newlines (sn_prints env' val) = given_back env env' val"
  by (simp add: given_back_def prints_text_def printable_line)

lemma stored_key_encode: "length k = 32 \<Longrightarrow> stored_key (Some (Std_Encode k)) = Some k"
  by (simp add: stored_key_def Std_roundtrip)

lemma stored_key_length: "stored_key f = Some k \<Longrightarrow> length k = 32"
  by (auto simp: stored_key_def split: option.splits if_splits)

lemma loadOrCreateKey_ok:
  assumes "loadOrCreateKey env v = (Inr k, v')" "\<forall>r. sn_key env = Inr r \<longrightarrow> length r = 32"
  shows "length k = 32" "vt_db v' = vt_db v" "vt_keychain v' = vt_keychain v" "stored_key (vt_keyfile v') = Some k"
proof -
  have "length k = 32 \<and> vt_db v' = vt_db v \<and> vt_keychain v' = vt_keychain v \<and> stored_key (vt_keyfile v') = Some k"
  proof (cases "if sn_readable env then stored_key (vt_keyfile v) else None")
    case None
    then have "sn_key env = Inr k" "v' = v\<lparr> vt_keyfile := Some (Std_Encode k) \<rparr>"
      using assms(1) by (auto simp: loadOrCreateKey_def split: option.splits sum.splits)
    then show ?thesis using assms(2) by (simp add: stored_key_encode)
  next
    case (Some k')
    then have "stored_key (vt_keyfile v) = Some k'" by (simp split: if_splits)
    moreover have "k' = k" "v' = v" using assms(1) unfolding loadOrCreateKey_def Some by simp_all
    ultimately show ?thesis by (simp add: stored_key_length)
  qed
  then show "length k = 32" "vt_db v' = vt_db v" "vt_keychain v' = vt_keychain v" "stored_key (vt_keyfile v') = Some k" by simp_all
qed

lemma loadOrCreateKey_again:
  "sn_readable env \<Longrightarrow> stored_key (vt_keyfile v) = Some k \<Longrightarrow> loadOrCreateKey env v = (Inr k, v)"
  by (simp add: loadOrCreateKey_def)

lemma secret_row:
  fixes env :: secret_env and ot oi kind backend :: string and blob :: sqlval
  defines "r \<equiv> make_row ''secrets'' (secret_cols env ot oi kind backend blob)"
  shows "r ''id'' = Text (sn_uuid env)" "row_not_null ''secrets'' r" "row_references d ''secrets'' r"
    "text_col ''storage_backend'' r = backend" "row_account r i = keychainAccount ot oi kind i" "r ''encrypted_blob'' = blob"
proof -
  note cols = r_def secret_cols_def make_row_def column_defaults_def rfc3339_def
  show "r ''id'' = Text (sn_uuid env)" "text_col ''storage_backend'' r = backend" "r ''encrypted_blob'' = blob"
    by (simp_all add: cols text_col_def)
  show "row_not_null ''secrets'' r" by (simp add: row_not_null_def not_null_cols_def required_cols_def cols)
  show "row_references d ''secrets'' r" by (simp add: row_references_def foreign_keys_def)
  show "row_account r i = keychainAccount ot oi kind i" by (simp add: row_account_def cols text_col_def)
qed

text \<open>A put that succeeds: what it stored, and where.\<close>

lemma choose_backend_db: "vt_db (snd (choose_backend env a val v)) = vt_db v"
  by (auto simp: choose_backend_def osKeychainSet_def osKeychainDelete_def secret_encrypt_def loadOrCreateKey_def Let_def
      split: option.splits sum.splits prod.splits if_splits)

lemma secret_insert:
  assumes "faults d = []" "\<not> (\<exists>r \<in> set (tables d ''secrets''). by_id (sn_uuid env) r)"
  shows "sql_insert ''secrets'' (secret_cols env ot oi kind backend blob) d =
    (Inr (), with_table ''secrets'' (tables d ''secrets'' @ [make_row ''secrets'' (secret_cols env ot oi kind backend blob)]) d)"
  by (rule insert_fresh [OF assms(1) _ refl secret_row(1) assms(2) secret_row(2,3)]) (simp add: unique_cols_def)

lemma secret_Put_nofault:
  assumes "faults (vt_db v) = []" "\<not> (\<exists>r \<in> set (tables (vt_db v) ''secrets''). by_id (sn_uuid env) r)"
  shows "secret_Put env ot oi kind val v =
    (case choose_backend env (keychainAccount ot oi kind (sn_uuid env)) val v of
       (Inl e, v1) \<Rightarrow> (Inl e, v1)
     | (Inr (backend, blob), v1) \<Rightarrow>
         (Inr (sn_uuid env), v1\<lparr> vt_db := with_table ''secrets'' (tables (vt_db v) ''secrets'' @
            [make_row ''secrets'' (secret_cols env ot oi kind backend blob)]) (vt_db v) \<rparr>))"
proof -
  obtain r v1 where c: "choose_backend env (keychainAccount ot oi kind (sn_uuid env)) val v = (r, v1)" by force
  then have "vt_db v1 = vt_db v" using choose_backend_db by (metis snd_conv)
  then show ?thesis
    unfolding secret_Put_def Let_def c by (auto simp: on_vault_db_def secret_insert [OF assms] split: sum.split)
qed

lemma secret_lookup_last:
  assumes "faults (vt_db v) = []" "tables (vt_db v) ''secrets'' = rs @ [r]" "\<not> (\<exists>x \<in> set rs. by_id ref x)" "r ''id'' = Text ref"
  shows "secret_lookup ref v = (Inr r, v)"
proof -
  have "filter (by_id ref) rs = []" using assms(3) by (simp add: filter_empty_conv)
  moreover have "by_id ref r" using assms(4) by (simp add: by_id_def)
  ultimately show ?thesis using assms(1,2) by (simp add: secret_lookup_def on_vault_db_def sql_query_row_nofault)
qed

text \<open>A secret that was put is read back as long as its row, the keychain and the key file stay.\<close>

lemma secret_reads_back:
  assumes "faults (vt_db v) = []" "\<not> (\<exists>r \<in> set (tables (vt_db v) ''secrets''). by_id (sn_uuid env) r)"
    and "secret_Put env ot oi kind val v = (Inr ref, v')"
    and "opens_what_it_sealed (sn_aead env)" "sn_aead env' = sn_aead env" "sn_readable env'" "sn_find env' = None" "prints_text (sn_prints env')"
    and "\<forall>r. sn_key env = Inr r \<longrightarrow> length r = 32" "\<forall>r. sn_nonce env = Inr r \<longrightarrow> length r = nonceSize"
    and "faults (vt_db v'') = []" "tables (vt_db v'') ''secrets'' = tables (vt_db v') ''secrets''"
    "vt_keychain v'' = vt_keychain v'" "vt_keyfile v'' = vt_keyfile v'"
  shows "secret_Get env' ref v'' = (Inr (given_back env env' val), v'')"
proof -
  let ?a = "keychainAccount ot oi kind (sn_uuid env)"
  obtain backend blob v1 where c: "choose_backend env ?a val v = (Inr (backend, blob), v1)"
    using assms(3) by (cases "choose_backend env ?a val v") (auto simp: secret_Put_nofault [OF assms(1,2)] split: sum.splits)
  let ?r = "make_row ''secrets'' (secret_cols env ot oi kind backend blob)"
  have v': "ref = sn_uuid env" "tables (vt_db v') ''secrets'' = tables (vt_db v) ''secrets'' @ [?r]"
    "vt_keychain v' = vt_keychain v1" "vt_keyfile v' = vt_keyfile v1"
    using assms(3) c by (auto simp: secret_Put_nofault [OF assms(1,2)])
  have look: "secret_lookup ref v'' = (Inr ?r, v'')"
    using assms(2,12) v'(1,2) by (intro secret_lookup_last [OF assms(11)]) (simp_all add: secret_row(1))
  show ?thesis
  proof (cases "sn_add env")
    case None
    then have "backend = backendOSKeychain" "vt_keychain v'' (keychainAccount ot oi kind ref) = Some val"
      using c v' assms(13) by (auto simp: choose_backend_def osKeychainSet_def Let_def)
    then show ?thesis
      using None assms(7) by (simp add: secret_Get_def look secret_row(4,5) osKeychainGet_def given_back_keychain assms(8))
  next
    case (Some msg)
    define v0 where "v0 = osKeychainDelete env ?a v"
    have "\<exists>enc. secret_encrypt env val v0 = (Inr enc, v1) \<and> backend = backendEncryptedBlob \<and> blob = Blob enc"
      using c Some by (auto simp: choose_backend_def osKeychainSet_def Let_def v0_def split: sum.splits prod.splits)
    then obtain enc where enc: "secret_encrypt env val v0 = (Inr enc, v1)" "backend = backendEncryptedBlob" "blob = Blob enc" by blast
    then obtain k nonce where k: "loadOrCreateKey env v0 = (Inr k, v1)" "sn_nonce env = Inr nonce"
      "enc = nonce @ gcm_seal (sn_aead env) k nonce val"
      by (auto simp: secret_encrypt_def split: sum.splits prod.splits)
    note key = loadOrCreateKey_ok [OF k(1) assms(9)]
    have n: "length nonce = nonceSize" using assms(10) k(2) by simp
    have again: "loadOrCreateKey env' v'' = (Inr k, v'')"
      using key(4) v'(4) assms(6,14) by (intro loadOrCreateKey_again) simp_all
    have "blob_col ''encrypted_blob'' ?r = enc" by (simp add: blob_col_def secret_row(6) enc(3))
    moreover have "secret_decrypt env' enc v'' = (Inr val, v'')"
      using assms(4,5) n key(1) by (simp add: secret_decrypt_def again k(3) opens_what_it_sealed_def)
    moreover have "backendEncryptedBlob \<noteq> backendOSKeychain" by (simp add: backendEncryptedBlob_def backendOSKeychain_def)
    ultimately show ?thesis using Some by (simp add: secret_Get_def look secret_row(4) enc(2) given_back_simps)
  qed
qed

text \<open>A secret that was stored comes back byte for byte from the encrypted column, and from the keychain if
  it is a line of printable characters.  Of any other value in the keychain, such as the lines of a private
  key, comes back what the tool prints, without the line feeds at its end.\<close>

theorem stored_secret_comes_back:
  assumes "faults (vt_db v) = []" "\<not> (\<exists>r \<in> set (tables (vt_db v) ''secrets''). by_id (sn_uuid env) r)"
    and "secret_Put env ot oi kind val v = (Inr ref, v')"
    and "opens_what_it_sealed (sn_aead env)" "sn_aead env' = sn_aead env" "sn_readable env'" "sn_find env' = None" "prints_text (sn_prints env')"
    and "\<forall>r. sn_key env = Inr r \<longrightarrow> length r = 32" "\<forall>r. sn_nonce env = Inr r \<longrightarrow> length r = nonceSize"
  shows "secret_Get env' ref v' =
    (Inr (if sn_add env = None \<and> \<not> printable val then trim_newlines (sn_prints env' val) else val), v')"
proof -
  have "faults (vt_db v') = []"
    using assms(3) by (auto simp: secret_Put_nofault [OF assms(1,2)] assms(1) split: prod.splits sum.splits)
  then show ?thesis unfolding given_back_def [symmetric] by (intro secret_reads_back [OF assms]) simp_all
qed

text \<open>A delete that meets no fault removes the row, whatever the keychain tool does, and the keychain entry of the row.\<close>

definition keychain_entry :: "vault \<Rightarrow> string \<Rightarrow> string \<Rightarrow> bool" where
  "keychain_entry v ref a \<longleftrightarrow>
     (case filter (by_id ref) (tables (vt_db v) ''secrets'') of
        [] \<Rightarrow> False | r # _ \<Rightarrow> text_col ''storage_backend'' r = backendOSKeychain \<and> row_account r ref = a)"

lemma secret_Delete_nofault:
  assumes "faults (vt_db v) = []"
  shows "\<exists>kc. secret_Delete env ref v =
      (Inr (), v\<lparr> vt_keychain := kc, vt_db := with_table ''secrets'' (filter (\<lambda>r. \<not> by_id ref r) (tables (vt_db v) ''secrets'')) (vt_db v) \<rparr>) \<and>
    (\<forall>a. kc a = (if keychain_entry v ref a \<and> sn_del env then None else vt_keychain v a))"
proof (cases "filter (by_id ref) (tables (vt_db v) ''secrets'')")
  case Nil
  then have "filter (\<lambda>r. \<not> by_id ref r) (tables (vt_db v) ''secrets'') = tables (vt_db v) ''secrets''"
    by (simp add: filter_empty_conv filter_id_conv)
  moreover have "secret_lookup ref v = (Inl SecretNotFound, v)"
    using Nil assms by (simp add: secret_lookup_def on_vault_db_def sql_query_row_nofault)
  ultimately show ?thesis using Nil by (intro exI [of _ "vt_keychain v"]) (simp add: secret_Delete_def keychain_entry_def)
next
  case (Cons r rs)
  then have look: "secret_lookup ref v = (Inr r, v)"
    using assms by (simp add: secret_lookup_def on_vault_db_def sql_query_row_nofault)
  define v2 where "v2 = (if text_col ''storage_backend'' r = backendOSKeychain then osKeychainDelete env (row_account r ref) v else v)"
  have v2: "vt_db v2 = vt_db v" "vt_keyfile v2 = vt_keyfile v"
    "vt_keychain v2 a = (if keychain_entry v ref a \<and> sn_del env then None else vt_keychain v a)" for a
    by (simp_all add: v2_def osKeychainDelete_def keychain_entry_def Cons)
  have "\<not> referenced_by d ''secrets'' x" for d x by (simp add: referenced_by_def foreign_keys_def)
  then have "secret_Delete env ref v =
      (Inr (), v2\<lparr> vt_db := with_table ''secrets'' (filter (\<lambda>r. \<not> by_id ref r) (tables (vt_db v) ''secrets'')) (vt_db v) \<rparr>)"
    using assms by (simp add: secret_Delete_def look Let_def v2_def [symmetric] on_vault_db_def v2(1,2) sql_delete_nofault raw_delete_def)
  moreover have "v2\<lparr> vt_db := e \<rparr> = v\<lparr> vt_keychain := vt_keychain v2, vt_db := e \<rparr>" for e
    by (rule vault.equality) (simp_all add: v2(1,2))
  ultimately show ?thesis using v2(3) by (intro exI [of _ "vt_keychain v2"]) simp
qed

text \<open>A key file that cannot be read, even for a moment, is replaced: reading a secret then fails, and the
  attempt overwrites the key file with a fresh key, so the secret can never be read again, although
  the old key was on disk all the time.\<close>

theorem unreadable_key_file_destroys_secrets:
  assumes "secret_lookup ref v = (Inr r, v)" "text_col ''storage_backend'' r = backendEncryptedBlob"
    and "blob_col ''encrypted_blob'' r = nonce @ gcm_seal (sn_aead env) k nonce val" "length nonce = nonceSize"
    and "rejects_other_keys (sn_aead env)" "\<not> sn_readable env"
    and "sn_key env = Inr fresh" "length k = 32" "length fresh = 32" "fresh \<noteq> k" "sn_mkdir env = None" "sn_write env = None"
  shows "\<exists>v'. secret_Get env ref v = (Inl OpenFailed, v') \<and> vt_keyfile v' = Some (Std_Encode fresh) \<and>
    (\<forall>env'. sn_aead env' = sn_aead env \<longrightarrow> sn_readable env' \<longrightarrow> secret_Get env' ref v' = (Inl OpenFailed, v'))"
proof -
  define v' where "v' = v\<lparr> vt_keyfile := Some (Std_Encode fresh) \<rparr>"
  have b: "backendEncryptedBlob \<noteq> backendOSKeychain" by (simp add: backendEncryptedBlob_def backendOSKeychain_def)
  have load: "loadOrCreateKey env v = (Inr fresh, v')"
    using assms(6,7,11,12) by (simp add: loadOrCreateKey_def v'_def)
  have bad: "gcm_open (sn_aead env) fresh nonce (gcm_seal (sn_aead env) k nonce val) = None"
    using assms(5,8,9,10) by (simp add: rejects_other_keys_def)
  have "secret_Get env ref v = (Inl OpenFailed, v')"
    using assms(1-4) b bad by (simp add: secret_Get_def secret_decrypt_def load)
  moreover have "secret_lookup ref v' = (Inr r, v')"
  proof -
    have "sql_query_row ''secrets'' (by_id ref) (vt_db v) = (Inr r, vt_db v)"
      using assms(1) by (cases v) (auto simp: secret_lookup_def on_vault_db_def split: prod.splits sum.splits sql_error.splits)
    then show ?thesis by (simp add: secret_lookup_def on_vault_db_def v'_def)
  qed
  then have "secret_Get env' ref v' = (Inl OpenFailed, v')" if "sn_aead env' = sn_aead env" "sn_readable env'" for env'
  proof -
    have "loadOrCreateKey env' v' = (Inr fresh, v')"
      using that(2) stored_key_encode [OF assms(9)] by (intro loadOrCreateKey_again) (simp_all add: v'_def)
    then show ?thesis
      using that(1) assms(2-4) b bad \<open>secret_lookup ref v' = (Inr r, v')\<close> by (simp add: secret_Get_def secret_decrypt_def)
  qed
  ultimately show ?thesis by (intro exI [of _ v']) (simp add: v'_def)
qed


section \<open>Concrete runs\<close>

text \<open>A cipher that prefixes the key stands for AES-GCM.\<close>

definition toy_aead :: aead where
  "toy_aead = \<lparr> gcm_seal = (\<lambda>k n m. k @ m), gcm_open = (\<lambda>k n c. if take 32 c = k then Some (drop 32 c) else None) \<rparr>"

lemma toy_aead_laws: "opens_what_it_sealed toy_aead" "rejects_other_keys toy_aead"
  by (auto simp: toy_aead_def opens_what_it_sealed_def rejects_other_keys_def)

definition demo_secret_env :: secret_env where
  "demo_secret_env = \<lparr> sn_aead = toy_aead, sn_uuid = ''s1'', sn_now = 0, sn_key = Inr (replicate 32 CHR 0x41),
     sn_nonce = Inr (replicate 12 CHR 0x42), sn_add = Some ''no keychain'', sn_find = None,
     sn_prints = (\<lambda>b. (if printable b then b else concat (map (\<lambda>c. if of_char c < (16::nat) then ''0a'' else ''2d'') b)) @ [CHR 0x0A]), sn_del = False,
     sn_readable = True, sn_mkdir = None, sn_write = None \<rparr>"

definition empty_secrets :: db where
  "empty_secrets = \<lparr> tables = (\<lambda>_. []), faults = [] \<rparr>"

definition demo_vault :: vault where
  "demo_vault = \<lparr> vt_db = empty_secrets, vt_keychain = Map.empty, vt_keyfile = None \<rparr>"

definition demo_secret_row :: row where
  "demo_secret_row = make_row ''secrets'' (secret_cols demo_secret_env ''server'' ''srv'' ''ssh_key'' backendEncryptedBlob
     (Blob (replicate 12 CHR 0x42 @ replicate 32 CHR 0x41 @ ''pem'')))"

definition demo_put :: vault where
  "demo_put = demo_vault\<lparr> vt_keyfile := Some (Std_Encode (replicate 32 CHR 0x41)),
     vt_db := with_table ''secrets'' [demo_secret_row] empty_secrets \<rparr>"

lemma demo_env_sels [simp]:
  "sn_aead demo_secret_env = toy_aead" "sn_uuid demo_secret_env = ''s1''" "sn_key demo_secret_env = Inr (replicate 32 CHR 0x41)"
  "sn_nonce demo_secret_env = Inr (replicate 12 CHR 0x42)" "sn_add demo_secret_env = Some ''no keychain''"
  "sn_find demo_secret_env = None" "\<not> sn_del demo_secret_env" "sn_readable demo_secret_env" "sn_mkdir demo_secret_env = None"
  "sn_write demo_secret_env = None"
  by (simp_all add: demo_secret_env_def)

lemma demo_prints_text: "prints_text (sn_prints demo_secret_env)"
  by (simp add: prints_text_def demo_secret_env_def)

lemma demo_puts: "secret_Put demo_secret_env ''server'' ''srv'' ''ssh_key'' ''pem'' demo_vault = (Inr ''s1'', demo_put)"
proof -
  have e: "secret_encrypt demo_secret_env ''pem'' demo_vault =
      (Inr (replicate 12 CHR 0x42 @ replicate 32 CHR 0x41 @ ''pem''), demo_vault\<lparr> vt_keyfile := Some (Std_Encode (replicate 32 CHR 0x41)) \<rparr>)"
  proof -
    have "stored_key (vt_keyfile demo_vault) = None" by (simp add: demo_vault_def stored_key_def)
    then have "loadOrCreateKey demo_secret_env demo_vault =
        (Inr (replicate 32 CHR 0x41), demo_vault\<lparr> vt_keyfile := Some (Std_Encode (replicate 32 CHR 0x41)) \<rparr>)"
      by (simp add: loadOrCreateKey_def)
    then show ?thesis by (simp add: secret_encrypt_def toy_aead_def)
  qed
  have c: "choose_backend demo_secret_env a ''pem'' demo_vault =
      (Inr (backendEncryptedBlob, Blob (replicate 12 CHR 0x42 @ replicate 32 CHR 0x41 @ ''pem'')),
       demo_vault\<lparr> vt_keyfile := Some (Std_Encode (replicate 32 CHR 0x41)) \<rparr>)" for a
  proof -
    have "osKeychainSet demo_secret_env a ''pem'' demo_vault = (Some ''no keychain'', demo_vault)"
      by (simp add: osKeychainSet_def osKeychainDelete_def)
    then show ?thesis by (simp add: choose_backend_def e)
  qed
  have v: "vt_db demo_vault = empty_secrets" "tables empty_secrets ''secrets'' = []" "faults empty_secrets = []"
    by (simp_all add: demo_vault_def empty_secrets_def)
  then have f: "faults (vt_db demo_vault) = []" "\<not> (\<exists>r \<in> set (tables (vt_db demo_vault) ''secrets''). by_id (sn_uuid demo_secret_env) r)"
    by simp_all
  show ?thesis
    unfolding secret_Put_nofault [OF f] demo_env_sels c by (simp add: v demo_put_def demo_secret_row_def)
qed

theorem stored_secret_comes_back_witness:
  "secret_Get demo_secret_env ''s1'' demo_put = (Inr ''pem'', demo_put)"
proof -
  have f: "faults (vt_db demo_vault) = []" "\<not> (\<exists>r \<in> set (tables (vt_db demo_vault) ''secrets''). by_id (sn_uuid demo_secret_env) r)"
    by (simp_all add: demo_vault_def empty_secrets_def)
  have "secret_Get demo_secret_env ''s1'' demo_put =
      (Inr (if sn_add demo_secret_env = None \<and> \<not> printable ''pem'' then trim_newlines (sn_prints demo_secret_env ''pem'') else ''pem''), demo_put)"
    by (rule stored_secret_comes_back [OF f demo_puts])
      (simp_all add: toy_aead_laws nonceSize_def demo_prints_text)
  then show ?thesis by simp
qed

definition unreadable_env :: secret_env where
  "unreadable_env = demo_secret_env\<lparr> sn_readable := False, sn_key := Inr (replicate 32 CHR 0x5A) \<rparr>"

theorem unreadable_key_file_destroys_secrets_witness:
  "\<exists>v'. secret_Get unreadable_env ''s1'' demo_put = (Inl OpenFailed, v') \<and>
    secret_Get demo_secret_env ''s1'' v' = (Inl OpenFailed, v')"
proof -
  let ?n = "replicate 12 (CHR 0x42)" and ?k = "replicate 32 (CHR 0x41)" and ?f = "replicate 32 (CHR 0x5A)"
  have l: "secret_lookup ''s1'' demo_put = (Inr demo_secret_row, demo_put)"
    by (simp add: secret_lookup_def on_vault_db_def demo_put_def demo_vault_def empty_secrets_def sql_query_row_nofault by_id_def
        demo_secret_row_def secret_row(1))
  have b: "text_col ''storage_backend'' demo_secret_row = backendEncryptedBlob"
    "blob_col ''encrypted_blob'' demo_secret_row = ?n @ gcm_seal (sn_aead unreadable_env) ?k ?n ''pem''"
    by (simp_all add: demo_secret_row_def secret_row(4) blob_col_def secret_row(6) unreadable_env_def toy_aead_def)
  have e: "rejects_other_keys (sn_aead unreadable_env)" "\<not> sn_readable unreadable_env" "sn_key unreadable_env = Inr ?f"
    "sn_mkdir unreadable_env = None" "sn_write unreadable_env = None" "sn_aead demo_secret_env = sn_aead unreadable_env"
    "sn_readable demo_secret_env"
    by (simp_all add: unreadable_env_def toy_aead_laws)
  have "?f \<noteq> ?k" by (simp add: replicate_eq_replicate)
  from unreadable_key_file_destroys_secrets [OF l b _ e(1,2,3) _ _ this e(4,5)] e(6,7)
  show ?thesis by (auto simp: nonceSize_def)
qed

end
