(* ===== verification/SecretSite.thy ===== *)
theory SecretSite
  imports Handlers Secrets
begin

text \<open>
  What the handlers share that keep credentials for their rows: servers, database connections and
  integrations.  The secret goes to the secret store first, then the row is created with a reference to
  it, and if that fails the secret is deleted again; when the row goes, its secret goes.

  The state is the panel with the secret store's keychain and key file, which may be absent
  (\<open>Deps.Secrets\<close> may be \<open>nil\<close>); handlers extend it.
\<close>

record key_store =
  ks_keychain :: "string \<Rightarrow> bytes option"
  ks_keyfile :: "string option"

record secret_site =
  ss_panel :: panel
  ss_keys :: "key_store option"

abbreviation site_db :: "'z secret_site_scheme \<Rightarrow> db" where
  "site_db s \<equiv> panel_db (ss_panel s)"

definition on_panel :: "(panel \<Rightarrow> 'a \<times> panel) \<Rightarrow> 'z secret_site_scheme \<Rightarrow> 'a \<times> 'z secret_site_scheme" where
  "on_panel f s = (case f (ss_panel s) of (a, p) \<Rightarrow> (a, s\<lparr> ss_panel := p \<rparr>))"

definition vault_of :: "key_store \<Rightarrow> panel \<Rightarrow> vault" where
  "vault_of ks p = \<lparr> vt_db = panel_db p, vt_keychain = ks_keychain ks, vt_keyfile = ks_keyfile ks \<rparr>"

definition on_secrets :: "key_store \<Rightarrow> (vault \<Rightarrow> 'a \<times> vault) \<Rightarrow> 'z secret_site_scheme \<Rightarrow> 'a \<times> 'z secret_site_scheme" where
  "on_secrets ks f s =
     (case f (vault_of ks (ss_panel s)) of
        (a, v) \<Rightarrow> (a, s\<lparr> ss_panel := set_db (vt_db v) (ss_panel s),
                        ss_keys := Some \<lparr> ks_keychain = vt_keychain v, ks_keyfile = vt_keyfile v \<rparr> \<rparr>))"

text \<open>An audit record, and one that keeps a command, a query or a path.\<close>

definition site_audit :: "call \<Rightarrow> string \<Rightarrow> string \<Rightarrow> string \<Rightarrow> string \<Rightarrow> 'z secret_site_scheme \<Rightarrow> 'z secret_site_scheme" where
  "site_audit cl action targetType targetID result s = s\<lparr> ss_panel := audit cl action targetType targetID result (ss_panel s) \<rparr>"

definition audit_command ::
  "call \<Rightarrow> string \<Rightarrow> string \<Rightarrow> string \<Rightarrow> string \<Rightarrow> string \<Rightarrow> 'z secret_site_scheme \<Rightarrow> 'z secret_site_scheme" where
  "audit_command cl action targetType targetID result command s =
     s\<lparr> ss_panel := snd (on_db (sql_insert ''audit_events''
          (audit_cols (cl_audit cl) (cl_now cl) action targetType targetID result (Some command))) (ss_panel s)) \<rparr>"

section \<open>Secrets and the rows that own them\<close>

text \<open>Delete the secret of a row, if it has one and there is a store.\<close>

definition drop_secret :: "secret_env \<Rightarrow> string \<Rightarrow> 'z secret_site_scheme \<Rightarrow> 'z secret_site_scheme" where
  "drop_secret env ref s =
     (case ss_keys s of
        None \<Rightarrow> s | Some ks \<Rightarrow> if ref = [] then s else snd (on_secrets ks (secret_Delete env ref) s))"

text \<open>Store a secret for a row that will have the id \<open>ownerID\<close>, and record that.\<close>

definition store_secret ::
  "secret_env \<Rightarrow> call \<Rightarrow> string \<Rightarrow> string \<Rightarrow> string \<Rightarrow> string \<Rightarrow> bytes \<Rightarrow> key_store \<Rightarrow> 'z secret_site_scheme \<Rightarrow>
   (secret_error + string) \<times> 'z secret_site_scheme" where
  "store_secret env cl action ownerType ownerID kind val ks s =
     (case on_secrets ks (secret_Put env ownerType ownerID kind val) s of
        (r, s1) \<Rightarrow> (r, site_audit cl action ownerType ownerID (resultOf r) s1))"

text \<open>Create the row last; if that fails, the secret that was stored for it is deleted again.\<close>

definition create_owner ::
  "secret_env \<Rightarrow> call \<Rightarrow> string \<Rightarrow> string \<Rightarrow> ('a \<Rightarrow> string) \<Rightarrow> (db \<Rightarrow> ('e + 'a) \<times> db) \<Rightarrow> string \<Rightarrow> 'z secret_site_scheme \<Rightarrow>
   ('e + 'a) \<times> 'z secret_site_scheme" where
  "create_owner env cl action ownerType id_of create ref s =
     (case on_panel (on_db create) s of
        (r, s1) \<Rightarrow>
          (let s2 = site_audit cl action ownerType (case r of Inl _ \<Rightarrow> [] | Inr a \<Rightarrow> id_of a) (resultOf r) s1 in
           (r, case r of Inl _ \<Rightarrow> drop_secret env ref s2 | Inr _ \<Rightarrow> s2)))"

section \<open>What these leave of the site\<close>

lemma site_audit_frame:
  assumes "faults (site_db s) = []"
  shows "faults (site_db (site_audit cl a tt i r s)) = []"
    "t \<noteq> ''audit_events'' \<Longrightarrow> tables (site_db (site_audit cl a tt i r s)) t = tables (site_db s) t"
    "ss_keys (site_audit cl a tt i r s) = ss_keys s" "secret_site.more (site_audit cl a tt i r s) = secret_site.more s"
  using audit_frame [OF assms] by (simp_all add: site_audit_def)

lemma on_panel_db: "on_panel (on_db f) s = (fst (f (site_db s)), s\<lparr> ss_panel := set_db (snd (f (site_db s))) (ss_panel s) \<rparr>)"
  by (simp add: on_panel_def on_db_eq)

lemma audit_command_adds:
  assumes "faults (site_db s) = []" "\<not> (\<exists>r \<in> set (tables (site_db s) ''audit_events''). by_id (cl_audit cl) r)"
  shows "tables (site_db (audit_command cl a tt i r c s)) ''audit_events'' =
    tables (site_db s) ''audit_events'' @ [make_row ''audit_events'' (audit_cols (cl_audit cl) (cl_now cl) a tt i r (Some c))]"
proof -
  let ?c = "audit_cols (cl_audit cl) (cl_now cl) a tt i r (Some c)"
  have "sql_insert ''audit_events'' ?c (site_db s) =
      (Inr (), with_table ''audit_events'' (tables (site_db s) ''audit_events'' @ [make_row ''audit_events'' ?c]) (site_db s))"
    by (rule insert_fresh [OF assms(1) _ refl _ assms(2)])
      (simp_all add: unique_cols_def audit_cols_def make_row_def row_not_null_def not_null_cols_def required_cols_def
        column_defaults_def rfc3339_def row_references_def foreign_keys_def)
  then show ?thesis by (simp add: audit_command_def on_db_eq)
qed

text \<open>Deleting a secret removes its row and its keychain entry, and nothing else.\<close>

lemma drop_secret_keeps:
  assumes "faults (site_db s) = []" "ss_keys s = Some ks"
  shows "\<exists>kc. ss_keys (drop_secret env ref s) = Some (ks\<lparr> ks_keychain := kc \<rparr>) \<and>
    (\<forall>a. kc a = (if ref \<noteq> [] \<and> keychain_entry (vault_of ks (ss_panel s)) ref a \<and> sn_del env then None else ks_keychain ks a)) \<and>
    site_db (drop_secret env ref s) = (if ref = [] then site_db s
      else with_table ''secrets'' (filter (\<lambda>r. \<not> by_id ref r) (tables (site_db s) ''secrets'')) (site_db s))"
proof (cases "ref = []")
  case True
  then show ?thesis using assms(2) by (intro exI [of _ "ks_keychain ks"]) (simp add: drop_secret_def)
next
  case False
  define v where "v = vault_of ks (ss_panel s)"
  have v: "vt_db v = site_db s" "vt_keychain v = ks_keychain ks" "vt_keyfile v = ks_keyfile ks"
    by (simp_all add: v_def vault_of_def)
  then obtain kc where kc: "secret_Delete env ref v =
      (Inr (), v\<lparr> vt_keychain := kc, vt_db := with_table ''secrets'' (filter (\<lambda>r. \<not> by_id ref r) (tables (vt_db v) ''secrets'')) (vt_db v) \<rparr>)"
    "\<forall>a. kc a = (if keychain_entry v ref a \<and> sn_del env then None else vt_keychain v a)"
    using secret_Delete_nofault [of v env ref] assms(1) by auto
  have "drop_secret env ref s = s\<lparr> ss_panel := set_db (with_table ''secrets'' (filter (\<lambda>r. \<not> by_id ref r) (tables (vt_db v) ''secrets'')) (vt_db v)) (ss_panel s),
      ss_keys := Some (ks\<lparr> ks_keychain := kc \<rparr>) \<rparr>"
    using False by (simp add: drop_secret_def assms(2) on_secrets_def v_def [symmetric] kc(1)) (simp add: v)
  then show ?thesis
    using kc(2) False by (intro exI [of _ kc]) (simp add: v v_def [symmetric])
qed

lemma choose_backend_keychain:
  assumes "choose_backend env account val v = (r, v')" "sn_del env"
  shows "a \<noteq> account \<Longrightarrow> vt_keychain v' a = vt_keychain v a" "isl r \<Longrightarrow> vt_keychain v' account = None"
    "r = Inr (backend, blob) \<Longrightarrow> backend \<noteq> backendOSKeychain \<Longrightarrow> vt_keychain v' account = None"
  using assms
  by (auto simp: choose_backend_def osKeychainSet_def osKeychainDelete_def secret_encrypt_def loadOrCreateKey_def Let_def
      split: option.splits sum.splits prod.splits if_splits)

text \<open>A later keychain has no entry of its own.\<close>

definition no_new_entries :: "key_store \<Rightarrow> key_store \<Rightarrow> bool" where
  "no_new_entries ks ks' \<longleftrightarrow> (\<forall>a. ks_keychain ks' a = None \<or> ks_keychain ks' a = ks_keychain ks a)"

lemma no_new_entries_refl [simp]: "no_new_entries ks ks"
  by (simp add: no_new_entries_def)

text \<open>
  What a put leaves, apart from the audit log: nothing if it is refused, and otherwise one new row under
  the fresh id, and nothing new in the keychain but the entry of that row.
\<close>

definition secret_refused :: "key_store \<Rightarrow> 'z secret_site_scheme \<Rightarrow> 'z secret_site_scheme \<Rightarrow> bool" where
  "secret_refused ks s s1 \<longleftrightarrow>
     (\<exists>ks1. ss_keys s1 = Some ks1 \<and> no_new_entries ks ks1) \<and> faults (site_db s1) = [] \<and>
     (\<forall>t. t \<noteq> ''audit_events'' \<longrightarrow> tables (site_db s1) t = tables (site_db s) t)"

definition secret_held :: "key_store \<Rightarrow> 'z secret_site_scheme \<Rightarrow> string \<Rightarrow> 'z secret_site_scheme \<Rightarrow> bool" where
  "secret_held ks s ref s1 \<longleftrightarrow>
     (\<exists>ks1. ss_keys s1 = Some ks1 \<and>
       (\<forall>a. ks_keychain ks1 a = None \<or> ks_keychain ks1 a = ks_keychain ks a \<or> keychain_entry (vault_of ks1 (ss_panel s1)) ref a)) \<and>
     faults (site_db s1) = [] \<and>
     (\<exists>row. tables (site_db s1) ''secrets'' = tables (site_db s) ''secrets'' @ [row] \<and> by_id ref row) \<and>
     (\<forall>t. t \<notin> {''audit_events'', ''secrets''} \<longrightarrow> tables (site_db s1) t = tables (site_db s) t)"

lemma put_secret:
  assumes "faults (site_db s) = []" "sn_del env" "on_secrets ks (secret_Put env ot oi kind val) s = (r, s1)"
    and "\<not> (\<exists>x \<in> set (tables (site_db s) ''secrets''). by_id (sn_uuid env) x)"
  shows "case r of Inl e \<Rightarrow> secret_refused ks s s1 | Inr ref \<Rightarrow> ref = sn_uuid env \<and> secret_held ks s ref s1"
proof -
  let ?d = "site_db s" and ?a = "keychainAccount ot oi kind (sn_uuid env)"
  define v where "v = vault_of ks (ss_panel s)"
  obtain rc v1 where c: "choose_backend env ?a val v = (rc, v1)" by force
  have v: "vt_db v = ?d" "vt_db v1 = ?d" "vt_keychain v = ks_keychain ks"
    using choose_backend_db [of env ?a val v] c by (simp_all add: v_def vault_of_def)
  note kc = choose_backend_keychain [OF c assms(2)]
  note put = secret_Put_nofault [of v env ot oi kind val, unfolded v c prod.case, OF assms(1,4)]
  show ?thesis
  proof (cases rc)
    case (Inl e1)
    then have "secret_Put env ot oi kind val v = (Inl e1, v1)" by (simp add: put)
    then have s1: "r = Inl e1" "s1 = s\<lparr> ss_panel := set_db ?d (ss_panel s), ss_keys := Some \<lparr> ks_keychain = vt_keychain v1, ks_keyfile = vt_keyfile v1 \<rparr> \<rparr>"
      using assms(3) v(2) by (simp_all add: on_secrets_def v_def [symmetric])
    have "vt_keychain v1 a = None \<or> vt_keychain v1 a = ks_keychain ks a" for a
      using kc(1) kc(2) Inl v(3) by (cases "a = ?a") simp_all
    then show ?thesis using assms(1) by (simp add: s1 secret_refused_def no_new_entries_def)
  next
    case (Inr bb)
    obtain backend blob where bb: "bb = (backend, blob)" by force
    let ?row = "make_row ''secrets'' (secret_cols env ot oi kind backend blob)"
    let ?d1 = "with_table ''secrets'' (tables ?d ''secrets'' @ [?row]) ?d"
    define ks1 where "ks1 = \<lparr> ks_keychain = vt_keychain v1, ks_keyfile = vt_keyfile v1 \<rparr>"
    have "secret_Put env ot oi kind val v = (Inr (sn_uuid env), v1\<lparr> vt_db := ?d1 \<rparr>)" by (simp add: put Inr bb)
    then have s1: "r = Inr (sn_uuid env)" "s1 = s\<lparr> ss_panel := set_db ?d1 (ss_panel s), ss_keys := Some ks1 \<rparr>"
      using assms(3) by (simp_all add: on_secrets_def v_def [symmetric] ks1_def)
    have row: "by_id (sn_uuid env) ?row" by (simp add: by_id_def secret_row(1))
    have "vt_keychain v1 a = None \<or> vt_keychain v1 a = ks_keychain ks a \<or> keychain_entry (vault_of ks1 (ss_panel s1)) (sn_uuid env) a" for a
    proof (cases "a = ?a \<and> backend = backendOSKeychain")
      case True
      have "filter (by_id (sn_uuid env)) (tables ?d ''secrets'') = []" using assms(4) by (simp add: filter_empty_conv)
      then show ?thesis using True row by (simp add: keychain_entry_def vault_of_def secret_row(4,5) s1)
    next
      case False
      then show ?thesis using kc(1) [of a] kc(3) [of backend blob] Inr bb v(3) by (cases "a = ?a") simp_all
    qed
    then show ?thesis using assms(1) row by (simp add: s1(1) secret_held_def) (simp add: s1(2) ks1_def)
  qed
qed

lemma put_secret_faults:
  assumes "faults (site_db s) = []" "on_secrets ks (secret_Put env ot oi kind val) s = (r, s1)"
    and "\<not> (\<exists>x \<in> set (tables (site_db s) ''secrets''). by_id (sn_uuid env) x)"
  shows "faults (site_db s1) = []"
proof -
  define v where "v = vault_of ks (ss_panel s)"
  have v: "faults (vt_db v) = []" "\<not> (\<exists>r \<in> set (tables (vt_db v) ''secrets''). by_id (sn_uuid env) r)"
    using assms(1,3) by (simp_all add: v_def vault_of_def)
  obtain v' where p: "secret_Put env ot oi kind val v = (r, v')" "site_db s1 = vt_db v'"
    using assms(2) by (auto simp: on_secrets_def v_def [symmetric] split: prod.splits)
  have "faults (vt_db v') = []"
    using p(1) choose_backend_db [of env "keychainAccount ot oi kind (sn_uuid env)" val v] v(1)
    by (auto simp: secret_Put_nofault [OF v] split: prod.splits sum.splits)
  then show ?thesis by (simp add: p(2))
qed

text \<open>An audit record changes nothing of this.\<close>

lemma audited_secret:
  assumes "faults (site_db s1) = []"
  shows "secret_refused ks s s1 \<Longrightarrow> secret_refused ks s (site_audit cl a tt i r s1)"
    "secret_held ks s ref s1 \<Longrightarrow> secret_held ks s ref (site_audit cl a tt i r s1)"
proof -
  note au = site_audit_frame [OF assms, where cl = cl and a = a and tt = tt and i = i and r = r]
  show "secret_refused ks s s1 \<Longrightarrow> secret_refused ks s (site_audit cl a tt i r s1)"
    by (simp add: secret_refused_def au)
  have "keychain_entry (vault_of ks1 (ss_panel (site_audit cl a tt i r s1))) ref' a' = keychain_entry (vault_of ks1 (ss_panel s1)) ref' a'" for ks1 ref' a'
    using au(2) [of "''secrets''"] by (simp add: keychain_entry_def vault_of_def)
  then show "secret_held ks s ref s1 \<Longrightarrow> secret_held ks s ref (site_audit cl a tt i r s1)"
    using au(2) [of "''secrets''"] by (simp add: secret_held_def au)
qed

lemma store_secretE:
  assumes "store_secret env cl a ot oi kind val ks s = (r, s1)"
  obtains s0 where "on_secrets ks (secret_Put env ot oi kind val) s = (r, s0)" "s1 = site_audit cl a ot oi (resultOf r) s0"
  using assms by (auto simp: store_secret_def split: prod.splits)

lemma stored_secret:
  assumes "faults (site_db s) = []" "sn_del env" "store_secret env cl a ot oi kind val ks s = (r, s1)"
    and "\<not> (\<exists>x \<in> set (tables (site_db s) ''secrets''). by_id (sn_uuid env) x)"
  shows "case r of Inl e \<Rightarrow> secret_refused ks s s1 | Inr ref \<Rightarrow> ref = sn_uuid env \<and> secret_held ks s ref s1"
proof -
  obtain s0 where p: "on_secrets ks (secret_Put env ot oi kind val) s = (r, s0)" "s1 = site_audit cl a ot oi (resultOf r) s0"
    by (rule store_secretE [OF assms(3)])
  note ps = put_secret [OF assms(1,2) p(1) assms(4)]
  then have "faults (site_db s0) = []" by (auto simp: secret_refused_def secret_held_def split: sum.splits)
  with ps show ?thesis unfolding p(2) by (auto split: sum.splits intro: audited_secret)
qed

text \<open>A secret that was put is read back from any later site with the same secrets, keychain and key file.\<close>

lemma put_secret_reads_back:
  assumes "faults (site_db s) = []" "\<not> (\<exists>r \<in> set (tables (site_db s) ''secrets''). by_id (sn_uuid env) r)"
    and "on_secrets ks (secret_Put env ot oi kind val) s = (Inr ref, s1)"
    and "opens_what_it_sealed (sn_aead env)" "sn_aead env' = sn_aead env" "sn_readable env'" "sn_find env' = None" "prints_text (sn_prints env')"
    and "\<forall>r. sn_key env = Inr r \<longrightarrow> length r = 32" "\<forall>r. sn_nonce env = Inr r \<longrightarrow> length r = nonceSize"
    and "ss_keys s' = ss_keys s1" "faults (site_db s') = []" "tables (site_db s') ''secrets'' = tables (site_db s1) ''secrets''"
  shows "\<exists>ks'. ss_keys s' = Some ks' \<and>
    secret_Get env' ref (vault_of ks' (ss_panel s')) = (Inr (given_back env env' val), vault_of ks' (ss_panel s'))"
proof -
  define v where "v = vault_of ks (ss_panel s)"
  obtain r' v' where p: "secret_Put env ot oi kind val v = (r', v')" by force
  have v: "faults (vt_db v) = []" "\<not> (\<exists>r \<in> set (tables (vt_db v) ''secrets''). by_id (sn_uuid env) r)"
    using assms(1,2) by (simp_all add: v_def vault_of_def)
  define ks' where "ks' = \<lparr> ks_keychain = vt_keychain v', ks_keyfile = vt_keyfile v' \<rparr>"
  have s1: "r' = Inr ref" "s1 = s\<lparr> ss_panel := set_db (vt_db v') (ss_panel s), ss_keys := Some ks' \<rparr>"
    using assms(3) by (simp_all add: on_secrets_def v_def [symmetric] p ks'_def)
  have "secret_Get env' ref (vault_of ks' (ss_panel s')) =
      (Inr (given_back env env' val), vault_of ks' (ss_panel s'))"
    using p assms(12,13) by (intro secret_reads_back [OF v _ assms(4-10), where ref = ref and v' = v']) (simp_all add: s1 vault_of_def ks'_def)
  then show ?thesis using assms(11) by (simp add: s1(2))
qed

lemma create_ownerE:
  assumes "create_owner env cl act tt id_of create ref s = (Inr a, s')"
  obtains d' where "create (site_db s) = (Inr a, d')"
    "s' = site_audit cl act tt (id_of a) ''ok'' (s\<lparr> ss_panel := set_db d' (ss_panel s) \<rparr>)"
  using assms by (cases "create (site_db s)") (auto simp: create_owner_def on_panel_db Let_def resultOf_def)

section \<open>The contract of a repository whose rows own secrets\<close>

text \<open>
  A \<open>Create\<close> that fails changes nothing, and one that succeeds changes its own table only.  Whatever the
  repository, a creation that fails then leaves no trace of the secret, and one that succeeds keeps it.
\<close>

locale secret_owner =
  fixes create :: "db \<Rightarrow> ('e + 'a) \<times> db" and owner_table :: string
  assumes create_refused: "faults d = [] \<Longrightarrow> create d = (Inl e, d') \<Longrightarrow> d' = d"
    and create_done: "faults d = [] \<Longrightarrow> create d = (Inr a, d') \<Longrightarrow> only_touches {owner_table} d d'"
    and own_table: "owner_table \<notin> {''secrets'', ''audit_events''}"
begin

lemma created_keeps_secrets:
  assumes "faults (site_db s) = []" "create_owner env cl act tt id_of create ref s = (Inr a, s')"
  shows "fst (create (site_db s)) = Inr a" "ss_keys s' = ss_keys s" "faults (site_db s') = []"
    "tables (site_db s') ''secrets'' = tables (site_db s) ''secrets''"
proof -
  obtain d' where c: "create (site_db s) = (Inr a, d')"
    and s': "s' = site_audit cl act tt (id_of a) ''ok'' (s\<lparr> ss_panel := set_db d' (ss_panel s) \<rparr>)"
    by (rule create_ownerE [OF assms(2)])
  note d' = only_touchesD [OF create_done [OF assms(1) c] assms(1)]
  define s1 where "s1 = s\<lparr> ss_panel := set_db d' (ss_panel s) \<rparr>"
  have f: "faults (site_db s1) = []" using d'(1) by (simp add: s1_def)
  note s' = s' [folded s1_def]
  show "fst (create (site_db s)) = Inr a" by (simp add: c)
  show "ss_keys s' = ss_keys s" "faults (site_db s') = []"
    using site_audit_frame [OF f] by (simp_all add: s' s1_def)
  have "''secrets'' \<notin> {owner_table}" using own_table by auto
  then show "tables (site_db s') ''secrets'' = tables (site_db s) ''secrets''"
    using site_audit_frame(2) [OF f, of "''secrets''"] d'(2) [of "''secrets''"] by (simp add: s' s1_def)
qed

lemma refused_drops_secret:
  assumes "create_owner env cl act tt id_of create ref s = (Inl e, s')" "faults (site_db s) = []" "ss_keys s = Some ks1" "sn_del env"
    and "\<forall>a. ks_keychain ks1 a = None \<or> ks_keychain ks1 a = ks_keychain ks a \<or>
      (ref \<noteq> [] \<and> keychain_entry (vault_of ks1 (ss_panel s)) ref a)"
  shows "(\<forall>t. t \<notin> {''secrets'', ''audit_events''} \<longrightarrow> tables (site_db s') t = tables (site_db s) t) \<and>
    tables (site_db s') ''secrets'' = (if ref = [] then tables (site_db s) ''secrets''
      else filter (\<lambda>r. \<not> by_id ref r) (tables (site_db s) ''secrets'')) \<and>
    (\<exists>ks'. ss_keys s' = Some ks' \<and> no_new_entries ks ks')"
proof -
  obtain d' where c: "create (site_db s) = (Inl e, d')"
    using assms(1) by (cases "create (site_db s)") (auto simp: create_owner_def on_panel_db Let_def)
  have d': "d' = site_db s" by (rule create_refused [OF assms(2) c])
  define s1 where "s1 = s\<lparr> ss_panel := set_db d' (ss_panel s) \<rparr>"
  define s2 where "s2 = site_audit cl act tt [] ''error'' s1"
  have f: "faults (site_db s1) = []" using assms(2) by (simp add: s1_def d')
  have s2: "faults (site_db s2) = []" "ss_keys s2 = Some ks1" "\<And>t. t \<noteq> ''audit_events'' \<Longrightarrow> tables (site_db s2) t = tables (site_db s) t"
    using site_audit_frame [OF f] assms(3) by (simp_all add: s2_def s1_def d')
  have s': "s' = drop_secret env ref s2"
    using assms(1) by (simp add: create_owner_def on_panel_db Let_def c s2_def s1_def resultOf_def)
  have "keychain_entry (vault_of ks1 (ss_panel s2)) ref a = keychain_entry (vault_of ks1 (ss_panel s)) ref a" for ref a
    using s2(3) [of "''secrets''"] by (simp add: keychain_entry_def vault_of_def)
  note kc = assms(5) [folded this]
  from drop_secret_keeps [OF s2(1,2), of env ref, folded s'] obtain kc' where
    d: "ss_keys s' = Some (ks1\<lparr> ks_keychain := kc' \<rparr>)"
    "\<forall>a. kc' a = (if ref \<noteq> [] \<and> keychain_entry (vault_of ks1 (ss_panel s2)) ref a \<and> sn_del env then None else ks_keychain ks1 a)"
    "site_db s' = (if ref = [] then site_db s2
      else with_table ''secrets'' (filter (\<lambda>r. \<not> by_id ref r) (tables (site_db s2) ''secrets'')) (site_db s2))"
    by blast
  have "\<forall>a. kc' a = None \<or> kc' a = ks_keychain ks a" using kc assms(4) d(2) by (metis (full_types))
  then show ?thesis using d(1,3) s2(3) by (auto simp: no_new_entries_def)
qed

text \<open>The whole of it: the secret is stored, the row is refused.\<close>

lemma refused_leaves_no_secret:
  assumes "secret_held ks s ref s1" "sn_del env" "create_owner env cl act tt id_of create ref s1 = (Inl e, s')"
    and "\<not> (\<exists>x \<in> set (tables (site_db s) ''secrets''). by_id ref x)" "ref \<noteq> []"
  shows "(\<forall>t. t \<noteq> ''audit_events'' \<longrightarrow> tables (site_db s') t = tables (site_db s) t) \<and>
    (\<exists>ks'. ss_keys s' = Some ks' \<and> no_new_entries ks ks')"
proof -
  obtain ks1 row where st: "ss_keys s1 = Some ks1" "faults (site_db s1) = []"
    "\<forall>a. ks_keychain ks1 a = None \<or> ks_keychain ks1 a = ks_keychain ks a \<or> keychain_entry (vault_of ks1 (ss_panel s1)) ref a"
    "tables (site_db s1) ''secrets'' = tables (site_db s) ''secrets'' @ [row]" "by_id ref row"
    "\<forall>t. t \<notin> {''audit_events'', ''secrets''} \<longrightarrow> tables (site_db s1) t = tables (site_db s) t"
    using assms(1) unfolding secret_held_def by (elim conjE exE) (rule that; assumption)
  have kc: "\<forall>a. ks_keychain ks1 a = None \<or> ks_keychain ks1 a = ks_keychain ks a \<or> (ref \<noteq> [] \<and> keychain_entry (vault_of ks1 (ss_panel s1)) ref a)"
    using st(3) assms(5) by auto
  note dr = refused_drops_secret [OF assms(3) st(2,1) assms(2) kc]
  have "filter (\<lambda>r. \<not> by_id ref r) (tables (site_db s1) ''secrets'') = tables (site_db s) ''secrets''"
    using st(5) assms(4) by (simp add: st(4) filter_id_conv)
  then have "tables (site_db s') ''secrets'' = tables (site_db s) ''secrets''" using dr assms(5) by simp
  moreover have "tables (site_db s') t = tables (site_db s) t" if "t \<noteq> ''secrets''" "t \<noteq> ''audit_events''" for t
    using dr [THEN conjunct1] st(6) that by simp
  ultimately have "tables (site_db s') t = tables (site_db s) t" if "t \<noteq> ''audit_events''" for t
    using that by (cases "t = ''secrets''") simp_all
  then show ?thesis using dr [THEN conjunct2, THEN conjunct2] by blast
qed

end

end
