(* ===== verification/RemoteSsh.thy ===== *)
theory RemoteSsh
  imports Servers Decimal
begin

text \<open>
  \<open>internal/providers/remote/ssh/ssh.go\<close>: the remote provider over SSH, and the session type of
  \<open>internal/providers/contract.go\<close> it fills in.

  The SSH and SFTP libraries and the network are the records \<open>ssh_world\<close> (dialling, handshake, agent,
  key parser) and \<open>ssh_client\<close> (what one connection answers).  The key resolver carries a state of its
  own, since the secret store behind it does.
\<close>

record provider_server =
  ps_ID :: string
  ps_Hostname :: string
  ps_Port :: int
  ps_Username :: string
  ps_AuthMethod :: string
  ps_SecretRef :: string

definition ToProviderServer :: "server \<Rightarrow> provider_server" where
  "ToProviderServer s =
     \<lparr> ps_ID = srv_ID s, ps_Hostname = srv_Hostname s, ps_Port = srv_Port s, ps_Username = srv_Username s,
       ps_AuthMethod = srv_AuthMethod s, ps_SecretRef = srv_SecretRef s \<rparr>"

record remote_file =
  rf_Name :: string
  rf_Path :: string
  rf_IsDir :: bool
  rf_Size :: int
  rf_Mode :: string
  rf_ModTime :: int

record remote_metrics =
  rm_Uptime :: string
  rm_LoadAverage :: string
  rm_MemTotalKB :: int
  rm_MemFreeKB :: int
  rm_Raw :: "string \<Rightarrow> string option"

datatype 'e ssh_error =
    NoAuthMethod
  | NoKeyResolver
  | KeyUnresolved 'e
  | BadKey string
  | UnsupportedAuth string
  | DialFailed string string
  | HandshakeFailed string string

datatype session_failure =
    Failure string
  | NoSession string
  | NoSftp string
  | SftpFailed string string string
  | UptimeFailed session_failure

text \<open>The text of an error, as it is wrapped.\<close>

fun failure_text :: "session_failure \<Rightarrow> string" where
  "failure_text (Failure msg) = msg"
| "failure_text (NoSession msg) = ''open ssh session: '' @ msg"
| "failure_text (NoSftp msg) = ''open sftp client: '' @ msg"
| "failure_text (SftpFailed verb path msg) = ''sftp '' @ verb @ '' '' @ path @ '': '' @ msg"
| "failure_text (UptimeFailed e) = ''uptime: '' @ failure_text e"

text \<open>A remote session, as an interface value: an output and the error, or an error in place of a result.\<close>

record remote_session =
  rs_Exec :: "string \<Rightarrow> bytes \<times> bytes \<times> session_failure option"
  rs_ListDir :: "string \<Rightarrow> session_failure + remote_file list"
  rs_ReadFile :: "string \<Rightarrow> session_failure + bytes"
  rs_WriteFile :: "string \<Rightarrow> bytes \<Rightarrow> session_failure option"
  rs_Metrics :: "session_failure + remote_metrics"

section \<open>Connecting\<close>

datatype auth = AgentKeys string | PublicKey bytes

record ssh_client =
  sc_NewSession :: "string option"
  sc_Run :: "string \<Rightarrow> bytes \<times> bytes \<times> string option"
  sc_Sftp :: "string option"
  sc_ReadDir :: "string \<Rightarrow> string + remote_file list"
  sc_Open :: "string \<Rightarrow> string option"
  sc_ReadAll :: "string \<Rightarrow> string + bytes"
  sc_Create :: "string \<Rightarrow> string option"
  sc_Write :: "string \<Rightarrow> bytes \<Rightarrow> string option"

record ssh_world =
  sw_sock_env :: string
  sw_agent :: "string \<Rightarrow> bool"
  sw_signer :: "bytes \<Rightarrow> string + bytes"
  sw_dial :: "int \<Rightarrow> string \<Rightarrow> string option"
  sw_handshake :: "string \<Rightarrow> string \<Rightarrow> auth list \<Rightarrow> bool \<Rightarrow> string + ssh_client"

text \<open>The provider: \<open>ResolveKey\<close> may be unset, and so may the host-key check, which then accepts any key.\<close>

record ('e, 'v) ssh_provider =
  sp_DialTimeout :: int
  sp_ResolveKey :: "(string \<Rightarrow> 'v \<Rightarrow> ('e + bytes) \<times> 'v) option"
  sp_AgentSocket :: string
  sp_ChecksHostKey :: bool

definition New :: "('e, 'v) ssh_provider" where
  "New = \<lparr> sp_DialTimeout = 0, sp_ResolveKey = None, sp_AgentSocket = [], sp_ChecksHostKey = False \<rparr>"

definition dialTimeout :: "('e, 'v) ssh_provider \<Rightarrow> int" where
  "dialTimeout p = (if sp_DialTimeout p > 0 then sp_DialTimeout p else 10 * second)"

definition hostKeyCallback :: "('e, 'v) ssh_provider \<Rightarrow> bool" where
  "hostKeyCallback p = sp_ChecksHostKey p"

definition portOrDefault :: "int \<Rightarrow> int" where
  "portOrDefault port = (if port \<le> 0 then 22 else port)"

text \<open>\<open>net.JoinHostPort\<close> brackets a host with a colon in it.\<close>

definition JoinHostPort :: "string \<Rightarrow> string \<Rightarrow> string" where
  "JoinHostPort host port = (if CHR '':'' \<in> set host then ''['' @ host @ '']:'' @ port else host @ '':'' @ port)"

definition agentAuth :: "ssh_world \<Rightarrow> ('e, 'v) ssh_provider \<Rightarrow> auth option" where
  "agentAuth w p =
     (let sock = (if sp_AgentSocket p = [] then sw_sock_env w else sp_AgentSocket p) in
      if sock = [] then None else if sw_agent w sock then Some (AgentKeys sock) else None)"

definition authMethods ::
  "ssh_world \<Rightarrow> ('e, 'v) ssh_provider \<Rightarrow> provider_server \<Rightarrow> 'v \<Rightarrow> ('e ssh_error + auth list) \<times> 'v" where
  "authMethods w p s v =
     (if ps_AuthMethod s = [] \<or> ps_AuthMethod s = ''agent''
      then (case agentAuth w p of None \<Rightarrow> (Inr [], v) | Some am \<Rightarrow> (Inr [am], v))
      else if ps_AuthMethod s = ''key''
      then (case sp_ResolveKey p of
              None \<Rightarrow> (Inl NoKeyResolver, v)
            | Some resolve \<Rightarrow>
               (case resolve (ps_SecretRef s) v of
                  (Inl e, v') \<Rightarrow> (Inl (KeyUnresolved e), v')
                | (Inr pem, v') \<Rightarrow>
                   (case sw_signer w pem of Inl msg \<Rightarrow> (Inl (BadKey msg), v') | Inr k \<Rightarrow> (Inr [PublicKey k], v'))))
      else (Inl (UnsupportedAuth (ps_AuthMethod s)), v))"

definition Connect ::
  "ssh_world \<Rightarrow> ('e, 'v) ssh_provider \<Rightarrow> provider_server \<Rightarrow> 'v \<Rightarrow> ('e ssh_error + ssh_client) \<times> 'v" where
  "Connect w p s v =
     (case authMethods w p s v of
        (Inl e, v') \<Rightarrow> (Inl e, v')
      | (Inr [], v') \<Rightarrow> (Inl NoAuthMethod, v')
      | (Inr (a # as), v') \<Rightarrow>
         (let addr = JoinHostPort (ps_Hostname s) (itoa (portOrDefault (ps_Port s))) in
          case sw_dial w (dialTimeout p) addr of
            Some msg \<Rightarrow> (Inl (DialFailed addr msg), v')
          | None \<Rightarrow>
             (case sw_handshake w addr (ps_Username s) (a # as) (hostKeyCallback p) of
                Inl msg \<Rightarrow> (Inl (HandshakeFailed addr msg), v') | Inr c \<Rightarrow> (Inr c, v'))))"

section \<open>The session\<close>

definition ssh_Exec :: "ssh_client \<Rightarrow> string \<Rightarrow> bytes \<times> bytes \<times> session_failure option" where
  "ssh_Exec c command =
     (case sc_NewSession c of
        Some msg \<Rightarrow> ([], [], Some (NoSession msg))
      | None \<Rightarrow> (case sc_Run c command of (out, err, r) \<Rightarrow> (out, err, map_option Failure r)))"

definition with_sftp :: "ssh_client \<Rightarrow> (session_failure + 'a) \<Rightarrow> session_failure + 'a" where
  "with_sftp c r = (case sc_Sftp c of Some msg \<Rightarrow> Inl (NoSftp msg) | None \<Rightarrow> r)"

definition joinRemotePath :: "string \<Rightarrow> string \<Rightarrow> string" where
  "joinRemotePath dir name =
     (if dir = [] \<or> dir = ''/'' then ''/'' @ name
      else rev (dropWhile (\<lambda>c. c = CHR ''/'') (rev dir)) @ ''/'' @ name)"

definition ListDir :: "ssh_client \<Rightarrow> string \<Rightarrow> session_failure + remote_file list" where
  "ListDir c dir =
     with_sftp c
       (case sc_ReadDir c dir of
          Inl msg \<Rightarrow> Inl (SftpFailed ''readdir'' dir msg)
        | Inr es \<Rightarrow> Inr (map (\<lambda>e. e\<lparr> rf_Path := joinRemotePath dir (rf_Name e) \<rparr>) es))"

definition ReadFile :: "ssh_client \<Rightarrow> string \<Rightarrow> session_failure + bytes" where
  "ReadFile c path =
     with_sftp c
       (case sc_Open c path of
          Some msg \<Rightarrow> Inl (SftpFailed ''open'' path msg)
        | None \<Rightarrow> (case sc_ReadAll c path of Inl msg \<Rightarrow> Inl (Failure msg) | Inr b \<Rightarrow> Inr b))"

definition WriteFile :: "ssh_client \<Rightarrow> string \<Rightarrow> bytes \<Rightarrow> session_failure option" where
  "WriteFile c path data =
     (case with_sftp c
             (case sc_Create c path of
                Some msg \<Rightarrow> Inl (SftpFailed ''create'' path msg)
              | None \<Rightarrow> (case sc_Write c path data of Some msg \<Rightarrow> Inl (SftpFailed ''write'' path msg) | None \<Rightarrow> Inr ())) of
        Inl e \<Rightarrow> Some e | Inr _ \<Rightarrow> None)"

definition parseLoadAverage :: "string \<Rightarrow> string" where
  "parseLoadAverage line =
     (case index_str ''load average:'' line of
        None \<Rightarrow> [] | Some i \<Rightarrow> trim_space (drop (i + length ''load average:'') line))"

text \<open>One line of \<open>/proc/meminfo\<close>: the field is kept raw, and the known ones also as numbers.\<close>

definition meminfo_line :: "string \<Rightarrow> (string \<times> string) option" where
  "meminfo_line line =
     (case str_fields line of k # v # _ \<Rightarrow> Some (trim_suffix k '':'', v) | _ \<Rightarrow> None)"

definition meminfo_field :: "string \<times> string \<Rightarrow> remote_metrics \<Rightarrow> remote_metrics" where
  "meminfo_field = (\<lambda>(key, raw) m.
     let m1 = m\<lparr> rm_Raw := (rm_Raw m)(key \<mapsto> raw) \<rparr> in
     case atoi raw of
       None \<Rightarrow> m1
     | Some v \<Rightarrow>
        (if key = ''MemTotal'' then m1\<lparr> rm_MemTotalKB := v \<rparr>
         else if key = ''MemAvailable'' then m1\<lparr> rm_MemFreeKB := v \<rparr>
         else if key = ''MemFree'' \<and> rm_MemFreeKB m1 = 0 then m1\<lparr> rm_MemFreeKB := v \<rparr>
         else m1))"

fun meminfo_lines :: "string list \<Rightarrow> remote_metrics \<Rightarrow> remote_metrics" where
  "meminfo_lines [] m = m"
| "meminfo_lines (l # ls) m =
     (case meminfo_line l of None \<Rightarrow> meminfo_lines ls m | Some f \<Rightarrow> meminfo_lines ls (meminfo_field f m))"

definition parseMemInfo :: "string \<Rightarrow> remote_metrics \<Rightarrow> remote_metrics" where
  "parseMemInfo text m = meminfo_lines (split_on (CHR 0x0A) text) m"

definition no_metrics :: remote_metrics where
  "no_metrics = \<lparr> rm_Uptime = [], rm_LoadAverage = [], rm_MemTotalKB = 0, rm_MemFreeKB = 0, rm_Raw = Map.empty \<rparr>"

definition Metrics :: "ssh_client \<Rightarrow> session_failure + remote_metrics" where
  "Metrics c =
     (case ssh_Exec c ''uptime'' of
        (_, _, Some e) \<Rightarrow> Inl (UptimeFailed e)
      | (out, _, None) \<Rightarrow>
         (let m = no_metrics\<lparr> rm_Uptime := trim_space out, rm_LoadAverage := parseLoadAverage (trim_space out) \<rparr> in
          case ssh_Exec c ''cat /proc/meminfo'' of
            (_, _, Some _) \<Rightarrow> Inr m
          | (memOut, _, None) \<Rightarrow> Inr (parseMemInfo memOut m)))"

definition session_of :: "ssh_client \<Rightarrow> remote_session" where
  "session_of c =
     \<lparr> rs_Exec = ssh_Exec c, rs_ListDir = ListDir c, rs_ReadFile = ReadFile c, rs_WriteFile = WriteFile c, rs_Metrics = Metrics c \<rparr>"

section \<open>What the memory figures are\<close>

definition meminfo_fields :: "string \<Rightarrow> (string \<times> string) list" where
  "meminfo_fields text = List.map_filter meminfo_line (split_on (CHR 0x0A) text)"

lemma meminfo_lines_fold: "meminfo_lines ls m = fold meminfo_field (List.map_filter meminfo_line ls) m"
  by (induction ls arbitrary: m) (simp_all add: List.map_filter_simps split: option.splits)

lemma parseMemInfo_fold: "parseMemInfo text m = fold meminfo_field (meminfo_fields text) m"
  by (simp add: parseMemInfo_def meminfo_lines_fold meminfo_fields_def)

definition number_of :: "(string \<times> string) list \<Rightarrow> string \<Rightarrow> int option" where
  "number_of fs key = Option.bind (map_of fs key) atoi"

lemma number_of_simps:
  "number_of [] key = None"
  "number_of ((k, v) # fs) key = (if k = key then atoi v else number_of fs key)"
  by (simp_all add: number_of_def)

lemma number_of_None: "key \<notin> fst ` set fs \<Longrightarrow> number_of fs key = None"
  by (simp add: number_of_def map_of_eq_None_iff [THEN iffD2])

lemma meminfo_field_sel:
  "rm_MemTotalKB (meminfo_field (k, v) m) =
     (if k = ''MemTotal'' then (case atoi v of None \<Rightarrow> rm_MemTotalKB m | Some n \<Rightarrow> n) else rm_MemTotalKB m)"
  "rm_MemFreeKB (meminfo_field (k, v) m) =
     (case atoi v of
        None \<Rightarrow> rm_MemFreeKB m
      | Some n \<Rightarrow> (if k = ''MemAvailable'' then n else if k = ''MemFree'' \<and> rm_MemFreeKB m = 0 then n else rm_MemFreeKB m))"
  "rm_Raw (meminfo_field (k, v) m) = (rm_Raw m)(k \<mapsto> v)"
  by (cases "atoi v"; auto simp: meminfo_field_def Let_def)+

lemma fold_total:
  "distinct (map fst fs) \<Longrightarrow>
    rm_MemTotalKB (fold meminfo_field fs m) = (case number_of fs ''MemTotal'' of None \<Rightarrow> rm_MemTotalKB m | Some v \<Rightarrow> v)"
proof (induction fs arbitrary: m)
  case Nil
  then show ?case by (simp add: number_of_simps)
next
  case (Cons f fs)
  obtain k v where f: "f = (k, v)" by (cases f)
  have "number_of fs k = None" using Cons.prems by (intro number_of_None) (simp add: f)
  then show ?case using Cons.IH [of "meminfo_field f m"] Cons.prems by (auto simp: meminfo_field_sel f number_of_simps split: option.split)
qed

text \<open>The free memory after some lines, when the available memory is not zero.\<close>

lemma fold_free:
  assumes "distinct (map fst fs)" "number_of fs ''MemAvailable'' \<noteq> Some 0"
  shows "rm_MemFreeKB (fold meminfo_field fs m) =
    (case number_of fs ''MemAvailable'' of
       Some v \<Rightarrow> v
     | None \<Rightarrow> (if rm_MemFreeKB m = 0 then (case number_of fs ''MemFree'' of None \<Rightarrow> 0 | Some v \<Rightarrow> v) else rm_MemFreeKB m))"
  using assms
proof (induction fs arbitrary: m)
  case Nil
  then show ?case by (simp add: number_of_simps)
next
  case (Cons f fs)
  obtain k v where f: "f = (k, v)" by (cases f)
  have none: "number_of fs k = None" using Cons.prems by (intro number_of_None) (simp add: f)
  have d: "distinct (map fst fs)" using Cons.prems by simp
  show ?case
  proof (cases "k = ''MemAvailable''")
    case True
    then have "number_of fs ''MemAvailable'' \<noteq> Some 0" using none by simp
    from Cons.IH [OF d this, of "meminfo_field f m"] show ?thesis
      using True none Cons.prems(2) by (auto simp: meminfo_field_sel f number_of_simps split: option.split)
  next
    case False
    then have a: "number_of (f # fs) ''MemAvailable'' = number_of fs ''MemAvailable''" by (simp add: f number_of_simps)
    then have "number_of fs ''MemAvailable'' \<noteq> Some 0" using Cons.prems(2) by simp
    from Cons.IH [OF d this, of "meminfo_field f m"] show ?thesis
      using False none by (auto simp: a meminfo_field_sel f number_of_simps split: option.split)
  qed
qed

lemma fold_raw:
  "distinct (map fst fs) \<Longrightarrow> rm_Raw (fold meminfo_field fs m) = rm_Raw m ++ map_of fs"
proof (induction fs arbitrary: m)
  case (Cons f fs)
  obtain k v where f: "f = (k, v)" by (cases f)
  have "k \<notin> dom (map_of fs)" using Cons.prems by (simp add: f dom_map_of_conv_image_fst)
  then show ?case
    using Cons by (simp add: f meminfo_field_sel map_add_upd_left [symmetric] del: fun_upd_apply)
qed simp

lemma number_of_range: "number_of fs key = Some v \<Longrightarrow> in_range64 v"
  by (auto simp: number_of_def bind_eq_Some_conv intro: atoi_in_range)

text \<open>The memory figures of a server, from a listing with one line per field: the total is the field of
  that name; the free memory is the available memory wherever its line stands, and the free field only
  if there is none; a field that is absent or no 64-bit number counts as zero; every field is also kept
  as it was printed; and both figures are 64-bit integers.\<close>

theorem meminfo_is_read_exactly:
  assumes "distinct (map fst (meminfo_fields text))" "number_of (meminfo_fields text) ''MemAvailable'' \<noteq> Some 0"
  shows "let m = parseMemInfo text no_metrics; num = number_of (meminfo_fields text) in
    rm_MemTotalKB m = (case num ''MemTotal'' of Some v \<Rightarrow> v | None \<Rightarrow> 0) \<and>
    rm_MemFreeKB m = (case num ''MemAvailable'' of Some v \<Rightarrow> v | None \<Rightarrow> (case num ''MemFree'' of Some v \<Rightarrow> v | None \<Rightarrow> 0)) \<and>
    rm_Raw m = map_of (meminfo_fields text) \<and> in_range64 (rm_MemTotalKB m) \<and> in_range64 (rm_MemFreeKB m)"
proof -
  define m where "m = parseMemInfo text no_metrics"
  have z: "in_range64 0" by (simp add: in_range64_def)
  have t: "rm_MemTotalKB m = (case number_of (meminfo_fields text) ''MemTotal'' of Some v \<Rightarrow> v | None \<Rightarrow> 0)"
    using fold_total [OF assms(1), of no_metrics] by (simp add: m_def parseMemInfo_fold no_metrics_def split: option.split)
  have f: "rm_MemFreeKB m = (case number_of (meminfo_fields text) ''MemAvailable'' of
      Some v \<Rightarrow> v | None \<Rightarrow> (case number_of (meminfo_fields text) ''MemFree'' of Some v \<Rightarrow> v | None \<Rightarrow> 0))"
    using fold_free [OF assms, of no_metrics] by (simp add: m_def parseMemInfo_fold no_metrics_def split: option.split)
  have r: "rm_Raw m = map_of (meminfo_fields text)"
    using fold_raw [OF assms(1), of no_metrics] by (simp add: m_def parseMemInfo_fold no_metrics_def)
  show ?thesis
    unfolding m_def [symmetric] Let_def t f r
    using z by (intro conjI refl) (auto split: option.split intro: number_of_range)
qed

theorem meminfo_is_read_exactly_witness:
  "rm_MemFreeKB (parseMemInfo (''MemFree:  7 kB'' @ [CHR 0x0A] @ ''MemAvailable: 9 kB'') no_metrics) = 9"
proof -
  let ?t = "''MemFree:  7 kB'' @ [CHR 0x0A] @ ''MemAvailable: 9 kB''"
  have f: "meminfo_fields ?t = [(''MemFree'', ''7''), (''MemAvailable'', ''9'')]" by code_simp
  have n: "number_of [(''MemFree'', ''7''), (''MemAvailable'', ''9'')] ''MemAvailable'' = Some 9" by code_simp
  have "distinct (map fst (meminfo_fields ?t))" "number_of (meminfo_fields ?t) ''MemAvailable'' \<noteq> Some 0"
    unfolding f n by simp_all
  from meminfo_is_read_exactly [OF this] show ?thesis unfolding f Let_def n by simp
qed

section \<open>What a connection authenticates with\<close>

lemma key_auth_offers_the_secret:
  assumes "ps_AuthMethod s = ''key''" "sp_ResolveKey p = Some resolve" "authMethods w p s v = (Inr as, v')"
  shows "\<exists>pem k. resolve (ps_SecretRef s) v = (Inr pem, v') \<and> sw_signer w pem = Inr k \<and> as = [PublicKey k]"
  using assms by (auto simp: authMethods_def split: prod.splits sum.splits)

lemma agent_auth_needs_no_secret:
  assumes "ps_AuthMethod s = ''agent''"
  shows "snd (authMethods w p s v) = v" "fst (authMethods w p s v) = Inr (case agentAuth w p of None \<Rightarrow> [] | Some a \<Rightarrow> [a])"
  using assms by (auto simp: authMethods_def split: option.splits)

end
