(* ===== verification/ServerHandlers.thy ===== *)
theory ServerHandlers
  imports SecretSite RemoteSsh
begin

text \<open>
  The handlers of \<open>internal/api/v1/servers.go\<close>, in which the servers, the secret store and the remote
  provider meet.

  The remote provider is a function from a server to a session or an
  error; what a request makes a remote machine do is recorded in \<open>ss_remote\<close>.
\<close>

datatype remote_effect = Ran string | Wrote string bytes

record server_site = secret_site +
  ss_remote :: "(string \<times> remote_effect) list"

record server_call =
  sl_call :: call
  sl_audit :: string
  sl_secrets :: secret_env
  sl_connect :: "provider_server \<Rightarrow> string + remote_session"

datatype server_api_error =
    ServerMessage string
  | ServerRefused server_error
  | SecretRefused secret_error
  | ConnectRefused string
  | RemoteRefused session_failure

type_synonym 'a server_handler = "server_site \<Rightarrow> (nat \<times> (server_api_error + 'a)) \<times> server_site"

definition writeServerError :: "server_error \<Rightarrow> nat \<times> (server_api_error + 'a)" where
  "writeServerError e =
     (if e = ServerNotFound then (404, Inl (ServerMessage ''server not found'')) else (400, Inl (ServerRefused e)))"

definition listServers :: "server list server_handler" where
  "listServers s =
     (case on_panel (on_db server_List) s of
        (Inl e, s1) \<Rightarrow> ((500, Inl (ServerRefused e)), s1) | (Inr xs, s1) \<Rightarrow> ((200, Inr xs), s1))"

section \<open>Adding and removing a server\<close>

record server_body =
  sb_Name :: string
  sb_Hostname :: string
  sb_Port :: int
  sb_Username :: string
  sb_AuthMethod :: string
  sb_Key :: bytes

definition insert_server :: "server_call \<Rightarrow> server_request \<Rightarrow> server server_handler" where
  "insert_server k req s =
     (case create_owner (sl_secrets k) (sl_call k) ''server.create'' ''server'' srv_ID
             (server_Create (cl_uuid (sl_call k)) (cl_now (sl_call k)) req) (sreq_SecretRef req) s of
        (Inr sv, s') \<Rightarrow> ((201, Inr sv), s') | (Inl e, s') \<Rightarrow> ((400, Inl (ServerRefused e)), s'))"

definition server_request_of :: "server_body \<Rightarrow> server_request" where
  "server_request_of b =
     \<lparr> sreq_ID = [], sreq_Name = sb_Name b, sreq_Hostname = sb_Hostname b, sreq_Port = sb_Port b,
       sreq_Username = sb_Username b, sreq_AuthMethod = default_string (sb_AuthMethod b) ''agent'', sreq_SecretRef = [] \<rparr>"

text \<open>The key is stored under the id the server will have.\<close>

definition store_key :: "server_call \<Rightarrow> bytes \<Rightarrow> key_store \<Rightarrow> server_site \<Rightarrow> (secret_error + string) \<times> server_site" where
  "store_key k key =
     store_secret (sl_secrets k) ((sl_call k)\<lparr> cl_audit := sl_audit k \<rparr>) ''server.secret.store'' ''server'' (cl_uuid (sl_call k)) ''ssh_key'' key"

definition createServer :: "server_call \<Rightarrow> string + server_body \<Rightarrow> server server_handler" where
  "createServer k body s =
     (case body of
        Inl msg \<Rightarrow> ((400, Inl (ServerMessage msg)), s)
      | Inr b \<Rightarrow>
         (let req = server_request_of b in
          if sreq_AuthMethod req \<noteq> ''key'' then insert_server k req s
          else if sb_Key b = []
          then ((400, Inl (ServerMessage ''auth_method \"key\" requires \"key\" (private key material) in the request body'')), s)
          else (case ss_keys s of
                  None \<Rightarrow> ((500, Inl (ServerMessage ''secret storage not configured'')), s)
                | Some ks \<Rightarrow>
                   (case store_key k (sb_Key b) ks s of
                      (Inl e, s1) \<Rightarrow> ((500, Inl (SecretRefused e)), s1)
                    | (Inr ref, s1) \<Rightarrow>
                        insert_server k (req\<lparr> sreq_ID := cl_uuid (sl_call k), sreq_SecretRef := ref \<rparr>) s1))))"

text \<open>The server is read before it is deleted; its secret goes once the row is gone.\<close>

definition deleteServer :: "server_call \<Rightarrow> string \<Rightarrow> string \<Rightarrow> unit server_handler" where
  "deleteServer k i confirm s =
     (if confirm \<noteq> ''true'' then ((400, Inl (ServerMessage ''delete requires confirm=true'')), s)
      else
       (case on_panel (on_db (server_Get i)) s of
          (got, s1) \<Rightarrow>
           (case on_panel (on_db (server_Delete i)) s1 of
              (r, s2) \<Rightarrow>
                (let s3 = site_audit (sl_call k) ''server.delete'' ''server'' i (resultOf r) s2 in
                 case r of
                   Inl e \<Rightarrow> (writeServerError e, s3)
                 | Inr _ \<Rightarrow> ((200, Inr ()), case got of Inl _ \<Rightarrow> s3 | Inr sv \<Rightarrow> drop_secret (sl_secrets k) (srv_SecretRef sv) s3)))))"

section \<open>Remote operations\<close>

definition test_session :: "(provider_server \<Rightarrow> string + remote_session) \<Rightarrow> server \<Rightarrow> string + session" where
  "test_session connect sv =
     (case connect (ToProviderServer sv) of
        Inl msg \<Rightarrow> Inl msg
      | Inr sess \<Rightarrow>
         Inr (\<lambda>c. case rs_Exec sess c of
                     (out, err, None) \<Rightarrow> Inr (out, err) | (out, err, Some e) \<Rightarrow> Inl (failure_text e, err)))"

definition testServerConnection :: "server_call \<Rightarrow> string \<Rightarrow> unit server_handler" where
  "testServerConnection k i s =
     (case on_panel (on_db (TestConnection (cl_now (sl_call k)) (test_session (sl_connect k)) i)) s of
        (r, s1) \<Rightarrow>
          (let s2 = site_audit (sl_call k) ''server.test'' ''server'' i (resultOf r) s1 in
           case r of Inl e \<Rightarrow> (writeServerError e, s2) | Inr _ \<Rightarrow> ((200, Inr ()), s2)))"

text \<open>Look the server up and connect to it; \<open>refused\<close> is what else a failed connection leaves behind.\<close>

definition with_session ::
  "server_call \<Rightarrow> string \<Rightarrow> (server_site \<Rightarrow> server_site) \<Rightarrow> (remote_session \<Rightarrow> 'a server_handler) \<Rightarrow> 'a server_handler" where
  "with_session k i refused body s =
     (case on_panel (on_db (server_Get i)) s of
        (Inl e, s1) \<Rightarrow> (writeServerError e, s1)
      | (Inr sv, s1) \<Rightarrow>
         (case sl_connect k (ToProviderServer sv) of
            Inl msg \<Rightarrow> ((502, Inl (ConnectRefused msg)), refused s1)
          | Inr sess \<Rightarrow> body sess s1))"

definition serverMetrics :: "server_call \<Rightarrow> string \<Rightarrow> remote_metrics server_handler" where
  "serverMetrics k i =
     with_session k i id (\<lambda>sess s1. case rs_Metrics sess of
       Inl e \<Rightarrow> ((502, Inl (RemoteRefused e)), s1) | Inr m \<Rightarrow> ((200, Inr m), s1))"

record exec_reply =
  er_stdout :: bytes
  er_stderr :: bytes
  er_error :: string
  er_exitCode :: int

definition errString :: "session_failure option \<Rightarrow> string" where
  "errString e = (case e of None \<Rightarrow> [] | Some f \<Rightarrow> failure_text f)"

definition exitCodeOf :: "session_failure option \<Rightarrow> int" where
  "exitCodeOf e = (if e = None then 0 else 1)"

definition remotely :: "string \<Rightarrow> remote_effect \<Rightarrow> server_site \<Rightarrow> server_site" where
  "remotely i e s = s\<lparr> ss_remote := ss_remote s @ [(i, e)] \<rparr>"

definition execServer :: "server_call \<Rightarrow> string \<Rightarrow> string + string \<Rightarrow> exec_reply server_handler" where
  "execServer k i body s =
     (case body of
        Inl msg \<Rightarrow> ((400, Inl (ServerMessage msg)), s)
      | Inr command \<Rightarrow>
         (if command = [] then ((400, Inl (ServerMessage ''command is required'')), s)
          else
            with_session k i (audit_command (sl_call k) ''server.exec'' ''server'' i ''error'' command)
              (\<lambda>sess s1.
                 case rs_Exec sess command of
                   (out, err, e) \<Rightarrow>
                     ((200, Inr \<lparr> er_stdout = out, er_stderr = err, er_error = errString e, er_exitCode = exitCodeOf e \<rparr>),
                      audit_command (sl_call k) ''server.exec'' ''server'' i (if e = None then ''ok'' else ''error'') command
                        (remotely i (Ran command) s1))) s))"

definition listServerFiles :: "server_call \<Rightarrow> string \<Rightarrow> string \<Rightarrow> remote_file list server_handler" where
  "listServerFiles k i path =
     with_session k i id (\<lambda>sess s1. case rs_ListDir sess (default_string path ''.'') of
       Inl e \<Rightarrow> ((400, Inl (RemoteRefused e)), s1) | Inr es \<Rightarrow> ((200, Inr es), s1))"

definition readServerFile :: "server_call \<Rightarrow> string \<Rightarrow> string \<Rightarrow> bytes server_handler" where
  "readServerFile k i path s =
     (if path = [] then ((400, Inl (ServerMessage ''path is required'')), s)
      else with_session k i id (\<lambda>sess s1. case rs_ReadFile sess path of
        Inl e \<Rightarrow> ((400, Inl (RemoteRefused e)), s1) | Inr b \<Rightarrow> ((200, Inr b), s1)) s)"

text \<open>The body gives the path and the content.\<close>

definition writeServerFile :: "server_call \<Rightarrow> string \<Rightarrow> string + string \<times> bytes \<Rightarrow> unit server_handler" where
  "writeServerFile k i body s =
     (case body of
        Inl msg \<Rightarrow> ((400, Inl (ServerMessage msg)), s)
      | Inr (path, content) \<Rightarrow>
         (if path = [] then ((400, Inl (ServerMessage ''path is required'')), s)
          else
            with_session k i id
              (\<lambda>sess s1.
                 let e = rs_WriteFile sess path content;
                     s2 = audit_command (sl_call k) ''server.file.write'' ''server'' i (if e = None then ''ok'' else ''error'') path
                            (remotely i (Wrote path content) s1) in
                 case e of Some f \<Rightarrow> ((400, Inl (RemoteRefused f)), s2) | None \<Rightarrow> ((200, Inr ()), s2)) s))"

section \<open>Servers and their secrets\<close>

lemma server_Create_nofault:
  assumes "faults d = []"
  shows "server_Create u now req d = (Inl e, d') \<Longrightarrow> d' = d"
    "server_Create u now req d = (Inr sv, d') \<Longrightarrow> sv = server_of_request u now req \<and> only_touches {''servers''} d d'"
  using assms by (auto simp: server_Create_def sql_insert_nofault raw_insert_def Let_def only_touches_def split: option.splits if_splits)

interpretation server_owner: secret_owner "server_Create u now req" "''servers''" for u now req
  by unfold_locales (simp_all add: server_Create_nofault)

lemma insert_server_refused:
  "insert_server k req s = ((code, Inl e), s') \<Longrightarrow> code = 400 \<and>
    (\<exists>e'. create_owner (sl_secrets k) (sl_call k) ''server.create'' ''server'' srv_ID
       (server_Create (cl_uuid (sl_call k)) (cl_now (sl_call k)) req) (sreq_SecretRef req) s = (Inl e', s'))"
  by (auto simp: insert_server_def split: prod.splits sum.splits)

lemma insert_server_done:
  "insert_server k req s = ((code, Inr sv), s') \<Longrightarrow>
    create_owner (sl_secrets k) (sl_call k) ''server.create'' ''server'' srv_ID
      (server_Create (cl_uuid (sl_call k)) (cl_now (sl_call k)) req) (sreq_SecretRef req) s = (Inr sv, s')"
  by (auto simp: insert_server_def split: prod.splits sum.splits)

text \<open>C38: A refused server leaves no key over.  When a request to create one is answered with an error (a body that does
  not decode, a missing key, a key that could not be stored, a row that the table refuses), the tables of servers and
  secrets are as they were, and the keychain has no entry it did not have before, as long as the driver does
  not fail and the keychain tool can delete.\<close>

theorem failed_create_leaves_no_secret:
  assumes "faults (panel_db (ss_panel s)) = []" "createServer k body s = ((code, Inl e), s')"
    and "\<not> (\<exists>r \<in> set (tables (panel_db (ss_panel s)) ''secrets''). by_id (sn_uuid (sl_secrets k)) r)"
    and "sn_uuid (sl_secrets k) \<noteq> []" "sn_del (sl_secrets k)" "ss_keys s = Some ks"
  shows "tables (panel_db (ss_panel s')) ''secrets'' = tables (panel_db (ss_panel s)) ''secrets'' \<and>
    tables (panel_db (ss_panel s')) ''servers'' = tables (panel_db (ss_panel s)) ''servers'' \<and>
    (\<exists>ks'. ss_keys s' = Some ks' \<and> no_new_entries ks ks')"
proof (cases body)
  case (Inl msg)
  then show ?thesis using assms(2,6) by (simp add: createServer_def)
next
  case (Inr b)
  define req where "req = server_request_of b"
  have ref: "sreq_SecretRef req = []" by (simp add: req_def server_request_of_def)
  consider (agent) "sreq_AuthMethod req \<noteq> ''key''" | (empty) "sreq_AuthMethod req = ''key''" "sb_Key b = []"
    | (key) "sreq_AuthMethod req = ''key''" "sb_Key b \<noteq> []" by blast
  then show ?thesis
  proof cases
    case agent
    then have "insert_server k req s = ((code, Inl e), s')" using assms(2) Inr by (simp add: createServer_def req_def)
    then obtain e' where "create_owner (sl_secrets k) (sl_call k) ''server.create'' ''server'' srv_ID
        (server_Create (cl_uuid (sl_call k)) (cl_now (sl_call k)) req) (sreq_SecretRef req) s = (Inl e', s')"
      using insert_server_refused by blast
    from server_owner.refused_drops_secret [OF this assms(1,6,5), of ks] show ?thesis by (simp add: ref)
  next
    case empty
    then show ?thesis using assms(2,6) Inr by (simp add: createServer_def req_def [symmetric])
  next
    case key
    obtain r s1 where st: "store_key k (sb_Key b) ks s = (r, s1)" by force
    have go: "createServer k body s = (case r of Inl e \<Rightarrow> ((500, Inl (SecretRefused e)), s1)
        | Inr ref \<Rightarrow> insert_server k (req\<lparr> sreq_ID := cl_uuid (sl_call k), sreq_SecretRef := ref \<rparr>) s1)"
      using key by (simp add: createServer_def Inr req_def [symmetric] Let_def assms(6) st)
    show ?thesis
    proof (cases r)
      case (Inl e1)
      then have s1: "s1 = s'" using go assms(2) by simp
      from stored_secret [OF assms(1,5) st [unfolded store_key_def Inl] assms(3), unfolded s1] show ?thesis
        by (auto simp: secret_refused_def)
    next
      case (Inr ref1)
      then have "insert_server k (req\<lparr> sreq_ID := cl_uuid (sl_call k), sreq_SecretRef := ref1 \<rparr>) s1 = ((code, Inl e), s')"
        using go assms(2) by simp
      from insert_server_refused [OF this] obtain e' where
        "create_owner (sl_secrets k) (sl_call k) ''server.create'' ''server'' srv_ID
           (server_Create (cl_uuid (sl_call k)) (cl_now (sl_call k)) (req\<lparr> sreq_ID := cl_uuid (sl_call k), sreq_SecretRef := ref1 \<rparr>)) ref1 s1 = (Inl e', s')"
        by auto
      moreover have h: "ref1 = sn_uuid (sl_secrets k) \<and> secret_held ks s ref1 s1"
        by (rule stored_secret [OF assms(1,5) st [unfolded store_key_def Inr] assms(3), unfolded sum.case])
      ultimately show ?thesis using server_owner.refused_leaves_no_secret [OF h [THEN conjunct2] assms(5)] assms(3,4) h by simp
    qed
  qed
qed

text \<open>C29: A server that was created with a key authenticates with that key and no other: the provider, resolving
  keys through the secret store, offers the server the signer of the key in the request, if the encrypted
  column took it, or the keychain did and the key is a line of printable characters.  A key of several
  lines that the keychain took, as every PEM key is, is offered as the keychain tool prints it, without the
  line feeds at its end.\<close>

theorem created_server_offers_its_key:
  assumes "createServer k (Inr b) s = ((201, Inr sv), s')" "sb_AuthMethod b = ''key''" "faults (panel_db (ss_panel s)) = []"
    and "\<not> (\<exists>r \<in> set (tables (panel_db (ss_panel s)) ''secrets''). by_id (sn_uuid (sl_secrets k)) r)"
    and "opens_what_it_sealed (sn_aead (sl_secrets k))" "sn_aead env = sn_aead (sl_secrets k)" "sn_readable env" "sn_find env = None" "prints_text (sn_prints env)"
    and "\<forall>r. sn_key (sl_secrets k) = Inr r \<longrightarrow> length r = 32" "\<forall>r. sn_nonce (sl_secrets k) = Inr r \<longrightarrow> length r = nonceSize"
    and "sp_ResolveKey p = Some (secret_Get env)"
  shows "\<exists>ks. ss_keys s' = Some ks \<and>
    authMethods w p (ToProviderServer sv) (vault_of ks (ss_panel s')) =
      (case sw_signer w (if sn_add (sl_secrets k) = None \<and> \<not> printable (sb_Key b)
                         then trim_newlines (sn_prints env (sb_Key b)) else sb_Key b) of
         Inl msg \<Rightarrow> Inl (BadKey msg) | Inr signer \<Rightarrow> Inr [PublicKey signer],
       vault_of ks (ss_panel s'))"
proof -
  let ?env = "sl_secrets k" and ?u = "cl_uuid (sl_call k)"
  define req where "req = server_request_of b"
  have auth: "sreq_AuthMethod req = ''key''" using assms(2) by (simp add: req_def server_request_of_def default_string_def)
  with assms(1) obtain ks where ks: "ss_keys s = Some ks" and ne: "sb_Key b \<noteq> []"
    by (auto simp: createServer_def req_def [symmetric] Let_def split: if_splits option.splits)
  obtain r s1 where st: "store_key k (sb_Key b) ks s = (r, s1)" by force
  have "createServer k (Inr b) s = (case r of Inl e \<Rightarrow> ((500, Inl (SecretRefused e)), s1)
      | Inr ref \<Rightarrow> insert_server k (req\<lparr> sreq_ID := ?u, sreq_SecretRef := ref \<rparr>) s1)"
    using auth ne by (simp add: createServer_def req_def [symmetric] Let_def ks st)
  then obtain ref where ref: "r = Inr ref" "insert_server k (req\<lparr> sreq_ID := ?u, sreq_SecretRef := ref \<rparr>) s1 = ((201, Inr sv), s')"
    using assms(1) by (auto split: sum.splits)
  obtain s0 where p: "on_secrets ks (secret_Put ?env ''server'' ?u ''ssh_key'' (sb_Key b)) s = (Inr ref, s0)"
    "s1 = site_audit ((sl_call k)\<lparr> cl_audit := sl_audit k \<rparr>) ''server.secret.store'' ''server'' ?u ''ok'' s0"
    by (rule store_secretE [OF st [unfolded store_key_def ref(1)]]) (simp add: resultOf_def)
  have f0: "faults (site_db s0) = []" by (rule put_secret_faults [OF assms(3) p(1) assms(4)])
  then have f1: "faults (site_db s1) = []" unfolding p(2) by (rule site_audit_frame(1))
  note cr = server_owner.created_keeps_secrets [OF f1 insert_server_done [OF ref(2)]]
  have "sv = server_of_request ?u (cl_now (sl_call k)) (req\<lparr> sreq_ID := ?u, sreq_SecretRef := ref \<rparr>)"
    using cr(1) server_Create_nofault(2) [OF f1] by (metis prod.collapse)
  then have i: "srv_AuthMethod sv = ''key''" "srv_SecretRef sv = ref" using auth by (simp_all add: server_of_request_def)
  have "\<exists>ks'. ss_keys s' = Some ks' \<and> secret_Get env ref (vault_of ks' (ss_panel s')) =
      (Inr (given_back ?env env (sb_Key b)), vault_of ks' (ss_panel s'))"
    using cr site_audit_frame [OF f0] by (intro put_secret_reads_back [OF assms(3,4) p(1) assms(5-11)]) (simp_all add: p(2))
  then obtain ks' where "ss_keys s' = Some ks'" "secret_Get env ref (vault_of ks' (ss_panel s')) =
      (Inr (given_back ?env env (sb_Key b)), vault_of ks' (ss_panel s'))" by blast
  then show ?thesis
    using i by (simp add: authMethods_def ToProviderServer_def assms(12) given_back_def split: sum.splits)
qed

section \<open>Deleting a server takes its secret along\<close>

text \<open>Deleting a server is refused while a deployment or a target refers to it, and then the server and its
  secret stay; otherwise the server is gone and with it the secret it referred to, which can no longer
  be read, and no other row of the two tables.\<close>

theorem deleting_a_server_takes_its_secret:
  fixes d :: db and s :: server_site
  defines "d \<equiv> panel_db (ss_panel s)"
  assumes "faults d = []" "fst (server_Get i d) = Inr sv" "ss_keys s = Some ks"
  shows "\<exists>s'. deleteServer k i ''true'' s =
      ((if referenced_by d ''servers'' (Text i) then (400, Inl (ServerRefused (ServerSql ForeignKeyErr))) else (200, Inr ())), s') \<and>
    tables (panel_db (ss_panel s')) ''servers'' =
      (if referenced_by d ''servers'' (Text i) then tables d ''servers'' else filter (\<lambda>r. \<not> by_id i r) (tables d ''servers'')) \<and>
    tables (panel_db (ss_panel s')) ''secrets'' =
      (if referenced_by d ''servers'' (Text i) \<or> srv_SecretRef sv = [] then tables d ''secrets''
       else filter (\<lambda>r. \<not> by_id (srv_SecretRef sv) r) (tables d ''secrets''))"
proof -
  have get: "server_Get i d = (Inr sv, d)" using repo_get_pure [OF assms(2)] assms(3) by (metis server_Get_def)
  have e: "\<exists>r \<in> set (tables d ''servers''). by_id i r"
    using repo_get_found [OF assms(2)] assms(3) by (fastforce simp: server_Get_def)
  note del = repo_delete_nofault [OF assms(2), of "''servers''" ServerNotFound ServerSql i, folded server_Delete_def, simplified e if_True]
  have nm: "ServerSql ForeignKeyErr \<noteq> ServerNotFound" by simp
  show ?thesis
  proof (cases "referenced_by d ''servers'' (Text i)")
    case True
    then have "deleteServer k i ''true'' s =
        ((400, Inl (ServerRefused (ServerSql ForeignKeyErr))), site_audit (sl_call k) ''server.delete'' ''server'' i ''error'' (s\<lparr> ss_panel := set_db d (ss_panel s) \<rparr>))"
      using del get by (simp add: deleteServer_def on_panel_db d_def [symmetric] Let_def writeServerError_def resultOf_def)
    then show ?thesis
      using True site_audit_frame(2) [of "s\<lparr> ss_panel := set_db d (ss_panel s) \<rparr>"] assms(2) by simp
  next
    case False
    define d' where "d' = with_table ''servers'' (filter (\<lambda>r. \<not> by_id i r) (tables d ''servers'')) d"
    define s3 where "s3 = site_audit (sl_call k) ''server.delete'' ''server'' i ''ok'' (s\<lparr> ss_panel := set_db d' (ss_panel s) \<rparr>)"
    have s3: "faults (panel_db (ss_panel s3)) = []" "ss_keys s3 = Some ks"
      "t \<noteq> ''audit_events'' \<Longrightarrow> tables (panel_db (ss_panel s3)) t = tables d' t" for t
      using site_audit_frame [of "s\<lparr> ss_panel := set_db d' (ss_panel s) \<rparr>"] assms(2,4) by (simp_all add: s3_def d'_def)
    have "server_Delete i d = (Inr (), d')" using del False by (simp add: d'_def)
    then have r: "deleteServer k i ''true'' s = ((200, Inr ()), drop_secret (sl_secrets k) (srv_SecretRef sv) s3)"
      using get by (simp add: deleteServer_def on_panel_db d_def [symmetric] Let_def resultOf_def s3_def)
    have dr: "panel_db (ss_panel (drop_secret (sl_secrets k) (srv_SecretRef sv) s3)) = (if srv_SecretRef sv = [] then panel_db (ss_panel s3)
      else with_table ''secrets'' (filter (\<lambda>r. \<not> by_id (srv_SecretRef sv) r) (tables (panel_db (ss_panel s3)) ''secrets'')) (panel_db (ss_panel s3)))"
      using drop_secret_keeps [OF s3(1,2)] by blast
    show ?thesis
      unfolding r using False
      by (intro exI [of _ "drop_secret (sl_secrets k) (srv_SecretRef sv) s3"] conjI) (simp_all only: dr if_False s3(3) d'_def refl, simp_all add: s3(3) d'_def)
  qed
qed

section \<open>What runs on a server is on record\<close>

text \<open>A command runs on a server only after the server was found and reached, and whether the connection or
  the command then succeeds or fails, the audit log gains one record with the whole command; a request
  that is refused before that, for a server that is not there say, leaves no record, and runs nothing.\<close>

theorem remote_commands_are_audited:
  fixes d :: db and s :: server_site
  defines "d \<equiv> panel_db (ss_panel s)"
  assumes "faults d = []" "\<not> (\<exists>r \<in> set (tables d ''audit_events''). by_id (cl_audit (sl_call k)) r)"
  shows "case execServer k i (Inr command) s of ((code, res), s') \<Rightarrow>
    if command \<noteq> [] \<and> (\<exists>sv. fst (server_Get i d) = Inr sv)
    then (\<exists>result. tables (panel_db (ss_panel s')) ''audit_events'' = tables d ''audit_events'' @
           [make_row ''audit_events'' (audit_cols (cl_audit (sl_call k)) (cl_now (sl_call k)) ''server.exec'' ''server'' i result (Some command))]) \<and>
         (if code = 200 then ss_remote s' = ss_remote s @ [(i, Ran command)] else code = 502 \<and> ss_remote s' = ss_remote s)
    else tables (panel_db (ss_panel s')) ''audit_events'' = tables d ''audit_events'' \<and> ss_remote s' = ss_remote s \<and> code \<in> {400, 404}"
proof -
  have "server_Get i d = (fst (server_Get i d), d)" using repo_get_pure [OF assms(2)] by (simp add: server_Get_def)
  then have get: "on_panel (on_db (server_Get i)) s = (fst (server_Get i d), s\<lparr> ss_panel := set_db d (ss_panel s) \<rparr>)"
    by (metis d_def on_panel_db snd_conv)
  have au: "tables (panel_db (ss_panel (audit_command (sl_call k) ''server.exec'' ''server'' i result command s2))) ''audit_events'' =
      tables d ''audit_events'' @ [make_row ''audit_events''
        (audit_cols (cl_audit (sl_call k)) (cl_now (sl_call k)) ''server.exec'' ''server'' i result (Some command))]"
    if "panel_db (ss_panel s2) = d" for s2 :: server_site and result
    using audit_command_adds [of s2 "sl_call k"] assms(2,3) that by simp
  have rem: "ss_remote (audit_command cl a t i r c s2) = ss_remote s2" for cl a t i r c s2 by (simp add: audit_command_def)
  show ?thesis
  proof (cases "command = []")
    case True
    then show ?thesis by (simp add: execServer_def d_def)
  next
    case False
    show ?thesis
    proof (cases "fst (server_Get i d)")
      case (Inl e)
      then show ?thesis using False by (simp add: execServer_def with_session_def get writeServerError_def)
    next
      case (Inr sv)
      then show ?thesis
        using False by (auto simp: execServer_def with_session_def get au rem remotely_def split: sum.split prod.split)
    qed
  qed
qed

section \<open>The properties at concrete inputs\<close>

definition demo_server_call :: server_call where
  "demo_server_call =
     \<lparr> sl_call = demo_call ''s1'', sl_audit = ''e0'',
       sl_secrets = demo_secret_env\<lparr> sn_uuid := ''k1'', sn_add := None, sn_del := True \<rparr>,
       sl_connect = (\<lambda>_. Inl ''connection refused'') \<rparr>"

definition demo_site :: "row list \<Rightarrow> row list \<Rightarrow> server_site" where
  "demo_site servers secrets =
     \<lparr> ss_panel = demo_panel [(''servers'', servers), (''secrets'', secrets)] [],
       ss_keys = Some \<lparr> ks_keychain = Map.empty, ks_keyfile = None \<rparr>, ss_remote = [] \<rparr>"

definition demo_server_body :: "string \<Rightarrow> server_body" where
  "demo_server_body name = \<lparr> sb_Name = name, sb_Hostname = ''h'', sb_Port = 0, sb_Username = ''u'', sb_AuthMethod = ''key'', sb_Key = ''pem'' \<rparr>"

lemma demo_site_ok:
  "faults (panel_db (ss_panel (demo_site xs ys))) = []" "tables (panel_db (ss_panel (demo_site xs ys))) ''secrets'' = ys"
  "tables (panel_db (ss_panel (demo_site xs ys))) ''servers'' = xs" "tables (panel_db (ss_panel (demo_site xs ys))) ''audit_events'' = []"
  "ss_keys (demo_site xs ys) = Some \<lparr> ks_keychain = Map.empty, ks_keyfile = None \<rparr>" "ss_remote (demo_site xs ys) = []"
  by (simp_all add: demo_site_def demo_panel_def panel_db_def)

lemma demo_server_call_ok:
  "sn_uuid (sl_secrets demo_server_call) = ''k1''" "sn_del (sl_secrets demo_server_call)" "sn_add (sl_secrets demo_server_call) = None"
  "sn_aead (sl_secrets demo_server_call) = toy_aead" "sn_key (sl_secrets demo_server_call) = Inr (replicate 32 CHR 0x41)"
  "sn_nonce (sl_secrets demo_server_call) = Inr (replicate 12 CHR 0x42)" "cl_audit (sl_call demo_server_call) = ''es1''"
  by (simp_all add: demo_server_call_def demo_call_def)

theorem failed_create_leaves_no_secret_witness:
  "\<exists>e s'. createServer demo_server_call (Inr (demo_server_body [])) (demo_site [] []) = ((400, Inl e), s') \<and>
     tables (panel_db (ss_panel s')) ''secrets'' = []"
proof -
  have "(case fst (createServer demo_server_call (Inr (demo_server_body [])) (demo_site [] [])) of (c, r) \<Rightarrow> c = 400 \<and> isl r)" by code_simp
  then obtain e s' where r: "createServer demo_server_call (Inr (demo_server_body [])) (demo_site [] []) = ((400, Inl e), s')"
    by (cases "createServer demo_server_call (Inr (demo_server_body [])) (demo_site [] [])") (auto simp: isl_def)
  from failed_create_leaves_no_secret [OF demo_site_ok(1) r _ _ _ demo_site_ok(5)] r
  show ?thesis by (auto simp: demo_site_ok demo_server_call_ok)
qed

theorem created_server_offers_its_key_witness:
  "\<exists>sv s' ks. createServer demo_server_call (Inr (demo_server_body ''box'')) (demo_site [] []) = ((201, Inr sv), s') \<and> ss_keys s' = Some ks \<and>
     fst (authMethods \<lparr> sw_sock_env = [], sw_agent = (\<lambda>_. False), sw_signer = Inr, sw_dial = (\<lambda>_ _. None), sw_handshake = (\<lambda>_ _ _ _. Inl []) \<rparr>
       (New\<lparr> sp_ResolveKey := Some (secret_Get demo_secret_env) \<rparr>) (ToProviderServer sv) (vault_of ks (ss_panel s'))) = Inr [PublicKey ''pem'']"
proof -
  obtain c res s' where go: "createServer demo_server_call (Inr (demo_server_body ''box'')) (demo_site [] []) = ((c, res), s')"
    by (metis surj_pair)
  have "(case fst (createServer demo_server_call (Inr (demo_server_body ''box'')) (demo_site [] [])) of (c, r) \<Rightarrow> c = 201 \<and> \<not> isl r)" by code_simp
  with go obtain sv where r: "createServer demo_server_call (Inr (demo_server_body ''box'')) (demo_site [] []) = ((201, Inr sv), s')"
    by (cases res) simp_all
  have t: "printable ''pem''" by code_simp
  let ?p = "New\<lparr> sp_ResolveKey := Some (secret_Get demo_secret_env) \<rparr>"
  have h: "sb_AuthMethod (demo_server_body ''box'') = ''key''" "sb_Key (demo_server_body ''box'') = ''pem''"
    "opens_what_it_sealed (sn_aead (sl_secrets demo_server_call))" "sn_aead demo_secret_env = sn_aead (sl_secrets demo_server_call)"
    "\<forall>r. sn_key (sl_secrets demo_server_call) = Inr r \<longrightarrow> length r = 32"
    "\<forall>r. sn_nonce (sl_secrets demo_server_call) = Inr r \<longrightarrow> length r = nonceSize"
    "sp_ResolveKey ?p = Some (secret_Get demo_secret_env)"
    by (simp_all add: demo_server_body_def demo_server_call_ok toy_aead_laws nonceSize_def)
  have fresh: "\<not> (\<exists>r \<in> set (tables (panel_db (ss_panel (demo_site [] []))) ''secrets''). by_id (sn_uuid (sl_secrets demo_server_call)) r)"
    by (simp add: demo_site_ok)
  note w = created_server_offers_its_key [OF r h(1) demo_site_ok(1) fresh h(3,4) demo_env_sels(8,6) demo_prints_text h(5,6,7)]
  show ?thesis
    using w [where w = "\<lparr> sw_sock_env = [], sw_agent = (\<lambda>_. False), sw_signer = Inr, sw_dial = (\<lambda>_ _. None), sw_handshake = (\<lambda>_ _ _ _. Inl []) \<rparr>"]
    unfolding r by (simp add: demo_server_call_ok h(2) t) (metis fst_conv)
qed

definition demo_server_row :: row where
  "demo_server_row = make_row ''servers'' [(''id'', Text ''s1''), (''name'', Text ''box''), (''hostname'', Text ''h''),
     (''username'', Text ''u''), (''auth_method'', Text ''key''), (''secret_ref'', Text ''k1''), (''created_at'', Stamp 0)]"

lemma demo_server_found:
  "fst (server_Get ''s1'' (panel_db (ss_panel (demo_site [demo_server_row] ys)))) = Inr (scanServer demo_server_row)"
proof -
  have "by_id ''s1'' demo_server_row" by (simp add: by_id_def demo_server_row_def make_row_def)
  then show ?thesis by (simp add: server_Get_def repo_get_nofault demo_site_ok)
qed

theorem deleting_a_server_takes_its_secret_witness:
  "\<exists>s'. deleteServer demo_server_call ''s1'' ''true'' (demo_site [demo_server_row] [make_row ''secrets'' [(''id'', Text ''k1'')]]) =
     ((200, Inr ()), s') \<and> tables (panel_db (ss_panel s')) ''secrets'' = []"
proof -
  let ?s = "demo_site [demo_server_row] [make_row ''secrets'' [(''id'', Text ''k1'')]]"
  have "srv_SecretRef (scanServer demo_server_row) = ''k1''" by (simp add: scanServer_def demo_server_row_def make_row_def text_col_def)
  moreover have "\<not> referenced_by (panel_db (ss_panel ?s)) ''servers'' (Text ''s1'')"
    by (simp add: referenced_by_def demo_site_def demo_panel_def panel_db_def foreign_keys_def)
  moreover have "by_id ''k1'' (make_row ''secrets'' [(''id'', Text ''k1'')])" by (simp add: by_id_def make_row_def)
  ultimately show ?thesis
    using deleting_a_server_takes_its_secret [OF demo_site_ok(1) demo_server_found demo_site_ok(5),
      where k = demo_server_call and ys1 = "[make_row ''secrets'' [(''id'', Text ''k1'')]]"]
    by (auto simp: demo_site_ok)
qed

theorem remote_commands_are_audited_witness:
  "length (tables (panel_db (ss_panel (snd (execServer demo_server_call ''s1'' (Inr ''ls'') (demo_site [demo_server_row] []))))) ''audit_events'') = 1"
proof -
  obtain code res s' where r: "execServer demo_server_call ''s1'' (Inr ''ls'') (demo_site [demo_server_row] []) = ((code, res), s')"
    by (metis surj_pair)
  from remote_commands_are_audited [OF demo_site_ok(1), where k = demo_server_call and i = "''s1''" and command = "''ls''" and ys1 = "[]" and xs1 = "[demo_server_row]"]
  show ?thesis by (auto simp: r demo_site_ok demo_server_found split: if_splits)
qed

end
