(* ===== verification/GitHub.thy ===== *)
theory GitHub
  imports JsonDecode Decimal Encoding
begin

text \<open>
  The GitHub client of \<open>internal/integrations/git/github/client.go\<close>: requests, decoding, and the shelling
  out to \<open>git\<close>.

  The HTTP transport, the parser of JSON bodies and the \<open>git\<close> binary are arguments.  URLs are parsed and
  printed by \<open>net/url\<close>, whose two operations are fields of \<open>url_lib\<close>; its escaping functions are in \<open>Encoding\<close>.
\<close>

section \<open>The client\<close>

record github =
  gh_token :: string
  gh_baseURL :: string

definition defaultBaseURL :: string where "defaultBaseURL = ''https://api.github.com''"

definition WithBaseURL :: "string \<Rightarrow> github \<Rightarrow> github" where
  "WithBaseURL u c = c\<lparr> gh_baseURL := rev (dropWhile (\<lambda>x. x = CHR ''/'') (rev u)) \<rparr>"

definition NewClient :: "string \<Rightarrow> (github \<Rightarrow> github) list \<Rightarrow> github" where
  "NewClient token opts = fold (\<lambda>f c. f c) opts \<lparr> gh_token = token, gh_baseURL = defaultBaseURL \<rparr>"

record http_request =
  hr_Method :: string
  hr_URL :: string
  hr_Authorization :: "string option"
  hr_Accept :: string

datatype github_error =
    BadRequest string
  | RequestFailed string
  | BadStatus int string
  | BadBody
  | EmptyLogin
  | NotOwnerRepo string
  | NoCloneURL
  | BadCloneURL string
  | GitFailed string

text \<open>The world: whether a request can be built, what the transport answers, the JSON decoder, and \<open>git\<close> itself.\<close>

record github_world =
  gw_build :: "string \<Rightarrow> string option"
  gw_http :: "http_request \<Rightarrow> string + int \<times> bytes"
  gw_parse :: "bytes \<Rightarrow> json option"
  gw_git :: "string list \<Rightarrow> bytes \<times> bool"

definition github_request :: "github \<Rightarrow> string \<Rightarrow> string \<Rightarrow> http_request" where
  "github_request c verb path =
     \<lparr> hr_Method = verb, hr_URL = gh_baseURL c @ path,
       hr_Authorization = (if gh_token c \<noteq> [] then Some (''Bearer '' @ gh_token c) else None),
       hr_Accept = ''application/vnd.github+json'' \<rparr>"

definition doJSON :: "github_world \<Rightarrow> (json \<Rightarrow> 'a option) \<Rightarrow> github \<Rightarrow> string \<Rightarrow> string \<Rightarrow> github_error + 'a" where
  "doJSON w dec c verb path =
     (case gw_build w (gh_baseURL c @ path) of
        Some msg \<Rightarrow> Inl (BadRequest msg)
      | None \<Rightarrow>
         (case gw_http w (github_request c verb path) of
            Inl msg \<Rightarrow> Inl (RequestFailed msg)
          | Inr (status, body) \<Rightarrow>
             (if status < 200 \<or> status \<ge> 300 then Inl (BadStatus status path)
              else (case Option.bind (gw_parse w body) dec of None \<Rightarrow> Inl BadBody | Some a \<Rightarrow> Inr a))))"

text \<open>What is decoded.  A nested struct is decoded into the value it has so far.\<close>

record repo =
  repo_ID :: string
  repo_Name :: string
  repo_CloneURL :: string

record branch =
  br_Name :: string
  br_SHA :: string

record commit =
  cm_SHA :: string
  cm_Message :: string
  cm_Author :: string
  cm_Date :: string

definition dec_struct :: "((string \<times> json) list \<Rightarrow> 'a option) \<Rightarrow> json \<Rightarrow> 'a option" where
  "dec_struct f j = Option.bind (unmarshal_object j) f"

definition dec_user :: "json \<Rightarrow> string option" where
  "dec_user = dec_struct (str_field ''login'')"

definition dec_repo :: "json \<Rightarrow> repo option" where
  "dec_repo = dec_struct (\<lambda>kvs.
     case (str_field ''full_name'' kvs, str_field ''name'' kvs, str_field ''clone_url'' kvs) of
       (Some i, Some n, Some u) \<Rightarrow> Some \<lparr> repo_ID = i, repo_Name = n, repo_CloneURL = u \<rparr>
     | _ \<Rightarrow> None)"

definition dec_inner :: "string \<Rightarrow> string \<Rightarrow> json \<Rightarrow> string option" where
  "dec_inner f cur j = dec_struct (json_field dec_string f cur) j"

definition dec_branch :: "json \<Rightarrow> branch option" where
  "dec_branch = dec_struct (\<lambda>kvs.
     case (str_field ''name'' kvs, json_field (dec_inner ''sha'') ''commit'' [] kvs) of
       (Some n, Some s) \<Rightarrow> Some \<lparr> br_Name = n, br_SHA = s \<rparr> | _ \<Rightarrow> None)"

definition dec_author :: "string \<times> string \<times> string \<Rightarrow> json \<Rightarrow> (string \<times> string \<times> string) option" where
  "dec_author = (\<lambda>(msg, name, date). dec_struct (\<lambda>kvs.
     case (json_field dec_string ''name'' name kvs, json_field dec_string ''date'' date kvs) of
       (Some n, Some d) \<Rightarrow> Some (msg, n, d) | _ \<Rightarrow> None))"

definition dec_details :: "string \<times> string \<times> string \<Rightarrow> json \<Rightarrow> (string \<times> string \<times> string) option" where
  "dec_details cur = dec_struct (\<lambda>kvs.
     case (json_field dec_string ''message'' (fst cur) kvs, json_field dec_author ''author'' cur kvs) of
       (Some m, Some (_, n, d)) \<Rightarrow> Some (m, n, d) | _ \<Rightarrow> None)"

definition dec_commit :: "json \<Rightarrow> commit option" where
  "dec_commit = dec_struct (\<lambda>kvs.
     case (str_field ''sha'' kvs, json_field dec_details ''commit'' ([], [], []) kvs) of
       (Some s, Some (m, n, d)) \<Rightarrow> Some \<lparr> cm_SHA = s, cm_Message = m, cm_Author = n, cm_Date = d \<rparr> | _ \<Rightarrow> None)"

definition dec_list :: "(json \<Rightarrow> 'a option) \<Rightarrow> 'a \<Rightarrow> json \<Rightarrow> 'a list option" where
  "dec_list dec z = dec_slice (\<lambda>cur j. dec j) z []"

definition ValidateToken :: "github_world \<Rightarrow> github \<Rightarrow> github_error + string" where
  "ValidateToken w c =
     (case doJSON w dec_user c ''GET'' ''/user'' of
        Inl e \<Rightarrow> Inl e | Inr login \<Rightarrow> if login = [] then Inl EmptyLogin else Inr login)"

text \<open>Repositories come in pages of a hundred; at most ten pages are asked for.\<close>

definition repos_path :: "nat \<Rightarrow> string" where
  "repos_path page = ''/user/repos?per_page=100&page='' @ itoa (int page)"

definition no_repo :: repo where "no_repo = \<lparr> repo_ID = [], repo_Name = [], repo_CloneURL = [] \<rparr>"

fun list_pages :: "(nat \<Rightarrow> github_error + repo list) \<Rightarrow> nat list \<Rightarrow> github_error + repo list" where
  "list_pages get [] = Inr []"
| "list_pages get (page # pages) =
     (case get page of
        Inl e \<Rightarrow> Inl e
      | Inr batch \<Rightarrow>
         (if length batch < 100 then Inr batch
          else (case list_pages get pages of Inl e \<Rightarrow> Inl e | Inr rest \<Rightarrow> Inr (batch @ rest))))"

definition repos_page :: "github_world \<Rightarrow> github \<Rightarrow> nat \<Rightarrow> github_error + repo list" where
  "repos_page w c page = doJSON w (dec_list dec_repo no_repo) c ''GET'' (repos_path page)"

definition ListRepos :: "github_world \<Rightarrow> github \<Rightarrow> github_error + repo list" where
  "ListRepos w c = list_pages (repos_page w c) [1..<11]"

definition splitFullName :: "string \<Rightarrow> github_error + string \<times> string" where
  "splitFullName i =
     (case index_byte (CHR ''/'') i of
        None \<Rightarrow> Inl (NotOwnerRepo i)
      | Some n \<Rightarrow> (if n = 0 \<or> drop (Suc n) i = [] then Inl (NotOwnerRepo i) else Inr (take n i, drop (Suc n) i)))"

definition Branches :: "github_world \<Rightarrow> github \<Rightarrow> repo \<Rightarrow> github_error + branch list" where
  "Branches w c r =
     (case splitFullName (repo_ID r) of
        Inl e \<Rightarrow> Inl e
      | Inr (owner, name) \<Rightarrow>
         doJSON w (dec_list dec_branch \<lparr> br_Name = [], br_SHA = [] \<rparr>) c ''GET''
           (''/repos/'' @ PathEscape owner @ ''/'' @ PathEscape name @ ''/branches?per_page=100''))"

definition commits_path :: "string \<Rightarrow> string \<Rightarrow> string \<Rightarrow> int \<Rightarrow> string" where
  "commits_path owner name br limit =
     ''/repos/'' @ PathEscape owner @ ''/'' @ PathEscape name @ ''/commits?per_page='' @
     itoa (if limit \<le> 0 \<or> limit > 100 then 30 else limit) @ (if br \<noteq> [] then ''&sha='' @ QueryEscape br else [])"

definition Commits :: "github_world \<Rightarrow> github \<Rightarrow> repo \<Rightarrow> string \<Rightarrow> int \<Rightarrow> github_error + commit list" where
  "Commits w c r br limit =
     (case splitFullName (repo_ID r) of
        Inl e \<Rightarrow> Inl e
      | Inr (owner, name) \<Rightarrow>
         doJSON w (dec_list dec_commit \<lparr> cm_SHA = [], cm_Message = [], cm_Author = [], cm_Date = [] \<rparr>) c ''GET''
           (commits_path owner name br limit))"

section \<open>Shelling out\<close>

record url =
  u_Scheme :: string
  u_User :: "string option"
  u_Host :: string
  u_Rest :: string

record url_lib =
  ul_Parse :: "string \<Rightarrow> string + url"
  ul_String :: "url \<Rightarrow> string"

definition authenticatedURL :: "url_lib \<Rightarrow> github \<Rightarrow> string \<Rightarrow> github_error + string" where
  "authenticatedURL ul c rawURL =
     (if rawURL = [] then Inl NoCloneURL
      else if gh_token c = [] then Inr rawURL
      else (case ul_Parse ul rawURL of
              Inl msg \<Rightarrow> Inl (BadCloneURL msg)
            | Inr u \<Rightarrow>
               (if u_Scheme u \<noteq> ''http'' \<and> u_Scheme u \<noteq> ''https'' then Inr rawURL
                else Inr (ul_String ul (u\<lparr> u_User := Some (gh_token c) \<rparr>)))))"

definition redact :: "github \<Rightarrow> string \<Rightarrow> string" where
  "redact c s = (if gh_token c = [] then s else replace_all (gh_token c) ''***'' s)"

definition Clone :: "github_world \<Rightarrow> url_lib \<Rightarrow> github \<Rightarrow> repo \<Rightarrow> string \<Rightarrow> github_error + unit" where
  "Clone w ul c r dest =
     (case authenticatedURL ul c (repo_CloneURL r) of
        Inl e \<Rightarrow> Inl e
      | Inr authURL \<Rightarrow>
         (case gw_git w [''clone'', authURL, dest] of
            (out, ok) \<Rightarrow> if ok then Inr () else Inl (GitFailed (redact c out))))"

definition Pull :: "github_world \<Rightarrow> url_lib \<Rightarrow> github \<Rightarrow> repo \<Rightarrow> string \<Rightarrow> string \<Rightarrow> github_error + unit" where
  "Pull w ul c r br dest =
     (case authenticatedURL ul c (repo_CloneURL r) of
        Inl e \<Rightarrow> Inl e
      | Inr authURL \<Rightarrow>
         (case gw_git w ([''-C'', dest, ''pull'', authURL] @ (if br \<noteq> [] then [br] else [])) of
            (out, ok) \<Rightarrow> if ok then Inr () else Inl (GitFailed (redact c out))))"

section \<open>A failed clone does not show the token\<close>

lemma has_prefix_iff: "has_prefix s p \<longleftrightarrow> (\<exists>r. s = p @ r)"
  unfolding has_prefix_def by (metis append_eq_conv_conj append_take_drop_id)

text \<open>What begins the result of a replacement, and has no character of the new text, began the original.\<close>

lemma replace_all_prefix:
  "\<lbrakk>replace_all old new s = q @ r; set q \<inter> set new = {}; new \<noteq> []\<rbrakk> \<Longrightarrow> \<exists>t. s = q @ t"
proof (induction old new s arbitrary: q r rule: replace_all.induct)
  case (1 old new s)
  consider (stop) "old = [] \<or> s = []" | (hit) "old \<noteq> []" "s \<noteq> []" "has_prefix s old" | (step) "old \<noteq> []" "s \<noteq> []" "\<not> has_prefix s old"
    by blast
  then show ?case
  proof cases
    case stop
    then show ?thesis using "1.prems"(1) by (subst (asm) replace_all.simps) auto
  next
    case hit
    then have "replace_all old new s = new @ replace_all old new (drop (length old) s)" by (subst replace_all.simps) simp
    with "1.prems" have "q = []" by (cases new; cases q) auto
    then show ?thesis by simp
  next
    case step
    then have e: "replace_all old new s = hd s # replace_all old new (tl s)" by (subst replace_all.simps) simp
    show ?thesis
    proof (cases q)
      case (Cons x q')
      then have "x = hd s" "replace_all old new (tl s) = q' @ r" using "1.prems"(1) e by simp_all
      with "1.IH"(2) [of q' r] step "1.prems"(2,3) Cons obtain t where "tl s = q' @ t" by auto
      then have "s = q @ t" using Cons \<open>x = hd s\<close> step(2) by (metis append_Cons list.collapse)
      then show ?thesis by blast
    qed simp
  qed
qed

text \<open>No occurrence of the old text is left, if it shares no character with the new one.\<close>

lemma replace_all_removes:
  "\<lbrakk>old \<noteq> []; set old \<inter> set new = {}; new \<noteq> []\<rbrakk> \<Longrightarrow> replace_all old new s \<noteq> a @ old @ b"
proof (induction old new s arbitrary: a rule: replace_all.induct)
  case (1 old new s)
  consider (stop) "s = []" | (hit) "s \<noteq> []" "has_prefix s old" | (step) "s \<noteq> []" "\<not> has_prefix s old" by blast
  then show ?case
  proof cases
    case stop
    then show ?thesis using "1.prems"(1) by (subst replace_all.simps) simp
  next
    case hit
    then have e: "replace_all old new s = new @ replace_all old new (drop (length old) s)"
      using "1.prems"(1) by (subst replace_all.simps) simp
    show ?thesis
    proof
      assume "replace_all old new s = a @ old @ b"
      then have "new @ replace_all old new (drop (length old) s) = a @ old @ b" using e by simp
      then obtain us where "new = a @ us \<and> us @ replace_all old new (drop (length old) s) = old @ b \<or>
          new @ us = a \<and> replace_all old new (drop (length old) s) = us @ old @ b"
        unfolding append_eq_append_conv2 by blast
      then consider us where "a = new @ us" "us @ old @ b = replace_all old new (drop (length old) s)"
        | us where "new = a @ us" "us \<noteq> []" "us @ replace_all old new (drop (length old) s) = old @ b"
        by (cases "us = []") (metis append_Nil append_Nil2, metis)
      then show False
      proof cases
        case (1 us)
        then show False using "1.IH"(1) [of us] hit "1.prems" by (metis (no_types))
      next
        case (2 us)
        then have "hd us \<in> set new" "hd us = hd old" using "1.prems"(1) by (auto simp: neq_Nil_conv)
        then show False using "1.prems"(1,2) by (metis IntI empty_iff list.set_sel(1))
      qed
    qed
  next
    case step
    then have e: "replace_all old new s = hd s # replace_all old new (tl s)"
      using "1.prems"(1) by (subst replace_all.simps) simp
    show ?thesis
    proof
      assume r: "replace_all old new s = a @ old @ b"
      show False
      proof (cases a)
        case (Cons x a')
        then have "replace_all old new (tl s) = a' @ old @ b" using r e by simp
        then show False using "1.IH"(2) [of a'] step "1.prems" by simp
      next
        case Nil
        then have "\<exists>t. s = old @ t" using replace_all_prefix [of old new s old b] r "1.prems"(2,3) by simp
        then show False using step(2) by (simp add: has_prefix_iff)
      qed
    qed
  qed
qed

text \<open>What a failed clone reports never shows the token, wherever and however often \<open>git\<close> printed it, and
  even where two cuts meet: no part of the text is the token.  The token must not contain the character
  of the mask, which no GitHub token does.\<close>

theorem failed_clone_hides_the_token:
  assumes "gh_token c \<noteq> []" "CHR ''*'' \<notin> set (gh_token c)"
  shows "Clone w ul c r dest \<noteq> Inl (GitFailed (a @ gh_token c @ b))"
proof -
  have "set (gh_token c) \<inter> set ''***'' = {}" using assms(2) by auto
  then have "redact c s \<noteq> a @ gh_token c @ b" for s
    using replace_all_removes [OF assms(1), of "''***''" s a b] assms(1) by (simp add: redact_def)
  then show ?thesis
    by (auto simp: Clone_def authenticatedURL_def split: sum.splits prod.splits if_splits)
qed

text \<open>The token goes to whatever host the clone URL names, over plain \<open>http\<close> as well as \<open>https\<close>: the URL of the
  request is used as it is, and the host is not compared with the one the integration is for.\<close>

theorem token_is_sent_to_any_host:
  assumes "ul_Parse ul raw = Inr u" "u_Scheme u = ''http''" "raw \<noteq> []" "gh_token c \<noteq> []"
  shows "Clone w ul c \<lparr> repo_ID = i, repo_Name = n, repo_CloneURL = raw \<rparr> dest =
    (case gw_git w [''clone'', ul_String ul (u\<lparr> u_User := Some (gh_token c) \<rparr>), dest] of
       (out, ok) \<Rightarrow> if ok then Inr () else Inl (GitFailed (redact c out)))"
  using assms by (simp add: Clone_def authenticatedURL_def)

section \<open>Listing repositories ends\<close>

lemma list_pages_stops:
  "pages \<noteq> [] \<Longrightarrow> \<exists>pre p post. pages = pre @ p # post \<and> (\<forall>q \<in> set pre. \<exists>b. get q = Inr b \<and> 100 \<le> length b) \<and>
     (case get p of
        Inl e \<Rightarrow> list_pages get pages = Inl e
      | Inr b \<Rightarrow> list_pages get pages = Inr (concat (map (\<lambda>q. projr (get q)) (pre @ [p]))) \<and> (length b < 100 \<or> post = []))"
proof (induction pages)
  case (Cons p pages)
  show ?case
  proof (cases "get p")
    case (Inl e)
    then show ?thesis by (intro exI [of _ "[]"] exI [of _ p] exI [of _ pages]) simp
  next
    case (Inr b)
    show ?thesis
    proof (cases "length b < 100 \<or> pages = []")
      case True
      then show ?thesis using Inr by (intro exI [of _ "[]"] exI [of _ p] exI [of _ pages]) auto
    next
      case False
      with Cons.IH obtain pre q post where q: "pages = pre @ q # post" "\<forall>q \<in> set pre. \<exists>b. get q = Inr b \<and> 100 \<le> length b"
        "case get q of
           Inl e \<Rightarrow> list_pages get pages = Inl e
         | Inr b \<Rightarrow> list_pages get pages = Inr (concat (map (\<lambda>q. projr (get q)) (pre @ [q]))) \<and> (length b < 100 \<or> post = [])"
        by blast
      then show ?thesis
        using Inr False by (intro exI [of _ "p # pre"] exI [of _ q] exI [of _ post]) (auto split: sum.splits)
    qed
  qed
qed simp

text \<open>Listing the repositories ends, whatever the server answers: the pages are asked for in order from the
  first, each after a full one only, and at most ten of them; the answer is all of them together, or
  the first error.\<close>

theorem repositories_are_listed_page_by_page:
  "\<exists>n \<in> {1..10}. (\<forall>p \<in> {1..<n}. \<exists>b. repos_page w c p = Inr b \<and> 100 \<le> length b) \<and>
     (case repos_page w c n of
        Inl e \<Rightarrow> ListRepos w c = Inl e
      | Inr b \<Rightarrow> ListRepos w c = Inr (concat (map (\<lambda>p. projr (repos_page w c p)) [1..<Suc n])) \<and> (length b < 100 \<or> n = 10))"
proof -
  have "[1..<11::nat] \<noteq> []" by simp
  from list_pages_stops [OF this, of "repos_page w c"] obtain pre n post where n: "[1..<11] = pre @ n # post"
    "\<forall>q \<in> set pre. \<exists>b. repos_page w c q = Inr b \<and> 100 \<le> length b"
    "case repos_page w c n of Inl e \<Rightarrow> ListRepos w c = Inl e
     | Inr b \<Rightarrow> ListRepos w c = Inr (concat (map (\<lambda>q. projr (repos_page w c q)) (pre @ [n]))) \<and> (length b < 100 \<or> post = [])"
    unfolding ListRepos_def by blast
  have "length pre < 10" using arg_cong [OF n(1), of length] by simp
  then have nn: "n = Suc (length pre)" using arg_cong [OF n(1), of "\<lambda>xs. xs ! length pre"] by (simp add: nth_append del: upt_Suc)
  have pre: "pre = [1..<n]"
    using arg_cong [OF n(1), of "take (length pre)"] \<open>length pre < 10\<close> nn by (simp del: upt_Suc)
  have post: "post = [] \<longleftrightarrow> n = 10" using arg_cong [OF n(1), of length] nn by auto
  have all: "pre @ [n] = [1..<Suc n]" using pre nn by simp
  have "n \<in> {1..10}" using nn \<open>length pre < 10\<close> by simp
  moreover have "set pre = {1..<n}" by (subst pre) simp
  then have "\<forall>p \<in> {1..<n}. \<exists>b. repos_page w c p = Inr b \<and> 100 \<le> length b" using n(2) by blast
  ultimately show ?thesis using n(3) [unfolded all post] by blast
qed

section \<open>The properties at concrete inputs\<close>

definition demo_clone_world :: github_world where
  "demo_clone_world = \<lparr> gw_build = (\<lambda>_. None), gw_http = (\<lambda>_. Inl []), gw_parse = (\<lambda>_. None),
     gw_git = (\<lambda>args. (''fatal: '' @ concat args, False)) \<rparr>"

definition demo_urls :: url_lib where
  "demo_urls = \<lparr> ul_Parse = (\<lambda>s. Inr \<lparr> u_Scheme = ''http'', u_User = None, u_Host = s, u_Rest = [] \<rparr>),
     ul_String = (\<lambda>u. (case u_User u of None \<Rightarrow> [] | Some t \<Rightarrow> t @ ''@'') @ u_Host u) \<rparr>"

theorem failed_clone_hides_the_token_witness:
  "Clone demo_clone_world demo_urls (NewClient ''pat'' []) (no_repo\<lparr> repo_CloneURL := ''h'' \<rparr>) ''d'' = Inl (GitFailed ''fatal: clone***@hd'') \<and>
   Clone demo_clone_world demo_urls (NewClient ''pat'' []) (no_repo\<lparr> repo_CloneURL := ''h'' \<rparr>) ''d'' \<noteq> Inl (GitFailed (''fatal: clone'' @ ''pat'' @ ''@hd''))"
proof -
  have t: "gh_token (NewClient ''pat'' []) = ''pat''" by (simp add: NewClient_def)
  have "Clone demo_clone_world demo_urls (NewClient ''pat'' []) (no_repo\<lparr> repo_CloneURL := ''h'' \<rparr>) ''d'' = Inl (GitFailed ''fatal: clone***@hd'')"
    by code_simp
  then show ?thesis
    using failed_clone_hides_the_token [where c = "NewClient ''pat'' []" and a = "''fatal: clone''" and b = "''@hd''" and w = demo_clone_world
        and ul = demo_urls and r = "no_repo\<lparr> repo_CloneURL := ''h'' \<rparr>" and dest = "''d''"]
    by (simp add: t)
qed

theorem token_is_sent_to_any_host_witness:
  "Clone demo_clone_world demo_urls (NewClient ''pat'' []) \<lparr> repo_ID = [], repo_Name = [], repo_CloneURL = ''evil'' \<rparr> ''d'' =
     (case gw_git demo_clone_world [''clone'', ''pat@evil'', ''d''] of
       (out, ok) \<Rightarrow> if ok then Inr () else Inl (GitFailed (redact (NewClient ''pat'' []) out)))"
proof -
  have p: "ul_Parse demo_urls ''evil'' = Inr \<lparr> u_Scheme = ''http'', u_User = None, u_Host = ''evil'', u_Rest = [] \<rparr>"
    "gh_token (NewClient ''pat'' []) = ''pat''"
    by (simp_all add: demo_urls_def NewClient_def)
  have "ul_String demo_urls (\<lparr> u_Scheme = ''http'', u_User = None, u_Host = ''evil'', u_Rest = [] \<rparr>\<lparr> u_User := Some ''pat'' \<rparr>) = ''pat@evil''"
    by (simp add: demo_urls_def)
  then show ?thesis using token_is_sent_to_any_host [OF p(1), where c = "NewClient ''pat'' []"] p(2) by simp
qed

end
