(* ===== verification/GitHandlers.thy ===== *)
theory GitHandlers
  imports SecretSite GitHub Connections
begin

text \<open>
  The handlers of \<open>internal/api/v1/git.go\<close>, in which integrations, the secret store and the GitHub client
  meet.  They use the secret store without checking that there is one; without it the request panics
  and is answered 500 by the recovery middleware.
\<close>

record git_call =
  gt_call :: call
  gt_secrets :: secret_env
  gt_world :: github_world
  gt_urls :: url_lib
  gt_baseURL :: string

datatype client_error =
    NoIntegrationRow integration_error
  | NotGitHub
  | NoToken secret_error
  | NilSecrets

datatype git_api_error =
    GitMessage string
  | ClientRefused client_error
  | IntegrationRefused integration_error
  | GitPanic

type_synonym 'a git_handler = "secret_site \<Rightarrow> (nat \<times> (git_api_error + 'a)) \<times> secret_site"

definition github_client :: "git_call \<Rightarrow> string \<Rightarrow> github" where
  "github_client g tok = NewClient tok (if gt_baseURL g \<noteq> [] then [WithBaseURL (gt_baseURL g)] else [])"

definition githubClientFor :: "git_call \<Rightarrow> string \<Rightarrow> secret_site \<Rightarrow> (client_error + github) \<times> secret_site" where
  "githubClientFor g i s =
     (case on_panel (on_db (integration_Get i)) s of
        (Inl e, s1) \<Rightarrow> (Inl (NoIntegrationRow e), s1)
      | (Inr itg, s1) \<Rightarrow>
         (if itg_Kind itg \<noteq> ''github'' then (Inl NotGitHub, s1)
          else (case ss_keys s1 of
                  None \<Rightarrow> (Inl NilSecrets, s1)
                | Some ks \<Rightarrow>
                   (case on_secrets ks (secret_Get (gt_secrets g) (itg_SecretRef itg)) s1 of
                      (Inl e, s2) \<Rightarrow> (Inl (NoToken e), s2)
                    | (Inr tok, s2) \<Rightarrow> (Inr (github_client g tok), s2)))))"

definition writeIntegrationError :: "client_error \<Rightarrow> nat \<times> (git_api_error + 'a)" where
  "writeIntegrationError e =
     (if e = NilSecrets then (500, Inl GitPanic)
      else if e = NoIntegrationRow IntegrationNotFound \<or> e = NoToken SecretNotFound
      then (404, Inl (GitMessage ''integration not found''))
      else (400, Inl (ClientRefused e)))"

text \<open>The body gives the kind and the token.\<close>

definition createIntegration :: "git_call \<Rightarrow> string + string \<times> string \<Rightarrow> integration git_handler" where
  "createIntegration g body s =
     (case body of
        Inl msg \<Rightarrow> ((400, Inl (GitMessage msg)), s)
      | Inr (kind, tok) \<Rightarrow>
         (if kind \<noteq> ''github'' then ((400, Inl (GitMessage ''unsupported integration kind (only \"github\" today)'')), s)
          else if trim_space tok = [] then ((400, Inl (GitMessage ''token is required'')), s)
          else
           (case ValidateToken (gt_world g) (github_client g tok) of
              Inl _ \<Rightarrow>
                ((400, Inl (GitMessage ''token validation failed'')),
                 site_audit (gt_call g) ''integration.create'' ''integration'' ''github'' ''failure'' s)
            | Inr login \<Rightarrow>
               (case ss_keys s of
                  None \<Rightarrow> ((500, Inl GitPanic), s)
                | Some ks \<Rightarrow>
                   (case on_secrets ks (secret_Put (gt_secrets g) ''integration'' login ''github-pat'' tok) s of
                      (Inl _, s1) \<Rightarrow> ((500, Inl (GitMessage ''failed to store secret'')), s1)
                    | (Inr ref, s1) \<Rightarrow>
                       (case create_owner (gt_secrets g) (gt_call g) ''integration.create'' ''integration'' itg_ID
                               (integration_Create (cl_uuid (gt_call g)) (cl_now (gt_call g)) ''github'' login ref []) ref s1 of
                          (Inl e, s2) \<Rightarrow> ((500, Inl (IntegrationRefused e)), s2)
                        | (Inr itg, s2) \<Rightarrow> ((201, Inr itg), s2)))))))"

definition listIntegrations :: "integration list git_handler" where
  "listIntegrations s =
     (case on_panel (on_db integration_List) s of
        (Inl e, s1) \<Rightarrow> ((500, Inl (IntegrationRefused e)), s1) | (Inr xs, s1) \<Rightarrow> ((200, Inr xs), s1))"

definition deleteIntegration :: "git_call \<Rightarrow> string \<Rightarrow> unit git_handler" where
  "deleteIntegration g i s =
     (case on_panel (on_db (integration_Get i)) s of
        (Inl e, s1) \<Rightarrow> (writeIntegrationError (NoIntegrationRow e), s1)
      | (Inr itg, s1) \<Rightarrow>
         (case on_panel (on_db (integration_Delete i)) s1 of
            (r, s2) \<Rightarrow>
              (let s3 = site_audit (gt_call g) ''integration.delete'' ''integration'' i (resultOf r) s2 in
               case r of
                 Inl e \<Rightarrow> (writeIntegrationError (NoIntegrationRow e), s3)
               | Inr _ \<Rightarrow>
                  (if itg_SecretRef itg \<noteq> [] \<and> ss_keys s3 = None then ((500, Inl GitPanic), s3)
                   else ((200, Inr ()), drop_secret (gt_secrets g) (itg_SecretRef itg) s3)))))"

definition listGitRepos :: "git_call \<Rightarrow> string \<Rightarrow> repo list git_handler" where
  "listGitRepos g i s =
     (if i = [] then ((400, Inl (GitMessage ''integrationId is required'')), s)
      else (case githubClientFor g i s of
              (Inl e, s1) \<Rightarrow> (writeIntegrationError e, s1)
            | (Inr c, s1) \<Rightarrow>
               (case ListRepos (gt_world g) c of
                  Inl _ \<Rightarrow> ((502, Inl (GitMessage ''failed to list repos'')), s1) | Inr rs \<Rightarrow> ((200, Inr rs), s1))))"

definition gitBranches :: "git_call \<Rightarrow> string \<Rightarrow> string \<Rightarrow> string \<Rightarrow> branch list git_handler" where
  "gitBranches g i owner name s =
     (if i = [] then ((400, Inl (GitMessage ''integrationId is required'')), s)
      else (case githubClientFor g i s of
              (Inl e, s1) \<Rightarrow> (writeIntegrationError e, s1)
            | (Inr c, s1) \<Rightarrow>
               (case Branches (gt_world g) c (no_repo\<lparr> repo_ID := owner @ ''/'' @ name \<rparr>) of
                  Inl _ \<Rightarrow> ((502, Inl (GitMessage ''failed to list branches'')), s1) | Inr bs \<Rightarrow> ((200, Inr bs), s1))))"

text \<open>The body gives the integration, the repository and the destination, which is also the answer.\<close>

definition cloneGitRepo :: "git_call \<Rightarrow> string + string \<times> repo \<times> string \<Rightarrow> string git_handler" where
  "cloneGitRepo g body s =
     (case body of
        Inl msg \<Rightarrow> ((400, Inl (GitMessage msg)), s)
      | Inr (i, r, dest) \<Rightarrow>
         (if i = [] \<or> repo_CloneURL r = [] \<or> dest = []
          then ((400, Inl (GitMessage ''integrationId, repo.cloneUrl and dest are required'')), s)
          else (case githubClientFor g i s of
                  (Inl e, s1) \<Rightarrow> (writeIntegrationError e, s1)
                | (Inr c, s1) \<Rightarrow>
                   (let res = Clone (gt_world g) (gt_urls g) c r dest;
                        s2 = site_audit (gt_call g) ''git.clone'' ''repo'' (repo_Name r) (resultOf res) s1
                    in case res of
                         Inl _ \<Rightarrow> ((502, Inl (GitMessage ''clone failed'')), s2) | Inr _ \<Rightarrow> ((200, Inr dest), s2)))))"

section \<open>Integrations and their tokens\<close>

lemma integration_Create_nofault:
  assumes "faults d = []"
  shows "integration_Create u now kind acc ref sc d = (Inl e, d') \<Longrightarrow> d' = d"
    "integration_Create u now kind acc ref sc d = (Inr itg, d') \<Longrightarrow>
      itg_Kind itg = kind \<and> itg_SecretRef itg = ref \<and> itg_ID itg = u \<and> only_touches {''integrations''} d d' \<and>
      fst (integration_Get u d') = Inr (itg\<lparr> itg_CreatedAt := now div second * second \<rparr>)"
proof -
  show "integration_Create u now kind acc ref sc d = (Inl e, d') \<Longrightarrow> d' = d"
    using assms by (auto simp: integration_Create_def sql_insert_nofault raw_insert_def Let_def split: if_splits)
  assume c: "integration_Create u now kind acc ref sc d = (Inr itg, d')"
  define x where "x = \<lparr> itg_ID = u, itg_Kind = kind, itg_AccountRef = acc, itg_SecretRef = ref, itg_Scopes = sc, itg_CreatedAt = now \<rparr>"
  let ?r = "make_row ''integrations'' (integration_cols x)"
  have i: "itg = x" "sql_insert ''integrations'' (integration_cols x) d = (Inr (), d')"
    using c by (auto simp: integration_Create_def Let_def x_def split: prod.splits sum.splits)
  then have d': "d' = with_table ''integrations'' (tables d ''integrations'' @ [?r]) d"
    "\<not> (\<exists>y \<in> set (tables d ''integrations''). by_id u y)"
    using assms by (auto simp: sql_insert_nofault raw_insert_def rows_conflict_def unique_cols_def by_id_def
        make_row_def integration_cols_def x_def split: if_splits)
  have "fst (integration_Get u d') = Inr (scanIntegration ?r)"
    unfolding integration_Get_def using assms d'
    by (subst repo_get_last [where rs = "tables d ''integrations''"]) (simp_all add: make_row_def integration_cols_def x_def)
  moreover have "scanIntegration ?r = x\<lparr> itg_CreatedAt := now div second * second \<rparr>"
    by (simp add: scanIntegration_def make_row_def integration_cols_def x_def column_readers)
  ultimately show "itg_Kind itg = kind \<and> itg_SecretRef itg = ref \<and> itg_ID itg = u \<and> only_touches {''integrations''} d d' \<and>
      fst (integration_Get u d') = Inr (itg\<lparr> itg_CreatedAt := now div second * second \<rparr>)"
    using i(1) d'(1) assms by (simp add: x_def only_touches_def)
qed

interpretation integration_owner: secret_owner "integration_Create u now kind acc ref sc" "''integrations''" for u now kind acc ref sc
  by unfold_locales (simp_all add: integration_Create_nofault)

text \<open>A token is kept only for an integration that exists.  Whenever the request fails, because GitHub does
  not accept the token, because the secret cannot be stored or because the row cannot be written, every
  table but the audit log is as it was and the keychain has no new entry, its tool permitting.\<close>

theorem failed_integration_leaves_no_token:
  assumes "createIntegration g body s = ((code, Inl e), s')" "faults (site_db s) = []" "ss_keys s = Some ks"
    and "\<not> (\<exists>r \<in> set (tables (site_db s) ''secrets''). by_id (sn_uuid (gt_secrets g)) r)"
    and "sn_uuid (gt_secrets g) \<noteq> []" "sn_del (gt_secrets g)"
  shows "(\<forall>t. t \<noteq> ''audit_events'' \<longrightarrow> tables (site_db s') t = tables (site_db s) t) \<and>
    (\<exists>ks'. ss_keys s' = Some ks' \<and> no_new_entries ks ks')"
proof -
  have same: ?thesis if "s' = s" using that assms(3) by simp
  have audited: ?thesis if "s' = site_audit cl a tt i r s" for cl a tt i r
    using site_audit_frame [OF assms(2)] assms(3) by (simp add: that)
  show ?thesis
  proof (cases body)
    case (Inl msg)
    then show ?thesis using assms(1) by (intro same) (simp add: createIntegration_def)
  next
    case (Inr b)
    obtain kind tok where b: "b = (kind, tok)" by force
    show ?thesis
    proof (cases "kind \<noteq> ''github'' \<or> trim_space tok = []")
      case True
      then show ?thesis using assms(1) Inr by (intro same) (simp add: createIntegration_def b split: if_splits)
    next
      case False
      show ?thesis
      proof (cases "ValidateToken (gt_world g) (github_client g tok)")
        case (Inl e')
        then show ?thesis using assms(1) Inr False by (intro audited [of "gt_call g" "''integration.create''" "''integration''" "''github''" "''failure''"]) (simp add: createIntegration_def b)
      next
        case (Inr login)
        obtain r s1 where put: "on_secrets ks (secret_Put (gt_secrets g) ''integration'' login ''github-pat'' tok) s = (r, s1)" by force
        note held = put_secret [OF assms(2,6) put assms(4)]
        note go = assms(1) [unfolded createIntegration_def \<open>body = Inr b\<close> b sum.case prod.case Inr assms(3) option.case put]
        show ?thesis
        proof (cases r)
          case (Inl e')
          then have "s' = s1" using go False by simp
          then show ?thesis using held Inl by (simp add: secret_refused_def)
        next
          case (Inr ref)
          note h = conjunct1 [OF held [unfolded Inr sum.case]] conjunct2 [OF held [unfolded Inr sum.case]]
          have "\<exists>e'. create_owner (gt_secrets g) (gt_call g) ''integration.create'' ''integration'' itg_ID
              (integration_Create (cl_uuid (gt_call g)) (cl_now (gt_call g)) ''github'' login ref []) ref s1 = (Inl e', s')"
            using go False Inr by (auto split: prod.splits sum.splits)
          then obtain e' where "create_owner (gt_secrets g) (gt_call g) ''integration.create'' ''integration'' itg_ID
              (integration_Create (cl_uuid (gt_call g)) (cl_now (gt_call g)) ''github'' login ref []) ref s1 = (Inl e', s')" ..
          then show ?thesis
            by (rule integration_owner.refused_leaves_no_secret [OF h(2) assms(6) _ assms(4,5) [folded h(1)]])
        qed
      qed
    qed
  qed
qed

text \<open>An integration that was created stands for a token GitHub accepted, under the account it belongs to,
  and the client that is later made for it carries that very token; only a token that is not a line of
  printable characters comes back from the keychain as the tool prints it.\<close>

theorem created_integration_uses_its_token:
  assumes "createIntegration g (Inr (kind, tok)) s = ((201, Inr itg), s')" "faults (site_db s) = []"
    and "\<not> (\<exists>r \<in> set (tables (site_db s) ''secrets''). by_id (sn_uuid (gt_secrets g)) r)"
    and "opens_what_it_sealed (sn_aead (gt_secrets g))" "sn_aead (gt_secrets g') = sn_aead (gt_secrets g)"
    and "sn_readable (gt_secrets g')" "sn_find (gt_secrets g') = None" "prints_text (sn_prints (gt_secrets g'))"
    and "\<forall>r. sn_key (gt_secrets g) = Inr r \<longrightarrow> length r = 32" "\<forall>r. sn_nonce (gt_secrets g) = Inr r \<longrightarrow> length r = nonceSize"
  shows "ValidateToken (gt_world g) (github_client g tok) = Inr (itg_AccountRef itg) \<and>
    fst (githubClientFor g' (itg_ID itg) s') =
      Inr (github_client g' (given_back (gt_secrets g) (gt_secrets g') tok))"
proof -
  let ?env = "gt_secrets g" and ?u = "cl_uuid (gt_call g)"
  obtain login ks where v: "ValidateToken (gt_world g) (github_client g tok) = Inr login" "ss_keys s = Some ks"
    "kind = ''github''" "trim_space tok \<noteq> []"
    using assms(1) by (auto simp: createIntegration_def split: if_splits sum.splits option.splits)
  obtain r s1 where put: "on_secrets ks (secret_Put ?env ''integration'' login ''github-pat'' tok) s = (r, s1)" by force
  note go = assms(1) [unfolded createIntegration_def sum.case prod.case v(1,2) option.case put]
  then obtain ref where ref: "r = Inr ref" using v(3,4) by (cases r) simp_all
  have cr: "create_owner ?env (gt_call g) ''integration.create'' ''integration'' itg_ID
      (integration_Create ?u (cl_now (gt_call g)) ''github'' login ref []) ref s1 = (Inr itg, s')"
    using go v(3,4) ref by (auto split: prod.splits sum.splits)
  have f1: "faults (site_db s1) = []" by (rule put_secret_faults [OF assms(2) put assms(3)])
  note keep = integration_owner.created_keeps_secrets [OF f1 cr]
  obtain d' where d': "integration_Create ?u (cl_now (gt_call g)) ''github'' login ref [] (site_db s1) = (Inr itg, d')"
    "s' = site_audit (gt_call g) ''integration.create'' ''integration'' (itg_ID itg) ''ok'' (s1\<lparr> ss_panel := set_db d' (ss_panel s1) \<rparr>)"
    by (rule create_ownerE [OF cr])
  note c = integration_Create_nofault(2) [OF f1 d'(1)]
  have acc: "itg_AccountRef itg = login" using d'(1) by (auto simp: integration_Create_def Let_def split: prod.splits sum.splits)
  have f': "faults d' = []" using c only_touchesD(1) f1 by blast
  have tb: "tables (site_db s') ''integrations'' = tables d' ''integrations''"
    unfolding d'(2) using site_audit_frame(2) [of "s1\<lparr> ss_panel := set_db d' (ss_panel s1) \<rparr>" "''integrations''"] f' by simp
  have get: "integration_Get ?u (site_db s') = (Inr (itg\<lparr> itg_CreatedAt := cl_now (gt_call g) div second * second \<rparr>), site_db s')"
    using repo_get_frame [OF f' keep(3) tb] c by (metis integration_Get_def)
  have "\<exists>ks'. ss_keys s' = Some ks' \<and> secret_Get (gt_secrets g') ref (vault_of ks' (ss_panel s')) =
      (Inr (given_back ?env (gt_secrets g') tok), vault_of ks' (ss_panel s'))"
    using keep by (intro put_secret_reads_back [OF assms(2,3) put [unfolded ref] assms(4-10)])
  then obtain ks' where ks': "ss_keys s' = Some ks'" "secret_Get (gt_secrets g') ref (vault_of ks' (ss_panel s')) =
      (Inr (given_back ?env (gt_secrets g') tok), vault_of ks' (ss_panel s'))" by blast
  have sb: "set_db (site_db s') (ss_panel s') = ss_panel s'" by (simp add: set_db_def panel_db_def)
  have "fst (githubClientFor g' (itg_ID itg) s') = Inr (github_client g' (given_back ?env (gt_secrets g') tok))"
    using c ks' by (simp add: githubClientFor_def on_panel_db get sb on_secrets_def)
  then show ?thesis using v(1) acc by simp
qed

section \<open>The properties at concrete inputs\<close>

definition demo_github :: github_world where
  "demo_github = \<lparr> gw_build = (\<lambda>_. None), gw_http = (\<lambda>q. Inr (if hr_Authorization q = Some ''Bearer ok'' then 200 else 401, ''-'')),
     gw_parse = (\<lambda>_. Some (JObj [(''login'', JStr ''me'')])), gw_git = (\<lambda>_. ([], True)) \<rparr>"

definition demo_git_call :: git_call where
  "demo_git_call = \<lparr> gt_call = demo_call ''i1'', gt_secrets = demo_secret_env\<lparr> sn_uuid := ''k1'', sn_add := None, sn_del := True \<rparr>,
     gt_world = demo_github, gt_urls = \<lparr> ul_Parse = Inl, ul_String = u_Host \<rparr>, gt_baseURL = [] \<rparr>"

definition demo_git_site :: secret_site where
  "demo_git_site = \<lparr> ss_panel = demo_panel [] [], ss_keys = Some \<lparr> ks_keychain = Map.empty, ks_keyfile = None \<rparr> \<rparr>"

lemma demo_git_ok:
  "faults (site_db demo_git_site) = []" "tables (site_db demo_git_site) t = []"
  "ss_keys demo_git_site = Some \<lparr> ks_keychain = Map.empty, ks_keyfile = None \<rparr>"
  "sn_uuid (gt_secrets demo_git_call) = ''k1''" "sn_del (gt_secrets demo_git_call)" "sn_add (gt_secrets demo_git_call) = None"
  "sn_aead (gt_secrets demo_git_call) = toy_aead" "sn_readable (gt_secrets demo_git_call)" "sn_find (gt_secrets demo_git_call) = None"
  "sn_key (gt_secrets demo_git_call) = Inr (replicate 32 CHR 0x41)" "sn_nonce (gt_secrets demo_git_call) = Inr (replicate 12 CHR 0x42)"
  by (simp_all add: demo_git_site_def demo_panel_def panel_db_def demo_git_call_def)

theorem failed_integration_leaves_no_token_witness:
  "\<exists>e s'. createIntegration demo_git_call (Inr (''github'', ''bad'')) demo_git_site = ((400, Inl e), s') \<and> tables (site_db s') ''secrets'' = []"
proof -
  obtain c res s' where go: "createIntegration demo_git_call (Inr (''github'', ''bad'')) demo_git_site = ((c, res), s')" by (metis surj_pair)
  have "(case fst (createIntegration demo_git_call (Inr (''github'', ''bad'')) demo_git_site) of (c, r) \<Rightarrow> c = 400 \<and> isl r)" by code_simp
  with go obtain e where r: "createIntegration demo_git_call (Inr (''github'', ''bad'')) demo_git_site = ((400, Inl e), s')" by (cases res) simp_all
  have f: "\<not> (\<exists>r \<in> set (tables (site_db demo_git_site) ''secrets''). by_id (sn_uuid (gt_secrets demo_git_call)) r)"
    "sn_uuid (gt_secrets demo_git_call) \<noteq> []" by (simp_all add: demo_git_ok)
  from failed_integration_leaves_no_token [OF r demo_git_ok(1,3) f demo_git_ok(5)] show ?thesis by (simp add: r demo_git_ok)
qed

theorem created_integration_uses_its_token_witness:
  "\<exists>itg s'. createIntegration demo_git_call (Inr (''github'', ''ok'')) demo_git_site = ((201, Inr itg), s') \<and>
     fst (githubClientFor demo_git_call (itg_ID itg) s') = Inr (github_client demo_git_call ''ok'')"
proof -
  obtain c res s' where go: "createIntegration demo_git_call (Inr (''github'', ''ok'')) demo_git_site = ((c, res), s')" by (metis surj_pair)
  have "(case fst (createIntegration demo_git_call (Inr (''github'', ''ok'')) demo_git_site) of (c, r) \<Rightarrow> c = 201 \<and> \<not> isl r)" by code_simp
  with go obtain itg where r: "createIntegration demo_git_call (Inr (''github'', ''ok'')) demo_git_site = ((201, Inr itg), s')" by (cases res) simp_all
  have h: "\<not> (\<exists>r \<in> set (tables (site_db demo_git_site) ''secrets''). by_id (sn_uuid (gt_secrets demo_git_call)) r)"
    "opens_what_it_sealed (sn_aead (gt_secrets demo_git_call))" "\<forall>r. sn_key (gt_secrets demo_git_call) = Inr r \<longrightarrow> length r = 32"
    "\<forall>r. sn_nonce (gt_secrets demo_git_call) = Inr r \<longrightarrow> length r = nonceSize"
    "prints_text (sn_prints (gt_secrets demo_git_call))"
    using demo_prints_text by (simp_all add: demo_git_ok toy_aead_laws nonceSize_def, simp add: demo_git_call_def)
  have t: "printable ''ok''" by code_simp
  from created_integration_uses_its_token [OF r demo_git_ok(1) h(1,2) refl demo_git_ok(8,9) h(5,3,4)] show ?thesis
    by (simp add: r given_back_simps(2) t)
qed

end
