(* ===== verification/DbAdmin.thy ===== *)
theory DbAdmin
  imports Connections Secrets Decimal
begin

text \<open>
  The engine of the database administration tool, \<open>internal/providers/dbadmin/dbadmin.go\<close>: pooled
  connections to MySQL and PostgreSQL servers, listing, browsing and free queries.

  The drivers and the servers behind them are the record \<open>engine\<close>.  A pool is a pointer shared by the
  cache and the callers, so pools live in a store and are named by their address, which is used once.
\<close>

definition rowLimit :: nat where "rowLimit = 200"

datatype cell = CNull | CInt int | CBool bool | CBytes bytes | CStr string | COther string

record query_result =
  qr_Columns :: "string list"
  qr_Rows :: "cell list list"
  qr_RowsAffected :: int
  qr_DurationMS :: int
  qr_Truncated :: bool

record column_info =
  ci_Name :: string
  ci_Type :: string
  ci_Nullable :: bool

record pool =
  po_driver :: string
  po_dsn :: string
  po_closed :: bool

record dbadmin =
  da_pools :: "(string \<times> nat) list"
  da_conns :: "nat \<Rightarrow> pool option"
  da_next :: nat

definition new_dbadmin :: dbadmin where
  "new_dbadmin = \<lparr> da_pools = [], da_conns = Map.empty, da_next = 0 \<rparr>"

text \<open>What a query yields: the columns, each row or the failure to scan it, and an error at the end.\<close>

record cursor =
  cu_columns :: "string + string list"
  cu_rows :: "(string + cell list) list"
  cu_err :: "string option"

record engine =
  en_open :: "string \<Rightarrow> string \<Rightarrow> string option"
  en_ping :: "string \<Rightarrow> string \<Rightarrow> string option"
  en_query :: "string \<Rightarrow> string \<Rightarrow> string list \<Rightarrow> string + cursor"
  en_exec :: "string \<Rightarrow> string \<Rightarrow> string + int"
  en_elapsed :: int

datatype dbadmin_error =
    ConnRefused dbconn_error
  | PasswordUnresolved secret_error
  | OpenRefused string
  | PingRefused string
  | QueryRefused string
  | NotATable string string

section \<open>Connections\<close>

definition defaultDatabase :: "db_connection \<Rightarrow> string" where
  "defaultDatabase c =
     (if dbc_DatabaseName c \<noteq> [] then dbc_DatabaseName c else if dbc_Kind c = KindPostgres then ''postgres'' else [])"

definition buildDSN :: "db_connection \<Rightarrow> string \<Rightarrow> string \<Rightarrow> string \<times> string" where
  "buildDSN c database password =
     (if dbc_Kind c = KindMySQL
      then (dbc_Username c @ '':'' @ password @ ''@tcp('' @ dbc_Host c @ '':'' @ itoa (dbc_Port c) @ '')/'' @ database @ ''?parseTime=true'', ''mysql'')
      else (''postgres://'' @ dbc_Username c @ '':'' @ password @ ''@'' @ dbc_Host c @ '':'' @ itoa (dbc_Port c) @ ''/'' @ database @ ''?sslmode=prefer'', ''pgx''))"

definition pool_key :: "string \<Rightarrow> string \<Rightarrow> string" where
  "pool_key connID database = connID @ [CHR 0x00] @ database"

definition close_pool :: "nat \<Rightarrow> dbadmin \<Rightarrow> dbadmin" where
  "close_pool a p = p\<lparr> da_conns := (da_conns p)(a := map_option (\<lambda>q. q\<lparr> po_closed := True \<rparr>) (da_conns p a)) \<rparr>"

text \<open>Open a pool and try it out; one that does not answer is closed again.\<close>

definition new_pool :: "engine \<Rightarrow> string \<Rightarrow> string \<Rightarrow> dbadmin \<Rightarrow> (dbadmin_error + nat) \<times> dbadmin" where
  "new_pool en driver dsn p =
     (case en_open en driver dsn of
        Some msg \<Rightarrow> (Inl (OpenRefused msg), p)
      | None \<Rightarrow>
         (let a = da_next p;
              p1 = p\<lparr> da_conns := (da_conns p)(a \<mapsto> \<lparr> po_driver = driver, po_dsn = dsn, po_closed = False \<rparr>), da_next := Suc a \<rparr>
          in case en_ping en driver dsn of
               Some msg \<Rightarrow> (Inl (PingRefused msg), close_pool a p1)
             | None \<Rightarrow> (Inr a, p1)))"

definition enter_pool :: "string \<Rightarrow> nat \<Rightarrow> dbadmin \<Rightarrow> dbadmin" where
  "enter_pool key a p = p\<lparr> da_pools := (key, a) # filter (\<lambda>e. fst e \<noteq> key) (da_pools p) \<rparr>"

definition resolve_password :: "secret_env \<Rightarrow> db_connection \<Rightarrow> vault \<Rightarrow> (dbadmin_error + string) \<times> vault" where
  "resolve_password env c v =
     (if dbc_SecretRef c = [] then (Inr [], v)
      else (case secret_Get env (dbc_SecretRef c) v of
              (Inl e, v') \<Rightarrow> (Inl (PasswordUnresolved e), v') | (Inr b, v') \<Rightarrow> (Inr b, v')))"

definition admin_open ::
  "engine \<Rightarrow> secret_env \<Rightarrow> string \<Rightarrow> string \<Rightarrow> vault \<times> dbadmin \<Rightarrow> (dbadmin_error + nat \<times> db_connection) \<times> vault \<times> dbadmin" where
  "admin_open en env connID database = (\<lambda>(v, p).
     case on_vault_db (conn_Get connID) v of
       (Inl e, v1) \<Rightarrow> (Inl (ConnRefused e), (v1, p))
     | (Inr c, v1) \<Rightarrow>
        (let database' = (if database = [] then defaultDatabase c else database);
             key = pool_key connID database'
         in case map_of (da_pools p) key of
              Some a \<Rightarrow> (Inr (a, c), (v1, p))
            | None \<Rightarrow>
               (case resolve_password env c v1 of
                  (Inl e, v2) \<Rightarrow> (Inl e, (v2, p))
                | (Inr password, v2) \<Rightarrow>
                   (case buildDSN c database' password of
                      (dsn, driver) \<Rightarrow>
                        (case new_pool en driver dsn p of
                           (Inl e, p1) \<Rightarrow> (Inl e, (v2, p1))
                         | (Inr a, p1) \<Rightarrow> (Inr (a, c), (v2, enter_pool key a p1)))))))"

fun close_all :: "nat list \<Rightarrow> dbadmin \<Rightarrow> dbadmin" where
  "close_all [] p = p"
| "close_all (a # as) p = close_all as (close_pool a p)"

definition admin_CloseAll :: "dbadmin \<Rightarrow> dbadmin" where
  "admin_CloseAll p = (close_all (map snd (da_pools p)) p)\<lparr> da_pools := [] \<rparr>"

definition of_connection :: "string \<Rightarrow> string \<times> nat \<Rightarrow> bool" where
  "of_connection connID e \<longleftrightarrow> has_prefix (fst e) (connID @ [CHR 0x00])"

definition Evict :: "string \<Rightarrow> dbadmin \<Rightarrow> dbadmin" where
  "Evict connID p =
     (close_all (map snd (filter (of_connection connID) (da_pools p))) p)
       \<lparr> da_pools := filter (\<lambda>e. \<not> of_connection connID e) (da_pools p) \<rparr>"

section \<open>Queries\<close>

definition closed_message :: string where "closed_message = ''sql: database is closed''"

definition pool_query :: "engine \<Rightarrow> nat \<Rightarrow> string \<Rightarrow> string list \<Rightarrow> dbadmin \<Rightarrow> dbadmin_error + cursor" where
  "pool_query en a sql args p =
     (case da_conns p a of
        None \<Rightarrow> Inl (QueryRefused closed_message)
      | Some q \<Rightarrow> if po_closed q then Inl (QueryRefused closed_message)
                  else (case en_query en (po_dsn q) sql args of Inl msg \<Rightarrow> Inl (QueryRefused msg) | Inr cu \<Rightarrow> Inr cu))"

definition pool_exec :: "engine \<Rightarrow> nat \<Rightarrow> string \<Rightarrow> dbadmin \<Rightarrow> dbadmin_error + int" where
  "pool_exec en a sql p =
     (case da_conns p a of
        None \<Rightarrow> Inl (QueryRefused closed_message)
      | Some q \<Rightarrow> if po_closed q then Inl (QueryRefused closed_message)
                  else (case en_exec en (po_dsn q) sql of Inl msg \<Rightarrow> Inl (QueryRefused msg) | Inr n \<Rightarrow> Inr n))"

fun normalizeValue :: "cell \<Rightarrow> cell" where
  "normalizeValue (CBytes b) = CStr b"
| "normalizeValue v = v"

fun scan_rows :: "nat \<Rightarrow> (string + cell list) list \<Rightarrow> string + cell list list \<times> bool" where
  "scan_rows n [] = Inr ([], False)"
| "scan_rows n (r # rs) =
     (if n \<ge> rowLimit then Inr ([], True)
      else (case r of
              Inl e \<Rightarrow> Inl e
            | Inr vs \<Rightarrow> (case scan_rows (Suc n) rs of
                           Inl e \<Rightarrow> Inl e | Inr (out, t) \<Rightarrow> Inr (map normalizeValue vs # out, t))))"

definition looksLikeSelect :: "string \<Rightarrow> bool" where
  "looksLikeSelect sql =
     (let upper = to_upper (trim_space sql) in
      list_ex (has_prefix upper) [''SELECT'', ''SHOW'', ''EXPLAIN'', ''WITH'', ''DESCRIBE'', ''DESC '', ''PRAGMA''])"

definition runAndScan :: "engine \<Rightarrow> nat \<Rightarrow> string \<Rightarrow> dbadmin \<Rightarrow> dbadmin_error + query_result" where
  "runAndScan en a sql p =
     (if \<not> looksLikeSelect sql
      then (case pool_exec en a sql p of
              Inl e \<Rightarrow> Inl e
            | Inr n \<Rightarrow> Inr \<lparr> qr_Columns = [], qr_Rows = [], qr_RowsAffected = n, qr_DurationMS = en_elapsed en, qr_Truncated = False \<rparr>)
      else
       (case pool_query en a sql [] p of
          Inl e \<Rightarrow> Inl e
        | Inr cu \<Rightarrow>
           (case cu_columns cu of
              Inl e \<Rightarrow> Inl (QueryRefused e)
            | Inr cols \<Rightarrow>
               (case scan_rows 0 (cu_rows cu) of
                  Inl e \<Rightarrow> Inl (QueryRefused e)
                | Inr (rows, truncated) \<Rightarrow>
                   (case (if truncated then None else cu_err cu) of
                      Some e \<Rightarrow> Inl (QueryRefused e)
                    | None \<Rightarrow> Inr \<lparr> qr_Columns = cols, qr_Rows = rows, qr_RowsAffected = 0,
                                   qr_DurationMS = en_elapsed en, qr_Truncated = truncated \<rparr>)))))"

definition quote_char :: "string \<Rightarrow> char" where
  "quote_char kind = (if kind = KindMySQL then CHR 0x60 else CHR 0x22)"

definition quoteIdent :: "string \<Rightarrow> string \<Rightarrow> string" where
  "quoteIdent kind i =
     (if kind = KindMySQL then [CHR 0x60] @ replace_all [CHR 0x60] [CHR 0x60, CHR 0x60] i @ [CHR 0x60]
      else [CHR 0x22] @ replace_all [CHR 0x22] [CHR 0x22, CHR 0x22] i @ [CHR 0x22])"

text \<open>Scanning one text, or three, from every row; a later error is an error of the whole.\<close>

definition cell_text :: "cell \<Rightarrow> string option" where
  "cell_text c =
     (case c of CNull \<Rightarrow> None | CInt n \<Rightarrow> Some (itoa n) | CBool b \<Rightarrow> Some (if b then ''true'' else ''false'')
      | CBytes s \<Rightarrow> Some s | CStr s \<Rightarrow> Some s | COther s \<Rightarrow> Some s)"

definition scan_message :: string where "scan_message = ''sql: Scan error''"

fun scan_texts :: "nat \<Rightarrow> (string + cell list) list \<Rightarrow> string + string list list" where
  "scan_texts k [] = Inr []"
| "scan_texts k (r # rs) =
     (case r of
        Inl e \<Rightarrow> Inl e
      | Inr vs \<Rightarrow>
         (if length vs \<noteq> k \<or> None \<in> set (map cell_text vs) then Inl scan_message
          else (case scan_texts k rs of Inl e \<Rightarrow> Inl e | Inr out \<Rightarrow> Inr (map (the \<circ> cell_text) vs # out))))"

definition query_texts :: "engine \<Rightarrow> nat \<Rightarrow> string \<Rightarrow> string list \<Rightarrow> nat \<Rightarrow> dbadmin \<Rightarrow> dbadmin_error + string list list" where
  "query_texts en a sql args k p =
     (case pool_query en a sql args p of
        Inl e \<Rightarrow> Inl e
      | Inr cu \<Rightarrow>
         (case scan_texts k (cu_rows cu) of
            Inl e \<Rightarrow> Inl (QueryRefused e)
          | Inr rows \<Rightarrow> (case cu_err cu of Some e \<Rightarrow> Inl (QueryRefused e) | None \<Rightarrow> Inr rows)))"

type_synonym 'a admin_op = "vault \<times> dbadmin \<Rightarrow> (dbadmin_error + 'a) \<times> vault \<times> dbadmin"

text \<open>Open the connection, then ask it something.\<close>

definition with_pool ::
  "engine \<Rightarrow> secret_env \<Rightarrow> string \<Rightarrow> string \<Rightarrow> (nat \<Rightarrow> db_connection \<Rightarrow> dbadmin \<Rightarrow> dbadmin_error + 'a) \<Rightarrow> 'a admin_op" where
  "with_pool en env connID database ask s =
     (case admin_open en env connID database s of
        (Inl e, s1) \<Rightarrow> (Inl e, s1)
      | (Inr (a, c), (v1, p1)) \<Rightarrow> (ask a c p1, (v1, p1)))"

definition admin_TestConnection :: "engine \<Rightarrow> secret_env \<Rightarrow> string \<Rightarrow> unit admin_op" where
  "admin_TestConnection en env connID =
     with_pool en env connID [] (\<lambda>a c p.
       case da_conns p a of
         None \<Rightarrow> Inl (PingRefused closed_message)
       | Some q \<Rightarrow> if po_closed q then Inl (PingRefused closed_message)
                   else (case en_ping en (po_driver q) (po_dsn q) of Some msg \<Rightarrow> Inl (PingRefused msg) | None \<Rightarrow> Inr ()))"

definition ListDatabases :: "engine \<Rightarrow> secret_env \<Rightarrow> string \<Rightarrow> string list admin_op" where
  "ListDatabases en env connID =
     with_pool en env connID [] (\<lambda>a c p.
       map_sum id concat (query_texts en a
         (if dbc_Kind c = KindMySQL then ''SHOW DATABASES''
          else ''SELECT datname FROM pg_database WHERE datistemplate = false ORDER BY datname'') [] 1 p))"

definition public_schema :: string where "public_schema = [CHR 0x27] @ ''public'' @ [CHR 0x27]"

definition ListTables :: "engine \<Rightarrow> secret_env \<Rightarrow> string \<Rightarrow> string \<Rightarrow> string list admin_op" where
  "ListTables en env connID database =
     with_pool en env connID database (\<lambda>a c p.
       map_sum id concat
         (if dbc_Kind c = KindMySQL
          then query_texts en a ''SELECT table_name FROM information_schema.tables WHERE table_schema = ? ORDER BY table_name'' [database] 1 p
          else query_texts en a (''SELECT table_name FROM information_schema.tables WHERE table_schema = '' @ public_schema @ '' ORDER BY table_name'') [] 1 p))"

text \<open>A table is looked up in a list fetched from the server before it is used in a query.\<close>

definition with_table_of ::
  "engine \<Rightarrow> secret_env \<Rightarrow> string \<Rightarrow> string \<Rightarrow> string \<Rightarrow> (nat \<Rightarrow> db_connection \<Rightarrow> dbadmin \<Rightarrow> dbadmin_error + 'a) \<Rightarrow> 'a admin_op" where
  "with_table_of en env connID database tab ask s =
     (case ListTables en env connID database s of
        (Inl e, s1) \<Rightarrow> (Inl e, s1)
      | (Inr tabs, s1) \<Rightarrow>
         (if tab \<notin> set tabs then (Inl (NotATable tab database), s1)
          else with_pool en env connID database ask s1))"

definition column_of :: "string list \<Rightarrow> column_info" where
  "column_of r = \<lparr> ci_Name = r ! 0, ci_Type = r ! 1, ci_Nullable = equal_fold (r ! 2) ''YES'' \<rparr>"

definition ListColumns :: "engine \<Rightarrow> secret_env \<Rightarrow> string \<Rightarrow> string \<Rightarrow> string \<Rightarrow> column_info list admin_op" where
  "ListColumns en env connID database tab =
     with_table_of en env connID database tab (\<lambda>a c p.
       map_sum id (map column_of)
         (if dbc_Kind c = KindMySQL
          then query_texts en a ''SELECT column_name, data_type, is_nullable FROM information_schema.columns WHERE table_schema = ? AND table_name = ? ORDER BY ordinal_position'' [database, tab] 3 p
          else query_texts en a (''SELECT column_name, data_type, is_nullable FROM information_schema.columns WHERE table_schema = '' @ public_schema @ '' AND table_name = $1 ORDER BY ordinal_position'') [tab] 3 p))"

definition browse_query :: "string \<Rightarrow> string \<Rightarrow> int \<Rightarrow> string" where
  "browse_query kind tab offset =
     ''SELECT * FROM '' @ quoteIdent kind tab @ '' LIMIT '' @ itoa (int rowLimit) @ '' OFFSET '' @ itoa (if offset < 0 then 0 else offset)"

definition BrowseTable :: "engine \<Rightarrow> secret_env \<Rightarrow> string \<Rightarrow> string \<Rightarrow> string \<Rightarrow> int \<Rightarrow> query_result admin_op" where
  "BrowseTable en env connID database tab offset =
     with_table_of en env connID database tab (\<lambda>a c p. runAndScan en a (browse_query (dbc_Kind c) tab offset) p)"

definition RunQuery :: "engine \<Rightarrow> secret_env \<Rightarrow> string \<Rightarrow> string \<Rightarrow> string \<Rightarrow> query_result admin_op" where
  "RunQuery en env connID database sql =
     with_pool en env connID database (\<lambda>a c p. runAndScan en a sql p)"

section \<open>The engine only reads the database\<close>

lemma secret_lookup_nofault:
  assumes "faults (vt_db v) = []"
  shows "secret_lookup ref v = (case filter (by_id ref) (tables (vt_db v) ''secrets'') of [] \<Rightarrow> Inl SecretNotFound | r # _ \<Rightarrow> Inr r, v)"
  using assms by (simp add: secret_lookup_def on_vault_db_def sql_query_row_nofault split: list.split)

lemma secret_decrypt_db: "vt_db (snd (secret_decrypt env b v)) = vt_db v"
  by (auto simp: secret_decrypt_def loadOrCreateKey_def split: option.splits sum.splits)

lemma secret_Get_db:
  assumes "faults (vt_db v) = []"
  shows "vt_db (snd (secret_Get env ref v)) = vt_db v"
  by (simp add: secret_Get_def secret_lookup_nofault [OF assms] secret_decrypt_db Let_def split: list.split)

lemma resolve_password_db:
  assumes "faults (vt_db v) = []"
  shows "vt_db (snd (resolve_password env c v)) = vt_db v"
  using secret_Get_db [OF assms, of env "dbc_SecretRef c"]
  by (auto simp: resolve_password_def split: prod.splits sum.splits)

lemma admin_open_db:
  assumes "faults (vt_db v) = []"
  shows "vt_db (fst (snd (admin_open en env c d (v, p)))) = vt_db v"
proof -
  obtain r where g: "on_vault_db (conn_Get c) v = (r, v)"
    using assms by (force simp: on_vault_db_def conn_Get_def repo_get_nofault split: list.split)
  show ?thesis
  proof (cases r)
    case (Inr k)
    then show ?thesis
      using resolve_password_db [OF assms, of env k]
      by (auto simp: admin_open_def g Let_def split: prod.splits sum.splits option.splits)
  qed (simp add: admin_open_def g)
qed

lemma with_pool_db:
  assumes "faults (vt_db v) = []"
  shows "vt_db (fst (snd (with_pool en env c d ask (v, p)))) = vt_db v"
  using admin_open_db [OF assms, of en env c d p] by (auto simp: with_pool_def split: prod.splits sum.splits)

section \<open>Pools are neither lost nor kept\<close>

text \<open>The requests the administration tool serves, one at a time, and the states they can bring it to.\<close>

datatype admin_request =
    AskTest string
  | AskDatabases string
  | AskTables string string
  | AskColumns string string string
  | AskBrowse string string string int
  | AskQuery string string string
  | AskEvict string
  | AskCloseAll

fun serve_admin :: "engine \<Rightarrow> secret_env \<Rightarrow> admin_request \<Rightarrow> vault \<Rightarrow> dbadmin \<Rightarrow> dbadmin" where
  "serve_admin en env (AskTest c) v p = snd (snd (admin_TestConnection en env c (v, p)))"
| "serve_admin en env (AskDatabases c) v p = snd (snd (ListDatabases en env c (v, p)))"
| "serve_admin en env (AskTables c d) v p = snd (snd (ListTables en env c d (v, p)))"
| "serve_admin en env (AskColumns c d t) v p = snd (snd (ListColumns en env c d t (v, p)))"
| "serve_admin en env (AskBrowse c d t n) v p = snd (snd (BrowseTable en env c d t n (v, p)))"
| "serve_admin en env (AskQuery c d q) v p = snd (snd (RunQuery en env c d q (v, p)))"
| "serve_admin en env (AskEvict c) v p = Evict c p"
| "serve_admin en env AskCloseAll v p = admin_CloseAll p"

inductive admin_reach :: "dbadmin \<Rightarrow> bool" where
  start: "admin_reach new_dbadmin"
| serve: "admin_reach p \<Longrightarrow> admin_reach (serve_admin en env req v p)"

definition open_handle :: "dbadmin \<Rightarrow> nat \<Rightarrow> bool" where
  "open_handle p a = (case da_conns p a of None \<Rightarrow> False | Some q \<Rightarrow> \<not> po_closed q)"

definition pools_exact :: "dbadmin \<Rightarrow> bool" where
  "pools_exact p \<longleftrightarrow>
     distinct (map fst (da_pools p)) \<and> distinct (map snd (da_pools p)) \<and>
     (\<forall>a. open_handle p a \<longleftrightarrow> a \<in> snd ` set (da_pools p)) \<and> (\<forall>a. da_next p \<le> a \<longrightarrow> da_conns p a = None)"

lemma pools_exactD:
  assumes "pools_exact p"
  shows "distinct (map fst (da_pools p))" "distinct (map snd (da_pools p))"
    "\<And>a. open_handle p a \<longleftrightarrow> a \<in> snd ` set (da_pools p)" "\<And>a. da_next p \<le> a \<Longrightarrow> da_conns p a = None"
  using assms by (simp_all add: pools_exact_def)

lemma close_pool_simps [simp]:
  "da_pools (close_pool a p) = da_pools p" "da_next (close_pool a p) = da_next p"
  "open_handle (close_pool a p) b \<longleftrightarrow> open_handle p b \<and> b \<noteq> a"
  "da_conns (close_pool a p) b = None \<longleftrightarrow> da_conns p b = None"
  by (auto simp: close_pool_def open_handle_def split: option.splits)

lemma close_all_simps [simp]:
  "da_pools (close_all as p) = da_pools p" "da_next (close_all as p) = da_next p"
  "open_handle (close_all as p) b \<longleftrightarrow> open_handle p b \<and> b \<notin> set as"
  "da_conns (close_all as p) b = None \<longleftrightarrow> da_conns p b = None"
  by (induction as p rule: close_all.induct) auto

lemma open_handle_update [simp]: "open_handle (p\<lparr> da_pools := x \<rparr>) = open_handle p"
  by (simp add: fun_eq_iff open_handle_def)

lemma dropped_pools_exact:
  assumes "pools_exact p"
  shows "pools_exact ((close_all (map snd (filter P (da_pools p))) p)\<lparr> da_pools := filter (\<lambda>e. \<not> P e) (da_pools p) \<rparr>)"
proof -
  have "(a \<in> snd ` set (da_pools p) \<and> a \<notin> snd ` {e \<in> set (da_pools p). P e}) \<longleftrightarrow>
      a \<in> snd ` {e \<in> set (da_pools p). \<not> P e}" for a
    using pools_exactD(2) [OF assms] by (auto simp: distinct_map inj_on_def)
  then show ?thesis
    using pools_exactD [OF assms] by (auto simp: pools_exact_def distinct_map inj_on_def)
qed

lemma Evict_exact: "pools_exact p \<Longrightarrow> pools_exact (Evict c p)"
  unfolding Evict_def by (rule dropped_pools_exact)

lemma CloseAll_exact: "pools_exact p \<Longrightarrow> pools_exact (admin_CloseAll p)"
  using dropped_pools_exact [of p "\<lambda>_. True"] by (simp add: admin_CloseAll_def)

lemma new_pool_exact:
  assumes "pools_exact p" "new_pool en driver dsn p = (r, p1)" "key \<notin> fst ` set (da_pools p)"
  shows "case r of Inl e \<Rightarrow> pools_exact p1 | Inr a \<Rightarrow> pools_exact (enter_pool key a p1)"
proof -
  note ex = pools_exactD [OF assms(1)]
  have n: "(k, da_next p) \<notin> set (da_pools p)" for k
    using ex(3,4) [of "da_next p"] by (force simp: open_handle_def)
  have f: "filter (\<lambda>e. fst e \<noteq> key) (da_pools p) = da_pools p" using assms(3) by (auto simp: filter_id_conv)
  define p0 where "p0 = p\<lparr> da_conns := (da_conns p)(da_next p \<mapsto> \<lparr> po_driver = driver, po_dsn = dsn, po_closed = False \<rparr>), da_next := Suc (da_next p) \<rparr>"
  have p0: "da_pools p0 = da_pools p" "da_next p0 = Suc (da_next p)" "\<And>a. open_handle p0 a \<longleftrightarrow> a = da_next p \<or> open_handle p a"
    "\<And>a. da_conns p0 a = None \<longleftrightarrow> a \<noteq> da_next p \<and> da_conns p a = None"
    by (auto simp: p0_def open_handle_def)
  have "pools_exact (close_pool (da_next p) p0)"
    using ex n by (auto simp: pools_exact_def p0)
  moreover have "pools_exact (enter_pool key (da_next p) p0)"
    using ex n assms(3) by (auto simp: pools_exact_def p0 enter_pool_def f)
  ultimately show ?thesis
    using assms(1,2) by (auto simp: new_pool_def p0_def [symmetric] Let_def split: option.splits)
qed

lemma enter_new_pool_exact:
  assumes "pools_exact p" "map_of (da_pools p) key = None"
  shows "pools_exact (snd (case new_pool en driver dsn p of (Inl e, p1) \<Rightarrow> (Inl e, p1) | (Inr a, p1) \<Rightarrow> (Inr (a, c), enter_pool key a p1)))"
proof -
  obtain r p1 where n: "new_pool en driver dsn p = (r, p1)" by (metis surj_pair)
  have "key \<notin> fst ` set (da_pools p)" using assms(2) by (simp add: map_of_eq_None_iff)
  note new_pool_exact [OF assms(1) n this]
  then show ?thesis by (cases r) (simp_all add: n)
qed

lemma admin_open_exact:
  assumes "pools_exact p"
  shows "pools_exact (snd (snd (admin_open en env c d (v, p))))"
proof -
  obtain r v1 where g: "on_vault_db (conn_Get c) v = (r, v1)" by (metis surj_pair)
  show ?thesis
  proof (cases r)
    case (Inr k)
    let ?key = "pool_key c (if d = [] then defaultDatabase k else d)"
    show ?thesis
    proof (cases "map_of (da_pools p) ?key")
      case None
      obtain pw v2 where pw: "resolve_password env k v1 = (pw, v2)" by (metis surj_pair)
      show ?thesis
      proof (cases pw)
        case (Inr w)
        obtain dsn driver where "buildDSN k (if d = [] then defaultDatabase k else d) w = (dsn, driver)" by (metis surj_pair)
        then show ?thesis
          using enter_new_pool_exact [OF assms None, where en = en and driver = driver and dsn = dsn and c = k] \<open>r = Inr k\<close> Inr None
          by (simp add: admin_open_def g Let_def pw split: prod.splits sum.splits if_splits)
      qed (simp add: admin_open_def g Inr None Let_def pw assms)
    qed (simp add: admin_open_def g Inr Let_def assms)
  qed (simp add: admin_open_def g assms)
qed

lemma with_pool_exact:
  assumes "pools_exact p"
  shows "pools_exact (snd (snd (with_pool en env c d ask (v, p))))"
  using admin_open_exact [OF assms, of en env c d v] by (auto simp: with_pool_def split: prod.splits sum.splits)

lemma with_table_exact:
  assumes "pools_exact p"
  shows "pools_exact (snd (snd (with_table_of en env c d t ask (v, p))))"
proof -
  obtain r v1 p1 where l: "ListTables en env c d (v, p) = (r, (v1, p1))" by (metis surj_pair)
  have "pools_exact (snd (snd (ListTables en env c d (v, p))))" unfolding ListTables_def by (rule with_pool_exact [OF assms])
  then have "pools_exact p1" by (simp add: l)
  then show ?thesis by (simp add: with_table_of_def l with_pool_exact split: sum.splits)
qed

lemma serve_admin_exact:
  assumes "pools_exact p"
  shows "pools_exact (serve_admin en env req v p)"
  using assms
  by (cases req)
    (simp_all only: serve_admin.simps admin_TestConnection_def ListDatabases_def ListTables_def ListColumns_def BrowseTable_def
      RunQuery_def with_pool_exact with_table_exact Evict_exact CloseAll_exact)

lemma reach_exact: "admin_reach p \<Longrightarrow> pools_exact p"
proof (induction rule: admin_reach.induct)
  case start
  show ?case by (simp add: pools_exact_def new_dbadmin_def open_handle_def)
next
  case (serve p en env req v)
  from serve.IH show ?case by (rule serve_admin_exact)
qed

lemma Evict_handles:
  assumes "pools_exact p"
  shows "open_handle (Evict c p) a \<longleftrightarrow> (\<exists>key. (key, a) \<in> set (da_pools p) \<and> \<not> has_prefix key (c @ [CHR 0x00]))"
    "(key, a) \<in> set (da_pools p) \<Longrightarrow> open_handle p a"
proof -
  have "open_handle (Evict c p) a \<longleftrightarrow> a \<in> snd ` set (da_pools (Evict c p))"
    using pools_exactD(3) [OF Evict_exact [OF assms]] .
  then show "open_handle (Evict c p) a \<longleftrightarrow> (\<exists>key. (key, a) \<in> set (da_pools p) \<and> \<not> has_prefix key (c @ [CHR 0x00]))"
    by (force simp: Evict_def of_connection_def)
  show "(key, a) \<in> set (da_pools p) \<Longrightarrow> open_handle p a"
    using pools_exactD(3) [OF assms, of a] by (metis image_eqI snd_conv)
qed

text \<open>C30: whatever the connections, secrets and servers do, serving requests never leaves two pools for one
  connection and database, nor a database handle that is open and not pooled, nor a pooled one that is
  closed.\<close>

theorem open_handles_are_the_pooled_ones:
  assumes "admin_reach p"
  shows "distinct (map fst (da_pools p)) \<and> (\<forall>a. open_handle p a \<longleftrightarrow> a \<in> snd ` set (da_pools p))"
  using reach_exact [OF assms] by (simp add: pools_exact_def)

text \<open>evicting a connection, as its deletion does, closes every handle it has open, on whatever database, and
  no other; none of its pools is left to be found by a later request.\<close>

theorem Evict_closes_the_connections_handles:
  assumes "admin_reach p"
  shows "(\<forall>a. open_handle (Evict c p) a \<longleftrightarrow> (\<exists>key. (key, a) \<in> set (da_pools p) \<and> \<not> has_prefix key (c @ [CHR 0x00]))) \<and>
    (\<forall>d. map_of (da_pools (Evict c p)) (pool_key c d) = None)"
proof -
  have "map_of (da_pools (Evict c p)) (pool_key c d) = None" for d
    by (auto simp: map_of_eq_None_iff Evict_def of_connection_def pool_key_def has_prefix_def)
  then show ?thesis using Evict_handles(1) [OF reach_exact [OF assms]] by blast
qed

section \<open>Identifiers in queries\<close>

text \<open>
  How a server reads a quoted identifier: after the opening quote up to a quote that is not doubled, each
  doubled quote standing for one.  The result is the name and what follows it.
\<close>

fun read_ident :: "char \<Rightarrow> string \<Rightarrow> (string \<times> string) option" where
  "read_ident q [] = None"
| "read_ident q (c # cs) =
     (if c \<noteq> q then (case read_ident q cs of None \<Rightarrow> None | Some (i, rest) \<Rightarrow> Some (c # i, rest))
      else (case cs of
              [] \<Rightarrow> Some ([], [])
            | c' # cs' \<Rightarrow> if c' = q then (case read_ident q cs' of None \<Rightarrow> None | Some (i, rest) \<Rightarrow> Some (q # i, rest))
                        else Some ([], cs)))"

lemma replace_quotes:
  "replace_all [q] [q, q] [] = []"
  "replace_all [q] [q, q] (c # cs) = (if c = q then [q, q] else [c]) @ replace_all [q] [q, q] cs"
  by (subst replace_all.simps; simp add: has_prefix_def)+

lemma read_quoted:
  assumes "rest = [] \<or> hd rest \<noteq> q"
  shows "read_ident q (replace_all [q] [q, q] i @ q # rest) = Some (i, rest)"
proof (induction i)
  case Nil
  then show ?case using assms by (cases rest) (simp_all add: replace_quotes)
qed (simp add: replace_quotes)

lemma quoteIdent_quote: "quoteIdent kind i = quote_char kind # replace_all [quote_char kind] [quote_char kind, quote_char kind] i @ [quote_char kind]"
  by (simp add: quoteIdent_def quote_char_def)

text \<open>C35: the query that browses a table is, for every name the table may have, quotes included, the one statement
  that selects from that table: read as the server reads it, the identifier is the name, and only the limit
  and the offset follow.  The validation against the list of tables is not what keeps SQL out.\<close>

theorem browse_query_selects_from_the_table:
  "\<exists>rest. browse_query kind tab offset = ''SELECT * FROM '' @ [quote_char kind] @ rest \<and>
     read_ident (quote_char kind) rest = Some (tab, '' LIMIT 200 OFFSET '' @ itoa (max 0 offset))"
proof -
  let ?q = "quote_char kind" and ?tail = "'' LIMIT 200 OFFSET '' @ itoa (max 0 offset)"
  have l: "itoa (int rowLimit) = ''200''" by code_simp
  have q: "hd ?tail \<noteq> ?q" by (simp add: quote_char_def)
  have "browse_query kind tab offset = ''SELECT * FROM '' @ [?q] @ (replace_all [?q] [?q, ?q] tab @ ?q # ?tail)"
    by (simp add: browse_query_def quoteIdent_quote l max_def)
  moreover have "read_ident ?q (replace_all [?q] [?q, ?q] tab @ ?q # ?tail) = Some (tab, ?tail)"
    by (rule read_quoted) (use q in blast)
  ultimately show ?thesis by blast
qed

section \<open>Results\<close>

lemma scan_rows_upto:
  "scan_rows n rs = Inr (out, t) \<Longrightarrow> n \<le> rowLimit \<Longrightarrow>
     length out = min (rowLimit - n) (length rs) \<and> (t \<longleftrightarrow> length rs > rowLimit - n) \<and>
     map Inr out = map (map_sum id (map normalizeValue)) (take (rowLimit - n) rs)"
proof (induction n rs arbitrary: out t rule: scan_rows.induct)
  case (2 n r rs)
  show ?case
  proof (cases "n \<ge> rowLimit")
    case False
    then obtain vs out' where v: "r = Inr vs" "scan_rows (Suc n) rs = Inr (out', t)" "out = map normalizeValue vs # out'"
      using "2.prems"(1) by (auto split: sum.splits)
    obtain k where k: "rowLimit - n = Suc k" "rowLimit - Suc n = k" using False by (cases "rowLimit - n") auto
    show ?thesis using "2.IH" [OF False v(1,2)] False v k by auto
  qed (use "2.prems" in auto)
qed simp

lemma normalized: "normalizeValue c \<noteq> CBytes b" by (cases c) simp_all

lemma scan_rows_cells: "scan_rows n rs = Inr (out, t) \<Longrightarrow> vs \<in> set out \<Longrightarrow> CBytes b \<notin> set vs"
proof (induction n rs arbitrary: out t rule: scan_rows.induct)
  case (2 n r rs)
  show ?case
  proof (cases "n \<ge> rowLimit")
    case False
    then obtain ws out' where v: "r = Inr ws" "scan_rows (Suc n) rs = Inr (out', t)" "out = map normalizeValue ws # out'"
      using "2.prems"(1) by (auto split: sum.splits)
    have "CBytes b \<notin> normalizeValue ` set ws" by (auto simp: normalized dest: sym)
    then show ?thesis using "2.IH" [OF False v(1,2)] "2.prems"(2) v(3) by auto
  qed (use "2.prems" in simp)
qed simp

text \<open>a result never holds more than two hundred rows, whatever the query and however many rows the server has;
  it says it was cut short only when there was a row more, and its cells are never raw bytes, which the JSON
  encoder would print in base64.\<close>

theorem query_results_are_bounded:
  assumes "runAndScan en a sql p = Inr res"
  shows "length (qr_Rows res) \<le> 200 \<and> (qr_Truncated res \<longrightarrow> length (qr_Rows res) = 200) \<and>
    (\<forall>row \<in> set (qr_Rows res). \<forall>b. CBytes b \<notin> set row)"
proof (cases "looksLikeSelect sql")
  case True
  then obtain cu :: cursor and rows t where r: "scan_rows 0 (cu_rows cu) = Inr (rows, t)" "qr_Rows res = rows" "qr_Truncated res = t"
    using assms by (auto simp: runAndScan_def split: sum.splits option.splits prod.splits)
  have "length rows \<le> 200" "t \<longrightarrow> length rows = 200"
    using scan_rows_upto [OF r(1)] by (auto simp: rowLimit_def min_def)
  then show ?thesis using scan_rows_cells [OF r(1)] by (simp add: r(2,3))
next
  case False
  then show ?thesis using assms by (auto simp: runAndScan_def split: sum.splits)
qed

section \<open>Connection strings\<close>

text \<open>
  The host a URL addresses (RFC 3986): the authority ends at the first slash, question mark or hash, and the host
  in it follows the last at sign.
\<close>

definition url_authority :: "string \<Rightarrow> string" where
  "url_authority u = takeWhile (\<lambda>c. c \<notin> set ''/?#'') u"

definition url_hostport :: "string \<Rightarrow> string" where
  "url_hostport u = rev (takeWhile (\<lambda>c. c \<noteq> CHR ''@'') (rev (url_authority (drop (length ''postgres://'') u))))"

lemma itoa_plain: "set (itoa n) \<inter> set ''/?#@'' = {}"
proof -
  have "c \<notin> set ''/?#@''" if "is_digit c" for c using that by (auto simp: is_digit_def)
  then show ?thesis using digits_of_digit by (auto simp: itoa_def)
qed

lemma takeWhile_stops: "(\<forall>c \<in> set s. P c) \<Longrightarrow> \<not> P x \<Longrightarrow> takeWhile P (s @ x # t) = s"
  by (induction s) simp_all

lemma url_hostport_of:
  assumes "set cred \<inter> set ''/?#'' = {}" "set hp \<inter> set ''/?#@'' = {}"
  shows "url_hostport (''postgres://'' @ cred @ ''@'' @ hp @ ''/'' @ rest) = hp"
proof -
  have "url_authority (cred @ ''@'' @ hp @ ''/'' @ rest) = takeWhile (\<lambda>c. c \<notin> set ''/?#'') ((cred @ ''@'' @ hp) @ CHR ''/'' # rest)"
    by (simp add: url_authority_def)
  also have "\<dots> = cred @ ''@'' @ hp" using assms by (intro takeWhile_stops) auto
  finally have a: "url_authority (cred @ ''@'' @ hp @ ''/'' @ rest) = cred @ ''@'' @ hp" .
  have "takeWhile (\<lambda>c. c \<noteq> CHR ''@'') (rev hp @ CHR ''@'' # rev cred) = rev hp"
    using assms(2) by (intro takeWhile_stops) auto
  then show ?thesis using a by (simp add: url_hostport_def)
qed

text \<open>a PostgreSQL connection is opened to the configured host and port when the password is free of slash,
  question mark and hash; the password is not escaped, and one that holds an at sign, a name and a slash has the
  connection go to the host it names, with a part of the password for a path.\<close>

theorem password_can_redirect_the_connection:
  assumes "dbc_Kind c = KindPostgres" "set (dbc_Username c) \<inter> set ''/?#'' = {}" "set (dbc_Host c) \<inter> set ''/?#@'' = {}"
  shows "(set pw \<inter> set ''/?#'' = {} \<longrightarrow> url_hostport (fst (buildDSN c database pw)) = dbc_Host c @ '':'' @ itoa (dbc_Port c)) \<and>
    (set pw \<inter> set ''/?#'' = {} \<and> set h \<inter> set ''/?#@'' = {} \<longrightarrow>
       url_hostport (fst (buildDSN c database (pw @ ''@'' @ h @ ''/'' @ rest))) = h)"
proof -
  have k: "dbc_Kind c \<noteq> KindMySQL" using assms(1) by (simp add: KindPostgres_def KindMySQL_def)
  show ?thesis
  proof (intro conjI impI)
    assume pw: "set pw \<inter> set ''/?#'' = {}"
    have "url_hostport (''postgres://'' @ (dbc_Username c @ '':'' @ pw) @ ''@'' @ (dbc_Host c @ '':'' @ itoa (dbc_Port c)) @ ''/'' @
        database @ ''?sslmode=prefer'') = dbc_Host c @ '':'' @ itoa (dbc_Port c)"
      using assms pw itoa_plain [of "dbc_Port c"] by (intro url_hostport_of) auto
    then show "url_hostport (fst (buildDSN c database pw)) = dbc_Host c @ '':'' @ itoa (dbc_Port c)"
      by (simp add: buildDSN_def k)
  next
    assume pw: "set pw \<inter> set ''/?#'' = {} \<and> set h \<inter> set ''/?#@'' = {}"
    have "url_hostport (''postgres://'' @ (dbc_Username c @ '':'' @ pw) @ ''@'' @ h @ ''/'' @
        (rest @ ''@'' @ dbc_Host c @ '':'' @ itoa (dbc_Port c) @ ''/'' @ database @ ''?sslmode=prefer'')) = h"
      using assms pw by (intro url_hostport_of) auto
    then show "url_hostport (fst (buildDSN c database (pw @ ''@'' @ h @ ''/'' @ rest))) = h"
      by (simp add: buildDSN_def k)
  qed
qed

section \<open>The hypotheses hold of a small example\<close>

definition demo_conn :: db_connection where
  "demo_conn = \<lparr> dbc_ID = ''c1'', dbc_Name = ''main'', dbc_Kind = KindPostgres, dbc_Host = ''db'', dbc_Port = 5432, dbc_Username = ''u'',
     dbc_DatabaseName = [], dbc_SecretRef = [], dbc_CreatedAt = 0 \<rparr>"

definition demo_engine :: engine where
  "demo_engine = \<lparr> en_open = \<lambda>_ _. None, en_ping = \<lambda>_ _. None,
     en_query = \<lambda>_ _ _. Inr \<lparr> cu_columns = Inr [''n''], cu_rows = [Inr [CBytes ''x'']], cu_err = None \<rparr>,
     en_exec = \<lambda>_ _. Inr 0, en_elapsed = 1 \<rparr>"

definition demo_dsn :: string where "demo_dsn = fst (buildDSN demo_conn ''postgres'' [])"

definition demo_pools :: dbadmin where
  "demo_pools = new_dbadmin\<lparr> da_pools := [(pool_key ''c1'' ''postgres'', 0)],
     da_conns := [0 \<mapsto> \<lparr> po_driver = ''pgx'', po_dsn = demo_dsn, po_closed = False \<rparr>], da_next := 1 \<rparr>"

definition demo_conn_vault :: vault where
  "demo_conn_vault = demo_vault\<lparr> vt_db := with_table ''db_connections'' [make_row ''db_connections'' (conn_cols demo_conn)] (vt_db demo_vault) \<rparr>"

lemma demo_pools_reached: "admin_reach demo_pools"
proof -
  have "serve_admin demo_engine demo_secret_env (AskTest ''c1'') demo_conn_vault new_dbadmin = demo_pools"
  proof -
    have g: "on_vault_db (conn_Get ''c1'') demo_conn_vault = (Inr demo_conn, demo_conn_vault)"
    proof -
      have "by_id ''c1'' (make_row ''db_connections'' (conn_cols demo_conn))"
        "scanConn (make_row ''db_connections'' (conn_cols demo_conn)) = demo_conn" by code_simp+
      then show ?thesis
        by (simp add: on_vault_db_def conn_Get_def repo_get_nofault demo_conn_vault_def demo_vault_def empty_secrets_def)
    qed
    have "buildDSN demo_conn ''postgres'' [] = (demo_dsn, ''pgx'')"
      by (simp add: demo_dsn_def buildDSN_def demo_conn_def KindPostgres_def KindMySQL_def)
    moreover have "defaultDatabase demo_conn = ''postgres''" "dbc_SecretRef demo_conn = []" by code_simp+
    moreover have "new_pool demo_engine ''pgx'' dsn new_dbadmin = (Inr 0, \<lparr> da_pools = [],
        da_conns = [0 \<mapsto> \<lparr> po_driver = ''pgx'', po_dsn = dsn, po_closed = False \<rparr>], da_next = 1 \<rparr>)" for dsn
      by (simp add: new_pool_def demo_engine_def new_dbadmin_def)
    moreover have "map_of (da_pools new_dbadmin) key = None" for key by (simp add: new_dbadmin_def)
    ultimately have "admin_open demo_engine demo_secret_env ''c1'' [] (demo_conn_vault, new_dbadmin) =
        (Inr (0, demo_conn), (demo_conn_vault, demo_pools))"
      unfolding admin_open_def prod.case g sum.case Let_def
      by (simp only: if_True option.case resolve_password_def prod.case sum.case)
        (simp add: enter_pool_def demo_pools_def new_dbadmin_def)
    then show ?thesis
      by (simp only: serve_admin.simps admin_TestConnection_def with_pool_def prod.case sum.case snd_conv)
  qed
  then show ?thesis by (metis admin_reach.intros)
qed

theorem open_handles_are_the_pooled_ones_witness:
  "open_handle demo_pools 0 \<longleftrightarrow> 0 \<in> snd ` set (da_pools demo_pools)"
  using open_handles_are_the_pooled_ones [OF demo_pools_reached] by blast

theorem Evict_closes_the_connections_handles_witness:
  "open_handle demo_pools 0 \<and> \<not> open_handle (Evict ''c1'' demo_pools) 0"
proof -
  have "has_prefix (pool_key ''c1'' ''postgres'') (''c1'' @ [CHR 0x00])" by code_simp
  then have "\<not> (\<exists>key. (key, 0) \<in> set (da_pools demo_pools) \<and> \<not> has_prefix key (''c1'' @ [CHR 0x00]))"
    by (simp add: demo_pools_def)
  then show ?thesis
    using Evict_closes_the_connections_handles [OF demo_pools_reached, THEN conjunct1, rule_format, of "''c1''" 0]
    by (simp add: open_handle_def demo_pools_def)
qed

theorem query_results_are_bounded_witness:
  "case runAndScan demo_engine 0 ''select n from t'' demo_pools of Inl _ \<Rightarrow> False | Inr res \<Rightarrow> length (qr_Rows res) \<le> 200"
proof -
  obtain res where r: "runAndScan demo_engine 0 ''select n from t'' demo_pools = Inr res"
  proof -
    have "looksLikeSelect ''select n from t''" by code_simp
    then show ?thesis
      by (intro that) (simp add: runAndScan_def pool_query_def demo_engine_def demo_pools_def rowLimit_def)
  qed
  show ?thesis using query_results_are_bounded [OF r] by (simp add: r)
qed

theorem password_can_redirect_the_connection_witness:
  "url_hostport (fst (buildDSN demo_conn ''postgres'' ''pass@word'')) = ''db:'' @ itoa 5432 \<and>
   url_hostport (fst (buildDSN demo_conn ''postgres'' (''x'' @ ''@'' @ ''elsewhere'' @ ''/'' @ ''y''))) = ''elsewhere''"
proof -
  have "dbc_Kind demo_conn = KindPostgres" "set (dbc_Username demo_conn) \<inter> set ''/?#'' = {}"
    "set (dbc_Host demo_conn) \<inter> set ''/?#@'' = {}"
    by (simp_all add: demo_conn_def)
  note t = password_can_redirect_the_connection [OF this]
  show ?thesis
  proof (rule conjI)
    have "set ''pass@word'' \<inter> set ''/?#'' = {}" by code_simp
    from t [THEN conjunct1, rule_format, OF this] show "url_hostport (fst (buildDSN demo_conn ''postgres'' ''pass@word'')) = ''db:'' @ itoa 5432"
      by (simp add: demo_conn_def)
    have "set ''x'' \<inter> set ''/?#'' = {} \<and> set ''elsewhere'' \<inter> set ''/?#@'' = {}" by code_simp
    from t [THEN conjunct2, rule_format, OF this]
    show "url_hostport (fst (buildDSN demo_conn ''postgres'' (''x'' @ ''@'' @ ''elsewhere'' @ ''/'' @ ''y''))) = ''elsewhere''" .
  qed
qed

end
