(* ===== verification/DbHandlers.thy ===== *)
theory DbHandlers
  imports SecretSite DbAdmin "HOL-Library.Word"
begin

text \<open>
  The handlers of \<open>internal/api/v1/databases.go\<close>, in which the saved connections, the secret store and the
  database administration engine meet.

  The engine is built on the daemon's secret store (\<open>server.go\<close>), so where it is there the store is
  there; a request that finds the engine without a store would panic, and is answered 500.
\<close>

record db_site = secret_site +
  ds_admin :: "dbadmin option"

record db_call =
  dk_call :: call
  dk_audit :: string
  dk_secrets :: secret_env
  dk_engine :: engine

datatype db_api_error =
    DbMessage string
  | DbRefused dbconn_error
  | DbSecretRefused secret_error
  | DbAdminRefused dbadmin_error
  | DbPanic

type_synonym 'a db_handler = "db_site \<Rightarrow> (nat \<times> (db_api_error + 'a)) \<times> db_site"

definition writeDBConnError :: "dbconn_error \<Rightarrow> nat \<times> (db_api_error + 'a)" where
  "writeDBConnError e =
     (if e = ConnNotFound then (404, Inl (DbMessage ''connection not found'')) else (400, Inl (DbRefused e)))"

definition listDBConnections :: "db_connection list db_handler" where
  "listDBConnections s =
     (case on_panel (on_db conn_List) s of
        (Inl e, s1) \<Rightarrow> ((500, Inl (DbRefused e)), s1) | (Inr xs, s1) \<Rightarrow> ((200, Inr xs), s1))"

section \<open>Adding and removing a connection\<close>

record db_connection_body =
  cb_Name :: string
  cb_Kind :: string
  cb_Host :: string
  cb_Port :: int
  cb_Username :: string
  cb_Password :: string
  cb_DatabaseName :: string

definition connection_of_body :: "db_connection_body \<Rightarrow> db_connection" where
  "connection_of_body b =
     \<lparr> dbc_ID = [], dbc_Name = cb_Name b, dbc_Kind = cb_Kind b, dbc_Host = cb_Host b, dbc_Port = cb_Port b,
       dbc_Username = cb_Username b, dbc_DatabaseName = cb_DatabaseName b, dbc_SecretRef = [], dbc_CreatedAt = 0 \<rparr>"

definition insert_connection :: "db_call \<Rightarrow> db_connection \<Rightarrow> db_connection db_handler" where
  "insert_connection k req s =
     (case create_owner (dk_secrets k) (dk_call k) ''dbconnection.create'' ''db_connection'' dbc_ID
             (conn_Create (cl_uuid (dk_call k)) (cl_now (dk_call k)) req) (dbc_SecretRef req) s of
        (Inr c, s') \<Rightarrow> ((201, Inr c), s') | (Inl e, s') \<Rightarrow> ((400, Inl (DbRefused e)), s'))"

text \<open>The password is stored under the id the connection will have.\<close>

definition store_password :: "db_call \<Rightarrow> string \<Rightarrow> key_store \<Rightarrow> db_site \<Rightarrow> (secret_error + string) \<times> db_site" where
  "store_password k pw =
     store_secret (dk_secrets k) ((dk_call k)\<lparr> cl_audit := dk_audit k \<rparr>) ''dbconnection.secret.store'' ''db_connection''
       (cl_uuid (dk_call k)) ''password'' pw"

definition createDBConnection :: "db_call \<Rightarrow> string + db_connection_body \<Rightarrow> db_connection db_handler" where
  "createDBConnection k body s =
     (case body of
        Inl msg \<Rightarrow> ((400, Inl (DbMessage msg)), s)
      | Inr b \<Rightarrow>
         (let req = connection_of_body b in
          if cb_Password b = [] then insert_connection k req s
          else (case ss_keys s of
                  None \<Rightarrow> ((500, Inl (DbMessage ''secret storage not configured'')), s)
                | Some ks \<Rightarrow>
                   (case store_password k (cb_Password b) ks s of
                      (Inl e, s1) \<Rightarrow> ((500, Inl (DbSecretRefused e)), s1)
                    | (Inr ref, s1) \<Rightarrow>
                        insert_connection k (req\<lparr> dbc_ID := cl_uuid (dk_call k), dbc_SecretRef := ref \<rparr>) s1))))"

definition evict_pools :: "string \<Rightarrow> db_site \<Rightarrow> db_site" where
  "evict_pools i s = s\<lparr> ds_admin := map_option (Evict i) (ds_admin s) \<rparr>"

definition deleteDBConnection :: "db_call \<Rightarrow> string \<Rightarrow> string \<Rightarrow> unit db_handler" where
  "deleteDBConnection k i confirm s =
     (if confirm \<noteq> ''true'' then ((400, Inl (DbMessage ''delete requires confirm=true'')), s)
      else
       (case on_panel (on_db (conn_Get i)) s of
          (got, s1) \<Rightarrow>
           (case on_panel (on_db (conn_Delete i)) s1 of
              (r, s2) \<Rightarrow>
                (let s3 = site_audit (dk_call k) ''dbconnection.delete'' ''db_connection'' i (resultOf r) s2 in
                 case r of
                   Inl e \<Rightarrow> (writeDBConnError e, s3)
                 | Inr _ \<Rightarrow>
                    ((200, Inr ()),
                     evict_pools i (case got of Inl _ \<Rightarrow> s3 | Inr c \<Rightarrow> drop_secret (dk_secrets k) (dbc_SecretRef c) s3))))))"

section \<open>Asking the engine\<close>

definition on_admin :: "key_store \<Rightarrow> dbadmin \<Rightarrow> 'a admin_op \<Rightarrow> db_site \<Rightarrow> (dbadmin_error + 'a) \<times> db_site" where
  "on_admin ks p op s =
     (case op (vault_of ks (ss_panel s), p) of
        (r, (v, p')) \<Rightarrow> (r, s\<lparr> ss_panel := set_db (vt_db v) (ss_panel s),
                              ss_keys := Some \<lparr> ks_keychain = vt_keychain v, ks_keyfile = vt_keyfile v \<rparr>, ds_admin := Some p' \<rparr>))"

definition no_admin :: "nat \<times> (db_api_error + 'a)" where
  "no_admin = (503, Inl (DbMessage ''database admin is not available''))"

definition admin_answer :: "nat \<Rightarrow> dbadmin_error + 'a \<Rightarrow> nat \<times> (db_api_error + 'a)" where
  "admin_answer refused r = (case r of Inl e \<Rightarrow> (refused, Inl (DbAdminRefused e)) | Inr a \<Rightarrow> (200, Inr a))"

text \<open>Ask, record the outcome with \<open>recorded\<close>, answer.\<close>

definition ask_admin ::
  "'a admin_op \<Rightarrow> nat \<Rightarrow> (string \<Rightarrow> db_site \<Rightarrow> db_site) \<Rightarrow> 'a db_handler" where
  "ask_admin op refused recorded s =
     (case (ds_admin s, ss_keys s) of
        (None, _) \<Rightarrow> (no_admin, s)
      | (Some _, None) \<Rightarrow> ((500, Inl DbPanic), s)
      | (Some p, Some ks) \<Rightarrow>
         (case on_admin ks p op s of (r, s1) \<Rightarrow> (admin_answer refused r, recorded (resultOf r) s1)))"

definition testDBConnection :: "db_call \<Rightarrow> string \<Rightarrow> unit db_handler" where
  "testDBConnection k i =
     ask_admin (admin_TestConnection (dk_engine k) (dk_secrets k) i) 502
       (site_audit (dk_call k) ''dbconnection.test'' ''db_connection'' i)"

definition listDatabases :: "db_call \<Rightarrow> string \<Rightarrow> string list db_handler" where
  "listDatabases k i = ask_admin (ListDatabases (dk_engine k) (dk_secrets k) i) 502 (\<lambda>_ s. s)"

definition with_database :: "string \<Rightarrow> 'a db_handler \<Rightarrow> 'a db_handler" where
  "with_database database h s =
     (if ds_admin s = None then (no_admin, s)
      else if database = [] then ((400, Inl (DbMessage ''database is required'')), s) else h s)"

definition listTables :: "db_call \<Rightarrow> string \<Rightarrow> string \<Rightarrow> string list db_handler" where
  "listTables k i database =
     with_database database (ask_admin (ListTables (dk_engine k) (dk_secrets k) i database) 502 (\<lambda>_ s. s))"

definition listColumns :: "db_call \<Rightarrow> string \<Rightarrow> string \<Rightarrow> string \<Rightarrow> column_info list db_handler" where
  "listColumns k i database tbl =
     with_database database (ask_admin (ListColumns (dk_engine k) (dk_secrets k) i database tbl) 502 (\<lambda>_ s. s))"

text \<open>The digits are added up in an \<open>int\<close>, which wraps around.\<close>

fun positive_int :: "64 word \<Rightarrow> string \<Rightarrow> 64 word option" where
  "positive_int n [] = Some n"
| "positive_int n (c # cs) = (if is_digit c then positive_int (n * 10 + (of_char c - 48)) cs else None)"

definition parsePositiveInt :: "string \<Rightarrow> int option" where
  "parsePositiveInt s = map_option sint (positive_int 0 s)"

definition browse_offset :: "string \<Rightarrow> int" where
  "browse_offset v = (if v = [] then 0 else (case parsePositiveInt v of None \<Rightarrow> 0 | Some n \<Rightarrow> n))"

definition browseTable :: "db_call \<Rightarrow> string \<Rightarrow> string \<Rightarrow> string \<Rightarrow> string \<Rightarrow> query_result db_handler" where
  "browseTable k i database tbl offset =
     with_database database
       (ask_admin (BrowseTable (dk_engine k) (dk_secrets k) i database tbl (browse_offset offset)) 502 (\<lambda>_ s. s))"

text \<open>The body gives the database and the text of the query.\<close>

definition runQuery :: "db_call \<Rightarrow> string \<Rightarrow> string + string \<times> string \<Rightarrow> query_result db_handler" where
  "runQuery k i body s =
     (if ds_admin s = None then (no_admin, s)
      else
       (case body of
          Inl msg \<Rightarrow> ((400, Inl (DbMessage msg)), s)
        | Inr (database, sql) \<Rightarrow>
           (if sql = [] then ((400, Inl (DbMessage ''sql is required'')), s)
            else ask_admin (RunQuery (dk_engine k) (dk_secrets k) i database sql) 400
                   (\<lambda>res. audit_command (dk_call k) ''dbconnection.query'' ''db_connection'' i res sql) s)))"

section \<open>Passwords and connections\<close>

lemma conn_Create_nofault:
  assumes "faults d = []"
  shows "conn_Create u now req d = (Inl e, d') \<Longrightarrow> d' = d"
    "conn_Create u now req d = (Inr c, d') \<Longrightarrow> only_touches {''db_connections''} d d'"
  using assms by (auto simp: conn_Create_def sql_insert_nofault raw_insert_def Let_def only_touches_def split: if_splits)

interpretation connection_owner: secret_owner "conn_Create u now req" "''db_connections''" for u now req
  by unfold_locales (simp_all add: conn_Create_nofault)

section \<open>Offsets\<close>

lemma digit_word: "word_of_int acc * 10 + (of_char c - 48) = (word_of_int (acc * 10 + (of_char c - 48)) :: 64 word)"
  by (simp add: of_int_of_char)

lemma positive_int_value:
  "positive_int (word_of_int acc) s = map_option word_of_int (digits_value acc s)"
proof (induction s arbitrary: acc)
  case (Cons c cs)
  show ?case
    by (simp only: positive_int.simps digits_value.simps digit_word Cons split: if_split) simp
qed simp

lemma digits_value_nonneg: "digits_value acc s = Some n \<Longrightarrow> 0 \<le> acc \<Longrightarrow> 0 \<le> n"
proof (induction s arbitrary: acc)
  case (Cons c cs)
  have "0 \<le> (of_char c :: int) - 48" if "is_digit c"
    using that by (simp add: is_digit_def) (metis (mono_tags) of_nat_le_iff of_nat_numeral of_nat_of_char)
  then show ?case using Cons by (auto split: if_splits)
qed simp

text \<open>an offset is read as the decimal number it is only below two to the 63rd; from there on it wraps around
  without an error, so that a page far beyond the end is one near the start, or the first when it
  comes out negative.  Text that is not all digits is refused, except that the empty text is nought.\<close>

theorem parsePositiveInt_wraps_around:
  "(case digits_value 0 s of
      None \<Rightarrow> parsePositiveInt s = None
    | Some n \<Rightarrow> parsePositiveInt s = Some ((n + 2 ^ 63) mod 2 ^ 64 - 2 ^ 63) \<and> (parsePositiveInt s = Some n \<longleftrightarrow> n < 2 ^ 63)) \<and>
   parsePositiveInt [] = Some 0 \<and> parsePositiveInt ''18446744073709551621'' = Some 5"
proof (intro conjI)
  have w: "sint (word_of_int n :: 64 word) = (n + 2 ^ 63) mod 2 ^ 64 - 2 ^ 63" for n :: int
    by (simp add: int_word_sint)
  have x: "(n + 2 ^ 63) mod 2 ^ 64 - 2 ^ 63 = n \<longleftrightarrow> n < 2 ^ 63" if "0 \<le> n" for n :: int
  proof
    assume "(n + 2 ^ 63) mod 2 ^ 64 - 2 ^ 63 = n"
    moreover have "(n + 2 ^ 63) mod 2 ^ 64 < (2 :: int) ^ 64" by simp
    ultimately show "n < 2 ^ 63" by simp
  qed (use that in simp)
  show "case digits_value 0 s of
      None \<Rightarrow> parsePositiveInt s = None
    | Some n \<Rightarrow> parsePositiveInt s = Some ((n + 2 ^ 63) mod 2 ^ 64 - 2 ^ 63) \<and> (parsePositiveInt s = Some n \<longleftrightarrow> n < 2 ^ 63)"
    using positive_int_value [of 0 s] w x digits_value_nonneg [of 0 s]
    by (auto simp: parsePositiveInt_def split: option.split)
  show "parsePositiveInt [] = Some 0" "parsePositiveInt ''18446744073709551621'' = Some 5" by code_simp+
qed

section \<open>The audit log\<close>

text \<open>every query that reaches the engine leaves one audit record with its whole text, whether it succeeds or
  fails, is refused a connection or a password.\<close>

theorem queries_are_audited_with_their_text:
  fixes s :: db_site
  assumes "ds_admin s = Some p" "ss_keys s = Some ks" "sql \<noteq> []" "faults (site_db s) = []"
    and "\<not> (\<exists>r \<in> set (tables (site_db s) ''audit_events''). by_id (cl_audit (dk_call k)) r)"
  shows "case runQuery k i (Inr (database, sql)) s of ((code, res), s') \<Rightarrow>
    code = (if isl res then 400 else 200) \<and>
    tables (site_db s') ''audit_events'' = tables (site_db s) ''audit_events'' @
      [make_row ''audit_events'' (audit_cols (cl_audit (dk_call k)) (cl_now (dk_call k)) ''dbconnection.query'' ''db_connection'' i
        (if isl res then ''error'' else ''ok'') (Some sql))]"
proof -
  obtain r v p' where op: "RunQuery (dk_engine k) (dk_secrets k) i database sql (vault_of ks (ss_panel s), p) = (r, (v, p'))"
    by (metis surj_pair)
  have "vt_db (fst (snd (RunQuery (dk_engine k) (dk_secrets k) i database sql (vault_of ks (ss_panel s), p)))) = site_db s"
    unfolding RunQuery_def using assms(4) by (subst with_pool_db) (simp_all add: vault_of_def)
  then have v: "vt_db v = site_db s" by (simp add: op)
  define s1 where "s1 = s\<lparr> ss_panel := set_db (vt_db v) (ss_panel s),
      ss_keys := Some \<lparr> ks_keychain = vt_keychain v, ks_keyfile = vt_keyfile v \<rparr>, ds_admin := Some p' \<rparr>"
  have s1: "site_db s1 = site_db s" by (simp add: s1_def v)
  have "runQuery k i (Inr (database, sql)) s =
      (admin_answer 400 r, audit_command (dk_call k) ''dbconnection.query'' ''db_connection'' i (resultOf r) sql s1)"
    using assms(1-3) by (simp add: runQuery_def ask_admin_def on_admin_def op s1_def)
  then show ?thesis
    using audit_command_adds [of s1 "dk_call k"] assms(4,5)
    by (cases r) (simp_all add: s1 admin_answer_def resultOf_def)
qed

section \<open>Deleting a connection\<close>

text \<open>a connection that is deleted is gone with the password stored for it and with every handle the engine had
  open on its behalf; no other row of the two tables and no other connection's handle goes.\<close>

theorem deleting_a_connection_closes_it:
  fixes s :: db_site
  assumes "faults (site_db s) = []" "fst (conn_Get i (site_db s)) = Inr c" "ss_keys s = Some ks"
    and "ds_admin s = Some p" "admin_reach p"
  shows "\<exists>s' p'. deleteDBConnection k i ''true'' s = ((200, Inr ()), s') \<and> ds_admin s' = Some p' \<and>
    tables (site_db s') ''db_connections'' = filter (\<lambda>r. \<not> by_id i r) (tables (site_db s) ''db_connections'') \<and>
    tables (site_db s') ''secrets'' = filter (\<lambda>r. dbc_SecretRef c = [] \<or> \<not> by_id (dbc_SecretRef c) r) (tables (site_db s) ''secrets'') \<and>
    (\<forall>a. open_handle p' a \<longleftrightarrow> open_handle p a \<and> (\<exists>key. (key, a) \<in> set (da_pools p) \<and> \<not> has_prefix key (i @ [CHR 0x00])))"
proof -
  define d where "d = site_db s"
  have get: "conn_Get i d = (Inr c, d)" using repo_get_pure [OF assms(1)] assms(2) by (metis conn_Get_def d_def)
  have e: "\<exists>r \<in> set (tables d ''db_connections''). by_id i r"
    using repo_get_found [OF assms(1)] assms(2) by (fastforce simp: conn_Get_def d_def)
  define d' where "d' = with_table ''db_connections'' (filter (\<lambda>r. \<not> by_id i r) (tables d ''db_connections'')) d"
  have del: "conn_Delete i d = (Inr (), d')"
    using e assms(1) by (simp add: conn_Delete_def repo_delete_nofault d_def referenced_by_def foreign_keys_def d'_def)
  define s3 where "s3 = site_audit (dk_call k) ''dbconnection.delete'' ''db_connection'' i ''ok'' (s\<lparr> ss_panel := set_db d' (ss_panel s) \<rparr>)"
  have s3: "faults (site_db s3) = []" "ss_keys s3 = Some ks"
    "t \<noteq> ''audit_events'' \<Longrightarrow> tables (site_db s3) t = tables d' t" for t
    using site_audit_frame [of "s\<lparr> ss_panel := set_db d' (ss_panel s) \<rparr>"] assms(1,3) by (simp_all add: s3_def d'_def d_def)
  define s4 where "s4 = drop_secret (dk_secrets k) (dbc_SecretRef c) s3"
  have r: "deleteDBConnection k i ''true'' s = ((200, Inr ()), evict_pools i s4)"
    using get del by (simp add: deleteDBConnection_def on_panel_db d_def [symmetric] Let_def resultOf_def s3_def s4_def)
  have ad: "ds_admin s4 = Some p"
    using assms(4) by (simp add: s4_def drop_secret_def on_secrets_def s3_def site_audit_def split: option.splits prod.splits)
  have dr: "site_db s4 = (if dbc_SecretRef c = [] then site_db s3
      else with_table ''secrets'' (filter (\<lambda>r. \<not> by_id (dbc_SecretRef c) r) (tables (site_db s3) ''secrets'')) (site_db s3))"
    unfolding s4_def using drop_secret_keeps [OF s3(1,2)] by blast
  have "open_handle (Evict i p) a \<longleftrightarrow> open_handle p a \<and> (\<exists>key. (key, a) \<in> set (da_pools p) \<and> \<not> has_prefix key (i @ [CHR 0x00]))" for a
    using Evict_handles [OF reach_exact [OF assms(5)]] by blast
  then show ?thesis
    unfolding r by (intro exI [of _ "evict_pools i s4"] exI [of _ "Evict i p"] conjI)
      (simp_all add: evict_pools_def ad dr s3(3) d'_def d_def)
qed

section \<open>The properties at concrete inputs\<close>

definition demo_db_site :: db_site where
  "demo_db_site =
     \<lparr> ss_panel = set_db (vt_db demo_conn_vault) (demo_panel [] []), ss_keys = Some \<lparr> ks_keychain = Map.empty, ks_keyfile = None \<rparr>,
       ds_admin = Some demo_pools \<rparr>"

definition demo_db_call :: db_call where
  "demo_db_call = \<lparr> dk_call = demo_call ''i1'', dk_audit = ''e0'', dk_secrets = demo_secret_env, dk_engine = demo_engine \<rparr>"

lemma demo_db_ok: "faults (site_db demo_db_site) = []" "ds_admin demo_db_site = Some demo_pools"
  "ss_keys demo_db_site = Some \<lparr> ks_keychain = Map.empty, ks_keyfile = None \<rparr>"
  "tables (site_db demo_db_site) t = (if t = ''db_connections'' then [make_row ''db_connections'' (conn_cols demo_conn)] else [])"
  by (simp_all add: demo_db_site_def demo_conn_vault_def demo_vault_def empty_secrets_def)

theorem queries_are_audited_with_their_text_witness:
  "\<exists>res s'. runQuery demo_db_call ''c1'' (Inr ([], ''drop table t'')) demo_db_site = ((200, res), s') \<and>
     length (tables (site_db s') ''audit_events'') = 1"
proof -
  obtain c res s' where go: "runQuery demo_db_call ''c1'' (Inr ([], ''drop table t'')) demo_db_site = ((c, res), s')" by (metis surj_pair)
  have c: "c = 200"
  proof -
    have g: "by_id ''c1'' (make_row ''db_connections'' (conn_cols demo_conn))"
      "scanConn (make_row ''db_connections'' (conn_cols demo_conn)) = demo_conn"
      "defaultDatabase demo_conn = ''postgres''" "\<not> looksLikeSelect ''drop table t''" by code_simp+
    have v: "vt_db (vault_of ks (ss_panel demo_db_site)) = site_db demo_db_site" for ks by (simp add: vault_of_def)
    have op: "admin_open demo_engine demo_secret_env ''c1'' [] (vault_of ks (ss_panel demo_db_site), demo_pools) =
        (Inr (0, demo_conn), (vault_of ks (ss_panel demo_db_site), demo_pools))" for ks
      using g by (simp add: admin_open_def on_vault_db_def v conn_Get_def repo_get_nofault demo_db_ok) (simp add: demo_pools_def vault_of_def)
    have "pool_exec demo_engine 0 sql demo_pools = Inr 0" for sql by (simp add: pool_exec_def demo_pools_def demo_engine_def)
    then have "RunQuery demo_engine demo_secret_env ''c1'' [] ''drop table t'' (vault_of ks (ss_panel demo_db_site), demo_pools) =
        (Inr \<lparr> qr_Columns = [], qr_Rows = [], qr_RowsAffected = 0, qr_DurationMS = en_elapsed demo_engine, qr_Truncated = False \<rparr>,
         (vault_of ks (ss_panel demo_db_site), demo_pools))" for ks
      by (simp add: RunQuery_def with_pool_def op runAndScan_def g)
    then show ?thesis
      using go by (simp add: runQuery_def demo_db_ok ask_admin_def on_admin_def demo_db_call_def admin_answer_def)
  qed
  have "\<not> (\<exists>r \<in> set (tables (site_db demo_db_site) ''audit_events''). by_id (cl_audit (dk_call demo_db_call)) r)"
    by (simp add: demo_db_ok)
  from queries_are_audited_with_their_text [OF demo_db_ok(2,3) _ demo_db_ok(1) this, of "''drop table t''" "''c1''" "[]"]
  show ?thesis by (simp add: go c demo_db_ok)
qed

theorem deleting_a_connection_closes_it_witness:
  "\<exists>s' p'. deleteDBConnection demo_db_call ''c1'' ''true'' demo_db_site = ((200, Inr ()), s') \<and> ds_admin s' = Some p' \<and>
    \<not> open_handle p' 0"
proof -
  have g: "by_id ''c1'' (make_row ''db_connections'' (conn_cols demo_conn))"
    "scanConn (make_row ''db_connections'' (conn_cols demo_conn)) = demo_conn" by code_simp+
  then have "fst (conn_Get ''c1'' (site_db demo_db_site)) = Inr demo_conn"
    by (simp add: conn_Get_def repo_get_nofault demo_db_ok)
  from deleting_a_connection_closes_it [OF demo_db_ok(1) this demo_db_ok(3,2) demo_pools_reached, of demo_db_call]
  obtain s' p' where r: "deleteDBConnection demo_db_call ''c1'' ''true'' demo_db_site = ((200, Inr ()), s')" "ds_admin s' = Some p'"
    "\<forall>a. open_handle p' a \<longleftrightarrow> open_handle demo_pools a \<and> (\<exists>key. (key, a) \<in> set (da_pools demo_pools) \<and> \<not> has_prefix key (''c1'' @ [CHR 0x00]))"
    by (elim exE conjE) (rule that; assumption)
  have "has_prefix (pool_key ''c1'' ''postgres'') (''c1'' @ [CHR 0x00])" by code_simp
  then have "\<not> open_handle p' 0" by (simp add: r(3) demo_pools_def)
  then show ?thesis using r(1,2) by blast
qed

end
