(* ===== verification/RuntimeHandlers.thy ===== *)
theory RuntimeHandlers
  imports Handlers Runtimes
begin

text \<open>
  The handlers of \<open>internal/api/v1/runtimes.go\<close>, in which the registered runtime providers and the table of
  runtimes and versions meet.

  A provider is a record of its operations on the machine, whose state is a type parameter.  Progress that is
  sent to the browser while a version is installed is not modelled.
\<close>

record 'w runtime_provider =
  rp_Kind :: string
  rp_DetectInstalled :: "'w \<Rightarrow> (string + detected_version list) \<times> 'w"
  rp_Install :: "string \<Rightarrow> 'w \<Rightarrow> (string + unit) \<times> 'w"
  rp_Remove :: "string \<Rightarrow> 'w \<Rightarrow> (string + unit) \<times> 'w"
  rp_SetDefault :: "string \<Rightarrow> 'w \<Rightarrow> (string + unit) \<times> 'w"

text \<open>A request: the registered providers, one per kind, and the fresh ids it draws for what they stand for.\<close>

record 'w runtime_call =
  rk_call :: call
  rk_providers :: "'w runtime_provider list"
  rk_uuid :: "string \<Rightarrow> string"
  rk_audit :: "string \<Rightarrow> string"

datatype runtime_api_error =
    RuntimeMessage string
  | ProviderRefused string
  | RuntimeRefused runtime_error

type_synonym 'w site = "panel \<times> 'w"
type_synonym ('w, 'a) runtime_handler = "'w site \<Rightarrow> (nat \<times> (runtime_api_error + 'a)) \<times> 'w site"

definition on_runtimes :: "(db \<Rightarrow> (runtime_error + 'a) \<times> db) \<Rightarrow> 'w site \<Rightarrow> (runtime_api_error + 'a) \<times> 'w site" where
  "on_runtimes f = (\<lambda>(p, w). case on_db f p of (Inl e, p') \<Rightarrow> (Inl (RuntimeRefused e), (p', w)) | (Inr a, p') \<Rightarrow> (Inr a, (p', w)))"

definition on_machine :: "('w \<Rightarrow> (string + 'a) \<times> 'w) \<Rightarrow> 'w site \<Rightarrow> (runtime_api_error + 'a) \<times> 'w site" where
  "on_machine f = (\<lambda>(p, w). case f w of (Inl e, w') \<Rightarrow> (Inl (ProviderRefused e), (p, w')) | (Inr a, w') \<Rightarrow> (Inr a, (p, w')))"

text \<open>An audit record; \<open>what\<close> names the fresh id it gets.\<close>

definition audit_runtime :: "'w runtime_call \<Rightarrow> string \<Rightarrow> string \<Rightarrow> string \<Rightarrow> string \<Rightarrow> 'w site \<Rightarrow> 'w site" where
  "audit_runtime k what action target_id result = (\<lambda>(p, w).
     (audit ((rk_call k)\<lparr> cl_audit := rk_audit k what \<rparr>) action ''runtime'' target_id result p, w))"

definition runtimeDisplayName :: "string \<Rightarrow> string" where
  "runtimeDisplayName kind =
     (if kind = ''node'' then ''Node.js'' else if kind = ''php'' then ''PHP''
      else if kind = [] then kind else to_upper (take 1 kind) @ drop 1 kind)"

type_synonym runtime_view = "runtime \<times> runtime_version list"

definition find_provider :: "'w runtime_call \<Rightarrow> string \<Rightarrow> 'w runtime_provider option" where
  "find_provider k kind = List.find (\<lambda>p. rp_Kind p = kind) (rk_providers k)"

definition detectAndPersist :: "'w runtime_call \<Rightarrow> 'w runtime_provider \<Rightarrow> 'w site \<Rightarrow> (runtime_api_error + runtime_view) \<times> 'w site" where
  "detectAndPersist k p = go_bind (on_machine (rp_DetectInstalled p)) (\<lambda>detected.
     go_bind (on_runtimes (ReplaceDetected (rk_uuid k (rp_Kind p)) (rp_Kind p) (runtimeDisplayName (rp_Kind p))
         (map (\<lambda>v. (rk_uuid k (rp_Kind p @ ''@'' @ dv_Version v), v)) detected))) (\<lambda>rt.
     go_bind (on_runtimes ListRuntimes) (\<lambda>all.
     go_return (case List.find (\<lambda>r. rt_ID (fst r) = rt_ID rt) all of Some r \<Rightarrow> r | None \<Rightarrow> (rt, [])))))"

fun detect_each :: "'w runtime_call \<Rightarrow> 'w runtime_provider list \<Rightarrow> 'w site \<Rightarrow> 'w site" where
  "detect_each k [] s = s"
| "detect_each k (p # ps) s =
     (case detectAndPersist k p s of
        (r, s1) \<Rightarrow> detect_each k ps (audit_runtime k (rp_Kind p) ''runtime.detect'' (rp_Kind p) (resultOf r) s1))"

definition listRuntimes :: "'w runtime_call \<Rightarrow> ('w, runtime_view list) runtime_handler" where
  "listRuntimes k s =
     (case on_runtimes ListRuntimes (detect_each k (rk_providers k) s) of
        (Inl e, s1) \<Rightarrow> ((500, Inl e), s1) | (Inr rts, s1) \<Rightarrow> ((200, Inr rts), s1))"

definition no_provider :: "string \<Rightarrow> nat \<times> (runtime_api_error + 'a)" where
  "no_provider kind = (404, Inl (RuntimeMessage (''no runtime provider registered for kind '' @ kind)))"

definition detectRuntimeKind :: "'w runtime_call \<Rightarrow> string \<Rightarrow> ('w, runtime_view) runtime_handler" where
  "detectRuntimeKind k kind s =
     (case find_provider k kind of
        None \<Rightarrow> (no_provider kind, s)
      | Some p \<Rightarrow>
         (case detectAndPersist k p s of
            (r, s1) \<Rightarrow> ((case r of Inl e \<Rightarrow> (500, Inl e) | Inr rt \<Rightarrow> (200, Inr rt)),
                        audit_runtime k kind ''runtime.detect'' kind (resultOf r) s1)))"

text \<open>First the machine, then the database; without a row to show for the kind the answer is only \<open>ok\<close>.\<close>

definition setDefaultRuntimeVersion :: "'w runtime_call \<Rightarrow> string \<Rightarrow> string \<Rightarrow> ('w, runtime_view option) runtime_handler" where
  "setDefaultRuntimeVersion k kind version s =
     (let record = (\<lambda>result. audit_runtime k kind ''runtime.setDefault'' (kind @ ''@'' @ version) result) in
      case find_provider k kind of
        None \<Rightarrow> (no_provider kind, s)
      | Some p \<Rightarrow>
         (case on_machine (rp_SetDefault p version) s of
            (Inl e, s1) \<Rightarrow> ((400, Inl e), record ''error'' s1)
          | (Inr _, s1) \<Rightarrow>
             (case on_runtimes (SetDefaultVersion kind version) s1 of
                (Inl e, s2) \<Rightarrow> ((400, Inl e), record ''error'' s2)
              | (Inr _, s2) \<Rightarrow>
                 (case on_runtimes ListRuntimes (record ''ok'' s2) of
                    (Inl e, s3) \<Rightarrow> ((500, Inl e), s3)
                  | (Inr all, s3) \<Rightarrow> ((200, Inr (List.find (\<lambda>r. rt_Kind (fst r) = kind) all)), s3)))))"

text \<open>What installing and removing share: the operation, its record, and a new detection.\<close>

definition change_versions ::
  "'w runtime_call \<Rightarrow> 'w runtime_provider \<Rightarrow> nat \<Rightarrow> string \<Rightarrow> string \<Rightarrow> ('w \<Rightarrow> (string + unit) \<times> 'w) \<Rightarrow> ('w, runtime_view) runtime_handler" where
  "change_versions k p refused action target_id f s =
     (case on_machine f s of
        (r, s1) \<Rightarrow>
          (let s2 = audit_runtime k target_id action target_id (resultOf r) s1 in
           case r of
             Inl e \<Rightarrow> ((refused, Inl e), s2)
           | Inr _ \<Rightarrow>
              (case detectAndPersist k p s2 of (Inl e, s3) \<Rightarrow> ((500, Inl e), s3) | (Inr rt, s3) \<Rightarrow> ((200, Inr rt), s3))))"

definition installRuntimeVersion :: "'w runtime_call \<Rightarrow> string \<Rightarrow> string + string \<Rightarrow> ('w, runtime_view) runtime_handler" where
  "installRuntimeVersion k kind body s =
     (case body of
        Inl msg \<Rightarrow> ((400, Inl (RuntimeMessage msg)), s)
      | Inr version \<Rightarrow>
         (if version = [] then ((400, Inl (RuntimeMessage ''version is required'')), s)
          else (case find_provider k kind of
                  None \<Rightarrow> (no_provider kind, s)
                | Some p \<Rightarrow> change_versions k p 502 ''runtime.install'' (kind @ ''@'' @ version) (rp_Install p version) s)))"

definition removeRuntimeVersion :: "'w runtime_call \<Rightarrow> string \<Rightarrow> string \<Rightarrow> string \<Rightarrow> ('w, runtime_view) runtime_handler" where
  "removeRuntimeVersion k kind version confirm s =
     (if confirm \<noteq> ''true'' then ((400, Inl (RuntimeMessage ''remove requires confirm=true'')), s)
      else (case find_provider k kind of
              None \<Rightarrow> (no_provider kind, s)
            | Some p \<Rightarrow> change_versions k p 400 ''runtime.remove'' (kind @ ''@'' @ version) (rp_Remove p version) s))"

section \<open>What a detection leaves in the table\<close>

definition version_rows :: "db \<Rightarrow> row list" where "version_rows d = tables d ''runtime_versions''"

definition unique_ids :: "row list \<Rightarrow> bool" where "unique_ids rs \<longleftrightarrow> distinct (map (\<lambda>r. r ''id'') rs)"

definition found_cols :: "detected_version \<Rightarrow> (string \<times> sqlval) list" where
  "found_cols v = [(''install_path'', Text (dv_InstallPath v)), (''is_default'', boolToInt (dv_IsDefault v)), (''status'', Text ''installed'')]"

definition recorded :: "string \<Rightarrow> detected_version \<Rightarrow> row \<Rightarrow> bool" where
  "recorded rtid v r \<longleftrightarrow> is_version rtid (dv_Version v) r \<and>
     (\<forall>(c, x) \<in> set (found_cols v). r c = x)"

lemma set_cols_found [simp]:
  "set_cols (found_cols v) r ''id'' = r ''id''" "is_version i n (set_cols (found_cols v) r) = is_version i n r"
  by (simp_all add: set_cols_def found_cols_def is_version_def)

text \<open>An update by the id of one row changes that row only.\<close>

lemma update_one:
  assumes "unique_ids rs" "e \<in> set rs"
  shows "f e \<in> set (map (\<lambda>r. if r ''id'' = e ''id'' then f r else r) rs)"
    "r \<in> set rs \<Longrightarrow> r \<noteq> e \<Longrightarrow> r \<in> set (map (\<lambda>r. if r ''id'' = e ''id'' then f r else r) rs)"
proof -
  have "r' = e" if "r' \<in> set rs" "r' ''id'' = e ''id''" for r'
    using assms that by (auto simp: unique_ids_def distinct_map inj_on_def)
  then show "f e \<in> set (map (\<lambda>r. if r ''id'' = e ''id'' then f r else r) rs)"
    "r \<in> set rs \<Longrightarrow> r \<noteq> e \<Longrightarrow> r \<in> set (map (\<lambda>r. if r ''id'' = e ''id'' then f r else r) rs)"
    using assms(2) by (force simp: image_iff)+
qed

lemma found_row:
  "recorded rtid v (set_cols (found_cols v) r) \<longleftrightarrow> is_version rtid (dv_Version v) r"
  by (auto simp: recorded_def) (auto simp: set_cols_def found_cols_def)

lemma sql_query_row_found:
  assumes "sql_query_row t P d = (Inr e, d')"
  shows "e \<in> set (tables d t) \<and> P e \<and> tables d' = tables d"
  using assms by (cases d rule: tick_cases) (auto simp: sql_query_row_def sql_query_def go_bind_def filter_eq_Cons_iff split: list.splits)

lemma sql_query_row_none:
  assumes "sql_query_row t P d = (Inl NoRows, d')"
  shows "tables d' = tables d"
  using sql_query_row_tables [of t P d] assms by (simp del: sql_query_row_tables)

lemma record_detected_ok:
  assumes "record_detected rtid u v d = (Inr (), d')" "unique_ids (version_rows d)"
  shows "unique_ids (version_rows d') \<and> (\<exists>r \<in> set (version_rows d'). recorded rtid v r) \<and>
    (\<forall>r \<in> set (version_rows d). \<not> is_version rtid (dv_Version v) r \<longrightarrow> r \<in> set (version_rows d'))"
proof -
  obtain q d1 where q: "sql_query_row ''runtime_versions'' (is_version rtid (dv_Version v)) d = (q, d1)" by force
  consider (new) "q = Inl NoRows" | (old) e where "q = Inr e"
    using assms(1) by (auto simp: record_detected_def q split: sum.splits sql_error.splits)
  then show ?thesis
  proof cases
    case new
    let ?cols = "[(''id'', Text u), (''runtime_id'', Text rtid), (''version'', Text (dv_Version v))] @ found_cols v"
    have "sql_insert ''runtime_versions'' ?cols d1 = (Inr (), d')"
      using assms(1) by (simp add: record_detected_def q new map_err_ok found_cols_def)
    then have i: "version_rows d' = version_rows d1 @ [make_row ''runtime_versions'' ?cols]"
      "\<forall>r \<in> set (version_rows d1). \<not> rows_conflict ''runtime_versions'' (make_row ''runtime_versions'' ?cols) r"
      by (cases d1 rule: tick_cases; auto simp: sql_insert_def go_bind_def raw_insert_def version_rows_def split: if_splits)+
    have d1: "version_rows d1 = version_rows d" using sql_query_row_none [OF q [unfolded new]] by (simp add: version_rows_def)
    have "Text u \<notin> (\<lambda>r. r ''id'') ` set (version_rows d)"
    proof
      assume "Text u \<in> (\<lambda>r. r ''id'') ` set (version_rows d)"
      then obtain r where "r \<in> set (version_rows d)" "r ''id'' = Text u" by force
      then show False using i(2) unfolding d1 by (force simp: rows_conflict_def unique_cols_def make_row_def)
    qed
    then have "unique_ids (version_rows d')" using assms(2) by (simp add: i(1) d1 unique_ids_def make_row_def)
    moreover have "recorded rtid v (make_row ''runtime_versions'' ?cols)"
      by (auto simp: recorded_def is_version_def make_row_def found_cols_def)
    ultimately show ?thesis by (simp add: i(1) d1)
  next
    case old
    have e: "e \<in> set (version_rows d)" "is_version rtid (dv_Version v) e" "tables d1 = tables d"
      using sql_query_row_found [OF q [unfolded old]] by (simp_all add: version_rows_def)
    obtain n where u: "sql_update ''runtime_versions'' (\<lambda>r. r ''id'' = e ''id'') (found_cols v) d1 = (Inr n, d')"
      using assms(1) by (auto simp: record_detected_def q old go_bind_ok map_err_ok found_cols_def go_return_def)
    have r: "version_rows d' = map (\<lambda>r. if r ''id'' = e ''id'' then set_cols (found_cols v) r else r) (version_rows d)"
      using sql_update_ok [OF u] by (simp add: version_rows_def e(3))
    have "unique_ids (version_rows d')"
      using assms(2) by (simp add: r unique_ids_def comp_def if_distrib [of "\<lambda>r. r ''id''"] cong: if_cong)
    then show ?thesis
      using update_one [OF assms(2) e(1), where f = "set_cols (found_cols v)"] e(2) found_row unfolding r by blast
  qed
qed

lemma record_all_ok:
  assumes "record_all rtid found d = (Inr (), d')" "unique_ids (version_rows d)" "distinct (map (dv_Version \<circ> snd) found)"
  shows "(\<forall>v \<in> snd ` set found. \<exists>r \<in> set (version_rows d'). recorded rtid v r) \<and>
    (\<forall>r \<in> set (version_rows d). (\<forall>v \<in> snd ` set found. \<not> is_version rtid (dv_Version v) r) \<longrightarrow> r \<in> set (version_rows d'))"
  using assms
proof (induction rtid found arbitrary: d rule: record_all.induct)
  case (2 rtid u v vs)
  obtain d1 where d1: "record_detected rtid u v d = (Inr (), d1)" "record_all rtid vs d1 = (Inr (), d')"
    using "2.prems"(1) by (auto simp: go_bind_ok)
  note s = record_detected_ok [OF d1(1) "2.prems"(2)]
  have ih: "(\<forall>v \<in> snd ` set vs. \<exists>r \<in> set (version_rows d'). recorded rtid v r) \<and>
    (\<forall>r \<in> set (version_rows d1). (\<forall>v \<in> snd ` set vs. \<not> is_version rtid (dv_Version v) r) \<longrightarrow> r \<in> set (version_rows d'))"
    using s "2.prems"(3) by (intro "2.IH" [OF d1(2)]) simp_all
  have other: "\<not> is_version rtid (dv_Version w) r" if "recorded rtid v r" "w \<in> snd ` set vs" for w r
    using that "2.prems"(3) by (force simp: recorded_def is_version_def)
  obtain r where "r \<in> set (version_rows d1)" "recorded rtid v r" using s by blast
  then have "r \<in> set (version_rows d')" using ih other by blast
  then show ?case using ih s \<open>recorded rtid v r\<close> by auto
qed (simp add: go_return_def)

text \<open>What is known of a runtime that was there when a detection of it succeeds.\<close>

lemma ReplaceDetected_ok:
  assumes "ReplaceDetected u kind name found d = (Inr rt, d')" "unique_ids (version_rows d)"
    and "distinct (map (dv_Version \<circ> snd) found)"
  shows "(\<forall>v \<in> snd ` set found. \<exists>r \<in> set (version_rows d'). recorded (rt_ID rt) v r) \<and>
    (\<forall>r \<in> set (version_rows d). (\<forall>v \<in> snd ` set found. \<not> is_version (rt_ID rt) (dv_Version v) r) \<and> of_runtime (rt_ID rt) r \<longrightarrow>
       set_cols [(''status'', Text ''missing'')] r \<in> set (version_rows d'))"
proof -
  obtain d1 where e: "EnsureRuntime u kind name d = (Inr rt, d1)"
    and t: "transaction RuntimeSql (go_bind (map_err MarkMissing
        (sql_update ''runtime_versions'' (of_runtime (rt_ID rt)) [(''status'', Text ''missing'')])) (\<lambda>_. record_all (rt_ID rt) found)) d1 = (Inr (), d')"
    using assms(1) by (auto simp: ReplaceDetected_def go_bind_ok go_return_def)
  have d1: "version_rows d1 = version_rows d"
  proof -
    obtain f d0 where f: "getRuntimeByKind kind d = (Inr f, d0)" using e by (auto simp: EnsureRuntime_def go_bind_ok)
    have "version_rows d1 = version_rows d0"
    proof (cases f)
      case None
      then have "sql_insert ''runtimes'' [(''id'', Text u), (''kind'', Text kind), (''name'', Text name)] d0 = (Inr (), d1)"
        using e f by (auto simp: EnsureRuntime_def go_bind_def split: prod.splits sum.splits)
      then show ?thesis
        by (cases d0 rule: tick_cases) (auto simp: sql_insert_def go_bind_def raw_insert_def version_rows_def split: if_splits)
    qed (use e f in \<open>simp add: EnsureRuntime_def go_bind_def\<close>)
    then show ?thesis using getRuntimeByKind_ok [OF f] by (simp add: version_rows_def)
  qed
  let ?miss = "set_cols [(''status'', Text ''missing'')]"
  obtain d2 d3 where b: "tick d1 = (Inr (), d2)" "tick d3 = (Inr (), d')"
    "go_bind (map_err MarkMissing (sql_update ''runtime_versions'' (of_runtime (rt_ID rt)) [(''status'', Text ''missing'')]))
      (\<lambda>_. record_all (rt_ID rt) found) d2 = (Inr (), d3)"
    using t by (rule transaction_ok) (rule that)
  then obtain n d4 where m: "sql_update ''runtime_versions'' (of_runtime (rt_ID rt)) [(''status'', Text ''missing'')] d2 = (Inr n, d4)"
    "record_all (rt_ID rt) found d4 = (Inr (), d3)"
    by (auto simp: go_bind_ok map_err_ok)
  have r4: "version_rows d4 = map (\<lambda>r. if of_runtime (rt_ID rt) r then ?miss r else r) (version_rows d)"
    using sql_update_ok [OF m(1)] tick_ok_tables [OF b(1)] d1 by (simp add: version_rows_def)
  have u4: "unique_ids (version_rows d4)"
    using assms(2) by (simp add: r4 unique_ids_def comp_def set_cols_def if_distrib [of "\<lambda>r. r ''id''"] cong: if_cong)
  have d': "version_rows d' = version_rows d3" using tick_ok_tables [OF b(2)] by (simp add: version_rows_def)
  have v: "is_version i x (?miss r) = is_version i x r" for i x r by (simp add: is_version_def set_cols_def)
  have "?miss r \<in> set (version_rows d4)" if "r \<in> set (version_rows d)" "of_runtime (rt_ID rt) r" for r
    using that by (force simp: r4)
  then show ?thesis using record_all_ok [OF m(2) u4 assms(3)] unfolding d' by (metis v)
qed

section \<open>The handlers\<close>

lemma list_versions_of_tables [simp]: "tables (snd (list_versions_of rts d)) = tables d"
proof (induction rts arbitrary: d)
  case (Cons rt rts)
  show ?case
  proof (cases "listVersions (rt_ID rt) d")
    case (Pair r d1)
    then have t: "tables d1 = tables d" using repo_list_tables by (metis listVersions_def snd_conv)
    show ?thesis
    proof (cases r)
      case (Inr vs)
      show ?thesis using Pair Inr t Cons.IH [of d1]
        by (cases "list_versions_of rts d1"; cases "fst (list_versions_of rts d1)") (auto simp: go_bind_def go_return_def)
    qed (use Pair t in \<open>simp add: go_bind_def\<close>)
  qed
qed (simp add: go_return_def)

lemma ListRuntimes_tables:
  assumes "ListRuntimes d = (r, d')"
  shows "tables d' = tables d"
proof -
  obtain r1 d1 where l: "repo_list ''runtimes'' (\<lambda>_. True) (sort_key (text_col ''kind'')) scanRuntime RuntimeSql d = (r1, d1)"
    by fastforce
  then have t: "tables d1 = tables d" using repo_list_tables by (metis snd_conv)
  show ?thesis
  proof (cases r1)
    case (Inr rts)
    then have "d' = snd (list_versions_of rts d1)" using assms l by (simp add: ListRuntimes_def go_bind_def)
    then show ?thesis using t by simp
  qed (use assms l t in \<open>simp add: ListRuntimes_def go_bind_def\<close>)
qed

lemma on_runtimes_ok:
  assumes "on_runtimes f (pn, w) = (Inr a, (pn', w'))"
  shows "f (panel_db pn) = (Inr a, panel_db pn') \<and> w' = w"
  using assms by (auto simp: on_runtimes_def on_db_def split: prod.splits sum.splits)

text \<open>What a detection that succeeded leaves: the rows of what was found, and the rest of the runtime's rows, only
  marked.\<close>

lemma detectAndPersist_ok:
  assumes "detectAndPersist k p (pn, w) = (Inr view, (pn', w'))"
    and "unique_ids (version_rows (panel_db pn))" "distinct (map dv_Version found)" "fst (rp_DetectInstalled p w) = Inr found"
  shows "(\<forall>v \<in> set found. \<exists>r \<in> set (version_rows (panel_db pn')). recorded (rt_ID (fst view)) v r) \<and>
    (\<forall>r \<in> set (version_rows (panel_db pn)). of_runtime (rt_ID (fst view)) r \<and>
         (\<forall>v \<in> set found. \<not> is_version (rt_ID (fst view)) (dv_Version v) r) \<longrightarrow>
       set_cols [(''status'', Text ''missing'')] r \<in> set (version_rows (panel_db pn')))"
proof -
  let ?ids = "map (\<lambda>v. (rk_uuid k (rp_Kind p @ ''@'' @ dv_Version v), v)) found"
  have m: "on_machine (rp_DetectInstalled p) (pn, w) = (Inr found, (pn, snd (rp_DetectInstalled p w)))"
    using assms(4) by (cases "rp_DetectInstalled p w") (simp add: on_machine_def)
  obtain rt pn1 w1 all where
    r: "on_runtimes (ReplaceDetected (rk_uuid k (rp_Kind p)) (rp_Kind p) (runtimeDisplayName (rp_Kind p)) ?ids)
          (pn, snd (rp_DetectInstalled p w)) = (Inr rt, (pn1, w1))"
    and l: "on_runtimes ListRuntimes (pn1, w1) = (Inr all, (pn', w'))"
    and v: "view = (case List.find (\<lambda>r. rt_ID (fst r) = rt_ID rt) all of Some r \<Rightarrow> r | None \<Rightarrow> (rt, []))"
    using assms(1) m by (auto simp: detectAndPersist_def go_bind_ok go_return_def)
  have i: "rt_ID (fst view) = rt_ID rt"
  proof (cases "List.find (\<lambda>r. rt_ID (fst r) = rt_ID rt) all")
    case (Some r)
    then show ?thesis using v find_Some_iff [of "\<lambda>r. rt_ID (fst r) = rt_ID rt" all r] by auto
  qed (use v in simp)
  have t: "version_rows (panel_db pn') = version_rows (panel_db pn1)"
    using on_runtimes_ok [OF l, THEN conjunct1, THEN ListRuntimes_tables] by (simp add: version_rows_def)
  have s: "snd ` set ?ids = set found" by force
  have "distinct (map (dv_Version \<circ> snd) ?ids)" using assms(3) by (simp add: comp_def)
  from ReplaceDetected_ok [OF on_runtimes_ok [OF r, THEN conjunct1] assms(2) this]
  show ?thesis unfolding i t s by (intro conjI ballI impI; elim conjE) simp_all
qed

lemma audit_rows [simp]:
  "version_rows (panel_db (audit cl a tt ti r p)) = version_rows (panel_db p)"
  by (cases "panel_db p" rule: tick_cases)
    (auto simp: audit_def on_db_eq version_rows_def sql_insert_def go_bind_def raw_insert_def split: if_splits)

lemma audit_runtime_rows:
  "\<exists>pn'. audit_runtime k what a ti r (pn, w) = (pn', w) \<and> version_rows (panel_db pn') = version_rows (panel_db pn)"
  by (simp add: audit_runtime_def)

section \<open>Properties\<close>

definition demo_node_runtime :: "string list runtime_provider" where
  "demo_node_runtime = \<lparr> rp_Kind = ''node'',
     rp_DetectInstalled = (\<lambda>vs. (Inr (map (\<lambda>v. \<lparr> dv_Version = v, dv_InstallPath = ''/rt/'' @ v, dv_IsDefault = False \<rparr>) vs), vs)),
     rp_Install = (\<lambda>v vs. (Inr (), v # vs)), rp_Remove = (\<lambda>v vs. (Inr (), removeAll v vs)), rp_SetDefault = (\<lambda>v vs. (Inr (), vs)) \<rparr>"

text \<open>The versions a detection finds are the installed ones of the runtime afterwards, each with its path and default
  mark, and a version that was known and is not found any more stays listed, marked missing.\<close>

lemma detect_kind_records:
  assumes "detectRuntimeKind k kind (pn, w) = ((200, Inr view), (pn', w'))" "find_provider k kind = Some p"
    and "fst (rp_DetectInstalled p w) = Inr found" "distinct (map dv_Version found)" "unique_ids (version_rows (panel_db pn))"
  shows "(\<forall>v \<in> set found. \<exists>r \<in> set (version_rows (panel_db pn')). recorded (rt_ID (fst view)) v r) \<and>
    (\<forall>r \<in> set (version_rows (panel_db pn)). of_runtime (rt_ID (fst view)) r \<and>
         (\<forall>v \<in> set found. \<not> is_version (rt_ID (fst view)) (dv_Version v) r) \<longrightarrow>
       set_cols [(''status'', Text ''missing'')] r \<in> set (version_rows (panel_db pn')))"
proof -
  obtain res pn1 w1 where d: "detectAndPersist k p (pn, w) = (res, (pn1, w1))" by (metis surj_pair)
  then have v: "res = Inr view" "version_rows (panel_db pn') = version_rows (panel_db pn1)"
    using assms(1,2) by (auto simp: detectRuntimeKind_def audit_runtime_def split: sum.splits)
  show ?thesis using detectAndPersist_ok [OF _ assms(5,4,3)] d unfolding v by blast
qed

text \<open>What the handlers need of a provider: that it lists a version once.\<close>

locale runtime_detector =
  fixes p :: "'w runtime_provider"
  assumes lists_once: "fst (rp_DetectInstalled p w) = Inr found \<Longrightarrow> distinct (map dv_Version found)"
begin

lemma detection_is_recorded:
  assumes "detectRuntimeKind k kind (pn, w) = ((200, Inr view), (pn', w'))" "find_provider k kind = Some p"
    and "fst (rp_DetectInstalled p w) = Inr found" "unique_ids (version_rows (panel_db pn))"
  shows "(\<forall>v \<in> set found. \<exists>r \<in> set (version_rows (panel_db pn')). recorded (rt_ID (fst view)) v r) \<and>
    (\<forall>r \<in> set (version_rows (panel_db pn)). of_runtime (rt_ID (fst view)) r \<and>
         (\<forall>v \<in> set found. \<not> is_version (rt_ID (fst view)) (dv_Version v) r) \<longrightarrow>
       set_cols [(''status'', Text ''missing'')] r \<in> set (version_rows (panel_db pn')))"
  by (rule detect_kind_records [OF assms(1-3) lists_once [OF assms(3)] assms(4)])

end

text \<open>removing the default version leaves its row in the table with the default mark still set; only its
  status changes to missing.\<close>

theorem removed_default_stays_default:
  assumes "removeRuntimeVersion k kind version ''true'' (pn, w) = ((200, Inr view), (pn', w'))" "find_provider k kind = Some p"
    and "fst (rp_DetectInstalled p (snd (rp_Remove p version w))) = Inr found" "distinct (map dv_Version found)"
    and "version \<notin> dv_Version ` set found" "unique_ids (version_rows (panel_db pn))"
    and "r \<in> set (version_rows (panel_db pn))" "is_version (rt_ID (fst view)) version r" "r ''is_default'' = Num 1"
  shows "\<exists>r' \<in> set (version_rows (panel_db pn')). is_version (rt_ID (fst view)) version r' \<and>
    r' ''is_default'' = Num 1 \<and> r' ''status'' = Text ''missing''"
proof -
  obtain x w1 where r: "rp_Remove p version w = (x, w1)" by fastforce
  then obtain pn1 where d: "detectAndPersist k p (pn1, w1) = (Inr view, (pn', w'))"
    and t: "version_rows (panel_db pn1) = version_rows (panel_db pn)"
    using assms(1,2)
    by (auto simp: removeRuntimeVersion_def change_versions_def on_machine_def audit_runtime_def Let_def
        split: sum.splits prod.splits)
  have f: "fst (rp_DetectInstalled p w1) = Inr found" and u: "unique_ids (version_rows (panel_db pn1))"
    using assms(3,6) r t by simp_all
  have "of_runtime (rt_ID (fst view)) r" "\<forall>v \<in> set found. \<not> is_version (rt_ID (fst view)) (dv_Version v) r"
    using assms(5,8) by (auto simp: of_runtime_def is_version_def)
  then have "set_cols [(''status'', Text ''missing'')] r \<in> set (version_rows (panel_db pn'))"
    using detectAndPersist_ok [OF d u assms(4) f] assms(7) t by simp
  then show ?thesis
    using assms(8,9) by (auto intro!: bexI [of _ "set_cols [(''status'', Text ''missing'')] r"] simp: is_version_def set_cols_def)
qed

definition demo_runtime_call :: "string list runtime_call" where
  "demo_runtime_call = \<lparr> rk_call = demo_call ''d1'', rk_providers = [demo_node_runtime], rk_uuid = (\<lambda>what. ''u-'' @ what), rk_audit = (\<lambda>what. ''a-'' @ what) \<rparr>"

definition demo_versions :: panel where
  "demo_versions = demo_panel
     [(''runtimes'', [make_row ''runtimes'' [(''id'', Text ''n1''), (''kind'', Text ''node''), (''name'', Text ''Node.js'')]]),
      (''runtime_versions'', [make_row ''runtime_versions'' [(''id'', Text ''v1''), (''runtime_id'', Text ''n1''), (''version'', Text ''18''),
         (''install_path'', Text ''/rt/18''), (''is_default'', Num 1), (''status'', Text ''installed'')]])] []"

lemma demo_runs:
  "(case detectRuntimeKind demo_runtime_call ''node'' (demo_versions, [''20'']) of
      ((c, Inr view), s) \<Rightarrow> c = 200 \<and> rt_ID (fst view) = ''n1'' | _ \<Rightarrow> False)"
  "(case removeRuntimeVersion demo_runtime_call ''node'' ''18'' ''true'' (demo_versions, [''20'', ''18'']) of
      ((c, Inr view), s) \<Rightarrow> c = 200 \<and> rt_ID (fst view) = ''n1'' | _ \<Rightarrow> False)"
  by code_simp+

lemma demo_versions_ok:
  "unique_ids (version_rows (panel_db demo_versions))" "find_provider demo_runtime_call ''node'' = Some demo_node_runtime"
  by (simp_all add: demo_versions_def demo_panel_def panel_db_def version_rows_def unique_ids_def find_provider_def
      demo_runtime_call_def demo_node_runtime_def)

theorem removed_default_stays_default_witness:
  "\<exists>view s'. removeRuntimeVersion demo_runtime_call ''node'' ''18'' ''true'' (demo_versions, [''20'', ''18'']) = ((200, Inr view), s') \<and>
     (\<exists>r \<in> set (version_rows (panel_db (fst s'))). r ''version'' = Text ''18'' \<and> r ''is_default'' = Num 1 \<and> r ''status'' = Text ''missing'')"
proof -
  obtain view pn' w' where r: "removeRuntimeVersion demo_runtime_call ''node'' ''18'' ''true'' (demo_versions, [''20'', ''18'']) = ((200, Inr view), (pn', w'))"
    and i: "rt_ID (fst view) = ''n1''"
    using demo_runs(2) by (auto split: prod.splits sum.splits)
  let ?v = "\<lparr> dv_Version = ''20'', dv_InstallPath = ''/rt/20'', dv_IsDefault = False \<rparr>"
  let ?r = "make_row ''runtime_versions'' [(''id'', Text ''v1''), (''runtime_id'', Text ''n1''), (''version'', Text ''18''),
         (''install_path'', Text ''/rt/18''), (''is_default'', Num 1), (''status'', Text ''installed'')]"
  have f: "fst (rp_DetectInstalled demo_node_runtime (snd (rp_Remove demo_node_runtime ''18'' [''20'', ''18'']))) = Inr [?v]" by (simp add: demo_node_runtime_def)
  have m: "?r \<in> set (version_rows (panel_db demo_versions))" by (simp add: demo_versions_def demo_panel_def panel_db_def version_rows_def)
  have v: "is_version (rt_ID (fst view)) ''18'' ?r" "?r ''is_default'' = Num 1" unfolding i by code_simp+
  from removed_default_stays_default [OF r demo_versions_ok(2) f _ _ demo_versions_ok(1) m v]
  obtain r' where "r' \<in> set (version_rows (panel_db pn'))" "is_version (rt_ID (fst view)) ''18'' r'" "r' ''is_default'' = Num 1"
    "r' ''status'' = Text ''missing''" by auto
  then show ?thesis using r by (auto simp: is_version_def)
qed

end
