(* ===== verification/RealPaths.thy ===== *)
theory RealPaths
  imports Filesystem
begin

text \<open>
  The calls of package \<open>os\<close> on paths that go through no symbolic link, and on paths all of whose
  components are directories: they act on the entry the path names.
\<close>

definition straight :: "fs \<Rightarrow> path \<Rightarrow> bool" where
  "straight fs p \<longleftrightarrow> clean_path p \<and> (\<forall>q l. prefix q p \<longrightarrow> fs q \<noteq> Some (Link l))"

definition real_dirs :: "fs \<Rightarrow> path \<Rightarrow> bool" where
  "real_dirs fs p \<longleftrightarrow> clean_path p \<and> (\<forall>q. prefix q p \<longrightarrow> fs q = Some Dir)"

lemma real_dirs_straight: "real_dirs fs p \<Longrightarrow> straight fs p"
  by (simp add: real_dirs_def straight_def)

lemma straight_prefix: "straight fs p \<Longrightarrow> prefix q p \<Longrightarrow> straight fs q"
  by (auto simp: straight_def clean_path_def dest: set_mono_prefix intro: prefix_order.trans)

lemma locate_straight:
  assumes "locate fs n dest cs = Inr r" "clean_path cs" "\<And>q l. prefix q (dest @ cs) \<Longrightarrow> fs q \<noteq> Some (Link l)"
  shows "r = dest @ cs"
  using assms
proof (induction fs n dest cs rule: locate.induct)
  case (2 fs n dest c cs)
  have c: "c \<noteq> []" "c \<noteq> ''.''" "c \<noteq> ''..''" "clean_path cs" using 2(7) by (simp_all add: clean_path_def plain_comp_def)
  have nl: "fs (dest @ [c]) \<noteq> Some (Link l)" for l using 2(8) [of "dest @ [c]"] by simp
  have nl': "\<And>q l. prefix q ((dest @ [c]) @ cs) \<Longrightarrow> fs q \<noteq> Some (Link l)" using 2(8) by simp
  have ne: "\<not> (c = [] \<or> c = ''.'')" using c by simp
  show ?case
  proof (cases "fs (dest @ [c])")
    case None
    then show ?thesis using 2(6) c by (simp add: locate.simps(2) split: if_splits)
  next
    case (Some i)
    show ?thesis
    proof (cases i)
      case Dir
      then have "locate fs n (dest @ [c]) cs = Inr r" using 2(6) Some c by (simp add: locate.simps(2))
      from 2(3) [OF ne c(3) Some Dir this c(4) nl'] show ?thesis by simp
    next
      case (File m b)
      then have "locate fs n (dest @ [c]) cs = Inr r" "\<not> cs \<noteq> []" using 2(6) Some c by (simp_all add: locate.simps(2) split: if_splits)
      from 2(4) [OF ne c(3) Some File this(2,1) c(4) nl'] show ?thesis by simp
    next
      case (Link l)
      then show ?thesis using nl [of l] Some by simp
    qed
  qed
qed simp

lemma locate_at: "straight fs p \<Longrightarrow> locate fs n [] p = Inr r \<Longrightarrow> r = p"
  using locate_straight [of fs n "[]" p r] by (simp add: straight_def)

lemma locate_dirs:
  assumes "clean_path cs" "\<And>q. prefix q cs \<Longrightarrow> q \<noteq> [] \<Longrightarrow> fs (dest @ q) = Some Dir"
  shows "locate fs n dest cs = Inr (dest @ cs)"
  using assms
proof (induction cs arbitrary: dest)
  case (Cons c cs)
  have c: "c \<noteq> []" "c \<noteq> ''.''" "c \<noteq> ''..''" "clean_path cs" using Cons.prems(1) by (simp_all add: clean_path_def plain_comp_def)
  have "fs (dest @ [c]) = Some Dir" using Cons.prems(2) [of "[c]"] by simp
  moreover have "locate fs n (dest @ [c]) cs = Inr ((dest @ [c]) @ cs)"
    using Cons.prems(2) [of "c # q" for q] by (intro Cons.IH c(4)) simp
  ultimately show ?case using c by (simp add: locate.simps(2))
qed simp

lemma locate_real: "real_dirs fs p \<Longrightarrow> locate fs n [] p = Inr p"
  using locate_dirs [of p fs "[]" n] by (simp add: real_dirs_def)

lemma stat_real: "real_dirs fs p \<Longrightarrow> os_stat fs p = Inr Dir"
  by (simp add: os_stat_def locate_real) (simp add: real_dirs_def)

lemma entry_at:
  assumes "straight fs (butlast p)" "entry_path fs p = Inr r"
  shows "r = p"
proof (cases "p = []")
  case False
  then obtain x where "locate fs kernel_links [] (butlast p) = Inr x" "r = x @ [last p]"
    using assms(2) by (auto simp: entry_path_def split: sum.splits option.splits inode.splits)
  then show ?thesis using locate_at [OF assms(1)] False by fastforce
qed (use assms in \<open>simp add: entry_path_def\<close>)

lemma entry_real: "real_dirs fs (butlast p) \<Longrightarrow> entry_path fs p = Inr p"
  by (cases p rule: rev_cases) (auto simp: entry_path_def locate_real real_dirs_def)

lemma write_at:
  assumes "straight fs p" "os_write_file p b mode fs = (r, fs')"
  shows "q \<noteq> p \<Longrightarrow> fs' q = fs q" "fs' p \<noteq> Some (Link l)"
proof -
  have nl: "\<And>l. fs p \<noteq> Some (Link l)" using assms(1) by (simp add: straight_def)
  have "fs' = fs \<or> (\<exists>m. fs' = fs(p \<mapsto> File m b))"
  proof (cases "locate fs kernel_links [] p")
    case (Inr x)
    then show ?thesis
      using assms(2) locate_at [OF assms(1) Inr] by (auto simp: os_write_file_def split: option.splits inode.splits)
  qed (use assms(2) in \<open>simp add: os_write_file_def\<close>)
  then show "q \<noteq> p \<Longrightarrow> fs' q = fs q" "fs' p \<noteq> Some (Link l)" using nl by auto
qed

lemma mkdir_from_at:
  assumes "mkdir_all_from p cs fs = (r, fs')" "straight fs (p @ cs)"
  shows "fs' q = fs q \<or> fs q = None \<and> fs' q = Some Dir \<and> prefix q (p @ cs)"
  using assms
proof (induction p cs fs arbitrary: r fs' rule: mkdir_all_from.induct)
  case (2 p c cs fs)
  have pre: "straight fs (butlast (p @ [c]))" using straight_prefix [OF "2.prems"(2), of p] by simp
  show ?case
  proof (cases "os_stat fs (p @ [c])")
    case (Inr i)
    then show ?thesis using 2 by (cases i) auto
  next
    case (Inl e)
    show ?thesis
    proof (cases "e = ENOENT \<and> entry_path fs (p @ [c]) = Inr (p @ [c]) \<and> fs (p @ [c]) = None")
      case True
      define fs1 where "fs1 = fs(p @ [c] \<mapsto> Dir)"
      have go: "mkdir_all_from (p @ [c]) cs fs1 = (r, fs')" using "2.prems"(1) Inl True by (simp add: fs1_def)
      have s1: "straight fs1 ((p @ [c]) @ cs)" using "2.prems"(2) by (auto simp: straight_def fs1_def)
      have "e = ENOENT" "entry_path fs (p @ [c]) = Inr (p @ [c])" "fs (p @ [c]) = None" using True by simp_all
      then have "fs' q = fs1 q \<or> fs1 q = None \<and> fs' q = Some Dir \<and> prefix q ((p @ [c]) @ cs)"
        using "2.IH"(1) [OF Inl, of "p @ [c]" r fs'] go s1 unfolding fs1_def by blast
      then show ?thesis using True by (cases "q = p @ [c]") (auto simp: fs1_def)
    next
      case False
      then have "fs' = fs" using "2.prems"(1) Inl entry_at [OF pre]
        by (cases e) (auto split: sum.splits option.splits)
      then show ?thesis by simp
    qed
  qed
qed simp

lemma mkdir_at: "os_mkdir_all p fs = (r, fs') \<Longrightarrow> straight fs p \<Longrightarrow> fs' q = fs q \<or> fs q = None \<and> fs' q = Some Dir \<and> prefix q p"
  using mkdir_from_at [of "[]" p fs r fs' q] by (simp add: os_mkdir_all_def)

lemma mkdir_from_real:
  "real_dirs fs (p @ cs) \<Longrightarrow> mkdir_all_from p cs fs = (Inr (), fs)"
proof (induction cs arbitrary: p)
  case (Cons c cs)
  have "prefix (p @ [c]) (p @ c # cs)" by simp
  then have "real_dirs fs (p @ [c])"
    using Cons.prems unfolding real_dirs_def clean_path_def by (meson prefix_order.trans set_mono_prefix subsetD)
  then show ?case using Cons.IH [of "p @ [c]"] Cons.prems by (simp add: stat_real)
qed simp

lemma remove_real:
  assumes "real_dirs fs (butlast p)" "p \<noteq> []"
  shows "os_remove_all p fs = (Inr (), \<lambda>q. if prefix p q then None else fs q)"
  using assms by (simp add: os_remove_all_def entry_real)

text \<open>What a successful \<open>MkdirAll\<close> leaves.\<close>

lemma stat_straight: "straight fs p \<Longrightarrow> os_stat fs p = Inr i \<Longrightarrow> fs p = Some i"
  using locate_at [of fs p kernel_links] by (auto simp: os_stat_def split: sum.splits option.splits)

lemma mkdir_from_ok:
  assumes "mkdir_all_from p cs fs = (Inr u, fs')" "straight fs (p @ cs)" "real_dirs fs p"
  shows "real_dirs fs' (p @ cs)"
  using assms
proof (induction p cs fs arbitrary: u fs' rule: mkdir_all_from.induct)
  case (2 p c cs fs)
  have s: "straight fs (p @ [c])" using straight_prefix [OF "2.prems"(2), of "p @ [c]"] by simp
  have clean: "clean_path (p @ [c])" using s by (simp add: straight_def)
  show ?case
  proof (cases "os_stat fs (p @ [c])")
    case (Inr i)
    with "2.prems"(1) have i: "i = Dir" "mkdir_all_from (p @ [c]) cs fs = (Inr u, fs')"
      by (cases i; simp)+
    have "fs (p @ [c]) = Some Dir" using stat_straight [OF s Inr] i by simp
    then have "real_dirs fs (p @ [c])" using "2.prems"(3) clean by (auto simp: real_dirs_def prefix_snoc)
    with "2.IH"(2) [OF Inr i(1) i(2)] "2.prems"(2) show ?thesis by simp
  next
    case (Inl e)
    with "2.prems"(1) have e: "e = ENOENT" "entry_path fs (p @ [c]) = Inr (p @ [c])" "fs (p @ [c]) = None"
      and go: "mkdir_all_from (p @ [c]) cs (fs(p @ [c] \<mapsto> Dir)) = (Inr u, fs')"
      using entry_real [of fs "p @ [c]"] "2.prems"(3) by (auto split: os_error.splits sum.splits option.splits)
    have "real_dirs (fs(p @ [c] \<mapsto> Dir)) (p @ [c])" using "2.prems"(3) clean by (auto simp: real_dirs_def prefix_snoc)
    moreover have "straight (fs(p @ [c] \<mapsto> Dir)) ((p @ [c]) @ cs)" using "2.prems"(2) by (auto simp: straight_def)
    ultimately show ?thesis using "2.IH"(1) [OF Inl e go] by (simp del: fun_upd_apply)
  qed
qed simp

lemma mkdir_ok: "os_mkdir_all p fs = (Inr u, fs') \<Longrightarrow> straight fs p \<Longrightarrow> fs [] = Some Dir \<Longrightarrow> real_dirs fs' p"
  using mkdir_from_ok [of "[]" p fs u fs'] by (simp add: os_mkdir_all_def real_dirs_def clean_path_def)

text \<open>New entries of directories that are there.\<close>

lemma real_dirs_snoc: "real_dirs fs (p @ [c]) \<longleftrightarrow> real_dirs fs p \<and> plain_comp c \<and> fs (p @ [c]) = Some Dir"
  by (auto simp: real_dirs_def clean_path_def prefix_snoc)

lemma locate_dirs_then:
  assumes "clean_path cs" "\<And>q. prefix q cs \<Longrightarrow> q \<noteq> [] \<Longrightarrow> fs (dest @ q) = Some Dir" "plain_comp c"
    and "\<And>l. fs (dest @ cs @ [c]) \<noteq> Some (Link l)"
  shows "locate fs n dest (cs @ [c]) = Inr (dest @ cs @ [c])"
  using assms(1,2,4)
proof (induction cs arbitrary: dest)
  case Nil
  then show ?case using assms(3) by (auto simp: locate.simps(2) plain_comp_def split: option.splits inode.splits)
next
  case (Cons d cs)
  have d: "d \<noteq> []" "d \<noteq> ''.''" "d \<noteq> ''..''" "clean_path cs" using Cons.prems(1) by (simp_all add: clean_path_def plain_comp_def)
  have "fs (dest @ [d]) = Some Dir" using Cons.prems(2) [of "[d]"] by simp
  moreover have "locate fs n (dest @ [d]) (cs @ [c]) = Inr ((dest @ [d]) @ cs @ [c])"
    using Cons.prems(2) [of "d # q" for q] Cons.prems(3) by (intro Cons.IH d(4)) simp_all
  ultimately show ?case using d by (simp add: locate.simps(2))
qed

lemma locate_child:
  assumes "real_dirs fs p" "plain_comp c" "\<And>l. fs (p @ [c]) \<noteq> Some (Link l)"
  shows "locate fs n [] (p @ [c]) = Inr (p @ [c])"
  using locate_dirs_then [of p fs "[]" c n] assms by (simp add: real_dirs_def)

lemma mkdir_from_reals: "real_dirs fs (p @ cs) \<Longrightarrow> mkdir_all_from p (cs @ ds) fs = mkdir_all_from (p @ cs) ds fs"
proof (induction cs arbitrary: p)
  case (Cons c cs)
  have "prefix (p @ [c]) (p @ c # cs)" by simp
  then have "real_dirs fs (p @ [c])"
    using Cons.prems unfolding real_dirs_def clean_path_def by (meson prefix_order.trans set_mono_prefix subsetD)
  then show ?case using Cons.IH [of "p @ [c]"] Cons.prems by (simp add: stat_real)
qed simp

lemma mkdir_child:
  assumes "real_dirs fs p" "plain_comp c" "fs (p @ [c]) = None"
  shows "os_mkdir_all (p @ [c]) fs = (Inr (), fs(p @ [c] \<mapsto> Dir))"
proof -
  have "locate fs kernel_links [] (p @ [c]) = Inr (p @ [c])" by (rule locate_child [OF assms(1,2)]) (simp add: assms(3))
  then have "os_stat fs (p @ [c]) = Inl ENOENT" by (simp add: os_stat_def assms(3))
  moreover have "entry_path fs (p @ [c]) = Inr (p @ [c])" using assms(1) by (simp add: entry_real)
  moreover have "mkdir_all_from [] (p @ [c]) fs = mkdir_all_from p [c] fs" using mkdir_from_reals [of fs "[]" p "[c]"] assms(1) by simp
  ultimately show ?thesis using assms(3) by (simp add: os_mkdir_all_def)
qed

lemma write_child:
  assumes "real_dirs fs p" "plain_comp c" "fs (p @ [c]) = None"
  shows "os_write_file (p @ [c]) b mode fs = (Inr (), fs(p @ [c] \<mapsto> File mode b))"
  using locate_child [OF assms(1,2), of kernel_links] assms(3) by (simp add: os_write_file_def)

lemma read_child:
  assumes "real_dirs fs p" "plain_comp c" "fs (p @ [c]) = Some (File mode b)"
  shows "os_read_file fs (p @ [c]) = Inr b"
  using locate_child [OF assms(1,2), of kernel_links] assms(3) by (simp add: os_read_file_def os_stat_def)

text \<open>What is there is found whatever else is added.\<close>

lemma locate_frame:
  assumes "locate fs n dest cs = Inr r" "fs r \<noteq> None" "fs p = None"
  shows "locate (fs(p \<mapsto> x)) n dest cs = Inr r"
  using assms
proof (induction fs n dest cs rule: locate.induct)
  case (2 fs n dest c cs)
  consider "c = [] \<or> c = ''.''" | "c = ''..''" | "c \<noteq> []" "c \<noteq> ''.''" "c \<noteq> ''..''" by blast
  then show ?case
  proof cases
    case 1
    with 2(1) [OF 1] "2.prems" show ?thesis by (simp add: locate.simps(2))
  next
    case dotdot: 2
    with 2(2) "2.prems" show ?thesis by (simp add: locate.simps(2))
  next
    case plain: 3
    with "2.prems" obtain i where i: "fs (dest @ [c]) = Some i"
      by (auto simp: locate.simps(2) split: option.splits if_splits)
    then have ne: "dest @ [c] \<noteq> p" using "2.prems"(3) by auto
    show ?thesis
    proof (cases i)
      case (Link l)
      with plain "2.prems" i obtain m where m: "n = Suc m" by (auto simp: locate.simps(2) split: nat.splits)
      with plain 2 i ne Link show ?thesis by (simp add: locate.simps(2))
    qed (use plain 2 i ne in \<open>simp_all add: locate.simps(2) split: if_splits\<close>)
  qed
qed simp

lemma read_frame: "os_read_file fs q = Inr b \<Longrightarrow> fs p = None \<Longrightarrow> os_read_file (fs(p \<mapsto> x)) q = Inr b"
  using locate_frame [of fs kernel_links "[]" q _ p x]
  by (auto simp: os_read_file_def os_stat_def split: sum.splits option.splits inode.splits)

end
