(* ===== verification/NodeInstaller.thy ===== *)
theory NodeInstaller
  imports RealPaths GoPath Runtimes Decimal
begin

text \<open>
  The Node.js provider, \<open>internal/providers/runtime/node/\<close>: downloading, verifying and extracting the
  releases of nodejs.org, and the versions under the directory the daemon manages.

  HTTP, the hash, the archive readers, the listing of a directory and the \<open>node\<close> on the search path are
  the record \<open>node_world\<close>.  The downloaded file is a temporary one that is gone when \<open>Install\<close>
  returns, and is modelled as its bytes; progress reports go to a callback and are not.
\<close>

record runtime_listing =
  rl_Version :: string
  rl_InstallPath :: path
  rl_IsDefault :: bool

record node_installer =
  ni_baseDir :: path
  ni_goos :: string
  ni_goarch :: string

datatype entry_type = TypeDir | TypeReg | TypeSymlink | TypeOther

text \<open>
  An archive entry.  A body may not open, which for a tar archive does not happen apart from reading it; what
  is read of it may end in an error.
\<close>

record archive_entry =
  ae_Name :: string
  ae_Type :: entry_type
  ae_Mode :: nat
  ae_Body :: "string + bytes \<times> string option"

text \<open>The answer to a request is a status and a body, which may fail to arrive in full.\<close>

record node_world =
  nw_get :: "string \<Rightarrow> string + int \<times> (string + bytes)"
  nw_temp :: "string option"
  nw_sha256 :: "bytes \<Rightarrow> string"
  nw_tar :: "bytes \<Rightarrow> string + (string + archive_entry) list"
  nw_zip :: "bytes \<Rightarrow> string + (string + archive_entry) list"
  nw_readdir :: "fs \<Rightarrow> path \<Rightarrow> os_error + string list"
  nw_lookpath :: "(string \<times> string option) option"

datatype node_error =
    EmptyNodeVersion
  | NotAVersion string
  | UnsupportedOS string
  | UnsupportedArch string
  | NodeOs os_error
  | TempFailed string
  | DownloadFailed string
  | ChecksumsUnavailable
  | NoChecksumEntry string
  | ChecksumMismatch string string
  | ExtractFailed node_error
  | ArchiveFailed string
  | EntryEscapes string
  | FinalizeFailed os_error
  | NodeNotInstalled string
  | ListManagedFailed node_error

section \<open>Version numbers\<close>

text \<open>The regular expression \<open>\d+\.\d+\.\d+\<close>, at the start of a text and anywhere in it.\<close>

definition semver_at :: "string \<Rightarrow> string option" where
  "semver_at s =
     (let a = takeWhile is_digit s; s1 = drop (length a) s; b = takeWhile is_digit (tl s1); s2 = drop (length b) (tl s1);
          c = takeWhile is_digit (tl s2)
      in if a \<noteq> [] \<and> has_prefix s1 ''.'' \<and> b \<noteq> [] \<and> has_prefix s2 ''.'' \<and> c \<noteq> []
         then Some (a @ ''.'' @ b @ ''.'' @ c) else None)"

fun semver_find :: "string \<Rightarrow> string" where
  "semver_find [] = []"
| "semver_find (c # cs) = (case semver_at (c # cs) of Some v \<Rightarrow> v | None \<Rightarrow> semver_find cs)"

definition semver_match :: "string \<Rightarrow> bool" where
  "semver_match s \<longleftrightarrow> semver_find s \<noteq> []"

definition trim_v :: "string \<Rightarrow> string" where
  "trim_v v = (if has_prefix v ''v'' then tl v else v)"

section \<open>Paths\<close>

definition defaultFile :: "node_installer \<Rightarrow> path" where
  "defaultFile n = ni_baseDir n @ [''default.txt'']"

definition versionDir :: "node_installer \<Rightarrow> string \<Rightarrow> path" where
  "versionDir n v = join_path (ni_baseDir n) v"

definition path_suffix :: "path \<Rightarrow> string \<Rightarrow> path" where
  "path_suffix p s = (if p = [] then [s] else butlast p @ [last p @ s])"

definition stagingDir :: "node_installer \<Rightarrow> string \<Rightarrow> path" where
  "stagingDir n v = path_suffix (versionDir n v) ''.tmp''"

definition binPath :: "node_installer \<Rightarrow> path \<Rightarrow> path" where
  "binPath n dir = (if ni_goos n = ''windows'' then dir @ [''node.exe''] else dir @ [''bin'', ''node''])"

section \<open>What is installed\<close>

definition activeVersionOnPath :: "node_world \<Rightarrow> (string \<times> string) option" where
  "activeVersionOnPath w =
     (case nw_lookpath w of
        None \<Rightarrow> None
      | Some (p, None) \<Rightarrow> None
      | Some (p, Some out) \<Rightarrow> if semver_match out then Some (semver_find out, p) else None)"

definition readDefault :: "node_installer \<Rightarrow> fs \<Rightarrow> string \<times> bool" where
  "readDefault n fs =
     (case os_read_file fs (defaultFile n) of
        Inl e \<Rightarrow> ([], False) | Inr b \<Rightarrow> (trim_space b, trim_space b \<noteq> []))"

definition exists_file :: "fs \<Rightarrow> path \<Rightarrow> bool" where
  "exists_file fs p = is_ok (os_stat fs p)"

text \<open>The version, and where it is: under the directory or, by its name there, on the search path.\<close>

definition ActiveVersion :: "node_world \<Rightarrow> node_installer \<Rightarrow> fs \<Rightarrow> (string \<times> (path + string)) option" where
  "ActiveVersion w n fs =
     (let (v, ok) = readDefault n fs in
      if ok \<and> exists_file fs (binPath n (versionDir n v))
      then Some (v, Inl (binPath n (versionDir n v)))
      else map_option (\<lambda>(v, p). (v, Inr p)) (activeVersionOnPath w))"

definition managed_listing :: "node_installer \<Rightarrow> fs \<Rightarrow> string \<Rightarrow> bool" where
  "managed_listing n fs name \<longleftrightarrow>
     os_lstat fs (ni_baseDir n @ [name]) = Inr Dir \<and> semver_match name \<and> exists_file fs (binPath n (versionDir n name))"

definition ManagedVersions :: "node_world \<Rightarrow> node_installer \<Rightarrow> fs \<Rightarrow> node_error + runtime_listing list" where
  "ManagedVersions w n fs =
     (case nw_readdir w fs (ni_baseDir n) of
        Inl e \<Rightarrow> if e = ENOENT then Inr [] else Inl (NodeOs e)
      | Inr names \<Rightarrow>
         (let def = fst (readDefault n fs) in
          Inr (sort_key rl_Version
            (map (\<lambda>v. \<lparr> rl_Version = v, rl_InstallPath = binPath n (versionDir n v), rl_IsDefault = (v = def) \<rparr>)
              (filter (managed_listing n fs) names)))))"

text \<open>A version of the provider's list: where it is installed is a text there.\<close>

fun merge_versions :: "string list \<Rightarrow> runtime_listing list \<Rightarrow> detected_version list" where
  "merge_versions seen [] = []"
| "merge_versions seen (v # vs) =
     (if rl_Version v \<in> set seen then merge_versions seen vs
      else \<lparr> dv_Version = rl_Version v, dv_InstallPath = show_path (rl_InstallPath v), dv_IsDefault = rl_IsDefault v \<rparr> #
             merge_versions (rl_Version v # seen) vs)"

definition node_DetectInstalled :: "node_world \<Rightarrow> node_installer \<Rightarrow> fs \<Rightarrow> node_error + detected_version list" where
  "node_DetectInstalled w n fs =
     (case ManagedVersions w n fs of
        Inl e \<Rightarrow> Inl (ListManagedFailed e)
      | Inr managed \<Rightarrow>
         Inr (sort_key dv_Version
           (case ActiveVersion w n fs of
              None \<Rightarrow> merge_versions [] managed
            | Some (v, p) \<Rightarrow>
                \<lparr> dv_Version = v, dv_InstallPath = (case p of Inl q \<Rightarrow> show_path q | Inr q \<Rightarrow> q), dv_IsDefault = True \<rparr> #
                  merge_versions [v] managed)))"

section \<open>Downloading\<close>

definition releaseArchiveName :: "string \<Rightarrow> string \<Rightarrow> string \<Rightarrow> node_error + string \<times> bool" where
  "releaseArchiveName version goos goarch =
     (case map_of [(''darwin'', ''darwin''), (''linux'', ''linux''), (''windows'', ''win'')] goos of
        None \<Rightarrow> Inl (UnsupportedOS goos)
      | Some osPart \<Rightarrow>
         (case map_of [(''amd64'', ''x64''), (''arm64'', ''arm64'')] goarch of
            None \<Rightarrow> Inl (UnsupportedArch goarch)
          | Some archPart \<Rightarrow>
             if goos = ''windows'' then Inr (''node-v'' @ version @ ''-'' @ osPart @ ''-'' @ archPart @ ''.zip'', True)
             else Inr (''node-v'' @ version @ ''-'' @ osPart @ ''-'' @ archPart @ ''.tar.gz'', False)))"

definition base_url :: "string \<Rightarrow> string" where
  "base_url version = ''https://nodejs.org/dist/v'' @ version"

definition download :: "node_world \<Rightarrow> string \<Rightarrow> node_error + bytes" where
  "download w u =
     (case nw_get w u of
        Inl msg \<Rightarrow> Inl (DownloadFailed msg)
      | Inr (status, body) \<Rightarrow>
         if status \<noteq> 200 then Inl (DownloadFailed ''unexpected status'')
         else (case body of Inl msg \<Rightarrow> Inl (DownloadFailed msg) | Inr b \<Rightarrow> Inr b))"

definition parseChecksum :: "string \<Rightarrow> string \<Rightarrow> node_error + string" where
  "parseChecksum body filename =
     (case filter (\<lambda>fs. length fs = 2 \<and> fs ! 1 = filename) (map str_fields (split_on CHR 0x0A body)) of
        [] \<Rightarrow> Inl (NoChecksumEntry filename) | fs # _ \<Rightarrow> Inr (fs ! 0))"

definition verifyChecksum :: "node_world \<Rightarrow> string \<Rightarrow> string \<Rightarrow> bytes \<Rightarrow> node_error + unit" where
  "verifyChecksum w u archiveName file =
     (case download w u of
        Inl _ \<Rightarrow> Inl ChecksumsUnavailable
      | Inr body \<Rightarrow>
         (case parseChecksum body archiveName of
            Inl e \<Rightarrow> Inl e
          | Inr expected \<Rightarrow> if nw_sha256 w file \<noteq> expected then Inl (ChecksumMismatch expected (nw_sha256 w file)) else Inr ()))"

section \<open>Extracting\<close>

definition stripTopLevel :: "string \<Rightarrow> string" where
  "stripTopLevel name = drop 1 (dropWhile (\<lambda>c. c \<noteq> CHR ''/'') (replace_all [CHR 0x5C] ''/'' name))"

definition safeJoin :: "path \<Rightarrow> string \<Rightarrow> node_error + path" where
  "safeJoin dstDir rel =
     (let clean = join_path dstDir rel in
      if \<not> has_prefix (show_path clean) (show_path dstDir @ ''/'') \<and> show_path clean \<noteq> show_path dstDir
      then Inl (EntryEscapes rel) else Inr clean)"

text \<open>A regular file: its directory, then the file; what was read of it before an error is there.\<close>

definition extract_body :: "path \<Rightarrow> nat \<Rightarrow> bytes \<times> string option \<Rightarrow> fs \<Rightarrow> (node_error + unit) \<times> fs" where
  "extract_body targ mode body fs =
     (case os_write_file targ (fst body) mode fs of
        (Inl err, fs1) \<Rightarrow> (Inl (NodeOs err), fs1)
      | (Inr _, fs1) \<Rightarrow> (case snd body of Some msg \<Rightarrow> (Inl (ArchiveFailed msg), fs1) | None \<Rightarrow> (Inr (), fs1)))"

definition extract_file :: "bool \<Rightarrow> path \<Rightarrow> archive_entry \<Rightarrow> fs \<Rightarrow> (node_error + unit) \<times> fs" where
  "extract_file opens_first targ e fs =
     (case os_mkdir_all (butlast targ) fs of
        (Inl err, fs1) \<Rightarrow> (Inl (NodeOs err), fs1)
      | (Inr _, fs1) \<Rightarrow>
         (case ae_Body e of
            Inl msg \<Rightarrow> if opens_first then (Inl (ArchiveFailed msg), fs1) else extract_body targ (ae_Mode e) ([], Some msg) fs1
          | Inr body \<Rightarrow> extract_body targ (ae_Mode e) body fs1))"

definition extract_dir :: "path \<Rightarrow> fs \<Rightarrow> (node_error + unit) \<times> fs" where
  "extract_dir targ fs = (case os_mkdir_all targ fs of (Inl err, fs1) \<Rightarrow> (Inl (NodeOs err), fs1) | (Inr _, fs1) \<Rightarrow> (Inr (), fs1))"

text \<open>One entry of a tar archive: links and devices are passed over.\<close>

definition extract_tar_entry :: "path \<Rightarrow> archive_entry \<Rightarrow> fs \<Rightarrow> (node_error + unit) \<times> fs" where
  "extract_tar_entry dst e fs =
     (let rel = stripTopLevel (ae_Name e) in
      if rel = [] then (Inr (), fs)
      else (case safeJoin dst rel of
              Inl err \<Rightarrow> (Inl err, fs)
            | Inr targ \<Rightarrow>
               (case ae_Type e of
                  TypeDir \<Rightarrow> extract_dir targ fs
                | TypeReg \<Rightarrow> extract_file False targ e fs
                | _ \<Rightarrow> (Inr (), fs))))"

text \<open>One entry of a zip archive: what is not a directory is written as a file; opening it comes first.\<close>

definition extract_zip_entry :: "path \<Rightarrow> archive_entry \<Rightarrow> fs \<Rightarrow> (node_error + unit) \<times> fs" where
  "extract_zip_entry dst e fs =
     (let rel = stripTopLevel (ae_Name e) in
      if rel = [] then (Inr (), fs)
      else (case safeJoin dst rel of
              Inl err \<Rightarrow> (Inl err, fs)
            | Inr targ \<Rightarrow> if ae_Type e = TypeDir then extract_dir targ fs else extract_file True targ e fs))"

fun extract_entries ::
  "(archive_entry \<Rightarrow> fs \<Rightarrow> (node_error + unit) \<times> fs) \<Rightarrow> (string + archive_entry) list \<Rightarrow> fs \<Rightarrow> (node_error + unit) \<times> fs" where
  "extract_entries f [] fs = (Inr (), fs)"
| "extract_entries f (Inl msg # es) fs = (Inl (ArchiveFailed msg), fs)"
| "extract_entries f (Inr e # es) fs =
     (case f e fs of (Inl err, fs1) \<Rightarrow> (Inl err, fs1) | (Inr _, fs1) \<Rightarrow> extract_entries f es fs1)"

definition extractTarGz :: "node_world \<Rightarrow> bytes \<Rightarrow> path \<Rightarrow> fs \<Rightarrow> (node_error + unit) \<times> fs" where
  "extractTarGz w archive dst fs =
     (case nw_tar w archive of
        Inl msg \<Rightarrow> (Inl (ArchiveFailed msg), fs) | Inr es \<Rightarrow> extract_entries (extract_tar_entry dst) es fs)"

definition extractZip :: "node_world \<Rightarrow> bytes \<Rightarrow> path \<Rightarrow> fs \<Rightarrow> (node_error + unit) \<times> fs" where
  "extractZip w archive dst fs =
     (case nw_zip w archive of
        Inl msg \<Rightarrow> (Inl (ArchiveFailed msg), fs) | Inr es \<Rightarrow> extract_entries (extract_zip_entry dst) es fs)"

section \<open>Installing, removing, choosing the default\<close>

text \<open>Extract into the staging directory; what an extraction that failed left there is removed.\<close>

definition stage_release :: "node_world \<Rightarrow> bytes \<Rightarrow> bool \<Rightarrow> path \<Rightarrow> fs \<Rightarrow> (node_error + unit) \<times> fs" where
  "stage_release w archive isZip staging fs =
     (let fs1 = snd (os_remove_all staging fs) in
      case (if isZip then extractZip w archive staging fs1 else extractTarGz w archive staging fs1) of
        (Inl e, fs2) \<Rightarrow> (Inl (ExtractFailed e), snd (os_remove_all staging fs2))
      | (Inr _, fs2) \<Rightarrow> (Inr (), fs2))"

text \<open>The staged release takes the place of what was there.\<close>

definition finalize_release :: "path \<Rightarrow> path \<Rightarrow> fs \<Rightarrow> (node_error + unit) \<times> fs" where
  "finalize_release staging finalDir fs =
     (let fs1 = snd (os_remove_all finalDir fs) in
      case os_rename staging finalDir fs1 of
        (Inl e, fs2) \<Rightarrow> (Inl (FinalizeFailed e), snd (os_remove_all staging fs2))
      | (Inr _, fs2) \<Rightarrow> (Inr (), fs2))"

text \<open>The release as it was downloaded and found to have the published checksum.\<close>

definition fetch_release :: "node_world \<Rightarrow> string \<Rightarrow> string \<Rightarrow> node_error + bytes" where
  "fetch_release w version archiveName =
     (case nw_temp w of
        Some msg \<Rightarrow> Inl (TempFailed msg)
      | None \<Rightarrow>
         (case download w (base_url version @ ''/'' @ archiveName) of
            Inl e \<Rightarrow> Inl e
          | Inr archive \<Rightarrow>
             (case verifyChecksum w (base_url version @ ''/SHASUMS256.txt'') archiveName archive of
                Inl e \<Rightarrow> Inl e | Inr _ \<Rightarrow> Inr archive)))"

definition native_Install :: "node_world \<Rightarrow> node_installer \<Rightarrow> string \<Rightarrow> fs \<Rightarrow> (node_error + unit) \<times> fs" where
  "native_Install w n v fs =
     (let version = trim_v v in
      if \<not> semver_match version then (Inl (NotAVersion version), fs)
      else
       (case releaseArchiveName version (ni_goos n) (ni_goarch n) of
          Inl e \<Rightarrow> (Inl e, fs)
        | Inr (archiveName, isZip) \<Rightarrow>
           (case os_mkdir_all (ni_baseDir n) fs of
              (Inl e, fs1) \<Rightarrow> (Inl (NodeOs e), fs1)
            | (Inr _, fs1) \<Rightarrow>
               (case fetch_release w version archiveName of
                  Inl e \<Rightarrow> (Inl e, fs1)
                | Inr archive \<Rightarrow>
                   (case stage_release w archive isZip (stagingDir n version) fs1 of
                      (Inl e, fs2) \<Rightarrow> (Inl e, fs2)
                    | (Inr _, fs2) \<Rightarrow> finalize_release (stagingDir n version) (versionDir n version) fs2)))))"

definition native_Remove :: "node_installer \<Rightarrow> string \<Rightarrow> fs \<Rightarrow> (node_error + unit) \<times> fs" where
  "native_Remove n v fs =
     (let version = trim_v v; dir = versionDir n version in
      if \<not> exists_file fs dir then (Inl (NodeNotInstalled version), fs)
      else (case os_remove_all dir fs of
              (Inl e, fs1) \<Rightarrow> (Inl (NodeOs e), fs1)
            | (Inr _, fs1) \<Rightarrow>
               (let (def, ok) = readDefault n fs1 in
                (Inr (), if ok \<and> def = version then snd (os_remove_all (defaultFile n) fs1) else fs1))))"

definition native_SetDefault :: "node_installer \<Rightarrow> string \<Rightarrow> fs \<Rightarrow> (node_error + unit) \<times> fs" where
  "native_SetDefault n v fs =
     (let version = trim_v v; tmp = ni_baseDir n @ [''default.txt.tmp''] in
      if \<not> exists_file fs (binPath n (versionDir n version)) then (Inl (NodeNotInstalled version), fs)
      else
       (case os_mkdir_all (ni_baseDir n) fs of
          (Inl e, fs1) \<Rightarrow> (Inl (NodeOs e), fs1)
        | (Inr _, fs1) \<Rightarrow>
           (case os_write_file tmp version 420 fs1 of
              (Inl e, fs2) \<Rightarrow> (Inl (NodeOs e), fs2)
            | (Inr _, fs2) \<Rightarrow>
               (case os_rename tmp (defaultFile n) fs2 of
                  (Inl e, fs3) \<Rightarrow> (Inl (NodeOs e), fs3) | (Inr _, fs3) \<Rightarrow> (Inr (), fs3)))))"

definition checked :: "(string \<Rightarrow> fs \<Rightarrow> (node_error + unit) \<times> fs) \<Rightarrow> string \<Rightarrow> fs \<Rightarrow> (node_error + unit) \<times> fs" where
  "checked f v fs = (if v = [] then (Inl EmptyNodeVersion, fs) else f v fs)"

definition node_Install :: "node_world \<Rightarrow> node_installer \<Rightarrow> string \<Rightarrow> fs \<Rightarrow> (node_error + unit) \<times> fs" where
  "node_Install w n = checked (native_Install w n)"

definition node_Remove :: "node_installer \<Rightarrow> string \<Rightarrow> fs \<Rightarrow> (node_error + unit) \<times> fs" where
  "node_Remove n = checked (native_Remove n)"

definition node_SetDefault :: "node_installer \<Rightarrow> string \<Rightarrow> fs \<Rightarrow> (node_error + unit) \<times> fs" where
  "node_SetDefault n = checked (native_SetDefault n)"

section \<open>Archive entries stay below their directory\<close>

text \<open>The text of a path is that of another, and a slash, at its start only if the path is below the other.\<close>

lemma show_path_prefix:
  assumes "slash_free (d @ p)" "concat (map (\<lambda>c. CHR ''/'' # c) p) = concat (map (\<lambda>c. CHR ''/'' # c) d) @ t" "t = [] \<or> hd t = CHR ''/''"
  shows "prefix d p"
  using assms
proof (induction d arbitrary: p)
  case (Cons x d)
  then obtain y p' where p: "p = y # p'" by (cases p) auto
  have sf: "CHR ''/'' \<notin> set x" "CHR ''/'' \<notin> set y" using Cons.prems(1) by (auto simp: slash_free_def p)
  define u where "u = concat (map (\<lambda>c. CHR ''/'' # c) d) @ t"
  define v where "v = concat (map (\<lambda>c. CHR ''/'' # c) p')"
  have u: "u = [] \<or> hd u = CHR ''/''" using Cons.prems(3) by (cases d) (auto simp: u_def)
  have v: "v = [] \<or> hd v = CHR ''/''" by (cases p') (auto simp: v_def)
  have e: "y @ v = x @ u" using Cons.prems(2) by (simp add: p u_def v_def)
  have "takeWhile (\<lambda>c. c \<noteq> CHR ''/'') (y @ v) = y" using sf(2) v by (cases v) (auto simp: takeWhile_append)
  moreover have "takeWhile (\<lambda>c. c \<noteq> CHR ''/'') (x @ u) = x" using sf(1) u by (cases u) (auto simp: takeWhile_append)
  ultimately have "x = y" using e by simp
  then have "v = u" using e by simp
  then have "prefix d p'" using Cons.prems(1,3) by (intro Cons.IH) (auto simp: u_def v_def p slash_free_def)
  then show ?case by (simp add: p \<open>x = y\<close>)
qed simp

lemma safeJoin_below:
  assumes "safeJoin dst rel = Inr targ" "slash_free dst" "clean_path dst" "dst \<noteq> []"
  shows "prefix dst targ" "clean_path targ"
proof -
  have t: "targ = join_path dst rel" using assms(1) by (simp add: safeJoin_def Let_def split: if_splits)
  have "has_prefix (show_path targ) (show_path dst @ ''/'') \<or> show_path targ = show_path dst"
    using assms(1) by (auto simp: safeJoin_def Let_def split: if_splits)
  then obtain r where r: "show_path targ = show_path dst @ r" "r = [] \<or> hd r = CHR ''/''"
  proof
    assume "has_prefix (show_path targ) (show_path dst @ ''/'')"
    then have "show_path targ = (show_path dst @ ''/'') @ drop (length (show_path dst @ ''/'')) (show_path targ)"
      unfolding has_prefix_def by (metis append_take_drop_id)
    then show thesis by (intro that [of "CHR ''/'' # drop (length (show_path dst @ ''/'')) (show_path targ)"]) simp_all
  qed (rule that [of "[]"], simp_all)
  have sf: "slash_free (dst @ targ)" using assms(2) join_path_slash_free [OF assms(2)] by (auto simp: t slash_free_def)
  show "prefix dst targ"
  proof (cases "targ = []")
    case True
    then have "''/'' = concat (map (\<lambda>c. CHR ''/'' # c) dst) @ r" using r(1) assms(4) by (simp add: show_path_def)
    then have "dst = [[]]" using assms(4) by (cases dst; cases "tl dst") auto
    then show ?thesis using assms(3) by (simp add: clean_path_def plain_comp_def)
  next
    case False
    then show ?thesis using r assms(4) by (intro show_path_prefix [OF sf, of r]) (simp_all add: show_path_def)
  qed
  show "clean_path targ" unfolding t by (rule join_path_clean [OF assms(3)])
qed

text \<open>Outside the directory nothing has changed, and no link is in it.\<close>

definition confined :: "path \<Rightarrow> fs \<Rightarrow> fs \<Rightarrow> bool" where
  "confined dst fs0 fs \<longleftrightarrow>
     (\<forall>q. \<not> prefix dst q \<longrightarrow> fs q = fs0 q) \<and> (\<forall>q l. prefix dst q \<longrightarrow> fs q \<noteq> Some (Link l))"

lemma confined_straight:
  assumes "confined dst fs0 fs" "real_dirs fs0 (butlast dst)" "prefix dst targ" "clean_path targ" "dst \<noteq> []"
  shows "straight fs targ"
  unfolding straight_def
proof (intro conjI allI impI)
  fix q l assume q: "prefix q targ"
  show "fs q \<noteq> Some (Link l)"
  proof (cases "prefix dst q")
    case False
    then have "prefix q dst" "q \<noteq> dst" using q assms(3) prefix_same_cases by auto
    then have "prefix q (butlast dst)" using assms(5) by (metis append_butlast_last_id prefix_snoc)
    then show ?thesis using assms(1,2) False by (auto simp: confined_def real_dirs_def)
  qed (use assms(1) in \<open>simp add: confined_def\<close>)
qed (rule assms(4))

lemma confined_dirs:
  assumes "confined dst fs0 fs" "real_dirs fs0 (butlast dst)" "dst \<noteq> []"
  shows "real_dirs fs (butlast dst)"
proof -
  have "\<not> prefix dst q" if "prefix q (butlast dst)" for q
    using prefix_length_le [OF that] prefix_length_le [of dst q] assms(3) by (cases dst rule: rev_cases) auto
  then show ?thesis using assms(1,2) by (simp add: confined_def real_dirs_def)
qed

lemma confined_mkdir:
  assumes c: "confined dst fs0 fs" "real_dirs fs0 (butlast dst)" "dst \<noteq> []"
    and t: "prefix dst targ \<or> targ = butlast dst" "clean_path targ" and m: "os_mkdir_all targ fs = (r, fs')"
  shows "confined dst fs0 fs'"
proof (cases "targ = butlast dst")
  case True
  then have "fs' = fs" using m mkdir_from_real [of fs "[]" targ] confined_dirs [OF c] by (simp add: os_mkdir_all_def)
  then show ?thesis using c by simp
next
  case False
  then have pre: "prefix dst targ" using t by simp
  note at = mkdir_at [OF m confined_straight [OF c(1,2) pre t(2) c(3)]]
  have "fs' q = fs q" if "\<not> prefix dst q" for q
  proof -
    have "fs q = Some Dir" if "prefix q targ"
    proof -
      have "prefix q dst" "q \<noteq> dst" using that pre \<open>\<not> prefix dst q\<close> prefix_same_cases by auto
      then have "prefix q (butlast dst)" using c(3) by (metis append_butlast_last_id prefix_snoc)
      then show ?thesis using confined_dirs [OF c] by (simp add: real_dirs_def)
    qed
    then show ?thesis using at [of q] by auto
  qed
  moreover have "fs' q \<noteq> Some (Link l)" if "prefix dst q" for q l
    using at [of q] c(1) that by (auto simp: confined_def)
  ultimately show ?thesis using c(1) by (simp add: confined_def)
qed

lemma confined_write:
  assumes "confined dst fs0 fs" "real_dirs fs0 (butlast dst)" "dst \<noteq> []" "prefix dst targ" "clean_path targ"
    and "os_write_file targ b mode fs = (r, fs')"
  shows "confined dst fs0 fs'"
proof -
  note at = write_at [OF confined_straight [OF assms(1,2,4,5,3)] assms(6)]
  have "fs' q = fs q" if "\<not> prefix dst q" for q using at(1) that assms(4) by metis
  moreover have "fs' q \<noteq> Some (Link l)" if "prefix dst q" for q l
    using at assms(1) that by (cases "q = targ") (simp_all add: confined_def)
  ultimately show ?thesis using assms(1) by (simp add: confined_def)
qed

lemma confined_dir:
  assumes "confined dst fs0 fs" "real_dirs fs0 (butlast dst)" "dst \<noteq> []" "prefix dst targ" "clean_path targ"
  shows "confined dst fs0 (snd (extract_dir targ fs))"
proof -
  obtain r fs1 where m: "os_mkdir_all targ fs = (r, fs1)" by force
  show ?thesis using confined_mkdir [OF assms(1-3) _ assms(5) m] assms(4) by (simp add: extract_dir_def m split: sum.split)
qed

lemma confined_file:
  assumes "confined dst fs0 fs" "real_dirs fs0 (butlast dst)" "dst \<noteq> []" "prefix dst targ" "clean_path targ"
  shows "confined dst fs0 (snd (extract_file opens targ e fs))"
proof -
  have up: "prefix dst (butlast targ) \<or> butlast targ = butlast dst" "clean_path (butlast targ)"
    using assms(3-5) by (auto simp: prefix_def butlast_append clean_path_def dest: in_set_butlastD)
  obtain r fs1 where m: "os_mkdir_all (butlast targ) fs = (r, fs1)" by force
  have c: "confined dst fs0 fs1" by (rule confined_mkdir [OF assms(1-3) up m])
  have b: "confined dst fs0 (snd (extract_body targ mode body fs1))" for mode body
  proof -
    obtain r2 fs2 where w: "os_write_file targ (fst body) mode fs1 = (r2, fs2)" by force
    show ?thesis
      using confined_write [OF c assms(2-5) w] by (simp add: extract_body_def w split: sum.split option.split)
  qed
  show ?thesis using b c by (simp add: extract_file_def m split: sum.split)
qed

lemma confined_entry:
  assumes "confined dst fs0 fs" "real_dirs fs0 (butlast dst)" "dst \<noteq> []" "slash_free dst" "clean_path dst"
  shows "confined dst fs0 (snd (extract_tar_entry dst e fs))" "confined dst fs0 (snd (extract_zip_entry dst e fs))"
  using assms(1) confined_dir [OF assms(1-3) safeJoin_below [OF _ assms(4,5,3)]]
    confined_file [OF assms(1-3) safeJoin_below [OF _ assms(4,5,3)]]
  by (simp_all add: extract_tar_entry_def extract_zip_entry_def Let_def split: sum.split entry_type.split)

lemma confined_entries:
  assumes "\<And>e fs. confined dst fs0 fs \<Longrightarrow> confined dst fs0 (snd (f e fs))" "confined dst fs0 fs"
  shows "confined dst fs0 (snd (extract_entries f es fs))"
  using assms(2)
proof (induction es arbitrary: fs)
  case (Cons x es)
  show ?case
  proof (cases x)
    case (Inr e)
    obtain r fs1 where f: "f e fs = (r, fs1)" by force
    have "confined dst fs0 fs1" using assms(1) [OF Cons.prems, of e] by (simp add: f)
    then show ?thesis using Cons.IH by (simp add: Inr f split: sum.split)
  qed (simp add: Cons.prems)
qed simp

lemma confined_extract:
  assumes "confined dst fs0 fs" "real_dirs fs0 (butlast dst)" "dst \<noteq> []" "slash_free dst" "clean_path dst"
  shows "confined dst fs0 (snd (extractTarGz w a dst fs))" "confined dst fs0 (snd (extractZip w a dst fs))"
proof -
  have "confined dst fs0 (snd (extract_entries (extract_tar_entry dst) es fs))"
    "confined dst fs0 (snd (extract_entries (extract_zip_entry dst) es fs))" for es
    by (rule confined_entries [OF confined_entry(1) [OF _ assms(2-5)] assms(1)], assumption,
        rule confined_entries [OF confined_entry(2) [OF _ assms(2-5)] assms(1)], assumption)
  then show "confined dst fs0 (snd (extractTarGz w a dst fs))" "confined dst fs0 (snd (extractZip w a dst fs))"
    using assms(1) by (simp_all add: extractTarGz_def extractZip_def split: sum.split)
qed

text \<open>C10: an archive cannot write outside the directory it is extracted into, whatever names its entries have and
  however extracting them ends: with the directory's parents real directories and no link in it, every
  path that is not below it is as it was, and no link has come into it.\<close>

theorem archives_stay_in_their_directory:
  assumes "real_dirs fs (butlast dst)" "dst \<noteq> []" "slash_free dst" "clean_path dst"
    and "\<forall>q l. prefix dst q \<longrightarrow> fs q \<noteq> Some (Link l)"
  shows "(\<forall>q. \<not> prefix dst q \<longrightarrow> snd (extractTarGz w a dst fs) q = fs q \<and> snd (extractZip w a dst fs) q = fs q) \<and>
    (\<forall>q l. prefix dst q \<longrightarrow> snd (extractTarGz w a dst fs) q \<noteq> Some (Link l) \<and> snd (extractZip w a dst fs) q \<noteq> Some (Link l))"
proof -
  have "confined dst fs fs" using assms(5) by (simp add: confined_def)
  from confined_extract [OF this assms(1-4)] show ?thesis by (simp add: confined_def)
qed

section \<open>Installing\<close>

text \<open>A version as it is asked for: one path component that does not start with a \<open>v\<close>.\<close>

definition plain_version :: "string \<Rightarrow> bool" where
  "plain_version v \<longleftrightarrow> plain_comp v \<and> CHR ''/'' \<notin> set v \<and> \<not> has_prefix v ''v''"

lemma plain_versionD:
  assumes "plain_version v"
  shows "trim_v v = v" "versionDir n v = ni_baseDir n @ [v]" "stagingDir n v = ni_baseDir n @ [v @ ''.tmp'']" "v \<noteq> []"
proof -
  have v: "plain_comp v" "split_on CHR ''/'' v = [v]" using assms by (simp_all add: plain_version_def split_on_plain)
  then show "versionDir n v = ni_baseDir n @ [v]" by (simp add: versionDir_def join_path_def plain_comp_def)
  then show "stagingDir n v = ni_baseDir n @ [v @ ''.tmp'']" by (simp add: stagingDir_def path_suffix_def)
  show "trim_v v = v" "v \<noteq> []" using assms by (simp_all add: plain_version_def trim_v_def plain_comp_def)
qed

definition without :: "path \<Rightarrow> fs \<Rightarrow> fs" where
  "without p fs q = (if prefix p q then None else fs q)"

definition extract_release :: "node_world \<Rightarrow> bytes \<Rightarrow> bool \<Rightarrow> path \<Rightarrow> fs \<Rightarrow> (node_error + unit) \<times> fs" where
  "extract_release w archive isZip dst fs = (if isZip then extractZip w archive dst fs else extractTarGz w archive dst fs)"

lemma remove_without:
  "real_dirs fs b \<Longrightarrow> os_remove_all (b @ [c]) fs = (Inr (), without (b @ [c]) fs)"
  using remove_real [of fs "b @ [c]"] by (simp add: without_def fun_eq_iff)

lemma stage_release_cases:
  assumes "real_dirs fs b" "plain_comp c" "slash_free (b @ [c])" "stage_release w archive isZip (b @ [c]) fs = (r, fs')"
  shows "confined (b @ [c]) fs fs' \<and>
    (case r of Inl e \<Rightarrow> fs' = without (b @ [c]) fs \<and> (\<forall>x. e \<noteq> FinalizeFailed x)
     | Inr _ \<Rightarrow> extract_release w archive isZip (b @ [c]) (without (b @ [c]) fs) = (Inr (), fs'))"
proof -
  let ?s = "b @ [c]"
  have cl: "clean_path ?s" using assms(1,2) by (simp add: real_dirs_def clean_path_def)
  have c0: "confined ?s fs (without ?s fs)" by (simp add: confined_def without_def)
  obtain r2 fs2 where x: "extract_release w archive isZip ?s (without ?s fs) = (r2, fs2)" by force
  have c2: "confined ?s fs fs2"
    using confined_extract [OF c0 _ _ assms(3) cl, of w archive] assms(1) x by (auto simp: extract_release_def split: if_splits)
  have rd: "real_dirs fs2 b" using confined_dirs [OF c2] assms(1) by simp
  have same: "without ?s fs2 = without ?s fs" using c2 by (auto simp: confined_def without_def)
  show ?thesis
    using assms(4) c0 c2
    by (cases r2) (auto simp: stage_release_def Let_def remove_without [OF assms(1)] extract_release_def [symmetric] x
        remove_without [OF rd] same split: if_splits)
qed

lemma finalize_cases:
  assumes "real_dirs fs b" "c \<noteq> d" "finalize_release (b @ [c]) (b @ [d]) fs = (r, fs')"
  shows "(\<forall>p. \<not> prefix (b @ [c]) p \<and> \<not> prefix (b @ [d]) p \<longrightarrow> fs' p = fs p) \<and> (\<forall>p. prefix (b @ [c]) p \<longrightarrow> fs' p = None) \<and>
    (case r of Inl e \<Rightarrow> \<exists>x. e = FinalizeFailed x | Inr _ \<Rightarrow> \<forall>p. fs' (b @ d # p) = fs (b @ c # p))"
proof -
  let ?s = "b @ [c]" and ?t = "b @ [d]"
  define fs1 where "fs1 = without ?t fs"
  have pre: "\<not> prefix ?s ?t" "\<not> prefix ?t ?s" using assms(2) by auto
  have rd: "real_dirs fs1 b"
  proof -
    have "\<not> prefix ?t q" if "prefix q b" for q using prefix_length_le [OF that] prefix_length_le [of ?t q] by auto
    then show ?thesis using assms(1) by (simp add: real_dirs_def fs1_def without_def)
  qed
  have e: "entry_path fs1 ?s = Inr ?s" "entry_path fs1 ?t = Inr ?t" using entry_real [of fs1] rd by simp_all
  have t: "fs1 ?t = None" "fs1 ?s = fs ?s" using pre by (simp_all add: fs1_def without_def)
  have rm: "os_remove_all ?t fs = (Inr (), fs1)" unfolding fs1_def by (rule remove_without [OF assms(1)])
  have drop: "fs1 (b @ c # p) = fs (b @ c # p)" for p using assms(2) by (simp add: fs1_def without_def)
  show ?thesis
  proof (cases "fs ?s")
    case None
    then have "os_rename ?s ?t fs1 = (Inl ENOENT, fs1)" using e t by (simp add: os_rename_def)
    then have "r = Inl (FinalizeFailed ENOENT)" "fs' = without ?s fs1"
      using assms(3) by (simp_all add: finalize_release_def rm remove_without [OF rd])
    then show ?thesis by (simp add: without_def fs1_def)
  next
    case (Some i)
    then have "os_rename ?s ?t fs1 = (Inr (), \<lambda>q. if prefix ?t q then fs1 (?s @ drop (length ?t) q) else if prefix ?s q then None else fs1 q)"
      using e t pre assms(2) by (simp add: os_rename_def)
    then have r: "r = Inr ()" "fs' = (\<lambda>q. if prefix ?t q then fs1 (?s @ drop (length ?t) q) else if prefix ?s q then None else fs1 q)"
      using assms(3) by (simp_all add: finalize_release_def rm)
    have "\<not> prefix ?t q" if "prefix ?s q" for q
      using that pre prefix_same_cases by blast
    then show ?thesis using drop by (simp add: r fs1_def without_def)
  qed
qed

text \<open>C11: a version is installed only from the archive nodejs.org vouches for.  When installing succeeds, the
  downloaded archive has the checksum published for its name, and the version's directory is what that
  archive extracts to, and nothing of what was there before.  When it fails, the version is as it was
  unless putting the new one in place failed.  Whatever happens, no other path has changed, and nothing
  is left of the staging directory unless nothing was touched at all.\<close>

theorem installed_release_is_the_published_one:
  fixes n :: node_installer and v :: string
  defines "b \<equiv> ni_baseDir n"
  assumes "real_dirs fs b" "slash_free b" "plain_version v" "native_Install w n v fs = (r, fs')"
  shows "(\<forall>p. \<not> prefix (b @ [v]) p \<and> \<not> prefix (b @ [v @ ''.tmp'']) p \<longrightarrow> fs' p = fs p) \<and>
    (fs' = fs \<or> (\<forall>p. prefix (b @ [v @ ''.tmp'']) p \<longrightarrow> fs' p = None)) \<and>
    (case r of
       Inl e \<Rightarrow> (\<exists>x. e = FinalizeFailed x) \<or> (\<forall>p. prefix (b @ [v]) p \<longrightarrow> fs' p = fs p)
     | Inr _ \<Rightarrow> \<exists>name isZip archive sums staged.
         releaseArchiveName v (ni_goos n) (ni_goarch n) = Inr (name, isZip) \<and>
         download w (base_url v @ ''/'' @ name) = Inr archive \<and> download w (base_url v @ ''/SHASUMS256.txt'') = Inr sums \<and>
         parseChecksum sums name = Inr (nw_sha256 w archive) \<and>
         extract_release w archive isZip (b @ [v @ ''.tmp'']) (without (b @ [v @ ''.tmp'']) fs) = (Inr (), staged) \<and>
         (\<forall>p. fs' (b @ v # p) = staged (b @ (v @ ''.tmp'') # p)))"
proof -
  let ?tmp = "v @ ''.tmp''"
  note v = plain_versionD [OF assms(4)]
  have tmp: "plain_comp ?tmp" "slash_free (b @ [?tmp])"
    using assms(3,4) v(4) by (cases v; simp add: plain_version_def plain_comp_def slash_free_def)+
  have mk: "os_mkdir_all b fs = (Inr (), fs)"
    using mkdir_from_real [of fs "[]" b] assms(2) by (simp add: os_mkdir_all_def)
  have same: ?thesis if "fs' = fs" "\<exists>e. r = Inl e" using that by auto
  show ?thesis
  proof (cases "semver_match v \<and> is_ok (releaseArchiveName v (ni_goos n) (ni_goarch n))")
    case False
    then show ?thesis using assms(5) v(1) by (intro same) (auto simp: native_Install_def Let_def split: sum.splits if_splits)
  next
    case True
    then obtain name isZip where a: "releaseArchiveName v (ni_goos n) (ni_goarch n) = Inr (name, isZip)"
      by (cases "releaseArchiveName v (ni_goos n) (ni_goarch n)") auto
    note go = assms(5) [unfolded native_Install_def Let_def v(1) a sum.case prod.case b_def [symmetric] mk v(2,3) [of n, folded b_def]]
    show ?thesis
    proof (cases "fetch_release w v name")
      case (Inl e)
      then show ?thesis using go True by (intro same) auto
    next
      case (Inr archive)
      then obtain sums where f: "download w (base_url v @ ''/'' @ name) = Inr archive" "download w (base_url v @ ''/SHASUMS256.txt'') = Inr sums"
        "parseChecksum sums name = Inr (nw_sha256 w archive)"
        by (auto simp: fetch_release_def verifyChecksum_def split: option.splits sum.splits if_splits)
      obtain r2 fs2 where st: "stage_release w archive isZip (b @ [?tmp]) fs = (r2, fs2)" by force
      note stc = stage_release_cases [OF assms(2) tmp st]
      note c2 = conjunct1 [OF stc]
      have out: "\<not> prefix (b @ [?tmp]) p \<Longrightarrow> fs2 p = fs p" for p using c2 by (simp add: confined_def)
      show ?thesis
      proof (cases r2)
        case (Inl e)
        moreover from this have "fs2 = without (b @ [?tmp]) fs" using stc by simp
        ultimately have "r = Inl e" "fs' = fs2" "fs2 = without (b @ [?tmp]) fs"
          using go True Inr st by auto
        then show ?thesis by (auto simp: without_def dest: prefix_same_cases)
      next
        case (Inr u)
        then have fin: "finalize_release (b @ [?tmp]) (b @ [v]) fs2 = (r, fs')"
          using go True \<open>fetch_release w v name = Inr archive\<close> st by simp
        have rd: "real_dirs fs2 b" using confined_dirs [OF c2] assms(2) by simp
        have x: "extract_release w archive isZip (b @ [?tmp]) (without (b @ [?tmp]) fs) = (Inr (), fs2)"
          using stc Inr by simp
        have "?tmp \<noteq> v" by simp
        note fc = finalize_cases [OF rd this fin]
        have "\<forall>p. \<not> prefix (b @ [v]) p \<and> \<not> prefix (b @ [?tmp]) p \<longrightarrow> fs' p = fs p" using fc out by simp
        moreover have "\<forall>p. prefix (b @ [?tmp]) p \<longrightarrow> fs' p = None" using fc by blast
        ultimately show ?thesis using a f x fc by (cases r) auto
      qed
    qed
  qed
qed

section \<open>Removing\<close>

lemma without_real_dirs:
  assumes "real_dirs fs b" "prefix c b" "c \<noteq> []"
  shows "os_remove_all c fs = (Inr (), without c fs)"
proof -
  have "real_dirs fs (butlast c)"
    using assms(1,2) prefix_order.trans [OF prefixeq_butlast assms(2)]
    by (auto simp: real_dirs_def clean_path_def dest: set_mono_prefix intro: prefix_order.trans)
  from remove_real [OF this assms(3)] show ?thesis by (simp add: without_def fun_eq_iff)
qed

lemma read_default_gone:
  assumes "real_dirs fs (ni_baseDir n)" "prefix c (ni_baseDir n)"
  shows "readDefault n (without c fs) = ([], False)"
proof -
  define fs1 where "fs1 = without c fs"
  have "straight fs1 (defaultFile n)"
    using assms by (auto simp: straight_def defaultFile_def fs1_def without_def real_dirs_def clean_path_def plain_comp_def prefix_snoc)
  note at = locate_at [OF this, of kernel_links]
  have gone: "fs1 (defaultFile n) = None" using assms(2) by (simp add: fs1_def without_def defaultFile_def)
  have "os_stat fs1 (defaultFile n) = Inl e \<Longrightarrow> readDefault n fs1 = ([], False)" for e
    by (simp add: readDefault_def os_read_file_def)
  moreover have "\<exists>e. os_stat fs1 (defaultFile n) = Inl e"
  proof (cases "locate fs1 kernel_links [] (defaultFile n)")
    case (Inr x)
    then show ?thesis using at gone by (simp add: os_stat_def)
  qed (simp add: os_stat_def)
  ultimately show ?thesis unfolding fs1_def by blast
qed

text \<open>Removing a parent of the managed directory, or the directory itself, as a version.\<close>

lemma remove_above:
  assumes "real_dirs fs (ni_baseDir n)" "versionDir n (trim_v v) = c" "prefix c (ni_baseDir n)" "c \<noteq> []"
  shows "native_Remove n v fs = (Inr (), without c fs)"
proof -
  have "real_dirs fs c"
    using assms(1,3) by (auto simp: real_dirs_def clean_path_def dest: set_mono_prefix intro: prefix_order.trans)
  then have "exists_file fs c" by (simp add: exists_file_def stat_real)
  then show ?thesis
    using without_real_dirs [OF assms(1,3,4)] read_default_gone [OF assms(1,3)]
    by (simp add: native_Remove_def Let_def assms(2))
qed

text \<open>removing an installed version removes what is below its directory and, when it was the default, the
  record of that, and nothing else.  But the version is not checked to be one: the version \<open>v\<close> stands for
  the directory of all versions, and two dots for the one above it, and removing those removes everything
  in them.\<close>

theorem removing_a_version_can_remove_all:
  fixes n :: node_installer
  defines "b \<equiv> ni_baseDir n"
  assumes "real_dirs fs b" "b \<noteq> []" "plain_version v" "fs (b @ [v]) = Some Dir"
  shows "(\<exists>fs'. node_Remove n v fs = (Inr (), fs') \<and> (\<forall>p. prefix (b @ [v]) p \<longrightarrow> fs' p = None) \<and>
      (\<forall>p. \<not> prefix (b @ [v]) p \<and> \<not> prefix (b @ [''default.txt'']) p \<longrightarrow> fs' p = fs p)) \<and>
    node_Remove n ''v'' fs = (Inr (), without b fs) \<and>
    (butlast b \<noteq> [] \<longrightarrow> node_Remove n ''..'' fs = (Inr (), without (butlast b) fs))"
proof (intro conjI impI)
  note v = plain_versionD [OF assms(4)]
  have real: "real_dirs fs (b @ [v])"
    using assms(2,4,5) by (auto simp: real_dirs_def clean_path_def plain_version_def prefix_snoc)
  then have ex: "exists_file fs (b @ [v])" by (simp add: exists_file_def stat_real)
  define fs1 where "fs1 = without (b @ [v]) fs"
  have rd: "real_dirs fs1 b"
  proof -
    have "\<not> prefix (b @ [v]) q" if "prefix q b" for q using prefix_length_le [OF that] prefix_length_le [of "b @ [v]" q] by auto
    then show ?thesis using assms(2) by (simp add: real_dirs_def fs1_def without_def)
  qed
  obtain def ok where d: "readDefault n fs1 = (def, ok)" by force
  define fs' where "fs' = (if ok \<and> def = v then without (b @ [''default.txt'']) fs1 else fs1)"
  have "node_Remove n v fs = (Inr (), fs')"
    using remove_without [OF assms(2), of v] remove_without [OF rd, of "''default.txt''"] v ex
    by (simp add: node_Remove_def checked_def native_Remove_def Let_def b_def [symmetric] fs1_def [symmetric] d fs'_def defaultFile_def)
  moreover have "\<forall>p. prefix (b @ [v]) p \<longrightarrow> fs' p = None" by (simp add: fs'_def fs1_def without_def)
  moreover have "\<forall>p. \<not> prefix (b @ [v]) p \<and> \<not> prefix (b @ [''default.txt'']) p \<longrightarrow> fs' p = fs p"
    by (simp add: fs'_def fs1_def without_def)
  ultimately show "\<exists>fs'. node_Remove n v fs = (Inr (), fs') \<and> (\<forall>p. prefix (b @ [v]) p \<longrightarrow> fs' p = None) \<and>
      (\<forall>p. \<not> prefix (b @ [v]) p \<and> \<not> prefix (b @ [''default.txt'']) p \<longrightarrow> fs' p = fs p)" by blast
  have "versionDir n (trim_v ''v'') = b" by (simp add: versionDir_def trim_v_def has_prefix_def join_path_def b_def)
  then show "node_Remove n ''v'' fs = (Inr (), without b fs)"
    using remove_above [of fs n "''v''" b] assms(2,3) by (simp add: node_Remove_def checked_def b_def)
  assume "butlast b \<noteq> []"
  moreover have "versionDir n (trim_v ''..'') = butlast b" by (simp add: versionDir_def trim_v_def has_prefix_def join_path_def b_def)
  ultimately show "node_Remove n ''..'' fs = (Inr (), without (butlast b) fs)"
    using remove_above [of fs n "''..''" "butlast b"] assms(2) prefixeq_butlast [of b] by (simp add: node_Remove_def checked_def b_def)
qed

section \<open>What is detected\<close>

lemma merge_versions_new:
  "distinct (map dv_Version (merge_versions seen vs))"
  "x \<in> set (merge_versions seen vs) \<Longrightarrow> dv_Version x \<notin> set seen"
  "x \<in> set (merge_versions seen vs) \<Longrightarrow> \<exists>y \<in> set vs. rl_Version y = dv_Version x \<and> rl_IsDefault y = dv_IsDefault x"
proof -
  show new: "x \<in> set (merge_versions seen vs) \<Longrightarrow> dv_Version x \<notin> set seen" for x seen
    by (induction seen vs rule: merge_versions.induct) (auto split: if_splits)
  show "distinct (map dv_Version (merge_versions seen vs))"
  proof (induction vs arbitrary: seen)
    case (Cons v vs)
    have "x \<in> set (merge_versions s vs) \<Longrightarrow> dv_Version x \<notin> set s" for x s
      by (induction s vs rule: merge_versions.induct) (auto split: if_splits)
    then have "rl_Version v \<notin> dv_Version ` set (merge_versions (rl_Version v # seen) vs)" by fastforce
    then show ?case using Cons.IH by simp
  qed simp
  show "x \<in> set (merge_versions seen vs) \<Longrightarrow> \<exists>y \<in> set vs. rl_Version y = dv_Version x \<and> rl_IsDefault y = dv_IsDefault x"
    by (induction seen vs rule: merge_versions.induct) (auto split: if_splits)
qed

lemma one_default:
  assumes "distinct (map dv_Version vs)" "\<forall>x \<in> set vs. dv_IsDefault x \<longrightarrow> dv_Version x = d"
  shows "length (filter dv_IsDefault vs) \<le> 1"
  using assms
proof (induction vs)
  case (Cons a vs)
  show ?case
  proof (cases "dv_IsDefault a")
    case True
    then have "dv_Version a = d" using Cons.prems(2) by simp
    have "\<not> dv_IsDefault x" if "x \<in> set vs" for x
    proof
      assume "dv_IsDefault x"
      then have "dv_Version x = dv_Version a" using Cons.prems(2) that \<open>dv_Version a = d\<close> by simp
      then have "dv_Version a \<in> set (map dv_Version vs)" using that by (metis image_eqI set_map)
      then show False using Cons.prems(1) by simp
    qed
    then have "filter dv_IsDefault vs = []" by (simp add: filter_empty_conv)
    then show ?thesis using True by simp
  qed (use Cons in simp)
qed simp

lemma managed_default:
  assumes "ManagedVersions w n fs = Inr ms" "y \<in> set ms" "rl_IsDefault y"
  shows "\<exists>p. ActiveVersion w n fs = Some (rl_Version y, p)"
proof -
  obtain def ok where d: "readDefault n fs = (def, ok)" by force
  have "rl_Version y = def \<and> managed_listing n fs def"
    using assms by (auto simp: ManagedVersions_def d Let_def split: sum.splits if_splits)
  moreover from this have "def \<noteq> []" by (auto simp: managed_listing_def semver_match_def)
  moreover from this d have ok by (auto simp: readDefault_def split: sum.splits)
  ultimately show ?thesis by (simp add: ActiveVersion_def d managed_listing_def)
qed

lemma node_detected:
  assumes "node_DetectInstalled w n fs = Inr vs"
  shows "distinct (map dv_Version vs) \<and> sorted (map dv_Version vs) \<and> length (filter dv_IsDefault vs) \<le> 1"
proof -
  obtain ms where ms: "ManagedVersions w n fs = Inr ms" using assms by (auto simp: node_DetectInstalled_def split: sum.splits)
  define found where "found = (case ActiveVersion w n fs of
      None \<Rightarrow> merge_versions [] ms
    | Some (v, p) \<Rightarrow> \<lparr> dv_Version = v, dv_InstallPath = (case p of Inl q \<Rightarrow> show_path q | Inr q \<Rightarrow> q), dv_IsDefault = True \<rparr> # merge_versions [v] ms)"
  have vs: "vs = sort_key dv_Version found" using assms by (simp add: node_DetectInstalled_def ms found_def)
  have ok: "distinct (map dv_Version found) \<and> (\<exists>d. \<forall>x \<in> set found. dv_IsDefault x \<longrightarrow> dv_Version x = d)"
  proof (cases "ActiveVersion w n fs")
    case None
    then have "\<not> rl_IsDefault y" if "y \<in> set ms" for y using managed_default [OF ms that] by auto
    then have "\<forall>x \<in> set found. \<not> dv_IsDefault x" using merge_versions_new(3) [of _ "[]" ms] by (fastforce simp: found_def None)
    then show ?thesis using merge_versions_new(1) [of "[]" ms] by (simp add: found_def None)
  next
    case (Some a)
    obtain v p where a: "a = (v, p)" by force
    have "rl_Version y = v" if "y \<in> set ms" "rl_IsDefault y" for y using managed_default [OF ms that] Some a by auto
    then have "\<forall>x \<in> set found. dv_IsDefault x \<longrightarrow> dv_Version x = v"
      using merge_versions_new(3) [of _ "[v]" ms] by (fastforce simp: found_def Some a)
    moreover have "distinct (map dv_Version found)"
      using merge_versions_new(1) [of "[v]" ms] merge_versions_new(2) [of _ "[v]" ms] by (fastforce simp: found_def Some a)
    ultimately show ?thesis by blast
  qed
  have "distinct (map dv_Version vs)"
    using ok unfolding vs by (metis distinct_map distinct_sort set_sort)
  moreover have "sorted (map dv_Version vs)" by (simp add: vs)
  moreover have "\<exists>d. \<forall>x \<in> set vs. dv_IsDefault x \<longrightarrow> dv_Version x = d" using ok by (simp add: vs)
  ultimately show ?thesis using one_default by blast
qed

text \<open>what is detected is a list of distinct versions in their order as texts, of which at most one is the
  default, although the default comes from two places: the file that records it and the search path.\<close>

theorem detected_versions_have_one_default:
  assumes "node_DetectInstalled w n fs = Inr vs"
  shows "distinct (map dv_Version vs) \<and> sorted (map dv_Version vs) \<and> length (filter dv_IsDefault vs) \<le> 1"
  by (rule node_detected [OF assms])

section \<open>A staging directory passes for a version\<close>

lemma semver_at_extends:
  assumes "semver_at s = Some x"
  shows "semver_at (s @ t) \<noteq> None"
proof -
  define a where "a = takeWhile is_digit s"
  define b where "b = takeWhile is_digit (tl (drop (length a) s))"
  define r where "r = tl (drop (length b) (tl (drop (length a) s)))"
  have n: "a \<noteq> []" "has_prefix (drop (length a) s) ''.''" "b \<noteq> []" "has_prefix (drop (length b) (tl (drop (length a) s))) ''.''" "takeWhile is_digit r \<noteq> []"
    using assms by (auto simp: semver_at_def Let_def a_def b_def r_def split: if_splits)
  have dot: "\<not> is_digit CHR ''.''" by (simp add: is_digit_def)
  have tw: "takeWhile is_digit (u @ CHR ''.'' # z) = u" if "\<forall>c \<in> set u. is_digit c" for u z
    using that dot by (induction u) simp_all
  have dig: "\<forall>c \<in> set a. is_digit c" "\<forall>c \<in> set b. is_digit c" unfolding a_def b_def by (auto dest: set_takeWhileD)
  have pre: "has_prefix u ''.'' \<Longrightarrow> u = CHR ''.'' # tl u" for u by (cases u) (auto simp: has_prefix_def)
  have "s = a @ drop (length a) s" unfolding a_def by (metis append_take_drop_id takeWhile_eq_take)
  moreover have "tl (drop (length a) s) = b @ drop (length b) (tl (drop (length a) s))"
    unfolding b_def by (metis append_take_drop_id takeWhile_eq_take)
  ultimately have s: "s = a @ CHR ''.'' # b @ CHR ''.'' # r" using pre [OF n(2)] pre [OF n(4)] by (metis r_def)
  then have st: "s @ t = a @ CHR ''.'' # b @ CHR ''.'' # (r @ t)" by simp
  have c: "takeWhile is_digit (r @ t) \<noteq> []" using n(5) by (cases r) (auto split: if_splits)
  show ?thesis
    unfolding semver_at_def Let_def st tw [OF dig(1)] using n(1,3) c tw [OF dig(2)] by (simp add: has_prefix_def)
qed

lemma semver_match_extends: "semver_match s \<Longrightarrow> semver_match (s @ t)"
proof (induction s)
  case (Cons c cs)
  have ne: "semver_at u = Some x \<Longrightarrow> x \<noteq> []" for u x by (auto simp: semver_at_def Let_def split: if_splits)
  show ?case
  proof (cases "semver_at (c # cs)")
    case None
    then have "semver_match (cs @ t)" using Cons by (simp add: semver_match_def)
    then show ?thesis using ne by (auto simp: semver_match_def split: option.split)
  next
    case (Some x)
    then show ?thesis using semver_at_extends [of "c # cs" x t] ne by (auto simp: semver_match_def)
  qed
qed (simp add: semver_match_def)

text \<open>the staging directory of an installation that was cut off is listed as a version of its own, once the
  binary has been extracted into it: the pattern for versions is not anchored.\<close>

theorem interrupted_install_is_listed:
  assumes "semver_match v" "plain_version v" "nw_readdir w fs (ni_baseDir n) = Inr names" "v @ ''.tmp'' \<in> set names"
    and "os_lstat fs (ni_baseDir n @ [v @ ''.tmp'']) = Inr Dir" "exists_file fs (binPath n (ni_baseDir n @ [v @ ''.tmp'']))"
  shows "\<exists>ms. ManagedVersions w n fs = Inr ms \<and> v @ ''.tmp'' \<in> set (map rl_Version ms)"
proof -
  have "versionDir n (v @ ''.tmp'') = ni_baseDir n @ [v @ ''.tmp'']"
  proof -
    have "CHR ''/'' \<notin> set (v @ ''.tmp'')" using assms(2) by (simp add: plain_version_def)
    then have "split_on CHR ''/'' (v @ ''.tmp'') = [v @ ''.tmp'']" by (rule split_on_plain)
    moreover have "plain_comp (v @ ''.tmp'')" by (cases v) (auto simp: plain_comp_def)
    ultimately show ?thesis by (simp add: versionDir_def join_path_def plain_comp_def)
  qed
  then have "managed_listing n fs (v @ ''.tmp'')"
    using assms(5,6) semver_match_extends [OF assms(1)] by (simp add: managed_listing_def)
  then show ?thesis using assms(3,4) by (auto simp: ManagedVersions_def Let_def image_iff)
qed

section \<open>The properties at concrete inputs\<close>

definition demo_node :: node_installer where
  "demo_node = \<lparr> ni_baseDir = [''home'', ''r''], ni_goos = ''linux'', ni_goarch = ''amd64'' \<rparr>"

definition demo_node_fs :: fs where
  "demo_node_fs = map_of
     [([], Dir), ([''home''], Dir), ([''home'', ''r''], Dir), ([''home'', ''r'', ''1.2.3''], Dir), ([''home'', ''r'', ''1.2.3'', ''bin''], Dir),
      ([''home'', ''r'', ''1.2.3'', ''bin'', ''node''], File 493 ''old''),
      ([''home'', ''r'', ''1.2.4.tmp''], Dir), ([''home'', ''r'', ''1.2.4.tmp'', ''bin''], Dir),
      ([''home'', ''r'', ''1.2.4.tmp'', ''bin'', ''node''], File 493 ''half'')]"

definition demo_node_world :: node_world where
  "demo_node_world =
     \<lparr> nw_get = (\<lambda>_. Inr (200, Inr ''h  node-v1.2.4-linux-x64.tar.gz'')), nw_temp = None, nw_sha256 = (\<lambda>_. ''h''),
       nw_tar = (\<lambda>_. Inr [Inr \<lparr> ae_Name = ''top/../../etc'', ae_Type = TypeReg, ae_Mode = 420, ae_Body = Inr (''x'', None) \<rparr>]),
       nw_zip = (\<lambda>_. Inl ''-''), nw_readdir = (\<lambda>_ _. Inr [''1.2.3'', ''1.2.4.tmp'']), nw_lookpath = None \<rparr>"

lemma demo_node_ok:
  "real_dirs demo_node_fs [''home'', ''r'']" "slash_free [''home'', ''r'']" "plain_version ''1.2.4''" "plain_version ''1.2.3''"
  "ni_baseDir demo_node = [''home'', ''r'']"
  by (auto simp: real_dirs_def demo_node_fs_def clean_path_def plain_comp_def slash_free_def plain_version_def has_prefix_def
      prefix_Cons demo_node_def)

theorem archives_stay_in_their_directory_witness:
  "snd (extractTarGz demo_node_world [] [''home'', ''r'', ''9''] demo_node_fs) [''etc''] = None"
proof -
  have "real_dirs demo_node_fs (butlast [''home'', ''r'', ''9''])" "[''home'', ''r'', ''9''] \<noteq> []" "slash_free [''home'', ''r'', ''9'']"
    "clean_path [''home'', ''r'', ''9'']"
    using demo_node_ok(1) by (simp_all add: slash_free_def clean_path_def plain_comp_def)
  moreover have "\<forall>q l. prefix [''home'', ''r'', ''9''] q \<longrightarrow> demo_node_fs q \<noteq> Some (Link l)"
    by (auto simp: demo_node_fs_def map_of_eq_Some_iff split: if_splits)
  ultimately have "snd (extractTarGz demo_node_world [] [''home'', ''r'', ''9''] demo_node_fs) [''etc''] = demo_node_fs [''etc'']"
    using archives_stay_in_their_directory [of demo_node_fs "[''home'', ''r'', ''9'']" demo_node_world "[]", THEN conjunct1, rule_format, of "[''etc'']"] by simp
  then show ?thesis by (simp add: demo_node_fs_def)
qed

theorem installed_release_is_the_published_one_witness:
  "\<exists>r fs'. native_Install demo_node_world demo_node ''1.2.4'' demo_node_fs = (r, fs') \<and>
     fs' [''home'', ''r'', ''1.2.3'', ''bin'', ''node''] = Some (File 493 ''old'')"
proof -
  obtain r fs' where i: "native_Install demo_node_world demo_node ''1.2.4'' demo_node_fs = (r, fs')" by force
  from installed_release_is_the_published_one [of demo_node_fs demo_node "''1.2.4''", unfolded demo_node_ok(5), OF demo_node_ok(1-3) i]
  have "\<not> prefix ([''home'', ''r''] @ [''1.2.4'']) p \<Longrightarrow> \<not> prefix ([''home'', ''r''] @ [''1.2.4'' @ ''.tmp'']) p \<Longrightarrow> fs' p = demo_node_fs p" for p
    by blast
  then have "fs' [''home'', ''r'', ''1.2.3'', ''bin'', ''node''] = demo_node_fs [''home'', ''r'', ''1.2.3'', ''bin'', ''node'']" by simp
  then show ?thesis using i by (simp add: demo_node_fs_def)
qed

theorem removing_a_version_can_remove_all_witness:
  "\<exists>fs'. node_Remove demo_node ''v'' demo_node_fs = (Inr (), fs') \<and> fs' [''home'', ''r'', ''1.2.3'', ''bin'', ''node''] = None"
proof -
  have "demo_node_fs ([''home'', ''r''] @ [''1.2.3'']) = Some Dir" "[''home'', ''r''] \<noteq> []" by (simp_all add: demo_node_fs_def)
  from removing_a_version_can_remove_all [of demo_node_fs demo_node, unfolded demo_node_ok(5), OF demo_node_ok(1) this(2) demo_node_ok(4) this(1)]
  show ?thesis by (simp add: without_def)
qed

theorem detected_versions_have_one_default_witness:
  "case node_DetectInstalled demo_node_world demo_node demo_node_fs of Inl _ \<Rightarrow> False | Inr vs \<Rightarrow> length (filter dv_IsDefault vs) \<le> 1"
proof -
  obtain vs where "node_DetectInstalled demo_node_world demo_node demo_node_fs = Inr vs"
    by (simp add: node_DetectInstalled_def ManagedVersions_def demo_node_world_def Let_def)
  from this detected_versions_have_one_default [OF this] show ?thesis by simp
qed

theorem interrupted_install_is_listed_witness:
  "\<exists>ms. ManagedVersions demo_node_world demo_node demo_node_fs = Inr ms \<and> ''1.2.4'' @ ''.tmp'' \<in> set (map rl_Version ms)"
proof (rule interrupted_install_is_listed [OF _ demo_node_ok(3), of demo_node_world demo_node_fs demo_node "[''1.2.3'', ''1.2.4.tmp'']"])
  show "semver_match ''1.2.4''" by code_simp
  show "nw_readdir demo_node_world demo_node_fs (ni_baseDir demo_node) = Inr [''1.2.3'', ''1.2.4.tmp'']" by (simp add: demo_node_world_def)
  show "os_lstat demo_node_fs (ni_baseDir demo_node @ [''1.2.4'' @ ''.tmp'']) = Inr Dir" by code_simp
  show "exists_file demo_node_fs (binPath demo_node (ni_baseDir demo_node @ [''1.2.4'' @ ''.tmp'']))" by code_simp
qed simp

end
