(* ===== verification/PhpRuntime.thy ===== *)
theory PhpRuntime
  imports NodeInstaller
begin

text \<open>
  The PHP provider, \<open>internal/providers/runtime/php/php.go\<close>: detection through the interpreters on the machine, and
  installing, removing and switching through Homebrew or \<open>update-alternatives\<close>.

  The commands and the search path are functions on the state of the machine.
\<close>

text \<open>A command answers with what it printed, on the standard output or on both streams, and with an error.\<close>

record 'w php_host =
  ph_goos :: string
  ph_lookpath :: "string \<Rightarrow> 'w \<Rightarrow> string option"
  ph_glob :: "string \<Rightarrow> 'w \<Rightarrow> string list"
  ph_output :: "string list \<Rightarrow> 'w \<Rightarrow> (string \<times> string option) \<times> 'w"
  ph_combined :: "string list \<Rightarrow> 'w \<Rightarrow> (string \<times> string option) \<times> 'w"

datatype php_error =
    EmptyPhpVersion
  | NoInstaller
  | NoVersionManager
  | PhpCommandFailed string string
  | NotAmongAlternatives string

text \<open>The group of \<open>PHP (\d+\.\d+\.\d+)\<close>, where it matches first.\<close>

fun phpVersionRe :: "string \<Rightarrow> string option" where
  "phpVersionRe [] = None"
| "phpVersionRe (c # cs) =
     (case (if has_prefix (c # cs) ''PHP '' then semver_at (drop 4 (c # cs)) else None) of
        Some v \<Rightarrow> Some v | None \<Rightarrow> phpVersionRe cs)"

definition probe :: "'w php_host \<Rightarrow> string \<Rightarrow> 'w \<Rightarrow> string option \<times> 'w" where
  "probe h path w =
     (case ph_output h [path, ''--version''] w of ((_, Some _), w') \<Rightarrow> (None, w') | ((out, None), w') \<Rightarrow> (phpVersionRe out, w'))"

definition php_ActiveVersion :: "'w php_host \<Rightarrow> 'w \<Rightarrow> (string \<times> string) option \<times> 'w" where
  "php_ActiveVersion h w =
     (case ph_lookpath h ''php'' w of
        None \<Rightarrow> (None, w)
      | Some path \<Rightarrow> (case probe h ''php'' w of (None, w') \<Rightarrow> (None, w') | (Some v, w') \<Rightarrow> (Some (v, path), w')))"

fun probe_all :: "'w php_host \<Rightarrow> string list \<Rightarrow> 'w \<Rightarrow> detected_version list \<times> 'w" where
  "probe_all h [] w = ([], w)"
| "probe_all h (p # ps) w =
     (case probe h p w of
        (v, w1) \<Rightarrow>
          (case probe_all h ps w1 of
             (vs, w2) \<Rightarrow>
               ((case v of None \<Rightarrow> vs | Some x \<Rightarrow> \<lparr> dv_Version = x, dv_InstallPath = p, dv_IsDefault = False \<rparr> # vs), w2)))"

definition alternative_paths :: "string \<Rightarrow> string list" where
  "alternative_paths out = filter (\<lambda>p. p \<noteq> []) (map trim_space (split_on CHR 0x0A (trim_space out)))"

definition updateAlternativesVersions :: "'w php_host \<Rightarrow> 'w \<Rightarrow> detected_version list option \<times> 'w" where
  "updateAlternativesVersions h w =
     (if ph_lookpath h ''update-alternatives'' w = None then (None, w)
      else (case ph_output h [''update-alternatives'', ''--list'', ''php''] w of
              ((_, Some _), w1) \<Rightarrow> (None, w1)
            | ((out, None), w1) \<Rightarrow> (case probe_all h (alternative_paths out) w1 of (vs, w2) \<Rightarrow> (Some vs, w2))))"

definition brewVersions :: "'w php_host \<Rightarrow> 'w \<Rightarrow> detected_version list \<times> 'w" where
  "brewVersions h w =
     (case probe_all h (ph_glob h ''/opt/homebrew/opt/php@*/bin/php'' w) w of
        (vs, w1) \<Rightarrow> (case probe_all h (ph_glob h ''/usr/local/opt/php@*/bin/php'' w1) w1 of (us, w2) \<Rightarrow> (vs @ us, w2)))"

definition php_ManagedVersions :: "'w php_host \<Rightarrow> 'w \<Rightarrow> detected_version list \<times> 'w" where
  "php_ManagedVersions h w =
     (case (if ph_goos h = ''linux'' then updateAlternativesVersions h w else (None, w)) of
        (a, w1) \<Rightarrow> (case brewVersions h w1 of (b, w2) \<Rightarrow> ((case a of None \<Rightarrow> [] | Some vs \<Rightarrow> vs) @ b, w2)))"

text \<open>The loop that keeps the first entry for each version; \<open>seen\<close> holds the versions met so far.\<close>

fun first_of_each :: "string list \<Rightarrow> detected_version list \<Rightarrow> detected_version list" where
  "first_of_each seen [] = []"
| "first_of_each seen (v # vs) =
     (if dv_Version v \<in> set seen then first_of_each seen vs else v # first_of_each (dv_Version v # seen) vs)"

definition php_DetectInstalled :: "'w php_host \<Rightarrow> 'w \<Rightarrow> detected_version list \<times> 'w" where
  "php_DetectInstalled h w =
     (case php_ManagedVersions h w of
        (managed, w1) \<Rightarrow>
          (case php_ActiveVersion h w1 of
             (a, w2) \<Rightarrow>
               (sort_key dv_Version
                  (case a of
                     None \<Rightarrow> first_of_each [] managed
                   | Some (v, p) \<Rightarrow> \<lparr> dv_Version = v, dv_InstallPath = p, dv_IsDefault = True \<rparr> # first_of_each [v] managed), w2)))"

section \<open>Changing the installation\<close>

definition majorMinor :: "string \<Rightarrow> string" where
  "majorMinor version =
     (let parts = split_on CHR ''.'' version in if length parts < 2 then version else parts ! 0 @ ''.'' @ parts ! 1)"

definition formula_of :: "string \<Rightarrow> string" where
  "formula_of version = ''php@'' @ majorMinor version"

definition php_command :: "'w php_host \<Rightarrow> string list \<Rightarrow> 'w \<Rightarrow> (php_error + unit) \<times> 'w" where
  "php_command h args w =
     (case ph_combined h args w of ((out, Some e), w') \<Rightarrow> (Inl (PhpCommandFailed e out), w') | ((_, None), w') \<Rightarrow> (Inr (), w'))"

definition php_checked :: "(string \<Rightarrow> 'w \<Rightarrow> (php_error + unit) \<times> 'w) \<Rightarrow> string \<Rightarrow> 'w \<Rightarrow> (php_error + unit) \<times> 'w" where
  "php_checked f v w = (if v = [] then (Inl EmptyPhpVersion, w) else f v w)"

definition sys_Install :: "'w php_host \<Rightarrow> string \<Rightarrow> 'w \<Rightarrow> (php_error + unit) \<times> 'w" where
  "sys_Install h version w =
     (if ph_lookpath h ''brew'' w = None then (Inl NoInstaller, w) else php_command h [''brew'', ''install'', formula_of version] w)"

definition sys_Remove :: "'w php_host \<Rightarrow> string \<Rightarrow> 'w \<Rightarrow> (php_error + unit) \<times> 'w" where
  "sys_Remove h version w =
     (if ph_lookpath h ''brew'' w = None then (Inl NoInstaller, w) else php_command h [''brew'', ''uninstall'', formula_of version] w)"

text \<open>The search for the alternative whose version is the one wanted.\<close>

fun set_alternative :: "'w php_host \<Rightarrow> string \<Rightarrow> string list \<Rightarrow> 'w \<Rightarrow> (php_error + unit) \<times> 'w" where
  "set_alternative h version [] w = (Inl (NotAmongAlternatives version), w)"
| "set_alternative h version (p # ps) w =
     (case probe h p w of
        (v, w1) \<Rightarrow>
          if v = Some version then php_command h [''update-alternatives'', ''--set'', ''php'', p] w1
          else set_alternative h version ps w1)"

definition sys_SetDefault :: "'w php_host \<Rightarrow> string \<Rightarrow> 'w \<Rightarrow> (php_error + unit) \<times> 'w" where
  "sys_SetDefault h version w =
     (if ph_lookpath h ''brew'' w \<noteq> None then php_command h [''brew'', ''link'', ''--overwrite'', ''--force'', formula_of version] w
      else if ph_lookpath h ''update-alternatives'' w \<noteq> None then
        (case ph_output h [''update-alternatives'', ''--list'', ''php''] w of
           ((out, Some e), w1) \<Rightarrow> (Inl (PhpCommandFailed e []), w1)
         | ((out, None), w1) \<Rightarrow> set_alternative h version (alternative_paths out) w1)
      else (Inl NoVersionManager, w))"

definition php_Install :: "'w php_host \<Rightarrow> string \<Rightarrow> 'w \<Rightarrow> (php_error + unit) \<times> 'w" where
  "php_Install h = php_checked (sys_Install h)"

definition php_Remove :: "'w php_host \<Rightarrow> string \<Rightarrow> 'w \<Rightarrow> (php_error + unit) \<times> 'w" where
  "php_Remove h = php_checked (sys_Remove h)"

definition php_SetDefault :: "'w php_host \<Rightarrow> string \<Rightarrow> 'w \<Rightarrow> (php_error + unit) \<times> 'w" where
  "php_SetDefault h = php_checked (sys_SetDefault h)"

section \<open>What is detected\<close>

lemma first_of_each_new:
  "distinct (map dv_Version (first_of_each seen vs)) \<and> dv_Version ` set (first_of_each seen vs) \<inter> set seen = {} \<and>
   dv_Version ` set (first_of_each seen vs) = dv_Version ` set vs - set seen \<and> set (first_of_each seen vs) \<subseteq> set vs"
proof (induction seen vs rule: first_of_each.induct)
  case (2 seen v vs)
  then show ?case by (cases "dv_Version v \<in> set seen") auto
qed simp

lemma probe_all_not_default: "v \<in> set (fst (probe_all h ps w)) \<Longrightarrow> \<not> dv_IsDefault v"
  by (induction h ps w rule: probe_all.induct) (auto split: prod.splits option.splits)

lemma probe_all_plain: "probe_all h ps w = (vs, w') \<Longrightarrow> list_all (\<lambda>v. \<not> dv_IsDefault v) vs"
  using probe_all_not_default [of _ h ps w] by (simp add: list_all_iff)

lemma managed_plain:
  assumes "php_ManagedVersions h w = (vs, w')"
  shows "list_all (\<lambda>v. \<not> dv_IsDefault v) vs"
proof -
  obtain a w1 where a: "(if ph_goos h = ''linux'' then updateAlternativesVersions h w else (None, w)) = (a, w1)" by fastforce
  obtain b w2 where b: "brewVersions h w1 = (b, w2)" by fastforce
  have "list_all (\<lambda>v. \<not> dv_IsDefault v) b"
    using b by (auto simp: brewVersions_def split: prod.splits dest!: probe_all_plain)
  moreover have "list_all (\<lambda>v. \<not> dv_IsDefault v) us" if "a = Some us" for us
    using a that by (auto simp: updateAlternativesVersions_def split: prod.splits if_splits option.splits dest!: probe_all_plain)
  ultimately show ?thesis using assms a b by (auto simp: php_ManagedVersions_def split: option.splits)
qed

lemma php_detected:
  shows "distinct (map dv_Version (fst (php_DetectInstalled h w))) \<and> sorted (map dv_Version (fst (php_DetectInstalled h w))) \<and>
    length (filter dv_IsDefault (fst (php_DetectInstalled h w))) \<le> 1"
proof -
  obtain ms w1 where m: "php_ManagedVersions h w = (ms, w1)" by fastforce
  then have nd: "\<forall>v \<in> set ms. \<not> dv_IsDefault v" using managed_plain by (simp add: list_all_iff)
  obtain a w2 where a: "php_ActiveVersion h w1 = (a, w2)" by fastforce
  define found where "found = (case a of None \<Rightarrow> first_of_each [] ms
    | Some (v, p) \<Rightarrow> \<lparr> dv_Version = v, dv_InstallPath = p, dv_IsDefault = True \<rparr> # first_of_each [v] ms)"
  have vs: "fst (php_DetectInstalled h w) = sort_key dv_Version found" by (simp add: php_DetectInstalled_def m a found_def)
  have new: "distinct (map dv_Version (first_of_each seen ms))" "dv_Version ` set (first_of_each seen ms) \<inter> set seen = {}"
    "\<forall>v \<in> set (first_of_each seen ms). \<not> dv_IsDefault v" for seen
    using first_of_each_new [of seen ms] nd by auto
  have d: "distinct (map dv_Version found) \<and> (\<exists>x. \<forall>y \<in> set found. dv_IsDefault y \<longrightarrow> dv_Version y = x)"
  proof (cases a)
    case None
    then show ?thesis using new(1,3) [of "[]"] by (simp add: found_def)
  next
    case (Some q)
    obtain v p where q: "q = (v, p)" by fastforce
    have "v \<notin> dv_Version ` set (first_of_each [v] ms)" using new(2) [of "[v]"] by auto
    then show ?thesis using new(1,3) [of "[v]"] by (auto simp: found_def Some q intro!: exI [of _ v])
  qed
  have "distinct (map dv_Version (sort_key dv_Version found))" using d by (metis distinct_map distinct_sort set_sort)
  moreover from this have "length (filter dv_IsDefault (sort_key dv_Version found)) \<le> 1" using d one_default by (metis set_sort)
  ultimately show ?thesis by (simp add: vs)
qed

text \<open>removing a version runs the removal of its whole series: for two versions of the same major and minor number
  it is one and the same operation.\<close>

theorem removing_a_patch_removes_the_series:
  assumes "majorMinor v = majorMinor v'" "v \<noteq> []" "v' \<noteq> []"
  shows "php_Remove h v = php_Remove h v' \<and>
    (ph_lookpath h ''brew'' w \<noteq> None \<longrightarrow> php_Remove h v w = php_command h [''brew'', ''uninstall'', ''php@'' @ majorMinor v'] w)"
  using assms by (auto simp: php_Remove_def php_checked_def sys_Remove_def formula_of_def fun_eq_iff)

definition demo_php_host :: "unit php_host" where
  "demo_php_host = \<lparr> ph_goos = ''darwin'', ph_lookpath = (\<lambda>c _. if c = ''brew'' \<or> c = ''php'' then Some ''/opt/homebrew/bin/php'' else None),
     ph_glob = (\<lambda>p _. if p = ''/opt/homebrew/opt/php@*/bin/php'' then [''/opt/homebrew/opt/php@8.2/bin/php''] else []),
     ph_output = (\<lambda>args w. ((if hd args = ''php'' then ''PHP 8.3.4 (cli)'' else ''PHP 8.2.1 (cli)'', None), w)),
     ph_combined = (\<lambda>_ w. (([], None), w)) \<rparr>"

theorem removing_a_patch_removes_the_series_witness:
  "php_Remove demo_php_host ''8.3.1'' () = php_command demo_php_host [''brew'', ''uninstall'', ''php@8.3''] () \<and>
   php_Remove demo_php_host ''8.3.1'' = php_Remove demo_php_host ''8.3.4''"
proof -
  have m: "majorMinor ''8.3.1'' = majorMinor ''8.3.4''" "majorMinor ''8.3.4'' = ''8.3''" by code_simp+
  have l: "ph_lookpath demo_php_host ''brew'' () \<noteq> None" by (simp add: demo_php_host_def)
  have r: "php_Remove demo_php_host ''8.3.1'' = php_Remove demo_php_host ''8.3.4'' \<and> (ph_lookpath demo_php_host ''brew'' () \<noteq> None \<longrightarrow>
      php_Remove demo_php_host ''8.3.1'' () = php_command demo_php_host [''brew'', ''uninstall'', ''php@'' @ majorMinor ''8.3.4''] ())"
    by (rule removing_a_patch_removes_the_series [OF m(1)]) simp_all
  have "php_Remove demo_php_host ''8.3.1'' () = php_command demo_php_host [''brew'', ''uninstall'', ''php@8.3''] ()"
    using mp [OF conjunct2 [OF r] l] unfolding m(2) by (simp only: append.simps)
  then show ?thesis using conjunct1 [OF r] by (rule conjI)
qed

end
