(* ===== verification/RuntimeProviders.thy ===== *)
theory RuntimeProviders
  imports RuntimeHandlers PhpRuntime
begin

text \<open>
  The two providers that \<open>internal/server/server.go\<close> registers, as the handlers of runtimes see them, and what the
  handlers do with what they detect.  \<open>msg\<close> is the text of an error.
\<close>

definition with_text :: "('e \<Rightarrow> string) \<Rightarrow> ('w \<Rightarrow> ('e + 'a) \<times> 'w) \<Rightarrow> 'w \<Rightarrow> (string + 'a) \<times> 'w" where
  "with_text msg f w = (case f w of (r, w') \<Rightarrow> (map_sum msg (\<lambda>a. a) r, w'))"

definition node_provider :: "(node_error \<Rightarrow> string) \<Rightarrow> node_world \<Rightarrow> node_installer \<Rightarrow> fs runtime_provider" where
  "node_provider msg w n =
     \<lparr> rp_Kind = ''node'', rp_DetectInstalled = with_text msg (\<lambda>fs. (node_DetectInstalled w n fs, fs)),
       rp_Install = (\<lambda>v. with_text msg (node_Install w n v)), rp_Remove = (\<lambda>v. with_text msg (node_Remove n v)),
       rp_SetDefault = (\<lambda>v. with_text msg (node_SetDefault n v)) \<rparr>"

definition php_provider :: "(php_error \<Rightarrow> string) \<Rightarrow> 'w php_host \<Rightarrow> 'w runtime_provider" where
  "php_provider msg h =
     \<lparr> rp_Kind = ''php'', rp_DetectInstalled = (\<lambda>w. case php_DetectInstalled h w of (vs, w') \<Rightarrow> (Inr vs, w')),
       rp_Install = (\<lambda>v. with_text msg (php_Install h v)), rp_Remove = (\<lambda>v. with_text msg (php_Remove h v)),
       rp_SetDefault = (\<lambda>v. with_text msg (php_SetDefault h v)) \<rparr>"

interpretation node: runtime_detector "node_provider msg w n" for msg w n
proof unfold_locales
  fix fs :: fs and found :: "detected_version list"
  assume "fst (rp_DetectInstalled (node_provider msg w n) fs) = Inr found"
  then have "node_DetectInstalled w n fs = Inr found"
    by (cases "node_DetectInstalled w n fs") (simp_all add: node_provider_def with_text_def)
  then show "distinct (map dv_Version found)" using node_detected by blast
qed

interpretation php: runtime_detector "php_provider msg h" for msg h
proof unfold_locales
  fix w and found :: "detected_version list"
  assume "fst (rp_DetectInstalled (php_provider msg h) w) = Inr found"
  then have "found = fst (php_DetectInstalled h w)" by (simp add: php_provider_def split: prod.splits)
  then show "distinct (map dv_Version found)" using php_detected [of h w] by simp
qed

text \<open>After a detection of the Node.js versions each version found has its row, with its path, its default mark and the
  status installed, and a version that was known and is gone keeps its row, marked missing.\<close>

lemma node_versions_are_recorded:
  assumes "detectRuntimeKind k kind (pn, fs) = ((200, Inr view), (pn', fs'))" "find_provider k kind = Some (node_provider msg w n)"
    and "node_DetectInstalled w n fs = Inr found" "unique_ids (version_rows (panel_db pn))"
  shows "(\<forall>v \<in> set found. \<exists>r \<in> set (version_rows (panel_db pn')). recorded (rt_ID (fst view)) v r) \<and>
    (\<forall>r \<in> set (version_rows (panel_db pn)). of_runtime (rt_ID (fst view)) r \<and>
         (\<forall>v \<in> set found. \<not> is_version (rt_ID (fst view)) (dv_Version v) r) \<longrightarrow>
       set_cols [(''status'', Text ''missing'')] r \<in> set (version_rows (panel_db pn')))"
  by (rule node.detection_is_recorded [OF assms(1,2) _ assms(4)]) (simp add: node_provider_def with_text_def assms(3))

text \<open>after a detection of the PHP versions each version found has its row, with its path, its default mark and the
  status installed, and a version that was known and is gone keeps its row, marked missing.\<close>

theorem detected_versions_are_recorded:
  assumes "detectRuntimeKind k kind (pn, w) = ((200, Inr view), (pn', w'))" "find_provider k kind = Some (php_provider msg h)"
    and "unique_ids (version_rows (panel_db pn))"
  shows "(\<forall>v \<in> set (fst (php_DetectInstalled h w)). \<exists>r \<in> set (version_rows (panel_db pn')). recorded (rt_ID (fst view)) v r) \<and>
    (\<forall>r \<in> set (version_rows (panel_db pn)). of_runtime (rt_ID (fst view)) r \<and>
         (\<forall>v \<in> set (fst (php_DetectInstalled h w)). \<not> is_version (rt_ID (fst view)) (dv_Version v) r) \<longrightarrow>
       set_cols [(''status'', Text ''missing'')] r \<in> set (version_rows (panel_db pn')))"
  by (rule php.detection_is_recorded [OF assms(1,2) _ assms(3)]) (simp add: php_provider_def split: prod.splits)

definition demo_php_call :: "unit runtime_call" where
  "demo_php_call = \<lparr> rk_call = demo_call ''d1'', rk_providers = [php_provider (\<lambda>_. []) demo_php_host],
     rk_uuid = (\<lambda>what. ''u-'' @ what), rk_audit = (\<lambda>what. ''a-'' @ what) \<rparr>"

lemma demo_detects:
  "(case detectRuntimeKind demo_php_call ''php'' (demo_versions, ()) of ((c, Inr view), _) \<Rightarrow> c = 200 | _ \<Rightarrow> False)"
  "\<lparr> dv_Version = ''8.3.4'', dv_InstallPath = ''/opt/homebrew/bin/php'', dv_IsDefault = True \<rparr> \<in> set (fst (php_DetectInstalled demo_php_host ()))"
  by code_simp+

theorem detected_versions_are_recorded_witness:
  "\<exists>view s'. detectRuntimeKind demo_php_call ''php'' (demo_versions, ()) = ((200, Inr view), s') \<and>
     (\<exists>r \<in> set (version_rows (panel_db (fst s'))). r ''version'' = Text ''8.3.4'' \<and> r ''is_default'' = Num 1)"
proof -
  obtain view pn' w' where r: "detectRuntimeKind demo_php_call ''php'' (demo_versions, ()) = ((200, Inr view), (pn', w'))"
    using demo_detects(1) by (auto split: prod.splits sum.splits)
  have "find_provider demo_php_call ''php'' = Some (php_provider (\<lambda>_. []) demo_php_host)"
    by (simp add: find_provider_def demo_php_call_def php_provider_def)
  from detected_versions_are_recorded [OF r this demo_versions_ok(1), THEN conjunct1, rule_format, OF demo_detects(2)]
  show ?thesis using r by (fastforce simp: recorded_def is_version_def found_cols_def boolToInt_def)
qed

end
