(* ===== verification/LocalCA.thy ===== *)
theory LocalCA
  imports Filesystem Shell Database
begin

text \<open>
  The local certificate authority, \<open>internal/providers/ssl/localca/\<close>: the files of the authority and of the
  certificates it issued, the operations of \<open>Provider\<close> on them, and the command that makes the operating
  system trust it.

  The encodings (PEM, DER, PKCS 8, JSON) are modelled by what a file parses to.  A key pair is a number, and
  a signature is the key that made it.  Every access to the disk may fail, as \<open>io_faults\<close> says, and a
  write that fails may have truncated the file.  Directories are there once \<open>MkdirAll\<close> made them.
\<close>

section \<open>Certificates\<close>

datatype key_usage = CertSign | DigitalSignature | CRLSign | KeyEncipherment

text \<open>A certificate, or the template of one; the times are seconds, which is what the encoding keeps.\<close>

record x509 =
  x_Serial :: int
  x_CommonName :: string
  x_DNSNames :: "string list"
  x_NotBefore :: int
  x_NotAfter :: int
  x_IsCA :: bool
  x_KeyUsage :: "key_usage list"
  x_ServerAuth :: bool
  x_PublicKey :: "nat option"
  x_Issuer :: string
  x_SignedBy :: "nat option"

datatype ca_error =
    CreateDirectory string
  | KeyGeneration string
  | SerialGeneration string
  | KeyMismatch
  | NotIA5 string
  | SignFailed ca_error
  | NoCA ca_error
  | KeyMissing ca_error
  | BadCert ca_error
  | BadKey ca_error
  | NoPEMBlock
  | NotParseable
  | NotECDSA
  | BadJSON
  | NotExist
  | IoFailed string
  | EmptyDomain
  | CertificateNotFound
  | RevokedCertificate string
  | DestroyKey ca_error
  | TrustNotConfirmed
  | EnsureBeforeTrust ca_error
  | NoKeychain string
  | TrustUnsupported string
  | TrustCommandFailed string

text \<open>
  \<open>x509.CreateCertificate\<close>: the template under the name of the parent, signed with \<open>priv\<close>, which has to
  be the parent's key unless the parent is a template; names have to be ASCII.
\<close>

definition is_IA5 :: "string \<Rightarrow> bool" where
  "is_IA5 s \<longleftrightarrow> list_all (\<lambda>c. of_char c < (128 :: nat)) s"

definition CreateX509 :: "x509 \<Rightarrow> x509 \<Rightarrow> nat \<Rightarrow> nat \<Rightarrow> ca_error + x509" where
  "CreateX509 tmpl parent pub priv =
     (if x_PublicKey parent \<noteq> None \<and> x_PublicKey parent \<noteq> Some priv then Inl KeyMismatch
      else case List.find (\<lambda>s. \<not> is_IA5 s) (x_DNSNames tmpl) of
        Some s \<Rightarrow> Inl (NotIA5 s)
      | None \<Rightarrow> Inr (tmpl\<lparr> x_PublicKey := Some pub, x_Issuer := x_CommonName parent, x_SignedBy := Some priv \<rparr>))"

section \<open>The disk\<close>

record cert_meta =
  cm_Hostname :: string
  cm_Status :: string
  cm_CreatedAt :: int

datatype ca_file =
    CertPEM x509
  | KeyPEM nat
  | OtherPEM string
  | MetaJSON cert_meta
  | Plain string

datatype io_fault = AccessFails string | WriteTruncates string string

record ca_disk =
  dk_files :: "path \<Rightarrow> (nat \<times> ca_file) option"
  dk_faults :: "io_fault option list"
  dk_ran :: "(string \<times> string list) list"

definition next_fault :: "ca_disk \<Rightarrow> io_fault option \<times> ca_disk" where
  "next_fault d = (case dk_faults d of [] \<Rightarrow> (None, d) | f # fs \<Rightarrow> (f, d\<lparr> dk_faults := fs \<rparr>))"

fun fault_message :: "io_fault \<Rightarrow> string" where
  "fault_message (AccessFails m) = m"
| "fault_message (WriteTruncates m _) = m"

definition disk_read :: "path \<Rightarrow> ca_disk \<Rightarrow> (ca_error + ca_file) \<times> ca_disk" where
  "disk_read p d =
     (case next_fault d of
        (Some f, d') \<Rightarrow> (Inl (IoFailed (fault_message f)), d')
      | (None, d') \<Rightarrow> (case dk_files d' p of None \<Rightarrow> (Inl NotExist, d') | Some (_, x) \<Rightarrow> (Inr x, d')))"

text \<open>A file that is there keeps its mode; a failed write may leave the beginning of the new contents.\<close>

definition put_file :: "path \<Rightarrow> nat \<Rightarrow> ca_file \<Rightarrow> ca_disk \<Rightarrow> ca_disk" where
  "put_file p mode x d =
     d\<lparr> dk_files := (dk_files d)(p \<mapsto> (case dk_files d p of None \<Rightarrow> mode | Some (m, _) \<Rightarrow> m, x)) \<rparr>"

definition disk_write :: "path \<Rightarrow> nat \<Rightarrow> ca_file \<Rightarrow> ca_disk \<Rightarrow> (ca_error + unit) \<times> ca_disk" where
  "disk_write p mode x d =
     (case next_fault d of
        (None, d') \<Rightarrow> (Inr (), put_file p mode x d')
      | (Some (AccessFails m), d') \<Rightarrow> (Inl (IoFailed m), d')
      | (Some (WriteTruncates m part), d') \<Rightarrow> (Inl (IoFailed m), put_file p mode (Plain part) d'))"

definition disk_remove :: "path \<Rightarrow> ca_disk \<Rightarrow> (ca_error + unit) \<times> ca_disk" where
  "disk_remove p d =
     (case next_fault d of
        (Some f, d') \<Rightarrow> (Inl (IoFailed (fault_message f)), d')
      | (None, d') \<Rightarrow>
          if dk_files d' p = None then (Inl NotExist, d') else (Inr (), d'\<lparr> dk_files := (dk_files d')(p := None) \<rparr>))"

definition disk_mkdir :: "ca_disk \<Rightarrow> (ca_error + unit) \<times> ca_disk" where
  "disk_mkdir d = (case next_fault d of (Some f, d') \<Rightarrow> (Inl (IoFailed (fault_message f)), d') | (None, d') \<Rightarrow> (Inr (), d'))"

fun parseCertPEM :: "ca_file \<Rightarrow> ca_error + x509" where
  "parseCertPEM (CertPEM c) = Inr c"
| "parseCertPEM (KeyPEM k) = Inl NotParseable"
| "parseCertPEM (OtherPEM t) = Inl NotParseable"
| "parseCertPEM (MetaJSON m) = Inl NoPEMBlock"
| "parseCertPEM (Plain s) = Inl NoPEMBlock"

text \<open>Of the other PEM files, the ones of another kind of private key are named \<open>PRIVATE KEY\<close>.\<close>

fun parseECDSAKeyPEM :: "ca_file \<Rightarrow> ca_error + nat" where
  "parseECDSAKeyPEM (KeyPEM k) = Inr k"
| "parseECDSAKeyPEM (CertPEM c) = Inl NotParseable"
| "parseECDSAKeyPEM (OtherPEM t) = Inl (if t = ''PRIVATE KEY'' then NotECDSA else NotParseable)"
| "parseECDSAKeyPEM (MetaJSON m) = Inl NoPEMBlock"
| "parseECDSAKeyPEM (Plain s) = Inl NoPEMBlock"

section \<open>The provider\<close>

text \<open>The environment of a call: the directory, what it draws, the clock at the points where it is read, and the
  operating system.\<close>

record ca_env =
  ce_dir :: path
  ce_hostname :: "string option"
  ce_ca_key :: "string + nat"
  ce_ca_serial :: "string + int"
  ce_ca_now :: int
  ce_leaf_key :: "string + nat"
  ce_leaf_serial :: "string + int"
  ce_leaf_now :: int
  ce_meta_now :: int
  ce_stamp :: string
  ce_goos :: string
  ce_has_update_ca_trust :: bool
  ce_home :: "string + path"
  ce_run :: "string \<Rightarrow> string list \<Rightarrow> string + unit"

record ca_info =
  ci_CommonName :: string
  ci_NotAfter :: int
  ci_Trusted :: bool

record ca_cert =
  cc_ID :: string
  cc_DomainID :: string
  cc_NotBefore :: int
  cc_NotAfter :: int
  cc_Status :: string

definition caCertPath :: "ca_env \<Rightarrow> path" where "caCertPath e = ce_dir e @ [''ca-cert.pem'']"
definition caKeyPath :: "ca_env \<Rightarrow> path" where "caKeyPath e = ce_dir e @ [''ca-key.pem'']"
definition trustedMarkerPath :: "ca_env \<Rightarrow> path" where "trustedMarkerPath e = ce_dir e @ [''trusted'']"
definition certsDir :: "ca_env \<Rightarrow> path" where "certsDir e = ce_dir e @ [''certs'']"
definition certDir :: "ca_env \<Rightarrow> string \<Rightarrow> path" where "certDir e i = join_path (certsDir e) i"
definition certPath :: "ca_env \<Rightarrow> string \<Rightarrow> path" where "certPath e i = certDir e i @ [''cert.pem'']"
definition keyPath :: "ca_env \<Rightarrow> string \<Rightarrow> path" where "keyPath e i = certDir e i @ [''key.pem'']"
definition metaPath :: "ca_env \<Rightarrow> string \<Rightarrow> path" where "metaPath e i = certDir e i @ [''meta.json'']"

definition hour :: int where "hour = 3600"
definition day :: int where "day = 24 * hour"
definition caValidity :: int where "caValidity = 10 * 365 * day"
definition leafValidity :: int where "leafValidity = 825 * day"

definition secs :: "int \<Rightarrow> int" where "secs t = t div second"

definition caCommonName :: "ca_env \<Rightarrow> string" where
  "caCommonName e = ''VoltPanel Local Development CA ('' @
     (case ce_hostname e of None \<Rightarrow> ''local'' | Some h \<Rightarrow> if h = [] then ''local'' else h) @ '')''"

text \<open>The draw is reduced to the range of \<open>rand.Int\<close>.\<close>

definition newSerial :: "string + int \<Rightarrow> string + int" where
  "newSerial r = map_sum (\<lambda>m. m) (\<lambda>n. n mod 2 ^ 128) r"

definition isTrusted :: "ca_env \<Rightarrow> ca_disk \<Rightarrow> bool \<times> ca_disk" where
  "isTrusted e d = (case next_fault d of (Some _, d') \<Rightarrow> (False, d') | (None, d') \<Rightarrow> (dk_files d' (trustedMarkerPath e) \<noteq> None, d'))"

definition lift_sum :: "('e \<Rightarrow> ca_error) \<Rightarrow> 'e + 'a \<Rightarrow> ca_disk \<Rightarrow> (ca_error + 'a) \<times> ca_disk" where
  "lift_sum wrap r d = (case r of Inl x \<Rightarrow> (Inl (wrap x), d) | Inr a \<Rightarrow> (Inr a, d))"

definition loadCA :: "ca_env \<Rightarrow> ca_disk \<Rightarrow> (ca_error + x509 \<times> nat) \<times> ca_disk" where
  "loadCA e =
     go_bind (map_err NoCA (disk_read (caCertPath e))) (\<lambda>certPEM.
     go_bind (map_err KeyMissing (disk_read (caKeyPath e))) (\<lambda>keyPEM.
     go_bind (lift_sum BadCert (parseCertPEM certPEM)) (\<lambda>cert.
     go_bind (lift_sum BadKey (parseECDSAKeyPEM keyPEM)) (\<lambda>key.
     go_return (cert, key)))))"

definition writeKeyPEM :: "path \<Rightarrow> nat \<Rightarrow> ca_disk \<Rightarrow> (ca_error + unit) \<times> ca_disk" where
  "writeKeyPEM p k = disk_write p 384 (KeyPEM k)"

definition writeCertPEM :: "path \<Rightarrow> x509 \<Rightarrow> ca_disk \<Rightarrow> (ca_error + unit) \<times> ca_disk" where
  "writeCertPEM p c = disk_write p 420 (CertPEM c)"

definition ca_template :: "ca_env \<Rightarrow> int \<Rightarrow> x509" where
  "ca_template e serial =
     \<lparr> x_Serial = serial, x_CommonName = caCommonName e, x_DNSNames = [],
       x_NotBefore = secs (ce_ca_now e) - hour, x_NotAfter = secs (ce_ca_now e) + caValidity, x_IsCA = True,
       x_KeyUsage = [CertSign, DigitalSignature, CRLSign], x_ServerAuth = False, x_PublicKey = None,
       x_Issuer = [], x_SignedBy = None \<rparr>"

definition createCA :: "ca_env \<Rightarrow> ca_disk \<Rightarrow> (ca_error + ca_info) \<times> ca_disk" where
  "createCA e =
     go_bind (map_err (\<lambda>x. CreateDirectory (case x of IoFailed m \<Rightarrow> m | _ \<Rightarrow> [])) disk_mkdir) (\<lambda>_.
     go_bind (lift_sum KeyGeneration (ce_ca_key e)) (\<lambda>key.
     go_bind (lift_sum SerialGeneration (newSerial (ce_ca_serial e))) (\<lambda>serial.
     go_bind (lift_sum SignFailed (CreateX509 (ca_template e serial) (ca_template e serial) key key)) (\<lambda>cert.
     go_bind (writeKeyPEM (caKeyPath e) key) (\<lambda>_.
     go_bind (writeCertPEM (caCertPath e) cert) (\<lambda>_.
     go_return \<lparr> ci_CommonName = caCommonName e, ci_NotAfter = x_NotAfter (ca_template e serial), ci_Trusted = False \<rparr>))))))"

text \<open>An authority that does not load for any reason is replaced by a new one.\<close>

definition ensureCALocked :: "ca_env \<Rightarrow> ca_disk \<Rightarrow> (ca_error + ca_info) \<times> ca_disk" where
  "ensureCALocked e d =
     (case loadCA e d of
        (Inr (cert, _), d1) \<Rightarrow>
          (case isTrusted e d1 of (b, d2) \<Rightarrow>
             (Inr \<lparr> ci_CommonName = x_CommonName cert, ci_NotAfter = x_NotAfter cert, ci_Trusted = b \<rparr>, d2))
      | (Inl _, d1) \<Rightarrow> createCA e d1)"

definition EnsureCA :: "ca_env \<Rightarrow> ca_disk \<Rightarrow> (ca_error + ca_info) \<times> ca_disk" where
  "EnsureCA = ensureCALocked"

definition leaf_template :: "ca_env \<Rightarrow> string \<Rightarrow> int \<Rightarrow> x509" where
  "leaf_template e domain serial =
     \<lparr> x_Serial = serial, x_CommonName = domain, x_DNSNames = [domain],
       x_NotBefore = secs (ce_leaf_now e) - hour, x_NotAfter = secs (ce_leaf_now e) + leafValidity, x_IsCA = False,
       x_KeyUsage = [DigitalSignature, KeyEncipherment], x_ServerAuth = True, x_PublicKey = None,
       x_Issuer = [], x_SignedBy = None \<rparr>"

definition signLeaf :: "ca_env \<Rightarrow> string \<Rightarrow> string \<Rightarrow> x509 \<Rightarrow> nat \<Rightarrow> ca_disk \<Rightarrow> (ca_error + x509) \<times> ca_disk" where
  "signLeaf e i domain caCert caKey =
     go_bind (lift_sum KeyGeneration (ce_leaf_key e)) (\<lambda>leafKey.
     go_bind (lift_sum SerialGeneration (newSerial (ce_leaf_serial e))) (\<lambda>serial.
     go_bind (lift_sum SignFailed (CreateX509 (leaf_template e domain serial) caCert leafKey caKey)) (\<lambda>cert.
     go_bind disk_mkdir (\<lambda>_.
     go_bind (writeKeyPEM (keyPath e i) leafKey) (\<lambda>_.
     go_bind (writeCertPEM (certPath e i) cert) (\<lambda>_.
     lift_sum (\<lambda>x. x) (parseCertPEM (CertPEM cert))))))))"

definition writeMeta :: "ca_env \<Rightarrow> string \<Rightarrow> cert_meta \<Rightarrow> ca_disk \<Rightarrow> (ca_error + unit) \<times> ca_disk" where
  "writeMeta e i m = disk_write (metaPath e i) 384 (MetaJSON m)"

definition readMeta :: "ca_env \<Rightarrow> string \<Rightarrow> ca_disk \<Rightarrow> (ca_error + cert_meta) \<times> ca_disk" where
  "readMeta e i d =
     (case disk_read (metaPath e i) d of
        (Inl x, d') \<Rightarrow> (Inl (if x = NotExist then CertificateNotFound else x), d')
      | (Inr (MetaJSON m), d') \<Rightarrow> (Inr m, d')
      | (Inr _, d') \<Rightarrow> (Inl BadJSON, d'))"

definition providerCertificate :: "string \<Rightarrow> string \<Rightarrow> x509 \<Rightarrow> ca_cert" where
  "providerCertificate i domain cert =
     \<lparr> cc_ID = i, cc_DomainID = domain, cc_NotBefore = x_NotBefore cert, cc_NotAfter = x_NotAfter cert, cc_Status = ''valid'' \<rparr>"

definition IssueCertificate :: "ca_env \<Rightarrow> string \<Rightarrow> string \<Rightarrow> ca_disk \<Rightarrow> (ca_error + ca_cert) \<times> ca_disk" where
  "IssueCertificate e i domain =
     (if domain = [] then go_fail EmptyDomain
      else go_bind (ensureCALocked e) (\<lambda>_.
           go_bind (loadCA e) (\<lambda>(caCert, caKey).
           go_bind (signLeaf e i domain caCert caKey) (\<lambda>cert.
           go_bind (writeMeta e i \<lparr> cm_Hostname = domain, cm_Status = ''valid'', cm_CreatedAt = ce_meta_now e \<rparr>) (\<lambda>_.
           go_return (providerCertificate i domain cert))))))"

definition ca_Renew :: "ca_env \<Rightarrow> string \<Rightarrow> ca_disk \<Rightarrow> (ca_error + ca_cert) \<times> ca_disk" where
  "ca_Renew e i =
     go_bind (readMeta e i) (\<lambda>meta.
     if cm_Status meta = ''revoked'' then go_fail (RevokedCertificate i)
     else go_bind (loadCA e) (\<lambda>(caCert, caKey).
          go_bind (signLeaf e i (cm_Hostname meta) caCert caKey) (\<lambda>cert.
          go_bind (writeMeta e i (meta\<lparr> cm_CreatedAt := ce_meta_now e, cm_Status := ''valid'' \<rparr>)) (\<lambda>_.
          go_return (providerCertificate i (cm_Hostname meta) cert)))))"

definition ca_Revoke :: "ca_env \<Rightarrow> string \<Rightarrow> ca_disk \<Rightarrow> (ca_error + unit) \<times> ca_disk" where
  "ca_Revoke e i =
     go_bind (readMeta e i) (\<lambda>meta.
     if cm_Status meta = ''revoked'' then go_return ()
     else (\<lambda>d. case disk_remove (keyPath e i) d of
                 (Inl x, d') \<Rightarrow> if x \<noteq> NotExist then (Inl (DestroyKey x), d')
                                else writeMeta e i (meta\<lparr> cm_Status := ''revoked'' \<rparr>) d'
               | (Inr _, d') \<Rightarrow> writeMeta e i (meta\<lparr> cm_Status := ''revoked'' \<rparr>) d'))"

definition CACertPEM :: "ca_env \<Rightarrow> ca_disk \<Rightarrow> (ca_error + ca_file) \<times> ca_disk" where
  "CACertPEM e = disk_read (caCertPath e)"

definition CertificatePEM :: "ca_env \<Rightarrow> string \<Rightarrow> ca_disk \<Rightarrow> (ca_error + ca_file \<times> ca_file option) \<times> ca_disk" where
  "CertificatePEM e i d =
     (case disk_read (certPath e i) d of
        (Inl x, d') \<Rightarrow> (Inl (if x = NotExist then CertificateNotFound else x), d')
      | (Inr cert, d') \<Rightarrow>
          (case disk_read (keyPath e i) d' of
             (Inl x, d'') \<Rightarrow> (if x = NotExist then Inr (cert, None) else Inl x, d'')
           | (Inr key, d'') \<Rightarrow> (Inr (cert, Some key), d'')))"

section \<open>Trust\<close>

definition shellQuote :: "string \<Rightarrow> string" where
  "shellQuote s = CHR 0x27 # replace_all [CHR 0x27] [CHR 0x27, CHR 0x5C, CHR 0x27, CHR 0x27] s @ [CHR 0x27]"

definition detectLinuxCAFamily :: "ca_env \<Rightarrow> string" where
  "detectLinuxCAFamily e = (if ce_has_update_ca_trust e then ''fedora'' else ''debian'')"

definition trustCommand :: "ca_env \<Rightarrow> string \<Rightarrow> string \<Rightarrow> ca_error + string \<times> string list" where
  "trustCommand e goos linuxFamily =
     (let caCert = show_path (caCertPath e) in
      if goos = ''darwin'' then
        (case ce_home e of
           Inl m \<Rightarrow> Inl (NoKeychain m)
         | Inr home \<Rightarrow> Inr (''security'', [''add-trusted-cert'', ''-d'', ''-r'', ''trustRoot'', ''-k'',
               show_path (home @ [''Library'', ''Keychains'', ''login.keychain-db'']), caCert]))
      else if goos = ''linux'' then
        (if linuxFamily = ''fedora''
         then Inr (''sh'', [''-c'', ''cp '' @ shellQuote caCert @ '' '' @ shellQuote ''/etc/pki/ca-trust/source/anchors/volt-local-ca.pem'' @
                '' && update-ca-trust extract''])
         else Inr (''sh'', [''-c'', ''cp '' @ shellQuote caCert @ '' '' @ shellQuote ''/usr/local/share/ca-certificates/volt-local-ca.crt'' @
                '' && update-ca-certificates'']))
      else if goos = ''windows'' then Inr (''certutil'', [''-addstore'', ''-f'', ''ROOT'', caCert])
      else Inl (TrustUnsupported goos))"

definition run_trust :: "ca_env \<Rightarrow> string \<times> string list \<Rightarrow> ca_disk \<Rightarrow> (ca_error + unit) \<times> ca_disk" where
  "run_trust e c d =
     (case ce_run e (fst c) (snd c) of
        Inl m \<Rightarrow> (Inl (TrustCommandFailed m), d\<lparr> dk_ran := dk_ran d @ [c] \<rparr>)
      | Inr _ \<Rightarrow> (Inr (), d\<lparr> dk_ran := dk_ran d @ [c] \<rparr>))"

text \<open>The marker holds the time as a text; whether it could be written makes no difference to the answer.\<close>

definition TrustCA :: "ca_env \<Rightarrow> bool \<Rightarrow> ca_disk \<Rightarrow> (ca_error + unit) \<times> ca_disk" where
  "TrustCA e confirmed =
     (if \<not> confirmed then go_fail TrustNotConfirmed
      else go_bind (map_err EnsureBeforeTrust (ensureCALocked e)) (\<lambda>_.
           go_bind (lift_sum (\<lambda>x. x) (trustCommand e (ce_goos e) (detectLinuxCAFamily e))) (\<lambda>c.
           go_bind (run_trust e c) (\<lambda>_.
           (\<lambda>d. (Inr (), snd (disk_write (trustedMarkerPath e) 420 (Plain (ce_stamp e)) d)))))))"

section \<open>What the disk of the authority always satisfies\<close>

definition file_at :: "ca_disk \<Rightarrow> path \<Rightarrow> ca_file option" where
  "file_at d p = map_option snd (dk_files d p)"

definition revoked_at :: "ca_disk \<Rightarrow> path \<Rightarrow> bool" where
  "revoked_at d q \<longleftrightarrow> (\<exists>m. file_at d (q @ [''meta.json'']) = Some (MetaJSON m) \<and> cm_Status m = ''revoked'')"

definition is_authority :: "x509 \<Rightarrow> bool" where
  "is_authority c \<longleftrightarrow> x_IsCA c \<and> CertSign \<in> set (x_KeyUsage c) \<and> x_PublicKey c \<noteq> None"

definition key_name :: "path \<Rightarrow> bool" where
  "key_name p \<longleftrightarrow> p \<noteq> [] \<and> (last p = ''key.pem'' \<or> last p = ''ca-key.pem'')"

text \<open>The authority's certificate is one, private keys are in files only their owner can read, and a revoked
  certificate has none.\<close>

definition ca_inv :: "path \<Rightarrow> ca_disk \<Rightarrow> bool" where
  "ca_inv dir d \<longleftrightarrow>
     (\<forall>c. file_at d (dir @ [''ca-cert.pem'']) = Some (CertPEM c) \<longrightarrow> is_authority c) \<and>
     (\<forall>p m x. dk_files d p = Some (m, x) \<longrightarrow> (key_name p \<longrightarrow> m = 384) \<and> (\<forall>k. x = KeyPEM k \<longrightarrow> key_name p)) \<and>
     (\<forall>q. revoked_at d q \<longrightarrow> dk_files d (q @ [''key.pem'']) = None)"

text \<open>The files the provider writes, each in its place.\<close>

definition in_place :: "path \<Rightarrow> ca_disk \<Rightarrow> path \<Rightarrow> nat \<Rightarrow> ca_file \<Rightarrow> bool" where
  "in_place dir d p mode x \<longleftrightarrow>
     (case x of
        KeyPEM k \<Rightarrow> mode = 384 \<and> (p = dir @ [''ca-key.pem''] \<or> (\<exists>q. p = q @ [''key.pem''] \<and> \<not> revoked_at d q))
      | CertPEM c \<Rightarrow> (p = dir @ [''ca-cert.pem''] \<and> is_authority c) \<or> (\<exists>q. p = q @ [''cert.pem''])
      | MetaJSON m \<Rightarrow> (\<exists>q. p = q @ [''meta.json''] \<and> (cm_Status m = ''revoked'' \<longrightarrow> dk_files d (q @ [''key.pem'']) = None))
      | Plain s \<Rightarrow> p = dir @ [''trusted'']
      | OtherPEM t \<Rightarrow> False)"

lemma next_fault_files:
  assumes "next_fault d = (f, d')"
  shows "dk_files d' = dk_files d" "dk_ran d' = dk_ran d"
  using assms by (auto simp: next_fault_def split: list.splits)

lemma files_only:
  "dk_files d' = dk_files d \<Longrightarrow> file_at d' = file_at d" "dk_files d' = dk_files d \<Longrightarrow> revoked_at d' = revoked_at d"
  "dk_files d' = dk_files d \<Longrightarrow> ca_inv dir d' = ca_inv dir d"
  "dk_files d' = dk_files d \<Longrightarrow> in_place dir d' p mode x = in_place dir d p mode x"
  by (simp_all add: file_at_def [abs_def] revoked_at_def [abs_def] ca_inv_def in_place_def cong: ca_file.case_cong)

lemma file_at_put [simp]: "file_at (put_file p mode x d) = (file_at d)(p \<mapsto> x)"
  by (simp add: put_file_def file_at_def fun_eq_iff)

lemma revoked_at_put:
  "p \<noteq> q @ [''meta.json''] \<Longrightarrow> revoked_at (put_file p mode x d) q = revoked_at d q"
  by (simp add: revoked_at_def)

lemma put_inv:
  assumes "ca_inv dir d" "in_place dir d p mode x" "y = x \<or> y = Plain part"
  shows "ca_inv dir (put_file p mode y d)"
proof -
  let ?d = "put_file p mode y d"
  have a: "is_authority c" if "file_at ?d (dir @ [''ca-cert.pem'']) = Some (CertPEM c)" for c
    using assms that by (auto simp: ca_inv_def in_place_def split: ca_file.splits if_splits)
  have k: "(key_name p' \<longrightarrow> m = 384) \<and> (\<forall>k. x' = KeyPEM k \<longrightarrow> key_name p')" if "dk_files ?d p' = Some (m, x')" for p' m x'
  proof (cases "p' = p")
    case True
    then have x': "x' = y" "m = (case dk_files d p of None \<Rightarrow> mode | Some (m, _) \<Rightarrow> m)" using that by (auto simp: put_file_def)
    have "key_name p \<Longrightarrow> mode = 384" "\<forall>k. y = KeyPEM k \<longrightarrow> key_name p"
      using assms(2,3) by (auto simp: in_place_def key_name_def split: ca_file.splits)
    moreover have "m' = 384" if "key_name p" "dk_files d p = Some (m', z)" for m' z
      using assms(1) that by (auto simp: ca_inv_def)
    ultimately show ?thesis using x' True by (auto split: option.splits)
  qed (use that assms(1) in \<open>auto simp: put_file_def ca_inv_def\<close>)
  have r: "dk_files ?d (q @ [''key.pem'']) = None" if rev: "revoked_at ?d q" for q
  proof (cases "p = q @ [''meta.json'']")
    case True
    then obtain m where "y = MetaJSON m" "cm_Status m = ''revoked''" using rev by (auto simp: revoked_at_def)
    then show ?thesis using assms(2,3) True by (auto simp: in_place_def put_file_def)
  next
    case False
    then have "revoked_at d q" using rev by (simp add: revoked_at_put)
    moreover from this have "p \<noteq> q @ [''key.pem'']" using assms(2) by (auto simp: in_place_def split: ca_file.splits)
    ultimately show ?thesis using assms(1) by (simp add: ca_inv_def put_file_def)
  qed
  show ?thesis unfolding ca_inv_def using a k r by blast
qed

text \<open>A write of such a file keeps the invariant even when it fails.\<close>

lemma write_inv:
  assumes "ca_inv dir d" "in_place dir d p mode x"
  shows "ca_inv dir (snd (disk_write p mode x d))"
proof -
  obtain f d' where n: "next_fault d = (f, d')" by fastforce
  have i: "ca_inv dir d'" "in_place dir d' p mode x"
    using assms next_fault_files [OF n] files_only [of d' d] by simp_all
  show ?thesis
  proof (cases f)
    case None
    then show ?thesis using n put_inv [OF i disjI1 [OF refl]] by (simp add: disk_write_def)
  next
    case (Some g)
    then show ?thesis using n i(1) put_inv [OF i disjI2 [OF refl]] by (cases g) (simp_all add: disk_write_def)
  qed
qed

lemma write_revoked:
  assumes "\<forall>q. p \<noteq> q @ [''meta.json'']"
  shows "revoked_at (snd (disk_write p mode x d)) q = revoked_at d q"
proof -
  obtain f d' where n: "next_fault d = (f, d')" by fastforce
  have "revoked_at d' = revoked_at d" by (rule files_only(2)) (rule next_fault_files [OF n])
  then show ?thesis
    using assms n by (cases f; cases "the f") (simp_all add: disk_write_def revoked_at_put)
qed

text \<open>Reading leaves the files alone.\<close>

lemma disk_read_files [simp]: "dk_files (snd (disk_read p d)) = dk_files d" "dk_ran (snd (disk_read p d)) = dk_ran d"
  by (auto simp: disk_read_def split: prod.splits option.splits dest: next_fault_files)

lemma disk_mkdir_files [simp]: "dk_files (snd (disk_mkdir d)) = dk_files d" "dk_ran (snd (disk_mkdir d)) = dk_ran d"
  by (auto simp: disk_mkdir_def split: prod.splits option.splits dest: next_fault_files)

lemma lift_sum_state [simp]: "snd (lift_sum w r d) = d"
  by (simp add: lift_sum_def split: sum.splits)

lemma map_err_state [simp]: "snd (map_err w m d) = snd (m d)"
  by (simp add: map_err_def split: prod.splits sum.splits)

lemma isTrusted_files [simp]: "dk_files (snd (isTrusted e d)) = dk_files d" "dk_ran (snd (isTrusted e d)) = dk_ran d"
  by (auto simp: isTrusted_def split: prod.splits option.splits dest: next_fault_files)

lemma loadCA_files [simp]: "dk_files (snd (loadCA e d)) = dk_files d" "dk_ran (snd (loadCA e d)) = dk_ran d"
proof -
  have "dk_files (snd (loadCA e d)) = dk_files d \<and> dk_ran (snd (loadCA e d)) = dk_ran d"
    unfolding loadCA_def
    by (intro go_bind_inv [where P = "\<lambda>s. dk_files s = dk_files d \<and> dk_ran s = dk_ran d"]) (simp_all add: case_prod_unfold)
  then show "dk_files (snd (loadCA e d)) = dk_files d" "dk_ran (snd (loadCA e d)) = dk_ran d" by simp_all
qed

lemma readMeta_files [simp]: "dk_files (snd (readMeta e i d)) = dk_files d" "dk_ran (snd (readMeta e i d)) = dk_ran d"
proof -
  obtain r d' where r: "disk_read (metaPath e i) d = (r, d')" by fastforce
  then have f: "dk_files d' = dk_files d" "dk_ran d' = dk_ran d" using disk_read_files [of "metaPath e i" d] by simp_all
  show "dk_files (snd (readMeta e i d)) = dk_files d" "dk_ran (snd (readMeta e i d)) = dk_ran d"
    using r f by (auto simp: readMeta_def split: sum.splits ca_file.splits)
qed

section \<open>Every operation keeps it\<close>

definition ca_same :: "path \<Rightarrow> ca_disk \<Rightarrow> ca_disk \<Rightarrow> bool" where
  "ca_same dir d d' \<longleftrightarrow> ca_inv dir d' \<and> dk_ran d' = dk_ran d \<and> revoked_at d' = revoked_at d"

lemma ca_same_files: "ca_same dir d d1 \<Longrightarrow> dk_files d2 = dk_files d1 \<Longrightarrow> dk_ran d2 = dk_ran d1 \<Longrightarrow> ca_same dir d d2"
  by (simp add: ca_same_def files_only(2,3) [of d2 d1])

lemma disk_write_ran [simp]: "dk_ran (snd (disk_write p mode x d)) = dk_ran d"
  by (auto simp: disk_write_def put_file_def split: prod.splits option.splits io_fault.splits dest: next_fault_files)

lemma ca_same_write:
  "ca_same dir d d1 \<Longrightarrow> in_place dir d1 p mode x \<Longrightarrow> \<forall>q. p \<noteq> q @ [''meta.json''] \<Longrightarrow>
   ca_same dir d (snd (disk_write p mode x d1))"
  by (simp add: ca_same_def write_inv write_revoked fun_eq_iff)

lemma disk_step_same:
  "ca_same dir d d1 \<Longrightarrow> ca_same dir d (snd (disk_read p d1))"
  "ca_same dir d d1 \<Longrightarrow> ca_same dir d (snd (disk_mkdir d1))"
  "ca_same dir d d1 \<Longrightarrow> ca_same dir d (snd (isTrusted e d1))"
  "ca_same dir d d1 \<Longrightarrow> ca_same dir d (snd (loadCA e d1))"
  "ca_same dir d d1 \<Longrightarrow> ca_same dir d (snd (readMeta e i d1))"
  by (erule ca_same_files; simp)+

lemma CreateX509_ok:
  assumes "CreateX509 tmpl parent pub priv = Inr c"
  shows "c = tmpl\<lparr> x_PublicKey := Some pub, x_Issuer := x_CommonName parent, x_SignedBy := Some priv \<rparr> \<and>
    (x_PublicKey parent \<noteq> None \<longrightarrow> x_PublicKey parent = Some priv)"
  using assms by (auto simp: CreateX509_def split: if_splits option.splits)

lemma lift_sum_ok: "lift_sum w r d = (Inr a, d') \<longleftrightarrow> r = Inr a \<and> d' = d"
  by (auto simp: lift_sum_def split: sum.splits)

lemma authority_same:
  assumes "ca_same dir d d1" "ce_dir e = dir" "CreateX509 (ca_template e n) parent pub priv = Inr c"
  shows "ca_same dir d (snd (writeCertPEM (caCertPath e) c d1))"
proof -
  have "is_authority c" using CreateX509_ok [OF assms(3)] by (simp add: is_authority_def ca_template_def)
  then show ?thesis unfolding writeCertPEM_def
    using assms(1,2) by (intro ca_same_write) (simp_all add: in_place_def caCertPath_def)
qed

lemma authority_key_same:
  "ca_same dir d d1 \<Longrightarrow> ce_dir e = dir \<Longrightarrow> ca_same dir d (snd (writeKeyPEM (caKeyPath e) k d1))"
  unfolding writeKeyPEM_def by (intro ca_same_write) (simp_all add: in_place_def caKeyPath_def)

lemma createCA_same:
  assumes "ca_same dir d d1" "ce_dir e = dir"
  shows "ca_same dir d (snd (createCA e d1))"
  unfolding createCA_def
  by (intro go_bind_inv [where P = "ca_same dir d"])
    (use assms in \<open>auto simp: disk_step_same lift_sum_ok intro: authority_same authority_key_same\<close>)

lemma ensureCALocked_same:
  assumes "ca_same dir d d1" "ce_dir e = dir"
  shows "ca_same dir d (snd (ensureCALocked e d1))"
proof -
  obtain r d2 where l: "loadCA e d1 = (r, d2)" by fastforce
  then have s: "ca_same dir d d2" using disk_step_same(4) [OF assms(1), of e] by simp
  show ?thesis
  proof (cases r)
    case (Inl x)
    then show ?thesis using l createCA_same [OF s assms(2)] by (simp add: ensureCALocked_def)
  next
    case (Inr ck)
    then show ?thesis using l disk_step_same(3) [OF s, of e] by (simp add: ensureCALocked_def case_prod_unfold)
  qed
qed

lemma signLeaf_same:
  assumes "ca_same dir d d1" "\<not> revoked_at d (certDir e i)"
  shows "ca_same dir d (snd (signLeaf e i domain c k d1))"
proof -
  have key: "ca_same dir d (snd (writeKeyPEM (keyPath e i) k' s))" if "ca_same dir d s" for k' s
    unfolding writeKeyPEM_def
    by (rule ca_same_write) (use that assms(2) in \<open>auto simp: keyPath_def in_place_def ca_same_def\<close>)
  have crt: "ca_same dir d (snd (writeCertPEM (certPath e i) c' s))" if "ca_same dir d s" for c' s
    unfolding writeCertPEM_def by (rule ca_same_write) (use that in \<open>auto simp: certPath_def in_place_def\<close>)
  show ?thesis unfolding signLeaf_def
    by (intro go_bind_inv [where P = "ca_same dir d"]) (use assms(1) key crt in \<open>auto simp: disk_step_same\<close>)
qed

text \<open>What the operations keep in the end: the invariant, and the record of the commands that were run.\<close>

definition ca_kept :: "path \<Rightarrow> ca_disk \<Rightarrow> ca_disk \<Rightarrow> bool" where
  "ca_kept dir d d' \<longleftrightarrow> ca_inv dir d' \<and> dk_ran d' = dk_ran d"

lemma ca_same_kept: "ca_same dir d d' \<Longrightarrow> ca_kept dir d d'"
  by (simp add: ca_same_def ca_kept_def)

lemma writeMeta_kept:
  assumes "ca_kept dir d d1" "cm_Status m = ''revoked'' \<Longrightarrow> dk_files d1 (keyPath e i) = None"
  shows "ca_kept dir d (snd (writeMeta e i m d1))"
  using assms unfolding writeMeta_def ca_kept_def
  by (auto simp: in_place_def metaPath_def keyPath_def intro!: write_inv)

lemma IssueCertificate_kept:
  assumes "ca_inv dir d" "ce_dir e = dir" "\<not> revoked_at d (certDir e i)"
  shows "ca_kept dir d (snd (IssueCertificate e i domain d))"
proof -
  have d: "ca_same dir d d" using assms(1) by (simp add: ca_same_def)
  have sign: "ca_kept dir d (snd (go_bind (signLeaf e i domain c k)
      (\<lambda>cert. go_bind (writeMeta e i \<lparr> cm_Hostname = domain, cm_Status = ''valid'', cm_CreatedAt = t \<rparr>)
        (\<lambda>_. go_return (providerCertificate i domain cert))) s))" if "ca_same dir d s" for c k s t
    using signLeaf_same [OF that assms(3), THEN ca_same_kept]
    by (intro go_bind_inv [where P = "ca_kept dir d"]) (auto intro: writeMeta_kept)
  show ?thesis
  proof (cases "domain = []")
    case False
    obtain r d1 where r: "ensureCALocked e d = (r, d1)" by fastforce
    then have s1: "ca_same dir d d1" using ensureCALocked_same [OF d assms(2)] by simp
    obtain r' d2 where r': "loadCA e d1 = (r', d2)" by fastforce
    then have s2: "ca_same dir d d2" using disk_step_same(4) [OF s1, of e] by simp
    show ?thesis
      using False r r' s1 s2 sign [OF s2] by (cases r; cases r') (auto simp: IssueCertificate_def go_bind_def ca_same_kept split: prod.splits)
  qed (use d in \<open>simp add: IssueCertificate_def ca_same_kept\<close>)
qed

lemma readMeta_ok:
  assumes "readMeta e i d = (Inr m, d')"
  shows "file_at d (metaPath e i) = Some (MetaJSON m) \<and> dk_files d' = dk_files d"
proof -
  obtain r d1 where r: "disk_read (metaPath e i) d = (r, d1)" by fastforce
  moreover have "file_at d (metaPath e i) = Some x \<and> dk_files d1 = dk_files d" if "r = Inr x" for x
    using r that by (auto simp: disk_read_def file_at_def split: prod.splits option.splits dest: next_fault_files)
  ultimately show ?thesis using assms by (auto simp: readMeta_def split: sum.splits ca_file.splits)
qed

lemma Renew_kept:
  assumes "ca_inv dir d" "ce_dir e = dir"
  shows "ca_kept dir d (snd (ca_Renew e i d))"
proof -
  have d: "ca_same dir d d" using assms(1) by (simp add: ca_same_def)
  obtain r d1 where r: "readMeta e i d = (r, d1)" by fastforce
  then have s1: "ca_same dir d d1" using disk_step_same(5) [OF d, of e i] by simp
  show ?thesis
  proof (cases "\<exists>m. r = Inr m \<and> cm_Status m \<noteq> ''revoked''")
    case True
    then obtain m where m: "r = Inr m" "cm_Status m \<noteq> ''revoked''" by blast
    have n: "\<not> revoked_at d (certDir e i)" using readMeta_ok [of e i d m d1] r m by (simp add: revoked_at_def metaPath_def)
    obtain r' d2 where r': "loadCA e d1 = (r', d2)" by fastforce
    then have s2: "ca_same dir d d2" using disk_step_same(4) [OF s1, of e] by simp
    have "ca_kept dir d (snd (go_bind (signLeaf e i h c k)
      (\<lambda>cert. go_bind (writeMeta e i (m\<lparr> cm_CreatedAt := t, cm_Status := ''valid'' \<rparr>))
        (\<lambda>_. go_return (providerCertificate i h cert))) d2))" for h c k t
      using signLeaf_same [OF s2 n, THEN ca_same_kept]
      by (intro go_bind_inv [where P = "ca_kept dir d"]) (auto intro: writeMeta_kept)
    then show ?thesis using r r' m s2 by (cases r') (auto simp: ca_Renew_def go_bind_def ca_same_kept split: prod.splits)
  next
    case False
    then show ?thesis using r s1 by (cases r) (auto simp: ca_Renew_def go_bind_def go_fail_def ca_same_kept)
  qed
qed

lemma disk_remove_cases:
  assumes "ca_inv dir d" "disk_remove p d = (r, d')"
  shows "ca_kept dir d d' \<and> (r = Inr () \<or> r = Inl NotExist \<longrightarrow> dk_files d' p = None)"
proof -
  obtain f d1 where n: "next_fault d = (f, d1)" by fastforce
  have f: "dk_files d1 = dk_files d" "dk_ran d1 = dk_ran d" using next_fault_files [OF n] by auto
  have i: "ca_inv dir d1" using files_only(3) [OF f(1)] assms(1) by simp
  have "ca_inv dir (d1\<lparr> dk_files := (dk_files d1)(p := None) \<rparr>)"
    using i unfolding ca_inv_def by (auto simp: file_at_def revoked_at_def split: if_splits)
  then show ?thesis using assms(2) n i f by (auto simp: disk_remove_def ca_kept_def split: option.splits if_splits)
qed

lemma Revoke_kept:
  assumes "ca_inv dir d"
  shows "ca_kept dir d (snd (ca_Revoke e i d))"
proof -
  have d: "ca_same dir d d" using assms(1) by (simp add: ca_same_def)
  obtain r d1 where r: "readMeta e i d = (r, d1)" by fastforce
  then have s1: "ca_same dir d d1" using disk_step_same(5) [OF d, of e i] by simp
  obtain r' d2 where r': "disk_remove (keyPath e i) d1 = (r', d2)" by fastforce
  have i1: "ca_inv dir d1" "dk_ran d1 = dk_ran d" using s1 by (simp_all add: ca_same_def)
  have s2: "ca_kept dir d d2" "r' = Inr () \<or> r' = Inl NotExist \<Longrightarrow> dk_files d2 (keyPath e i) = None"
    using disk_remove_cases [OF i1(1) r'] i1(2) by (simp_all add: ca_kept_def)
  show ?thesis
    using r r' s1 s2 by (cases r; cases r') (auto simp: ca_Revoke_def go_bind_def go_return_def ca_same_kept intro!: writeMeta_kept)
qed

lemma disk_write_marker_kept:
  assumes "ca_inv dir d" "ce_dir e = dir"
  shows "ca_kept dir d (snd (disk_write (trustedMarkerPath e) 420 (Plain s) d))"
  using assms by (auto simp: ca_kept_def in_place_def trustedMarkerPath_def intro!: write_inv)

text \<open>Only a confirmed \<open>TrustCA\<close> runs anything, and then only the command of the platform.\<close>

lemma TrustCA_kept:
  assumes "ca_inv dir d" "ce_dir e = dir"
  shows "ca_inv dir (snd (TrustCA e confirmed d)) \<and>
    (dk_ran (snd (TrustCA e confirmed d)) = dk_ran d \<or>
     confirmed \<and> (\<exists>c. trustCommand e (ce_goos e) (detectLinuxCAFamily e) = Inr c \<and> dk_ran (snd (TrustCA e confirmed d)) = dk_ran d @ [c]))"
proof (cases confirmed)
  case True
  have "ca_same dir d d" using assms(1) by (simp add: ca_same_def)
  then have e: "ca_same dir d (snd (map_err EnsureBeforeTrust (ensureCALocked e) d))"
    using ensureCALocked_same assms(2) by simp
  obtain r d1 where r: "map_err EnsureBeforeTrust (ensureCALocked e) d = (r, d1)" by fastforce
  then have i: "ca_inv dir d1" "dk_ran d1 = dk_ran d" using e by (simp_all add: ca_same_def)
  show ?thesis
  proof (cases r)
    case (Inr u)
    show ?thesis
    proof (cases "trustCommand e (ce_goos e) (detectLinuxCAFamily e)")
      case (Inr c)
      let ?d = "d1\<lparr> dk_ran := dk_ran d1 @ [c] \<rparr>"
      have j: "ca_inv dir ?d" using i(1) by (simp add: ca_inv_def file_at_def revoked_at_def)
      show ?thesis
        using True r \<open>r = Inr u\<close> Inr i j disk_write_marker_kept [OF j assms(2), of "ce_stamp e"]
        by (cases "ce_run e (fst c) (snd c)") (auto simp: TrustCA_def lift_sum_def run_trust_def go_bind_def ca_kept_def)
    qed (use True r Inr i in \<open>simp add: TrustCA_def lift_sum_def go_bind_def\<close>)
  qed (use True r i in \<open>simp add: TrustCA_def go_bind_def\<close>)
qed (use assms in \<open>simp add: TrustCA_def go_fail_def\<close>)

section \<open>The disks that can be reached\<close>

text \<open>A new certificate gets an id that no certificate had; the faults of the disk are arbitrary.\<close>

inductive ca_step :: "path \<Rightarrow> ca_disk \<Rightarrow> ca_disk \<Rightarrow> bool" for dir where
  ensure: "ce_dir e = dir \<Longrightarrow> ca_step dir d (snd (EnsureCA e d))"
| issue: "ce_dir e = dir \<Longrightarrow> dk_files d (metaPath e i) = None \<Longrightarrow> ca_step dir d (snd (IssueCertificate e i domain d))"
| renew: "ce_dir e = dir \<Longrightarrow> ca_step dir d (snd (ca_Renew e i d))"
| revoke: "ce_dir e = dir \<Longrightarrow> ca_step dir d (snd (ca_Revoke e i d))"
| trust: "ce_dir e = dir \<Longrightarrow> ca_step dir d (snd (TrustCA e confirmed d))"
| faults: "ca_step dir d (d\<lparr> dk_faults := fs \<rparr>)"

inductive ca_reach :: "path \<Rightarrow> ca_disk \<Rightarrow> bool" for dir where
  start: "ca_reach dir \<lparr> dk_files = Map.empty, dk_faults = fs, dk_ran = [] \<rparr>"
| step: "ca_reach dir d \<Longrightarrow> ca_step dir d d' \<Longrightarrow> ca_reach dir d'"

lemma ca_step_inv: "ca_step dir d d' \<Longrightarrow> ca_inv dir d \<Longrightarrow> ca_inv dir d'"
proof (induction rule: ca_step.induct)
  case (ensure e d)
  then have "ca_same dir d d" by (simp add: ca_same_def)
  from ensureCALocked_same [OF this ensure(1)] show ?case by (simp add: EnsureCA_def ca_same_def)
next
  case (issue e d i domain)
  then have "\<not> revoked_at d (certDir e i)" by (simp add: revoked_at_def metaPath_def file_at_def)
  then show ?case using IssueCertificate_kept [OF issue(3,1)] by (simp add: ca_kept_def)
next
  case (renew e d i)
  then show ?case using Renew_kept by (simp add: ca_kept_def)
next
  case (revoke e d i)
  then show ?case using Revoke_kept by (simp add: ca_kept_def)
next
  case (trust e d confirmed)
  then show ?case using TrustCA_kept by blast
next
  case (faults d fs)
  then show ?case by (simp add: ca_inv_def file_at_def revoked_at_def)
qed

lemma ca_reach_inv: "ca_reach dir d \<Longrightarrow> ca_inv dir d"
proof (induction rule: ca_reach.induct)
  case (start fs)
  then show ?case by (simp add: ca_inv_def file_at_def revoked_at_def)
qed (rule ca_step_inv)

section \<open>What signing leaves\<close>

text \<open>
  Whether a client that trusts \<open>ca\<close> takes \<open>leaf\<close> for \<open>host\<close> at a time (in seconds), by the rules of path validation:
  both certificates are in their period, and the leaf is one for servers of that name, signed by the authority.
\<close>

definition in_period :: "int \<Rightarrow> x509 \<Rightarrow> bool" where
  "in_period t x \<longleftrightarrow> x_NotBefore x \<le> t \<and> t \<le> x_NotAfter x"

definition x509_verifies :: "int \<Rightarrow> x509 \<Rightarrow> x509 \<Rightarrow> string \<Rightarrow> bool" where
  "x509_verifies t ca leaf host \<longleftrightarrow> in_period t ca \<and> in_period t leaf \<and> is_authority ca \<and> x_Issuer leaf = x_CommonName ca \<and>
     x_SignedBy leaf = x_PublicKey ca \<and> host \<in> set (x_DNSNames leaf) \<and> x_ServerAuth leaf \<and> \<not> x_IsCA leaf"

lemma disk_write_ok:
  assumes "disk_write p mode x d = (Inr (), d')"
  shows "file_at d' = (file_at d)(p \<mapsto> x) \<and> dk_ran d' = dk_ran d"
proof -
  obtain f d1 where n: "next_fault d = (f, d1)" by fastforce
  have "file_at d1 = file_at d" by (rule files_only(1)) (rule next_fault_files [OF n])
  then show ?thesis
    using assms n next_fault_files(2) [OF n] disk_write_ran [of p mode x d]
    by (auto simp: disk_write_def split: option.splits io_fault.splits)
qed

lemma signLeaf_ok:
  assumes "signLeaf e i domain ca k d = (Inr leaf, d')"
  obtains lk n where "file_at d' = (file_at d)(keyPath e i \<mapsto> KeyPEM lk, certPath e i \<mapsto> CertPEM leaf)"
    and "leaf = (leaf_template e domain n)\<lparr> x_PublicKey := Some lk, x_Issuer := x_CommonName ca, x_SignedBy := Some k \<rparr>"
    and "x_PublicKey ca \<noteq> None \<Longrightarrow> x_PublicKey ca = Some k" and "0 \<le> n" "n < 2 ^ 128"
proof -
  obtain lk n d1 d2 where
    k: "newSerial (ce_leaf_serial e) = Inr n" "CreateX509 (leaf_template e domain n) ca lk k = Inr leaf"
    and m: "disk_mkdir d = (Inr (), d1)" and w: "writeKeyPEM (keyPath e i) lk d1 = (Inr (), d2)"
    "writeCertPEM (certPath e i) leaf d2 = (Inr (), d')"
    using assms by (auto simp: signLeaf_def go_bind_ok lift_sum_ok)
  have "file_at d1 = file_at d" by (rule files_only(1)) (use disk_mkdir_files(1) [of d] m in simp)
  then have f: "file_at d' = (file_at d)(keyPath e i \<mapsto> KeyPEM lk, certPath e i \<mapsto> CertPEM leaf)"
    using disk_write_ok [OF w(1) [unfolded writeKeyPEM_def]] disk_write_ok [OF w(2) [unfolded writeCertPEM_def]] by simp
  have "0 \<le> n \<and> n < 2 ^ 128" using k(1) by (cases "ce_leaf_serial e") (auto simp: newSerial_def)
  then show ?thesis using that [OF f] CreateX509_ok [OF k(2)] by blast
qed

lemma map_err_Inr: "map_err f m d = (Inr a, d') \<longleftrightarrow> m d = (Inr a, d')"
  by (auto simp: map_err_def split: prod.splits sum.splits)

lemma loadCA_ok:
  assumes "loadCA e d = (Inr (ca, k), d')"
  shows "file_at d (caCertPath e) = Some (CertPEM ca) \<and> file_at d (caKeyPath e) = Some (KeyPEM k) \<and> file_at d' = file_at d"
proof -
  have rd: "file_at s p = Some x \<and> file_at s' = file_at s" if "disk_read p s = (Inr x, s')" for p s x s'
    using that files_only(1) [of s' s] disk_read_files(1) [of p s]
    by (auto simp: disk_read_def file_at_def split: prod.splits option.splits dest: next_fault_files)
  obtain x y d1 d2 where l: "disk_read (caCertPath e) d = (Inr x, d1)" "disk_read (caKeyPath e) d1 = (Inr y, d')"
    "parseCertPEM x = Inr ca" "parseECDSAKeyPEM y = Inr k"
    using assms by (auto simp: loadCA_def go_bind_ok lift_sum_ok map_err_Inr go_return_def)
  have "x = CertPEM ca" using l(3) by (cases x) auto
  moreover have "y = KeyPEM k" using l(4) by (cases y) (auto split: if_splits)
  ultimately show ?thesis using rd [OF l(1)] rd [OF l(2)] by simp
qed

section \<open>Properties\<close>

text \<open>
  A leaf and its key, as signing leaves them for a certificate: a client takes the leaf whenever it and the
  authority on the disk are in their periods.
\<close>

definition leaf_for :: "ca_env \<Rightarrow> string \<Rightarrow> string \<Rightarrow> ca_disk \<Rightarrow> x509 \<Rightarrow> bool" where
  "leaf_for e i host d leaf \<longleftrightarrow>
     (\<exists>ca lk meta. file_at d (caCertPath e) = Some (CertPEM ca) \<and>
        (\<forall>t. x509_verifies t ca leaf host \<longleftrightarrow> in_period t ca \<and> in_period t leaf) \<and>
        file_at d (certPath e i) = Some (CertPEM leaf) \<and> file_at d (keyPath e i) = Some (KeyPEM lk) \<and>
        x_PublicKey leaf = Some lk \<and> file_at d (metaPath e i) = Some (MetaJSON meta) \<and>
        cm_Hostname meta = host \<and> cm_Status meta = ''valid'')"

lemma sign_and_note:
  assumes "loadCA e d0 = (Inr (ca, k), d1)" "signLeaf e i host ca k d1 = (Inr leaf, d2)"
    and "writeMeta e i m d2 = (Inr (), d')" "cm_Hostname m = host" "cm_Status m = ''valid''" "ca_inv (ce_dir e) d0"
  shows "leaf_for e i host d' leaf \<and> x_NotBefore leaf = secs (ce_leaf_now e) - hour \<and>
    x_NotAfter leaf = secs (ce_leaf_now e) + leafValidity \<and> 0 \<le> x_Serial leaf \<and> x_Serial leaf < 2 ^ 128"
proof -
  have l: "file_at d1 (caCertPath e) = Some (CertPEM ca)" "file_at d0 = file_at d1"
    using loadCA_ok [OF assms(1)] by simp_all
  have a: "is_authority ca" using assms(6) l by (simp add: ca_inv_def caCertPath_def)
  then obtain pk where pk: "x_PublicKey ca = Some pk" by (auto simp: is_authority_def)
  obtain lk n where s: "file_at d2 = (file_at d1)(keyPath e i \<mapsto> KeyPEM lk, certPath e i \<mapsto> CertPEM leaf)"
    "leaf = (leaf_template e host n)\<lparr> x_PublicKey := Some lk, x_Issuer := x_CommonName ca, x_SignedBy := Some k \<rparr>"
    "x_PublicKey ca = Some k" "0 \<le> n" "n < 2 ^ 128"
    by (rule signLeaf_ok [OF assms(2)]) (rule that, assumption, assumption, simp add: pk, assumption, assumption)
  have d': "file_at d' = (file_at d2)(metaPath e i \<mapsto> MetaJSON m)"
    using disk_write_ok [OF assms(3) [unfolded writeMeta_def]] by simp
  have v: "x509_verifies t ca leaf host \<longleftrightarrow> in_period t ca \<and> in_period t leaf" for t using a s(2,3) by (simp add: x509_verifies_def leaf_template_def)
  have "leaf_for e i host d' leaf" unfolding leaf_for_def
    by (rule exI [of _ ca], rule exI [of _ lk], rule exI [of _ m])
      (use v l assms(4,5) s(1,2) in \<open>simp add: d' caCertPath_def metaPath_def keyPath_def certPath_def\<close>)
  then show ?thesis using s(2,4,5) by (simp add: leaf_template_def)
qed

lemma IssueCertificate_ok:
  assumes "IssueCertificate e i host d = (Inr c, d')" "ca_inv (ce_dir e) d"
  obtains leaf where "leaf_for e i host d' leaf" "c = providerCertificate i host leaf" "x_NotBefore leaf = secs (ce_leaf_now e) - hour"
    "x_NotAfter leaf = secs (ce_leaf_now e) + leafValidity" "0 \<le> x_Serial leaf \<and> x_Serial leaf < 2 ^ 128"
proof -
  obtain x d0 ca k d1 leaf d2 where r: "ensureCALocked e d = (Inr x, d0)" "loadCA e d0 = (Inr (ca, k), d1)"
    "signLeaf e i host ca k d1 = (Inr leaf, d2)" and c: "c = providerCertificate i host leaf"
    and w: "writeMeta e i \<lparr> cm_Hostname = host, cm_Status = ''valid'', cm_CreatedAt = ce_meta_now e \<rparr> d2 = (Inr (), d')"
    using assms(1) by (auto simp: IssueCertificate_def go_bind_ok go_return_def go_fail_def split: if_splits)
  have "ca_same (ce_dir e) d d" using assms(2) by (simp add: ca_same_def)
  then have "ca_inv (ce_dir e) d0" using ensureCALocked_same r(1) by (fastforce simp: ca_same_def)
  from sign_and_note [OF r(2,3) w _ _ this] show ?thesis using that [of leaf] c by simp
qed

lemma Renew_ok:
  assumes "ca_Renew e i d = (Inr c, d')" "ca_inv (ce_dir e) d"
  obtains leaf host where "leaf_for e i host d' leaf" "c = providerCertificate i host leaf" "x_NotBefore leaf = secs (ce_leaf_now e) - hour"
    "x_NotAfter leaf = secs (ce_leaf_now e) + leafValidity" "0 \<le> x_Serial leaf \<and> x_Serial leaf < 2 ^ 128"
proof -
  obtain m d0 ca k d1 leaf d2 where r: "readMeta e i d = (Inr m, d0)" "loadCA e d0 = (Inr (ca, k), d1)"
    "signLeaf e i (cm_Hostname m) ca k d1 = (Inr leaf, d2)" and c: "c = providerCertificate i (cm_Hostname m) leaf"
    and w: "writeMeta e i (m\<lparr> cm_CreatedAt := ce_meta_now e, cm_Status := ''valid'' \<rparr>) d2 = (Inr (), d')"
    using assms(1) by (auto simp: ca_Renew_def go_bind_ok go_return_def go_fail_def split: if_splits)
  have "ca_inv (ce_dir e) d0" using readMeta_ok [OF r(1)] files_only(3) [of d0 d] assms(2) by simp
  from sign_and_note [OF r(2,3) w _ _ this] show ?thesis using that [of "cm_Hostname m" leaf] c by simp
qed

text \<open>C12: A certificate that was issued or renewed is in its place on the disk with its own private key, is valid
  from an hour before it was signed for 825 days, and a client that trusts the authority's certificate on the disk
  accepts it for its hostname, by the rules of path validation, exactly while both it and the authority are in
  their periods, whatever happened to the authority before and whichever accesses to the disk failed.  (The
  period of the authority is nowhere looked at: one that has expired goes on signing what nobody accepts.)\<close>

theorem issued_certificates_verify:
  assumes "ca_reach (ce_dir e) d"
    and "IssueCertificate e i host d = (Inr c, d') \<or> ca_Renew e i d = (Inr c, d') \<and> host = cc_DomainID c"
  shows "\<exists>leaf. leaf_for e i host d' leaf \<and> c = providerCertificate i host leaf \<and>
    x_NotBefore leaf = secs (ce_leaf_now e) - hour \<and> x_NotAfter leaf = secs (ce_leaf_now e) + leafValidity"
  using assms(2)
proof
  assume "IssueCertificate e i host d = (Inr c, d')"
  from IssueCertificate_ok [OF this ca_reach_inv [OF assms(1)]] show ?thesis by blast
next
  assume r: "ca_Renew e i d = (Inr c, d') \<and> host = cc_DomainID c"
  obtain leaf host' where l: "leaf_for e i host' d' leaf" "c = providerCertificate i host' leaf"
    "x_NotBefore leaf = secs (ce_leaf_now e) - hour" "x_NotAfter leaf = secs (ce_leaf_now e) + leafValidity"
    using Renew_ok [OF conjunct1 [OF r] ca_reach_inv [OF assms(1)]] by metis
  then show ?thesis using r by (auto simp: providerCertificate_def)
qed

text \<open>the validity window of every leaf is 825 days and one hour long, an hour more than the maximum of 825
  days that the comment on \<open>leafValidity\<close> wants to match, and its serial number fits the 20 bytes allowed.\<close>

theorem leaf_window_exceeds_825_days:
  assumes "ca_reach (ce_dir e) d" "IssueCertificate e i host d = (Inr c, d') \<or> ca_Renew e i d = (Inr c, d')"
  shows "cc_NotAfter c - cc_NotBefore c = 825 * 24 * 3600 + 3600 \<and>
    (\<exists>leaf. file_at d' (certPath e i) = Some (CertPEM leaf) \<and> 0 \<le> x_Serial leaf \<and> x_Serial leaf < 2 ^ 128)"
  using assms(2)
proof
  assume "IssueCertificate e i host d = (Inr c, d')"
  from IssueCertificate_ok [OF this ca_reach_inv [OF assms(1)]] show ?thesis
    by cases (auto simp: leaf_for_def providerCertificate_def hour_def leafValidity_def day_def)
next
  assume "ca_Renew e i d = (Inr c, d')"
  from Renew_ok [OF this ca_reach_inv [OF assms(1)]] show ?thesis
    by cases (auto simp: leaf_for_def providerCertificate_def hour_def leafValidity_def day_def)
qed

text \<open>C13: a revoked certificate has no private key, and neither a renewal nor anything else that follows gives it one;
  the refusal is never \<open>ErrCertificateNotFound\<close>, which the comment on \<open>Renew\<close> announces.  Every private
  key on the disk is in a file that only its owner may read.\<close>

theorem revoked_certificates_have_no_key:
  assumes "ca_reach (ce_dir e) d" "revoked_at d (certDir e i)"
  shows "file_at d (keyPath e i) = None \<and>
    (case ca_Renew e i d of (r, d') \<Rightarrow> file_at d' (keyPath e i) = None \<and> (\<exists>x. r = Inl x \<and> x \<noteq> CertificateNotFound)) \<and>
    (\<forall>p m k. dk_files d p = Some (m, KeyPEM k) \<longrightarrow> m = 384)"
proof (intro conjI)
  have i: "ca_inv (ce_dir e) d" by (rule ca_reach_inv [OF assms(1)])
  then show n: "file_at d (keyPath e i) = None" using assms(2) by (simp add: ca_inv_def file_at_def keyPath_def)
  show "\<forall>p m k. dk_files d p = Some (m, KeyPEM k) \<longrightarrow> m = 384"
    using i unfolding ca_inv_def by blast
  obtain r d1 where r: "readMeta e i d = (r, d1)" by fastforce
  have f: "file_at d1 = file_at d" by (rule files_only(1)) (use r readMeta_files(1) [of e i d] in simp)
  have x: "r \<noteq> Inl CertificateNotFound" using assms(2) r
    by (auto simp: readMeta_def disk_read_def revoked_at_def file_at_def metaPath_def split: prod.splits option.splits
        dest: next_fault_files)
  have "cm_Status m = ''revoked''" if "r = Inr m" for m
    using readMeta_ok [of e i d m d1] r that assms(2) by (auto simp: revoked_at_def metaPath_def)
  then show "case ca_Renew e i d of (r, d') \<Rightarrow> file_at d' (keyPath e i) = None \<and> (\<exists>x. r = Inl x \<and> x \<noteq> CertificateNotFound)"
    using r x f n by (cases r) (auto simp: ca_Renew_def go_bind_def go_fail_def)
qed

text \<open>when the authority that was made trusted does not load, the next call replaces it by a new one, and every
  call after that reports the new one as trusted, although only the certificate of the old one was ever given to
  the operating system: the marker is not removed.\<close>

theorem replaced_authority_reads_as_trusted:
  assumes "dk_faults d = []" "file_at d (trustedMarkerPath e) \<noteq> None" "fst (loadCA e d) = Inl x"
    and "ce_ca_key e = Inr key" "ce_ca_serial e = Inr n"
  shows "\<exists>d1 d2 info. EnsureCA e d = (Inr (info\<lparr> ci_Trusted := False \<rparr>), d1) \<and> dk_ran d1 = dk_ran d \<and>
    (\<exists>c. file_at d1 (caCertPath e) = Some (CertPEM c) \<and> x_PublicKey c = Some key) \<and>
    EnsureCA e d1 = (Inr (info\<lparr> ci_Trusted := True \<rparr>), d2)"
proof -
  have nf: "next_fault s = (None, s)" if "dk_faults s = []" for s :: ca_disk using that by (simp add: next_fault_def)
  have rs: "snd (disk_read p d) = d" for p
    unfolding disk_read_def nf [OF assms(1)] by (cases "dk_files d p") (simp_all add: case_prod_unfold)
  have ld: "snd (loadCA e d) = d" unfolding loadCA_def
    by (intro go_bind_inv [where P = "\<lambda>s. s = d"]) (simp_all add: rs)
  let ?c = "(ca_template e (n mod 2 ^ 128))\<lparr> x_PublicKey := Some key, x_Issuer := caCommonName e, x_SignedBy := Some key \<rparr>"
  let ?d1 = "put_file (caCertPath e) 420 (CertPEM ?c) (put_file (caKeyPath e) 384 (KeyPEM key) d)"
  let ?info = "\<lparr> ci_CommonName = caCommonName e, ci_NotAfter = x_NotAfter (ca_template e (n mod 2 ^ 128)), ci_Trusted = False \<rparr>"
  have c: "CreateX509 (ca_template e (n mod 2 ^ 128)) (ca_template e (n mod 2 ^ 128)) key key = Inr ?c"
    by (simp add: CreateX509_def ca_template_def)
  have d1: "dk_faults ?d1 = []" "dk_ran ?d1 = dk_ran d"
    "file_at ?d1 = (file_at d)(caKeyPath e \<mapsto> KeyPEM key, caCertPath e \<mapsto> CertPEM ?c)"
    using assms(1) by (simp_all add: put_file_def file_at_def fun_eq_iff)
  have f: "next_fault d = (None, d)" "next_fault (put_file (caKeyPath e) 384 (KeyPEM key) d) = (None, put_file (caKeyPath e) 384 (KeyPEM key) d)"
    using assms(1) by (simp_all add: next_fault_def put_file_def)
  have w: "writeKeyPEM (caKeyPath e) key d = (Inr (), put_file (caKeyPath e) 384 (KeyPEM key) d)"
    "writeCertPEM (caCertPath e) ?c (put_file (caKeyPath e) 384 (KeyPEM key) d) = (Inr (), ?d1)"
    "disk_mkdir d = (Inr (), d)"
    by (simp_all only: writeKeyPEM_def writeCertPEM_def disk_write_def disk_mkdir_def f prod.case option.case)
  have "createCA e d = (Inr ?info, ?d1)"
    unfolding createCA_def using assms(4,5) c w
    by (simp add: go_bind_def map_err_def lift_sum_def newSerial_def go_return_def)
  moreover have "loadCA e d = (Inl x, d)" using ld assms(3) by (cases "loadCA e d") simp
  ultimately have e1: "EnsureCA e d = (Inr ?info, ?d1)" by (simp add: EnsureCA_def ensureCALocked_def)
  have rd: "disk_read p ?d1 = (case file_at ?d1 p of None \<Rightarrow> Inl NotExist | Some z \<Rightarrow> Inr z, ?d1)" for p
    unfolding disk_read_def nf [OF d1(1)] file_at_def by (cases "dk_files ?d1 p") (simp_all add: case_prod_unfold)
  have "loadCA e ?d1 = (Inr (?c, key), ?d1)"
  proof -
    have ne: "caKeyPath e \<noteq> caCertPath e" by (simp add: caKeyPath_def caCertPath_def)
    have "disk_read (caCertPath e) ?d1 = (Inr (CertPEM ?c), ?d1)" "disk_read (caKeyPath e) ?d1 = (Inr (KeyPEM key), ?d1)"
      unfolding rd d1(3) using ne by simp_all
    then show ?thesis by (simp add: loadCA_def go_bind_def map_err_def lift_sum_def go_return_def)
  qed
  moreover have "isTrusted e ?d1 = (True, ?d1)"
  proof -
    have "file_at ?d1 (trustedMarkerPath e) \<noteq> None" using assms(2) unfolding d1(3) by simp
    then show ?thesis using nf [OF d1(1)] by (simp add: isTrusted_def file_at_def del: file_at_put)
  qed
  ultimately have "EnsureCA e ?d1 = (Inr (?info\<lparr> ci_Trusted := True \<rparr>), ?d1)"
    by (simp add: EnsureCA_def ensureCALocked_def ca_template_def)
  moreover have "\<exists>c. file_at ?d1 (caCertPath e) = Some (CertPEM c) \<and> x_PublicKey c = Some key" unfolding d1(3) by simp
  ultimately show ?thesis using e1 d1(2) by (intro exI [of _ ?d1] exI [of _ ?info]) simp
qed

lemma shellQuote_eq: "shellQuote s = shQuote s"
  by (simp add: shellQuote_def shQuote_def)

text \<open>nothing is run before a confirmed request for trust, which runs the platform's command for the
  authority's certificate and nothing else; on Linux its script is one copy of that file, whatever the directory's
  name contains, and the update of the system's certificates.\<close>

theorem trust_runs_only_the_confirmed_command:
  assumes "ca_reach (ce_dir e) d" "ce_goos e = ''linux''"
  shows "dk_ran (snd (TrustCA e False d)) = dk_ran d \<and> fst (TrustCA e False d) = Inl TrustNotConfirmed \<and>
    (dk_ran (snd (TrustCA e True d)) = dk_ran d \<or>
     (\<exists>script dest update. dk_ran (snd (TrustCA e True d)) = dk_ran d @ [(''sh'', [''-c'', script])] \<and>
        sh_tokens script = Some ([Word (plain ''cp''), Word (quoted (show_path (caCertPath e))), Word (quoted dest), Op CHR ''&'', Op CHR ''&''] @ update)))"
proof -
  let ?c = "quoted (show_path (caCertPath e))"
  have s: "\<exists>dest update. sh_tokens (''cp '' @ shellQuote (show_path (caCertPath e)) @ '' '' @ shellQuote dst @ '' && update-ca-'' @ cmd) =
      Some ([Word (plain ''cp''), Word ?c, Word (quoted dest), Op CHR ''&'', Op CHR ''&''] @ update)"
    if "cmd = ''trust extract'' \<or> cmd = ''certificates''" for dst cmd
    using that
    by (rule_tac exI [of _ dst]) (auto simp: sh_tokens_def shellQuote_eq sh_lex_space plain_def sh_plain_char_def sh_operator_def sh_blank_def)
  have "\<exists>script. c = (''sh'', [''-c'', script]) \<and> (\<exists>dest update. sh_tokens script =
      Some ([Word (plain ''cp''), Word ?c, Word (quoted dest), Op CHR ''&'', Op CHR ''&''] @ update))"
    if "trustCommand e (ce_goos e) (detectLinuxCAFamily e) = Inr c" for c
    using that s [of "''trust extract''"] s [of "''certificates''"] assms(2)
    by (auto simp: trustCommand_def Let_def split: if_splits)
  then show ?thesis
    using TrustCA_kept [OF ca_reach_inv [OF assms(1)] refl, of True] by (auto simp: TrustCA_def [of e False] go_fail_def)
qed

section \<open>The properties at concrete inputs\<close>

definition demo_ca :: ca_env where
  "demo_ca = \<lparr> ce_dir = [''ssl''], ce_hostname = None, ce_ca_key = Inr 1, ce_ca_serial = Inr 7, ce_ca_now = 0, ce_leaf_key = Inr 2,
     ce_leaf_serial = Inr 8, ce_leaf_now = 0, ce_meta_now = 0, ce_stamp = ''now'', ce_goos = ''linux'', ce_has_update_ca_trust = False,
     ce_home = Inl ''none'', ce_run = (\<lambda>_ _. Inr ()) \<rparr>"

definition empty_disk :: ca_disk where
  "empty_disk = \<lparr> dk_files = Map.empty, dk_faults = [], dk_ran = [] \<rparr>"

definition demo_issued :: ca_disk where
  "demo_issued = snd (IssueCertificate demo_ca ''c1'' ''app.test'' empty_disk)"

definition demo_revoked :: ca_disk where
  "demo_revoked = snd (ca_Revoke demo_ca ''c1'' demo_issued)"

text \<open>The authority was trusted and then lost its key.\<close>

definition demo_lost :: ca_disk where
  "demo_lost = (snd (TrustCA demo_ca True empty_disk))\<lparr> dk_files := (dk_files (snd (TrustCA demo_ca True empty_disk)))(caKeyPath demo_ca := None) \<rparr>"

lemma demo_reach:
  "ca_reach (ce_dir demo_ca) empty_disk" "ca_reach (ce_dir demo_ca) demo_issued" "ca_reach (ce_dir demo_ca) demo_revoked"
proof -
  show e: "ca_reach (ce_dir demo_ca) empty_disk" unfolding empty_disk_def by (rule start)
  have "ca_step (ce_dir demo_ca) empty_disk demo_issued"
    unfolding demo_issued_def by (rule issue) (simp_all add: empty_disk_def)
  then show i: "ca_reach (ce_dir demo_ca) demo_issued" by (rule step [OF e])
  have "ca_step (ce_dir demo_ca) demo_issued demo_revoked" unfolding demo_revoked_def by (rule revoke) simp
  then show "ca_reach (ce_dir demo_ca) demo_revoked" by (rule step [OF i])
qed

lemma demo_facts:
  "fst (IssueCertificate demo_ca ''c1'' ''app.test'' empty_disk) =
     Inr \<lparr> cc_ID = ''c1'', cc_DomainID = ''app.test'', cc_NotBefore = -3600, cc_NotAfter = 71280000, cc_Status = ''valid'' \<rparr>"
  "file_at demo_revoked (certDir demo_ca ''c1'' @ [''meta.json'']) =
     Some (MetaJSON \<lparr> cm_Hostname = ''app.test'', cm_Status = ''revoked'', cm_CreatedAt = 0 \<rparr>)"
  "dk_faults demo_lost = []" "file_at demo_lost (trustedMarkerPath demo_ca) = Some (Plain ''now'')"
  "fst (loadCA demo_ca demo_lost) = Inl (KeyMissing NotExist)"
  by code_simp+

theorem issued_certificates_verify_witness:
  "\<exists>leaf c. leaf_for demo_ca ''c1'' ''app.test'' demo_issued leaf \<and>
     fst (IssueCertificate demo_ca ''c1'' ''app.test'' empty_disk) = Inr c \<and> c = providerCertificate ''c1'' ''app.test'' leaf"
proof -
  obtain c where c: "IssueCertificate demo_ca ''c1'' ''app.test'' empty_disk = (Inr c, demo_issued)"
    using demo_facts(1) unfolding demo_issued_def by (metis prod.collapse)
  show ?thesis using issued_certificates_verify [OF demo_reach(1) disjI1 [OF c]] c by auto
qed

theorem leaf_window_exceeds_825_days_witness:
  "\<exists>c. fst (IssueCertificate demo_ca ''c1'' ''app.test'' empty_disk) = Inr c \<and> cc_NotAfter c - cc_NotBefore c = 71283600"
proof -
  obtain c where c: "IssueCertificate demo_ca ''c1'' ''app.test'' empty_disk = (Inr c, demo_issued)"
    using demo_facts(1) unfolding demo_issued_def by (metis prod.collapse)
  show ?thesis using leaf_window_exceeds_825_days [OF demo_reach(1) disjI1 [OF c]] c by simp
qed

theorem revoked_certificates_have_no_key_witness:
  "\<exists>x. fst (ca_Renew demo_ca ''c1'' demo_revoked) = Inl x \<and> x \<noteq> CertificateNotFound"
proof -
  have "revoked_at demo_revoked (certDir demo_ca ''c1'')" using demo_facts(2) by (simp add: revoked_at_def)
  from revoked_certificates_have_no_key [OF demo_reach(3) this] show ?thesis by (auto split: prod.splits)
qed

theorem replaced_authority_reads_as_trusted_witness:
  "\<exists>d1 d2 info. EnsureCA demo_ca demo_lost = (Inr (info\<lparr> ci_Trusted := False \<rparr>), d1) \<and>
     EnsureCA demo_ca d1 = (Inr (info\<lparr> ci_Trusted := True \<rparr>), d2)"
proof -
  have m: "file_at demo_lost (trustedMarkerPath demo_ca) \<noteq> None" using demo_facts(4) by simp
  have k: "ce_ca_key demo_ca = Inr 1" "ce_ca_serial demo_ca = Inr 7" by (simp_all add: demo_ca_def)
  from replaced_authority_reads_as_trusted [OF demo_facts(3) m demo_facts(5) k] show ?thesis by blast
qed

theorem trust_runs_only_the_confirmed_command_witness:
  "fst (TrustCA demo_ca False demo_issued) = Inl TrustNotConfirmed"
  using trust_runs_only_the_confirmed_command [OF demo_reach(2)] by (simp add: demo_ca_def)

end
