(* ===== verification/SslHandlers.thy ===== *)
theory SslHandlers
  imports Handlers LocalCA
begin

text \<open>
  The handlers of \<open>internal/api/v1/ssl.go\<close>, in which the local authority, the table of certificates and the
  domains meet.  The instants the provider gives out as RFC 3339 texts, which the handler parses again, are
  seconds here.
\<close>

record ssl_site =
  sl_panel :: panel
  sl_ca :: "ca_disk option"

record ssl_call =
  sk_call :: call
  sk_env :: ca_env
  sk_id :: string

datatype ssl_error =
    SslMessage string
  | SslCA ca_error
  | SslDomain domain_error

type_synonym 'a ssl_handler = "ssl_site \<Rightarrow> (nat \<times> (ssl_error + 'a)) \<times> ssl_site"

definition no_ssl :: "nat \<times> (ssl_error + 'a)" where
  "no_ssl = (503, Inl (SslMessage ''SSL provider not available''))"

definition on_ca :: "(ca_disk \<Rightarrow> (ca_error + 'a) \<times> ca_disk) \<Rightarrow> ca_disk \<Rightarrow> ssl_site \<Rightarrow> (ca_error + 'a) \<times> ssl_site" where
  "on_ca f d s = (case f d of (r, d') \<Rightarrow> (r, s\<lparr> sl_ca := Some d' \<rparr>))"

definition on_domains :: "(db \<Rightarrow> (domain_error + 'a) \<times> db) \<Rightarrow> ssl_site \<Rightarrow> (domain_error + 'a) \<times> ssl_site" where
  "on_domains f s = (case on_db f (sl_panel s) of (r, p) \<Rightarrow> (r, s\<lparr> sl_panel := p \<rparr>))"

definition audit_ssl :: "ssl_call \<Rightarrow> string \<Rightarrow> string \<Rightarrow> string \<Rightarrow> string \<Rightarrow> ssl_site \<Rightarrow> ssl_site" where
  "audit_ssl k action targetType targetID result s =
     s\<lparr> sl_panel := audit (sk_call k) action targetType targetID result (sl_panel s) \<rparr>"

definition domain_refusal :: "domain_error \<Rightarrow> nat \<times> (ssl_error + 'a)" where
  "domain_refusal e = (if e = DomainNotFound then (404, Inl (SslMessage ''domain not found'')) else (400, Inl (SslDomain e)))"

definition ssl_ensureCA :: "ssl_call \<Rightarrow> ca_info ssl_handler" where
  "ssl_ensureCA k s =
     (case sl_ca s of
        None \<Rightarrow> (no_ssl, s)
      | Some d \<Rightarrow>
         (case on_ca (EnsureCA (sk_env k)) d s of
            (r, s1) \<Rightarrow>
             (let s2 = audit_ssl k ''ssl.ca.ensure'' ''ca'' (case r of Inl _ \<Rightarrow> [] | Inr info \<Rightarrow> ci_CommonName info) (resultOf r) s1
              in case r of Inl e \<Rightarrow> ((500, Inl (SslCA e)), s2) | Inr info \<Rightarrow> ((200, Inr info), s2))))"

text \<open>The body is the id of the domain, or the error of a body that does not parse.\<close>

definition issueCertificate :: "ssl_call \<Rightarrow> string + string \<Rightarrow> certificate ssl_handler" where
  "issueCertificate k body s =
     (case sl_ca s of
        None \<Rightarrow> (no_ssl, s)
      | Some d \<Rightarrow>
     (case body of
        Inl msg \<Rightarrow> ((400, Inl (SslMessage msg)), s)
      | Inr domainID \<Rightarrow>
     (if domainID = [] then ((400, Inl (SslMessage ''domainId must not be empty'')), s)
      else case on_domains (GetDomain domainID) s of
        (Inl e, s1) \<Rightarrow> (domain_refusal e, s1)
      | (Inr dn, s1) \<Rightarrow>
     (case on_ca (IssueCertificate (sk_env k) (sk_id k) (dom_Hostname dn)) d s1 of
        (Inl e, s2) \<Rightarrow> ((400, Inl (SslCA e)), audit_ssl k ''ssl.certificate.issue'' ''domain'' (dom_ID dn) ''error'' s2)
      | (Inr c, s2) \<Rightarrow>
     (case on_domains (CreateCertificate (cc_ID c) (dom_ID dn) ''local-ca'' (cc_NotBefore c * second) (cc_NotAfter c * second)
             (cc_Status c)) s2 of
        (Inl e, s3) \<Rightarrow> ((500, Inl (SslDomain e)), audit_ssl k ''ssl.certificate.issue'' ''domain'' (dom_ID dn) ''error'' s3)
      | (Inr cert, s3) \<Rightarrow>
     (case on_domains (SetSSLEnabled (dom_ID dn) True) s3 of
        (Inl e, s4) \<Rightarrow> ((500, Inl (SslDomain e)), s4)
      | (Inr _, s4) \<Rightarrow> ((201, Inr cert), audit_ssl k ''ssl.certificate.issue'' ''domain'' (dom_ID dn) ''ok'' s4)))))))"

text \<open>A body that does not parse asks for nothing.\<close>

definition ssl_trustCA :: "ssl_call \<Rightarrow> string + bool \<Rightarrow> unit ssl_handler" where
  "ssl_trustCA k body s =
     (case sl_ca s of
        None \<Rightarrow> (no_ssl, s)
      | Some d \<Rightarrow>
         (case on_ca (TrustCA (sk_env k) (case body of Inl _ \<Rightarrow> False | Inr confirmed \<Rightarrow> confirmed)) d s of
            (r, s1) \<Rightarrow>
             (let s2 = audit_ssl k ''ssl.ca.trust'' ''ca'' ''local'' (resultOf r) s1
              in case r of
                   Inl TrustNotConfirmed \<Rightarrow> ((400, Inl (SslMessage (''trusting the local CA requires \"confirmed\": true in the request body -- '' @
                     ''this modifies your OS/browser trust store''))), s2)
                 | Inl e \<Rightarrow> ((400, Inl (SslCA e)), s2)
                 | Inr _ \<Rightarrow> ((200, Inr ()), s2))))"

section \<open>Properties\<close>

lemma audit_other_tables:
  "t \<noteq> ''audit_events'' \<Longrightarrow> tables (panel_db (audit cl a tt ti r p)) t = tables (panel_db p) t"
  by (cases "panel_db p" rule: tick_cases)
    (auto simp: audit_def on_db_eq sql_insert_def go_bind_def raw_insert_def split: if_splits)

lemma on_domains_ok:
  assumes "on_domains f s = (Inr a, s')"
  shows "f (panel_db (sl_panel s)) = (Inr a, panel_db (sl_panel s')) \<and> sl_ca s' = sl_ca s"
  using assms by (cases "f (panel_db (sl_panel s))") (auto simp: on_domains_def on_db_eq)

lemma on_ca_ok:
  assumes "on_ca f d s = (r, s')"
  shows "\<exists>d'. f d = (r, d') \<and> sl_ca s' = Some d' \<and> sl_panel s' = sl_panel s"
  using assms by (auto simp: on_ca_def split: prod.splits)

lemma GetDomain_ok:
  assumes "GetDomain i d = (Inr dn, d')"
  shows "tables d' = tables d \<and> (\<exists>r \<in> set (tables d ''domains''). by_id i r \<and> dn = scanDomain r)"
  using assms
  by (cases d rule: tick_cases)
    (auto simp: GetDomain_def repo_get_def sql_query_row_def sql_query_def go_bind_def filter_eq_Cons_iff split: list.splits)

lemma CreateCertificate_ok:
  assumes "CreateCertificate i dm ca nb na st d = (Inr cert, d')"
  shows "cert = \<lparr> cert_ID = i, cert_DomainID = dm, cert_CAID = ca, cert_NotBefore = nb, cert_NotAfter = na, cert_Status = st \<rparr> \<and>
    (\<exists>r \<in> set (tables d' ''certificates''). by_id i r \<and> r ''domain_id'' = Text dm) \<and>
    tables d' ''domains'' = tables d ''domains''"
  using assms
  by (cases d rule: tick_cases)
    (auto simp: CreateCertificate_def sql_insert_def go_bind_def raw_insert_def make_row_def by_id_def split: if_splits prod.splits sum.splits)

lemma SetSSLEnabled_ok:
  assumes "SetSSLEnabled i True d = (Inr u, d')"
  shows "tables d' ''certificates'' = tables d ''certificates'' \<and>
    (\<forall>r \<in> set (tables d' ''domains''). by_id i r \<longrightarrow> r ''ssl_enabled'' = Num 1)"
  using assms
  by (cases d rule: tick_cases)
    (auto simp: SetSSLEnabled_def update_by_id_def sql_update_def go_bind_def raw_update_def Let_def go_return_def go_fail_def by_id_def set_cols_def boolToInt_def
      split: if_splits prod.splits sum.splits)

text \<open>When issuing answers 201 the three places agree: the row of the certificate is in the table and refers to
  the domain, the domain is marked as having TLS, and the files under the certificate's id hold a leaf for the
  domain's hostname with its key, which verifies against the authority while both are in their periods.\<close>

theorem issuing_joins_row_and_files:
  assumes "issueCertificate k (Inr i) s = ((201, Inr cert), s')" "sl_ca s = Some d" "ca_reach (ce_dir (sk_env k)) d"
  shows "\<exists>d' leaf host r. sl_ca s' = Some d' \<and> leaf_for (sk_env k) (cert_ID cert) host d' leaf \<and>
    r \<in> set (tables (panel_db (sl_panel s)) ''domains'') \<and> by_id i r \<and> host = text_col ''hostname'' r \<and> cert_DomainID cert = i \<and>
    (\<exists>x \<in> set (tables (panel_db (sl_panel s')) ''certificates''). by_id (cert_ID cert) x \<and> x ''domain_id'' = Text i) \<and>
    (\<forall>x \<in> set (tables (panel_db (sl_panel s')) ''domains''). by_id i x \<longrightarrow> x ''ssl_enabled'' = Num 1)"
proof -
  let ?e = "sk_env k"
  obtain dn s1 c s2 s3 s4 where g: "on_domains (GetDomain i) s = (Inr dn, s1)"
    and c: "on_ca (IssueCertificate ?e (sk_id k) (dom_Hostname dn)) d s1 = (Inr c, s2)"
    and r: "on_domains (CreateCertificate (cc_ID c) (dom_ID dn) ''local-ca'' (cc_NotBefore c * second) (cc_NotAfter c * second) (cc_Status c)) s2 =
      (Inr cert, s3)"
    and t: "on_domains (SetSSLEnabled (dom_ID dn) True) s3 = (Inr (), s4)"
    and s': "s' = audit_ssl k ''ssl.certificate.issue'' ''domain'' (dom_ID dn) ''ok'' s4"
    using assms(1,2) by (auto simp: issueCertificate_def domain_refusal_def split: if_splits prod.splits sum.splits)
  obtain x where x: "x \<in> set (tables (panel_db (sl_panel s)) ''domains'')" "by_id i x" "dn = scanDomain x"
    using GetDomain_ok on_domains_ok [OF g] by blast
  then have i: "dom_ID dn = i" "dom_Hostname dn = text_col ''hostname'' x"
    by (simp_all add: scanDomain_def by_id_def text_col_def)
  obtain d' where ic: "IssueCertificate ?e (sk_id k) (dom_Hostname dn) d = (Inr c, d')" "sl_ca s2 = Some d'"
    using on_ca_ok [OF c] by blast
  obtain leaf where leaf: "leaf_for ?e (sk_id k) (dom_Hostname dn) d' leaf" "c = providerCertificate (sk_id k) (dom_Hostname dn) leaf"
    using IssueCertificate_ok [OF ic(1) ca_reach_inv [OF assms(3)]] by metis
  note cr = CreateCertificate_ok [OF conjunct1 [OF on_domains_ok [OF r]]]
  note st = SetSSLEnabled_ok [OF conjunct1 [OF on_domains_ok [OF t]], unfolded i]
  have ids: "cert_ID cert = sk_id k" "cert_DomainID cert = i" using cr leaf(2) i by (simp_all add: providerCertificate_def)
  have ca: "sl_ca s' = Some d'" using ic(2) on_domains_ok [OF r] on_domains_ok [OF t] by (simp add: s' audit_ssl_def)
  have tb: "tables (panel_db (sl_panel s')) u = tables (panel_db (sl_panel s4)) u" if "u \<noteq> ''audit_events''" for u
    using that by (simp add: s' audit_ssl_def audit_other_tables)
  have "\<exists>x \<in> set (tables (panel_db (sl_panel s')) ''certificates''). by_id (cert_ID cert) x \<and> x ''domain_id'' = Text i"
    using cr st ids leaf(2) i by (simp add: tb providerCertificate_def)
  moreover have "\<forall>x \<in> set (tables (panel_db (sl_panel s')) ''domains''). by_id i x \<longrightarrow> x ''ssl_enabled'' = Num 1"
    using st by (simp add: tb)
  ultimately show ?thesis using ca leaf(1) ids x(1,2) i(2)
    by (intro exI [of _ d'] exI [of _ leaf] exI [of _ "dom_Hostname dn"] exI [of _ x]) simp
qed

text \<open>no request runs a command of the operating system except a request for trust whose body parses and
  confirms it.\<close>

theorem only_confirmed_trust_runs_a_command:
  assumes "sl_ca s = Some d" "ca_reach (ce_dir (sk_env k)) d" "dk_files d (metaPath (sk_env k) (sk_id k)) = None"
    and "s' \<in> {snd (ssl_ensureCA k s), snd (issueCertificate k body s), snd (ssl_trustCA k (Inl msg) s), snd (ssl_trustCA k (Inr False) s)}"
  shows "\<exists>d'. sl_ca s' = Some d' \<and> dk_ran d' = dk_ran d"
proof -
  let ?e = "sk_env k"
  note inv = ca_reach_inv [OF assms(2)]
  have same: "ca_same (ce_dir ?e) d d" using inv by (simp add: ca_same_def)
  have en: "dk_ran (snd (EnsureCA ?e d)) = dk_ran d" using ensureCALocked_same [OF same refl] by (simp add: EnsureCA_def ca_same_def)
  have "\<not> revoked_at d (certDir ?e (sk_id k))" using assms(3) by (simp add: revoked_at_def metaPath_def file_at_def)
  then have iss: "dk_ran (snd (IssueCertificate ?e (sk_id k) h d)) = dk_ran d" for h
    using IssueCertificate_kept [OF inv refl] by (simp add: ca_kept_def)
  have tr: "TrustCA ?e False d = (Inl TrustNotConfirmed, d)" by (simp add: TrustCA_def go_fail_def)
  have dm: "sl_ca (snd (on_domains f x)) = sl_ca x" for f and x :: ssl_site by (simp add: on_domains_def on_db_eq)
  have au: "sl_ca (audit_ssl k a tt ti r x) = sl_ca x" for a tt ti r x by (simp add: audit_ssl_def)
  consider "s' = snd (ssl_ensureCA k s)" | "s' = snd (issueCertificate k body s)" | "s' = snd (ssl_trustCA k (Inl msg) s)"
    | "s' = snd (ssl_trustCA k (Inr False) s)" using assms(4) by blast
  then show ?thesis
  proof cases
    case 1
    then show ?thesis using en assms(1) by (cases "EnsureCA ?e d"; cases "fst (EnsureCA ?e d)") (simp_all add: ssl_ensureCA_def on_ca_def Let_def au)
  next
    case 2
    show ?thesis
    proof (cases "body = Inr [] \<or> (\<exists>m. body = Inl m)")
      case True
      then show ?thesis using 2 assms(1) by (auto simp: issueCertificate_def)
    next
      case False
      then obtain i where i: "body = Inr i" "i \<noteq> []" by (cases body) auto
      obtain g s1 where g: "on_domains (GetDomain i) s = (g, s1)" by fastforce
      then have s1: "sl_ca s1 = Some d" using dm [of "GetDomain i" s] assms(1) by simp
      show ?thesis
      proof (cases g)
        case (Inr dn)
        obtain c d2 where c: "IssueCertificate ?e (sk_id k) (dom_Hostname dn) d = (c, d2)" by fastforce
        then have d2: "dk_ran d2 = dk_ran d" using iss [of "dom_Hostname dn"] by simp
        have "sl_ca s' = Some d2"
          using 2 assms(1) i g Inr c by (simp add: issueCertificate_def on_ca_def au dm case_prod_unfold split: sum.split)
        then show ?thesis using d2 by blast
      qed (use 2 assms(1) i g s1 in \<open>simp add: issueCertificate_def\<close>)
    qed
  qed (use assms(1) tr in \<open>simp_all add: ssl_trustCA_def on_ca_def Let_def au\<close>)
qed

definition demo_ssl :: ssl_site where
  "demo_ssl = \<lparr> sl_panel = demo_panel [(''domains'', [make_row ''domains'' (domain_cols ''d1'' 0 ''app.test'' [] 0)])] [], sl_ca = Some empty_disk \<rparr>"

definition demo_ssl_call :: ssl_call where
  "demo_ssl_call = \<lparr> sk_call = demo_call ''x'', sk_env = demo_ca, sk_id = ''c1'' \<rparr>"

lemma demo_ssl_issued:
  "fst (issueCertificate demo_ssl_call (Inr ''d1'') demo_ssl) =
     (201, Inr \<lparr> cert_ID = ''c1'', cert_DomainID = ''d1'', cert_CAID = ''local-ca'', cert_NotBefore = -3600 * second,
                 cert_NotAfter = 71280000 * second, cert_Status = ''valid'' \<rparr>)"
  by code_simp

theorem issuing_joins_row_and_files_witness:
  "\<exists>x \<in> set (tables (panel_db (sl_panel (snd (issueCertificate demo_ssl_call (Inr ''d1'') demo_ssl)))) ''certificates'').
     by_id ''c1'' x \<and> x ''domain_id'' = Text ''d1''"
proof -
  obtain cert s' where r: "issueCertificate demo_ssl_call (Inr ''d1'') demo_ssl = ((201, Inr cert), s')" "cert_ID cert = ''c1''"
    using demo_ssl_issued by (metis prod.collapse certificate.select_convs(1))
  have "sl_ca demo_ssl = Some empty_disk" "ca_reach (ce_dir (sk_env demo_ssl_call)) empty_disk"
    using demo_reach(1) by (simp_all add: demo_ssl_def demo_ssl_call_def)
  from issuing_joins_row_and_files [OF r(1) this] show ?thesis using r by auto
qed

theorem only_confirmed_trust_runs_a_command_witness:
  "\<exists>d'. sl_ca (snd (ssl_trustCA demo_ssl_call (Inl ''EOF'') demo_ssl)) = Some d' \<and> dk_ran d' = []"
proof -
  have d: "sl_ca demo_ssl = Some empty_disk" "ca_reach (ce_dir (sk_env demo_ssl_call)) empty_disk"
    "dk_files empty_disk (metaPath (sk_env demo_ssl_call) (sk_id demo_ssl_call)) = None"
    using demo_reach(1) by (simp_all add: demo_ssl_def demo_ssl_call_def empty_disk_def)
  have r: "dk_ran empty_disk = []" by (simp add: empty_disk_def)
  show ?thesis
    using only_confirmed_trust_runs_a_command [OF d, of "snd (ssl_trustCA demo_ssl_call (Inl ''EOF'') demo_ssl)" "Inl []" "''EOF''"]
    unfolding r by simp
qed

end
