(* ===== verification/Brew.thy ===== *)
theory Brew
  imports Jobs Decimal Frames
begin

text \<open>
  \<open>internal/providers/pkgmanager/brew/brew.go\<close>: driving Homebrew.  Searching, listing, service actions and linking run
  a command and wait for it; installing, upgrading and uninstalling start a process that is a background job.

  The commands are functions on the state of the machine, whose type is a parameter, and every command that is run is
  kept in \<open>bw_ran\<close>.  Output that is emitted to the browser while a job runs is not modelled, its log file is.
\<close>

section \<open>Names\<close>

definition alnum :: "char \<Rightarrow> bool" where
  "alnum c \<longleftrightarrow> is_digit c \<or> (CHR ''a'' \<le> c \<and> c \<le> CHR ''z'') \<or> (CHR ''A'' \<le> c \<and> c \<le> CHR ''Z'')"

definition name_char :: "char \<Rightarrow> bool" where
  "name_char c \<longleftrightarrow> alnum c \<or> c \<in> set ''_.+@-''"

definition name_part :: "string \<Rightarrow> bool" where
  "name_part s \<longleftrightarrow> s \<noteq> [] \<and> alnum (hd s) \<and> list_all name_char (tl s)"

text \<open>The regular expression \<open>nameRe\<close>: at most three parts with slashes between them.\<close>

definition nameRe :: "string \<Rightarrow> bool" where
  "nameRe s \<longleftrightarrow> length (split_on CHR ''/'' s) \<le> 3 \<and> list_all name_part (split_on CHR ''/'' s)"

datatype brew_error =
    InvalidName string
  | BrewFailed string
  | UnknownAction string
  | AlreadyRunning string string string
  | CreateLogDir string
  | JobRefused job_error
  | OpenLogFile string
  | StartFailed string
  | NotRunning string
  | KillFailed string

definition ValidateName :: "string \<Rightarrow> brew_error + unit" where
  "ValidateName name = (if name = [] \<or> length name > 128 \<or> \<not> nameRe name then Inl (InvalidName name) else Inr ())"

section \<open>The machine and the state\<close>

text \<open>A command answers with what it printed and, when it failed, an error; \<open>json\<close> is what the standard decoder
  makes of the list of services.\<close>

record 'w brew_host =
  bh_has_brew :: "'w \<Rightarrow> bool"
  bh_output :: "string list \<Rightarrow> 'w \<Rightarrow> (string \<times> string option) \<times> 'w"
  bh_combined :: "string list \<Rightarrow> 'w \<Rightarrow> (string \<times> string option) \<times> 'w"
  bh_json :: "string \<Rightarrow> (string \<times> string) list option"

record 'w brew_state =
  bw_machine :: 'w
  bw_ran :: "string list list"
  bw_db :: db
  bw_active :: "(string \<times> string list) list"
  bw_targets :: "(string \<times> string) list"
  bw_logs :: "(string \<times> string) list"
  bw_killed :: "string list"

text \<open>What a request draws from its environment: the id and the times of a job, and whether the directory, the log
  file, the process and a kill fail.\<close>

record brew_call =
  bc_uuid :: string
  bc_now :: int
  bc_logdir :: string
  bc_mkdir :: "string option"
  bc_openlog :: "string option"
  bc_start :: "string option"
  bc_kill :: "string option"

definition run_command :: "(string list \<Rightarrow> 'w \<Rightarrow> (string \<times> string option) \<times> 'w) \<Rightarrow> string list \<Rightarrow> 'w brew_state \<Rightarrow>
    (string \<times> string option) \<times> 'w brew_state" where
  "run_command f args s =
     (case f args (bw_machine s) of (r, w) \<Rightarrow> (r, s\<lparr> bw_machine := w, bw_ran := bw_ran s @ [args] \<rparr>))"

section \<open>Searching and listing\<close>

record installed_package =
  ip_Name :: string
  ip_Versions :: "string list"
  ip_ServiceStatus :: string

definition Available :: "'w brew_host \<Rightarrow> 'w brew_state \<Rightarrow> bool" where
  "Available h s = bh_has_brew h (bw_machine s)"

definition search_names :: "string \<Rightarrow> string list" where
  "search_names out = filter (\<lambda>l. l \<noteq> [] \<and> \<not> has_prefix l ''==>'') (map trim_space (split_on CHR 0x0A out))"

definition brew_Search :: "'w brew_host \<Rightarrow> string \<Rightarrow> 'w brew_state \<Rightarrow> (brew_error + string list) \<times> 'w brew_state" where
  "brew_Search h query s =
     (case ValidateName query of
        Inl e \<Rightarrow> (Inl e, s)
      | Inr _ \<Rightarrow>
         (case run_command (bh_output h) [''brew'', ''search'', ''--formula'', query] s of
            ((_, Some e), s1) \<Rightarrow> (Inl (BrewFailed (''brew search: '' @ e)), s1)
          | ((out, None), s1) \<Rightarrow> (Inr (search_names out), s1)))"

text \<open>The services by name; of two entries for a name the later one counts.\<close>

definition serviceStatuses :: "'w brew_host \<Rightarrow> 'w brew_state \<Rightarrow> (string + (string \<rightharpoonup> string)) \<times> 'w brew_state" where
  "serviceStatuses h s =
     (case run_command (bh_output h) [''brew'', ''services'', ''list'', ''--json''] s of
        ((_, Some e), s1) \<Rightarrow> (Inl e, s1)
      | ((out, None), s1) \<Rightarrow> ((case bh_json h out of None \<Rightarrow> Inl ''json'' | Some es \<Rightarrow> Inr (map_of (rev es))), s1))"

definition parse_installed :: "string \<Rightarrow> (string \<times> string list) list" where
  "parse_installed out =
     map (\<lambda>fs. (hd fs, tl fs)) (filter (\<lambda>fs. fs \<noteq> []) (map str_fields (split_on CHR 0x0A out)))"

definition installed_of :: "string \<Rightarrow> string + (string \<rightharpoonup> string) \<Rightarrow> installed_package list" where
  "installed_of out svcs =
     (let entries = parse_installed out; byName = map_of (rev entries)
      in map (\<lambda>n. \<lparr> ip_Name = n, ip_Versions = (case byName n of None \<Rightarrow> [] | Some vs \<Rightarrow> vs),
                    ip_ServiceStatus = (case svcs of Inl _ \<Rightarrow> [] | Inr m \<Rightarrow> (case m n of None \<Rightarrow> [] | Some st \<Rightarrow> st)) \<rparr>)
             (sort (map fst entries)))"

text \<open>The two commands run at the same time; neither changes the machine.\<close>

definition ListInstalled :: "'w brew_host \<Rightarrow> 'w brew_state \<Rightarrow> (brew_error + installed_package list) \<times> 'w brew_state" where
  "ListInstalled h s =
     (case serviceStatuses h s of
        (svcs, s1) \<Rightarrow>
         (case run_command (bh_output h) [''brew'', ''list'', ''--formula'', ''--versions''] s1 of
            ((_, Some e), s2) \<Rightarrow> (Inl (BrewFailed (''brew list: '' @ e)), s2)
          | ((out, None), s2) \<Rightarrow> (Inr (installed_of out svcs), s2)))"

definition ServiceAction :: "'w brew_host \<Rightarrow> string \<Rightarrow> string \<Rightarrow> 'w brew_state \<Rightarrow> (brew_error + unit) \<times> 'w brew_state" where
  "ServiceAction h name action s =
     (case ValidateName name of
        Inl e \<Rightarrow> (Inl e, s)
      | Inr _ \<Rightarrow>
         (if action \<notin> {''start'', ''stop'', ''restart''} then (Inl (UnknownAction action), s)
          else (case run_command (bh_combined h) [''brew'', ''services'', action, name] s of
                  ((out, Some e), s1) \<Rightarrow>
                    (Inl (BrewFailed (''brew services '' @ action @ '' '' @ name @ '': '' @ e @ '': '' @ trim_space out)), s1)
                | ((_, None), s1) \<Rightarrow> (Inr (), s1))))"

section \<open>Linking one version of a family\<close>

definition family_of :: "string \<Rightarrow> string" where
  "family_of target = takeWhile (\<lambda>c. c \<noteq> CHR ''@'') target"

definition in_family :: "string \<Rightarrow> string \<Rightarrow> bool" where
  "in_family target name \<longleftrightarrow> name \<noteq> target \<and> (name = family_of target \<or> has_prefix name (family_of target @ ''@''))"

fun unlink_all :: "'w brew_host \<Rightarrow> string list \<Rightarrow> 'w brew_state \<Rightarrow> 'w brew_state" where
  "unlink_all h [] s = s"
| "unlink_all h (n # ns) s = unlink_all h ns (snd (run_command (bh_combined h) [''brew'', ''unlink'', n] s))"

definition brew_SetDefaultVersion :: "'w brew_host \<Rightarrow> string \<Rightarrow> 'w brew_state \<Rightarrow> (brew_error + unit) \<times> 'w brew_state" where
  "brew_SetDefaultVersion h target s =
     (case ValidateName target of
        Inl e \<Rightarrow> (Inl e, s)
      | Inr _ \<Rightarrow>
         (case ListInstalled h s of
            (r, s1) \<Rightarrow>
             (let others = (case r of Inl _ \<Rightarrow> [] | Inr ps \<Rightarrow> filter (in_family target) (map ip_Name ps)) in
              case run_command (bh_combined h) [''brew'', ''link'', ''--overwrite'', ''--force'', target] (unlink_all h others s1) of
                ((out, Some e), s2) \<Rightarrow> (Inl (BrewFailed (''brew link '' @ target @ '': '' @ e @ '': '' @ trim_space out)), s2)
              | ((_, None), s2) \<Rightarrow> (Inr (), s2))))"

section \<open>Jobs\<close>

definition target_key :: "string \<Rightarrow> string \<Rightarrow> string" where
  "target_key kind target = kind @ [CHR 0x00] @ target"

definition on_jobs :: "(db \<Rightarrow> (job_error + 'a) \<times> db) \<Rightarrow> 'w brew_state \<Rightarrow> (job_error + 'a) \<times> 'w brew_state" where
  "on_jobs f s = (case f (bw_db s) of (r, d) \<Rightarrow> (r, s\<lparr> bw_db := d \<rparr>))"

text \<open>\<open>finish\<close> tries twice.\<close>

definition finish :: "int \<Rightarrow> int \<Rightarrow> string \<Rightarrow> string \<Rightarrow> int \<Rightarrow> string \<Rightarrow> 'w brew_state \<Rightarrow> 'w brew_state" where
  "finish now later i status exitCode msg s =
     (case on_jobs (job_Finish now i status exitCode msg) s of
        (Inr _, s1) \<Rightarrow> s1
      | (Inl _, s1) \<Rightarrow> snd (on_jobs (job_Finish later i status exitCode msg) s1))"

text \<open>
  \<open>runJob\<close> holds the lock for two short stretches: while it looks whether the target is busy, and while it registers the
  process it started.  Other requests may come in between, so it is modelled in two parts.
\<close>

definition runJob_check :: "string \<Rightarrow> string \<Rightarrow> 'w brew_state \<Rightarrow> brew_error + unit" where
  "runJob_check kind target s =
     (case ValidateName target of
        Inl e \<Rightarrow> Inl e
      | Inr _ \<Rightarrow> (case map_of (bw_targets s) (target_key kind target) of
                    Some existing \<Rightarrow> Inl (AlreadyRunning kind target existing) | None \<Rightarrow> Inr ()))"

definition put_assoc :: "'k \<Rightarrow> 'v \<Rightarrow> ('k \<times> 'v) list \<Rightarrow> ('k \<times> 'v) list" where
  "put_assoc k v m = (k, v) # filter (\<lambda>(k', _). k' \<noteq> k) m"

definition drop_assoc :: "'k \<Rightarrow> ('k \<times> 'v) list \<Rightarrow> ('k \<times> 'v) list" where
  "drop_assoc k m = filter (\<lambda>(k', _). k' \<noteq> k) m"

definition job_log_path :: "brew_call \<Rightarrow> string" where
  "job_log_path c = bc_logdir c @ ''/'' @ bc_uuid c @ ''.log''"

definition open_log :: "string \<Rightarrow> 'w brew_state \<Rightarrow> 'w brew_state" where
  "open_log p s = (if map_of (bw_logs s) p = None then s\<lparr> bw_logs := put_assoc p [] (bw_logs s) \<rparr> else s)"

definition runJob_launch :: "brew_call \<Rightarrow> string \<Rightarrow> string \<Rightarrow> string list \<Rightarrow> 'w brew_state \<Rightarrow> (brew_error + job) \<times> 'w brew_state" where
  "runJob_launch c kind target args s =
     (case bc_mkdir c of
        Some m \<Rightarrow> (Inl (CreateLogDir m), s)
      | None \<Rightarrow>
         (case on_jobs (job_Create (bc_uuid c) (bc_now c) kind target []) s of
            (Inl e, s1) \<Rightarrow> (Inl (JobRefused e), s1)
          | (Inr j, s1) \<Rightarrow>
             (let s2 = snd (on_jobs (job_SetLogFile (job_ID j) (job_log_path c)) s1) in
              case bc_openlog c of
                Some m \<Rightarrow> (Inl (OpenLogFile m), s2)
              | None \<Rightarrow>
                 (let s3 = open_log (job_log_path c) s2 in
                  case bc_start c of
                    Some m \<Rightarrow> (Inl (StartFailed m), finish (bc_now c) (bc_now c) (job_ID j) JobFailed (-1) m s3)
                  | None \<Rightarrow>
                      (Inr (j\<lparr> job_LogFile := job_log_path c \<rparr>),
                       s3\<lparr> bw_ran := bw_ran s3 @ [''brew'' # args], bw_active := put_assoc (job_ID j) args (bw_active s3),
                           bw_targets := put_assoc (target_key kind target) (job_ID j) (bw_targets s3) \<rparr>)))))"

definition runJob :: "brew_call \<Rightarrow> string \<Rightarrow> string \<Rightarrow> string list \<Rightarrow> 'w brew_state \<Rightarrow> (brew_error + job) \<times> 'w brew_state" where
  "runJob c kind target args s =
     (case runJob_check kind target s of Inl e \<Rightarrow> (Inl e, s) | Inr _ \<Rightarrow> runJob_launch c kind target args s)"

definition brew_Install :: "brew_call \<Rightarrow> string \<Rightarrow> 'w brew_state \<Rightarrow> (brew_error + job) \<times> 'w brew_state" where
  "brew_Install c name = runJob c ''install'' name [''install'', name]"

definition brew_Upgrade :: "brew_call \<Rightarrow> string \<Rightarrow> 'w brew_state \<Rightarrow> (brew_error + job) \<times> 'w brew_state" where
  "brew_Upgrade c name = runJob c ''upgrade'' name [''upgrade'', name]"

definition brew_Uninstall :: "brew_call \<Rightarrow> string \<Rightarrow> 'w brew_state \<Rightarrow> (brew_error + job) \<times> 'w brew_state" where
  "brew_Uninstall c name = runJob c ''uninstall'' name [''uninstall'', name]"

text \<open>How a process ended, with the text of the error that \<open>Wait\<close> gives.\<close>

datatype brew_exit = ExitCode int string | Signaled string | WaitError string

fun exit_status :: "brew_exit \<Rightarrow> string \<times> int \<times> string" where
  "exit_status (ExitCode n msg) = (if n = 0 then (JobSuccess, 0, []) else (JobFailed, n, msg))"
| "exit_status (Signaled msg) = (JobCanceled, -1, msg)"
| "exit_status (WaitError msg) = (JobFailed, -1, msg)"

text \<open>
  The lines a scanner reads: the ends of the lines are normalised, and a line of 64 KiB or more stops it.
\<close>

definition max_line :: nat where "max_line = 65536"

fun chomp_cr :: "string \<Rightarrow> string" where
  "chomp_cr l = (if l \<noteq> [] \<and> last l = CHR 0x0D then butlast l else l)"

definition scan_lines :: "string \<Rightarrow> string list" where
  "scan_lines out =
     (let ls = split_on CHR 0x0A out; ls' = (if last ls = [] then butlast ls else ls)
      in map chomp_cr (takeWhile (\<lambda>l. length l < max_line) ls'))"

definition pipeLogs :: "string \<Rightarrow> string \<Rightarrow> 'w brew_state \<Rightarrow> 'w brew_state" where
  "pipeLogs p out s =
     s\<lparr> bw_logs := put_assoc p ((case map_of (bw_logs s) p of None \<Rightarrow> [] | Some l \<Rightarrow> l) @ concat (map (\<lambda>l. l @ [CHR 0x0A]) (scan_lines out)))
          (bw_logs s) \<rparr>"

text \<open>What follows when the process of a job ends.  The lines of its two streams may interleave; here the standard
  output comes first.\<close>

definition complete :: "brew_call \<Rightarrow> string \<Rightarrow> string \<Rightarrow> string \<Rightarrow> string \<Rightarrow> brew_exit \<Rightarrow> 'w brew_state \<Rightarrow> 'w brew_state" where
  "complete c i key out err ex s =
     (let s1 = pipeLogs (job_log_path (c\<lparr> bc_uuid := i \<rparr>)) err (pipeLogs (job_log_path (c\<lparr> bc_uuid := i \<rparr>)) out s);
          s2 = s1\<lparr> bw_active := drop_assoc i (bw_active s1), bw_targets := drop_assoc key (bw_targets s1) \<rparr>
      in case exit_status ex of (status, code, msg) \<Rightarrow> finish (bc_now c) (bc_now c) i status code msg s2)"

definition brew_Cancel :: "brew_call \<Rightarrow> string \<Rightarrow> 'w brew_state \<Rightarrow> (brew_error + unit) \<times> 'w brew_state" where
  "brew_Cancel c i s =
     (case map_of (bw_active s) i of
        None \<Rightarrow> (Inl (NotRunning i), s)
      | Some _ \<Rightarrow> (case bc_kill c of Some m \<Rightarrow> (Inl (KillFailed m), s) | None \<Rightarrow> (Inr (), s\<lparr> bw_killed := i # bw_killed s \<rparr>)))"

section \<open>Commands take names, never options\<close>

text \<open>A command is safe when every argument is one of the fixed words of this package or begins with a letter or digit.\<close>

definition fixed_words :: "string list" where
  "fixed_words = [''brew'', ''search'', ''--formula'', ''services'', ''list'', ''--json'', ''--versions'', ''start'', ''stop'', ''restart'',
     ''unlink'', ''link'', ''--overwrite'', ''--force'', ''install'', ''upgrade'', ''uninstall'']"

definition safe_command :: "string list \<Rightarrow> bool" where
  "safe_command args \<longleftrightarrow> list_all (\<lambda>a. a \<in> set fixed_words \<or> (a \<noteq> [] \<and> alnum (hd a))) args"

lemma valid_name_start: "ValidateName n = Inr () \<Longrightarrow> n \<noteq> [] \<and> alnum (hd n)"
proof -
  assume "ValidateName n = Inr ()"
  then have n: "n \<noteq> []" "list_all name_part (split_on CHR ''/'' n)"
    by (auto simp: ValidateName_def nameRe_def split: if_splits)
  then obtain c cs where c: "n = c # cs" by (cases n) auto
  then have "\<exists>p ps. split_on CHR ''/'' n = p # ps \<and> (p \<noteq> [] \<longrightarrow> hd p = c)"
    by (cases "split_on CHR ''/'' cs") auto
  then show ?thesis using n c by (auto simp: name_part_def)
qed

definition ran_safely :: "'w brew_state \<Rightarrow> bool" where
  "ran_safely s \<longleftrightarrow> list_all safe_command (bw_ran s)"

lemma run_command_safe:
  "ran_safely s \<Longrightarrow> safe_command args \<Longrightarrow> ran_safely (snd (run_command f args s))"
  by (simp add: run_command_def ran_safely_def split: prod.splits)

lemma family_safe: "ValidateName t = Inr () \<Longrightarrow> in_family t n \<Longrightarrow> n \<noteq> [] \<and> alnum (hd n)"
proof -
  assume t: "ValidateName t = Inr ()" and f: "in_family t n"
  obtain c cs where c: "t = c # cs" "alnum c" using valid_name_start [OF t] by (cases t) auto
  then have "c \<noteq> CHR ''@''" by (auto simp: alnum_def is_digit_def less_eq_char_def)
  then have fam: "family_of t = c # takeWhile (\<lambda>c. c \<noteq> CHR ''@'') cs" using c by (simp add: family_of_def)
  moreover have "n \<noteq> [] \<and> hd n = c" if "has_prefix n (c # xs)" for xs
    using that by (cases n) (auto simp: has_prefix_def)
  ultimately show ?thesis using f c(2) by (auto simp: in_family_def)
qed

lemma unlink_all_safe:
  "ran_safely s \<Longrightarrow> list_all (\<lambda>n. n \<noteq> [] \<and> alnum (hd n)) ns \<Longrightarrow> ran_safely (unlink_all h ns s)"
proof (induction h ns s rule: unlink_all.induct)
  case (2 h n ns s)
  have "ran_safely (snd (run_command (bh_combined h) [''brew'', ''unlink'', n] s))"
    by (rule run_command_safe) (use 2 in \<open>simp_all add: safe_command_def fixed_words_def\<close>)
  then show ?case using 2 by simp
qed simp

lemma serviceStatuses_safe: "ran_safely s \<Longrightarrow> ran_safely (snd (serviceStatuses h s))"
  using run_command_safe [of s "[''brew'', ''services'', ''list'', ''--json'']" "bh_output h"]
  by (auto simp: serviceStatuses_def safe_command_def fixed_words_def split: prod.splits option.splits)

lemma ListInstalled_safe: "ran_safely s \<Longrightarrow> ran_safely (snd (ListInstalled h s))"
proof -
  assume s: "ran_safely s"
  obtain r s1 where r: "serviceStatuses h s = (r, s1)" by fastforce
  then have s1: "ran_safely s1" using serviceStatuses_safe [OF s, of h] by simp
  have "ran_safely (snd (run_command (bh_output h) [''brew'', ''list'', ''--formula'', ''--versions''] s1))"
    by (rule run_command_safe [OF s1]) (simp add: safe_command_def fixed_words_def)
  then show ?thesis using r by (auto simp: ListInstalled_def split: prod.splits option.splits)
qed

lemma on_jobs_state [simp]:
  "bw_ran (snd (on_jobs f s)) = bw_ran s" "bw_active (snd (on_jobs f s)) = bw_active s" "bw_targets (snd (on_jobs f s)) = bw_targets s"
  "bw_logs (snd (on_jobs f s)) = bw_logs s" "bw_db (snd (on_jobs f s)) = snd (f (bw_db s))"
  by (simp_all add: on_jobs_def split: prod.splits)

lemma finish_state [simp]:
  "bw_ran (finish now later i st n m s) = bw_ran s" "bw_active (finish now later i st n m s) = bw_active s"
  "bw_targets (finish now later i st n m s) = bw_targets s"
  by (simp_all add: finish_def on_jobs_def split: prod.splits sum.splits)

lemma open_log_state [simp]: "bw_ran (open_log p s) = bw_ran s" "bw_active (open_log p s) = bw_active s"
  "bw_targets (open_log p s) = bw_targets s" "bw_db (open_log p s) = bw_db s"
  by (simp_all add: open_log_def)

text \<open>What launching changes besides the database and the log.\<close>

lemma launch_cases:
  assumes "runJob_launch c kind target args s = (r, s')"
  shows "(\<exists>e. r = Inl e) \<and> bw_ran s' = bw_ran s \<and> bw_active s' = bw_active s \<and> bw_targets s' = bw_targets s \<or>
    (\<exists>j. r = Inr j) \<and> bw_ran s' = bw_ran s @ [''brew'' # args] \<and> bw_active s' = put_assoc (bc_uuid c) args (bw_active s) \<and>
      bw_targets s' = put_assoc (target_key kind target) (bc_uuid c) (bw_targets s)"
proof (cases "bc_mkdir c")
  case None
  obtain x s1 where x: "on_jobs (job_Create (bc_uuid c) (bc_now c) kind target []) s = (x, s1)" by fastforce
  then have s1: "bw_ran s1 = bw_ran s" "bw_active s1 = bw_active s" "bw_targets s1 = bw_targets s"
    using on_jobs_state(1,2,3) [of "job_Create (bc_uuid c) (bc_now c) kind target []" s] by simp_all
  have "job_ID j = bc_uuid c" if "x = Inr j" for j
    using x that by (auto simp: on_jobs_def job_Create_def split: prod.splits sum.splits)
  then show ?thesis using assms None x s1
    by (cases x) (auto simp: runJob_launch_def Let_def split: option.splits)
qed (use assms in \<open>auto simp: runJob_launch_def\<close>)

lemma runJob_safe:
  assumes "ran_safely s" "kind \<in> set fixed_words"
  shows "ran_safely (snd (runJob c kind n [kind, n] s))"
proof (cases "runJob_check kind n s")
  case (Inr u)
  then have "ValidateName n = Inr ()" by (auto simp: runJob_check_def split: sum.splits)
  then have "n \<noteq> [] \<and> alnum (hd n)" by (rule valid_name_start)
  then have "safe_command [''brew'', kind, n]" using assms(2) by (simp add: safe_command_def) (simp add: fixed_words_def)
  moreover obtain r s' where "runJob_launch c kind n [kind, n] s = (r, s')" by fastforce
  ultimately show ?thesis using Inr assms(1) launch_cases [of c kind n "[kind, n]" s r s'] by (auto simp: runJob_def ran_safely_def)
qed (use assms in \<open>simp add: runJob_def\<close>)

text \<open>C18: whatever name, query or action a request brings, each command that is run consists of this package's own words
  and of arguments that begin with a letter or a digit: none of them can be read as an option.\<close>

theorem no_argument_is_an_option:
  assumes "ran_safely s"
  shows "ran_safely (snd (brew_Search h n s)) \<and> ran_safely (snd (ListInstalled h s)) \<and> ran_safely (snd (ServiceAction h n a s)) \<and>
    ran_safely (snd (brew_SetDefaultVersion h n s)) \<and> ran_safely (snd (brew_Install c n s)) \<and>
    ran_safely (snd (brew_Upgrade c n s)) \<and> ran_safely (snd (brew_Uninstall c n s))"
proof (intro conjI)
  show "ran_safely (snd (brew_Install c n s))" "ran_safely (snd (brew_Upgrade c n s))" "ran_safely (snd (brew_Uninstall c n s))"
    unfolding brew_Install_def brew_Upgrade_def brew_Uninstall_def by (rule runJob_safe [OF assms]; simp add: fixed_words_def)+
  show "ran_safely (snd (ListInstalled h s))" by (rule ListInstalled_safe [OF assms])
  show "ran_safely (snd (brew_Search h n s))"
  proof (cases "ValidateName n")
    case (Inr u)
    then have "n \<noteq> [] \<and> alnum (hd n)" using valid_name_start by simp
    then have "ran_safely (snd (run_command (bh_output h) [''brew'', ''search'', ''--formula'', n] s))"
      by (intro run_command_safe assms) (simp add: safe_command_def fixed_words_def)
    then show ?thesis using Inr by (auto simp: brew_Search_def split: prod.splits option.splits)
  qed (use assms in \<open>simp add: brew_Search_def\<close>)
  show "ran_safely (snd (ServiceAction h n a s))"
  proof (cases "ValidateName n = Inr () \<and> a \<in> {''start'', ''stop'', ''restart''}")
    case True
    then have "n \<noteq> [] \<and> alnum (hd n)" using valid_name_start by simp
    then have "ran_safely (snd (run_command (bh_combined h) [''brew'', ''services'', a, n] s))"
      using True by (intro run_command_safe assms) (auto simp: safe_command_def fixed_words_def)
    then show ?thesis using True by (auto simp: ServiceAction_def split: prod.splits option.splits)
  qed (use assms in \<open>auto simp: ServiceAction_def split: sum.splits\<close>)
  show "ran_safely (snd (brew_SetDefaultVersion h n s))"
  proof (cases "ValidateName n")
    case (Inr u)
    then have v: "ValidateName n = Inr ()" by simp
    obtain r s1 where r: "ListInstalled h s = (r, s1)" by fastforce
    then have s1: "ran_safely s1" using ListInstalled_safe [OF assms, of h] by simp
    define ns where "ns = (case r of Inl _ \<Rightarrow> [] | Inr ps \<Rightarrow> filter (in_family n) (map ip_Name ps))"
    have "list_all (\<lambda>n. n \<noteq> [] \<and> alnum (hd n)) ns"
      using family_safe [OF v] by (auto simp: ns_def list_all_iff split: sum.splits)
    then have u: "ran_safely (unlink_all h ns s1)" by (rule unlink_all_safe [OF s1])
    have "ran_safely (snd (run_command (bh_combined h) [''brew'', ''link'', ''--overwrite'', ''--force'', n] (unlink_all h ns s1)))"
      using valid_name_start [OF v] by (intro run_command_safe u) (simp add: safe_command_def fixed_words_def)
    then show ?thesis using v r by (auto simp: brew_SetDefaultVersion_def ns_def [symmetric] Let_def split: prod.splits option.splits)
  qed (use assms in \<open>simp add: brew_SetDefaultVersion_def\<close>)
qed

section \<open>One process per target, as long as requests do not overlap\<close>

definition package_verbs :: "string list" where "package_verbs = [''install'', ''upgrade'', ''uninstall'']"

text \<open>Requests one after another, with the ends of processes and cancellations between them.\<close>

inductive brew_reach :: "'w brew_state \<Rightarrow> bool" where
  start: "brew_reach \<lparr> bw_machine = w, bw_ran = [], bw_db = d, bw_active = [], bw_targets = [], bw_logs = l, bw_killed = [] \<rparr>"
| run: "brew_reach s \<Longrightarrow> kind \<in> set package_verbs \<Longrightarrow> bc_uuid c \<notin> fst ` set (bw_active s) \<Longrightarrow>
    brew_reach (snd (runJob c kind n [kind, n] s))"
| ends: "brew_reach s \<Longrightarrow> (key, i) \<in> set (bw_targets s) \<Longrightarrow> brew_reach (complete c i key out err ex s)"
| cancel: "brew_reach s \<Longrightarrow> brew_reach (snd (brew_Cancel c i s))"
| other: "brew_reach s \<Longrightarrow> bw_active s' = bw_active s \<Longrightarrow> bw_targets s' = bw_targets s \<Longrightarrow> brew_reach s'"

definition key_of :: "string \<times> string list \<Rightarrow> string \<times> string" where
  "key_of a = (target_key (hd (snd a)) (hd (tl (snd a))), fst a)"

definition jobs_ok :: "'w brew_state \<Rightarrow> bool" where
  "jobs_ok s \<longleftrightarrow> bw_targets s = map key_of (bw_active s) \<and> distinct (map fst (bw_active s)) \<and> distinct (map (fst \<circ> key_of) (bw_active s)) \<and>
     (\<forall>(i, args) \<in> set (bw_active s). \<exists>kind n. kind \<in> set package_verbs \<and> args = [kind, n])"

lemma drop_assoc_other [simp]: "k \<notin> fst ` set m \<Longrightarrow> drop_assoc k m = m"
  by (induction m) (auto simp: drop_assoc_def)

lemma put_assoc_new: "k \<notin> fst ` set m \<Longrightarrow> put_assoc k v m = (k, v) # m"
  using drop_assoc_other [of k m] by (simp add: put_assoc_def drop_assoc_def)

lemma complete_state:
  "bw_active (complete c i key out err ex s) = drop_assoc i (bw_active s)"
  "bw_targets (complete c i key out err ex s) = drop_assoc key (bw_targets s)"
  by (simp_all add: complete_def Let_def pipeLogs_def split: prod.splits)

lemma brew_reach_ok: "brew_reach s \<Longrightarrow> jobs_ok s"
proof (induction rule: brew_reach.induct)
  case (run s kind c n)
  show ?case
  proof (cases "runJob_check kind n s")
    case (Inr u)
    then have free: "target_key kind n \<notin> fst ` set (bw_targets s)"
      by (auto simp: runJob_check_def split: sum.splits option.splits dest: map_of_eq_None_iff [THEN iffD1])
    obtain r s' where l: "runJob_launch c kind n [kind, n] s = (r, s')" by fastforce
    have k: "key_of (bc_uuid c, [kind, n]) = (target_key kind n, bc_uuid c)" by (simp add: key_of_def)
    have "jobs_ok s'"
      using launch_cases [OF l]
    proof (elim disjE conjE)
      assume "bw_active s' = bw_active s" "bw_targets s' = bw_targets s"
      then show ?thesis using run.IH by (simp add: jobs_ok_def)
    next
      assume "bw_active s' = put_assoc (bc_uuid c) [kind, n] (bw_active s)" "bw_targets s' = put_assoc (target_key kind n) (bc_uuid c) (bw_targets s)"
      then have "bw_active s' = (bc_uuid c, [kind, n]) # bw_active s" "bw_targets s' = (target_key kind n, bc_uuid c) # bw_targets s"
        using put_assoc_new [OF free] put_assoc_new [OF run.hyps(3)] by simp_all
      moreover have "target_key kind n \<notin> fst ` key_of ` set (bw_active s)" using free run.IH by (simp add: jobs_ok_def)
      ultimately show ?thesis using run.hyps(2,3) run.IH k by (simp add: jobs_ok_def image_comp)
    qed
    then show ?thesis using Inr l by (simp add: runJob_def)
  qed (use run in \<open>simp add: runJob_def\<close>)
next
  case (ends s key i c out err ex)
  then have ok: "jobs_ok s" by simp
  have "drop_assoc key (map key_of as) = map key_of (drop_assoc i as)"
    if "distinct (map fst as)" "distinct (map (fst \<circ> key_of) as)" "(key, i) \<in> set (map key_of as)" for as
  proof -
    have "fst (key_of a) = key \<longleftrightarrow> fst a = i" if a: "a \<in> set as" for a
    proof -
      obtain b where b: "b \<in> set as" "key_of b = (key, i)" using \<open>(key, i) \<in> set (map key_of as)\<close> by auto
      have i1: "inj_on fst (set as)" and i2: "inj_on (fst \<circ> key_of) (set as)"
        using \<open>distinct (map fst as)\<close> \<open>distinct (map (fst \<circ> key_of) as)\<close> by (simp_all add: distinct_map)
      have "fst b = i" using b(2) by (auto simp: key_of_def)
      then show ?thesis using inj_onD [OF i1, of a b] inj_onD [OF i2, of a b] a b by auto
    qed
    then show ?thesis by (auto simp: drop_assoc_def filter_map case_prod_unfold intro!: arg_cong [where f = "map key_of"] filter_cong)
  qed
  then show ?case using ok ends(2) unfolding jobs_ok_def complete_state
    by (auto simp: drop_assoc_def distinct_map_filter simp del: map_map)
next
  case (cancel s c i)
  then show ?case by (auto simp: brew_Cancel_def jobs_ok_def split: option.splits)
qed (simp_all add: jobs_ok_def)

text \<open>requests that do not overlap never have two processes running the same command, and a request for a target that
  is busy is refused, with nothing changed.\<close>

theorem one_process_per_target:
  assumes "brew_reach s"
  shows "distinct (map snd (bw_active s)) \<and>
    ((i, [kind, n]) \<in> set (bw_active s) \<and> ValidateName n = Inr () \<longrightarrow>
       (\<exists>j. runJob c kind n [kind, n] s = (Inl (AlreadyRunning kind n j), s)))"
proof -
  have ok: "jobs_ok s" by (rule brew_reach_ok [OF assms])
  have "distinct (map (fst \<circ> key_of) (bw_active s))" using ok by (simp add: jobs_ok_def)
  then have "distinct (map ((\<lambda>args. target_key (hd args) (hd (tl args))) \<circ> snd) (bw_active s))"
    by (simp add: key_of_def comp_def)
  then have "distinct (map snd (bw_active s))" by (metis distinct_map map_map)
  moreover have "\<exists>j. runJob c kind n [kind, n] s = (Inl (AlreadyRunning kind n j), s)"
    if "(i, [kind, n]) \<in> set (bw_active s)" "ValidateName n = Inr ()"
  proof -
    have "key_of (i, [kind, n]) \<in> set (bw_targets s)" using ok that(1) unfolding jobs_ok_def by auto
    then have "(target_key kind n, i) \<in> set (bw_targets s)" by (simp add: key_of_def)
    then obtain j where "map_of (bw_targets s) (target_key kind n) = Some j" by (metis weak_map_of_SomeI)
    then show ?thesis using that(2) by (simp add: runJob_def runJob_check_def)
  qed
  ultimately show ?thesis by blast
qed

section \<open>Requests that overlap\<close>

definition demo_brew_call :: "string \<Rightarrow> brew_call" where
  "demo_brew_call i = \<lparr> bc_uuid = i, bc_now = 0, bc_logdir = ''/jobs'', bc_mkdir = None, bc_openlog = None, bc_start = None, bc_kill = None \<rparr>"

definition demo_brew :: "unit brew_state" where
  "demo_brew = \<lparr> bw_machine = (), bw_ran = [], bw_db = \<lparr> tables = (\<lambda>_. []), faults = [] \<rparr>, bw_active = [], bw_targets = [],
     bw_logs = [], bw_killed = [] \<rparr>"

definition demo_launch :: "string \<Rightarrow> unit brew_state \<Rightarrow> unit brew_state" where
  "demo_launch i s = snd (runJob_launch (demo_brew_call i) ''install'' ''php'' [''install'', ''php''] s)"

definition demo_ended :: "unit brew_state \<Rightarrow> unit brew_state" where
  "demo_ended s = complete (demo_brew_call ''j1'') ''j1'' (target_key ''install'' ''php'') [] [] (ExitCode 0 []) s"

text \<open>two requests to install the same formula that overlap both find the target free and both start it, although the
  comment on \<open>runJob\<close> says that the second is refused; and when one of the two ends, a third is accepted while the
  other still runs.\<close>

theorem overlapping_installs_both_run:
  "runJob_check ''install'' ''php'' demo_brew = Inr () \<and>
   bw_active (demo_launch ''j2'' (demo_launch ''j1'' demo_brew)) = [(''j2'', [''install'', ''php'']), (''j1'', [''install'', ''php''])] \<and>
   bw_active (demo_ended (demo_launch ''j2'' (demo_launch ''j1'' demo_brew))) = [(''j2'', [''install'', ''php''])] \<and>
   runJob_check ''install'' ''php'' (demo_ended (demo_launch ''j2'' (demo_launch ''j1'' demo_brew))) = Inr ()"
  unfolding demo_ended_def runJob_check_def complete_state by (intro conjI; code_simp)

section \<open>The end of a job\<close>

lemma job_done_cols:
  "row_not_null ''jobs'' r \<Longrightarrow> row_not_null ''jobs'' (set_cols [(''status'', Text st), (''exit_code'', Num n), (''error'', nullable m),
     (''finished_at'', rfc3339 now)] r)"
  by (simp add: row_not_null_def not_null_cols_def required_cols_def column_defaults_def set_cols_def rfc3339_def)

lemma job_Finish_done:
  assumes "faults d = []" "db_ok d"
  shows "\<exists>d'. job_Finish now i st n m d = (Inr (), d') \<and> tables d' ''jobs'' = map (\<lambda>r. if by_id i r then set_cols [(''status'', Text st),
    (''exit_code'', Num n), (''error'', nullable m), (''finished_at'', rfc3339 now)] r else r) (tables d ''jobs'')"
  using job_update_nofault [OF assms, of "[(''status'', Text st), (''exit_code'', Num n), (''error'', nullable m), (''finished_at'', rfc3339 now)]" "by_id i"]
    job_done_cols by (simp add: job_Finish_def)

text \<open>C36: when the process of a job ends, the job is recorded as succeeded exactly when the exit code is 0, as canceled
  when a signal ended it and as failed otherwise, even when the first attempt to write it down fails; it is not
  registered any more.\<close>

theorem ended_jobs_are_recorded:
  assumes "faults (bw_db s) = [] \<or> faults (bw_db s) = [Some m]" "db_ok (bw_db s)"
    and "r \<in> set (tables (bw_db s) ''jobs'')" "by_id i r"
  shows "let s' = complete c i key out err ex s in
    (\<exists>r' \<in> set (tables (bw_db s') ''jobs''). by_id i r' \<and>
       r' ''status'' = Text (case ex of ExitCode n _ \<Rightarrow> if n = 0 then JobSuccess else JobFailed | Signaled _ \<Rightarrow> JobCanceled | WaitError _ \<Rightarrow> JobFailed)) \<and>
    i \<notin> fst ` set (bw_active s') \<and> key \<notin> fst ` set (bw_targets s')"
proof -
  obtain st n msg where x: "exit_status ex = (st, n, msg)" by (metis surj_pair)
  let ?c = "set_cols [(''status'', Text st), (''exit_code'', Num n), (''error'', nullable msg), (''finished_at'', rfc3339 (bc_now c))]"
  define s2 where "s2 = (let s1 = pipeLogs (job_log_path (c\<lparr> bc_uuid := i \<rparr>)) err (pipeLogs (job_log_path (c\<lparr> bc_uuid := i \<rparr>)) out s)
    in s1\<lparr> bw_active := drop_assoc i (bw_active s1), bw_targets := drop_assoc key (bw_targets s1) \<rparr>)"
  have s2: "bw_db s2 = bw_db s" by (simp add: s2_def Let_def pipeLogs_def)
  have e: "complete c i key out err ex s = finish (bc_now c) (bc_now c) i st n msg s2"
    by (simp add: complete_def s2_def Let_def x)
  have "tables (bw_db (finish (bc_now c) (bc_now c) i st n msg s2)) ''jobs'' = map (\<lambda>r. if by_id i r then ?c r else r) (tables (bw_db s) ''jobs'')"
    using assms(1)
  proof
    assume "faults (bw_db s) = []"
    from job_Finish_done [OF this assms(2), of "bc_now c" i st n msg] show ?thesis using s2 by (auto simp: finish_def on_jobs_def)
  next
    assume f: "faults (bw_db s) = [Some m]"
    let ?d = "(bw_db s)\<lparr> faults := [] \<rparr>"
    have "job_Finish (bc_now c) i st n msg (bw_db s) = (Inl (JobSql (DriverErr m)), ?d)"
      using f by (simp add: job_Finish_def sql_update_def tick_def go_bind_def)
    moreover have "faults ?d = []" "db_ok ?d" using assms(2) by (simp_all add: db_ok_def row_references_def)
    ultimately show ?thesis using job_Finish_done [of ?d "bc_now c" i st n msg] s2 by (auto simp: finish_def on_jobs_def)
  qed
  moreover have "by_id i (?c r)" "?c r ''status'' = Text st" using assms(4) by (simp_all add: by_id_def set_cols_def)
  ultimately have "\<exists>r' \<in> set (tables (bw_db (complete c i key out err ex s)) ''jobs''). by_id i r' \<and> r' ''status'' = Text st"
    using assms(3,4) unfolding e by (intro bexI [of _ "?c r"]) (auto intro!: image_eqI [of _ _ r])
  moreover have "st = (case ex of ExitCode n _ \<Rightarrow> if n = 0 then JobSuccess else JobFailed | Signaled _ \<Rightarrow> JobCanceled | WaitError _ \<Rightarrow> JobFailed)"
    using x by (cases ex) (auto split: if_splits)
  moreover have "i \<notin> fst ` set (drop_assoc i (bw_active s))" "key \<notin> fst ` set (drop_assoc key (bw_targets s))"
    by (auto simp: drop_assoc_def)
  ultimately show ?thesis by (simp add: Let_def complete_state)
qed

text \<open>when the log file of a new job cannot be opened the request is refused, but the job it created stays recorded as
  running with no process behind it, so it cannot be cancelled either.\<close>

theorem unopened_log_leaves_a_running_job:
  assumes "faults (bw_db s) = []" "db_ok (bw_db s)" "\<not> (\<exists>r \<in> set (tables (bw_db s) ''jobs''). by_id (bc_uuid c) r)"
    and "runJob_check kind n s = Inr ()" "bc_mkdir c = None" "bc_openlog c = Some m" "map_of (bw_active s) (bc_uuid c) = None"
  shows "\<exists>s' r. runJob c kind n args s = (Inl (OpenLogFile m), s') \<and> r \<in> set (tables (bw_db s') ''jobs'') \<and> by_id (bc_uuid c) r \<and>
    r ''status'' = Text JobRunning \<and> brew_Cancel c (bc_uuid c) s' = (Inl (NotRunning (bc_uuid c)), s')"
proof -
  let ?cols = "[(''id'', Text (bc_uuid c)), (''kind'', Text kind), (''target'', Text n), (''status'', Text JobRunning), (''log_file'', Text []),
    (''started_at'', rfc3339 (bc_now c))]"
  let ?r = "make_row ''jobs'' ?cols"
  have r: "row_not_null ''jobs'' ?r" "?r ''id'' = Text (bc_uuid c)" "row_references (bw_db s) ''jobs'' ?r" "unique_cols ''jobs'' = [''id'']"
    by (auto simp: row_not_null_def not_null_cols_def required_cols_def column_defaults_def make_row_def rfc3339_def row_references_def
        foreign_keys_def unique_cols_def)
  have i: "sql_insert ''jobs'' ?cols (bw_db s) = (Inr (), with_table ''jobs'' (tables (bw_db s) ''jobs'' @ [?r]) (bw_db s))"
    by (rule insert_fresh [OF assms(1) r(4) refl r(2) assms(3) r(1,3)])
  obtain j s1 where j: "on_jobs (job_Create (bc_uuid c) (bc_now c) kind n []) s = (Inr j, s1)" "job_ID j = bc_uuid c"
    "bw_db s1 = with_table ''jobs'' (tables (bw_db s) ''jobs'' @ [?r]) (bw_db s)" "bw_active s1 = bw_active s"
    using i by (auto simp: on_jobs_def job_Create_def)
  define s2 where "s2 = snd (on_jobs (job_SetLogFile (bc_uuid c) (job_log_path c)) s1)"
  have run: "runJob c kind n args s = (Inl (OpenLogFile m), s2)"
    using assms(4-6) j by (simp add: runJob_def runJob_launch_def Let_def s2_def)
  have "\<exists>r \<in> set (tables (bw_db s2) ''jobs''). by_id (bc_uuid c) r \<and> r ''status'' = Text JobRunning"
  proof -
    have st: "?r ''status'' = Text JobRunning" "set_cols [(''log_file'', x)] ?r ''status'' = Text JobRunning"
      "set_cols [(''log_file'', x)] ?r ''id'' = Text (bc_uuid c)" for x
      by (simp_all add: make_row_def set_cols_def)
    have db: "bw_db s2 = snd (job_SetLogFile (bc_uuid c) (job_log_path c) (bw_db s1))" by (simp add: s2_def)
    have m: "?r \<in> set (tables (bw_db s1) ''jobs'')" "by_id (bc_uuid c) ?r" using r(2) by (simp_all add: j(3) by_id_def)
    have set_cases: "tables (snd (job_SetLogFile i p d)) ''jobs'' = tables d ''jobs'' \<or>
        tables (snd (job_SetLogFile i p d)) ''jobs'' = map (\<lambda>r. if by_id i r then set_cols [(''log_file'', Text p)] r else r) (tables d ''jobs'')" for i p d
      by (cases d rule: tick_cases) (auto simp: job_SetLogFile_def sql_update_def go_bind_def raw_update_def Let_def split: if_splits)
    have "?r \<in> set (tables (bw_db s2) ''jobs'') \<or> set_cols [(''log_file'', Text (job_log_path c))] ?r \<in> set (tables (bw_db s2) ''jobs'')"
      using set_cases [of "bc_uuid c" "job_log_path c" "bw_db s1"] unfolding db [symmetric]
    proof
      assume t: "tables (bw_db s2) ''jobs'' = map (\<lambda>r. if by_id (bc_uuid c) r then set_cols [(''log_file'', Text (job_log_path c))] r else r) (tables (bw_db s1) ''jobs'')"
      show ?thesis unfolding t set_map by (rule disjI2, rule image_eqI [OF _ m(1)]) (simp only: m(2) if_True)
    qed (use m in simp)
    then show ?thesis using st r(2) unfolding by_id_def by blast
  qed
  moreover have "brew_Cancel c (bc_uuid c) s2 = (Inl (NotRunning (bc_uuid c)), s2)"
    using assms(7) j(4) by (simp add: brew_Cancel_def s2_def)
  ultimately show ?thesis using run by blast
qed

text \<open>a switch of the default version that fails leaves every other installed version of the family unlinked: the
  commands that were run are the two listings, the unlinking of those versions and the link that failed.\<close>

theorem failed_switch_unlinks_the_family:
  assumes "brew_SetDefaultVersion h target s = (Inl e, s')" "ValidateName target = Inr ()"
    and "ListInstalled h s = (Inr ps, s1)"
  shows "bw_ran s' = bw_ran s1 @ map (\<lambda>n. [''brew'', ''unlink'', n]) (filter (in_family target) (map ip_Name ps)) @
    [[''brew'', ''link'', ''--overwrite'', ''--force'', target]]"
proof -
  have ran: "bw_ran (snd (run_command f args t)) = bw_ran t @ [args]" for f args and t :: "'a brew_state"
    by (simp add: run_command_def split: prod.splits)
  have "bw_ran (unlink_all h ns t) = bw_ran t @ map (\<lambda>n. [''brew'', ''unlink'', n]) ns" for ns t
    by (induction h ns t rule: unlink_all.induct) (simp_all add: ran)
  moreover have "s' = snd (run_command (bh_combined h) [''brew'', ''link'', ''--overwrite'', ''--force'', target]
      (unlink_all h (filter (in_family target) (map ip_Name ps)) s1))"
    using assms by (auto simp: brew_SetDefaultVersion_def Let_def split: prod.splits option.splits)
  ultimately show ?thesis by (simp add: ran)
qed

section \<open>The properties at concrete inputs\<close>

theorem no_argument_is_an_option_witness:
  "ran_safely (snd (brew_Install (demo_brew_call ''j1'') ''--all'' demo_brew)) \<and>
   fst (brew_Install (demo_brew_call ''j1'') ''--all'' demo_brew) = Inl (InvalidName ''--all'')"
proof -
  have "ran_safely demo_brew" by (simp add: ran_safely_def demo_brew_def)
  from no_argument_is_an_option [OF this] have "ran_safely (snd (brew_Install (demo_brew_call ''j1'') ''--all'' demo_brew))" by blast
  moreover have "fst (brew_Install (demo_brew_call ''j1'') ''--all'' demo_brew) = Inl (InvalidName ''--all'')" by code_simp
  ultimately show ?thesis by blast
qed

theorem one_process_per_target_witness:
  "\<exists>j. runJob (demo_brew_call ''j2'') ''install'' ''php'' [''install'', ''php''] (demo_launch ''j1'' demo_brew) =
     (Inl (AlreadyRunning ''install'' ''php'' j), demo_launch ''j1'' demo_brew)"
proof -
  have "brew_reach demo_brew" unfolding demo_brew_def by (rule start)
  then have "brew_reach (snd (runJob (demo_brew_call ''j1'') ''install'' ''php'' [''install'', ''php''] demo_brew))"
    by (rule run) (simp_all add: package_verbs_def demo_brew_def)
  moreover have c: "runJob_check ''install'' ''php'' demo_brew = Inr ()" by code_simp
  ultimately have r: "brew_reach (demo_launch ''j1'' demo_brew)" by (simp add: runJob_def demo_launch_def)
  have a: "bw_active (demo_launch ''j1'' demo_brew) = [(''j1'', [''install'', ''php''])]" "ValidateName ''php'' = Inr ()" by code_simp+
  show ?thesis using one_process_per_target [OF r, of "''j1''" "''install''" "''php''" "demo_brew_call ''j2''"] a by simp
qed

definition demo_job_row :: row where
  "demo_job_row = make_row ''jobs'' [(''id'', Text ''j1''), (''kind'', Text ''install''), (''target'', Text ''php''), (''status'', Text JobRunning),
     (''log_file'', Text []), (''started_at'', rfc3339 0)]"

definition demo_busy :: "unit brew_state" where
  "demo_busy = demo_brew\<lparr> bw_db := \<lparr> tables = (\<lambda>_. [])(''jobs'' := [demo_job_row]), faults = [Some ''database is locked''] \<rparr> \<rparr>"

lemma demo_busy_ok: "db_ok (bw_db demo_busy)" "by_id ''j1'' demo_job_row" "db_ok (bw_db demo_brew)"
  by (auto simp: demo_busy_def demo_brew_def db_ok_def schema_tables_def demo_job_row_def row_not_null_def not_null_cols_def required_cols_def
      column_defaults_def make_row_def rfc3339_def row_references_def foreign_keys_def by_id_def)

theorem ended_jobs_are_recorded_witness:
  "\<exists>r \<in> set (tables (bw_db (complete (demo_brew_call ''j1'') ''j1'' [] [] [] (Signaled ''signal: killed'') demo_busy)) ''jobs'').
     by_id ''j1'' r \<and> r ''status'' = Text JobCanceled"
proof -
  have "faults (bw_db demo_busy) = [] \<or> faults (bw_db demo_busy) = [Some ''database is locked'']"
    "demo_job_row \<in> set (tables (bw_db demo_busy) ''jobs'')" by (simp_all add: demo_busy_def)
  from ended_jobs_are_recorded [OF this(1) demo_busy_ok(1) this(2) demo_busy_ok(2),
      where c = "demo_brew_call ''j1''" and key = "[]" and out = "[]" and err = "[]" and ex = "Signaled ''signal: killed''"]
  show ?thesis by (simp add: Let_def)
qed

theorem unopened_log_leaves_a_running_job_witness:
  "\<exists>s'. runJob ((demo_brew_call ''j1'')\<lparr> bc_openlog := Some ''permission denied'' \<rparr>) ''install'' ''php'' [] demo_brew =
     (Inl (OpenLogFile ''permission denied''), s')"
proof -
  let ?c = "(demo_brew_call ''j1'')\<lparr> bc_openlog := Some ''permission denied'' \<rparr>"
  have 1: "faults (bw_db demo_brew) = []" "\<not> (\<exists>r \<in> set (tables (bw_db demo_brew) ''jobs''). by_id (bc_uuid ?c) r)"
    "bc_mkdir ?c = None" "bc_openlog ?c = Some ''permission denied''" "map_of (bw_active demo_brew) (bc_uuid ?c) = None"
    by (simp_all add: demo_brew_def demo_brew_call_def)
  have 2: "runJob_check ''install'' ''php'' demo_brew = Inr ()" by code_simp
  from unopened_log_leaves_a_running_job [OF 1(1) demo_busy_ok(3) 1(2) 2 1(3,4,5)] show ?thesis by blast
qed

definition demo_brew_host :: "unit brew_host" where
  "demo_brew_host = \<lparr> bh_has_brew = (\<lambda>_. True),
     bh_output = (\<lambda>args w. ((if args ! 1 = ''list'' then ''php@8.2 8.2.1'' else [], None), w)),
     bh_combined = (\<lambda>args w. (([], if args ! 1 = ''link'' then Some ''exit status 1'' else None), w)), bh_json = (\<lambda>_. Some []) \<rparr>"

theorem failed_switch_unlinks_the_family_witness:
  "\<exists>s'. snd (brew_SetDefaultVersion demo_brew_host ''php@8.3'' demo_brew) = s' \<and>
     [''brew'', ''unlink'', ''php@8.2''] \<in> set (bw_ran s') \<and> fst (brew_SetDefaultVersion demo_brew_host ''php@8.3'' demo_brew) \<noteq> Inr ()"
proof -
  have "(case brew_SetDefaultVersion demo_brew_host ''php@8.3'' demo_brew of (Inl e, _) \<Rightarrow> True | _ \<Rightarrow> False)"
    "(case ListInstalled demo_brew_host demo_brew of (Inr ps, _) \<Rightarrow> map ip_Name ps = [''php@8.2''] | _ \<Rightarrow> False)" by code_simp+
  then obtain e s' ps s1 where r: "brew_SetDefaultVersion demo_brew_host ''php@8.3'' demo_brew = (Inl e, s')"
    "ListInstalled demo_brew_host demo_brew = (Inr ps, s1)" "map ip_Name ps = [''php@8.2'']"
    by (auto split: prod.splits sum.splits)
  have v: "ValidateName ''php@8.3'' = Inr ()" "in_family ''php@8.3'' ''php@8.2''" by code_simp+
  from failed_switch_unlinks_the_family [OF r(1) v(1) r(2)] show ?thesis using r v(2) by simp
qed

end
