(* ===== verification/PackageHandlers.thy ===== *)
theory PackageHandlers
  imports Handlers Brew
begin

text \<open>
  The handlers of \<open>internal/api/v1/packages.go\<close>.  The provider and the panel share the database: the provider's copy is
  set from the panel's before each of its operations, and written back after it.
\<close>

record 'w package_site =
  pk_panel :: panel
  pk_brew :: "'w brew_state option"
  pk_jobs :: bool

record 'w package_call =
  pc_call :: call
  pc_host :: "'w brew_host"
  pc_brew :: brew_call

datatype package_error =
    PackageMessage string
  | PackageBrew brew_error
  | PackageJob job_error

type_synonym ('w, 'a) package_handler = "'w package_site \<Rightarrow> (nat \<times> (package_error + 'a)) \<times> 'w package_site"

definition packagesUnavailable :: "nat \<times> (package_error + 'a)" where
  "packagesUnavailable =
     (503, Inl (PackageMessage ''Homebrew isn't available on this machine -- install it from https://brew.sh, then retry''))"

definition on_brew :: "('w brew_state \<Rightarrow> (brew_error + 'a) \<times> 'w brew_state) \<Rightarrow> 'w brew_state \<Rightarrow> 'w package_site \<Rightarrow>
    (brew_error + 'a) \<times> 'w package_site" where
  "on_brew f b s =
     (case f (b\<lparr> bw_db := panel_db (pk_panel s) \<rparr>) of
        (r, b') \<Rightarrow> (r, s\<lparr> pk_panel := set_db (bw_db b') (pk_panel s), pk_brew := Some b' \<rparr>))"

definition audit_package :: "'w package_call \<Rightarrow> string \<Rightarrow> string \<Rightarrow> string \<Rightarrow> string \<Rightarrow> 'w package_site \<Rightarrow> 'w package_site" where
  "audit_package k action targetType targetID result s =
     s\<lparr> pk_panel := audit (pc_call k) action targetType targetID result (pk_panel s) \<rparr>"

text \<open>The provider of a request, when there is one and its command is on the search path.\<close>

definition usable :: "'w package_call \<Rightarrow> 'w package_site \<Rightarrow> 'w brew_state option" where
  "usable k s = (case pk_brew s of None \<Rightarrow> None | Some b \<Rightarrow> if Available (pc_host k) b then Some b else None)"

definition listInstalledPackages :: "'w package_call \<Rightarrow> ('w, installed_package list) package_handler" where
  "listInstalledPackages k s =
     (case usable k s of
        None \<Rightarrow> (packagesUnavailable, s)
      | Some b \<Rightarrow>
         (case on_brew (ListInstalled (pc_host k)) b s of
            (Inl e, s1) \<Rightarrow> ((500, Inl (PackageBrew e)), s1) | (Inr ps, s1) \<Rightarrow> ((200, Inr ps), s1)))"

definition searchPackages :: "'w package_call \<Rightarrow> string \<Rightarrow> ('w, string list) package_handler" where
  "searchPackages k q s =
     (case usable k s of
        None \<Rightarrow> (packagesUnavailable, s)
      | Some b \<Rightarrow>
         (if q = [] then ((400, Inl (PackageMessage ''q must not be empty'')), s)
          else (case on_brew (brew_Search (pc_host k) q) b s of
                  (Inl e, s1) \<Rightarrow> ((400, Inl (PackageBrew e)), s1) | (Inr ps, s1) \<Rightarrow> ((200, Inr ps), s1))))"

text \<open>What the handlers that act on one package share: the operation, its record, and the status of success.\<close>

definition act_on_package ::
  "'w package_call \<Rightarrow> nat \<Rightarrow> string \<Rightarrow> string \<Rightarrow> ('w brew_state \<Rightarrow> (brew_error + 'a) \<times> 'w brew_state) \<Rightarrow> 'w brew_state \<Rightarrow>
    ('w, 'a) package_handler" where
  "act_on_package k success action target f b s =
     (case on_brew f b s of
        (r, s1) \<Rightarrow>
         ((case r of Inl e \<Rightarrow> (400, Inl (PackageBrew e)) | Inr a \<Rightarrow> (success, Inr a)),
          audit_package k action ''package'' target (resultOf r) s1))"

definition installPackage :: "'w package_call \<Rightarrow> string + string \<Rightarrow> ('w, job) package_handler" where
  "installPackage k body s =
     (case usable k s of
        None \<Rightarrow> (packagesUnavailable, s)
      | Some b \<Rightarrow>
         (case body of
            Inl msg \<Rightarrow> ((400, Inl (PackageMessage msg)), s)
          | Inr name \<Rightarrow> act_on_package k 202 ''package.install'' name (brew_Install (pc_brew k) name) b s))"

definition upgradePackage :: "'w package_call \<Rightarrow> string + string \<Rightarrow> ('w, job) package_handler" where
  "upgradePackage k body s =
     (case usable k s of
        None \<Rightarrow> (packagesUnavailable, s)
      | Some b \<Rightarrow>
         (case body of
            Inl msg \<Rightarrow> ((400, Inl (PackageMessage msg)), s)
          | Inr name \<Rightarrow> act_on_package k 202 ''package.upgrade'' name (brew_Upgrade (pc_brew k) name) b s))"

definition uninstallPackage :: "'w package_call \<Rightarrow> string \<Rightarrow> string + string \<Rightarrow> ('w, job) package_handler" where
  "uninstallPackage k confirm body s =
     (case usable k s of
        None \<Rightarrow> (packagesUnavailable, s)
      | Some b \<Rightarrow>
         (if confirm \<noteq> ''true'' then ((400, Inl (PackageMessage ''uninstall requires confirm=true'')), s)
          else (case body of
            Inl msg \<Rightarrow> ((400, Inl (PackageMessage msg)), s)
          | Inr name \<Rightarrow> act_on_package k 202 ''package.uninstall'' name (brew_Uninstall (pc_brew k) name) b s)))"

definition packageServiceAction :: "'w package_call \<Rightarrow> string + string \<times> string \<Rightarrow> ('w, unit) package_handler" where
  "packageServiceAction k body s =
     (case usable k s of
        None \<Rightarrow> (packagesUnavailable, s)
      | Some b \<Rightarrow>
         (case body of
            Inl msg \<Rightarrow> ((400, Inl (PackageMessage msg)), s)
          | Inr (name, action) \<Rightarrow>
              act_on_package k 200 (''package.service.'' @ action) name (ServiceAction (pc_host k) name action) b s))"

definition setDefaultPackageVersion :: "'w package_call \<Rightarrow> string + string \<Rightarrow> ('w, unit) package_handler" where
  "setDefaultPackageVersion k body s =
     (case usable k s of
        None \<Rightarrow> (packagesUnavailable, s)
      | Some b \<Rightarrow>
         (case body of
            Inl msg \<Rightarrow> ((400, Inl (PackageMessage msg)), s)
          | Inr target \<Rightarrow> act_on_package k 200 ''package.setDefault'' target (brew_SetDefaultVersion (pc_host k) target) b s))"

definition on_panel_db :: "(db \<Rightarrow> 'a \<times> db) \<Rightarrow> 'w package_site \<Rightarrow> 'a \<times> 'w package_site" where
  "on_panel_db f s = (case on_db f (pk_panel s) of (r, p) \<Rightarrow> (r, s\<lparr> pk_panel := p \<rparr>))"

definition listJobs :: "('w, job list) package_handler" where
  "listJobs s =
     (if \<not> pk_jobs s then ((200, Inr []), s)
      else (case on_panel_db job_List s of (Inl e, s1) \<Rightarrow> ((500, Inl (PackageJob e)), s1) | (Inr js, s1) \<Rightarrow> ((200, Inr js), s1)))"

definition job_missing :: "nat \<times> (package_error + 'a)" where
  "job_missing = (404, Inl (PackageMessage ''job not found''))"

definition getJob :: "string \<Rightarrow> ('w, job) package_handler" where
  "getJob i s =
     (if \<not> pk_jobs s then (job_missing, s)
      else (case on_panel_db (job_Get i) s of
              (Inl e, s1) \<Rightarrow> (if e = JobNotFound then job_missing else (500, Inl (PackageJob e)), s1)
            | (Inr j, s1) \<Rightarrow> ((200, Inr j), s1)))"

text \<open>The log files are the ones the provider writes.\<close>

definition getJobLog :: "string \<Rightarrow> ('w, string) package_handler" where
  "getJobLog i s =
     (case getJob i s of
        ((c, Inl e), s1) \<Rightarrow> ((c, Inl e), s1)
      | ((c, Inr j), s1) \<Rightarrow>
         (if job_LogFile j = [] then ((200, Inr []), s1)
          else (case (case pk_brew s1 of None \<Rightarrow> None | Some b \<Rightarrow> map_of (bw_logs b) (job_LogFile j)) of
                  None \<Rightarrow> ((500, Inl (PackageMessage (''open '' @ job_LogFile j @ '': no such file or directory''))), s1)
                | Some l \<Rightarrow> ((200, Inr l), s1))))"

definition cancelJob :: "'w package_call \<Rightarrow> string \<Rightarrow> ('w, unit) package_handler" where
  "cancelJob k i s =
     (case pk_brew s of
        None \<Rightarrow> ((503, Inl (PackageMessage ''package management is not available'')), s)
      | Some b \<Rightarrow>
         (case on_brew (brew_Cancel (pc_brew k) i) b s of
            (r, s1) \<Rightarrow>
             ((case r of Inl e \<Rightarrow> (400, Inl (PackageBrew e)) | Inr _ \<Rightarrow> (200, Inr ())),
              audit_package k ''job.cancel'' ''job'' i (resultOf r) s1)))"

section \<open>Properties\<close>

text \<open>an installation that was accepted can be asked for at once: its job is found running under the id that was
  answered, for the package that was named, and its log, which is empty so far.\<close>

theorem accepted_install_can_be_followed:
  assumes "installPackage k (Inr name) s = ((202, Inr j), s1)" "faults (panel_db (pk_panel s)) = []" "db_ok (panel_db (pk_panel s))"
    and "pk_jobs s" "pk_brew s = Some b" "map_of (bw_logs b) (job_log_path (pc_brew k)) = None"
    and "\<not> (\<exists>r \<in> set (tables (panel_db (pk_panel s)) ''jobs''). by_id (bc_uuid (pc_brew k)) r)"
  shows "\<exists>j'. getJob (job_ID j) s1 = ((200, Inr j'), s1) \<and> job_Target j' = name \<and> job_Status j' = JobRunning \<and> job_LogFile j' = job_LogFile j \<and>
    getJobLog (job_ID j) s1 = ((200, Inr []), s1)"
proof -
  let ?c = "pc_brew k" and ?d = "panel_db (pk_panel s)"
  let ?b = "b\<lparr> bw_db := ?d \<rparr>"
  let ?cols = "[(''id'', Text (bc_uuid ?c)), (''kind'', Text ''install''), (''target'', Text name), (''status'', Text JobRunning), (''log_file'', Text []),
    (''started_at'', rfc3339 (bc_now ?c))]"
  let ?r = "make_row ''jobs'' ?cols"
  let ?J = "tables ?d ''jobs''"
  let ?l = "set_cols [(''log_file'', Text (job_log_path ?c))] ?r"
  have cols: "row_not_null ''jobs'' ?r" "row_not_null ''jobs'' ?l" "?r ''id'' = Text (bc_uuid ?c)" "?l ''id'' = Text (bc_uuid ?c)"
    "\<And>d x. row_references d ''jobs'' x" "unique_cols ''jobs'' = [''id'']"
    by (auto simp: row_not_null_def not_null_cols_def required_cols_def column_defaults_def make_row_def set_cols_def rfc3339_def
        row_references_def foreign_keys_def unique_cols_def)
  have nc: "no_conflicts ''jobs'' ?J" using assms(3) by (auto simp: db_ok_def schema_tables_def)
  have i: "sql_insert ''jobs'' ?cols ?d = (Inr (), with_table ''jobs'' (?J @ [?r]) ?d)"
    by (rule insert_fresh [OF assms(2) cols(6) refl cols(3) assms(7) cols(1) cols(5)])
  have "sql_update ''jobs'' (by_id (bc_uuid ?c)) [(''log_file'', Text (job_log_path ?c))] (with_table ''jobs'' (?J @ [?r]) ?d) =
      (Inr 1, with_table ''jobs'' (?J @ [?l]) (with_table ''jobs'' (?J @ [?r]) ?d))"
    by (rule update_last [OF _ _ cols(6) cols(3) assms(7) _ nc cols(2) cols(5)]) (simp_all add: assms(2))
  then have u: "job_SetLogFile (bc_uuid ?c) (job_log_path ?c) (with_table ''jobs'' (?J @ [?r]) ?d) =
      (Inr (), with_table ''jobs'' (?J @ [?l]) (with_table ''jobs'' (?J @ [?r]) ?d))"
    by (simp add: job_SetLogFile_def)
  obtain b' where run: "brew_Install ?c name ?b = (Inr j, b')" and s1: "s1 = audit_package k ''package.install'' ''package'' name ''ok''
      (s\<lparr> pk_panel := set_db (bw_db b') (pk_panel s), pk_brew := Some b' \<rparr>)"
    using assms(1,5) by (auto simp: installPackage_def usable_def act_on_package_def on_brew_def resultOf_def packagesUnavailable_def
        split: option.splits if_splits prod.splits sum.splits)
  have launch: "runJob_launch ?c ''install'' name [''install'', name] ?b = (Inr j, b')"
    using run by (auto simp: brew_Install_def runJob_def split: sum.splits)
  then have b': "tables (bw_db b') ''jobs'' = ?J @ [?l]" "faults (bw_db b') = []" "job_ID j = bc_uuid ?c" "job_LogFile j = job_log_path ?c"
    "map_of (bw_logs b') (job_log_path ?c) = Some []"
    using assms(6) by (auto simp: runJob_launch_def Let_def on_jobs_def job_Create_def i u assms(2) open_log_def put_assoc_def
        split: option.splits)
  let ?d1 = "panel_db (pk_panel s1)"
  have d1: "faults ?d1 = []" "tables ?d1 ''jobs'' = ?J @ [?l]" "pk_jobs s1" "pk_brew s1 = Some b'"
    using s1 b'(1,2) assms(4) audit_frame [of "set_db (bw_db b') (pk_panel s)"] by (simp_all add: audit_package_def)
  have get: "job_Get (bc_uuid ?c) ?d1 = (Inr (scanJob ?l), ?d1)"
    unfolding job_Get_def by (rule repo_get_last [OF d1(1,2) cols(4) assms(7)])
  have "on_panel_db (job_Get (bc_uuid ?c)) s1 = (Inr (scanJob ?l), s1)" by (simp add: on_panel_db_def on_db_eq get)
  then have g: "getJob (job_ID j) s1 = ((200, Inr (scanJob ?l)), s1)" using d1(3) b'(3) by (simp add: getJob_def)
  have sc: "job_Target (scanJob ?l) = name" "job_Status (scanJob ?l) = JobRunning" "job_LogFile (scanJob ?l) = job_log_path ?c"
    by (simp_all add: scanJob_def make_row_def set_cols_def text_col_def)
  have "job_log_path ?c \<noteq> []" by (simp add: job_log_path_def)
  then have "getJobLog (job_ID j) s1 = ((200, Inr []), s1)" using g sc(3) d1(4) b'(5) by (simp add: getJobLog_def)
  then show ?thesis using g sc b'(4) by simp
qed

definition demo_packages :: "unit package_site" where
  "demo_packages = \<lparr> pk_panel = demo_panel [] [], pk_brew = Some demo_brew, pk_jobs = True \<rparr>"

definition demo_package_call :: "unit package_call" where
  "demo_package_call = \<lparr> pc_call = demo_call ''x'', pc_host = demo_brew_host, pc_brew = demo_brew_call ''j1'' \<rparr>"

theorem accepted_install_can_be_followed_witness:
  "\<exists>j s1. installPackage demo_package_call (Inr ''php'') demo_packages = ((202, Inr j), s1) \<and> getJobLog (job_ID j) s1 = ((200, Inr []), s1)"
proof -
  have "(case installPackage demo_package_call (Inr ''php'') demo_packages of ((c, Inr j), _) \<Rightarrow> c = 202 | _ \<Rightarrow> False)" by code_simp
  then obtain j s1 where r: "installPackage demo_package_call (Inr ''php'') demo_packages = ((202, Inr j), s1)"
    by (auto split: prod.splits sum.splits if_splits)
  have "faults (panel_db (pk_panel demo_packages)) = []" "db_ok (panel_db (pk_panel demo_packages))" "pk_jobs demo_packages"
    "pk_brew demo_packages = Some demo_brew" "map_of (bw_logs demo_brew) (job_log_path (pc_brew demo_package_call)) = None"
    "\<not> (\<exists>r \<in> set (tables (panel_db (pk_panel demo_packages)) ''jobs''). by_id (bc_uuid (pc_brew demo_package_call)) r)"
    by (auto simp: demo_packages_def demo_panel_def panel_db_def demo_brew_def db_ok_def schema_tables_def)
  from accepted_install_can_be_followed [OF r this] r show ?thesis by blast
qed

end
