(* ===== verification/Docker.thy ===== *)
theory Docker
  imports Encoding Decimal
begin

text \<open>
  The client of the Docker Engine, \<open>internal/providers/docker/\<close>: requests over the engine's socket, what is made of the
  answers, and the framing of the output of containers.

  The engine is a function from requests to answers on a state of its own.  A body may end in an error.  What the JSON
  decoder makes of a body is the record \<open>docker_json\<close>.
\<close>

section \<open>Types\<close>

record port =
  po_IP :: string
  po_PrivatePort :: nat
  po_PublicPort :: nat
  po_Type :: string

record container =
  co_ID :: string
  co_Names :: "string list"
  co_Image :: string
  co_Command :: string
  co_State :: string
  co_Status :: string
  co_Labels :: "string \<rightharpoonup> string"
  co_Ports :: "port list"
  co_Project :: string

record mount =
  mo_Type :: string
  mo_Source :: string
  mo_Destination :: string
  mo_RW :: bool

record container_detail = container +
  cd_Env :: "string list"
  cd_Mounts :: "mount list"
  cd_RestartCount :: int

record image =
  im_ID :: string
  im_Tags :: "string list"
  im_Size :: int
  im_Created :: int

record volume =
  vo_Name :: string
  vo_Driver :: string
  vo_Mountpoint :: string
  vo_Labels :: "string \<rightharpoonup> string"

record network =
  ne_ID :: string
  ne_Name :: string
  ne_Driver :: string
  ne_Scope :: string
  ne_Labels :: "string \<rightharpoonup> string"

record raw_container =
  rc_ID :: string
  rc_Names :: "string list"
  rc_Image :: string
  rc_Command :: string
  rc_State :: string
  rc_Status :: string
  rc_Labels :: "string \<rightharpoonup> string"
  rc_Ports :: "port list"

record inspect_response =
  ir_ID :: string
  ir_Name :: string
  ir_RestartCount :: int
  ir_Status :: string
  ir_Image :: string
  ir_Cmd :: "string list"
  ir_Env :: "string list"
  ir_Labels :: "string \<rightharpoonup> string"
  ir_Mounts :: "mount list"

record docker_exec_result =
  xr_Output :: bytes
  xr_ExitCode :: int

datatype docker_error =
    DockerUnavailable string
  | ContainerNotFound string
  | EngineError string int
  | UnexpectedStatus int string
  | DecodeFailed string string
  | EmptyCommand
  | ReadFailed string string

section \<open>Requests\<close>

text \<open>An answer is a status and a body, with the error that reading it ends in.\<close>

record answer =
  an_Status :: int
  an_Body :: bytes
  an_Error :: "string option"

text \<open>The bodies of the two requests that have one.\<close>

datatype request_body = NoBody | ExecCreate "string list" | ExecStart

type_synonym 'w engine = "string \<Rightarrow> string \<Rightarrow> request_body \<Rightarrow> 'w \<Rightarrow> (string + answer) \<times> 'w"

record docker_json =
  dj_message :: "bytes \<Rightarrow> string"
  dj_containers :: "answer \<Rightarrow> string + raw_container list"
  dj_inspect :: "answer \<Rightarrow> string + inspect_response"
  dj_exec_id :: "answer \<Rightarrow> string + string"
  dj_exit_code :: "answer \<Rightarrow> string + int"
  dj_images :: "answer \<Rightarrow> string + image list"
  dj_volumes :: "answer \<Rightarrow> string + volume list"
  dj_networks :: "answer \<Rightarrow> string + network list"

definition IsUnavailable :: "docker_error \<Rightarrow> bool" where
  "IsUnavailable e \<longleftrightarrow> (case e of DockerUnavailable _ \<Rightarrow> True | _ \<Rightarrow> False)"

definition candidateSockets :: "string option \<Rightarrow> string list" where
  "candidateSockets home =
     ''/var/run/docker.sock'' #
     (case home of
        None \<Rightarrow> []
      | Some h \<Rightarrow> if h = [] then []
                  else map (\<lambda>p. h @ p) [''/.docker/run/docker.sock'', ''/.colima/default/docker.sock'', ''/.rd/docker.sock''])"

text \<open>The socket of a new client: the first candidate that is a socket, or the first one.\<close>

definition docker_NewClient :: "string \<Rightarrow> string \<Rightarrow> string option \<Rightarrow> (string \<Rightarrow> bool) \<Rightarrow> docker_error + string" where
  "docker_NewClient goos docker_host home is_socket =
     (if goos = ''windows'' then Inl (DockerUnavailable ''named-pipe transport not implemented on windows (TODO)'')
      else
        (let preferred = (if has_prefix docker_host ''unix://'' then trim_prefix docker_host ''unix://'' else []);
             candidates = (if preferred \<noteq> [] then [preferred] else []) @ candidateSockets home
         in Inr (case List.find is_socket candidates of Some p \<Rightarrow> p | None \<Rightarrow> hd candidates)))"

definition docker_do :: "'w engine \<Rightarrow> string \<Rightarrow> string \<Rightarrow> request_body \<Rightarrow> 'w \<Rightarrow> (docker_error + answer) \<times> 'w" where
  "docker_do en meth path body w = (case en meth path body w of (Inl e, w') \<Rightarrow> (Inl (DockerUnavailable e), w') | (Inr a, w') \<Rightarrow> (Inr a, w'))"

definition checkStatus :: "docker_json \<Rightarrow> answer \<Rightarrow> int list \<Rightarrow> docker_error + unit" where
  "checkStatus j a okCodes =
     (if an_Status a \<in> set okCodes then Inr ()
      else if dj_message j (an_Body a) \<noteq> [] then Inl (EngineError (dj_message j (an_Body a)) (an_Status a))
      else Inl (UnexpectedStatus (an_Status a) (trim_space (an_Body a))))"

definition docker_Available :: "'w engine \<Rightarrow> 'w \<Rightarrow> (docker_error + unit) \<times> 'w" where
  "docker_Available en w =
     (case docker_do en ''GET'' ''/_ping'' NoBody w of
        (Inl e, w1) \<Rightarrow> (Inl e, w1)
      | (Inr a, w1) \<Rightarrow> (if an_Status a \<noteq> 200 then Inl (DockerUnavailable (''ping returned status '' @ itoa (an_Status a))) else Inr (), w1))"

text \<open>A request whose answer is decoded when its status is 200.\<close>

definition get_decoded :: "'w engine \<Rightarrow> docker_json \<Rightarrow> string \<Rightarrow> string \<Rightarrow> (answer \<Rightarrow> string + 'a) \<Rightarrow> 'w \<Rightarrow> (docker_error + 'a) \<times> 'w" where
  "get_decoded en j path what decode w =
     (case docker_do en ''GET'' path NoBody w of
        (Inl e, w1) \<Rightarrow> (Inl e, w1)
      | (Inr a, w1) \<Rightarrow>
         ((case checkStatus j a [200] of
             Inl e \<Rightarrow> Inl e
           | Inr _ \<Rightarrow> (case decode a of Inl e \<Rightarrow> Inl (DecodeFailed what e) | Inr x \<Rightarrow> Inr x)), w1))"

section \<open>Containers\<close>

definition composeProjectLabel :: string where "composeProjectLabel = ''com.docker.compose.project''"

definition label_of :: "(string \<rightharpoonup> string) \<Rightarrow> string \<Rightarrow> string" where
  "label_of m k = (case m k of None \<Rightarrow> [] | Some v \<Rightarrow> v)"

definition toContainer :: "raw_container \<Rightarrow> container" where
  "toContainer rc =
     \<lparr> co_ID = rc_ID rc, co_Names = map (\<lambda>n. trim_prefix n ''/'') (rc_Names rc), co_Image = rc_Image rc, co_Command = rc_Command rc,
       co_State = rc_State rc, co_Status = rc_Status rc, co_Labels = rc_Labels rc, co_Ports = rc_Ports rc,
       co_Project = label_of (rc_Labels rc) composeProjectLabel \<rparr>"

definition ListContainers :: "'w engine \<Rightarrow> docker_json \<Rightarrow> 'w \<Rightarrow> (docker_error + container list) \<times> 'w" where
  "ListContainers en j w =
     (case get_decoded en j ''/containers/json?all=true'' ''containers'' (dj_containers j) w of
        (Inl e, w1) \<Rightarrow> (Inl e, w1) | (Inr rs, w1) \<Rightarrow> (Inr (map toContainer rs), w1))"

definition detail_of :: "inspect_response \<Rightarrow> container_detail" where
  "detail_of ir =
     \<lparr> co_ID = ir_ID ir, co_Names = [trim_prefix (ir_Name ir) ''/''], co_Image = ir_Image ir, co_Command = join_with '' '' (ir_Cmd ir),
       co_State = ir_Status ir, co_Status = ir_Status ir, co_Labels = ir_Labels ir, co_Ports = [],
       co_Project = label_of (ir_Labels ir) composeProjectLabel,
       cd_Env = ir_Env ir, cd_Mounts = ir_Mounts ir, cd_RestartCount = ir_RestartCount ir \<rparr>"

definition container_path :: "string \<Rightarrow> string" where
  "container_path i = ''/containers/'' @ PathEscape i"

text \<open>A request about a container: a 404 means that there is none of that id.\<close>

definition container_request ::
  "'w engine \<Rightarrow> docker_json \<Rightarrow> string \<Rightarrow> string \<Rightarrow> string \<Rightarrow> request_body \<Rightarrow> int list \<Rightarrow> 'w \<Rightarrow> (docker_error + answer) \<times> 'w" where
  "container_request en j meth i rest body okCodes w =
     (case docker_do en meth (container_path i @ rest) body w of
        (Inl e, w1) \<Rightarrow> (Inl e, w1)
      | (Inr a, w1) \<Rightarrow>
         (if an_Status a = 404 then Inl (ContainerNotFound i)
          else case checkStatus j a okCodes of Inl e \<Rightarrow> Inl e | Inr _ \<Rightarrow> Inr a, w1))"

definition InspectContainer :: "'w engine \<Rightarrow> docker_json \<Rightarrow> string \<Rightarrow> 'w \<Rightarrow> (docker_error + container_detail) \<times> 'w" where
  "InspectContainer en j i w =
     (case container_request en j ''GET'' i ''/json'' NoBody [200] w of
        (Inl e, w1) \<Rightarrow> (Inl e, w1)
      | (Inr a, w1) \<Rightarrow> (case dj_inspect j a of Inl e \<Rightarrow> Inl (DecodeFailed ''container'' e) | Inr ir \<Rightarrow> Inr (detail_of ir), w1))"

definition containerAction :: "'w engine \<Rightarrow> docker_json \<Rightarrow> string \<Rightarrow> string \<Rightarrow> int list \<Rightarrow> 'w \<Rightarrow> (docker_error + unit) \<times> 'w" where
  "containerAction en j i action okCodes w =
     (case container_request en j ''POST'' i (''/'' @ action) NoBody okCodes w of (Inl e, w1) \<Rightarrow> (Inl e, w1) | (Inr _, w1) \<Rightarrow> (Inr (), w1))"

definition StartContainer :: "'w engine \<Rightarrow> docker_json \<Rightarrow> string \<Rightarrow> 'w \<Rightarrow> (docker_error + unit) \<times> 'w" where
  "StartContainer en j i = containerAction en j i ''start'' [204, 304]"

definition StopContainer :: "'w engine \<Rightarrow> docker_json \<Rightarrow> string \<Rightarrow> 'w \<Rightarrow> (docker_error + unit) \<times> 'w" where
  "StopContainer en j i = containerAction en j i ''stop'' [204, 304]"

definition RestartContainer :: "'w engine \<Rightarrow> docker_json \<Rightarrow> string \<Rightarrow> 'w \<Rightarrow> (docker_error + unit) \<times> 'w" where
  "RestartContainer en j i = containerAction en j i ''restart'' [204]"

section \<open>The framing of output\<close>

definition looksLikeFrameHeader :: "bytes \<Rightarrow> bool" where
  "looksLikeFrameHeader head \<longleftrightarrow>
     8 \<le> length head \<and> (of_char (head ! 0) :: nat) \<le> 2 \<and> head ! 1 = CHR 0x00 \<and> head ! 2 = CHR 0x00 \<and> head ! 3 = CHR 0x00"

text \<open>
  The loop over the frames: a header of 8 bytes, whose last four are the size, and as many bytes of payload.  The stream
  ends (\<open>io.EOF\<close>) or fails with an error of the reader, named by its text.  In place of a header the loop takes the
  error that a broken connection gives, \<open>io.ErrUnexpectedEOF\<close>, for the end of the stream; within a payload it does not.
\<close>

definition ErrUnexpectedEOF :: string where "ErrUnexpectedEOF = ''unexpected EOF''"

function demux_frames :: "bytes \<Rightarrow> string option \<Rightarrow> bytes \<Rightarrow> string + bytes" where
  "demux_frames out e bs =
     (if length bs < 8 then (case e of None \<Rightarrow> Inr out | Some m \<Rightarrow> if m = ErrUnexpectedEOF then Inr out else Inl m)
      else
        (let size = be_value (take 4 (drop 4 bs)); rest = drop 8 bs in
         if length rest < size then (case e of None \<Rightarrow> Inr (out @ rest) | Some m \<Rightarrow> Inl m)
         else demux_frames (out @ take size rest) e (drop size rest)))"
  by pat_completeness auto
termination by (relation "measure (\<lambda>(_, _, bs). length bs)") auto

definition demuxStream :: "bytes \<Rightarrow> string option \<Rightarrow> string + bytes" where
  "demuxStream bs e =
     (if length bs < 8 \<or> \<not> looksLikeFrameHeader (take 8 bs) then (case e of None \<Rightarrow> Inr bs | Some m \<Rightarrow> Inl m)
      else demux_frames [] e bs)"

definition ContainerLogs :: "'w engine \<Rightarrow> docker_json \<Rightarrow> string \<Rightarrow> int \<Rightarrow> 'w \<Rightarrow> (docker_error + bytes) \<times> 'w" where
  "ContainerLogs en j i tail w =
     (case container_request en j ''GET'' i (''/logs?stderr=true&stdout=true&tail='' @ (if tail > 0 then itoa tail else ''all'')) NoBody [200] w of
        (Inl e, w1) \<Rightarrow> (Inl e, w1)
      | (Inr a, w1) \<Rightarrow> (case demuxStream (an_Body a) (an_Error a) of Inl e \<Rightarrow> Inl (ReadFailed ''logs'' e) | Inr out \<Rightarrow> Inr out, w1))"

section \<open>Running a command\<close>

text \<open>The exit code stays 0 when it cannot be asked for.\<close>

definition docker_Exec :: "'w engine \<Rightarrow> docker_json \<Rightarrow> string \<Rightarrow> string list \<Rightarrow> 'w \<Rightarrow> (docker_error + docker_exec_result) \<times> 'w" where
  "docker_Exec en j i cmd w =
     (if cmd = [] then (Inl EmptyCommand, w)
      else case container_request en j ''POST'' i ''/exec'' (ExecCreate cmd) [201] w of
        (Inl e, w1) \<Rightarrow> (Inl e, w1)
      | (Inr a, w1) \<Rightarrow>
     (case dj_exec_id j a of
        Inl e \<Rightarrow> (Inl (DecodeFailed ''exec-create response'' e), w1)
      | Inr x \<Rightarrow>
     (case docker_do en ''POST'' (''/exec/'' @ x @ ''/start'') ExecStart w1 of
        (Inl e, w2) \<Rightarrow> (Inl e, w2)
      | (Inr b, w2) \<Rightarrow>
     (case checkStatus j b [200] of
        Inl e \<Rightarrow> (Inl e, w2)
      | Inr _ \<Rightarrow>
     (case demuxStream (an_Body b) (an_Error b) of
        Inl e \<Rightarrow> (Inl (ReadFailed ''exec output'' e), w2)
      | Inr out \<Rightarrow>
     (case docker_do en ''GET'' (''/exec/'' @ x @ ''/json'') NoBody w2 of
        (Inl _, w3) \<Rightarrow> (Inr \<lparr> xr_Output = out, xr_ExitCode = 0 \<rparr>, w3)
      | (Inr c, w3) \<Rightarrow>
         (Inr \<lparr> xr_Output = out, xr_ExitCode = (case dj_exit_code j c of Inl _ \<Rightarrow> 0 | Inr n \<Rightarrow> n) \<rparr>, w3)))))))"

section \<open>Images, volumes, networks and projects\<close>

definition tagged :: "image \<Rightarrow> image" where
  "tagged ri = (if im_Tags ri = [] then ri\<lparr> im_Tags := [''<none>:<none>''] \<rparr> else ri)"

definition ListImages :: "'w engine \<Rightarrow> docker_json \<Rightarrow> 'w \<Rightarrow> (docker_error + image list) \<times> 'w" where
  "ListImages en j w =
     (case get_decoded en j ''/images/json'' ''images'' (dj_images j) w of
        (Inl e, w1) \<Rightarrow> (Inl e, w1) | (Inr rs, w1) \<Rightarrow> (Inr (map tagged rs), w1))"

definition ListVolumes :: "'w engine \<Rightarrow> docker_json \<Rightarrow> 'w \<Rightarrow> (docker_error + volume list) \<times> 'w" where
  "ListVolumes en j = get_decoded en j ''/volumes'' ''volumes'' (dj_volumes j)"

definition ListNetworks :: "'w engine \<Rightarrow> docker_json \<Rightarrow> 'w \<Rightarrow> (docker_error + network list) \<times> 'w" where
  "ListNetworks en j = get_decoded en j ''/networks'' ''networks'' (dj_networks j)"

text \<open>The projects in the order in which they are met, with the containers met so far.\<close>

fun add_to_project :: "container \<Rightarrow> (string \<times> container list) list \<Rightarrow> (string \<times> container list) list" where
  "add_to_project c [] = [(co_Project c, [c])]"
| "add_to_project c ((p, cs) # ps) = (if p = co_Project c then (p, cs @ [c]) # ps else (p, cs) # add_to_project c ps)"

definition GroupByComposeProject :: "container list \<Rightarrow> (string \<times> container list) list" where
  "GroupByComposeProject cs = fold add_to_project cs []"

section \<open>Properties of the framing\<close>

text \<open>How the engine frames a piece of the output of stream \<open>k\<close>.\<close>

definition frame_bytes :: "nat \<times> bytes \<Rightarrow> bytes" where
  "frame_bytes f = [char_of (fst f), CHR 0x00, CHR 0x00, CHR 0x00] @ be_bytes 4 (length (snd f)) @ snd f"

definition frame_ok :: "nat \<times> bytes \<Rightarrow> bool" where
  "frame_ok f \<longleftrightarrow> fst f \<le> 2 \<and> length (snd f) < 2 ^ 32"

declare demux_frames.simps [simp del]

lemma demux_one:
  assumes "frame_ok f"
  shows "demux_frames out e (frame_bytes f @ bs) = demux_frames (out @ snd f) e bs"
proof -
  have "take 4 (drop 4 (frame_bytes f @ bs)) = be_bytes 4 (length (snd f))"
    "drop 8 (frame_bytes f @ bs) = snd f @ bs" "\<not> length (frame_bytes f @ bs) < 8"
    by (simp_all add: frame_bytes_def)
  moreover have "be_value (be_bytes 4 (length (snd f))) = length (snd f)"
    using assms by (simp add: be_value_bytes frame_ok_def)
  ultimately show ?thesis
    by (subst demux_frames.simps) (simp add: Let_def)
qed

lemma demux_all: "list_all frame_ok fs \<Longrightarrow> demux_frames out e (concat (map frame_bytes fs) @ bs) = demux_frames (out @ concat (map snd fs)) e bs"
  by (induction fs arbitrary: out) (simp_all add: demux_one)

lemma frame_header:
  assumes "frame_ok f"
  shows "looksLikeFrameHeader (take 8 (frame_bytes f @ bs))" "8 \<le> length (frame_bytes f)"
  using assms by (simp_all add: frame_bytes_def looksLikeFrameHeader_def frame_ok_def)

lemma demuxStream_framed:
  assumes "list_all frame_ok (f # fs)"
  shows "demuxStream (concat (map frame_bytes (f # fs)) @ bs) e = demux_frames (concat (map snd (f # fs))) e bs"
proof -
  have "frame_ok f" using assms by simp
  then have "\<not> (length (concat (map frame_bytes (f # fs)) @ bs) < 8 \<or>
      \<not> looksLikeFrameHeader (take 8 (concat (map frame_bytes (f # fs)) @ bs)))"
    using frame_header(1) [of f "concat (map frame_bytes fs) @ bs"] frame_header(2) [of f] by simp
  then show ?thesis unfolding demuxStream_def using demux_all [OF assms, of "[]" e bs] by simp
qed

text \<open>C17: What the engine frames comes out again: the payloads of the frames in their order and nothing of the headers.
  When the stream ends within a frame, what comes out is what had arrived of the payloads.  When the reader fails,
  the error is the result and not a shorter output, with one exception: where the connection breaks (\<open>io.ErrUnexpectedEOF\<close>)
  before the whole of a header has arrived, the payloads so far come out as if the output ended there.\<close>

theorem framed_output_comes_out:
  assumes "list_all frame_ok (f # fs)" "frame_ok g" "n < length (frame_bytes g)"
  shows "demuxStream (concat (map frame_bytes (f # fs))) None = Inr (concat (map snd (f # fs))) \<and>
    demuxStream (concat (map frame_bytes (f # fs)) @ take n (frame_bytes g)) None =
      Inr (concat (map snd (f # fs)) @ take (n - 8) (snd g)) \<and>
    demuxStream (concat (map frame_bytes (f # fs)) @ take n (frame_bytes g)) (Some m) =
      (if n < 8 \<and> m = ErrUnexpectedEOF then Inr (concat (map snd (f # fs))) else Inl m)"
proof -
  have cut: "demux_frames out e (take n (frame_bytes g)) =
    (case e of None \<Rightarrow> Inr (out @ take (n - 8) (snd g)) | Some m \<Rightarrow> if n < 8 \<and> m = ErrUnexpectedEOF then Inr out else Inl m)" for out e
  proof (cases "n < 8")
    case True
    then show ?thesis by (subst demux_frames.simps) (simp add: frame_bytes_def split: option.split)
  next
    case False
    have l: "length (frame_bytes g) = 8 + length (snd g)" by (simp add: frame_bytes_def)
    have d: "drop 8 (take n (frame_bytes g)) = take (n - 8) (snd g)" using False by (simp add: frame_bytes_def drop_take)
    have "take 4 (drop 4 (take n (frame_bytes g))) = take 4 (drop 4 (frame_bytes g))" using False by (simp add: drop_take min_def)
    also have "\<dots> = be_bytes 4 (length (snd g))" by (simp add: frame_bytes_def)
    finally have s: "be_value (take 4 (drop 4 (take n (frame_bytes g)))) = length (snd g)"
      using assms(2) by (simp add: be_value_bytes frame_ok_def)
    have "\<not> length (take n (frame_bytes g)) < 8" "length (take (n - 8) (snd g)) < length (snd g)"
      using False assms(3) l by auto
    then show ?thesis using False by (subst demux_frames.simps) (simp only: Let_def s d if_True if_False simp_thms)
  qed
  have "demux_frames out None [] = Inr out" for out by (subst demux_frames.simps) simp
  then show ?thesis
    using demuxStream_framed [OF assms(1), of "[]" None] demuxStream_framed [OF assms(1), of "take n (frame_bytes g)"]
    by (simp add: cut)
qed

section \<open>Projects\<close>

lemma add_to_project_find:
  "map_of (add_to_project c ps) p = (if p = co_Project c then Some ((case map_of ps p of None \<Rightarrow> [] | Some cs \<Rightarrow> cs) @ [c]) else map_of ps p)"
  by (induction c ps rule: add_to_project.induct) auto

lemma add_to_project_names:
  "map fst (add_to_project c ps) = (if co_Project c \<in> fst ` set ps then map fst ps else map fst ps @ [co_Project c])"
  by (induction c ps rule: add_to_project.induct) auto

text \<open>The names of the projects in the order in which they are first met.\<close>

fun first_seen :: "string list \<Rightarrow> string list" where
  "first_seen [] = []"
| "first_seen (p # ps) = p # filter (\<lambda>q. q \<noteq> p) (first_seen ps)"

lemma first_seen_snoc: "first_seen (ps @ [p]) = (if p \<in> set ps then first_seen ps else first_seen ps @ [p])"
  by (induction ps) auto

lemma first_seen_set [simp]: "set (first_seen ps) = set ps"
  by (induction ps) auto

lemma first_seen_distinct: "distinct (first_seen ps)"
  by (induction ps) auto

lemma group_steps:
  "map fst (fold add_to_project cs []) = first_seen (map co_Project cs) \<and>
   map_of (fold add_to_project cs []) p = (let g = filter (\<lambda>c. co_Project c = p) cs in if g = [] then None else Some g)"
proof (induction cs rule: rev_induct)
  case (snoc c cs)
  have "fst ` set (fold add_to_project cs []) = set (map co_Project cs)"
    using snoc by (metis first_seen_set image_set)
  then show ?case using snoc
    by (cases "p = co_Project c") (simp_all add: add_to_project_names add_to_project_find first_seen_snoc Let_def)
qed simp

text \<open>grouping by project gives, for each project in the order of its first container, exactly its containers in the
  order in which the engine listed them; so every container is in one group, and none is lost.\<close>

theorem grouping_is_filtering:
  "GroupByComposeProject cs = map (\<lambda>p. (p, filter (\<lambda>c. co_Project c = p) cs)) (first_seen (map co_Project cs)) \<and>
   distinct (map fst (GroupByComposeProject cs))"
proof -
  let ?g = "GroupByComposeProject cs"
  have n: "map fst ?g = first_seen (map co_Project cs)" using group_steps by (simp add: GroupByComposeProject_def)
  then have d: "distinct (map fst ?g)" by (simp add: first_seen_distinct)
  have "x = (fst x, filter (\<lambda>c. co_Project c = fst x) cs)" if "x \<in> set ?g" for x
  proof -
    have "map_of ?g (fst x) = Some (snd x)" using d that by simp
    then show ?thesis using group_steps [of cs "fst x"] by (cases x) (auto simp: GroupByComposeProject_def Let_def split: if_splits)
  qed
  then have "map (\<lambda>x. (fst x, filter (\<lambda>c. co_Project c = fst x) cs)) ?g = ?g" by (simp add: map_idI)
  then have "?g = map (\<lambda>p. (p, filter (\<lambda>c. co_Project c = p) cs)) (map fst ?g)" by (simp add: comp_def)
  then show ?thesis using n d by simp
qed

text \<open>a command that failed is reported with the exit code 0, which means success, when the request for its exit
  code fails; the result does not tell the two cases apart.\<close>

theorem lost_exit_code_reads_as_success:
  assumes "docker_Exec en j i cmd w = (Inr r, w3)"
    and "\<forall>x v. fst (en ''GET'' (''/exec/'' @ x @ ''/json'') NoBody v) = Inl m"
  shows "xr_ExitCode r = 0"
proof -
  have get: "docker_do en ''GET'' (''/exec/'' @ x @ ''/json'') NoBody v = (Inl (DockerUnavailable m), snd (en ''GET'' (''/exec/'' @ x @ ''/json'') NoBody v))" for x v
  proof -
    have "fst (en ''GET'' (''/exec/'' @ x @ ''/json'') NoBody v) = Inl m" using assms(2) by blast
    then show ?thesis unfolding docker_do_def by (simp only: case_prod_unfold sum.case)
  qed
  show ?thesis using assms(1) unfolding docker_Exec_def get by (auto split: if_splits prod.splits sum.splits)
qed

theorem framed_output_comes_out_witness:
  "demuxStream (frame_bytes (1, ''out'') @ take 10 (frame_bytes (2, ''err''))) None = Inr (''out'' @ ''er'')"
proof -
  have "list_all frame_ok [(1, ''out'')]" "frame_ok (2, ''err'')" "10 < length (frame_bytes (2, ''err''))"
    by (simp_all add: frame_ok_def frame_bytes_def)
  from framed_output_comes_out [OF this, of "[]"] show ?thesis by simp
qed

definition demo_docker_json :: docker_json where
  "demo_docker_json = \<lparr> dj_message = (\<lambda>_. []), dj_containers = (\<lambda>_. Inl []), dj_inspect = (\<lambda>_. Inl []), dj_exec_id = (\<lambda>_. Inr ''e1''),
     dj_exit_code = (\<lambda>_. Inr 1), dj_images = (\<lambda>_. Inl []), dj_volumes = (\<lambda>_. Inl []), dj_networks = (\<lambda>_. Inl []) \<rparr>"

definition demo_docker :: "unit engine" where
  "demo_docker meth path body w =
     ((if meth = ''GET'' then Inl ''connection reset''
       else if body = ExecStart then Inr \<lparr> an_Status = 200, an_Body = ''out'', an_Error = None \<rparr>
       else Inr \<lparr> an_Status = 201, an_Body = [], an_Error = None \<rparr>), w)"

theorem lost_exit_code_reads_as_success_witness:
  "\<exists>r w. docker_Exec demo_docker demo_docker_json ''c1'' [''false''] () = (Inr r, w) \<and> xr_ExitCode r = 0"
proof -
  have "(case docker_Exec demo_docker demo_docker_json ''c1'' [''false''] () of (Inr r, _) \<Rightarrow> True | _ \<Rightarrow> False)" by code_simp
  then obtain r w where r: "docker_Exec demo_docker demo_docker_json ''c1'' [''false''] () = (Inr r, w)"
    by (auto split: prod.splits sum.splits)
  have "\<forall>x v. fst (demo_docker ''GET'' (''/exec/'' @ x @ ''/json'') NoBody v) = Inl ''connection reset''" by (simp add: demo_docker_def)
  then have "xr_ExitCode r = 0" by (rule lost_exit_code_reads_as_success [OF r])
  with r show ?thesis by (intro exI conjI)
qed

end
