(* ===== verification/DockerHandlers.thy ===== *)
theory DockerHandlers
  imports Handlers Docker
begin

text \<open>
  The handlers of \<open>internal/api/v1/docker.go\<close>.  The deadlines of the requests are the engine's business: a request that
  runs into one is one that the engine does not answer.
\<close>

record 'w docker_call =
  gk_call :: call
  gk_engine :: "'w engine"
  gk_json :: docker_json
  gk_present :: bool

datatype docker_refusal =
    NotAvailable "docker_error option"
  | DockerRefused docker_error
  | BadBody string

type_synonym ('w, 'a) docker_handler = "panel \<times> 'w \<Rightarrow> (nat \<times> (docker_refusal + 'a)) \<times> panel \<times> 'w"

definition dockerUnavailable :: "docker_error option \<Rightarrow> nat \<times> (docker_refusal + 'a)" where
  "dockerUnavailable e = (503, Inl (NotAvailable e))"

definition writeDockerError :: "docker_error \<Rightarrow> nat \<times> (docker_refusal + 'a)" where
  "writeDockerError e = (if IsUnavailable e then dockerUnavailable (Some e) else (400, Inl (DockerRefused e)))"

text \<open>The handlers go on with \<open>f\<close> when the engine answers the probe.\<close>

definition requireDocker :: "'w docker_call \<Rightarrow> ('w, 'a) docker_handler \<Rightarrow> ('w, 'a) docker_handler" where
  "requireDocker k f s =
     (if \<not> gk_present k then (dockerUnavailable None, s)
      else case docker_Available (gk_engine k) (snd s) of
             (Inl e, w) \<Rightarrow> (dockerUnavailable (Some e), (fst s, w))
           | (Inr _, w) \<Rightarrow> f (fst s, w))"

definition ask_docker :: "('w \<Rightarrow> (docker_error + 'a) \<times> 'w) \<Rightarrow> ('w, 'a) docker_handler" where
  "ask_docker f s =
     (case f (snd s) of (Inl e, w) \<Rightarrow> (writeDockerError e, (fst s, w)) | (Inr a, w) \<Rightarrow> ((200, Inr a), (fst s, w)))"

text \<open>An operation that is recorded.\<close>

definition act_docker :: "'w docker_call \<Rightarrow> string \<Rightarrow> string \<Rightarrow> ('w \<Rightarrow> (docker_error + 'a) \<times> 'w) \<Rightarrow> ('w, 'a) docker_handler" where
  "act_docker k action i f s =
     (case f (snd s) of
        (r, w) \<Rightarrow>
         ((case r of Inl e \<Rightarrow> writeDockerError e | Inr a \<Rightarrow> (200, Inr a)),
          (audit (gk_call k) action ''container'' i (resultOf r) (fst s), w)))"

text \<open>A list of containers, or of projects when the query asks for them.\<close>

definition listDockerContainers :: "'w docker_call \<Rightarrow> string \<Rightarrow> ('w, container list + (string \<times> container list) list) docker_handler" where
  "listDockerContainers k grp = requireDocker k (ask_docker (\<lambda>w.
     case ListContainers (gk_engine k) (gk_json k) w of
       (Inl e, w1) \<Rightarrow> (Inl e, w1)
     | (Inr cs, w1) \<Rightarrow> (Inr (if grp = ''compose'' then Inr (GroupByComposeProject cs) else Inl cs), w1)))"

definition getDockerContainer :: "'w docker_call \<Rightarrow> string \<Rightarrow> ('w, container_detail) docker_handler" where
  "getDockerContainer k i = requireDocker k (ask_docker (InspectContainer (gk_engine k) (gk_json k) i))"

definition startDockerContainer :: "'w docker_call \<Rightarrow> string \<Rightarrow> ('w, unit) docker_handler" where
  "startDockerContainer k i = requireDocker k (act_docker k ''docker.container.start'' i (StartContainer (gk_engine k) (gk_json k) i))"

definition stopDockerContainer :: "'w docker_call \<Rightarrow> string \<Rightarrow> ('w, unit) docker_handler" where
  "stopDockerContainer k i = requireDocker k (act_docker k ''docker.container.stop'' i (StopContainer (gk_engine k) (gk_json k) i))"

definition restartDockerContainer :: "'w docker_call \<Rightarrow> string \<Rightarrow> ('w, unit) docker_handler" where
  "restartDockerContainer k i = requireDocker k (act_docker k ''docker.container.restart'' i (RestartContainer (gk_engine k) (gk_json k) i))"

text \<open>The number of lines: a positive number of the query, or 200.\<close>

definition tail_of :: "string \<Rightarrow> int" where
  "tail_of q = (case atoi q of None \<Rightarrow> 200 | Some n \<Rightarrow> if n > 0 then n else 200)"

definition dockerContainerLogs :: "'w docker_call \<Rightarrow> string \<Rightarrow> string \<Rightarrow> ('w, bytes) docker_handler" where
  "dockerContainerLogs k i q = requireDocker k (ask_docker (ContainerLogs (gk_engine k) (gk_json k) i (tail_of q)))"

definition listDockerImages :: "'w docker_call \<Rightarrow> ('w, image list) docker_handler" where
  "listDockerImages k = requireDocker k (ask_docker (ListImages (gk_engine k) (gk_json k)))"

definition listDockerVolumes :: "'w docker_call \<Rightarrow> ('w, volume list) docker_handler" where
  "listDockerVolumes k = requireDocker k (ask_docker (ListVolumes (gk_engine k) (gk_json k)))"

definition listDockerNetworks :: "'w docker_call \<Rightarrow> ('w, network list) docker_handler" where
  "listDockerNetworks k = requireDocker k (ask_docker (ListNetworks (gk_engine k) (gk_json k)))"

definition execDockerContainer :: "'w docker_call \<Rightarrow> string \<Rightarrow> string + string list \<Rightarrow> ('w, docker_exec_result) docker_handler" where
  "execDockerContainer k i body = requireDocker k (\<lambda>s.
     case body of
       Inl msg \<Rightarrow> ((400, Inl (BadBody msg)), s)
     | Inr cmd \<Rightarrow> act_docker k ''docker.container.exec'' i (docker_Exec (gk_engine k) (gk_json k) i cmd) s)"

text \<open>Without an engine that answers, every handler refuses with 503, and nothing is recorded.\<close>

lemma requireDocker_absent:
  assumes "gk_present k \<Longrightarrow> fst (docker_Available (gk_engine k) w) = Inl e"
  shows "\<exists>x w'. requireDocker k f (p, w) = ((503, Inl (NotAvailable x)), (p, w'))"
  using assms
  by (cases "docker_Available (gk_engine k) w") (auto simp: requireDocker_def dockerUnavailable_def split: if_splits)

end
