(* ===== verification/FileHandlers.thy ===== *)
theory FileHandlers
  imports Handlers Frames Sandbox GoPath
begin

text \<open>
  The file manager behind the API: the listing of \<open>Store.ListPath\<close> in \<open>internal/storage/store.go\<close> and the
  handlers of \<open>internal/api/v1/files.go\<close>.  The state of a handler is the daemon with its audit log, and
  the file tree.

  What the kernel says of a directory beyond the tree is an argument: the order in which it yields
  the names, and size, time and permissions of an entry, which may be gone when it is asked for them.
\<close>

record file_info =
  fi_Size :: int
  fi_ModTime :: int
  fi_Mode :: string

record dir_kernel =
  kn_names :: "path \<Rightarrow> string list"
  kn_info :: "path \<Rightarrow> file_info option"

text \<open>\<open>os.ReadDir\<close>: the entries sorted by name.\<close>

definition os_read_dir :: "dir_kernel \<Rightarrow> fs \<Rightarrow> path \<Rightarrow> os_error + (string \<times> inode option \<times> file_info option) list" where
  "os_read_dir k fs p =
     (case locate fs kernel_links [] p of
        Inl e \<Rightarrow> Inl e
      | Inr r \<Rightarrow>
         (case fs r of
            None \<Rightarrow> Inl ENOENT
          | Some Dir \<Rightarrow> Inr (map (\<lambda>c. (c, fs (r @ [c]), kn_info k (r @ [c]))) (sort (kn_names k r)))
          | Some _ \<Rightarrow> Inl ENOTDIR))"

record file_entry =
  fe_Name :: string
  fe_Path :: path
  fe_IsDir :: bool
  fe_Size :: int
  fe_ModTime :: int
  fe_Mode :: string

definition file_entry_of :: "path \<Rightarrow> string \<times> inode option \<times> file_info option \<Rightarrow> file_entry" where
  "file_entry_of real e =
     (case e of (name, i, info) \<Rightarrow>
       (let fe = \<lparr> fe_Name = name, fe_Path = join_path real name, fe_IsDir = (i = Some Dir), fe_Size = 0, fe_ModTime = 0, fe_Mode = [] \<rparr>
        in case info of
             None \<Rightarrow> fe
           | Some f \<Rightarrow> fe\<lparr> fe_Size := fi_Size f, fe_ModTime := fi_ModTime f, fe_Mode := fi_Mode f \<rparr>))"

definition ListPath :: "dir_kernel \<Rightarrow> sandbox \<Rightarrow> string \<Rightarrow> fs \<Rightarrow> sandbox_error + file_entry list" where
  "ListPath k s p fs =
     (case Resolve fs s p of
        Inl e \<Rightarrow> Inl e
      | Inr real \<Rightarrow>
         (case os_read_dir k fs real of
            Inl e \<Rightarrow> Inl (OsFailed e)
          | Inr es \<Rightarrow> Inr (map (file_entry_of real) es)))"

section \<open>Handlers\<close>

record file_call =
  fk_call :: call
  fk_kernel :: dir_kernel
  fk_sandbox :: sandbox

datatype file_refusal = FileMessage string | FileRefused sandbox_error

type_synonym 'a file_handler = "panel \<times> fs \<Rightarrow> (nat \<times> (file_refusal + 'a)) \<times> panel \<times> fs"

text \<open>A handler that reads.\<close>

definition show_files :: "(fs \<Rightarrow> sandbox_error + 'a) \<Rightarrow> 'a file_handler" where
  "show_files f s = (case f (snd s) of Inl e \<Rightarrow> ((400, Inl (FileRefused e)), s) | Inr a \<Rightarrow> ((200, Inr a), s))"

definition listFiles :: "file_call \<Rightarrow> string \<Rightarrow> file_entry list file_handler" where
  "listFiles k path = show_files (ListPath (fk_kernel k) (fk_sandbox k) path)"

definition readFile :: "file_call \<Rightarrow> string \<Rightarrow> (string \<times> bytes) file_handler" where
  "readFile k path = show_files (\<lambda>fs. case store_ReadFile (fk_sandbox k) path fs of
     Inl e \<Rightarrow> Inl e | Inr b \<Rightarrow> Inr (''text/plain; charset=utf-8'', b))"

text \<open>The header that makes a browser save the file, its content type and the content.\<close>

definition downloadFile :: "file_call \<Rightarrow> string \<Rightarrow> (string \<times> string \<times> bytes) file_handler" where
  "downloadFile k path = show_files (\<lambda>fs. case store_ReadFile (fk_sandbox k) path fs of
     Inl e \<Rightarrow> Inl e
   | Inr b \<Rightarrow> Inr (''attachment; filename=\"'' @ filepath_Base path @ ''\"'', ''application/octet-stream'', b))"

text \<open>A handler that changes the tree: the operation is recorded, whatever becomes of it.\<close>

definition act_files :: "file_call \<Rightarrow> string \<Rightarrow> string \<Rightarrow> (fs \<Rightarrow> (sandbox_error + unit) \<times> fs) \<Rightarrow> unit file_handler" where
  "act_files k action what f s =
     (case f (snd s) of
        (r, fs') \<Rightarrow>
         ((case r of Inl e \<Rightarrow> (400, Inl (FileRefused e)) | Inr _ \<Rightarrow> (200, Inr ())),
          (audit (fk_call k) action ''file'' what (resultOf r) (fst s), fs')))"

definition writeFile :: "file_call \<Rightarrow> string + string \<times> bytes \<Rightarrow> unit file_handler" where
  "writeFile k body s =
     (case body of
        Inl msg \<Rightarrow> ((400, Inl (FileMessage msg)), s)
      | Inr (path, content) \<Rightarrow> act_files k ''file.write'' path (store_WriteFile (fk_sandbox k) path content) s)"

definition deleteFile :: "file_call \<Rightarrow> string \<Rightarrow> string \<Rightarrow> unit file_handler" where
  "deleteFile k path confirm s =
     (if confirm \<noteq> ''true'' then ((400, Inl (FileMessage ''delete requires confirm=true'')), s)
      else act_files k ''file.delete'' path (store_DeletePath (fk_sandbox k) path) s)"

definition mkdirFile :: "file_call \<Rightarrow> string + string \<Rightarrow> unit file_handler" where
  "mkdirFile k body s =
     (case body of
        Inl msg \<Rightarrow> ((400, Inl (FileMessage msg)), s)
      | Inr path \<Rightarrow> act_files k ''file.mkdir'' path (store_Mkdir (fk_sandbox k) path) s)"

definition moveFile :: "file_call \<Rightarrow> string + string \<times> string \<Rightarrow> unit file_handler" where
  "moveFile k body s =
     (case body of
        Inl msg \<Rightarrow> ((400, Inl (FileMessage msg)), s)
      | Inr (src, dst) \<Rightarrow> act_files k ''file.move'' (src @ '' -> '' @ dst) (store_Move (fk_sandbox k) src dst) s)"

definition copyFile :: "file_call \<Rightarrow> string + string \<times> string \<Rightarrow> unit file_handler" where
  "copyFile k body s =
     (case body of
        Inl msg \<Rightarrow> ((400, Inl (FileMessage msg)), s)
      | Inr (src, dst) \<Rightarrow> act_files k ''file.copy'' (src @ '' -> '' @ dst) (store_Copy (fk_sandbox k) src dst) s)"

text \<open>The form of an upload, up to the point where reading it stops.\<close>

datatype upload = NoFormFile string | UnopenedFile string | UnreadFile string | FormFile bytes

definition uploadFile :: "file_call \<Rightarrow> string \<Rightarrow> string \<Rightarrow> upload \<Rightarrow> unit file_handler" where
  "uploadFile k query form up s =
     (let path = (if query = [] then form else query)
      in case up of
           NoFormFile msg \<Rightarrow> ((400, Inl (FileMessage msg)), s)
         | UnopenedFile msg \<Rightarrow> ((400, Inl (FileMessage msg)), s)
         | UnreadFile msg \<Rightarrow> ((500, Inl (FileMessage msg)), s)
         | FormFile b \<Rightarrow> act_files k ''file.upload'' path (store_WriteFile (fk_sandbox k) path b) s)"

section \<open>What is recorded\<close>

lemma audit_adds:
  assumes "faults (panel_db p) = []" "\<not> (\<exists>r \<in> set (tables (panel_db p) ''audit_events''). by_id (cl_audit cl) r)"
  shows "tables (panel_db (audit cl a tt ti r p)) ''audit_events'' =
    tables (panel_db p) ''audit_events'' @ [make_row ''audit_events'' (audit_cols (cl_audit cl) (cl_now cl) a tt ti r None)]"
proof -
  let ?c = "audit_cols (cl_audit cl) (cl_now cl) a tt ti r None"
  have "sql_insert ''audit_events'' ?c (panel_db p) =
      (Inr (), with_table ''audit_events'' (tables (panel_db p) ''audit_events'' @ [make_row ''audit_events'' ?c]) (panel_db p))"
    by (rule insert_fresh [OF assms(1) _ refl _ assms(2)])
      (simp_all add: unique_cols_def audit_cols_def make_row_def row_not_null_def not_null_cols_def required_cols_def
        column_defaults_def rfc3339_def row_references_def foreign_keys_def)
  then show ?thesis by (simp add: audit_def on_db_eq)
qed

text \<open>The audit row of an operation on files, with the outcome the status shows.\<close>

definition file_record :: "call \<Rightarrow> string \<Rightarrow> string \<Rightarrow> nat \<Rightarrow> row" where
  "file_record cl action what code =
     make_row ''audit_events'' (audit_cols (cl_audit cl) (cl_now cl) action ''file'' what (if code = 200 then ''ok'' else ''error'') None)"

lemma act_files_records:
  assumes "faults (panel_db pn) = []" "\<not> (\<exists>r \<in> set (tables (panel_db pn) ''audit_events''). by_id (cl_audit (fk_call k)) r)"
    and "act_files k action what f (pn, fs) = (res, pn', fs')"
  shows "tables (panel_db pn') ''audit_events'' = tables (panel_db pn) ''audit_events'' @ [file_record (fk_call k) action what (fst res)]"
  using assms(3) audit_adds [OF assms(1,2)]
  by (cases "fst (f fs)") (auto simp: act_files_def file_record_def resultOf_def split: prod.splits)

text \<open>Whatever one of the handlers that may change the file tree does, either exactly one row with the action and its
  outcome joins the audit log, or the request was refused before anything changed.  A delete without
  its confirmation is of the second kind.\<close>

theorem tree_changes_are_recorded:
  assumes "faults (panel_db pn) = []" "\<not> (\<exists>r \<in> set (tables (panel_db pn) ''audit_events''). by_id (cl_audit (fk_call k)) r)"
    and "h \<in> {writeFile k b1, deleteFile k path confirm, mkdirFile k b2, moveFile k b3, copyFile k b4, uploadFile k query form up}"
    and "h (pn, fs) = (res, pn', fs')"
  shows "((\<exists>action what. tables (panel_db pn') ''audit_events'' =
        tables (panel_db pn) ''audit_events'' @ [file_record (fk_call k) action what (fst res)]) \<or>
      (pn' = pn \<and> fs' = fs \<and> fst res \<in> {400, 500})) \<and>
    (h = deleteFile k path confirm \<and> confirm \<noteq> ''true'' \<longrightarrow> pn' = pn \<and> fs' = fs)"
proof
  note act = act_files_records [OF assms(1,2)]
  consider "h = writeFile k b1" | "h = deleteFile k path confirm" | "h = mkdirFile k b2" | "h = moveFile k b3" | "h = copyFile k b4"
    | "h = uploadFile k query form up" using assms(3) by blast
  then show "(\<exists>action what. tables (panel_db pn') ''audit_events'' =
        tables (panel_db pn) ''audit_events'' @ [file_record (fk_call k) action what (fst res)]) \<or>
      (pn' = pn \<and> fs' = fs \<and> fst res \<in> {400, 500})"
    by cases (use assms(4) act in \<open>auto simp: writeFile_def deleteFile_def mkdirFile_def moveFile_def copyFile_def uploadFile_def Let_def
        split: sum.splits prod.splits upload.splits if_splits\<close>)
  show "h = deleteFile k path confirm \<and> confirm \<noteq> ''true'' \<longrightarrow> pn' = pn \<and> fs' = fs"
    using assms(4) by (auto simp: deleteFile_def)
qed

section \<open>What is stored reads back\<close>

lemma walk_written:
  assumes "locate fs kernel_links [] q = Inr r" "fs r = None \<or> (\<exists>x y. fs r = Some (File x y))"
  shows "eval_symlinks (fs(r \<mapsto> File m b)) q = Inr r"
  using locate_existing [OF locate_written [OF assms, of m b], of 255] by (simp add: eval_symlinks_def kernel_links_def)

text \<open>A path whose last component is not a symbolic link.\<close>

definition plain_target :: "fs \<Rightarrow> path \<Rightarrow> bool" where
  "plain_target fs q =
     (case eval_symlinks fs (butlast q) of
        Inl e \<Rightarrow> True
      | Inr parent \<Rightarrow> (case fs (parent @ [last q]) of Some (Link l) \<Rightarrow> False | _ \<Rightarrow> True))"

lemma os_write_file_ok:
  assumes "os_write_file q b mode fs = (Inr u, fs')"
  shows "\<exists>r m. locate fs kernel_links [] q = Inr r \<and> (fs r = None \<or> (\<exists>x y. fs r = Some (File x y))) \<and> fs' = fs(r \<mapsto> File m b)"
  using assms by (auto simp: os_write_file_def split: sum.splits option.splits inode.splits)

lemma locate_clean:
  assumes "locate fs n dest cs = Inr r" "clean_path dest" "fs_ok fs"
  shows "clean_path r"
  using assms
proof (induction fs n dest cs rule: locate.induct)
  case (2 fs n dest c cs)
  consider "c = [] \<or> c = ''.''" | "c = ''..''" | "c \<noteq> []" "c \<noteq> ''.''" "c \<noteq> ''..''" by blast
  then show ?case
  proof cases
    case 1
    with 2(1) [OF 1] "2.prems" show ?thesis by (simp add: locate.simps(2))
  next
    case dotdot: 2
    have "clean_path (butlast dest)" using "2.prems" by (simp add: clean_path_def in_set_butlastD)
    with 2(2) "2.prems" dotdot show ?thesis by (simp add: locate.simps(2))
  next
    case 3
    then have "clean_path (dest @ [c])" "clean_path []" using "2.prems" by (simp_all add: clean_path_def plain_comp_def ball_Un)
    with 3 2 show ?thesis
      by (simp add: locate.simps(2) split: if_splits option.splits inode.splits nat.splits)
  qed
qed simp

text \<open>A file can only be opened in a directory that is there.\<close>

lemma locate_parent:
  assumes "locate fs n dest (cs @ [c]) = Inr r" "n \<le> m"
  shows "\<exists>p. walk fs m dest cs = Inr p"
  using assms
proof (induction fs m dest cs arbitrary: n rule: walk.induct)
  case (2 fs m dest d ds)
  consider "d = [] \<or> d = ''.''" | "d = ''..''" | "d \<noteq> []" "d \<noteq> ''.''" "d \<noteq> ''..''" by blast
  then show ?case
  proof cases
    case 1
    then have "locate fs n dest (ds @ [c]) = Inr r" using "2.prems"(1) by (simp add: locate.simps(2))
    with 2(1) [OF 1] "2.prems"(2) 1 show ?thesis by (simp add: walk.simps(2))
  next
    case dotdot: 2
    then have "locate fs n (butlast dest) (ds @ [c]) = Inr r" using "2.prems"(1) by (simp add: locate.simps(2))
    with 2(2) [of n] "2.prems"(2) dotdot show ?thesis by (simp add: walk.simps(2))
  next
    case plain: 3
    with "2.prems" obtain i where i: "fs (dest @ [d]) = Some i"
      by (auto simp: locate.simps(2) split: option.splits)
    show ?thesis
    proof (cases i)
      case Dir
      with plain 2 i show ?thesis by (simp add: walk.simps(2) locate.simps(2))
    next
      case (File x b)
      with plain 2 i show ?thesis by (simp add: locate.simps(2))
    next
      case (Link l)
      with plain "2.prems" i obtain k where "n = Suc k" by (auto simp: locate.simps(2) split: nat.splits)
      moreover from this "2.prems" obtain j where "m = Suc j" "k \<le> j" by (cases m) auto
      ultimately show ?thesis using plain 2 i Link by (auto simp: walk.simps(2) locate.simps(2))
    qed
  qed
qed simp
lemma written_reads_back:
  assumes "fs_ok fs" "clean_path (sb_root s)" "Resolve fs s p = Inr q" "plain_target fs q"
    and "os_write_file q b mode fs = (Inr u, fs')"
  shows "store_ReadFile s p fs' = Inr b"
proof -
  obtain r m where r: "locate fs kernel_links [] q = Inr r" "fs r = None \<or> (\<exists>x y. fs r = Some (File x y))"
    "fs' = fs(r \<mapsto> File m b)" using os_write_file_ok [OF assms(5)] by blast
  have "prefix (sb_root s) r"
  proof (cases "fs r = None")
    case new: True
    show ?thesis
    proof (cases "eval_symlinks fs (butlast q)")
      case (Inr parent)
      then have "\<forall>l. fs (parent @ [last q]) \<noteq> Some (Link l)" using assms(4) by (auto simp: plain_target_def)
      with Resolve_target_within [OF assms(1-3) r(1)] new Inr show ?thesis by blast
    next
      case (Inl e)
      have "q \<noteq> []" using r(1) new assms(1) by (auto simp: fs_ok_def)
      then have "locate fs kernel_links [] (butlast q @ [last q]) = Inr r" using r(1) by simp
      then have "\<exists>p. walk fs 255 [] (butlast q) = Inr p" by (rule locate_parent) (simp add: kernel_links_def)
      with Inl show ?thesis by (simp add: eval_symlinks_def)
    qed
  qed (use Resolve_target_within [OF assms(1-3) r(1)] in blast)
  moreover have "clean_path r" by (rule locate_clean [OF r(1) _ assms(1)]) (simp add: clean_path_def)
  ultimately have "isWithin (sb_root s) r" by (simp add: isWithin_prefix)
  moreover have e: "eval_symlinks fs' q = Inr r" unfolding r(3) by (rule walk_written [OF r(1,2)])
  ultimately have "Resolve fs' s p = Inr q"
    using assms(3) by (auto simp: Resolve_def Let_def resolveExistingAncestor.simps [of fs' q q] split: if_splits sum.splits)
  moreover have "os_read_file fs' q = Inr b"
    using locate_written [OF r(1,2), of m b] r(3) by (simp add: os_read_file_def os_stat_def)
  ultimately show ?thesis by (simp add: store_ReadFile_def)
qed

lemma store_WriteFile_ok:
  "store_WriteFile s p b fs = (Inr u, fs') \<Longrightarrow> \<exists>q. Resolve fs s p = Inr q \<and> os_write_file q b 420 fs = (Inr (), fs')"
  by (auto simp: store_WriteFile_def split: sum.splits prod.splits)

lemma store_Copy_ok:
  assumes "store_Copy s src dst fs = (Inr u, fs')"
  shows "\<exists>b q mode. store_ReadFile s src fs = Inr b \<and> Resolve fs s dst = Inr q \<and> os_write_file q b mode fs = (Inr (), fs')"
  using assms unfolding store_Copy_def store_ReadFile_def
  by (auto split: sum.splits prod.splits inode.splits)

lemma act_files_ok:
  "act_files k action what f (pn, fs) = ((200, r), s') \<Longrightarrow> \<exists>u. f fs = (Inr u, snd s')"
  by (cases "fst (f fs)") (auto simp: act_files_def split: prod.splits)

lemma status_response: "fst (fst x) = c \<Longrightarrow> \<exists>r s'. x = ((c, r), s')"
  by (cases x) auto

lemma readFile_of:
  "store_ReadFile (fk_sandbox k) p (snd s) = Inr b \<Longrightarrow> fst (readFile k p s) = (200, Inr (''text/plain; charset=utf-8'', b))"
  by (simp add: readFile_def show_files_def)

text \<open>C33: What a request that is answered 200 stored is what the editor loads again: written and uploaded content under
  the path it was stored at, and the content of a copied file under the path of the copy, as long as
  the last component of that path is not a symbolic link.\<close>

theorem stored_content_reads_back:
  assumes "fs_ok fs" "clean_path (sb_root (fk_sandbox k))" "\<forall>q. Resolve fs (fk_sandbox k) p = Inr q \<longrightarrow> plain_target fs q"
  shows "(fst (fst (writeFile k (Inr (p, b)) (pn, fs))) = 200 \<longrightarrow>
      fst (readFile k p (snd (writeFile k (Inr (p, b)) (pn, fs)))) = (200, Inr (''text/plain; charset=utf-8'', b))) \<and>
    (fst (fst (uploadFile k [] p (FormFile b) (pn, fs))) = 200 \<longrightarrow>
      fst (readFile k p (snd (uploadFile k [] p (FormFile b) (pn, fs)))) = (200, Inr (''text/plain; charset=utf-8'', b))) \<and>
    (fst (fst (copyFile k (Inr (src, p)) (pn, fs))) = 200 \<longrightarrow>
      fst (readFile k p (snd (copyFile k (Inr (src, p)) (pn, fs)))) = fst (readFile k src (pn, fs)))"
proof (intro conjI impI)
  have w: "store_ReadFile (fk_sandbox k) p fs' = Inr b"
    if "store_WriteFile (fk_sandbox k) p b fs = (Inr u, fs')" for fs' u
    using store_WriteFile_ok [OF that] written_reads_back [OF assms(1,2)] assms(3) by blast
  show "fst (readFile k p (snd (writeFile k (Inr (p, b)) (pn, fs)))) = (200, Inr (''text/plain; charset=utf-8'', b))"
    if ok: "fst (fst (writeFile k (Inr (p, b)) (pn, fs))) = 200"
  proof -
    obtain r s' where s': "writeFile k (Inr (p, b)) (pn, fs) = ((200, r), s')"
      using status_response [OF ok] by blast
    then have "act_files k ''file.write'' p (store_WriteFile (fk_sandbox k) p b) (pn, fs) = ((200, r), s')" by (simp add: writeFile_def)
    with w act_files_ok show ?thesis unfolding s' by (fastforce intro: readFile_of)
  qed
  show "fst (readFile k p (snd (uploadFile k [] p (FormFile b) (pn, fs)))) = (200, Inr (''text/plain; charset=utf-8'', b))"
    if ok: "fst (fst (uploadFile k [] p (FormFile b) (pn, fs))) = 200"
  proof -
    obtain r s' where s': "uploadFile k [] p (FormFile b) (pn, fs) = ((200, r), s')"
      using status_response [OF ok] by blast
    then have "act_files k ''file.upload'' p (store_WriteFile (fk_sandbox k) p b) (pn, fs) = ((200, r), s')" by (simp add: uploadFile_def)
    with w act_files_ok show ?thesis unfolding s' by (fastforce intro: readFile_of)
  qed
  show "fst (readFile k p (snd (copyFile k (Inr (src, p)) (pn, fs)))) = fst (readFile k src (pn, fs))"
    if ok: "fst (fst (copyFile k (Inr (src, p)) (pn, fs))) = 200"
  proof -
    obtain r s' where s': "copyFile k (Inr (src, p)) (pn, fs) = ((200, r), s')"
      using status_response [OF ok] by blast
    then have "act_files k ''file.copy'' (src @ '' -> '' @ p) (store_Copy (fk_sandbox k) src p) (pn, fs) = ((200, r), s')"
      by (simp add: copyFile_def)
    then obtain u where u: "store_Copy (fk_sandbox k) src p fs = (Inr u, snd s')" using act_files_ok by blast
    obtain c q mode where c: "store_ReadFile (fk_sandbox k) src fs = Inr c" "Resolve fs (fk_sandbox k) p = Inr q"
      "os_write_file q c mode fs = (Inr (), snd s')" using store_Copy_ok [OF u] by blast
    have "store_ReadFile (fk_sandbox k) p (snd s') = Inr c"
      using written_reads_back [OF assms(1,2) c(2) _ c(3)] assms(3) c(2) by blast
    then show ?thesis unfolding s' using readFile_of [of k p s' c] readFile_of [of k src "(pn, fs)" c] c(1) by simp
  qed
qed

section \<open>The listing\<close>

text \<open>A tree whose names have no slash, as the kernel's have none, and a kernel that yields each entry once.\<close>

definition kernel_ok :: "dir_kernel \<Rightarrow> fs \<Rightarrow> bool" where
  "kernel_ok k fs \<longleftrightarrow> (\<forall>p. fs p \<noteq> None \<longrightarrow> slash_free p) \<and>
     (\<forall>d. distinct (kn_names k d) \<and> (\<forall>c. c \<in> set (kn_names k d) \<longleftrightarrow> fs (d @ [c]) \<noteq> None))"

lemma clean_abs_slash_free: "slash_free (clean_abs p)"
  using join_path_slash_free [of "[]" p] by (simp add: clean_abs_def join_path_def slash_free_def)

lemma Resolve_slash_free:
  "Resolve fs s p = Inr q \<Longrightarrow> slash_free (sb_root s) \<Longrightarrow> slash_free q"
  by (auto simp: Resolve_def Let_def join_path_slash_free clean_abs_slash_free split: if_splits sum.splits)

lemma show_path_ne [simp]: "show_path p \<noteq> []"
  by (cases p) (simp_all add: show_path_def)

lemma listed_file_reads:
  assumes "fs_ok fs" "kernel_ok k fs" "clean_path (sb_root s)" "slash_free (sb_root s)" "Resolve fs s p = Inr q"
    and "locate fs kernel_links [] q = Inr d" "fs d = Some Dir" "fs (d @ [c]) = Some (File mode b)"
  shows "store_ReadFile s (show_path (join_path q c)) fs = Inr b"
proof -
  have c: "plain_comp c" "CHR ''/'' \<notin> set c"
    using assms(1,2,8) by (auto simp: fs_ok_def kernel_ok_def clean_path_def slash_free_def)
  have j: "join_path q c = q @ [c]" using c by (simp add: join_path_def split_on_plain plain_comp_def)
  have q: "clean_path (q @ [c])" "slash_free (q @ [c])"
    using Resolve_clean [OF assms(5,3)] Resolve_slash_free [OF assms(5,4)] c by (auto simp: clean_path_def slash_free_def)
  have e: "eval_symlinks fs q = Inr d"
    using locate_existing [OF assms(6), of 255] assms(7) by (simp add: eval_symlinks_def kernel_links_def)
  have w: "eval_symlinks fs (q @ [c]) = Inr (d @ [c])"
    using walk_snoc [of fs 255 "[]" q d c] e c(1) assms(7,8) by (simp add: eval_symlinks_def)
  have l: "locate fs kernel_links [] (q @ [c]) = Inr (d @ [c])"
    by (rule locate_snoc [OF assms(6) c(1) assms(8) _ assms(7)]) simp
  have "prefix (sb_root s) d" by (rule Resolve_existing_within [OF assms(5) e assms(1)])
  then have "prefix (sb_root s) (d @ [c])" by (rule prefix_prefix)
  moreover have "clean_path (d @ [c])" using assms(1,8) by (auto simp: fs_ok_def)
  ultimately have "isWithin (sb_root s) (d @ [c])" by (simp add: isWithin_prefix)
  with w have "Resolve fs s (show_path (q @ [c])) = Inr (q @ [c])"
    using clean_abs_show_path [OF q(2,1)]
    by (auto simp: Resolve_def Let_def resolveExistingAncestor.simps [of fs "q @ [c]" "q @ [c]"])
  then show ?thesis unfolding j using l assms(8) by (simp add: store_ReadFile_def os_read_file_def os_stat_def)
qed

text \<open>The listing of a directory has each of its entries once, in ascending order of the names, and says which are
  directories; and the path it shows for a file opens that file, with its content.\<close>

theorem listed_files_read_back:
  assumes "fs_ok fs" "kernel_ok (fk_kernel k) fs" "clean_path (sb_root (fk_sandbox k))" "slash_free (sb_root (fk_sandbox k))"
    and "listFiles k p (pn, fs) = ((200, Inr es), s')"
  shows "\<exists>d. fs d = Some Dir \<and> sorted (map fe_Name es) \<and> distinct (map fe_Name es) \<and>
    fe_Name ` set es = {c. fs (d @ [c]) \<noteq> None} \<and>
    (\<forall>e \<in> set es. (fe_IsDir e \<longleftrightarrow> fs (d @ [fe_Name e]) = Some Dir) \<and>
       (\<forall>mode b. fs (d @ [fe_Name e]) = Some (File mode b) \<longrightarrow>
          fst (readFile k (show_path (fe_Path e)) (pn, fs)) = (200, Inr (''text/plain; charset=utf-8'', b))))"
proof -
  let ?names = "\<lambda>d. sort (kn_names (fk_kernel k) d)"
  obtain q d where q: "Resolve fs (fk_sandbox k) p = Inr q" "locate fs kernel_links [] q = Inr d" "fs d = Some Dir"
    and es: "es = map (file_entry_of q) (map (\<lambda>c. (c, fs (d @ [c]), kn_info (fk_kernel k) (d @ [c]))) (?names d))"
    using assms(5) by (auto simp: listFiles_def show_files_def ListPath_def os_read_dir_def
        split: sum.splits option.splits inode.splits)
  have name: "fe_Name (file_entry_of q (c, i, f)) = c" "fe_Path (file_entry_of q (c, i, f)) = join_path q c"
    "fe_IsDir (file_entry_of q (c, i, f)) \<longleftrightarrow> i = Some Dir" for c i f
    by (simp_all add: file_entry_of_def Let_def split: option.splits)
  have names: "map fe_Name es = ?names d" by (simp add: es comp_def name)
  have k: "distinct (kn_names (fk_kernel k) d)" "set (kn_names (fk_kernel k) d) = {c. fs (d @ [c]) \<noteq> None}"
    using assms(2) by (auto simp: kernel_ok_def)
  have "fe_Name ` set es = set (map fe_Name es)" by simp
  then have n: "fe_Name ` set es = {c. fs (d @ [c]) \<noteq> None}" unfolding names by (simp add: k)
  have "(fe_IsDir e \<longleftrightarrow> fs (d @ [fe_Name e]) = Some Dir) \<and> fe_Path e = join_path q (fe_Name e)" if "e \<in> set es" for e
    using that by (auto simp: es name)
  with q(3) n k(1) show ?thesis
    using readFile_of [of k _ "(pn, fs)"] listed_file_reads [OF assms(1-4) q]
    by (intro exI [of _ d]) (auto simp: names)
qed

section \<open>Witnesses\<close>

definition demo_file_call :: file_call where
  "demo_file_call =
     \<lparr> fk_call = demo_call ''u'',
       fk_kernel = \<lparr> kn_names = (\<lambda>d. if d = [] then [''var'', ''private''] else if d = [''private''] then [''home'']
                     else if d = [''private'', ''home''] then [''notes''] else []), kn_info = (\<lambda>_. None) \<rparr>,
       fk_sandbox = \<lparr> sb_root = [''private'', ''home''] \<rparr> \<rparr>"

lemma tree_changes_are_recorded_witness:
  "snd (deleteFile demo_file_call ''notes'' [] (demo_panel [] [], aliased_fs)) = (demo_panel [] [], aliased_fs)"
proof -
  let ?p = "demo_panel [] []"
  have "faults (panel_db ?p) = []" "\<not> (\<exists>r \<in> set (tables (panel_db ?p) ''audit_events''). by_id (cl_audit (fk_call demo_file_call)) r)"
    by (simp_all add: demo_panel_def panel_db_def)
  note t = tree_changes_are_recorded [OF this, where path = "''notes''" and confirm = "[]" and h = "deleteFile demo_file_call ''notes'' []"]
  show ?thesis by (cases "deleteFile demo_file_call ''notes'' [] (?p, aliased_fs)") (use t in auto)
qed

lemma stored_content_reads_back_witness:
  "fst (readFile demo_file_call ''notes'' (snd (writeFile demo_file_call (Inr (''notes'', ''new'')) (demo_panel [] [], aliased_fs)))) =
     (200, Inr (''text/plain; charset=utf-8'', ''new''))"
proof -
  have s: "fk_sandbox demo_file_call = \<lparr> sb_root = [''private'', ''home''] \<rparr>" by (simp add: demo_file_call_def)
  have "eval_symlinks aliased_fs [''private'', ''home''] = Inr [''private'', ''home'']"
    by (simp add: eval_symlinks_def walk.simps(2) aliased_fs_def)
  then have p: "\<forall>q. Resolve aliased_fs (fk_sandbox demo_file_call) ''notes'' = Inr q \<longrightarrow> plain_target aliased_fs q"
    unfolding s demo_resolve by (simp add: plain_target_def aliased_fs_def)
  have "os_write_file [''private'', ''home'', ''notes''] ''new'' 420 aliased_fs = (Inr (), aliased_fs([''private'', ''home'', ''notes''] \<mapsto> File 420 ''new''))"
    using demo_locate by (simp add: os_write_file_def aliased_fs_def)
  then have "fst (fst (writeFile demo_file_call (Inr (''notes'', ''new'')) (demo_panel [] [], aliased_fs))) = 200"
    using demo_resolve by (simp add: writeFile_def act_files_def store_WriteFile_def s)
  then show ?thesis
    using stored_content_reads_back [OF demo_fs_ok _ p, of "''new''" "demo_panel [] []" "[]"] demo_root_clean by (simp add: s)
qed

lemma listed_files_read_back_witness:
  "\<exists>es d. fst (listFiles demo_file_call [] (demo_panel [] [], aliased_fs)) = (200, Inr es) \<and>
     aliased_fs d = Some Dir \<and> fe_Name ` set es = {c. aliased_fs (d @ [c]) \<noteq> None}"
proof -
  have s: "fk_sandbox demo_file_call = \<lparr> sb_root = [''private'', ''home''] \<rparr>" by (simp add: demo_file_call_def)
  have k: "kernel_ok (fk_kernel demo_file_call) aliased_fs"
    by (auto simp: kernel_ok_def demo_file_call_def aliased_fs_def slash_free_def Cons_eq_append_conv append_eq_Cons_conv split: if_splits)
  have e: "eval_symlinks aliased_fs [''private'', ''home''] = Inr [''private'', ''home'']"
    "locate aliased_fs kernel_links [] [''private'', ''home''] = Inr [''private'', ''home'']"
    by (simp_all add: eval_symlinks_def walk.simps(2) locate.simps(2) aliased_fs_def)
  have "Resolve aliased_fs \<lparr> sb_root = [''private'', ''home''] \<rparr> [] = Inr [''private'', ''home'']"
    using e(1) by (simp add: Resolve_def Let_def is_abs_def has_prefix_def join_path_def resolveExistingAncestor.simps isWithin_def)
  then have "\<exists>es. listFiles demo_file_call [] (demo_panel [] [], aliased_fs) = ((200, Inr es), (demo_panel [] [], aliased_fs))"
    using e(2) by (simp add: listFiles_def show_files_def ListPath_def os_read_dir_def s aliased_fs_def)
  then obtain es where es: "listFiles demo_file_call [] (demo_panel [] [], aliased_fs) = ((200, Inr es), (demo_panel [] [], aliased_fs))" by blast
  have "clean_path (sb_root (fk_sandbox demo_file_call))" "slash_free (sb_root (fk_sandbox demo_file_call))"
    by (simp_all add: s clean_path_def plain_comp_def slash_free_def)
  from listed_files_read_back [OF demo_fs_ok k this es] obtain d
    where "aliased_fs d = Some Dir" "fe_Name ` set es = {c. aliased_fs (d @ [c]) \<noteq> None}" by blast
  with es show ?thesis by (intro exI [of _ es] exI [of _ d]) simp
qed

end
