(* ===== verification/Config.thy ===== *)
theory Config
  imports RealPaths JsonDecode SessionAuth Decimal
begin

text \<open>
  The daemon's directory and its configuration: \<open>EnsureDirs\<close>, \<open>migrateLegacyDir\<close>, \<open>LoadOrInitConfig\<close> and
  \<open>SaveConfig\<close> of \<open>internal/storage/store.go\<close>.  The state is the file tree.

  The text of a JSON document is an argument: a parser into values and a printer of them.  What the
  struct's fields get from a value, and which value a struct is printed as, is modelled.  Times are
  the texts they are written as, and which texts are times is an argument.
\<close>

record config =
  cfg_Token :: string
  cfg_Port :: int
  cfg_CreatedAt :: string
  cfg_SessionSecret :: string

record config_env =
  ce_home :: "string + path"
  ce_parse :: "bytes \<Rightarrow> string + json"
  ce_print :: "json \<Rightarrow> bytes"
  ce_time :: "string \<Rightarrow> bool"
  ce_rand :: "string + bytes"
  ce_uuid :: string
  ce_now :: string

datatype config_error = NoHome string | ConfigOs os_error | ConfigSyntax string | ConfigType | NoSecret string

section \<open>Directories\<close>

definition legacyConfigDirNames :: "string list" where
  "legacyConfigDirNames = [''.alresia-voltpanel'', ''.alresia-volt'']"

definition configPath :: "path \<Rightarrow> path" where "configPath dir = dir @ [''config.json'']"
definition appsPath :: "path \<Rightarrow> path" where "appsPath dir = dir @ [''apps.json'']"

text \<open>The files that can be read are copied; the first that cannot be written ends the import.\<close>

fun import_files :: "path \<Rightarrow> path \<Rightarrow> string list \<Rightarrow> fs \<Rightarrow> (os_error + unit) \<times> fs" where
  "import_files legacy newDir [] fs = (Inr (), fs)"
| "import_files legacy newDir (f # files) fs =
     (case os_read_file fs (legacy @ [f]) of
        Inl e \<Rightarrow> import_files legacy newDir files fs
      | Inr b \<Rightarrow>
         (case os_write_file (newDir @ [f]) b 384 fs of
            (Inl e, fs1) \<Rightarrow> (Inl e, fs1)
          | (Inr _, fs1) \<Rightarrow> import_files legacy newDir files fs1))"

fun import_first :: "path \<Rightarrow> path \<Rightarrow> string list \<Rightarrow> fs \<Rightarrow> (os_error + unit) \<times> fs" where
  "import_first home newDir [] fs = (Inr (), fs)"
| "import_first home newDir (name # names) fs =
     (if os_stat fs (home @ [name]) \<noteq> Inr Dir then import_first home newDir names fs
      else (case os_mkdir_all newDir fs of
              (Inl e, fs1) \<Rightarrow> (Inl e, fs1)
            | (Inr _, fs1) \<Rightarrow> import_files (home @ [name]) newDir [''config.json'', ''apps.json''] fs1))"

definition migrateLegacyDir :: "path \<Rightarrow> path \<Rightarrow> fs \<Rightarrow> (os_error + unit) \<times> fs" where
  "migrateLegacyDir home newDir fs =
     (case os_stat fs newDir of
        Inr _ \<Rightarrow> (Inr (), fs)
      | Inl _ \<Rightarrow> import_first home newDir legacyConfigDirNames fs)"

text \<open>A failed import is only logged.\<close>

definition EnsureDirs :: "config_env \<Rightarrow> fs \<Rightarrow> (config_error + path) \<times> fs" where
  "EnsureDirs e fs =
     (case ce_home e of
        Inl msg \<Rightarrow> (Inl (NoHome msg), fs)
      | Inr home \<Rightarrow>
         (let d = home @ [''.volt'']; fs1 = snd (migrateLegacyDir home d fs)
          in case os_mkdir_all (d @ [''logs'']) fs1 of
               (Inl x, fs2) \<Rightarrow> (Inl (ConfigOs x), fs2)
             | (Inr _, fs2) \<Rightarrow>
                (case os_mkdir_all (d @ [''runtime'']) fs2 of
                   (Inl x, fs3) \<Rightarrow> (Inl (ConfigOs x), fs3)
                 | (Inr _, fs3) \<Rightarrow> (Inr d, fs3))))"

section \<open>The configuration\<close>

definition config_json :: "config \<Rightarrow> json" where
  "config_json c =
     JObj ([(''token'', JStr (cfg_Token c)), (''port'', JNum (cfg_Port c)), (''createdAt'', JStr (cfg_CreatedAt c))] @
           (if cfg_SessionSecret c = [] then [] else [(''sessionSecret'', JStr (cfg_SessionSecret c))]))"

definition dec_time :: "(string \<Rightarrow> bool) \<Rightarrow> string \<Rightarrow> json \<Rightarrow> string option" where
  "dec_time ok cur j = (case j of JStr s \<Rightarrow> if ok s then Some s else None | JNull \<Rightarrow> Some cur | _ \<Rightarrow> None)"

definition zero_time :: string where "zero_time = ''0001-01-01T00:00:00Z''"

definition json_config :: "(string \<Rightarrow> bool) \<Rightarrow> json \<Rightarrow> config option" where
  "json_config ok j =
     (case unmarshal_object j of
        None \<Rightarrow> None
      | Some kvs \<Rightarrow>
         (case (str_field ''token'' kvs, json_field dec_int ''port'' 0 kvs, json_field (dec_time ok) ''createdAt'' zero_time kvs,
                str_field ''sessionSecret'' kvs) of
            (Some tok, Some port, Some created, Some secret) \<Rightarrow>
              Some \<lparr> cfg_Token = tok, cfg_Port = port, cfg_CreatedAt = created, cfg_SessionSecret = secret \<rparr>
          | _ \<Rightarrow> None))"

definition SaveConfig :: "config_env \<Rightarrow> config \<Rightarrow> fs \<Rightarrow> (config_error + unit) \<times> fs" where
  "SaveConfig e c fs =
     (case EnsureDirs e fs of
        (Inl x, fs1) \<Rightarrow> (Inl x, fs1)
      | (Inr d, fs1) \<Rightarrow>
         (case os_write_file (configPath d) (ce_print e (config_json c)) 384 fs1 of
            (Inl x, fs2) \<Rightarrow> (Inl (ConfigOs x), fs2) | (Inr _, fs2) \<Rightarrow> (Inr (), fs2)))"

text \<open>A configuration that was chosen counts when it could be saved.\<close>

definition saved_config :: "config_env \<Rightarrow> config \<Rightarrow> fs \<Rightarrow> (config_error + config) \<times> fs" where
  "saved_config e c fs = (case SaveConfig e c fs of (Inl x, fs1) \<Rightarrow> (Inl x, fs1) | (Inr _, fs1) \<Rightarrow> (Inr c, fs1))"

definition load_config :: "config_env \<Rightarrow> bytes \<Rightarrow> fs \<Rightarrow> (config_error + config) \<times> fs" where
  "load_config e b fs =
     (case ce_parse e b of
        Inl msg \<Rightarrow> (Inl (ConfigSyntax msg), fs)
      | Inr j \<Rightarrow>
         (case json_config (ce_time e) j of
            None \<Rightarrow> (Inl ConfigType, fs)
          | Some c \<Rightarrow>
             (if cfg_SessionSecret c = []
              then (case NewSessionSecret (ce_rand e) of
                      Inl msg \<Rightarrow> (Inl (NoSecret msg), fs)
                    | Inr secret \<Rightarrow> saved_config e (c\<lparr> cfg_SessionSecret := secret \<rparr>) fs)
              else (Inr c, fs))))"

definition LoadOrInitConfig :: "config_env \<Rightarrow> fs \<Rightarrow> (config_error + config) \<times> fs" where
  "LoadOrInitConfig e fs =
     (case EnsureDirs e fs of
        (Inl x, fs1) \<Rightarrow> (Inl x, fs1)
      | (Inr d, fs1) \<Rightarrow>
         (case os_stat fs1 (configPath d) of
            Inr _ \<Rightarrow> (case os_read_file fs1 (configPath d) of
                        Inl x \<Rightarrow> (Inl (ConfigOs x), fs1)
                      | Inr b \<Rightarrow> load_config e b fs1)
          | Inl _ \<Rightarrow>
             (case NewSessionSecret (ce_rand e) of
                Inl msg \<Rightarrow> (Inl (NoSecret msg), fs1)
              | Inr secret \<Rightarrow>
                 saved_config e \<lparr> cfg_Token = ce_uuid e, cfg_Port = 7788, cfg_CreatedAt = ce_now e, cfg_SessionSecret = secret \<rparr> fs1)))"

section \<open>What is saved is what is loaded\<close>

lemma json_config_roundtrip:
  assumes "in_range64 (cfg_Port c)" "ok (cfg_CreatedAt c)"
  shows "json_config ok (config_json c) = Some c"
proof -
  have k: "equal_fold ''token'' ''token''" "\<not> equal_fold ''token'' ''port''" "\<not> equal_fold ''token'' ''createdAt''" "\<not> equal_fold ''token'' ''sessionSecret''"
    "\<not> equal_fold ''port'' ''token''" "equal_fold ''port'' ''port''" "\<not> equal_fold ''port'' ''createdAt''" "\<not> equal_fold ''port'' ''sessionSecret''"
    "\<not> equal_fold ''createdAt'' ''token''" "\<not> equal_fold ''createdAt'' ''port''" "equal_fold ''createdAt'' ''createdAt''" "\<not> equal_fold ''createdAt'' ''sessionSecret''"
    "\<not> equal_fold ''sessionSecret'' ''token''" "\<not> equal_fold ''sessionSecret'' ''port''" "\<not> equal_fold ''sessionSecret'' ''createdAt''"
    "equal_fold ''sessionSecret'' ''sessionSecret''" by code_simp+
  show ?thesis
    using assms by (simp add: json_config_def config_json_def unmarshal_object_def k dec_string_def dec_int_def dec_time_def)
qed

lemma json_config_ranges:
  assumes "json_config ok j = Some c" "ok zero_time"
  shows "in_range64 (cfg_Port c) \<and> ok (cfg_CreatedAt c)"
proof -
  have i: "json_field dec_int f x kvs = Some y \<Longrightarrow> in_range64 x \<Longrightarrow> in_range64 y" for f x y kvs
    by (induction kvs arbitrary: x) (auto simp: dec_int_def split: if_splits json.splits option.splits)
  have t: "json_field (dec_time ok) f x kvs = Some y \<Longrightarrow> ok x \<Longrightarrow> ok y" for f x y kvs
    by (induction kvs arbitrary: x) (auto simp: dec_time_def split: if_splits json.splits option.splits)
  have "in_range64 0" by (simp add: in_range64_def)
  with assms i t show ?thesis by (auto simp: json_config_def split: option.splits)
qed

section \<open>The daemon's directory\<close>

text \<open>No link on the way to the directory or below it.\<close>

definition link_free :: "path \<Rightarrow> fs \<Rightarrow> bool" where
  "link_free d fs \<longleftrightarrow> clean_path d \<and> fs [] = Some Dir \<and> (\<forall>q l. prefix q d \<or> prefix d q \<longrightarrow> fs q \<noteq> Some (Link l))"

definition settled :: "path \<Rightarrow> fs \<Rightarrow> bool" where
  "settled d fs \<longleftrightarrow> link_free d fs \<and> real_dirs fs (d @ [''logs'']) \<and> real_dirs fs (d @ [''runtime''])"

lemma link_free_straight: "link_free d fs \<Longrightarrow> plain_comp f \<Longrightarrow> straight fs (d @ [f])"
  by (auto simp: link_free_def straight_def clean_path_def prefix_snoc)

lemma link_free_straight_dir: "link_free d fs \<Longrightarrow> straight fs d"
  by (auto simp: link_free_def straight_def)

lemma link_free_mkdir:
  assumes "os_mkdir_all p fs = (r, fs')" "straight fs p" "link_free d fs"
  shows "link_free d fs'"
proof -
  note m = mkdir_at [OF assms(1,2)]
  have "fs' [] = Some Dir" using m [where q = "[]"] assms(3) by (auto simp: link_free_def)
  moreover have "fs' q \<noteq> Some (Link l)" if "prefix q d \<or> prefix d q" for q l
    using m [where q = q] assms(3) that by (auto simp: link_free_def)
  ultimately show ?thesis using assms(3) by (simp add: link_free_def)
qed

lemma link_free_write:
  assumes "os_write_file (d @ [f]) b mode fs = (r, fs')" "plain_comp f" "link_free d fs"
  shows "link_free d fs'"
proof -
  note w = write_at [OF link_free_straight [OF assms(3,2)] assms(1)]
  have "fs' [] = Some Dir" using w(1) [where q = "[]"] assms(3) by (simp add: link_free_def)
  moreover have "fs' q \<noteq> Some (Link l)" if "prefix q d \<or> prefix d q" for q l
    using w(1) [where q = q] w(2) [where l = l] assms(3) that by (cases "q = d @ [f]") (auto simp: link_free_def)
  ultimately show ?thesis using assms(3) by (simp add: link_free_def)
qed

lemma import_files_link_free:
  "import_files legacy d files fs = (r, fs') \<Longrightarrow> \<forall>f \<in> set files. plain_comp f \<Longrightarrow> link_free d fs \<Longrightarrow> link_free d fs'"
proof (induction files arbitrary: fs)
  case (Cons f files)
  then show ?case
    using link_free_write [of d f _ 384 fs] by (auto split: sum.splits prod.splits)
qed simp

lemma volt_names: "plain_comp ''config.json''" "plain_comp ''apps.json''" "plain_comp ''logs''" "plain_comp ''runtime''"
  by (simp_all add: plain_comp_def)

lemma import_first_link_free:
  "import_first home d names fs = (r, fs') \<Longrightarrow> link_free d fs \<Longrightarrow> link_free d fs'"
proof (induction names arbitrary: fs)
  case (Cons n names)
  show ?case
  proof (cases "os_stat fs (home @ [n]) = Inr Dir")
    case True
    obtain x fs1 where m: "os_mkdir_all d fs = (x, fs1)" by (cases "os_mkdir_all d fs")
    have "link_free d fs1" by (rule link_free_mkdir [OF m link_free_straight_dir [OF Cons.prems(2)] Cons.prems(2)])
    then show ?thesis
      using Cons.prems(1) True m import_files_link_free [of "home @ [n]" d "[''config.json'', ''apps.json'']" fs1 r fs'] volt_names
      by (cases x) auto
  qed (use Cons in simp)
qed simp

lemma migrate_link_free: "link_free d fs \<Longrightarrow> link_free d (snd (migrateLegacyDir home d fs))"
  using import_first_link_free [of home d legacyConfigDirNames fs]
  by (cases "import_first home d legacyConfigDirNames fs") (simp add: migrateLegacyDir_def split: sum.splits)

lemma EnsureDirs_settles:
  assumes "EnsureDirs e fs = (Inr d, fs')" "\<And>home. ce_home e = Inr home \<Longrightarrow> link_free (home @ [''.volt'']) fs"
  shows "\<exists>home. ce_home e = Inr home \<and> d = home @ [''.volt''] \<and> settled d fs'"
proof -
  obtain home where home: "ce_home e = Inr home" using assms(1) by (cases "ce_home e") (simp_all add: EnsureDirs_def)
  let ?d = "home @ [''.volt'']"
  define fs1 where "fs1 = snd (migrateLegacyDir home ?d fs)"
  have l1: "link_free ?d fs1" unfolding fs1_def by (rule migrate_link_free [OF assms(2) [OF home]])
  obtain fs2 where m1: "os_mkdir_all (?d @ [''logs'']) fs1 = (Inr (), fs2)" and m2: "os_mkdir_all (?d @ [''runtime'']) fs2 = (Inr (), fs')"
    and d: "d = ?d"
    using assms(1) home by (auto simp: EnsureDirs_def Let_def fs1_def split: sum.splits prod.splits)
  have s1: "straight fs1 (?d @ [''logs''])" using link_free_straight [OF l1 volt_names(3)] by simp
  have l2: "link_free ?d fs2" by (rule link_free_mkdir [OF m1 s1 l1])
  have s2: "straight fs2 (?d @ [''runtime''])" using link_free_straight [OF l2 volt_names(4)] by simp
  have l3: "link_free ?d fs'" by (rule link_free_mkdir [OF m2 s2 l2])
  have r1: "real_dirs fs2 (?d @ [''logs''])" using mkdir_ok [OF m1 s1] l1 by (simp add: link_free_def)
  have r2: "real_dirs fs' (?d @ [''runtime''])" using mkdir_ok [OF m2 s2] l2 by (simp add: link_free_def)
  have "real_dirs fs' (?d @ [''logs''])"
    unfolding real_dirs_def
  proof (intro conjI allI impI)
    show "clean_path (?d @ [''logs''])" using r1 by (simp add: real_dirs_def)
    show "fs' q = Some Dir" if "prefix q (?d @ [''logs''])" for q
      using r1 that mkdir_at [OF m2 s2, where q = q] by (auto simp: real_dirs_def)
  qed
  with l3 r2 home d show ?thesis by (auto simp: settled_def)
qed

lemma EnsureDirs_settled:
  assumes "ce_home e = Inr home" "settled (home @ [''.volt'']) fs"
  shows "EnsureDirs e fs = (Inr (home @ [''.volt'']), fs)"
proof -
  let ?d = "home @ [''.volt'']"
  have r: "real_dirs fs (?d @ [''logs''])" "real_dirs fs (?d @ [''runtime''])" using assms(2) by (simp_all add: settled_def)
  have "real_dirs fs ?d" using r(1) by (auto simp: real_dirs_def clean_path_def prefix_snoc)
  then have "migrateLegacyDir home ?d fs = (Inr (), fs)" by (simp add: migrateLegacyDir_def stat_real)
  moreover have "os_mkdir_all (?d @ [x]) fs = (Inr (), fs)" if "real_dirs fs (?d @ [x])" for x
    using mkdir_from_real [of fs "[]" "?d @ [x]"] that by (simp add: os_mkdir_all_def)
  ultimately show ?thesis using assms(1) r by (simp add: EnsureDirs_def Let_def)
qed

section \<open>The configuration is chosen once\<close>

lemma Std_Encode_ne: "b \<noteq> [] \<Longrightarrow> Std_Encode b \<noteq> []"
  using Std_roundtrip [of b] Std_roundtrip [of "[]"] by (auto simp: Std_Encode_def raw_encode_def)

text \<open>The directory holds a configuration that is read as \<open>c\<close>, and has all it needs.\<close>

definition config_kept :: "config_env \<Rightarrow> path \<Rightarrow> config \<Rightarrow> fs \<Rightarrow> bool" where
  "config_kept e d c fs \<longleftrightarrow> settled d fs \<and> cfg_SessionSecret c \<noteq> [] \<and>
     (\<exists>b j. os_read_file fs (configPath d) = Inr b \<and> ce_parse e b = Inr j \<and> json_config (ce_time e) j = Some c)"

lemma config_kept_loads:
  assumes "ce_home e = Inr home" "config_kept e (home @ [''.volt'']) c fs"
  shows "LoadOrInitConfig e fs = (Inr c, fs)"
proof -
  let ?d = "home @ [''.volt'']"
  obtain b j where b: "os_read_file fs (configPath ?d) = Inr b" "ce_parse e b = Inr j" "json_config (ce_time e) j = Some c"
    and ne: "cfg_SessionSecret c \<noteq> []" using assms(2) by (auto simp: config_kept_def)
  have "\<exists>i. os_stat fs (configPath ?d) = Inr i" using b(1) by (auto simp: os_read_file_def split: sum.splits)
  moreover have "EnsureDirs e fs = (Inr ?d, fs)" using EnsureDirs_settled [OF assms(1)] assms(2) by (simp add: config_kept_def)
  ultimately show ?thesis using b ne by (auto simp: LoadOrInitConfig_def load_config_def)
qed

text \<open>
  The laws of the text form that the daemon relies on: a configuration whose texts are UTF-8 is printed as a
  document that parses as what was printed (other bytes are replaced by the printer), and the texts that come out
  of the parser are UTF-8; an id and a time are written in ASCII.
\<close>

definition texts_valid :: "config \<Rightarrow> bool" where
  "texts_valid c \<longleftrightarrow> utf8_valid (cfg_Token c) \<and> utf8_valid (cfg_CreatedAt c) \<and> utf8_valid (cfg_SessionSecret c)"

definition fields_valid :: "json \<Rightarrow> bool" where
  "fields_valid j \<longleftrightarrow> (case j of JObj kvs \<Rightarrow> list_all (\<lambda>kv. case snd kv of JStr s \<Rightarrow> utf8_valid s | _ \<Rightarrow> True) kvs | _ \<Rightarrow> True)"

definition codec_ok :: "config_env \<Rightarrow> bool" where
  "codec_ok e \<longleftrightarrow>
     (\<forall>c. in_range64 (cfg_Port c) \<and> texts_valid c \<longrightarrow> ce_parse e (ce_print e (config_json c)) = Inr (config_json c)) \<and>
     (\<forall>b j. ce_parse e b = Inr j \<longrightarrow> fields_valid j) \<and>
     ce_time e zero_time \<and> ce_time e (ce_now e) \<and> ascii (ce_uuid e) \<and> ascii (ce_now e)"

lemma json_config_texts:
  assumes "json_config ok j = Some c" "fields_valid j"
  shows "texts_valid c"
proof -
  have s: "json_field dec_string f x kvs = Some y \<Longrightarrow> utf8_valid x \<Longrightarrow>
      list_all (\<lambda>kv. case snd kv of JStr s \<Rightarrow> utf8_valid s | _ \<Rightarrow> True) kvs \<Longrightarrow> utf8_valid y" for f x y kvs
    by (induction kvs arbitrary: x) (auto simp: dec_string_def split: if_splits json.splits option.splits)
  have t: "json_field (dec_time ok) f x kvs = Some y \<Longrightarrow> utf8_valid x \<Longrightarrow>
      list_all (\<lambda>kv. case snd kv of JStr s \<Rightarrow> utf8_valid s | _ \<Rightarrow> True) kvs \<Longrightarrow> utf8_valid y" for f x y kvs
    by (induction kvs arbitrary: x) (auto simp: dec_time_def split: if_splits json.splits option.splits)
  have z: "utf8_valid zero_time" by (rule ascii_utf8) (simp add: ascii_def zero_time_def)
  obtain kvs where k: "unmarshal_object j = Some kvs" using assms(1) by (auto simp: json_config_def split: option.splits)
  then have "list_all (\<lambda>kv. case snd kv of JStr s \<Rightarrow> utf8_valid s | _ \<Rightarrow> True) kvs"
    using assms(2) by (auto simp: unmarshal_object_def fields_valid_def split: json.splits)
  with assms(1) k z show ?thesis by (auto simp: json_config_def texts_valid_def split: option.splits intro: s t)
qed

lemma kept_texts: "config_kept e d c fs \<Longrightarrow> codec_ok e \<Longrightarrow> texts_valid c"
  using json_config_texts by (fastforce simp: config_kept_def codec_ok_def)

lemma saved_config_kept:
  assumes "saved_config e c fs = (Inr c', fs')" "codec_ok e" "ce_home e = Inr home" "settled (home @ [''.volt'']) fs"
    and "in_range64 (cfg_Port c)" "ce_time e (cfg_CreatedAt c)" "cfg_SessionSecret c \<noteq> []" "texts_valid c"
  shows "c' = c \<and> config_kept e (home @ [''.volt'']) c fs'"
proof -
  let ?d = "home @ [''.volt'']" and ?b = "ce_print e (config_json c)"
  have ens: "EnsureDirs e fs = (Inr ?d, fs)" by (rule EnsureDirs_settled [OF assms(3,4)])
  have lf: "link_free ?d fs" using assms(4) by (simp add: settled_def)
  have w: "os_write_file (?d @ [''config.json'']) ?b 384 fs = (Inr (), fs')" and c': "c' = c"
    using assms(1) ens by (auto simp: saved_config_def SaveConfig_def configPath_def split: sum.splits prod.splits)
  have st: "straight fs (?d @ [''config.json''])" by (rule link_free_straight [OF lf volt_names(1)])
  obtain r where r: "locate fs kernel_links [] (?d @ [''config.json'']) = Inr r" using w by (auto simp: os_write_file_def split: sum.splits)
  have req: "r = ?d @ [''config.json'']" by (rule locate_at [OF st r])
  have fs': "(fs r = None \<or> (\<exists>x y. fs r = Some (File x y))) \<and> (\<exists>m. fs' = fs(r \<mapsto> File m ?b))"
    using w r by (auto simp: os_write_file_def split: option.splits inode.splits)
  have l': "link_free ?d fs'" by (rule link_free_write [OF w volt_names(1) lf])
  have keep: "real_dirs fs' (?d @ [x])" if "real_dirs fs (?d @ [x])" for x
    using that fs' unfolding req by (fastforce simp: real_dirs_def)
  have read: "os_read_file fs' (configPath ?d) = Inr ?b"
  proof -
    have "\<exists>m. locate (fs(r \<mapsto> File m ?b)) kernel_links [] (?d @ [''config.json'']) = Inr r \<and> fs' = fs(r \<mapsto> File m ?b)"
      using fs' locate_written [OF r] by blast
    then show ?thesis by (auto simp: os_read_file_def os_stat_def configPath_def)
  qed
  have "config_kept e ?d c fs'"
    using read l' keep assms(2,4,5,6,7,8) json_config_roundtrip [of c "ce_time e"]
    by (auto simp: config_kept_def settled_def codec_ok_def)
  with c' show ?thesis by simp
qed

lemma loaded_config_kept:
  assumes "LoadOrInitConfig e fs = (Inr c, fs')" "codec_ok e" "ce_home e = Inr home" "link_free (home @ [''.volt'']) fs"
    and "\<And>b. ce_rand e = Inr b \<Longrightarrow> b \<noteq> []"
  shows "config_kept e (home @ [''.volt'']) c fs'"
proof -
  let ?d = "home @ [''.volt'']"
  obtain d fs1 where ens: "EnsureDirs e fs = (Inr d, fs1)"
    using assms(1) by (cases "EnsureDirs e fs"; cases "fst (EnsureDirs e fs)") (auto simp: LoadOrInitConfig_def)
  have d: "d = ?d" and s: "settled ?d fs1" using EnsureDirs_settles [OF ens] assms(3,4) by auto
  have secret: "secret \<noteq> [] \<and> utf8_valid secret" if "NewSessionSecret (ce_rand e) = Inr secret" for secret
    using that assms(5) Std_Encode_ne ascii_utf8 [OF Std_Encode_ascii] by (auto simp: NewSessionSecret_def split: sum.splits)
  note kept = saved_config_kept [OF _ assms(2,3) s]
  show ?thesis
  proof (cases "os_stat fs1 (configPath ?d)")
    case (Inl x)
    then obtain secret where "NewSessionSecret (ce_rand e) = Inr secret"
      "saved_config e \<lparr> cfg_Token = ce_uuid e, cfg_Port = 7788, cfg_CreatedAt = ce_now e, cfg_SessionSecret = secret \<rparr> fs1 = (Inr c, fs')"
      using assms(1) ens d by (auto simp: LoadOrInitConfig_def split: sum.splits)
    moreover have "utf8_valid (ce_uuid e)" "utf8_valid (ce_now e)" "ce_time e (ce_now e)"
      using assms(2) ascii_utf8 by (simp_all add: codec_ok_def)
    ultimately show ?thesis using kept secret by (fastforce simp: texts_valid_def in_range64_def)
  next
    case (Inr i)
    then obtain b j c0 where b: "os_read_file fs1 (configPath ?d) = Inr b" "ce_parse e b = Inr j" "json_config (ce_time e) j = Some c0"
      and l: "load_config e b fs1 = (Inr c, fs')"
      using assms(1) ens d by (auto simp: LoadOrInitConfig_def load_config_def split: sum.splits option.splits)
    have ok: "in_range64 (cfg_Port c0)" "ce_time e (cfg_CreatedAt c0)"
      using json_config_ranges [OF b(3)] assms(2) by (simp_all add: codec_ok_def)
    have tv: "texts_valid c0" using json_config_texts [OF b(3)] b(2) assms(2) by (auto simp: codec_ok_def)
    show ?thesis
    proof (cases "cfg_SessionSecret c0 = []")
      case True
      then obtain secret where "NewSessionSecret (ce_rand e) = Inr secret" "saved_config e (c0\<lparr> cfg_SessionSecret := secret \<rparr>) fs1 = (Inr c, fs')"
        using l b by (auto simp: load_config_def split: sum.splits)
      then show ?thesis using kept secret ok tv by (fastforce simp: texts_valid_def)
    next
      case False
      then show ?thesis using l b s by (auto simp: load_config_def config_kept_def)
    qed
  qed
qed

text \<open>C16: The token, the secret that signs sessions and the port are chosen once: after a load that succeeded, every later
  load gives the same configuration and leaves the file tree alone, whatever ids, random bytes and
  times it is offered; and a port saved later is all that a load sees changed.  The JSON codec is one that
  gives back what it printed of texts in UTF-8, as all texts of the configuration are.\<close>

theorem config_is_chosen_once:
  assumes "LoadOrInitConfig e fs = (Inr c, fs')" "codec_ok e" "ce_home e = Inr home" "link_free (home @ [''.volt'']) fs"
    and "\<And>b. ce_rand e = Inr b \<Longrightarrow> b \<noteq> []" "in_range64 port"
    and "e' = e\<lparr> ce_rand := rand, ce_uuid := uuid, ce_now := now \<rparr>"
  shows "LoadOrInitConfig e' fs' = (Inr c, fs') \<and>
    (\<forall>fs''. SaveConfig e' (c\<lparr> cfg_Port := port \<rparr>) fs' = (Inr (), fs'') \<longrightarrow>
       LoadOrInitConfig e' fs'' = (Inr (c\<lparr> cfg_Port := port \<rparr>), fs''))"
proof
  let ?d = "home @ [''.volt'']"
  have k: "config_kept e ?d c fs'" by (rule loaded_config_kept [OF assms(1-5)])
  have h': "ce_home e' = Inr home" using assms(3,7) by simp
  have kept': "config_kept e' ?d x t \<longleftrightarrow> config_kept e ?d x t" for x t by (simp add: config_kept_def assms(7))
  show "LoadOrInitConfig e' fs' = (Inr c, fs')" using config_kept_loads [OF h'] k kept' by blast
  have env: "EnsureDirs e' = EnsureDirs e" "ce_print e' = ce_print e" by (simp_all add: EnsureDirs_def fun_eq_iff assms(7))
  have save: "SaveConfig e' x t = SaveConfig e x t" for x t unfolding SaveConfig_def env ..
  show "\<forall>fs''. SaveConfig e' (c\<lparr> cfg_Port := port \<rparr>) fs' = (Inr (), fs'') \<longrightarrow>
       LoadOrInitConfig e' fs'' = (Inr (c\<lparr> cfg_Port := port \<rparr>), fs'')"
  proof (intro allI impI)
    fix fs'' assume "SaveConfig e' (c\<lparr> cfg_Port := port \<rparr>) fs' = (Inr (), fs'')"
    then have "saved_config e (c\<lparr> cfg_Port := port \<rparr>) fs' = (Inr (c\<lparr> cfg_Port := port \<rparr>), fs'')"
      by (simp add: saved_config_def save)
    moreover have "settled ?d fs'" "cfg_SessionSecret c \<noteq> []" using k by (simp_all add: config_kept_def)
    moreover have "ce_time e (cfg_CreatedAt c)"
      using k json_config_ranges [of "ce_time e" _ c] assms(2) by (auto simp: config_kept_def codec_ok_def)
    moreover have "texts_valid (c\<lparr> cfg_Port := port \<rparr>)" using kept_texts [OF k assms(2)] by (simp add: texts_valid_def)
    ultimately have "config_kept e ?d (c\<lparr> cfg_Port := port \<rparr>) fs''"
      using saved_config_kept [OF _ assms(2,3)] assms(6) by simp
    then show "LoadOrInitConfig e' fs'' = (Inr (c\<lparr> cfg_Port := port \<rparr>), fs'')"
      using config_kept_loads [OF h'] kept' by blast
  qed
qed

section \<open>The import from a former name\<close>

lemma mkdir_real_new:
  assumes "real_dirs fs d" "plain_comp c" "fs (d @ [c]) = None"
  shows "\<exists>fs'. os_mkdir_all (d @ [c]) fs = (Inr (), fs') \<and> real_dirs fs' d \<and> (\<forall>q. q \<noteq> d @ [c] \<longrightarrow> fs' q = fs q)"
proof -
  have "real_dirs (fs(d @ [c] \<mapsto> Dir)) d" using assms(1) by (auto simp: real_dirs_def)
  with mkdir_child [OF assms] show ?thesis by auto
qed

lemma import_files_first:
  assumes "real_dirs fs d" "os_read_file fs (legacy @ [''config.json'']) = Inr b" "\<And>q. strict_prefix d q \<Longrightarrow> fs q = None"
  shows "\<exists>fs'. import_files legacy d [''config.json'', ''apps.json''] fs = (Inr (), fs') \<and> real_dirs fs' d \<and>
    fs' (d @ [''config.json'']) = Some (File 384 b) \<and> fs' (d @ [''logs'']) = None \<and> fs' (d @ [''runtime'']) = None \<and>
    (\<forall>q. \<not> strict_prefix d q \<longrightarrow> fs' q = fs q)"
proof -
  have none: "fs (d @ [c]) = None" for c by (rule assms(3)) (simp add: strict_prefix_def)
  have below: "strict_prefix d (d @ [c])" for c by (simp add: strict_prefix_def)
  let ?fs1 = "fs(d @ [''config.json''] \<mapsto> File 384 b)"
  have w1: "os_write_file (d @ [''config.json'']) b 384 fs = (Inr (), ?fs1)"
    by (rule write_child [OF assms(1) volt_names(1) none])
  have r1: "real_dirs ?fs1 d" using assms(1) by (auto simp: real_dirs_def)
  show ?thesis
  proof (cases "os_read_file ?fs1 (legacy @ [''apps.json''])")
    case (Inl x)
    with w1 assms(2) r1 none below show ?thesis by (intro exI [of _ ?fs1]) auto
  next
    case (Inr a)
    let ?fs2 = "?fs1(d @ [''apps.json''] \<mapsto> File 384 a)"
    have "os_write_file (d @ [''apps.json'']) a 384 ?fs1 = (Inr (), ?fs2)"
      by (rule write_child [OF r1 volt_names(2)]) (simp add: none)
    moreover have "real_dirs ?fs2 d" using r1 by (auto simp: real_dirs_def)
    ultimately show ?thesis using w1 assms(2) none below Inr by (intro exI [of _ ?fs2]) auto
  qed
qed

text \<open>When the daemon first runs under its present name and there is a directory of the first former name, that one's
  configuration becomes the daemon's, even when there is a directory of the later name too, which
  the former version kept its state in; and nothing outside of the new directory is touched.\<close>

theorem first_legacy_directory_wins:
  assumes "ce_home e = Inr home" "real_dirs fs home" "\<And>q. prefix (home @ [''.volt'']) q \<Longrightarrow> fs q = None"
    and "os_stat fs (home @ [''.alresia-voltpanel'']) = Inr Dir"
    and "os_read_file fs (home @ [''.alresia-voltpanel'', ''config.json'']) = Inr b"
  shows "\<exists>fs'. EnsureDirs e fs = (Inr (home @ [''.volt'']), fs') \<and> LoadOrInitConfig e fs = load_config e b fs' \<and>
    (\<forall>q. \<not> prefix (home @ [''.volt'']) q \<longrightarrow> fs' q = fs q)"
proof -
  let ?d = "home @ [''.volt'']" and ?l = "home @ [''.alresia-voltpanel'']"
  have v: "plain_comp ''.volt''" by (simp add: plain_comp_def)
  have n: "fs ?d = None" using assms(3) by simp
  let ?fs1 = "fs(?d \<mapsto> Dir)"
  have m1: "os_mkdir_all ?d fs = (Inr (), ?fs1)" by (rule mkdir_child [OF assms(2) v n])
  have r1: "real_dirs ?fs1 ?d" using assms(2) v by (simp add: real_dirs_snoc) (auto simp: real_dirs_def)
  have read: "os_read_file ?fs1 (?l @ [''config.json'']) = Inr b" 
    using read_frame [of fs "?l @ [''config.json'']" b ?d Dir] n assms(5) by simp
  have none: "?fs1 q = None" if "strict_prefix ?d q" for q using assms(3) [of q] that by (auto simp: strict_prefix_def)
  obtain fs2 where i: "import_files ?l ?d [''config.json'', ''apps.json''] ?fs1 = (Inr (), fs2)" "real_dirs fs2 ?d"
    "fs2 (?d @ [''config.json'']) = Some (File 384 b)" "fs2 (?d @ [''logs'']) = None" "fs2 (?d @ [''runtime'']) = None"
    "\<forall>q. \<not> strict_prefix ?d q \<longrightarrow> fs2 q = ?fs1 q"
    using import_files_first [OF r1 read none] by blast
  have "locate fs kernel_links [] ?d = Inr ?d" by (rule locate_child [OF assms(2) v]) (simp add: n)
  then have "os_stat fs ?d = Inl ENOENT" by (simp add: os_stat_def n)
  then have mig: "migrateLegacyDir home ?d fs = (Inr (), fs2)"
    using assms(4) m1 i(1) by (simp add: migrateLegacyDir_def legacyConfigDirNames_def)
  obtain fs3 where m3: "os_mkdir_all (?d @ [''logs'']) fs2 = (Inr (), fs3)" "real_dirs fs3 ?d" "\<forall>q. q \<noteq> ?d @ [''logs''] \<longrightarrow> fs3 q = fs2 q"
    using mkdir_real_new [OF i(2) volt_names(3) i(4)] by blast
  have "fs3 (?d @ [''runtime'']) = None" using m3(3) i(5) by simp
  then obtain fs4 where m4: "os_mkdir_all (?d @ [''runtime'']) fs3 = (Inr (), fs4)" "real_dirs fs4 ?d"
    "\<forall>q. q \<noteq> ?d @ [''runtime''] \<longrightarrow> fs4 q = fs3 q"
    using mkdir_real_new [OF m3(2) volt_names(4)] by blast
  have ens: "EnsureDirs e fs = (Inr ?d, fs4)" using assms(1) mig m3(1) m4(1) by (simp add: EnsureDirs_def)
  have "fs4 (?d @ [''config.json'']) = Some (File 384 b)" using m3(3) m4(3) i(3) by simp
  then have rd: "os_read_file fs4 (configPath ?d) = Inr b"
    using read_child [OF m4(2) volt_names(1)] by (simp add: configPath_def)
  then have "\<exists>x. os_stat fs4 (configPath ?d) = Inr x" by (auto simp: os_read_file_def split: sum.splits)
  then have load: "LoadOrInitConfig e fs = load_config e b fs4" using ens rd by (auto simp: LoadOrInitConfig_def)
  have frame: "fs4 q = fs q" if "\<not> prefix ?d q" for q
  proof -
    have "q \<noteq> ?d" "\<not> strict_prefix ?d q" "q \<noteq> ?d @ [''logs'']" "q \<noteq> ?d @ [''runtime'']" using that by (auto simp: strict_prefix_def)
    then show ?thesis using m4(3) m3(3) i(6) by simp
  qed
  with ens load show ?thesis by blast
qed

section \<open>Witnesses\<close>

text \<open>A text form of configurations: each character of a field is announced, and so is the end.\<close>

definition announce :: "string \<Rightarrow> string" where
  "announce s = concat (map (\<lambda>c. [CHR ''x'', c]) s) @ ''e''"

fun announced :: "string \<Rightarrow> string \<times> string" where
  "announced (m # c # cs) = (if m = CHR ''x'' then (c # fst (announced cs), snd (announced cs)) else ([], c # cs))"
| "announced s = ([], [])"

lemma announced: "announced (announce s @ r) = (s, r)"
  by (induction s) (cases r; simp add: announce_def)+

definition demo_print :: "json \<Rightarrow> bytes" where
  "demo_print j =
     (case json_config (\<lambda>_. True) j of
        None \<Rightarrow> []
      | Some c \<Rightarrow> announce (cfg_Token c) @ announce (itoa (cfg_Port c)) @ announce (cfg_CreatedAt c) @ announce (cfg_SessionSecret c))"

definition demo_parse :: "bytes \<Rightarrow> string + json" where
  "demo_parse b =
     (let (tok, b1) = announced b; (port, b2) = announced b1; (created, b3) = announced b2; (secret, b4) = announced b3
      in case atoi port of
           None \<Rightarrow> Inl ''bad port''
         | Some n \<Rightarrow>
            if utf8_valid tok \<and> utf8_valid created \<and> utf8_valid secret
            then Inr (config_json \<lparr> cfg_Token = tok, cfg_Port = n, cfg_CreatedAt = created, cfg_SessionSecret = secret \<rparr>)
            else Inl ''bad text'')"

definition demo_env :: config_env where
  "demo_env = \<lparr> ce_home = Inr [''home''], ce_parse = demo_parse, ce_print = demo_print, ce_time = (\<lambda>_. True),
                ce_rand = Inr ''r'', ce_uuid = ''u'', ce_now = ''now'' \<rparr>"

lemma demo_codec: "codec_ok demo_env"
proof -
  have "demo_parse (demo_print (config_json c)) = Inr (config_json c)" if "in_range64 (cfg_Port c)" "texts_valid c" for c
  proof -
    have "announced (announce s) = (s, [])" for s using announced [of s "[]"] by simp
    then show ?thesis
      using that json_config_roundtrip [of c "\<lambda>_. True"]
      by (cases c) (simp add: demo_parse_def demo_print_def announced atoi_itoa texts_valid_def)
  qed
  moreover have "fields_valid j" if "demo_parse b = Inr j" for b j
    using that by (auto simp: demo_parse_def config_json_def fields_valid_def split: prod.splits option.splits if_splits)
  ultimately show ?thesis by (simp add: codec_ok_def demo_env_def ascii_def)
qed

text \<open>A home with the directories of both former names.\<close>

definition demo_home :: fs where
  "demo_home p =
     (if p \<in> {[], [''home''], [''home'', ''.alresia-voltpanel''], [''home'', ''.alresia-volt'']} then Some Dir
      else if p = [''home'', ''.alresia-voltpanel'', ''config.json''] then Some (File 384 ''old'')
      else if p = [''home'', ''.alresia-volt'', ''config.json''] then Some (File 384 ''new'') else None)"

lemma demo_home_dirs: "real_dirs demo_home [''home'']"
  by (auto simp: real_dirs_def clean_path_def plain_comp_def demo_home_def prefix_Cons)

lemma demo_home_read: "real_dirs demo_home [''home'', ''.alresia-voltpanel'']"
  by (auto simp: real_dirs_def clean_path_def plain_comp_def demo_home_def prefix_Cons)

lemma first_legacy_directory_wins_witness:
  "\<exists>fs'. LoadOrInitConfig demo_env demo_home = load_config demo_env ''old'' fs' \<and> fs' [''home'', ''.alresia-volt'', ''config.json''] = Some (File 384 ''new'')"
proof -
  have "ce_home demo_env = Inr [''home'']" by (simp add: demo_env_def)
  moreover have "demo_home q = None" if "prefix ([''home''] @ [''.volt'']) q" for q
    using that by (auto simp: demo_home_def prefix_def)
  moreover have "os_stat demo_home ([''home''] @ [''.alresia-voltpanel'']) = Inr Dir" using stat_real [OF demo_home_read] by simp
  moreover have "os_read_file demo_home ([''home''] @ [''.alresia-voltpanel'', ''config.json'']) = Inr ''old''"
    using read_child [OF demo_home_read volt_names(1)] by (simp add: demo_home_def)
  ultimately obtain fs' where fs': "LoadOrInitConfig demo_env demo_home = load_config demo_env ''old'' fs'"
    "\<forall>q. \<not> prefix ([''home''] @ [''.volt'']) q \<longrightarrow> fs' q = demo_home q"
    using first_legacy_directory_wins [OF _ demo_home_dirs] by blast
  have "fs' [''home'', ''.alresia-volt'', ''config.json''] = Some (File 384 ''new'')" using fs'(2) by (simp add: demo_home_def)
  with fs'(1) show ?thesis by blast
qed

text \<open>An empty home.\<close>

definition demo_fresh :: fs where
  "demo_fresh p = (if p = [] \<or> p = [''home''] then Some Dir else None)"

lemma demo_fresh_dirs:
  "\<exists>fs'. EnsureDirs demo_env demo_fresh = (Inr ([''home''] @ [''.volt'']), fs') \<and>
     fs' ([''home''] @ [''.volt''] @ [''config.json'']) = None \<and> fs' ([''home''] @ [''.volt''] @ [''daemon.pid'']) = None"
proof -
  let ?d = "[''home''] @ [''.volt'']"
  let ?f1 = "demo_fresh(?d \<mapsto> Dir)" let ?f2 = "?f1(?d @ [''logs''] \<mapsto> Dir)"
  let ?f3 = "?f2(?d @ [''runtime''] \<mapsto> Dir)"
  have stat: "os_stat demo_fresh ([''home''] @ [x]) = Inl ENOENT" if "plain_comp x" for x
    using that by (simp add: os_stat_def locate.simps(2) demo_fresh_def plain_comp_def)
  have "migrateLegacyDir [''home''] ?d demo_fresh = (Inr (), demo_fresh)"
    using stat [of "''.volt''"] stat [of "''.alresia-voltpanel''"] stat [of "''.alresia-volt''"]
    by (simp add: migrateLegacyDir_def legacyConfigDirNames_def plain_comp_def)
  moreover have "os_mkdir_all (?d @ [''logs'']) demo_fresh = (Inr (), ?f2)"
    by (simp add: os_mkdir_all_def os_stat_def entry_path_def locate.simps(2) demo_fresh_def)
  moreover have "os_mkdir_all (?d @ [''runtime'']) ?f2 = (Inr (), ?f3)"
    by (simp add: os_mkdir_all_def os_stat_def entry_path_def locate.simps(2) demo_fresh_def)
  ultimately have "EnsureDirs demo_env demo_fresh = (Inr ?d, ?f3)" by (simp add: EnsureDirs_def Let_def demo_env_def)
  then show ?thesis by (auto simp: demo_fresh_def)
qed

lemma demo_fresh_links: "link_free ([''home''] @ [''.volt'']) demo_fresh"
  by (simp add: link_free_def clean_path_def plain_comp_def demo_fresh_def)

lemma config_is_chosen_once_witness:
  "\<exists>c fs'. LoadOrInitConfig demo_env demo_fresh = (Inr c, fs') \<and> cfg_Token c = ''u'' \<and>
     LoadOrInitConfig (demo_env\<lparr> ce_rand := Inl ''broken'', ce_uuid := ''other'', ce_now := ''later'' \<rparr>) fs' = (Inr c, fs')"
proof -
  let ?d = "[''home''] @ [''.volt'']"
  have h: "ce_home demo_env = Inr [''home'']" by (simp add: demo_env_def)
  have lf: "link_free ?d demo_fresh" by (rule demo_fresh_links)
  obtain fs1 where fs1: "EnsureDirs demo_env demo_fresh = (Inr ?d, fs1)" "fs1 (?d @ [''config.json'']) = None" using demo_fresh_dirs by auto
  have s1: "settled ?d fs1" using EnsureDirs_settles [OF fs1(1)] lf h by auto
  have rd: "real_dirs fs1 ?d" using s1 real_dirs_snoc [of fs1 ?d "''logs''"] by (simp add: settled_def)
  let ?c = "\<lparr> cfg_Token = ''u'', cfg_Port = 7788, cfg_CreatedAt = ''now'', cfg_SessionSecret = Std_Encode ''r'' \<rparr>"
  have "locate fs1 kernel_links [] (?d @ [''config.json'']) = Inr (?d @ [''config.json''])"
    by (rule locate_child [OF rd volt_names(1)]) (use fs1(2) in simp)
  then have "os_stat fs1 (configPath ?d) = Inl ENOENT" using fs1(2) by (simp add: os_stat_def configPath_def)
  then have "LoadOrInitConfig demo_env demo_fresh = saved_config demo_env ?c fs1"
    using fs1(1) by (simp add: LoadOrInitConfig_def NewSessionSecret_def demo_env_def)
  moreover have "\<exists>fs2. saved_config demo_env ?c fs1 = (Inr ?c, fs2)"
    using EnsureDirs_settled [OF h s1] write_child [OF rd volt_names(1) fs1(2)] by (simp add: saved_config_def SaveConfig_def configPath_def)
  ultimately obtain fs2 where c: "LoadOrInitConfig demo_env demo_fresh = (Inr ?c, fs2)" by auto
  have "b \<noteq> []" if "ce_rand demo_env = Inr b" for b using that by (auto simp: demo_env_def)
  from config_is_chosen_once [OF c demo_codec h lf this, of 80] c show ?thesis by (auto simp: in_range64_def)
qed

end
