(* ===== verification/Migrations.thy ===== *)
theory Migrations
  imports Decimal
begin

text \<open>
  \<open>internal/storage/sqlite.go\<close>: the migrations that have not run yet are applied when the database is opened.

  What a migration does to the schema is an argument: a script on a schema fails or gives another one.
  The state is the schema with the versions recorded in \<open>schema_migrations\<close>, in the order of the
  inserts, and what the next statements of the driver do: each entry is the message of a statement
  that fails; the statements after the list succeed.
\<close>

record 's migration_db =
  mg_schema :: 's
  mg_versions :: "int list"
  mg_faults :: "string option list"

record 's migration_files =
  mf_names :: "(string \<times> bool) list"
  mf_read :: "string \<Rightarrow> string + string"
  mf_exec :: "string \<Rightarrow> 's \<Rightarrow> string + 's"

datatype migration_error = Driver string | BadName string | Script string string

definition statement :: "'s migration_db \<Rightarrow> (migration_error + unit) \<times> 's migration_db" where
  "statement d =
     (case mg_faults d of
        [] \<Rightarrow> (Inr (), d)
      | None # fs \<Rightarrow> (Inr (), d\<lparr> mg_faults := fs \<rparr>)
      | Some msg # fs \<Rightarrow> (Inl (Driver msg), d\<lparr> mg_faults := fs \<rparr>))"

definition versionOf :: "string \<Rightarrow> migration_error + int" where
  "versionOf filename = (case atoi (hd (split_on CHR ''_'' filename)) of None \<Rightarrow> Inl (BadName filename) | Some v \<Rightarrow> Inr v)"

text \<open>The transaction of one migration: nothing of it remains unless it commits.\<close>

definition apply_migration :: "'s migration_files \<Rightarrow> string \<Rightarrow> string \<Rightarrow> int \<Rightarrow> 's migration_db \<Rightarrow> (migration_error + unit) \<times> 's migration_db" where
  "apply_migration m name sqlText v =
     go_bind statement (\<lambda>_.
     (\<lambda>d. case statement d of
        (Inl (Driver msg), d1) \<Rightarrow> (Inl (Script name msg), d1)
      | (Inl e, d1) \<Rightarrow> (Inl e, d1)
      | (Inr _, d1) \<Rightarrow>
         (case mf_exec m sqlText (mg_schema d1) of
            Inl msg \<Rightarrow> (Inl (Script name msg), d1)
          | Inr s \<Rightarrow>
             (case statement d1 of
                (Inl e, d2) \<Rightarrow> (Inl e, d2)
              | (Inr _, d2) \<Rightarrow>
                 (if v \<in> set (mg_versions d2) then (Inl (Driver ''UNIQUE constraint failed: schema_migrations.version''), d2)
                  else (case statement d2 of
                          (Inl e, d3) \<Rightarrow> (Inl e, d3)
                        | (Inr _, d3) \<Rightarrow> (Inr (), d3\<lparr> mg_schema := s, mg_versions := mg_versions d3 @ [v] \<rparr>)))))))"

fun apply_all :: "'s migration_files \<Rightarrow> string list \<Rightarrow> 's migration_db \<Rightarrow> (migration_error + unit) \<times> 's migration_db" where
  "apply_all m [] d = (Inr (), d)"
| "apply_all m (name # names) d =
     (case versionOf name of
        Inl e \<Rightarrow> (Inl e, d)
      | Inr v \<Rightarrow>
         (case statement d of
            (Inl e, d1) \<Rightarrow> (Inl e, d1)
          | (Inr _, d1) \<Rightarrow>
             (if v \<in> set (mg_versions d1) then apply_all m names d1
              else (case mf_read m name of
                      Inl msg \<Rightarrow> (Inl (Driver msg), d1)
                    | Inr sqlText \<Rightarrow>
                       (case apply_migration m name sqlText v d1 of
                          (Inl e, d2) \<Rightarrow> (Inl e, d2)
                        | (Inr _, d2) \<Rightarrow> apply_all m names d2)))))"

definition migrate :: "'s migration_files \<Rightarrow> 's migration_db \<Rightarrow> (migration_error + unit) \<times> 's migration_db" where
  "migrate m = go_bind statement (\<lambda>_. apply_all m (sort (map fst (filter (\<lambda>e. \<not> snd e) (mf_names m)))))"

text \<open>A database whose migrations fail is closed again.\<close>

datatype opened = OpenFailed string | MigrateFailed migration_error | Opened

definition OpenSQLite :: "'s migration_files \<Rightarrow> string option \<Rightarrow> 's migration_db \<Rightarrow> opened \<times> 's migration_db" where
  "OpenSQLite m open_err d =
     (case open_err of
        Some msg \<Rightarrow> (OpenFailed msg, d)
      | None \<Rightarrow> (case migrate m d of (Inl e, d1) \<Rightarrow> (MigrateFailed e, d1) | (Inr _, d1) \<Rightarrow> (Opened, d1)))"

section \<open>Interrupted migrations\<close>

text \<open>What an opening whose statements all succeed gives.\<close>

definition undisturbed :: "'s migration_db \<Rightarrow> 's migration_db" where
  "undisturbed d = d\<lparr> mg_faults := [] \<rparr>"

lemma statement_undisturbed [simp]: "statement (undisturbed d) = (Inr (), undisturbed d)"
  by (simp add: statement_def undisturbed_def)

lemma statement_same: "statement d = (r, d1) \<Longrightarrow> mg_schema d1 = mg_schema d \<and> mg_versions d1 = mg_versions d \<and> undisturbed d1 = undisturbed d"
  by (auto simp: statement_def undisturbed_def split: list.splits option.splits)

lemma undisturbed_sel [simp]:
  "mg_schema (undisturbed d) = mg_schema d" "mg_versions (undisturbed d) = mg_versions d" "undisturbed (undisturbed d) = undisturbed d"
  by (simp_all add: undisturbed_def)

text \<open>A migration that is interrupted leaves the database as it was; one that commits does what it does undisturbed.\<close>

lemma apply_migration_atomic:
  assumes "apply_migration m name t v d = (r, d')"
  shows "(case r of Inl e \<Rightarrow> undisturbed d' = undisturbed d
     | Inr _ \<Rightarrow> apply_migration m name t v (undisturbed d) = (Inr (), undisturbed d'))"
proof -
  have up: "undisturbed (x\<lparr> mg_schema := s, mg_versions := vs \<rparr>) = (undisturbed x)\<lparr> mg_schema := s, mg_versions := vs \<rparr>"
    for x :: "'a migration_db" and s vs by (simp add: undisturbed_def)
  show ?thesis
    using assms
    by (auto simp: apply_migration_def go_bind_def up split: prod.splits sum.splits migration_error.splits if_splits
        dest!: statement_same)
qed

lemma apply_migration_versions:
  "apply_migration m name t v d = (Inr u, d') \<Longrightarrow> mg_versions d' = mg_versions d @ [v]"
  by (auto simp: apply_migration_def go_bind_def split: prod.splits sum.splits migration_error.splits if_splits dest!: statement_same)

lemma apply_migration_keeps: "apply_migration m name t v d = (r, d') \<Longrightarrow> set (mg_versions d) \<subseteq> set (mg_versions d')"
  by (auto simp: apply_migration_def go_bind_def split: prod.splits sum.splits migration_error.splits if_splits dest!: statement_same)

lemma apply_all_versions: "apply_all m names d = (r, d') \<Longrightarrow> set (mg_versions d) \<subseteq> set (mg_versions d')"
proof (induction names arbitrary: d)
  case (Cons name names)
  obtain x d1 where st: "statement d = (x, d1)" by (cases "statement d")
  note vs = conjunct1 [OF conjunct2 [OF statement_same [OF st]]]
  show ?case
  proof (cases "versionOf name")
    case v: (Inr v)
    consider "d' = d1" | "apply_all m names d1 = (r, d')"
      | t y d2 where "apply_migration m name t v d1 = (y, d2)" "d' = d2 \<or> apply_all m names d2 = (r, d')"
      using Cons.prems v st by (auto split: sum.splits prod.splits if_splits)
    then show ?thesis
    proof cases
      case 3
      then show ?thesis using apply_migration_keeps [OF 3(1)] Cons.IH [of d2] vs by auto
    qed (use Cons.IH [of d1] vs in auto)
  qed (use Cons.prems in auto)
qed simp

text \<open>A run that was interrupted is resumed where it stopped.\<close>

lemma apply_all_resumes:
  assumes "apply_all m names d = (r, d')"
  shows "apply_all m names (undisturbed d') = apply_all m names (undisturbed d) \<and>
     (r = Inr () \<longrightarrow> apply_all m names (undisturbed d) = (Inr (), undisturbed d'))"
  using assms
proof (induction names arbitrary: d)
  case (Cons name names)
  show ?case
  proof (cases "versionOf name")
    case v: (Inr v)
    obtain x d1 where st: "statement d = (x, d1)" by (cases "statement d")
    note d1 = statement_same [OF st]
    show ?thesis
    proof (cases x)
      case (Inl e)
      then show ?thesis using Cons.prems v st d1 by auto
    next
      case x: (Inr u)
      show ?thesis
      proof (cases "v \<in> set (mg_versions d1)")
        case True
        then have run: "apply_all m names d1 = (r, d')" using Cons.prems v st x by simp
        then have "v \<in> set (mg_versions d')" using apply_all_versions True by blast
        then show ?thesis using Cons.IH [OF run] True v d1 by simp
      next
        case new: False
        show ?thesis
        proof (cases "mf_read m name")
          case (Inl msg)
          then show ?thesis using Cons.prems v st x new d1 by auto
        next
          case t: (Inr t)
          obtain y d2 where ap: "apply_migration m name t v d1 = (y, d2)" by (cases "apply_migration m name t v d1")
          note atomic = apply_migration_atomic [OF ap]
          show ?thesis
          proof (cases y)
            case (Inl e)
            then show ?thesis using Cons.prems v st x new t ap atomic d1 by auto
          next
            case y: (Inr u)
            then have run: "apply_all m names d2 = (r, d')" using Cons.prems v st x new t ap by simp
            have "v \<in> set (mg_versions d')"
              using apply_migration_versions [of m name t v d1 u d2] ap y apply_all_versions [OF run] by auto
            moreover have "apply_migration m name t v (undisturbed d) = (Inr (), undisturbed d2)" using atomic y d1 by simp
            ultimately show ?thesis using Cons.IH [OF run] new v t d1 by simp
          qed
        qed
      qed
    qed
  qed (use Cons.prems in auto)
qed simp

text \<open>C19: Opening the database is resumable: whatever statement of an opening fails, the next opening that is not disturbed
  leaves what it would have left without the first, and it does the same as any opening after one
  that succeeded: nothing.\<close>

theorem interrupted_migration_resumes:
  assumes "migrate m d = (r, d')"
  shows "migrate m (undisturbed d') = migrate m (undisturbed d) \<and>
    (r = Inr () \<longrightarrow> migrate m (undisturbed d') = (Inr (), undisturbed d'))"
proof -
  obtain x d1 where st: "statement d = (x, d1)" by (cases "statement d")
  have und: "migrate m (undisturbed d) = apply_all m (sort (map fst (filter (\<lambda>e. \<not> snd e) (mf_names m)))) (undisturbed d)" for d
    by (simp add: migrate_def go_bind_def)
  show ?thesis
  proof (cases x)
    case (Inl e)
    then show ?thesis using assms st statement_same [OF st] by (auto simp: migrate_def go_bind_def)
  next
    case (Inr u)
    then have "apply_all m (sort (map fst (filter (\<lambda>e. \<not> snd e) (mf_names m)))) d1 = (r, d')"
      using assms st by (simp add: migrate_def go_bind_def)
    from apply_all_resumes [OF this] show ?thesis using statement_same [OF st] by (simp add: und)
  qed
qed

text \<open>The migrations of the program, whose names sort in the order of their numbers, applied to a log of scripts.\<close>

definition demo_migrations :: "string list migration_files" where
  "demo_migrations =
     \<lparr> mf_names = map (\<lambda>n. (n, False)) [''0001_init.sql'', ''0003_service_lifecycle.sql'', ''0002_project_detection.sql''],
       mf_read = Inr, mf_exec = (\<lambda>t s. Inr (s @ [t])) \<rparr>"

lemma interrupted_migration_resumes_witness:
  "let d = \<lparr> mg_schema = [], mg_versions = [], mg_faults = replicate 8 None @ [Some ''disk full''] \<rparr>
   in mg_versions (snd (migrate demo_migrations d)) = [1] \<and>
      migrate demo_migrations (undisturbed (snd (migrate demo_migrations d))) = migrate demo_migrations (undisturbed d)"
proof -
  let ?d = "\<lparr> mg_schema = [], mg_versions = [], mg_faults = replicate 8 None @ [Some ''disk full''] \<rparr>"
  have "mg_versions (snd (migrate demo_migrations ?d)) = [1]" by code_simp
  moreover have "migrate demo_migrations (undisturbed (snd (migrate demo_migrations ?d))) = migrate demo_migrations (undisturbed ?d)"
    using interrupted_migration_resumes [of demo_migrations ?d] by (cases "migrate demo_migrations ?d") simp
  ultimately show ?thesis by (simp add: Let_def)
qed

end
