(* ===== verification/Hub.thy ===== *)
theory Hub
  imports SessionAuth JsonDecode "HOL-Library.Sublist"
begin

text \<open>
  \<open>internal/ws/ws.go\<close>: who may listen to the daemon's messages, and how they are delivered.

  Every critical section of the code is a step: \<open>Emit\<close> puts a message into the channel or drops it, the
  loop of \<open>Run\<close> takes one out and, under the lock, writes it to the clients that there are then, and
  clients come and go in between.  Beside the hub the state has the history that the properties
  speak of.  Which writes fail is the environment's choice.
\<close>

type_synonym conn = nat

record hub =
  hb_token :: string
  hb_dev :: bool
  hb_session :: "bytes option"

text \<open>What a peer shows: the session cookie of its handshake, and its first message, which may not come.\<close>

record peer =
  pr_cookie :: "string option"
  pr_first :: "string + bytes"

record hub_env =
  he_hmac :: keyed_hash
  he_now :: int
  he_parse :: "bytes \<Rightarrow> string + json"

definition broadcast_size :: nat where "broadcast_size = 1024"

record hub_state =
  hs_clients :: "conn list"
  hs_queue :: "bytes list"
  hs_hand :: "bytes option"
  hs_emitted :: "bytes list"
  hs_accepted :: "bytes list"
  hs_done :: "bytes list"
  hs_out :: "conn \<Rightarrow> bytes list"
  hs_from :: "conn \<Rightarrow> nat"
  hs_failed :: "conn list"
  hs_shown :: "conn \<Rightarrow> (hub_env \<times> peer) option"

definition NewHub :: hub_state where
  "NewHub = \<lparr> hs_clients = [], hs_queue = [], hs_hand = None, hs_emitted = [], hs_accepted = [], hs_done = [],
              hs_out = (\<lambda>_. []), hs_from = (\<lambda>_. 0), hs_failed = [], hs_shown = (\<lambda>_. None) \<rparr>"

section \<open>Joining\<close>

definition authenticateRequest :: "hub_env \<Rightarrow> hub \<Rightarrow> peer \<Rightarrow> bool" where
  "authenticateRequest e h p =
     (if hb_dev h then False
      else (case hb_session h of
              None \<Rightarrow> False
            | Some secret \<Rightarrow> (case pr_cookie p of None \<Rightarrow> False | Some c \<Rightarrow> Verify (he_hmac e) secret (he_now e) c)))"

definition authenticate :: "hub_env \<Rightarrow> hub \<Rightarrow> peer \<Rightarrow> bool" where
  "authenticate e h p =
     (if hb_dev h then True
      else (case pr_first p of
              Inl _ \<Rightarrow> False
            | Inr msg \<Rightarrow>
               (case he_parse e msg of
                  Inl _ \<Rightarrow> False
                | Inr j \<Rightarrow>
                   (case unmarshal_object j of
                      None \<Rightarrow> False
                    | Some kvs \<Rightarrow>
                       (case (str_field ''type'' kvs, str_field ''token'' kvs) of
                          (Some typ, Some tok) \<Rightarrow> if typ \<noteq> ''auth'' then False else tok = hb_token h
                        | _ \<Rightarrow> False)))))"

text \<open>A peer that is refused is closed and never becomes a client.\<close>

definition ServeWs :: "hub_env \<Rightarrow> hub \<Rightarrow> bool \<Rightarrow> conn \<Rightarrow> peer \<Rightarrow> hub_state \<Rightarrow> hub_state" where
  "ServeWs e h upgraded c p s =
     (if \<not> upgraded then s
      else if \<not> authenticateRequest e h p \<and> \<not> authenticate e h p then s\<lparr> hs_shown := (hs_shown s)(c \<mapsto> (e, p)) \<rparr>
      else s\<lparr> hs_clients := List.insert c (hs_clients s), hs_shown := (hs_shown s)(c \<mapsto> (e, p)),
              hs_from := (hs_from s)(c := length (hs_done s)) \<rparr>)"

text \<open>The close handler and the end of the read loop.\<close>

definition drop_client :: "conn \<Rightarrow> hub_state \<Rightarrow> hub_state" where
  "drop_client c s = s\<lparr> hs_clients := removeAll c (hs_clients s) \<rparr>"

section \<open>Delivering\<close>

text \<open>A send on the channel, or nothing when its buffer is full.\<close>

definition Emit :: "bytes \<Rightarrow> hub_state \<Rightarrow> hub_state" where
  "Emit b s =
     (if length (hs_queue s) < broadcast_size
      then s\<lparr> hs_queue := hs_queue s @ [b], hs_emitted := hs_emitted s @ [b], hs_accepted := hs_accepted s @ [b] \<rparr>
      else s\<lparr> hs_emitted := hs_emitted s @ [b] \<rparr>)"

definition run_receive :: "hub_state \<Rightarrow> hub_state" where
  "run_receive s =
     (case (hs_hand s, hs_queue s) of
        (None, m # ms) \<Rightarrow> s\<lparr> hs_hand := Some m, hs_queue := ms \<rparr>
      | _ \<Rightarrow> s)"

definition run_broadcast :: "conn list \<Rightarrow> hub_state \<Rightarrow> hub_state" where
  "run_broadcast broken s =
     (case hs_hand s of
        None \<Rightarrow> s
      | Some m \<Rightarrow>
         s\<lparr> hs_hand := None, hs_done := hs_done s @ [m],
            hs_out := (\<lambda>c. if c \<in> set (hs_clients s) \<and> c \<notin> set broken then hs_out s c @ [m] else hs_out s c),
            hs_failed := broken @ hs_failed s \<rparr>)"

text \<open>Each connection is a new one.\<close>

inductive hub_step :: "hub \<Rightarrow> hub_state \<Rightarrow> hub_state \<Rightarrow> bool" for h where
  Join: "hs_shown s c = None \<Longrightarrow> hub_step h s (ServeWs e h upgraded c p s)"
| Leave: "hub_step h s (drop_client c s)"
| Send: "hub_step h s (Emit b s)"
| Receive: "hub_step h s (run_receive s)"
| Broadcast: "hub_step h s (run_broadcast broken s)"

inductive hub_reach :: "hub \<Rightarrow> hub_state \<Rightarrow> bool" for h where
  Start: "hub_reach h NewHub"
| Next: "hub_reach h s \<Longrightarrow> hub_step h s s' \<Longrightarrow> hub_reach h s'"

inductive_cases hub_stepE: "hub_step h s s'"

section \<open>What the clients get\<close>

text \<open>What a connection showed lets it in: a session that is valid or, in its first message, the token.\<close>

definition let_in :: "hub \<Rightarrow> hub_state \<Rightarrow> conn \<Rightarrow> bool" where
  "let_in h s c \<longleftrightarrow> (case hs_shown s c of None \<Rightarrow> False | Some (e, p) \<Rightarrow> authenticateRequest e h p \<or> authenticate e h p)"

definition in_flight :: "hub_state \<Rightarrow> bytes list" where
  "in_flight s = (case hs_hand s of None \<Rightarrow> [] | Some m \<Rightarrow> [m]) @ hs_queue s"

definition client_inv :: "hub \<Rightarrow> hub_state \<Rightarrow> conn \<Rightarrow> bool" where
  "client_inv h s c \<longleftrightarrow>
     subseq (hs_out s c) (drop (hs_from s c) (hs_done s)) \<and> hs_from s c \<le> length (hs_done s) \<and>
     (hs_out s c \<noteq> [] \<or> c \<in> set (hs_clients s) \<longrightarrow> let_in h s c) \<and>
     (c \<in> set (hs_clients s) \<and> c \<notin> set (hs_failed s) \<longrightarrow> hs_out s c = drop (hs_from s c) (hs_done s))"

definition hub_inv :: "hub \<Rightarrow> hub_state \<Rightarrow> bool" where
  "hub_inv h s \<longleftrightarrow>
     length (hs_queue s) \<le> broadcast_size \<and> subseq (hs_accepted s) (hs_emitted s) \<and>
     hs_accepted s = hs_done s @ in_flight s \<and> (\<forall>c. client_inv h s c)"

lemma let_in_shown: "let_in h s c \<Longrightarrow> \<exists>e p. hs_shown s c = Some (e, p) \<and> (authenticateRequest e h p \<or> authenticate e h p)"
  by (auto simp: let_in_def split: option.splits)

lemma client_inv_cong:
  assumes "hs_out s' = hs_out s" "hs_from s' = hs_from s" "hs_done s' = hs_done s" "hs_shown s' = hs_shown s"
    "hs_clients s' = hs_clients s" "hs_failed s' = hs_failed s"
  shows "client_inv h s' c \<longleftrightarrow> client_inv h s c"
  using assms by (simp add: client_inv_def let_in_def)

lemma hub_inv_start: "hub_inv h NewHub"
  by (simp add: hub_inv_def client_inv_def NewHub_def in_flight_def)

lemma subseq_snoc: "subseq xs ys \<Longrightarrow> subseq (xs @ [b]) (ys @ [b])"
  by (intro list_emb_append_mono) auto

lemma subseq_keep: "subseq xs ys \<Longrightarrow> subseq xs (ys @ [b])"
  by (rule subseq_order.trans) auto

lemma Emit_client: "client_inv h (Emit b s) c \<longleftrightarrow> client_inv h s c"
  by (rule client_inv_cong) (simp_all add: Emit_def)

lemma run_receive_client: "client_inv h (run_receive s) c \<longleftrightarrow> client_inv h s c"
  by (rule client_inv_cong) (simp_all add: run_receive_def split: option.splits list.splits)

lemma client_invI:
  assumes "subseq (hs_out s c) (drop (hs_from s c) (hs_done s))" "hs_from s c \<le> length (hs_done s)"
    and "hs_out s c \<noteq> [] \<or> c \<in> set (hs_clients s) \<Longrightarrow> let_in h s c"
    and "c \<in> set (hs_clients s) \<Longrightarrow> c \<notin> set (hs_failed s) \<Longrightarrow> hs_out s c = drop (hs_from s c) (hs_done s)"
  shows "client_inv h s c"
  using assms unfolding client_inv_def by blast

lemma client_invD:
  assumes "client_inv h s c"
  shows "subseq (hs_out s c) (drop (hs_from s c) (hs_done s))" "hs_from s c \<le> length (hs_done s)"
    "hs_out s c \<noteq> [] \<Longrightarrow> let_in h s c" "c \<in> set (hs_clients s) \<Longrightarrow> let_in h s c"
    "c \<in> set (hs_clients s) \<Longrightarrow> c \<notin> set (hs_failed s) \<Longrightarrow> hs_out s c = drop (hs_from s c) (hs_done s)"
  using assms unfolding client_inv_def by blast+

lemma let_in_cong: "hs_shown s' c = hs_shown s c \<Longrightarrow> let_in h s' c \<longleftrightarrow> let_in h s c"
  by (simp add: let_in_def)

lemma drop_client_client:
  assumes "client_inv h s c"
  shows "client_inv h (drop_client x s) c"
proof -
  have "let_in h (drop_client x s) c \<longleftrightarrow> let_in h s c" by (rule let_in_cong) (simp add: drop_client_def)
  moreover have "hs_out (drop_client x s) = hs_out s" "hs_from (drop_client x s) = hs_from s" "hs_done (drop_client x s) = hs_done s"
    "hs_failed (drop_client x s) = hs_failed s" "hs_clients (drop_client x s) = removeAll x (hs_clients s)"
    by (simp_all add: drop_client_def)
  ultimately show ?thesis using assms unfolding client_inv_def by (simp only: set_removeAll) blast
qed

lemma ServeWs_client:
  assumes "hs_shown s x = None" "client_inv h s c"
  shows "client_inv h (ServeWs e h up x p s) c"
proof (cases "c = x \<and> up")
  case True
  have "\<not> let_in h s c" using assms(1) True by (simp add: let_in_def)
  then have "hs_out s c = []" "c \<notin> set (hs_clients s)" using client_invD [OF assms(2)] by blast+
  moreover have "hs_from s c \<le> length (hs_done s)" by (rule client_invD(2) [OF assms(2)])
  moreover have "let_in h (ServeWs e h up x p s) c" if "c \<in> set (hs_clients (ServeWs e h up x p s))"
    using True that calculation(2) by (cases "authenticateRequest e h p \<or> authenticate e h p") (simp_all add: ServeWs_def let_in_def)
  moreover have "hs_from (ServeWs e h up x p s) c = length (hs_done s)" if "c \<in> set (hs_clients (ServeWs e h up x p s))"
    using True that calculation(2) by (cases "authenticateRequest e h p \<or> authenticate e h p") (auto simp: ServeWs_def)
  moreover have "hs_from (ServeWs e h up x p s) c \<in> {hs_from s c, length (hs_done s)}" "hs_out (ServeWs e h up x p s) = hs_out s"
    "hs_done (ServeWs e h up x p s) = hs_done s" by (simp_all add: ServeWs_def)
  ultimately show ?thesis by (intro client_invI) auto
next
  case False
  have shown: "hs_shown (ServeWs e h up x p s) c = hs_shown s c" using False by (cases "c = x") (simp_all add: ServeWs_def)
  have part: "hs_from (ServeWs e h up x p s) c = hs_from s c" "c \<in> set (hs_clients (ServeWs e h up x p s)) \<longleftrightarrow> c \<in> set (hs_clients s)"
    using False by (cases "c = x"; simp add: ServeWs_def)+
  have rest: "hs_out (ServeWs e h up x p s) = hs_out s" "hs_done (ServeWs e h up x p s) = hs_done s"
    "hs_failed (ServeWs e h up x p s) = hs_failed s" by (simp_all add: ServeWs_def)
  show ?thesis using assms(2) unfolding client_inv_def part rest let_in_cong [OF shown] by blast
qed

lemma run_broadcast_client:
  assumes "client_inv h s c"
  shows "client_inv h (run_broadcast broken s) c"
proof (cases "hs_hand s")
  case (Some m)
  note d = client_invD [OF assms]
  have l: "let_in h (run_broadcast broken s) c \<longleftrightarrow> let_in h s c" by (rule let_in_cong) (simp add: run_broadcast_def Some)
  have f: "drop (hs_from s c) (hs_done s @ [m]) = drop (hs_from s c) (hs_done s) @ [m]" using d(2) by simp
  have fields: "hs_from (run_broadcast broken s) = hs_from s" "hs_done (run_broadcast broken s) = hs_done s @ [m]"
    "hs_clients (run_broadcast broken s) = hs_clients s" "hs_failed (run_broadcast broken s) = broken @ hs_failed s"
    "hs_from s c \<le> length (hs_done s @ [m])"
    using d(2) by (simp_all add: run_broadcast_def Some)
  show ?thesis
  proof (cases "c \<in> set (hs_clients s) \<and> c \<notin> set broken")
    case True
    then have o: "hs_out (run_broadcast broken s) c = hs_out s c @ [m]" by (simp add: run_broadcast_def Some)
    have "c \<notin> set (hs_failed s) \<Longrightarrow> hs_out s c @ [m] = drop (hs_from s c) (hs_done s) @ [m]" using d(5) True by blast
    then show ?thesis unfolding client_inv_def fields o l f set_append using subseq_snoc [OF d(1)] fields(5) d(4) True by blast
  next
    case False
    then have o: "hs_out (run_broadcast broken s) c = hs_out s c" by (auto simp: run_broadcast_def Some)
    show ?thesis unfolding client_inv_def fields o l f set_append using subseq_keep [OF d(1)] fields(5) d(3,4) False by blast
  qed
qed (use assms in \<open>simp add: run_broadcast_def\<close>)

lemma hub_step_inv:
  assumes "hub_step h s s'" "hub_inv h s"
  shows "hub_inv h s'"
proof -
  have i: "length (hs_queue s) \<le> broadcast_size" "subseq (hs_accepted s) (hs_emitted s)" "hs_accepted s = hs_done s @ in_flight s"
    "\<And>c. client_inv h s c" using assms(2) unfolding hub_inv_def by blast+
  show ?thesis
    using assms(1)
  proof cases
    case (Join c e upgraded p)
    have "in_flight s' = in_flight s" "hs_queue s' = hs_queue s" "hs_accepted s' = hs_accepted s" "hs_emitted s' = hs_emitted s"
      "hs_done s' = hs_done s" by (simp_all add: Join(1) ServeWs_def in_flight_def)
    then show ?thesis using i ServeWs_client [OF Join(2) i(4)] by (simp add: hub_inv_def Join(1))
  next
    case (Leave c)
    have "in_flight s' = in_flight s" "hs_queue s' = hs_queue s" "hs_accepted s' = hs_accepted s" "hs_emitted s' = hs_emitted s"
      "hs_done s' = hs_done s" by (simp_all add: Leave drop_client_def in_flight_def)
    moreover have "client_inv h s' x" for x using drop_client_client [OF i(4)] by (simp add: Leave)
    ultimately show ?thesis using i by (simp add: hub_inv_def)
  next
    case (Send b)
    have c: "client_inv h s' x" for x by (simp add: Send Emit_client i(4))
    show ?thesis
    proof (cases "length (hs_queue s) < broadcast_size")
      case True
      then have "in_flight s' = in_flight s @ [b]" "length (hs_queue s') \<le> broadcast_size" "hs_accepted s' = hs_accepted s @ [b]"
        "hs_emitted s' = hs_emitted s @ [b]" "hs_done s' = hs_done s" by (simp_all add: Send Emit_def in_flight_def)
      then show ?thesis using i subseq_snoc [OF i(2), of b] c by (simp add: hub_inv_def)
    next
      case False
      then have "in_flight s' = in_flight s" "hs_queue s' = hs_queue s" "hs_accepted s' = hs_accepted s"
        "hs_emitted s' = hs_emitted s @ [b]" "hs_done s' = hs_done s" by (simp_all add: Send Emit_def in_flight_def)
      then show ?thesis using i subseq_keep [OF i(2), of b] c by (simp add: hub_inv_def)
    qed
  next
    case Receive
    have "in_flight s' = in_flight s" "length (hs_queue s') \<le> length (hs_queue s)" "hs_accepted s' = hs_accepted s"
      "hs_emitted s' = hs_emitted s" "hs_done s' = hs_done s"
      by (simp_all add: Receive run_receive_def in_flight_def split: option.splits list.splits)
    moreover have "client_inv h s' x" for x by (simp add: Receive run_receive_client i(4))
    ultimately show ?thesis using i by (simp add: hub_inv_def)
  next
    case (Broadcast broken)
    have "hs_done s' @ in_flight s' = hs_done s @ in_flight s" "hs_queue s' = hs_queue s" "hs_accepted s' = hs_accepted s"
      "hs_emitted s' = hs_emitted s" by (simp_all add: Broadcast run_broadcast_def in_flight_def split: option.splits)
    moreover have "client_inv h s' x" for x by (simp add: Broadcast run_broadcast_client i(4))
    ultimately show ?thesis using i by (simp add: hub_inv_def)
  qed
qed

lemma hub_reach_inv: "hub_reach h s \<Longrightarrow> hub_inv h s"
  by (induction rule: hub_reach.induct) (auto intro: hub_inv_start hub_step_inv)

text \<open>C20: In every state the hub can reach, whoever has got a message showed a valid session or the token (or the hub is
  in development mode); each client got, without repetition and in the order of the calls of
  \<open>Emit\<close>, messages sent out after it joined, and all of them if it is still there and no write to it
  failed; and the messages that wait are at most 1024.\<close>

theorem messages_reach_clients_in_order:
  assumes "hub_reach h s"
  shows "length (hs_queue s) \<le> 1024 \<and> hs_accepted s = hs_done s @ in_flight s \<and> subseq (hs_accepted s) (hs_emitted s) \<and>
    (\<forall>c. (hs_out s c \<noteq> [] \<longrightarrow> (\<exists>e p. hs_shown s c = Some (e, p) \<and> (authenticateRequest e h p \<or> authenticate e h p))) \<and>
       subseq (hs_out s c) (drop (hs_from s c) (hs_done s)) \<and>
       (c \<in> set (hs_clients s) \<and> c \<notin> set (hs_failed s) \<longrightarrow> hs_out s c = drop (hs_from s c) (hs_done s)))"
proof -
  have i: "length (hs_queue s) \<le> broadcast_size" "subseq (hs_accepted s) (hs_emitted s)" "hs_accepted s = hs_done s @ in_flight s"
    "\<And>c. client_inv h s c" using hub_reach_inv [OF assms] unfolding hub_inv_def by blast+
  show ?thesis using i(1-3) i(4) let_in_shown unfolding client_inv_def broadcast_size_def by blast
qed

definition demo_hub :: hub where
  "demo_hub = \<lparr> hb_token = ''t'', hb_dev = False, hb_session = None \<rparr>"

definition demo_hub_env :: hub_env where
  "demo_hub_env = \<lparr> he_hmac = demo_hmac, he_now = 0,
     he_parse = (\<lambda>b. if b = ''hello'' then Inr (JObj [(''type'', JStr ''auth''), (''token'', JStr ''t'')]) else Inl ''no JSON'') \<rparr>"

definition demo_joined :: hub_state where
  "demo_joined = ServeWs demo_hub_env demo_hub True 1 \<lparr> pr_cookie = None, pr_first = Inr ''guess'' \<rparr>
     (ServeWs demo_hub_env demo_hub True 0 \<lparr> pr_cookie = None, pr_first = Inr ''hello'' \<rparr> NewHub)"

definition demo_delivered :: hub_state where
  "demo_delivered = run_broadcast [] (run_receive (Emit ''news'' demo_joined))"

lemma demo_delivered_reach: "hub_reach demo_hub demo_delivered"
proof -
  note step = hub_reach.Next
  have "hs_shown (ServeWs demo_hub_env demo_hub True 0 \<lparr> pr_cookie = None, pr_first = Inr ''hello'' \<rparr> NewHub) 1 = None"
    by (simp add: ServeWs_def NewHub_def)
  then have "hub_reach demo_hub demo_joined"
    unfolding demo_joined_def by (intro step [OF _ Join] hub_reach.Start) (simp_all add: NewHub_def)
  then show ?thesis unfolding demo_delivered_def by (intro step [OF _ Broadcast] step [OF _ Receive] step [OF _ Send])
qed

lemma messages_reach_clients_in_order_witness:
  "hs_clients demo_delivered = [0] \<and> hs_out demo_delivered 0 = [''news''] \<and> subseq (hs_out demo_delivered 0) (hs_emitted demo_delivered)"
proof -
  have c: "hs_clients demo_delivered = [0]" "hs_failed demo_delivered = []" "hs_done demo_delivered = [''news'']" "hs_from demo_delivered 0 = 0"
    "hs_emitted demo_delivered = [''news'']" by code_simp+
  then show ?thesis using messages_reach_clients_in_order [OF demo_delivered_reach] by auto
qed

end
