(* ===== verification/Startup.thy ===== *)
theory Startup
  imports Config Migrations Jobs Extensions Sandbox Hub Handlers "HOL-Library.AList"
begin

text \<open>
  What the daemon does before it serves: \<open>NewStore\<close> of \<open>internal/storage/store.go\<close> with the import of the
  services of former versions (\<open>jsonlegacy.go\<close>), and \<open>New\<close> of \<open>internal/server/server.go\<close>.

  The database whose schema the migrations bring up to date is given beside them: that the tables of the
  model are there is what a successful migration means.  The text forms of JSON and of times are arguments.
\<close>

section \<open>Services of former versions\<close>

definition dec_ptr :: "('a \<Rightarrow> json \<Rightarrow> 'a option) \<Rightarrow> 'a \<Rightarrow> 'a option \<Rightarrow> json \<Rightarrow> 'a option option" where
  "dec_ptr dec z cur j = (if j = JNull then Some None else map_option Some (dec (case cur of None \<Rightarrow> z | Some x \<Rightarrow> x) j))"

text \<open>A map with texts as values; \<open>null\<close> makes it \<open>nil\<close>, the last of several equal keys wins, and what was there stays.\<close>

fun dec_pairs :: "(string \<times> json) list \<Rightarrow> (string \<times> string) list \<Rightarrow> (string \<times> string) list option" where
  "dec_pairs [] m = Some m"
| "dec_pairs ((k, j) # kjs) m = (case dec_string [] j of None \<Rightarrow> None | Some s \<Rightarrow> dec_pairs kjs (AList.update k s m))"

definition dec_map :: "(string \<times> string) list \<Rightarrow> json \<Rightarrow> (string \<times> string) list option" where
  "dec_map cur j = (case j of JNull \<Rightarrow> Some [] | JObj kjs \<Rightarrow> map_option (sort_key fst) (dec_pairs kjs cur) | _ \<Rightarrow> None)"

definition dec_instant :: "(string \<Rightarrow> int option) \<Rightarrow> int \<Rightarrow> json \<Rightarrow> int option" where
  "dec_instant time cur j = (case j of JStr s \<Rightarrow> time s | _ \<Rightarrow> None)"

definition zero_app :: app where
  "zero_app = \<lparr> app_ID = [], app_Name = [], app_Command = [], app_Args = [], app_Cwd = [], app_Env = [], app_PID = 0, app_Status = [],
                app_StartedAt = None, app_ExitedAt = None, app_Code = None, app_LogFile = [] \<rparr>"

text \<open>An application of the list, which starts from the zero value.\<close>

definition json_app :: "(string \<Rightarrow> int option) \<Rightarrow> app \<Rightarrow> json \<Rightarrow> app option" where
  "json_app time cur j =
     (case unmarshal_object j of
        None \<Rightarrow> None
      | Some kvs \<Rightarrow>
         (case (str_field ''id'' kvs, str_field ''name'' kvs, str_field ''command'' kvs, strs_field ''args'' kvs, str_field ''cwd'' kvs,
                json_field dec_map ''env'' [] kvs) of
            (Some i, Some n, Some cmd, Some args, Some cwd, Some env) \<Rightarrow>
              (case (json_field dec_int ''pid'' 0 kvs, str_field ''status'' kvs, json_field (dec_ptr (dec_instant time) 0) ''startedAt'' None kvs,
                     json_field (dec_ptr (dec_instant time) 0) ''exitedAt'' None kvs, json_field (dec_ptr dec_int 0) ''code'' None kvs,
                     str_field ''logFile'' kvs) of
                 (Some pid, Some st, Some started, Some exited, Some code, Some lf) \<Rightarrow>
                   Some \<lparr> app_ID = i, app_Name = n, app_Command = cmd, app_Args = args, app_Cwd = cwd, app_Env = env, app_PID = pid,
                          app_Status = st, app_StartedAt = started, app_ExitedAt = exited, app_Code = code, app_LogFile = lf \<rparr>
               | _ \<Rightarrow> None)
          | _ \<Rightarrow> None))"

datatype legacy_error = LegacyOs os_error | LegacySyntax string | LegacyType

definition readLegacyApps :: "(bytes \<Rightarrow> string + json) \<Rightarrow> (string \<Rightarrow> int option) \<Rightarrow> path \<Rightarrow> fs \<Rightarrow> legacy_error + app list" where
  "readLegacyApps parse time cfgDir fs =
     (case os_read_file fs (appsPath cfgDir) of
        Inl e \<Rightarrow> if e = ENOENT then Inr [] else Inl (LegacyOs e)
      | Inr b \<Rightarrow>
         (case parse b of
            Inl msg \<Rightarrow> Inl (LegacySyntax msg)
          | Inr j \<Rightarrow>
             (case unmarshal_object j of
                None \<Rightarrow> Inl LegacyType
              | Some kvs \<Rightarrow>
                 (case json_field (dec_slice (json_app time) zero_app) ''apps'' [] kvs of None \<Rightarrow> Inl LegacyType | Some as \<Rightarrow> Inr as))))"

section \<open>The store\<close>

definition UpsertApp :: "int \<Rightarrow> app \<Rightarrow> unit sql" where "UpsertApp = upsertService"

text \<open>Errors are only logged, and read as absent.\<close>

definition GetApp :: "string \<Rightarrow> db \<Rightarrow> app option \<times> db" where
  "GetApp i d = (case getService i d of (Inl _, d') \<Rightarrow> (None, d') | (Inr a, d') \<Rightarrow> (a, d'))"

definition ListApps :: "db \<Rightarrow> app list \<times> db" where
  "ListApps d = (case listServices d of (Inl _, d') \<Rightarrow> ([], d') | (Inr as, d') \<Rightarrow> (as, d'))"

record 's store_env =
  sn_migrations :: "'s migration_files"
  sn_open :: "string option"
  sn_parse :: "bytes \<Rightarrow> string + json"
  sn_time :: "string \<Rightarrow> int option"
  sn_home :: "string + path"
  sn_clock :: int

record 's disk =
  ds_schema :: "'s migration_db"
  ds_db :: db
  ds_fs :: fs

definition import_legacy :: "'s store_env \<Rightarrow> path \<Rightarrow> fs \<Rightarrow> db \<Rightarrow> db" where
  "import_legacy e cfgDir fs d =
     (case readLegacyApps (sn_parse e) (sn_time e) cfgDir fs of
        Inl _ \<Rightarrow> d | Inr as \<Rightarrow> if as = [] then d else snd (importLegacyApps (sn_clock e) as d))"

text \<open>The store's sandbox is at the root asked for, or below the daemon's directory where that cannot be resolved.\<close>

definition NewStoreWithRoot :: "'s store_env \<Rightarrow> path \<Rightarrow> path \<Rightarrow> 's disk \<Rightarrow> (opened + sandbox option) \<times> 's disk" where
  "NewStoreWithRoot e cfgDir fileRoot s =
     (case OpenSQLite (sn_migrations e) (sn_open e) (ds_schema s) of
        (Opened, mg) \<Rightarrow>
          (Inr (case NewSandbox (ds_fs s) fileRoot of
                  Inr sb \<Rightarrow> Some sb
                | Inl _ \<Rightarrow> (case NewSandbox (ds_fs s) cfgDir of Inr sb \<Rightarrow> Some sb | Inl _ \<Rightarrow> None)),
           s\<lparr> ds_schema := mg, ds_db := import_legacy e cfgDir (ds_fs s) (ds_db s) \<rparr>)
      | (bad, mg) \<Rightarrow> (Inl bad, s\<lparr> ds_schema := mg \<rparr>))"

definition NewStore :: "'s store_env \<Rightarrow> path \<Rightarrow> 's disk \<Rightarrow> (opened + sandbox option) \<times> 's disk" where
  "NewStore e cfgDir = NewStoreWithRoot e cfgDir (case sn_home e of Inl _ \<Rightarrow> cfgDir | Inr h \<Rightarrow> h)"

section \<open>The server\<close>

datatype start_error = StoreFailed opened | SessionFailed session_error

record running_server =
  rs_sandbox :: "sandbox option"
  rs_hub :: hub
  rs_panel :: panel
  rs_plugins :: plugins

text \<open>The registry has the two built-in runtimes before the enabled extensions are loaded.\<close>

definition builtin_registry :: registry where
  "builtin_registry = RegisterRuntime ''php'' (Builtin ''php'') (RegisterRuntime ''node'' (Builtin ''node'') NewRegistry)"

text \<open>
  \<open>New\<close>.  The manager, the proxy's router and the hosts provider start empty; the database they share is that of the
  manager.  A failure to mark the jobs of a former life is only logged.
\<close>

definition server_New ::
  "'s store_env \<Rightarrow> world \<Rightarrow> heap \<Rightarrow> hosts_file \<Rightarrow> bool \<Rightarrow> string \<Rightarrow> string \<Rightarrow> path \<Rightarrow> 's disk \<Rightarrow> (start_error + running_server) \<times> 's disk" where
  "server_New e w h hosts dev tok secret cfgDir s =
     (case NewStore e cfgDir s of
        (Inl x, s1) \<Rightarrow> (Inl (StoreFailed x), s1)
      | (Inr sb, s1) \<Rightarrow>
         (case NewSessionAuth secret of
            Inl x \<Rightarrow> (Inl (SessionFailed x), s1)
          | Inr key \<Rightarrow>
             (let (d1, g) = LoadEnabled w (ds_db s1, \<lparr> pg_registry = builtin_registry, pg_loaded = (\<lambda>_. None), pg_heap = h \<rparr>);
                  d2 = snd (job_ReconcileStale (sn_clock e) d1)
              in (Inr \<lparr> rs_sandbox = sb, rs_hub = \<lparr> hb_token = tok, hb_dev = dev, hb_session = Some key \<rparr>,
                        rs_panel = \<lparr> p_mgr = \<lparr> procs = (\<lambda>_. None), alive = [], store = d2 \<rparr>, p_hosts = Some hosts,
                                     p_proxy = Some NewRouter \<rparr>,
                        rs_plugins = g \<rparr>,
                  s1\<lparr> ds_db := d2 \<rparr>))))"

section \<open>What the import adds\<close>

text \<open>The applications whose id is not known yet, nor that of one before.\<close>

fun new_apps :: "string set \<Rightarrow> app list \<Rightarrow> app list" where
  "new_apps known [] = []"
| "new_apps known (a # as) = (if app_ID a \<in> known then new_apps known as else a # new_apps (insert (app_ID a) known) as)"

definition service_ids :: "db \<Rightarrow> string set" where
  "service_ids d = {i. \<exists>r \<in> set (tables d ''services''). by_id i r}"

definition with_apps :: "int \<Rightarrow> app list \<Rightarrow> db \<Rightarrow> db" where
  "with_apps now as d = with_table ''services'' (tables d ''services'' @ map (\<lambda>a. make_row ''services'' (app_cols now a)) as) d"

lemma app_row:
  "make_row ''services'' (app_cols now a) ''id'' = Text (app_ID a)" "make_row ''services'' (app_cols now a) ''project_id'' = Null"
  "row_not_null ''services'' (make_row ''services'' (app_cols now a))"
  "scanService (make_row ''services'' (app_cols now a)) =
     a\<lparr> app_StartedAt := map_option (\<lambda>t. t div second * second) (app_StartedAt a),
        app_ExitedAt := map_option (\<lambda>t. t div second * second) (app_ExitedAt a) \<rparr>"
  by (simp_all add: make_row_def app_cols_def column_defaults_def row_not_null_def not_null_cols_def required_cols_def rfc3339_def
      scanService_def sql_simps optional_time_def optional_int_def split: option.splits)

lemma upsert_new_app:
  assumes "faults d = []" "app_ID a \<notin> service_ids d"
  shows "upsertService now a d = (Inr (), with_apps now [a] d)"
proof -
  let ?r = "make_row ''services'' (app_cols now a)"
  have no: "\<not> (\<exists>x \<in> set (tables d ''services''). x ''id'' = ?r ''id'' \<and> ?r ''id'' \<noteq> Null)"
    using assms(2) by (auto simp: service_ids_def by_id_def app_row)
  moreover have "raw_insert ''services'' ?r d = (Inr (), with_table ''services'' (tables d ''services'' @ [?r]) d)"
    using no by (auto simp: raw_insert_def app_row rows_conflict_def unique_cols_def row_references_def foreign_keys_def)
  ultimately show ?thesis
    unfolding upsertService_def sql_upsert_def go_bind_def Let_def using assms(1)
    by (simp only: tick_nofault prod.case sum.case if_False simp_thms app_row(3) with_apps_def list.map)
qed

lemma with_apps_ids: "service_ids (with_apps now as d) = service_ids d \<union> app_ID ` set as"
  by (auto simp: service_ids_def with_apps_def by_id_def app_row bex_Un)

lemma with_apps_append: "with_apps now bs (with_apps now as d) = with_apps now (as @ bs) d"
  by (simp add: with_apps_def with_table_def)

lemma import_adds_new:
  "faults d = [] \<Longrightarrow> importLegacyApps now as d = (Inr (), with_apps now (new_apps (service_ids d) as) d)"
proof (induction as arbitrary: d)
  case Nil
  show ?case by (simp add: go_return_def with_apps_def with_table_def)
next
  case (Cons a as)
  have q: "sql_query ''services'' (by_id (app_ID a)) d = (Inr (filter (by_id (app_ID a)) (tables d ''services'')), d)"
    using Cons.prems by (simp add: sql_query_nofault)
  have ex: "filter (by_id (app_ID a)) (tables d ''services'') \<noteq> [] \<longleftrightarrow> app_ID a \<in> service_ids d"
    by (simp add: service_ids_def filter_empty_conv)
  show ?case
  proof (cases "app_ID a \<in> service_ids d")
    case True
    then show ?thesis using Cons q ex by (simp add: go_bind_def)
  next
    case False
    have "faults (with_apps now [a] d) = []" using Cons.prems by (simp add: with_apps_def)
    from Cons.IH [OF this] show ?thesis
      using False q ex upsert_new_app [OF Cons.prems False, of now] with_apps_append [of now _ "[a]" d]
      by (simp add: go_bind_def with_apps_ids)
  qed
qed

lemma new_apps_known: "new_apps known as = [] \<longleftrightarrow> app_ID ` set as \<subseteq> known"
  by (induction as arbitrary: known) auto

lemma new_apps_ids: "distinct (map app_ID (new_apps known as)) \<and> app_ID ` set (new_apps known as) = app_ID ` set as - known"
  by (induction as arbitrary: known) auto

lemma with_apps_db_ok:
  assumes "db_ok d" "distinct (map app_ID as)" "app_ID ` set as \<inter> service_ids d = {}"
  shows "db_ok (with_apps now as d)"
proof -
  let ?rows = "map (\<lambda>a. make_row ''services'' (app_cols now a)) as"
  let ?d = "with_apps now as d"
  have tb: "tables ?d t = (if t = ''services'' then tables d t @ ?rows else tables d t)" for t by (simp add: with_apps_def with_table_def)
  have mono: "ids d t \<subseteq> ids ?d t" for t by (auto simp: ids_def tb)
  have new: "row_not_null ''services'' r" "row_references ?d ''services'' r" if "r \<in> set ?rows" for r
    using that by (auto simp: app_row row_references_def foreign_keys_def)
  have "no_conflicts ''services'' ?rows" using assms(2)
    by (induction as) (auto simp: rows_conflict_def unique_cols_def app_row image_iff)
  moreover have "\<not> rows_conflict ''services'' x r" if "x \<in> set (tables d ''services'')" "r \<in> set ?rows" for x r
    using that assms(3) by (fastforce simp: rows_conflict_def unique_cols_def app_row service_ids_def by_id_def disjoint_iff)
  ultimately have nc: "no_conflicts ''services'' (tables ?d ''services'')"
    using assms(1) by (auto simp: tb no_conflicts_append db_ok_def schema_tables_def)
  have old: "row_not_null t r \<and> row_references ?d t r" if "t \<in> set schema_tables" "r \<in> set (tables d t)" for t r
    using that assms(1) row_references_mono [OF _ mono] by (auto simp: db_ok_def)
  show ?thesis unfolding db_ok_def
  proof (intro ballI conjI)
    fix t r assume t: "t \<in> set schema_tables" "r \<in> set (tables ?d t)"
    then consider "r \<in> set (tables d t)" | "t = ''services''" "r \<in> set ?rows" by (auto simp: tb split: if_splits)
    then show "row_not_null t r" "row_references ?d t r" using old [OF t(1)] new by (cases; blast)+
  next
    fix t assume "t \<in> set schema_tables"
    then show "no_conflicts t (tables ?d t)" using nc assms(1) by (cases "t = ''services''") (auto simp: tb db_ok_def)
  qed
qed

section \<open>What the daemon starts with\<close>

definition cut_app :: "app \<Rightarrow> app" where
  "cut_app a = a\<lparr> app_StartedAt := map_option (\<lambda>t. t div second * second) (app_StartedAt a),
                   app_ExitedAt := map_option (\<lambda>t. t div second * second) (app_ExitedAt a) \<rparr>"

definition interrupted_job :: "int \<Rightarrow> job \<Rightarrow> job" where
  "interrupted_job now j =
     (if job_Status j = JobRunning
      then j\<lparr> job_Status := JobFailed, job_Error := interrupted_message, job_FinishedAt := Some (now div second * second) \<rparr> else j)"

lemma import_legacy_adds:
  assumes "readLegacyApps (sn_parse e) (sn_time e) cfgDir fs = Inr apps" "faults d = []"
  shows "import_legacy e cfgDir fs d = with_apps (sn_clock e) (new_apps (service_ids d) apps) d"
  using assms import_adds_new [OF assms(2), of "sn_clock e" apps]
  by (auto simp: import_legacy_def with_apps_def with_table_def)

lemma LoadEnabled_db: "faults d = [] \<Longrightarrow> fst (LoadEnabled w (d, g)) = d"
  by (simp add: LoadEnabled_def extension_List_def sql_query_nofault split: sum.splits)

text \<open>C6: When the database opens and the secret is one, the daemon starts: the services that former versions left in
  \<open>apps.json\<close> are there, each once, read back as they were but for fractions of seconds, and those that were there
  already are as they were; the jobs that were running when the last daemon ended are failed and no others have
  changed; nothing else in the database has; no process runs yet; and another start imports nothing more.\<close>

theorem startup_restores_the_daemon:
  assumes "OpenSQLite (sn_migrations e) (sn_open e) (ds_schema s) = (Opened, mg)" "NewSessionAuth secret = Inr key"
    and "faults (ds_db s) = []" "db_ok (ds_db s)" "readLegacyApps (sn_parse e) (sn_time e) cfgDir (ds_fs s) = Inr apps"
  shows "\<exists>srv s' rows. server_New e w h hosts dev tok secret cfgDir s = (Inr srv, s') \<and>
    ds_db s' = panel_db (rs_panel srv) \<and> alive (p_mgr (rs_panel srv)) = [] \<and> rs_hub srv = \<lparr> hb_token = tok, hb_dev = dev, hb_session = Some key \<rparr> \<and>
    tables (ds_db s') ''services'' = tables (ds_db s) ''services'' @ rows \<and>
    map scanService rows = map cut_app (new_apps (service_ids (ds_db s)) apps) \<and>
    jobs_of (ds_db s') = map (interrupted_job (sn_clock e)) (jobs_of (ds_db s)) \<and>
    (\<forall>t. t \<notin> {''services'', ''jobs''} \<longrightarrow> tables (ds_db s') t = tables (ds_db s) t) \<and>
    new_apps (service_ids (ds_db s')) apps = []"
proof -
  let ?d = "ds_db s" and ?now = "sn_clock e" and ?new = "new_apps (service_ids (ds_db s)) apps"
  let ?d1 = "with_apps ?now ?new ?d"
  let ?g = "\<lparr> pg_registry = builtin_registry, pg_loaded = (\<lambda>_. None), pg_heap = h \<rparr>"
  have imp: "import_legacy e cfgDir (ds_fs s) ?d = ?d1" by (rule import_legacy_adds [OF assms(5,3)])
  have f1: "faults ?d1 = []" using assms(3) by (simp add: with_apps_def)
  have ok1: "db_ok ?d1" by (rule with_apps_db_ok [OF assms(4)]) (use new_apps_ids in auto)
  obtain d2 where d2: "job_ReconcileStale ?now ?d1 = (Inr (length (filter (\<lambda>j. job_Status j = JobRunning) (jobs_of ?d1))), d2)"
    "jobs_of d2 = map (interrupted_job ?now) (jobs_of ?d1)" "\<forall>t. t \<noteq> ''jobs'' \<longrightarrow> tables d2 t = tables ?d1 t"
    using reconcile_leaves_no_running_job [OF f1 ok1, of ?now] unfolding interrupted_job_def by blast
  obtain g where g: "LoadEnabled w (?d1, ?g) = (?d1, g)" using LoadEnabled_db [OF f1] by (metis prod.collapse)
  obtain sb where st: "NewStore e cfgDir s = (Inr sb, s\<lparr> ds_schema := mg, ds_db := ?d1 \<rparr>)"
    using assms(1) imp by (simp add: NewStore_def NewStoreWithRoot_def)
  let ?rows = "map (\<lambda>a. make_row ''services'' (app_cols ?now a)) ?new"
  have jobs: "jobs_of ?d1 = jobs_of ?d" by (simp add: jobs_of_def with_apps_def)
  have rows: "tables d2 ''services'' = tables ?d ''services'' @ ?rows" using d2(3) by (simp add: with_apps_def)
  have "service_ids d2 = service_ids ?d1" using rows by (simp add: service_ids_def with_apps_def)
  then have "app_ID ` set apps \<subseteq> service_ids d2" using new_apps_ids [of "service_ids ?d" apps] by (auto simp: with_apps_ids)
  then have again: "new_apps (service_ids d2) apps = []" by (simp add: new_apps_known)
  have frame: "tables d2 t = tables ?d t" if "t \<notin> {''services'', ''jobs''}" for t using that d2(3) by (simp add: with_apps_def)
  have read: "map scanService ?rows = map cut_app ?new" by (simp add: app_row(4) cut_app_def)
  let ?srv = "\<lparr> rs_sandbox = sb, rs_hub = \<lparr> hb_token = tok, hb_dev = dev, hb_session = Some key \<rparr>,
      rs_panel = \<lparr> p_mgr = \<lparr> procs = (\<lambda>_. None), alive = [], store = d2 \<rparr>, p_hosts = Some hosts, p_proxy = Some NewRouter \<rparr>, rs_plugins = g \<rparr>"
  have "server_New e w h hosts dev tok secret cfgDir s = (Inr ?srv, s\<lparr> ds_schema := mg, ds_db := d2 \<rparr>)"
    using st assms(2) g d2(1) by (simp add: server_New_def)
  then show ?thesis
    using d2(2) jobs rows read again frame
    by (intro exI [of _ ?srv] exI [of _ "s\<lparr> ds_schema := mg, ds_db := d2 \<rparr>"] exI [of _ ?rows]) (simp add: panel_db_def)
qed

text \<open>A daemon whose file of a former version names one service.\<close>

definition demo_store_env :: "unit store_env" where
  "demo_store_env = \<lparr> sn_migrations = \<lparr> mf_names = [], mf_read = (\<lambda>_. Inl []), mf_exec = (\<lambda>_ _. Inl []) \<rparr>, sn_open = None,
     sn_parse = (\<lambda>_. Inr (JObj [(''apps'', JArr [JObj [(''command'', JStr ''npm'')]])])),
     sn_time = (\<lambda>_. None), sn_home = Inl ''no home'', sn_clock = 0 \<rparr>"

definition demo_disk :: "unit disk" where
  "demo_disk = \<lparr> ds_schema = \<lparr> mg_schema = (), mg_versions = [], mg_faults = [] \<rparr>, ds_db = \<lparr> tables = (\<lambda>_. []), faults = [] \<rparr>,
     ds_fs = (\<lambda>p. if p = [] then Some Dir else if p = [''apps.json''] then Some (File 384 []) else None) \<rparr>"

lemma demo_legacy_app:
  "readLegacyApps (sn_parse demo_store_env) (sn_time demo_store_env) [] (ds_fs demo_disk) =
     Inr [zero_app\<lparr> app_Command := ''npm'' \<rparr>]"
proof -
  have k: "equal_fold ''apps'' ''apps''" "equal_fold ''command'' ''command''" "\<not> equal_fold ''command'' ''id''" "\<not> equal_fold ''command'' ''name''"
    "\<not> equal_fold ''command'' ''args''" "\<not> equal_fold ''command'' ''cwd''" "\<not> equal_fold ''command'' ''env''" "\<not> equal_fold ''command'' ''pid''"
    "\<not> equal_fold ''command'' ''status''" "\<not> equal_fold ''command'' ''startedAt''" "\<not> equal_fold ''command'' ''exitedAt''"
    "\<not> equal_fold ''command'' ''code''" "\<not> equal_fold ''command'' ''logFile''" by code_simp+
  have f: "ds_fs demo_disk = (\<lambda>p. if p = [] then Some Dir else if p = [''apps.json''] then Some (File 384 []) else None)" by (simp add: demo_disk_def)
  have "os_read_file (ds_fs demo_disk) (appsPath []) = Inr []" unfolding f
    by (simp add: os_read_file_def os_stat_def appsPath_def locate.simps(2))
  moreover have "json_field (dec_slice (json_app (sn_time demo_store_env)) zero_app) ''apps'' []
      [(''apps'', JArr [JObj [(''command'', JStr ''npm'')]])] =
    Some [zero_app\<lparr> app_Command := ''npm'' \<rparr>]"
    by (simp add: k json_app_def dec_slice_def unmarshal_object_def dec_string_def zero_app_def)
  ultimately show ?thesis by (simp add: readLegacyApps_def demo_store_env_def unmarshal_object_def)
qed

lemma startup_restores_the_daemon_witness:
  "\<forall>w h hosts. \<exists>srv s' r. server_New demo_store_env w h hosts False ''t'' (Std_Encode (replicate 32 CHR ''k'')) [] demo_disk = (Inr srv, s') \<and>
     tables (ds_db s') ''services'' = [r] \<and> app_Command (scanService r) = ''npm''"
proof (intro allI)
  fix w h hosts
  have o: "OpenSQLite (sn_migrations demo_store_env) (sn_open demo_store_env) (ds_schema demo_disk) = (Opened, ds_schema demo_disk)"
    by (simp add: OpenSQLite_def migrate_def statement_def go_bind_def demo_store_env_def demo_disk_def)
  have k: "NewSessionAuth (Std_Encode (replicate 32 CHR ''k'')) = Inr (replicate 32 CHR ''k'')"
    by (simp add: NewSessionAuth_def Std_roundtrip)
  have d: "faults (ds_db demo_disk) = []" "db_ok (ds_db demo_disk)" by (simp_all add: demo_disk_def db_ok_def)
  have i: "service_ids (ds_db demo_disk) = {}" by (simp add: service_ids_def demo_disk_def)
  obtain srv s' rows where r: "server_New demo_store_env w h hosts False ''t'' (Std_Encode (replicate 32 CHR ''k'')) [] demo_disk = (Inr srv, s')"
    "tables (ds_db s') ''services'' = tables (ds_db demo_disk) ''services'' @ rows"
    "map scanService rows = map cut_app (new_apps (service_ids (ds_db demo_disk)) [zero_app\<lparr> app_Command := ''npm'' \<rparr>])"
    using startup_restores_the_daemon [OF o k d demo_legacy_app, of w h hosts False "''t''"] by (elim exE conjE) (rule that)
  then obtain r where rr: "rows = [r]" unfolding i by (auto simp: length_Suc_conv)
  with r(3) have "app_Command (scanService r) = ''npm''" unfolding i by (simp add: cut_app_def)
  then show "\<exists>srv s' r. server_New demo_store_env w h hosts False ''t'' (Std_Encode (replicate 32 CHR ''k'')) [] demo_disk = (Inr srv, s') \<and>
     tables (ds_db s') ''services'' = [r] \<and> app_Command (scanService r) = ''npm''"
    using r(1,2) rr by (auto simp: demo_disk_def)
qed

end
