(* ===== verification/Routes.thy ===== *)
theory Routes
  imports SessionAuth
begin

text \<open>
  \<open>Mount\<close> of \<open>internal/api/v1/router.go\<close>: the routes of the API, and what a request passes before its handler
  runs.  A route has a method, a pattern of segments, the middleware of its group and the name of
  its handler.  The handlers are an argument; the theories of the handlers model them.  Paths are
  matched the way the router does it: a parameter stands for one segment that is not empty.  A path
  that has a route but for a slash at its end is redirected, which runs no handler either.
\<close>

datatype segment = Lit string | Param

text \<open>Routes of the engine itself have no middleware, those of \<open>api\<close> the check of the origin, and those of \<open>authed\<close>
  that and the check of the credentials.\<close>

datatype access = Open | Origin | Session

record route =
  rt_method :: string
  rt_path :: "segment list"
  rt_access :: access
  rt_handler :: string

definition route :: "string \<Rightarrow> segment list \<Rightarrow> access \<Rightarrow> string \<Rightarrow> route" where
  "route meth path acc handler = \<lparr> rt_method = meth, rt_path = path, rt_access = acc, rt_handler = handler \<rparr>"

definition Mount :: "route list" where
  "Mount =
    [
     route ''GET'' [Lit ''api'', Lit ''v1'', Lit ''health''] Open ''health'',
     route ''GET'' [Lit ''api'', Lit ''v1'', Lit ''ws''] Open ''ServeWs'',
     route ''POST'' [Lit ''api'', Lit ''v1'', Lit ''auth'', Lit ''token'', Lit ''verify''] Origin ''verifyToken'',
     route ''POST'' [Lit ''api'', Lit ''v1'', Lit ''pipelines'', Param, Lit ''webhook''] Origin ''pipelineWebhook'',
     route ''GET'' [Lit ''api'', Lit ''v1'', Lit ''runtimes''] Session ''listRuntimes'',
     route ''POST'' [Lit ''api'', Lit ''v1'', Lit ''runtimes'', Param, Lit ''detect''] Session ''detectRuntimeKind'',
     route ''POST'' [Lit ''api'', Lit ''v1'', Lit ''runtimes'', Param, Lit ''versions'', Param, Lit ''default''] Session ''setDefaultRuntimeVersion'',
     route ''POST'' [Lit ''api'', Lit ''v1'', Lit ''runtimes'', Param, Lit ''versions'', Lit ''install''] Session ''installRuntimeVersion'',
     route ''DELETE'' [Lit ''api'', Lit ''v1'', Lit ''runtimes'', Param, Lit ''versions'', Param] Session ''removeRuntimeVersion'',
     route ''GET'' [Lit ''api'', Lit ''v1'', Lit ''services''] Session ''listServices'',
     route ''POST'' [Lit ''api'', Lit ''v1'', Lit ''services'', Param, Lit ''start''] Session ''startService'',
     route ''POST'' [Lit ''api'', Lit ''v1'', Lit ''services'', Param, Lit ''stop''] Session ''stopService'',
     route ''POST'' [Lit ''api'', Lit ''v1'', Lit ''services'', Param, Lit ''restart''] Session ''restartService'',
     route ''GET'' [Lit ''api'', Lit ''v1'', Lit ''services'', Param, Lit ''logs''] Session ''serviceLogs'',
     route ''GET'' [Lit ''api'', Lit ''v1'', Lit ''services'', Param, Lit ''metrics''] Session ''serviceMetrics'',
     route ''GET'' [Lit ''api'', Lit ''v1'', Lit ''files''] Session ''listFiles'',
     route ''GET'' [Lit ''api'', Lit ''v1'', Lit ''files'', Lit ''read''] Session ''readFile'',
     route ''GET'' [Lit ''api'', Lit ''v1'', Lit ''files'', Lit ''download''] Session ''downloadFile'',
     route ''PUT'' [Lit ''api'', Lit ''v1'', Lit ''files''] Session ''writeFile'',
     route ''DELETE'' [Lit ''api'', Lit ''v1'', Lit ''files''] Session ''deleteFile'',
     route ''POST'' [Lit ''api'', Lit ''v1'', Lit ''files'', Lit ''mkdir''] Session ''mkdirFile'',
     route ''POST'' [Lit ''api'', Lit ''v1'', Lit ''files'', Lit ''move''] Session ''moveFile'',
     route ''POST'' [Lit ''api'', Lit ''v1'', Lit ''files'', Lit ''copy''] Session ''copyFile'',
     route ''POST'' [Lit ''api'', Lit ''v1'', Lit ''files'', Lit ''upload''] Session ''uploadFile'',
     route ''GET'' [Lit ''api'', Lit ''v1'', Lit ''system'', Lit ''metrics''] Session ''systemMetrics'',
     route ''GET'' [Lit ''api'', Lit ''v1'', Lit ''projects''] Session ''listProjects'',
     route ''POST'' [Lit ''api'', Lit ''v1'', Lit ''projects''] Session ''createProject'',
     route ''GET'' [Lit ''api'', Lit ''v1'', Lit ''projects'', Param] Session ''getProject'',
     route ''DELETE'' [Lit ''api'', Lit ''v1'', Lit ''projects'', Param] Session ''deleteProject'',
     route ''POST'' [Lit ''api'', Lit ''v1'', Lit ''projects'', Param, Lit ''detect''] Session ''redetectProject'',
     route ''POST'' [Lit ''api'', Lit ''v1'', Lit ''projects'', Param, Lit ''start''] Session ''startProject'',
     route ''POST'' [Lit ''api'', Lit ''v1'', Lit ''projects'', Param, Lit ''stop''] Session ''stopProject'',
     route ''GET'' [Lit ''api'', Lit ''v1'', Lit ''proxy'', Lit ''status''] Session ''proxyStatus'',
     route ''GET'' [Lit ''api'', Lit ''v1'', Lit ''packages'', Lit ''installed''] Session ''listInstalledPackages'',
     route ''GET'' [Lit ''api'', Lit ''v1'', Lit ''packages'', Lit ''search''] Session ''searchPackages'',
     route ''POST'' [Lit ''api'', Lit ''v1'', Lit ''packages'', Lit ''install''] Session ''installPackage'',
     route ''POST'' [Lit ''api'', Lit ''v1'', Lit ''packages'', Lit ''upgrade''] Session ''upgradePackage'',
     route ''POST'' [Lit ''api'', Lit ''v1'', Lit ''packages'', Lit ''uninstall''] Session ''uninstallPackage'',
     route ''POST'' [Lit ''api'', Lit ''v1'', Lit ''packages'', Lit ''service''] Session ''packageServiceAction'',
     route ''POST'' [Lit ''api'', Lit ''v1'', Lit ''packages'', Lit ''versions'', Lit ''default''] Session ''setDefaultPackageVersion'',
     route ''GET'' [Lit ''api'', Lit ''v1'', Lit ''jobs''] Session ''listJobs'',
     route ''GET'' [Lit ''api'', Lit ''v1'', Lit ''jobs'', Param] Session ''getJob'',
     route ''GET'' [Lit ''api'', Lit ''v1'', Lit ''jobs'', Param, Lit ''log''] Session ''getJobLog'',
     route ''POST'' [Lit ''api'', Lit ''v1'', Lit ''jobs'', Param, Lit ''cancel''] Session ''cancelJob'',
     route ''GET'' [Lit ''api'', Lit ''v1'', Lit ''docker'', Lit ''containers''] Session ''listDockerContainers'',
     route ''GET'' [Lit ''api'', Lit ''v1'', Lit ''docker'', Lit ''containers'', Param] Session ''getDockerContainer'',
     route ''POST'' [Lit ''api'', Lit ''v1'', Lit ''docker'', Lit ''containers'', Param, Lit ''start''] Session ''startDockerContainer'',
     route ''POST'' [Lit ''api'', Lit ''v1'', Lit ''docker'', Lit ''containers'', Param, Lit ''stop''] Session ''stopDockerContainer'',
     route ''POST'' [Lit ''api'', Lit ''v1'', Lit ''docker'', Lit ''containers'', Param, Lit ''restart''] Session ''restartDockerContainer'',
     route ''GET'' [Lit ''api'', Lit ''v1'', Lit ''docker'', Lit ''containers'', Param, Lit ''logs''] Session ''dockerContainerLogs'',
     route ''POST'' [Lit ''api'', Lit ''v1'', Lit ''docker'', Lit ''containers'', Param, Lit ''exec''] Session ''execDockerContainer'',
     route ''GET'' [Lit ''api'', Lit ''v1'', Lit ''docker'', Lit ''images''] Session ''listDockerImages'',
     route ''GET'' [Lit ''api'', Lit ''v1'', Lit ''docker'', Lit ''volumes''] Session ''listDockerVolumes'',
     route ''GET'' [Lit ''api'', Lit ''v1'', Lit ''docker'', Lit ''networks''] Session ''listDockerNetworks'',
     route ''GET'' [Lit ''api'', Lit ''v1'', Lit ''domains''] Session ''listDomains'',
     route ''POST'' [Lit ''api'', Lit ''v1'', Lit ''domains''] Session ''createDomain'',
     route ''DELETE'' [Lit ''api'', Lit ''v1'', Lit ''domains'', Param] Session ''deleteDomain'',
     route ''GET'' [Lit ''api'', Lit ''v1'', Lit ''domains'', Param, Lit ''conflicts''] Session ''domainConflicts'',
     route ''POST'' [Lit ''api'', Lit ''v1'', Lit ''ssl'', Lit ''ca'', Lit ''ensure''] Session ''ensureCA'',
     route ''POST'' [Lit ''api'', Lit ''v1'', Lit ''ssl'', Lit ''certificates''] Session ''issueCertificate'',
     route ''POST'' [Lit ''api'', Lit ''v1'', Lit ''ssl'', Lit ''ca'', Lit ''trust''] Session ''trustCA'',
     route ''GET'' [Lit ''api'', Lit ''v1'', Lit ''extensions''] Session ''listExtensions'',
     route ''POST'' [Lit ''api'', Lit ''v1'', Lit ''extensions''] Session ''installExtension'',
     route ''DELETE'' [Lit ''api'', Lit ''v1'', Lit ''extensions'', Param] Session ''removeExtension'',
     route ''POST'' [Lit ''api'', Lit ''v1'', Lit ''extensions'', Param, Lit ''enable''] Session ''enableExtension'',
     route ''POST'' [Lit ''api'', Lit ''v1'', Lit ''extensions'', Param, Lit ''disable''] Session ''disableExtension'',
     route ''GET'' [Lit ''api'', Lit ''v1'', Lit ''integrations''] Session ''listIntegrations'',
     route ''POST'' [Lit ''api'', Lit ''v1'', Lit ''integrations''] Session ''createIntegration'',
     route ''DELETE'' [Lit ''api'', Lit ''v1'', Lit ''integrations'', Param] Session ''deleteIntegration'',
     route ''GET'' [Lit ''api'', Lit ''v1'', Lit ''git'', Lit ''repos''] Session ''listGitRepos'',
     route ''POST'' [Lit ''api'', Lit ''v1'', Lit ''git'', Lit ''clone''] Session ''cloneGitRepo'',
     route ''GET'' [Lit ''api'', Lit ''v1'', Lit ''git'', Lit ''repos'', Param, Param, Lit ''branches''] Session ''gitBranches'',
     route ''GET'' [Lit ''api'', Lit ''v1'', Lit ''servers''] Session ''listServers'',
     route ''POST'' [Lit ''api'', Lit ''v1'', Lit ''servers''] Session ''createServer'',
     route ''DELETE'' [Lit ''api'', Lit ''v1'', Lit ''servers'', Param] Session ''deleteServer'',
     route ''POST'' [Lit ''api'', Lit ''v1'', Lit ''servers'', Param, Lit ''test''] Session ''testServerConnection'',
     route ''GET'' [Lit ''api'', Lit ''v1'', Lit ''servers'', Param, Lit ''metrics''] Session ''serverMetrics'',
     route ''POST'' [Lit ''api'', Lit ''v1'', Lit ''servers'', Param, Lit ''exec''] Session ''execServer'',
     route ''GET'' [Lit ''api'', Lit ''v1'', Lit ''servers'', Param, Lit ''files''] Session ''listServerFiles'',
     route ''GET'' [Lit ''api'', Lit ''v1'', Lit ''servers'', Param, Lit ''files'', Lit ''read''] Session ''readServerFile'',
     route ''PUT'' [Lit ''api'', Lit ''v1'', Lit ''servers'', Param, Lit ''files''] Session ''writeServerFile'',
     route ''GET'' [Lit ''api'', Lit ''v1'', Lit ''db-connections''] Session ''listDBConnections'',
     route ''POST'' [Lit ''api'', Lit ''v1'', Lit ''db-connections''] Session ''createDBConnection'',
     route ''DELETE'' [Lit ''api'', Lit ''v1'', Lit ''db-connections'', Param] Session ''deleteDBConnection'',
     route ''POST'' [Lit ''api'', Lit ''v1'', Lit ''db-connections'', Param, Lit ''test''] Session ''testDBConnection'',
     route ''GET'' [Lit ''api'', Lit ''v1'', Lit ''db-connections'', Param, Lit ''databases''] Session ''listDatabases'',
     route ''GET'' [Lit ''api'', Lit ''v1'', Lit ''db-connections'', Param, Lit ''tables''] Session ''listTables'',
     route ''GET'' [Lit ''api'', Lit ''v1'', Lit ''db-connections'', Param, Lit ''tables'', Param, Lit ''columns''] Session ''listColumns'',
     route ''GET'' [Lit ''api'', Lit ''v1'', Lit ''db-connections'', Param, Lit ''tables'', Param, Lit ''rows''] Session ''browseTable'',
     route ''POST'' [Lit ''api'', Lit ''v1'', Lit ''db-connections'', Param, Lit ''query''] Session ''runQuery'',
     route ''GET'' [Lit ''api'', Lit ''v1'', Lit ''deployment-targets''] Session ''listDeploymentTargets'',
     route ''POST'' [Lit ''api'', Lit ''v1'', Lit ''deployment-targets''] Session ''createDeploymentTarget'',
     route ''DELETE'' [Lit ''api'', Lit ''v1'', Lit ''deployment-targets'', Param] Session ''deleteDeploymentTarget'',
     route ''GET'' [Lit ''api'', Lit ''v1'', Lit ''deployments''] Session ''listDeployments'',
     route ''POST'' [Lit ''api'', Lit ''v1'', Lit ''deployments''] Session ''deploy'',
     route ''GET'' [Lit ''api'', Lit ''v1'', Lit ''deployments'', Param, Lit ''log''] Session ''deploymentLog'',
     route ''POST'' [Lit ''api'', Lit ''v1'', Lit ''deployments'', Param, Lit ''rollback''] Session ''rollbackDeployment'',
     route ''GET'' [Lit ''api'', Lit ''v1'', Lit ''pipelines''] Session ''listPipelines'',
     route ''POST'' [Lit ''api'', Lit ''v1'', Lit ''pipelines''] Session ''createPipeline'',
     route ''DELETE'' [Lit ''api'', Lit ''v1'', Lit ''pipelines'', Param] Session ''deletePipeline'',
     route ''POST'' [Lit ''api'', Lit ''v1'', Lit ''pipelines'', Param, Lit ''run''] Session ''runPipelineManual'',
     route ''GET'' [Lit ''api'', Lit ''v1'', Lit ''pipelines'', Param, Lit ''runs''] Session ''listPipelineRuns''
    ]"

section \<open>Serving a request\<close>

record request =
  rq_method :: string
  rq_path :: string
  rq_origin :: string
  rq_cookie :: "string option"
  rq_token :: string

fun seg_matches :: "segment \<Rightarrow> string \<Rightarrow> bool" where
  "seg_matches (Lit s) t \<longleftrightarrow> s = t"
| "seg_matches Param t \<longleftrightarrow> t \<noteq> []"

definition path_matches :: "segment list \<Rightarrow> string list \<Rightarrow> bool" where
  "path_matches p ts \<longleftrightarrow> list_all2 seg_matches p ts"

definition route_matches :: "request \<Rightarrow> route \<Rightarrow> bool" where
  "route_matches rq r \<longleftrightarrow> rt_method r = rq_method rq \<and> (case split_on CHR ''/'' (rq_path rq) of
     [] # ts \<Rightarrow> path_matches (rt_path r) ts | _ \<Rightarrow> False)"

text \<open>A request is refused by the middleware, has no route, or is answered by its handler.\<close>

datatype 'a outcome = NoRoute | Forbidden | Unauthorized | Handled 'a

record api_env =
  ae_hmac :: keyed_hash
  ae_config :: auth_config
  ae_now :: int
  ae_host_of :: "string \<Rightarrow> string option"

definition origin_ok :: "api_env \<Rightarrow> request \<Rightarrow> bool" where
  "origin_ok e rq = csrfMiddleware (ae_host_of e) (rq_method rq) (rq_origin rq)"

definition credentials_ok :: "api_env \<Rightarrow> request \<Rightarrow> bool" where
  "credentials_ok e rq = authMiddleware (ae_hmac e) (ae_config e) (ae_now e) (rq_cookie rq) (rq_token rq)"

definition serve :: "api_env \<Rightarrow> (string \<Rightarrow> request \<Rightarrow> 's \<Rightarrow> 'a \<times> 's) \<Rightarrow> request \<Rightarrow> 's \<Rightarrow> 'a outcome \<times> 's" where
  "serve e handler rq s =
     (case find (route_matches rq) Mount of
        None \<Rightarrow> (NoRoute, s)
      | Some r \<Rightarrow>
         (if rt_access r \<noteq> Open \<and> \<not> origin_ok e rq then (Forbidden, s)
          else if rt_access r = Session \<and> \<not> credentials_ok e rq then (Unauthorized, s)
          else (case handler (rt_handler r) rq s of (a, s') \<Rightarrow> (Handled a, s'))))"

section \<open>Properties of the table\<close>

text \<open>Two patterns that some path matches both.\<close>

fun seg_overlap :: "segment \<Rightarrow> segment \<Rightarrow> bool" where
  "seg_overlap (Lit s) (Lit t) \<longleftrightarrow> s = t"
| "seg_overlap (Lit s) Param \<longleftrightarrow> s \<noteq> []"
| "seg_overlap Param (Lit t) \<longleftrightarrow> t \<noteq> []"
| "seg_overlap Param Param \<longleftrightarrow> True"

definition routes_overlap :: "route \<Rightarrow> route \<Rightarrow> bool" where
  "routes_overlap r r' \<longleftrightarrow> rt_method r = rt_method r' \<and> list_all2 seg_overlap (rt_path r) (rt_path r')"

lemma seg_overlap: "seg_matches a t \<Longrightarrow> seg_matches b t \<Longrightarrow> seg_overlap a b"
  by (cases a; cases b) auto

lemma paths_overlap: "list_all2 seg_matches p ts \<Longrightarrow> list_all2 seg_matches q ts \<Longrightarrow> list_all2 seg_overlap p q"
proof (induction p arbitrary: q ts)
  case (Cons a p)
  then show ?case by (cases ts; cases q) (auto simp: seg_overlap)
qed (simp add: list_all2_Nil)

lemma matching_routes_overlap: "route_matches rq r \<Longrightarrow> route_matches rq r' \<Longrightarrow> routes_overlap r r'"
  using paths_overlap by (fastforce simp: route_matches_def routes_overlap_def path_matches_def split: list.splits)

fun pairwise_apart :: "route list \<Rightarrow> bool" where
  "pairwise_apart [] \<longleftrightarrow> True"
| "pairwise_apart (r # rs) \<longleftrightarrow> list_all (\<lambda>r'. \<not> routes_overlap r r') rs \<and> pairwise_apart rs"

lemma Mount_apart: "pairwise_apart Mount"
  by code_simp

lemma find_apart:
  assumes "pairwise_apart rs" "r \<in> set rs" "route_matches rq r"
  shows "find (route_matches rq) rs = Some r"
  using assms
proof (induction rs)
  case (Cons x rs)
  show ?case
  proof (cases "r = x")
    case False
    then have "r \<in> set rs" using Cons.prems by simp
    then have "\<not> routes_overlap x r" using Cons.prems(1) by (simp add: list_all_iff)
    then have "\<not> route_matches rq x" using matching_routes_overlap Cons.prems(3) by blast
    then show ?thesis using Cons.IH Cons.prems False by simp
  qed (use Cons.prems in simp)
qed simp

text \<open>The routes that need no credentials.\<close>

definition public_routes :: "(string \<times> string \<times> access) list" where
  "public_routes = [(''GET'', ''health'', Open), (''GET'', ''ServeWs'', Open), (''POST'', ''verifyToken'', Origin), (''POST'', ''pipelineWebhook'', Origin)]"

lemma Mount_access:
  "list_all (\<lambda>r. rt_access r = Session \<or> (rt_method r, rt_handler r, rt_access r) \<in> set public_routes) Mount"
  by code_simp

lemma find_route: "find P rs = Some r \<Longrightarrow> P r \<and> r \<in> set rs"
  by (induction rs) (auto split: if_splits)

lemma list_runtimes_route:
  assumes "rq_method rq = ''GET''" "rq_path rq = ''/api/v1/runtimes''" "credentials_ok e rq"
  shows "serve e handler rq s = (Handled (fst (handler ''listRuntimes'' rq s)), snd (handler ''listRuntimes'' rq s))"
proof -
  let ?r = "route ''GET'' [Lit ''api'', Lit ''v1'', Lit ''runtimes''] Session ''listRuntimes''"
  have "?r \<in> set Mount" by (simp add: Mount_def)
  moreover have "route_matches rq ?r" by (simp add: route_matches_def route_def path_matches_def assms(1,2))
  ultimately have "find (route_matches rq) Mount = Some ?r" by (rule find_apart [OF Mount_apart])
  moreover have "origin_ok e rq" by (simp add: origin_ok_def csrfMiddleware_def assms(1))
  ultimately show ?thesis using assms(3) by (simp add: serve_def route_def split: prod.splits)
qed

text \<open>C21: A request without credentials changes nothing and runs no handler, unless it is for one of the four handlers that
  check for themselves or show nothing: the health check, the socket, the token and the webhook.
  A request with the method \<open>POST\<close>, \<open>PUT\<close>, \<open>DELETE\<close> or \<open>PATCH\<close> that comes from a foreign page runs no handler at all.
  The page of a \<open>GET\<close> is not looked at: with credentials, \<open>GET /api/v1/runtimes\<close> runs its handler for any page,
  although that one rewrites the tables of runtimes and the audit log (\<open>listRuntimes\<close> in theory \<open>RuntimeHandlers\<close>).\<close>

theorem handlers_run_only_with_credentials:
  assumes "serve e handler rq s = (out, s')"
  shows "(\<not> credentials_ok e rq \<longrightarrow>
      (s' = s \<and> out \<in> {NoRoute, Forbidden, Unauthorized}) \<or>
      (\<exists>n a. n \<in> {''health'', ''ServeWs'', ''verifyToken'', ''pipelineWebhook''} \<and> out = Handled a \<and> handler n rq s = (a, s'))) \<and>
    (rq_method rq \<in> {''POST'', ''PUT'', ''DELETE'', ''PATCH''} \<and> rq_origin rq \<noteq> [] \<and> \<not> isLocalOrigin (ae_host_of e) (rq_origin rq) \<longrightarrow>
      s' = s \<and> out \<in> {NoRoute, Forbidden}) \<and>
    (rq_method rq = ''GET'' \<and> rq_path rq = ''/api/v1/runtimes'' \<and> credentials_ok e rq \<longrightarrow>
      (\<exists>a. out = Handled a \<and> handler ''listRuntimes'' rq s = (a, s')))"
proof -
  have lr: "\<exists>a. out = Handled a \<and> handler ''listRuntimes'' rq s = (a, s')"
    if "rq_method rq = ''GET''" "rq_path rq = ''/api/v1/runtimes''" "credentials_ok e rq"
    using list_runtimes_route [OF that, of handler s] assms by (cases "handler ''listRuntimes'' rq s") simp
  show ?thesis
  proof (cases "find (route_matches rq) Mount")
    case None
    then show ?thesis using assms lr by (auto simp: serve_def)
  next
    case (Some r)
    have r: "route_matches rq r" "r \<in> set Mount" using find_route [OF Some] by auto
    obtain a t where h: "handler (rt_handler r) rq s = (a, t)" by (cases "handler (rt_handler r) rq s")
    have acc: "rt_access r = Session \<or> (rt_method r, rt_handler r, rt_access r) \<in> set public_routes"
      using Mount_access r(2) by (simp add: list_all_iff)
    have meth: "rt_method r = rq_method rq" using r(1) by (simp add: route_matches_def)
    have open_get: "rt_access r = Open \<Longrightarrow> rq_method rq = ''GET''" using acc meth by (auto simp: public_routes_def)
    have n: "rt_access r \<noteq> Session \<Longrightarrow> rt_handler r \<in> {''health'', ''ServeWs'', ''verifyToken'', ''pipelineWebhook''}"
      using acc by (auto simp: public_routes_def)
    have foreign: "\<not> origin_ok e rq \<and> rt_access r \<noteq> Open"
      if "rq_method rq \<in> {''POST'', ''PUT'', ''DELETE'', ''PATCH''}" "rq_origin rq \<noteq> []" "\<not> isLocalOrigin (ae_host_of e) (rq_origin rq)"
      using that open_get by (auto simp: origin_ok_def csrfMiddleware_def)
    show ?thesis
    proof (cases "rt_access r \<noteq> Open \<and> \<not> origin_ok e rq")
      case True
      then have "out = Forbidden \<and> s' = s" using assms Some by (simp add: serve_def)
      then show ?thesis using lr by auto
    next
      case ok: False
      show ?thesis
      proof (cases "rt_access r = Session \<and> \<not> credentials_ok e rq")
        case True
        then have "out = Unauthorized \<and> s' = s" using assms Some ok by (simp add: serve_def)
        then show ?thesis using lr True ok foreign by auto
      next
        case False
        then have out: "out = Handled a" "s' = t" using assms Some ok h by (auto simp: serve_def)
        then show ?thesis using ok False foreign n h lr by blast
      qed
    qed
  qed
qed

text \<open>No route hides another: a request that matches the pattern of a route, and is let in, is answered by the handler of
  that route.\<close>

theorem no_route_hides_another:
  assumes "r \<in> set Mount" "route_matches rq r" "rt_access r = Open \<or> origin_ok e rq" "rt_access r = Session \<longrightarrow> credentials_ok e rq"
  shows "serve e handler rq s = (Handled (fst (handler (rt_handler r) rq s)), snd (handler (rt_handler r) rq s))"
  using find_apart [OF Mount_apart assms(1,2)] assms(3,4) by (auto simp: serve_def split: prod.splits)

section \<open>Witnesses\<close>

definition demo_api :: api_env where
  "demo_api = \<lparr> ae_hmac = demo_hmac, ae_config = \<lparr> ac_dev = False, ac_token = ''t'', ac_secret = ''k'' \<rparr>, ae_now = 0,
                ae_host_of = (\<lambda>x. if x = ''http://evil.test'' then Some ''evil.test'' else None) \<rparr>"

definition demo_request :: "string \<Rightarrow> string \<Rightarrow> request" where
  "demo_request origin token =
     \<lparr> rq_method = ''POST'', rq_path = ''/api/v1/projects/p1/start'', rq_origin = origin, rq_cookie = None, rq_token = token \<rparr>"

lemma handlers_run_only_with_credentials_witness:
  "snd (serve demo_api (\<lambda>n rq s. (n, n # s)) (demo_request [] ''guess'') []) = [] \<and>
   snd (serve demo_api (\<lambda>n rq s. (n, n # s)) (demo_request ''http://evil.test'' ''t'') []) = []"
proof -
  let ?h = "\<lambda>n rq s. (n, n # s)"
  have c: "\<not> credentials_ok demo_api (demo_request [] ''guess'')"
    by (simp add: credentials_ok_def authMiddleware_def demo_api_def demo_request_def)
  have "fst (serve demo_api ?h (demo_request [] ''guess'') []) = Unauthorized" by code_simp
  then have "snd (serve demo_api ?h (demo_request [] ''guess'') []) = []"
    using handlers_run_only_with_credentials [of demo_api ?h "demo_request [] ''guess''" "[]"] c
    by (cases "serve demo_api ?h (demo_request [] ''guess'') []") auto
  moreover have "snd (serve demo_api ?h (demo_request ''http://evil.test'' ''t'') []) = []"
    using handlers_run_only_with_credentials [of demo_api ?h "demo_request ''http://evil.test'' ''t''" "[]"]
    by (cases "serve demo_api ?h (demo_request ''http://evil.test'' ''t'') []")
      (simp add: demo_api_def demo_request_def isLocalOrigin_def has_suffix_def has_prefix_def)
  ultimately show ?thesis by simp
qed

lemma no_route_hides_another_witness:
  "fst (serve demo_api (\<lambda>n rq s. (n, n # s)) (demo_request [] ''t'') []) = Handled ''startProject''"
proof -
  let ?r = "route ''POST'' [Lit ''api'', Lit ''v1'', Lit ''projects'', Param, Lit ''start''] Session ''startProject''"
  have "?r \<in> set Mount" by (simp add: Mount_def)
  moreover have "route_matches (demo_request [] ''t'') ?r"
    by (simp add: route_matches_def route_def demo_request_def path_matches_def)
  moreover have "origin_ok demo_api (demo_request [] ''t'')" by (simp add: origin_ok_def csrfMiddleware_def demo_request_def)
  moreover have "credentials_ok demo_api (demo_request [] ''t'')"
    by (simp add: credentials_ok_def authMiddleware_def demo_api_def demo_request_def)
  ultimately show ?thesis
    using no_route_hides_another [of ?r "demo_request [] ''t''" demo_api "\<lambda>n rq s. (n, n # s)" "[]"] by (simp add: route_def)
qed

end
