(* ===== verification/ExtensionHandlers.thy ===== *)
theory ExtensionHandlers
  imports Handlers Extensions
begin

text \<open>
  The handlers of \<open>internal/api/v1/extensions.go\<close>: the repository of extensions behind the API, with the audit
  log.  The state is the daemon and the loaded plugins.
\<close>

record extension_call =
  xk_call :: call
  xk_world :: world

datatype extension_refusal = ExtensionMessage string | ExtensionRefused extension_error

type_synonym 'a extension_handler = "panel \<times> plugins \<Rightarrow> (nat \<times> (extension_refusal + 'a)) \<times> panel \<times> plugins"

text \<open>An operation of the repository, on the daemon's database.\<close>

definition on_repository :: "(db \<times> plugins \<Rightarrow> 'a \<times> db \<times> plugins) \<Rightarrow> panel \<times> plugins \<Rightarrow> 'a \<times> panel \<times> plugins" where
  "on_repository f s = (case f (panel_db (fst s), snd s) of (a, (d, g)) \<Rightarrow> (a, (set_db d (fst s), g)))"

definition audit_extension :: "extension_call \<Rightarrow> string \<Rightarrow> string \<Rightarrow> string \<Rightarrow> panel \<times> plugins \<Rightarrow> panel \<times> plugins" where
  "audit_extension k action what result s = (audit (xk_call k) action ''extension'' what result (fst s), snd s)"

definition extension_status :: "extension_error \<Rightarrow> nat \<times> (extension_refusal + 'a)" where
  "extension_status e = (if e = ExtensionNotFound then (404, Inl (ExtensionMessage ''extension not found'')) else (400, Inl (ExtensionRefused e)))"

definition listExtensions :: "extension list extension_handler" where
  "listExtensions s =
     (case on_repository (\<lambda>(d, g). case extension_List d of (r, d') \<Rightarrow> (r, (d', g))) s of
        (Inl e, s1) \<Rightarrow> ((500, Inl (ExtensionRefused e)), s1) | (Inr xs, s1) \<Rightarrow> ((200, Inr xs), s1))"

definition installExtension :: "extension_call \<Rightarrow> string + string \<Rightarrow> extension extension_handler" where
  "installExtension k body s =
     (case body of
        Inl msg \<Rightarrow> ((400, Inl (ExtensionMessage msg)), s)
      | Inr path \<Rightarrow>
         (case on_repository (\<lambda>(d, g). case extension_Install (xk_world k) (cl_uuid (xk_call k)) path d of (r, d') \<Rightarrow> (r, (d', g))) s of
            (r, s1) \<Rightarrow>
             ((case r of Inl e \<Rightarrow> (400, Inl (ExtensionRefused e)) | Inr x \<Rightarrow> (201, Inr x)),
              audit_extension k ''extension.install'' path (resultOf r) s1)))"

text \<open>An operation on one extension.\<close>

definition act_extension :: "extension_call \<Rightarrow> string \<Rightarrow> string \<Rightarrow> (db \<times> plugins \<Rightarrow> (extension_error + 'a) \<times> db \<times> plugins) \<Rightarrow> 'a extension_handler" where
  "act_extension k action i f s =
     (case on_repository f s of
        (r, s1) \<Rightarrow>
         ((case r of Inl e \<Rightarrow> extension_status e | Inr x \<Rightarrow> (200, Inr x)), audit_extension k action i (resultOf r) s1))"

definition removeExtension :: "extension_call \<Rightarrow> string \<Rightarrow> string \<Rightarrow> unit extension_handler" where
  "removeExtension k i confirm s =
     (if confirm \<noteq> ''true'' then ((400, Inl (ExtensionMessage ''removing an extension requires confirm=true'')), s)
      else act_extension k ''extension.remove'' i (extension_Remove i) s)"

definition enableExtension :: "extension_call \<Rightarrow> string \<Rightarrow> extension extension_handler" where
  "enableExtension k i = act_extension k ''extension.enable'' i (extension_Enable (xk_world k) i)"

definition disableExtension :: "extension_call \<Rightarrow> string \<Rightarrow> extension extension_handler" where
  "disableExtension k i = act_extension k ''extension.disable'' i (extension_Disable i)"

section \<open>What the answers say\<close>

lemma audit_keeps_catalogue:
  assumes "extension_rows (panel_db p)"
  shows "extension_rows (panel_db (audit cl a tt ti r p))" "catalogue_of (panel_db (audit cl a tt ti r p)) = catalogue_of (panel_db p)"
proof -
  have f: "faults (panel_db p) = []" using assms by (simp add: extension_rows_def)
  have t: "tables (panel_db (audit cl a tt ti r p)) ''extensions'' = tables (panel_db p) ''extensions''"
    by (rule audit_frame(2) [OF f]) simp
  show rows: "extension_rows (panel_db (audit cl a tt ti r p))"
    using assms audit_frame(1) [OF f, of cl a tt ti r] t by (simp add: extension_rows_def)
  show "catalogue_of (panel_db (audit cl a tt ti r p)) = catalogue_of (panel_db p)"
    by (simp add: fun_eq_iff catalogue_eq [OF rows] catalogue_eq [OF assms] t)
qed

lemma act_extension_out:
  assumes "f (panel_db p, g) = (r, (d, g'))" "extension_rows d"
  shows "\<exists>p'. act_extension k a i f (p, g) = ((case r of Inl e \<Rightarrow> extension_status e | Inr x \<Rightarrow> (200, Inr x)), (p', g')) \<and>
    extension_rows (panel_db p') \<and> catalogue_of (panel_db p') = catalogue_of d"
  using assms audit_keeps_catalogue [of "set_db d p"]
  by (simp add: act_extension_def on_repository_def audit_extension_def)

text \<open>The answers of the handlers tell what became of the catalogue: 404 for an extension that is not there, 200 when a
  removal deleted it, a disabling marked it and an enabling loaded and marked it, and another code when
  nothing of it changed; only a confirmed removal removes; and no request leaves a process that
  belongs to no loaded extension.\<close>

theorem extension_answers_tell_the_catalogue:
  assumes "extension_rows (panel_db p)" "plugins_inv {} g"
  shows "(case enableExtension k i (p, g) of ((c, _), (p', g')) \<Rightarrow> plugins_inv {} g' \<and>
      catalogue_of (panel_db p') = (if c = 200 then spec_mark True i (catalogue_of (panel_db p)) else catalogue_of (panel_db p)) \<and>
      (catalogue_of (panel_db p) i = None \<longrightarrow> c = 404)) \<and>
    (case disableExtension k i (p, g) of ((c, _), (p', g')) \<Rightarrow> plugins_inv {} g' \<and>
      catalogue_of (panel_db p') = spec_mark False i (catalogue_of (panel_db p)) \<and>
      c = (if catalogue_of (panel_db p) i = None then 404 else 200)) \<and>
    (case removeExtension k i confirm (p, g) of ((c, _), (p', g')) \<Rightarrow> plugins_inv {} g' \<and>
      (if confirm = ''true''
       then catalogue_of (panel_db p') = spec_remove i (catalogue_of (panel_db p)) \<and>
         c = (if catalogue_of (panel_db p) i = None then 404 else 200)
       else p' = p \<and> g' = g \<and> c = 400))"
proof -
  let ?d = "panel_db p"
  obtain r2 d2 g2 where e: "extension_Enable (xk_world k) i (?d, g) = (r2, (d2, g2))" by (metis surj_pair)
  obtain r3 d3 g3 where u: "extension_Disable i (?d, g) = (r3, (d3, g3))" by (metis surj_pair)
  obtain r4 d4 g4 where m: "extension_Remove i (?d, g) = (r4, (d4, g4))" by (metis surj_pair)
  note E = Enable_refines [OF assms(1) e] and U = Disable_refines [OF assms(1) u] and M = Remove_refines [OF assms(1) m]
  have inv: "plugins_inv {} g2" "plugins_inv {} g3" "plugins_inv {} g4"
    using inv_Enable [of "{}" "(?d, g)" "xk_world k" i] inv_Disable [of "{}" "(?d, g)" i] inv_Remove [of "{}" "(?d, g)" i] assms(2) e u m
    by simp_all
  obtain pe where pe: "enableExtension k i (p, g) = ((case r2 of Inl e \<Rightarrow> extension_status e | Inr x \<Rightarrow> (200, Inr x)), (pe, g2))"
    "catalogue_of (panel_db pe) = catalogue_of d2"
    using act_extension_out [where f = "extension_Enable (xk_world k) i" and p = p and g = g and k = k and a = "''extension.enable''" and i = i, OF e] E
    unfolding enableExtension_def by blast
  obtain pu where pu: "disableExtension k i (p, g) = ((case r3 of Inl e \<Rightarrow> extension_status e | Inr x \<Rightarrow> (200, Inr x)), (pu, g3))"
    "catalogue_of (panel_db pu) = catalogue_of d3"
    using act_extension_out [where f = "extension_Disable i" and p = p and g = g and k = k and a = "''extension.disable''" and i = i, OF u] U
    unfolding disableExtension_def by blast
  obtain pm where pm: "act_extension k ''extension.remove'' i (extension_Remove i) (p, g) =
      ((case r4 of Inl e \<Rightarrow> extension_status e | Inr x \<Rightarrow> (200, Inr x)), (pm, g4))" "catalogue_of (panel_db pm) = catalogue_of d4"
    using act_extension_out [where f = "extension_Remove i" and p = p and g = g and k = k and a = "''extension.remove''" and i = i, OF m] M by blast
  show ?thesis
    using pe pu pm E U M inv assms(2)
    by (cases r2; cases r3; cases r4) (auto simp: removeExtension_def extension_status_def split: if_splits)
qed

lemma extension_answers_tell_the_catalogue_witness:
  "let s = (set_db demo_rows (demo_panel [] []), demo_plugins); k = \<lparr> xk_call = demo_call ''u'', xk_world = demo_world \<rparr>
   in fst (fst (removeExtension k ''nowhere'' ''true'' s)) = 404 \<and> fst (fst (disableExtension k ''x1'' s)) = 200"
proof -
  let ?p = "set_db demo_rows (demo_panel [] [])" and ?k = "\<lparr> xk_call = demo_call ''u'', xk_world = demo_world \<rparr>"
  have r: "extension_rows (panel_db ?p)" using demo_rows_ok(1) by simp
  have c: "catalogue_of (panel_db ?p) ''nowhere'' = None" "catalogue_of (panel_db ?p) ''x1'' \<noteq> None"
    using demo_rows_ok(2)
    by (simp_all add: catalogue_eq [OF demo_rows_ok(1)])
      (simp add: demo_rows_def by_id_def make_row_def extension_cols_def demo_extension_def, auto)
  show ?thesis
    using extension_answers_tell_the_catalogue [OF r demo_plugins_ok(1), where k = ?k and i = "''nowhere''" and confirm = "''true''"]
      extension_answers_tell_the_catalogue [OF r demo_plugins_ok(1), where k = ?k and i = "''x1''" and confirm = "''true''"] c
    by (cases "removeExtension ?k ''nowhere'' ''true'' (?p, demo_plugins)"; cases "disableExtension ?k ''x1'' (?p, demo_plugins)")
      (auto simp: Let_def)
qed

end
