(* ===== verification/ServiceUnits.thy ===== *)
theory ServiceUnits
  imports RealPaths GoPath Decimal
begin

text \<open>
  Registration of the daemon with the operating system: the launch agents of \<open>internal/platform/darwin\<close>, the user
  units of \<open>internal/platform/linux\<close> and the services of \<open>internal/platform/windows\<close>, and \<open>internal/system\<close> before them.

  The commands \<open>launchctl\<close> and \<open>systemctl\<close> are an argument, which maps the words of a command to its output and
  error and may change a state of its own; so are the calls of the service control manager.
\<close>

type_synonym 'w commands = "string list \<Rightarrow> 'w \<Rightarrow> (string \<times> string option) \<times> 'w"

datatype unit_error =
    UnitRequired string
  | UnitHome string
  | UnitOs string os_error
  | CommandFailed string string string
  | ServiceExists string
  | ManagerFailed string string

definition unlines :: "string list \<Rightarrow> string" where
  "unlines ls = concat (map (\<lambda>l. l @ [CHR 0x0A]) ls)"

section \<open>Launch agents\<close>

record agent_options =
  ag_Label :: string
  ag_ExecPath :: string
  ag_Args :: "string list"
  ag_RunAtLoad :: "bool option"
  ag_KeepAlive :: "bool option"
  ag_StdoutPath :: string
  ag_StderrPath :: string

definition agent_applyDefaults :: "string \<Rightarrow> agent_options \<Rightarrow> agent_options" where
  "agent_applyDefaults tmp opts =
     opts\<lparr> ag_RunAtLoad := (case ag_RunAtLoad opts of None \<Rightarrow> Some True | b \<Rightarrow> b),
           ag_KeepAlive := (case ag_KeepAlive opts of None \<Rightarrow> Some True | b \<Rightarrow> b),
           ag_StdoutPath := (if ag_StdoutPath opts = [] then filepath_Join tmp (ag_Label opts @ ''.out.log'') else ag_StdoutPath opts),
           ag_StderrPath := (if ag_StderrPath opts = [] then filepath_Join tmp (ag_Label opts @ ''.err.log'') else ag_StderrPath opts) \<rparr>"

definition xmlEscape :: "string \<Rightarrow> string" where
  "xmlEscape s = replace_all ''>'' ''&gt;'' (replace_all ''<'' ''&lt;'' (replace_all ''&'' ''&amp;'' s))"

text \<open>The template, whose actions trim the white space before them.\<close>

definition plistTemplate :: "string \<Rightarrow> string \<Rightarrow> string list \<Rightarrow> bool \<Rightarrow> bool \<Rightarrow> string \<Rightarrow> string \<Rightarrow> string" where
  "plistTemplate label exec args runAtLoad keepAlive out err =
     unlines [''<?xml version=\"1.0\" encoding=\"UTF-8\"?>'',
       ''<!DOCTYPE plist PUBLIC \"-//Apple//DTD PLIST 1.0//EN\" \"http://www.apple.com/DTDs/PropertyList-1.0.dtd\">'',
       ''<plist version=\"1.0\">'', ''<dict>''] @
     ''    <key>Label</key><string>'' @ label @ ''</string>'' @ [CHR 0x0A] @
     unlines [''    <key>ProgramArguments</key>'', ''    <array>''] @
     ''        <string>'' @ exec @ ''</string>'' @
     concat (map (\<lambda>a. [CHR 0x0A] @ ''        <string>'' @ a @ ''</string>'') args) @ [CHR 0x0A] @
     unlines [''    </array>''] @
     ''    <key>RunAtLoad</key><'' @ (if runAtLoad then ''true'' else ''false'') @ ''/>'' @ [CHR 0x0A] @
     ''    <key>KeepAlive</key><'' @ (if keepAlive then ''true'' else ''false'') @ ''/>'' @ [CHR 0x0A] @
     ''    <key>StandardOutPath</key><string>'' @ out @ ''</string>'' @ [CHR 0x0A] @
     ''    <key>StandardErrorPath</key><string>'' @ err @ ''</string>'' @ [CHR 0x0A] @
     unlines [''</dict>'', ''</plist>'']"

definition GeneratePlist :: "string \<Rightarrow> agent_options \<Rightarrow> unit_error + string" where
  "GeneratePlist tmp opts0 =
     (let opts = agent_applyDefaults tmp opts0 in
      if ag_Label opts = [] then Inl (UnitRequired ''Label'')
      else if ag_ExecPath opts = [] then Inl (UnitRequired ''ExecPath'')
      else Inr (plistTemplate (xmlEscape (ag_Label opts)) (xmlEscape (ag_ExecPath opts)) (map xmlEscape (ag_Args opts))
                  (ag_RunAtLoad opts = Some True) (ag_KeepAlive opts = Some True)
                  (xmlEscape (ag_StdoutPath opts)) (xmlEscape (ag_StderrPath opts))))"

definition defaultLaunchAgentsDir :: "string + path \<Rightarrow> unit_error + path" where
  "defaultLaunchAgentsDir home = (case home of Inl msg \<Rightarrow> Inl (UnitHome msg) | Inr h \<Rightarrow> Inr (h @ [''Library'', ''LaunchAgents'']))"

text \<open>Write the text that was generated to a file of the directory, which is made if need be.\<close>

definition write_unit :: "path \<Rightarrow> string \<Rightarrow> unit_error + string \<Rightarrow> fs \<Rightarrow> (unit_error + path) \<times> fs" where
  "write_unit dir name content fs =
     (case content of
        Inl e \<Rightarrow> (Inl e, fs)
      | Inr txt' \<Rightarrow>
         (case os_mkdir_all dir fs of
            (Inl e, fs1) \<Rightarrow> (Inl (UnitOs ''mkdir'' e), fs1)
          | (Inr _, fs1) \<Rightarrow>
             (case os_write_file (join_path dir name) txt' 420 fs1 of
                (Inl e, fs2) \<Rightarrow> (Inl (UnitOs ''write'' e), fs2)
              | (Inr _, fs2) \<Rightarrow> (Inr (join_path dir name), fs2))))"

definition writePlistFile :: "string \<Rightarrow> path \<Rightarrow> agent_options \<Rightarrow> fs \<Rightarrow> (unit_error + path) \<times> fs" where
  "writePlistFile tmp dir opts = write_unit dir (ag_Label opts @ ''.plist'') (GeneratePlist tmp opts)"

definition run_unit :: "'w commands \<Rightarrow> string \<Rightarrow> string list \<Rightarrow> 'w \<Rightarrow> (unit_error + unit) \<times> 'w" where
  "run_unit cmd what args w =
     (case cmd args w of
        ((_, None), w') \<Rightarrow> (Inr (), w')
      | ((out, Some msg), w') \<Rightarrow> (Inl (CommandFailed what msg (trim_space out)), w'))"

definition agent_Install :: "'w commands \<Rightarrow> string \<Rightarrow> string + path \<Rightarrow> agent_options \<Rightarrow> fs \<times> 'w \<Rightarrow> (unit_error + unit) \<times> fs \<times> 'w" where
  "agent_Install cmd tmp home opts s =
     (case defaultLaunchAgentsDir home of
        Inl e \<Rightarrow> (Inl e, s)
      | Inr dir \<Rightarrow>
         (case writePlistFile tmp dir opts (fst s) of
            (Inl e, fs) \<Rightarrow> (Inl e, (fs, snd s))
          | (Inr path, fs) \<Rightarrow>
             (case run_unit cmd ''launchctl load'' [''launchctl'', ''load'', ''-w'', show_path path] (snd s) of
                (r, w) \<Rightarrow> (r, (fs, w)))))"

text \<open>A file that is not there counts as removed.\<close>

definition remove_unit :: "path \<Rightarrow> fs \<Rightarrow> (unit_error + unit) \<times> fs" where
  "remove_unit p fs =
     (case os_remove p fs of
        (Inl e, fs') \<Rightarrow> if e = ENOENT then (Inr (), fs') else (Inl (UnitOs ''remove'' e), fs')
      | (Inr _, fs') \<Rightarrow> (Inr (), fs'))"

definition agent_Uninstall :: "'w commands \<Rightarrow> string + path \<Rightarrow> string \<Rightarrow> fs \<times> 'w \<Rightarrow> (unit_error + unit) \<times> fs \<times> 'w" where
  "agent_Uninstall cmd home label s =
     (case defaultLaunchAgentsDir home of
        Inl e \<Rightarrow> (Inl e, s)
      | Inr dir \<Rightarrow>
         (let p = join_path dir (label @ ''.plist''); w = snd (cmd [''launchctl'', ''unload'', show_path p] (snd s))
          in case remove_unit p (fst s) of (r, fs) \<Rightarrow> (r, (fs, w))))"

definition agent_Status :: "'w commands \<Rightarrow> string \<Rightarrow> 'w \<Rightarrow> string \<times> 'w" where
  "agent_Status cmd label w =
     (case cmd [''launchctl'', ''list'', label] w of
        ((out, None), w') \<Rightarrow> (trim_space out, w') | ((_, Some _), w') \<Rightarrow> (''not installed'', w'))"

section \<open>User units\<close>

record user_unit =
  uu_Name :: string
  uu_Description :: string
  uu_ExecPath :: string
  uu_Args :: "string list"
  uu_Restart :: string

definition unit_applyDefaults :: "user_unit \<Rightarrow> user_unit" where
  "unit_applyDefaults opts =
     opts\<lparr> uu_Description := default_string (uu_Description opts) ''Alresia Volt Daemon'',
           uu_Restart := default_string (uu_Restart opts) ''always'' \<rparr>"

definition quoteArg :: "string \<Rightarrow> string" where
  "quoteArg s = (if contains_any s [CHR '' '', CHR 0x09] then [CHR 0x22] @ replace_all [CHR 0x22] [CHR 0x5C, CHR 0x22] s @ [CHR 0x22] else s)"

definition unitTemplate :: "string \<Rightarrow> string \<Rightarrow> string \<Rightarrow> string" where
  "unitTemplate description execStart restart =
     unlines [''[Unit]'', ''Description='' @ description, ''After=network.target'', [], ''[Service]'', ''Type=simple'',
       ''ExecStart='' @ execStart, ''Restart='' @ restart, [], ''[Install]'', ''WantedBy=default.target'']"

definition GenerateUnit :: "user_unit \<Rightarrow> unit_error + string" where
  "GenerateUnit opts0 =
     (let opts = unit_applyDefaults opts0 in
      if uu_Name opts = [] then Inl (UnitRequired ''Name'')
      else if uu_ExecPath opts = [] then Inl (UnitRequired ''ExecPath'')
      else Inr (unitTemplate (uu_Description opts) (join_with '' '' (map quoteArg (uu_ExecPath opts # uu_Args opts))) (uu_Restart opts)))"

definition defaultUnitDir :: "string + path \<Rightarrow> unit_error + path" where
  "defaultUnitDir home = (case home of Inl msg \<Rightarrow> Inl (UnitHome msg) | Inr h \<Rightarrow> Inr (h @ [''.config'', ''systemd'', ''user'']))"

definition writeUnitFile :: "path \<Rightarrow> user_unit \<Rightarrow> fs \<Rightarrow> (unit_error + path) \<times> fs" where
  "writeUnitFile dir opts = write_unit dir (uu_Name opts @ ''.service'') (GenerateUnit opts)"

definition unit_Install :: "'w commands \<Rightarrow> string + path \<Rightarrow> user_unit \<Rightarrow> fs \<times> 'w \<Rightarrow> (unit_error + unit) \<times> fs \<times> 'w" where
  "unit_Install cmd home opts s =
     (case defaultUnitDir home of
        Inl e \<Rightarrow> (Inl e, s)
      | Inr dir \<Rightarrow>
         (case writeUnitFile dir opts (fst s) of
            (Inl e, fs) \<Rightarrow> (Inl e, (fs, snd s))
          | (Inr _, fs) \<Rightarrow>
             (case run_unit cmd ''systemctl daemon-reload'' [''systemctl'', ''--user'', ''daemon-reload''] (snd s) of
                (Inl e, w) \<Rightarrow> (Inl e, (fs, w))
              | (Inr _, w) \<Rightarrow>
                 (case run_unit cmd ''systemctl enable --now'' [''systemctl'', ''--user'', ''enable'', ''--now'', uu_Name opts @ ''.service''] w of
                    (r, w') \<Rightarrow> (r, (fs, w'))))))"

definition unit_Uninstall :: "'w commands \<Rightarrow> string + path \<Rightarrow> string \<Rightarrow> fs \<times> 'w \<Rightarrow> (unit_error + unit) \<times> fs \<times> 'w" where
  "unit_Uninstall cmd home name s =
     (let unit = name @ ''.service''; w = snd (cmd [''systemctl'', ''--user'', ''disable'', ''--now'', unit] (snd s)) in
      case defaultUnitDir home of
        Inl e \<Rightarrow> (Inl e, (fst s, w))
      | Inr dir \<Rightarrow>
         (case remove_unit (join_path dir unit) (fst s) of
            (Inl e, fs) \<Rightarrow> (Inl e, (fs, w))
          | (Inr _, fs) \<Rightarrow> (Inr (), (fs, snd (cmd [''systemctl'', ''--user'', ''daemon-reload''] w)))))"

definition unit_Status :: "'w commands \<Rightarrow> string \<Rightarrow> 'w \<Rightarrow> string \<times> 'w" where
  "unit_Status cmd name w =
     (case cmd [''systemctl'', ''--user'', ''status'', name @ ''.service''] w of
        ((out, err), w') \<Rightarrow> if err \<noteq> None \<and> out = [] then (''not installed'', w') else (trim_space out, w'))"

section \<open>Windows services\<close>

record windows_options =
  wo_Name :: string
  wo_DisplayName :: string
  wo_ExecPath :: string
  wo_Args :: "string list"

text \<open>The service control manager.\<close>

record 'w service_manager =
  sm_connect :: "'w \<Rightarrow> string option"
  sm_exists :: "string \<Rightarrow> 'w \<Rightarrow> string option"
  sm_create :: "windows_options \<Rightarrow> 'w \<Rightarrow> string option \<times> 'w"
  sm_stop :: "string \<Rightarrow> 'w \<Rightarrow> 'w"
  sm_delete :: "string \<Rightarrow> 'w \<Rightarrow> string option \<times> 'w"
  sm_query :: "string \<Rightarrow> 'w \<Rightarrow> string + nat"

definition windows_applyDefaults :: "windows_options \<Rightarrow> windows_options" where
  "windows_applyDefaults opts = opts\<lparr> wo_DisplayName := default_string (wo_DisplayName opts) ''Alresia Volt Daemon'' \<rparr>"

definition windows_Install :: "'w service_manager \<Rightarrow> windows_options \<Rightarrow> 'w \<Rightarrow> (unit_error + unit) \<times> 'w" where
  "windows_Install m opts0 w =
     (let opts = windows_applyDefaults opts0 in
      if wo_Name opts = [] then (Inl (UnitRequired ''Name''), w)
      else if wo_ExecPath opts = [] then (Inl (UnitRequired ''ExecPath''), w)
      else (case sm_connect m w of
              Some msg \<Rightarrow> (Inl (ManagerFailed ''connect'' msg), w)
            | None \<Rightarrow>
               (if sm_exists m (wo_Name opts) w = None then (Inl (ServiceExists (wo_Name opts)), w)
                else (case sm_create m opts w of
                        (Some msg, w') \<Rightarrow> (Inl (ManagerFailed ''create service'' msg), w') | (None, w') \<Rightarrow> (Inr (), w')))))"

definition windows_Uninstall :: "'w service_manager \<Rightarrow> string \<Rightarrow> 'w \<Rightarrow> (unit_error + unit) \<times> 'w" where
  "windows_Uninstall m name w =
     (case sm_connect m w of
        Some msg \<Rightarrow> (Inl (ManagerFailed ''connect'' msg), w)
      | None \<Rightarrow>
         (case sm_exists m name w of
            Some msg \<Rightarrow> (Inl (ManagerFailed ''open service'' msg), w)
          | None \<Rightarrow>
             (case sm_delete m name (sm_stop m name w) of
                (Some msg, w') \<Rightarrow> (Inl (ManagerFailed ''delete'' msg), w') | (None, w') \<Rightarrow> (Inr (), w'))))"

definition stateString :: "nat \<Rightarrow> string" where
  "stateString st =
     (if st = 1 then ''stopped'' else if st = 2 then ''start-pending'' else if st = 3 then ''stop-pending''
      else if st = 4 then ''running'' else if st = 5 then ''continue-pending'' else if st = 6 then ''pause-pending''
      else if st = 7 then ''paused'' else ''unknown('' @ itoa (int st) @ '')'')"

definition windows_Status :: "'w service_manager \<Rightarrow> string \<Rightarrow> 'w \<Rightarrow> unit_error + string" where
  "windows_Status m name w =
     (case sm_connect m w of
        Some msg \<Rightarrow> Inl (ManagerFailed ''connect'' msg)
      | None \<Rightarrow>
         (case sm_exists m name w of
            Some _ \<Rightarrow> Inr ''not installed''
          | None \<Rightarrow>
             (case sm_query m name w of Inl msg \<Rightarrow> Inl (ManagerFailed ''query service status'' msg) | Inr st \<Rightarrow> Inr (stateString st))))"

text \<open>The service loop: what it tells the manager, whether the daemon was asked to stop, and whether the loop has ended.\<close>

datatype service_event = RunEnded | Interrogate nat | StopRequest | OtherRequest

fun stopping :: "service_event list \<Rightarrow> bool" where
  "stopping [] \<longleftrightarrow> False"
| "stopping (e # es) \<longleftrightarrow> e = RunEnded \<or> stopping es"

fun service_loop :: "service_event list \<Rightarrow> nat list \<times> bool \<times> bool" where
  "service_loop [] = ([], False, False)"
| "service_loop (e # es) =
     (case e of
        RunEnded \<Rightarrow> ([], False, True)
      | Interrogate st \<Rightarrow> (case service_loop es of (sts, r) \<Rightarrow> (st # sts, r))
      | StopRequest \<Rightarrow> ([3], True, stopping es)
      | OtherRequest \<Rightarrow> service_loop es)"

definition service_Execute :: "service_event list \<Rightarrow> nat list \<times> bool \<times> bool" where
  "service_Execute es = (case service_loop es of (sts, r) \<Rightarrow> (2 # 4 # sts, r))"

section \<open>One interface for all systems\<close>

text \<open>\<open>internal/system\<close> hands a name, a program and its arguments to the platform's package; elsewhere nothing happens.\<close>

record service_options =
  so_Name :: string
  so_ExecPath :: string
  so_Args :: "string list"

definition darwin_Install :: "'w commands \<Rightarrow> string \<Rightarrow> string + path \<Rightarrow> service_options \<Rightarrow> fs \<times> 'w \<Rightarrow> (unit_error + unit) \<times> fs \<times> 'w" where
  "darwin_Install cmd tmp home o' = agent_Install cmd tmp home
     \<lparr> ag_Label = so_Name o', ag_ExecPath = so_ExecPath o', ag_Args = so_Args o', ag_RunAtLoad = None, ag_KeepAlive = None,
       ag_StdoutPath = [], ag_StderrPath = [] \<rparr>"

definition darwin_Uninstall :: "'w commands \<Rightarrow> string + path \<Rightarrow> string \<Rightarrow> fs \<times> 'w \<Rightarrow> (unit_error + unit) \<times> fs \<times> 'w" where
  "darwin_Uninstall = agent_Uninstall"

definition darwin_Status :: "'w commands \<Rightarrow> string \<Rightarrow> 'w \<Rightarrow> string \<times> 'w" where
  "darwin_Status = agent_Status"

definition linux_Install :: "'w commands \<Rightarrow> string + path \<Rightarrow> service_options \<Rightarrow> fs \<times> 'w \<Rightarrow> (unit_error + unit) \<times> fs \<times> 'w" where
  "linux_Install cmd home o' = unit_Install cmd home
     \<lparr> uu_Name = so_Name o', uu_Description = [], uu_ExecPath = so_ExecPath o', uu_Args = so_Args o', uu_Restart = [] \<rparr>"

definition linux_Uninstall :: "'w commands \<Rightarrow> string + path \<Rightarrow> string \<Rightarrow> fs \<times> 'w \<Rightarrow> (unit_error + unit) \<times> fs \<times> 'w" where
  "linux_Uninstall = unit_Uninstall"

definition linux_Status :: "'w commands \<Rightarrow> string \<Rightarrow> 'w \<Rightarrow> string \<times> 'w" where
  "linux_Status = unit_Status"

definition windows_shim_Install :: "'w service_manager \<Rightarrow> service_options \<Rightarrow> 'w \<Rightarrow> (unit_error + unit) \<times> 'w" where
  "windows_shim_Install mgr o' = windows_Install mgr
     \<lparr> wo_Name = so_Name o', wo_DisplayName = [], wo_ExecPath = so_ExecPath o', wo_Args = so_Args o' \<rparr>"

definition windows_shim_Uninstall :: "'w service_manager \<Rightarrow> string \<Rightarrow> 'w \<Rightarrow> (unit_error + unit) \<times> 'w" where
  "windows_shim_Uninstall = windows_Uninstall"

definition windows_shim_Status :: "'w service_manager \<Rightarrow> string \<Rightarrow> 'w \<Rightarrow> unit_error + string" where
  "windows_shim_Status = windows_Status"

definition other_Install :: "service_options \<Rightarrow> 's \<Rightarrow> (unit_error + unit) \<times> 's" where
  "other_Install o' s = (Inr (), s)"

definition other_Uninstall :: "string \<Rightarrow> 's \<Rightarrow> (unit_error + unit) \<times> 's" where
  "other_Uninstall name s = (Inr (), s)"

definition other_Status :: "string \<Rightarrow> unit_error + string" where
  "other_Status name = Inr ''not supported on this platform''"

section \<open>What the operating system reads\<close>

text \<open>The text of the string elements of a property list, with the entities replaced.\<close>

function xml_unescape :: "string \<Rightarrow> string" where
  "xml_unescape s =
     (if s = [] then []
      else if has_prefix s ''&amp;'' then CHR ''&'' # xml_unescape (drop 5 s)
      else if has_prefix s ''&lt;'' then CHR ''<'' # xml_unescape (drop 4 s)
      else if has_prefix s ''&gt;'' then CHR ''>'' # xml_unescape (drop 4 s)
      else hd s # xml_unescape (tl s))"
  by pat_completeness auto
termination by (relation "measure length") (auto simp: has_prefix_def)

function xml_strings :: "string \<Rightarrow> string list" where
  "xml_strings s =
     (if s = [] then []
      else if has_prefix s ''<string>''
      then xml_unescape (takeWhile (\<lambda>c. c \<noteq> CHR ''<'') (drop 8 s)) # xml_strings (dropWhile (\<lambda>c. c \<noteq> CHR ''<'') (drop 8 s))
      else xml_strings (tl s))"
  by pat_completeness auto
termination
proof (relation "measure length")
  fix s :: string
  assume "s \<noteq> []"
  then have "length (drop 8 s) < length s" by (cases s) auto
  then show "(dropWhile (\<lambda>c. c \<noteq> CHR ''<'') (drop 8 s), s) \<in> measure length"
    using length_dropWhile_le [of "\<lambda>c. c \<noteq> CHR ''<''" "drop 8 s"] by simp
qed auto

declare xml_unescape.simps [simp del] xml_strings.simps [simp del]

lemma replace_char: "replace_all [q] new s = concat (map (\<lambda>c. if c = q then new else [c]) s)"
proof (induction s)
  case Nil
  then show ?case by (subst replace_all.simps) (simp add: has_prefix_def)
next
  case (Cons c s)
  then show ?case by (subst replace_all.simps) (simp add: has_prefix_def)
qed











section \<open>What systemd reads\<close>

text \<open>
  The words of a command line of a unit: blanks separate them, double quotes and backslashes keep blanks and quotes
  literal.  \<open>q\<close> tells whether a quote is open, \<open>w\<close> whether a word has begun, and \<open>acc\<close> holds its
  characters in reverse.
\<close>

fun unit_words :: "bool \<Rightarrow> bool \<Rightarrow> string \<Rightarrow> string \<Rightarrow> string list option" where
  "unit_words q w acc [] = (if q then None else Some (if w then [rev acc] else []))"
| "unit_words q w acc (c # cs) =
     (if c = CHR 0x5C then (case cs of [] \<Rightarrow> None | d # ds \<Rightarrow> unit_words q True (d # acc) ds)
      else if c = CHR 0x22 then unit_words (\<not> q) True acc cs
      else if \<not> q \<and> (c = CHR '' '' \<or> c = CHR 0x09)
      then (if w then map_option ((#) (rev acc)) (unit_words False False [] cs) else unit_words False False [] cs)
      else unit_words q True (c # acc) cs)"

text \<open>An argument that the quoting is made for: no backslash, and a quote only beside a blank.\<close>

definition quotable :: "string \<Rightarrow> bool" where
  "quotable a \<longleftrightarrow> CHR 0x5C \<notin> set a \<and> (CHR 0x22 \<in> set a \<longrightarrow> contains_any a [CHR '' '', CHR 0x09])"

lemma unit_words_plain:
  assumes "\<forall>c \<in> set a. c \<noteq> CHR 0x5C \<and> c \<noteq> CHR 0x22 \<and> c \<noteq> CHR '' '' \<and> c \<noteq> CHR 0x09"
  shows "unit_words False w acc (a @ r) = unit_words False (w \<or> a \<noteq> []) (rev a @ acc) r"
  using assms by (induction a arbitrary: w acc) auto

lemma unit_words_quoted:
  assumes "CHR 0x5C \<notin> set a"
  shows "unit_words True w acc (replace_all [CHR 0x22] [CHR 0x5C, CHR 0x22] a @ CHR 0x22 # r) = unit_words False True (rev a @ acc) r"
  using assms unfolding replace_char
proof (induction a arbitrary: w acc)
  case (Cons c a)
  then show ?case by (cases "c = CHR 0x22") auto
qed simp

lemma unit_words_arg:
  assumes "quotable a"
  shows "unit_words False False [] (quoteArg a @ r) = unit_words False (a \<noteq> []) (rev a) r"
proof (cases "contains_any a [CHR '' '', CHR 0x09]")
  case True
  then have "a \<noteq> []" by (auto simp: contains_any_def)
  then show ?thesis using True assms unit_words_quoted [of a True "[]" r] by (simp add: quoteArg_def quotable_def)
next
  case False
  then have "\<forall>c \<in> set a. c \<noteq> CHR 0x5C \<and> c \<noteq> CHR 0x22 \<and> c \<noteq> CHR '' '' \<and> c \<noteq> CHR 0x09"
    using assms by (auto simp: quotable_def contains_any_def)
  then show ?thesis using False unit_words_plain [of a False "[]" r] by (simp add: quoteArg_def)
qed

lemma unit_words_args:
  "\<forall>a \<in> set args. quotable a \<Longrightarrow> unit_words False False [] (join_with '' '' (map quoteArg args)) = Some (filter (\<lambda>a. a \<noteq> []) args)"
proof (induction args rule: induct_list012)
  case (2 a)
  then show ?case using unit_words_arg [of a "[]"] by auto
next
  case (3 a b args)
  then have "unit_words False False [] (join_with '' '' (map quoteArg (b # args))) = Some (filter (\<lambda>a. a \<noteq> []) (b # args))" by simp
  then show ?case using unit_words_arg [of a "'' '' @ join_with '' '' (map quoteArg (b # args))"] 3(3) by auto
qed simp

text \<open>systemd reads the command line of the unit as the program and its arguments, blanks and quotes in them included,
  as long as no argument has a backslash in it, nor a quote without a blank; but an argument that
  is empty is lost.\<close>

theorem unit_command_loses_empty_arguments:
  assumes "uu_Name opts \<noteq> []" "uu_ExecPath opts \<noteq> []" "\<forall>a \<in> set (uu_ExecPath opts # uu_Args opts). quotable a"
  shows "\<exists>line. GenerateUnit opts = Inr (unitTemplate (default_string (uu_Description opts) ''Alresia Volt Daemon'') line
      (default_string (uu_Restart opts) ''always'')) \<and>
    unit_words False False [] line = Some (uu_ExecPath opts # filter (\<lambda>a. a \<noteq> []) (uu_Args opts))"
proof -
  have "unit_words False False [] (join_with '' '' (map quoteArg (uu_ExecPath opts # uu_Args opts))) =
      Some (uu_ExecPath opts # filter (\<lambda>a. a \<noteq> []) (uu_Args opts))"
    using unit_words_args [OF assms(3)] assms(2) by simp
  then show ?thesis using assms(1,2)
    by (intro exI [of _ "join_with '' '' (map quoteArg (uu_ExecPath opts # uu_Args opts))"]) (simp add: GenerateUnit_def unit_applyDefaults_def)
qed

section \<open>Witnesses\<close>


lemma unit_command_loses_empty_arguments_witness:
  "\<exists>line. unit_words False False [] line = Some [''/bin/volt'', ''a \"b'', ''c'']"
proof -
  let ?o = "\<lparr> uu_Name = ''volt'', uu_Description = [], uu_ExecPath = ''/bin/volt'', uu_Args = [''a \"b'', [], ''c''], uu_Restart = [] \<rparr>"
  have "\<forall>a \<in> set (uu_ExecPath ?o # uu_Args ?o). quotable a" by (simp add: quotable_def contains_any_def)
  from unit_command_loses_empty_arguments [OF _ _ this] show ?thesis by auto
qed

end
