(* ===== verification/Metrics.thy ===== *)
theory Metrics
  imports Handlers
begin

text \<open>
  Measurements: \<open>internal/metrics/metrics.go\<close>, the handler of \<open>internal/api/v1/metrics.go\<close> and those of a service's
  log and metrics in \<open>services.go\<close>, and that of \<open>proxy.go\<close>.  What the operating system reports of a process, of the machine and
  of a connection attempt is an argument; percentages are texts.
\<close>

record process_metrics =
  pm_PID :: int
  pm_CPUPercent :: string
  pm_MemRSS :: nat

record machine_metrics =
  mm_CPUPercent :: string
  mm_MemUsed :: nat
  mm_MemTotal :: nat
  mm_DiskUsed :: nat
  mm_DiskTotal :: nat
  mm_OpenLocalPorts :: "int list"

text \<open>The processor time and memory of a process, either of which may be missing; the load of each processor in use; the
  memory and the disk, where they can be read; and the ports that accept a connection.\<close>

record probes =
  pb_process :: "int \<Rightarrow> string + (string option \<times> nat option)"
  pb_cpu :: "string list"
  pb_memory :: "(nat \<times> nat) option"
  pb_disk :: "(nat \<times> nat) option"
  pb_dial :: "int \<Rightarrow> bool"

definition int32 :: "int \<Rightarrow> int" where
  "int32 i = (i + 2 ^ 31) mod 2 ^ 32 - 2 ^ 31"

definition CollectProcess :: "probes \<Rightarrow> int \<Rightarrow> string + process_metrics" where
  "CollectProcess pb pid =
     (case pb_process pb (int32 pid) of
        Inl msg \<Rightarrow> Inl msg
      | Inr (cpu, rss) \<Rightarrow>
          Inr \<lparr> pm_PID = int32 pid, pm_CPUPercent = (case cpu of None \<Rightarrow> ''0'' | Some c \<Rightarrow> c),
                pm_MemRSS = (case rss of None \<Rightarrow> 0 | Some r \<Rightarrow> r) \<rparr>)"

definition scanLocalPorts :: "probes \<Rightarrow> int list" where
  "scanLocalPorts pb = filter (pb_dial pb) [80, 443, 3000, 5173, 5432, 6379, 3306, 7788]"

text \<open>Errors of the measurements are discarded: without the memory or the disk there is nothing to read the fields of, and the
  function panics, which is the result \<^const>\<open>None\<close>.\<close>

definition Collect :: "probes \<Rightarrow> machine_metrics option" where
  "Collect pb =
     (case (pb_memory pb, pb_disk pb) of
        (Some (mused, mtotal), Some (dused, dtotal)) \<Rightarrow>
          Some \<lparr> mm_CPUPercent = (case pb_cpu pb of [] \<Rightarrow> ''0'' | c # _ \<Rightarrow> c), mm_MemUsed = mused, mm_MemTotal = mtotal,
                 mm_DiskUsed = dused, mm_DiskTotal = dtotal, mm_OpenLocalPorts = scanLocalPorts pb \<rparr>
      | _ \<Rightarrow> None)"

text \<open>A panic in a handler is answered with 500 by the engine's recovery.\<close>

definition systemMetrics :: "probes \<Rightarrow> machine_metrics handler" where
  "systemMetrics pb p = (case Collect pb of None \<Rightarrow> (refuse 500 (Message []), p) | Some m \<Rightarrow> (answer 200 m, p))"

definition serviceMetrics :: "probes \<Rightarrow> string \<Rightarrow> process_metrics handler" where
  "serviceMetrics pb i p =
     (case mgr_Get i (p_mgr p) of
        None \<Rightarrow> (refuse 404 (Message ''service not running''), p)
      | Some live \<Rightarrow>
         (if svc_PID live = 0 then (refuse 404 (Message ''service not running''), p)
          else (case CollectProcess pb (svc_PID live) of
                  Inl msg \<Rightarrow> (refuse 404 (Message msg), p) | Inr m \<Rightarrow> (answer 200 m, p))))"

definition serviceLogs :: "(string \<Rightarrow> string + bytes) \<Rightarrow> string \<Rightarrow> string \<Rightarrow> bytes handler" where
  "serviceLogs read i tail p =
     (case mgr_ReadLog read i (tail = ''true'') (p_mgr p) of
        Inl e \<Rightarrow> (refuse 400 (ServiceRefused e), p) | Inr data \<Rightarrow> (answer 200 data, p))"

text \<open>The handler of \<open>proxy.go\<close>: the proxy's port and its routes.\<close>

definition proxyStatus :: "(int \<times> (string \<Rightarrow> string option)) handler" where
  "proxyStatus p =
     (case p_proxy p of
        None \<Rightarrow> (answer 200 (0, (\<lambda>_. None)), p)
      | Some r \<Rightarrow> (answer 200 (route_Port r, route_Routes r), p))"

end
