(* ===== verification/Daemon.thy ===== *)
theory Daemon
  imports Config Extensions Proxy Metrics GoPath
begin

text \<open>
  The life of the daemon: \<open>cmd/voltpanel/main.go\<close>, the parts of \<open>internal/server/server.go\<close> that are not wiring, and
  the subcommands of \<open>cmd/voltpanel/cli.go\<close>.
\<close>

section \<open>Ports\<close>

text \<open>\<open>free p\<close> tells whether a listener on the local address gets the port.\<close>

fun probe_from :: "(int \<Rightarrow> bool) \<Rightarrow> nat \<Rightarrow> int \<Rightarrow> int option" where
  "probe_from free 0 p = None"
| "probe_from free (Suc n) p = (if free p then Some p else probe_from free n (p + 1))"

definition probePort :: "(int \<Rightarrow> bool) \<Rightarrow> int \<Rightarrow> int" where
  "probePort free start = (case probe_from free 20 start of Some p \<Rightarrow> p | None \<Rightarrow> start)"

definition probeProxyPort :: "(int \<Rightarrow> bool) \<Rightarrow> int \<Rightarrow> int" where
  "probeProxyPort free start0 =
     (let start = (if start0 \<le> 0 then 7080 else start0)
      in case probe_from free 20 start of Some p \<Rightarrow> p | None \<Rightarrow> start)"

lemma probe_from_Some:
  "probe_from free n p = Some q \<Longrightarrow> p \<le> q \<and> q < p + int n \<and> free q \<and> (\<forall>r. p \<le> r \<and> r < q \<longrightarrow> \<not> free r)"
proof (induction n arbitrary: p)
  case (Suc n)
  show ?case
  proof (cases "free p")
    case True
    then have "q = p" using Suc.prems by simp
    with True show ?thesis by auto
  next
    case False
    then have "probe_from free n (p + 1) = Some q" using Suc.prems by simp
    note ih = Suc.IH [OF this]
    have "\<not> free r" if "p \<le> r" "r < q" for r using ih False that by (cases "r = p") auto
    with ih show ?thesis by auto
  qed
qed simp

lemma probe_from_None: "probe_from free n p = None \<Longrightarrow> p \<le> r \<Longrightarrow> r < p + int n \<Longrightarrow> \<not> free r"
proof (induction n arbitrary: p)
  case (Suc n)
  then show ?case by (cases "r = p") (auto split: if_splits)
qed simp

text \<open>C40: The daemon listens on the first free port of the twenty from the one that was asked for, and tries that one again
  when none is free; the proxy does the same from its own port, or from 7080.\<close>

theorem first_free_port_is_taken:
  shows "(probePort free start = start \<or> start < probePort free start \<and> probePort free start < start + 20) \<and>
    ((\<exists>p. start \<le> p \<and> p < start + 20 \<and> free p) \<longleftrightarrow> free (probePort free start)) \<and>
    (\<forall>r. start \<le> r \<and> r < probePort free start \<longrightarrow> \<not> free r) \<and>
    probeProxyPort free start = probePort free (if start \<le> 0 then 7080 else start)"
proof -
  have same: "probeProxyPort free start = probePort free (if start \<le> 0 then 7080 else start)"
    by (simp add: probeProxyPort_def probePort_def Let_def)
  show ?thesis
  proof (cases "probe_from free 20 start")
    case None
    then have "\<not> free r" if "start \<le> r" "r < start + 20" for r using probe_from_None [OF None that(1)] that(2) by simp
    then show ?thesis using None same by (auto simp: probePort_def)
  next
    case (Some p)
    then show ?thesis using probe_from_Some [OF Some] same by (auto simp: probePort_def)
  qed
qed

text \<open>The addresses \<open>Run\<close> listens on, and the port the proxy is told.\<close>

record server_options =
  so_Port :: int
  so_Bind :: string
  so_Dev :: bool
  so_ProxyPort :: int
  so_Token :: string
  so_SessionSecret :: string
  so_CfgDir :: path

definition run_listeners :: "(int \<Rightarrow> bool) \<Rightarrow> server_options \<Rightarrow> router \<Rightarrow> (string \<times> string) \<times> router" where
  "run_listeners free opt r =
     (let proxyPort = probeProxyPort free (so_ProxyPort opt)
      in ((so_Bind opt @ '':'' @ itoa (so_Port opt), so_Bind opt @ '':'' @ itoa proxyPort), route_SetPort proxyPort r))"

text \<open>What no route claims: the page, for paths that name no file, and otherwise what the file server answers.\<close>

definition mountStaticUI :: "bytes option \<Rightarrow> (string \<Rightarrow> 'a) \<Rightarrow> string \<Rightarrow> bytes + 'a" where
  "mountStaticUI index files p =
     (if p = ''/'' \<or> CHR ''.'' \<notin> set (filepath_Base p)
      then (case index of Some b \<Rightarrow> Inl b | None \<Rightarrow> Inr (files p)) else Inr (files p))"

section \<open>Starting\<close>

text \<open>\<open>os.OpenFile\<close> with \<open>O_CREATE\<close> and \<open>O_APPEND\<close>: a file that is there keeps its content.\<close>

definition os_open_append :: "path \<Rightarrow> nat \<Rightarrow> fs \<Rightarrow> (os_error + unit) \<times> fs" where
  "os_open_append p mode fs =
     (case locate fs kernel_links [] p of
        Inl e \<Rightarrow> (Inl e, fs)
      | Inr r \<Rightarrow>
         (case fs r of
            None \<Rightarrow> (Inr (), fs(r \<mapsto> File mode []))
          | Some (File _ _) \<Rightarrow> (Inr (), fs)
          | Some _ \<Rightarrow> (Inl EISDIR, fs)))"

definition pidPath :: "path \<Rightarrow> path" where "pidPath d = d @ [''daemon.pid'']"

text \<open>Without its log file the daemon logs to the terminal only.\<close>

definition setupDaemonLog :: "path \<Rightarrow> fs \<Rightarrow> fs" where
  "setupDaemonLog d fs = snd (os_open_append (d @ [''logs'', ''daemon.log'']) 420 fs)"

definition writePIDFile :: "path \<Rightarrow> int \<Rightarrow> fs \<Rightarrow> (os_error + unit) \<times> fs" where
  "writePIDFile d pid = os_write_file (pidPath d) (itoa pid) 420"

definition removePIDFile :: "path \<Rightarrow> fs \<Rightarrow> fs" where
  "removePIDFile d fs = snd (os_remove (pidPath d) fs)"

text \<open>\<open>fmt.Sscanf\<close> with the verb d: blanks, a sign and the digits up to the first other character.\<close>

definition scan_int :: "string \<Rightarrow> int option" where
  "scan_int s0 =
     (let s = dropWhile (\<lambda>c. c = CHR '' '' \<or> c = CHR 0x09 \<or> c = CHR 0x0B \<or> c = CHR 0x0C \<or> c = CHR 0x0D) s0;
          (sign, ds) = (case s of c # cs \<Rightarrow> if c = CHR ''-'' \<or> c = CHR ''+'' then ([c], cs) else ([], s) | [] \<Rightarrow> ([], []))
      in atoi (sign @ takeWhile is_digit ds))"

definition readPID :: "path \<Rightarrow> fs \<Rightarrow> int option" where
  "readPID d fs = (case os_read_file fs (pidPath d) of Inl _ \<Rightarrow> None | Inr b \<Rightarrow> scan_int b)"

lemma scan_itoa: "in_range64 i \<Longrightarrow> scan_int (itoa i) = Some i"
proof -
  assume r: "in_range64 i"
  obtain c cs where c: "digits_of (nat i) = c # cs" by (metis digits_of_ne neq_Nil_conv)
  have all: "takeWhile is_digit (digits_of k) = digits_of k" for k using digits_of_digit by (simp add: takeWhile_eq_all_conv)
  have "is_digit c" using c digits_of_digit by (metis list.set_intros(1))
  then have "c \<notin> {CHR '' '', CHR 0x09, CHR 0x0B, CHR 0x0C, CHR 0x0D, CHR ''-'', CHR ''+''}" by (auto simp: is_digit_def)
  then have "scan_int (itoa i) = atoi (itoa i)"
    using all [of "nat i"] all [of "nat (- i)"] c by (cases "i < 0") (simp_all del: takeWhile_eq_all_conv add: scan_int_def itoa_def Let_def)
  then show ?thesis using atoi_itoa [OF r] by simp
qed

text \<open>The port of the environment, where it is a number, is the default of the flag.\<close>

definition default_port :: "string \<Rightarrow> int" where
  "default_port env = (if env = [] then 7788 else (case atoi env of None \<Rightarrow> 7788 | Some v \<Rightarrow> v))"

text \<open>
  \<open>main\<close> up to the server: the port found is saved, and failures to save it or to write the file with the process id
  are passed over.  The result is the configuration the server gets, or why the daemon gives up.
\<close>

definition main_start :: "config_env \<Rightarrow> (int \<Rightarrow> bool) \<Rightarrow> int \<Rightarrow> int \<Rightarrow> fs \<Rightarrow> (config_error + path \<times> config) \<times> fs" where
  "main_start e free portFlag pid fs =
     (case EnsureDirs e fs of
        (Inl x, fs1) \<Rightarrow> (Inl x, fs1)
      | (Inr d, fs1) \<Rightarrow>
         (case LoadOrInitConfig e (setupDaemonLog d fs1) of
            (Inl x, fs2) \<Rightarrow> (Inl x, fs2)
          | (Inr c, fs2) \<Rightarrow>
             (let c' = c\<lparr> cfg_Port := probePort free portFlag \<rparr>; fs3 = snd (SaveConfig e c' fs2)
              in (Inr (d, c'), snd (writePIDFile d pid fs3)))))"

section \<open>The command line\<close>

datatype cli_line =
    Trouble string
  | NotRunning
  | StalePid int
  | SentStop int
  | Relaunched int
  | NotResponding int string
  | Unhealthy nat int
  | Healthy string int
  | LogText bytes
  | Check string "string option"
  | DaemonRunning int
  | UpToDate string
  | NewerVersion string string string
  | VersionIs string
  | UnknownCommand string

text \<open>What a subcommand printed, its exit code, the signals it sent, and the file tree.\<close>

record cli_result =
  cr_lines :: "cli_line list"
  cr_exit :: nat
  cr_signals :: "(int \<times> string) list"
  cr_fs :: fs

definition cli :: "cli_line list \<Rightarrow> nat \<Rightarrow> (int \<times> string) list \<Rightarrow> fs \<Rightarrow> cli_result" where
  "cli ls code sigs fs = \<lparr> cr_lines = ls, cr_exit = code, cr_signals = sigs, cr_fs = fs \<rparr>"

record cli_env =
  cn_config :: config_env
  cn_show :: "config_error \<Rightarrow> string"
  cn_signal :: "int \<Rightarrow> bool"
  cn_get :: "string \<Rightarrow> string + nat"
  cn_polls :: "nat \<Rightarrow> fs \<Rightarrow> fs"
  cn_self :: "string + string"
  cn_spawn :: "string \<Rightarrow> string + int"
  cn_release :: "string + nat \<times> (string + string \<times> string)"
  cn_version :: string
  cn_probes :: probes

definition readRunningConfig :: "config_env \<Rightarrow> fs \<Rightarrow> (config_error + config \<times> path) \<times> fs" where
  "readRunningConfig e fs =
     (case EnsureDirs e fs of
        (Inl x, fs1) \<Rightarrow> (Inl x, fs1)
      | (Inr d, fs1) \<Rightarrow> (case LoadOrInitConfig e fs1 of (Inl x, fs2) \<Rightarrow> (Inl x, fs2) | (Inr c, fs2) \<Rightarrow> (Inr (c, d), fs2)))"

text \<open>The subcommands that need the configuration end with exit code 1 without it.\<close>

definition with_config :: "cli_env \<Rightarrow> (config \<Rightarrow> path \<Rightarrow> fs \<Rightarrow> cli_result) \<Rightarrow> fs \<Rightarrow> cli_result" where
  "with_config n f fs =
     (case readRunningConfig (cn_config n) fs of
        (Inl x, fs1) \<Rightarrow> cli [Trouble (cn_show n x)] 1 [] fs1
      | (Inr (c, d), fs1) \<Rightarrow> f c d fs1)"

text \<open>\<open>cn_signal\<close> tells which processes a signal can be sent to; finding a process by its id never fails on Unix.\<close>

definition cliStop :: "cli_env \<Rightarrow> fs \<Rightarrow> cli_result" where
  "cliStop n = with_config n (\<lambda>_ d fs.
     case readPID d fs of
       None \<Rightarrow> cli [NotRunning] 0 [] fs
     | Some pid \<Rightarrow>
        (if cn_signal n pid then cli [SentStop pid] 0 [(pid, ''SIGTERM'')] fs
         else cli [StalePid pid] 0 [] (removePIDFile d fs)))"

text \<open>Up to fifty looks at the file with the process id, between which the tree may change.\<close>

fun await_exit :: "(nat \<Rightarrow> fs \<Rightarrow> fs) \<Rightarrow> path \<Rightarrow> nat \<Rightarrow> fs \<Rightarrow> fs" where
  "await_exit polls d 0 fs = fs"
| "await_exit polls d (Suc k) fs = (if readPID d fs = None then fs else await_exit polls d k (polls k fs))"

definition cliRestart :: "cli_env \<Rightarrow> fs \<Rightarrow> cli_result" where
  "cliRestart n = with_config n (\<lambda>_ d fs.
     let (sigs, fs1) = (case readPID d fs of
           None \<Rightarrow> ([], fs)
         | Some pid \<Rightarrow> (if cn_signal n pid then [(pid, ''SIGTERM'')] else [], await_exit (cn_polls n) d 50 fs))
     in case cn_self n of
          Inl msg \<Rightarrow> cli [Trouble msg] 1 sigs fs1
        | Inr self \<Rightarrow>
           (case cn_spawn n self of
              Inl msg \<Rightarrow> cli [Trouble msg] 1 sigs fs1
            | Inr pid \<Rightarrow> cli [Relaunched pid] 0 sigs fs1))"

definition cliStatus :: "cli_env \<Rightarrow> fs \<Rightarrow> cli_result" where
  "cliStatus n = with_config n (\<lambda>c _ fs.
     case cn_get n (''http://127.0.0.1:'' @ itoa (cfg_Port c) @ ''/health'') of
       Inl msg \<Rightarrow> cli [NotResponding (cfg_Port c) msg] 1 [] fs
     | Inr code \<Rightarrow>
        (if code \<noteq> 200 then cli [Unhealthy code (cfg_Port c)] 1 [] fs
         else cli [Healthy (cn_version n) (cfg_Port c)] 0 [] fs))"

text \<open>The log as it is; following it prints what is appended later, which is not modelled.\<close>

definition cliLogs :: "cli_env \<Rightarrow> fs \<Rightarrow> cli_result" where
  "cliLogs n = with_config n (\<lambda>_ d fs.
     case os_read_file fs (d @ [''logs'', ''daemon.log'']) of
       Inl _ \<Rightarrow> cli [Trouble ''open daemon.log''] 1 [] fs
     | Inr b \<Rightarrow> cli [LogText b] 0 [] fs)"

definition follows :: "string list \<Rightarrow> bool" where
  "follows args = (args \<noteq> [] \<and> (hd args = ''-f'' \<or> hd args = ''--follow''))"

text \<open>The directory is probed with a file that is removed again.\<close>

definition doctor_probe :: "config_error + path \<Rightarrow> fs \<Rightarrow> string option \<times> fs" where
  "doctor_probe r fs =
     (case r of
        Inl _ \<Rightarrow> (Some ''no config dir'', fs)
      | Inr d \<Rightarrow>
         (case os_write_file (d @ [''.doctor-probe'']) ''ok'' 384 fs of
            (Inl _, fs1) \<Rightarrow> (Some ''write probe'', fs1)
          | (Inr _, fs1) \<Rightarrow> (case os_remove (d @ [''.doctor-probe'']) fs1 of (Inl _, fs2) \<Rightarrow> (Some ''remove probe'', fs2) | (Inr _, fs2) \<Rightarrow> (None, fs2))))"

text \<open>Without a directory the process id is looked for below the root. A panic of the measurements ends the process with exit code 2.\<close>

definition cliDoctor :: "cli_env \<Rightarrow> fs \<Rightarrow> cli_result" where
  "cliDoctor n fs =
     (case EnsureDirs (cn_config n) fs of
        (r, fs1) \<Rightarrow>
         (case doctor_probe r fs1 of
            (e1, fs2) \<Rightarrow>
             (case LoadOrInitConfig (cn_config n) fs2 of
                (c, fs3) \<Rightarrow>
                 (let e2 = (case c of Inl x \<Rightarrow> Some (cn_show n x) | Inr _ \<Rightarrow> None);
                      checks = [Check ''config dir writable'' e1, Check ''config loads'' e2]
                  in case Collect (cn_probes n) of
                       None \<Rightarrow> cli checks 2 [] fs3
                     | Some m \<Rightarrow>
                        (let e3 = (if mm_DiskTotal m > 0 \<and> mm_DiskUsed m \<ge> mm_DiskTotal m then Some ''disk appears full'' else None);
                             running = (case readPID (case r of Inl _ \<Rightarrow> [] | Inr d \<Rightarrow> d) fs3 of
                                 None \<Rightarrow> [] | Some pid \<Rightarrow> if cn_signal n pid then [DaemonRunning pid] else [])
                         in cli (checks @ [Check ''disk space available'' e3] @ running)
                              (if e1 = None \<and> e2 = None \<and> e3 = None then 0 else 1) [] fs3)))))"

definition cliUpdate :: "cli_env \<Rightarrow> fs \<Rightarrow> cli_result" where
  "cliUpdate n fs =
     (case cn_release n of
        Inl msg \<Rightarrow> cli [Trouble msg] 1 [] fs
      | Inr (code, body) \<Rightarrow>
         (if code \<noteq> 200 then cli [Trouble ''release check failed''] 1 [] fs
          else (case body of
                  Inl msg \<Rightarrow> cli [Trouble msg] 1 [] fs
                | Inr (tag, url) \<Rightarrow>
                   (let latest = trim_prefix tag ''v''
                    in if latest = cn_version n then cli [UpToDate latest] 0 [] fs
                       else cli [NewerVersion (cn_version n) latest url] 0 [] fs))))"

text \<open>\<^const>\<open>None\<close> where the daemon is to start.\<close>

definition dispatch :: "cli_env \<Rightarrow> string list \<Rightarrow> fs \<Rightarrow> cli_result option" where
  "dispatch n args fs =
     (if args = [] \<or> has_prefix (hd args) ''-'' then None
      else if hd args = ''start'' then None
      else if hd args = ''stop'' then Some (cliStop n fs)
      else if hd args = ''restart'' then Some (cliRestart n fs)
      else if hd args = ''status'' then Some (cliStatus n fs)
      else if hd args = ''logs'' then Some (cliLogs n fs)
      else if hd args = ''doctor'' then Some (cliDoctor n fs)
      else if hd args = ''update'' then Some (cliUpdate n fs)
      else if hd args = ''version'' then Some (cli [VersionIs (cn_version n)] 0 [] fs)
      else Some (cli [UnknownCommand (hd args)] 1 [] fs))"

section \<open>The command line and the daemon agree\<close>

lemma pid_name: "plain_comp ''daemon.pid''" "plain_comp ''daemon.log''" by (simp_all add: plain_comp_def)

lemma link_free_below: "link_free d fs \<Longrightarrow> clean_path cs \<Longrightarrow> straight fs (d @ cs)"
  using prefix_same_cases [of _ "d @ cs" d] by (fastforce simp: link_free_def straight_def clean_path_def)

lemma settled_dir: "settled d fs \<Longrightarrow> real_dirs fs d"
  using real_dirs_snoc [of fs d "''logs''"] by (simp add: settled_def)

text \<open>A file below the directory.\<close>

lemma settled_file:
  assumes "settled d fs" "fs p \<noteq> Some Dir" "strict_prefix d p"
  shows "settled d (fs(p \<mapsto> File m b))"
proof -
  have "real_dirs (fs(p \<mapsto> File m b)) q" if "real_dirs fs q" for q using that assms(2) by (auto simp: real_dirs_def)
  with assms(1,3) show ?thesis by (auto simp: settled_def link_free_def strict_prefix_def)
qed

lemma config_kept_file:
  assumes "config_kept e d c fs" "fs (pidPath d) \<noteq> Some Dir"
  shows "config_kept e d c (fs(pidPath d \<mapsto> File m b))"
proof -
  let ?fs = "fs(pidPath d \<mapsto> File m b)"
  have s: "settled d fs" using assms(1) by (simp add: config_kept_def)
  have s': "settled d ?fs" by (rule settled_file [OF s assms(2)]) (simp add: pidPath_def strict_prefix_def)
  have r: "real_dirs fs d" "real_dirs ?fs d" by (rule settled_dir [OF s], rule settled_dir [OF s'])
  have nl: "fs (d @ [''config.json'']) \<noteq> Some (Link l)" for l using s by (simp add: settled_def link_free_def)
  have "os_read_file ?fs (configPath d) = os_read_file fs (configPath d)"
    using locate_child [OF r(1) volt_names(1) nl, of kernel_links] locate_child [OF r(2) volt_names(1), of kernel_links] nl
    by (simp add: os_read_file_def os_stat_def configPath_def pidPath_def)
  with assms(1) s' show ?thesis by (simp add: config_kept_def)
qed

lemma daemon_log_settled: "settled d fs \<Longrightarrow> settled d (setupDaemonLog d fs)"
proof -
  assume s: "settled d fs"
  let ?p = "d @ [''logs'', ''daemon.log'']"
  have r: "real_dirs fs (d @ [''logs''])" using s by (simp add: settled_def)
  have nl: "fs ((d @ [''logs'']) @ [''daemon.log'']) \<noteq> Some (Link l)" for l using s by (auto simp: settled_def link_free_def)
  have "locate fs kernel_links [] ?p = Inr ?p" using locate_child [OF r pid_name(2) nl] by simp
  moreover have "settled d (fs(?p \<mapsto> File 420 []))" if "fs ?p = None"
    by (rule settled_file [OF s]) (use that in \<open>simp_all add: strict_prefix_def\<close>)
  ultimately show ?thesis using s by (simp add: setupDaemonLog_def os_open_append_def split: option.splits inode.splits)
qed

lemma save_succeeds:
  assumes "config_kept e (home @ [''.volt'']) c fs" "ce_home e = Inr home"
  shows "\<exists>fs'. SaveConfig e c' fs = (Inr (), fs')"
proof -
  let ?d = "home @ [''.volt'']"
  have s: "settled ?d fs" using assms(1) by (simp add: config_kept_def)
  obtain b where b: "os_read_file fs (configPath ?d) = Inr b" using assms(1) by (auto simp: config_kept_def)
  then obtain r m where "locate fs kernel_links [] (configPath ?d) = Inr r" "fs r = Some (File m b)"
    by (auto simp: os_read_file_def os_stat_def split: sum.splits option.splits inode.splits)
  then show ?thesis using EnsureDirs_settled [OF assms(2) s] by (simp add: SaveConfig_def os_write_file_def)
qed

lemma pid_written:
  assumes "settled d fs" "in_range64 pid" "snd (writePIDFile d pid fs) (pidPath d) \<noteq> Some Dir"
  shows "fs (pidPath d) \<noteq> Some Dir \<and> (\<exists>m. writePIDFile d pid fs = (Inr (), fs(pidPath d \<mapsto> File m (itoa pid)))) \<and>
    readPID d (snd (writePIDFile d pid fs)) = Some pid"
proof -
  have r: "real_dirs fs d" by (rule settled_dir [OF assms(1)])
  have nl: "fs (d @ [''daemon.pid'']) \<noteq> Some (Link l)" for l using assms(1) by (simp add: settled_def link_free_def)
  have l: "locate fs kernel_links [] (pidPath d) = Inr (pidPath d)" using locate_child [OF r pid_name(1) nl] by (simp add: pidPath_def)
  have nd: "fs (pidPath d) \<noteq> Some Dir" using assms(3) l by (auto simp: writePIDFile_def os_write_file_def)
  obtain m where w: "writePIDFile d pid fs = (Inr (), fs(pidPath d \<mapsto> File m (itoa pid)))"
  proof (cases "fs (pidPath d)")
    case None
    then show thesis using that [of 420] l by (simp add: writePIDFile_def os_write_file_def)
  next
    case (Some i)
    with nd nl obtain m x where "i = File m x" by (cases i) (auto simp: pidPath_def)
    then show thesis using that [of m] Some l by (simp add: writePIDFile_def os_write_file_def)
  qed
  let ?fs = "fs(pidPath d \<mapsto> File m (itoa pid))"
  have "real_dirs ?fs d" using r by (auto simp: real_dirs_def pidPath_def)
  then have "os_read_file ?fs (pidPath d) = Inr (itoa pid)" using read_child [OF _ pid_name(1), of ?fs d m] by (simp add: pidPath_def)
  with nd w show ?thesis using scan_itoa [OF assms(2)] by (auto simp: readPID_def)
qed

text \<open>What the daemon leaves on disk before it serves.\<close>

lemma started_daemon:
  assumes "main_start e free portFlag pid fs = (Inr (d, c), fs')" "codec_ok e" "ce_home e = Inr home"
    and "link_free (home @ [''.volt'']) fs" "\<And>b. ce_rand e = Inr b \<Longrightarrow> b \<noteq> []"
    and "in_range64 pid" "in_range64 (probePort free portFlag)" "fs' (pidPath d) \<noteq> Some Dir"
  shows "d = home @ [''.volt''] \<and> cfg_Port c = probePort free portFlag \<and> config_kept e d c fs' \<and> readPID d fs' = Some pid"
proof -
  let ?d = "home @ [''.volt'']"
  obtain d1 fs1 where ens: "EnsureDirs e fs = (Inr d1, fs1)"
    using assms(1) by (cases "EnsureDirs e fs"; cases "fst (EnsureDirs e fs)") (auto simp: main_start_def)
  have d1: "d1 = ?d" and s1: "settled ?d fs1" using EnsureDirs_settles [OF ens] assms(3,4) by auto
  let ?t = "setupDaemonLog ?d fs1"
  have st: "settled ?d ?t" by (rule daemon_log_settled [OF s1])
  obtain c0 fs2 where l: "LoadOrInitConfig e ?t = (Inr c0, fs2)"
    using assms(1) ens d1 by (cases "LoadOrInitConfig e ?t"; cases "fst (LoadOrInitConfig e ?t)") (auto simp: main_start_def)
  have k0: "config_kept e ?d c0 fs2" by (rule loaded_config_kept [OF l assms(2,3) _ assms(5)]) (use st in \<open>simp add: settled_def\<close>)
  let ?c = "c0\<lparr> cfg_Port := probePort free portFlag \<rparr>"
  obtain fs3 where sv: "SaveConfig e ?c fs2 = (Inr (), fs3)" using save_succeeds [OF k0 assms(3)] by blast
  have time: "ce_time e (cfg_CreatedAt c0)"
    using k0 json_config_ranges assms(2) by (auto simp: config_kept_def codec_ok_def)
  have "saved_config e ?c fs2 = (Inr ?c, fs3)" using sv by (simp add: saved_config_def)
  from saved_config_kept [OF this assms(2,3)] have k3: "config_kept e ?d ?c fs3"
    using k0 assms(7) time kept_texts [OF k0 assms(2)] by (simp add: config_kept_def texts_valid_def)
  have res: "d = ?d" "c = ?c" "fs' = snd (writePIDFile ?d pid fs3)" using assms(1) ens d1 l sv by (auto simp: main_start_def Let_def)
  have "settled ?d fs3" using k3 by (simp add: config_kept_def)
  from pid_written [OF this assms(6)] obtain m where p: "fs3 (pidPath ?d) \<noteq> Some Dir"
    "writePIDFile ?d pid fs3 = (Inr (), fs3(pidPath ?d \<mapsto> File m (itoa pid)))" "readPID ?d (snd (writePIDFile ?d pid fs3)) = Some pid"
    using assms(8) res by blast
  have "config_kept e ?d ?c fs'" using config_kept_file [OF k3 p(1)] p(2) res(3) by simp
  with res p(3) show ?thesis by simp
qed

text \<open>The commands find the daemon that is running: once it has started, asking for its status polls the port it was
  given, and stopping sends the signal to its process, whatever was on disk before, as long as no
  directory has the name of the file with the process id.\<close>

theorem commands_reach_the_daemon:
  assumes "main_start e free portFlag pid fs = (Inr (d, c), fs')" "codec_ok e" "ce_home e = Inr home"
    and "link_free (home @ [''.volt'']) fs" "\<And>b. ce_rand e = Inr b \<Longrightarrow> b \<noteq> []"
    and "in_range64 pid" "in_range64 (probePort free portFlag)" "fs' (pidPath d) \<noteq> Some Dir" "cn_config n = e"
  shows "cliStop n fs' = (if cn_signal n pid then cli [SentStop pid] 0 [(pid, ''SIGTERM'')] fs'
       else cli [StalePid pid] 0 [] (removePIDFile d fs')) \<and>
    (cn_get n (''http://127.0.0.1:'' @ itoa (probePort free portFlag) @ ''/health'') = Inr 200 \<longrightarrow>
       cliStatus n fs' = cli [Healthy (cn_version n) (probePort free portFlag)] 0 [] fs')"
proof -
  have s: "d = home @ [''.volt'']" "cfg_Port c = probePort free portFlag" "config_kept e d c fs'" "readPID d fs' = Some pid"
    using started_daemon [OF assms(1-8)] by blast+
  have "EnsureDirs e fs' = (Inr d, fs')" using EnsureDirs_settled [OF assms(3)] s(1,3) by (simp add: config_kept_def)
  moreover have "LoadOrInitConfig e fs' = (Inr c, fs')" using config_kept_loads [OF assms(3)] s(1,3) by simp
  ultimately have "readRunningConfig (cn_config n) fs' = (Inr (c, d), fs')" by (simp add: readRunningConfig_def assms(9))
  then show ?thesis using s(2,4) by (simp add: cliStop_def cliStatus_def with_config_def)
qed

section \<open>Flags\<close>

text \<open>
  \<open>flag.Parse\<close> on the flags of \<open>main\<close>: it stops at the first argument that is no flag.  What an integer or a truth value is
  written as is an argument; the number is the exit code of a parse that fails or only asks for help.
\<close>

definition flag_name :: "string \<Rightarrow> string" where
  "flag_name a = (if take 2 a = ''--'' then drop 2 a else drop 1 a)"

function flag_parse :: "(string \<Rightarrow> int option) \<Rightarrow> (string \<Rightarrow> bool option) \<Rightarrow> int \<times> bool \<Rightarrow> string list \<Rightarrow> nat + int \<times> bool" where
  "flag_parse num tf (port, dev) [] = Inr (port, dev)"
| "flag_parse num tf (port, dev) (a # args) =
     (if length a < 2 \<or> hd a \<noteq> CHR ''-'' \<or> a = ''--'' then Inr (port, dev)
      else
        let s = flag_name a; name = takeWhile (\<lambda>c. c \<noteq> CHR ''='') s; val = dropWhile (\<lambda>c. c \<noteq> CHR ''='') s
        in if s = [] \<or> hd s = CHR ''-'' \<or> hd s = CHR ''='' then Inl 2
           else if name = ''dev'' then
             (if val = [] then flag_parse num tf (port, True) args
              else (case tf (tl val) of None \<Rightarrow> Inl 2 | Some b \<Rightarrow> flag_parse num tf (port, b) args))
           else if name = ''port'' then
             (if val \<noteq> [] then (case num (tl val) of None \<Rightarrow> Inl 2 | Some n \<Rightarrow> flag_parse num tf (n, dev) args)
              else (case args of
                      [] \<Rightarrow> Inl 2
                    | v # rest \<Rightarrow> (case num v of None \<Rightarrow> Inl 2 | Some n \<Rightarrow> flag_parse num tf (n, dev) rest)))
           else if name = ''help'' \<or> name = ''h'' then Inl 0 else Inl 2)"
  by pat_completeness auto
termination by (relation "measure (\<lambda>(num, tf, acc, args). length args)") auto

text \<open>The subcommand that starts the daemon hides the flags that follow it.\<close>

lemma start_hides_flags: "flag_parse num tf (default_port env, dev) (''start'' # args) = Inr (default_port env, dev)"
  by simp

section \<open>Stopping\<close>

text \<open>
  The processes: \<open>main\<close> is about to serve, serves, or has returned from \<open>Run\<close>; beside it the goroutine that waits for the
  signal calls \<open>Shutdown\<close> and then \<open>Close\<close>, which ends the extensions' processes.
\<close>

datatype main_at = Booted | Serving | Leaving
datatype stopper_at = Waiting | Signalled | Shutting | Closed

text \<open>Writing the file with the process id may fail, which is only logged, with or without emptying the file before.\<close>

datatype pid_write = Written | Kept | Emptied

fun pid_file_after :: "pid_write \<Rightarrow> int \<Rightarrow> int option \<Rightarrow> int option" where
  "pid_file_after Written p old = Some p"
| "pid_file_after Kept p old = old"
| "pid_file_after Emptied p old = None"

text \<open>\<open>dm_recorded\<close>: the daemon's own write succeeded.\<close>

record daemon =
  dm_main :: main_at
  dm_stopper :: stopper_at
  dm_down :: bool
  dm_extensions :: "string list"
  dm_recorded :: bool

record host =
  h_daemons :: "int \<Rightarrow> daemon option"
  h_pid_file :: "int option"
  h_orphans :: "string list"

datatype life_event =
    Boot int pid_write "string list"
  | BootFails int pid_write
  | EnterRun int
  | Signal int
  | Shutdown int
  | RunReturns int
  | ShutdownReturns int
  | Exit int
  | RunFails int

definition on_daemon :: "int \<Rightarrow> (daemon \<Rightarrow> bool) \<Rightarrow> (daemon \<Rightarrow> daemon) \<Rightarrow> host \<Rightarrow> host option" where
  "on_daemon p ok f h =
     (case h_daemons h p of
        None \<Rightarrow> None
      | Some d \<Rightarrow> if ok d then Some (h\<lparr> h_daemons := (h_daemons h)(p \<mapsto> f d) \<rparr>) else None)"

text \<open>The end of a process; the extensions it still has are left behind.\<close>

definition gone :: "int \<Rightarrow> daemon \<Rightarrow> host \<Rightarrow> host" where
  "gone p d h = h\<lparr> h_daemons := (h_daemons h)(p := None), h_orphans := h_orphans h @ dm_extensions d \<rparr>"

text \<open>\<open>Shutdown\<close> does nothing where \<open>Run\<close> has not made the server yet; \<open>Close\<close> ends the extensions' processes.\<close>

definition server_Shutdown :: "daemon \<Rightarrow> daemon" where
  "server_Shutdown d = d\<lparr> dm_stopper := Shutting, dm_down := dm_main d \<noteq> Booted \<rparr>"

definition server_Close :: "daemon \<Rightarrow> daemon" where
  "server_Close d = d\<lparr> dm_stopper := Closed, dm_extensions := [] \<rparr>"

text \<open>
  The file with the process id is written before the server is made, and removed by a deferred call: not
  when \<open>log.Fatalf\<close> ends the process.  \<open>Run\<close> returns as soon as \<open>Shutdown\<close> has begun.
\<close>

fun life_step :: "life_event \<Rightarrow> host \<Rightarrow> host option" where
  "life_step (Boot p w exts) h =
     (if h_daemons h p \<noteq> None then None
      else Some (h\<lparr> h_daemons := (h_daemons h)(p \<mapsto> \<lparr> dm_main = Booted, dm_stopper = Waiting, dm_down = False, dm_extensions = exts, dm_recorded = (w = Written) \<rparr>),
                    h_pid_file := pid_file_after w p (h_pid_file h) \<rparr>))"
| "life_step (BootFails p w) h = (if h_daemons h p \<noteq> None then None else Some (h\<lparr> h_pid_file := pid_file_after w p (h_pid_file h) \<rparr>))"
| "life_step (EnterRun p) h = on_daemon p (\<lambda>d. dm_main d = Booted) (\<lambda>d. d\<lparr> dm_main := Serving \<rparr>) h"
| "life_step (Signal p) h =
     on_daemon p (\<lambda>_. True) (\<lambda>d. if dm_stopper d = Waiting then d\<lparr> dm_stopper := Signalled \<rparr> else d) h"
| "life_step (Shutdown p) h =
     on_daemon p (\<lambda>d. dm_stopper d = Signalled) server_Shutdown h"
| "life_step (RunReturns p) h = on_daemon p (\<lambda>d. dm_main d = Serving \<and> dm_down d) (\<lambda>d. d\<lparr> dm_main := Leaving \<rparr>) h"
| "life_step (ShutdownReturns p) h =
     on_daemon p (\<lambda>d. dm_stopper d = Shutting) server_Close h"
| "life_step (Exit p) h =
     (case h_daemons h p of
        None \<Rightarrow> None
      | Some d \<Rightarrow> if dm_main d = Leaving then Some (gone p d (h\<lparr> h_pid_file := None \<rparr>)) else None)"
| "life_step (RunFails p) h =
     (case h_daemons h p of
        None \<Rightarrow> None
      | Some d \<Rightarrow> if dm_main d = Serving \<and> \<not> dm_down d then Some (gone p d h) else None)"

fun life_run :: "life_event list \<Rightarrow> host \<Rightarrow> host option" where
  "life_run [] h = Some h"
| "life_run (e # es) h = (case life_step e h of None \<Rightarrow> None | Some h' \<Rightarrow> life_run es h')"

definition quiet_host :: host where
  "quiet_host = \<lparr> h_daemons = \<lambda>_. None, h_pid_file = None, h_orphans = [] \<rparr>"

text \<open>One daemon at a time, none of which ends by \<open>log.Fatalf\<close>.\<close>

inductive orderly :: "host \<Rightarrow> bool" where
  "orderly quiet_host"
| "orderly h \<Longrightarrow> life_step e h = Some h' \<Longrightarrow> (\<And>p w exts. e = Boot p w exts \<Longrightarrow> h_daemons h = (\<lambda>_. None)) \<Longrightarrow>
     (\<And>p w. e \<noteq> BootFails p w \<and> e \<noteq> RunFails p) \<Longrightarrow> orderly h'"

definition pid_file_names :: "host \<Rightarrow> bool" where
  "pid_file_names h \<longleftrightarrow> (\<forall>p q. h_daemons h p \<noteq> None \<and> h_daemons h q \<noteq> None \<longrightarrow> p = q) \<and>
     (\<forall>p. (\<exists>d. h_daemons h p = Some d \<and> dm_recorded d) \<longleftrightarrow> h_pid_file h = Some p)"

lemma on_daemon_names:
  assumes "on_daemon p ok f h = Some h'" "pid_file_names h" "\<And>d. dm_recorded (f d) = dm_recorded d"
  shows "pid_file_names h'"
proof -
  obtain d where d: "h_daemons h p = Some d" "h' = h\<lparr> h_daemons := (h_daemons h)(p \<mapsto> f d) \<rparr>"
    using assms(1) by (auto simp: on_daemon_def split: option.splits if_splits)
  then have "(h_daemons h' x \<noteq> None) = (h_daemons h x \<noteq> None)"
    "(\<exists>d. h_daemons h' x = Some d \<and> dm_recorded d) = (\<exists>d. h_daemons h x = Some d \<and> dm_recorded d)" "h_pid_file h' = h_pid_file h" for x
    using assms(3) by simp_all
  with assms(2) show ?thesis by (simp only: pid_file_names_def) blast
qed

lemma life_step_names:
  assumes "life_step e h = Some h'" "pid_file_names h" "\<And>p w exts. e = Boot p w exts \<Longrightarrow> h_daemons h = (\<lambda>_. None)"
    and "\<And>p w. e \<noteq> BootFails p w \<and> e \<noteq> RunFails p"
  shows "pid_file_names h'"
proof (cases e)
  case (Boot p w exts)
  then have "h_daemons h = (\<lambda>_. None)" by (rule assms(3))
  with Boot assms(1,2) show ?thesis by (cases w) (auto simp: pid_file_names_def split: if_splits)
next
  case (Exit p)
  then obtain d where d: "h_daemons h p = Some d" "h' = gone p d (h\<lparr> h_pid_file := None \<rparr>)"
    using assms(1) by (auto split: option.splits if_splits)
  then have "h_daemons h q = None" if "q \<noteq> p" for q using assms(2) that unfolding pid_file_names_def by (metis option.discI)
  with d show ?thesis by (auto simp: gone_def pid_file_names_def)
next
  case (EnterRun p)
  show ?thesis by (rule on_daemon_names [OF assms(1) [unfolded EnterRun life_step.simps] assms(2)]) simp
next
  case (Signal p)
  show ?thesis by (rule on_daemon_names [OF assms(1) [unfolded Signal life_step.simps] assms(2)]) simp
next
  case (Shutdown p)
  show ?thesis by (rule on_daemon_names [OF assms(1) [unfolded Shutdown life_step.simps] assms(2)]) (simp add: server_Shutdown_def)
next
  case (RunReturns p)
  show ?thesis by (rule on_daemon_names [OF assms(1) [unfolded RunReturns life_step.simps] assms(2)]) simp
next
  case (ShutdownReturns p)
  show ?thesis by (rule on_daemon_names [OF assms(1) [unfolded ShutdownReturns life_step.simps] assms(2)]) (simp add: server_Close_def)
qed (use assms(4) in auto)

text \<open>As long as daemons run one at a time and none ends by a fatal error, the file with the process id names a process
  exactly while a daemon runs that could write the file, and names that one.\<close>

theorem pid_file_names_the_daemon:
  assumes "orderly h"
  shows "(\<exists>d. h_daemons h p = Some d \<and> dm_recorded d) \<longleftrightarrow> h_pid_file h = Some p"
proof -
  have "pid_file_names h" using assms
  proof (induction rule: orderly.induct)
    case 1
    show ?case by (simp add: quiet_host_def pid_file_names_def)
  next
    case (2 h e h')
    show ?case by (rule life_step_names [OF 2(2,5,3,4)])
  qed
  then show ?thesis by (simp add: pid_file_names_def)
qed

text \<open>What a stop can leave: \<open>main\<close> may return, and the process end, before the goroutine that took the signal gets to
  end the extensions' processes; of two daemons the one that ends removes the file of the other; a start
  that fails leaves a file that names a process which is gone; and a signal that comes before the
  server is made ends the extensions but never the daemon, which no later signal stops either.\<close>

theorem stopping_falls_short:
  assumes "p \<noteq> (q::int)"
  shows "(\<exists>h. life_run [Boot p Written exts, EnterRun p, Signal p, Shutdown p, RunReturns p, Exit p] quiet_host = Some h \<and>
      h_daemons h p = None \<and> h_orphans h = exts) \<and>
    (\<exists>h. life_run [Boot p Written exts, EnterRun p, Boot q Written [], EnterRun q, Signal q, Shutdown q, RunReturns q, ShutdownReturns q, Exit q] quiet_host = Some h \<and>
      map_option dm_main (h_daemons h p) = Some Serving \<and> h_pid_file h = None) \<and>
    (\<exists>h. life_run [BootFails p Written] quiet_host = Some h \<and> h_daemons h p = None \<and> h_pid_file h = Some p) \<and>
    (\<exists>h. life_run [Boot p Written exts, Signal p, Shutdown p, ShutdownReturns p, EnterRun p, Signal p] quiet_host = Some h \<and>
      h_daemons h p = Some \<lparr> dm_main = Serving, dm_stopper = Closed, dm_down = False, dm_extensions = [], dm_recorded = True \<rparr> \<and>
      life_step (Signal p) h = Some h \<and> life_step (Shutdown p) h = None \<and> life_step (RunReturns p) h = None \<and> life_step (Exit p) h = None)"
  using assms by (simp add: on_daemon_def gone_def quiet_host_def server_Shutdown_def server_Close_def)

section \<open>Witnesses\<close>

lemma pid_file_names_the_daemon_witness: "\<exists>h d. orderly h \<and> h_daemons h 42 = Some d \<and> dm_recorded d"
proof -
  have "\<exists>h. life_step (Boot 42 Written [''e'']) quiet_host = Some h \<and> h_pid_file h = Some 42" by (simp add: quiet_host_def)
  then obtain h where h: "life_step (Boot 42 Written [''e'']) quiet_host = Some h" "h_pid_file h = Some 42" by blast
  have "orderly h" by (rule orderly.intros(2) [OF orderly.intros(1) h(1)]) (simp_all add: quiet_host_def)
  with h(2) pid_file_names_the_daemon [OF this, of 42] show ?thesis by blast
qed

lemma stopping_falls_short_witness:
  "\<exists>h. life_run [Boot 1 Written [''e''], EnterRun 1, Signal 1, Shutdown 1, RunReturns 1, Exit 1] quiet_host = Some h \<and> h_orphans h = [''e'']"
proof -
  have "(1::int) \<noteq> 2" by simp
  from stopping_falls_short [OF this, of "[''e'']"] show ?thesis by blast
qed

lemma first_free_port_is_taken_witness:
  "probePort (\<lambda>p. p \<notin> {7788, 7789}) 7788 = 7790 \<and> \<not> (\<lambda>p. p \<notin> {7788, 7789}) (7789::int) \<and> probeProxyPort (\<lambda>_. False) 0 = 7080"
proof -
  let ?f = "\<lambda>p. p \<notin> {7788, 7789::int}"
  have p: "probePort ?f 7788 = 7790" by code_simp
  then have "\<not> ?f 7789" using first_free_port_is_taken [of ?f 7788] by simp
  moreover have "probeProxyPort (\<lambda>_. False) 0 = 7080" by code_simp
  ultimately show ?thesis using p by blast
qed

text \<open>A daemon in an empty home, whose port is taken, and the commands beside it.\<close>

definition demo_cli :: cli_env where
  "demo_cli = \<lparr> cn_config = demo_env, cn_show = (\<lambda>_. []), cn_signal = (\<lambda>p. p = 42), cn_get = (\<lambda>_. Inr 200), cn_polls = (\<lambda>_ fs. fs),
                cn_self = Inr ''voltpanel'', cn_spawn = (\<lambda>_. Inl ''no''), cn_release = Inl ''offline'', cn_version = ''dev'', cn_probes = \<lparr> pb_process = (\<lambda>_. Inl ''gone''), pb_cpu = [], pb_memory = None, pb_disk = None, pb_dial = (\<lambda>_. False) \<rparr> \<rparr>"

lemma write_keeps_none: "settled d fs \<Longrightarrow> plain_comp f \<Longrightarrow> p \<noteq> d @ [f] \<Longrightarrow> snd (os_write_file (d @ [f]) b mode fs) p = fs p"
proof -
  assume s: "settled d fs" "plain_comp f" "p \<noteq> d @ [f]"
  have "straight fs (d @ [f])" by (rule link_free_straight [OF _ s(2)]) (use s(1) in \<open>simp add: settled_def\<close>)
  from write_at(1) [OF this, of b mode "fst (os_write_file (d @ [f]) b mode fs)" "snd (os_write_file (d @ [f]) b mode fs)" p] s(3)
  show ?thesis by simp
qed

lemma commands_reach_the_daemon_witness:
  "\<exists>d c fs'. main_start demo_env (\<lambda>p. p \<noteq> 7788) 7788 42 demo_fresh = (Inr (d, c), fs') \<and>
     cliStop demo_cli fs' = cli [SentStop 42] 0 [(42, ''SIGTERM'')] fs' \<and> cliStatus demo_cli fs' = cli [Healthy ''dev'' 7789] 0 [] fs'"
proof -
  let ?d = "[''home''] @ [''.volt'']" and ?free = "\<lambda>p. p \<noteq> (7788::int)"
  have h: "ce_home demo_env = Inr [''home'']" by (simp add: demo_env_def)
  obtain fs1 where fs1: "EnsureDirs demo_env demo_fresh = (Inr ?d, fs1)" "fs1 (?d @ [''config.json'']) = None" "fs1 (?d @ [''daemon.pid'']) = None"
    using demo_fresh_dirs by auto
  have s1: "settled ?d fs1" using EnsureDirs_settles [OF fs1(1)] demo_fresh_links h by auto
  let ?t = "setupDaemonLog ?d fs1"
  have st: "settled ?d ?t" by (rule daemon_log_settled [OF s1])
  have lg: "locate fs1 kernel_links [] (?d @ [''logs'', ''daemon.log'']) = Inr r \<Longrightarrow> r = ?d @ [''logs'', ''daemon.log'']" for r
  proof (rule locate_at)
    show "straight fs1 (?d @ [''logs'', ''daemon.log''])"
      by (rule link_free_below) (use s1 pid_name(2) volt_names(3) in \<open>simp_all add: settled_def clean_path_def\<close>)
  qed
  have t: "?t (?d @ [f]) = None" if "fs1 (?d @ [f]) = None" for f
    using that lg by (auto simp: setupDaemonLog_def os_open_append_def split: sum.splits option.splits inode.splits)
  have rd: "real_dirs ?t ?d" by (rule settled_dir [OF st])
  let ?c = "\<lparr> cfg_Token = ''u'', cfg_Port = 7788, cfg_CreatedAt = ''now'', cfg_SessionSecret = Std_Encode ''r'' \<rparr>"
  note none = t [OF fs1(2)]
  have "locate ?t kernel_links [] (?d @ [''config.json'']) = Inr (?d @ [''config.json''])"
    by (rule locate_child [OF rd volt_names(1)]) (use none in simp)
  then have "os_stat ?t (configPath ?d) = Inl ENOENT" using none by (simp add: os_stat_def configPath_def)
  then have "LoadOrInitConfig demo_env ?t = saved_config demo_env ?c ?t"
    using EnsureDirs_settled [OF h st] by (simp add: LoadOrInitConfig_def NewSessionSecret_def demo_env_def)
  moreover have "saved_config demo_env ?c ?t = (Inr ?c, ?t(?d @ [''config.json''] \<mapsto> File 384 (ce_print demo_env (config_json ?c))))"
    using EnsureDirs_settled [OF h st] write_child [OF rd volt_names(1) none] by (simp add: saved_config_def SaveConfig_def configPath_def)
  ultimately obtain fs2 where l: "LoadOrInitConfig demo_env ?t = (Inr ?c, fs2)" "fs2 (?d @ [''daemon.pid'']) = None"
    using t [OF fs1(3)] by auto
  have rand: "b \<noteq> []" if "ce_rand demo_env = Inr b" for b using that by (auto simp: demo_env_def)
  have s2: "settled ?d fs2"
    using loaded_config_kept [OF l(1) demo_codec h _ rand] st by (simp add: config_kept_def settled_def)
  obtain d c fs' where m: "main_start demo_env ?free 7788 42 demo_fresh = (Inr (d, c), fs')" and d: "d = ?d"
    and fs': "fs' = snd (writePIDFile ?d 42 (snd (SaveConfig demo_env (?c\<lparr> cfg_Port := probePort ?free 7788 \<rparr>) fs2)))"
    using fs1(1) l(1) by (simp add: main_start_def Let_def)
  let ?x = "\<lambda>fs. fs (?d @ [''daemon.pid'']) \<noteq> Some Dir"
  let ?fs3 = "snd (SaveConfig demo_env (?c\<lparr> cfg_Port := probePort ?free 7788 \<rparr>) fs2)"
  have "?fs3 = snd (os_write_file (?d @ [''config.json'']) (ce_print demo_env (config_json (?c\<lparr> cfg_Port := probePort ?free 7788 \<rparr>))) 384 fs2)"
    using EnsureDirs_settled [OF h s2] by (simp add: SaveConfig_def configPath_def split: prod.splits sum.splits)
  then have "?x ?fs3" using write_keeps_none [OF s2 volt_names(1)] l(2) by simp
  then have "?x fs'" unfolding fs' by (auto simp: writePIDFile_def os_write_file_def split: sum.splits option.splits inode.splits)
  then have nd: "fs' (pidPath d) \<noteq> Some Dir" by (simp add: d pidPath_def)
  have p: "probePort ?free 7788 = 7789" by code_simp
  have "cn_config demo_cli = demo_env" by (simp add: demo_cli_def)
  from commands_reach_the_daemon [OF m demo_codec h demo_fresh_links rand _ _ nd this] p
  have "cliStop demo_cli fs' = cli [SentStop 42] 0 [(42, ''SIGTERM'')] fs'" "cliStatus demo_cli fs' = cli [Healthy ''dev'' 7789] 0 [] fs'"
    by (simp_all add: in_range64_def demo_cli_def)
  with m show ?thesis by blast
qed

end
