(* ===== verification/Schema.thy ===== *)
theory Schema
  imports Projects Jobs Runtimes DomainNames Connections Servers ServiceStore Deployments Pipelines Extensions Secrets Handlers
begin

text \<open>
  The types of the columns, from the migrations under \<open>internal/storage/migrations\<close>, and what every
  sequence of repository operations makes of the tables.  The statements of the model name their tables and columns by
  text, as those of the program do: that the names exist and that the values fit is what is shown here.
\<close>

datatype sql_type = TextT | IntT | BlobT | StampT | JsonT

fun fits :: "sql_type \<Rightarrow> sqlval \<Rightarrow> bool" where
  "fits ty Null = True"
| "fits ty (Text s) = (ty = TextT)"
| "fits ty (Num n) = (ty = IntT)"
| "fits ty (Blob b) = (ty = BlobT)"
| "fits ty (Stamp n) = (ty = StampT)"
| "fits ty (Json j) = (ty = JsonT)"

text \<open>Times and documents are \<open>TEXT\<close> in the schema; the column says what the program keeps there.\<close>

definition columns :: "string \<Rightarrow> (string \<times> sql_type) list" where
  "columns t =
     (if t = ''projects'' then
        [(''id'', TextT), (''name'', TextT), (''path'', TextT), (''runtime_id'', TextT), (''runtime_version'', TextT),
         (''primary_domain_id'', TextT), (''webserver_kind'', TextT), (''database_id'', TextT), (''redis_enabled'', IntT),
         (''created_at'', StampT), (''updated_at'', StampT), (''detected_kind'', TextT), (''run_command'', TextT)]
      else if t = ''runtimes'' then [(''id'', TextT), (''kind'', TextT), (''name'', TextT)]
      else if t = ''runtime_versions'' then
        [(''id'', TextT), (''runtime_id'', TextT), (''version'', TextT), (''install_path'', TextT), (''is_default'', IntT),
         (''status'', TextT)]
      else if t = ''services'' then
        [(''id'', TextT), (''project_id'', TextT), (''kind'', TextT), (''name'', TextT), (''command'', TextT), (''args'', JsonT),
         (''cwd'', TextT), (''env'', JsonT), (''autostart'', IntT), (''depends_on'', JsonT), (''status'', TextT), (''pid'', IntT),
         (''log_path'', TextT), (''started_at'', StampT), (''exited_at'', StampT), (''exit_code'', IntT), (''created_at'', StampT),
         (''updated_at'', StampT), (''restart_policy'', TextT), (''graceful_timeout_seconds'', IntT), (''max_restarts'', IntT),
         (''restart_window_seconds'', IntT)]
      else if t = ''domains'' then
        [(''id'', TextT), (''hostname'', TextT), (''project_id'', TextT), (''port'', IntT), (''provider'', TextT),
         (''ssl_enabled'', IntT), (''enabled'', IntT), (''created_at'', StampT)]
      else if t = ''certificates'' then
        [(''id'', TextT), (''domain_id'', TextT), (''ca_id'', TextT), (''not_before'', StampT), (''not_after'', StampT),
         (''status'', TextT)]
      else if t = ''servers'' then
        [(''id'', TextT), (''name'', TextT), (''hostname'', TextT), (''port'', IntT), (''username'', TextT), (''auth_method'', TextT),
         (''secret_ref'', TextT), (''last_connected_at'', StampT), (''os_info'', TextT), (''created_at'', StampT)]
      else if t = ''deployments'' then
        [(''id'', TextT), (''project_id'', TextT), (''server_id'', TextT), (''commit_sha'', TextT), (''branch'', TextT),
         (''pipeline_run_id'', TextT), (''status'', TextT), (''started_at'', StampT), (''finished_at'', StampT), (''duration_ms'', IntT),
         (''log_ref'', TextT), (''code_rollback_ref'', TextT), (''artifact_rollback_ref'', TextT), (''migration_rollback_supported'', IntT)]
      else if t = ''pipelines'' then
        [(''id'', TextT), (''project_id'', TextT), (''name'', TextT), (''definition_yaml'', TextT), (''created_at'', StampT),
         (''updated_at'', StampT), (''webhook_secret'', TextT)]
      else if t = ''pipeline_runs'' then
        [(''id'', TextT), (''pipeline_id'', TextT), (''trigger_kind'', TextT), (''status'', TextT), (''steps'', JsonT),
         (''started_at'', StampT), (''finished_at'', StampT)]
      else if t = ''integrations'' then
        [(''id'', TextT), (''kind'', TextT), (''account_ref'', TextT), (''secret_ref'', TextT), (''scopes'', JsonT), (''created_at'', StampT)]
      else if t = ''extensions'' then
        [(''id'', TextT), (''name'', TextT), (''version'', TextT), (''kind'', TextT), (''source'', TextT), (''enabled'', IntT),
         (''permissions'', JsonT)]
      else if t = ''secrets'' then
        [(''id'', TextT), (''owner_type'', TextT), (''owner_id'', TextT), (''kind'', TextT), (''storage_backend'', TextT),
         (''encrypted_blob'', BlobT), (''created_at'', StampT), (''rotated_at'', StampT)]
      else if t = ''audit_events'' then
        [(''id'', TextT), (''actor'', TextT), (''action'', TextT), (''target_type'', TextT), (''target_id'', TextT), (''result'', TextT),
         (''created_at'', StampT), (''metadata_json'', JsonT)]
      else if t = ''deployment_targets'' then
        [(''id'', TextT), (''project_id'', TextT), (''server_id'', TextT), (''repo_url'', TextT), (''integration_id'', TextT),
         (''branch'', TextT), (''deploy_path'', TextT), (''install_command'', TextT), (''restart_command'', TextT),
         (''health_check_url'', TextT), (''created_at'', StampT), (''updated_at'', StampT)]
      else if t = ''jobs'' then
        [(''id'', TextT), (''kind'', TextT), (''target'', TextT), (''status'', TextT), (''log_file'', TextT), (''error'', TextT),
         (''exit_code'', IntT), (''started_at'', StampT), (''finished_at'', StampT)]
      else if t = ''db_connections'' then
        [(''id'', TextT), (''name'', TextT), (''kind'', TextT), (''host'', TextT), (''port'', IntT), (''username'', TextT),
         (''database_name'', TextT), (''secret_ref'', TextT), (''created_at'', StampT)]
      else [])"

text \<open>A value in a column of a table; a column the table does not have holds nothing.\<close>

definition value_ok :: "string \<Rightarrow> string \<Rightarrow> sqlval \<Rightarrow> bool" where
  "value_ok t c v \<longleftrightarrow> (case map_of (columns t) c of None \<Rightarrow> v = Null | Some ty \<Rightarrow> fits ty v)"

definition row_typed :: "string \<Rightarrow> row \<Rightarrow> bool" where
  "row_typed t r \<longleftrightarrow> (\<forall>c. value_ok t c (r c))"

definition well_typed :: "db \<Rightarrow> bool" where
  "well_typed d \<longleftrightarrow> db_ok d \<and> (\<forall>t. \<forall>r \<in> set (tables d t). t \<in> set schema_tables \<and> row_typed t r)"

text \<open>The columns a statement sets exist and their values fit.\<close>

definition cols_typed :: "string \<Rightarrow> (string \<times> sqlval) list \<Rightarrow> bool" where
  "cols_typed t cols \<longleftrightarrow> t \<in> set schema_tables \<and>
     list_all (\<lambda>(c, v). case map_of (columns t) c of None \<Rightarrow> False | Some ty \<Rightarrow> fits ty v) cols"

named_theorems typing "well-typedness of the database after an operation"

section \<open>Statements\<close>

lemma cols_typed_value: "cols_typed t cols \<Longrightarrow> map_of cols c = Some v \<Longrightarrow> value_ok t c v"
proof -
  assume "cols_typed t cols" "map_of cols c = Some v"
  then have "case map_of (columns t) c of None \<Rightarrow> False | Some ty \<Rightarrow> fits ty v"
    unfolding cols_typed_def list_all_iff by (blast dest: map_of_SomeD)
  then show ?thesis by (simp add: value_ok_def split: option.splits)
qed

lemma defaults_typed: "map_of (column_defaults t) c = Some v \<Longrightarrow> value_ok t c v"
proof -
  assume m: "map_of (column_defaults t) c = Some v"
  have "list_all (\<lambda>t. list_all (\<lambda>(c, v). value_ok t c v) (column_defaults t)) schema_tables" by code_simp
  moreover have "column_defaults t = []" if "t \<notin> set schema_tables" using that by (simp add: schema_tables_def column_defaults_def)
  ultimately show ?thesis using m by (fastforce simp: list_all_iff dest: map_of_SomeD)
qed

lemma make_row_typed: "cols_typed t cols \<Longrightarrow> row_typed t (make_row t cols)"
  by (auto simp: row_typed_def make_row_def cols_typed_value defaults_typed value_ok_def [of t _ Null] split: option.splits)

lemma set_cols_typed: "cols_typed t assigns \<Longrightarrow> row_typed t r \<Longrightarrow> row_typed t (set_cols assigns r)"
  by (auto simp: row_typed_def set_cols_def cols_typed_value split: option.splits)

lemma well_typed_tables: "tables d' = tables d \<Longrightarrow> well_typed d' \<longleftrightarrow> well_typed d"
  using db_ok_tables [of d' d] by (simp add: well_typed_def)

lemma tick_typed: "tick d = (r, d') \<Longrightarrow> well_typed d \<Longrightarrow> well_typed d'"
  using well_typed_tables [of d' d] tick_tables [of d] by simp

lemma raw_insert_typed:
  assumes "raw_insert t r d = (x, d')" "well_typed d" "row_typed t r" "t \<in> set schema_tables"
  shows "well_typed d'"
proof -
  have "db_ok d'" using raw_insert_db_ok [of d t r] assms(1,2) by (simp add: well_typed_def)
  moreover have "tables d' = tables d \<or> tables d' = (tables d)(t := tables d t @ [r])"
    using assms(1) by (auto simp: raw_insert_def with_table_def split: if_splits)
  ultimately show ?thesis using assms(2-4) by (auto simp: well_typed_def split: if_splits)
qed

lemma raw_update_typed:
  assumes "raw_update t P assigns d = (x, d')" "well_typed d" "cols_typed t assigns" "''id'' \<notin> fst ` set assigns"
  shows "well_typed d'"
proof -
  have "db_ok d'" using raw_update_db_ok [of d assigns t P] assms(1,2,4) by (simp add: well_typed_def)
  moreover have "tables d' = tables d \<or> tables d' = (tables d)(t := map (\<lambda>r. if P r then set_cols assigns r else r) (tables d t))"
    using assms(1) by (auto simp: raw_update_def with_table_def Let_def split: if_splits)
  ultimately show ?thesis using assms(2) set_cols_typed [OF assms(3)] unfolding well_typed_def
    by (elim disjE) (auto split: if_splits)
qed

lemma raw_delete_typed: "raw_delete t P d = (x, d') \<Longrightarrow> well_typed d \<Longrightarrow> well_typed d'"
proof -
  assume a: "raw_delete t P d = (x, d')" "well_typed d"
  have "db_ok d'" using raw_delete_db_ok [of d t P] a by (simp add: well_typed_def)
  moreover have "set (tables d' t') \<subseteq> set (tables d t')" for t' using a(1) by (auto simp: raw_delete_def with_table_def Let_def split: if_splits)
  ultimately show ?thesis using a(2) unfolding well_typed_def by blast
qed

lemma sql_insert_typed:
  "sql_insert t cols d = (r, d') \<Longrightarrow> well_typed d \<Longrightarrow> cols_typed t cols \<Longrightarrow> well_typed d'"
  by (auto simp: sql_insert_def go_bind_def cols_typed_def make_row_typed split: prod.splits sum.splits
      dest!: tick_typed raw_insert_typed intro: make_row_typed)

lemma sql_update_typed:
  "sql_update t P assigns d = (r, d') \<Longrightarrow> well_typed d \<Longrightarrow> cols_typed t assigns \<Longrightarrow> ''id'' \<notin> fst ` set assigns \<Longrightarrow> well_typed d'"
  by (auto simp: sql_update_def go_bind_def split: prod.splits sum.splits dest!: tick_typed raw_update_typed)

lemma sql_delete_typed: "sql_delete t P d = (r, d') \<Longrightarrow> well_typed d \<Longrightarrow> well_typed d'"
  by (auto simp: sql_delete_def go_bind_def split: prod.splits sum.splits dest: tick_typed raw_delete_typed)

lemma sql_query_typed: "sql_query t P d = (r, d') \<Longrightarrow> well_typed d \<Longrightarrow> well_typed d'"
  by (auto simp: sql_query_def go_bind_def split: prod.splits sum.splits dest: tick_typed)

lemma sql_query_row_typed: "sql_query_row t P d = (r, d') \<Longrightarrow> well_typed d \<Longrightarrow> well_typed d'"
  using sql_query_row_tables [of t P d] well_typed_tables [of d' d] by simp

lemma set_cols_id_row: "''id'' \<notin> set upd \<Longrightarrow> ''id'' \<notin> fst ` set (map (\<lambda>c. (c, r c)) upd)"
  by auto

lemma excluded_typed:
  assumes "cols_typed t cols" "list_all (\<lambda>c. c \<in> fst ` set (columns t)) upd"
  shows "cols_typed t (map (\<lambda>c. (c, make_row t cols c)) upd)"
proof -
  have "row_typed t (make_row t cols)" by (rule make_row_typed [OF assms(1)])
  then have "case map_of (columns t) c of None \<Rightarrow> False | Some ty \<Rightarrow> fits ty (make_row t cols c)" if "c \<in> set upd" for c
    using assms(2) that map_of_eq_None_iff [of "columns t" c]
    by (auto simp: row_typed_def value_ok_def list_all_iff split: option.splits)
  then show ?thesis using assms(1) by (auto simp: cols_typed_def list_all_iff)
qed

lemma sql_upsert_typed:
  assumes "sql_upsert t cols upd d = (r, d')" "well_typed d" "cols_typed t cols" "''id'' \<notin> set upd"
    and "list_all (\<lambda>c. c \<in> fst ` set (columns t)) upd"
  shows "well_typed d'"
proof -
  have u: "well_typed d2" if "raw_update t P (map (\<lambda>c. (c, make_row t cols c)) upd) d1 = (x, d2)" "well_typed d1" for P d1 x d2
    by (rule raw_update_typed [OF that excluded_typed [OF assms(3,5)] set_cols_id_row [OF assms(4)]])
  have i: "well_typed d2" if "raw_insert t (make_row t cols) d1 = (x, d2)" "well_typed d1" for d1 x d2
    using raw_insert_typed [OF that make_row_typed [OF assms(3)]] assms(3) by (simp add: cols_typed_def)
  obtain x d1 where t: "tick d = (x, d1)" by (cases "tick d")
  have w1: "well_typed d1" by (rule tick_typed [OF t assms(2)])
  then show ?thesis using assms(1) t u i
    by (auto simp: sql_upsert_def go_bind_def Let_def split: sum.splits prod.splits if_splits)
qed

lemma transaction_typed:
  assumes "transaction wrap body d = (r, d')" "well_typed d" "\<And>d1 x d2. body d1 = (x, d2) \<Longrightarrow> well_typed d1 \<Longrightarrow> well_typed d2"
  shows "well_typed d'"
proof -
  obtain x d1 where t: "tick d = (x, d1)" by (cases "tick d")
  have w1: "well_typed d1" by (rule tick_typed [OF t assms(2)])
  obtain y d2 where b: "body d1 = (y, d2)" by (cases "body d1")
  have w2: "well_typed d2" by (rule assms(3) [OF b w1])
  obtain z d3 where c: "tick d2 = (z, d3)" by (cases "tick d2")
  have "well_typed (e\<lparr> tables := tables d1 \<rparr>)" for e :: db using w1 well_typed_tables [of "e\<lparr> tables := tables d1 \<rparr>" d1] by simp
  then show ?thesis using assms(1) t b c w1 tick_typed [OF c w2]
    by (auto simp: transaction_def split: sum.splits)
qed

lemmas statement_typed = tick_typed sql_insert_typed sql_update_typed sql_delete_typed sql_query_typed sql_query_row_typed

lemma fits_simps [simp]:
  "fits TextT (nullable s)" "fits IntT (nullablePort p)" "fits IntT (nullableInt n)" "fits IntT (boolToInt b)" "fits StampT (rfc3339 t)"
  "fits StampT (optional_time ot)" "fits IntT (optional_int oi)"
  by (simp_all add: nullable_def nullablePort_def nullableInt_def boolToInt_def rfc3339_def optional_time_def optional_int_def split: option.splits)

lemma repo_get_typed: "repo_get t scan ab wrap i d = (r, d') \<Longrightarrow> well_typed d \<Longrightarrow> well_typed d'"
  using repo_get_tables [of t scan ab wrap i d] well_typed_tables [of d' d] by simp

lemma repo_delete_typed: "repo_delete t ab wrap i d = (r, d') \<Longrightarrow> well_typed d \<Longrightarrow> well_typed d'"
  by (auto simp: repo_delete_def split: prod.splits sum.splits if_splits dest: sql_delete_typed)

section \<open>What the statements of the repositories set\<close>

lemma cols_ok:
  "cols_typed ''integrations'' (integration_cols i)" "cols_typed ''db_connections'' (conn_cols c)"
  "cols_typed ''deployment_targets'' (target_cols g)" "cols_typed ''deployments'' (deployment_cols e)"
  "cols_typed ''deployments'' (finish_cols now st sha rb lg ms)"
  "cols_typed ''domains'' (domain_cols u now h pr port)" "cols_typed ''extensions'' (extension_cols x)"
  "cols_typed ''pipelines'' (pipeline_cols p)" "cols_typed ''pipeline_runs'' (new_run_cols u now pi tk)"
  "cols_typed ''pipeline_runs'' (finish_run_cols now st js)" "cols_typed ''servers'' (server_cols s)"
  "cols_typed ''services'' (record_cols now r)" "cols_typed ''services'' (app_cols now a)"
  "cols_typed ''audit_events'' (audit_cols u now ac tt ti rs cmd)"
  "fits BlobT b \<Longrightarrow> cols_typed ''secrets'' (secret_cols env ot oi k be b)"
  by (simp_all add: cols_typed_def schema_tables_def columns_def integration_cols_def conn_cols_def target_cols_def deployment_cols_def
      finish_cols_def domain_cols_def extension_cols_def pipeline_cols_def new_run_cols_def finish_run_cols_def server_cols_def
      record_cols_def app_cols_def audit_cols_def secret_cols_def split: option.splits)

lemma assigns_ok:
  "cols_typed ''jobs'' [(''id'', Text u), (''kind'', Text k), (''target'', Text t), (''status'', Text st), (''log_file'', Text lf), (''started_at'', rfc3339 now)]"
  "cols_typed ''jobs'' [(''log_file'', Text lf)]"
  "cols_typed ''jobs'' [(''status'', Text st), (''exit_code'', Num ec), (''error'', nullable msg), (''finished_at'', rfc3339 now)]"
  "cols_typed ''jobs'' [(''status'', Text st), (''error'', Text msg), (''finished_at'', rfc3339 now)]"
  "cols_typed ''runtimes'' [(''id'', Text u), (''kind'', Text k), (''name'', Text n)]"
  "cols_typed ''runtime_versions'' [(''id'', Text u), (''runtime_id'', Text ri), (''version'', Text v), (''install_path'', Text p),
     (''is_default'', boolToInt b), (''status'', Text st)]"
  "cols_typed ''runtime_versions'' [(''install_path'', Text p), (''is_default'', boolToInt b), (''status'', Text st)]"
  "cols_typed ''runtime_versions'' [(''status'', Text st)]" "cols_typed ''runtime_versions'' [(''is_default'', Num n0)]"
  "cols_typed ''projects'' [(''id'', Text u), (''name'', Text n), (''path'', Text p), (''detected_kind'', Text k), (''run_command'', Text rc),
     (''redis_enabled'', Num n0), (''created_at'', rfc3339 now), (''updated_at'', rfc3339 now')]"
  "cols_typed ''projects'' [(''detected_kind'', Text k), (''run_command'', Text rc), (''updated_at'', rfc3339 now)]"
  "cols_typed ''servers'' [(''last_connected_at'', rfc3339 now), (''os_info'', nullable os)]"
  "cols_typed ''domains'' [(''ssl_enabled'', boolToInt b)]" "cols_typed ''domains'' [(''port'', nullablePort port)]"
  "cols_typed ''domains'' [(''project_id'', Null), (''port'', Null)]"
  "cols_typed ''certificates'' [(''id'', Text u), (''domain_id'', Text di), (''ca_id'', nullable ca), (''not_before'', rfc3339 nb),
     (''not_after'', rfc3339 na), (''status'', Text st)]"
  "cols_typed ''certificates'' [(''status'', Text st), (''not_before'', rfc3339 nb), (''not_after'', rfc3339 na)]"
  "cols_typed ''extensions'' [(''enabled'', boolToInt b)]"
  by (simp_all add: cols_typed_def schema_tables_def columns_def)

section \<open>The operations of the repositories\<close>

lemma project_ops_typed [typing]:
  "project_Create parse tree u now n p d = (r1, d') \<Longrightarrow> well_typed d \<Longrightarrow> well_typed d'"
  "project_Redetect parse tree now i d = (r2, d') \<Longrightarrow> well_typed d \<Longrightarrow> well_typed d'"
  "project_Delete i d = (r3, d') \<Longrightarrow> well_typed d \<Longrightarrow> well_typed d'"
  by (auto simp: project_Create_def project_Redetect_def project_Get_def project_Delete_def Let_def assigns_ok
      split: option.splits sum.splits prod.splits dest: repo_get_typed repo_delete_typed
      elim!: sql_insert_typed sql_update_typed)

lemma job_ops_typed [typing]:
  "job_Create u now k t lf d = (r1, d') \<Longrightarrow> well_typed d \<Longrightarrow> well_typed d'"
  "job_SetLogFile i lf d = (r2, d') \<Longrightarrow> well_typed d \<Longrightarrow> well_typed d'"
  "job_Finish now i st ec msg d = (r3, d') \<Longrightarrow> well_typed d \<Longrightarrow> well_typed d'"
  "job_ReconcileStale now d = (r4, d') \<Longrightarrow> well_typed d \<Longrightarrow> well_typed d'"
  by (auto simp: job_Create_def job_SetLogFile_def job_Finish_def job_ReconcileStale_def assigns_ok
      split: sum.splits prod.splits elim!: sql_insert_typed sql_update_typed)

lemma domain_ops_typed [typing]:
  "CreateDomain u now h p port d = (r1, d') \<Longrightarrow> well_typed d \<Longrightarrow> well_typed d'"
  "DeleteDomain i d = (r2, d') \<Longrightarrow> well_typed d \<Longrightarrow> well_typed d'"
  "SetSSLEnabled i b d = (r3, d') \<Longrightarrow> well_typed d \<Longrightarrow> well_typed d'"
  "SetPort i port d = (r4, d') \<Longrightarrow> well_typed d \<Longrightarrow> well_typed d'"
  "ClearProject i d = (r5, d') \<Longrightarrow> well_typed d \<Longrightarrow> well_typed d'"
  "CreateCertificate i di ca nb na st d = (r6, d') \<Longrightarrow> well_typed d \<Longrightarrow> well_typed d'"
  "UpdateCertificateStatus i st nb na d = (r7, d') \<Longrightarrow> well_typed d \<Longrightarrow> well_typed d'"
  by (auto simp: CreateDomain_def DeleteDomain_def SetSSLEnabled_def SetPort_def ClearProject_def CreateCertificate_def
      UpdateCertificateStatus_def update_by_id_def assigns_ok cols_ok
      split: if_splits sum.splits prod.splits dest: repo_delete_typed elim!: sql_insert_typed sql_update_typed)

lemma connection_ops_typed [typing]:
  "integration_Create u now k ar sr sc d = (r1, d') \<Longrightarrow> well_typed d \<Longrightarrow> well_typed d'"
  "integration_Delete i d = (r2, d') \<Longrightarrow> well_typed d \<Longrightarrow> well_typed d'"
  "conn_Create u now c d = (r3, d') \<Longrightarrow> well_typed d \<Longrightarrow> well_typed d'"
  "conn_Delete i d = (r4, d') \<Longrightarrow> well_typed d \<Longrightarrow> well_typed d'"
  by (auto simp: integration_Create_def integration_Delete_def conn_Create_def conn_Delete_def Let_def cols_ok
      split: if_splits sum.splits prod.splits dest: repo_delete_typed elim!: sql_insert_typed)

lemma server_ops_typed [typing]:
  "server_Create u now q d = (r1, d') \<Longrightarrow> well_typed d \<Longrightarrow> well_typed d'"
  "server_Delete i d = (r2, d') \<Longrightarrow> well_typed d \<Longrightarrow> well_typed d'"
  "TestConnection now connect i d = (r3, d') \<Longrightarrow> well_typed d \<Longrightarrow> well_typed d'"
  by (auto simp: server_Create_def server_Delete_def TestConnection_def server_Get_def Let_def cols_ok assigns_ok
      split: option.splits sum.splits prod.splits dest: repo_delete_typed repo_get_typed elim!: sql_insert_typed sql_update_typed)

lemma deployment_ops_typed [typing]:
  "target_Create u now q d = (r1, d') \<Longrightarrow> well_typed d \<Longrightarrow> well_typed d'"
  "target_Delete i d = (r2, d') \<Longrightarrow> well_typed d \<Longrightarrow> well_typed d'"
  "deployment_create e d = (r3, d') \<Longrightarrow> well_typed d \<Longrightarrow> well_typed d'"
  "deployment_finish now i st sha rb lg ms d = (r4, d') \<Longrightarrow> well_typed d \<Longrightarrow> well_typed d'"
  by (auto simp: target_Create_def target_Delete_def deployment_create_def deployment_finish_def map_err_def Let_def cols_ok
      split: sum.splits prod.splits dest: repo_delete_typed elim!: sql_insert_typed sql_update_typed)
    (auto simp: finish_cols_def)

lemma pipeline_ops_typed [typing]:
  "pipeline_Create rnd u now p n y d = (r1, d') \<Longrightarrow> well_typed d \<Longrightarrow> well_typed d'"
  "pipeline_Delete i d = (r2, d') \<Longrightarrow> well_typed d \<Longrightarrow> well_typed d'"
  "CreateRun u now pi tk d = (r3, d') \<Longrightarrow> well_typed d \<Longrightarrow> well_typed d'"
  "FinishRun now i st js d = (r4, d') \<Longrightarrow> well_typed d \<Longrightarrow> well_typed d'"
  by (auto simp: pipeline_Create_def pipeline_Delete_def CreateRun_def FinishRun_def Let_def cols_ok
      split: sum.splits prod.splits dest: repo_delete_typed elim!: sql_insert_typed sql_update_typed)
    (auto simp: finish_run_cols_def)

lemma runtime_steps_typed:
  "getRuntimeByKind k d = (r1, d') \<Longrightarrow> well_typed d \<Longrightarrow> well_typed d'"
  "EnsureRuntime u k n d = (r2, d') \<Longrightarrow> well_typed d \<Longrightarrow> well_typed d'"
  "record_detected rt u v d = (r3, d') \<Longrightarrow> well_typed d \<Longrightarrow> well_typed d'"
  "set_default_body rt vs d = (r4, d') \<Longrightarrow> well_typed d \<Longrightarrow> well_typed d'"
proof -
  show g: "getRuntimeByKind k d = (r1, d') \<Longrightarrow> well_typed d \<Longrightarrow> well_typed d'" for d d' r1
    by (auto simp: getRuntimeByKind_def split: prod.splits sum.splits sql_error.splits dest: sql_query_row_typed)
  show "EnsureRuntime u k n d = (r2, d') \<Longrightarrow> well_typed d \<Longrightarrow> well_typed d'"
    by (auto simp: EnsureRuntime_def go_bind_def assigns_ok split: prod.splits sum.splits option.splits dest!: g elim!: sql_insert_typed)
  show "record_detected rt u v d = (r3, d') \<Longrightarrow> well_typed d \<Longrightarrow> well_typed d'"
    by (auto simp: record_detected_def go_bind_def go_return_def map_err_def assigns_ok split: prod.splits sum.splits sql_error.splits
        dest!: sql_query_row_typed elim!: sql_insert_typed sql_update_typed)
  show "set_default_body rt vs d = (r4, d') \<Longrightarrow> well_typed d \<Longrightarrow> well_typed d'"
    by (auto simp: set_default_body_def go_bind_def go_return_def go_fail_def map_err_def assigns_ok split: prod.splits sum.splits if_splits
        dest!: sql_query_typed elim!: sql_update_typed)
qed

lemma record_all_typed: "record_all rt vs d = (r, d') \<Longrightarrow> well_typed d \<Longrightarrow> well_typed d'"
proof (induction rt vs arbitrary: d rule: record_all.induct)
  case (2 rt u v vs)
  obtain x d1 where x: "record_detected rt u v d = (x, d1)" by (cases "record_detected rt u v d")
  from 2 x runtime_steps_typed(3) [OF x] show ?case by (cases x) (auto simp: go_bind_def)
qed (simp add: go_return_def)

lemma runtime_ops_typed [typing]:
  assumes "well_typed d"
  shows "ReplaceDetected u k n vs d = (r1, d') \<Longrightarrow> well_typed d'" "SetDefaultVersion k v d = (r2, d') \<Longrightarrow> well_typed d'"
proof -
  have body: "well_typed d2" if "go_bind (map_err MarkMissing
      (sql_update ''runtime_versions'' (of_runtime i) [(''status'', Text ''missing'')])) (\<lambda>_. record_all i vs) d1 = (x, d2)" "well_typed d1"
    for i d1 x d2
    using that by (auto simp: go_bind_def map_err_def assigns_ok split: prod.splits sum.splits elim!: sql_update_typed record_all_typed)
  show "ReplaceDetected u k n vs d = (r1, d') \<Longrightarrow> well_typed d'"
    using assms by (auto simp: ReplaceDetected_def go_bind_def [of "EnsureRuntime u k n"] go_bind_def [of "transaction _ _"] go_return_def
        split: prod.splits sum.splits dest!: runtime_steps_typed(2) elim!: transaction_typed body)
  show "SetDefaultVersion k v d = (r2, d') \<Longrightarrow> well_typed d'"
    using assms by (auto simp: SetDefaultVersion_def go_bind_def go_fail_def split: prod.splits sum.splits option.splits
        dest!: runtime_steps_typed(1) elim!: transaction_typed runtime_steps_typed(4))
qed

lemma service_columns:
  "''id'' \<notin> set upserted_cols" "list_all (\<lambda>c. c \<in> fst ` set (columns ''services'')) upserted_cols"
  "list_all (\<lambda>c. c \<in> fst ` set (columns ''services'')) [''name'', ''command'', ''args'', ''cwd'', ''env'', ''status'', ''pid'',
     ''log_path'', ''started_at'', ''exited_at'', ''exit_code'', ''updated_at'']"
  by (simp_all add: upserted_cols_def columns_def)

lemma upsertService_typed: "upsertService now a d = (r, d') \<Longrightarrow> well_typed d \<Longrightarrow> well_typed d'"
  unfolding upsertService_def by (rule sql_upsert_typed [OF _ _ cols_ok(13) _ service_columns(3)]) simp_all

lemma service_ops_typed [typing]:
  "upsertServiceRecord now s d = (r1, d') \<Longrightarrow> well_typed d \<Longrightarrow> well_typed d'"
  "DeleteServiceRecordsForProject p d = (r2, d') \<Longrightarrow> well_typed d \<Longrightarrow> well_typed d'"
  "importLegacyApps now as d = (r3, d') \<Longrightarrow> well_typed d \<Longrightarrow> well_typed d'"
proof -
  show "upsertServiceRecord now s d = (r1, d') \<Longrightarrow> well_typed d \<Longrightarrow> well_typed d'"
    unfolding upsertServiceRecord_def by (rule sql_upsert_typed [OF _ _ cols_ok(12) service_columns(1,2)])
  show "DeleteServiceRecordsForProject p d = (r2, d') \<Longrightarrow> well_typed d \<Longrightarrow> well_typed d'"
    by (auto simp: DeleteServiceRecordsForProject_def go_bind_def go_return_def split: prod.splits sum.splits dest: sql_delete_typed)
  show "importLegacyApps now as d = (r3, d') \<Longrightarrow> well_typed d \<Longrightarrow> well_typed d'"
  proof (induction now as arbitrary: d rule: importLegacyApps.induct)
    case (2 now a as)
    then show ?case
      by (auto simp: go_bind_def split: prod.splits sum.splits if_splits dest!: sql_query_typed dest: upsertService_typed)
  qed (simp add: go_return_def)
qed

lemma extension_ops_typed [typing]:
  "extension_Install w u sp d = (r1, d') \<Longrightarrow> well_typed d \<Longrightarrow> well_typed d'"
  "extension_Enable w i (d, g) = (r2, (d', g')) \<Longrightarrow> well_typed d \<Longrightarrow> well_typed d'"
  "extension_Disable i (d, g) = (r3, (d', g')) \<Longrightarrow> well_typed d \<Longrightarrow> well_typed d'"
  "extension_Remove i (d, g) = (r4, (d', g')) \<Longrightarrow> well_typed d \<Longrightarrow> well_typed d'"
proof -
  have get: "extension_Get i d = (r, d') \<Longrightarrow> well_typed d \<Longrightarrow> well_typed d'" for r d d'
    by (auto simp: extension_Get_def split: prod.splits sum.splits sql_error.splits dest: sql_query_row_typed)
  have set: "set_enabled b i d = (r, d') \<Longrightarrow> well_typed d \<Longrightarrow> well_typed d'" for b r d d'
    unfolding set_enabled_def using sql_update_typed [OF _ _ assigns_ok(18)] by simp
  show "extension_Install w u sp d = (r1, d') \<Longrightarrow> well_typed d \<Longrightarrow> well_typed d'"
    by (auto simp: extension_Install_def Let_def cols_ok split: prod.splits sum.splits elim!: sql_insert_typed)
  show "extension_Enable w i (d, g) = (r2, (d', g')) \<Longrightarrow> well_typed d \<Longrightarrow> well_typed d'"
    by (auto simp: extension_Enable_def split: prod.splits sum.splits option.splits dest: get set)
  show dis: "extension_Disable i (d, g) = (r3, (d', g')) \<Longrightarrow> well_typed d \<Longrightarrow> well_typed d'" for r3 d d' g g'
    by (auto simp: extension_Disable_def split: prod.splits sum.splits option.splits dest: get set)
  show "extension_Remove i (d, g) = (r4, (d', g')) \<Longrightarrow> well_typed d \<Longrightarrow> well_typed d'"
    by (auto simp: extension_Remove_def split: prod.splits sum.splits option.splits if_splits dest!: get dest: dis sql_delete_typed)
qed

lemma choose_backend_fits: "choose_backend env a val v = (Inr (be, b), v') \<Longrightarrow> fits BlobT b"
  by (auto simp: choose_backend_def split: prod.splits option.splits sum.splits)

lemma keychain_db [simp]: "vt_db (osKeychainDelete env a v) = vt_db v"
  by (simp add: osKeychainDelete_def)

lemma secret_ops_typed [typing]:
  assumes "well_typed (vt_db v)"
  shows "secret_Put env ot oi k val v = (r1, v') \<Longrightarrow> well_typed (vt_db v')"
    and "secret_Delete env ref v = (r2, v') \<Longrightarrow> well_typed (vt_db v')"
proof -
  have look: "well_typed (vt_db v1)" if "secret_lookup ref v = (x, v1)" for x v1
    using that assms by (auto simp: secret_lookup_def on_vault_db_def split: prod.splits sum.splits sql_error.splits dest: sql_query_row_typed)
  show "secret_Delete env ref v = (r2, v') \<Longrightarrow> well_typed (vt_db v')"
    by (auto simp: secret_Delete_def on_vault_db_def Let_def split: prod.splits sum.splits secret_error.splits if_splits
        dest!: look dest: sql_delete_typed)
  show "secret_Put env ot oi k val v = (r1, v') \<Longrightarrow> well_typed (vt_db v')"
  proof -
    assume p: "secret_Put env ot oi k val v = (r1, v')"
    let ?a = "keychainAccount ot oi k (sn_uuid env)"
    obtain c v1 where c: "choose_backend env ?a val v = (c, v1)" by (cases "choose_backend env ?a val v")
    have w: "well_typed (vt_db v1)" using choose_backend_db [of env ?a val v] c assms by simp
    show ?thesis
    proof (cases c)
      case (Inr bb)
      obtain be b where bb: "bb = (be, b)" by (cases bb)
      have "fits BlobT b" using choose_backend_fits [of env ?a val v be b v1] c Inr bb by simp
      then have i: "well_typed d'" if "sql_insert ''secrets'' (secret_cols env ot oi k be b) (vt_db v1) = (x, d')" for x d'
        using sql_insert_typed [OF that w] cols_ok(15) by blast
      show ?thesis using p c Inr bb i
        by (auto simp: secret_Put_def on_vault_db_def Let_def split: prod.splits sum.splits)
    qed (use p c w in \<open>simp add: secret_Put_def Let_def\<close>)
  qed
qed

lemma audit_typed [typing]: "sql_insert ''audit_events'' (audit_cols u now ac tt ti rs cmd) d = (r, d') \<Longrightarrow> well_typed d \<Longrightarrow> well_typed d'"
  by (rule sql_insert_typed [OF _ _ cols_ok(14)])

section \<open>Every history\<close>

text \<open>The operations that write.\<close>

inductive repo_step :: "db \<Rightarrow> db \<Rightarrow> bool" where
  "project_Create parse tree u now n p d = (r, d') \<Longrightarrow> repo_step d d'"
| "project_Redetect parse tree now i d = (r, d') \<Longrightarrow> repo_step d d'"
| "project_Delete i d = (r, d') \<Longrightarrow> repo_step d d'"
| "job_Create u now k t lf d = (r, d') \<Longrightarrow> repo_step d d'"
| "job_SetLogFile i lf d = (r, d') \<Longrightarrow> repo_step d d'"
| "job_Finish now i st ec msg d = (r, d') \<Longrightarrow> repo_step d d'"
| "job_ReconcileStale now d = (r, d') \<Longrightarrow> repo_step d d'"
| "ReplaceDetected u k n vs d = (r, d') \<Longrightarrow> repo_step d d'"
| "SetDefaultVersion k v d = (r, d') \<Longrightarrow> repo_step d d'"
| "CreateDomain u now h p port d = (r, d') \<Longrightarrow> repo_step d d'"
| "DeleteDomain i d = (r, d') \<Longrightarrow> repo_step d d'"
| "SetSSLEnabled i b d = (r, d') \<Longrightarrow> repo_step d d'"
| "SetPort i port d = (r, d') \<Longrightarrow> repo_step d d'"
| "ClearProject i d = (r, d') \<Longrightarrow> repo_step d d'"
| "CreateCertificate i di ca nb na st d = (r, d') \<Longrightarrow> repo_step d d'"
| "UpdateCertificateStatus i st nb na d = (r, d') \<Longrightarrow> repo_step d d'"
| "integration_Create u now k ar sr sc d = (r, d') \<Longrightarrow> repo_step d d'"
| "integration_Delete i d = (r, d') \<Longrightarrow> repo_step d d'"
| "conn_Create u now c d = (r, d') \<Longrightarrow> repo_step d d'"
| "conn_Delete i d = (r, d') \<Longrightarrow> repo_step d d'"
| "server_Create u now q d = (r, d') \<Longrightarrow> repo_step d d'"
| "server_Delete i d = (r, d') \<Longrightarrow> repo_step d d'"
| "TestConnection now connect i d = (r, d') \<Longrightarrow> repo_step d d'"
| "target_Create u now tg d = (r, d') \<Longrightarrow> repo_step d d'"
| "target_Delete i d = (r, d') \<Longrightarrow> repo_step d d'"
| "deployment_create e d = (r, d') \<Longrightarrow> repo_step d d'"
| "deployment_finish now i st sha rb lg ms d = (r, d') \<Longrightarrow> repo_step d d'"
| "pipeline_Create rnd u now p n y d = (r, d') \<Longrightarrow> repo_step d d'"
| "pipeline_Delete i d = (r, d') \<Longrightarrow> repo_step d d'"
| "CreateRun u now pi tk d = (r, d') \<Longrightarrow> repo_step d d'"
| "FinishRun now i st js d = (r, d') \<Longrightarrow> repo_step d d'"
| "upsertServiceRecord now s d = (r, d') \<Longrightarrow> repo_step d d'"
| "DeleteServiceRecordsForProject p d = (r, d') \<Longrightarrow> repo_step d d'"
| "importLegacyApps now as d = (r, d') \<Longrightarrow> repo_step d d'"
| "extension_Install w u sp d = (r, d') \<Longrightarrow> repo_step d d'"
| "extension_Enable w i (d, g) = (r, (d', g')) \<Longrightarrow> repo_step d d'"
| "extension_Disable i (d, g) = (r, (d', g')) \<Longrightarrow> repo_step d d'"
| "extension_Remove i (d, g) = (r, (d', g')) \<Longrightarrow> repo_step d d'"
| "secret_Put env ot oi k val v = (r, v') \<Longrightarrow> repo_step (vt_db v) (vt_db v')"
| "secret_Delete env ref v = (r, v') \<Longrightarrow> repo_step (vt_db v) (vt_db v')"
| "sql_insert ''audit_events'' (audit_cols u now ac tt ti rs cmd) d = (r, d') \<Longrightarrow> repo_step d d'"

lemma repo_step_typed: "repo_step d d' \<Longrightarrow> well_typed d \<Longrightarrow> well_typed d'"
  by (induction rule: repo_step.induct) (blast intro: typing)+

text \<open>From a database just made, with whatever the driver is to refuse in the course of it.\<close>

inductive db_history :: "db \<Rightarrow> bool" where
  "(\<And>t. tables d t = []) \<Longrightarrow> db_history d"
| "db_history d \<Longrightarrow> repo_step d d' \<Longrightarrow> db_history d'"
| "db_history d \<Longrightarrow> tables d' = tables d \<Longrightarrow> db_history d'"

text \<open>C7: Whatever operations the repositories perform, on whatever they are given and whichever statements the driver refuses:
  the tables written are those of the schema, so are the columns, each value is of its column's type and is there where the
  schema wants one, references point to rows that exist, and what is to be unique is.\<close>

theorem database_stays_well_typed:
  assumes "db_history d" "r \<in> set (tables d t)"
  shows "t \<in> set schema_tables \<and> (\<forall>c. value_ok t c (r c)) \<and> row_not_null t r \<and> row_references d t r \<and>
    (\<forall>c \<in> set (unique_cols t). r c \<noteq> Null \<longrightarrow> length (filter (\<lambda>r'. r' c = r c) (tables d t)) = 1)"
proof -
  have w: "well_typed d" using assms(1)
  proof (induction rule: db_history.induct)
    case (1 d)
    then show ?case by (simp add: well_typed_def db_ok_def)
  qed (auto dest: repo_step_typed well_typed_tables)
  then have t: "t \<in> set schema_tables" "row_typed t r" "row_not_null t r" "row_references d t r" "no_conflicts t (tables d t)"
    using assms(2) by (auto simp: well_typed_def db_ok_def)
  have "length (filter (\<lambda>r'. r' c = r c) rs) = 1"
    if "no_conflicts t rs" "r \<in> set rs" "c \<in> set (unique_cols t)" "r c \<noteq> Null" for c rs
    using that
  proof (induction rs)
    case (Cons x rs)
    show ?case
    proof (cases "x = r")
      case True
      have "y c \<noteq> r c" if "y \<in> set rs" for y using True Cons.prems that by (force simp: rows_conflict_def)
      then have "filter (\<lambda>r'. r' c = r c) rs = []" by (simp add: filter_empty_conv)
      with True show ?thesis by simp
    next
      case False
      then have "r \<in> set rs" using Cons.prems by simp
      moreover from this have "x c \<noteq> r c" using Cons.prems by (force simp: rows_conflict_def)
      ultimately show ?thesis using Cons by simp
    qed
  qed simp
  with t assms(2) show ?thesis by (simp add: row_typed_def)
qed

text \<open>A job that is recorded.\<close>

lemma database_stays_well_typed_witness:
  "\<exists>d r. db_history d \<and> r \<in> set (tables d ''jobs'') \<and> r ''id'' = Text ''j'' \<and> fits StampT (r ''started_at'') \<and> r ''finished_at'' = Null"
proof -
  let ?d = "\<lparr> tables = \<lambda>_. [], faults = [] \<rparr>"
  let ?r = "make_row ''jobs'' [(''id'', Text ''j''), (''kind'', Text ''install''), (''target'', Text ''php''),
     (''status'', Text JobRunning), (''log_file'', Text []), (''started_at'', rfc3339 0)]"
  have h0: "db_history ?d" by (rule db_history.intros(1)) simp
  obtain x d where c: "job_Create ''j'' 0 ''install'' ''php'' [] ?d = (x, d)" by (cases "job_Create ''j'' 0 ''install'' ''php'' [] ?d")
  then have r: "?r \<in> set (tables d ''jobs'')"
    by (auto simp: job_Create_def sql_insert_nofault raw_insert_def row_not_null_def not_null_cols_def required_cols_def column_defaults_def
        make_row_def rfc3339_def row_references_def foreign_keys_def with_table_def split: if_splits)
  have h: "db_history d" by (rule db_history.intros(2) [OF h0 repo_step.intros(4) [OF c]])
  from database_stays_well_typed [OF h r] have "value_ok ''jobs'' ''started_at'' (?r ''started_at'')" by blast
  then have "fits StampT (?r ''started_at'')" by (simp add: value_ok_def columns_def)
  moreover have "?r ''id'' = Text ''j''" "?r ''finished_at'' = Null" by (simp_all add: make_row_def column_defaults_def)
  ultimately show ?thesis using h r by blast
qed

end
