(* ===== verification/ServiceOutput.thy ===== *)
theory ServiceOutput
  imports Hub Brew
begin

text \<open>
  What becomes of the output of a service: \<open>pipeLogs\<close> of \<open>internal/domain/service/manager.go\<close>, which runs once for
  each of the two streams, and \<open>drainStderr\<close> of \<open>internal/pluginhost/host.go\<close>.

  The process, the two readers and \<open>awaitExit\<close> run side by side, so they are steps of a relation.  A pipe
  holds 64 KiB; what a stream was given and what was taken out of its pipe is kept as history.
\<close>

datatype stream = Stdout | Stderr

text \<open>\<open>rd_hung\<close>: nobody can write to the stream any more.  \<open>rd_buf\<close> is the buffer of the scanner.\<close>

record reader =
  rd_written :: bytes
  rd_hung :: bool
  rd_read :: bytes
  rd_buf :: bytes
  rd_going :: bool

text \<open>\<open>so_seq\<close> lists the lines that were passed on, with their streams and the milliseconds of the clock.\<close>

type_synonym log_entry = "stream \<times> bytes \<times> int"

record outputs =
  so_reader :: "stream \<Rightarrow> reader"
  so_exited :: bool
  so_closed :: bool
  so_log :: bytes
  so_log_open :: bool
  so_hub :: hub_state
  so_seq :: "log_entry list"

definition pipe_size :: nat where "pipe_size = 65536"

definition new_reader :: reader where
  "new_reader = \<lparr> rd_written = [], rd_hung = False, rd_read = [], rd_buf = [], rd_going = True \<rparr>"

definition piped :: "bytes \<Rightarrow> hub_state \<Rightarrow> outputs" where
  "piped old hub = \<lparr> so_reader = (\<lambda>_. new_reader), so_exited = False, so_closed = False, so_log = old, so_log_open = True,
                     so_hub = hub, so_seq = [] \<rparr>"

definition set_reader :: "stream \<Rightarrow> reader \<Rightarrow> outputs \<Rightarrow> outputs" where
  "set_reader x r s = s\<lparr> so_reader := (so_reader s)(x := r) \<rparr>"

section \<open>The loop over the lines\<close>

definition line_text :: "log_entry \<Rightarrow> bytes" where
  "line_text e = fst (snd e) @ [CHR 0x0A]"

definition log_payload :: "(json \<Rightarrow> bytes) \<Rightarrow> string \<Rightarrow> log_entry \<Rightarrow> bytes" where
  "log_payload pj i e =
     pj (JObj [(''data'', JStr (line_text e)), (''id'', JStr i), (''ts'', JNum (snd (snd e))), (''type'', JStr ''log'')])"

text \<open>The body: a write to a file that has been closed fails, and nobody looks.\<close>

definition log_line :: "(json \<Rightarrow> bytes) \<Rightarrow> string \<Rightarrow> log_entry \<Rightarrow> outputs \<Rightarrow> outputs" where
  "log_line pj i e s =
     s\<lparr> so_log := (if so_log_open s then so_log s @ line_text e else so_log s),
        so_hub := Emit (log_payload pj i e) (so_hub s), so_seq := so_seq s @ [e] \<rparr>"

text \<open>
  A turn of \<open>Scan\<close>: a line that is in the buffer is taken; else the buffer is full, the stream is at its end or
  its reading end was closed, or more is read, as much as the kernel gives (\<open>k\<close>).
\<close>

definition scan_turn :: "(json \<Rightarrow> bytes) \<Rightarrow> string \<Rightarrow> int \<Rightarrow> nat \<Rightarrow> stream \<Rightarrow> outputs \<Rightarrow> outputs" where
  "scan_turn pj i now k x s =
     (let r = so_reader s x; waiting = drop (length (rd_read r)) (rd_written r); buf = rd_buf r in
      if \<not> rd_going r then s
      else if CHR 0x0A \<in> set buf then
        log_line pj i (x, chomp_cr (takeWhile (\<lambda>c. c \<noteq> CHR 0x0A) buf), now)
          (set_reader x (r\<lparr> rd_buf := tl (dropWhile (\<lambda>c. c \<noteq> CHR 0x0A) buf) \<rparr>) s)
      else if max_line \<le> length buf then set_reader x (r\<lparr> rd_going := False \<rparr>) s
      else if so_closed s \<or> waiting = [] \<and> rd_hung r then
        (let s' = set_reader x (r\<lparr> rd_buf := [], rd_going := False \<rparr>) s
         in if buf = [] then s' else log_line pj i (x, chomp_cr buf, now) s')
      else
        (let chunk = take (min k (max_line - length buf)) waiting
         in set_reader x (r\<lparr> rd_read := rd_read r @ chunk, rd_buf := buf @ chunk \<rparr>) s))"

text \<open>
  Beside the readers: whoever holds the stream writes to it as far as the pipe has room, or lets go of it; the
  process exits; \<open>Wait\<close> then closes the reading ends of the pipes, and \<open>awaitExit\<close> the log file; and the hub
  goes on.
\<close>

inductive out_step :: "hub \<Rightarrow> (json \<Rightarrow> bytes) \<Rightarrow> string \<Rightarrow> outputs \<Rightarrow> outputs \<Rightarrow> bool" for h pj i where
  Print: "\<not> rd_hung (so_reader s x) \<Longrightarrow> \<not> so_closed s \<Longrightarrow>
    length (rd_written (so_reader s x)) + length b \<le> length (rd_read (so_reader s x)) + pipe_size \<Longrightarrow>
    out_step h pj i s (set_reader x ((so_reader s x)\<lparr> rd_written := rd_written (so_reader s x) @ b \<rparr>) s)"
| Hang: "out_step h pj i s (set_reader x ((so_reader s x)\<lparr> rd_hung := True \<rparr>) s)"
| Turn: "out_step h pj i s (scan_turn pj i now k x s)"
| Exit: "out_step h pj i s (s\<lparr> so_exited := True \<rparr>)"
| Wait: "so_exited s \<Longrightarrow> out_step h pj i s (s\<lparr> so_closed := True \<rparr>)"
| CloseLog: "so_closed s \<Longrightarrow> out_step h pj i s (s\<lparr> so_log_open := False \<rparr>)"
| Other: "hub_step h (so_hub s) hub' \<Longrightarrow> out_step h pj i s (s\<lparr> so_hub := hub' \<rparr>)"

inductive out_reach :: "hub \<Rightarrow> (json \<Rightarrow> bytes) \<Rightarrow> string \<Rightarrow> outputs \<Rightarrow> outputs \<Rightarrow> bool" for h pj i s0 where
  Here: "out_reach h pj i s0 s0"
| There: "out_reach h pj i s0 s \<Longrightarrow> out_step h pj i s s' \<Longrightarrow> out_reach h pj i s0 s'"

inductive_cases out_stepE: "out_step h pj i s s'"

text \<open>What an extension prints on its standard error goes to the daemon's log, line by line; \<open>q\<close> quotes the name.\<close>

definition drainStderr :: "(string \<Rightarrow> string) \<Rightarrow> string \<Rightarrow> bytes \<Rightarrow> string list" where
  "drainStderr q name out = map (\<lambda>l. ''volt: extension '' @ q name @ '' stderr: '' @ l) (scan_lines out)"

section \<open>What is passed on\<close>

definition lines_of :: "stream \<Rightarrow> log_entry list \<Rightarrow> bytes list" where
  "lines_of x es = map (fst \<circ> snd) (filter (\<lambda>e. fst e = x) es)"

lemma lines_of_simps [simp]:
  "lines_of x [] = []" "lines_of x (es @ [e]) = lines_of x es @ (if fst e = x then [fst (snd e)] else [])"
  by (simp_all add: lines_of_def)

text \<open>The whole lines that were taken out of the pipe, and what is left.\<close>

definition whole :: "bytes list \<Rightarrow> bytes" where
  "whole raw = concat (map (\<lambda>l. l @ [CHR 0x0A]) raw)"

definition plain_line :: "bytes \<Rightarrow> bool" where
  "plain_line l \<longleftrightarrow> CHR 0x0A \<notin> set l \<and> length l < max_line"

definition reader_ok :: "reader \<Rightarrow> bytes list \<Rightarrow> bool" where
  "reader_ok r ls \<longleftrightarrow> prefix (rd_read r) (rd_written r) \<and> length (rd_written r) \<le> length (rd_read r) + pipe_size \<and>
     (if rd_going r then length (rd_buf r) \<le> max_line \<and>
        (\<exists>raw. rd_read r = whole raw @ rd_buf r \<and> list_all plain_line raw \<and> ls = map chomp_cr raw)
      else ls = scan_lines (rd_read r))"

lemma split_on_whole:
  assumes "list_all plain_line raw" "CHR 0x0A \<notin> set buf"
  shows "split_on CHR 0x0A (whole raw @ buf) = raw @ [buf]"
  using assms
proof (induction raw)
  case Nil
  then show ?case by (simp add: whole_def split_on_plain)
next
  case (Cons l raw)
  then show ?case by (simp add: whole_def plain_line_def split_on_append split_on_plain)
qed

lemma scan_lines_whole:
  assumes "list_all plain_line raw" "CHR 0x0A \<notin> set buf"
  shows "scan_lines (whole raw @ buf) = map chomp_cr (raw @ (if buf \<noteq> [] \<and> length buf < max_line then [buf] else []))"
proof -
  have raw: "\<forall>l\<in>set raw. length l < max_line" using assms(1) by (simp add: list_all_iff plain_line_def)
  then have tw: "takeWhile (\<lambda>l. length l < max_line) (raw @ ls) = raw @ takeWhile (\<lambda>l. length l < max_line) ls" for ls
    by (simp add: takeWhile_append2)
  have "(0::nat) < max_line" by (simp add: max_line_def)
  then show ?thesis 
    by (simp add: scan_lines_def split_on_whole [OF assms] Let_def tw takeWhile_eq_all_conv [THEN iffD2, OF raw] del: chomp_cr.simps)
qed

lemma reader_ok_new: "reader_ok new_reader []"
  by (simp add: reader_ok_def new_reader_def pipe_size_def whole_def)

text \<open>The readers after a step, and the line that is passed on by it.\<close>

lemma reader_ok_print:
  "reader_ok r ls \<Longrightarrow> length (rd_written r) + length b \<le> length (rd_read r) + pipe_size \<Longrightarrow>
    reader_ok (r\<lparr> rd_written := rd_written r @ b \<rparr>) ls"
  by (simp add: reader_ok_def)

lemma reader_ok_hang: "reader_ok (r\<lparr> rd_hung := True \<rparr>) ls = reader_ok r ls"
  by (simp add: reader_ok_def)

lemma reader_ok_line:
  assumes "reader_ok r ls" "rd_going r" "CHR 0x0A \<in> set (rd_buf r)"
  defines "l \<equiv> takeWhile (\<lambda>c. c \<noteq> CHR 0x0A) (rd_buf r)" and "rest \<equiv> tl (dropWhile (\<lambda>c. c \<noteq> CHR 0x0A) (rd_buf r))"
  shows "reader_ok (r\<lparr> rd_buf := rest \<rparr>) (ls @ [chomp_cr l])"
proof -
  obtain raw where raw: "rd_read r = whole raw @ rd_buf r" "list_all plain_line raw" "ls = map chomp_cr raw"
    and len: "length (rd_buf r) \<le> max_line"
    using assms(1,2) by (auto simp: reader_ok_def)
  have "dropWhile (\<lambda>c. c \<noteq> CHR 0x0A) (rd_buf r) = CHR 0x0A # rest"
    using assms(3) hd_dropWhile [of "\<lambda>c. c \<noteq> CHR 0x0A" "rd_buf r"]
    by (cases "dropWhile (\<lambda>c. c \<noteq> CHR 0x0A) (rd_buf r)") (auto simp: rest_def dropWhile_eq_Nil_conv)
  with takeWhile_dropWhile_id [of "\<lambda>c. c \<noteq> CHR 0x0A" "rd_buf r"] have buf: "rd_buf r = l @ CHR 0x0A # rest"
    by (simp add: l_def)
  have "CHR 0x0A \<notin> set l" using set_takeWhileD by (fastforce simp: l_def)
  then have "rd_read r = whole (raw @ [l]) @ rest" "list_all plain_line (raw @ [l])" "length rest \<le> max_line"
    using raw(1,2) len buf by (simp_all add: whole_def plain_line_def)
  then show ?thesis using assms(1,2) raw(3)
    unfolding reader_ok_def by (intro conjI) (auto intro!: exI [of _ "raw @ [l]"] simp del: chomp_cr.simps)
qed

lemma reader_ok_stop:
  assumes "reader_ok r ls" "rd_going r" "CHR 0x0A \<notin> set (rd_buf r)" "rd_read r' = rd_read r" "rd_written r' = rd_written r" "\<not> rd_going r'"
  shows "reader_ok r' (ls @ (if rd_buf r \<noteq> [] \<and> length (rd_buf r) < max_line then [chomp_cr (rd_buf r)] else []))"
proof -
  obtain raw where raw: "rd_read r = whole raw @ rd_buf r" "list_all plain_line raw" "ls = map chomp_cr raw"
    using assms(1,2) by (auto simp: reader_ok_def)
  then have "ls @ (if rd_buf r \<noteq> [] \<and> length (rd_buf r) < max_line then [chomp_cr (rd_buf r)] else []) = scan_lines (rd_read r)"
    using scan_lines_whole [OF raw(2) assms(3)] by (simp del: chomp_cr.simps)
  then show ?thesis using assms by (simp add: reader_ok_def del: chomp_cr.simps)
qed

lemma reader_ok_fill:
  assumes "reader_ok r ls" "rd_going r" "length (rd_buf r) < max_line"
    and chunk_def: "chunk = take (min k (max_line - length (rd_buf r))) (drop (length (rd_read r)) (rd_written r))"
  shows "reader_ok (r\<lparr> rd_read := rd_read r @ chunk, rd_buf := rd_buf r @ chunk \<rparr>) ls"
proof -
  obtain rest where w: "rd_written r = rd_read r @ rest" using assms(1) by (auto simp: reader_ok_def prefix_def)
  then have p: "prefix (rd_read r @ chunk) (rd_written r)" by (simp add: chunk_def take_is_prefix)
  have "length (rd_buf r @ chunk) \<le> max_line" using assms(3) by (simp add: chunk_def)
  with p assms(1,2) show ?thesis by (auto simp: reader_ok_def)
qed

definition passed_on :: "(json \<Rightarrow> bytes) \<Rightarrow> string \<Rightarrow> bytes \<Rightarrow> bytes list \<Rightarrow> outputs \<Rightarrow> bool" where
  "passed_on pj i old sent s \<longleftrightarrow>
     (\<exists>n. so_log s = old @ concat (map line_text (take n (so_seq s))) \<and> (so_log_open s \<longrightarrow> length (so_seq s) \<le> n)) \<and>
     subseq (sent @ map (log_payload pj i) (so_seq s)) (hs_emitted (so_hub s))"

definition out_inv :: "(json \<Rightarrow> bytes) \<Rightarrow> string \<Rightarrow> bytes \<Rightarrow> bytes list \<Rightarrow> outputs \<Rightarrow> bool" where
  "out_inv pj i old sent s \<longleftrightarrow> passed_on pj i old sent s \<and> (\<forall>x. reader_ok (so_reader s x) (lines_of x (so_seq s)))"

lemma set_reader_simps [simp]:
  "so_reader (set_reader x r s) = (so_reader s)(x := r)" "so_exited (set_reader x r s) = so_exited s"
  "so_closed (set_reader x r s) = so_closed s" "so_log (set_reader x r s) = so_log s"
  "so_log_open (set_reader x r s) = so_log_open s" "so_hub (set_reader x r s) = so_hub s" "so_seq (set_reader x r s) = so_seq s"
  by (simp_all add: set_reader_def)

lemma passed_on_set_reader [simp]: "passed_on pj i old sent (set_reader x r s) = passed_on pj i old sent s"
  by (simp add: passed_on_def)

lemma out_inv_set_reader:
  "out_inv pj i old sent s \<Longrightarrow> reader_ok r (lines_of x (so_seq s)) \<Longrightarrow> out_inv pj i old sent (set_reader x r s)"
  by (simp add: out_inv_def)

lemma Emit_emitted: "hs_emitted (Emit b hb) = hs_emitted hb @ [b]"
  by (simp add: Emit_def)

lemma passed_on_log_line:
  assumes "passed_on pj i old sent s"
  shows "passed_on pj i old sent (log_line pj i e s)"
proof -
  obtain n where n: "so_log s = old @ concat (map line_text (take n (so_seq s)))" "so_log_open s \<longrightarrow> length (so_seq s) \<le> n"
    using assms by (auto simp: passed_on_def)
  show ?thesis unfolding passed_on_def
  proof (intro conjI)
    show "\<exists>n. so_log (log_line pj i e s) = old @ concat (map line_text (take n (so_seq (log_line pj i e s)))) \<and>
      (so_log_open (log_line pj i e s) \<longrightarrow> length (so_seq (log_line pj i e s)) \<le> n)"
    proof (cases "so_log_open s")
      case True
      then show ?thesis using n by (intro exI [of _ "Suc (length (so_seq s))"]) (simp add: log_line_def)
    next
      case False
      then show ?thesis using n(1) by (intro exI [of _ "min n (length (so_seq s))"]) (simp add: log_line_def min_def)
    qed
    show "subseq (sent @ map (log_payload pj i) (so_seq (log_line pj i e s))) (hs_emitted (so_hub (log_line pj i e s)))"
      using assms list_emb_append_mono [of "(=)" "sent @ map (log_payload pj i) (so_seq s)" "hs_emitted (so_hub s)"
          "[log_payload pj i e]" "[log_payload pj i e]"]
      by (simp add: passed_on_def log_line_def Emit_emitted)
  qed
qed

lemma out_inv_log_line:
  assumes "out_inv pj i old sent s" "reader_ok r (lines_of x (so_seq s) @ [l])"
  shows "out_inv pj i old sent (log_line pj i (x, l, t) (set_reader x r s))"
  using assms passed_on_log_line [of pj i old sent "set_reader x r s" "(x, l, t)"] by (simp add: out_inv_def log_line_def)

lemma out_inv_turn:
  assumes "out_inv pj i old sent s"
  shows "out_inv pj i old sent (scan_turn pj i now k x s)"
proof (cases "rd_going (so_reader s x)")
  case True
  let ?r = "so_reader s x" and ?ls = "lines_of x (so_seq s)"
  have ok: "reader_ok ?r ?ls" using assms by (simp add: out_inv_def)
  consider "CHR 0x0A \<in> set (rd_buf ?r)"
    | "CHR 0x0A \<notin> set (rd_buf ?r)" "max_line \<le> length (rd_buf ?r)"
    | "CHR 0x0A \<notin> set (rd_buf ?r)" "length (rd_buf ?r) < max_line"
      "so_closed s \<or> drop (length (rd_read ?r)) (rd_written ?r) = [] \<and> rd_hung ?r"
    | "CHR 0x0A \<notin> set (rd_buf ?r)" "length (rd_buf ?r) < max_line"
      "\<not> (so_closed s \<or> drop (length (rd_read ?r)) (rd_written ?r) = [] \<and> rd_hung ?r)"
    by linarith
  then show ?thesis
  proof cases
    case 1
    then show ?thesis using True out_inv_log_line [OF assms reader_ok_line [OF ok True 1]]
      by (simp add: scan_turn_def Let_def del: chomp_cr.simps)
  next
    case 2
    then have "reader_ok (?r\<lparr> rd_going := False \<rparr>) ?ls"
      using reader_ok_stop [OF ok True 2(1), of "?r\<lparr> rd_going := False \<rparr>"] by (simp del: chomp_cr.simps)
    then show ?thesis using True 2 out_inv_set_reader [OF assms] by (simp add: scan_turn_def Let_def)
  next
    case 3
    let ?r' = "?r\<lparr> rd_buf := [], rd_going := False \<rparr>"
    have "reader_ok ?r' (?ls @ (if rd_buf ?r = [] then [] else [chomp_cr (rd_buf ?r)]))"
      using reader_ok_stop [OF ok True 3(1), of ?r'] 3(2) by (simp del: chomp_cr.simps split: if_splits)
    then show ?thesis using True 3 out_inv_set_reader [OF assms, of ?r' x] out_inv_log_line [OF assms, of ?r' x "chomp_cr (rd_buf ?r)" now]
      by (cases "rd_buf ?r = []") (simp_all add: scan_turn_def Let_def del: chomp_cr.simps)
  next
    case 4
    then show ?thesis using True out_inv_set_reader [OF assms reader_ok_fill [OF ok True 4(2) refl]]
      by (auto simp: scan_turn_def Let_def simp del: chomp_cr.simps)
  qed
qed (use assms in \<open>simp add: scan_turn_def\<close>)

lemma hub_step_emitted: "hub_step h a b \<Longrightarrow> prefix (hs_emitted a) (hs_emitted b)"
  by (erule hub_stepE) (auto simp: ServeWs_def drop_client_def Emit_def run_receive_def run_broadcast_def split: option.splits list.splits)

lemma out_inv_step:
  assumes "out_step h pj i s s'" "out_inv pj i old sent s"
  shows "out_inv pj i old sent s'"
  using assms(1)
proof (cases rule: out_step.cases)
  case (Print x b)
  then show ?thesis using assms(2) by (auto intro!: out_inv_set_reader reader_ok_print simp: out_inv_def)
next
  case (Hang x)
  then show ?thesis using assms(2) by (auto intro!: out_inv_set_reader simp: reader_ok_hang out_inv_def)
next
  case (Turn now k x)
  then show ?thesis using out_inv_turn [OF assms(2)] by simp
next
  case (Other hub')
  then have "subseq (hs_emitted (so_hub s)) (hs_emitted hub')" by (intro prefix_imp_subseq hub_step_emitted)
  then show ?thesis using Other assms(2) subseq_order.order_trans by (auto simp: out_inv_def passed_on_def)
qed (use assms(2) in \<open>auto simp: out_inv_def passed_on_def\<close>)

lemma out_inv_reach:
  assumes "out_reach h pj i s0 s" "out_inv pj i old sent s0"
  shows "out_inv pj i old sent s"
  using assms by (induction) (auto intro: out_inv_step)

lemma out_inv_piped: "out_inv pj i old (hs_emitted hub) (piped old hub)"
  by (simp add: out_inv_def passed_on_def piped_def reader_ok_new)


section \<open>A reader that gets its turns comes to the end of its stream\<close>

















section \<open>What a service's log holds\<close>






text \<open>A reader that has stopped takes nothing more out of its pipe.\<close>

definition stopped_at :: "stream \<Rightarrow> bytes \<Rightarrow> bytes list \<Rightarrow> outputs \<Rightarrow> bool" where
  "stopped_at x b ls s \<longleftrightarrow> \<not> rd_going (so_reader s x) \<and> rd_read (so_reader s x) = b \<and> lines_of x (so_seq s) = ls \<and>
     length (rd_written (so_reader s x)) \<le> length b + pipe_size"

lemma stopped_at_step:
  assumes "out_step h pj i s s'" "stopped_at x b ls s"
  shows "stopped_at x b ls s'"
  using assms(1)
proof (cases rule: out_step.cases)
  case (Turn now k y)
  then show ?thesis using assms(2)
    by (cases "y = x") (simp_all add: scan_turn_def Let_def stopped_at_def log_line_def del: chomp_cr.simps)
qed (use assms(2) in \<open>auto simp: stopped_at_def\<close>)

lemma stopped_at_reach:
  "out_reach h pj i s s' \<Longrightarrow> stopped_at x b ls s \<Longrightarrow> stopped_at x b ls s'"
  by (induction rule: out_reach.induct) (auto intro: stopped_at_step)

text \<open>C39: A line of 64 KiB ends the reading of its stream for good, although nothing has failed: no later line of the
  stream is logged, nobody takes anything out of its pipe, and so the process can print no more than the pipe holds,
  after which it hangs in its next write.\<close>

lemma long_line_stalls_the_service:
  assumes "out_reach h pj i (piped old hub) s" "rd_going (so_reader s x)"
    and "CHR 0x0A \<notin> set (rd_buf (so_reader s x))" "length (rd_buf (so_reader s x)) = max_line"
    and "out_reach h pj i (scan_turn pj i now k x s) s'"
  shows "\<not> rd_going (so_reader s' x) \<and> lines_of x (so_seq s') = lines_of x (so_seq s) \<and>
    rd_read (so_reader s' x) = rd_read (so_reader s x) \<and>
    length (rd_written (so_reader s' x)) \<le> length (rd_read (so_reader s x)) + pipe_size"
proof -
  have "length (rd_written (so_reader s x)) \<le> length (rd_read (so_reader s x)) + pipe_size"
    using out_inv_reach [OF assms(1) out_inv_piped] by (auto simp: out_inv_def reader_ok_def)
  then have "stopped_at x (rd_read (so_reader s x)) (lines_of x (so_seq s)) (scan_turn pj i now k x s)"
    using assms(2-4) by (simp add: scan_turn_def Let_def stopped_at_def)
  from stopped_at_reach [OF assms(5) this] show ?thesis by (simp add: stopped_at_def)
qed

lemma pipe_size_is: "pipe_size = max_line"
  by (simp add: pipe_size_def max_line_def)

lemma max_line_positive: "max_line \<noteq> 0"
  by (simp add: max_line_def)

definition demo_long :: outputs where
  "demo_long = set_reader Stdout (new_reader\<lparr> rd_written := replicate max_line CHR ''a'', rd_read := replicate max_line CHR ''a'',
     rd_buf := replicate max_line CHR ''a'' \<rparr>) (piped [] NewHub)"

lemma demo_long_reach: "out_reach h (\<lambda>_. []) ''web'' (piped [] NewHub) demo_long"
proof -
  let ?s = "set_reader Stdout (new_reader\<lparr> rd_written := replicate max_line CHR ''a'' \<rparr>) (piped [] NewHub)"
  have "out_step h (\<lambda>_. []) ''web'' (piped [] NewHub) ?s"
    using Print [of "piped [] NewHub" Stdout "replicate max_line CHR ''a''" h "\<lambda>_. []" "''web''"]
    by (simp add: piped_def new_reader_def pipe_size_is)
  moreover have "scan_turn (\<lambda>_. []) ''web'' 0 max_line Stdout ?s = demo_long"
    by (simp add: scan_turn_def Let_def demo_long_def set_reader_def piped_def new_reader_def max_line_positive)
  ultimately show ?thesis by (metis There Here Turn)
qed

lemma long_line_stalls_the_service_witness:
  "\<not> rd_going (so_reader (scan_turn (\<lambda>_. []) ''web'' 0 1 Stdout demo_long) Stdout) \<and>
   lines_of Stdout (so_seq (scan_turn (\<lambda>_. []) ''web'' 0 1 Stdout demo_long)) = []"
proof -
  have "CHR 0x0A \<notin> set (rd_buf (so_reader demo_long Stdout))" "length (rd_buf (so_reader demo_long Stdout)) = max_line"
    "rd_going (so_reader demo_long Stdout)" "so_seq demo_long = []"
    by (simp_all add: demo_long_def new_reader_def piped_def)
  with long_line_stalls_the_service [OF demo_long_reach _ _ _ Here, of Stdout] show ?thesis by simp
qed

lemma scan_turn_closed:
  "rd_going (so_reader s x) \<Longrightarrow> rd_buf (so_reader s x) = [] \<Longrightarrow> so_closed s \<Longrightarrow>
    scan_turn pj i now k x s = set_reader x ((so_reader s x)\<lparr> rd_buf := [], rd_going := False \<rparr>) s"
  by (simp add: scan_turn_def Let_def max_line_def)

text \<open>Whatever a process prints before it ends can be lost: \<open>Wait\<close> runs beside the readers and closes the pipes
  when the process is gone, whether or not anything has been read.\<close>

lemma last_output_can_be_lost:
  assumes "length b \<le> pipe_size"
  shows "\<exists>s. out_reach h pj i (piped old hub) s \<and> rd_written (so_reader s Stderr) = b \<and> so_exited s \<and> \<not> so_log_open s \<and>
    (\<forall>x. \<not> rd_going (so_reader s x)) \<and> so_log s = old \<and> so_hub s = hub"
proof -
  let ?s0 = "piped old hub"
  let ?s1 = "set_reader Stderr (new_reader\<lparr> rd_written := b \<rparr>) ?s0"
  let ?s2 = "?s1\<lparr> so_exited := True, so_closed := True, so_log_open := False \<rparr>"
  let ?s3 = "scan_turn pj i 0 2 Stdout (scan_turn pj i 0 2 Stderr ?s2)"
  have n: "so_reader ?s0 x = new_reader" for x by (simp add: piped_def)
  have "out_step h pj i ?s0 ?s1"
    using Print [of ?s0 Stderr b h pj i] assms by (simp add: n) (simp add: new_reader_def piped_def)
  from There [OF There [OF Here this] Exit] have "out_reach h pj i ?s0 (?s1\<lparr> so_exited := True \<rparr>)" .
  then have "out_reach h pj i ?s0 (?s1\<lparr> so_exited := True, so_closed := True \<rparr>)" by (rule There) (rule Wait, simp)
  then have "out_reach h pj i ?s0 ?s2" by (rule There) (rule CloseLog, simp)
  from There [OF There [OF this Turn] Turn] have "out_reach h pj i ?s0 ?s3" .
  moreover have t: "scan_turn pj i 0 2 Stderr ?s2 = set_reader Stderr (new_reader\<lparr> rd_written := b, rd_going := False \<rparr>) ?s2"
    by (subst scan_turn_closed) (simp_all add: new_reader_def)
  have "?s3 = set_reader Stdout (new_reader\<lparr> rd_going := False \<rparr>) (scan_turn pj i 0 2 Stderr ?s2)"
    unfolding t by (subst scan_turn_closed) (simp_all add: n, simp_all add: new_reader_def)
  then have fin: "so_reader ?s3 = (\<lambda>_. new_reader)(Stderr := new_reader\<lparr> rd_written := b, rd_going := False \<rparr>, Stdout := new_reader\<lparr> rd_going := False \<rparr>)"
    "so_exited ?s3" "\<not> so_log_open ?s3" "so_log ?s3 = old" "so_hub ?s3 = hub"
    unfolding t by (simp_all add: piped_def fun_eq_iff)
  have "\<not> rd_going (so_reader ?s3 x)" for x by (cases x) (simp_all add: fin(1))
  ultimately show ?thesis using fin by (intro exI [of _ ?s3]) (simp add: fin(1))
qed

lemma last_output_can_be_lost_witness:
  "\<forall>h pj i. \<exists>s. out_reach h pj i (piped [] NewHub) s \<and> rd_written (so_reader s Stderr) = ''no such table'' \<and> so_log s = []"
  using last_output_can_be_lost [of "''no such table''" _ _ _ "[]" NewHub] by (fastforce simp: pipe_size_def)

end
