(* ===== verification/Spec2Isabelle.thy ===== *)
theory Spec2Isabelle
  imports Topo Servers Sandbox Projects Jobs Runtimes DomainNames Connections Proxy HostsFile ServiceManager Deployments ProjectHandlers PipelineHandlers Extensions SessionAuth Secrets
    ServerHandlers GitHandlers DbHandlers RuntimeProviders SslHandlers PackageHandlers DockerHandlers
    FileHandlers Config Startup Migrations Hub Routes ExtensionHandlers ServiceUnits Daemon Schema ServiceOutput
begin

text \<open>
  \<^bold>\<open>Verification of the voltpanel daemon.\<close>

  Voltpanel is a control panel for a developer's machine and the servers it deploys to.  One process, the
  daemon (\<open>cmd/voltpanel\<close>, \<open>internal/server\<close>), supervises services, keeps its records in a SQLite
  database, and answers an HTTP API (\<open>internal/api/v1\<close>) that a browser uses.  A request passes the
  middleware of its route, its handler reads and writes the database through the repositories under
  \<open>internal/domain\<close>, and calls the providers under \<open>internal/providers\<close> for what happens outside:
  processes, packages, containers, certificates, remote machines.  What goes on in the background is told to the
  browsers through a hub (\<open>internal/ws\<close>).  The development follows these layers; every theory opens
  with the files it models and what of them is an argument.

  \<^bold>\<open>The layers and their theories.\<close>

  \<^item> What all share.  \<open>Prelude\<close>: Go's \<open>strings\<close>, and the two lemma collections.  \<open>Decimal\<close>,
    \<open>Encoding\<close>, \<open>JsonDecode\<close>, \<open>GoPath\<close>: numerals, base64 and URL escaping, decoding into structs, paths.
    \<open>Filesystem\<close> and \<open>RealPaths\<close>: a file tree with symbolic links and package \<open>os\<close> on it.
    \<open>Shell\<close>: the words a POSIX shell makes of a command.
  \<^item> The database.  \<open>Database\<close>: tables and the statements the code issues, with the faults of the driver;
    \<open>Frames\<close>: which tables an operation leaves alone; \<open>Migrations\<close>: how the schema comes about
    (\<open>storage/sqlite.go\<close>); \<open>Schema\<close>: the types of the columns, and that every history of repository operations
    respects them.
  \<^item> The repositories (\<open>internal/domain\<close>, \<open>internal/storage\<close>).  \<open>Service\<close> and \<open>ServiceStore\<close>,
    \<open>Projects\<close> with the detection of frameworks, \<open>Jobs\<close>, \<open>Runtimes\<close>, \<open>DomainNames\<close>, \<open>Servers\<close>,
    \<open>Connections\<close> (integrations and database connections), \<open>Deployments\<close> (targets, records and the
    engine), \<open>Pipelines\<close> (definition, runner, repository), \<open>Extensions\<close>.
  \<^item> Services at run time.  \<open>Topo\<close>: the dependency order; \<open>ServiceManager\<close>: starting, stopping, crashes,
    restarts within their budget, sequentially and under every interleaving; \<open>ServiceOutput\<close>: what becomes of
    the output of a process.
  \<^item> Security (\<open>internal/security\<close>).  \<open>Sandbox\<close>: the file manager's root; \<open>SessionAuth\<close>: sessions and
    tokens; \<open>Secrets\<close>: keychain and encrypted fall-back.
  \<^item> Providers.  \<open>Proxy\<close>, \<open>HostsFile\<close>, \<open>LocalCA\<close>, \<open>Brew\<close>, \<open>Docker\<close>, \<open>DbAdmin\<close>, \<open>GitHub\<close>,
    \<open>RemoteSsh\<close>, \<open>NodeInstaller\<close>, \<open>PhpRuntime\<close>, \<open>RuntimeProviders\<close>, \<open>PluginHost\<close> (extensions as
    subprocesses) and \<open>Metrics\<close>.
  \<^item> Handlers (\<open>internal/api/v1\<close>).  \<open>Routes\<close>: which middleware stands before which handler; \<open>Handlers\<close>:
    the state of the daemon, responses, the audit log, services, projects and domains; then one theory
    per group of routes: \<open>ProjectHandlers\<close>, \<open>PipelineHandlers\<close> (deployments, pipelines, webhooks), \<open>SecretSite\<close> with
    \<open>ServerHandlers\<close>, \<open>GitHandlers\<close> and \<open>DbHandlers\<close> (all that keep a credential), \<open>RuntimeHandlers\<close>,
    \<open>SslHandlers\<close>, \<open>PackageHandlers\<close>, \<open>DockerHandlers\<close>, \<open>FileHandlers\<close>, \<open>ExtensionHandlers\<close>.
  \<^item> The daemon.  \<open>Config\<close>: its directory and configuration; \<open>Startup\<close>: opening the store, importing the
    services of former versions, restoring jobs, routes and extensions; \<open>Hub\<close>: messages to browsers;
    \<open>ServiceUnits\<close>: registration with launchd, systemd and Windows; \<open>Daemon\<close>: ports, the file with the process
    id, the command line, and shutting down.

  \<^bold>\<open>How state and operations correspond.\<close>  A Go struct is a record and an operation a definition of the
  same name on it that returns an error or a result with the new state; a branch of the code is a branch of the
  definition, errors included.  A panic is a result of its own where one can occur.  A handler takes the decoded
  request (or the decoder's message) and returns status, body and state; handlers are taken one at a time.  Where the
  code runs side by side and it matters, the critical sections are steps of an inductive relation:
  \<open>ServiceManager\<close>, \<open>Extensions\<close>, \<open>Brew\<close>, \<open>Hub\<close>, \<open>ServiceOutput\<close> and the life of the process in \<open>Daemon\<close>.
  A pointer that is shared (a loaded extension, a pool of connections) is an address in a store.

  \<^bold>\<open>Conventions.\<close>  Strings are lists of bytes; what Go defines on code points is modelled on the ASCII range.
  Clocks, random bytes, ids and the answers of commands, drivers and the network come with each call.  The
  database takes a list of faults, one per statement, and a commit can fail; the disk of \<open>LocalCA\<close> does likewise.
  Text columns that hold times or JSON are values of those; ties in \<open>ORDER BY\<close> keep the order of insertion.
  Cryptography is structural: a signature names the key that made it, and sealing is an argument with the laws of
  AES-GCM; a certificate is accepted only in its period.  The JSON codec of the configuration is an argument that gives
  back what it was given in UTF-8, and the keychain tool one that prints printable values as they are.  Texts of error messages are kept where code or a user can tell them apart.

  \<^bold>\<open>Interfaces.\<close>  \<open>id_store\<close> (\<open>Database\<close>) is what the repositories of projects, servers, domains, integrations and
  connections share: what \<open>Get\<close>, \<open>List\<close> and \<open>Delete\<close> say of each other.  \<open>secret_owner\<close> (\<open>SecretSite\<close>) is a
  row that refers to a secret, interpreted for servers, connections and integrations: a failed creation leaves no
  secret behind.  \<open>kind_registry\<close> (\<open>Extensions\<close>), \<open>route_table\<close> (\<open>Proxy\<close>) and \<open>runtime_detector\<close>
  (\<open>RuntimeHandlers\<close>, interpreted for Node.js and PHP in \<open>RuntimeProviders\<close>) are the contracts of the registry, the
  routing table and the providers that detect installed versions.

  \<^bold>\<open>What the lemmas show.\<close>  Of the data: types of all columns, keys and references (\<open>Schema\<close>), round trips of
  what is written and read back (files, frames, property lists, quoted names and arguments), migrations that
  resume.  Of the algorithms: the dependency order is one, always comes out, and fails exactly on cycles where ids are distinct; archives
  and resolved paths stay in their directories; names and commands carry no injection.  Of the machines:
  one live process per service, restarts within their budget, tracked extensions, handles, clients and jobs.  Of the
  compositions: a started project is routed and a stopped one is not; a restart of the daemon restores what the
  database says and nothing else; a request without credentials reaches no handler that needs them.  Where the code does
  otherwise than it means to, the theorem says what it does; among these are a write through a dangling link
  that leaves the sandbox, a line of output that stalls a service, a malformed URL that leaves a deployment running,
  and a private key that the keychain gives back in hexadecimal digits.

  \<^bold>\<open>Bounds and fuel.\<close>  No definition takes fuel that the code does not have: \<open>filepath.EvalSymlinks\<close> follows at most 255
  links and the kernel 40; a scanner takes lines below 64 KiB and a pipe holds as much; the hub's channel
  holds 1024 messages; 20 ports are tried; a restart polls 50 times; listings of repositories end after 10 pages.
  Other loops recurse on their data; the worklist of \<open>Topo\<close> is a partial function that is shown to return.

  \<^bold>\<open>Not modelled.\<close>  Third-party code is an argument with the behaviour the code relies on: SSH and SFTP, SQL drivers of
  administered databases, the HTTP transport, YAML and archive readers, the container engine.  The forwarding of
  the reverse proxy is \<open>net/http/httputil\<close>'s; its table and its decision are modelled.  Left out are: text forms of JSON and of
  times beyond what decoding makes of values; progress reports while something downloads or installs; following a log file
  from the command line; single system calls behind build tags (signals, the path of the hosts file, the start of the
  Windows service dispatcher); the interfaces in \<open>providers/contract.go\<close> that nothing implements; constructors that
  only fill in fields; and the browser's code and packaging files.
\<close>

end
